(* ===== verification/Prelude.thy ===== *)
theory Prelude
  imports Main "HOL-Library.Word"
begin

text \<open>
  Shared vocabulary of the development.

  \<^item> Machine integers and fixed-size byte arrays. \<open>u8\<close> \dots \<open>u64\<close> are words of that width.
    A Rust \<open>H256\<close> is a \<open>[u8; 32]\<close>; it is represented by the word whose big-endian bytes are the
    array, so \<open>h256.as_bytes()\<close> is \<open>as_bytes\<close> and every value has exactly 32 bytes. \<open>U256\<close> is the
    same word type, read as an integer.
  \<^item> \<open>to_be_bytes\<close>/\<open>to_little_endian\<close> and their inverses, as used by the hashing and
    serialization code.
  \<^item> Fallible code: \<open>anyhow::Result\<close> and panics are the sum type \<open>'a res\<close>; \<open>ensure\<close> is the
    \<open>ensure!\<close> macro in continuation form and \<open>and_then\<close> the \<open>?\<close> operator.
  \<^item> Generic lemmas on lists, words and results, collected in \<open>bytes_simps\<close> and \<open>res_simps\<close>.
\<close>

unbundle bit_operations_syntax

named_theorems bytes_simps \<open>lengths and round trips of byte encodings\<close>
named_theorems res_simps \<open>evaluation of results\<close>

type_synonym u8 = "8 word"
type_synonym u16 = "16 word"
type_synonym u32 = "32 word"
type_synonym u64 = "64 word"
type_synonym u256 = "256 word"
type_synonym h256 = "256 word"
type_synonym address = "160 word"
type_synonym hash_fn = "u8 list \<Rightarrow> h256"

section \<open>Byte encodings\<close>

text \<open>The \<open>n\<close> low bytes of a word, least significant first.\<close>

definition le_bytes :: "nat \<Rightarrow> 'a::len word \<Rightarrow> u8 list" where
  "le_bytes n w = map (\<lambda>i. ucast (drop_bit (8 * i) w)) [0..<n]"

definition be_bytes :: "nat \<Rightarrow> 'a::len word \<Rightarrow> u8 list" where
  "be_bytes n w = rev (le_bytes n w)"

fun from_le_bytes :: "u8 list \<Rightarrow> 'a::len word" where
  "from_le_bytes [] = 0"
| "from_le_bytes (b # bs) = ucast b OR push_bit 8 (from_le_bytes bs)"

definition from_be_bytes :: "u8 list \<Rightarrow> 'a::len word" where
  "from_be_bytes bs = from_le_bytes (rev bs)"

text \<open>\<open>H256::as_bytes\<close> and \<open>Address::as_bytes\<close>.\<close>

abbreviation as_bytes :: "h256 \<Rightarrow> u8 list" where
  "as_bytes \<equiv> be_bytes 32"

abbreviation address_bytes :: "address \<Rightarrow> u8 list" where
  "address_bytes \<equiv> be_bytes 20"

section \<open>Integer helpers\<close>

text \<open>Position after the highest set bit, as \<open>bits()\<close> and \<open>leading_zeros()\<close> of the integer types give it.\<close>

fun bit_len :: "nat \<Rightarrow> nat" where
  "bit_len n = (if n = 0 then 0 else Suc (bit_len (n div 2)))"

declare bit_len.simps [simp del]

text \<open>\<open>next_power_of_two\<close>, \<open>is_power_of_two\<close> and \<open>trailing_zeros\<close> of \<open>usize\<close>.\<close>

definition next_power_of_two :: "nat \<Rightarrow> nat" where
  "next_power_of_two n = (if n \<le> 1 then 1 else 2 ^ bit_len (n - 1))"

definition is_power_of_two :: "nat \<Rightarrow> bool" where
  "is_power_of_two n \<longleftrightarrow> n \<noteq> 0 \<and> 2 ^ (bit_len n - 1) = n"

fun trailing_zeros :: "nat \<Rightarrow> nat" where
  "trailing_zeros n = (if n = 0 then 64 else if odd n then 0 else Suc (trailing_zeros (n div 2)))"

declare trailing_zeros.simps [simp del]

text \<open>\<open>slice.chunks(n)\<close>.\<close>

function chunks :: "nat \<Rightarrow> 'a list \<Rightarrow> 'a list list" where
  "chunks n xs = (if xs = [] \<or> n = 0 then [] else take n xs # chunks n (drop n xs))"
  by pat_completeness auto
termination by (relation "measure (\<lambda>(n, xs). length xs)") auto

declare chunks.simps [simp del]

section \<open>Results\<close>

text \<open>
  Every failing check of the verifier pipeline, grouped by component, one constructor per \<open>ensure!\<close>, \<open>bail!\<close>,
  \<open>context\<close> or \<open>assert!\<close>/\<open>expect\<close> of the sources. \<open>Panic\<close> is an abort of the guest;
  \<open>PanicMsg\<close> and \<open>Failure\<close> carry the message of an \<open>assert!\<close>/\<open>expect\<close> or of an error value of the library crates.
\<close>

datatype panic =
    PathTooLong | InvalidBytecode | UnknownMarker | HeapEntryOutOfRange nat
  | EnumerationIndexTooLarge | TooManyInitialWrites | CompressedLengthTooLarge
  | PassThroughSize | UnknownStorageSlot | IndexTooLarge | CacheInvalid | NotPowerOfTwo
  | TreeTooDeep | IndexOutOfBounds | MissingSystemLog | UnsupportedVersion
  | UnalignedBytes | NextBlockAssertion | EmptyBlock | SnapshotFromFuture | PubdataNotSet | PubdataAlreadySet
  | PubdataTooBig | ValidatorShape | UnknownTx | NoCurrentTx | TxNotPushed | ArithmeticOverflow
  | TxHashError | EmulationDisabled | SnapshotMissing | SnapshotPresent | PanicMsg string

datatype witness_error =
    MerklePathTooLong nat | NotLegacyDelta | ReadMarkedFirstWrite u256
  | RepeatedWriteIndexZero u256 | ConflictingPreState u256 | CountMismatch nat nat
  | RootHashUnavailable | LegacyDeltaForm | KeyMismatch u256 u256 | MapLogReadValue | MapLogKind

datatype proof_error =
    InstructionsLength | ProofPathTooLong | OpRootMismatch h256 h256 | BaseNotRead | BaseNotWrite
  | PrevHashMismatch h256 h256 | NextHashMismatch h256 h256
  | MissingValueNotZero | RootHashMismatch h256 h256

datatype bytecode_error =
    BytecodeTooLong nat nat | BytecodeLengthIsNotDivisibleBy32 | BytecodeLengthInWordsIsEven
  | UnknownBytecodeMarker | BytecodeHashMismatch h256 h256
  | DictionaryOverflow | OnlyEvmHashes | EncodedLengthExceeds nat nat | NonZeroPadding

datatype commitment_error =
    SerializedSizeMismatch nat nat | StateDiffHashMismatch h256 h256
  | BlobLinearHashesMismatch "h256 list" "h256 list" | L2L1LogsTreeRootMismatch h256 h256
  | BlobArrayLength nat nat | BlobZeroLinearNonZeroCommitment nat | BlobNoPubdata nat
  | BlobLinearMismatch nat | BlobCommitmentMismatch nat | BlobHashesLength nat
  | ZkPorterMismatch | PrevCommitmentBinding h256 h256 | MissingPubdata

datatype input_error =
    UnsupportedProtocolVersion | UnsupportedFastVm | MissingPreviousBatchHash
  | EnforcedBaseFee | VmRunBatchNumber | VmRunProtocolVersion | PubdataValidatorShape
  | ExecutionModeNotVerify | ValidationGasLimit | FirstL2BlockMetadata
  | VmRunDefaultAa | VmRunEvmEmulator | VmRunBootloader | MissingCommitmentInput

datatype execution_error =
    MissingStateDiffs | MissingBootloaderMemory
  | LastBlockHasTxs | TransactionHalted | CompressionFailedUncompressed | FinalizationFailed

datatype error =
    Panic panic
  | Witness witness_error
  | Proof proof_error
  | Bytecode bytecode_error
  | Commitment commitment_error
  | Input input_error
  | Execution execution_error
  | Failure string

type_synonym 'a res = "error + 'a"

definition ensure :: "bool \<Rightarrow> error \<Rightarrow> 'a res \<Rightarrow> 'a res" where
  "ensure c e k = (if c then k else Inl e)"

definition and_then :: "'a res \<Rightarrow> ('a \<Rightarrow> 'b res) \<Rightarrow> 'b res" where
  "and_then m f = (case m of Inl e \<Rightarrow> Inl e | Inr x \<Rightarrow> f x)"

definition ok_or :: "error \<Rightarrow> 'a option \<Rightarrow> 'a res" where
  "ok_or e x = (case x of None \<Rightarrow> Inl e | Some y \<Rightarrow> Inr y)"

definition map_res :: "('a \<Rightarrow> 'b) \<Rightarrow> 'a res \<Rightarrow> 'b res" where
  "map_res f m = (case m of Inl e \<Rightarrow> Inl e | Inr x \<Rightarrow> Inr (f x))"

text \<open>What a caller that only looks at accept/reject sees of a result.\<close>

definition ok :: "'a res \<Rightarrow> 'a option" where
  "ok r = (case r of Inl _ \<Rightarrow> None | Inr x \<Rightarrow> Some x)"

text \<open>Collecting a list of results stops at the first error, as \<open>collect::<Result<Vec<_>>>\<close> does.\<close>

fun collect_res :: "'a res list \<Rightarrow> 'a list res" where
  "collect_res [] = Inr []"
| "collect_res (x # xs) = and_then x (\<lambda>y. and_then (collect_res xs) (\<lambda>ys. Inr (y # ys)))"

section \<open>Lemmas on results\<close>

lemma ensure_simps [res_simps, simp]:
  "ensure True e k = k" "ensure False e k = Inl e"
  by (simp_all add: ensure_def)

lemma and_then_simps [res_simps, simp]:
  "and_then (Inl e) f = Inl e" "and_then (Inr x) f = f x"
  by (simp_all add: and_then_def)

lemma ok_or_simps [res_simps, simp]:
  "ok_or e None = Inl e" "ok_or e (Some x) = Inr x"
  by (simp_all add: ok_or_def)

lemma ok_simps [res_simps, simp]: "ok (Inl e) = None" "ok (Inr x) = Some x"
  by (simp_all add: ok_def)

lemma map_res_simps [res_simps, simp]: "map_res f (Inl e) = Inl e" "map_res f (Inr x) = Inr (f x)"
  by (simp_all add: map_res_def)

lemma map_res_eq_Inr [simp]: "map_res f m = Inr y \<longleftrightarrow> (\<exists>x. m = Inr x \<and> y = f x)"
  by (cases m) auto

lemma map_res_comp [simp]: "map_res f (map_res g m) = map_res (\<lambda>x. f (g x)) m"
  by (cases m) simp_all

lemma map_res_ident [simp]: "map_res (\<lambda>x. x) m = m"
  by (cases m) simp_all

lemma ensure_eq_Inr [simp]: "ensure c e k = Inr x \<longleftrightarrow> c \<and> k = Inr x"
  by (simp add: ensure_def)

lemma and_then_eq_Inr [simp]: "and_then m f = Inr y \<longleftrightarrow> (\<exists>x. m = Inr x \<and> f x = Inr y)"
  by (cases m) simp_all

lemma ok_or_eq_Inr [simp]: "ok_or e x = Inr y \<longleftrightarrow> x = Some y"
  by (cases x) simp_all

lemma ok_eq_Some: "ok r = Some x \<longleftrightarrow> r = Inr x"
  by (cases r) simp_all

lemma ok_eqI: "(\<And>x. r = Inr x \<longleftrightarrow> s = Inr x) \<Longrightarrow> ok r = ok s"
  by (cases r; cases s) auto

lemma and_then_assoc: "and_then (and_then m f) g = and_then m (\<lambda>x. and_then (f x) g)"
  by (cases m) simp_all

lemma collect_res_eq_Inr: "collect_res xs = Inr ys \<longleftrightarrow> xs = map Inr ys"
  by (induction xs arbitrary: ys) (auto simp: Cons_eq_map_conv)

lemma collect_res_map_Inr [simp]: "collect_res (map Inr ys) = Inr ys"
  by (simp add: collect_res_eq_Inr)

section \<open>Lemmas on byte encodings\<close>

lemma length_le_bytes [bytes_simps, simp]: "length (le_bytes n w) = n"
  by (simp add: le_bytes_def)

lemma length_be_bytes [bytes_simps, simp]: "length (be_bytes n w) = n"
  by (simp add: be_bytes_def)

lemma nth_le_bytes: "i < n \<Longrightarrow> le_bytes n w ! i = ucast (drop_bit (8 * i) w)"
  by (simp add: le_bytes_def)

lemma bit_from_le_bytes:
  "bit (from_le_bytes bs :: 'a::len word) i \<longleftrightarrow>
     i < LENGTH('a) \<and> i div 8 < length bs \<and> bit (bs ! (i div 8)) (i mod 8)"
proof (induction bs arbitrary: i)
  case Nil
  then show ?case by simp
next
  case (Cons b bs)
  show ?case
  proof (cases "i < 8")
    case True
    then show ?thesis
      by (auto simp: bit_or_iff bit_push_bit_iff bit_ucast_iff)
  next
    case False
    then have i: "i div 8 = Suc ((i - 8) div 8)" "i mod 8 = (i - 8) mod 8"
      by (simp_all add: le_div_geq le_mod_geq)
    have "\<not> bit b i" using False bit_imp_le_length [of b i] by auto
    with False i Cons [of "i - 8"] show ?thesis
      by (auto simp: bit_or_iff bit_push_bit_iff bit_ucast_iff)
  qed
qed

lemma from_le_bytes_le_bytes [bytes_simps, simp]:
  assumes "8 * n = LENGTH('a)"
  shows "from_le_bytes (le_bytes n w) = (w :: 'a::len word)"
proof (rule bit_word_eqI)
  fix i assume i: "i < LENGTH('a)"
  with assms have "i div 8 < n" by simp
  moreover have "8 * (i div 8) + i mod 8 = i" by simp
  ultimately show "bit (from_le_bytes (le_bytes n w) :: 'a word) i = bit w i"
    using i by (auto simp: bit_from_le_bytes nth_le_bytes bit_ucast_iff bit_drop_bit_eq)
qed

lemma le_bytes_from_le_bytes [bytes_simps, simp]:
  assumes "8 * n = LENGTH('a)" and "length bs = n"
  shows "le_bytes n (from_le_bytes bs :: 'a::len word) = bs"
proof (rule nth_equalityI)
  show "length (le_bytes n (from_le_bytes bs :: 'a word)) = length bs" using assms by simp
next
  fix i assume "i < length (le_bytes n (from_le_bytes bs :: 'a word))"
  then have i: "i < n" by simp
  show "le_bytes n (from_le_bytes bs :: 'a word) ! i = bs ! i"
  proof (rule bit_word_eqI)
    fix j :: nat assume j: "j < LENGTH(8)"
    then have "8 * i + j < LENGTH('a)" using i assms(1) by simp
    moreover have "(8 * i + j) div 8 = i" "(8 * i + j) mod 8 = j" using j by auto
    ultimately show "bit (le_bytes n (from_le_bytes bs :: 'a word) ! i) j = bit (bs ! i) j"
      using i j assms(2)
      by (simp add: nth_le_bytes bit_ucast_iff bit_drop_bit_eq bit_from_le_bytes)
  qed
qed

lemma from_be_bytes_be_bytes [bytes_simps, simp]:
  "8 * n = LENGTH('a) \<Longrightarrow> from_be_bytes (be_bytes n w) = (w :: 'a::len word)"
  by (simp add: from_be_bytes_def be_bytes_def)

lemma be_bytes_from_be_bytes [bytes_simps, simp]:
  "8 * n = LENGTH('a) \<Longrightarrow> length bs = n \<Longrightarrow> be_bytes n (from_be_bytes bs :: 'a::len word) = bs"
  by (simp add: from_be_bytes_def be_bytes_def)

lemma be_bytes_inj [simp]:
  "8 * n = LENGTH('a) \<Longrightarrow> be_bytes n v = be_bytes n w \<longleftrightarrow> v = (w :: 'a::len word)"
  by (metis from_be_bytes_be_bytes)

lemma as_bytes_append_inj:
  "as_bytes a @ xs = as_bytes b @ ys \<longleftrightarrow> a = b \<and> xs = ys"
  by simp

lemma be_bytes_0 [simp]: "be_bytes n 0 = replicate n 0"
  by (simp add: be_bytes_def le_bytes_def map_replicate_const)

section \<open>Lemmas on lists\<close>

lemma take_drop_append_eq:
  "take n xs = take n ys \<Longrightarrow> take n ys @ drop n xs = xs"
  by (metis append_take_drop_id)

lemma last_zip_fst: "length xs = length ys \<Longrightarrow> xs \<noteq> [] \<Longrightarrow> fst (last (zip xs ys)) = last xs"
  by (induction xs ys rule: list_induct2) auto

lemma enumerate_append: "enumerate n (xs @ ys) = enumerate n xs @ enumerate (n + length xs) ys"
  by (simp add: enumerate_append_eq)

lemma chunks_length:
  assumes "length xs = n * k" "0 < k"
  shows "\<forall>c \<in> set (chunks k xs). length c = k" and "length (chunks k xs) = n"
proof -
  have "(\<forall>c \<in> set (chunks k xs). length c = k) \<and> length (chunks k xs) = n"
    using assms
  proof (induction n arbitrary: xs)
    case 0
    then show ?case by (simp add: chunks.simps)
  next
    case (Suc n)
    then have d: "length (drop k xs) = n * k" and ne: "xs \<noteq> []" "k \<le> length xs" by auto
    have "chunks k xs = take k xs # chunks k (drop k xs)" using ne Suc.prems by (subst chunks.simps) simp
    moreover have "length (take k xs) = k" using ne by simp
    ultimately show ?case using Suc.IH [OF d Suc.prems(2)] by (metis length_Cons set_ConsD)
  qed
  then show "\<forall>c \<in> set (chunks k xs). length c = k" "length (chunks k xs) = n" by blast+
qed

lemma concat_chunks [simp]: "0 < k \<Longrightarrow> concat (chunks k xs) = xs"
  by (induction k xs rule: chunks.induct) (subst chunks.simps, auto)

lemma chunks_concat:
  assumes "\<forall>c \<in> set cs. length c = k" and "0 < k"
  shows "chunks k (concat cs) = cs"
  using assms(1)
proof (induction cs)
  case (Cons c cs)
  then have "c @ concat cs \<noteq> []" "length c = k" using assms(2) by auto
  with Cons show ?case using assms(2) by (subst concat.simps, subst chunks.simps) auto
qed (simp add: chunks.simps)

section \<open>Lemmas on integers\<close>

lemma bit_len_le: "bit_len n \<le> k \<longleftrightarrow> n < 2 ^ k"
proof (induction n arbitrary: k rule: bit_len.induct)
  case (1 n)
  show ?case
  proof (cases "n = 0")
    case True
    then show ?thesis by (simp add: bit_len.simps)
  next
    case False
    with 1 show ?thesis by (cases k) (auto simp: bit_len.simps [of n] div_less_iff_less_mult mult.commute)
  qed
qed

lemma bit_len_power [simp]: "bit_len (2 ^ k) = Suc k"
proof (rule antisym)
  show "bit_len (2 ^ k) \<le> Suc k" by (simp add: bit_len_le)
  have "\<not> bit_len (2 ^ k) \<le> k" by (simp add: bit_len_le)
  then show "Suc k \<le> bit_len (2 ^ k)" by simp
qed

lemma is_power_of_two_iff: "is_power_of_two n \<longleftrightarrow> (\<exists>k. n = 2 ^ k)"
proof
  assume "is_power_of_two n"
  then show "\<exists>k. n = 2 ^ k" unfolding is_power_of_two_def by (metis)
qed (auto simp: is_power_of_two_def)

lemma trailing_zeros_power [simp]: "trailing_zeros (2 ^ k) = k"
  by (induction k) (simp_all add: trailing_zeros.simps)

lemma next_power_of_two_ge: "n \<le> next_power_of_two n"
proof (cases "n \<le> 1")
  case False
  then have "n - 1 < 2 ^ bit_len (n - 1)" by (simp add: bit_len_le [symmetric])
  with False show ?thesis by (simp add: next_power_of_two_def)
qed (simp add: next_power_of_two_def)

lemma next_power_of_two_power: "\<exists>k. next_power_of_two n = 2 ^ k"
proof (cases "n \<le> 1")
  case True
  then show ?thesis by (intro exI [of _ 0]) (simp add: next_power_of_two_def)
qed (auto simp: next_power_of_two_def)

end
