(* ===== verification/Tree_Types.thy ===== *)
theory Tree_Types
  imports Prelude
begin

text \<open>
  Data types of the Merkle tree crate (\<open>src/crates/merkle_tree/src/types/mod.rs\<close> and the constants of
  \<open>types/internal.rs\<close>) and the storage logs the tree is driven by
  (\<open>src/crates/types/src/storage/mod.rs\<close>, \<open>storage/log.rs\<close>). Tree keys are \<open>U256\<close> values, the leaf hash
  commits to a value and an enumeration index.
\<close>

definition KEY_SIZE :: nat where "KEY_SIZE = 32"

definition TREE_DEPTH :: nat where "TREE_DEPTH = KEY_SIZE * 8"

type_synonym tree_key = u256
type_synonym value_hash = h256

record tree_entry =
  key :: tree_key
  "value" :: value_hash
  leaf_index :: u64

text \<open>\<open>TreeEntry::new\<close>, \<open>TreeEntry::empty\<close>, \<open>TreeEntry::is_empty\<close>, \<open>TreeEntry::with_value\<close>.\<close>

definition tree_entry_new :: "tree_key \<Rightarrow> u64 \<Rightarrow> value_hash \<Rightarrow> tree_entry" where
  "tree_entry_new k i v = \<lparr>key = k, value = v, leaf_index = i\<rparr>"

definition tree_entry_empty :: "tree_key \<Rightarrow> tree_entry" where
  "tree_entry_empty k = \<lparr>key = k, value = 0, leaf_index = 0\<rparr>"

definition tree_entry_is_empty :: "tree_entry \<Rightarrow> bool" where
  "tree_entry_is_empty e \<longleftrightarrow> leaf_index e = 0 \<and> value e = 0"

definition tree_entry_with_value :: "tree_entry \<Rightarrow> h256 \<Rightarrow> tree_entry" where
  "tree_entry_with_value e v = e\<lparr>value := v\<rparr>"

datatype tree_instruction = Read tree_key | Write tree_entry

definition instruction_write :: "tree_key \<Rightarrow> u64 \<Rightarrow> value_hash \<Rightarrow> tree_instruction" where
  "instruction_write k i v = Write (tree_entry_new k i v)"

fun instruction_key :: "tree_instruction \<Rightarrow> tree_key" where
  "instruction_key (Read k) = k"
| "instruction_key (Write e) = key e"

datatype tree_log_entry =
    Inserted
  | Updated (updated_index: u64) (previous_value: value_hash)
  | ReadLog (read_index: u64) (read_value: value_hash)
  | ReadMissingKey

fun log_is_read :: "tree_log_entry \<Rightarrow> bool" where
  "log_is_read (ReadLog _ _) = True"
| "log_is_read ReadMissingKey = True"
| "log_is_read Inserted = False"
| "log_is_read (Updated _ _) = False"

record tree_entry_with_proof =
  proof_base :: tree_entry
  proof_path :: "value_hash list"

record tree_log_entry_with_proof =
  base :: tree_log_entry
  merkle_path :: "value_hash list"
  root_hash :: value_hash

record block_output_with_proofs =
  logs :: "tree_log_entry_with_proof list"
  leaf_count :: u64

text \<open>\<open>BlockOutputWithProofs::root_hash\<close>.\<close>

definition bowp_root_hash :: "block_output_with_proofs \<Rightarrow> value_hash option" where
  "bowp_root_hash b = (if logs b = [] then None else Some (root_hash (last (logs b))))"

section \<open>Storage keys and logs\<close>

record storage_key =
  account :: address
  slot :: h256

text \<open>
  \<open>StorageKey::raw_hashed_key\<close>: Blake2s of the address left-padded to 32 bytes and the slot. The
  digest is the byte array \<open>raw_hashed_key\<close>; \<open>hashed_key\<close> reads it as an \<open>H256\<close> and
  \<open>hashed_key_u256\<close> as a little-endian integer.
\<close>

definition raw_hashed_key :: "hash_fn \<Rightarrow> address \<Rightarrow> h256 \<Rightarrow> u8 list" where
  "raw_hashed_key blake a k = as_bytes (blake (replicate 12 0 @ address_bytes a @ be_bytes 32 k))"

definition hashed_key :: "hash_fn \<Rightarrow> storage_key \<Rightarrow> h256" where
  "hashed_key blake k = from_be_bytes (raw_hashed_key blake (account k) (slot k))"

definition hashed_key_u256 :: "hash_fn \<Rightarrow> storage_key \<Rightarrow> u256" where
  "hashed_key_u256 blake k = from_le_bytes (raw_hashed_key blake (account k) (slot k))"

datatype storage_log_kind = ReadKind | InitialWrite | RepeatedWrite

record storage_log =
  kind :: storage_log_kind
  log_key :: storage_key
  log_value :: h256

definition is_write :: "storage_log \<Rightarrow> bool" where
  "is_write l \<longleftrightarrow> kind l \<noteq> ReadKind"

definition new_read_log :: "storage_key \<Rightarrow> h256 \<Rightarrow> storage_log" where
  "new_read_log k v = \<lparr>kind = ReadKind, log_key = k, log_value = v\<rparr>"

definition new_write_log :: "storage_key \<Rightarrow> h256 \<Rightarrow> storage_log" where
  "new_write_log k v = \<lparr>kind = RepeatedWrite, log_key = k, log_value = v\<rparr>"

section \<open>Lemmas\<close>

lemma TREE_DEPTH_eq: "TREE_DEPTH = 256"
  by (simp add: TREE_DEPTH_def KEY_SIZE_def)

lemma tree_entry_new_simps [simp]:
  "key (tree_entry_new k i v) = k" "value (tree_entry_new k i v) = v"
  "leaf_index (tree_entry_new k i v) = i"
  by (simp_all add: tree_entry_new_def)

lemma tree_entry_empty_eq: "tree_entry_empty k = tree_entry_new k 0 0"
  by (simp add: tree_entry_empty_def tree_entry_new_def)

lemma instruction_key_write [simp]: "instruction_key (instruction_write k i v) = k"
  by (simp add: instruction_write_def)

lemma length_raw_hashed_key [simp]: "length (raw_hashed_key blake a k) = 32"
  by (simp add: raw_hashed_key_def)

text \<open>
  The two readings of a hashed storage key are the same 32 bytes: writing the integer reading
  little-endian gives back the \<open>H256\<close>.
\<close>

lemma hashed_key_from_u256:
  "from_be_bytes (le_bytes 32 (hashed_key_u256 blake k)) = hashed_key blake k"
  by (simp add: hashed_key_def hashed_key_u256_def)

end
