(* ===== verification/Hasher.thy ===== *)
theory Hasher
  imports Tree_Types
begin

text \<open>
  Hashing of the Merkle tree: \<open>src/crates/merkle_tree/src/hasher/mod.rs\<close> on top of the hashers of
  \<open>src/crates/crypto_primitives/src/hasher\<close>.

  The trait \<open>HashTree\<close> is the record \<open>hash_tree\<close>; its implementation for \<open>Blake2Hasher\<close> is
  \<open>blake2_hash_tree\<close>, over a parameter \<open>blake\<close> for the third-party Blake2s function. The path hasher
  of \<open>airbender-crypto\<close> is the record parameter \<open>path_hasher\<close>, with its documented behaviour
  as the locale \<open>blake2s_path_hasher\<close>. Folds over a path longer than \<open>TREE_DEPTH\<close> abort and
  are \<open>Inl\<close> values.
\<close>

section \<open>Hashers\<close>

text \<open>\<open>Hasher::hash_bytes\<close> and \<open>Hasher::compress\<close> of \<open>Blake2Hasher\<close>.\<close>

definition hash_bytes :: "hash_fn \<Rightarrow> u8 list \<Rightarrow> h256" where
  "hash_bytes h bs = h bs"

definition compress :: "hash_fn \<Rightarrow> h256 \<Rightarrow> h256 \<Rightarrow> h256" where
  "compress h l r = h (as_bytes l @ as_bytes r)"

record hash_tree =
  hash_leaf :: "value_hash \<Rightarrow> u64 \<Rightarrow> value_hash"
  hash_branch :: "value_hash \<Rightarrow> value_hash \<Rightarrow> value_hash"
  empty_subtree_hash :: "nat \<Rightarrow> value_hash"

definition empty_tree_hash :: "hash_tree \<Rightarrow> value_hash" where
  "empty_tree_hash H = empty_subtree_hash H TREE_DEPTH"

definition blake2_hash_leaf :: "hash_fn \<Rightarrow> value_hash \<Rightarrow> u64 \<Rightarrow> value_hash" where
  "blake2_hash_leaf blake v i = hash_bytes blake (be_bytes 8 i @ as_bytes v)"

definition blake2_hash_branch :: "hash_fn \<Rightarrow> value_hash \<Rightarrow> value_hash \<Rightarrow> value_hash" where
  "blake2_hash_branch blake l r = compress blake l r"

text \<open>\<open>iter::successors(Some(first), next).take(n)\<close>.\<close>

fun successors_take :: "nat \<Rightarrow> ('a \<Rightarrow> 'a) \<Rightarrow> 'a \<Rightarrow> 'a list" where
  "successors_take 0 f x = []"
| "successors_take (Suc n) f x = x # successors_take n f (f x)"

definition compute_empty_tree_hashes :: "hash_fn \<Rightarrow> value_hash list" where
  "compute_empty_tree_hashes blake =
     successors_take (TREE_DEPTH + 1) (\<lambda>h. blake2_hash_branch blake h h)
       (hash_bytes blake (replicate 40 0))"

definition blake2_empty_subtree_hash :: "hash_fn \<Rightarrow> nat \<Rightarrow> value_hash" where
  "blake2_empty_subtree_hash blake d = compute_empty_tree_hashes blake ! d"

definition blake2_hash_tree :: "hash_fn \<Rightarrow> hash_tree" where
  "blake2_hash_tree blake =
     \<lparr>hash_leaf = blake2_hash_leaf blake, hash_branch = blake2_hash_branch blake,
      empty_subtree_hash = blake2_empty_subtree_hash blake\<rparr>"

text \<open>The no-op hasher \<open>impl HashTree for ()\<close>.\<close>

definition noop_hash_tree :: hash_tree where
  "noop_hash_tree = \<lparr>hash_leaf = (\<lambda>_ _. 0), hash_branch = (\<lambda>_ _. 0), empty_subtree_hash = (\<lambda>_. 0)\<rparr>"

section \<open>Folding Merkle paths\<close>

text \<open>
  \<open>extend_merkle_path\<close>: the levels a short path omits are filled with empty-subtree hashes.
  \<open>TREE_DEPTH - path.len()\<close> aborts (or runs past the table of empty hashes) on a longer path.
\<close>

definition extend_merkle_path :: "hash_tree \<Rightarrow> value_hash list \<Rightarrow> value_hash list res" where
  "extend_merkle_path H path =
     ensure (length path \<le> TREE_DEPTH) (Panic PathTooLong)
       (Inr (map (empty_subtree_hash H) [0..<TREE_DEPTH - length path] @ path))"

text \<open>One level of the fold: the sibling goes left when the key bit is set.\<close>

definition fold_step :: "hash_tree \<Rightarrow> tree_key \<Rightarrow> nat \<times> value_hash \<Rightarrow> value_hash \<Rightarrow> value_hash" where
  "fold_step H k = (\<lambda>(depth, adjacent_hash) hash.
     if bit k depth then hash_branch H adjacent_hash hash else hash_branch H hash adjacent_hash)"

definition fold_merkle_path :: "hash_tree \<Rightarrow> value_hash list \<Rightarrow> tree_entry \<Rightarrow> value_hash res" where
  "fold_merkle_path H path entry =
     and_then (extend_merkle_path H path) (\<lambda>full_path.
       Inr (fold (fold_step H (key entry)) (enumerate 0 full_path)
              (hash_leaf H (value entry) (leaf_index entry))))"

text \<open>\<open>airbender_crypto::blake2s::Blake2sPathHasher\<close>: the running hash stays in the evaluator.\<close>

record 'st path_hasher =
  from_single_block :: "u8 list \<Rightarrow> 'st"
  fold_node :: "'st \<Rightarrow> u8 list \<Rightarrow> bool \<Rightarrow> 'st"
  finalize_path :: "'st \<Rightarrow> h256"

definition blake2_fold_merkle_path ::
  "hash_fn \<Rightarrow> 'st path_hasher \<Rightarrow> value_hash list \<Rightarrow> tree_entry \<Rightarrow> value_hash res" where
  "blake2_fold_merkle_path blake ph path entry =
     ensure (length path \<le> TREE_DEPTH) (Panic PathTooLong)
       (let leaf_input = be_bytes 8 (leaf_index entry) @ as_bytes (value entry);
            hasher = from_single_block ph leaf_input
        in and_then (extend_merkle_path (blake2_hash_tree blake) path) (\<lambda>siblings.
             Inr (finalize_path ph
               (fold (\<lambda>(depth, sibling) st. fold_node ph st (as_bytes sibling) (bit (key entry) depth))
                 (enumerate 0 siblings) hasher))))"

definition empty_subtree_prefix_len :: "hash_fn \<Rightarrow> value_hash list \<Rightarrow> nat" where
  "empty_subtree_prefix_len blake path =
     (if TREE_DEPTH < length path then 0
      else let base = TREE_DEPTH - length path
           in length (takeWhile (\<lambda>(i, hash). blake2_empty_subtree_hash blake (base + i) = hash)
                (enumerate 0 path)))"

text \<open>\<open>HasherWithStats::hash_optional_branch\<close>; \<open>None\<close> stands for an empty subtree.\<close>

fun hash_optional_branch ::
  "hash_tree \<Rightarrow> nat \<Rightarrow> value_hash option \<Rightarrow> value_hash option \<Rightarrow> value_hash option" where
  "hash_optional_branch H d None None = None"
| "hash_optional_branch H d (Some l) None = Some (hash_branch H l (empty_subtree_hash H d))"
| "hash_optional_branch H d None (Some r) = Some (hash_branch H (empty_subtree_hash H d) r)"
| "hash_optional_branch H d (Some l) (Some r) = Some (hash_branch H l r)"

section \<open>The tree hasher contract\<close>

text \<open>
  What the tree algorithms rely on: the empty-subtree hashes are the hashes of a tree whose leaves
  all are the empty leaf (value 0, index 0), for every depth of the tree.
\<close>

locale tree_hasher =
  fixes H :: hash_tree
  assumes empty_leaf: "empty_subtree_hash H 0 = hash_leaf H 0 0"
    and empty_branch: "d < TREE_DEPTH \<Longrightarrow>
      empty_subtree_hash H (Suc d) = hash_branch H (empty_subtree_hash H d) (empty_subtree_hash H d)"
begin

lemma hash_optional_branch_default:
  assumes "d < TREE_DEPTH"
  shows "(case hash_optional_branch H d l r of Some h \<Rightarrow> h | None \<Rightarrow> empty_subtree_hash H (Suc d)) =
     hash_branch H (case l of Some h \<Rightarrow> h | None \<Rightarrow> empty_subtree_hash H d)
                   (case r of Some h \<Rightarrow> h | None \<Rightarrow> empty_subtree_hash H d)"
  using empty_branch [OF assms] by (cases l; cases r) simp_all

end

lemma length_successors_take [simp]: "length (successors_take n f x) = n"
  by (induction n f x rule: successors_take.induct) simp_all

lemma nth_successors_take: "i < n \<Longrightarrow> successors_take n f x ! i = (f ^^ i) x"
proof (induction n f x arbitrary: i rule: successors_take.induct)
  case (1 f x)
  then show ?case by simp
next
  case (2 n f x)
  then show ?case by (cases i) (simp_all add: funpow_swap1)
qed

lemma blake2_empty_subtree_hash_eq:
  "d \<le> TREE_DEPTH \<Longrightarrow> blake2_empty_subtree_hash blake d =
     ((\<lambda>h. blake2_hash_branch blake h h) ^^ d) (hash_bytes blake (replicate 40 0))"
  unfolding blake2_empty_subtree_hash_def compute_empty_tree_hashes_def
  by (rule nth_successors_take) (simp only: Suc_eq_plus1 [symmetric] less_Suc_eq_le)

lemma blake2_hash_tree_simps [simp]:
  "hash_leaf (blake2_hash_tree blake) = blake2_hash_leaf blake"
  "hash_branch (blake2_hash_tree blake) = blake2_hash_branch blake"
  "empty_subtree_hash (blake2_hash_tree blake) = blake2_empty_subtree_hash blake"
  by (simp_all add: blake2_hash_tree_def)

interpretation blake2: tree_hasher "blake2_hash_tree blake" for blake
proof
  have "replicate 40 (0::u8) = be_bytes 8 (0::u64) @ as_bytes 0"
    by (simp add: replicate_add [symmetric])
  then show "empty_subtree_hash (blake2_hash_tree blake) 0 = hash_leaf (blake2_hash_tree blake) 0 0"
    by (simp only: blake2_hash_tree_simps blake2_hash_leaf_def) (simp add: blake2_empty_subtree_hash_eq)
next
  fix d assume d: "d < TREE_DEPTH"
  then have "Suc d \<le> TREE_DEPTH" "d \<le> TREE_DEPTH" by simp_all
  then show "empty_subtree_hash (blake2_hash_tree blake) (Suc d) =
      hash_branch (blake2_hash_tree blake) (empty_subtree_hash (blake2_hash_tree blake) d)
        (empty_subtree_hash (blake2_hash_tree blake) d)"
    by (simp only: blake2_hash_tree_simps blake2_empty_subtree_hash_eq funpow.simps comp_def)
qed

interpretation noop: tree_hasher noop_hash_tree
  by unfold_locales (simp_all add: noop_hash_tree_def)

section \<open>The fused Blake2s fold\<close>

text \<open>
  The documented behaviour of \<open>Blake2sPathHasher\<close>: a single block is hashed by Blake2s, and a fold
  step hashes the concatenation of the sibling and the running hash, in the order the side says.
\<close>

locale blake2s_path_hasher =
  fixes blake :: hash_fn and ph :: "'st path_hasher"
  assumes finalize_single_block: "length bs \<le> 64 \<Longrightarrow> finalize_path ph (from_single_block ph bs) = blake bs"
    and finalize_fold_node: "length sib = 32 \<Longrightarrow> finalize_path ph (fold_node ph st sib left) =
      (if left then blake (sib @ as_bytes (finalize_path ph st))
       else blake (as_bytes (finalize_path ph st) @ sib))"
begin

lemma finalize_fold:
  "finalize_path ph
     (fold (\<lambda>(depth, sibling) st. fold_node ph st (as_bytes sibling) (bit k depth)) xs st) =
   fold (fold_step (blake2_hash_tree blake) k) xs (finalize_path ph st)"
proof (induction xs arbitrary: st)
  case Nil
  then show ?case by simp
next
  case (Cons x xs)
  obtain d s where x: "x = (d, s)" by (cases x)
  show ?case
    by (simp add: x Cons.IH finalize_fold_node fold_step_def blake2_hash_branch_def compress_def)
qed

lemma fused_fold_eq:
  "blake2_fold_merkle_path blake ph path entry =
     fold_merkle_path (blake2_hash_tree blake) path entry"
proof (cases "length path \<le> TREE_DEPTH")
  case True
  have "finalize_path ph (from_single_block ph (be_bytes 8 (leaf_index entry) @ as_bytes (value entry))) =
      blake2_hash_leaf blake (value entry) (leaf_index entry)"
    by (simp add: finalize_single_block blake2_hash_leaf_def hash_bytes_def)
  with True show ?thesis
    by (simp add: blake2_fold_merkle_path_def fold_merkle_path_def Let_def extend_merkle_path_def
        finalize_fold)
next
  case False
  then show ?thesis
    by (simp add: blake2_fold_merkle_path_def fold_merkle_path_def extend_merkle_path_def)
qed

end

text \<open>The behaviour is realised by the hasher that keeps the running hash itself as its state.\<close>

definition running_hash_hasher :: "hash_fn \<Rightarrow> h256 path_hasher" where
  "running_hash_hasher blake =
     \<lparr>from_single_block = blake,
      fold_node = (\<lambda>st sib left. if left then blake (sib @ as_bytes st) else blake (as_bytes st @ sib)),
      finalize_path = (\<lambda>st. st)\<rparr>"

interpretation running_hash: blake2s_path_hasher blake "running_hash_hasher blake" for blake
  by unfold_locales (simp_all add: running_hash_hasher_def)

section \<open>Trimming empty-subtree prefixes\<close>

lemma fold_merkle_path_ok:
  "length path \<le> TREE_DEPTH \<Longrightarrow> fold_merkle_path H path entry =
     Inr (fold (fold_step H (key entry))
        (enumerate 0 (map (empty_subtree_hash H) [0..<TREE_DEPTH - length path] @ path))
        (hash_leaf H (value entry) (leaf_index entry)))"
  by (simp add: fold_merkle_path_def extend_merkle_path_def)

lemma fold_merkle_path_eq_Inr:
  "fold_merkle_path H path entry = Inr h \<longleftrightarrow> length path \<le> TREE_DEPTH \<and>
     h = fold (fold_step H (key entry))
        (enumerate 0 (map (empty_subtree_hash H) [0..<TREE_DEPTH - length path] @ path))
        (hash_leaf H (value entry) (leaf_index entry))"
  by (auto simp: fold_merkle_path_def extend_merkle_path_def)

text \<open>
  The prefix length is the largest \<open>n\<close> such that the first \<open>n\<close> hashes are the empty-subtree
  hashes of the levels they occupy.
\<close>

lemma empty_subtree_prefix_len_le: "empty_subtree_prefix_len blake path \<le> length path"
  using length_takeWhile_le [of _ "enumerate 0 path"]
  by (auto simp: empty_subtree_prefix_len_def Let_def)

lemma empty_subtree_prefix_len_nth:
  assumes "i < empty_subtree_prefix_len blake path"
  shows "path ! i = blake2_empty_subtree_hash blake (TREE_DEPTH - length path + i)"
proof -
  let ?P = "\<lambda>(i, hash). blake2_empty_subtree_hash blake (TREE_DEPTH - length path + i) = hash"
  have n: "empty_subtree_prefix_len blake path = length (takeWhile ?P (enumerate 0 path))"
    using assms by (simp add: empty_subtree_prefix_len_def Let_def split: if_splits)
  then have i: "i < length (takeWhile ?P (enumerate 0 path))" using assms by simp
  then have "?P (enumerate 0 path ! i)"
    by (metis nth_mem set_takeWhileD takeWhile_nth)
  moreover have "i < length path"
    using assms empty_subtree_prefix_len_le by (rule less_le_trans)
  ultimately show ?thesis by (simp add: nth_enumerate_eq)
qed

lemma empty_subtree_prefix_len_stops:
  assumes "length path \<le> TREE_DEPTH" and "empty_subtree_prefix_len blake path < length path"
  shows "path ! empty_subtree_prefix_len blake path \<noteq>
    blake2_empty_subtree_hash blake (TREE_DEPTH - length path + empty_subtree_prefix_len blake path)"
proof -
  let ?P = "\<lambda>(i, hash). blake2_empty_subtree_hash blake (TREE_DEPTH - length path + i) = hash"
  let ?n = "length (takeWhile ?P (enumerate 0 path))"
  have n: "empty_subtree_prefix_len blake path = ?n"
    using assms by (simp add: empty_subtree_prefix_len_def Let_def)
  then have "?n < length (enumerate 0 path)" using assms by simp
  then have "\<not> ?P (enumerate 0 path ! ?n)" by (rule nth_length_takeWhile)
  then show ?thesis using assms n by (simp add: nth_enumerate_eq)
qed

text \<open>Full-depth form of a path: what every fold uses.\<close>

definition expand_path :: "hash_tree \<Rightarrow> value_hash list \<Rightarrow> value_hash list" where
  "expand_path H path = map (empty_subtree_hash H) [0..<TREE_DEPTH - length path] @ path"

lemma length_expand_path: "length path \<le> TREE_DEPTH \<Longrightarrow> length (expand_path H path) = TREE_DEPTH"
  by (simp add: expand_path_def)

lemma expand_path_full: "length path = TREE_DEPTH \<Longrightarrow> expand_path H path = path"
  by (simp add: expand_path_def)

lemma expand_path_drop_prefix:
  assumes "length path \<le> TREE_DEPTH"
    and "n \<le> length path"
    and "\<And>i. i < n \<Longrightarrow> path ! i = empty_subtree_hash H (TREE_DEPTH - length path + i)"
  shows "expand_path H (drop n path) = expand_path H path"
proof -
  let ?b = "TREE_DEPTH - length path"
  have "take n path = map (empty_subtree_hash H) [?b..<?b + n]"
    using assms by (intro nth_equalityI) auto
  then have "map (empty_subtree_hash H) [0..<?b] @ path =
      map (empty_subtree_hash H) ([0..<?b] @ [?b..<?b + n]) @ drop n path"
    by (metis append_assoc append_take_drop_id map_append)
  also have "[0..<?b] @ [?b..<?b + n] = [0..<TREE_DEPTH - length (drop n path)]"
    using assms(1,2) upt_add_eq_append [of 0 ?b n] by (simp add: le_diff_conv2 add.commute)
  finally show ?thesis by (simp add: expand_path_def)
qed

lemma expand_path_trim:
  "length path \<le> TREE_DEPTH \<Longrightarrow>
     expand_path (blake2_hash_tree blake) (drop (empty_subtree_prefix_len blake path) path) =
     expand_path (blake2_hash_tree blake) path"
  by (rule expand_path_drop_prefix)
    (simp_all add: empty_subtree_prefix_len_le empty_subtree_prefix_len_nth)

lemma extend_merkle_path_expand:
  "length path \<le> TREE_DEPTH \<Longrightarrow> extend_merkle_path H path = Inr (expand_path H path)"
  by (simp add: extend_merkle_path_def expand_path_def)

lemma fold_merkle_path_expand:
  "length path \<le> TREE_DEPTH \<Longrightarrow> length path' \<le> TREE_DEPTH \<Longrightarrow>
   expand_path H path = expand_path H path' \<Longrightarrow>
   fold_merkle_path H path entry = fold_merkle_path H path' entry"
  by (simp add: fold_merkle_path_def extend_merkle_path_expand)

text \<open>A trimmed path has nothing left to trim.\<close>

lemma empty_subtree_prefix_len_trimmed:
  assumes "length path \<le> TREE_DEPTH"
  shows "empty_subtree_prefix_len blake (drop (empty_subtree_prefix_len blake path) path) = 0"
proof (rule ccontr)
  let ?n = "empty_subtree_prefix_len blake path"
  assume "empty_subtree_prefix_len blake (drop ?n path) \<noteq> 0"
  then have pos: "0 < empty_subtree_prefix_len blake (drop ?n path)" by simp
  then have lt: "?n < length path"
    using empty_subtree_prefix_len_le [of blake "drop ?n path"] by simp
  from pos have "drop ?n path ! 0 =
      blake2_empty_subtree_hash blake (TREE_DEPTH - length (drop ?n path) + 0)"
    by (rule empty_subtree_prefix_len_nth)
  moreover have "TREE_DEPTH - length (drop ?n path) = TREE_DEPTH - length path + ?n"
    using assms lt by simp
  ultimately show False
    using empty_subtree_prefix_len_stops [OF assms lt] lt by simp
qed

end
