(* ===== verification/Sparse_Tree.thy ===== *)
theory Sparse_Tree
  imports Hasher
begin

text \<open>
  Abstract specification of the state tree: a finite map from 256-bit keys to a value and an
  enumeration index, committed to by a binary hash tree of depth \<open>TREE_DEPTH\<close> over all keys, in which
  an absent key is the empty leaf. The folds of \<open>hasher/mod.rs\<close> are related to it here: folding the
  honest siblings of a key computes the root with that key's leaf replaced, and a fold that hits
  the root of a state can only do so, short of a hash collision, with the honest siblings and
  the leaf of that state.
\<close>

type_synonym tree_state = "tree_key \<rightharpoonup> value_hash \<times> u64"

definition leaf_of :: "tree_state \<Rightarrow> tree_key \<Rightarrow> value_hash \<times> u64" where
  "leaf_of m k = (case m k of None \<Rightarrow> (0, 0) | Some x \<Rightarrow> x)"

text \<open>Hash of the node at height \<open>d\<close> above the leaves that covers the keys \<open>q\<close> with \<open>q div 2 ^ d = p\<close>.\<close>

fun subtree_hash :: "hash_tree \<Rightarrow> tree_state \<Rightarrow> nat \<Rightarrow> nat \<Rightarrow> value_hash" where
  "subtree_hash H m 0 p = (case leaf_of m (word_of_nat p) of (v, i) \<Rightarrow> hash_leaf H v i)"
| "subtree_hash H m (Suc d) p =
     hash_branch H (subtree_hash H m d (2 * p)) (subtree_hash H m d (2 * p + 1))"

definition tree_root :: "hash_tree \<Rightarrow> tree_state \<Rightarrow> value_hash" where
  "tree_root H m = subtree_hash H m TREE_DEPTH 0"

text \<open>The sibling, at height \<open>d\<close>, of the node on the path to \<open>k\<close>, and the full path.\<close>

definition node_index :: "tree_key \<Rightarrow> nat \<Rightarrow> nat" where
  "node_index k d = unat k div 2 ^ d"

definition sibling_index :: "nat \<Rightarrow> nat" where
  "sibling_index q = (if odd q then q - 1 else q + 1)"

definition sibling_hash :: "hash_tree \<Rightarrow> tree_state \<Rightarrow> tree_key \<Rightarrow> nat \<Rightarrow> value_hash" where
  "sibling_hash H m k d = subtree_hash H m d (sibling_index (node_index k d))"

definition honest_path :: "hash_tree \<Rightarrow> tree_state \<Rightarrow> tree_key \<Rightarrow> value_hash list" where
  "honest_path H m k = map (sibling_hash H m k) [0..<TREE_DEPTH]"

text \<open>Effect of an instruction on the state, and what its log must report of the state before it.\<close>

fun tree_apply :: "tree_instruction \<Rightarrow> tree_state \<Rightarrow> tree_state" where
  "tree_apply (Read k) m = m"
| "tree_apply (Write e) m = m(key e \<mapsto> (value e, leaf_index e))"

fun log_matches :: "tree_state \<Rightarrow> tree_key \<Rightarrow> tree_log_entry \<Rightarrow> bool" where
  "log_matches m k Inserted = (leaf_of m k = (0, 0))"
| "log_matches m k ReadMissingKey = (leaf_of m k = (0, 0))"
| "log_matches m k (Updated i v) = (leaf_of m k = (v, i))"
| "log_matches m k (ReadLog i v) = (leaf_of m k = (v, i))"

text \<open>The fold as recursion on the number of levels climbed.\<close>

primrec climb :: "hash_tree \<Rightarrow> tree_key \<Rightarrow> (nat \<Rightarrow> value_hash) \<Rightarrow> value_hash \<Rightarrow> nat \<Rightarrow> value_hash" where
  "climb H k s h 0 = h"
| "climb H k s h (Suc d) = fold_step H k (d, s d) (climb H k s h d)"

text \<open>
  The pairs hashed when folding a path from a leaf, and the pairs of the committed tree on the same
  path. Collision freedom of a fold is injectivity of the two hash functions on these.
\<close>

definition fold_pair :: "hash_tree \<Rightarrow> tree_key \<Rightarrow> (nat \<Rightarrow> value_hash) \<Rightarrow> value_hash \<Rightarrow> nat \<Rightarrow> value_hash \<times> value_hash" where
  "fold_pair H k s h d = (if bit k d then (s d, climb H k s h d) else (climb H k s h d, s d))"

definition tree_pair :: "hash_tree \<Rightarrow> tree_state \<Rightarrow> tree_key \<Rightarrow> nat \<Rightarrow> value_hash \<times> value_hash" where
  "tree_pair H m k d = (subtree_hash H m d (2 * node_index k (Suc d)),
                        subtree_hash H m d (2 * node_index k (Suc d) + 1))"

definition fold_pairs :: "hash_tree \<Rightarrow> value_hash list \<Rightarrow> tree_entry \<Rightarrow> (value_hash \<times> value_hash) set" where
  "fold_pairs H path e =
     fold_pair H (key e) (\<lambda>d. expand_path H path ! d) (hash_leaf H (value e) (leaf_index e)) ` {..<TREE_DEPTH}"

definition tree_pairs :: "hash_tree \<Rightarrow> tree_state \<Rightarrow> tree_key \<Rightarrow> (value_hash \<times> value_hash) set" where
  "tree_pairs H m k = tree_pair H m k ` {..<TREE_DEPTH}"

definition collision_free :: "hash_tree \<Rightarrow> tree_state \<Rightarrow> value_hash list \<Rightarrow> tree_entry \<Rightarrow> bool" where
  "collision_free H m path e \<longleftrightarrow>
     inj_on (\<lambda>(l, r). hash_branch H l r) (fold_pairs H path e \<union> tree_pairs H m (key e)) \<and>
     inj_on (\<lambda>(v, i). hash_leaf H v i) {(value e, leaf_index e), leaf_of m (key e)}"

section \<open>The tree\<close>

lemma node_index_0 [simp]: "node_index k 0 = unat k"
  by (simp add: node_index_def)

lemma node_index_Suc: "node_index k (Suc d) = node_index k d div 2"
  by (simp add: node_index_def div_mult2_eq [symmetric] mult.commute)

lemma node_index_less: "d \<le> TREE_DEPTH \<Longrightarrow> node_index k d < 2 ^ (TREE_DEPTH - d)"
proof -
  assume d: "d \<le> TREE_DEPTH"
  have "unat k < 2 ^ TREE_DEPTH"
    using unsigned_less [of k, where 'a = nat] by (simp add: TREE_DEPTH_eq)
  also have "\<dots> = 2 ^ (TREE_DEPTH - d) * 2 ^ d" using d by (simp add: power_add [symmetric])
  finally show ?thesis by (simp add: node_index_def less_mult_imp_div_less)
qed

lemma node_index_top [simp]: "node_index k TREE_DEPTH = 0"
  using node_index_less [of TREE_DEPTH k] by simp

lemma sibling_index_less: "q < 2 ^ Suc n \<Longrightarrow> sibling_index q < 2 ^ Suc n"
  by (auto simp: sibling_index_def elim!: evenE)

lemma sibling_index_neq: "sibling_index q \<noteq> q"
  by (auto simp: sibling_index_def elim: oddE)

lemma bit_node_index: "bit k d \<longleftrightarrow> odd (node_index k d)"
proof -
  have "bit k d = bit (unat k) d" by (simp add: bit_unsigned_iff)
  then show ?thesis by (simp add: node_index_def bit_iff_odd)
qed

lemma node_index_cases:
  "node_index k d = (if bit k d then 2 * node_index k (Suc d) + 1 else 2 * node_index k (Suc d))"
  by (simp add: bit_node_index node_index_Suc)

lemma subtree_hash_cong:
  assumes "\<And>q. q div 2 ^ d = p \<Longrightarrow> leaf_of m (word_of_nat q) = leaf_of m' (word_of_nat q)"
  shows "subtree_hash H m d p = subtree_hash H m' d p"
  using assms
proof (induction d arbitrary: p)
  case 0
  then show ?case by simp
next
  case (Suc d)
  have half: "q div 2 ^ Suc d = q div 2 ^ d div 2" for q :: nat
    by (simp add: div_mult2_eq [symmetric] mult.commute)
  have "subtree_hash H m d (2 * p) = subtree_hash H m' d (2 * p)"
    by (rule Suc.IH, rule Suc.prems) (unfold half, simp)
  moreover have "subtree_hash H m d (2 * p + 1) = subtree_hash H m' d (2 * p + 1)"
    by (rule Suc.IH, rule Suc.prems) (unfold half, simp)
  ultimately show ?case by simp
qed

lemma tree_root_cong: "(\<And>k. leaf_of m k = leaf_of m' k) \<Longrightarrow> tree_root H m = tree_root H m'"
  unfolding tree_root_def by (rule subtree_hash_cong) simp

context tree_hasher
begin

lemma subtree_hash_empty:
  "d \<le> TREE_DEPTH \<Longrightarrow> subtree_hash H Map.empty d p = empty_subtree_hash H d"
  by (induction d arbitrary: p) (simp_all add: leaf_of_def empty_leaf empty_branch)

lemma tree_root_empty: "tree_root H Map.empty = empty_tree_hash H"
  by (simp add: tree_root_def empty_tree_hash_def subtree_hash_empty)

end

section \<open>Folding\<close>

lemma fold_climb:
  "fold (fold_step H k) (enumerate 0 xs) h = climb H k (\<lambda>d. xs ! d) h (length xs)"
proof (induction xs rule: rev_induct)
  case Nil
  then show ?case by simp
next
  case (snoc x xs)
  have "climb H k (\<lambda>d. (xs @ [x]) ! d) h n = climb H k (\<lambda>d. xs ! d) h n" if "n \<le> length xs" for n
    using that by (induction n) (simp_all add: nth_append)
  then show ?case by (simp add: enumerate_append snoc.IH)
qed

lemma fold_merkle_path_climb:
  "length path \<le> TREE_DEPTH \<Longrightarrow> fold_merkle_path H path e =
     Inr (climb H (key e) (\<lambda>d. expand_path H path ! d) (hash_leaf H (value e) (leaf_index e)) TREE_DEPTH)"
  by (simp add: fold_merkle_path_def extend_merkle_path_expand fold_climb length_expand_path)

lemma climb_cong: "(\<And>d. d < n \<Longrightarrow> s d = s' d) \<Longrightarrow> climb H k s h n = climb H k s' h n"
  by (induction n) simp_all

lemma climb_Suc_pair: "climb H k s h (Suc d) = (case fold_pair H k s h d of (l, r) \<Rightarrow> hash_branch H l r)"
  by (simp add: fold_pair_def fold_step_def)

lemma subtree_hash_pair:
  "subtree_hash H m (Suc d) (node_index k (Suc d)) = (case tree_pair H m k d of (l, r) \<Rightarrow> hash_branch H l r)"
  by (simp add: tree_pair_def)

lemma tree_pair_cases:
  "tree_pair H m k d =
     (if bit k d then (sibling_hash H m k d, subtree_hash H m d (node_index k d))
      else (subtree_hash H m d (node_index k d), sibling_hash H m k d))"
  by (simp add: tree_pair_def sibling_hash_def sibling_index_def node_index_cases [of k d])

text \<open>Replacing the leaf at \<open>k\<close> leaves every sibling on the path to \<open>k\<close> as it was.\<close>

lemma sibling_hash_update:
  assumes "d < TREE_DEPTH" and "\<And>k'. k' \<noteq> k \<Longrightarrow> leaf_of m' k' = leaf_of m k'"
  shows "sibling_hash H m' k d = sibling_hash H m k d"
  unfolding sibling_hash_def
proof (rule subtree_hash_cong, rule assms(2), rule notI)
  fix q assume q: "q div 2 ^ d = sibling_index (node_index k d)" and k: "word_of_nat q = k"
  obtain n where n: "TREE_DEPTH - d = Suc n" using assms(1) by (metis Suc_diff_Suc)
  have "q div 2 ^ d < 2 ^ (TREE_DEPTH - d)"
    using sibling_index_less node_index_less [of d k] assms(1) unfolding q n by simp
  then have "q < 2 ^ (TREE_DEPTH - d) * 2 ^ d" by (simp add: div_less_iff_less_mult)
  then have "q < 2 ^ 256" using assms(1) by (simp add: power_add [symmetric] TREE_DEPTH_eq)
  then have "unat k = q" unfolding k [symmetric] by (simp add: unsigned_of_nat take_bit_nat_eq_self)
  then show False using q sibling_index_neq [of "node_index k d"] by (simp add: node_index_def)
qed

text \<open>Folding the honest siblings computes the root of the state with the leaf at \<open>k\<close> replaced.\<close>

lemma climb_honest:
  assumes "\<And>k'. k' \<noteq> k \<Longrightarrow> leaf_of m' k' = leaf_of m k'" and "leaf_of m' k = (v, i)"
    and "d \<le> TREE_DEPTH" and "\<And>d. d < TREE_DEPTH \<Longrightarrow> s d = sibling_hash H m k d"
  shows "climb H k s (hash_leaf H v i) d = subtree_hash H m' d (node_index k d)"
  using assms(3)
proof (induction d)
  case 0
  then show ?case using assms(2) by simp
next
  case (Suc d)
  then have "climb H k s (hash_leaf H v i) d = subtree_hash H m' d (node_index k d)" by simp
  moreover have "s d = sibling_hash H m' k d"
    using Suc.prems assms(4) [of d] sibling_hash_update [OF _ assms(1), of d] by simp
  ultimately show ?case
    unfolding climb_Suc_pair subtree_hash_pair
    by (simp add: fold_pair_def tree_pair_cases)
qed

lemma fold_honest:
  assumes "length path \<le> TREE_DEPTH" and "expand_path H path = honest_path H m (key e)"
    and "\<And>k. k \<noteq> key e \<Longrightarrow> leaf_of m' k = leaf_of m k"
    and "leaf_of m' (key e) = (value e, leaf_index e)"
  shows "fold_merkle_path H path e = Inr (tree_root H m')"
  using climb_honest [OF assms(3,4) order_refl, of "\<lambda>d. expand_path H path ! d"] assms(2)
  by (simp add: fold_merkle_path_climb [OF assms(1)] tree_root_def honest_path_def)

section \<open>Soundness of a fold\<close>

text \<open>
  A climb that reaches the hash of the tree node above \<open>k\<close> used the honest siblings and started from
  the hash of the leaf at \<open>k\<close>, unless two different pairs on the way have the same branch hash.
\<close>

lemma climb_sound:
  assumes "inj_on (\<lambda>(l, r). hash_branch H l r)
      (fold_pair H k s h ` {..<n} \<union> tree_pair H m k ` {..<n})"
    and "climb H k s h n = subtree_hash H m n (node_index k n)"
  shows "(\<forall>d<n. s d = sibling_hash H m k d) \<and> h = subtree_hash H m 0 (node_index k 0)"
  using assms
proof (induction n)
  case 0
  then show ?case by simp
next
  case (Suc n)
  have "fold_pair H k s h n = tree_pair H m k n"
    using Suc.prems(2) unfolding climb_Suc_pair subtree_hash_pair
    by (rule inj_onD [OF Suc.prems(1)]) (simp_all add: lessThan_Suc)
  then have s: "s n = sibling_hash H m k n"
    and c: "climb H k s h n = subtree_hash H m n (node_index k n)"
    by (simp_all add: fold_pair_def tree_pair_cases split: if_splits)
  have "inj_on (\<lambda>(l, r). hash_branch H l r) (fold_pair H k s h ` {..<n} \<union> tree_pair H m k ` {..<n})"
    by (rule inj_on_subset [OF Suc.prems(1)]) (auto simp: lessThan_Suc)
  then show ?case using Suc.IH [OF _ c] s by (auto simp: less_Suc_eq)
qed

lemma fold_sound:
  assumes "collision_free H m path e" and "fold_merkle_path H path e = Inr (tree_root H m)"
  shows "expand_path H path = honest_path H m (key e) \<and> leaf_of m (key e) = (value e, leaf_index e)"
proof -
  let ?s = "\<lambda>d. expand_path H path ! d" and ?h = "hash_leaf H (value e) (leaf_index e)"
  have len: "length path \<le> TREE_DEPTH"
    using assms(2) by (simp add: fold_merkle_path_eq_Inr)
  have "climb H (key e) ?s ?h TREE_DEPTH = subtree_hash H m TREE_DEPTH (node_index (key e) TREE_DEPTH)"
    using assms(2) by (simp add: fold_merkle_path_climb [OF len] tree_root_def)
  from climb_sound [OF _ this] assms(1)
  have sib: "\<forall>d<TREE_DEPTH. ?s d = sibling_hash H m (key e) d"
    and leaf: "?h = subtree_hash H m 0 (node_index (key e) 0)"
    by (simp_all add: collision_free_def fold_pairs_def tree_pairs_def)
  have "expand_path H path = honest_path H m (key e)"
    using sib length_expand_path [OF len]
    by (intro nth_equalityI) (simp_all add: honest_path_def)
  moreover obtain v i where vi: "leaf_of m (key e) = (v, i)" by (cases "leaf_of m (key e)")
  then have "hash_leaf H (value e) (leaf_index e) = hash_leaf H v i" using leaf by simp
  then have "(value e, leaf_index e) = (v, i)"
    using inj_onD [of "\<lambda>(v, i). hash_leaf H v i" _ "(value e, leaf_index e)" "(v, i)"] assms(1) vi
    by (auto simp: collision_free_def)
  ultimately show ?thesis using vi by simp
qed

section \<open>Collision freedom of honest folds\<close>

lemma fold_pairs_honest:
  assumes "length path \<le> TREE_DEPTH" and "expand_path H path = honest_path H m (key e)"
    and "leaf_of m (key e) = (value e, leaf_index e)"
  shows "fold_pairs H path e = tree_pairs H m (key e)"
proof -
  let ?s = "\<lambda>d. expand_path H path ! d" and ?h = "hash_leaf H (value e) (leaf_index e)"
  have s: "?s d = sibling_hash H m (key e) d" if "d < TREE_DEPTH" for d
    using that by (simp add: assms(2) honest_path_def)
  have "fold_pair H (key e) ?s ?h d = tree_pair H m (key e) d" if "d < TREE_DEPTH" for d
    using climb_honest [OF refl assms(3), of d ?s H] s that
    by (simp add: fold_pair_def tree_pair_cases)
  then show ?thesis unfolding fold_pairs_def tree_pairs_def by (intro image_cong) simp_all
qed

lemma collision_free_honest:
  assumes "length path \<le> TREE_DEPTH" and "expand_path H path = honest_path H m (key e)"
    and "leaf_of m (key e) = (value e, leaf_index e)"
    and "inj_on (\<lambda>(l, r). hash_branch H l r) (tree_pairs H m (key e))"
  shows "collision_free H m path e"
  using assms by (simp add: collision_free_def fold_pairs_honest)

lemma collision_free_expand:
  "length path \<le> TREE_DEPTH \<Longrightarrow> collision_free H m (expand_path H path) e = collision_free H m path e"
  by (simp add: collision_free_def fold_pairs_def expand_path_full length_expand_path)

context tree_hasher
begin

lemma honest_path_empty: "honest_path H Map.empty k = expand_path H []"
  by (simp add: honest_path_def sibling_hash_def subtree_hash_empty expand_path_def)

end

text \<open>
  A concrete function with no collision on the paths of the empty tree: it counts the levels above
  the leaf.
\<close>

definition counter_hash :: hash_fn where
  "counter_hash bs = from_be_bytes (take 32 bs) + 1"

lemma counter_hash_branch: "blake2_hash_branch counter_hash l r = l + 1"
  by (simp add: blake2_hash_branch_def compress_def counter_hash_def)

lemma counter_hash_empty:
  "d \<le> TREE_DEPTH \<Longrightarrow> blake2_empty_subtree_hash counter_hash d = word_of_nat d + 1"
proof (induction d)
  case 0
  have "take 32 (replicate 40 (0::u8)) = replicate 32 0" by simp
  moreover have "from_be_bytes (as_bytes 0) = (0::h256)" by (rule from_be_bytes_be_bytes) simp
  ultimately have "from_be_bytes (take 32 (replicate 40 (0::u8))) = (0::h256)"
    by (simp only: be_bytes_0)
  then show ?case by (simp add: blake2_empty_subtree_hash_eq counter_hash_def hash_bytes_def)
next
  case (Suc d)
  then show ?case using blake2.empty_branch [of d counter_hash] by (simp add: counter_hash_branch)
qed

lemma counter_hash_collision_free:
  "collision_free (blake2_hash_tree counter_hash) Map.empty [] (tree_entry_empty k)"
proof (rule collision_free_honest)
  let ?H = "blake2_hash_tree counter_hash"
  show "expand_path ?H [] = honest_path ?H Map.empty (key (tree_entry_empty k))"
    by (simp add: blake2.honest_path_empty)
  show "inj_on (\<lambda>(l, r). hash_branch ?H l r) (tree_pairs ?H Map.empty (key (tree_entry_empty k)))"
    by (auto simp: inj_on_def tree_pairs_def tree_pair_def counter_hash_branch blake2.subtree_hash_empty)
qed (simp_all add: leaf_of_def tree_entry_empty_def)

end
