(* ===== verification/Tree_Proofs.thy ===== *)
theory Tree_Proofs
  imports Sparse_Tree
begin

text \<open>
  Verification of Merkle proofs: \<open>src/crates/merkle_tree/src/hasher/proofs.rs\<close>, the functions
  \<open>BlockOutputWithProofs::verify_proofs\<close> and \<open>TreeEntryWithProof::verify\<close>. The main result says that, short
  of a hash collision on the paths involved, a batch of proofs is accepted from the root of a state
  exactly when every path, log and intermediate root is the one of the sequence of states the
  instructions go through.
\<close>

section \<open>Definitions\<close>

text \<open>The entry a log says was in the tree before the operation.\<close>

fun prev_entry :: "tree_log_entry \<Rightarrow> tree_key \<Rightarrow> tree_entry" where
  "prev_entry Inserted k = tree_entry_empty k"
| "prev_entry ReadMissingKey k = tree_entry_empty k"
| "prev_entry (Updated i v) k = tree_entry_new k i v"
| "prev_entry (ReadLog i v) k = tree_entry_new k i v"

text \<open>Body of the loop: checks one operation against the running root and returns the next one.\<close>

definition verify_proof_step ::
  "hash_tree \<Rightarrow> tree_log_entry_with_proof \<Rightarrow> tree_instruction \<Rightarrow> value_hash \<Rightarrow> value_hash res" where
  "verify_proof_step H op instruction root =
     ensure (length (merkle_path op) \<le> TREE_DEPTH) (Proof ProofPathTooLong)
     (and_then
       (case instruction of
          Read _ \<Rightarrow> ensure (root_hash op = root) (Proof (OpRootMismatch (root_hash op) root))
                     (ensure (log_is_read (base op)) (Proof BaseNotRead) (Inr ()))
        | Write _ \<Rightarrow> ensure (\<not> log_is_read (base op)) (Proof BaseNotWrite) (Inr ()))
       (\<lambda>_. and_then (fold_merkle_path H (merkle_path op) (prev_entry (base op) (instruction_key instruction)))
         (\<lambda>prev_hash. ensure (prev_hash = root) (Proof (PrevHashMismatch prev_hash root))
           (and_then
             (case instruction of
                Read _ \<Rightarrow> Inr ()
              | Write new_entry \<Rightarrow> and_then (fold_merkle_path H (merkle_path op) new_entry)
                  (\<lambda>next_hash. ensure (next_hash = root_hash op)
                     (Proof (NextHashMismatch next_hash (root_hash op))) (Inr ())))
             (\<lambda>_. Inr (root_hash op))))))"

fun verify_proofs_loop ::
  "hash_tree \<Rightarrow> (tree_log_entry_with_proof \<times> tree_instruction) list \<Rightarrow> value_hash \<Rightarrow> value_hash res" where
  "verify_proofs_loop H [] root = Inr root"
| "verify_proofs_loop H ((op, instruction) # rest) root =
     and_then (verify_proof_step H op instruction root) (verify_proofs_loop H rest)"

definition verify_proofs ::
  "hash_tree \<Rightarrow> block_output_with_proofs \<Rightarrow> value_hash \<Rightarrow> tree_instruction list \<Rightarrow> unit res" where
  "verify_proofs H out old_root_hash instructions =
     ensure (length instructions = length (logs out)) (Proof InstructionsLength)
       (and_then (verify_proofs_loop H (zip (logs out) instructions) old_root_hash) (\<lambda>_. Inr ()))"

text \<open>\<open>TreeEntryWithProof::verify\<close>.\<close>

definition verify_entry :: "hash_tree \<Rightarrow> tree_entry_with_proof \<Rightarrow> value_hash \<Rightarrow> unit res" where
  "verify_entry H p trusted_root_hash =
     ensure (leaf_index (proof_base p) = 0 \<longrightarrow> value (proof_base p) = 0) (Proof MissingValueNotZero)
       (and_then (fold_merkle_path H (proof_path p) (proof_base p)) (\<lambda>root.
          ensure (root = trusted_root_hash) (Proof (RootHashMismatch root trusted_root_hash)) (Inr ())))"

section \<open>Specification of a run\<close>

fun is_read_instruction :: "tree_instruction \<Rightarrow> bool" where
  "is_read_instruction (Read _) = True"
| "is_read_instruction (Write _) = False"

text \<open>
  An operation is honest in state \<open>m\<close> if its path is the path of the key in \<open>m\<close>, its log reports the leaf
  of \<open>m\<close> and has the kind of the instruction, and its root is the root of the next state.
\<close>

definition honest_op :: "hash_tree \<Rightarrow> tree_state \<Rightarrow> tree_log_entry_with_proof \<Rightarrow> tree_instruction \<Rightarrow> bool" where
  "honest_op H m op ins \<longleftrightarrow>
     length (merkle_path op) \<le> TREE_DEPTH \<and>
     expand_path H (merkle_path op) = honest_path H m (instruction_key ins) \<and>
     log_is_read (base op) = is_read_instruction ins \<and>
     log_matches m (instruction_key ins) (base op) \<and>
     root_hash op = tree_root H (tree_apply ins m)"

fun honest_run :: "hash_tree \<Rightarrow> tree_state \<Rightarrow> (tree_log_entry_with_proof \<times> tree_instruction) list \<Rightarrow> bool" where
  "honest_run H m [] = True"
| "honest_run H m ((op, ins) # rest) = (honest_op H m op ins \<and> honest_run H (tree_apply ins m) rest)"

text \<open>Collision freedom of the folds of a run, each against the state it is checked in.\<close>

fun run_collision_free ::
  "hash_tree \<Rightarrow> tree_state \<Rightarrow> (tree_log_entry_with_proof \<times> tree_instruction) list \<Rightarrow> bool" where
  "run_collision_free H m [] = True"
| "run_collision_free H m ((op, ins) # rest) =
     (collision_free H m (merkle_path op) (prev_entry (base op) (instruction_key ins)) \<and>
      run_collision_free H (tree_apply ins m) rest)"

section \<open>Lemmas\<close>

lemma key_prev_entry [simp]: "key (prev_entry b k) = k"
  by (cases b) (simp_all add: tree_entry_empty_eq)

lemma log_matches_prev_entry:
  "log_matches m k b \<longleftrightarrow> leaf_of m k = (value (prev_entry b k), leaf_index (prev_entry b k))"
  by (cases b) (auto simp: tree_entry_empty_eq)

lemma leaf_of_tree_apply:
  "k \<noteq> instruction_key ins \<Longrightarrow> leaf_of (tree_apply ins m) k = leaf_of m k"
  "leaf_of (tree_apply (Write e) m) (key e) = (value e, leaf_index e)"
  by (cases ins) (simp_all add: leaf_of_def)

lemma fold_prev_entry_honest:
  "length path \<le> TREE_DEPTH \<Longrightarrow> expand_path H path = honest_path H m k \<Longrightarrow> log_matches m k b \<Longrightarrow>
   fold_merkle_path H path (prev_entry b k) = Inr (tree_root H m)"
  by (rule fold_honest) (simp_all add: log_matches_prev_entry)

lemma fold_prev_entry_sound:
  assumes "collision_free H m path (prev_entry b k)"
  shows "fold_merkle_path H path (prev_entry b k) = Inr (tree_root H m) \<longleftrightarrow>
     length path \<le> TREE_DEPTH \<and> expand_path H path = honest_path H m k \<and> log_matches m k b"
  using fold_sound [OF assms] fold_prev_entry_honest
  by (auto simp: log_matches_prev_entry fold_merkle_path_eq_Inr)

lemma fold_new_entry:
  "length path \<le> TREE_DEPTH \<Longrightarrow> expand_path H path = honest_path H m (key e) \<Longrightarrow>
   fold_merkle_path H path e = Inr (tree_root H (tree_apply (Write e) m))"
  by (rule fold_honest) (simp_all add: leaf_of_def)

lemma verify_proof_step_iff:
  assumes "collision_free H m (merkle_path op) (prev_entry (base op) (instruction_key ins))"
  shows "verify_proof_step H op ins (tree_root H m) = Inr r \<longleftrightarrow>
     honest_op H m op ins \<and> r = tree_root H (tree_apply ins m)"
proof (cases ins)
  case (Read k)
  then show ?thesis
    using fold_prev_entry_sound [OF assms]
    by (auto simp: verify_proof_step_def honest_op_def)
next
  case (Write e)
  then show ?thesis
    using fold_prev_entry_sound [OF assms] fold_new_entry [of "merkle_path op" H m e]
    by (auto simp: verify_proof_step_def honest_op_def)
qed

lemma verify_proofs_loop_iff:
  assumes "run_collision_free H m xs"
  shows "verify_proofs_loop H xs (tree_root H m) = Inr r \<longleftrightarrow>
     honest_run H m xs \<and> r = tree_root H (fold tree_apply (map snd xs) m)"
  using assms
proof (induction H m xs rule: honest_run.induct)
  case (1 H m)
  then show ?case by auto
next
  case (2 H m op ins rest)
  then show ?case using verify_proof_step_iff [of H m op ins] by auto
qed

text \<open>An honest run is accepted with no assumption on the hash functions.\<close>

lemma verify_proof_step_honest:
  assumes "honest_op H m op ins"
  shows "verify_proof_step H op ins (tree_root H m) = Inr (tree_root H (tree_apply ins m))"
proof -
  have "fold_merkle_path H (merkle_path op) (prev_entry (base op) (instruction_key ins)) =
      Inr (tree_root H m)"
    using assms by (simp add: honest_op_def fold_prev_entry_honest)
  then show ?thesis
    using assms fold_new_entry [of "merkle_path op" H m]
    by (cases ins) (auto simp: verify_proof_step_def honest_op_def)
qed

lemma verify_proofs_loop_honest:
  "honest_run H m xs \<Longrightarrow>
   verify_proofs_loop H xs (tree_root H m) = Inr (tree_root H (fold tree_apply (map snd xs) m))"
  by (induction H m xs rule: honest_run.induct) (simp_all add: verify_proof_step_honest)

text \<open>The root a batch of proofs ends in is the root hash of its last log.\<close>

lemma verify_proof_step_root:
  "verify_proof_step H op ins root = Inr r \<Longrightarrow> r = root_hash op"
  by (auto simp: verify_proof_step_def split: tree_instruction.splits)

lemma verify_proofs_loop_root:
  "verify_proofs_loop H xs root = Inr r \<Longrightarrow>
   r = (if xs = [] then root else root_hash (fst (last xs)))"
proof (induction H xs root rule: verify_proofs_loop.induct)
  case (1 H root)
  then show ?case by simp
next
  case (2 H op ins rest root)
  then obtain r' where r': "verify_proof_step H op ins root = Inr r'"
    and rest: "verify_proofs_loop H rest r' = Inr r" by auto
  from "2.IH" [OF rest] verify_proof_step_root [OF r'] show ?case by simp
qed

section \<open>Properties\<close>

text \<open>
  C21. Proof verification decides honesty: from the root of a state, and short of a collision of
  the branch or leaf hash on the paths compared, \<open>verify_proofs\<close> accepts a block output for a list of
  instructions exactly when each operation's path, log and root are those of the successive states.
\<close>

theorem verify_proofs_iff_honest:
  assumes "run_collision_free H m (zip (logs out) instructions)"
  shows "verify_proofs H out (tree_root H m) instructions = Inr () \<longleftrightarrow>
     length instructions = length (logs out) \<and> honest_run H m (zip (logs out) instructions)"
  using verify_proofs_loop_iff [OF assms] by (auto simp: verify_proofs_def)

text \<open>
  A single entry proof is accepted against the root of a state only for the leaf of that state
  (the empty leaf for an absent key), short of a collision.
\<close>

theorem verify_entry_sound:
  assumes "collision_free H m (proof_path p) (proof_base p)"
    and "verify_entry H p (tree_root H m) = Inr ()"
  shows "leaf_of m (key (proof_base p)) = (value (proof_base p), leaf_index (proof_base p))"
  using fold_sound [OF assms(1)] assms(2) by (auto simp: verify_entry_def)

section \<open>Witnesses\<close>

text \<open>Inserting a first leaf into the empty tree, and proving the absence of a key.\<close>

definition first_insertion :: "tree_log_entry_with_proof \<times> tree_instruction" where
  "first_insertion =
     (\<lparr>base = Inserted, merkle_path = [],
       root_hash = tree_root (blake2_hash_tree counter_hash) [5 \<mapsto> (7, 1)]\<rparr>, instruction_write 5 1 7)"

lemma first_insertion_run:
  "run_collision_free (blake2_hash_tree counter_hash) Map.empty [first_insertion]"
  "honest_run (blake2_hash_tree counter_hash) Map.empty [first_insertion]"
  by (simp_all add: first_insertion_def counter_hash_collision_free honest_op_def
      blake2.honest_path_empty instruction_write_def leaf_of_def)

theorem verify_proofs_iff_honest_witness:
  "verify_proofs (blake2_hash_tree counter_hash) \<lparr>logs = [fst first_insertion], leaf_count = 1\<rparr>
     (tree_root (blake2_hash_tree counter_hash) Map.empty) [snd first_insertion] = Inr ()"
  using verify_proofs_iff_honest [of "blake2_hash_tree counter_hash" Map.empty
      "\<lparr>logs = [fst first_insertion], leaf_count = 1\<rparr>" "[snd first_insertion]"] first_insertion_run
  by simp

theorem verify_entry_sound_witness:
  "leaf_of Map.empty (key (tree_entry_empty 9)) = (value (tree_entry_empty 9), leaf_index (tree_entry_empty 9))"
proof -
  let ?H = "blake2_hash_tree counter_hash" and ?p = "\<lparr>proof_base = tree_entry_empty 9, proof_path = []\<rparr>"
  have "fold_merkle_path ?H [] (tree_entry_empty 9) = Inr (tree_root ?H Map.empty)"
    by (rule fold_honest [where m = Map.empty]) (simp_all add: blake2.honest_path_empty leaf_of_def tree_entry_empty_def)
  then have "verify_entry ?H ?p (tree_root ?H Map.empty) = Inr ()"
    by (simp add: verify_entry_def) (simp add: tree_entry_empty_def)
  then show ?thesis
    using verify_entry_sound [of ?H Map.empty ?p] counter_hash_collision_free [of 9] by simp
qed

end
