(* ===== verification/Witness_Paths.thy ===== *)
theory Witness_Paths
  imports Sparse_Tree
begin

text \<open>
  The Merkle witness of a batch and its stored path forms: \<open>src/crates/merkle_tree/src/witness.rs\<close>.
  A stored path is either in the per-path form (its own empty-subtree prefix cut off) or in the legacy
  delta form (cut at its common prefix with entry 0, which is stored at full depth).
  \<open>normalize_stored_paths\<close> turns both into the per-path form. The lemmas show that it is idempotent,
  that it keeps the full-depth path of every entry, and that it inverts the legacy encoder.
\<close>

section \<open>Definitions\<close>

record storage_log_metadata =
  meta_root_hash :: h256
  meta_is_write :: bool
  first_write :: bool
  merkle_paths :: "h256 list"
  leaf_hashed_key :: u256
  leaf_enumeration_index :: u64
  value_written :: h256
  value_read :: h256

definition leaf_hashed_key_array :: "storage_log_metadata \<Rightarrow> u8 list" where
  "leaf_hashed_key_array log = le_bytes 32 (leaf_hashed_key log)"

text \<open>\<open>into_merkle_paths_array::<PATH_LEN>\<close> panics on any other stored length.\<close>

definition into_merkle_paths_array :: "nat \<Rightarrow> storage_log_metadata \<Rightarrow> h256 list res" where
  "into_merkle_paths_array path_len log =
     ensure (length (merkle_paths log) = path_len) (Panic PathTooLong) (Inr (merkle_paths log))"

record witness_input_merkle_paths =
  witness_paths :: "storage_log_metadata list"
  next_enumeration_index :: u64

definition witness_new :: "u64 \<Rightarrow> witness_input_merkle_paths" where
  "witness_new i = \<lparr>witness_paths = [], next_enumeration_index = i\<rparr>"

text \<open>The trim shared by \<open>push_merkle_path\<close> and the last loop of \<open>normalize_stored_paths\<close>.\<close>

definition trim_path :: "hash_fn \<Rightarrow> storage_log_metadata \<Rightarrow> storage_log_metadata \<times> nat" where
  "trim_path blake log =
     (let empty_prefix = empty_subtree_prefix_len blake (merkle_paths log)
      in (log\<lparr>merkle_paths := drop empty_prefix (merkle_paths log)\<rparr>, empty_prefix))"

definition push_merkle_path ::
  "hash_fn \<Rightarrow> storage_log_metadata \<Rightarrow> witness_input_merkle_paths \<Rightarrow> witness_input_merkle_paths" where
  "push_merkle_path blake path w =
     w\<lparr>witness_paths := witness_paths w @ [fst (trim_path blake path)]\<rparr>"

fun is_legacy_delta_form :: "witness_input_merkle_paths \<Rightarrow> bool" where
  "is_legacy_delta_form w =
     (case witness_paths w of [] \<Rightarrow> False | first # _ \<Rightarrow> length (merkle_paths first) = TREE_DEPTH)"

text \<open>
  Decoding one later entry of the legacy form: \<open>fui\<close> is where the encoder cut it, and the
  populated part \<open>prefix[populated_from..fui]\<close> of entry 0 is spliced back in front.
\<close>

definition splice_prefix :: "h256 list \<Rightarrow> nat \<Rightarrow> storage_log_metadata \<Rightarrow> storage_log_metadata \<times> nat" where
  "splice_prefix prefix populated_from log =
     (let fui = TREE_DEPTH - length (merkle_paths log)
      in if populated_from < fui
         then (log\<lparr>merkle_paths := drop populated_from (take fui prefix) @ merkle_paths log\<rparr>,
               fui - populated_from)
         else (log, 0))"

definition normalize_stored_paths ::
  "hash_fn \<Rightarrow> witness_input_merkle_paths \<Rightarrow> ((nat \<times> nat) \<times> witness_input_merkle_paths) res" where
  "normalize_stored_paths blake w =
     (case find (\<lambda>log. TREE_DEPTH < length (merkle_paths log)) (witness_paths w) of
        Some log \<Rightarrow> Inl (Witness (MerklePathTooLong (length (merkle_paths log))))
      | None \<Rightarrow>
          and_then
            (if is_legacy_delta_form w then
               let prefix = merkle_paths (hd (witness_paths w));
                   populated_from = empty_subtree_prefix_len blake prefix
               in ensure (0 < populated_from) (Witness NotLegacyDelta)
                    (let spliced = map (splice_prefix prefix populated_from) (tl (witness_paths w))
                     in Inr (hd (witness_paths w) # map fst spliced, sum_list (map snd spliced)))
             else Inr (witness_paths w, 0))
            (\<lambda>(entries, restored).
               let trimmed = map (trim_path blake) entries
               in Inr ((sum_list (map snd trimmed), restored),
                       w\<lparr>witness_paths := map fst trimmed\<rparr>)))"

text \<open>
  \<open>into_merkle_paths\<close>: the subtraction saturates, so an over-long path passes through unchanged.
\<close>

definition expand_meta :: "hash_fn \<Rightarrow> storage_log_metadata \<Rightarrow> storage_log_metadata" where
  "expand_meta blake log =
     (let missing = TREE_DEPTH - length (merkle_paths log)
      in log\<lparr>merkle_paths := map (blake2_empty_subtree_hash blake) [0..<missing] @ merkle_paths log\<rparr>)"

definition into_merkle_paths :: "hash_fn \<Rightarrow> witness_input_merkle_paths \<Rightarrow> storage_log_metadata list" where
  "into_merkle_paths blake w = map (expand_meta blake) (witness_paths w)"

text \<open>
  The encoder that produced the legacy form (kept in the tests of \<open>witness.rs\<close> as \<open>legacy_form\<close>):
  entry 0 as it is, every later entry cut at the first position where it differs from entry 0.
\<close>

definition first_difference :: "h256 list \<Rightarrow> h256 list \<Rightarrow> nat" where
  "first_difference path path0 =
     (let n = length (takeWhile (\<lambda>(h, h0). h = h0) (zip path path0))
      in if n < length (zip path path0) then n else TREE_DEPTH)"

fun legacy_form :: "u64 \<Rightarrow> storage_log_metadata list \<Rightarrow> witness_input_merkle_paths" where
  "legacy_form i [] = witness_new i"
| "legacy_form i (log0 # rest) =
     \<lparr>witness_paths = log0 # map (\<lambda>log. log\<lparr>merkle_paths :=
        drop (first_difference (merkle_paths log) (merkle_paths log0)) (merkle_paths log)\<rparr>) rest,
      next_enumeration_index = i\<rparr>"

section \<open>Lemmas\<close>

lemma expand_meta_eq:
  "expand_meta blake log = log\<lparr>merkle_paths := expand_path (blake2_hash_tree blake) (merkle_paths log)\<rparr>"
  by (simp add: expand_meta_def expand_path_def Let_def)

lemma expand_meta_fields:
  "merkle_paths (expand_meta blake log) = expand_path (blake2_hash_tree blake) (merkle_paths log)"
  "meta_root_hash (expand_meta blake log) = meta_root_hash log"
  "leaf_hashed_key (expand_meta blake log) = leaf_hashed_key log"
  by (simp_all add: expand_meta_eq)

lemma expand_meta_full: "length (merkle_paths log) = TREE_DEPTH \<Longrightarrow> expand_meta blake log = log"
  by (simp add: expand_meta_def)

lemma fst_trim_path [simp]:
  "fst (trim_path blake log) =
     log\<lparr>merkle_paths := drop (empty_subtree_prefix_len blake (merkle_paths log)) (merkle_paths log)\<rparr>"
  by (simp add: trim_path_def Let_def)

lemma snd_trim_path [simp]: "snd (trim_path blake log) = empty_subtree_prefix_len blake (merkle_paths log)"
  by (simp add: trim_path_def Let_def)

lemma expand_meta_trim:
  "length (merkle_paths log) \<le> TREE_DEPTH \<Longrightarrow>
   expand_meta blake (fst (trim_path blake log)) = expand_meta blake log"
  by (simp add: expand_meta_eq expand_path_trim)

lemma find_too_long_None:
  "find (\<lambda>log. TREE_DEPTH < length (merkle_paths log)) xs = None \<longleftrightarrow>
     (\<forall>log \<in> set xs. length (merkle_paths log) \<le> TREE_DEPTH)"
  by (auto simp: find_None_iff not_less)

text \<open>Entry 0 is its own empty-subtree prefix followed by its populated part.\<close>

lemma take_empty_prefix:
  assumes "length p0 = TREE_DEPTH" and "n \<le> empty_subtree_prefix_len blake p0"
  shows "take n p0 = map (blake2_empty_subtree_hash blake) [0..<n]"
proof (rule nth_equalityI)
  show "length (take n p0) = length (map (blake2_empty_subtree_hash blake) [0..<n])"
    using assms empty_subtree_prefix_len_le [of blake p0] by simp
  show "take n p0 ! i = map (blake2_empty_subtree_hash blake) [0..<n] ! i" if "i < length (take n p0)" for i
    using that assms empty_subtree_prefix_len_nth [of i blake p0] by simp
qed

lemma drop_take_append: "m \<le> n \<Longrightarrow> take m xs @ drop m (take n xs) = take n xs"
  by (metis append_take_drop_id min.absorb1 take_take)

lemma expand_splice:
  assumes "length p0 = TREE_DEPTH" and "length (merkle_paths log) \<le> TREE_DEPTH"
  shows "expand_meta blake (fst (splice_prefix p0 (empty_subtree_prefix_len blake p0) log)) =
    log\<lparr>merkle_paths := take (TREE_DEPTH - length (merkle_paths log)) p0 @ merkle_paths log\<rparr>"
proof (cases "empty_subtree_prefix_len blake p0 < TREE_DEPTH - length (merkle_paths log)")
  case True
  let ?n = "empty_subtree_prefix_len blake p0" and ?fui = "TREE_DEPTH - length (merkle_paths log)"
  have "TREE_DEPTH - (?fui - ?n + length (merkle_paths log)) = ?n"
    using True assms(2) by simp
  then have "expand_meta blake (fst (splice_prefix p0 ?n log)) =
      log\<lparr>merkle_paths := (map (blake2_empty_subtree_hash blake) [0..<?n] @ drop ?n (take ?fui p0)) @ merkle_paths log\<rparr>"
    using True assms by (simp add: splice_prefix_def expand_meta_def Let_def min_absorb2)
  also have "map (blake2_empty_subtree_hash blake) [0..<?n] @ drop ?n (take ?fui p0) = take ?fui p0"
    using True take_empty_prefix [OF assms(1) order_refl, of blake] drop_take_append [of ?n ?fui p0] by simp
  finally show ?thesis .
next
  case False
  then show ?thesis
    using take_empty_prefix [OF assms(1), of "TREE_DEPTH - length (merkle_paths log)" blake]
    by (simp add: splice_prefix_def expand_meta_def Let_def)
qed

lemma length_splice:
  assumes "length p0 = TREE_DEPTH" and "length (merkle_paths log) \<le> TREE_DEPTH"
  shows "length (merkle_paths (fst (splice_prefix p0 n log))) \<le> TREE_DEPTH"
  using assms by (auto simp: splice_prefix_def Let_def)

text \<open>
  The two successful outcomes of normalisation, with the full-depth paths it keeps. In the legacy
  form the full-depth path of a later entry is the cut-off part of entry 0 and the stored path.
\<close>

lemma normalize_non_legacy:
  assumes "\<not> is_legacy_delta_form w" and "normalize_stored_paths blake w = Inr (c, w')"
  shows "witness_paths w' = map (\<lambda>log. fst (trim_path blake log)) (witness_paths w)"
    and "\<forall>log \<in> set (witness_paths w). length (merkle_paths log) \<le> TREE_DEPTH"
    and "c = (sum_list (map (\<lambda>log. empty_subtree_prefix_len blake (merkle_paths log)) (witness_paths w)), 0)"
  using assms by (auto simp: normalize_stored_paths_def find_too_long_None Let_def comp_def
      split: option.splits)

lemma normalize_legacy:
  assumes "is_legacy_delta_form w" and "normalize_stored_paths blake w = Inr (c, w')"
  obtains log0 rest where "witness_paths w = log0 # rest" and "length (merkle_paths log0) = TREE_DEPTH"
    and "0 < empty_subtree_prefix_len blake (merkle_paths log0)"
    and "\<forall>log \<in> set rest. length (merkle_paths log) \<le> TREE_DEPTH"
    and "witness_paths w' = fst (trim_path blake log0) #
      map (\<lambda>log. fst (trim_path blake (fst (splice_prefix (merkle_paths log0)
        (empty_subtree_prefix_len blake (merkle_paths log0)) log)))) rest"
proof -
  obtain log0 rest where "witness_paths w = log0 # rest" "length (merkle_paths log0) = TREE_DEPTH"
    using assms(1) by (auto split: list.splits)
  with assms that show ?thesis
    by (auto simp: normalize_stored_paths_def find_too_long_None Let_def comp_def split: option.splits)
qed

lemma into_normalize_non_legacy:
  assumes "\<not> is_legacy_delta_form w" and "normalize_stored_paths blake w = Inr (c, w')"
  shows "into_merkle_paths blake w' = into_merkle_paths blake w"
  using normalize_non_legacy [OF assms]
  by (auto simp: into_merkle_paths_def expand_meta_trim simp del: fst_trim_path)

lemma into_normalize_legacy:
  assumes "is_legacy_delta_form w" and "normalize_stored_paths blake w = Inr (c, w')"
    and "witness_paths w = log0 # rest"
  shows "into_merkle_paths blake w' = log0 # map (\<lambda>log. log\<lparr>merkle_paths :=
     take (TREE_DEPTH - length (merkle_paths log)) (merkle_paths log0) @ merkle_paths log\<rparr>) rest"
proof (rule normalize_legacy [OF assms(1,2)])
  fix log0' rest'
  assume w: "witness_paths w = log0' # rest'" and len0: "length (merkle_paths log0') = TREE_DEPTH"
    and len: "\<forall>log \<in> set rest'. length (merkle_paths log) \<le> TREE_DEPTH"
    and w': "witness_paths w' = fst (trim_path blake log0') #
      map (\<lambda>log. fst (trim_path blake (fst (splice_prefix (merkle_paths log0')
        (empty_subtree_prefix_len blake (merkle_paths log0')) log)))) rest'"
  have "expand_meta blake (fst (trim_path blake (fst (splice_prefix (merkle_paths log0')
        (empty_subtree_prefix_len blake (merkle_paths log0')) log)))) =
      log\<lparr>merkle_paths := take (TREE_DEPTH - length (merkle_paths log)) (merkle_paths log0') @ merkle_paths log\<rparr>"
    if "log \<in> set rest'" for log
    using that len len0 expand_meta_trim expand_splice length_splice by metis
  moreover have "expand_meta blake (fst (trim_path blake log0')) = log0'"
    using len0 by (subst expand_meta_trim) (simp_all add: expand_meta_full)
  ultimately show ?thesis using assms(3) w w' by (simp add: into_merkle_paths_def del: fst_trim_path)
qed

text \<open>After normalisation every path is within \<open>TREE_DEPTH\<close>, trimmed, and entry 0 is not at full depth.\<close>

lemma drop_trimmed_length:
  "0 < empty_subtree_prefix_len blake p \<Longrightarrow> length p \<le> n \<Longrightarrow>
   length (drop (empty_subtree_prefix_len blake p) p) < n"
  using empty_subtree_prefix_len_le [of blake p] by simp

lemma trim_path_trimmed:
  assumes "length (merkle_paths log) \<le> TREE_DEPTH"
  shows "length (merkle_paths (fst (trim_path blake log))) \<le> TREE_DEPTH"
    and "empty_subtree_prefix_len blake (merkle_paths (fst (trim_path blake log))) = 0"
  using assms by (auto simp: empty_subtree_prefix_len_trimmed)

lemma normalize_result:
  assumes "normalize_stored_paths blake w = Inr (c, w')"
  shows "\<not> is_legacy_delta_form w'"
    and "\<forall>log \<in> set (witness_paths w'). length (merkle_paths log) \<le> TREE_DEPTH \<and>
           empty_subtree_prefix_len blake (merkle_paths log) = 0"
proof -
  have "\<not> is_legacy_delta_form w' \<and>
     (\<forall>log \<in> set (witness_paths w'). length (merkle_paths log) \<le> TREE_DEPTH \<and>
           empty_subtree_prefix_len blake (merkle_paths log) = 0)"
  proof (cases "is_legacy_delta_form w")
    case True
    then show ?thesis
    proof (rule normalize_legacy [OF _ assms])
      fix log0 rest
      assume w: "length (merkle_paths log0) = TREE_DEPTH"
        "0 < empty_subtree_prefix_len blake (merkle_paths log0)"
        "\<forall>log \<in> set rest. length (merkle_paths log) \<le> TREE_DEPTH"
        "witness_paths w' = fst (trim_path blake log0) #
          map (\<lambda>log. fst (trim_path blake (fst (splice_prefix (merkle_paths log0)
            (empty_subtree_prefix_len blake (merkle_paths log0)) log)))) rest"
      from w(3) length_splice [OF w(1)]
      have "length (merkle_paths (fst (splice_prefix (merkle_paths log0)
            (empty_subtree_prefix_len blake (merkle_paths log0)) log))) \<le> TREE_DEPTH"
        if "log \<in> set rest" for log using that by blast
      with w(1,2,4) drop_trimmed_length [OF w(2), of TREE_DEPTH] trim_path_trimmed show ?thesis
        by (auto simp del: fst_trim_path) (simp_all add: empty_subtree_prefix_len_trimmed)
    qed
  next
    case False
    with normalize_non_legacy [OF False assms] show ?thesis
      by (fastforce simp: empty_subtree_prefix_len_trimmed split: list.splits)
  qed
  then show "\<not> is_legacy_delta_form w'"
    and "\<forall>log \<in> set (witness_paths w'). length (merkle_paths log) \<le> TREE_DEPTH \<and>
           empty_subtree_prefix_len blake (merkle_paths log) = 0" by auto
qed

lemma normalize_fixpoint:
  assumes "\<not> is_legacy_delta_form w"
    and "\<forall>log \<in> set (witness_paths w). length (merkle_paths log) \<le> TREE_DEPTH \<and>
           empty_subtree_prefix_len blake (merkle_paths log) = 0"
  shows "normalize_stored_paths blake w = Inr ((0, 0), w)"
proof -
  have "find (\<lambda>log. TREE_DEPTH < length (merkle_paths log)) (witness_paths w) = None"
    using assms(2) by (simp add: find_too_long_None)
  moreover have "map (\<lambda>log. fst (trim_path blake log)) (witness_paths w) = witness_paths w"
    using assms(2) by (intro map_idI) simp
  moreover have "sum_list (map (\<lambda>log. snd (trim_path blake log)) (witness_paths w)) = 0"
    using assms(2) by simp
  ultimately show ?thesis
    using assms(1) by (simp add: normalize_stored_paths_def Let_def comp_def
        del: fst_trim_path snd_trim_path is_legacy_delta_form.simps)
qed

text \<open>The cut of the legacy encoder is inverted by putting the cut-off part of entry 0 back.\<close>

lemma first_difference_le:
  "length path = TREE_DEPTH \<Longrightarrow> length path0 = TREE_DEPTH \<Longrightarrow> first_difference path path0 \<le> TREE_DEPTH"
  by (simp add: first_difference_def Let_def)

lemma take_first_difference:
  assumes "length path = TREE_DEPTH" and "length path0 = TREE_DEPTH"
  shows "take (first_difference path path0) path0 = take (first_difference path path0) path"
proof -
  let ?t = "takeWhile (\<lambda>(h, h0). h = h0) (zip path path0)"
  have "length ?t \<le> TREE_DEPTH" using length_takeWhile_le [of _ "zip path path0"] assms by simp
  then have fd: "first_difference path path0 = length ?t"
    using assms by (simp add: first_difference_def Let_def)
  have "path ! i = path0 ! i" if i: "i < length ?t" for i
  proof -
    have "?t ! i = zip path path0 ! i" using i by (rule takeWhile_nth)
    moreover have "(\<lambda>(h, h0). h = h0) (?t ! i)" using i by (metis nth_mem set_takeWhileD)
    moreover have "i < length path" "i < length path0"
      using i \<open>length ?t \<le> TREE_DEPTH\<close> assms by simp_all
    ultimately show ?thesis by simp
  qed
  then show ?thesis
    using fd \<open>length ?t \<le> TREE_DEPTH\<close> assms by (intro nth_equalityI) simp_all
qed

lemma legacy_entry_decode:
  assumes "length (merkle_paths log) = TREE_DEPTH" and "length path0 = TREE_DEPTH"
  shows "take (TREE_DEPTH - length (drop (first_difference (merkle_paths log) path0) (merkle_paths log))) path0 @
      drop (first_difference (merkle_paths log) path0) (merkle_paths log) = merkle_paths log"
proof -
  have "TREE_DEPTH - length (drop (first_difference (merkle_paths log) path0) (merkle_paths log)) =
      first_difference (merkle_paths log) path0"
    using assms first_difference_le [of "merkle_paths log" path0] by simp
  then show ?thesis using take_first_difference [OF assms] by simp
qed

lemma normalize_succeeds:
  assumes "\<forall>log \<in> set (witness_paths w). length (merkle_paths log) \<le> TREE_DEPTH"
    and "is_legacy_delta_form w \<Longrightarrow> 0 < empty_subtree_prefix_len blake (merkle_paths (hd (witness_paths w)))"
  obtains c w' where "normalize_stored_paths blake w = Inr (c, w')"
    and "next_enumeration_index w' = next_enumeration_index w"
proof -
  have none: "find (\<lambda>log. TREE_DEPTH < length (merkle_paths log)) (witness_paths w) = None"
    using assms(1) by (simp add: find_too_long_None)
  show ?thesis
  proof (cases "is_legacy_delta_form w")
    case True
    with none assms(2) that show ?thesis
      by (simp add: normalize_stored_paths_def Let_def del: is_legacy_delta_form.simps)
  next
    case False
    with none that show ?thesis
      by (simp add: normalize_stored_paths_def Let_def del: is_legacy_delta_form.simps)
  qed
qed

lemma into_push:
  "length (merkle_paths log) = TREE_DEPTH \<Longrightarrow>
   into_merkle_paths blake (push_merkle_path blake log w) = into_merkle_paths blake w @ [log]"
  by (simp add: into_merkle_paths_def push_merkle_path_def expand_meta_trim expand_meta_full
      del: fst_trim_path)

lemma empty_subtree_prefix_len_pos:
  assumes "path \<noteq> []" and "length path \<le> TREE_DEPTH"
    and "hd path = blake2_empty_subtree_hash blake (TREE_DEPTH - length path)"
  shows "0 < empty_subtree_prefix_len blake path"
  using assms empty_subtree_prefix_len_stops [of path blake]
  by (cases "empty_subtree_prefix_len blake path = 0") (auto simp: hd_conv_nth)

section \<open>Properties\<close>

text \<open>
  Normalisation decodes the legacy delta form: for any list of full-depth entries whose first one
  starts with an empty-subtree hash (the padding the legacy encoder put there), normalising the legacy
  encoding succeeds, keeps the enumeration index, and expands to exactly the original entries.
\<close>

theorem normalize_decodes_legacy_form:
  assumes "\<forall>log \<in> set (log0 # rest). length (merkle_paths log) = TREE_DEPTH"
    and "hd (merkle_paths log0) = blake2_empty_subtree_hash blake 0"
  shows "\<exists>c w. normalize_stored_paths blake (legacy_form i (log0 # rest)) = Inr (c, w) \<and>
     next_enumeration_index w = i \<and> into_merkle_paths blake w = log0 # rest"
proof -
  let ?w = "legacy_form i (log0 # rest)"
  have legacy: "is_legacy_delta_form ?w" using assms(1) by simp
  have "merkle_paths log0 \<noteq> []" using assms(1) by (auto simp: TREE_DEPTH_eq)
  then have pos: "0 < empty_subtree_prefix_len blake (merkle_paths log0)"
    using assms by (intro empty_subtree_prefix_len_pos) simp_all
  obtain c w where n: "normalize_stored_paths blake ?w = Inr (c, w)"
    and i: "next_enumeration_index w = next_enumeration_index ?w"
    by (rule normalize_succeeds [of ?w blake]) (use assms(1) pos in auto)
  have "into_merkle_paths blake w = log0 # rest"
    by (subst into_normalize_legacy [OF legacy n, of log0])
      (use assms(1) in \<open>auto intro!: map_idI simp: legacy_entry_decode simp del: length_drop\<close>)
  with n i show ?thesis by auto
qed

text \<open>
  Normalisation is idempotent: its output normalises to itself, with nothing reclaimed and
  nothing restored, and is never mistaken for the legacy form.
\<close>

theorem normalize_idempotent:
  assumes "normalize_stored_paths blake w = Inr (c, w')"
  shows "normalize_stored_paths blake w' = Inr ((0, 0), w') \<and> \<not> is_legacy_delta_form w'"
  using normalize_fixpoint [OF normalize_result [OF assms]] normalize_result(1) [OF assms] by simp

text \<open>
  Pushing full-depth paths onto a witness and expanding it gives them back, in order, whatever
  the hash function: the stored form loses nothing and no entry depends on another.
\<close>

theorem push_then_expand:
  assumes "\<forall>log \<in> set entries. length (merkle_paths log) = TREE_DEPTH"
  shows "into_merkle_paths blake (fold (push_merkle_path blake) entries (witness_new i)) = entries"
proof -
  have "into_merkle_paths blake (fold (push_merkle_path blake) entries w) =
      into_merkle_paths blake w @ entries" for w
    using assms by (induction entries arbitrary: w) (simp_all add: into_push)
  from this [of "witness_new i"] show ?thesis by (simp add: into_merkle_paths_def witness_new_def)
qed

section \<open>Witnesses\<close>

text \<open>A concrete hash function for the witnesses of this development: the length of its input.\<close>

definition length_hash :: hash_fn where
  "length_hash bs = word_of_nat (length bs)"

definition sample_meta :: "h256 list \<Rightarrow> storage_log_metadata" where
  "sample_meta path = \<lparr>meta_root_hash = 0, meta_is_write = False, first_write = False,
     merkle_paths = path, leaf_hashed_key = 0, leaf_enumeration_index = 0, value_written = 0, value_read = 0\<rparr>"

lemma length_hash_empty_0: "blake2_empty_subtree_hash length_hash 0 = 40"
  by (subst blake2_empty_subtree_hash_eq) (simp_all add: hash_bytes_def length_hash_def)

theorem normalize_decodes_legacy_form_witness:
  "\<exists>c w. normalize_stored_paths length_hash
       (legacy_form 4 [sample_meta (40 # replicate 255 64), sample_meta (40 # replicate 254 64 @ [7])]) = Inr (c, w) \<and>
     next_enumeration_index w = 4 \<and>
     into_merkle_paths length_hash w =
       [sample_meta (40 # replicate 255 64), sample_meta (40 # replicate 254 64 @ [7])]"
  by (rule normalize_decodes_legacy_form)
    (simp_all add: sample_meta_def TREE_DEPTH_eq length_hash_empty_0)

theorem normalize_idempotent_witness:
  "\<exists>c w'. normalize_stored_paths length_hash (witness_new 1) = Inr (c, w') \<and>
     normalize_stored_paths length_hash w' = Inr ((0, 0), w') \<and> \<not> is_legacy_delta_form w'"
proof -
  have "normalize_stored_paths length_hash (witness_new 1) = Inr ((0, 0), witness_new 1)"
    by (simp add: normalize_stored_paths_def witness_new_def)
  from normalize_idempotent [OF this] this show ?thesis by blast
qed

theorem push_then_expand_witness:
  "into_merkle_paths length_hash
     (fold (push_merkle_path length_hash) [sample_meta (40 # replicate 255 64)] (witness_new 0)) =
   [sample_meta (40 # replicate 255 64)]"
  by (rule push_then_expand) (simp add: sample_meta_def TREE_DEPTH_eq)

end
