(* ===== verification/Merkle_Witness.thy ===== *)
theory Merkle_Witness
  imports Tree_Proofs Witness_Paths
begin

text \<open>
  Interpretation of the committed Merkle witness: \<open>src/crates/airbender_verifier/src/merkle_witness.rs\<close>
  with \<open>map_log_tree\<close> and \<open>generate_tree_instructions\<close> of \<open>lib.rs\<close>.

  \<open>verify_paths_and_new_root\<close> is the streaming pass the verifier runs; \<open>reference\<close> is the three-step
  oracle it replaced. The lemmas relate the two and then relate both to the abstract state
  machine \<open>apply_vm_log\<close> on tree states. The enumeration index is a \<open>u64\<close> with the wrap-around of a
  release build.
\<close>

section \<open>Definitions\<close>

datatype witness_leaf =
    EmptyLeaf (leaf_is_write: bool)
  | ExistingLeaf (leaf_is_write: bool) (existing_index: u64) (existing_value: h256)

definition classify_witness_leaf :: "storage_log_metadata \<Rightarrow> witness_leaf res" where
  "classify_witness_leaf log =
     (let k = leaf_hashed_key log; i = leaf_enumeration_index log
      in if \<not> meta_is_write log then
           if first_write log then Inl (Witness (ReadMarkedFirstWrite k))
           else if i = 0 then Inr (EmptyLeaf False)
           else Inr (ExistingLeaf False i (value_read log))
         else
           if first_write log then Inr (EmptyLeaf True)
           else if i = 0 then Inl (Witness (RepeatedWriteIndexZero k))
           else Inr (ExistingLeaf True i (value_read log)))"

text \<open>
  The storage view the VM executes on. An entry maps the hashed key (the little-endian bytes of
  \<open>leaf_hashed_key\<close>, read as an \<open>H256\<close>) to the classified pre-state; a second entry for a key must agree.
\<close>

type_synonym storage_view = "h256 \<rightharpoonup> (h256 \<times> u64) option"

fun prestate :: "witness_leaf \<Rightarrow> (h256 \<times> u64) option" where
  "prestate (EmptyLeaf _) = None"
| "prestate (ExistingLeaf _ i v) = Some (v, i)"

definition view_key :: "u256 \<Rightarrow> h256" where
  "view_key k = from_be_bytes (le_bytes 32 k)"

fun build_view_loop :: "storage_log_metadata list \<Rightarrow> storage_view \<Rightarrow> storage_view res" where
  "build_view_loop [] view = Inr view"
| "build_view_loop (log # rest) view =
     and_then (classify_witness_leaf log) (\<lambda>leaf.
       case view (view_key (leaf_hashed_key log)) of
         None \<Rightarrow> build_view_loop rest (view(view_key (leaf_hashed_key log) \<mapsto> prestate leaf))
       | Some present \<Rightarrow>
           ensure (present = prestate leaf) (Witness (ConflictingPreState (leaf_hashed_key log)))
             (build_view_loop rest view))"

definition build_view_from_merkle_paths :: "storage_log_metadata list \<Rightarrow> storage_view res" where
  "build_view_from_merkle_paths paths = build_view_loop paths Map.empty"

definition tree_log_entry_from_witness :: "storage_log_metadata \<Rightarrow> tree_log_entry res" where
  "tree_log_entry_from_witness log =
     and_then (classify_witness_leaf log) (\<lambda>leaf. Inr (case leaf of
        EmptyLeaf w \<Rightarrow> if w then Inserted else ReadMissingKey
      | ExistingLeaf w i v \<Rightarrow> if w then Updated i v else ReadLog i v))"

text \<open>\<open>map_log_tree\<close> of \<open>lib.rs\<close>: returns the instruction and the advanced enumeration index.\<close>

fun map_log_tree ::
  "tree_key \<Rightarrow> storage_log \<Rightarrow> tree_log_entry \<Rightarrow> u64 \<Rightarrow> (tree_instruction \<times> u64) res" where
  "map_log_tree k log (Updated i _) idx =
     ensure (is_write log) (Witness MapLogKind) (Inr (instruction_write k i (log_value log), idx))"
| "map_log_tree k log Inserted idx =
     ensure (is_write log) (Witness MapLogKind) (Inr (instruction_write k idx (log_value log), idx + 1))"
| "map_log_tree k log (ReadLog _ v) idx =
     ensure (\<not> is_write log) (Witness MapLogKind)
       (ensure (log_value log = v) (Witness MapLogReadValue) (Inr (Read k, idx)))"
| "map_log_tree k log ReadMissingKey idx =
     ensure (\<not> is_write log) (Witness MapLogKind) (Inr (Read k, idx))"

definition get_bowp ::
  "hash_fn \<Rightarrow> witness_input_merkle_paths \<Rightarrow> (block_output_with_proofs \<times> u256 list) res" where
  "get_bowp blake w =
     and_then
       (collect_res (map (\<lambda>log. and_then (tree_log_entry_from_witness log) (\<lambda>b.
           Inr (\<lparr>base = b, merkle_path = merkle_paths log, root_hash = meta_root_hash log\<rparr>,
                leaf_hashed_key log)))
          (into_merkle_paths blake w)))
       (\<lambda>entries. Inr (\<lparr>logs = map fst entries, leaf_count = 0\<rparr>, map snd entries))"

fun generate_loop ::
  "hash_fn \<Rightarrow> (storage_log \<times> tree_log_entry \<times> u256) list \<Rightarrow> u64 \<Rightarrow> tree_instruction list res" where
  "generate_loop blake [] idx = Inr []"
| "generate_loop blake ((log, b, leaf_key) # rest) idx =
     (let vm_key = hashed_key_u256 blake (log_key log)
      in ensure (leaf_key = vm_key) (Witness (KeyMismatch leaf_key vm_key))
           (and_then (map_log_tree vm_key log b idx) (\<lambda>(ins, idx').
              and_then (generate_loop blake rest idx') (\<lambda>inss. Inr (ins # inss)))))"

definition generate_tree_instructions ::
  "hash_fn \<Rightarrow> u64 \<Rightarrow> block_output_with_proofs \<Rightarrow> u256 list \<Rightarrow> storage_log list \<Rightarrow> tree_instruction list res" where
  "generate_tree_instructions blake idx bowp leaf_keys vm_logs =
     ensure (length vm_logs = length (logs bowp) \<and> length (logs bowp) = length leaf_keys)
       (Witness (CountMismatch (length vm_logs) (length (logs bowp))))
       (generate_loop blake (zip vm_logs (zip (map base (logs bowp)) leaf_keys)) idx)"

text \<open>The oracle of the differential tests.\<close>

definition reference ::
  "hash_fn \<Rightarrow> witness_input_merkle_paths \<Rightarrow> storage_log list \<Rightarrow> value_hash \<Rightarrow> u64 \<Rightarrow> (value_hash \<times> u64) res" where
  "reference blake w vm_logs old_root idx =
     and_then (get_bowp blake w) (\<lambda>(bowp, leaf_keys).
     and_then (generate_tree_instructions blake idx bowp leaf_keys vm_logs) (\<lambda>instructions.
     and_then (verify_proofs (blake2_hash_tree blake) bowp old_root instructions) (\<lambda>_.
     let num_insertions = length (filter (\<lambda>log. base log = Inserted) (logs bowp))
     in and_then (ok_or (Witness RootHashUnavailable) (bowp_root_hash bowp)) (\<lambda>new_root.
          Inr (new_root, idx + word_of_nat num_insertions)))))"

text \<open>\<open>load_path_into\<close> copies the stored path into the cleared buffer.\<close>

definition load_path_into :: "h256 list \<Rightarrow> value_hash list \<Rightarrow> value_hash list" where
  "load_path_into stored buffer = stored"

text \<open>Pass 1: bound, classify, bind to the VM key and map every entry, before any fold.\<close>

fun pass1 ::
  "hash_fn \<Rightarrow> (storage_log_metadata \<times> storage_log) list \<Rightarrow> u64 \<Rightarrow>
   ((tree_log_entry \<times> tree_instruction) list \<times> u64) res" where
  "pass1 blake [] idx = Inr ([], idx)"
| "pass1 blake ((meta, vm_log) # rest) idx =
     ensure (length (merkle_paths meta) \<le> TREE_DEPTH) (Witness (MerklePathTooLong (length (merkle_paths meta))))
     (and_then (tree_log_entry_from_witness meta) (\<lambda>b.
      let k = leaf_hashed_key meta; vm_key = hashed_key_u256 blake (log_key vm_log)
      in ensure (k = vm_key) (Witness (KeyMismatch k vm_key))
         (and_then (map_log_tree k vm_log b idx) (\<lambda>(ins, idx').
            and_then (pass1 blake rest idx') (\<lambda>(xs, final). Inr ((b, ins) # xs, final))))))"

text \<open>Pass 2: fold one path at a time against the running root.\<close>

definition pass2_step ::
  "hash_fn \<Rightarrow> 'st path_hasher \<Rightarrow> storage_log_metadata \<Rightarrow> tree_log_entry \<Rightarrow> tree_instruction \<Rightarrow>
   value_hash \<Rightarrow> value_hash list \<Rightarrow> (value_hash \<times> value_hash list) res" where
  "pass2_step blake ph meta b ins root buffer =
     (let full = load_path_into (merkle_paths meta) buffer; op_root = meta_root_hash meta
      in and_then
        (case ins of
           Read _ \<Rightarrow> ensure (op_root = root) (Proof (OpRootMismatch op_root root))
                      (ensure (log_is_read b) (Proof BaseNotRead) (Inr ()))
         | Write _ \<Rightarrow> ensure (\<not> log_is_read b) (Proof BaseNotWrite) (Inr ()))
        (\<lambda>_. and_then (blake2_fold_merkle_path blake ph full (prev_entry b (instruction_key ins)))
          (\<lambda>prev_hash. ensure (prev_hash = root) (Proof (PrevHashMismatch prev_hash root))
            (and_then
              (case ins of
                 Read _ \<Rightarrow> Inr ()
               | Write new_entry \<Rightarrow> and_then (blake2_fold_merkle_path blake ph full new_entry)
                   (\<lambda>next_hash. ensure (next_hash = op_root) (Proof (NextHashMismatch next_hash op_root)) (Inr ())))
              (\<lambda>_. Inr (op_root, full))))))"

fun pass2 ::
  "hash_fn \<Rightarrow> 'st path_hasher \<Rightarrow> (storage_log_metadata \<times> tree_log_entry \<times> tree_instruction) list \<Rightarrow>
   value_hash \<Rightarrow> value_hash list \<Rightarrow> value_hash res" where
  "pass2 blake ph [] root buffer = Inr root"
| "pass2 blake ph ((meta, b, ins) # rest) root buffer =
     and_then (pass2_step blake ph meta b ins root buffer) (\<lambda>(root', buffer'). pass2 blake ph rest root' buffer')"

definition verify_paths_and_new_root ::
  "hash_fn \<Rightarrow> 'st path_hasher \<Rightarrow> witness_input_merkle_paths \<Rightarrow> storage_log list \<Rightarrow> value_hash \<Rightarrow> u64 \<Rightarrow>
   (value_hash \<times> u64) res" where
  "verify_paths_and_new_root blake ph w vm_logs old_root_hash enumeration_index =
     (let metas = witness_paths w
      in ensure (length metas = length vm_logs) (Witness (CountMismatch (length vm_logs) (length metas)))
        (ensure (metas \<noteq> []) (Witness RootHashUnavailable)
        (ensure (length (merkle_paths (hd metas)) \<noteq> TREE_DEPTH) (Witness LegacyDeltaForm)
        (and_then (pass1 blake (zip metas vm_logs) enumeration_index) (\<lambda>(instructions, new_index).
         and_then (pass2 blake ph (zip metas instructions) old_root_hash []) (\<lambda>root.
         Inr (root, new_index)))))))"

section \<open>Abstract state machine\<close>

text \<open>
  The effect of one deduplicated VM storage log on a tree state and the next free enumeration index:
  a read changes nothing, a write keeps the index of an existing leaf and gives a new leaf the
  next index.
\<close>

definition apply_vm_log :: "hash_fn \<Rightarrow> storage_log \<Rightarrow> tree_state \<times> u64 \<Rightarrow> tree_state \<times> u64" where
  "apply_vm_log blake log = (\<lambda>(m, idx).
     let k = hashed_key_u256 blake (log_key log); i = snd (leaf_of m k)
     in if \<not> is_write log then (m, idx)
        else if i = 0 then (m(k \<mapsto> (log_value log, idx)), idx + 1)
        else (m(k \<mapsto> (log_value log, i)), idx))"

text \<open>The operations a witness and the VM logs describe, as the oracle pairs them.\<close>

definition witness_run ::
  "hash_fn \<Rightarrow> witness_input_merkle_paths \<Rightarrow> storage_log list \<Rightarrow> u64 \<Rightarrow>
   (tree_log_entry_with_proof \<times> tree_instruction) list" where
  "witness_run blake w vm_logs idx =
     (case get_bowp blake w of
        Inl _ \<Rightarrow> []
      | Inr (bowp, leaf_keys) \<Rightarrow>
          (case generate_tree_instructions blake idx bowp leaf_keys vm_logs of
             Inl _ \<Rightarrow> []
           | Inr instructions \<Rightarrow> zip (logs bowp) instructions))"

end
