(* ===== verification/Merkle_Witness_Facts.thy ===== *)
theory Merkle_Witness_Facts
  imports Merkle_Witness
begin

text \<open>
  Lemmas on the interpretation of the Merkle witness. The streaming pass and the oracle are both
  brought to the same normal form: the classified logs, the generated instructions, and the
  proof-verification loop over them.
\<close>

section \<open>Classification and instructions\<close>

text \<open>The operation the oracle builds for an entry classified as \<open>b\<close>.\<close>

definition op_of :: "hash_fn \<Rightarrow> storage_log_metadata \<Rightarrow> tree_log_entry \<Rightarrow> tree_log_entry_with_proof" where
  "op_of blake meta b =
     \<lparr>base = b, merkle_path = expand_path (blake2_hash_tree blake) (merkle_paths meta),
      root_hash = meta_root_hash meta\<rparr>"

lemma op_of_simps [simp]:
  "base (op_of blake meta b) = b"
  "merkle_path (op_of blake meta b) = expand_path (blake2_hash_tree blake) (merkle_paths meta)"
  "root_hash (op_of blake meta b) = meta_root_hash meta"
  by (simp_all add: op_of_def)

fun nonzero_index :: "tree_log_entry \<Rightarrow> bool" where
  "nonzero_index (Updated i _) = (i \<noteq> 0)"
| "nonzero_index (ReadLog i _) = (i \<noteq> 0)"
| "nonzero_index Inserted = True"
| "nonzero_index ReadMissingKey = True"

lemma tree_log_entry_nonzero_index:
  "tree_log_entry_from_witness log = Inr b \<Longrightarrow> nonzero_index b"
  by (auto simp: tree_log_entry_from_witness_def classify_witness_leaf_def Let_def
      split: if_splits witness_leaf.splits)

lemma tree_log_entry_expand [simp]:
  "tree_log_entry_from_witness (expand_meta blake log) = tree_log_entry_from_witness log"
  by (simp add: tree_log_entry_from_witness_def classify_witness_leaf_def expand_meta_eq Let_def)

lemma get_bowp_iff:
  "get_bowp blake w = Inr (bowp, keys) \<longleftrightarrow>
     (\<exists>bs. map tree_log_entry_from_witness (witness_paths w) = map Inr bs \<and>
        bowp = \<lparr>logs = map2 (op_of blake) (witness_paths w) bs, leaf_count = 0\<rparr> \<and>
        keys = map leaf_hashed_key (witness_paths w))"
proof -
  let ?mk = "\<lambda>log. and_then (tree_log_entry_from_witness log) (\<lambda>b.
      Inr (\<lparr>base = b, merkle_path = merkle_paths log, root_hash = meta_root_hash log\<rparr>, leaf_hashed_key log))"
  have mk: "map ?mk (map (expand_meta blake) ms) = map Inr es \<longleftrightarrow>
      (\<exists>bs. map tree_log_entry_from_witness ms = map Inr bs \<and>
         es = map2 (\<lambda>meta b. (op_of blake meta b, leaf_hashed_key meta)) ms bs)" for ms es
  proof (induction ms arbitrary: es)
    case Nil
    then show ?case by auto
  next
    case (Cons meta ms)
    show ?case
      by (cases es) (auto simp: Cons.IH Cons_eq_map_conv map_eq_Cons_conv expand_meta_fields op_of_def simp del: map_map)
  qed
  have sel: "map fst (map2 (\<lambda>meta b. (op_of blake meta b, leaf_hashed_key meta)) ms bs) = map2 (op_of blake) ms bs"
    "map snd (map2 (\<lambda>meta b. (op_of blake meta b, leaf_hashed_key meta)) ms bs) = map leaf_hashed_key ms"
    if "length bs = length ms" for ms and bs :: "tree_log_entry list"
    using that by (induction bs ms rule: list_induct2) simp_all
  have "get_bowp blake w = Inr (bowp, keys) \<longleftrightarrow>
      (\<exists>es. map ?mk (map (expand_meta blake) (witness_paths w)) = map Inr es \<and>
         bowp = \<lparr>logs = map fst es, leaf_count = 0\<rparr> \<and> keys = map snd es)"
    unfolding get_bowp_def into_merkle_paths_def by (auto simp: collect_res_eq_Inr simp del: map_map)
  also have "\<dots> \<longleftrightarrow> (\<exists>bs. map tree_log_entry_from_witness (witness_paths w) = map Inr bs \<and>
        bowp = \<lparr>logs = map2 (op_of blake) (witness_paths w) bs, leaf_count = 0\<rparr> \<and>
        keys = map leaf_hashed_key (witness_paths w))"
    (is "?l \<longleftrightarrow> ?r")
  proof
    assume ?l
    then obtain es bs where bs: "map tree_log_entry_from_witness (witness_paths w) = map Inr bs"
      and es: "es = map2 (\<lambda>meta b. (op_of blake meta b, leaf_hashed_key meta)) (witness_paths w) bs"
      and b: "bowp = \<lparr>logs = map fst es, leaf_count = 0\<rparr>" "keys = map snd es"
      unfolding mk by blast
    from bs have "length bs = length (witness_paths w)" by (metis length_map)
    note sel [OF this]
    with bs b show ?r unfolding es by blast
  next
    assume ?r
    then obtain bs where bs: "map tree_log_entry_from_witness (witness_paths w) = map Inr bs"
      and b: "bowp = \<lparr>logs = map2 (op_of blake) (witness_paths w) bs, leaf_count = 0\<rparr>"
        "keys = map leaf_hashed_key (witness_paths w)" by blast
    from bs have "length bs = length (witness_paths w)" by (metis length_map)
    note sel [OF this, symmetric]
    with bs b show ?l unfolding mk by blast
  qed
  finally show ?thesis .
qed

lemma map_log_tree_index:
  "map_log_tree k log b idx = Inr (ins, idx') \<Longrightarrow> idx' = idx + (if b = Inserted then 1 else 0)"
  by (cases b) auto

lemma pass1_iff:
  assumes "length metas = length vm_logs"
  shows "pass1 blake (zip metas vm_logs) idx = Inr (xs, idx') \<longleftrightarrow>
    (\<forall>meta \<in> set metas. length (merkle_paths meta) \<le> TREE_DEPTH) \<and>
    (\<exists>bs inss. map tree_log_entry_from_witness metas = map Inr bs \<and>
       generate_loop blake (zip vm_logs (zip bs (map leaf_hashed_key metas))) idx = Inr inss \<and>
       xs = zip bs inss \<and> idx' = idx + word_of_nat (length (filter (\<lambda>b. b = Inserted) bs)))"
  using assms
proof (induction metas vm_logs arbitrary: idx xs idx' rule: list_induct2)
  case Nil
  then show ?case by auto
next
  case (Cons meta metas vm_log vm_logs)
  show ?case
  proof (cases "tree_log_entry_from_witness meta")
    case (Inl e)
    then show ?thesis by (auto simp: Cons_eq_map_conv)
  next
    case (Inr b)
    show ?thesis
    proof (cases "map_log_tree (leaf_hashed_key meta) vm_log b idx")
      case (Inl e)
      with Inr show ?thesis by (auto simp: Let_def Cons_eq_map_conv)
    next
      case (Inr r)
      obtain ins idx1 where r: "r = (ins, idx1)" by (cases r)
      with Inr have idx1: "idx1 = idx + (if b = Inserted then 1 else 0)"
        by (simp add: map_log_tree_index)
      from \<open>tree_log_entry_from_witness meta = Inr b\<close> Inr r idx1 show ?thesis
        by (fastforce simp: Cons.IH Let_def Cons_eq_map_conv algebra_simps)
    qed
  qed
qed

lemma length_generate_loop: "generate_loop blake xs idx = Inr inss \<Longrightarrow> length inss = length xs"
  by (induction xs idx arbitrary: inss rule: generate_loop.induct) (auto simp: Let_def)

section \<open>The fold passes\<close>

lemma expand_path_length_le: "length (expand_path H path) \<le> TREE_DEPTH \<longleftrightarrow> length path \<le> TREE_DEPTH"
  by (auto simp: expand_path_def)

lemma expand_path_idem:
  "length path \<le> TREE_DEPTH \<Longrightarrow> expand_path H (expand_path H path) = expand_path H path"
  by (simp add: expand_path_full length_expand_path)

lemma fold_expanded:
  "length path \<le> TREE_DEPTH \<Longrightarrow>
   fold_merkle_path H (expand_path H path) e = fold_merkle_path H path e"
  by (rule fold_merkle_path_expand) (simp_all add: expand_path_length_le expand_path_idem)

lemma pass2_step_iff:
  assumes "blake2s_path_hasher blake ph" and "length (merkle_paths meta) \<le> TREE_DEPTH"
  shows "pass2_step blake ph meta b ins root buffer = Inr (r, buffer') \<longleftrightarrow>
     verify_proof_step (blake2_hash_tree blake) (op_of blake meta b) ins root = Inr r \<and>
     buffer' = merkle_paths meta"
  using assms(2)
  by (cases ins)
    (auto simp: pass2_step_def verify_proof_step_def Let_def load_path_into_def fold_expanded
      expand_path_length_le blake2s_path_hasher.fused_fold_eq [OF assms(1)])

lemma pass2_iff:
  assumes "blake2s_path_hasher blake ph"
    and "\<forall>meta \<in> set metas. length (merkle_paths meta) \<le> TREE_DEPTH"
    and "length metas = length bs" and "length bs = length inss"
  shows "pass2 blake ph (zip metas (zip bs inss)) root buffer = Inr r \<longleftrightarrow>
     verify_proofs_loop (blake2_hash_tree blake) (zip (map2 (op_of blake) metas bs) inss) root = Inr r"
  using assms(3,4,2)
proof (induction metas bs inss arbitrary: root buffer rule: list_induct3)
  case Nil
  then show ?case by simp
next
  case (Cons meta metas b bs ins inss)
  then show ?case
    by (simp add: pass2_step_iff [OF assms(1)] split_paired_Ex del: verify_proofs_loop.simps(1))
qed

lemma verify_proofs_loop_lengths:
  "verify_proofs_loop H xs root = Inr r \<Longrightarrow> (op, ins) \<in> set xs \<Longrightarrow> length (merkle_path op) \<le> TREE_DEPTH"
  by (induction H xs root rule: verify_proofs_loop.induct) (auto simp: verify_proof_step_def)

section \<open>The two verifiers in normal form\<close>

lemma generate_tree_instructions_iff:
  assumes "length bs = length (witness_paths w)"
  shows "generate_tree_instructions blake idx \<lparr>logs = map2 (op_of blake) (witness_paths w) bs, leaf_count = 0\<rparr>
      (map leaf_hashed_key (witness_paths w)) vm_logs = Inr inss \<longleftrightarrow>
    length vm_logs = length (witness_paths w) \<and>
    generate_loop blake (zip vm_logs (zip bs (map leaf_hashed_key (witness_paths w)))) idx = Inr inss"
proof -
  have "map base (map2 (op_of blake) (witness_paths w) bs) = bs"
    using assms [symmetric] by (induction rule: list_induct2) simp_all
  then show ?thesis using assms by (auto simp: generate_tree_instructions_def)
qed

definition normal_run ::
  "hash_fn \<Rightarrow> witness_input_merkle_paths \<Rightarrow> storage_log list \<Rightarrow> u64 \<Rightarrow> tree_log_entry list \<Rightarrow>
   tree_instruction list \<Rightarrow> bool" where
  "normal_run blake w vm_logs idx bs inss \<longleftrightarrow>
     length vm_logs = length (witness_paths w) \<and>
     map tree_log_entry_from_witness (witness_paths w) = map Inr bs \<and>
     generate_loop blake (zip vm_logs (zip bs (map leaf_hashed_key (witness_paths w)))) idx = Inr inss"

lemma normal_run_lengths:
  assumes "normal_run blake w vm_logs idx bs inss"
  shows "length bs = length (witness_paths w)" "length inss = length (witness_paths w)"
    "length vm_logs = length (witness_paths w)"
  using assms length_generate_loop by (fastforce simp: normal_run_def dest: map_eq_imp_length_eq)+

lemma witness_run_eq:
  assumes "normal_run blake w vm_logs idx bs inss"
  shows "witness_run blake w vm_logs idx = zip (map2 (op_of blake) (witness_paths w) bs) inss"
proof -
  have "get_bowp blake w = Inr (\<lparr>logs = map2 (op_of blake) (witness_paths w) bs, leaf_count = 0\<rparr>,
      map leaf_hashed_key (witness_paths w))"
    using assms by (auto simp: get_bowp_iff normal_run_def)
  moreover have "generate_tree_instructions blake idx
      \<lparr>logs = map2 (op_of blake) (witness_paths w) bs, leaf_count = 0\<rparr>
      (map leaf_hashed_key (witness_paths w)) vm_logs = Inr inss"
    using assms normal_run_lengths [OF assms] by (simp add: generate_tree_instructions_iff normal_run_def)
  ultimately show ?thesis by (simp add: witness_run_def)
qed

lemma last_map2_op_of:
  assumes "length ms = length bs" and "ms \<noteq> []"
  shows "root_hash (last (map2 (op_of blake) ms bs)) = meta_root_hash (last ms)"
  using assms by (induction ms bs rule: list_induct2) (auto simp: last_map)

lemma filter_op_of:
  "length ms = length bs \<Longrightarrow>
   length (filter (\<lambda>log. base log = Inserted) (map2 (op_of blake) ms bs)) =
   length (filter (\<lambda>b. b = Inserted) bs)"
  by (induction ms bs rule: list_induct2) simp_all

lemma reference_iff:
  "reference blake w vm_logs old_root idx = Inr (root, idx') \<longleftrightarrow>
     witness_paths w \<noteq> [] \<and>
     (\<exists>bs inss. normal_run blake w vm_logs idx bs inss \<and>
        verify_proofs_loop (blake2_hash_tree blake)
          (zip (map2 (op_of blake) (witness_paths w) bs) inss) old_root = Inr root \<and>
        idx' = idx + word_of_nat (length (filter (\<lambda>b. b = Inserted) bs)))" (is "_ \<longleftrightarrow> ?rhs")
proof -
  let ?bowp = "\<lambda>bs. \<lparr>logs = map2 (op_of blake) (witness_paths w) bs, leaf_count = 0\<rparr> :: block_output_with_proofs"
  have "reference blake w vm_logs old_root idx = Inr (root, idx') \<longleftrightarrow>
     (\<exists>bs inss. normal_run blake w vm_logs idx bs inss \<and>
        verify_proofs (blake2_hash_tree blake) (?bowp bs) old_root inss = Inr () \<and>
        bowp_root_hash (?bowp bs) = Some root \<and>
        idx' = idx + word_of_nat (length (filter (\<lambda>log. base log = Inserted) (logs (?bowp bs)))))"
    (is "_ \<longleftrightarrow> ?mid")
  proof
    assume "reference blake w vm_logs old_root idx = Inr (root, idx')"
    then obtain bowp keys inss where g: "get_bowp blake w = Inr (bowp, keys)"
      and i: "generate_tree_instructions blake idx bowp keys vm_logs = Inr inss"
      and v: "verify_proofs (blake2_hash_tree blake) bowp old_root inss = Inr ()"
      and r: "bowp_root_hash bowp = Some root"
      and n: "idx' = idx + word_of_nat (length (filter (\<lambda>log. base log = Inserted) (logs bowp)))"
      by (auto simp: reference_def Let_def)
    from g obtain bs where bs: "map tree_log_entry_from_witness (witness_paths w) = map Inr bs"
      and b: "bowp = ?bowp bs" and k: "keys = map leaf_hashed_key (witness_paths w)"
      by (auto simp: get_bowp_iff)
    from bs have "length bs = length (witness_paths w)" by (metis length_map)
    from i b k have "normal_run blake w vm_logs idx bs inss"
      by (simp add: generate_tree_instructions_iff [OF \<open>length bs = _\<close>] normal_run_def bs)
    with v r n b show ?mid by blast
  next
    assume ?mid
    then obtain bs inss where n: "normal_run blake w vm_logs idx bs inss"
      and rest: "verify_proofs (blake2_hash_tree blake) (?bowp bs) old_root inss = Inr ()"
        "bowp_root_hash (?bowp bs) = Some root"
        "idx' = idx + word_of_nat (length (filter (\<lambda>log. base log = Inserted) (logs (?bowp bs))))"
      by blast
    from n have g: "get_bowp blake w = Inr (?bowp bs, map leaf_hashed_key (witness_paths w))"
      by (auto simp: get_bowp_iff normal_run_def)
    from n have i: "generate_tree_instructions blake idx (?bowp bs) (map leaf_hashed_key (witness_paths w)) vm_logs = Inr inss"
      by (simp add: generate_tree_instructions_iff normal_run_lengths [OF n]) (simp add: normal_run_def)
    show "reference blake w vm_logs old_root idx = Inr (root, idx')"
      by (simp add: reference_def g i rest del: block_output_with_proofs.select_convs)
  qed
  also have "\<dots> \<longleftrightarrow> ?rhs"
  proof -
    have "verify_proofs (blake2_hash_tree blake) (?bowp bs) old_root inss = Inr () \<and>
        bowp_root_hash (?bowp bs) = Some root \<longleftrightarrow>
        witness_paths w \<noteq> [] \<and>
        verify_proofs_loop (blake2_hash_tree blake) (zip (map2 (op_of blake) (witness_paths w) bs) inss) old_root = Inr root"
      if n: "normal_run blake w vm_logs idx bs inss" for bs inss
    proof -
      note len = normal_run_lengths [OF n]
      have "root_hash (fst (last (zip (map2 (op_of blake) (witness_paths w) bs) inss))) =
          root_hash (last (map2 (op_of blake) (witness_paths w) bs))" if "witness_paths w \<noteq> []"
        using that len by (subst last_zip_fst) (auto simp: zip_eq_Nil_iff)
      then show ?thesis
        using len verify_proofs_loop_root [of "blake2_hash_tree blake"
            "zip (map2 (op_of blake) (witness_paths w) bs) inss" old_root]
        by (auto simp: verify_proofs_def bowp_root_hash_def)
    qed
    moreover have "length (filter (\<lambda>log. base log = Inserted) (logs (?bowp bs))) =
        length (filter (\<lambda>b. b = Inserted) bs)" if "normal_run blake w vm_logs idx bs inss" for bs inss
      using filter_op_of [of "witness_paths w" bs blake] normal_run_lengths [OF that] by simp
    ultimately show ?thesis by metis
  qed
  finally show ?thesis .
qed

lemma loop_ok_lengths:
  assumes "normal_run blake w vm_logs idx bs inss"
    and "verify_proofs_loop (blake2_hash_tree blake)
          (zip (map2 (op_of blake) (witness_paths w) bs) inss) old_root = Inr root"
  shows "\<forall>meta \<in> set (witness_paths w). length (merkle_paths meta) \<le> TREE_DEPTH"
proof
  fix meta assume "meta \<in> set (witness_paths w)"
  then obtain i where i: "i < length (witness_paths w)" "witness_paths w ! i = meta"
    by (auto simp: in_set_conv_nth)
  then have "(op_of blake meta (bs ! i), inss ! i) \<in> set (zip (map2 (op_of blake) (witness_paths w) bs) inss)"
    using normal_run_lengths [OF assms(1)] by (auto simp: in_set_conv_nth intro!: exI [of _ i])
  from verify_proofs_loop_lengths [OF assms(2) this]
  show "length (merkle_paths meta) \<le> TREE_DEPTH" by (simp add: expand_path_length_le)
qed

lemma verify_paths_iff:
  assumes "blake2s_path_hasher blake ph" and "\<not> is_legacy_delta_form w"
  shows "verify_paths_and_new_root blake ph w vm_logs old_root idx = Inr (root, idx') \<longleftrightarrow>
     witness_paths w \<noteq> [] \<and>
     (\<exists>bs inss. normal_run blake w vm_logs idx bs inss \<and>
        verify_proofs_loop (blake2_hash_tree blake)
          (zip (map2 (op_of blake) (witness_paths w) bs) inss) old_root = Inr root \<and>
        idx' = idx + word_of_nat (length (filter (\<lambda>b. b = Inserted) bs)))" (is "_ \<longleftrightarrow> ?rhs")
proof (cases "witness_paths w \<noteq> [] \<and> length (witness_paths w) = length vm_logs")
  case True
  then have hd: "length (merkle_paths (hd (witness_paths w))) \<noteq> TREE_DEPTH"
    using assms(2) by (auto split: list.splits)
  show ?thesis
  proof
    assume "verify_paths_and_new_root blake ph w vm_logs old_root idx = Inr (root, idx')"
    then obtain xs where p1: "pass1 blake (zip (witness_paths w) vm_logs) idx = Inr (xs, idx')"
      and p2: "pass2 blake ph (zip (witness_paths w) xs) old_root [] = Inr root"
      using True hd by (auto simp: verify_paths_and_new_root_def Let_def)
    from p1 True obtain bs inss where len: "\<forall>meta \<in> set (witness_paths w). length (merkle_paths meta) \<le> TREE_DEPTH"
      and n: "normal_run blake w vm_logs idx bs inss" and xs: "xs = zip bs inss"
      and idx': "idx' = idx + word_of_nat (length (filter (\<lambda>b. b = Inserted) bs))"
      by (auto simp: pass1_iff normal_run_def)
    have "verify_proofs_loop (blake2_hash_tree blake)
          (zip (map2 (op_of blake) (witness_paths w) bs) inss) old_root = Inr root"
      using p2 normal_run_lengths [OF n] by (simp add: xs pass2_iff [OF assms(1) len])
    with n idx' True show ?rhs by blast
  next
    assume ?rhs
    then obtain bs inss where n: "normal_run blake w vm_logs idx bs inss"
      and loop: "verify_proofs_loop (blake2_hash_tree blake)
          (zip (map2 (op_of blake) (witness_paths w) bs) inss) old_root = Inr root"
      and idx': "idx' = idx + word_of_nat (length (filter (\<lambda>b. b = Inserted) bs))" by auto
    note len = loop_ok_lengths [OF n loop]
    have "pass1 blake (zip (witness_paths w) vm_logs) idx = Inr (zip bs inss, idx')"
      using len n idx' True by (auto simp: pass1_iff normal_run_def)
    moreover have "pass2 blake ph (zip (witness_paths w) (zip bs inss)) old_root [] = Inr root"
      using loop normal_run_lengths [OF n] by (simp add: pass2_iff [OF assms(1) len])
    ultimately show "verify_paths_and_new_root blake ph w vm_logs old_root idx = Inr (root, idx')"
      using True hd by (simp add: verify_paths_and_new_root_def Let_def)
  qed
next
  case False
  then show ?thesis by (auto simp: verify_paths_and_new_root_def Let_def normal_run_def)
qed

end
