(* ===== verification/Merkle_Witness_Correct.thy ===== *)
theory Merkle_Witness_Correct
  imports Merkle_Witness_Facts
begin

text \<open>
  Correctness of the witness interpretation of \<open>merkle_witness.rs\<close>: the streaming pass accepts what the
  oracle accepts, an accepted witness advances the root and the enumeration index as the abstract
  state machine \<open>apply_vm_log\<close> does, every honest witness is accepted, and the storage view the VM
  executes on is the pre-batch state.
\<close>

section \<open>Runs of the abstract state machine\<close>

text \<open>Reads of existing leaves report the value of the state they run in.\<close>

fun vm_reads_ok :: "hash_fn \<Rightarrow> tree_state \<times> u64 \<Rightarrow> storage_log list \<Rightarrow> bool" where
  "vm_reads_ok blake st [] = True"
| "vm_reads_ok blake st (log # rest) =
     ((case leaf_of (fst st) (hashed_key_u256 blake (log_key log)) of (v, i) \<Rightarrow>
         \<not> is_write log \<longrightarrow> i \<noteq> 0 \<longrightarrow> log_value log = v) \<and>
      vm_reads_ok blake (apply_vm_log blake log st) rest)"

lemma map_log_tree_apply:
  assumes "map_log_tree k log b idx = Inr (ins, idx')" and "k = hashed_key_u256 blake (log_key log)"
    and "log_matches m k b" and "nonzero_index b"
  shows "(tree_apply ins m, idx') = apply_vm_log blake log (m, idx)"
    and "\<not> is_write log \<Longrightarrow> snd (leaf_of m k) \<noteq> 0 \<Longrightarrow> log_value log = fst (leaf_of m k)"
    and "instruction_key ins = k"
    and "is_read_instruction ins \<longleftrightarrow> \<not> is_write log"
  using assms by (cases b; auto simp: apply_vm_log_def instruction_write_def)+

lemma honest_run_apply_vm_log:
  assumes "length ms = length bs" and "length bs = length ls"
    and "generate_loop blake (zip ls (zip bs ks)) idx = Inr inss"
    and "length ks = length bs" and "list_all nonzero_index bs"
    and "honest_run H m (zip (map2 (op_of blake) ms bs) inss)"
  shows "fold (apply_vm_log blake) ls (m, idx) =
      (fold tree_apply inss m, idx + word_of_nat (length (filter (\<lambda>b. b = Inserted) bs))) \<and>
    vm_reads_ok blake (m, idx) ls"
  using assms
proof (induction ms bs ls arbitrary: ks m idx inss rule: list_induct3)
  case (Cons meta ms b bs log ls)
  from Cons.prems obtain k ks' where ks: "ks = k # ks'" "length ks' = length bs" by (cases ks) auto
  from Cons.prems ks obtain ins idx' inss' where k: "k = hashed_key_u256 blake (log_key log)"
    and ml: "map_log_tree k log b idx = Inr (ins, idx')"
    and rest: "generate_loop blake (zip ls (zip bs ks')) idx' = Inr inss'"
    and inss: "inss = ins # inss'"
    by (auto simp: Let_def)
  from Cons.prems inss have hop: "honest_op H m (op_of blake meta b) ins"
    and hrun: "honest_run H (tree_apply ins m) (zip (map2 (op_of blake) ms bs) inss')"
    and nz: "nonzero_index b" "list_all nonzero_index bs" by auto
  have "instruction_key ins = k" using ml by (cases b) auto
  with hop have lm: "log_matches m k b" by (simp add: honest_op_def)
  note step = map_log_tree_apply [OF ml k lm nz(1)]
  have idx': "idx' = idx + (if b = Inserted then 1 else 0)" by (rule map_log_tree_index [OF ml])
  show ?case
    using Cons.IH [OF rest ks(2) nz(2) hrun] step(2)
    by (simp add: step(1) [symmetric] inss idx' k split_beta)
qed simp_all

lemma normal_run_nonzero:
  assumes "normal_run blake w vm_logs idx bs inss" shows "list_all nonzero_index bs"
proof -
  have "Inr ` set bs = tree_log_entry_from_witness ` set (witness_paths w)"
    using assms unfolding normal_run_def by (metis list.set_map)
  then show ?thesis
    unfolding list_all_iff by (metis imageE imageI tree_log_entry_nonzero_index)
qed

section \<open>Honest witnesses\<close>

text \<open>The entry a prover with the state at hand records for a VM log, and the witness of a batch of logs.\<close>

definition honest_meta :: "hash_fn \<Rightarrow> tree_state \<times> u64 \<Rightarrow> storage_log \<Rightarrow> storage_log_metadata" where
  "honest_meta blake st log =
     (let H = blake2_hash_tree blake; k = hashed_key_u256 blake (log_key log);
          (v, i) = leaf_of (fst st) k; fresh = is_write log \<and> i = 0
      in fst (trim_path blake
        \<lparr>meta_root_hash = tree_root H (fst (apply_vm_log blake log st)),
         meta_is_write = is_write log, first_write = fresh,
         merkle_paths = honest_path H (fst st) k, leaf_hashed_key = k,
         leaf_enumeration_index = (if fresh then snd st else i),
         value_written = (if is_write log then log_value log else 0), value_read = v\<rparr>))"

fun honest_metas :: "hash_fn \<Rightarrow> tree_state \<times> u64 \<Rightarrow> storage_log list \<Rightarrow> storage_log_metadata list" where
  "honest_metas blake st [] = []"
| "honest_metas blake st (log # rest) =
     honest_meta blake st log # honest_metas blake (apply_vm_log blake log st) rest"

definition honest_witness :: "hash_fn \<Rightarrow> tree_state \<times> u64 \<Rightarrow> storage_log list \<Rightarrow> witness_input_merkle_paths" where
  "honest_witness blake st vm_logs =
     \<lparr>witness_paths = honest_metas blake st vm_logs, next_enumeration_index = snd st\<rparr>"

text \<open>A well-formed state: the index 0 is kept for absent leaves.\<close>

definition wf_tree_state :: "tree_state \<Rightarrow> bool" where
  "wf_tree_state m \<longleftrightarrow> (\<forall>k. snd (leaf_of m k) = 0 \<longrightarrow> leaf_of m k = (0, 0))"

fun honest_base :: "hash_fn \<Rightarrow> tree_state \<times> u64 \<Rightarrow> storage_log \<Rightarrow> tree_log_entry" where
  "honest_base blake st log =
     (case leaf_of (fst st) (hashed_key_u256 blake (log_key log)) of (v, i) \<Rightarrow>
        if is_write log then (if i = 0 then Inserted else Updated i v)
        else (if i = 0 then ReadMissingKey else ReadLog i v))"

lemma length_honest_metas: "length (honest_metas blake st ls) = length ls"
  by (induction ls arbitrary: st) simp_all

lemma length_honest_path [simp]: "length (honest_path H m k) = TREE_DEPTH"
  by (simp add: honest_path_def)

lemma honest_meta_fields:
  "meta_root_hash (honest_meta blake st log) =
     tree_root (blake2_hash_tree blake) (fst (apply_vm_log blake log st))"
  "leaf_hashed_key (honest_meta blake st log) = hashed_key_u256 blake (log_key log)"
  "expand_path (blake2_hash_tree blake) (merkle_paths (honest_meta blake st log)) =
     honest_path (blake2_hash_tree blake) (fst st) (hashed_key_u256 blake (log_key log))"
  "length (merkle_paths (honest_meta blake st log)) \<le> TREE_DEPTH"
  by (simp_all add: honest_meta_def Let_def split_beta expand_path_trim expand_path_full)

lemma honest_meta_base:
  "tree_log_entry_from_witness (honest_meta blake st log) = Inr (honest_base blake st log)"
  by (auto simp: honest_meta_def Let_def split_beta tree_log_entry_from_witness_def classify_witness_leaf_def)

lemma honest_base_matches:
  "wf_tree_state (fst st) \<Longrightarrow> k = hashed_key_u256 blake (log_key log) \<Longrightarrow>
   log_matches (fst st) k (honest_base blake st log)"
  by (auto simp: wf_tree_state_def split_beta intro: prod_eqI)

lemma nonzero_honest_base: "nonzero_index (honest_base blake st log)"
  by (auto simp: split_beta)

lemma honest_map_log:
  assumes "wf_tree_state (fst st)" and "k = hashed_key_u256 blake (log_key log)"
    and "\<not> is_write log \<Longrightarrow> snd (leaf_of (fst st) k) \<noteq> 0 \<Longrightarrow> log_value log = fst (leaf_of (fst st) k)"
  shows "\<exists>ins idx'. map_log_tree k log (honest_base blake st log) (snd st) = Inr (ins, idx') \<and>
     (tree_apply ins (fst st), idx') = apply_vm_log blake log st \<and> instruction_key ins = k \<and>
     is_read_instruction ins = (\<not> is_write log)"
proof -
  obtain ins idx' where m: "map_log_tree k log (honest_base blake st log) (snd st) = Inr (ins, idx')"
    using assms(3)
    by (cases "leaf_of (fst st) k"; cases "is_write log"; cases "snd (leaf_of (fst st) k) = 0")
      (simp_all add: assms(2))
  from map_log_tree_apply [OF m assms(2) honest_base_matches [OF assms(1,2)] nonzero_honest_base]
  show ?thesis using m by auto
qed

lemma honest_op_honest:
  assumes "wf_tree_state (fst st)" and "k = hashed_key_u256 blake (log_key log)"
    and "(tree_apply ins (fst st), idx') = apply_vm_log blake log st" and "instruction_key ins = k"
    and "is_read_instruction ins = (\<not> is_write log)"
  shows "honest_op (blake2_hash_tree blake) (fst st)
     (op_of blake (honest_meta blake st log) (honest_base blake st log)) ins"
proof -
  have "fst (apply_vm_log blake log st) = tree_apply ins (fst st)"
    using assms(3) by (metis fst_conv)
  moreover have "log_is_read (honest_base blake st log) = (\<not> is_write log)" by (auto simp: split_beta)
  ultimately show ?thesis
    using honest_base_matches [OF assms(1,2)] assms(2,4,5)
    by (simp add: honest_op_def honest_meta_fields expand_path_full del: honest_base.simps)
qed

text \<open>Well-formedness is kept as long as the enumeration index does not wrap around.\<close>

lemma wf_apply_vm_log:
  assumes "wf_tree_state (fst st)" and "snd st \<noteq> 0"
  shows "wf_tree_state (fst (apply_vm_log blake log st))"
  using assms
  by (auto simp: apply_vm_log_def wf_tree_state_def leaf_of_def split_beta Let_def split: option.splits)

lemma apply_vm_log_index:
  "snd (apply_vm_log blake log st) = snd st \<or> snd (apply_vm_log blake log st) = snd st + 1"
  by (auto simp: apply_vm_log_def split_beta Let_def)

lemma honest_run_generated:
  assumes "wf_tree_state (fst st)" and "vm_reads_ok blake st ls"
    and "snd st \<noteq> 0" and "unat (snd st) + length ls < 2 ^ 64"
  shows "\<exists>bs inss. map tree_log_entry_from_witness (honest_metas blake st ls) = map Inr bs \<and>
     generate_loop blake (zip ls (zip bs (map leaf_hashed_key (honest_metas blake st ls)))) (snd st) = Inr inss \<and>
     honest_run (blake2_hash_tree blake) (fst st) (zip (map2 (op_of blake) (honest_metas blake st ls) bs) inss)"
  using assms
proof (induction ls arbitrary: st)
  case Nil
  then show ?case by simp
next
  case (Cons log ls)
  let ?k = "hashed_key_u256 blake (log_key log)" and ?st = "apply_vm_log blake log st"
  from Cons.prems(2) have rd: "\<not> is_write log \<Longrightarrow> snd (leaf_of (fst st) ?k) \<noteq> 0 \<Longrightarrow>
      log_value log = fst (leaf_of (fst st) ?k)" by (simp add: split_beta)
  from honest_map_log [OF Cons.prems(1) refl rd] obtain ins idx' where
    m: "map_log_tree ?k log (honest_base blake st log) (snd st) = Inr (ins, idx')" and
    st': "(tree_apply ins (fst st), idx') = ?st" and k: "instruction_key ins = ?k"
      "is_read_instruction ins = (\<not> is_write log)" by auto
  have wrap: "unat (snd st + 1) = unat (snd st) + 1"
    using Cons.prems(4) by (simp add: unat_word_ariths)
  then have "snd ?st \<noteq> 0" "unat (snd ?st) + length ls < 2 ^ 64"
    using apply_vm_log_index [of blake log st] Cons.prems(3,4) by (auto simp: unat_eq_zero [symmetric] simp del: unat_eq_zero)
  with Cons.IH [of ?st] Cons.prems(1,2,3) obtain bs inss where
    IH: "map tree_log_entry_from_witness (honest_metas blake ?st ls) = map Inr bs"
    "generate_loop blake (zip ls (zip bs (map leaf_hashed_key (honest_metas blake ?st ls)))) (snd ?st) = Inr inss"
    "honest_run (blake2_hash_tree blake) (fst ?st) (zip (map2 (op_of blake) (honest_metas blake ?st ls) bs) inss)"
    by (auto simp: wf_apply_vm_log)
  have eqs: "fst ?st = tree_apply ins (fst st)" "snd ?st = idx'" using st' by (metis fst_conv, metis snd_conv)
  from honest_op_honest [OF Cons.prems(1) refl st' k] m IH show ?case
    by (intro exI [of _ "honest_base blake st log # bs"] exI [of _ "ins # inss"])
      (simp add: honest_meta_base honest_meta_fields eqs Let_def del: honest_base.simps)
qed

lemma honest_witness_run:
  assumes "wf_tree_state m" and "vm_reads_ok blake (m, idx) ls" and "idx \<noteq> 0"
    and "unat idx + length ls < 2 ^ 64"
  obtains bs inss where "normal_run blake (honest_witness blake (m, idx) ls) ls idx bs inss"
    and "honest_run (blake2_hash_tree blake) m
      (zip (map2 (op_of blake) (witness_paths (honest_witness blake (m, idx) ls)) bs) inss)"
  using honest_run_generated [of "(m, idx)" blake ls] assms
  by (auto simp: normal_run_def honest_witness_def length_honest_metas)

section \<open>The storage view\<close>

lemma view_key_inj [simp]: "view_key k = view_key k' \<longleftrightarrow> k = k'"
proof
  assume "view_key k = view_key k'"
  then have "as_bytes (view_key k) = as_bytes (view_key k')" by simp
  then have "le_bytes 32 k = le_bytes 32 k'" by (simp add: view_key_def)
  then have "from_le_bytes (le_bytes 32 k) = (from_le_bytes (le_bytes 32 k') :: u256)" by simp
  then show "k = k'" by simp
qed simp

lemma view_key_hashed: "view_key (hashed_key_u256 blake k) = hashed_key blake k"
  by (simp add: view_key_def hashed_key_from_u256)

lemma build_view_loop_spec:
  assumes "build_view_loop metas view = Inr view'"
  shows "(\<forall>k p. view k = Some p \<longrightarrow> view' k = Some p) \<and>
    (\<forall>meta \<in> set metas. \<exists>leaf. classify_witness_leaf meta = Inr leaf \<and>
        view' (view_key (leaf_hashed_key meta)) = Some (prestate leaf))"
  using assms
proof (induction metas view rule: build_view_loop.induct)
  case (1 view)
  then show ?case by simp
next
  case (2 meta metas view)
  let ?k = "view_key (leaf_hashed_key meta)"
  from "2.prems" obtain leaf where leaf: "classify_witness_leaf meta = Inr leaf" by auto
  show ?case
  proof (cases "view ?k")
    case None
    with "2.prems" leaf have "build_view_loop metas (view(?k \<mapsto> prestate leaf)) = Inr view'" by simp
    note IH = "2.IH" (1) [OF None this]
    then have "view' ?k = Some (prestate leaf)" by simp
    moreover have "\<forall>k p. view k = Some p \<longrightarrow> view' k = Some p"
      using IH None by (metis fun_upd_apply option.distinct(1))
    ultimately show ?thesis using IH leaf by simp
  next
    case (Some p)
    with "2.prems" leaf have p: "p = prestate leaf" and "build_view_loop metas view = Inr view'" by auto
    note IH = "2.IH" (2) [OF Some this(2)]
    then have "view' ?k = Some (prestate leaf)" using Some p by blast
    with IH leaf Some show ?thesis by auto
  qed
qed

text \<open>What the view must hold for a key of a state.\<close>

definition state_entry :: "tree_state \<Rightarrow> u256 \<Rightarrow> (h256 \<times> u64) option" where
  "state_entry m k = (case leaf_of m k of (v, i) \<Rightarrow> if i = 0 then None else Some (v, i))"

lemma prestate_matches:
  assumes "classify_witness_leaf meta = Inr leaf" and "tree_log_entry_from_witness meta = Inr b"
    and "log_matches m k b"
  shows "prestate leaf = state_entry m k"
  using assms
  by (auto simp: tree_log_entry_from_witness_def classify_witness_leaf_def state_entry_def Let_def split: if_splits)

lemma honest_run_prestate:
  assumes "length ops = length inss" and "honest_run H m (zip ops inss)"
    and "distinct (map instruction_key inss)" and "j < length ops"
  shows "log_matches m (instruction_key (inss ! j)) (base (ops ! j))"
  using assms
proof (induction ops inss arbitrary: m j rule: list_induct2)
  case (Cons op ops ins inss)
  show ?case
  proof (cases j)
    case 0
    then show ?thesis using Cons.prems by (simp add: honest_op_def)
  next
    case (Suc i)
    then have i: "i < length inss" using Cons by simp
    then have "instruction_key (inss ! i) \<noteq> instruction_key ins" using Cons.prems(2) by (metis distinct.simps(2) length_map list.simps(9) nth_map nth_mem)
    then have "leaf_of (tree_apply ins m) (instruction_key (inss ! i)) = leaf_of m (instruction_key (inss ! i))"
      by (rule leaf_of_tree_apply)
    moreover have "log_matches (tree_apply ins m) (instruction_key (inss ! i)) (base (ops ! i))"
      using Cons i by simp
    ultimately show ?thesis using Suc by (simp add: log_matches_prev_entry)
  qed
qed simp

lemma generate_loop_nth:
  assumes "generate_loop blake xs idx = Inr inss" and "j < length xs"
  shows "snd (snd (xs ! j)) = hashed_key_u256 blake (log_key (fst (xs ! j))) \<and>
     instruction_key (inss ! j) = snd (snd (xs ! j))"
  using assms
proof (induction xs idx arbitrary: inss j rule: generate_loop.induct)
  case (2 blake log b k rest idx)
  from "2.prems"(1) obtain ins idx' inss' where k: "k = hashed_key_u256 blake (log_key log)"
    and ml: "map_log_tree k log b idx = Inr (ins, idx')"
    and rest: "generate_loop blake rest idx' = Inr inss'" and inss: "inss = ins # inss'"
    by (auto simp: Let_def)
  have "instruction_key ins = k" using ml by (cases b) auto
  with "2.IH" [OF k rest] "2.prems"(2) k ml inss show ?case by (cases j) auto
qed simp

section \<open>Soundness and completeness of the streaming pass\<close>

lemma streaming_pass_sound:
  assumes "blake2s_path_hasher blake ph" and "\<not> is_legacy_delta_form w"
    and "run_collision_free (blake2_hash_tree blake) m (witness_run blake w vm_logs idx)"
    and "verify_paths_and_new_root blake ph w vm_logs (tree_root (blake2_hash_tree blake) m) idx = Inr (root, idx')"
  shows "vm_reads_ok blake (m, idx) vm_logs \<and>
    root = tree_root (blake2_hash_tree blake) (fst (fold (apply_vm_log blake) vm_logs (m, idx))) \<and>
    idx' = snd (fold (apply_vm_log blake) vm_logs (m, idx))"
proof -
  let ?H = "blake2_hash_tree blake"
  obtain bs inss where n: "normal_run blake w vm_logs idx bs inss"
    and loop: "verify_proofs_loop ?H (zip (map2 (op_of blake) (witness_paths w) bs) inss) (tree_root ?H m) = Inr root"
    and idx': "idx' = idx + word_of_nat (length (filter (\<lambda>b. b = Inserted) bs))"
    using assms(4) unfolding verify_paths_iff [OF assms(1,2)] by blast
  note len = normal_run_lengths [OF n]
  from loop have hr: "honest_run ?H m (zip (map2 (op_of blake) (witness_paths w) bs) inss)"
    and root: "root = tree_root ?H (fold tree_apply inss m)"
    using verify_proofs_loop_iff [OF assms(3)] len by (auto simp: witness_run_eq [OF n] map_snd_zip)
  have "generate_loop blake (zip vm_logs (zip bs (map leaf_hashed_key (witness_paths w)))) idx = Inr inss"
    using n by (simp add: normal_run_def)
  from honest_run_apply_vm_log [OF _ _ this _ normal_run_nonzero [OF n] hr] len root idx'
  show ?thesis by simp
qed

lemma streaming_pass_complete:
  assumes "blake2s_path_hasher blake ph" and "wf_tree_state m" and "vm_reads_ok blake (m, idx) vm_logs"
    and "idx \<noteq> 0" and "unat idx + length vm_logs < 2 ^ 64"
    and "vm_logs \<noteq> []" and "\<not> is_legacy_delta_form (honest_witness blake (m, idx) vm_logs)"
  shows "verify_paths_and_new_root blake ph (honest_witness blake (m, idx) vm_logs) vm_logs
      (tree_root (blake2_hash_tree blake) m) idx =
    Inr (tree_root (blake2_hash_tree blake) (fst (fold (apply_vm_log blake) vm_logs (m, idx))),
         snd (fold (apply_vm_log blake) vm_logs (m, idx)))"
proof -
  let ?H = "blake2_hash_tree blake" and ?w = "honest_witness blake (m, idx) vm_logs"
  have ne: "witness_paths ?w \<noteq> []"
    using assms(6) by (cases vm_logs) (simp_all add: honest_witness_def)
  obtain bs inss where n: "normal_run blake ?w vm_logs idx bs inss"
    and hr: "honest_run ?H m (zip (map2 (op_of blake) (witness_paths ?w) bs) inss)"
    by (rule honest_witness_run [OF assms(2-5)])
  note len = normal_run_lengths [OF n]
  have "generate_loop blake (zip vm_logs (zip bs (map leaf_hashed_key (witness_paths ?w)))) idx = Inr inss"
    using n by (simp add: normal_run_def)
  from honest_run_apply_vm_log [OF _ _ this _ normal_run_nonzero [OF n] hr] len
  have "fold (apply_vm_log blake) vm_logs (m, idx) =
      (fold tree_apply inss m, idx + word_of_nat (length (filter (\<lambda>b. b = Inserted) bs)))" by simp
  moreover have "verify_proofs_loop ?H (zip (map2 (op_of blake) (witness_paths ?w) bs) inss) (tree_root ?H m) =
      Inr (tree_root ?H (fold tree_apply inss m))"
    using verify_proofs_loop_honest [OF hr] len by (simp add: map_snd_zip)
  ultimately show ?thesis using n ne unfolding verify_paths_iff [OF assms(1,7)] by auto
qed

lemma view_pre_state:
  assumes "blake2s_path_hasher blake ph" and "\<not> is_legacy_delta_form w"
    and "run_collision_free (blake2_hash_tree blake) m (witness_run blake w vm_logs idx)"
    and "build_view_from_merkle_paths (witness_paths w) = Inr view"
    and "verify_paths_and_new_root blake ph w vm_logs (tree_root (blake2_hash_tree blake) m) idx = Inr r"
    and "distinct (map (hashed_key_u256 blake \<circ> log_key) vm_logs)" and "log \<in> set vm_logs"
  shows "view (hashed_key blake (log_key log)) = Some (state_entry m (hashed_key_u256 blake (log_key log)))"
proof -
  let ?H = "blake2_hash_tree blake" and ?ops = "\<lambda>bs. map2 (op_of blake) (witness_paths w) bs"
  obtain bs inss where n: "normal_run blake w vm_logs idx bs inss"
    and loop: "verify_proofs_loop ?H (zip (?ops bs) inss) (tree_root ?H m) = Inr (fst r)"
    using assms(5) verify_paths_iff [OF assms(1,2), of vm_logs "tree_root ?H m" idx "fst r" "snd r"] by auto
  note len = normal_run_lengths [OF n]
  have hr: "honest_run ?H m (zip (?ops bs) inss)"
    using loop verify_proofs_loop_iff [OF assms(3)] by (auto simp: witness_run_eq [OF n])
  obtain j where j: "j < length vm_logs" "vm_logs ! j = log" using assms(7) by (auto simp: in_set_conv_nth)
  have keys: "leaf_hashed_key (witness_paths w ! i) = hashed_key_u256 blake (log_key (vm_logs ! i)) \<and>
      instruction_key (inss ! i) = hashed_key_u256 blake (log_key (vm_logs ! i))" if "i < length vm_logs" for i
    using generate_loop_nth [of blake "zip vm_logs (zip bs (map leaf_hashed_key (witness_paths w)))" idx inss i]
      n that len by (auto simp: normal_run_def)
  have "map instruction_key inss = map (hashed_key_u256 blake \<circ> log_key) vm_logs"
    using keys len by (intro nth_equalityI) simp_all
  with assms(6) have "distinct (map instruction_key inss)" by simp
  from honest_run_prestate [OF _ hr this, of j] have lm:
    "log_matches m (hashed_key_u256 blake (log_key log)) (bs ! j)"
    using j len keys [of j] by simp
  have "witness_paths w ! j \<in> set (witness_paths w)" using j len by simp
  then obtain leaf where leaf: "classify_witness_leaf (witness_paths w ! j) = Inr leaf"
    and v: "view (view_key (leaf_hashed_key (witness_paths w ! j))) = Some (prestate leaf)"
    using build_view_loop_spec [OF assms(4) [unfolded build_view_from_merkle_paths_def]] by blast
  have "tree_log_entry_from_witness (witness_paths w ! j) = Inr (bs ! j)"
    using n j len unfolding normal_run_def by (metis nth_map)
  from prestate_matches [OF leaf this lm] v show ?thesis
    using keys [of j] j by (simp add: view_key_hashed)
qed

section \<open>Properties\<close>

text \<open>
  C20. The streaming pass and the three-step oracle it replaced accept the same witnesses, with the same new
  root and enumeration index, for every path hasher with the documented behaviour, every witness in
  the per-path form and every list of VM logs.
\<close>

theorem streaming_pass_eq_reference:
  assumes "blake2s_path_hasher blake ph" and "\<not> is_legacy_delta_form w"
  shows "ok (verify_paths_and_new_root blake ph w vm_logs old_root idx) = ok (reference blake w vm_logs old_root idx)"
  by (rule ok_eqI) (auto simp: verify_paths_iff [OF assms] reference_iff)

text \<open>
  C19. Soundness of the new root: if the streaming pass accepts a witness from the root of a state and
  the paths hold no hash collision, the VM logs read what the state holds, and the new root and
  enumeration index are those of the state after the logs.
\<close>

theorem verify_paths_sound:
  assumes "blake2s_path_hasher blake ph" and "\<not> is_legacy_delta_form w"
    and "run_collision_free (blake2_hash_tree blake) m (witness_run blake w vm_logs idx)"
    and "verify_paths_and_new_root blake ph w vm_logs (tree_root (blake2_hash_tree blake) m) idx = Inr (root, idx')"
  shows "vm_reads_ok blake (m, idx) vm_logs \<and>
    root = tree_root (blake2_hash_tree blake) (fst (fold (apply_vm_log blake) vm_logs (m, idx))) \<and>
    idx' = snd (fold (apply_vm_log blake) vm_logs (m, idx))"
  by (rule streaming_pass_sound [OF assms])

section \<open>Witnesses\<close>

text \<open>A batch that writes one slot of an account into the empty tree.\<close>

definition sample_logs :: "storage_log list" where
  "sample_logs = [new_write_log \<lparr>account = 0x8001, slot = 3\<rparr> 7]"

definition sample_witness :: witness_input_merkle_paths where
  "sample_witness = honest_witness counter_hash (Map.empty, 1) sample_logs"

lemma honest_meta_empty_path: "merkle_paths (honest_meta blake (Map.empty, i) log) = []"
proof -
  let ?H = "blake2_hash_tree blake" and ?p = "expand_path (blake2_hash_tree blake) []"
  have len: "length ?p = TREE_DEPTH" by (simp add: length_expand_path)
  have "\<not> empty_subtree_prefix_len blake ?p < length ?p"
    using empty_subtree_prefix_len_stops [of ?p blake] len by (auto simp: expand_path_def)
  then have "empty_subtree_prefix_len blake ?p = TREE_DEPTH"
    using empty_subtree_prefix_len_le [of blake ?p] len by simp
  then show ?thesis
    by (simp add: honest_meta_def Let_def split_beta blake2.honest_path_empty len)
qed

lemma sample_not_legacy: "\<not> is_legacy_delta_form sample_witness"
  by (simp add: sample_witness_def sample_logs_def honest_witness_def honest_meta_empty_path TREE_DEPTH_eq)

lemma sample_write [simp]: "is_write (new_write_log k v)" "log_key (new_write_log k v) = k"
  by (simp_all add: is_write_def new_write_log_def)

theorem streaming_pass_eq_reference_witness:
  "ok (verify_paths_and_new_root counter_hash (running_hash_hasher counter_hash) sample_witness sample_logs 0 1) =
   ok (reference counter_hash sample_witness sample_logs 0 1)"
  by (rule streaming_pass_eq_reference [OF running_hash.blake2s_path_hasher_axioms sample_not_legacy])

text \<open>The same batch satisfies the hypotheses of the soundness theorems.\<close>

lemma sample_run:
  obtains bs inss where "normal_run counter_hash sample_witness sample_logs 1 bs inss"
    and "honest_run (blake2_hash_tree counter_hash) Map.empty
      (zip (map2 (op_of counter_hash) (witness_paths sample_witness) bs) inss)"
  unfolding sample_witness_def
  by (rule honest_witness_run [of Map.empty counter_hash 1 sample_logs])
    (auto simp: wf_tree_state_def leaf_of_def sample_logs_def)

lemma sample_paths:
  "witness_paths sample_witness =
     [honest_meta counter_hash (Map.empty, 1) (new_write_log \<lparr>account = 0x8001, slot = 3\<rparr> 7)]"
  by (simp add: sample_witness_def honest_witness_def sample_logs_def)

lemma sample_accepted:
  "\<exists>r. verify_paths_and_new_root counter_hash (running_hash_hasher counter_hash) sample_witness sample_logs
     (tree_root (blake2_hash_tree counter_hash) Map.empty) 1 = Inr r"
proof (rule sample_run)
  fix bs inss
  assume n: "normal_run counter_hash sample_witness sample_logs 1 bs inss"
    and "honest_run (blake2_hash_tree counter_hash) Map.empty
      (zip (map2 (op_of counter_hash) (witness_paths sample_witness) bs) inss)"
  note loop = verify_proofs_loop_honest [OF this(2)]
  have ne: "witness_paths sample_witness \<noteq> []" by (simp add: sample_paths)
  show ?thesis
    by (rule exI, subst verify_paths_iff [OF running_hash.blake2s_path_hasher_axioms sample_not_legacy])
      (use ne n loop in blast)
qed

lemma sample_collision_free:
  "run_collision_free (blake2_hash_tree counter_hash) Map.empty (witness_run counter_hash sample_witness sample_logs 1)"
proof (rule sample_run)
  fix bs inss
  assume n: "normal_run counter_hash sample_witness sample_logs 1 bs inss"
  then have "bs = [Inserted]"
    by (auto simp: normal_run_def sample_paths honest_meta_base leaf_of_def)
  moreover obtain ins where "inss = [ins]"
    using normal_run_lengths [OF n] by (auto simp: sample_paths length_Suc_conv)
  ultimately show ?thesis
    using counter_hash_collision_free
    by (simp add: witness_run_eq [OF n] sample_paths honest_meta_empty_path collision_free_expand)
qed

theorem verify_paths_sound_witness:
  "\<exists>root idx'. verify_paths_and_new_root counter_hash (running_hash_hasher counter_hash) sample_witness sample_logs
       (tree_root (blake2_hash_tree counter_hash) Map.empty) 1 = Inr (root, idx') \<and>
     root = tree_root (blake2_hash_tree counter_hash)
       (fst (fold (apply_vm_log counter_hash) sample_logs (Map.empty, 1))) \<and> idx' = 2"
proof -
  obtain root idx' where acc: "verify_paths_and_new_root counter_hash (running_hash_hasher counter_hash)
      sample_witness sample_logs (tree_root (blake2_hash_tree counter_hash) Map.empty) 1 = Inr (root, idx')"
    using sample_accepted by auto
  from verify_paths_sound [OF running_hash.blake2s_path_hasher_axioms sample_not_legacy sample_collision_free acc]
  show ?thesis using acc by (auto simp: sample_logs_def apply_vm_log_def leaf_of_def Let_def)
qed

end
