(* ===== verification/State_Diffs.thy ===== *)
theory State_Diffs
  imports Prelude "HOL-Library.Product_Lexorder"
begin

text \<open>
  State diffs and their pubdata encoding: \<open>src/crates/types/src/storage/writes/mod.rs\<close> and
  \<open>writes/compression.rs\<close>. The specification is a decoder of the format the comments describe; the
  lemmas show that it recovers every diff from the compressed bytes and the previous values.
\<close>

section \<open>Value compression\<close>

definition COMPRESSION_VERSION_NUMBER :: u8 where "COMPRESSION_VERSION_NUMBER = 1"

text \<open>\<open>U256::bits\<close>: the position after the highest set bit.\<close>

definition bits :: "u256 \<Rightarrow> nat" where
  "bits w = bit_len (unat w)"

definition div_ceil :: "nat \<Rightarrow> nat \<Rightarrow> nat" where
  "div_ceil a b = (if a mod b = 0 then a div b else a div b + 1)"

datatype compression_mode =
    CompressionByteAdd (prev_value: u256) (new_value: u256)
  | CompressionByteSub (prev_value: u256) (new_value: u256)
  | CompressionByteTransform (new_value: u256)
  | CompressionByteNone (new_value: u256)

fun operation_id :: "compression_mode \<Rightarrow> nat" where
  "operation_id (CompressionByteAdd _ _) = 1"
| "operation_id (CompressionByteSub _ _) = 2"
| "operation_id (CompressionByteTransform _) = 3"
| "operation_id (CompressionByteNone _) = 0"

definition small_diff :: "u256 \<Rightarrow> (u256 \<times> nat) option" where
  "small_diff diff = (let sz = div_ceil (bits diff) 8 in if 31 \<le> sz then None else Some (diff, sz))"

fun get_diff_and_size :: "compression_mode \<Rightarrow> (u256 \<times> nat) option" where
  "get_diff_and_size (CompressionByteAdd prev new) = small_diff (new - prev)"
| "get_diff_and_size (CompressionByteSub prev new) = small_diff (prev - new)"
| "get_diff_and_size (CompressionByteTransform new) = small_diff new"
| "get_diff_and_size (CompressionByteNone new) = None"

text \<open>The trait's default methods, with the overrides of \<open>CompressionByteNone\<close>.\<close>

fun output_size :: "compression_mode \<Rightarrow> nat option" where
  "output_size (CompressionByteNone _) = Some 32"
| "output_size m = map_option snd (get_diff_and_size m)"

fun compress_value_only :: "compression_mode \<Rightarrow> u8 list option" where
  "compress_value_only (CompressionByteNone new) = Some (be_bytes 32 new)"
| "compress_value_only m = map_option (\<lambda>(diff, sz). drop (32 - sz) (be_bytes 32 diff)) (get_diff_and_size m)"

definition metadata_byte :: "nat \<Rightarrow> nat \<Rightarrow> u8" where
  "metadata_byte sz op = word_of_nat (push_bit 3 sz OR op)"

fun compress_extended :: "compression_mode \<Rightarrow> u8 list option" where
  "compress_extended (CompressionByteNone new) = Some (0 # be_bytes 32 new)"
| "compress_extended m =
     map_option (\<lambda>compressed_value. metadata_byte (the (output_size m)) (operation_id m) # compressed_value)
       (compress_value_only m)"

definition default_passes :: "u256 \<Rightarrow> u256 \<Rightarrow> compression_mode list" where
  "default_passes prev new =
     [CompressionByteAdd prev new, CompressionByteSub prev new, CompressionByteTransform new]"

text \<open>\<open>Iterator::min_by_key\<close> returns the first of several minima.\<close>

fun min_by_key :: "('a \<Rightarrow> nat) \<Rightarrow> 'a list \<Rightarrow> 'a option" where
  "min_by_key f [] = None"
| "min_by_key f (x # xs) =
     (case min_by_key f xs of None \<Rightarrow> Some x | Some y \<Rightarrow> if f x \<le> f y then Some x else Some y)"

definition compress_with_best_strategy :: "u256 \<Rightarrow> u256 \<Rightarrow> u8 list" where
  "compress_with_best_strategy prev new =
     (case min_by_key length (List.map_filter compress_extended (default_passes prev new)) of
        Some bytes \<Rightarrow> bytes
      | None \<Rightarrow> the (compress_extended (CompressionByteNone new)))"

section \<open>State diff records\<close>

definition BYTES_PER_ENUMERATION_INDEX :: u8 where "BYTES_PER_ENUMERATION_INDEX = 4"
definition STATE_DIFF_RECORD_SIZE :: nat where "STATE_DIFF_RECORD_SIZE = 156"
definition PADDED_ENCODED_STORAGE_DIFF_LEN_BYTES :: nat where "PADDED_ENCODED_STORAGE_DIFF_LEN_BYTES = 272"

record state_diff_record =
  sd_address :: address
  sd_key :: u256
  derived_key :: h256
  enumeration_index :: u64
  initial_value :: u256
  final_value :: u256

definition sd_encode :: "state_diff_record \<Rightarrow> u8 list" where
  "sd_encode r = address_bytes (sd_address r) @ be_bytes 32 (sd_key r) @ as_bytes (derived_key r) @
     be_bytes 8 (enumeration_index r) @ be_bytes 32 (initial_value r) @ be_bytes 32 (final_value r)"

definition sd_encode_padded :: "state_diff_record \<Rightarrow> u8 list" where
  "sd_encode_padded r =
     sd_encode r @ replicate (PADDED_ENCODED_STORAGE_DIFF_LEN_BYTES - length (sd_encode r)) 0"

definition slice :: "nat \<Rightarrow> nat \<Rightarrow> 'a list \<Rightarrow> 'a list" where
  "slice a b xs = drop a (take b xs)"

definition sd_try_from_slice :: "u8 list \<Rightarrow> state_diff_record option" where
  "sd_try_from_slice data =
     (if length data = 156 then
        Some \<lparr>sd_address = from_be_bytes (slice 0 20 data), sd_key = from_be_bytes (slice 20 52 data),
              derived_key = from_be_bytes (slice 52 84 data),
              enumeration_index = from_be_bytes (slice 84 92 data),
              initial_value = from_be_bytes (slice 92 124 data),
              final_value = from_be_bytes (slice 124 156 data)\<rparr>
      else None)"

definition sd_compress :: "state_diff_record \<Rightarrow> u8 list res" where
  "sd_compress r =
     and_then
       (if enumeration_index r = 0 then Inr (as_bytes (derived_key r))
        else if unat (enumeration_index r) \<le> 2 ^ 32 - 1
        then Inr (be_bytes 4 (ucast (enumeration_index r) :: u32))
        else Inl (Panic EnumerationIndexTooLarge))
       (\<lambda>prefix. Inr (prefix @ compress_with_best_strategy (initial_value r) (final_value r)))"

definition is_write_initial :: "state_diff_record \<Rightarrow> bool" where
  "is_write_initial r \<longleftrightarrow> enumeration_index r = 0"

definition prepend_header :: "u8 list \<Rightarrow> u8 list res" where
  "prepend_header compressed =
     ensure (length compressed \<le> 0x00FFFFFF) (Panic CompressedLengthTooLarge)
       (Inr ([COMPRESSION_VERSION_NUMBER] @ drop 1 (be_bytes 4 (word_of_nat (length compressed) :: u32)) @
         [BYTES_PER_ENUMERATION_INDEX] @ compressed))"

text \<open>The sort is stable, by address and then key.\<close>

definition sort_state_diffs :: "state_diff_record list \<Rightarrow> state_diff_record list" where
  "sort_state_diffs = sort_key (\<lambda>r. (sd_address r, sd_key r))"

definition compress_state_diffs :: "state_diff_record list \<Rightarrow> u8 list res" where
  "compress_state_diffs state_diffs =
     (let sorted = sort_state_diffs state_diffs;
          initial_writes = filter (\<lambda>r. enumeration_index r = 0) sorted;
          repeated_writes = filter (\<lambda>r. enumeration_index r \<noteq> 0) sorted
      in ensure (length initial_writes \<le> 2 ^ 16 - 1) (Panic TooManyInitialWrites)
         (and_then (collect_res (map sd_compress initial_writes)) (\<lambda>initial.
          and_then (collect_res (map sd_compress repeated_writes)) (\<lambda>repeated.
            prepend_header (be_bytes 2 (word_of_nat (length initial_writes) :: u16) @
              concat initial @ concat repeated)))))"

section \<open>Decoder\<close>

text \<open>Specification of the format: what a reader of the pubdata recovers.\<close>

datatype delta = AddDelta u256 | SubDelta u256 | SetDelta u256

fun apply_delta :: "u256 \<Rightarrow> delta \<Rightarrow> u256" where
  "apply_delta prev (AddDelta d) = prev + d"
| "apply_delta prev (SubDelta d) = prev - d"
| "apply_delta prev (SetDelta v) = v"

definition split_at :: "nat \<Rightarrow> u8 list \<Rightarrow> (u8 list \<times> u8 list) option" where
  "split_at n bs = (if n \<le> length bs then Some (take n bs, drop n bs) else None)"

fun parse_delta :: "u8 list \<Rightarrow> (delta \<times> u8 list) option" where
  "parse_delta [] = None"
| "parse_delta (m # bs) =
     (let op = unat m mod 8; len = unat m div 8
      in if op = 0 then map_option (\<lambda>(v, rest). (SetDelta (from_be_bytes v), rest)) (split_at 32 bs)
         else Option.bind (split_at len bs) (\<lambda>(v, rest).
           if op = 1 then Some (AddDelta (from_be_bytes v), rest)
           else if op = 2 then Some (SubDelta (from_be_bytes v), rest)
           else if op = 3 then Some (SetDelta (from_be_bytes v), rest)
           else None))"

text \<open>\<open>n\<close> entries, each with an identifier of \<open>w\<close> bytes.\<close>

fun parse_entries :: "nat \<Rightarrow> nat \<Rightarrow> u8 list \<Rightarrow> ((u8 list \<times> delta) list \<times> u8 list) option" where
  "parse_entries w 0 bs = Some ([], bs)"
| "parse_entries w (Suc n) bs =
     Option.bind (split_at w bs) (\<lambda>(ident, bs1).
     Option.bind (parse_delta bs1) (\<lambda>(d, bs2).
     Option.bind (parse_entries w n bs2) (\<lambda>(es, rest). Some ((ident, d) # es, rest))))"

text \<open>The repeated writes fill the rest of the encoding; the first argument bounds their number.\<close>

fun parse_all :: "nat \<Rightarrow> nat \<Rightarrow> u8 list \<Rightarrow> (u8 list \<times> delta) list option" where
  "parse_all w 0 bs = (if bs = [] then Some [] else None)"
| "parse_all w (Suc n) bs =
     (if bs = [] then Some []
      else Option.bind (split_at w bs) (\<lambda>(ident, bs1).
        Option.bind (parse_delta bs1) (\<lambda>(d, bs2).
          map_option (\<lambda>es. (ident, d) # es) (parse_all w n bs2))))"

definition parse_state_diffs ::
  "u8 list \<Rightarrow> ((u8 list \<times> delta) list \<times> (u8 list \<times> delta) list) option" where
  "parse_state_diffs bs =
     Option.bind (split_at 5 bs) (\<lambda>(header, body).
       if header ! 0 = COMPRESSION_VERSION_NUMBER \<and> header ! 4 = BYTES_PER_ENUMERATION_INDEX \<and>
          unat (from_be_bytes (slice 1 4 header) :: u32) = length body
       then Option.bind (split_at 2 body) (\<lambda>(count, rest).
         Option.bind (parse_entries 32 (unat (from_be_bytes count :: u16)) rest) (\<lambda>(initial, rest').
           map_option (\<lambda>repeated. (initial, repeated)) (parse_all 4 (length rest') rest')))
       else None)"

section \<open>Lemmas on values\<close>

lemma div_ceil_bound: "a \<le> 8 * div_ceil a 8"
  by (simp add: div_ceil_def) presburger

lemma bits_le_256: "bits w \<le> 256"
  using unsigned_less [of w, where 'a = nat] by (simp add: bits_def bit_len_le)

text \<open>The low \<open>sz\<close> bytes of a value that fits into them determine it.\<close>

lemma from_be_bytes_drop:
  fixes w :: u256
  assumes "sz \<le> 32" and "unat w < 2 ^ (8 * sz)"
  shows "from_be_bytes (drop (32 - sz) (be_bytes 32 w)) = w"
proof (rule bit_word_eqI)
  fix i assume i: "i < LENGTH(256)"
  have high: "\<not> bit w i" if "8 * sz \<le> i"
  proof -
    have "unat w < 2 ^ i" using assms(2) that by (meson less_le_trans power_increasing one_le_numeral)
    then have "\<not> bit (unat w) i" by (simp add: bit_iff_odd)
    then show ?thesis by (simp add: bit_unsigned_iff)
  qed
  have "rev (drop (32 - sz) (be_bytes 32 w)) = take sz (le_bytes 32 w)"
    using assms(1) by (simp add: be_bytes_def drop_rev)
  moreover have "bit (le_bytes 32 w ! (i div 8)) (i mod 8) = bit w i" if "i div 8 < sz"
    using that i assms(1) by (simp add: nth_le_bytes bit_ucast_iff bit_drop_bit_eq)
  ultimately show "bit (from_be_bytes (drop (32 - sz) (be_bytes 32 w)) :: u256) i = bit w i"
    using i high assms(1)
    by (cases "i div 8 < sz") (auto simp: from_be_bytes_def bit_from_le_bytes not_less div_less_iff_less_mult mult.commute)
qed

lemma small_diff_Some:
  assumes "small_diff w = Some (d, sz)"
  shows "d = w" "sz < 31" "from_be_bytes (drop (32 - sz) (be_bytes 32 w)) = w"
proof -
  from assms show d: "d = w" and s: "sz < 31" by (auto simp: small_diff_def Let_def split: if_splits)
  from assms have "bits w \<le> 8 * sz"
    using div_ceil_bound by (auto simp: small_diff_def Let_def split: if_splits)
  then have "unat w < 2 ^ (8 * sz)" by (simp add: bits_def bit_len_le)
  with s show "from_be_bytes (drop (32 - sz) (be_bytes 32 w)) = w" by (intro from_be_bytes_drop) simp_all
qed

lemma metadata_byte_fields:
  assumes "sz < 32" and "op < 8"
  shows "unat (metadata_byte sz op) mod 8 = op" "unat (metadata_byte sz op) div 8 = sz"
proof -
  have "push_bit 3 sz OR op = sz * 8 + op"
  proof -
    have "bit op i \<Longrightarrow> i < 3" for i
      using assms(2) bit_take_bit_iff [of 3 op i] by (simp add: take_bit_nat_eq_self)
    then have "push_bit 3 sz AND op = 0"
      by (auto simp: bit_eq_iff bit_and_iff bit_push_bit_iff not_less [symmetric])
    then show ?thesis by (simp add: disjunctive_add_eq_or [symmetric] push_bit_eq_mult)
  qed
  moreover have "sz * 8 + op < 2 ^ 8" using assms by simp
  ultimately have "unat (metadata_byte sz op) = sz * 8 + op"
    by (simp add: metadata_byte_def unsigned_of_nat take_bit_nat_eq_self del: of_nat_add of_nat_mult)
  then show "unat (metadata_byte sz op) mod 8 = op" "unat (metadata_byte sz op) div 8 = sz"
    using assms(2) by simp_all
qed

section \<open>Round trip of one value\<close>

lemma min_by_key_in: "min_by_key f xs = Some x \<Longrightarrow> x \<in> set xs"
  by (induction xs arbitrary: x) (auto split: option.splits if_splits)

lemma min_by_key_None: "min_by_key f xs = None \<longleftrightarrow> xs = []"
  by (cases xs) (auto split: option.splits)

lemma min_by_key_le: "min_by_key f xs = Some x \<Longrightarrow> y \<in> set xs \<Longrightarrow> f x \<le> f y"
  by (induction xs arbitrary: x y) (fastforce simp: min_by_key_None split: option.splits if_splits)+

lemma split_at_append [simp]: "length xs = n \<Longrightarrow> split_at n (xs @ ys) = Some (xs, ys)"
  by (simp add: split_at_def)

text \<open>Every strategy that applies is decoded to a delta that gives the new value.\<close>

lemma parse_compress_extended:
  assumes "compress_extended m = Some bs" and "m \<in> set (default_passes prev new) \<or> m = CompressionByteNone new"
  shows "\<exists>d. parse_delta (bs @ rest) = Some (d, rest) \<and> apply_delta prev d = new \<and>
     length bs \<le> (if m = CompressionByteNone new then 33 else 31)"
proof (cases m)
  case (CompressionByteNone n)
  with assms have "bs = 0 # be_bytes 32 new" "m = CompressionByteNone new" by (auto simp: default_passes_def)
  then show ?thesis by (simp add: Let_def)
next
  case (CompressionByteAdd p n)
  with assms obtain d sz where "small_diff (n - p) = Some (d, sz)" by (auto simp: default_passes_def)
  from small_diff_Some [OF this] this CompressionByteAdd assms show ?thesis
    by (auto simp: default_passes_def metadata_byte_fields Let_def)
next
  case (CompressionByteSub p n)
  with assms obtain d sz where "small_diff (p - n) = Some (d, sz)" by (auto simp: default_passes_def)
  from small_diff_Some [OF this] this CompressionByteSub assms show ?thesis
    by (auto simp: default_passes_def metadata_byte_fields Let_def)
next
  case (CompressionByteTransform n)
  with assms obtain d sz where "small_diff n = Some (d, sz)" by (auto simp: default_passes_def)
  from small_diff_Some [OF this] this CompressionByteTransform assms show ?thesis
    by (auto simp: default_passes_def metadata_byte_fields Let_def)
qed

lemma best_strategy_mode:
  "\<exists>m. (m \<in> set (default_passes prev new) \<or> m = CompressionByteNone new) \<and>
     compress_extended m = Some (compress_with_best_strategy prev new)"
proof (cases "min_by_key length (List.map_filter compress_extended (default_passes prev new))")
  case None
  then show ?thesis by (auto simp: compress_with_best_strategy_def)
next
  case (Some bs)
  from min_by_key_in [OF this] obtain m where "m \<in> set (default_passes prev new)" "compress_extended m = Some bs"
    by (auto simp: List.map_filter_def)
  with Some show ?thesis by (auto simp: compress_with_best_strategy_def)
qed

lemma parse_best_strategy:
  "\<exists>d. parse_delta (compress_with_best_strategy prev new @ rest) = Some (d, rest) \<and>
     apply_delta prev d = new \<and> length (compress_with_best_strategy prev new) \<le> 33"
proof -
  obtain m where m: "m \<in> set (default_passes prev new) \<or> m = CompressionByteNone new"
    "compress_extended m = Some (compress_with_best_strategy prev new)" using best_strategy_mode by blast
  from parse_compress_extended [OF m(2,1), of rest] show ?thesis by (auto split: if_splits)
qed

lemma best_strategy_not_empty: "compress_with_best_strategy prev new \<noteq> []"
  using parse_best_strategy [of prev new "[]"] by auto

section \<open>Round trip of the records\<close>

lemma slice_append:
  "length xs = a \<Longrightarrow> length ys = b - a \<Longrightarrow> a \<le> b \<Longrightarrow> slice a b (xs @ ys @ zs) = ys"
  by (simp add: slice_def)

text \<open>The identifier of a record in the encoding.\<close>

definition record_id :: "state_diff_record \<Rightarrow> u8 list" where
  "record_id r = (if is_write_initial r then as_bytes (derived_key r)
                  else be_bytes 4 (ucast (enumeration_index r) :: u32))"

text \<open>What the decoder must return for a record.\<close>

definition entry_of :: "state_diff_record \<Rightarrow> u8 list \<times> delta \<Rightarrow> bool" where
  "entry_of r e \<longleftrightarrow> fst e = record_id r \<and> apply_delta (initial_value r) (snd e) = final_value r"

lemma entry_of_pair [simp]:
  "entry_of r (i, d) \<longleftrightarrow> i = record_id r \<and> apply_delta (initial_value r) d = final_value r"
  by (simp add: entry_of_def)

lemma sd_compress_eq_Inr:
  "sd_compress r = Inr bs \<longleftrightarrow> unat (enumeration_index r) < 2 ^ 32 \<and>
     bs = record_id r @ compress_with_best_strategy (initial_value r) (final_value r)"
  by (auto simp: sd_compress_def record_id_def is_write_initial_def)

lemma parse_entries_compress:
  assumes "map sd_compress rs = map Inr bss" and "\<forall>r \<in> set rs. length (record_id r) = w"
  shows "\<exists>es. parse_entries w (length rs) (concat bss @ rest) = Some (es, rest) \<and> list_all2 entry_of rs es"
  using assms
proof (induction rs arbitrary: bss)
  case Nil
  then show ?case by simp
next
  case (Cons r rs)
  then obtain bs bss' where b: "bss = bs # bss'" "sd_compress r = Inr bs" "map sd_compress rs = map Inr bss'"
    by (auto simp: Cons_eq_map_conv map_eq_Cons_conv)
  obtain d where d: "parse_delta (compress_with_best_strategy (initial_value r) (final_value r) @ concat bss' @ rest) =
      Some (d, concat bss' @ rest)" "apply_delta (initial_value r) d = final_value r"
    using parse_best_strategy by blast
  from Cons.IH [OF b(3)] Cons.prems(2) obtain es where
    "parse_entries w (length rs) (concat bss' @ rest) = Some (es, rest)" "list_all2 entry_of rs es" by auto
  with b d Cons.prems(2) show ?case by (auto simp: sd_compress_eq_Inr)
qed

lemma parse_all_compress:
  assumes "map sd_compress rs = map Inr bss" and "\<forall>r \<in> set rs. length (record_id r) = w"
    and "length rs \<le> n" and "0 < w"
  shows "\<exists>es. parse_all w n (concat bss) = Some es \<and> list_all2 entry_of rs es"
  using assms
proof (induction rs arbitrary: bss n)
  case Nil
  then show ?case by (cases n) auto
next
  case (Cons r rs)
  then obtain bs bss' where b: "bss = bs # bss'" "sd_compress r = Inr bs" "map sd_compress rs = map Inr bss'"
    by (auto simp: Cons_eq_map_conv map_eq_Cons_conv)
  obtain k where n: "n = Suc k" "length rs \<le> k" using Cons.prems(3) by (cases n) auto
  obtain d where d: "parse_delta (compress_with_best_strategy (initial_value r) (final_value r) @ concat bss') =
      Some (d, concat bss')" "apply_delta (initial_value r) d = final_value r"
    using parse_best_strategy by blast
  from Cons.IH [OF b(3) _ n(2)] Cons.prems(2,4) obtain es where
    "parse_all w k (concat bss') = Some es" "list_all2 entry_of rs es" by auto
  moreover have "concat bss \<noteq> []" using b best_strategy_not_empty by (auto simp: sd_compress_eq_Inr)
  ultimately show ?case using b d n Cons.prems(2) by (auto simp: sd_compress_eq_Inr)
qed

lemma length_record_id: "length (record_id r) = (if is_write_initial r then 32 else 4)"
  by (simp add: record_id_def)

lemma length_concat_compress:
  assumes "map sd_compress rs = map Inr bss" shows "length rs \<le> length (concat bss)"
  using assms
proof (induction rs arbitrary: bss)
  case (Cons r rs)
  then obtain bs bss' where b: "bss = bs # bss'" "sd_compress r = Inr bs" "map sd_compress rs = map Inr bss'"
    by (auto simp: Cons_eq_map_conv map_eq_Cons_conv)
  have "0 < length (record_id r)" by (simp add: length_record_id)
  then have "0 < length bs" using b by (auto simp: sd_compress_eq_Inr)
  then show ?case using Cons.IH [OF b(3)] b(1) by (simp add: Suc_le_eq less_le_trans add_strict_increasing)
qed simp

section \<open>The whole encoding\<close>

lemma length_best_strategy: "length (compress_with_best_strategy prev new) \<le> 33"
  using parse_best_strategy [of prev new "[]"] by auto

lemma sd_compress_length:
  "sd_compress r = Inr bs \<Longrightarrow> length bs \<le> (if is_write_initial r then 65 else 37)"
  using length_best_strategy [of "initial_value r" "final_value r"]
  by (auto simp: sd_compress_eq_Inr length_record_id)

lemma collect_sd_compress:
  assumes "\<forall>r \<in> set rs. unat (enumeration_index r) < 2 ^ 32"
  shows "\<exists>bss. collect_res (map sd_compress rs) = Inr bss \<and> length (concat bss) \<le> 65 * length rs"
  using assms
proof (induction rs)
  case (Cons r rs)
  then obtain bss where "collect_res (map sd_compress rs) = Inr bss" "length (concat bss) \<le> 65 * length rs" by auto
  moreover obtain bs where bs: "sd_compress r = Inr bs" using Cons.prems by (auto simp: sd_compress_eq_Inr)
  moreover have "length bs \<le> 65" using sd_compress_length [OF bs] by (simp split: if_splits)
  ultimately show ?case by simp
qed simp

lemma set_sort_state_diffs [simp]: "set (sort_state_diffs rs) = set rs"
  by (simp add: sort_state_diffs_def)

lemma length_sort_state_diffs [simp]: "length (sort_state_diffs rs) = length rs"
  by (simp add: sort_state_diffs_def)

lemma length_filter_split:
  "length (filter P xs) + length (filter (\<lambda>x. \<not> P x) xs) = length xs"
  by (rule sum_length_filter_compl)

lemma header_length_bytes:
  assumes "n \<le> 0x00FFFFFF"
  shows "unat (from_be_bytes (drop 1 (be_bytes 4 (word_of_nat n :: u32))) :: u32) = n"
proof -
  let ?w = "word_of_nat n :: u32"
  have w: "unat ?w = n" using assms by (simp add: unsigned_of_nat take_bit_nat_eq_self)
  have "be_bytes 4 ?w = ucast (drop_bit 24 ?w) # drop 1 (be_bytes 4 ?w)"
    by (simp add: be_bytes_def le_bytes_def upt_rec)
  moreover have "(ucast (drop_bit 24 ?w) :: u8) = 0"
  proof -
    have "unat (drop_bit 24 ?w) = drop_bit 24 (unat ?w)" by (rule unat_drop_bit_eq)
    also have "\<dots> = 0" unfolding w using assms by (simp add: drop_bit_eq_div)
    finally have "unat (drop_bit 24 ?w) = 0" .
    then show ?thesis by (metis unat_eq_zero ucast_0)
  qed
  ultimately have "from_be_bytes (be_bytes 4 ?w) = (from_be_bytes (0 # drop 1 (be_bytes 4 ?w)) :: u32)" by simp
  also have "\<dots> = from_be_bytes (drop 1 (be_bytes 4 ?w))"
    by (rule bit_word_eqI) (auto simp: from_be_bytes_def bit_from_le_bytes nth_append less_Suc_eq)
  finally show ?thesis using w by simp
qed

lemma parse_prepend_header:
  assumes "prepend_header body = Inr bs"
  shows "parse_state_diffs bs =
    Option.bind (split_at 2 body) (\<lambda>(count, rest).
      Option.bind (parse_entries 32 (unat (from_be_bytes count :: u16)) rest) (\<lambda>(initial, rest').
        map_option (\<lambda>repeated. (initial, repeated)) (parse_all 4 (length rest') rest')))"
proof -
  let ?len = "drop 1 (be_bytes 4 (word_of_nat (length body) :: u32))"
  from assms have len: "length body \<le> 0x00FFFFFF"
    and bs: "bs = ([COMPRESSION_VERSION_NUMBER] @ ?len @ [BYTES_PER_ENUMERATION_INDEX]) @ body"
    by (auto simp: prepend_header_def)
  note n = header_length_bytes [OF len]
  obtain l where l: "?len = l" "length l = 3" by simp
  show ?thesis
    unfolding bs parse_state_diffs_def using n unfolding l(1)
    by (subst split_at_append) (simp_all add: l(2) nth_append slice_def)
qed

lemma compress_state_diffs_eq:
  "compress_state_diffs diffs =
     ensure (length (filter is_write_initial (sort_state_diffs diffs)) \<le> 2 ^ 16 - 1) (Panic TooManyInitialWrites)
       (and_then (collect_res (map sd_compress (filter is_write_initial (sort_state_diffs diffs)))) (\<lambda>initial.
        and_then (collect_res (map sd_compress (filter (\<lambda>r. \<not> is_write_initial r) (sort_state_diffs diffs)))) (\<lambda>repeated.
          prepend_header (be_bytes 2 (word_of_nat (length (filter is_write_initial (sort_state_diffs diffs))) :: u16) @
            concat initial @ concat repeated))))"
proof -
  have "(\<lambda>r. enumeration_index r = 0) = is_write_initial" by (simp add: fun_eq_iff is_write_initial_def)
  moreover have "(\<lambda>r. enumeration_index r \<noteq> 0) = (\<lambda>r. \<not> is_write_initial r)"
    by (simp add: fun_eq_iff is_write_initial_def)
  ultimately show ?thesis unfolding compress_state_diffs_def Let_def by presburger
qed

section \<open>Properties\<close>

text \<open>
  C27. The compressed state diffs determine the diffs: whatever bytes the compression returns, the decoder
  of the format reads them as the initial writes and the repeated writes, in sorted order, each with
  its identifier and a delta that takes its initial value to its final value.
\<close>

theorem compress_state_diffs_decodes:
  assumes "compress_state_diffs diffs = Inr bs"
  shows "\<exists>initial repeated. parse_state_diffs bs = Some (initial, repeated) \<and>
     list_all2 entry_of (filter is_write_initial (sort_state_diffs diffs)) initial \<and>
     list_all2 entry_of (filter (\<lambda>r. \<not> is_write_initial r) (sort_state_diffs diffs)) repeated"
proof -
  let ?i = "filter is_write_initial (sort_state_diffs diffs)"
    and ?r = "filter (\<lambda>r. \<not> is_write_initial r) (sort_state_diffs diffs)"
  from assms obtain bi br where ni: "length ?i \<le> 2 ^ 16 - 1"
    and bi: "map sd_compress ?i = map Inr bi" and br: "map sd_compress ?r = map Inr br"
    and h: "prepend_header (be_bytes 2 (word_of_nat (length ?i) :: u16) @ concat bi @ concat br) = Inr bs"
    by (auto simp: compress_state_diffs_eq collect_res_eq_Inr)
  have n: "unat (word_of_nat (length ?i) :: u16) = length ?i"
    using ni by (simp add: unsigned_of_nat take_bit_nat_eq_self)
  obtain initial where i: "parse_entries 32 (length ?i) (concat bi @ concat br) = Some (initial, concat br)"
    "list_all2 entry_of ?i initial"
    using parse_entries_compress [OF bi, of 32 "concat br"] by (auto simp: length_record_id)
  obtain repeated where r: "parse_all 4 (length (concat br)) (concat br) = Some repeated"
    "list_all2 entry_of ?r repeated"
    using parse_all_compress [OF br, of 4 "length (concat br)"] length_concat_compress [OF br]
    by (auto simp: length_record_id)
  have "parse_state_diffs bs = Some (initial, repeated)"
    unfolding parse_prepend_header [OF h] by (simp add: n i r)
  with i r show ?thesis by blast
qed

text \<open>
  No panic within the bounds: at most \<open>2 ^ 16 - 1\<close> diffs with enumeration indices below \<open>2 ^ 32\<close> are always
  encoded, so neither the count nor the three-byte length overflows.
\<close>

theorem compress_state_diffs_total:
  assumes "length diffs \<le> 2 ^ 16 - 1" and "\<forall>r \<in> set diffs. unat (enumeration_index r) < 2 ^ 32"
  shows "\<exists>bs. compress_state_diffs diffs = Inr bs"
proof -
  let ?i = "filter is_write_initial (sort_state_diffs diffs)"
    and ?r = "filter (\<lambda>r. \<not> is_write_initial r) (sort_state_diffs diffs)"
  have len: "length ?i + length ?r = length diffs" by (simp add: length_filter_split)
  obtain bi where bi: "collect_res (map sd_compress ?i) = Inr bi" "length (concat bi) \<le> 65 * length ?i"
    using collect_sd_compress [of ?i] assms(2) by auto
  obtain br where br: "collect_res (map sd_compress ?r) = Inr br" "length (concat br) \<le> 65 * length ?r"
    using collect_sd_compress [of ?r] assms(2) by auto
  have "length (concat bi) + length (concat br) \<le> 65 * length diffs" using bi(2) br(2) len by linarith
  then have "length (concat bi) + length (concat br) \<le> 65 * 65535" using assms(1) by simp
  then have "\<exists>bs. prepend_header (be_bytes 2 (word_of_nat (length ?i) :: u16) @ concat bi @ concat br) = Inr bs"
    by (simp add: prepend_header_def)
  moreover have "length ?i \<le> 2 ^ 16 - 1" using len assms(1) by linarith
  ultimately show ?thesis unfolding compress_state_diffs_eq bi(1) br(1) by simp
qed

text \<open>
  The packed encoding of a record and \<open>try_from_slice\<close> are inverse to each other: the records are in
  bijection with the byte strings of 156 bytes.
\<close>

theorem state_diff_encode_roundtrip: "sd_try_from_slice data = Some r \<longleftrightarrow> data = sd_encode r"
proof
  assume d: "data = sd_encode r"
  have l: "length (sd_encode r) = 156" by (simp add: sd_encode_def)
  show "sd_try_from_slice data = Some r"
    unfolding d sd_try_from_slice_def l by (simp add: sd_encode_def slice_def)
next
  assume r: "sd_try_from_slice data = Some r"
  then have len: "length data = 156" by (simp add: sd_try_from_slice_def split: if_splits)
  have cut: "drop a data = slice a b data @ drop b data" if "a \<le> b" for a b
    using that by (metis append_take_drop_id drop_take slice_def drop_drop le_add_diff_inverse2)
  have "data = slice 0 20 data @ slice 20 52 data @ slice 52 84 data @ slice 84 92 data @
      slice 92 124 data @ slice 124 156 data @ drop 156 data"
    using cut [of 0 20] cut [of 20 52] cut [of 52 84] cut [of 84 92] cut [of 92 124] cut [of 124 156] by simp
  then show "data = sd_encode r"
    using r len by (auto simp: sd_try_from_slice_def sd_encode_def slice_def)
qed

text \<open>
  The best strategy is never beaten: its output is at most 33 bytes and no longer than the output of any
  strategy that applies, and a compressed record is at most 65 bytes (initial) or 37 bytes (repeated).
\<close>

theorem best_strategy_minimal:
  "length (compress_with_best_strategy prev new) \<le> 33 \<and>
   (\<forall>m \<in> set (default_passes prev new).
      case compress_extended m of None \<Rightarrow> True
      | Some bs \<Rightarrow> length (compress_with_best_strategy prev new) \<le> length bs) \<and>
   (case sd_compress r of Inl _ \<Rightarrow> True | Inr bs \<Rightarrow> length bs \<le> (if is_write_initial r then 65 else 37))"
proof (intro conjI ballI)
  fix m assume m: "m \<in> set (default_passes prev new)"
  show "case compress_extended m of None \<Rightarrow> True
      | Some bs \<Rightarrow> length (compress_with_best_strategy prev new) \<le> length bs"
  proof (cases "compress_extended m")
    case (Some bs)
    let ?xs = "List.map_filter compress_extended (default_passes prev new)"
    from m Some have bs: "bs \<in> set ?xs" by (force simp: List.map_filter_def)
    then obtain best where "min_by_key length ?xs = Some best"
      using min_by_key_None [of length ?xs] by (cases "min_by_key length ?xs") auto
    with min_by_key_le [OF this bs] Some show ?thesis by (simp add: compress_with_best_strategy_def)
  qed simp
qed (auto simp: length_best_strategy dest: sd_compress_length split: sum.split)

section \<open>Witnesses\<close>

definition sample_diff :: state_diff_record where
  "sample_diff = \<lparr>sd_address = 0x8001, sd_key = 3, derived_key = 17, enumeration_index = 5,
     initial_value = 10, final_value = 300\<rparr>"

theorem compress_state_diffs_total_witness: "\<exists>bs. compress_state_diffs [sample_diff] = Inr bs"
  by (rule compress_state_diffs_total) (simp_all add: sample_diff_def)

lemma sample_diff_compresses: "\<exists>bs. compress_state_diffs [sample_diff] = Inr bs"
proof -
  have "\<exists>bs. sd_compress sample_diff = Inr bs \<and> length bs \<le> 37"
    using sd_compress_length [of sample_diff]
    by (auto simp: sd_compress_eq_Inr sample_diff_def is_write_initial_def)
  then show ?thesis
    by (auto simp: compress_state_diffs_eq sort_state_diffs_def prepend_header_def is_write_initial_def sample_diff_def)
qed

theorem compress_state_diffs_decodes_witness:
  "\<exists>bs initial repeated. compress_state_diffs [sample_diff] = Inr bs \<and>
     parse_state_diffs bs = Some (initial, repeated) \<and> list_all2 entry_of [] initial \<and>
     list_all2 entry_of [sample_diff] repeated"
proof -
  obtain bs where bs: "compress_state_diffs [sample_diff] = Inr bs" using sample_diff_compresses by blast
  have "filter is_write_initial (sort_state_diffs [sample_diff]) = []"
    "filter (\<lambda>r. \<not> is_write_initial r) (sort_state_diffs [sample_diff]) = [sample_diff]"
    by (simp_all add: sort_state_diffs_def is_write_initial_def sample_diff_def)
  with compress_state_diffs_decodes [OF bs] bs show ?thesis by auto
qed

text \<open>A slot cleared to zero costs a single metadata byte.\<close>

theorem best_strategy_minimal_witness: "length (compress_with_best_strategy 7 0) \<le> 1"
proof -
  have "compress_extended (CompressionByteTransform 0) = Some [metadata_byte 0 3]"
    by (simp add: small_diff_def bits_def bit_len.simps div_ceil_def Let_def)
  then show ?thesis
    using best_strategy_minimal [of 7 0 sample_diff] by (auto simp: default_passes_def)
qed

end
