(* ===== verification/Protocol_Version.thy ===== *)
theory Protocol_Version
  imports Prelude
begin

text \<open>
  Protocol and VM versions: \<open>src/crates/basic_types/src/protocol_version.rs\<close>, \<open>basic_types/src/vm.rs\<close>, the
  version enums of \<open>multivm\<close> (\<open>vm_latest/vm.rs\<close>, \<open>vm_fast/version.rs\<close>) and the version-dependent blob
  and log-tree sizes of \<open>types/src/blob.rs\<close> and \<open>types/src/l2_to_l1_log.rs\<close>. The derived order of the Rust
  enum is an instance of the class of linear orders.
\<close>

section \<open>Protocol versions\<close>

datatype protocol_version =
    Version0 | Version1 | Version2 | Version3 | Version4 | Version5
  | Version6 | Version7 | Version8 | Version9 | Version10 | Version11
  | Version12 | Version13 | Version14 | Version15 | Version16 | Version17
  | Version18 | Version19 | Version20 | Version21 | Version22 | Version23
  | Version24 | Version25 | Version26 | Version27 | Version28 | Version29
  | Version30 | Version31 | Version32

definition all_versions :: "protocol_version list" where
  "all_versions =
    [Version0, Version1, Version2, Version3, Version4, Version5,
     Version6, Version7, Version8, Version9, Version10, Version11,
     Version12, Version13, Version14, Version15, Version16, Version17,
     Version18, Version19, Version20, Version21, Version22, Version23,
     Version24, Version25, Version26, Version27, Version28, Version29,
     Version30, Version31, Version32]"

text \<open>\<open>self as u16\<close>, and the derived \<open>TryFromPrimitive\<close>.\<close>

fun as_u16 :: "protocol_version \<Rightarrow> nat" where
  "as_u16 Version0 = 0"
| "as_u16 Version1 = 1"
| "as_u16 Version2 = 2"
| "as_u16 Version3 = 3"
| "as_u16 Version4 = 4"
| "as_u16 Version5 = 5"
| "as_u16 Version6 = 6"
| "as_u16 Version7 = 7"
| "as_u16 Version8 = 8"
| "as_u16 Version9 = 9"
| "as_u16 Version10 = 10"
| "as_u16 Version11 = 11"
| "as_u16 Version12 = 12"
| "as_u16 Version13 = 13"
| "as_u16 Version14 = 14"
| "as_u16 Version15 = 15"
| "as_u16 Version16 = 16"
| "as_u16 Version17 = 17"
| "as_u16 Version18 = 18"
| "as_u16 Version19 = 19"
| "as_u16 Version20 = 20"
| "as_u16 Version21 = 21"
| "as_u16 Version22 = 22"
| "as_u16 Version23 = 23"
| "as_u16 Version24 = 24"
| "as_u16 Version25 = 25"
| "as_u16 Version26 = 26"
| "as_u16 Version27 = 27"
| "as_u16 Version28 = 28"
| "as_u16 Version29 = 29"
| "as_u16 Version30 = 30"
| "as_u16 Version31 = 31"
| "as_u16 Version32 = 32"

definition version_try_from_u16 :: "nat \<Rightarrow> protocol_version option" where
  "version_try_from_u16 n = (if n < length all_versions then Some (all_versions ! n) else None)"

lemma version_try_from_as_u16 [simp]: "version_try_from_u16 (as_u16 v) = Some v"
  by (cases v) (simp_all add: version_try_from_u16_def all_versions_def)

lemma as_u16_inj [simp]: "as_u16 v = as_u16 w \<longleftrightarrow> v = w"
  by (metis option.inject version_try_from_as_u16)

lemma as_u16_less: "as_u16 v < 33"
  by (cases v) simp_all

instantiation protocol_version :: linorder
begin

definition less_eq_protocol_version :: "protocol_version \<Rightarrow> protocol_version \<Rightarrow> bool" where
  "less_eq_protocol_version v w \<longleftrightarrow> as_u16 v \<le> as_u16 w"

definition less_protocol_version :: "protocol_version \<Rightarrow> protocol_version \<Rightarrow> bool" where
  "less_protocol_version v w \<longleftrightarrow> as_u16 v < as_u16 w"

instance
  by standard (auto simp: less_eq_protocol_version_def less_protocol_version_def)

end

lemmas version_order = less_eq_protocol_version_def less_protocol_version_def

definition latest :: protocol_version where "latest = Version31"
definition next_version :: protocol_version where "next_version = Version32"
definition last_potentially_undefined :: protocol_version where "last_potentially_undefined = Version9"
definition gateway_upgrade :: protocol_version where "gateway_upgrade = Version26"

definition is_pre_boojum :: "protocol_version \<Rightarrow> bool" where "is_pre_boojum v \<longleftrightarrow> v \<le> Version17"
definition is_pre_shared_bridge :: "protocol_version \<Rightarrow> bool" where "is_pre_shared_bridge v \<longleftrightarrow> v \<le> Version22"
definition is_pre_gateway :: "protocol_version \<Rightarrow> bool" where "is_pre_gateway v \<longleftrightarrow> v < gateway_upgrade"
definition is_post_gateway :: "protocol_version \<Rightarrow> bool" where "is_post_gateway v \<longleftrightarrow> gateway_upgrade \<le> v"
definition is_pre_fflonk :: "protocol_version \<Rightarrow> bool" where "is_pre_fflonk v \<longleftrightarrow> v < Version27"
definition is_post_fflonk :: "protocol_version \<Rightarrow> bool" where "is_post_fflonk v \<longleftrightarrow> Version27 \<le> v"
definition is_pre_interop_fast_blocks :: "protocol_version \<Rightarrow> bool" where "is_pre_interop_fast_blocks v \<longleftrightarrow> v < Version29"
definition is_pre_medium_interop :: "protocol_version \<Rightarrow> bool" where "is_pre_medium_interop v \<longleftrightarrow> v < Version31"
definition is_1_4_0 :: "protocol_version \<Rightarrow> bool" where "is_1_4_0 v \<longleftrightarrow> Version18 \<le> v \<and> v < Version20"
definition is_1_4_1 :: "protocol_version \<Rightarrow> bool" where "is_1_4_1 v \<longleftrightarrow> v = Version20"
definition is_pre_1_4_1 :: "protocol_version \<Rightarrow> bool" where "is_pre_1_4_1 v \<longleftrightarrow> v < Version20"
definition is_post_1_4_1 :: "protocol_version \<Rightarrow> bool" where "is_post_1_4_1 v \<longleftrightarrow> Version20 \<le> v"
definition is_post_1_4_2 :: "protocol_version \<Rightarrow> bool" where "is_post_1_4_2 v \<longleftrightarrow> Version21 \<le> v"
definition is_pre_1_4_2 :: "protocol_version \<Rightarrow> bool" where "is_pre_1_4_2 v \<longleftrightarrow> v < Version21"
definition is_1_4_2 :: "protocol_version \<Rightarrow> bool" where "is_1_4_2 v \<longleftrightarrow> v = Version21 \<or> v = Version22"
definition is_pre_1_5_0 :: "protocol_version \<Rightarrow> bool" where "is_pre_1_5_0 v \<longleftrightarrow> v < Version23"
definition is_post_1_5_0 :: "protocol_version \<Rightarrow> bool" where "is_post_1_5_0 v \<longleftrightarrow> Version23 \<le> v"

section \<open>Semantic versions\<close>

definition PACKED_SEMVER_MINOR_OFFSET :: nat where "PACKED_SEMVER_MINOR_OFFSET = 32"
definition PACKED_SEMVER_MINOR_MASK :: nat where "PACKED_SEMVER_MINOR_MASK = 0xFFFF"

record protocol_semantic_version =
  minor :: protocol_version
  patch :: u32

definition version_try_from_u256 :: "u256 \<Rightarrow> protocol_version option" where
  "version_try_from_u256 w = (if unat w > 2 ^ 16 - 1 then None else version_try_from_u16 (unat w))"

definition pack :: "protocol_semantic_version \<Rightarrow> u256" where
  "pack v = push_bit PACKED_SEMVER_MINOR_OFFSET (word_of_nat (as_u16 (minor v))) OR ucast (patch v)"

definition try_from_packed :: "u256 \<Rightarrow> protocol_semantic_version option" where
  "try_from_packed packed =
     map_option (\<lambda>m. \<lparr>minor = m, patch = ucast (ucast packed :: u64)\<rparr>)
       (version_try_from_u256 (drop_bit PACKED_SEMVER_MINOR_OFFSET packed AND word_of_nat PACKED_SEMVER_MINOR_MASK))"

definition try_from_packed_semver :: "u256 \<Rightarrow> protocol_version option" where
  "try_from_packed_semver packed = map_option minor (try_from_packed packed)"

definition into_packed_semver_with_patch :: "protocol_version \<Rightarrow> nat \<Rightarrow> u256" where
  "into_packed_semver_with_patch v p =
     push_bit PACKED_SEMVER_MINOR_OFFSET (word_of_nat (as_u16 v)) OR ucast (word_of_nat p :: u32)"

section \<open>VM versions\<close>

datatype vm_version =
    M5WithoutRefunds | M5WithRefunds | M6Initial | M6BugWithCompressionFixed
  | Vm1_3_2 | VmVirtualBlocks | VmVirtualBlocksRefundsEnhancement | VmBoojumIntegration
  | Vm1_4_1 | Vm1_4_2 | Vm1_5_0SmallBootloaderMemory | Vm1_5_0IncreasedBootloaderMemory
  | VmGateway | VmEvmEmulator | VmEcPrecompiles | VmInterop
  | VmMediumInterop

fun into_api_vm_version :: "protocol_version \<Rightarrow> vm_version" where
  "into_api_vm_version Version0 = Vm1_3_2"
| "into_api_vm_version Version1 = Vm1_3_2"
| "into_api_vm_version Version2 = Vm1_3_2"
| "into_api_vm_version Version3 = Vm1_3_2"
| "into_api_vm_version Version4 = Vm1_3_2"
| "into_api_vm_version Version5 = Vm1_3_2"
| "into_api_vm_version Version6 = Vm1_3_2"
| "into_api_vm_version Version7 = Vm1_3_2"
| "into_api_vm_version Version8 = Vm1_3_2"
| "into_api_vm_version Version9 = Vm1_3_2"
| "into_api_vm_version Version10 = Vm1_3_2"
| "into_api_vm_version Version11 = Vm1_3_2"
| "into_api_vm_version Version12 = Vm1_3_2"
| "into_api_vm_version Version13 = VmVirtualBlocks"
| "into_api_vm_version Version14 = VmVirtualBlocks"
| "into_api_vm_version Version15 = VmVirtualBlocks"
| "into_api_vm_version Version16 = VmVirtualBlocksRefundsEnhancement"
| "into_api_vm_version Version17 = VmVirtualBlocksRefundsEnhancement"
| "into_api_vm_version Version18 = VmBoojumIntegration"
| "into_api_vm_version Version19 = VmBoojumIntegration"
| "into_api_vm_version Version20 = Vm1_4_1"
| "into_api_vm_version Version21 = Vm1_4_2"
| "into_api_vm_version Version22 = Vm1_4_2"
| "into_api_vm_version Version23 = Vm1_5_0SmallBootloaderMemory"
| "into_api_vm_version Version24 = Vm1_5_0IncreasedBootloaderMemory"
| "into_api_vm_version Version25 = Vm1_5_0IncreasedBootloaderMemory"
| "into_api_vm_version Version26 = VmGateway"
| "into_api_vm_version Version27 = VmEvmEmulator"
| "into_api_vm_version Version28 = VmEcPrecompiles"
| "into_api_vm_version Version29 = VmInterop"
| "into_api_vm_version Version30 = VmInterop"
| "into_api_vm_version Version31 = VmMediumInterop"
| "into_api_vm_version Version32 = VmMediumInterop"

fun vm_version_from :: "protocol_version \<Rightarrow> vm_version" where
  "vm_version_from Version0 = M5WithoutRefunds"
| "vm_version_from Version1 = M5WithoutRefunds"
| "vm_version_from Version2 = M5WithRefunds"
| "vm_version_from Version3 = M5WithRefunds"
| "vm_version_from Version4 = M6Initial"
| "vm_version_from Version5 = M6BugWithCompressionFixed"
| "vm_version_from Version6 = M6BugWithCompressionFixed"
| "vm_version_from Version7 = Vm1_3_2"
| "vm_version_from Version8 = Vm1_3_2"
| "vm_version_from Version9 = Vm1_3_2"
| "vm_version_from Version10 = Vm1_3_2"
| "vm_version_from Version11 = Vm1_3_2"
| "vm_version_from Version12 = Vm1_3_2"
| "vm_version_from Version13 = VmVirtualBlocks"
| "vm_version_from Version14 = VmVirtualBlocks"
| "vm_version_from Version15 = VmVirtualBlocks"
| "vm_version_from Version16 = VmVirtualBlocksRefundsEnhancement"
| "vm_version_from Version17 = VmVirtualBlocksRefundsEnhancement"
| "vm_version_from Version18 = VmBoojumIntegration"
| "vm_version_from Version19 = VmBoojumIntegration"
| "vm_version_from Version20 = Vm1_4_1"
| "vm_version_from Version21 = Vm1_4_2"
| "vm_version_from Version22 = Vm1_4_2"
| "vm_version_from Version23 = Vm1_5_0SmallBootloaderMemory"
| "vm_version_from Version24 = Vm1_5_0IncreasedBootloaderMemory"
| "vm_version_from Version25 = Vm1_5_0IncreasedBootloaderMemory"
| "vm_version_from Version26 = VmGateway"
| "vm_version_from Version27 = VmEvmEmulator"
| "vm_version_from Version28 = VmEcPrecompiles"
| "vm_version_from Version29 = VmInterop"
| "vm_version_from Version30 = VmInterop"
| "vm_version_from Version31 = VmMediumInterop"
| "vm_version_from Version32 = VmMediumInterop"

definition vm_version_latest :: vm_version where "vm_version_latest = VmMediumInterop"

datatype multi_vm_subversion =
    SmallBootloaderMemory | IncreasedBootloaderMemory | Gateway | EvmEmulator | EcPrecompiles
  | Interop | MediumInterop

definition multi_vm_subversion_try_from :: "vm_version \<Rightarrow> multi_vm_subversion option" where
  "multi_vm_subversion_try_from v = (case v of
      Vm1_5_0SmallBootloaderMemory \<Rightarrow> Some SmallBootloaderMemory
    | Vm1_5_0IncreasedBootloaderMemory \<Rightarrow> Some IncreasedBootloaderMemory
    | VmGateway \<Rightarrow> Some Gateway
    | VmEvmEmulator \<Rightarrow> Some EvmEmulator
    | VmEcPrecompiles \<Rightarrow> Some EcPrecompiles
    | VmInterop \<Rightarrow> Some Interop
    | VmMediumInterop \<Rightarrow> Some MediumInterop
    | _ \<Rightarrow> None)"

datatype fast_vm_version = FastIncreasedBootloaderMemory | FastGateway | FastInterop | FastMediumInterop

definition fast_vm_version_try_from :: "vm_version \<Rightarrow> fast_vm_version option" where
  "fast_vm_version_try_from v = (case v of
      Vm1_5_0IncreasedBootloaderMemory \<Rightarrow> Some FastIncreasedBootloaderMemory
    | VmGateway \<Rightarrow> Some FastGateway
    | VmEvmEmulator \<Rightarrow> Some FastGateway
    | VmEcPrecompiles \<Rightarrow> Some FastGateway
    | VmInterop \<Rightarrow> Some FastInterop
    | VmMediumInterop \<Rightarrow> Some FastMediumInterop
    | _ \<Rightarrow> None)"

fun subversion_of_fast :: "fast_vm_version \<Rightarrow> multi_vm_subversion" where
  "subversion_of_fast FastIncreasedBootloaderMemory = IncreasedBootloaderMemory"
| "subversion_of_fast FastGateway = Gateway"
| "subversion_of_fast FastInterop = Interop"
| "subversion_of_fast FastMediumInterop = MediumInterop"

definition is_supported_by_fast_vm :: "protocol_version \<Rightarrow> bool" where
  "is_supported_by_fast_vm v \<longleftrightarrow> fast_vm_version_try_from (vm_version_from v) \<noteq> None"

section \<open>Version-dependent sizes\<close>

definition num_blobs_required :: "protocol_version \<Rightarrow> nat" where
  "num_blobs_required v = (if is_pre_1_4_1 v then 0 else if is_pre_1_5_0 v then 2 else 16)"

definition num_blobs_created :: "protocol_version \<Rightarrow> nat" where
  "num_blobs_created v = (if is_pre_1_4_2 v then 0 else if is_pre_1_5_0 v then 2 else 6)"

definition l2_to_l1_logs_tree_size :: "protocol_version \<Rightarrow> nat" where
  "l2_to_l1_logs_tree_size v =
     (if is_pre_boojum v then 512
      else if is_1_4_0 v \<or> is_1_4_1 v then 2048
      else if is_pre_1_5_0 v then 4096
      else 16384)"

section \<open>Lemmas\<close>

lemma is_supported_by_fast_vm_iff: "is_supported_by_fast_vm v \<longleftrightarrow> Version24 \<le> v"
  by (cases v) (simp_all add: is_supported_by_fast_vm_def fast_vm_version_try_from_def version_order)

lemma latest_supported: "is_supported_by_fast_vm latest"
  by (simp add: is_supported_by_fast_vm_iff latest_def version_order)

lemma subversion_supported_iff: "multi_vm_subversion_try_from (vm_version_from v) \<noteq> None \<longleftrightarrow> Version23 \<le> v"
  by (cases v) (simp_all add: multi_vm_subversion_try_from_def version_order)

lemma version_blob_bound: "num_blobs_created v \<le> num_blobs_required v"
  by (cases v) (simp_all add: num_blobs_created_def num_blobs_required_def is_pre_1_4_1_def is_pre_1_4_2_def
      is_pre_1_5_0_def version_order)

lemma logs_tree_size_power: "\<exists>n. l2_to_l1_logs_tree_size v = 2 ^ n"
proof -
  have "512 = (2::nat) ^ 9" "2048 = (2::nat) ^ 11" "4096 = (2::nat) ^ 12" "16384 = (2::nat) ^ 14" by simp_all
  then show ?thesis unfolding l2_to_l1_logs_tree_size_def by metis
qed

text \<open>A packed version: the patch in the low 32 bits, the minor version in the 16 bits above.\<close>

lemma packed_fields:
  fixes n :: nat and p :: u32
  assumes "n < 2 ^ 16"
  defines "w \<equiv> push_bit 32 (word_of_nat n) OR ucast p :: u256"
  shows "drop_bit 32 w AND word_of_nat 0xFFFF = word_of_nat n" and "(ucast (ucast w :: u64) :: u32) = p"
proof -
  have hi: "\<not> bit (word_of_nat n :: u256) i" if "16 \<le> i" for i
  proof -
    have "n < 2 ^ i" using assms(1) that by (meson less_le_trans one_le_numeral power_increasing)
    then have "\<not> bit n i" by (simp add: bit_iff_odd)
    moreover have "unat (word_of_nat n :: u256) = n"
      using assms(1) by (simp add: unsigned_of_nat take_bit_nat_eq_self)
    ultimately show ?thesis by (metis bit_unsigned_iff possible_bit_nat)
  qed
  have lo: "\<not> bit p i" if "32 \<le> i" for i using that bit_imp_le_length [of p i] by auto
  have "word_of_nat 0xFFFF = (mask 16 :: u256)" by (simp add: mask_eq_exp_minus_1)
  moreover have "drop_bit 32 w AND mask 16 = word_of_nat n"
  proof (rule bit_word_eqI)
    fix i assume "i < LENGTH(256)"
    then show "bit (drop_bit 32 w AND mask 16) i = bit (word_of_nat n :: u256) i"
      using hi [of i] lo [of "32 + i"]
      by (cases "i < 16") (simp_all add: w_def bit_and_iff bit_drop_bit_eq bit_or_iff bit_push_bit_iff bit_ucast_iff bit_mask_iff)
  qed
  ultimately show "drop_bit 32 w AND word_of_nat 0xFFFF = word_of_nat n" by simp
  show "(ucast (ucast w :: u64) :: u32) = p"
    by (rule bit_word_eqI) (auto simp: w_def bit_ucast_iff bit_or_iff bit_push_bit_iff)
qed

section \<open>Properties\<close>

text \<open>
  Packing a semantic version and reading it back gives the version, and a packed minor version is read
  back whatever patch number it was packed with.
\<close>

theorem semver_pack_roundtrip:
  "try_from_packed (pack v) = Some v \<and>
   try_from_packed_semver (into_packed_semver_with_patch (minor v) p) = Some (minor v)"
proof -
  have n: "as_u16 (minor v) < 2 ^ 16" using as_u16_less [of "minor v"] by simp
  have u: "unat (word_of_nat (as_u16 (minor v)) :: u256) = as_u16 (minor v)"
    using n by (simp add: unsigned_of_nat take_bit_nat_eq_self)
  then have "version_try_from_u256 (word_of_nat (as_u16 (minor v))) = Some (minor v)"
    using n by (simp add: version_try_from_u256_def)
  then show ?thesis
    using packed_fields [OF n, of "patch v"] packed_fields [OF n, of "word_of_nat p"]
    by (simp add: try_from_packed_def try_from_packed_semver_def pack_def into_packed_semver_with_patch_def
        PACKED_SEMVER_MINOR_OFFSET_def PACKED_SEMVER_MINOR_MASK_def)
qed

end
