(* ===== verification/Mini_Merkle.thy ===== *)
theory Mini_Merkle
  imports Hasher
begin

text \<open>
  The in-memory Merkle tree of L2-to-L1 logs: \<open>src/crates/mini_merkle_tree/src/lib.rs\<close>, for the Keccak hasher.
  The tree keeps the untrimmed leaf hashes and, for the trimmed ones, a cache of left siblings.

  The specification is the complete binary tree over all leaves ever pushed, padded with the empty
  leaf. The representation invariant relates the two; it is kept by every operation, trimming does
  not change the root, and the paths returned are the paths of the complete tree.
\<close>

section \<open>Definitions\<close>

definition MAX_TREE_DEPTH :: nat where "MAX_TREE_DEPTH = 32"

record mini_merkle_tree =
  mm_hashes :: "h256 list"
  binary_tree_size :: nat
  start_index :: nat
  mm_cache :: "h256 option list"
  mm_empty_leaf_hash :: "h256 option"

datatype side = LeftSide | RightSide

definition tree_depth_by_size :: "nat \<Rightarrow> nat" where
  "tree_depth_by_size tree_size = trailing_zeros tree_size"

text \<open>\<open>HashEmptySubtree::empty_leaf_hash\<close> of the Keccak hasher for leaves of \<open>leaf_size\<close> bytes.\<close>

definition keccak_empty_leaf_hash :: "hash_fn \<Rightarrow> nat \<Rightarrow> h256" where
  "keccak_empty_leaf_hash keccak leaf_size = keccak (replicate leaf_size 0)"

definition mm_compute_empty_tree_hashes :: "hash_fn \<Rightarrow> h256 \<Rightarrow> h256 list" where
  "mm_compute_empty_tree_hashes keccak empty_leaf_hash =
     successors_take (MAX_TREE_DEPTH + 1) (\<lambda>h. compress keccak h h) empty_leaf_hash"

definition mm_empty_subtree_hash :: "hash_fn \<Rightarrow> nat \<Rightarrow> nat \<Rightarrow> h256" where
  "mm_empty_subtree_hash keccak leaf_size depth =
     mm_compute_empty_tree_hashes keccak (keccak_empty_leaf_hash keccak leaf_size) ! depth"

definition mm_from_hashes :: "h256 list \<Rightarrow> nat option \<Rightarrow> mini_merkle_tree res" where
  "mm_from_hashes hashes min_tree_size =
     (let size = next_power_of_two (length hashes)
      in and_then
        (case min_tree_size of
           None \<Rightarrow> Inr size
         | Some m \<Rightarrow> ensure (is_power_of_two m) (Panic NotPowerOfTwo) (Inr (max m size)))
        (\<lambda>size. let depth = tree_depth_by_size size
           in ensure (depth \<le> MAX_TREE_DEPTH) (Panic TreeTooDeep)
             (Inr \<lparr>mm_hashes = hashes, binary_tree_size = size, start_index = 0,
                   mm_cache = replicate depth None, mm_empty_leaf_hash = None\<rparr>)))"

definition mm_new :: "hash_fn \<Rightarrow> u8 list list \<Rightarrow> nat option \<Rightarrow> mini_merkle_tree res" where
  "mm_new keccak leaves min_tree_size = mm_from_hashes (map keccak leaves) min_tree_size"

definition mm_new_with_empty_leaf_hash ::
  "hash_fn \<Rightarrow> u8 list list \<Rightarrow> nat option \<Rightarrow> h256 \<Rightarrow> mini_merkle_tree res" where
  "mm_new_with_empty_leaf_hash keccak leaves min_tree_size e =
     and_then (mm_new keccak leaves min_tree_size) (\<lambda>t. Inr (t\<lparr>mm_empty_leaf_hash := Some e\<rparr>))"

definition mm_is_empty :: "mini_merkle_tree \<Rightarrow> bool" where
  "mm_is_empty t \<longleftrightarrow> start_index t = 0 \<and> mm_hashes t = []"

definition mm_length :: "mini_merkle_tree \<Rightarrow> nat" where
  "mm_length t = start_index t + length (mm_hashes t)"

text \<open>Hashing a level pairwise; the in-place loop reads positions \<open>2 * i\<close> and \<open>2 * i + 1\<close> before writing \<open>i\<close>.\<close>

fun hash_pairs :: "hash_fn \<Rightarrow> h256 list \<Rightarrow> h256 list" where
  "hash_pairs keccak (l # r # rest) = compress keccak l r # hash_pairs keccak rest"
| "hash_pairs keccak _ = []"

definition get :: "'a list \<Rightarrow> nat \<Rightarrow> 'a option" where
  "get xs i = (if i < length xs then Some (xs ! i) else None)"

definition path_element :: "side option \<Rightarrow> nat \<Rightarrow> h256 list \<Rightarrow> h256 option" where
  "path_element side index hashes =
     (if side = Some LeftSide \<and> even index then None
      else if side = Some RightSide \<and> odd index then None
      else get hashes (if even index then index + 1 else index - 1))"

text \<open>The loop over the levels \<open>level\<close>, \<dots>, \<open>level + n - 1\<close>. \<open>tbl\<close> is the table of empty-subtree hashes.\<close>

fun compute_levels ::
  "hash_fn \<Rightarrow> h256 list \<Rightarrow> h256 option list \<Rightarrow> side option \<Rightarrow> nat \<Rightarrow> nat \<Rightarrow> h256 list \<Rightarrow> nat \<Rightarrow> nat \<Rightarrow>
   (h256 list \<times> h256 option list) res" where
  "compute_levels keccak tbl cache side 0 level hashes index start = Inr (hashes, [])"
| "compute_levels keccak tbl cache side (Suc n) level hashes index start =
     and_then
       (if even start then Inr (hashes, index)
        else and_then (ok_or (Panic CacheInvalid) (Option.bind (get cache level) (\<lambda>c. c)))
          (\<lambda>c. Inr (c # hashes, index + 1)))
       (\<lambda>(hashes, index).
         and_then
           (if even (length hashes) then Inr hashes
            else and_then (ok_or (Panic IndexOutOfBounds) (get tbl level)) (\<lambda>e. Inr (hashes @ [e])))
           (\<lambda>hashes.
             and_then (compute_levels keccak tbl cache side n (Suc level)
                 (hash_pairs keccak hashes) (index div 2) (start div 2))
               (\<lambda>(root, path). Inr (root, path_element side index hashes # path))))"

definition compute_merkle_root_and_path ::
  "hash_fn \<Rightarrow> nat \<Rightarrow> mini_merkle_tree \<Rightarrow> nat \<Rightarrow> side option \<Rightarrow> (h256 \<times> h256 option list) res" where
  "compute_merkle_root_and_path keccak leaf_size t index side =
     (let tbl = mm_compute_empty_tree_hashes keccak
            (case mm_empty_leaf_hash t of Some e \<Rightarrow> e | None \<Rightarrow> keccak_empty_leaf_hash keccak leaf_size)
      in and_then
        (compute_levels keccak tbl (mm_cache t) side (tree_depth_by_size (binary_tree_size t)) 0
           (mm_hashes t) index (start_index t))
        (\<lambda>(hashes, path). and_then (ok_or (Panic IndexOutOfBounds) (get hashes 0)) (\<lambda>root. Inr (root, path))))"

definition merkle_root :: "hash_fn \<Rightarrow> nat \<Rightarrow> mini_merkle_tree \<Rightarrow> h256 res" where
  "merkle_root keccak leaf_size t =
     (let depth = tree_depth_by_size (binary_tree_size t)
      in if mm_hashes t = [] \<and> start_index t = 0 then Inr (mm_empty_subtree_hash keccak leaf_size depth)
         else if mm_hashes t = [] \<and> start_index t = binary_tree_size t
         then ok_or (Panic CacheInvalid) (Option.bind (get (mm_cache t) depth) (\<lambda>c. c))
         else and_then (compute_merkle_root_and_path keccak leaf_size t 0 None) (\<lambda>(root, _). Inr root))"

definition merkle_root_and_path :: "hash_fn \<Rightarrow> nat \<Rightarrow> mini_merkle_tree \<Rightarrow> nat \<Rightarrow> (h256 \<times> h256 list) res" where
  "merkle_root_and_path keccak leaf_size t index =
     ensure (index < length (mm_hashes t)) (Panic IndexOutOfBounds)
       (and_then (compute_merkle_root_and_path keccak leaf_size t index None) (\<lambda>(root, end_path).
         and_then (collect_res (map (ok_or (Panic IndexOutOfBounds)) end_path)) (\<lambda>path. Inr (root, path))))"

definition merkle_root_and_path_by_absolute_index ::
  "hash_fn \<Rightarrow> nat \<Rightarrow> mini_merkle_tree \<Rightarrow> nat \<Rightarrow> (h256 \<times> h256 list) res" where
  "merkle_root_and_path_by_absolute_index keccak leaf_size t index =
     ensure (start_index t \<le> index) (Panic IndexOutOfBounds)
       (merkle_root_and_path keccak leaf_size t (index - start_index t))"

definition merkle_root_and_paths_for_range ::
  "hash_fn \<Rightarrow> nat \<Rightarrow> mini_merkle_tree \<Rightarrow> nat \<Rightarrow> (h256 \<times> h256 option list \<times> h256 option list) res" where
  "merkle_root_and_paths_for_range keccak leaf_size t range_end =
     ensure (0 < range_end) (Panic IndexOutOfBounds)
     (ensure (range_end \<le> length (mm_hashes t)) (Panic IndexOutOfBounds)
       (and_then (compute_merkle_root_and_path keccak leaf_size t (range_end - 1) (Some RightSide))
         (\<lambda>(root, right_path). Inr (root, mm_cache t, right_path))))"

definition push_hash :: "h256 \<Rightarrow> mini_merkle_tree \<Rightarrow> mini_merkle_tree" where
  "push_hash leaf_hash t =
     (let t = t\<lparr>mm_hashes := mm_hashes t @ [leaf_hash]\<rparr>
      in if binary_tree_size t < start_index t + length (mm_hashes t) then
           let t = t\<lparr>binary_tree_size := binary_tree_size t * 2\<rparr>
           in if length (mm_cache t) < tree_depth_by_size (binary_tree_size t)
              then t\<lparr>mm_cache := mm_cache t @ [None]\<rparr> else t
         else t)"

definition mm_push :: "hash_fn \<Rightarrow> u8 list \<Rightarrow> mini_merkle_tree \<Rightarrow> mini_merkle_tree" where
  "mm_push keccak leaf t = push_hash (keccak leaf) t"

definition hashes_prefix :: "nat \<Rightarrow> mini_merkle_tree \<Rightarrow> h256 list" where
  "hashes_prefix n t = take n (mm_hashes t)"

definition trim_start :: "hash_fn \<Rightarrow> nat \<Rightarrow> nat \<Rightarrow> mini_merkle_tree \<Rightarrow> mini_merkle_tree res" where
  "trim_start keccak leaf_size count t =
     ensure (count \<le> length (mm_hashes t)) (Panic IndexOutOfBounds)
       (and_then (compute_merkle_root_and_path keccak leaf_size t count (Some LeftSide)) (\<lambda>(root, new_cache).
          let t = t\<lparr>mm_hashes := drop count (mm_hashes t), start_index := start_index t + count\<rparr>
          in Inr (t\<lparr>mm_cache :=
               (if start_index t = binary_tree_size t then new_cache @ [Some root] else new_cache)\<rparr>)))"

section \<open>Specification\<close>

text \<open>Hash of the node at height \<open>d\<close> and position \<open>p\<close> of the tree over the leaves \<open>ls\<close> padded with \<open>e\<close>.\<close>

fun node :: "hash_fn \<Rightarrow> h256 \<Rightarrow> h256 list \<Rightarrow> nat \<Rightarrow> nat \<Rightarrow> h256" where
  "node keccak e ls 0 p = (if p < length ls then ls ! p else e)"
| "node keccak e ls (Suc d) p =
     compress keccak (node keccak e ls d (2 * p)) (node keccak e ls d (2 * p + 1))"

definition sibling :: "nat \<Rightarrow> nat" where
  "sibling q = (if even q then q + 1 else q - 1)"

text \<open>
  The tree \<open>t\<close> stands for the leaf hashes \<open>ls\<close>: the untrimmed ones are stored, the size is a power
  of two that holds them, and the cache has the left siblings of the path to the first untrimmed leaf.
\<close>

definition represents :: "hash_fn \<Rightarrow> h256 \<Rightarrow> mini_merkle_tree \<Rightarrow> h256 list \<Rightarrow> bool" where
  "represents keccak e t ls \<longleftrightarrow>
     (\<exists>depth \<le> MAX_TREE_DEPTH. binary_tree_size t = 2 ^ depth \<and>
        length (mm_cache t) = depth + (if start_index t = 2 ^ depth then 1 else 0)) \<and>
     start_index t \<le> length ls \<and> mm_hashes t = drop (start_index t) ls \<and>
     length ls \<le> binary_tree_size t \<and>
     (\<forall>l. bit (start_index t) l \<longrightarrow> l < length (mm_cache t) \<and>
        mm_cache t ! l = Some (node keccak e ls l (start_index t div 2 ^ l - 1)))"

section \<open>The levels of the tree\<close>

text \<open>Number of nodes at height \<open>l\<close> that cover a leaf.\<close>

definition level_end :: "nat \<Rightarrow> nat \<Rightarrow> nat" where
  "level_end n l = (n + 2 ^ l - 1) div 2 ^ l"

lemma level_end_0 [simp]: "level_end n 0 = n"
  by (simp add: level_end_def)

lemma level_end_Suc: "level_end n (Suc l) = (level_end n l + 1) div 2"
proof -
  have pos: "0 < (2::nat) ^ l" by simp
  then have "n + 2 ^ Suc l - 1 = (n + 2 ^ l - 1) + 2 ^ l" by simp
  then have "level_end n (Suc l) = ((n + 2 ^ l - 1) + 2 ^ l) div (2 ^ l * 2)"
    by (simp add: level_end_def mult.commute)
  also have "\<dots> = ((n + 2 ^ l - 1) + 2 ^ l) div 2 ^ l div 2" by (rule div_mult2_eq)
  also have "((n + 2 ^ l - 1) + 2 ^ l) div 2 ^ l = level_end n l + 1"
    unfolding level_end_def by (rule div_add_self2) simp
  finally show ?thesis .
qed

lemma level_end_covers: "n \<le> level_end n l * 2 ^ l"
proof -
  have "n + 2 ^ l - 1 < (level_end n l + 1) * 2 ^ l"
    using dividend_less_div_times [of "2 ^ l" "n + 2 ^ l - 1"] by (simp add: level_end_def)
  moreover have "0 < (2::nat) ^ l" by simp
  ultimately show ?thesis by simp
qed

lemma level_end_top: "n \<le> 2 ^ d \<Longrightarrow> level_end n d = (if n = 0 then 0 else 1)"
  by (auto simp: level_end_def intro!: div_nat_eqI)

lemma div_level_end: "s \<le> n \<Longrightarrow> s div 2 ^ l \<le> level_end n l"
  unfolding level_end_def using one_le_power [of "2::nat" l] by (intro div_le_mono) linarith

text \<open>A node that covers no leaf is an empty subtree.\<close>

lemma node_beyond:
  "length ls \<le> p * 2 ^ d \<Longrightarrow> node keccak e ls d p = ((\<lambda>h. compress keccak h h) ^^ d) e"
proof (induction d arbitrary: p)
  case 0
  then show ?case by simp
next
  case (Suc d)
  then have "length ls \<le> 2 * p * 2 ^ d" by (simp add: mult.assoc mult.left_commute)
  moreover from this have "length ls \<le> (2 * p + 1) * 2 ^ d" by simp
  ultimately show ?case using Suc.IH by simp
qed

lemma node_level_end:
  "node keccak e ls l (level_end (length ls) l) = ((\<lambda>h. compress keccak h h) ^^ l) e"
  by (rule node_beyond) (rule level_end_covers)

lemma mm_empty_table:
  "l \<le> MAX_TREE_DEPTH \<Longrightarrow> get (mm_compute_empty_tree_hashes keccak e) l = Some (((\<lambda>h. compress keccak h h) ^^ l) e)"
  unfolding mm_compute_empty_tree_hashes_def get_def length_successors_take
  by (simp only: nth_successors_take less_Suc_eq_le Suc_eq_plus1 [symmetric] if_True)

text \<open>A run of nodes, and the effect of hashing it pairwise.\<close>

definition nodes :: "hash_fn \<Rightarrow> h256 \<Rightarrow> h256 list \<Rightarrow> nat \<Rightarrow> nat \<Rightarrow> nat \<Rightarrow> h256 list" where
  "nodes keccak e ls l a b = map (node keccak e ls l) [a..<b]"

lemma length_nodes [simp]: "length (nodes keccak e ls l a b) = b - a"
  by (simp add: nodes_def)

lemma nodes_Cons: "a < b \<Longrightarrow> nodes keccak e ls l a b = node keccak e ls l a # nodes keccak e ls l (Suc a) b"
  by (simp add: nodes_def upt_conv_Cons)

lemma nodes_snoc: "a \<le> b \<Longrightarrow> nodes keccak e ls l a (Suc b) = nodes keccak e ls l a b @ [node keccak e ls l b]"
  by (simp add: nodes_def)

lemma nodes_nth: "i < b - a \<Longrightarrow> nodes keccak e ls l a b ! i = node keccak e ls l (a + i)"
  by (simp add: nodes_def)

lemma hash_pairs_nodes: "hash_pairs keccak (nodes keccak e ls l (2 * a) (2 * b)) = nodes keccak e ls (Suc l) a b"
proof (induction "b - a" arbitrary: a)
  case 0
  then show ?case by (simp add: nodes_def)
next
  case (Suc n)
  then have "a < b" and n: "n = b - Suc a" by simp_all
  then have "nodes keccak e ls l (2 * a) (2 * b) =
      node keccak e ls l (2 * a) # node keccak e ls l (2 * a + 1) # nodes keccak e ls l (2 * Suc a) (2 * b)"
    by (simp add: nodes_Cons)
  then show ?case using Suc.hyps(1) [OF n] \<open>a < b\<close> by (simp add: nodes_Cons)
qed

section \<open>Correctness of the level loop\<close>

text \<open>
  Loop invariant: at height \<open>l\<close> the buffer holds the nodes from the first one above the untrimmed
  leaves up to the last one that covers a leaf, and the index is relative to the first.
\<close>

definition spec_path :: "hash_fn \<Rightarrow> h256 \<Rightarrow> h256 list \<Rightarrow> side option \<Rightarrow> nat \<Rightarrow> nat \<Rightarrow> h256 option" where
  "spec_path keccak e ls side i l =
     (let q = i div 2 ^ l
      in if side = Some LeftSide \<and> even q then None
         else if side = Some RightSide \<and> odd q then None
         else Some (node keccak e ls l (sibling q)))"

definition cache_ok :: "hash_fn \<Rightarrow> h256 \<Rightarrow> h256 list \<Rightarrow> h256 option list \<Rightarrow> nat \<Rightarrow> bool" where
  "cache_ok keccak e ls cache s \<longleftrightarrow>
     (\<forall>l. bit s l \<longrightarrow> get cache l = Some (Some (node keccak e ls l (s div 2 ^ l - 1))))"

lemma div_Suc_exp: "(a::nat) div 2 ^ l div 2 = a div 2 ^ Suc l"
  by (simp add: div_mult2_eq [symmetric] mult.commute)

lemma path_element_nodes:
  assumes "a \<le> q" and "even a" and "even b" and "q < b \<or> side = Some LeftSide \<and> q \<le> b"
  shows "path_element side (q - a) (nodes keccak e ls l a b) =
     (if side = Some LeftSide \<and> even q then None
      else if side = Some RightSide \<and> odd q then None
      else Some (node keccak e ls l (sibling q)))"
proof -
  have ev: "even (q - a) = even q" using assms(1,2) by simp
  show ?thesis
  proof (cases "even q")
    case True
    then have "q < b \<Longrightarrow> q + 1 < b" using assms(3) by (metis Suc_eq_plus1 even_Suc linorder_neqE_nat not_less_eq)
    then show ?thesis using True assms ev
      by (auto simp: path_element_def get_def sibling_def nodes_nth)
  next
    case False
    then have "a < q" "q - 1 < b" "q - a - 1 < b - a" using assms by (auto simp: order_le_less)
    then show ?thesis using False assms ev
      by (auto simp: path_element_def get_def sibling_def nodes_nth)
  qed
qed

lemma compute_levels_correct:
  assumes cache: "cache_ok keccak e ls cache s" and sn: "s \<le> length ls"
    and si: "s \<le> i" and ilen: "i < length ls \<or> side = Some LeftSide \<and> i \<le> length ls"
    and top: "level + n \<le> MAX_TREE_DEPTH"
  shows "compute_levels keccak (mm_compute_empty_tree_hashes keccak e) cache side n level
      (nodes keccak e ls level (s div 2 ^ level) (level_end (length ls) level))
      (i div 2 ^ level - s div 2 ^ level) (s div 2 ^ level) =
    Inr (nodes keccak e ls (level + n) (s div 2 ^ (level + n)) (level_end (length ls) (level + n)),
         map (spec_path keccak e ls side i) [level..<level + n])"
  using top
proof (induction n arbitrary: level)
  case 0
  then show ?case by simp
next
  case (Suc n)
  define a where "a = s div 2 ^ level"
  define b where "b = level_end (length ls) level"
  define q where "q = i div 2 ^ level"
  define a' where "a' = s div 2 ^ Suc level"
  define b' where "b' = level_end (length ls) (Suc level)"
  have ab: "a \<le> b" unfolding a_def b_def by (rule div_level_end [OF sn])
  have aq: "a \<le> q" unfolding a_def q_def by (rule div_le_mono [OF si])
  have a': "a' = a div 2" unfolding a_def a'_def by (rule div_Suc_exp [symmetric])
  have b': "b' = (b + 1) div 2" unfolding b_def b'_def by (rule level_end_Suc)
  have odd: "bit s level = odd a" by (simp add: a_def bit_iff_odd)
  have front: "(if even a then Inr (nodes keccak e ls level a b, q - a)
      else and_then (ok_or (Panic CacheInvalid) (Option.bind (get cache level) (\<lambda>c. c)))
        (\<lambda>c. Inr (c # nodes keccak e ls level a b, q - a + 1))) =
      Inr (nodes keccak e ls level (2 * a') b, q - 2 * a')"
  proof (cases "even a")
    case True
    then show ?thesis by (simp add: a')
  next
    case False
    then have "get cache level = Some (Some (node keccak e ls level (a - 1)))"
      using cache odd by (simp add: cache_ok_def a_def)
    moreover have "2 * a' = a - 1" "a - 1 < b" "Suc (a - 1) = a"
      using False ab odd_pos [OF False] by (simp_all add: a' odd_two_times_div_two_nat)
    moreover have "q - a + 1 = q - (a - 1)" using aq odd_pos [OF False] by simp
    ultimately show ?thesis using False aq by (simp add: nodes_Cons odd_pos)
  qed
  have l: "2 * a' \<le> b" using ab by (simp add: a')
  have pad: "(if even (length (nodes keccak e ls level (2 * a') b)) then Inr (nodes keccak e ls level (2 * a') b)
      else and_then (ok_or (Panic IndexOutOfBounds) (get (mm_compute_empty_tree_hashes keccak e) level))
        (\<lambda>em. Inr (nodes keccak e ls level (2 * a') b @ [em]))) =
      (Inr (nodes keccak e ls level (2 * a') (2 * b')) :: h256 list res)"
  proof (cases "even b")
    case True
    then have "2 * b' = b" unfolding b' by simp
    then show ?thesis using True l by simp
  next
    case False
    then have "2 * b' = Suc b" unfolding b' by simp
    then show ?thesis
      using False l Suc.prems by (simp add: mm_empty_table nodes_snoc b_def node_level_end)
  qed
  have "q < b \<or> side = Some LeftSide \<and> q \<le> b"
    using ilen level_end_covers [of "length ls" level] div_level_end [of i "length ls" level]
    by (auto simp: div_less_iff_less_mult q_def b_def)
  moreover have "b \<le> 2 * b'" unfolding b' by simp
  ultimately have "q < 2 * b' \<or> side = Some LeftSide \<and> q \<le> 2 * b'" by auto
  moreover have "2 * a' \<le> q" using aq by (simp add: a')
  ultimately have elem: "path_element side (q - 2 * a') (nodes keccak e ls level (2 * a') (2 * b')) =
      spec_path keccak e ls side i level"
    by (simp add: path_element_nodes spec_path_def Let_def q_def)
  have idx: "(q - 2 * a') div 2 = i div 2 ^ Suc level - a'"
    unfolding div_Suc_exp [symmetric] q_def [symmetric] using aq a' by presburger
  show ?case
    unfolding compute_levels.simps a_def [symmetric] b_def [symmetric] q_def [symmetric] front and_then_simps
      prod.case pad elem hash_pairs_nodes idx a' [symmetric]
    using Suc.IH [of "Suc level"] Suc.prems unfolding a'_def [symmetric] b'_def [symmetric]
    by (simp add: upt_conv_Cons del: upt_Suc)
qed

lemma compute_levels_fst:
  "and_then (compute_levels keccak tbl cache side n level hs i s) (\<lambda>(h, _). Inr h) =
   and_then (compute_levels keccak tbl cache side' n level hs j s) (\<lambda>(h, _). Inr h :: h256 list res)"
proof (induction n arbitrary: level hs i j s)
  case 0
  then show ?case by simp
next
  case (Suc n)
  have IH: "and_then (compute_levels keccak tbl cache side n (Suc level) hs i s) (\<lambda>(h, p). Inr h) =
   and_then (compute_levels keccak tbl cache side' n (Suc level) hs j s) (\<lambda>(h, p). Inr h :: h256 list res)" for hs i j s
    by (rule Suc.IH)
  show ?case
    by (cases "even s"; cases "Option.bind (get cache level) (\<lambda>c. c)"; cases "get tbl level"; cases "even (length hs)")
      (auto simp: and_then_assoc split_beta split: option.splits
        intro: IH [unfolded split_beta])
qed

section \<open>Representation\<close>

abbreviation tree_empty_leaf :: "hash_fn \<Rightarrow> nat \<Rightarrow> mini_merkle_tree \<Rightarrow> h256" where
  "tree_empty_leaf keccak leaf_size t \<equiv>
     (case mm_empty_leaf_hash t of Some e \<Rightarrow> e | None \<Rightarrow> keccak_empty_leaf_hash keccak leaf_size)"

abbreviation mm_depth :: "mini_merkle_tree \<Rightarrow> nat" where
  "mm_depth t \<equiv> tree_depth_by_size (binary_tree_size t)"

lemma representsD:
  assumes "represents keccak e t ls"
  shows "binary_tree_size t = 2 ^ mm_depth t" "mm_depth t \<le> MAX_TREE_DEPTH"
    "length (mm_cache t) = mm_depth t + (if start_index t = 2 ^ mm_depth t then 1 else 0)"
    "start_index t \<le> length ls" "mm_hashes t = drop (start_index t) ls" "length ls \<le> 2 ^ mm_depth t"
    "cache_ok keccak e ls (mm_cache t) (start_index t)"
  using assms by (auto simp: represents_def tree_depth_by_size_def cache_ok_def get_def)

lemma representsI:
  assumes "binary_tree_size t = 2 ^ d" "d \<le> MAX_TREE_DEPTH"
    "length (mm_cache t) = d + (if start_index t = 2 ^ d then 1 else 0)"
    "start_index t \<le> length ls" "mm_hashes t = drop (start_index t) ls" "length ls \<le> 2 ^ d"
    "cache_ok keccak e ls (mm_cache t) (start_index t)"
  shows "represents keccak e t ls"
  using assms by (auto simp: represents_def cache_ok_def get_def split: if_splits)

lemma nodes_leaves: "nodes keccak e ls 0 s (length ls) = drop s ls"
  by (auto simp: nodes_def intro!: nth_equalityI)

lemma compute_root_and_path:
  assumes "represents keccak (tree_empty_leaf keccak leaf_size t) t ls"
    and "ls \<noteq> []" and "start_index t < binary_tree_size t"
    and "index < length (mm_hashes t) \<or> side = Some LeftSide \<and> index \<le> length (mm_hashes t)"
  shows "compute_merkle_root_and_path keccak leaf_size t index side =
    Inr (node keccak (tree_empty_leaf keccak leaf_size t) ls (mm_depth t) 0,
         map (spec_path keccak (tree_empty_leaf keccak leaf_size t) ls side (start_index t + index)) [0..<mm_depth t])"
proof -
  let ?e = "tree_empty_leaf keccak leaf_size t"
  note r = representsD [OF assms(1)]
  have "start_index t + index < length ls \<or> side = Some LeftSide \<and> start_index t + index \<le> length ls"
    using assms(4) r by auto
  from compute_levels_correct [OF r(7,4) _ this, where level = 0 and n = "mm_depth t"] r(2,5)
  have "compute_levels keccak (mm_compute_empty_tree_hashes keccak ?e) (mm_cache t) side (mm_depth t) 0
      (mm_hashes t) index (start_index t) =
    Inr (nodes keccak ?e ls (mm_depth t) (start_index t div 2 ^ mm_depth t) (level_end (length ls) (mm_depth t)),
         map (spec_path keccak ?e ls side (start_index t + index)) [0..<mm_depth t])"
    by (simp add: nodes_leaves)
  moreover have "start_index t div 2 ^ mm_depth t = 0" using assms(3) r(1) by simp
  ultimately show ?thesis
    using assms(2) r(6) by (simp add: compute_merkle_root_and_path_def level_end_top nodes_def get_def)
qed

lemma compute_root:
  assumes "represents keccak (tree_empty_leaf keccak leaf_size t) t ls"
    and "ls \<noteq> []" and "start_index t < binary_tree_size t"
  shows "and_then (compute_merkle_root_and_path keccak leaf_size t index side) (\<lambda>(root, _). Inr root) =
    Inr (node keccak (tree_empty_leaf keccak leaf_size t) ls (mm_depth t) 0)"
proof -
  let ?tbl = "mm_compute_empty_tree_hashes keccak (tree_empty_leaf keccak leaf_size t)"
  have "and_then (compute_merkle_root_and_path keccak leaf_size t i sd) (\<lambda>(root, _). Inr root) =
      and_then (and_then (compute_levels keccak ?tbl (mm_cache t) sd (mm_depth t) 0 (mm_hashes t) i (start_index t))
        (\<lambda>(h, _). Inr h)) (\<lambda>h. ok_or (Panic IndexOutOfBounds) (get h 0))" for i sd
    unfolding compute_merkle_root_and_path_def Let_def and_then_assoc
    by (cases "compute_levels keccak ?tbl (mm_cache t) sd (mm_depth t) 0 (mm_hashes t) i (start_index t)")
      (auto simp: ok_or_def split: option.split)
  then have "and_then (compute_merkle_root_and_path keccak leaf_size t index side) (\<lambda>(root, _). Inr root) =
      and_then (compute_merkle_root_and_path keccak leaf_size t 0 (Some LeftSide)) (\<lambda>(root, _). Inr root)"
    by (metis (no_types, lifting) compute_levels_fst)
  then show ?thesis using compute_root_and_path [OF assms, of 0 "Some LeftSide"] by simp
qed

lemma node_append:
  "(p + 1) * 2 ^ d \<le> length ls \<Longrightarrow> node keccak e (ls @ xs) d p = node keccak e ls d p"
proof (induction d arbitrary: p)
  case 0
  then show ?case by (simp add: nth_append)
next
  case (Suc d)
  then have "(2 * p + 1 + 1) * 2 ^ d \<le> length ls" by (simp add: algebra_simps)
  moreover from this have "(2 * p + 1) * 2 ^ d \<le> length ls" by simp
  ultimately show ?case using Suc.IH [of "2 * p"] Suc.IH [of "2 * p + 1"] by simp
qed

lemma cache_ok_append:
  assumes "cache_ok keccak e ls cache s" and "s \<le> length ls"
  shows "cache_ok keccak e (ls @ xs) cache s"
proof -
  have "node keccak e (ls @ xs) l (s div 2 ^ l - 1) = node keccak e ls l (s div 2 ^ l - 1)" if "bit s l" for l
  proof (rule node_append)
    have "0 < s div 2 ^ l" using that by (simp add: bit_iff_odd odd_pos)
    then have "(s div 2 ^ l - 1 + 1) * 2 ^ l \<le> s" by simp
    then show "(s div 2 ^ l - 1 + 1) * 2 ^ l \<le> length ls" using assms(2) by simp
  qed
  then show ?thesis using assms(1) by (simp add: cache_ok_def)
qed

section \<open>Operations\<close>

lemma from_hashes_represents:
  assumes "mm_from_hashes ls m = Inr t"
  shows "represents keccak e t ls" and "mm_empty_leaf_hash t = None"
    and "binary_tree_size t = max (case m of None \<Rightarrow> 1 | Some k \<Rightarrow> k) (next_power_of_two (length ls))"
proof -
  let ?s = "max (case m of None \<Rightarrow> 1 | Some k \<Rightarrow> k) (next_power_of_two (length ls))"
  have one: "1 \<le> next_power_of_two n" for n by (simp add: next_power_of_two_def)
  have "\<exists>d. ?s = 2 ^ d"
    using assms next_power_of_two_power [of "length ls"] one [of "length ls"]
    by (cases m) (auto simp: mm_from_hashes_def Let_def is_power_of_two_iff max_def)
  then obtain d where d: "?s = 2 ^ d" ..
  with assms one [of "length ls"] have t: "t = \<lparr>mm_hashes = ls, binary_tree_size = 2 ^ d, start_index = 0,
      mm_cache = replicate d None, mm_empty_leaf_hash = None\<rparr>" and "d \<le> MAX_TREE_DEPTH"
    by (cases m; auto simp: mm_from_hashes_def Let_def tree_depth_by_size_def max_absorb2)+
  moreover have "length ls \<le> 2 ^ d"
    using next_power_of_two_ge [of "length ls"] d by (metis max.cobounded2 order_trans)
  ultimately show "represents keccak e t ls" by (intro representsI [of t d]) (auto simp: cache_ok_def)
  show "mm_empty_leaf_hash t = None" "binary_tree_size t = ?s" using t d by simp_all
qed

lemma push_hash_empty_leaf [simp]: "mm_empty_leaf_hash (push_hash h t) = mm_empty_leaf_hash t"
  by (simp add: push_hash_def Let_def)

lemma push_hash_represents:
  assumes "represents keccak e t ls" and "length ls < 2 ^ MAX_TREE_DEPTH"
  shows "represents keccak e (push_hash h t) (ls @ [h])"
proof -
  note r = representsD [OF assms(1)]
  have start: "start_index (push_hash h t) = start_index t"
    by (simp add: push_hash_def Let_def)
  have hashes: "mm_hashes (push_hash h t) = drop (start_index t) (ls @ [h])"
    using r(4,5) by (simp add: push_hash_def Let_def)
  have len: "start_index t + length (mm_hashes t) = length ls" using r(4,5) by simp
  have ok: "cache_ok keccak e (ls @ [h]) (mm_cache t) (start_index t)" by (rule cache_ok_append [OF r(7,4)])
  have top: "start_index t < 2 ^ Suc (mm_depth t)" using r(4,6) by (simp add: le_less_trans)
  show ?thesis
  proof (cases "length ls = 2 ^ mm_depth t")
    case False
    then have p: "push_hash h t = t\<lparr>mm_hashes := mm_hashes t @ [h]\<rparr>"
      using r(1,6) len by (simp add: push_hash_def Let_def)
    show ?thesis
      by (rule representsI [of _ "mm_depth t"])
        (use p r ok hashes start False in \<open>simp_all add: p\<close>)
  next
    case True
    then have d: "Suc (mm_depth t) \<le> MAX_TREE_DEPTH"
      using assms(2) by (simp add: power_strict_increasing_iff Suc_le_eq)
    have size: "binary_tree_size (push_hash h t) = 2 ^ Suc (mm_depth t)"
      using True r(1) len by (simp add: push_hash_def Let_def)
    have "tree_depth_by_size (binary_tree_size t * 2) = Suc (mm_depth t)"
      by (subst r(1)) (metis mult.commute power_Suc trailing_zeros_power tree_depth_by_size_def)
    then have cache: "mm_cache (push_hash h t) =
        (if length (mm_cache t) < Suc (mm_depth t) then mm_cache t @ [None] else mm_cache t)"
      using True r(1) len by (simp add: push_hash_def Let_def)
    have "cache_ok keccak e (ls @ [h]) (mm_cache (push_hash h t)) (start_index t)"
      using ok unfolding cache by (auto simp: cache_ok_def get_def nth_append split: if_splits)
    then show ?thesis
      using r hashes size d top start cache True
      by (intro representsI [of _ "Suc (mm_depth t)"]) (auto split: if_splits)
  qed
qed

lemma trim_start_represents:
  assumes rep: "represents keccak (tree_empty_leaf keccak leaf_size t) t ls"
    and ls: "ls \<noteq> []" "start_index t < binary_tree_size t" and count: "count \<le> length (mm_hashes t)"
  shows "\<exists>t'. trim_start keccak leaf_size count t = Inr t' \<and> start_index t' = start_index t + count \<and>
     binary_tree_size t' = binary_tree_size t \<and> mm_empty_leaf_hash t' = mm_empty_leaf_hash t \<and>
     represents keccak (tree_empty_leaf keccak leaf_size t) t' ls"
proof -
  let ?e = "tree_empty_leaf keccak leaf_size t" and ?s = "start_index t + count" and ?d = "mm_depth t"
  note r = representsD [OF rep]
  let ?path = "map (spec_path keccak ?e ls (Some LeftSide) ?s) [0..<?d]"
  let ?cache = "if ?s = binary_tree_size t then ?path @ [Some (node keccak ?e ls ?d 0)] else ?path"
  let ?t' = "t\<lparr>mm_hashes := drop count (mm_hashes t), start_index := ?s, mm_cache := ?cache\<rparr>"
  have s: "?s \<le> length ls" using count r(4,5) by simp
  have trim: "trim_start keccak leaf_size count t = Inr ?t'"
    using compute_root_and_path [OF rep ls, of count "Some LeftSide"] count
    by (simp add: trim_start_def Let_def)
  have "get ?cache l = Some (Some (node keccak ?e ls l (?s div 2 ^ l - 1)))" if "bit ?s l" for l
  proof (cases "l < ?d")
    case True
    then have "spec_path keccak ?e ls (Some LeftSide) ?s l = Some (node keccak ?e ls l (?s div 2 ^ l - 1))"
      using that by (simp add: spec_path_def Let_def sibling_def bit_iff_odd)
    moreover have "get ?cache l = Some (?path ! l)" using True by (simp add: get_def nth_append)
    ultimately show ?thesis using True by simp
  next
    case False
    have "2 ^ l \<le> ?s" using that by (simp add: bit_iff_odd) (metis div_less even_zero not_less)
    moreover have "(2::nat) ^ ?d \<le> 2 ^ l" using False by (simp add: power_increasing)
    ultimately have "2 ^ l = (2::nat) ^ ?d" "?s = 2 ^ ?d" using s r(6) by linarith+
    moreover from this have "l = ?d" by simp
    moreover have "binary_tree_size t \<noteq> 0" by (subst r(1)) simp
    ultimately show ?thesis using r(1) by (simp add: get_def nth_append)
  qed
  then have "cache_ok keccak ?e ls ?cache ?s" by (simp add: cache_ok_def)
  then have "represents keccak ?e ?t' ls"
    using r s by (intro representsI [of ?t' ?d]) (auto simp: add.commute)
  with trim show ?thesis by (intro exI [of _ ?t']) simp
qed

lemma merkle_root_represents:
  assumes "represents keccak (tree_empty_leaf keccak leaf_size t) t ls"
    and "ls \<noteq> [] \<or> mm_empty_leaf_hash t = None"
  shows "merkle_root keccak leaf_size t = Inr (node keccak (tree_empty_leaf keccak leaf_size t) ls (mm_depth t) 0)"
proof -
  let ?e = "tree_empty_leaf keccak leaf_size t"
  note r = representsD [OF assms(1)]
  consider (nil) "ls = []" | (full) "ls \<noteq> []" "start_index t = binary_tree_size t"
    | (part) "ls \<noteq> []" "start_index t < binary_tree_size t"
    using r(1,4,6) by force
  then show ?thesis
  proof cases
    case nil
    have "mm_empty_subtree_hash keccak leaf_size (mm_depth t) =
        ((\<lambda>h. compress keccak h h) ^^ mm_depth t) (keccak_empty_leaf_hash keccak leaf_size)"
      using mm_empty_table [OF r(2), of keccak "keccak_empty_leaf_hash keccak leaf_size"]
      by (simp add: mm_empty_subtree_hash_def get_def split: if_splits)
    with nil assms(2) r(4,5) show ?thesis by (simp add: merkle_root_def Let_def node_beyond)
  next
    case full
    then have "mm_hashes t = []" "start_index t = 2 ^ mm_depth t" using r by simp_all
    moreover from this have "get (mm_cache t) (mm_depth t) = Some (Some (node keccak ?e ls (mm_depth t) 0))"
      using r(7) by (simp add: cache_ok_def bit_exp_iff)
    moreover have "binary_tree_size t \<noteq> 0" by (subst r(1)) simp
    ultimately show ?thesis using full by (simp add: merkle_root_def Let_def)
  next
    case part
    have "\<not> (mm_hashes t = [] \<and> start_index t = 0)" using part(1) r(5) by (cases ls) auto
    with part show ?thesis using compute_root [OF assms(1) part, of 0 None] by (auto simp: merkle_root_def Let_def)
  qed
qed

section \<open>The accumulator contract\<close>

text \<open>
  What a client of the tree relies on: there is an abstract list of leaves that pushes extend, successful
  trims leave alone, and that determines the root. The contract gives the root after any interleaving
  of pushes and trims.
\<close>

datatype acc_op = PushOp h256 | TrimOp nat

fun run_ops :: "(h256 \<Rightarrow> 't \<Rightarrow> 't) \<Rightarrow> (nat \<Rightarrow> 't \<Rightarrow> 't res) \<Rightarrow> acc_op list \<Rightarrow> 't \<Rightarrow> 't res" where
  "run_ops push trim [] t = Inr t"
| "run_ops push trim (PushOp h # ops) t = run_ops push trim ops (push h t)"
| "run_ops push trim (TrimOp n # ops) t = and_then (trim n t) (run_ops push trim ops)"

fun pushed :: "acc_op list \<Rightarrow> h256 list" where
  "pushed [] = []"
| "pushed (PushOp h # ops) = h # pushed ops"
| "pushed (TrimOp n # ops) = pushed ops"

locale leaf_accumulator =
  fixes rep :: "'t \<Rightarrow> h256 list \<Rightarrow> bool" and push :: "h256 \<Rightarrow> 't \<Rightarrow> 't" and trim :: "nat \<Rightarrow> 't \<Rightarrow> 't res"
    and root :: "'t \<Rightarrow> h256 res" and spec_root :: "h256 list \<Rightarrow> h256" and capacity :: nat
  assumes push_rep: "rep t ls \<Longrightarrow> length ls < capacity \<Longrightarrow> rep (push h t) (ls @ [h])"
    and trim_rep: "rep t ls \<Longrightarrow> trim n t = Inr t' \<Longrightarrow> rep t' ls"
    and root_rep: "rep t ls \<Longrightarrow> ls \<noteq> [] \<Longrightarrow> root t = Inr (spec_root ls)"
begin

lemma run_ops_rep:
  assumes "rep t ls" and "run_ops push trim ops t = Inr t'" and "length ls + length (pushed ops) \<le> capacity"
  shows "rep t' (ls @ pushed ops)"
  using assms
proof (induction ops arbitrary: t ls)
  case Nil
  then show ?case by simp
next
  case (Cons op ops)
  show ?case
  proof (cases op)
    case (PushOp h)
    with Cons.prems have "rep (push h t) (ls @ [h])" by (intro push_rep) simp_all
    from Cons.IH [OF this] Cons.prems PushOp show ?thesis by simp
  next
    case (TrimOp n)
    with Cons.prems obtain t1 where "trim n t = Inr t1" "run_ops push trim ops t1 = Inr t'" by auto
    with Cons.IH [of t1 ls] Cons.prems TrimOp trim_rep show ?thesis by auto
  qed
qed

lemma run_ops_root:
  assumes "rep t ls" and "run_ops push trim ops t = Inr t'" and "length ls + length (pushed ops) \<le> capacity"
    and "ls @ pushed ops \<noteq> []"
  shows "root t' = Inr (spec_root (ls @ pushed ops))"
  using root_rep [OF run_ops_rep [OF assms(1-3)] assms(4)] .

end

text \<open>A tree created with a minimal size \<open>m\<close>: the size is the larger of \<open>m\<close> and the next power of two.\<close>

definition mm_rep :: "hash_fn \<Rightarrow> nat \<Rightarrow> nat \<Rightarrow> mini_merkle_tree \<Rightarrow> h256 list \<Rightarrow> bool" where
  "mm_rep keccak leaf_size m t ls \<longleftrightarrow>
     is_power_of_two m \<and> mm_empty_leaf_hash t = None \<and>
     binary_tree_size t = max m (next_power_of_two (length ls)) \<and>
     represents keccak (keccak_empty_leaf_hash keccak leaf_size) t ls"

definition mm_spec_root :: "hash_fn \<Rightarrow> nat \<Rightarrow> nat \<Rightarrow> h256 list \<Rightarrow> h256" where
  "mm_spec_root keccak leaf_size m ls =
     node keccak (keccak_empty_leaf_hash keccak leaf_size) ls
       (tree_depth_by_size (max m (next_power_of_two (length ls)))) 0"

lemma next_power_of_two_Suc:
  assumes "n = 2 ^ d" shows "next_power_of_two (n + 1) = 2 ^ Suc d"
proof (cases "d = 0")
  case True
  then show ?thesis using assms by (simp add: next_power_of_two_def bit_len.simps)
next
  case False
  then have "2 ^ 1 \<le> (2::nat) ^ d" by (intro power_increasing) simp_all
  then show ?thesis using assms by (simp add: next_power_of_two_def)
qed

lemma next_power_of_two_le: "n \<le> 2 ^ k \<Longrightarrow> next_power_of_two n \<le> 2 ^ k"
proof (cases "n \<le> 1")
  case False
  moreover assume "n \<le> 2 ^ k"
  ultimately have "bit_len (n - 1) \<le> k" by (simp add: bit_len_le) 
  with False show ?thesis by (simp add: next_power_of_two_def power_increasing)
qed (simp add: next_power_of_two_def)

lemma push_hash_size:
  assumes "represents keccak e t ls" and "binary_tree_size t = max m (next_power_of_two (length ls))"
  shows "binary_tree_size (push_hash h t) = max m (next_power_of_two (length ls + 1))"
proof -
  note r = representsD [OF assms(1)]
  have len: "start_index t + length (mm_hashes t) = length ls" using r(4,5) by simp
  show ?thesis
  proof (cases "length ls = 2 ^ mm_depth t")
    case True
    then have "binary_tree_size (push_hash h t) = 2 ^ Suc (mm_depth t)"
      using r(1) len by (simp add: push_hash_def Let_def)
    moreover have "m \<le> 2 ^ Suc (mm_depth t)" using assms(2) r(1) by simp
    ultimately show ?thesis using next_power_of_two_Suc [OF True] by simp
  next
    case False
    then have "length ls + 1 \<le> 2 ^ mm_depth t" using r(6) by simp
    from next_power_of_two_le [OF this] have "next_power_of_two (length ls + 1) \<le> binary_tree_size t"
      using r(1) by simp
    moreover have "next_power_of_two (length ls) \<le> next_power_of_two (length ls + 1)"
      using next_power_of_two_power [of "length ls + 1"] next_power_of_two_ge [of "length ls + 1"]
      by (metis add_leE next_power_of_two_le)
    moreover have "binary_tree_size (push_hash h t) = binary_tree_size t"
      using False r(1,6) len by (simp add: push_hash_def Let_def)
    ultimately show ?thesis using assms(2) by simp
  qed
qed

lemma trim_start_ok_conditions:
  assumes "represents keccak (tree_empty_leaf keccak leaf_size t) t ls" and "trim_start keccak leaf_size n t = Inr t'"
  shows "ls \<noteq> [] \<and> start_index t < binary_tree_size t \<and> n \<le> length (mm_hashes t)"
proof -
  note r = representsD [OF assms(1)]
  have n: "n \<le> length (mm_hashes t)" using assms(2) by (simp add: trim_start_def)
  have "\<exists>p. compute_merkle_root_and_path keccak leaf_size t n (Some LeftSide) = Inr p"
    using assms(2) by (auto simp: trim_start_def)
  then obtain hs p where hs: "compute_levels keccak (mm_compute_empty_tree_hashes keccak (tree_empty_leaf keccak leaf_size t))
      (mm_cache t) (Some LeftSide) (mm_depth t) 0 (mm_hashes t) n (start_index t) = Inr (hs, p)" "hs \<noteq> []"
    by (auto simp: compute_merkle_root_and_path_def get_def split: if_splits)
  have "start_index t + n \<le> length ls" using n r(4,5) by simp
  with compute_levels_correct [OF r(7,4), of "start_index t + n" "Some LeftSide" 0 "mm_depth t"] hs r(2,5)
  have "hs = nodes keccak (tree_empty_leaf keccak leaf_size t) ls (mm_depth t)
      (start_index t div 2 ^ mm_depth t) (level_end (length ls) (mm_depth t))"
    by (simp add: nodes_leaves)
  with hs(2) have "start_index t div 2 ^ mm_depth t < level_end (length ls) (mm_depth t)"
    by (metis length_nodes length_greater_0_conv zero_less_diff)
  then have "ls \<noteq> []" "start_index t div 2 ^ mm_depth t = 0" using level_end_top [OF r(6)] by (auto split: if_splits)
  moreover from this(2) have "start_index t < 2 ^ mm_depth t" by (simp add: div_eq_0_iff)
  ultimately show ?thesis using n r(1) by metis
qed

interpretation mm: leaf_accumulator
  "mm_rep keccak leaf_size m" push_hash "trim_start keccak leaf_size" "merkle_root keccak leaf_size"
  "mm_spec_root keccak leaf_size m" "2 ^ MAX_TREE_DEPTH" for keccak leaf_size m
proof
  fix t ls h assume "mm_rep keccak leaf_size m t ls" "length ls < 2 ^ MAX_TREE_DEPTH"
  then show "mm_rep keccak leaf_size m (push_hash h t) (ls @ [h])"
    using push_hash_represents push_hash_size by (auto simp: mm_rep_def)
next
  fix t ls n t' assume rep: "mm_rep keccak leaf_size m t ls" and trim: "trim_start keccak leaf_size n t = Inr t'"
  then have "represents keccak (tree_empty_leaf keccak leaf_size t) t ls" by (simp add: mm_rep_def)
  note rp = this
  from trim_start_ok_conditions [OF rp trim] have c: "ls \<noteq> []" "start_index t < binary_tree_size t"
    "n \<le> length (mm_hashes t)" by simp_all
  from trim_start_represents [OF rp c] trim rep
  show "mm_rep keccak leaf_size m t' ls" by (simp add: mm_rep_def)
next
  fix t ls assume "mm_rep keccak leaf_size m t ls" "ls \<noteq> []"
  then show "merkle_root keccak leaf_size t = Inr (mm_spec_root keccak leaf_size m ls)"
    using merkle_root_represents [of keccak leaf_size t ls] by (simp add: mm_rep_def mm_spec_root_def)
qed

section \<open>Paths\<close>

text \<open>Folding a path from a leaf at position \<open>i\<close>, as a verifier of the proof does.\<close>

definition fold_path :: "hash_fn \<Rightarrow> nat \<Rightarrow> h256 list \<Rightarrow> h256 \<Rightarrow> h256" where
  "fold_path keccak i path leaf =
     fold (\<lambda>(l, sib) h. if even (i div 2 ^ l) then compress keccak h sib else compress keccak sib h)
       (enumerate 0 path) leaf"

lemma node_parent:
  "node keccak e ls (Suc l) (q div 2) =
     (if even q then compress keccak (node keccak e ls l q) (node keccak e ls l (sibling q))
      else compress keccak (node keccak e ls l (sibling q)) (node keccak e ls l q))"
  by (auto simp: sibling_def elim!: evenE oddE)

lemma fold_path_nodes:
  "fold_path keccak i (map (\<lambda>l. node keccak e ls l (sibling (i div 2 ^ l))) [0..<n]) (node keccak e ls 0 i) =
   node keccak e ls n (i div 2 ^ n)"
proof (induction n)
  case 0
  then show ?case by (simp add: fold_path_def)
next
  case (Suc n)
  have "i div 2 ^ Suc n = i div 2 ^ n div 2" by (rule div_Suc_exp [symmetric])
  then show ?case
    using Suc by (simp only: node_parent) (simp add: fold_path_def enumerate_append)
qed

section \<open>Properties\<close>

text \<open>
  C28. The root is independent of trimming: after any interleaving of pushes and (successful) trims on a tree
  built from leaf hashes, the root is the root of the complete tree over the initial and the pushed
  leaves, whose size is the next power of two (at least the requested one).
\<close>

theorem mini_merkle_run_root:
  assumes "mm_from_hashes ls (Some m) = Inr t" and "run_ops push_hash (trim_start keccak leaf_size) ops t = Inr t'"
    and "length ls + length (pushed ops) \<le> 2 ^ MAX_TREE_DEPTH" and "ls @ pushed ops \<noteq> []"
  shows "merkle_root keccak leaf_size t' = Inr (mm_spec_root keccak leaf_size m (ls @ pushed ops))"
proof (rule mm.run_ops_root [OF _ assms(2-4)])
  have "is_power_of_two m" using assms(1) by (simp add: mm_from_hashes_def Let_def)
  with from_hashes_represents [OF assms(1)] show "mm_rep keccak leaf_size m t ls"
    by (simp add: mm_rep_def)
qed

text \<open>
  The path returned for an untrimmed leaf proves it: it has one hash per level, and folding it from
  the leaf gives the root that is returned with it, which is the root of the complete tree.
\<close>

theorem mini_merkle_path_correct:
  assumes "represents keccak (tree_empty_leaf keccak leaf_size t) t ls"
    and "start_index t \<le> i" and "i < length ls"
  shows "\<exists>path. merkle_root_and_path_by_absolute_index keccak leaf_size t i =
      Inr (node keccak (tree_empty_leaf keccak leaf_size t) ls (mm_depth t) 0, path) \<and>
    length path = mm_depth t \<and>
    fold_path keccak i path (ls ! i) = node keccak (tree_empty_leaf keccak leaf_size t) ls (mm_depth t) 0"
proof -
  let ?e = "tree_empty_leaf keccak leaf_size t"
  note r = representsD [OF assms(1)]
  let ?path = "map (\<lambda>l. node keccak ?e ls l (sibling (i div 2 ^ l))) [0..<mm_depth t]"
  have "start_index t < binary_tree_size t" "ls \<noteq> []" using assms(2,3) r(1,6) by auto
  moreover have "i - start_index t < length (mm_hashes t)" using assms(2,3) r(5) by simp
  ultimately have "compute_merkle_root_and_path keccak leaf_size t (i - start_index t) None =
      Inr (node keccak ?e ls (mm_depth t) 0, map Some ?path)"
    using compute_root_and_path [OF assms(1), of "i - start_index t" None] assms(2)
    by (simp add: spec_path_def Let_def)
  moreover have "collect_res (map (ok_or (Panic IndexOutOfBounds)) (map Some ?path)) = Inr ?path"
    by (simp add: collect_res_eq_Inr)
  ultimately have "merkle_root_and_path_by_absolute_index keccak leaf_size t i =
      Inr (node keccak ?e ls (mm_depth t) 0, ?path)"
    using assms(2,3) r(5)
    by (simp add: merkle_root_and_path_by_absolute_index_def merkle_root_and_path_def del: map_map)
  moreover have "i div 2 ^ mm_depth t = 0" using assms(3) r(6) by simp
  then have "fold_path keccak i ?path (ls ! i) = node keccak ?e ls (mm_depth t) 0"
    using fold_path_nodes [of keccak i ?e ls "mm_depth t"] assms(3) by simp
  ultimately show ?thesis by auto
qed

text \<open>
  Trimming nothing from a tree with no leaves panics, although the documentation of \<open>trim_start\<close> names
  only a \<open>count\<close> above the number of untrimmed leaves as a cause: the level loop leaves the buffer
  empty and its first element is read.
\<close>

theorem trim_start_zero_on_empty_panics:
  "mm_from_hashes [] (Some m) = Inr t \<Longrightarrow> trim_start keccak leaf_size 0 t = Inl (Panic IndexOutOfBounds)"
proof -
  assume t: "mm_from_hashes [] (Some m) = Inr t"
  have "compute_levels keccak tbl cache (Some LeftSide) n l [] 0 0 = Inr ([], replicate n None)" for tbl cache n l
    by (induction n arbitrary: l) (simp_all add: path_element_def)
  moreover have "mm_hashes t = []" "start_index t = 0" using t by (auto simp: mm_from_hashes_def Let_def)
  ultimately show ?thesis
    by (simp add: trim_start_def compute_merkle_root_and_path_def get_def)
qed

text \<open>
  A tree with a custom empty leaf and no leaves has the root of the default empty leaf: the
  \<open>empty_leaf_hash\<close> set by \<open>new_with_empty_leaf_hash\<close> is ignored by the empty-tree case of \<open>merkle_root\<close>.
\<close>

theorem empty_root_ignores_custom_leaf:
  "mm_new_with_empty_leaf_hash keccak [] (Some m) e = Inr t \<Longrightarrow>
   merkle_root keccak leaf_size t = Inr (mm_empty_subtree_hash keccak leaf_size (mm_depth t))"
  by (auto simp: mm_new_with_empty_leaf_hash_def mm_new_def mm_from_hashes_def Let_def merkle_root_def)

section \<open>Witnesses\<close>

lemma two_leaf_tree:
  "mm_from_hashes [5, 6] (Some 4) =
     Inr \<lparr>mm_hashes = [5, 6], binary_tree_size = 4, start_index = 0, mm_cache = [None, None], mm_empty_leaf_hash = None\<rparr>"
proof -
  have "is_power_of_two 4" unfolding is_power_of_two_iff by (rule exI [of _ 2]) simp
  moreover have "trailing_zeros 4 = 2" using trailing_zeros_power [of 2] by simp
  moreover have "next_power_of_two (Suc (Suc 0)) = 2" by (simp add: next_power_of_two_def bit_len.simps)
  moreover have "replicate 2 None = [None, None]" by (simp add: numeral_2_eq_2)
  ultimately show ?thesis
    by (simp add: mm_from_hashes_def Let_def tree_depth_by_size_def MAX_TREE_DEPTH_def)
qed

definition sum_hash :: hash_fn where
  "sum_hash bs = word_of_nat (length bs) + sum_list (map ucast bs)"

theorem mini_merkle_run_root_witness:
  "\<exists>t t'. mm_from_hashes [5, 6] (Some 4) = Inr t \<and>
     run_ops push_hash (trim_start sum_hash 88) [TrimOp 1, PushOp 7] t = Inr t' \<and>
     merkle_root sum_hash 88 t' = Inr (mm_spec_root sum_hash 88 4 [5, 6, 7])"
proof -
  obtain t where t: "mm_from_hashes [5, 6] (Some 4) = Inr t" and f: "mm_hashes t = [5, 6]" "start_index t = 0"
    "binary_tree_size t = 4" using two_leaf_tree by simp
  note r = from_hashes_represents [OF t]
  obtain t1 where "trim_start sum_hash 88 1 t = Inr t1"
    using trim_start_represents [of sum_hash 88 t "[5, 6]" 1] r(1) f by auto
  then have run: "run_ops push_hash (trim_start sum_hash 88) [TrimOp 1, PushOp 7] t = Inr (push_hash 7 t1)" by simp
  have "merkle_root sum_hash 88 (push_hash 7 t1) = Inr (mm_spec_root sum_hash 88 4 ([5, 6] @ pushed [TrimOp 1, PushOp 7]))"
    by (rule mini_merkle_run_root [OF t run]) (simp_all add: MAX_TREE_DEPTH_def)
  with t run show ?thesis by auto
qed

theorem mini_merkle_path_correct_witness:
  "\<exists>t path root. mm_from_hashes [5, 6] (Some 4) = Inr t \<and>
     merkle_root_and_path_by_absolute_index sum_hash 88 t 1 = Inr (root, path) \<and>
     fold_path sum_hash 1 path 6 = root"
proof -
  obtain t where t: "mm_from_hashes [5, 6] (Some 4) = Inr t" and f: "start_index t = 0" using two_leaf_tree by simp
  have "represents sum_hash (tree_empty_leaf sum_hash 88 t) t [5, 6]" by (rule from_hashes_represents [OF t])
  from mini_merkle_path_correct [OF this, of 1] t f show ?thesis by fastforce
qed

lemma empty_tree_4: "\<exists>t. mm_from_hashes [] (Some 4) = Inr t"
proof -
  have "is_power_of_two 4" unfolding is_power_of_two_iff by (rule exI [of _ 2]) simp
  moreover have "trailing_zeros 4 = 2" using trailing_zeros_power [of 2] by simp
  ultimately show ?thesis
    by (simp add: mm_from_hashes_def Let_def tree_depth_by_size_def MAX_TREE_DEPTH_def next_power_of_two_def)
qed

theorem trim_start_zero_on_empty_panics_witness:
  "\<exists>t. mm_from_hashes [] (Some 4) = Inr t \<and> trim_start sum_hash 88 0 t = Inl (Panic IndexOutOfBounds)"
  using trim_start_zero_on_empty_panics [of 4] empty_tree_4 by blast

theorem empty_root_ignores_custom_leaf_witness:
  "\<exists>t. mm_new_with_empty_leaf_hash sum_hash [] (Some 4) 9 = Inr t \<and>
     merkle_root sum_hash 88 t = Inr (mm_empty_subtree_hash sum_hash 88 (mm_depth t))"
proof -
  obtain t where "mm_new_with_empty_leaf_hash sum_hash [] (Some 4) 9 = Inr t"
    using empty_tree_4 by (auto simp: mm_new_with_empty_leaf_hash_def mm_new_def)
  with empty_root_ignores_custom_leaf [OF this] show ?thesis by blast
qed

end
