(* ===== verification/Commitment_Types.thy ===== *)
theory Commitment_Types
  imports State_Diffs Protocol_Version Mini_Merkle
begin

text \<open>
  Batch commitments: \<open>src/crates/types/src/commitment/mod.rs\<close> and \<open>types/src/l2_to_l1_log.rs\<close>. Keccak-256 is the
  parameter \<open>keccak\<close>. A type with \<open>SerializeCommitment\<close> is a serializer of fixed size, which is the contract
  of the locale \<open>serialize_commitment\<close>. The lemmas show that the serializations are injective, that the
  pubdata of a batch can be parsed back, and that the commitment binds everything serialized into it.
\<close>

section \<open>L2-to-L1 logs\<close>

record l2_to_l1_log =
  shard_id :: u8
  is_service :: bool
  tx_number_in_block :: u16
  sender :: address
  l1_key :: h256
  l1_value :: h256

definition L2_TO_L1_LOG_SIZE :: nat where "L2_TO_L1_LOG_SIZE = 88"

definition bool_byte :: "bool \<Rightarrow> u8" where
  "bool_byte b = (if b then 1 else 0)"

text \<open>\<open>serialize_commitment\<close> of \<open>L2ToL1Log\<close>, also used by \<open>to_bytes\<close>.\<close>

definition l2_to_l1_log_bytes :: "l2_to_l1_log \<Rightarrow> u8 list" where
  "l2_to_l1_log_bytes l = [shard_id l, bool_byte (is_service l)] @ be_bytes 2 (tx_number_in_block l) @
     address_bytes (sender l) @ as_bytes (l1_key l) @ as_bytes (l1_value l)"

definition packed_encoding :: "l2_to_l1_log \<Rightarrow> u8 list" where
  "packed_encoding l = be_bytes 1 (shard_id l) @ be_bytes 1 (bool_byte (is_service l)) @
     be_bytes 2 (tx_number_in_block l) @ address_bytes (sender l) @ as_bytes (l1_key l) @ as_bytes (l1_value l)"

definition l2_to_l1_log_from_slice :: "u8 list \<Rightarrow> l2_to_l1_log res" where
  "l2_to_l1_log_from_slice data =
     ensure (length data = L2_TO_L1_LOG_SIZE) (Panic IndexOutOfBounds)
       (Inr \<lparr>shard_id = data ! 0, is_service = (data ! 1 \<noteq> 0),
             tx_number_in_block = from_be_bytes [data ! 2, data ! 3],
             sender = from_be_bytes (slice 4 24 data), l1_key = from_be_bytes (slice 24 56 data),
             l1_value = from_be_bytes (slice 56 88 data)\<rparr>)"

definition PUBDATA_CHUNK_PUBLISHER_ADDRESS :: address where "PUBDATA_CHUNK_PUBLISHER_ADDRESS = 0x8011"
definition KNOWN_CODES_STORAGE_ADDRESS :: address where "KNOWN_CODES_STORAGE_ADDRESS = 0x8004"
definition L2_TO_L1_LOGS_TREE_ROOT_KEY :: nat where "L2_TO_L1_LOGS_TREE_ROOT_KEY = 0"
definition STATE_DIFF_HASH_KEY_PRE_GATEWAY :: nat where "STATE_DIFF_HASH_KEY_PRE_GATEWAY = 2"
definition BLOB1_LINEAR_HASH_KEY_PRE_GATEWAY :: nat where "BLOB1_LINEAR_HASH_KEY_PRE_GATEWAY = 7"
definition ZKPORTER_IS_AVAILABLE :: bool where "ZKPORTER_IS_AVAILABLE = False"

text \<open>\<open>Vec::resize\<close>: truncates or pads.\<close>

definition resize :: "nat \<Rightarrow> 'a \<Rightarrow> 'a list \<Rightarrow> 'a list" where
  "resize n x xs = take n xs @ replicate (n - length xs) x"

text \<open>The sort is by key only; equal keys keep their order here, which \<open>sort_unstable\<close> leaves open.\<close>

definition parse_system_logs_for_blob_hashes_pre_gateway ::
  "protocol_version \<Rightarrow> l2_to_l1_log list \<Rightarrow> h256 list res" where
  "parse_system_logs_for_blob_hashes_pre_gateway v system_logs =
     ensure (is_pre_gateway v) (Panic UnsupportedVersion)
       (let required = num_blobs_required v; created = num_blobs_created v
        in if created = 0 then Inr (replicate required 0)
           else let relevant = filter (\<lambda>l. sender l = PUBDATA_CHUNK_PUBLISHER_ADDRESS \<and>
                      word_of_nat BLOB1_LINEAR_HASH_KEY_PRE_GATEWAY \<le> l1_key l \<and>
                      l1_key l < word_of_nat (BLOB1_LINEAR_HASH_KEY_PRE_GATEWAY + created)) system_logs
                in Inr (resize required 0 (map l1_value (sort_key l1_key relevant))))"

section \<open>Serialization\<close>

text \<open>
  The buffer is cut into chunks of \<open>SERIALIZED_SIZE\<close> bytes and every element fills its chunk, so the result
  is the concatenation of the element encodings.
\<close>

definition serialize_commitments :: "('a \<Rightarrow> u8 list) \<Rightarrow> 'a list \<Rightarrow> u8 list" where
  "serialize_commitments ser values = concat (map ser values)"

definition pre_boojum_serialize_commitments :: "('a \<Rightarrow> u8 list) \<Rightarrow> 'a list \<Rightarrow> u8 list" where
  "pre_boojum_serialize_commitments ser values =
     be_bytes 4 (word_of_nat (length values) :: u32) @ concat (map ser values)"

record initial_storage_write =
  iw_index :: u64
  iw_key :: u256
  iw_value :: h256

record repeated_storage_write =
  rw_index :: u64
  rw_value :: h256

definition initial_write_bytes :: "initial_storage_write \<Rightarrow> u8 list" where
  "initial_write_bytes w = le_bytes 32 (iw_key w) @ as_bytes (iw_value w)"

definition repeated_write_bytes :: "repeated_storage_write \<Rightarrow> u8 list" where
  "repeated_write_bytes w = be_bytes 8 (rw_index w) @ as_bytes (rw_value w)"

section \<open>Commitment inputs and outputs\<close>

record blob_hash =
  blob_commitment :: h256
  linear_hash :: h256

record aux_commitments =
  events_queue_commitment :: h256
  bootloader_initial_content_commitment :: h256

record commitment_common_input =
  ci_l2_to_l1_logs :: "l2_to_l1_log list"
  rollup_last_leaf_index :: u64
  rollup_root_hash :: h256
  ci_bootloader_code_hash :: h256
  ci_default_aa_code_hash :: h256
  ci_evm_emulator_code_hash :: "h256 option"
  ci_protocol_version :: protocol_version

datatype commitment_input =
    InputPreBoojum (input_common: commitment_common_input) "initial_storage_write list" "repeated_storage_write list"
  | InputPostBoojum (input_common: commitment_common_input) "l2_to_l1_log list" "state_diff_record list"
      aux_commitments "blob_hash list" h256

record aux_common_output =
  l2_l1_logs_merkle_root :: h256
  ao_protocol_version :: protocol_version

record pre_boojum_output =
  pre_common :: aux_common_output
  l2_l1_logs_linear_hash :: h256
  initial_writes_compressed :: "u8 list"
  initial_writes_hash :: h256
  repeated_writes_compressed :: "u8 list"
  repeated_writes_hash :: h256

record post_boojum_output =
  post_common :: aux_common_output
  system_logs_linear_hash :: h256
  state_diffs_compressed :: "u8 list"
  state_diffs_hash :: h256
  post_aux_commitments :: aux_commitments
  post_blob_hashes :: "blob_hash list"
  post_aggregation_root :: h256
  post_local_root :: h256

datatype auxiliary_output = PreBoojum pre_boojum_output | PostBoojum post_boojum_output

text \<open>\<open>find_map\<close> over the system logs for the first one with the given key.\<close>

fun system_log_value :: "h256 \<Rightarrow> l2_to_l1_log list \<Rightarrow> h256 option" where
  "system_log_value k [] = None"
| "system_log_value k (l # ls) = (if l1_key l = k then Some (l1_value l) else system_log_value k ls)"

definition logs_merkle_root :: "hash_fn \<Rightarrow> protocol_version \<Rightarrow> l2_to_l1_log list \<Rightarrow> h256 res" where
  "logs_merkle_root keccak v ls =
     (let leaves = chunks L2_TO_L1_LOG_SIZE (serialize_commitments l2_to_l1_log_bytes ls)
      in and_then (mm_new keccak leaves (Some (l2_to_l1_logs_tree_size v))) (merkle_root keccak L2_TO_L1_LOG_SIZE))"

definition sanity_checks ::
  "hash_fn \<Rightarrow> protocol_version \<Rightarrow> l2_to_l1_log list \<Rightarrow> h256 \<Rightarrow> h256 \<Rightarrow> blob_hash list \<Rightarrow> unit res" where
  "sanity_checks keccak v system_logs diffs_hash logs_root blobs =
     and_then
       (if is_pre_gateway v then
          and_then (ok_or (Panic MissingSystemLog) (system_log_value (word_of_nat STATE_DIFF_HASH_KEY_PRE_GATEWAY) system_logs))
            (\<lambda>from_logs. ensure (diffs_hash = from_logs) (Commitment (StateDiffHashMismatch from_logs diffs_hash))
              (and_then (parse_system_logs_for_blob_hashes_pre_gateway v system_logs) (\<lambda>hashes_from_logs.
                 ensure (map linear_hash blobs = hashes_from_logs)
                   (Commitment (BlobLinearHashesMismatch hashes_from_logs (map linear_hash blobs))) (Inr ()))))
        else Inr ())
       (\<lambda>_. and_then (ok_or (Panic MissingSystemLog) (system_log_value (word_of_nat L2_TO_L1_LOGS_TREE_ROOT_KEY) system_logs))
         (\<lambda>root_from_logs. ensure (logs_root = root_from_logs)
            (Commitment (L2L1LogsTreeRootMismatch root_from_logs logs_root)) (Inr ())))"

fun auxiliary_output_new :: "hash_fn \<Rightarrow> commitment_input \<Rightarrow> bool \<Rightarrow> auxiliary_output res" where
  "auxiliary_output_new keccak (InputPreBoojum common initial repeated) disable_sanity_checks =
     (let compressed = pre_boojum_serialize_commitments l2_to_l1_log_bytes (ci_l2_to_l1_logs common);
          leaves = chunks L2_TO_L1_LOG_SIZE (drop 4 compressed)
      in and_then (and_then (mm_new keccak leaves (Some (l2_to_l1_logs_tree_size (ci_protocol_version common))))
             (merkle_root keccak L2_TO_L1_LOG_SIZE))
         (\<lambda>root. let iw = pre_boojum_serialize_commitments initial_write_bytes initial;
                     rw = pre_boojum_serialize_commitments repeated_write_bytes repeated
          in Inr (PreBoojum
            \<lparr>pre_common = \<lparr>l2_l1_logs_merkle_root = root, ao_protocol_version = ci_protocol_version common\<rparr>,
             l2_l1_logs_linear_hash = keccak compressed,
             initial_writes_compressed = iw, initial_writes_hash = keccak iw,
             repeated_writes_compressed = rw, repeated_writes_hash = keccak rw\<rparr>)))"
| "auxiliary_output_new keccak (InputPostBoojum common system_logs diffs aux blobs aggregation) disable_sanity_checks =
     and_then (logs_merkle_root keccak (ci_protocol_version common) (ci_l2_to_l1_logs common)) (\<lambda>local.
       let logs_root = (if is_pre_gateway (ci_protocol_version common) then local else compress keccak local aggregation);
           diffs_hash = keccak (serialize_commitments sd_encode_padded diffs)
       in and_then (compress_state_diffs diffs) (\<lambda>diffs_compressed.
          and_then
            (if system_logs \<noteq> [] \<and> \<not> disable_sanity_checks
             then sanity_checks keccak (ci_protocol_version common) system_logs diffs_hash logs_root blobs
             else Inr ())
            (\<lambda>_. Inr (PostBoojum
              \<lparr>post_common = \<lparr>l2_l1_logs_merkle_root = logs_root, ao_protocol_version = ci_protocol_version common\<rparr>,
               system_logs_linear_hash = keccak (serialize_commitments l2_to_l1_log_bytes system_logs),
               state_diffs_compressed = diffs_compressed, state_diffs_hash = diffs_hash,
               post_aux_commitments = aux, post_blob_hashes = blobs,
               post_aggregation_root = aggregation, post_local_root = local\<rparr>))))"

fun aux_common :: "auxiliary_output \<Rightarrow> aux_common_output" where
  "aux_common (PreBoojum o1) = pre_common o1"
| "aux_common (PostBoojum o1) = post_common o1"

fun aux_local_root :: "auxiliary_output \<Rightarrow> h256" where
  "aux_local_root (PreBoojum o1) = l2_l1_logs_merkle_root (pre_common o1)"
| "aux_local_root (PostBoojum o1) = post_local_root o1"

fun aux_aggregation_root :: "auxiliary_output \<Rightarrow> h256" where
  "aux_aggregation_root (PreBoojum _) = 0"
| "aux_aggregation_root (PostBoojum o1) = post_aggregation_root o1"

fun aux_state_diff_hash :: "auxiliary_output \<Rightarrow> h256" where
  "aux_state_diff_hash (PreBoojum _) = 0"
| "aux_state_diff_hash (PostBoojum o1) = state_diffs_hash o1"

definition blob_hash_bytes :: "blob_hash \<Rightarrow> u8 list" where
  "blob_hash_bytes b = as_bytes (linear_hash b) @ as_bytes (blob_commitment b)"

fun aux_to_bytes :: "auxiliary_output \<Rightarrow> u8 list" where
  "aux_to_bytes (PreBoojum o1) =
     as_bytes (l2_l1_logs_merkle_root (pre_common o1)) @ as_bytes (l2_l1_logs_linear_hash o1) @
     as_bytes (initial_writes_hash o1) @ as_bytes (repeated_writes_hash o1)"
| "aux_to_bytes (PostBoojum o1) =
     as_bytes (system_logs_linear_hash o1) @ as_bytes (state_diffs_hash o1) @
     as_bytes (bootloader_initial_content_commitment (post_aux_commitments o1)) @
     as_bytes (events_queue_commitment (post_aux_commitments o1)) @
     concat (map blob_hash_bytes (post_blob_hashes o1))"

definition aux_hash :: "hash_fn \<Rightarrow> auxiliary_output \<Rightarrow> h256" where
  "aux_hash keccak a = keccak (aux_to_bytes a)"

record meta_parameters =
  zkporter_is_available :: bool
  bootloader_code_hash :: h256
  default_aa_code_hash :: h256
  evm_emulator_code_hash :: "h256 option"
  mp_protocol_version :: "protocol_version option"

definition meta_to_bytes :: "meta_parameters \<Rightarrow> u8 list" where
  "meta_to_bytes p =
     [bool_byte (zkporter_is_available p)] @ as_bytes (bootloader_code_hash p) @ as_bytes (default_aa_code_hash p) @
     (case mp_protocol_version p of
        None \<Rightarrow> []
      | Some v \<Rightarrow> if is_post_1_5_0 v
                then as_bytes (case evm_emulator_code_hash p of Some h \<Rightarrow> h | None \<Rightarrow> default_aa_code_hash p)
                else [])"

definition meta_hash :: "hash_fn \<Rightarrow> meta_parameters \<Rightarrow> h256" where
  "meta_hash keccak p = keccak (meta_to_bytes p)"

record root_state =
  last_leaf_index :: u64
  rs_root_hash :: h256

record pass_through_data =
  shared_states :: "root_state list"

definition root_state_bytes :: "root_state \<Rightarrow> u8 list" where
  "root_state_bytes s = be_bytes 8 (last_leaf_index s) @ as_bytes (rs_root_hash s)"

definition pass_through_to_bytes :: "pass_through_data \<Rightarrow> u8 list res" where
  "pass_through_to_bytes p =
     (let result = concat (map root_state_bytes (shared_states p))
      in ensure (length result = 80) (Commitment (SerializedSizeMismatch 80 (length result))) (Inr result))"

definition pass_through_hash :: "hash_fn \<Rightarrow> pass_through_data \<Rightarrow> h256 res" where
  "pass_through_hash keccak p = and_then (pass_through_to_bytes p) (\<lambda>bs. Inr (keccak bs))"

record l1_batch_commitment =
  lc_pass_through :: pass_through_data
  lc_auxiliary_output :: auxiliary_output
  lc_meta_parameters :: meta_parameters

record commitment_hash =
  ch_pass_through_data :: h256
  ch_aux_output :: h256
  ch_meta_parameters :: h256
  ch_commitment :: h256

definition l1_batch_commitment_new :: "hash_fn \<Rightarrow> commitment_input \<Rightarrow> bool \<Rightarrow> l1_batch_commitment res" where
  "l1_batch_commitment_new keccak input disable_sanity_checks =
     (let common = input_common input
      in and_then (auxiliary_output_new keccak input disable_sanity_checks) (\<lambda>aux.
        Inr \<lparr>lc_pass_through = \<lparr>shared_states =
               [\<lparr>last_leaf_index = rollup_last_leaf_index common, rs_root_hash = rollup_root_hash common\<rparr>,
                \<lparr>last_leaf_index = 0, rs_root_hash = 0\<rparr>]\<rparr>,
             lc_auxiliary_output = aux,
             lc_meta_parameters = \<lparr>zkporter_is_available = ZKPORTER_IS_AVAILABLE,
               bootloader_code_hash = ci_bootloader_code_hash common,
               default_aa_code_hash = ci_default_aa_code_hash common,
               evm_emulator_code_hash = ci_evm_emulator_code_hash common,
               mp_protocol_version = Some (ci_protocol_version common)\<rparr>\<rparr>))"

definition commitment_preimage :: "h256 \<Rightarrow> h256 \<Rightarrow> h256 \<Rightarrow> u8 list" where
  "commitment_preimage pass meta aux = as_bytes pass @ as_bytes meta @ as_bytes aux"

definition l1_batch_commitment_hash :: "hash_fn \<Rightarrow> l1_batch_commitment \<Rightarrow> commitment_hash res" where
  "l1_batch_commitment_hash keccak c =
     and_then (pass_through_hash keccak (lc_pass_through c)) (\<lambda>pass.
       let meta = meta_hash keccak (lc_meta_parameters c); aux = aux_hash keccak (lc_auxiliary_output c)
       in Inr \<lparr>ch_pass_through_data = pass, ch_aux_output = aux, ch_meta_parameters = meta,
               ch_commitment = keccak (commitment_preimage pass meta aux)\<rparr>)"

record commitment_artifacts =
  ca_commitment_hash :: commitment_hash
  ca_l2_l1_merkle_root :: h256
  ca_compressed_state_diffs :: "u8 list option"
  ca_compressed_initial_writes :: "u8 list option"
  ca_compressed_repeated_writes :: "u8 list option"
  ca_zkporter_is_available :: bool
  ca_aux_commitments :: "aux_commitments option"
  ca_aggregation_root :: h256
  ca_local_root :: h256
  ca_state_diff_hash :: h256

fun commitment_aux_commitments :: "auxiliary_output \<Rightarrow> aux_commitments option" where
  "commitment_aux_commitments (PostBoojum o1) = Some (post_aux_commitments o1)"
| "commitment_aux_commitments (PreBoojum o1) = None"

definition l1_batch_commitment_artifacts :: "hash_fn \<Rightarrow> l1_batch_commitment \<Rightarrow> commitment_artifacts res" where
  "l1_batch_commitment_artifacts keccak c =
     (let aux = lc_auxiliary_output c;
          (initial, repeated, diffs) = (case aux of
             PostBoojum o1 \<Rightarrow> (None, None, Some (state_diffs_compressed o1))
           | PreBoojum o1 \<Rightarrow> (Some (initial_writes_compressed o1), Some (repeated_writes_compressed o1), None))
      in and_then (l1_batch_commitment_hash keccak c) (\<lambda>h.
        Inr \<lparr>ca_commitment_hash = h, ca_l2_l1_merkle_root = l2_l1_logs_merkle_root (aux_common aux),
             ca_compressed_state_diffs = diffs, ca_compressed_initial_writes = initial,
             ca_compressed_repeated_writes = repeated,
             ca_zkporter_is_available = zkporter_is_available (lc_meta_parameters c),
             ca_aux_commitments = commitment_aux_commitments aux,
             ca_aggregation_root = aux_aggregation_root aux, ca_local_root = aux_local_root aux,
             ca_state_diff_hash = aux_state_diff_hash aux\<rparr>))"

record base_system_contracts_hashes =
  bsc_bootloader :: h256
  bsc_default_aa :: h256
  bsc_evm_emulator :: "h256 option"

definition for_genesis_batch ::
  "h256 \<Rightarrow> u64 \<Rightarrow> base_system_contracts_hashes \<Rightarrow> protocol_version \<Rightarrow> commitment_input" where
  "for_genesis_batch root last_index contracts v =
     (let common = \<lparr>ci_l2_to_l1_logs = [], rollup_last_leaf_index = last_index, rollup_root_hash = root,
            ci_bootloader_code_hash = bsc_bootloader contracts, ci_default_aa_code_hash = bsc_default_aa contracts,
            ci_evm_emulator_code_hash = bsc_evm_emulator contracts, ci_protocol_version = v\<rparr>
      in if is_pre_boojum v then InputPreBoojum common [] []
         else InputPostBoojum common [] [] \<lparr>events_queue_commitment = 0, bootloader_initial_content_commitment = 0\<rparr>
           (replicate (num_blobs_required v) \<lparr>blob_commitment = 0, linear_hash = 0\<rparr>) 0)"

section \<open>Pubdata of a batch\<close>

record l1_batch_with_metadata =
  lb_l2_to_l1_logs :: "l2_to_l1_log list"
  lb_l2_to_l1_messages :: "u8 list list"
  lb_raw_published_factory_deps :: "u8 list list"
  lb_state_diffs_compressed :: "u8 list"

definition length_prefixed :: "u8 list \<Rightarrow> u8 list" where
  "length_prefixed bs = be_bytes 4 (word_of_nat (length bs) :: u32) @ bs"

definition construct_pubdata :: "l1_batch_with_metadata \<Rightarrow> u8 list" where
  "construct_pubdata b =
     be_bytes 4 (word_of_nat (length (lb_l2_to_l1_logs b)) :: u32) @
     concat (map l2_to_l1_log_bytes (lb_l2_to_l1_logs b)) @
     be_bytes 4 (word_of_nat (length (lb_l2_to_l1_messages b)) :: u32) @
     concat (map length_prefixed (lb_l2_to_l1_messages b)) @
     be_bytes 4 (word_of_nat (length (lb_raw_published_factory_deps b)) :: u32) @
     concat (map length_prefixed (lb_raw_published_factory_deps b)) @
     lb_state_diffs_compressed b"

text \<open>\<open>factory_deps_in_appearance_order\<close>: each dependency is removed from the map when it is taken.\<close>

fun take_factory_deps :: "h256 list \<Rightarrow> (h256 \<rightharpoonup> u8 list) \<Rightarrow> u8 list list res" where
  "take_factory_deps [] deps = Inr []"
| "take_factory_deps (h # hs) deps =
     (case deps h of
        None \<Rightarrow> Inl (Panic MissingSystemLog)
      | Some code \<Rightarrow> and_then (take_factory_deps hs (deps(h := None))) (\<lambda>codes. Inr (code # codes)))"

definition factory_deps_in_appearance_order ::
  "protocol_version option \<Rightarrow> l2_to_l1_log list \<Rightarrow> (h256 \<rightharpoonup> u8 list) \<Rightarrow> h256 list \<Rightarrow> u8 list list res" where
  "factory_deps_in_appearance_order version ls deps raw_published =
     (let v = (case version of Some v \<Rightarrow> v | None \<Rightarrow> last_potentially_undefined)
      in if is_pre_boojum v
         then take_factory_deps (map l1_key (filter (\<lambda>l. sender l = KNOWN_CODES_STORAGE_ADDRESS) ls)) deps
         else take_factory_deps raw_published deps)"

section \<open>Serializers\<close>

text \<open>
  The contract of \<open>SerializeCommitment\<close>: every element takes exactly \<open>SERIALIZED_SIZE\<close> bytes. It is enough for
  the packed encoding to be cut back into its elements.
\<close>

locale serialize_commitment =
  fixes ser :: "'a \<Rightarrow> u8 list" and sz :: nat
  assumes length_ser [simp]: "length (ser x) = sz" and sz_pos: "0 < sz"
begin

lemma length_serialize: "length (serialize_commitments ser xs) = length xs * sz"
  by (induction xs) (simp_all add: serialize_commitments_def)

lemma chunks_serialize: "chunks sz (serialize_commitments ser xs) = map ser xs"
proof (induction xs)
  case Nil
  then show ?case by (simp add: serialize_commitments_def chunks.simps)
next
  case (Cons x xs)
  then show ?case
    using sz_pos by (subst chunks.simps) (auto simp: serialize_commitments_def simp flip: length_0_conv)
qed

lemma serialize_inj:
  assumes "inj ser" shows "serialize_commitments ser xs = serialize_commitments ser ys \<longleftrightarrow> xs = ys"
proof
  assume "serialize_commitments ser xs = serialize_commitments ser ys"
  then have "map ser xs = map ser ys" by (metis chunks_serialize)
  with assms show "xs = ys" by (simp add: inj_map_eq_map)
qed simp

lemma pre_boojum_serialize_tail:
  "drop 4 (pre_boojum_serialize_commitments ser xs) = serialize_commitments ser xs"
  by (simp add: pre_boojum_serialize_commitments_def serialize_commitments_def)

end

interpretation l2_to_l1_logs: serialize_commitment l2_to_l1_log_bytes L2_TO_L1_LOG_SIZE
  by unfold_locales (simp_all add: l2_to_l1_log_bytes_def L2_TO_L1_LOG_SIZE_def)

interpretation initial_writes: serialize_commitment initial_write_bytes 64
  by unfold_locales (simp_all add: initial_write_bytes_def)

interpretation repeated_writes: serialize_commitment repeated_write_bytes 40
  by unfold_locales (simp_all add: repeated_write_bytes_def)

lemma length_sd_encode [simp]: "length (sd_encode r) = 156"
  by (simp add: sd_encode_def)

interpretation state_diffs: serialize_commitment sd_encode_padded PADDED_ENCODED_STORAGE_DIFF_LEN_BYTES
  by unfold_locales (simp_all add: sd_encode_padded_def PADDED_ENCODED_STORAGE_DIFF_LEN_BYTES_def)

interpretation blob_hashes: serialize_commitment blob_hash_bytes 64
  by unfold_locales (simp_all add: blob_hash_bytes_def)

lemma bool_byte_inj [simp]: "bool_byte a = bool_byte b \<longleftrightarrow> a = b"
  by (simp add: bool_byte_def)

lemma bool_byte_nonzero [simp]: "bool_byte b \<noteq> 0 \<longleftrightarrow> b"
  by (simp add: bool_byte_def)

lemma be_bytes_2_ex: "\<exists>b1 b2. be_bytes 2 (w :: u16) = [b1, b2]"
  by (simp add: be_bytes_def le_bytes_def upt_rec)

lemma from_be_bytes_be_bytes_16: "from_be_bytes (be_bytes 2 (w :: u16)) = w"
  by simp

lemma from_slice_bytes: "l2_to_l1_log_from_slice (l2_to_l1_log_bytes l) = Inr l"
proof -
  obtain b1 b2 where b: "be_bytes 2 (tx_number_in_block l) = [b1, b2]"
    by (metis be_bytes_2_ex)
  then have "from_be_bytes [b1, b2] = tx_number_in_block l" by (metis from_be_bytes_be_bytes_16)
  then show ?thesis
    by (simp add: l2_to_l1_log_from_slice_def l2_to_l1_log_bytes_def L2_TO_L1_LOG_SIZE_def b slice_def)
qed

lemma inj_l2_to_l1_log_bytes: "inj l2_to_l1_log_bytes"
  by (rule injI) (metis Inr_inject from_slice_bytes)

lemma inj_sd_encode: "inj sd_encode"
proof (rule injI)
  fix r r' assume "sd_encode r = sd_encode r'"
  then show "r = r'" by (simp add: sd_encode_def)
qed

lemma inj_sd_encode_padded: "inj sd_encode_padded"
  using inj_sd_encode by (auto simp: inj_def sd_encode_padded_def)

lemma inj_blob_hash_bytes: "inj blob_hash_bytes"
  by (rule injI) (simp add: blob_hash_bytes_def)

interpretation root_states: serialize_commitment root_state_bytes 40
  by unfold_locales (simp_all add: root_state_bytes_def)

lemma inj_root_state_bytes: "inj root_state_bytes"
  by (rule injI) (simp add: root_state_bytes_def)

section \<open>The logs tree\<close>

lemma logs_tree_leaves:
  "chunks L2_TO_L1_LOG_SIZE (serialize_commitments l2_to_l1_log_bytes ls) = map l2_to_l1_log_bytes ls"
  by (rule l2_to_l1_logs.chunks_serialize)

lemma logs_tree_new:
  assumes "length leaves \<le> 2 ^ MAX_TREE_DEPTH"
  shows "\<exists>t. mm_new keccak leaves (Some (l2_to_l1_logs_tree_size v)) = Inr t"
proof -
  let ?s = "max (l2_to_l1_logs_tree_size v) (next_power_of_two (length leaves))"
  obtain k where k: "l2_to_l1_logs_tree_size v = 2 ^ k" using logs_tree_size_power by blast
  have "(2::nat) ^ k \<le> 2 ^ 14" using k by (simp add: l2_to_l1_logs_tree_size_def split: if_splits)
  then have "k \<le> 14" by (simp only: power_increasing_iff)
  moreover obtain j where j: "next_power_of_two (length leaves) = 2 ^ j" using next_power_of_two_power by blast
  moreover have "j \<le> MAX_TREE_DEPTH"
    using next_power_of_two_le [OF assms] j by simp
  ultimately have "tree_depth_by_size ?s \<le> MAX_TREE_DEPTH"
    by (auto simp: k max_def tree_depth_by_size_def MAX_TREE_DEPTH_def)
  then show ?thesis
    using k by (auto simp: mm_new_def mm_from_hashes_def Let_def is_power_of_two_iff)
qed

lemma logs_merkle_root_correct:
  assumes "length ls \<le> 2 ^ MAX_TREE_DEPTH"
  shows "logs_merkle_root keccak v ls =
     Inr (mm_spec_root keccak L2_TO_L1_LOG_SIZE (l2_to_l1_logs_tree_size v) (map (\<lambda>l. keccak (l2_to_l1_log_bytes l)) ls))"
proof -
  obtain t where t: "mm_new keccak (map l2_to_l1_log_bytes ls) (Some (l2_to_l1_logs_tree_size v)) = Inr t"
    using logs_tree_new [of "map l2_to_l1_log_bytes ls"] assms by auto
  note r = from_hashes_represents [OF t [unfolded mm_new_def]]
  show ?thesis
    using merkle_root_represents [of keccak L2_TO_L1_LOG_SIZE t] r
    by (simp add: logs_merkle_root_def logs_tree_leaves t mm_spec_root_def comp_def)
qed

section \<open>Parsing pubdata\<close>

fun parse_logs :: "nat \<Rightarrow> u8 list \<Rightarrow> (l2_to_l1_log list \<times> u8 list) option" where
  "parse_logs 0 bs = Some ([], bs)"
| "parse_logs (Suc n) bs =
     Option.bind (split_at L2_TO_L1_LOG_SIZE bs) (\<lambda>(l, rest).
     Option.bind (ok (l2_to_l1_log_from_slice l)) (\<lambda>log.
     map_option (\<lambda>(ls, rest'). (log # ls, rest')) (parse_logs n rest)))"

definition parse_u32 :: "u8 list \<Rightarrow> (nat \<times> u8 list) option" where
  "parse_u32 bs = map_option (\<lambda>(n, rest). (unat (from_be_bytes n :: u32), rest)) (split_at 4 bs)"

fun parse_prefixed :: "nat \<Rightarrow> u8 list \<Rightarrow> (u8 list list \<times> u8 list) option" where
  "parse_prefixed 0 bs = Some ([], bs)"
| "parse_prefixed (Suc n) bs =
     Option.bind (parse_u32 bs) (\<lambda>(len, rest).
     Option.bind (split_at len rest) (\<lambda>(x, rest').
     map_option (\<lambda>(xs, rest''). (x # xs, rest'')) (parse_prefixed n rest')))"

definition parse_pubdata :: "u8 list \<Rightarrow> l1_batch_with_metadata option" where
  "parse_pubdata bs =
     Option.bind (parse_u32 bs) (\<lambda>(nl, bs).
     Option.bind (parse_logs nl bs) (\<lambda>(ls, bs).
     Option.bind (parse_u32 bs) (\<lambda>(nm, bs).
     Option.bind (parse_prefixed nm bs) (\<lambda>(ms, bs).
     Option.bind (parse_u32 bs) (\<lambda>(nd, bs).
     Option.bind (parse_prefixed nd bs) (\<lambda>(ds, bs).
       Some \<lparr>lb_l2_to_l1_logs = ls, lb_l2_to_l1_messages = ms, lb_raw_published_factory_deps = ds,
             lb_state_diffs_compressed = bs\<rparr>))))))"

lemma parse_u32_be_bytes:
  "n < 2 ^ 32 \<Longrightarrow> parse_u32 (be_bytes 4 (word_of_nat n :: u32) @ rest) = Some (n, rest)"
  by (simp add: parse_u32_def unsigned_of_nat take_bit_nat_eq_self)

lemma parse_logs_concat: "parse_logs (length ls) (concat (map l2_to_l1_log_bytes ls) @ rest) = Some (ls, rest)"
  by (induction ls) (simp_all add: from_slice_bytes)

lemma parse_prefixed_concat:
  "\<forall>x \<in> set xs. length x < 2 ^ 32 \<Longrightarrow>
   parse_prefixed (length xs) (concat (map length_prefixed xs) @ rest) = Some (xs, rest)"
  by (induction xs) (simp_all add: length_prefixed_def parse_u32_be_bytes)

section \<open>Binding\<close>

text \<open>The byte strings hashed for a commitment.\<close>

definition commitment_preimages :: "hash_fn \<Rightarrow> l1_batch_commitment \<Rightarrow> u8 list set" where
  "commitment_preimages keccak c =
     {concat (map root_state_bytes (shared_states (lc_pass_through c))),
      meta_to_bytes (lc_meta_parameters c), aux_to_bytes (lc_auxiliary_output c),
      commitment_preimage (keccak (concat (map root_state_bytes (shared_states (lc_pass_through c)))))
        (meta_hash keccak (lc_meta_parameters c)) (aux_hash keccak (lc_auxiliary_output c))}"

lemma commitment_hash_eq:
  assumes "l1_batch_commitment_hash keccak c = Inr h"
  shows "ch_commitment h = keccak (commitment_preimage
      (keccak (concat (map root_state_bytes (shared_states (lc_pass_through c)))))
      (meta_hash keccak (lc_meta_parameters c)) (aux_hash keccak (lc_auxiliary_output c)))"
  using assms by (auto simp: l1_batch_commitment_hash_def pass_through_hash_def pass_through_to_bytes_def Let_def)

lemma commitment_preimage_inj [simp]:
  "commitment_preimage a b c = commitment_preimage a' b' c' \<longleftrightarrow> a = a' \<and> b = b' \<and> c = c'"
  by (simp add: commitment_preimage_def)

lemma concat_root_states_inj:
  "concat (map root_state_bytes xs) = concat (map root_state_bytes ys) \<longleftrightarrow> xs = ys"
  using root_states.serialize_inj [OF inj_root_state_bytes] by (simp add: serialize_commitments_def)

text \<open>
  What \<open>meta_to_bytes\<close> keeps of the EVM emulator: nothing before 1.5.0, else its hash, a missing one standing for the
  default account's.
\<close>

definition serialized_emulator :: "meta_parameters \<Rightarrow> h256 option" where
  "serialized_emulator p =
     (if \<exists>v. mp_protocol_version p = Some v \<and> is_post_1_5_0 v
      then Some (case evm_emulator_code_hash p of Some h \<Rightarrow> h | None \<Rightarrow> default_aa_code_hash p) else None)"

lemma meta_to_bytes_eq_iff:
  "meta_to_bytes p = meta_to_bytes q \<longleftrightarrow>
     zkporter_is_available p = zkporter_is_available q \<and> bootloader_code_hash p = bootloader_code_hash q \<and>
     default_aa_code_hash p = default_aa_code_hash q \<and> serialized_emulator p = serialized_emulator q"
proof -
  have "meta_to_bytes r = [bool_byte (zkporter_is_available r)] @ as_bytes (bootloader_code_hash r) @
      as_bytes (default_aa_code_hash r) @ (case serialized_emulator r of None \<Rightarrow> [] | Some e \<Rightarrow> as_bytes e)" for r
    by (auto simp: meta_to_bytes_def serialized_emulator_def split: option.splits)
  moreover have "as_bytes (e :: h256) \<noteq> []" "[] \<noteq> as_bytes (e :: h256)" for e
    by (metis length_be_bytes list.size(3) zero_neq_numeral)+
  ultimately show ?thesis
    by (auto split: option.splits)
qed

text \<open>
  The members of two auxiliary outputs, compared one by one. An output without blobs has the four words of an output
  from before Boojum.
\<close>

fun same_auxiliary_output :: "auxiliary_output \<Rightarrow> auxiliary_output \<Rightarrow> bool" where
  "same_auxiliary_output (PreBoojum x) (PreBoojum y) \<longleftrightarrow>
     l2_l1_logs_merkle_root (pre_common x) = l2_l1_logs_merkle_root (pre_common y) \<and>
     l2_l1_logs_linear_hash x = l2_l1_logs_linear_hash y \<and>
     initial_writes_hash x = initial_writes_hash y \<and> repeated_writes_hash x = repeated_writes_hash y"
| "same_auxiliary_output (PostBoojum x) (PostBoojum y) \<longleftrightarrow>
     system_logs_linear_hash x = system_logs_linear_hash y \<and> state_diffs_hash x = state_diffs_hash y \<and>
     bootloader_initial_content_commitment (post_aux_commitments x) =
       bootloader_initial_content_commitment (post_aux_commitments y) \<and>
     events_queue_commitment (post_aux_commitments x) = events_queue_commitment (post_aux_commitments y) \<and>
     post_blob_hashes x = post_blob_hashes y"
| "same_auxiliary_output (PreBoojum x) (PostBoojum y) \<longleftrightarrow>
     l2_l1_logs_merkle_root (pre_common x) = system_logs_linear_hash y \<and>
     l2_l1_logs_linear_hash x = state_diffs_hash y \<and>
     initial_writes_hash x = bootloader_initial_content_commitment (post_aux_commitments y) \<and>
     repeated_writes_hash x = events_queue_commitment (post_aux_commitments y) \<and> post_blob_hashes y = []"
| "same_auxiliary_output (PostBoojum x) (PreBoojum y) \<longleftrightarrow>
     system_logs_linear_hash x = l2_l1_logs_merkle_root (pre_common y) \<and>
     state_diffs_hash x = l2_l1_logs_linear_hash y \<and>
     bootloader_initial_content_commitment (post_aux_commitments x) = initial_writes_hash y \<and>
     events_queue_commitment (post_aux_commitments x) = repeated_writes_hash y \<and> post_blob_hashes x = []"

lemma concat_blob_hashes_inj [simp]:
  "concat (map blob_hash_bytes xs) = concat (map blob_hash_bytes ys) \<longleftrightarrow> xs = ys"
  using blob_hashes.serialize_inj [OF inj_blob_hash_bytes, of xs ys] by (simp add: serialize_commitments_def)

lemma blob_hash_bytes_nonempty [simp]: "blob_hash_bytes b \<noteq> []"
  by (simp add: blob_hash_bytes_def flip: length_greater_0_conv)

lemma as_bytes_append_eq [simp]:
  "as_bytes (a :: h256) @ xs = as_bytes b \<longleftrightarrow> a = b \<and> xs = []" "as_bytes b = as_bytes (a :: h256) @ xs \<longleftrightarrow> a = b \<and> xs = []"
proof -
  show "as_bytes a @ xs = as_bytes b \<longleftrightarrow> a = b \<and> xs = []"
    using as_bytes_append_inj [of a xs b "[]"] by simp
  then show "as_bytes b = as_bytes a @ xs \<longleftrightarrow> a = b \<and> xs = []"
    by metis
qed

lemma aux_to_bytes_eq_iff: "aux_to_bytes x = aux_to_bytes y \<longleftrightarrow> same_auxiliary_output x y"
proof -
  have "concat (map blob_hash_bytes bs) = [] \<longleftrightarrow> bs = []" "[] = concat (map blob_hash_bytes bs) \<longleftrightarrow> bs = []" for bs
    by (cases bs; simp)+
  then show ?thesis by (induction x y rule: same_auxiliary_output.induct) auto
qed

section \<open>Properties\<close>

text \<open>
  C25. A commitment binds its contents, exactly: for a Keccak without a collision on the strings hashed for them, two
  batch commitments have the same hash if and only if they have the same shared states (root and leaf index), the same
  zkPorter flag, the same bootloader and default account hashes, the same EVM emulator hash in the versions that commit
  to one, and auxiliary outputs that agree on every member: the hashes of the system logs and of the state diffs, the
  bootloader and events-queue commitments and the blob hashes.
\<close>

theorem commitment_binds:
  assumes "l1_batch_commitment_hash keccak c = Inr h" and "l1_batch_commitment_hash keccak c' = Inr h'"
    and "inj_on keccak (commitment_preimages keccak c \<union> commitment_preimages keccak c')"
  shows "ch_commitment h = ch_commitment h' \<longleftrightarrow>
    shared_states (lc_pass_through c) = shared_states (lc_pass_through c') \<and>
    zkporter_is_available (lc_meta_parameters c) = zkporter_is_available (lc_meta_parameters c') \<and>
    bootloader_code_hash (lc_meta_parameters c) = bootloader_code_hash (lc_meta_parameters c') \<and>
    default_aa_code_hash (lc_meta_parameters c) = default_aa_code_hash (lc_meta_parameters c') \<and>
    serialized_emulator (lc_meta_parameters c) = serialized_emulator (lc_meta_parameters c') \<and>
    same_auxiliary_output (lc_auxiliary_output c) (lc_auxiliary_output c')"
proof -
  let ?p = "\<lambda>c. concat (map root_state_bytes (shared_states (lc_pass_through c)))"
  let ?m = "\<lambda>c. meta_to_bytes (lc_meta_parameters c)" and ?a = "\<lambda>c. aux_to_bytes (lc_auxiliary_output c)"
  let ?c = "\<lambda>c. commitment_preimage (keccak (?p c)) (keccak (?m c)) (keccak (?a c))"
  have iff: "keccak x = keccak y \<longleftrightarrow> x = y"
    if "x \<in> commitment_preimages keccak c \<union> commitment_preimages keccak c'"
      "y \<in> commitment_preimages keccak c \<union> commitment_preimages keccak c'" for x y
    by (rule inj_on_eq_iff [OF assms(3) that])
  have "ch_commitment h = ch_commitment h' \<longleftrightarrow> ?c c = ?c c'"
    unfolding commitment_hash_eq [OF assms(1)] commitment_hash_eq [OF assms(2)] meta_hash_def aux_hash_def
    by (rule iff) (simp_all add: commitment_preimages_def meta_hash_def aux_hash_def)
  also have "\<dots> \<longleftrightarrow> ?p c = ?p c' \<and> ?m c = ?m c' \<and> ?a c = ?a c'"
    by (simp add: iff commitment_preimages_def)
  finally show ?thesis
    by (simp add: concat_root_states_inj meta_to_bytes_eq_iff aux_to_bytes_eq_iff)
qed

text \<open>
  The genesis batch always has a commitment, for every protocol version and with or without the sanity
  checks, and its pass-through data is the given root and leaf index.
\<close>

theorem genesis_commitment_exists:
  "\<exists>c h. l1_batch_commitment_new keccak (for_genesis_batch root idx contracts v) disable = Inr c \<and>
     l1_batch_commitment_hash keccak c = Inr h \<and>
     hd (shared_states (lc_pass_through c)) = \<lparr>last_leaf_index = idx, rs_root_hash = root\<rparr>"
proof -
  obtain t where t: "mm_new keccak [] (Some (l2_to_l1_logs_tree_size v)) = Inr t"
    using logs_tree_new [of "[]"] by auto
  obtain r where r: "merkle_root keccak L2_TO_L1_LOG_SIZE t = Inr r"
    using merkle_root_represents [of keccak L2_TO_L1_LOG_SIZE t "[]"] from_hashes_represents [OF t [unfolded mm_new_def]]
    by auto
  obtain bs where bs: "compress_state_diffs [] = Inr bs"
    by (simp add: compress_state_diffs_def sort_state_diffs_def prepend_header_def)
  have "\<exists>aux. auxiliary_output_new keccak (for_genesis_batch root idx contracts v) disable = Inr aux"
    using t r bs
    by (simp add: for_genesis_batch_def Let_def logs_merkle_root_def serialize_commitments_def chunks.simps
        pre_boojum_serialize_commitments_def)
  then obtain aux where aux: "auxiliary_output_new keccak (for_genesis_batch root idx contracts v) disable = Inr aux" ..
  have "rollup_last_leaf_index (input_common (for_genesis_batch root idx contracts v)) = idx"
    "rollup_root_hash (input_common (for_genesis_batch root idx contracts v)) = root"
    by (simp_all add: for_genesis_batch_def Let_def)
  with aux show ?thesis
    by (simp add: l1_batch_commitment_new_def Let_def l1_batch_commitment_hash_def pass_through_hash_def
        pass_through_to_bytes_def)
qed

text \<open>
  C29. The pubdata of a batch determines its logs, messages, published bytecodes and compressed state diffs:
  parsing the constructed pubdata gives them back, as long as the counts and lengths fit into their
  four-byte fields.
\<close>

theorem construct_pubdata_roundtrip:
  assumes "length (lb_l2_to_l1_logs b) < 2 ^ 32" and "length (lb_l2_to_l1_messages b) < 2 ^ 32"
    and "length (lb_raw_published_factory_deps b) < 2 ^ 32"
    and "\<forall>x \<in> set (lb_l2_to_l1_messages b) \<union> set (lb_raw_published_factory_deps b). length x < 2 ^ 32"
  shows "parse_pubdata (construct_pubdata b) = Some b"
  using assms
  by (simp add: construct_pubdata_def parse_pubdata_def parse_u32_be_bytes parse_logs_concat parse_prefixed_concat)

text \<open>
  The serialized L2-to-L1 logs of a batch are hashed into the root of the complete Merkle tree whose leaves
  are the hashes of the 88-byte log encodings, padded to the tree size of the protocol version.
\<close>

theorem logs_root_of_batch:
  assumes "length (ci_l2_to_l1_logs common) \<le> 2 ^ MAX_TREE_DEPTH"
    and "auxiliary_output_new keccak (InputPostBoojum common system_logs diffs aux blobs aggregation) disable =
      Inr (PostBoojum out)"
  shows "post_local_root out = mm_spec_root keccak L2_TO_L1_LOG_SIZE (l2_to_l1_logs_tree_size (ci_protocol_version common))
      (map (\<lambda>l. keccak (l2_to_l1_log_bytes l)) (ci_l2_to_l1_logs common)) \<and>
    l2_l1_logs_merkle_root (post_common out) =
      (if is_pre_gateway (ci_protocol_version common) then post_local_root out
       else compress keccak (post_local_root out) aggregation) \<and>
    (system_logs \<noteq> [] \<and> \<not> disable \<longrightarrow>
       system_log_value (word_of_nat L2_TO_L1_LOGS_TREE_ROOT_KEY) system_logs =
         Some (l2_l1_logs_merkle_root (post_common out)))"
  using assms(2)
  by (auto simp: logs_merkle_root_correct [OF assms(1)] Let_def sanity_checks_def split: if_splits)

section \<open>Witnesses\<close>

definition sample_log :: l2_to_l1_log where
  "sample_log = \<lparr>shard_id = 0, is_service = True, tx_number_in_block = 3, sender = 0x8008, l1_key = 1, l1_value = 2\<rparr>"

definition sample_batch :: l1_batch_with_metadata where
  "sample_batch = \<lparr>lb_l2_to_l1_logs = [sample_log], lb_l2_to_l1_messages = [[1, 2, 3]],
     lb_raw_published_factory_deps = [[4, 5]], lb_state_diffs_compressed = [1, 0, 0, 2, 4, 0, 0]\<rparr>"

theorem construct_pubdata_roundtrip_witness:
  "parse_pubdata (construct_pubdata sample_batch) = Some sample_batch"
  by (rule construct_pubdata_roundtrip) (simp_all add: sample_batch_def)

definition sample_common :: commitment_common_input where
  "sample_common = \<lparr>ci_l2_to_l1_logs = [sample_log], rollup_last_leaf_index = 7, rollup_root_hash = 8,
     ci_bootloader_code_hash = 1, ci_default_aa_code_hash = 2, ci_evm_emulator_code_hash = None,
     ci_protocol_version = Version31\<rparr>"

definition sample_input :: commitment_input where
  "sample_input = InputPostBoojum sample_common [] []
     \<lparr>events_queue_commitment = 0, bootloader_initial_content_commitment = 0\<rparr> [] 0"

lemma sample_aux: "\<exists>out. auxiliary_output_new sum_hash sample_input False = Inr (PostBoojum out)"
proof -
  obtain bs where bs: "compress_state_diffs [] = Inr bs"
    by (simp add: compress_state_diffs_def sort_state_diffs_def prepend_header_def)
  then show ?thesis
    using logs_merkle_root_correct [of "[sample_log]" sum_hash Version31]
    by (simp add: sample_input_def sample_common_def Let_def MAX_TREE_DEPTH_def)
qed

theorem logs_root_of_batch_witness:
  "\<exists>out. auxiliary_output_new sum_hash sample_input False = Inr (PostBoojum out) \<and>
     post_local_root out = mm_spec_root sum_hash 88 16384 [sum_hash (l2_to_l1_log_bytes sample_log)]"
proof -
  obtain out where out: "auxiliary_output_new sum_hash sample_input False = Inr (PostBoojum out)"
    using sample_aux by blast
  have "length (ci_l2_to_l1_logs sample_common) \<le> 2 ^ MAX_TREE_DEPTH" by (simp add: sample_common_def)
  from logs_root_of_batch [OF this out [unfolded sample_input_def]] out show ?thesis
    by (simp add: sample_common_def L2_TO_L1_LOG_SIZE_def l2_to_l1_logs_tree_size_def is_pre_boojum_def is_1_4_0_def
        is_1_4_1_def is_pre_1_5_0_def version_order)
qed

text \<open>
  A function without a collision on the strings of one commitment: it tells their lengths apart.
\<close>

definition length_keccak :: hash_fn where
  "length_keccak bs = word_of_nat (length bs)"

definition sample_commitment :: "h256 option \<Rightarrow> l1_batch_commitment" where
  "sample_commitment emulator =
     \<lparr>lc_pass_through = \<lparr>shared_states = [\<lparr>last_leaf_index = 7, rs_root_hash = 8\<rparr>, \<lparr>last_leaf_index = 0, rs_root_hash = 0\<rparr>]\<rparr>,
      lc_auxiliary_output = PostBoojum \<lparr>post_common = \<lparr>l2_l1_logs_merkle_root = 0, ao_protocol_version = Version31\<rparr>,
        system_logs_linear_hash = 3, state_diffs_compressed = [], state_diffs_hash = 4,
        post_aux_commitments = \<lparr>events_queue_commitment = 5, bootloader_initial_content_commitment = 6\<rparr>,
        post_blob_hashes = [\<lparr>blob_commitment = 9, linear_hash = 10\<rparr>], post_aggregation_root = 0, post_local_root = 0\<rparr>,
      lc_meta_parameters = \<lparr>zkporter_is_available = False, bootloader_code_hash = 1, default_aa_code_hash = 2,
        evm_emulator_code_hash = emulator, mp_protocol_version = Some Version31\<rparr>\<rparr>"

lemma sample_commitment_bytes:
  "length (concat (map root_state_bytes (shared_states (lc_pass_through (sample_commitment e))))) = 80"
  "length (meta_to_bytes (lc_meta_parameters (sample_commitment e))) = 97"
  "length (aux_to_bytes (lc_auxiliary_output (sample_commitment e))) = 192"
  "length (commitment_preimage x y z) = 96"
  "meta_to_bytes (lc_meta_parameters (sample_commitment (Some 2))) = meta_to_bytes (lc_meta_parameters (sample_commitment None))"
  by (simp_all add: sample_commitment_def meta_to_bytes_def commitment_preimage_def is_post_1_5_0_def version_order)

text \<open>
  A missing EVM emulator is serialized as the default account's hash, so these two different
  commitments have the same hash, and by the theorem the same serialized emulator.
\<close>

theorem commitment_binds_witness:
  "\<exists>h. l1_batch_commitment_hash length_keccak (sample_commitment None) = Inr h \<and>
     l1_batch_commitment_hash length_keccak (sample_commitment (Some 2)) = Inr h \<and>
     serialized_emulator (lc_meta_parameters (sample_commitment None)) =
       serialized_emulator (lc_meta_parameters (sample_commitment (Some 2))) \<and>
     shared_states (lc_pass_through (sample_commitment None)) = shared_states (lc_pass_through (sample_commitment (Some 2)))"
proof -
  obtain h where h: "l1_batch_commitment_hash length_keccak (sample_commitment None) = Inr h"
    by (simp add: sample_commitment_def l1_batch_commitment_hash_def pass_through_hash_def pass_through_to_bytes_def Let_def)
  have pre: "commitment_preimages length_keccak (sample_commitment (Some 2)) =
      commitment_preimages length_keccak (sample_commitment None)"
    unfolding commitment_preimages_def meta_hash_def sample_commitment_bytes(5) by (simp add: sample_commitment_def)
  have h': "l1_batch_commitment_hash length_keccak (sample_commitment (Some 2)) = Inr h"
    unfolding h [symmetric] l1_batch_commitment_hash_def meta_hash_def sample_commitment_bytes(5)
    by (simp add: sample_commitment_def)
  have inj: "inj_on length_keccak (commitment_preimages length_keccak (sample_commitment None))"
    unfolding commitment_preimages_def inj_on_def length_keccak_def
    by (simp add: sample_commitment_bytes)
  from commitment_binds [OF h h'] inj h h' show ?thesis by (simp add: pre)
qed

end
