(* ===== verification/Storage_View.thy ===== *)
theory Storage_View
  imports Merkle_Witness Commitment_Types
begin

text \<open>
  The storage the VM executes on: \<open>src/crates/vm_interface/src/storage/snapshot.rs\<close> (the immutable snapshot, which
  aborts on a slot it does not hold), \<open>view.rs\<close> (the caching view over it and its immutable wrapper) and the
  \<open>ReadStorage\<close> trait of \<open>mod.rs\<close>, whose contract is the locale \<open>read_storage\<close>.

  The verifier instantiates the view with the snapshot (\<open>type VerifierStorage = StorageSnapshot\<close>), so that is the
  underlying storage here. The lemmas show that caching is transparent: every sequence of reads, initialness checks
  and writes answers as the snapshot overlaid with the writes does, aborts included.
\<close>

section \<open>Snapshot\<close>

record storage_snapshot =
  snap_storage :: storage_view
  snap_factory_deps :: "h256 \<rightharpoonup> u8 list"

definition snapshot_new :: "storage_view \<Rightarrow> (h256 \<rightharpoonup> u8 list) \<Rightarrow> storage_snapshot" where
  "snapshot_new storage deps = \<lparr>snap_storage = storage, snap_factory_deps = deps\<rparr>"

definition snapshot_entry :: "hash_fn \<Rightarrow> storage_snapshot \<Rightarrow> storage_key \<Rightarrow> (h256 \<times> u64) option res" where
  "snapshot_entry blake s k = ok_or (Panic UnknownStorageSlot) (snap_storage s (hashed_key blake k))"

definition snapshot_read_value :: "hash_fn \<Rightarrow> storage_snapshot \<Rightarrow> storage_key \<Rightarrow> h256 res" where
  "snapshot_read_value blake s k =
     and_then (snapshot_entry blake s k) (\<lambda>entry. Inr (case entry of Some (v, _) \<Rightarrow> v | None \<Rightarrow> 0))"

definition snapshot_is_write_initial :: "hash_fn \<Rightarrow> storage_snapshot \<Rightarrow> storage_key \<Rightarrow> bool res" where
  "snapshot_is_write_initial blake s k =
     and_then (snapshot_entry blake s k) (\<lambda>entry. Inr (case entry of Some (_, idx) \<Rightarrow> idx = 0 | None \<Rightarrow> True))"

definition snapshot_load_factory_dep :: "storage_snapshot \<Rightarrow> h256 \<Rightarrow> u8 list option" where
  "snapshot_load_factory_dep s h = snap_factory_deps s h"

definition snapshot_get_enumeration_index :: "hash_fn \<Rightarrow> storage_snapshot \<Rightarrow> storage_key \<Rightarrow> u64 option res" where
  "snapshot_get_enumeration_index blake s k =
     and_then (snapshot_entry blake s k) (\<lambda>entry. Inr (case entry of
        Some (_, idx) \<Rightarrow> if 0 < idx then Some idx else None | None \<Rightarrow> None))"

section \<open>Caching view\<close>

record storage_view_state =
  storage_handle :: storage_snapshot
  modified_storage_keys :: "storage_key \<rightharpoonup> h256"
  read_storage_keys :: "storage_key \<rightharpoonup> h256"
  initial_writes :: "storage_key \<rightharpoonup> bool"
  storage_invocations_missed :: nat

definition storage_view_new :: "storage_snapshot \<Rightarrow> storage_view_state" where
  "storage_view_new s = \<lparr>storage_handle = s, modified_storage_keys = Map.empty, read_storage_keys = Map.empty,
     initial_writes = Map.empty, storage_invocations_missed = 0\<rparr>"

text \<open>Reading through the cache: a miss asks the storage, records the value and counts.\<close>

definition read_missed :: "hash_fn \<Rightarrow> storage_view_state \<Rightarrow> storage_key \<Rightarrow> (h256 \<times> storage_view_state) res" where
  "read_missed blake s k =
     and_then (snapshot_read_value blake (storage_handle s) k) (\<lambda>v.
       Inr (v, s\<lparr>read_storage_keys := (read_storage_keys s)(k \<mapsto> v),
                storage_invocations_missed := storage_invocations_missed s + 1\<rparr>))"

definition get_value_no_log :: "hash_fn \<Rightarrow> storage_view_state \<Rightarrow> storage_key \<Rightarrow> (h256 \<times> storage_view_state) res" where
  "get_value_no_log blake s k =
     (case modified_storage_keys s k of
        Some v \<Rightarrow> Inr (v, s)
      | None \<Rightarrow> (case read_storage_keys s k of Some v \<Rightarrow> Inr (v, s) | None \<Rightarrow> read_missed blake s k))"

definition view_read_value :: "hash_fn \<Rightarrow> storage_view_state \<Rightarrow> storage_key \<Rightarrow> (h256 \<times> storage_view_state) res" where
  "view_read_value blake s k = get_value_no_log blake s k"

definition view_is_write_initial :: "hash_fn \<Rightarrow> storage_view_state \<Rightarrow> storage_key \<Rightarrow> (bool \<times> storage_view_state) res" where
  "view_is_write_initial blake s k =
     (case initial_writes s k of
        Some b \<Rightarrow> Inr (b, s)
      | None \<Rightarrow> and_then (snapshot_is_write_initial blake (storage_handle s) k) (\<lambda>b.
          Inr (b, s\<lparr>initial_writes := (initial_writes s)(k \<mapsto> b)\<rparr>)))"

definition view_load_factory_dep :: "storage_view_state \<Rightarrow> h256 \<Rightarrow> u8 list option" where
  "view_load_factory_dep s h = snapshot_load_factory_dep (storage_handle s) h"

definition view_get_enumeration_index :: "hash_fn \<Rightarrow> storage_view_state \<Rightarrow> storage_key \<Rightarrow> u64 option res" where
  "view_get_enumeration_index blake s k = snapshot_get_enumeration_index blake (storage_handle s) k"

definition set_value :: "hash_fn \<Rightarrow> storage_view_state \<Rightarrow> storage_key \<Rightarrow> h256 \<Rightarrow> (h256 \<times> storage_view_state) res" where
  "set_value blake s k v =
     and_then (get_value_no_log blake s k) (\<lambda>(original, s').
       Inr (original, s'\<lparr>modified_storage_keys := (modified_storage_keys s')(k \<mapsto> v)\<rparr>))"

text \<open>The immutable wrapper the fast VM reads through: it bypasses the modified keys.\<close>

definition immutable_read_value :: "hash_fn \<Rightarrow> storage_view_state \<Rightarrow> storage_key \<Rightarrow> (h256 \<times> storage_view_state) res" where
  "immutable_read_value blake s k =
     (case read_storage_keys s k of Some v \<Rightarrow> Inr (v, s) | None \<Rightarrow> read_missed blake s k)"

definition get_known_code_key :: "h256 \<Rightarrow> storage_key" where
  "get_known_code_key h = \<lparr>account = KNOWN_CODES_STORAGE_ADDRESS, slot = h\<rparr>"

text \<open>The provided method of the trait, for any \<open>read_value\<close>.\<close>

definition is_bytecode_known :: "('s \<Rightarrow> storage_key \<Rightarrow> (h256 \<times> 's) res) \<Rightarrow> 's \<Rightarrow> h256 \<Rightarrow> (bool \<times> 's) res" where
  "is_bytecode_known read s h = and_then (read s (get_known_code_key h)) (\<lambda>(v, s'). Inr (v \<noteq> 0, s'))"

section \<open>The \<open>ReadStorage\<close> contract\<close>

text \<open>
  \<open>value_of\<close> and \<open>index_of\<close> are what a storage stands for. Reading and checking initialness report it and leave it
  alone; a write is initial exactly when the key has no enumeration index.
\<close>

locale read_storage =
  fixes read :: "'s \<Rightarrow> storage_key \<Rightarrow> (h256 \<times> 's) res"
    and is_initial :: "'s \<Rightarrow> storage_key \<Rightarrow> (bool \<times> 's) res"
    and get_index :: "'s \<Rightarrow> storage_key \<Rightarrow> u64 option res"
    and inv :: "'s \<Rightarrow> bool"
    and value_of :: "'s \<Rightarrow> storage_key \<Rightarrow> h256 res"
    and index_of :: "'s \<Rightarrow> storage_key \<Rightarrow> u64 option res"
  assumes read_value: "inv s \<Longrightarrow> map_res fst (read s k) = value_of s k"
    and read_keeps: "inv s \<Longrightarrow> read s k = Inr (v, s') \<Longrightarrow> inv s' \<and> value_of s' = value_of s \<and> index_of s' = index_of s"
    and initial_value: "inv s \<Longrightarrow> map_res fst (is_initial s k) = map_res (\<lambda>i. i = None) (index_of s k)"
    and initial_keeps: "inv s \<Longrightarrow> is_initial s k = Inr (b, s') \<Longrightarrow>
      inv s' \<and> value_of s' = value_of s \<and> index_of s' = index_of s"
    and index_value: "inv s \<Longrightarrow> get_index s k = index_of s k"

text \<open>Reading a list of keys in order, stopping at the first abort.\<close>

fun read_all :: "('s \<Rightarrow> storage_key \<Rightarrow> (h256 \<times> 's) res) \<Rightarrow> 's \<Rightarrow> storage_key list \<Rightarrow> (h256 list \<times> 's) res" where
  "read_all read s [] = Inr ([], s)"
| "read_all read s (k # ks) =
     and_then (read s k) (\<lambda>(v, s'). and_then (read_all read s' ks) (\<lambda>(vs, s''). Inr (v # vs, s'')))"

context read_storage
begin

lemma read_all_values: "inv s \<Longrightarrow> map_res fst (read_all read s ks) = collect_res (map (value_of s) ks)"
proof (induction ks arbitrary: s)
  case (Cons k ks)
  show ?case
  proof (cases "read s k")
    case (Inl e)
    then show ?thesis by (simp add: read_value [OF Cons.prems, symmetric])
  next
    case (Inr r)
    obtain v s' where r: "r = (v, s')" by force
    have s': "inv s'" "value_of s' = value_of s" using read_keeps [OF Cons.prems] Inr r by blast+
    have "value_of s k = Inr v" using read_value [OF Cons.prems, of k] Inr r by simp
    moreover have "collect_res (map (value_of s) ks) = map_res fst (read_all read s' ks)"
      using Cons.IH [OF s'(1)] s'(2) by simp
    ultimately show ?thesis
      using Inr r by (cases "read_all read s' ks") (auto split: prod.splits)
  qed
qed simp

lemma bytecode_known: "inv s \<Longrightarrow> map_res fst (is_bytecode_known read s h) =
    map_res (\<lambda>v. v \<noteq> 0) (value_of s (get_known_code_key h))"
  by (cases "read s (get_known_code_key h)") (auto simp: is_bytecode_known_def read_value [symmetric])

lemma initial_iff_no_index:
  "inv s \<Longrightarrow> is_initial s k = Inr (b, s') \<Longrightarrow> \<exists>i. get_index s k = Inr i \<and> b = (i = None)"
  using initial_value [of s k] index_value [of s k] by (cases "index_of s k") auto

end

text \<open>The snapshot never changes.\<close>

lemma snapshot_initial_index:
  "snapshot_is_write_initial blake s k = map_res (\<lambda>i. i = None) (snapshot_get_enumeration_index blake s k)"
  by (cases "snapshot_entry blake s k")
    (auto simp: snapshot_is_write_initial_def snapshot_get_enumeration_index_def word_gt_0 split: option.splits)

interpretation snapshot: read_storage
  "\<lambda>s k. map_res (\<lambda>v. (v, s)) (snapshot_read_value blake s k)"
  "\<lambda>s k. map_res (\<lambda>b. (b, s)) (snapshot_is_write_initial blake s k)"
  "snapshot_get_enumeration_index blake" "\<lambda>_. True"
  "snapshot_read_value blake" "snapshot_get_enumeration_index blake" for blake
proof
  fix s k
  show "map_res fst (map_res (\<lambda>v. (v, s)) (snapshot_read_value blake s k)) = snapshot_read_value blake s k"
    by (cases "snapshot_read_value blake s k") simp_all
  show "map_res fst (map_res (\<lambda>b. (b, s)) (snapshot_is_write_initial blake s k)) =
      map_res (\<lambda>i. i = None) (snapshot_get_enumeration_index blake s k)"
    unfolding snapshot_initial_index by (cases "snapshot_get_enumeration_index blake s k") simp_all
next
  fix s k and v :: h256 and s' show
    "map_res (\<lambda>v. (v, s)) (snapshot_read_value blake s k) = Inr (v, s') \<Longrightarrow>
     True \<and> snapshot_read_value blake s' = snapshot_read_value blake s
     \<and> snapshot_get_enumeration_index blake s' = snapshot_get_enumeration_index blake s"
    by (cases "snapshot_read_value blake s k") auto
next
  fix s k b s' show
    "map_res (\<lambda>b. (b, s)) (snapshot_is_write_initial blake s k) = Inr (b, s') \<Longrightarrow>
     True \<and> snapshot_read_value blake s' = snapshot_read_value blake s
     \<and> snapshot_get_enumeration_index blake s' = snapshot_get_enumeration_index blake s"
    by (cases "snapshot_is_write_initial blake s k") auto
qed simp

section \<open>Cache coherence\<close>

text \<open>Every cached value is what the underlying storage answers.\<close>

definition cache_coherent :: "hash_fn \<Rightarrow> storage_view_state \<Rightarrow> bool" where
  "cache_coherent blake s \<longleftrightarrow>
     (\<forall>k v. read_storage_keys s k = Some v \<longrightarrow> snapshot_read_value blake (storage_handle s) k = Inr v)
     \<and> (\<forall>k b. initial_writes s k = Some b \<longrightarrow> snapshot_is_write_initial blake (storage_handle s) k = Inr b)"

text \<open>What the view stands for: the writes over the storage.\<close>

definition overlaid_value :: "hash_fn \<Rightarrow> storage_snapshot \<Rightarrow> (storage_key \<rightharpoonup> h256) \<Rightarrow> storage_key \<Rightarrow> h256 res" where
  "overlaid_value blake snap writes k =
     (case writes k of Some v \<Rightarrow> Inr v | None \<Rightarrow> snapshot_read_value blake snap k)"

lemma cache_coherent_new [simp]: "cache_coherent blake (storage_view_new s)"
  by (simp add: cache_coherent_def storage_view_new_def)

lemma cache_coherentD:
  "cache_coherent blake s \<Longrightarrow> read_storage_keys s k = Some v \<Longrightarrow> snapshot_read_value blake (storage_handle s) k = Inr v"
  "cache_coherent blake s \<Longrightarrow> initial_writes s k = Some b \<Longrightarrow> snapshot_is_write_initial blake (storage_handle s) k = Inr b"
  by (simp_all add: cache_coherent_def)

text \<open>An operation that only fills caches.\<close>

definition same_content :: "hash_fn \<Rightarrow> storage_view_state \<Rightarrow> storage_view_state \<Rightarrow> bool" where
  "same_content blake s s' \<longleftrightarrow> cache_coherent blake s' \<and> storage_handle s' = storage_handle s
     \<and> modified_storage_keys s' = modified_storage_keys s"

lemma same_content_refl: "cache_coherent blake s \<Longrightarrow> same_content blake s s"
  by (simp add: same_content_def)

lemma read_missed_cases:
  assumes "cache_coherent blake s"
  shows "map_res fst (read_missed blake s k) = snapshot_read_value blake (storage_handle s) k"
    and "read_missed blake s k = Inr (v, s') \<Longrightarrow> same_content blake s s'"
proof -
  show "map_res fst (read_missed blake s k) = snapshot_read_value blake (storage_handle s) k"
    by (cases "snapshot_read_value blake (storage_handle s) k") (simp_all add: read_missed_def)
  show "read_missed blake s k = Inr (v, s') \<Longrightarrow> same_content blake s s'"
    using assms by (auto simp: read_missed_def same_content_def cache_coherent_def split: if_splits)
qed

lemma immutable_read_cases:
  assumes "cache_coherent blake s"
  shows "map_res fst (immutable_read_value blake s k) = snapshot_read_value blake (storage_handle s) k"
    and "immutable_read_value blake s k = Inr (v, s') \<Longrightarrow> same_content blake s s'"
  using read_missed_cases [OF assms, of k] cache_coherentD(1) [OF assms, of k] same_content_refl [OF assms]
  by (auto simp: immutable_read_value_def split: option.splits)

lemma get_value_no_log_immutable:
  "get_value_no_log blake s k =
     (case modified_storage_keys s k of Some v \<Rightarrow> Inr (v, s) | None \<Rightarrow> immutable_read_value blake s k)"
  unfolding get_value_no_log_def immutable_read_value_def by (rule refl)

lemma get_value_no_log_cases:
  assumes "cache_coherent blake s"
  shows "map_res fst (get_value_no_log blake s k) = overlaid_value blake (storage_handle s) (modified_storage_keys s) k"
    and "get_value_no_log blake s k = Inr (v, s') \<Longrightarrow> same_content blake s s'"
  using immutable_read_cases [OF assms, of k] same_content_refl [OF assms]
  by (auto simp: get_value_no_log_immutable overlaid_value_def split: option.splits)

lemma view_is_write_initial_cases:
  assumes "cache_coherent blake s"
  shows "map_res fst (view_is_write_initial blake s k) = snapshot_is_write_initial blake (storage_handle s) k"
    and "view_is_write_initial blake s k = Inr (b, s') \<Longrightarrow> same_content blake s s'"
proof -
  show "map_res fst (view_is_write_initial blake s k) = snapshot_is_write_initial blake (storage_handle s) k"
    using cache_coherentD(2) [OF assms, of k]
    by (cases "initial_writes s k"; cases "snapshot_is_write_initial blake (storage_handle s) k")
      (auto simp: view_is_write_initial_def)
  show "view_is_write_initial blake s k = Inr (b, s') \<Longrightarrow> same_content blake s s'"
    using assms by (auto simp: view_is_write_initial_def same_content_def cache_coherent_def split: option.splits if_splits)
qed

lemma set_value_cases:
  assumes "cache_coherent blake s"
  shows "map_res fst (set_value blake s k v) = overlaid_value blake (storage_handle s) (modified_storage_keys s) k"
    and "set_value blake s k v = Inr (old, s') \<Longrightarrow> cache_coherent blake s' \<and> storage_handle s' = storage_handle s
      \<and> modified_storage_keys s' = (modified_storage_keys s)(k \<mapsto> v)"
proof -
  show "map_res fst (set_value blake s k v) = overlaid_value blake (storage_handle s) (modified_storage_keys s) k"
    using get_value_no_log_cases(1) [OF assms, of k]
    by (cases "get_value_no_log blake s k") (auto simp: set_value_def split: prod.splits)
  show "set_value blake s k v = Inr (old, s') \<Longrightarrow> cache_coherent blake s' \<and> storage_handle s' = storage_handle s
      \<and> modified_storage_keys s' = (modified_storage_keys s)(k \<mapsto> v)"
    using get_value_no_log_cases(2) [OF assms]
    by (fastforce simp: set_value_def same_content_def cache_coherent_def split: prod.splits)
qed

text \<open>Both views keep the contract: the caching one over the overlaid values, the immutable one over the storage's.\<close>

interpretation view: read_storage "view_read_value blake" "view_is_write_initial blake" "view_get_enumeration_index blake"
  "cache_coherent blake" "\<lambda>s. overlaid_value blake (storage_handle s) (modified_storage_keys s)"
  "\<lambda>s. snapshot_get_enumeration_index blake (storage_handle s)" for blake
proof
  fix s k v s' assume s: "cache_coherent blake s"
  show "map_res fst (view_read_value blake s k) = overlaid_value blake (storage_handle s) (modified_storage_keys s) k"
    unfolding view_read_value_def by (rule get_value_no_log_cases [OF s])
  show "view_read_value blake s k = Inr (v, s') \<Longrightarrow> cache_coherent blake s'
      \<and> overlaid_value blake (storage_handle s') (modified_storage_keys s') =
        overlaid_value blake (storage_handle s) (modified_storage_keys s)
      \<and> snapshot_get_enumeration_index blake (storage_handle s') = snapshot_get_enumeration_index blake (storage_handle s)"
    unfolding view_read_value_def using get_value_no_log_cases(2) [OF s] by (auto simp: same_content_def)
next
  fix s k b s' assume s: "cache_coherent blake s"
  show "map_res fst (view_is_write_initial blake s k) =
      map_res (\<lambda>i. i = None) (snapshot_get_enumeration_index blake (storage_handle s) k)"
    using view_is_write_initial_cases(1) [OF s] by (simp add: snapshot_initial_index)
  show "view_is_write_initial blake s k = Inr (b, s') \<Longrightarrow> cache_coherent blake s'
      \<and> overlaid_value blake (storage_handle s') (modified_storage_keys s') =
        overlaid_value blake (storage_handle s) (modified_storage_keys s)
      \<and> snapshot_get_enumeration_index blake (storage_handle s') = snapshot_get_enumeration_index blake (storage_handle s)"
    using view_is_write_initial_cases(2) [OF s] by (auto simp: same_content_def)
qed (simp add: view_get_enumeration_index_def)

interpretation immutable: read_storage "immutable_read_value blake" "view_is_write_initial blake"
  "view_get_enumeration_index blake" "cache_coherent blake" "\<lambda>s. snapshot_read_value blake (storage_handle s)"
  "\<lambda>s. snapshot_get_enumeration_index blake (storage_handle s)" for blake
proof
  fix s k v s' assume s: "cache_coherent blake s"
  show "map_res fst (immutable_read_value blake s k) = snapshot_read_value blake (storage_handle s) k"
    by (rule immutable_read_cases [OF s])
  show "immutable_read_value blake s k = Inr (v, s') \<Longrightarrow> cache_coherent blake s'
      \<and> snapshot_read_value blake (storage_handle s') = snapshot_read_value blake (storage_handle s)
      \<and> snapshot_get_enumeration_index blake (storage_handle s') = snapshot_get_enumeration_index blake (storage_handle s)"
    using immutable_read_cases(2) [OF s] by (auto simp: same_content_def)
next
  fix s k b s' assume s: "cache_coherent blake s"
  show "map_res fst (view_is_write_initial blake s k) =
      map_res (\<lambda>i. i = None) (snapshot_get_enumeration_index blake (storage_handle s) k)"
    using view_is_write_initial_cases(1) [OF s] by (simp add: snapshot_initial_index)
  show "view_is_write_initial blake s k = Inr (b, s') \<Longrightarrow> cache_coherent blake s'
      \<and> snapshot_read_value blake (storage_handle s') = snapshot_read_value blake (storage_handle s)
      \<and> snapshot_get_enumeration_index blake (storage_handle s') = snapshot_get_enumeration_index blake (storage_handle s)"
    using view_is_write_initial_cases(2) [OF s] by (auto simp: same_content_def)
qed (simp add: view_get_enumeration_index_def)

section \<open>Sequences of operations\<close>

datatype view_op =
    OpRead storage_key | OpImmutableRead storage_key | OpIsWriteInitial storage_key
  | OpGetEnumerationIndex storage_key | OpSetValue storage_key h256

datatype view_answer = AnsValue h256 | AnsInitial bool | AnsIndex "u64 option"

definition run_view_op :: "hash_fn \<Rightarrow> storage_view_state \<Rightarrow> view_op \<Rightarrow> (view_answer \<times> storage_view_state) res" where
  "run_view_op blake s op = (case op of
      OpRead k \<Rightarrow> and_then (view_read_value blake s k) (\<lambda>(v, s'). Inr (AnsValue v, s'))
    | OpImmutableRead k \<Rightarrow> and_then (immutable_read_value blake s k) (\<lambda>(v, s'). Inr (AnsValue v, s'))
    | OpIsWriteInitial k \<Rightarrow> and_then (view_is_write_initial blake s k) (\<lambda>(b, s'). Inr (AnsInitial b, s'))
    | OpGetEnumerationIndex k \<Rightarrow> and_then (view_get_enumeration_index blake s k) (\<lambda>i. Inr (AnsIndex i, s))
    | OpSetValue k v \<Rightarrow> and_then (set_value blake s k v) (\<lambda>(old, s'). Inr (AnsValue old, s')))"

fun run_view :: "hash_fn \<Rightarrow> storage_view_state \<Rightarrow> view_op list \<Rightarrow> view_answer list res" where
  "run_view blake s [] = Inr []"
| "run_view blake s (op # ops) =
     and_then (run_view_op blake s op) (\<lambda>(a, s'). and_then (run_view blake s' ops) (\<lambda>as. Inr (a # as)))"

text \<open>The specification: no caches, only the snapshot and the writes so far.\<close>

definition spec_view_op ::
  "hash_fn \<Rightarrow> storage_snapshot \<Rightarrow> (storage_key \<rightharpoonup> h256) \<Rightarrow> view_op \<Rightarrow> (view_answer \<times> (storage_key \<rightharpoonup> h256)) res" where
  "spec_view_op blake snap writes op = (case op of
      OpRead k \<Rightarrow> map_res (\<lambda>v. (AnsValue v, writes)) (overlaid_value blake snap writes k)
    | OpImmutableRead k \<Rightarrow> map_res (\<lambda>v. (AnsValue v, writes)) (snapshot_read_value blake snap k)
    | OpIsWriteInitial k \<Rightarrow> map_res (\<lambda>b. (AnsInitial b, writes)) (snapshot_is_write_initial blake snap k)
    | OpGetEnumerationIndex k \<Rightarrow> map_res (\<lambda>i. (AnsIndex i, writes)) (snapshot_get_enumeration_index blake snap k)
    | OpSetValue k v \<Rightarrow> map_res (\<lambda>old. (AnsValue old, writes(k \<mapsto> v))) (overlaid_value blake snap writes k))"

fun spec_view :: "hash_fn \<Rightarrow> storage_snapshot \<Rightarrow> (storage_key \<rightharpoonup> h256) \<Rightarrow> view_op list \<Rightarrow> view_answer list res" where
  "spec_view blake snap writes [] = Inr []"
| "spec_view blake snap writes (op # ops) =
     and_then (spec_view_op blake snap writes op) (\<lambda>(a, w). and_then (spec_view blake snap w ops) (\<lambda>as. Inr (a # as)))"

lemma map_res_fst_and_then:
  assumes "map_res fst m = r" and "\<And>v s'. m = Inr (v, s') \<Longrightarrow> g s' = w"
  shows "map_res (\<lambda>(a, s'). (a, g s')) (and_then m (\<lambda>(v, s'). Inr (f v, s'))) = map_res (\<lambda>v. (f v, w)) r"
  using assms by (cases m) auto

lemma run_view_op_refines:
  assumes "cache_coherent blake s"
  shows "map_res (\<lambda>(a, s'). (a, modified_storage_keys s')) (run_view_op blake s op) =
    spec_view_op blake (storage_handle s) (modified_storage_keys s) op"
proof (cases op)
  case (OpRead k)
  show ?thesis
    unfolding OpRead run_view_op_def spec_view_op_def view_op.case view_read_value_def
    by (rule map_res_fst_and_then [OF get_value_no_log_cases(1) [OF assms]]) (use get_value_no_log_cases(2) [OF assms] in \<open>simp add: same_content_def\<close>)
next
  case (OpImmutableRead k)
  show ?thesis
    unfolding OpImmutableRead run_view_op_def spec_view_op_def view_op.case
    by (rule map_res_fst_and_then [OF immutable_read_cases(1) [OF assms]]) (use immutable_read_cases(2) [OF assms] in \<open>simp add: same_content_def\<close>)
next
  case (OpIsWriteInitial k)
  show ?thesis
    unfolding OpIsWriteInitial run_view_op_def spec_view_op_def view_op.case
    by (rule map_res_fst_and_then [OF view_is_write_initial_cases(1) [OF assms]]) (use view_is_write_initial_cases(2) [OF assms] in \<open>simp add: same_content_def\<close>)
next
  case (OpGetEnumerationIndex k)
  then show ?thesis
    by (cases "snapshot_get_enumeration_index blake (storage_handle s) k")
      (simp_all add: run_view_op_def spec_view_op_def view_get_enumeration_index_def)
next
  case (OpSetValue k v)
  show ?thesis
    unfolding OpSetValue run_view_op_def spec_view_op_def view_op.case
    by (rule map_res_fst_and_then [OF set_value_cases(1) [OF assms]]) (use set_value_cases(2) [OF assms] in blast)
qed

lemma run_view_op_coherent:
  assumes "cache_coherent blake s" and "run_view_op blake s op = Inr (a, s')"
  shows "cache_coherent blake s' \<and> storage_handle s' = storage_handle s"
proof (cases op)
  case (OpRead k)
  with assms(2) get_value_no_log_cases(2) [OF assms(1), of k] show ?thesis
    by (auto simp: run_view_op_def view_read_value_def same_content_def)
next
  case (OpImmutableRead k)
  with assms(2) immutable_read_cases(2) [OF assms(1), of k] show ?thesis
    by (auto simp: run_view_op_def same_content_def)
next
  case (OpIsWriteInitial k)
  with assms(2) view_is_write_initial_cases(2) [OF assms(1), of k] show ?thesis
    by (auto simp: run_view_op_def same_content_def)
next
  case (OpSetValue k v)
  with assms(2) set_value_cases(2) [OF assms(1), of k v] show ?thesis by (auto simp: run_view_op_def)
qed (use assms in \<open>auto simp: run_view_op_def\<close>)

text \<open>
  C23. The caching storage view is transparent: any sequence of reads, immutable reads, initialness and index queries
  and writes on a fresh view answers, and aborts, exactly as the snapshot overlaid with the writes so far; immutable
  reads and initialness never see the writes.
\<close>

theorem storage_view_refines:
  "run_view blake (storage_view_new snap) ops = spec_view blake snap Map.empty ops"
proof -
  have "cache_coherent blake s \<Longrightarrow> run_view blake s ops = spec_view blake (storage_handle s) (modified_storage_keys s) ops" for s
  proof (induction ops arbitrary: s)
    case (Cons op ops)
    show ?case
    proof (cases "run_view_op blake s op")
      case (Inl e)
      then show ?thesis by (simp add: run_view_op_refines [OF Cons.prems, symmetric])
    next
      case (Inr r)
      obtain a s' where r: "r = (a, s')" by force
      with Inr run_view_op_coherent [OF Cons.prems] have "cache_coherent blake s'" "storage_handle s' = storage_handle s"
        by auto
      with Inr r Cons.IH show ?thesis by (simp add: run_view_op_refines [OF Cons.prems, symmetric])
    qed
  qed simp
  from this [OF cache_coherent_new] show ?thesis by (simp add: storage_view_new_def)
qed

end
