(* ===== verification/Verifier_Commitment.thy ===== *)
theory Verifier_Commitment
  imports Commitment_Types
begin

text \<open>
  Commitment helpers of the verifier: \<open>src/crates/airbender_verifier/src/commitment.rs\<close>. Keccak-256 is the
  parameter \<open>keccak\<close>; the BLS12-381 scalar field of \<open>ark-bls12-381\<close> is the record parameter \<open>scalar_field\<close>,
  with the arithmetic it implements as the locale \<open>prime_scalar_field\<close>.
\<close>

section \<open>Definitions\<close>

definition TOTAL_BLOBS_IN_COMMITMENT :: nat where "TOTAL_BLOBS_IN_COMMITMENT = 16"

definition compute_pass_through_data_hash :: "hash_fn \<Rightarrow> u64 \<Rightarrow> h256 \<Rightarrow> h256 res" where
  "compute_pass_through_data_hash keccak index state_root =
     (case pass_through_hash keccak
        \<lparr>shared_states = [\<lparr>last_leaf_index = index, rs_root_hash = state_root\<rparr>,
                          \<lparr>last_leaf_index = 0, rs_root_hash = 0\<rparr>]\<rparr> of
        Inl _ \<Rightarrow> Inl (Panic PassThroughSize)
      | Inr h \<Rightarrow> Inr h)"

definition compute_commitment :: "hash_fn \<Rightarrow> h256 \<Rightarrow> h256 \<Rightarrow> h256 \<Rightarrow> h256" where
  "compute_commitment keccak pass_through_data_hash metadata_hash auxiliary_output_hash =
     keccak (commitment_preimage pass_through_data_hash metadata_hash auxiliary_output_hash)"

text \<open>\<open>chunks_exact(4)\<close>, each chunk read little-endian.\<close>

definition bytes32_to_u32x8 :: "u8 list \<Rightarrow> u32 list" where
  "bytes32_to_u32x8 hash = map (\<lambda>i. from_le_bytes (take 4 (drop (4 * i) hash))) [0..<8]"

definition compute_proof_public_input :: "hash_fn \<Rightarrow> h256 \<Rightarrow> h256 \<Rightarrow> u32 list" where
  "compute_proof_public_input keccak prev_batch_commitment current_commitment =
     bytes32_to_u32x8 (as_bytes (keccak (as_bytes prev_batch_commitment @ as_bytes current_commitment)))"

definition BLOB_CHUNK_SIZE :: nat where "BLOB_CHUNK_SIZE = 31"
definition ELEMENTS_PER_4844_BLOCK :: nat where "ELEMENTS_PER_4844_BLOCK = 4096"
definition ZK_SYNC_BYTES_PER_BLOB :: nat where "ZK_SYNC_BYTES_PER_BLOB = BLOB_CHUNK_SIZE * ELEMENTS_PER_4844_BLOCK"

definition padded_blob_for :: "u8 list \<Rightarrow> nat \<Rightarrow> u8 list option" where
  "padded_blob_for pubdata i =
     (let start = i * ZK_SYNC_BYTES_PER_BLOB
      in if length pubdata \<le> start then None
         else let end_pos = min ((i + 1) * ZK_SYNC_BYTES_PER_BLOB) (length pubdata)
              in Some (slice start end_pos pubdata @ replicate (ZK_SYNC_BYTES_PER_BLOB - (end_pos - start)) 0))"

definition compute_blob_linear_hashes :: "hash_fn \<Rightarrow> u8 list \<Rightarrow> h256 list" where
  "compute_blob_linear_hashes keccak pubdata =
     map (\<lambda>i. case padded_blob_for pubdata i of Some blob \<Rightarrow> keccak blob | None \<Rightarrow> 0) [0..<TOTAL_BLOBS_IN_COMMITMENT]"

text \<open>The field operations the code calls.\<close>

record 'f scalar_field =
  fr_zero :: 'f
  fr_mul :: "'f \<Rightarrow> 'f \<Rightarrow> 'f"
  fr_add :: "'f \<Rightarrow> 'f \<Rightarrow> 'f"
  from_be_bytes_mod_order :: "u8 list \<Rightarrow> 'f"
  from_le_bytes_mod_order :: "u8 list \<Rightarrow> 'f"
  fr_to_bytes_be :: "'f \<Rightarrow> u8 list"

text \<open>
  Horner's rule over the chunks: the first 31 bytes of the buffer are overwritten by each chunk, the last byte
  stays 0. \<open>copy_from_slice\<close> panics on a chunk of another length.
\<close>

fun horner :: "'f scalar_field \<Rightarrow> 'f \<Rightarrow> u8 list list \<Rightarrow> 'f \<Rightarrow> 'f res" where
  "horner F x [] acc = Inr acc"
| "horner F x (chunk # rest) acc =
     ensure (length chunk = BLOB_CHUNK_SIZE) (Panic IndexOutOfBounds)
       (horner F x rest (fr_add F (fr_mul F acc x) (from_le_bytes_mod_order F (chunk @ [0]))))"

definition compute_blob_opening_commitment ::
  "hash_fn \<Rightarrow> 'f scalar_field \<Rightarrow> u8 list \<Rightarrow> h256 \<Rightarrow> h256 \<Rightarrow> h256 res" where
  "compute_blob_opening_commitment keccak F blob_bytes versioned_hash linear =
     (let eval_hash = as_bytes (keccak (as_bytes linear @ as_bytes versioned_hash));
          evaluation_point = from_be_bytes_mod_order F (replicate 16 0 @ drop 16 eval_hash)
      in and_then (horner F evaluation_point (chunks BLOB_CHUNK_SIZE blob_bytes) (fr_zero F)) (\<lambda>opening_value.
         Inr (keccak (as_bytes versioned_hash @ drop 16 eval_hash @ fr_to_bytes_be F opening_value))))"

text \<open>
  The bytes of blob \<open>i\<close> in \<open>verify_blob_hashes\<close>: a full slot is read from the pubdata, a partial one is written
  into the scratch buffer, whose previous contents are overwritten or cleared.
\<close>

definition blob_bytes_for :: "u8 list \<Rightarrow> nat \<Rightarrow> u8 list option \<Rightarrow> u8 list \<times> u8 list option" where
  "blob_bytes_for pubdata i scratch =
     (let start = i * ZK_SYNC_BYTES_PER_BLOB;
          end_pos = min ((i + 1) * ZK_SYNC_BYTES_PER_BLOB) (length pubdata)
      in if end_pos - start = ZK_SYNC_BYTES_PER_BLOB then (slice start end_pos pubdata, scratch)
         else let buf = (case scratch of Some b \<Rightarrow> b | None \<Rightarrow> replicate ZK_SYNC_BYTES_PER_BLOB 0);
                  buf = slice start end_pos pubdata @ drop (end_pos - start) buf;
                  buf = take (end_pos - start) buf @ replicate (length buf - (end_pos - start)) 0
              in (buf, Some buf))"

fun verify_blobs_loop ::
  "hash_fn \<Rightarrow> 'f scalar_field \<Rightarrow> u8 list \<Rightarrow> h256 list \<Rightarrow> nat \<Rightarrow> blob_hash list \<Rightarrow> u8 list option \<Rightarrow> unit res" where
  "verify_blobs_loop keccak F pubdata versioned i [] scratch = Inr ()"
| "verify_blobs_loop keccak F pubdata versioned i (b # rest) scratch =
     (if linear_hash b = 0 then
        ensure (blob_commitment b = 0) (Commitment (BlobZeroLinearNonZeroCommitment i))
          (verify_blobs_loop keccak F pubdata versioned (Suc i) rest scratch)
      else ensure (i < div_ceil (length pubdata) ZK_SYNC_BYTES_PER_BLOB) (Commitment (BlobNoPubdata i))
        (let (bytes, scratch') = blob_bytes_for pubdata i scratch
         in ensure (linear_hash b = keccak bytes) (Commitment (BlobLinearMismatch i))
           (and_then (compute_blob_opening_commitment keccak F bytes (versioned ! i) (linear_hash b)) (\<lambda>c.
             ensure (blob_commitment b = c) (Commitment (BlobCommitmentMismatch i))
               (verify_blobs_loop keccak F pubdata versioned (Suc i) rest scratch')))))"

definition verify_blob_hashes ::
  "hash_fn \<Rightarrow> 'f scalar_field \<Rightarrow> u8 list \<Rightarrow> h256 list \<Rightarrow> blob_hash list \<Rightarrow> unit res" where
  "verify_blob_hashes keccak F pubdata versioned blobs =
     ensure (length versioned = length blobs) (Commitment (BlobArrayLength (length versioned) (length blobs)))
       (verify_blobs_loop keccak F pubdata versioned 0 blobs None)"

definition write_word :: "nat \<Rightarrow> u256 \<Rightarrow> u8 list \<Rightarrow> u8 list" where
  "write_word offset v mem = take (32 * offset) mem @ be_bytes 32 v @ drop (32 * offset + 32) mem"

fun expand_heap_loop :: "(nat \<times> u256) list \<Rightarrow> nat \<Rightarrow> u8 list \<Rightarrow> u8 list res" where
  "expand_heap_loop [] memory_size mem = Inr mem"
| "expand_heap_loop ((offset, v) # rest) memory_size mem =
     ensure (offset * 32 + 32 \<le> memory_size) (Panic (HeapEntryOutOfRange offset))
       (expand_heap_loop rest memory_size (write_word offset v mem))"

definition expand_bootloader_heap :: "(nat \<times> u256) list \<Rightarrow> nat \<Rightarrow> u8 list res" where
  "expand_bootloader_heap initial_heap_content memory_size_bytes =
     expand_heap_loop initial_heap_content memory_size_bytes (replicate memory_size_bytes 0)"

section \<open>Pass-through data\<close>

lemma compute_pass_through_total:
  "compute_pass_through_data_hash keccak index root =
     Inr (keccak (be_bytes 8 index @ as_bytes root @ replicate 40 0))"
  by (simp add: compute_pass_through_data_hash_def pass_through_hash_def pass_through_to_bytes_def Let_def
      root_state_bytes_def replicate_add [symmetric])

section \<open>Proof public input\<close>

lemma concat_le_words:
  assumes "length bs = 4 * n"
  shows "concat (map (\<lambda>i. le_bytes 4 (from_le_bytes (take 4 (drop (4 * i) bs)) :: u32)) [0..<n]) = bs"
  using assms
proof (induction n arbitrary: bs)
  case 0
  then show ?case by simp
next
  case (Suc n)
  have "concat (map (\<lambda>i. le_bytes 4 (from_le_bytes (take 4 (drop (4 * i) (drop 4 bs))) :: u32)) [0..<n]) = drop 4 bs"
    using Suc.prems by (intro Suc.IH) simp
  then show ?case
    using Suc.prems
    by (simp add: upt_conv_Cons map_Suc_upt [symmetric] comp_def add.commute del: upt_Suc)
qed

lemma from_le_bytes_drop:
  assumes "8 * n = LENGTH('a)"
  shows "from_le_bytes (drop k (le_bytes n w)) = (drop_bit (8 * k) w :: 'a::len word)"
proof (rule bit_word_eqI)
  fix i assume i: "i < LENGTH('a)"
  have idx: "8 * (k + i div 8) + i mod 8 = 8 * k + i" by (simp add: algebra_simps)
  show "bit (from_le_bytes (drop k (le_bytes n w)) :: 'a word) i = bit (drop_bit (8 * k) w) i"
  proof (cases "k + i div 8 < n")
    case True
    then show ?thesis
      using i idx by (auto simp: bit_from_le_bytes nth_le_bytes bit_ucast_iff bit_drop_bit_eq add.commute)
  next
    case False
    then have "LENGTH('a) \<le> 8 * k + i" using assms idx by linarith
    then show ?thesis using False by (auto simp: bit_from_le_bytes bit_drop_bit_eq dest: bit_imp_le_length)
  qed
qed

lemma from_be_bytes_take:
  assumes "8 * n = LENGTH('a)" "k \<le> n"
  shows "from_be_bytes (take k (be_bytes n w)) = (drop_bit (8 * (n - k)) w :: 'a::len word)"
  using assms by (simp add: from_be_bytes_def be_bytes_def rev_take from_le_bytes_drop)

text \<open>What \<open>zkos-wrapper\<close> reads of the first \<open>n\<close> output registers: their little-endian bytes as one big-endian integer.\<close>

definition registers_value :: "nat \<Rightarrow> u32 list \<Rightarrow> u256" where
  "registers_value n regs = from_be_bytes (concat (map (le_bytes 4) (take n regs)))"

lemma registers_value_bytes:
  assumes "n \<le> 8"
  shows "registers_value n (bytes32_to_u32x8 (as_bytes h)) = drop_bit (8 * (32 - 4 * n)) h"
proof -
  have "concat (map (le_bytes 4) (take n (bytes32_to_u32x8 (as_bytes h)))) =
      concat (map (\<lambda>i. le_bytes 4 (from_le_bytes (take 4 (drop (4 * i) (take (4 * n) (as_bytes h)))) :: u32)) [0..<n])"
    using assms by (simp add: bytes32_to_u32x8_def take_map comp_def drop_take min_def
        cong: map_cong)
      (intro arg_cong [where f = concat] map_cong, auto simp: min_def)
  also have "\<dots> = take (4 * n) (as_bytes h)" using assms by (intro concat_le_words) simp
  finally show ?thesis using assms by (simp add: registers_value_def from_be_bytes_take)
qed

text \<open>
  The public input handed to the proof is \<open>keccak(prev || current)\<close>: the eight output registers carry the whole
  digest, and the first seven of them, which are what the SNARK wrapper packs, are the digest shifted right by 32
  bits, the value L1 computes.
\<close>

theorem proof_public_input_shift:
  "length (compute_proof_public_input keccak prev cur) = 8
   \<and> registers_value 8 (compute_proof_public_input keccak prev cur) = keccak (as_bytes prev @ as_bytes cur)
   \<and> registers_value 7 (compute_proof_public_input keccak prev cur) =
       drop_bit 32 (keccak (as_bytes prev @ as_bytes cur))"
  using registers_value_bytes [of 8] registers_value_bytes [of 7]
  by (simp add: compute_proof_public_input_def) (simp add: bytes32_to_u32x8_def)

section \<open>Bootloader heap\<close>

lemma length_write_word: "32 * o1 + 32 \<le> length mem \<Longrightarrow> length (write_word o1 v mem) = length mem"
  by (simp add: write_word_def)

abbreviation heap_word :: "nat \<Rightarrow> u8 list \<Rightarrow> u8 list" where
  "heap_word k mem \<equiv> slice (32 * k) (32 * k + 32) mem"

lemma heap_word_write:
  assumes "32 * o1 + 32 \<le> length mem" "32 * k + 32 \<le> length mem"
  shows "heap_word k (write_word o1 v mem) = (if k = o1 then be_bytes 32 v else heap_word k mem)"
proof -
  consider "k = o1" | "k < o1" | "o1 < k" by linarith
  then show ?thesis
  proof cases
    case 1
    with assms show ?thesis by (simp add: slice_def write_word_def)
  next
    case 2
    then have "32 * k + 32 \<le> 32 * o1" by simp
    with 2 assms show ?thesis by (simp add: slice_def write_word_def min_def)
  next
    case 3
    then obtain d where "k = o1 + 1 + d" using less_imp_Suc_add by fastforce
    with assms show ?thesis by (simp add: slice_def write_word_def drop_take add.commute algebra_simps)
  qed
qed

lemma expand_heap_loop_ok:
  assumes "length mem = n" "\<forall>(o1, v) \<in> set entries. 32 * o1 + 32 \<le> n"
  shows "\<exists>mem'. expand_heap_loop entries n mem = Inr mem' \<and> length mem' = n \<and>
    (\<forall>k. 32 * k + 32 \<le> n \<longrightarrow> heap_word k mem' =
       (case map_of (rev entries) k of Some v \<Rightarrow> be_bytes 32 v | None \<Rightarrow> heap_word k mem))"
  using assms
proof (induction entries arbitrary: mem)
  case Nil
  then show ?case by simp
next
  case (Cons e entries)
  obtain o1 v where e: "e = (o1, v)" by force
  have b: "32 * o1 + 32 \<le> n" using Cons.prems e by auto
  then have "length (write_word o1 v mem) = n" using Cons.prems by (simp add: length_write_word)
  with Cons.IH [of "write_word o1 v mem"] Cons.prems obtain mem' where
    m: "expand_heap_loop entries n (write_word o1 v mem) = Inr mem'" "length mem' = n"
    "\<And>k. 32 * k + 32 \<le> n \<Longrightarrow> heap_word k mem' =
       (case map_of (rev entries) k of Some v \<Rightarrow> be_bytes 32 v | None \<Rightarrow> heap_word k (write_word o1 v mem))"
    by auto
  have "heap_word k mem' = (case map_of (rev (e # entries)) k of Some v \<Rightarrow> be_bytes 32 v | None \<Rightarrow> heap_word k mem)"
    if "32 * k + 32 \<le> n" for k
    using m(3) [OF that] that b Cons.prems(1)
    by (auto simp: e heap_word_write map_add_def split: option.splits)
  with m(1,2) b show ?case by (simp add: e mult.commute)
qed

lemma expand_heap_loop_panics:
  assumes "\<exists>(o1, v) \<in> set entries. n < 32 * o1 + 32"
  shows "\<exists>o1. expand_heap_loop entries n mem = Inl (Panic (HeapEntryOutOfRange o1)) \<and> n < 32 * o1 + 32"
  using assms
proof (induction entries arbitrary: mem)
  case (Cons e entries)
  then show ?case by (cases e) (auto simp: ensure_def mult.commute not_le)
qed simp

text \<open>
  Expanding the sparse bootloader heap: if every entry fits, the result is the buffer of the requested size in
  which the 32-byte word at each offset is the last entry for that offset in big-endian form, or zero where there is
  none; otherwise the expansion aborts on an entry past the end.
\<close>

theorem expand_bootloader_heap_correct:
  "if \<forall>(o1, v) \<in> set heap. 32 * o1 + 32 \<le> n
   then \<exists>mem. expand_bootloader_heap heap n = Inr mem \<and> length mem = n
     \<and> (\<forall>k. 32 * k + 32 \<le> n \<longrightarrow>
          heap_word k mem = be_bytes 32 (case map_of (rev heap) k of Some v \<Rightarrow> v | None \<Rightarrow> 0))
   else \<exists>o1. expand_bootloader_heap heap n = Inl (Panic (HeapEntryOutOfRange o1)) \<and> n < 32 * o1 + 32"
proof (cases "\<forall>(o1, v) \<in> set heap. 32 * o1 + 32 \<le> n")
  case True
  have z: "(case x of Some v \<Rightarrow> be_bytes 32 v | None \<Rightarrow> heap_word k (replicate n 0)) =
      be_bytes 32 (case x of Some v \<Rightarrow> v | None \<Rightarrow> 0)" if "32 * k + 32 \<le> n" for k and x :: "u256 option"
    using that by (cases x) (simp_all add: slice_def)
  obtain mem where "expand_bootloader_heap heap n = Inr mem" "length mem = n"
    "\<forall>k. 32 * k + 32 \<le> n \<longrightarrow> heap_word k mem =
       (case map_of (rev heap) k of Some v \<Rightarrow> be_bytes 32 v | None \<Rightarrow> heap_word k (replicate n 0))"
    using expand_heap_loop_ok [OF length_replicate True] unfolding expand_bootloader_heap_def by blast
  then show ?thesis unfolding if_P [OF True] using z by metis
next
  case False
  then have "\<exists>(o1, v) \<in> set heap. n < 32 * o1 + 32" by (force simp: not_le)
  with False expand_heap_loop_panics show ?thesis unfolding expand_bootloader_heap_def by auto
qed

theorem expand_bootloader_heap_correct_witness:
  "\<exists>mem. expand_bootloader_heap [(1, 5), (0, 7), (1, 9)] 96 = Inr mem \<and> length mem = 96
     \<and> heap_word 1 mem = be_bytes 32 (9 :: u256) \<and> heap_word 2 mem = be_bytes 32 (0 :: u256)"
proof -
  obtain mem where "expand_bootloader_heap [(1, 5), (0, 7), (1, 9)] 96 = Inr mem" "length mem = 96"
    "\<forall>k. 32 * k + 32 \<le> 96 \<longrightarrow> heap_word k mem =
       be_bytes 32 (case map_of (rev [(1, 5 :: u256), (0, 7), (1, 9)]) k of Some v \<Rightarrow> v | None \<Rightarrow> 0)"
    using expand_bootloader_heap_correct [of "[(1, 5), (0, 7), (1, 9)]" 96] by auto
  moreover from this(3) have "heap_word 1 mem = be_bytes 32 (9 :: u256)" by (auto dest!: spec [of _ 1])
  moreover from calculation(3) have "heap_word 2 mem = be_bytes 32 (0 :: u256)" by (auto dest!: spec [of _ 2])
  ultimately show ?thesis by blast
qed

section \<open>Blob hashes\<close>

lemma zk_sync_bytes_per_blob [simp]: "ZK_SYNC_BYTES_PER_BLOB = 126976"
  by (simp add: ZK_SYNC_BYTES_PER_BLOB_def BLOB_CHUNK_SIZE_def ELEMENTS_PER_4844_BLOCK_def)

text \<open>The slot is past the pubdata exactly where \<open>padded_blob_for\<close> has nothing to return.\<close>

lemma padded_blob_for_None: "padded_blob_for pubdata i = None \<longleftrightarrow> \<not> i < div_ceil (length pubdata) ZK_SYNC_BYTES_PER_BLOB"
proof -
  have "i < div_ceil n 126976 \<longleftrightarrow> i * 126976 < n" for n
  proof -
    define q r where "q = n div 126976" and "r = n mod 126976"
    then have "n = q * 126976 + r" "r < 126976" by simp_all
    then show ?thesis unfolding div_ceil_def q_def [symmetric] r_def [symmetric] by (cases "r = 0") (simp, simp, linarith)
  qed
  then show ?thesis by (auto simp: padded_blob_for_def Let_def)
qed

lemma length_padded_blob_for: "padded_blob_for pubdata i = Some blob \<Longrightarrow> length blob = ZK_SYNC_BYTES_PER_BLOB"
  by (auto simp: padded_blob_for_def Let_def slice_def min_def split: if_splits)

definition scratch_ok :: "u8 list option \<Rightarrow> bool" where
  "scratch_ok scratch \<longleftrightarrow> (case scratch of None \<Rightarrow> True | Some b \<Rightarrow> length b = ZK_SYNC_BYTES_PER_BLOB)"

lemma scratch_ok_None [simp]: "scratch_ok None"
  by (simp add: scratch_ok_def)

text \<open>Whatever the scratch buffer held before, the bytes hashed for a slot are those of \<open>padded_blob_for\<close>.\<close>

lemma blob_bytes_for_padded:
  assumes "scratch_ok scratch" "padded_blob_for pubdata i = Some blob"
  obtains scratch' where "blob_bytes_for pubdata i scratch = (blob, scratch')" "scratch_ok scratch'"
proof -
  have lt: "i * 126976 < length pubdata" using assms(2) by (auto simp: padded_blob_for_def Let_def split: if_splits)
  have "\<exists>scratch'. blob_bytes_for pubdata i scratch = (blob, scratch') \<and> scratch_ok scratch'"
    using assms lt
    by (auto simp: blob_bytes_for_def padded_blob_for_def scratch_ok_def Let_def slice_def min_def
        split: option.splits if_splits)
  with that show ?thesis by blast
qed

text \<open>What a slot promises: nothing is claimed, or the claim is the hash and the opening of the pubdata's blob.\<close>

definition blob_slot_ok :: "hash_fn \<Rightarrow> 'f scalar_field \<Rightarrow> u8 list \<Rightarrow> h256 \<Rightarrow> nat \<Rightarrow> blob_hash \<Rightarrow> bool" where
  "blob_slot_ok keccak F pubdata versioned i b \<longleftrightarrow>
     (if linear_hash b = 0 then blob_commitment b = 0
      else case padded_blob_for pubdata i of
        None \<Rightarrow> False
      | Some blob \<Rightarrow> linear_hash b = keccak blob
          \<and> compute_blob_opening_commitment keccak F blob versioned (linear_hash b) = Inr (blob_commitment b))"

lemma verify_blobs_loop_iff:
  assumes "scratch_ok scratch" "i + length blobs \<le> length versioned"
  shows "verify_blobs_loop keccak F pubdata versioned i blobs scratch = Inr () \<longleftrightarrow>
    (\<forall>j < length blobs. blob_slot_ok keccak F pubdata (versioned ! (i + j)) (i + j) (blobs ! j))"
  using assms
proof (induction blobs arbitrary: i scratch)
  case Nil
  then show ?case by simp
next
  case (Cons b blobs)
  have all: "(\<forall>j < Suc n. P j) \<longleftrightarrow> P 0 \<and> (\<forall>j < n. P (Suc j))" for P :: "nat \<Rightarrow> bool" and n
    by (auto simp: less_Suc_eq_0_disj)
  define rest where
    "rest \<longleftrightarrow> (\<forall>j < length blobs. blob_slot_ok keccak F pubdata (versioned ! (i + Suc j)) (i + Suc j) (blobs ! j))"
  have IH: "scratch_ok s \<Longrightarrow> verify_blobs_loop keccak F pubdata versioned (Suc i) blobs s = Inr () \<longleftrightarrow> rest" for s
    using Cons.IH [of s "Suc i"] Cons.prems by (simp add: rest_def)
  have "verify_blobs_loop keccak F pubdata versioned i (b # blobs) scratch = Inr () \<longleftrightarrow>
      blob_slot_ok keccak F pubdata (versioned ! i) i b \<and> rest"
  proof (cases "padded_blob_for pubdata i")
    case None
    then have "\<not> i < div_ceil (length pubdata) ZK_SYNC_BYTES_PER_BLOB" by (simp add: padded_blob_for_None)
    with None Cons.prems IH show ?thesis by (simp add: blob_slot_ok_def)
  next
    case (Some blob)
    then have "i < div_ceil (length pubdata) ZK_SYNC_BYTES_PER_BLOB" using padded_blob_for_None [of pubdata i] by simp
    moreover obtain s where "blob_bytes_for pubdata i scratch = (blob, s)" "scratch_ok s"
      using blob_bytes_for_padded [OF Cons.prems(1) Some] .
    ultimately show ?thesis using Some Cons.prems IH [of s] IH [of scratch] by (auto simp: blob_slot_ok_def)
  qed
  then show ?case by (simp add: all rest_def)
qed

text \<open>
  The blob check with its lazily allocated, reused padding buffer accepts exactly when there is one versioned
  hash per claimed blob and every slot either claims no blob (both hashes zero) or claims the Keccak hash and the
  opening commitment of that slot's zero-padded piece of the pubdata.
\<close>

theorem verify_blob_hashes_iff:
  "verify_blob_hashes keccak F pubdata versioned blobs = Inr () \<longleftrightarrow>
     length versioned = length blobs
     \<and> list_all (\<lambda>i. blob_slot_ok keccak F pubdata (versioned ! i) i (blobs ! i)) [0..<length blobs]"
  using verify_blobs_loop_iff [of None 0 blobs versioned keccak F pubdata]
  by (auto simp: verify_blob_hashes_def list_all_iff)

section \<open>Opening commitments\<close>

text \<open>A byte string as an integer, least significant byte first.\<close>

fun le_value :: "u8 list \<Rightarrow> nat" where
  "le_value [] = 0"
| "le_value (b # bs) = unat b + 256 * le_value bs"

definition BLS12_381_SCALAR_MODULUS :: nat where
  "BLS12_381_SCALAR_MODULUS = 0x73eda753299d7d483339d80809a1d80553bda402fffe5bfeffffffff00000001"

text \<open>
  What the verifier relies on of \<open>ark_bls12_381::Fr\<close>: every element stands for a residue, the operations are those
  of the residues, byte strings are reduced, and \<open>into_bigint().to_bytes_be()\<close> is the residue in 32 bytes.
\<close>

locale prime_scalar_field =
  fixes F :: "'f scalar_field" and residue :: "'f \<Rightarrow> nat"
  assumes zero: "residue (fr_zero F) = 0"
    and mul: "residue (fr_mul F a b) = residue a * residue b mod BLS12_381_SCALAR_MODULUS"
    and add: "residue (fr_add F a b) = (residue a + residue b) mod BLS12_381_SCALAR_MODULUS"
    and from_le: "residue (from_le_bytes_mod_order F bs) = le_value bs mod BLS12_381_SCALAR_MODULUS"
    and from_be: "residue (from_be_bytes_mod_order F bs) = le_value (rev bs) mod BLS12_381_SCALAR_MODULUS"
    and to_bytes: "fr_to_bytes_be F a = as_bytes (word_of_nat (residue a))"

text \<open>The value at \<open>x\<close> of the polynomial with the given coefficients, highest degree first.\<close>

fun poly_value :: "nat \<Rightarrow> nat list \<Rightarrow> nat" where
  "poly_value x [] = 0"
| "poly_value x (c # cs) = c * x ^ length cs + poly_value x cs"

text \<open>
  The opening commitment the EIP-4844 sub-circuit defines: the blob's 31-byte little-endian pieces are the
  coefficients, evaluated modulo the scalar field's order at the low half of \<open>keccak(linear || versioned)\<close>.
\<close>

definition opening_spec :: "hash_fn \<Rightarrow> u8 list \<Rightarrow> h256 \<Rightarrow> h256 \<Rightarrow> h256" where
  "opening_spec keccak blob versioned linear =
     (let point = drop 16 (as_bytes (keccak (as_bytes linear @ as_bytes versioned)));
          opening = poly_value (le_value (rev point)) (map le_value (chunks BLOB_CHUNK_SIZE blob))
      in keccak (as_bytes versioned @ point @ as_bytes (word_of_nat (opening mod BLS12_381_SCALAR_MODULUS))))"

lemma poly_value_sum: "poly_value x cs = (\<Sum>j < length cs. cs ! j * x ^ (length cs - 1 - j))"
  by (induction cs) (simp_all add: sum.lessThan_Suc_shift del: sum.lessThan_Suc)

lemma poly_value_mod: "poly_value (x mod m) cs mod m = poly_value x cs mod m"
proof (induction cs)
  case (Cons c cs)
  have "c * (x mod m) ^ length cs mod m = c * x ^ length cs mod m" by (metis mod_mult_right_eq power_mod)
  with Cons show ?case by (simp, intro mod_add_cong)
qed simp

lemma le_value_append_zero: "le_value (bs @ [0]) = le_value bs"
  by (induction bs) simp_all

lemma le_value_append_zeros: "le_value (bs @ replicate n 0) = le_value bs"
  by (induction bs) (simp_all, induction n, simp_all)

context prime_scalar_field
begin

lemma horner_poly:
  assumes "\<forall>c \<in> set cs. length c = BLOB_CHUNK_SIZE"
  shows "\<exists>v. horner F x cs acc = Inr v \<and>
    (cs \<noteq> [] \<longrightarrow> residue v = (residue acc * residue x ^ length cs + poly_value (residue x) (map le_value cs))
       mod BLS12_381_SCALAR_MODULUS)"
  using assms
proof (induction cs arbitrary: acc)
  case Nil
  then show ?case by simp
next
  case (Cons c cs)
  define acc' where "acc' = fr_add F (fr_mul F acc x) (from_le_bytes_mod_order F (c @ [0]))"
  have acc': "residue acc' = (residue acc * residue x + le_value c) mod BLS12_381_SCALAR_MODULUS"
    by (simp add: acc'_def add mul from_le le_value_append_zero mod_add_eq)
  obtain v where v: "horner F x cs acc' = Inr v"
    "cs \<noteq> [] \<longrightarrow> residue v = (residue acc' * residue x ^ length cs + poly_value (residue x) (map le_value cs))
       mod BLS12_381_SCALAR_MODULUS"
    using Cons by (metis list.set_intros(2))
  have "residue v = (residue acc * residue x ^ Suc (length cs) +
      (le_value c * residue x ^ length cs + poly_value (residue x) (map le_value cs))) mod BLS12_381_SCALAR_MODULUS"
  proof (cases "cs = []")
    case True
    with v acc' show ?thesis by simp
  next
    case False
    with v(2) have "residue v = (residue acc' * residue x ^ length cs + poly_value (residue x) (map le_value cs))
       mod BLS12_381_SCALAR_MODULUS" by simp
    also have "\<dots> = ((residue acc * residue x + le_value c) * residue x ^ length cs +
        poly_value (residue x) (map le_value cs)) mod BLS12_381_SCALAR_MODULUS"
      unfolding acc' by (metis mod_add_left_eq mod_mult_left_eq)
    finally show ?thesis by (simp add: algebra_simps)
  qed
  with v(1) Cons.prems show ?case by (simp add: acc'_def [symmetric])
qed

lemma blob_opening:
  assumes "length blob = ZK_SYNC_BYTES_PER_BLOB"
  shows "compute_blob_opening_commitment keccak F blob versioned linear = Inr (opening_spec keccak blob versioned linear)"
proof -
  define eval where "eval = as_bytes (keccak (as_bytes linear @ as_bytes versioned))"
  define x where "x = le_value (rev (drop 16 eval))"
  define fx where "fx = from_be_bytes_mod_order F (replicate 16 0 @ drop 16 eval)"
  define cs where "cs = chunks BLOB_CHUNK_SIZE blob"
  have n: "length blob = ELEMENTS_PER_4844_BLOCK * BLOB_CHUNK_SIZE"
    using assms by (simp add: ELEMENTS_PER_4844_BLOCK_def BLOB_CHUNK_SIZE_def)
  have cs: "\<forall>c \<in> set cs. length c = BLOB_CHUNK_SIZE" "length cs = ELEMENTS_PER_4844_BLOCK"
    unfolding cs_def using chunks_length [OF n] by (simp_all add: BLOB_CHUNK_SIZE_def)
  have fx: "residue fx = x mod BLS12_381_SCALAR_MODULUS"
    by (simp add: fx_def x_def from_be le_value_append_zeros)
  obtain v where v: "horner F fx cs (fr_zero F) = Inr v"
    and "cs \<noteq> [] \<longrightarrow> residue v = (residue (fr_zero F) * residue fx ^ length cs
        + poly_value (residue fx) (map le_value cs)) mod BLS12_381_SCALAR_MODULUS"
    using horner_poly [OF cs(1), of fx "fr_zero F"] by auto
  then have "residue v = poly_value (residue fx) (map le_value cs) mod BLS12_381_SCALAR_MODULUS"
    using cs(2) by (auto simp: zero ELEMENTS_PER_4844_BLOCK_def)
  also have "\<dots> = poly_value x (map le_value cs) mod BLS12_381_SCALAR_MODULUS"
    unfolding fx by (rule poly_value_mod)
  finally show ?thesis
    using v by (simp add: compute_blob_opening_commitment_def Let_def eval_def [symmetric] fx_def [symmetric]
        cs_def [symmetric] x_def [symmetric] to_bytes opening_spec_def)
qed

end

text \<open>The residues themselves, as \<open>ark-ff\<close> computes on them.\<close>

definition bls12_381_fr :: "nat scalar_field" where
  "bls12_381_fr = \<lparr>fr_zero = 0,
     fr_mul = (\<lambda>a b. a * b mod BLS12_381_SCALAR_MODULUS),
     fr_add = (\<lambda>a b. (a + b) mod BLS12_381_SCALAR_MODULUS),
     from_be_bytes_mod_order = (\<lambda>bs. le_value (rev bs) mod BLS12_381_SCALAR_MODULUS),
     from_le_bytes_mod_order = (\<lambda>bs. le_value bs mod BLS12_381_SCALAR_MODULUS),
     fr_to_bytes_be = (\<lambda>a. as_bytes (word_of_nat a))\<rparr>"

interpretation bls: prime_scalar_field bls12_381_fr "\<lambda>a. a"
  by unfold_locales (simp_all add: bls12_381_fr_def)

text \<open>
  C24. For every padded blob the opening commitment is computed without aborting, and it is the one EIP-4844 defines:
  Horner's rule over the blob evaluates the polynomial whose coefficients are its 31-byte pieces, highest degree
  first, at the challenge point, modulo the order of the BLS12-381 scalar field.
\<close>

theorem blob_opening_is_polynomial_value:
  assumes "prime_scalar_field F residue" and "length blob = ZK_SYNC_BYTES_PER_BLOB"
  shows "compute_blob_opening_commitment keccak F blob versioned linear = Inr (opening_spec keccak blob versioned linear)"
  using prime_scalar_field.blob_opening [OF assms] .

theorem blob_opening_is_polynomial_value_witness:
  "compute_blob_opening_commitment sum_hash bls12_381_fr (replicate ZK_SYNC_BYTES_PER_BLOB 3) 1 2 =
     Inr (opening_spec sum_hash (replicate ZK_SYNC_BYTES_PER_BLOB 3) 1 2)"
  by (rule blob_opening_is_polynomial_value [OF bls.prime_scalar_field_axioms length_replicate])

end
