(* ===== verification/Vm_Params.thy ===== *)
theory Vm_Params
  imports Protocol_Version State_Diffs
begin

text \<open>
  The parameters the verifier reads of the VM it runs: the layout of the bootloader memory and the batch limits
  (\<open>src/crates/multivm/src/versions/vm_latest/constants.rs\<close>), the dispatch on the VM version
  (\<open>src/crates/multivm/src/utils/mod.rs\<close>) and the fee model (\<open>vm_latest/utils/fee.rs\<close>,
  \<open>vm_latest/utils/overhead.rs\<close>, \<open>src/crates/types/src/fee_model.rs\<close>).

  Slots are counted in \<open>usize\<close>, where nothing overflows; the fee arithmetic is on \<open>u64\<close> words, which wrap in the
  release build, and on \<open>U256\<close>, whose multiplication and \<open>as_u64\<close> panic on overflow.
\<close>

section \<open>Bootloader memory layout\<close>

definition MAX_TXS_IN_BATCH :: nat where "MAX_TXS_IN_BATCH = 10000"
definition MAX_MSG_ROOTS_IN_BATCH :: nat where "MAX_MSG_ROOTS_IN_BATCH = 100"
definition DEBUG_SLOTS_OFFSET :: nat where "DEBUG_SLOTS_OFFSET = 8"
definition DEBUG_FIRST_SLOTS :: nat where "DEBUG_FIRST_SLOTS = 32"
definition PAYMASTER_CONTEXT_SLOTS :: nat where "PAYMASTER_CONTEXT_SLOTS = 32 + 1"
definition MAX_POSTOP_SLOTS :: nat where "MAX_POSTOP_SLOTS = PAYMASTER_CONTEXT_SLOTS + 7"
definition CURRENT_L2_TX_HASHES_SLOTS :: nat where "CURRENT_L2_TX_HASHES_SLOTS = 2"
definition OPERATOR_REFUNDS_SLOTS :: nat where "OPERATOR_REFUNDS_SLOTS = MAX_TXS_IN_BATCH"
definition TX_OVERHEAD_SLOTS :: nat where "TX_OVERHEAD_SLOTS = MAX_TXS_IN_BATCH"
definition TX_TRUSTED_GAS_LIMIT_SLOTS :: nat where "TX_TRUSTED_GAS_LIMIT_SLOTS = MAX_TXS_IN_BATCH"
definition TX_OPERATOR_SLOTS_PER_L2_BLOCK_INFO :: nat where "TX_OPERATOR_SLOTS_PER_L2_BLOCK_INFO = 4"
definition TX_OPERATOR_L2_BLOCK_INFO_SLOTS :: nat where
  "TX_OPERATOR_L2_BLOCK_INFO_SLOTS = (MAX_TXS_IN_BATCH + 1) * TX_OPERATOR_SLOTS_PER_L2_BLOCK_INFO"
definition INTEROP_ROOT_SLOTS_SIZE :: nat where "INTEROP_ROOT_SLOTS_SIZE = 5"
definition INTEROP_ROOT_SLOTS :: nat where
  "INTEROP_ROOT_SLOTS = (MAX_MSG_ROOTS_IN_BATCH + 1) * INTEROP_ROOT_SLOTS_SIZE"
definition COMPRESSED_BYTECODES_SLOTS :: nat where "COMPRESSED_BYTECODES_SLOTS = 196608"
definition PRIORITY_TXS_L1_DATA_SLOTS :: nat where "PRIORITY_TXS_L1_DATA_SLOTS = 2"
definition TXS_STATUS_ROLLING_HASH_SLOTS :: nat where "TXS_STATUS_ROLLING_HASH_SLOTS = 1"
definition OPERATOR_PROVIDED_L1_MESSENGER_PUBDATA_SLOTS :: nat where
  "OPERATOR_PROVIDED_L1_MESSENGER_PUBDATA_SLOTS = 1360000"
definition BOOTLOADER_TX_DESCRIPTION_SIZE :: nat where "BOOTLOADER_TX_DESCRIPTION_SIZE = 2"
definition VM_HOOK_PARAMS_COUNT :: nat where "VM_HOOK_PARAMS_COUNT = 3"

lemmas layout_consts = MAX_TXS_IN_BATCH_def MAX_MSG_ROOTS_IN_BATCH_def DEBUG_SLOTS_OFFSET_def DEBUG_FIRST_SLOTS_def
  PAYMASTER_CONTEXT_SLOTS_def MAX_POSTOP_SLOTS_def CURRENT_L2_TX_HASHES_SLOTS_def OPERATOR_REFUNDS_SLOTS_def
  TX_OVERHEAD_SLOTS_def TX_TRUSTED_GAS_LIMIT_SLOTS_def TX_OPERATOR_SLOTS_PER_L2_BLOCK_INFO_def
  TX_OPERATOR_L2_BLOCK_INFO_SLOTS_def INTEROP_ROOT_SLOTS_SIZE_def INTEROP_ROOT_SLOTS_def
  COMPRESSED_BYTECODES_SLOTS_def PRIORITY_TXS_L1_DATA_SLOTS_def TXS_STATUS_ROLLING_HASH_SLOTS_def
  OPERATOR_PROVIDED_L1_MESSENGER_PUBDATA_SLOTS_def BOOTLOADER_TX_DESCRIPTION_SIZE_def VM_HOOK_PARAMS_COUNT_def

definition subversion_used_memory_bytes :: "multi_vm_subversion \<Rightarrow> nat" where
  "subversion_used_memory_bytes s = (case s of SmallBootloaderMemory \<Rightarrow> 59000000 | _ \<Rightarrow> 63800000)"

definition subversion_used_memory_words :: "multi_vm_subversion \<Rightarrow> nat" where
  "subversion_used_memory_words s = subversion_used_memory_bytes s div 32"

definition subversion_max_new_factory_deps :: "multi_vm_subversion \<Rightarrow> nat" where
  "subversion_max_new_factory_deps s = (case s of
      SmallBootloaderMemory \<Rightarrow> 32 | IncreasedBootloaderMemory \<Rightarrow> 32 | _ \<Rightarrow> 64)"

definition get_new_factory_deps_reserved_slots :: "multi_vm_subversion \<Rightarrow> nat" where
  "get_new_factory_deps_reserved_slots s = subversion_max_new_factory_deps s + 4"

definition get_operator_refunds_offset :: "multi_vm_subversion \<Rightarrow> nat" where
  "get_operator_refunds_offset s = DEBUG_SLOTS_OFFSET + DEBUG_FIRST_SLOTS + PAYMASTER_CONTEXT_SLOTS
     + CURRENT_L2_TX_HASHES_SLOTS + get_new_factory_deps_reserved_slots s"

definition get_tx_overhead_offset :: "multi_vm_subversion \<Rightarrow> nat" where
  "get_tx_overhead_offset s = get_operator_refunds_offset s + OPERATOR_REFUNDS_SLOTS"

definition get_tx_trusted_gas_limit_offset :: "multi_vm_subversion \<Rightarrow> nat" where
  "get_tx_trusted_gas_limit_offset s = get_tx_overhead_offset s + TX_OVERHEAD_SLOTS"

definition get_tx_operator_l2_block_info_offset :: "multi_vm_subversion \<Rightarrow> nat" where
  "get_tx_operator_l2_block_info_offset s = get_tx_trusted_gas_limit_offset s + TX_TRUSTED_GAS_LIMIT_SLOTS"

definition get_last_processed_block_number_offset :: "multi_vm_subversion \<Rightarrow> nat" where
  "get_last_processed_block_number_offset s = get_tx_operator_l2_block_info_offset s + TX_OPERATOR_L2_BLOCK_INFO_SLOTS"

definition get_current_number_of_roots_in_block_offset :: "multi_vm_subversion \<Rightarrow> nat" where
  "get_current_number_of_roots_in_block_offset s = get_last_processed_block_number_offset s + 1"

definition get_current_interop_root_offset :: "multi_vm_subversion \<Rightarrow> nat" where
  "get_current_interop_root_offset s = get_current_number_of_roots_in_block_offset s + 1"

definition get_interop_blocks_begin_offset :: "multi_vm_subversion \<Rightarrow> nat" where
  "get_interop_blocks_begin_offset s = get_current_interop_root_offset s + 1"

definition get_interop_root_offset :: "multi_vm_subversion \<Rightarrow> nat" where
  "get_interop_root_offset s = get_interop_blocks_begin_offset s + MAX_TXS_IN_BATCH"

definition get_settlement_layer_offset :: "multi_vm_subversion \<Rightarrow> nat" where
  "get_settlement_layer_offset s = get_interop_root_offset s + INTEROP_ROOT_SLOTS + 1"

definition get_interop_fee_offset :: "multi_vm_subversion \<Rightarrow> nat" where
  "get_interop_fee_offset s = get_settlement_layer_offset s + 1"

definition get_compressed_bytecodes_offset :: "multi_vm_subversion \<Rightarrow> nat" where
  "get_compressed_bytecodes_offset s = (case s of
      Interop \<Rightarrow> get_interop_root_offset s + INTEROP_ROOT_SLOTS + 1
    | MediumInterop \<Rightarrow> get_interop_fee_offset s + 1
    | _ \<Rightarrow> get_tx_operator_l2_block_info_offset s + TX_OPERATOR_L2_BLOCK_INFO_SLOTS)"

definition get_priority_txs_l1_data_offset :: "multi_vm_subversion \<Rightarrow> nat" where
  "get_priority_txs_l1_data_offset s = get_compressed_bytecodes_offset s + COMPRESSED_BYTECODES_SLOTS"

definition get_operator_provided_l1_messenger_pubdata_offset :: "multi_vm_subversion \<Rightarrow> nat" where
  "get_operator_provided_l1_messenger_pubdata_offset s =
     (if s = Interop \<or> s = MediumInterop
      then get_priority_txs_l1_data_offset s + PRIORITY_TXS_L1_DATA_SLOTS + TXS_STATUS_ROLLING_HASH_SLOTS
      else get_priority_txs_l1_data_offset s + PRIORITY_TXS_L1_DATA_SLOTS)"

definition get_bootloader_tx_description_offset :: "multi_vm_subversion \<Rightarrow> nat" where
  "get_bootloader_tx_description_offset s =
     get_operator_provided_l1_messenger_pubdata_offset s + OPERATOR_PROVIDED_L1_MESSENGER_PUBDATA_SLOTS"

definition get_tx_description_offset :: "multi_vm_subversion \<Rightarrow> nat" where
  "get_tx_description_offset s = get_bootloader_tx_description_offset s
     + BOOTLOADER_TX_DESCRIPTION_SIZE * MAX_TXS_IN_BATCH + MAX_POSTOP_SLOTS"

text \<open>The subtractions are on \<open>usize\<close> and \<open>u32\<close>; \<open>layout_no_underflow\<close> below shows that none of them underflows.\<close>

definition get_bootloader_tx_encoding_space :: "multi_vm_subversion \<Rightarrow> nat" where
  "get_bootloader_tx_encoding_space s =
     subversion_used_memory_words s - get_tx_description_offset s - MAX_TXS_IN_BATCH"

definition get_result_success_first_slot :: "multi_vm_subversion \<Rightarrow> nat" where
  "get_result_success_first_slot s = (subversion_used_memory_bytes s - MAX_TXS_IN_BATCH * 32) div 32"

definition get_vm_hook_position :: "multi_vm_subversion \<Rightarrow> nat" where
  "get_vm_hook_position s = get_result_success_first_slot s - 1"

definition get_vm_hook_params_start_position :: "multi_vm_subversion \<Rightarrow> nat" where
  "get_vm_hook_params_start_position s = get_vm_hook_position s - VM_HOOK_PARAMS_COUNT"

definition get_vm_hook_start_position_latest :: nat where
  "get_vm_hook_start_position_latest = get_vm_hook_params_start_position IncreasedBootloaderMemory"

lemmas layout_defs = subversion_used_memory_bytes_def subversion_used_memory_words_def subversion_max_new_factory_deps_def
  get_new_factory_deps_reserved_slots_def get_operator_refunds_offset_def get_tx_overhead_offset_def
  get_tx_trusted_gas_limit_offset_def get_tx_operator_l2_block_info_offset_def
  get_last_processed_block_number_offset_def get_current_number_of_roots_in_block_offset_def
  get_current_interop_root_offset_def get_interop_blocks_begin_offset_def get_interop_root_offset_def
  get_settlement_layer_offset_def get_interop_fee_offset_def get_compressed_bytecodes_offset_def
  get_priority_txs_l1_data_offset_def get_operator_provided_l1_messenger_pubdata_offset_def
  get_bootloader_tx_description_offset_def get_tx_description_offset_def get_bootloader_tx_encoding_space_def
  get_result_success_first_slot_def get_vm_hook_position_def get_vm_hook_params_start_position_def

text \<open>
  The memory map: the regions in the order of their offsets, as (start, number of slots). The interop regions exist
  from the interop subversions on, the settlement layer and the fee from medium interop on. The compressed bytecodes
  region starts with the pointer slot.
\<close>

definition interop_regions :: "multi_vm_subversion \<Rightarrow> (nat \<times> nat) list" where
  "interop_regions s =
     [(get_last_processed_block_number_offset s, 1), (get_current_number_of_roots_in_block_offset s, 1),
      (get_current_interop_root_offset s, 1), (get_interop_blocks_begin_offset s, MAX_TXS_IN_BATCH),
      (get_interop_root_offset s, INTEROP_ROOT_SLOTS + 1)]"

definition layout_regions :: "multi_vm_subversion \<Rightarrow> (nat \<times> nat) list" where
  "layout_regions s =
     [(get_operator_refunds_offset s, OPERATOR_REFUNDS_SLOTS), (get_tx_overhead_offset s, TX_OVERHEAD_SLOTS),
      (get_tx_trusted_gas_limit_offset s, TX_TRUSTED_GAS_LIMIT_SLOTS),
      (get_tx_operator_l2_block_info_offset s, TX_OPERATOR_L2_BLOCK_INFO_SLOTS)]
     @ (if s = Interop then interop_regions s
        else if s = MediumInterop
          then interop_regions s @ [(get_settlement_layer_offset s, 1), (get_interop_fee_offset s, 1)] else [])
     @ [(get_compressed_bytecodes_offset s, COMPRESSED_BYTECODES_SLOTS),
        (get_priority_txs_l1_data_offset s, PRIORITY_TXS_L1_DATA_SLOTS),
        (get_operator_provided_l1_messenger_pubdata_offset s, OPERATOR_PROVIDED_L1_MESSENGER_PUBDATA_SLOTS),
        (get_bootloader_tx_description_offset s, BOOTLOADER_TX_DESCRIPTION_SIZE * MAX_TXS_IN_BATCH),
        (get_tx_description_offset s, get_bootloader_tx_encoding_space s),
        (get_result_success_first_slot s, MAX_TXS_IN_BATCH)]"

fun ordered_regions :: "nat \<Rightarrow> (nat \<times> nat) list \<Rightarrow> bool" where
  "ordered_regions start [] = True"
| "ordered_regions start ((a, n) # rest) \<longleftrightarrow> start \<le> a \<and> ordered_regions (a + n) rest"

lemma ordered_regions_mono: "ordered_regions a rs \<Longrightarrow> b \<le> a \<Longrightarrow> ordered_regions b rs"
  by (cases rs) auto

lemma ordered_regions_disjoint:
  assumes "ordered_regions start rs" "i < j" "j < length rs"
  shows "fst (rs ! i) + snd (rs ! i) \<le> fst (rs ! j)"
proof -
  have ge: "ordered_regions b ps \<Longrightarrow> k < length ps \<Longrightarrow> b \<le> fst (ps ! k)" for b ps k
  proof (induction b ps arbitrary: k rule: ordered_regions.induct)
    case (2 start a n rest)
    show ?case
    proof (cases k)
      case (Suc m)
      with 2 have "a + n \<le> fst (rest ! m)" "start \<le> a" by simp_all
      with Suc show ?thesis by simp
    qed (use 2 in simp)
  qed simp
  show ?thesis
    using assms
  proof (induction start rs arbitrary: i j rule: ordered_regions.induct)
    case (2 start a n rest)
    then show ?case using ge [of "a + n" rest "j - 1"] by (cases i) (auto simp: nth_Cons')
  qed simp
qed

lemma layout_ordered: "ordered_regions (DEBUG_SLOTS_OFFSET + DEBUG_FIRST_SLOTS) (layout_regions s)"
  by (cases s) (simp_all add: layout_regions_def interop_regions_def layout_defs layout_consts)

lemma layout_no_underflow:
  "get_tx_description_offset s + MAX_TXS_IN_BATCH \<le> subversion_used_memory_words s"
  "MAX_TXS_IN_BATCH * 32 \<le> subversion_used_memory_bytes s"
  "VM_HOOK_PARAMS_COUNT + 1 \<le> get_result_success_first_slot s"
  by (cases s; simp add: layout_defs layout_consts)+

text \<open>
  The bootloader memory map of every subversion: no offset computation underflows, the regions follow each other
  without overlap above the debug slots, all of them end within the used memory, the memory has whole words, and the
  word counts fit in \<open>u32\<close>.
\<close>

theorem bootloader_layout:
  "get_tx_description_offset s + MAX_TXS_IN_BATCH \<le> subversion_used_memory_words s
   \<and> ordered_regions (DEBUG_SLOTS_OFFSET + DEBUG_FIRST_SLOTS) (layout_regions s)
   \<and> (case last (layout_regions s) of (a, n) \<Rightarrow> a + n = subversion_used_memory_words s)
   \<and> subversion_used_memory_words s * 32 = subversion_used_memory_bytes s
   \<and> subversion_used_memory_bytes s < 2 ^ 32"
  using layout_ordered [of s] layout_no_underflow [of s]
  by (cases s) (simp_all add: layout_regions_def layout_defs layout_consts)

text \<open>
  The space reserved for transaction encodings runs up to the result slots, so its last four slots are exactly
  the VM hook parameters and the hook opcode: a transaction encoding that fills the space reaches the hook slots.
\<close>

theorem encoding_space_reaches_hook_slots:
  "get_tx_description_offset s + get_bootloader_tx_encoding_space s = get_result_success_first_slot s
   \<and> get_vm_hook_position s + 1 = get_result_success_first_slot s
   \<and> get_vm_hook_params_start_position s + VM_HOOK_PARAMS_COUNT = get_vm_hook_position s
   \<and> get_tx_description_offset s < get_vm_hook_params_start_position s"
  by (cases s) (simp_all add: layout_defs layout_consts)

section \<open>Dispatch on the VM version\<close>

definition MAX_GAS_PER_PUBDATA_BYTE :: u64 where "MAX_GAS_PER_PUBDATA_BYTE = 50000"
definition BOOTLOADER_BATCH_TIP_OVERHEAD :: nat where "BOOTLOADER_BATCH_TIP_OVERHEAD = 400000000"
definition BOOTLOADER_BATCH_TIP_CIRCUIT_STATISTICS_OVERHEAD :: nat where
  "BOOTLOADER_BATCH_TIP_CIRCUIT_STATISTICS_OVERHEAD = 12000"
definition BOOTLOADER_BATCH_TIP_METRICS_SIZE_OVERHEAD :: nat where "BOOTLOADER_BATCH_TIP_METRICS_SIZE_OVERHEAD = 2000"
definition MAX_BASE_LAYER_CIRCUITS :: nat where "MAX_BASE_LAYER_CIRCUITS = 28000"
definition BATCH_GAS_LIMIT :: nat where "BATCH_GAS_LIMIT = 2 ^ 50"
definition ETH_CALL_GAS_LIMIT :: nat where "ETH_CALL_GAS_LIMIT = BATCH_GAS_LIMIT"
definition MAX_BLOBS_PER_BATCH :: nat where "MAX_BLOBS_PER_BATCH = 6"
definition MAX_VM_PUBDATA_PER_BATCH :: nat where "MAX_VM_PUBDATA_PER_BATCH = MAX_BLOBS_PER_BATCH * (31 * 4096)"

text \<open>
  Every dispatcher handles the seven VM versions that map to a subversion and panics on the others. The constants
  that do not depend on the subversion go through \<open>for_supported_vm\<close>.
\<close>

definition for_subversion :: "vm_version \<Rightarrow> (multi_vm_subversion \<Rightarrow> 'a) \<Rightarrow> 'a res" where
  "for_subversion v f = (case multi_vm_subversion_try_from v of
      Some s \<Rightarrow> Inr (f s) | None \<Rightarrow> Inl (Panic UnsupportedVersion))"

definition for_supported_vm :: "vm_version \<Rightarrow> 'a \<Rightarrow> 'a res" where
  "for_supported_vm v x = for_subversion v (\<lambda>_. x)"

definition get_bootloader_encoding_space :: "vm_version \<Rightarrow> nat res" where
  "get_bootloader_encoding_space v = for_subversion v get_bootloader_tx_encoding_space"

definition get_bootloader_max_txs_in_batch :: "vm_version \<Rightarrow> nat res" where
  "get_bootloader_max_txs_in_batch v = for_supported_vm v MAX_TXS_IN_BATCH"

definition get_bootloader_max_interop_roots_in_batch :: "vm_version \<Rightarrow> nat" where
  "get_bootloader_max_interop_roots_in_batch v = (if v = VmInterop \<or> v = VmMediumInterop then MAX_MSG_ROOTS_IN_BATCH else 0)"

definition gas_bootloader_batch_tip_overhead :: "vm_version \<Rightarrow> nat res" where
  "gas_bootloader_batch_tip_overhead v = for_supported_vm v BOOTLOADER_BATCH_TIP_OVERHEAD"

definition circuit_statistics_bootloader_batch_tip_overhead :: "vm_version \<Rightarrow> nat res" where
  "circuit_statistics_bootloader_batch_tip_overhead v =
     for_supported_vm v BOOTLOADER_BATCH_TIP_CIRCUIT_STATISTICS_OVERHEAD"

definition execution_metrics_bootloader_batch_tip_overhead :: "vm_version \<Rightarrow> nat res" where
  "execution_metrics_bootloader_batch_tip_overhead v = for_supported_vm v BOOTLOADER_BATCH_TIP_METRICS_SIZE_OVERHEAD"

definition get_max_gas_per_pubdata_byte :: "vm_version \<Rightarrow> u64 res" where
  "get_max_gas_per_pubdata_byte v = for_supported_vm v MAX_GAS_PER_PUBDATA_BYTE"

definition get_used_bootloader_memory_bytes :: "vm_version \<Rightarrow> nat res" where
  "get_used_bootloader_memory_bytes v = for_subversion v subversion_used_memory_bytes"

definition get_used_bootloader_memory_words :: "vm_version \<Rightarrow> nat res" where
  "get_used_bootloader_memory_words v = for_subversion v subversion_used_memory_words"

definition get_max_batch_gas_limit :: "vm_version \<Rightarrow> nat res" where
  "get_max_batch_gas_limit v = for_supported_vm v BATCH_GAS_LIMIT"

definition get_eth_call_gas_limit :: "vm_version \<Rightarrow> nat res" where
  "get_eth_call_gas_limit v = for_supported_vm v ETH_CALL_GAS_LIMIT"

definition get_max_batch_base_layer_circuits :: "vm_version \<Rightarrow> nat res" where
  "get_max_batch_base_layer_circuits v = for_supported_vm v MAX_BASE_LAYER_CIRCUITS"

definition get_max_new_factory_deps :: "vm_version \<Rightarrow> nat res" where
  "get_max_new_factory_deps v = for_subversion v subversion_max_new_factory_deps"

definition get_max_vm_pubdata_per_batch :: "vm_version \<Rightarrow> nat res" where
  "get_max_vm_pubdata_per_batch v = for_supported_vm v MAX_VM_PUBDATA_PER_BATCH"

section \<open>Fee model\<close>

definition L1_GAS_PER_PUBDATA_BYTE :: u64 where "L1_GAS_PER_PUBDATA_BYTE = 17"

record l1_pegged_fee_input =
  lp_fair_l2_gas_price :: u64
  lp_l1_gas_price :: u64

record pubdata_independent_fee_input =
  pi_fair_l2_gas_price :: u64
  pi_fair_pubdata_price :: u64
  pi_l1_gas_price :: u64

datatype batch_fee_input =
    L1Pegged l1_pegged_fee_input
  | PubdataIndependent pubdata_independent_fee_input

definition sensible_l1_pegged_default :: batch_fee_input where
  "sensible_l1_pegged_default = L1Pegged \<lparr>lp_fair_l2_gas_price = 100000000, lp_l1_gas_price = 1000000000\<rparr>"

definition l1_pegged :: "u64 \<Rightarrow> u64 \<Rightarrow> batch_fee_input" where
  "l1_pegged l1_price l2_price = L1Pegged \<lparr>lp_fair_l2_gas_price = l2_price, lp_l1_gas_price = l1_price\<rparr>"

definition pubdata_independent :: "u64 \<Rightarrow> u64 \<Rightarrow> u64 \<Rightarrow> batch_fee_input" where
  "pubdata_independent l1_price l2_price pubdata_price = PubdataIndependent
     \<lparr>pi_fair_l2_gas_price = l2_price, pi_fair_pubdata_price = pubdata_price, pi_l1_gas_price = l1_price\<rparr>"

definition from_protocol_version :: "protocol_version option \<Rightarrow> u64 \<Rightarrow> u64 \<Rightarrow> u64 option \<Rightarrow> batch_fee_input res" where
  "from_protocol_version version l1_price l2_price pubdata_price =
     (if (case version of Some v \<Rightarrow> is_post_1_4_1 v | None \<Rightarrow> False)
      then (case pubdata_price of
          Some p \<Rightarrow> Inr (pubdata_independent l1_price l2_price p)
        | None \<Rightarrow> Inl (Panic UnsupportedVersion))
      else Inr (l1_pegged l1_price l2_price))"

definition for_protocol_version :: "protocol_version \<Rightarrow> u64 \<Rightarrow> u64 option \<Rightarrow> u64 \<Rightarrow> batch_fee_input res" where
  "for_protocol_version version l2_price pubdata_price l1_price =
     (if is_post_1_4_1 version
      then (case pubdata_price of
          Some p \<Rightarrow> Inr (pubdata_independent l1_price l2_price p)
        | None \<Rightarrow> Inl (Panic UnsupportedVersion))
      else Inr (l1_pegged l1_price l2_price))"

definition into_l1_pegged :: "batch_fee_input \<Rightarrow> l1_pegged_fee_input res" where
  "into_l1_pegged f = (case f of L1Pegged i \<Rightarrow> Inr i | PubdataIndependent _ \<Rightarrow> Inl (Panic UnsupportedVersion))"

definition fair_pubdata_price :: "batch_fee_input \<Rightarrow> u64" where
  "fair_pubdata_price f = (case f of
      L1Pegged i \<Rightarrow> lp_l1_gas_price i * L1_GAS_PER_PUBDATA_BYTE | PubdataIndependent i \<Rightarrow> pi_fair_pubdata_price i)"

definition fair_l2_gas_price :: "batch_fee_input \<Rightarrow> u64" where
  "fair_l2_gas_price f = (case f of
      L1Pegged i \<Rightarrow> lp_fair_l2_gas_price i | PubdataIndependent i \<Rightarrow> pi_fair_l2_gas_price i)"

definition l1_gas_price :: "batch_fee_input \<Rightarrow> u64" where
  "l1_gas_price f = (case f of L1Pegged i \<Rightarrow> lp_l1_gas_price i | PubdataIndependent i \<Rightarrow> pi_l1_gas_price i)"

definition into_pubdata_independent :: "batch_fee_input \<Rightarrow> pubdata_independent_fee_input" where
  "into_pubdata_independent f = (case f of
      PubdataIndependent i \<Rightarrow> i
    | L1Pegged i \<Rightarrow> \<lparr>pi_fair_l2_gas_price = lp_fair_l2_gas_price i,
        pi_fair_pubdata_price = lp_l1_gas_price i * L1_GAS_PER_PUBDATA_BYTE,
        pi_l1_gas_price = lp_l1_gas_price i\<rparr>)"

definition stricter :: "batch_fee_input \<Rightarrow> batch_fee_input \<Rightarrow> batch_fee_input" where
  "stricter a b = (case (a, b) of
      (L1Pegged i, L1Pegged j) \<Rightarrow>
        l1_pegged (max (lp_l1_gas_price i) (lp_l1_gas_price j)) (max (lp_fair_l2_gas_price i) (lp_fair_l2_gas_price j))
    | _ \<Rightarrow> let i = into_pubdata_independent a; j = into_pubdata_independent b
        in pubdata_independent (max (pi_l1_gas_price i) (pi_l1_gas_price j))
             (max (pi_fair_l2_gas_price i) (pi_fair_l2_gas_price j))
             (max (pi_fair_pubdata_price i) (pi_fair_pubdata_price j)))"

text \<open>\<open>u64::div_ceil\<close>, which never overflows.\<close>

definition u64_div_ceil :: "u64 \<Rightarrow> u64 \<Rightarrow> u64" where
  "u64_div_ceil a b = (if a mod b = 0 then a div b else a div b + 1)"

definition vm_latest_derive_base_fee :: "pubdata_independent_fee_input \<Rightarrow> u64 \<times> u64" where
  "vm_latest_derive_base_fee fee_input =
     (let base_fee = max (pi_fair_l2_gas_price fee_input)
            (u64_div_ceil (pi_fair_pubdata_price fee_input) MAX_GAS_PER_PUBDATA_BYTE);
          gas_per_pubdata = (if pi_fair_pubdata_price fee_input = 0 then 0
            else u64_div_ceil (pi_fair_pubdata_price fee_input) base_fee)
      in (base_fee, gas_per_pubdata))"

definition derive_base_fee_and_gas_per_pubdata :: "batch_fee_input \<Rightarrow> vm_version \<Rightarrow> (u64 \<times> u64) res" where
  "derive_base_fee_and_gas_per_pubdata f v = for_supported_vm v (vm_latest_derive_base_fee (into_pubdata_independent f))"

definition get_batch_base_fee :: "u64 option \<Rightarrow> batch_fee_input \<Rightarrow> vm_version \<Rightarrow> u64 res" where
  "get_batch_base_fee enforced f v = for_supported_vm v (case enforced of
      Some base_fee \<Rightarrow> base_fee
    | None \<Rightarrow> fst (vm_latest_derive_base_fee (into_pubdata_independent f)))"

text \<open>\<open>U256\<close> multiplication and \<open>as_u64\<close>, with the panics of \<open>primitive-types\<close>.\<close>

definition u256_mul :: "u256 \<Rightarrow> u256 \<Rightarrow> u256 res" where
  "u256_mul a b = ensure (unat a * unat b < 2 ^ 256) (Panic IndexTooLarge) (Inr (a * b))"

definition as_u64 :: "u256 \<Rightarrow> u64 res" where
  "as_u64 a = ensure (unat a < 2 ^ 64) (Panic IndexTooLarge) (Inr (ucast a))"

definition saturating_sub :: "u256 \<Rightarrow> u256 \<Rightarrow> u256" where
  "saturating_sub a b = (if a < b then 0 else a - b)"

definition adjust_pubdata_price_for_tx ::
  "batch_fee_input \<Rightarrow> u256 \<Rightarrow> u256 option \<Rightarrow> vm_version \<Rightarrow> batch_fee_input res" where
  "adjust_pubdata_price_for_tx f tx_limit max_base_fee_opt v =
     (let max_base_fee = (case max_base_fee_opt of Some m \<Rightarrow> m | None \<Rightarrow> -1) in
      and_then (get_max_gas_per_pubdata_byte v) (\<lambda>max_gas.
      let bounded = min tx_limit (ucast max_gas) in
      and_then (derive_base_fee_and_gas_per_pubdata f v) (\<lambda>(current_base_fee, current_gas_per_pubdata).
      if ucast current_gas_per_pubdata \<le> bounded \<and> ucast current_base_fee \<le> max_base_fee then Inr f
      else case f of
        L1Pegged i \<Rightarrow>
          (let current = ucast (lp_fair_l2_gas_price i);
               l2_price = (if max_base_fee < current then max_base_fee else current)
           in and_then (u256_mul l2_price (saturating_sub bounded 1)) (\<lambda>p.
              and_then (as_u64 (p div 17)) (\<lambda>new_l1.
              and_then (as_u64 l2_price) (\<lambda>new_l2.
              Inr (L1Pegged \<lparr>lp_fair_l2_gas_price = new_l2, lp_l1_gas_price = new_l1\<rparr>)))))
      | PubdataIndependent i \<Rightarrow>
          (let current = ucast (pi_fair_l2_gas_price i);
               l2_price = (if max_base_fee < current then max_base_fee else current);
               desired = min bounded (ucast current_gas_per_pubdata)
           in and_then (u256_mul l2_price (saturating_sub desired 1)) (\<lambda>p.
              and_then (as_u64 p) (\<lambda>new_pubdata.
              and_then (as_u64 l2_price) (\<lambda>new_l2.
              Inr (PubdataIndependent (i\<lparr>pi_fair_pubdata_price := new_pubdata, pi_fair_l2_gas_price := new_l2\<rparr>)))))))))"

definition TX_SLOT_OVERHEAD_GAS :: u32 where "TX_SLOT_OVERHEAD_GAS = 10000"
definition TX_MEMORY_OVERHEAD_GAS :: u32 where "TX_MEMORY_OVERHEAD_GAS = 10"

definition vm_latest_derive_overhead :: "nat \<Rightarrow> u32" where
  "vm_latest_derive_overhead encoded_len = max TX_SLOT_OVERHEAD_GAS (TX_MEMORY_OVERHEAD_GAS * of_nat encoded_len)"

definition derive_overhead :: "nat \<Rightarrow> vm_version \<Rightarrow> u32 res" where
  "derive_overhead encoded_len v = for_supported_vm v (vm_latest_derive_overhead encoded_len)"

section \<open>Facts on the fee model\<close>

lemma div_ceil_le_iff: "0 < b \<Longrightarrow> div_ceil a b \<le> c \<longleftrightarrow> a \<le> b * c"
proof -
  assume b: "0 < b"
  define q r where "q = a div b" and "r = a mod b"
  have a: "a = b * q + r" and r: "r < b" using b by (simp_all add: q_def r_def)
  have "a \<le> b * c \<longleftrightarrow> q + 1 \<le> c" if "0 < r"
  proof
    assume "a \<le> b * c"
    then have "b * q < b * c" using a that by linarith
    then show "q + 1 \<le> c" using b by simp
  next
    assume "q + 1 \<le> c"
    then have "b * (q + 1) \<le> b * c" by (rule mult_le_mono2)
    then show "a \<le> b * c" using a r by simp
  qed
  with a b show ?thesis unfolding div_ceil_def q_def [symmetric] r_def [symmetric] by (cases "r = 0") simp_all
qed

lemma unat_u64_div_ceil: "b \<noteq> 0 \<Longrightarrow> unat (u64_div_ceil a b) = div_ceil (unat a) (unat b)"
proof -
  assume b: "b \<noteq> 0"
  then have b': "0 < unat b" by (simp add: unat_gt_0)
  have "unat (a div b + 1) = unat a div unat b + 1" if "unat a mod unat b \<noteq> 0"
  proof -
    have "unat b \<noteq> 1" using that by auto
    with b' have "2 \<le> unat b" by simp
    then have "unat a div unat b \<le> unat a div 2" by (rule div_le_mono2 [OF zero_less_numeral])
    moreover have "unat a < 2 ^ 64" using unsigned_less [of a] by simp
    ultimately have "unat a div unat b + 1 < 2 ^ 64" by simp
    then show ?thesis by (simp add: unat_word_ariths(1) unat_div_distrib)
  qed
  then show ?thesis
    by (auto simp: u64_div_ceil_def div_ceil_def unat_div unat_mod simp flip: unat_eq_zero)
qed

lemma unat_max: "unat (max a b) = max (unat a) (unat b)"
  by (auto simp: max_def word_le_nat_alt)

lemma max_gas_nonzero [simp]: "MAX_GAS_PER_PUBDATA_BYTE \<noteq> 0" "unat MAX_GAS_PER_PUBDATA_BYTE = 50000"
  by (simp_all add: MAX_GAS_PER_PUBDATA_BYTE_def)

text \<open>The derivation read on integers.\<close>

lemma derive_base_fee_nat:
  assumes "vm_latest_derive_base_fee i = (base_fee, gas)"
  shows "unat base_fee = max (unat (pi_fair_l2_gas_price i)) (div_ceil (unat (pi_fair_pubdata_price i)) 50000)"
    and "unat gas = (if pi_fair_pubdata_price i = 0 then 0 else div_ceil (unat (pi_fair_pubdata_price i)) (unat base_fee))"
    and "pi_fair_pubdata_price i \<noteq> 0 \<Longrightarrow> base_fee \<noteq> 0"
proof -
  have base: "unat base_fee = max (unat (pi_fair_l2_gas_price i)) (div_ceil (unat (pi_fair_pubdata_price i)) 50000)"
    using assms by (auto simp: vm_latest_derive_base_fee_def Let_def unat_max unat_u64_div_ceil)
  then show "unat base_fee = max (unat (pi_fair_l2_gas_price i)) (div_ceil (unat (pi_fair_pubdata_price i)) 50000)" .
  have pos: "base_fee \<noteq> 0" if "pi_fair_pubdata_price i \<noteq> 0"
  proof
    assume "base_fee = 0"
    with base have "div_ceil (unat (pi_fair_pubdata_price i)) 50000 \<le> 0" by simp
    then have "unat (pi_fair_pubdata_price i) \<le> 50000 * 0" by (subst (asm) div_ceil_le_iff) simp_all
    with that show False by (simp add: unat_eq_zero)
  qed
  then show "pi_fair_pubdata_price i \<noteq> 0 \<Longrightarrow> base_fee \<noteq> 0" .
  show "unat gas = (if pi_fair_pubdata_price i = 0 then 0 else div_ceil (unat (pi_fair_pubdata_price i)) (unat base_fee))"
    using assms pos by (auto simp: vm_latest_derive_base_fee_def Let_def unat_u64_div_ceil)
qed

lemma derive_gas_le_max:
  assumes "vm_latest_derive_base_fee i = (base_fee, gas)"
  shows "unat gas \<le> 50000"
proof (cases "pi_fair_pubdata_price i = 0")
  case False
  have "div_ceil (unat (pi_fair_pubdata_price i)) 50000 \<le> unat base_fee" using derive_base_fee_nat [OF assms] by simp
  then have "unat (pi_fair_pubdata_price i) \<le> unat base_fee * 50000" by (simp add: div_ceil_le_iff mult.commute)
  moreover have "0 < unat base_fee" using False derive_base_fee_nat(3) [OF assms] by (simp add: unat_gt_0)
  ultimately show ?thesis using False derive_base_fee_nat(2) [OF assms] div_ceil_le_iff by simp
qed (use derive_base_fee_nat [OF assms] in simp)

lemma derive_gas_tight:
  assumes "vm_latest_derive_base_fee i = (base_fee, gas)"
  shows "unat (pi_fair_pubdata_price i) \<le> unat base_fee * unat gas"
    and "pi_fair_pubdata_price i = 0 \<or> unat base_fee * (unat gas - 1) < unat (pi_fair_pubdata_price i)"
proof -
  note d = derive_base_fee_nat [OF assms]
  show "unat (pi_fair_pubdata_price i) \<le> unat base_fee * unat gas"
    using d(2) d(3) div_ceil_le_iff [of "unat base_fee" "unat (pi_fair_pubdata_price i)" "unat gas"]
    by (cases "pi_fair_pubdata_price i = 0") (auto simp: unat_gt_0)
  show "pi_fair_pubdata_price i = 0 \<or> unat base_fee * (unat gas - 1) < unat (pi_fair_pubdata_price i)"
  proof (cases "pi_fair_pubdata_price i = 0")
    case False
    then have b: "0 < unat base_fee" using d(3) by (simp add: unat_gt_0)
    have "0 < unat gas"
      using False d(2) b div_ceil_le_iff [OF b, of "unat (pi_fair_pubdata_price i)" 0] by (auto simp: unat_eq_zero)
    then have "\<not> div_ceil (unat (pi_fair_pubdata_price i)) (unat base_fee) \<le> unat gas - 1" using d(2) False by simp
    then show ?thesis using div_ceil_le_iff [OF b] by simp
  qed simp
qed

text \<open>
  The base fee and the gas per pubdata byte derived for any fee input on a supported VM: the gas per pubdata never
  exceeds the protocol maximum of 50000, the base fee is at least the fair L2 gas price, the two together cover the
  fair pubdata price, and one gas less per byte would not.
\<close>

theorem derived_fee_bounds:
  "case vm_latest_derive_base_fee i of (base_fee, gas) \<Rightarrow>
     gas \<le> MAX_GAS_PER_PUBDATA_BYTE \<and> pi_fair_l2_gas_price i \<le> base_fee
     \<and> unat (pi_fair_pubdata_price i) \<le> unat base_fee * unat gas
     \<and> (pi_fair_pubdata_price i = 0 \<or> unat base_fee * (unat gas - 1) < unat (pi_fair_pubdata_price i))"
proof (cases "vm_latest_derive_base_fee i")
  case (Pair base_fee gas)
  with derive_gas_le_max [OF Pair] derive_gas_tight [OF Pair] derive_base_fee_nat(1) [OF Pair] show ?thesis
    by (simp add: word_le_nat_alt)
qed

text \<open>A pubdata price within \<open>d - 1\<close> gas per byte derives to the L2 gas price and at most \<open>d - 1\<close>.\<close>

lemma derive_below_limit:
  assumes "vm_latest_derive_base_fee i = (base_fee, gas)"
    and "unat (pi_fair_pubdata_price i) \<le> unat (pi_fair_l2_gas_price i) * (d - 1)" and "d \<le> 50000"
  shows "base_fee = pi_fair_l2_gas_price i" "unat gas \<le> d - 1"
proof -
  have "unat (pi_fair_pubdata_price i) \<le> unat (pi_fair_l2_gas_price i) * 50000"
    by (rule le_trans [OF assms(2)], rule mult_le_mono2) (use assms(3) in simp)
  then have "div_ceil (unat (pi_fair_pubdata_price i)) 50000 \<le> unat (pi_fair_l2_gas_price i)"
    by (simp add: div_ceil_le_iff mult.commute)
  then show base: "base_fee = pi_fair_l2_gas_price i"
    using derive_base_fee_nat(1) [OF assms(1)] by (simp add: max_def word_unat_eq_iff)
  show "unat gas \<le> d - 1"
  proof (cases "pi_fair_pubdata_price i = 0")
    case False
    then have "0 < unat base_fee" using derive_base_fee_nat(3) [OF assms(1)] by (simp add: unat_gt_0)
    with False show ?thesis using derive_base_fee_nat(2) [OF assms(1)] assms(2) base by (simp add: div_ceil_le_iff)
  qed (use derive_base_fee_nat(2) [OF assms(1)] in simp)
qed

lemma unat_ucast_u64 [simp]: "unat (ucast (a :: u64) :: u256) = unat a"
proof -
  have "unat a < 2 ^ 256" using unsigned_less [of a, where 'a = nat] by simp
  then show ?thesis by (simp add: unsigned_ucast_eq take_bit_nat_eq_self)
qed

lemma as_u64_Inr [simp]: "as_u64 a = Inr b \<longleftrightarrow> unat a < 2 ^ 64 \<and> b = ucast a"
  by (auto simp: as_u64_def)

lemma as_u64_unat: "unat a < 2 ^ 64 \<Longrightarrow> unat (ucast (a :: u256) :: u64) = unat a"
  by (simp add: unsigned_ucast_eq take_bit_nat_eq_self)

lemma u256_mul_Inr: "u256_mul a b = Inr c \<longleftrightarrow> unat a * unat b < 2 ^ 256 \<and> c = a * b \<and> unat c = unat a * unat b"
  by (auto simp: u256_mul_def unat_word_ariths)

lemma unat_saturating_sub_1: "unat (saturating_sub a 1) = unat a - 1"
  by (cases "a = 0") (auto simp: saturating_sub_def unat_minus_one word_less_nat_alt simp flip: unat_eq_zero)

lemma unat_mul_le: "unat (a * b) \<le> unat a * unat (b :: 'a::len word)"
  by (simp add: unat_word_ariths)

definition max_fee_or :: "u256 option \<Rightarrow> u256" where
  "max_fee_or m = (case m of Some x \<Rightarrow> x | None \<Rightarrow> -1)"

lemma derive_supported:
  "multi_vm_subversion_try_from v = Some sv \<Longrightarrow>
     derive_base_fee_and_gas_per_pubdata f v = Inr (vm_latest_derive_base_fee (into_pubdata_independent f))"
  "multi_vm_subversion_try_from v = Some sv \<Longrightarrow> get_max_gas_per_pubdata_byte v = Inr MAX_GAS_PER_PUBDATA_BYTE"
  by (simp_all add: derive_base_fee_and_gas_per_pubdata_def get_max_gas_per_pubdata_byte_def for_supported_vm_def
      for_subversion_def)

text \<open>The price the adjustment writes, and the L2 gas price it keeps.\<close>

lemma adjusted_input_cases:
  assumes "adjust_pubdata_price_for_tx f tx_limit max_base_fee v = Inr f'"
  obtains (kept) base_fee gas where "f' = f" "derive_base_fee_and_gas_per_pubdata f v = Inr (base_fee, gas)"
      "ucast gas \<le> tx_limit" "ucast base_fee \<le> max_fee_or max_base_fee"
  | (changed) sv where "multi_vm_subversion_try_from v = Some sv"
      "ucast (pi_fair_l2_gas_price (into_pubdata_independent f')) \<le> max_fee_or max_base_fee"
      "unat (pi_fair_pubdata_price (into_pubdata_independent f')) \<le>
         unat (pi_fair_l2_gas_price (into_pubdata_independent f')) * (min (unat tx_limit) 50000 - 1)"
proof -
  define M where "M = max_fee_or max_base_fee"
  define bounded where "bounded = min tx_limit (ucast MAX_GAS_PER_PUBDATA_BYTE)"
  have unat_bounded: "unat bounded = min (unat tx_limit) 50000"
    by (auto simp: bounded_def min_def word_le_nat_alt)
  have M: "(case max_base_fee of Some m \<Rightarrow> m | None \<Rightarrow> - 1) = M" by (simp add: M_def max_fee_or_def)
  obtain sv where sv: "multi_vm_subversion_try_from v = Some sv"
    using assms by (cases "multi_vm_subversion_try_from v")
      (auto simp: adjust_pubdata_price_for_tx_def get_max_gas_per_pubdata_byte_def for_supported_vm_def for_subversion_def Let_def)
  obtain base_fee gas where d: "vm_latest_derive_base_fee (into_pubdata_independent f) = (base_fee, gas)" by force
  note adj = assms [unfolded adjust_pubdata_price_for_tx_def M derive_supported [OF sv] d Let_def and_then_simps
      prod.case, folded bounded_def]
  show ?thesis
  proof (cases "ucast gas \<le> bounded \<and> ucast base_fee \<le> M")
    case True
    with adj sv d show ?thesis
      by (intro kept) (auto simp: derive_supported M_def bounded_def min_def split: if_splits)
  next
    case False
    show ?thesis
    proof (cases f)
      case (L1Pegged i)
      define l2 :: u256 where
        "l2 = (if M < ucast (lp_fair_l2_gas_price i) then M else ucast (lp_fair_l2_gas_price i))"
      then have l2: "unat l2 \<le> unat M" by (simp add: word_le_nat_alt word_less_nat_alt)
      obtain p where p: "u256_mul l2 (saturating_sub bounded 1) = Inr p" "unat (p div 17) < 2 ^ 64" "unat l2 < 2 ^ 64"
        and f': "f' = L1Pegged \<lparr>lp_fair_l2_gas_price = ucast l2, lp_l1_gas_price = ucast (p div 17)\<rparr>"
        using adj False by (auto simp: L1Pegged l2_def [symmetric] Let_def)
      have "unat (ucast (p div 17) * 17 :: u64) \<le> unat (p div 17) * 17"
        using unat_mul_le [of "ucast (p div 17) :: u64" 17] p(2) by (simp add: as_u64_unat)
      also have "\<dots> \<le> unat p" by (simp add: unat_div_distrib)
      finally show ?thesis
        using p(1) p(3) l2 unat_bounded
        by (intro changed [OF sv]) (auto simp: f' into_pubdata_independent_def as_u64_unat u256_mul_Inr
            unat_saturating_sub_1 L1_GAS_PER_PUBDATA_BYTE_def word_le_nat_alt M_def)
    next
      case (PubdataIndependent i)
      define l2 :: u256 where
        "l2 = (if M < ucast (pi_fair_l2_gas_price i) then M else ucast (pi_fair_l2_gas_price i))"
      then have l2: "unat l2 \<le> unat M" by (simp add: word_le_nat_alt word_less_nat_alt)
      define desired where "desired = min bounded (ucast gas)"
      obtain p where p: "u256_mul l2 (saturating_sub desired 1) = Inr p" "unat p < 2 ^ 64" "unat l2 < 2 ^ 64"
        and f': "f' = PubdataIndependent (i\<lparr>pi_fair_pubdata_price := ucast p, pi_fair_l2_gas_price := ucast l2\<rparr>)"
        using adj False by (auto simp: PubdataIndependent l2_def [symmetric] desired_def [symmetric] Let_def)
      have "unat desired \<le> unat bounded" by (simp add: desired_def flip: word_le_nat_alt)
      then have "unat l2 * (unat desired - 1) \<le> unat l2 * (unat bounded - 1)" by (intro mult_le_mono2) simp
      then show ?thesis
        using p l2 unat_bounded
        by (intro changed [OF sv]) (auto simp: f' into_pubdata_independent_def as_u64_unat u256_mul_Inr
            unat_saturating_sub_1 word_le_nat_alt M_def)
    qed
  qed
qed

text \<open>
  A successful adjustment of the fee input for a transaction keeps its promise: the gas per pubdata byte derived
  from the adjusted input is at most the transaction's limit, and the base fee at most the given maximum, for both
  shapes of the fee input and even where the L1-pegged price multiplication wraps.
\<close>

theorem adjusted_price_meets_limits:
  assumes "adjust_pubdata_price_for_tx f tx_limit max_base_fee v = Inr f'"
  shows "\<exists>base_fee gas. derive_base_fee_and_gas_per_pubdata f' v = Inr (base_fee, gas)
    \<and> ucast gas \<le> tx_limit \<and> ucast base_fee \<le> max_fee_or max_base_fee"
  using assms
proof (cases rule: adjusted_input_cases)
  case (changed sv)
  obtain base_fee gas where d: "vm_latest_derive_base_fee (into_pubdata_independent f') = (base_fee, gas)"
    by force
  have "base_fee = pi_fair_l2_gas_price (into_pubdata_independent f')" "unat gas \<le> min (unat tx_limit) 50000 - 1"
    using derive_below_limit [OF d changed(3)] by simp_all
  with changed(1,2) d show ?thesis by (auto simp: derive_supported word_le_nat_alt)
qed blast

theorem adjusted_price_meets_limits_witness:
  "\<exists>f' base_fee gas. adjust_pubdata_price_for_tx (pubdata_independent 7 100 5000) 20 (Some 90) VmMediumInterop = Inr f'
     \<and> derive_base_fee_and_gas_per_pubdata f' VmMediumInterop = Inr (base_fee, gas)
     \<and> ucast gas \<le> (20 :: u256) \<and> ucast base_fee \<le> max_fee_or (Some 90)"
proof -
  have "\<exists>f'. adjust_pubdata_price_for_tx (pubdata_independent 7 100 5000) 20 (Some 90) VmMediumInterop = Inr f'"
    by (simp add: adjust_pubdata_price_for_tx_def get_max_gas_per_pubdata_byte_def for_supported_vm_def
        for_subversion_def multi_vm_subversion_try_from_def derive_base_fee_and_gas_per_pubdata_def
        vm_latest_derive_base_fee_def into_pubdata_independent_def pubdata_independent_def u64_div_ceil_def
        MAX_GAS_PER_PUBDATA_BYTE_def saturating_sub_def u256_mul_def as_u64_def Let_def)
  then obtain f' where f': "adjust_pubdata_price_for_tx (pubdata_independent 7 100 5000) 20 (Some 90) VmMediumInterop = Inr f'"
    by blast
  from adjusted_price_meets_limits [OF f'] f' show ?thesis by blast
qed

text \<open>
  On a supported VM version, adjusting a pubdata-independent fee input never aborts: the new pubdata price is
  bounded by the old one, so neither the multiplication nor the conversion to \<open>u64\<close> can overflow.
\<close>

theorem adjust_pubdata_independent_total:
  assumes "multi_vm_subversion_try_from v = Some sv"
  shows "\<exists>f'. adjust_pubdata_price_for_tx (PubdataIndependent i) tx_limit max_base_fee v = Inr f'"
proof -
  define M where "M = max_fee_or max_base_fee"
  define l2 :: u256 where "l2 = (if M < ucast (pi_fair_l2_gas_price i) then M else ucast (pi_fair_l2_gas_price i))"
  obtain base_fee gas where d: "vm_latest_derive_base_fee i = (base_fee, gas)" by force
  define desired :: u256 where "desired = min (min tx_limit (ucast MAX_GAS_PER_PUBDATA_BYTE)) (ucast gas)"
  have "unat l2 \<le> unat (pi_fair_l2_gas_price i)"
    by (auto simp: l2_def word_less_nat_alt)
  also have "\<dots> \<le> unat base_fee" using derive_base_fee_nat(1) [OF d] by simp
  finally have l2: "unat l2 \<le> unat base_fee" .
  have "desired \<le> ucast gas" by (simp add: desired_def)
  then have "unat desired \<le> unat gas" by (simp add: word_le_nat_alt)
  with l2 have "unat l2 * (unat desired - 1) \<le> unat base_fee * (unat gas - 1)" by (intro mult_le_mono) simp_all
  also have "\<dots> < 2 ^ 64"
    using derive_gas_tight(2) [OF d] derive_base_fee_nat(2) [OF d] unsigned_less [of "pi_fair_pubdata_price i", where 'a = nat]
    by auto
  finally have small: "unat l2 * (unat desired - 1) < 2 ^ 64" .
  then have mul: "u256_mul l2 (saturating_sub desired 1) = Inr (l2 * saturating_sub desired 1)"
    "unat (l2 * saturating_sub desired 1) < 2 ^ 64"
    by (simp_all add: u256_mul_def unat_saturating_sub_1 unat_word_ariths)
  have "unat l2 < 2 ^ 64" using l2 unsigned_less [of base_fee, where 'a = nat] by simp
  with mul show ?thesis
    by (auto simp: adjust_pubdata_price_for_tx_def derive_supported [OF assms] into_pubdata_independent_def d Let_def
        as_u64_def M_def [unfolded max_fee_or_def, symmetric] l2_def [symmetric] desired_def [symmetric])
qed

theorem adjust_pubdata_independent_total_witness:
  "\<exists>f'. adjust_pubdata_price_for_tx (pubdata_independent 7 100 (-1)) 20 (Some 90) VmMediumInterop = Inr f'"
  unfolding pubdata_independent_def
  by (rule adjust_pubdata_independent_total [of _ MediumInterop]) (simp add: multi_vm_subversion_try_from_def)

text \<open>The L1-pegged branch multiplies before it divides by 17, and can exceed \<open>u64\<close>.\<close>

lemma adjust_l1_pegged_overflow:
  "adjust_pubdata_price_for_tx (l1_pegged 0 (2 ^ 63)) 50000 (Some (2 ^ 62)) VmMediumInterop = Inl (Panic IndexTooLarge)"
  by (simp add: adjust_pubdata_price_for_tx_def get_max_gas_per_pubdata_byte_def for_supported_vm_def
        for_subversion_def multi_vm_subversion_try_from_def derive_base_fee_and_gas_per_pubdata_def
        vm_latest_derive_base_fee_def into_pubdata_independent_def l1_pegged_def u64_div_ceil_def
        MAX_GAS_PER_PUBDATA_BYTE_def saturating_sub_def u256_mul_def as_u64_def Let_def)

lemma derive_overhead_exact:
  assumes "encoded_len \<le> subversion_used_memory_bytes s"
  shows "unat (vm_latest_derive_overhead encoded_len) = max 10000 (10 * encoded_len)"
proof -
  have "10 * encoded_len < 2 ^ 32" using assms by (cases s) (simp_all add: subversion_used_memory_bytes_def)
  then have "unat (10 * of_nat encoded_len :: u32) = 10 * encoded_len"
    by (simp add: unat_word_ariths unat_of_nat take_bit_nat_eq_self)
  then show ?thesis
    by (simp add: vm_latest_derive_overhead_def TX_SLOT_OVERHEAD_GAS_def TX_MEMORY_OVERHEAD_GAS_def unat_max)
qed

end
