(* ===== verification/Vm_Env.thy ===== *)
theory Vm_Env
  imports Vm_Params Commitment_Types
begin

text \<open>
  The environment of a batch: \<open>src/crates/vm_interface/src/types/inputs/\<close> (batch, block and system environments),
  \<open>L2BlockExecutionData\<close> of \<open>src/crates/types/src/block.rs\<close>, the system contracts of \<open>src/crates/contracts/src/lib.rs\<close>,
  the pubdata parameters of \<open>src/crates/basic_types/src/commitment.rs\<close> and the settlement layer of
  \<open>src/crates/basic_types/src/settlement.rs\<close>. Transactions are the type parameter \<open>'tx\<close>.
\<close>

section \<open>Blocks\<close>

record interop_root =
  ir_chain_id :: u64
  ir_block_number :: u32
  ir_sides :: "h256 list"

record l2_block_env =
  be_number :: u32
  be_timestamp :: u64
  be_prev_block_hash :: h256
  be_max_virtual_blocks_to_create :: u32
  be_interop_roots :: "interop_root list"

record 'tx l2_block_execution_data =
  ed_number :: u32
  ed_timestamp :: u64
  ed_prev_block_hash :: h256
  ed_virtual_blocks :: u32
  ed_txs :: "'tx list"
  ed_interop_roots :: "interop_root list"

definition from_l2_block_data :: "'tx l2_block_execution_data \<Rightarrow> l2_block_env" where
  "from_l2_block_data d = \<lparr>be_number = ed_number d, be_timestamp = ed_timestamp d,
     be_prev_block_hash = ed_prev_block_hash d, be_max_virtual_blocks_to_create = ed_virtual_blocks d,
     be_interop_roots = ed_interop_roots d\<rparr>"

section \<open>Pubdata parameters\<close>

datatype l1_batch_commitment_mode = RollupMode | ValidiumMode

datatype pubdata_type = Rollup | NoDA | Avail | Celestia | Eigen | ObjectStore

definition commitment_mode_from :: "pubdata_type \<Rightarrow> l1_batch_commitment_mode" where
  "commitment_mode_from t = (if t = Rollup then RollupMode else ValidiumMode)"

definition commitment_mode_from_str :: "string \<Rightarrow> l1_batch_commitment_mode option" where
  "commitment_mode_from_str s =
     (if s = ''Rollup'' then Some RollupMode else if s = ''Validium'' then Some ValidiumMode else None)"

definition pubdata_type_from_str :: "string \<Rightarrow> pubdata_type option" where
  "pubdata_type_from_str s =
     (if s = ''Rollup'' then Some Rollup else if s = ''NoDA'' then Some NoDA
      else if s = ''Avail'' then Some Avail else if s = ''Celestia'' then Some Celestia
      else if s = ''Eigen'' then Some Eigen else if s = ''ObjectStore'' then Some ObjectStore else None)"

datatype l2_da_commitment_scheme =
    SchemeNone | EmptyNoDA | PubdataKeccak256 | BlobsAndPubdataKeccak256 | BlobsZksyncOS

fun scheme_tag :: "l2_da_commitment_scheme \<Rightarrow> nat" where
  "scheme_tag SchemeNone = 0"
| "scheme_tag EmptyNoDA = 1"
| "scheme_tag PubdataKeccak256 = 2"
| "scheme_tag BlobsAndPubdataKeccak256 = 3"
| "scheme_tag BlobsZksyncOS = 4"

definition scheme_is_none :: "l2_da_commitment_scheme \<Rightarrow> bool" where
  "scheme_is_none s \<longleftrightarrow> s = SchemeNone"

definition scheme_try_from_u8 :: "nat \<Rightarrow> l2_da_commitment_scheme option" where
  "scheme_try_from_u8 n =
     (if n = 0 then Some SchemeNone else if n = 1 then Some EmptyNoDA
      else if n = 2 then Some PubdataKeccak256 else if n = 3 then Some BlobsAndPubdataKeccak256 else None)"

definition scheme_from_str :: "string \<Rightarrow> l2_da_commitment_scheme option" where
  "scheme_from_str s =
     (if s = ''None'' then Some SchemeNone else if s = ''EmptyNoDA'' then Some EmptyNoDA
      else if s = ''PubdataKeccak256'' then Some PubdataKeccak256
      else if s = ''BlobsAndPubdataKeccak256'' then Some BlobsAndPubdataKeccak256 else None)"

datatype l2_pubdata_validator = ValidatorAddress address | CommitmentScheme l2_da_commitment_scheme

fun validator_try_from :: "address option \<times> l2_da_commitment_scheme option \<Rightarrow> l2_pubdata_validator option" where
  "validator_try_from (None, Some s) = Some (CommitmentScheme s)"
| "validator_try_from (Some a, None) = Some (ValidatorAddress a)"
| "validator_try_from (Some _, Some _) = None"
| "validator_try_from (None, None) = None"

fun l2_da_validator :: "l2_pubdata_validator \<Rightarrow> address option" where
  "l2_da_validator (ValidatorAddress a) = Some a"
| "l2_da_validator (CommitmentScheme _) = None"

fun l2_da_commitment_scheme_of :: "l2_pubdata_validator \<Rightarrow> l2_da_commitment_scheme option" where
  "l2_da_commitment_scheme_of (ValidatorAddress _) = None"
| "l2_da_commitment_scheme_of (CommitmentScheme s) = Some s"

record pubdata_params =
  pubdata_validator :: l2_pubdata_validator
  pubdata_type :: pubdata_type

definition pubdata_params_new :: "l2_pubdata_validator \<Rightarrow> pubdata_type \<Rightarrow> pubdata_params option" where
  "pubdata_params_new v t = (case v of
      CommitmentScheme SchemeNone \<Rightarrow> None
    | CommitmentScheme BlobsZksyncOS \<Rightarrow> None
    | _ \<Rightarrow> Some \<lparr>pubdata_validator = v, pubdata_type = t\<rparr>)"

definition pubdata_params_genesis :: pubdata_params where
  "pubdata_params_genesis = \<lparr>pubdata_validator = CommitmentScheme BlobsAndPubdataKeccak256, pubdata_type = Rollup\<rparr>"

definition pubdata_params_pre_gateway :: pubdata_params where
  "pubdata_params_pre_gateway = \<lparr>pubdata_validator = ValidatorAddress 0, pubdata_type = Rollup\<rparr>"

text \<open>
  Both wire forms end in \<open>PubdataParams::new\<close>: the human-readable one reads an optional validator and the legacy
  address field, the binary one the validator.
\<close>

definition pubdata_params_deserialize_json ::
  "l2_pubdata_validator option \<Rightarrow> address option \<Rightarrow> pubdata_type \<Rightarrow> pubdata_params option" where
  "pubdata_params_deserialize_json v legacy t =
     (case (v, legacy) of
        (Some validator, _) \<Rightarrow> pubdata_params_new validator t
      | (None, Some a) \<Rightarrow> pubdata_params_new (ValidatorAddress a) t
      | (None, None) \<Rightarrow> None)"

lemma pubdata_params_new_iff:
  "pubdata_params_new v t = Some p \<longleftrightarrow>
     p = \<lparr>pubdata_validator = v, pubdata_type = t\<rparr> \<and> v \<noteq> CommitmentScheme SchemeNone \<and> v \<noteq> CommitmentScheme BlobsZksyncOS"
  by (auto simp: pubdata_params_new_def split: l2_pubdata_validator.splits l2_da_commitment_scheme.splits)

section \<open>Batch and system environment\<close>

datatype settlement_layer = SettlementL1 u64 | SettlementGateway u64

fun is_gateway :: "settlement_layer \<Rightarrow> bool" where
  "is_gateway (SettlementL1 _) = False"
| "is_gateway (SettlementGateway _) = True"

fun settlement_chain_id :: "settlement_layer \<Rightarrow> u64" where
  "settlement_chain_id (SettlementL1 c) = c"
| "settlement_chain_id (SettlementGateway c) = c"

record l1_batch_env =
  previous_batch_hash :: "h256 option"
  batch_env_number :: u32
  batch_env_timestamp :: u64
  fee_input :: batch_fee_input
  interop_fee :: u256
  fee_account :: address
  enforced_base_fee :: "u64 option"
  first_l2_block :: l2_block_env
  settlement_layer :: settlement_layer

datatype tx_execution_mode = VerifyExecute | EstimateFee | EthCall

record system_contract_code =
  contract_code :: "u8 list"
  contract_hash :: h256

record base_system_contracts =
  bsc_bootloader :: system_contract_code
  bsc_default_aa :: system_contract_code
  bsc_evm_emulator :: "system_contract_code option"

record system_env =
  zk_porter_available :: bool
  system_version :: protocol_version
  base_system_smart_contracts :: base_system_contracts
  bootloader_gas_limit :: u32
  execution_mode :: tx_execution_mode
  default_validation_computational_gas_limit :: u32
  system_chain_id :: u64

end
