(* ===== verification/Bytecode.thy ===== *)
theory Bytecode
  imports Prelude
begin

text \<open>
  Bytecode hashes: \<open>src/crates/basic_types/src/bytecode.rs\<close> and \<open>verify_bytecode_hash\<close> of the verifier's
  \<open>lib.rs\<close>. SHA-256 is the parameter \<open>sha256\<close>. A \<open>BytecodeHash\<close> is its underlying \<open>h256\<close>; the
  \<open>expect\<close> and \<open>unreachable!\<close> of the source are panics of the model.
\<close>

section \<open>Definitions\<close>

definition MAX_BYTECODE_LENGTH_IN_WORDS :: nat where
  "MAX_BYTECODE_LENGTH_IN_WORDS = 2 ^ 16 - 1"

definition MAX_BYTECODE_LENGTH_BYTES :: nat where
  "MAX_BYTECODE_LENGTH_BYTES = MAX_BYTECODE_LENGTH_IN_WORDS * 32"

definition validate_bytecode :: "u8 list \<Rightarrow> unit res" where
  "validate_bytecode code =
     (let bytecode_len = length code
      in if MAX_BYTECODE_LENGTH_BYTES < bytecode_len
         then Inl (Bytecode (BytecodeTooLong bytecode_len MAX_BYTECODE_LENGTH_BYTES))
         else if \<not> 32 dvd bytecode_len then Inl (Bytecode BytecodeLengthIsNotDivisibleBy32)
         else if 2 dvd bytecode_len div 32 then Inl (Bytecode BytecodeLengthInWordsIsEven)
         else Inr ())"

datatype bytecode_marker = EraVm | Evm

fun marker_byte :: "bytecode_marker \<Rightarrow> u8" where
  "marker_byte EraVm = 1"
| "marker_byte Evm = 2"

definition bytecode_marker_new :: "h256 \<Rightarrow> bytecode_marker option" where
  "bytecode_marker_new h =
     (let b = as_bytes h ! 0
      in if b = marker_byte EraVm then Some EraVm
         else if b = marker_byte Evm then Some Evm
         else None)"

definition detect :: "u8 list \<Rightarrow> bytecode_marker" where
  "detect raw_bytecode =
     (case validate_bytecode raw_bytecode of
        Inl _ \<Rightarrow> Evm
      | Inr _ \<Rightarrow> (case raw_bytecode of b # _ \<Rightarrow> if b = 0 then EraVm else Evm | [] \<Rightarrow> Evm))"

text \<open>\<open>BytecodeHash::marker\<close>, \<open>len_in_bytes\<close>, \<open>try_from\<close>.\<close>

definition bytecode_hash_marker :: "h256 \<Rightarrow> bytecode_marker res" where
  "bytecode_hash_marker h = ok_or (Panic UnknownMarker) (bytecode_marker_new h)"

definition len_in_bytes :: "h256 \<Rightarrow> nat res" where
  "len_in_bytes h =
     (let raw_len = (from_be_bytes [as_bytes h ! 2, as_bytes h ! 3] :: u16)
      in and_then (bytecode_hash_marker h) (\<lambda>marker.
           Inr (case marker of EraVm \<Rightarrow> unat raw_len * 32 | Evm \<Rightarrow> unat raw_len)))"

definition bytecode_hash_try_from :: "h256 \<Rightarrow> h256 res" where
  "bytecode_hash_try_from raw_hash =
     and_then (ok_or (Bytecode UnknownBytecodeMarker) (bytecode_marker_new raw_hash)) (\<lambda>_. Inr raw_hash)"

text \<open>\<open>validate_bytecode(bytecode).expect(\<dots>)\<close> makes an invalid bytecode a panic.\<close>

definition for_generic_bytecode :: "hash_fn \<Rightarrow> bytecode_marker \<Rightarrow> u8 list \<Rightarrow> nat \<Rightarrow> h256 res" where
  "for_generic_bytecode sha256 kind bytecode bytecode_len_in_bytes =
     (case validate_bytecode bytecode of
        Inl _ \<Rightarrow> Inl (Panic InvalidBytecode)
      | Inr _ \<Rightarrow>
          let len = (case kind of
                       EraVm \<Rightarrow> word_of_nat (bytecode_len_in_bytes div 32) :: u16
                     | Evm \<Rightarrow> word_of_nat bytecode_len_in_bytes)
          in Inr (from_be_bytes ([marker_byte kind, 0] @ be_bytes 2 len @ drop 4 (as_bytes (sha256 bytecode)))))"

definition for_bytecode :: "hash_fn \<Rightarrow> u8 list \<Rightarrow> h256 res" where
  "for_bytecode sha256 bytecode = for_generic_bytecode sha256 EraVm bytecode (length bytecode)"

definition for_evm_bytecode :: "hash_fn \<Rightarrow> nat \<Rightarrow> u8 list \<Rightarrow> h256 res" where
  "for_evm_bytecode sha256 raw_bytecode_len bytecode = for_generic_bytecode sha256 Evm bytecode raw_bytecode_len"

definition pad_evm_bytecode :: "u8 list \<Rightarrow> u8 list" where
  "pad_evm_bytecode deployed_bytecode =
     (let padded = deployed_bytecode;
          padded = (if 32 dvd length padded then padded
                    else padded @ replicate (32 - length padded mod 32) 0)
      in if 2 dvd length padded div 32 then padded @ replicate 32 0 else padded)"

definition for_raw_evm_bytecode :: "hash_fn \<Rightarrow> u8 list \<Rightarrow> h256 res" where
  "for_raw_evm_bytecode sha256 bytecode =
     for_evm_bytecode sha256 (length bytecode) (pad_evm_bytecode bytecode)"

definition trim_padded_evm_bytecode :: "h256 \<Rightarrow> u8 list \<Rightarrow> u8 list res" where
  "trim_padded_evm_bytecode h raw =
     and_then (bytecode_hash_marker h) (\<lambda>marker.
     ensure (marker = Evm) (Bytecode OnlyEvmHashes)
     (and_then (validate_bytecode raw) (\<lambda>_.
      and_then (len_in_bytes h) (\<lambda>bytecode_len.
      ensure (bytecode_len \<le> length raw) (Bytecode (EncodedLengthExceeds bytecode_len (length raw)))
        (ensure (list_all (\<lambda>b. b = 0) (drop bytecode_len raw)) (Bytecode NonZeroPadding)
          (Inr (take bytecode_len raw)))))))"

definition trim_bytecode :: "h256 \<Rightarrow> u8 list \<Rightarrow> u8 list res" where
  "trim_bytecode h raw =
     and_then (bytecode_hash_marker h) (\<lambda>marker.
       case marker of EraVm \<Rightarrow> Inr raw | Evm \<Rightarrow> trim_padded_evm_bytecode h raw)"

text \<open>\<open>verify_bytecode_hash\<close> of the verifier.\<close>

definition verify_bytecode_hash :: "hash_fn \<Rightarrow> u256 \<Rightarrow> u8 list \<Rightarrow> unit res" where
  "verify_bytecode_hash sha256 claimed_hash flat_bytecode =
     and_then (bytecode_hash_try_from claimed_hash) (\<lambda>claimed.
     and_then (bytecode_hash_marker claimed) (\<lambda>marker.
     and_then
       (case marker of
          EraVm \<Rightarrow> for_bytecode sha256 flat_bytecode
        | Evm \<Rightarrow> and_then (len_in_bytes claimed) (\<lambda>n. for_evm_bytecode sha256 n flat_bytecode))
       (\<lambda>computed. ensure (computed = claimed) (Bytecode (BytecodeHashMismatch claimed computed)) (Inr ()))))"

section \<open>Validation\<close>

text \<open>A bytecode is valid when it is an odd number of words, at most the maximal one.\<close>

definition valid_bytecode :: "u8 list \<Rightarrow> bool" where
  "valid_bytecode code \<longleftrightarrow> (\<exists>n. odd n \<and> n < 2 ^ 16 \<and> length code = 32 * n)"

lemma validate_bytecode_ok: "validate_bytecode code = Inr () \<longleftrightarrow> valid_bytecode code"
  by (auto simp: validate_bytecode_def valid_bytecode_def Let_def MAX_BYTECODE_LENGTH_BYTES_def
      MAX_BYTECODE_LENGTH_IN_WORDS_def elim!: dvdE [of 32])

lemma for_generic_bytecode_eq:
  "for_generic_bytecode sha256 kind code n =
     (if valid_bytecode code
      then Inr (from_be_bytes ([marker_byte kind, 0] @
        be_bytes 2 (word_of_nat (case kind of EraVm \<Rightarrow> n div 32 | Evm \<Rightarrow> n) :: u16) @
        drop 4 (as_bytes (sha256 code))))
      else Inl (Panic InvalidBytecode))"
proof (cases "valid_bytecode code")
  case True
  then show ?thesis
    by (simp add: for_generic_bytecode_def validate_bytecode_ok [symmetric] Let_def split: bytecode_marker.split)
next
  case False
  then obtain e where "validate_bytecode code = Inl e"
    using validate_bytecode_ok [of code] by (cases "validate_bytecode code") auto
  with False show ?thesis by (simp add: for_generic_bytecode_def)
qed

section \<open>The fields of a hash\<close>

text \<open>A bytecode hash in bytes: marker, a zero byte, the 16-bit length, and the last 28 digest bytes.\<close>

definition hash_bytes_of :: "bytecode_marker \<Rightarrow> u16 \<Rightarrow> h256 \<Rightarrow> u8 list" where
  "hash_bytes_of kind len digest = [marker_byte kind, 0] @ be_bytes 2 len @ drop 4 (as_bytes digest)"

lemma length_hash_bytes_of [simp]: "length (hash_bytes_of kind len digest) = 32"
  by (simp add: hash_bytes_of_def)

lemma be_bytes_2: "be_bytes 2 (w :: u16) = [ucast (drop_bit 8 w), ucast w]"
  by (simp add: be_bytes_def le_bytes_def upt_rec)

lemma hash_bytes_of_nth:
  "hash_bytes_of kind len digest ! 0 = marker_byte kind"
  "hash_bytes_of kind len digest ! 1 = 0"
  "[hash_bytes_of kind len digest ! 2, hash_bytes_of kind len digest ! 3] = be_bytes 2 len"
  "drop 4 (hash_bytes_of kind len digest) = drop 4 (as_bytes digest)"
  by (simp_all add: hash_bytes_of_def be_bytes_2)

lemma marker_byte_inj [simp]: "marker_byte a = marker_byte b \<longleftrightarrow> a = b"
  by (cases a; cases b) simp_all

lemma marker_new_iff: "bytecode_marker_new h = Some m \<longleftrightarrow> as_bytes h ! 0 = marker_byte m"
  by (cases m) (auto simp: bytecode_marker_new_def Let_def)

lemma bytecode_hash_fields:
  fixes kind :: bytecode_marker and len :: u16 and digest :: h256
  defines "h \<equiv> from_be_bytes (hash_bytes_of kind len digest) :: h256"
  shows "bytecode_marker_new h = Some kind"
    and "bytecode_hash_marker h = Inr kind"
    and "len_in_bytes h = Inr (case kind of EraVm \<Rightarrow> unat len * 32 | Evm \<Rightarrow> unat len)"
    and "bytecode_hash_try_from h = Inr h"
proof -
  have b: "as_bytes h = hash_bytes_of kind len digest" by (simp add: h_def)
  then show m: "bytecode_marker_new h = Some kind" by (simp add: marker_new_iff hash_bytes_of_nth)
  then show bm: "bytecode_hash_marker h = Inr kind" by (simp add: bytecode_hash_marker_def)
  have "from_be_bytes [as_bytes h ! 2, as_bytes h ! 3] = len"
    unfolding b hash_bytes_of_nth by simp
  with bm show "len_in_bytes h = Inr (case kind of EraVm \<Rightarrow> unat len * 32 | Evm \<Rightarrow> unat len)"
    by (simp add: len_in_bytes_def)
  from m show "bytecode_hash_try_from h = Inr h" by (simp add: bytecode_hash_try_from_def)
qed

lemma for_generic_bytecode_bytes:
  "valid_bytecode code \<Longrightarrow> for_generic_bytecode sha256 kind code n =
     Inr (from_be_bytes (hash_bytes_of kind (word_of_nat (case kind of EraVm \<Rightarrow> n div 32 | Evm \<Rightarrow> n)) (sha256 code)))"
  by (simp add: for_generic_bytecode_eq hash_bytes_of_def)

lemma valid_length_words:
  "valid_bytecode code \<Longrightarrow> unat (word_of_nat (length code div 32) :: u16) * 32 = length code"
  by (auto simp: valid_bytecode_def unsigned_of_nat take_bit_nat_eq_self)

lemma as_bytes_eq_iff: "length bs = 32 \<Longrightarrow> from_be_bytes bs = (h :: h256) \<longleftrightarrow> bs = as_bytes h"
  by auto

section \<open>Padding\<close>

lemma pad_evm_bytecode_eq:
  "\<exists>n. pad_evm_bytecode b = b @ replicate n 0 \<and> n < 64 \<and> (\<exists>w. odd w \<and> length (pad_evm_bytecode b) = 32 * w)"
proof -
  let ?k = "if 32 dvd length b then 0 else 32 - length b mod 32" and ?p = "\<lambda>n. b @ replicate n (0::u8)"
  have k: "?k < 32" by (auto simp: dvd_eq_mod_eq_0)
  have "32 dvd length b + ?k"
  proof (cases "32 dvd length b")
    case False
    have "length b mod 32 < 32" "length b = 32 * (length b div 32) + length b mod 32" by simp_all
    then have "length b + (32 - length b mod 32) = 32 * (length b div 32) + 32" by linarith
    then have "length b + ?k = 32 * (length b div 32) + 32" using False by simp
    then show ?thesis by (metis dvd_add dvd_triv_left dvd_refl)
  qed simp
  then obtain w where w: "length (?p ?k) = 32 * w" by auto
  have first: "(if 32 dvd length b then b else b @ replicate (32 - length b mod 32) 0) = ?p ?k" by simp
  have p: "pad_evm_bytecode b = (if even w then ?p (?k + 32) else ?p ?k)"
    unfolding pad_evm_bytecode_def Let_def first w by (simp add: replicate_add)
  show ?thesis
  proof (cases "even w")
    case True
    with p k w show ?thesis by (intro exI [of _ "?k + 32"] conjI exI [of _ "Suc w"]) simp_all
  next
    case False
    with p k w show ?thesis by (intro exI [of _ ?k] conjI exI [of _ w]) simp_all
  qed
qed

lemma pad_evm_bytecode_valid:
  assumes "length b < 2 ^ 16" shows "valid_bytecode (pad_evm_bytecode b)"
proof -
  obtain n w where n: "pad_evm_bytecode b = b @ replicate n 0" "n < 64" and w: "odd w" "length (pad_evm_bytecode b) = 32 * w"
    using pad_evm_bytecode_eq [of b] by auto
  then have "w < 2 ^ 16" using assms by simp
  with w show ?thesis by (auto simp: valid_bytecode_def)
qed

lemma verify_bytecode_hash_accepts:
  assumes "valid_bytecode code" and "as_bytes claimed = hash_bytes_of kind len (sha256 code)"
    and "kind = EraVm \<longrightarrow> length code = 32 * unat len"
  shows "verify_bytecode_hash sha256 claimed code = Inr ()"
proof -
  have claimed: "claimed = from_be_bytes (hash_bytes_of kind len (sha256 code))"
    using assms(2) by (metis as_bytes_eq_iff length_hash_bytes_of)
  note f = bytecode_hash_fields [of kind len "sha256 code", folded claimed]
  show ?thesis
    by (cases kind)
      (simp_all add: verify_bytecode_hash_def f for_bytecode_def for_evm_bytecode_def
        for_generic_bytecode_bytes [OF assms(1)] assms(3), simp_all add: claimed)
qed

section \<open>Properties\<close>

text \<open>
  C26. A claimed bytecode hash is accepted exactly when the bytecode is valid and the hash is made of a known
  marker, a zero byte, a 16-bit length and the last 28 bytes of the digest of the bytecode; for an
  EraVM hash the length must be the one of the bytecode in words.
\<close>

theorem verify_bytecode_hash_iff:
  "verify_bytecode_hash sha256 claimed code = Inr () \<longleftrightarrow>
     valid_bytecode code \<and>
     (\<exists>kind len. as_bytes claimed = hash_bytes_of kind len (sha256 code) \<and>
        (kind = EraVm \<longrightarrow> length code = 32 * unat len))" (is "?l \<longleftrightarrow> ?r")
proof
  assume ?l
  then obtain kind computed where m: "bytecode_marker_new claimed = Some kind"
    and c: "(case kind of EraVm \<Rightarrow> for_bytecode sha256 code
        | Evm \<Rightarrow> and_then (len_in_bytes claimed) (\<lambda>n. for_evm_bytecode sha256 n code)) = Inr claimed"
    by (auto simp: verify_bytecode_hash_def bytecode_hash_try_from_def bytecode_hash_marker_def)
  then have v: "valid_bytecode code"
    by (cases kind) (auto simp: for_bytecode_def for_evm_bytecode_def for_generic_bytecode_eq split: if_splits)
  with c obtain n where "from_be_bytes (hash_bytes_of kind (word_of_nat (case kind of EraVm \<Rightarrow> n div 32 | Evm \<Rightarrow> n))
      (sha256 code)) = claimed" and "kind = EraVm \<Longrightarrow> n = length code"
    by (cases kind) (auto simp: for_bytecode_def for_evm_bytecode_def for_generic_bytecode_bytes)
  with v valid_length_words [OF v] show ?r
    by (intro conjI exI [of _ kind] exI [of _ "word_of_nat (case kind of EraVm \<Rightarrow> n div 32 | Evm \<Rightarrow> n)"])
      (auto simp: as_bytes_eq_iff)
qed (auto intro: verify_bytecode_hash_accepts)

text \<open>
  Hashing a raw EVM bytecode of less than \<open>2 ^ 16\<close> bytes succeeds, and trimming the padded bytecode
  with that hash gives the raw bytecode back.
\<close>

theorem evm_pad_trim_roundtrip:
  assumes "length b < 2 ^ 16"
  shows "\<exists>h. for_raw_evm_bytecode sha256 b = Inr h \<and> trim_bytecode h (pad_evm_bytecode b) = Inr b"
proof -
  let ?p = "pad_evm_bytecode b"
  let ?h = "from_be_bytes (hash_bytes_of Evm (word_of_nat (length b)) (sha256 ?p)) :: h256"
  obtain n where n: "?p = b @ replicate n 0" using pad_evm_bytecode_eq [of b] by auto
  note v = pad_evm_bytecode_valid [OF assms]
  have "unat (word_of_nat (length b) :: u16) = length b"
    using assms by (simp add: unsigned_of_nat take_bit_nat_eq_self)
  then have "trim_bytecode ?h ?p = Inr b"
    using v by (simp add: trim_bytecode_def trim_padded_evm_bytecode_def bytecode_hash_fields validate_bytecode_ok [symmetric])
      (simp add: n list_all_iff)
  moreover have "for_raw_evm_bytecode sha256 b = Inr ?h"
    by (simp add: for_raw_evm_bytecode_def for_evm_bytecode_def for_generic_bytecode_bytes [OF v])
  ultimately show ?thesis by blast
qed

text \<open>
  The hash of an EraVM bytecode records its marker and its length in bytes, and hashing fails (with
  a panic) on exactly the invalid bytecodes.
\<close>

theorem for_bytecode_fields:
  "(case for_bytecode sha256 code of
      Inl e \<Rightarrow> e = Panic InvalidBytecode \<and> \<not> valid_bytecode code
    | Inr h \<Rightarrow> valid_bytecode code \<and> bytecode_hash_marker h = Inr EraVm \<and>
        len_in_bytes h = Inr (length code) \<and> drop 4 (as_bytes h) = drop 4 (as_bytes (sha256 code)))"
proof (cases "valid_bytecode code")
  case True
  then show ?thesis
    by (simp add: for_bytecode_def for_generic_bytecode_bytes bytecode_hash_fields valid_length_words hash_bytes_of_nth)
next
  case False
  then show ?thesis by (simp add: for_bytecode_def for_generic_bytecode_eq)
qed

section \<open>Witnesses\<close>

theorem verify_bytecode_hash_iff_witness:
  "verify_bytecode_hash (\<lambda>_. 0) 0x0100000100000000000000000000000000000000000000000000000000000000
     (replicate 32 7) = Inr ()"
proof -
  let ?h = "0x0100000100000000000000000000000000000000000000000000000000000000 :: h256"
  have "as_bytes ?h = hash_bytes_of EraVm 1 0" by code_simp
  then show ?thesis
    unfolding verify_bytecode_hash_iff
    by (intro conjI exI [of _ EraVm] exI [of _ "1 :: u16"]) (simp_all add: valid_bytecode_def exI [of _ 1])
qed

theorem evm_pad_trim_roundtrip_witness:
  "\<exists>h. for_raw_evm_bytecode (\<lambda>_. 0) [0x60, 0x80] = Inr h \<and>
     trim_bytecode h (pad_evm_bytecode [0x60, 0x80]) = Inr [0x60, 0x80]"
  by (rule evm_pad_trim_roundtrip) simp

end
