(* ===== verification/Abi.thy ===== *)
theory Abi
  imports Prelude
begin

text \<open>
  The tokens of \<open>ethabi\<close>, which the sources build and take apart, and the encoding the Solidity ABI specification
  gives for them: a list of tokens is a head part, in which a dynamic token is replaced by its offset, followed by
  the tails. \<open>ethabi\<close> itself is a parameter of the definitions that call it (the record \<open>abi\<close>); that it follows the
  specification is a hypothesis of the theorems that need it.
\<close>

datatype abi_token =
    TokenAddress address
  | TokenUint u256
  | TokenBool bool
  | TokenFixedBytes "u8 list"
  | TokenBytes "u8 list"
  | TokenString string
  | TokenArray "abi_token list"
  | TokenFixedArray "abi_token list"
  | TokenTuple "abi_token list"

datatype param_type =
    ParamAddress | ParamUint nat | ParamBool | ParamFixedBytes nat | ParamBytes | ParamString
  | ParamArray param_type | ParamFixedArray param_type nat | ParamTuple "param_type list"

record abi =
  abi_encode :: "abi_token list \<Rightarrow> u8 list"
  abi_decode :: "param_type list \<Rightarrow> u8 list \<Rightarrow> abi_token list option"
  abi_selector :: "string \<Rightarrow> param_type list \<Rightarrow> u8 list"

text \<open>\<open>Token::into_*\<close>.\<close>

fun into_uint :: "abi_token \<Rightarrow> u256 option" where
  "into_uint (TokenUint v) = Some v"
| "into_uint _ = None"

fun into_address :: "abi_token \<Rightarrow> address option" where
  "into_address (TokenAddress a) = Some a"
| "into_address _ = None"

fun into_bool :: "abi_token \<Rightarrow> bool option" where
  "into_bool (TokenBool b) = Some b"
| "into_bool _ = None"

fun into_fixed_bytes :: "abi_token \<Rightarrow> u8 list option" where
  "into_fixed_bytes (TokenFixedBytes b) = Some b"
| "into_fixed_bytes _ = None"

fun into_bytes :: "abi_token \<Rightarrow> u8 list option" where
  "into_bytes (TokenBytes b) = Some b"
| "into_bytes _ = None"

fun into_array :: "abi_token \<Rightarrow> abi_token list option" where
  "into_array (TokenArray ts) = Some ts"
| "into_array _ = None"

fun into_fixed_array :: "abi_token \<Rightarrow> abi_token list option" where
  "into_fixed_array (TokenFixedArray ts) = Some ts"
| "into_fixed_array _ = None"

fun into_tuple :: "abi_token \<Rightarrow> abi_token list option" where
  "into_tuple (TokenTuple ts) = Some ts"
| "into_tuple _ = None"

section \<open>The specified encoding\<close>

definition pad_right :: "u8 list \<Rightarrow> u8 list" where
  "pad_right bs = bs @ replicate ((32 - length bs mod 32) mod 32) 0"

definition abi_word :: "nat \<Rightarrow> u8 list" where
  "abi_word n = be_bytes 32 (word_of_nat n :: u256)"

fun is_dynamic :: "abi_token \<Rightarrow> bool" where
  "is_dynamic (TokenBytes _) = True"
| "is_dynamic (TokenString _) = True"
| "is_dynamic (TokenArray _) = True"
| "is_dynamic (TokenFixedArray ts) = list_ex is_dynamic ts"
| "is_dynamic (TokenTuple ts) = list_ex is_dynamic ts"
| "is_dynamic _ = False"

text \<open>Heads and tails of encoded parts, each with the flag whether it is dynamic.\<close>

definition head_size :: "bool \<times> u8 list \<Rightarrow> nat" where
  "head_size p = (if fst p then 32 else length (snd p))"

fun heads :: "nat \<Rightarrow> (bool \<times> u8 list) list \<Rightarrow> u8 list" where
  "heads offset [] = []"
| "heads offset ((dynamic, enc) # ps) =
     (if dynamic then abi_word offset @ heads (offset + length enc) ps else enc @ heads offset ps)"

definition tails :: "(bool \<times> u8 list) list \<Rightarrow> u8 list" where
  "tails ps = concat (map (\<lambda>(dynamic, enc). if dynamic then enc else []) ps)"

definition assemble :: "(bool \<times> u8 list) list \<Rightarrow> u8 list" where
  "assemble ps = heads (sum_list (map head_size ps)) ps @ tails ps"

fun encode_token :: "abi_token \<Rightarrow> u8 list" where
  "encode_token (TokenAddress a) = replicate 12 0 @ address_bytes a"
| "encode_token (TokenUint v) = be_bytes 32 v"
| "encode_token (TokenBool b) = abi_word (if b then 1 else 0)"
| "encode_token (TokenFixedBytes bs) = pad_right bs"
| "encode_token (TokenBytes bs) = abi_word (length bs) @ pad_right bs"
| "encode_token (TokenString s) = abi_word (length s) @ pad_right (map of_char s)"
| "encode_token (TokenArray ts) = abi_word (length ts) @ assemble (map (\<lambda>t. (is_dynamic t, encode_token t)) ts)"
| "encode_token (TokenFixedArray ts) = assemble (map (\<lambda>t. (is_dynamic t, encode_token t)) ts)"
| "encode_token (TokenTuple ts) = assemble (map (\<lambda>t. (is_dynamic t, encode_token t)) ts)"

definition abi_spec_encode :: "abi_token list \<Rightarrow> u8 list" where
  "abi_spec_encode ts = assemble (map (\<lambda>t. (is_dynamic t, encode_token t)) ts)"

text \<open>An instance of the parameter: the specified encoder, no decoder and one selector for every function.\<close>

definition spec_abi :: abi where
  "spec_abi = \<lparr>abi_encode = abi_spec_encode, abi_decode = (\<lambda>_ _. None), abi_selector = (\<lambda>_ _. [0, 0, 0, 1])\<rparr>"

section \<open>Lengths\<close>

lemma length_abi_word [simp]: "length (abi_word n) = 32"
  by (simp add: abi_word_def)

lemma length_pad_right: "length (pad_right bs) = 32 * ((length bs + 31) div 32)"
proof -
  obtain q r where "length bs = 32 * q + r" "r < 32"
    by (metis div_mult_mod_eq mod_less_divisor mult.commute zero_less_numeral)
  then show ?thesis
    by (cases "r = 0") (simp_all add: pad_right_def div_add1_eq [of "32 * q" "r + 31" 32] add.assoc)
qed

lemma length_heads: "length (heads offset ps) = sum_list (map head_size ps)"
  by (induction offset ps rule: heads.induct) (simp_all add: head_size_def)

lemma length_assemble: "length (assemble ps) = sum_list (map (\<lambda>(dynamic, enc). (if dynamic then 32 else 0) + length enc) ps)"
  by (induction ps) (auto simp: assemble_def length_heads head_size_def tails_def)

lemma assemble_aligned: "\<forall>p \<in> set ps. 32 dvd length (snd p) \<Longrightarrow> 32 dvd length (assemble ps)"
  unfolding length_assemble by (induction ps) (auto simp: dvd_add)

lemma encode_token_aligned: "32 dvd length (encode_token t)"
proof (induction t)
  case (TokenArray ts)
  then show ?case by (auto intro!: dvd_add assemble_aligned)
next
  case (TokenFixedArray ts)
  then show ?case by (auto intro!: assemble_aligned)
next
  case (TokenTuple ts)
  then show ?case by (auto intro!: assemble_aligned)
qed (simp_all add: length_pad_right)

lemma abi_spec_encode_aligned: "32 dvd length (abi_spec_encode ts)"
  using encode_token_aligned [of "TokenTuple ts"] by (simp add: abi_spec_encode_def)

end
