(* ===== verification/Pubdata_Builder.thy ===== *)
theory Pubdata_Builder
  imports Vm_Env Bytecode Abi
begin

text \<open>
  Pubdata of a batch as the VM builds it: \<open>src/crates/vm_interface/src/pubdata/mod.rs\<close> (the input and the builder
  trait) and \<open>src/crates/multivm/src/pubdata_builders/\<close> (full and hashed builder, chained hashes). The ABI encoder and
  the selectors of \<open>ethabi\<close> are the record parameter \<open>abi\<close>.

  The lemmas relate the settlement-layer pubdata to \<open>L1BatchWithMetadata::construct_pubdata\<close>, show that a builder
  chosen from the parameters never aborts on the protocol version, and that the chained hashes bind their items.
\<close>

section \<open>Pubdata input\<close>

record l1_messenger_log =
  ml_l2_shard_id :: u8
  ml_is_service :: bool
  ml_tx_number_in_block :: u16
  ml_sender :: address
  ml_key :: u256
  ml_value :: u256

definition ml_packed_encoding :: "l1_messenger_log \<Rightarrow> u8 list" where
  "ml_packed_encoding l = [ml_l2_shard_id l] @ [bool_byte (ml_is_service l)] @ be_bytes 2 (ml_tx_number_in_block l) @
     address_bytes (ml_sender l) @ be_bytes 32 (ml_key l) @ be_bytes 32 (ml_value l)"

definition into_l2_to_l1_log :: "l1_messenger_log \<Rightarrow> l2_to_l1_log" where
  "into_l2_to_l1_log l = \<lparr>shard_id = ml_l2_shard_id l, is_service = ml_is_service l,
     tx_number_in_block = ml_tx_number_in_block l, sender = ml_sender l,
     l1_key = from_be_bytes (be_bytes 32 (ml_key l)), l1_value = from_be_bytes (be_bytes 32 (ml_value l))\<rparr>"

record pubdata_input =
  pin_user_logs :: "l1_messenger_log list"
  pin_l2_to_l1_messages :: "u8 list list"
  pin_published_bytecodes :: "u8 list list"
  pin_state_diffs :: "state_diff_record list"

section \<open>Encodings and chained hashes\<close>

definition build_chained_log_hash :: "hash_fn \<Rightarrow> l1_messenger_log list \<Rightarrow> h256" where
  "build_chained_log_hash keccak ls =
     foldl (\<lambda>chained log. keccak (as_bytes chained @ as_bytes (keccak (ml_packed_encoding log)))) 0 ls"

text \<open>Each encoding is copied into an 88-byte array, which aborts on another length.\<close>

definition build_logs_root :: "hash_fn \<Rightarrow> l1_messenger_log list \<Rightarrow> nat \<Rightarrow> h256 res" where
  "build_logs_root keccak ls tree_size =
     ensure (list_all (\<lambda>l. length (ml_packed_encoding l) = 88) ls) (Panic IndexOutOfBounds)
       (and_then (mm_new keccak (map ml_packed_encoding ls) (Some tree_size)) (merkle_root keccak 88))"

definition build_chained_message_hash :: "hash_fn \<Rightarrow> u8 list list \<Rightarrow> h256" where
  "build_chained_message_hash keccak msgs =
     foldl (\<lambda>chained msg. keccak (as_bytes chained @ as_bytes (keccak msg))) 0 msgs"

fun chain_bytecodes :: "hash_fn \<Rightarrow> hash_fn \<Rightarrow> h256 \<Rightarrow> u8 list list \<Rightarrow> h256 res" where
  "chain_bytecodes keccak sha256 chained [] = Inr chained"
| "chain_bytecodes keccak sha256 chained (b # bs) =
     and_then (for_bytecode sha256 b) (\<lambda>h. chain_bytecodes keccak sha256 (keccak (as_bytes chained @ as_bytes h)) bs)"

definition build_chained_bytecode_hash :: "hash_fn \<Rightarrow> hash_fn \<Rightarrow> u8 list list \<Rightarrow> h256 res" where
  "build_chained_bytecode_hash keccak sha256 bytecodes = chain_bytecodes keccak sha256 0 bytecodes"

definition encode_user_logs :: "l1_messenger_log list \<Rightarrow> u8 list" where
  "encode_user_logs ls = be_bytes 4 (word_of_nat (length ls) :: u32) @ concat (map ml_packed_encoding ls)"

definition extend_from_pubdata_input :: "u8 list \<Rightarrow> pubdata_input \<Rightarrow> u8 list res" where
  "extend_from_pubdata_input buffer input =
     and_then (compress_state_diffs (pin_state_diffs input)) (\<lambda>compressed.
       Inr (buffer @ encode_user_logs (pin_user_logs input) @
         be_bytes 4 (word_of_nat (length (pin_l2_to_l1_messages input)) :: u32) @
         concat (map (\<lambda>m. be_bytes 4 (word_of_nat (length m) :: u32) @ m) (pin_l2_to_l1_messages input)) @
         be_bytes 4 (word_of_nat (length (pin_published_bytecodes input)) :: u32) @
         concat (map (\<lambda>b. be_bytes 4 (word_of_nat (length b) :: u32) @ b) (pin_published_bytecodes input)) @
         compressed))"

section \<open>Builders\<close>

datatype pubdata_builder =
    FullPubdataBuilder (builder_validator: l2_pubdata_validator)
  | HashedPubdataBuilder (builder_validator: l2_pubdata_validator)

definition pubdata_params_to_builder :: "pubdata_params \<Rightarrow> protocol_version \<Rightarrow> pubdata_builder" where
  "pubdata_params_to_builder params version =
     (if is_pre_gateway version then FullPubdataBuilder (pubdata_validator params)
      else case pubdata_params.pubdata_type params of
        NoDA \<Rightarrow> HashedPubdataBuilder (pubdata_validator params)
      | _ \<Rightarrow> FullPubdataBuilder (pubdata_validator params))"

text \<open>The call data of \<open>validatePubdata\<close>: the four hashes of the header, then the pubdata.\<close>

definition l2_da_call :: "hash_fn \<Rightarrow> hash_fn \<Rightarrow> abi \<Rightarrow> pubdata_input \<Rightarrow> protocol_version \<Rightarrow> u8 list \<Rightarrow> u8 list res" where
  "l2_da_call keccak sha256 A input version pubdata =
     and_then (build_logs_root keccak (pin_user_logs input) (l2_to_l1_logs_tree_size version)) (\<lambda>log_root_hash.
     and_then (build_chained_bytecode_hash keccak sha256 (pin_published_bytecodes input)) (\<lambda>chained_bytecodes_hash.
       Inr (abi_selector A ''validatePubdata''
           [ParamFixedBytes 32, ParamFixedBytes 32, ParamFixedBytes 32, ParamFixedBytes 32, ParamBytes] @ abi_encode A
         [TokenFixedBytes (as_bytes (build_chained_log_hash keccak (pin_user_logs input))),
          TokenFixedBytes (as_bytes log_root_hash),
          TokenFixedBytes (as_bytes (build_chained_message_hash keccak (pin_l2_to_l1_messages input))),
          TokenFixedBytes (as_bytes chained_bytecodes_hash),
          TokenBytes pubdata])))"

definition uncompressed_state_diffs :: "pubdata_input \<Rightarrow> u8 list" where
  "uncompressed_state_diffs input = be_bytes 4 (word_of_nat (length (pin_state_diffs input)) :: u32) @
     concat (map sd_encode_padded (pin_state_diffs input))"

fun l1_messenger_operator_input ::
  "hash_fn \<Rightarrow> hash_fn \<Rightarrow> abi \<Rightarrow> pubdata_builder \<Rightarrow> pubdata_input \<Rightarrow> protocol_version \<Rightarrow> u8 list res" where
  "l1_messenger_operator_input keccak sha256 A (FullPubdataBuilder v) input version =
     and_then (extend_from_pubdata_input [] input) (\<lambda>pubdata.
       let pubdata' = pubdata @ uncompressed_state_diffs input
       in if is_pre_gateway version then Inr pubdata' else l2_da_call keccak sha256 A input version pubdata')"
| "l1_messenger_operator_input keccak sha256 A (HashedPubdataBuilder v) input version =
     ensure (\<not> is_pre_gateway version) (Panic UnsupportedVersion)
       (l2_da_call keccak sha256 A input version (encode_user_logs (pin_user_logs input)))"

fun settlement_layer_pubdata :: "hash_fn \<Rightarrow> pubdata_builder \<Rightarrow> pubdata_input \<Rightarrow> protocol_version \<Rightarrow> u8 list res" where
  "settlement_layer_pubdata keccak (FullPubdataBuilder v) input version = extend_from_pubdata_input [] input"
| "settlement_layer_pubdata keccak (HashedPubdataBuilder v) input version =
     ensure (\<not> is_pre_gateway version) (Panic UnsupportedVersion)
       (Inr (as_bytes (keccak (concat (map sd_encode_padded (pin_state_diffs input))))))"

section \<open>Facts\<close>

lemma ml_packed_encoding_eq: "ml_packed_encoding l = l2_to_l1_log_bytes (into_l2_to_l1_log l)"
  by (simp add: ml_packed_encoding_def l2_to_l1_log_bytes_def into_l2_to_l1_log_def)

lemma length_ml_packed_encoding [simp]: "length (ml_packed_encoding l) = 88"
  by (simp add: ml_packed_encoding_def)

lemma ml_packed_encoding_inj: "ml_packed_encoding a = ml_packed_encoding b \<Longrightarrow> a = b"
  by (cases a; cases b) (auto simp: ml_packed_encoding_def bool_byte_def split: if_splits)

text \<open>The batch whose pubdata the header of the batch would give.\<close>

definition batch_of_input :: "pubdata_input \<Rightarrow> u8 list \<Rightarrow> l1_batch_with_metadata" where
  "batch_of_input input compressed = \<lparr>lb_l2_to_l1_logs = map into_l2_to_l1_log (pin_user_logs input),
     lb_l2_to_l1_messages = pin_l2_to_l1_messages input,
     lb_raw_published_factory_deps = pin_published_bytecodes input, lb_state_diffs_compressed = compressed\<rparr>"

text \<open>
  In rollup mode the pubdata the VM reports for the settlement layer is byte for byte the one
  \<open>L1BatchWithMetadata::construct_pubdata\<close> packs from the batch header: both builders of the same data agree, and it
  exists exactly when the state diffs can be compressed.
\<close>

theorem full_builder_eq_construct_pubdata:
  "settlement_layer_pubdata keccak (FullPubdataBuilder v) input version =
     map_res (\<lambda>compressed. construct_pubdata (batch_of_input input compressed)) (compress_state_diffs (pin_state_diffs input))"
  by (cases "compress_state_diffs (pin_state_diffs input)")
    (simp_all add: extend_from_pubdata_input_def construct_pubdata_def batch_of_input_def encode_user_logs_def
      ml_packed_encoding_eq length_prefixed_def comp_def cong: map_cong)

text \<open>A builder chosen from the parameters is never the hashed one before the gateway upgrade.\<close>

lemma hashed_builder_post_gateway:
  "pubdata_params_to_builder params version = HashedPubdataBuilder v \<Longrightarrow> \<not> is_pre_gateway version"
  by (auto simp: pubdata_params_to_builder_def split: if_splits pubdata_type.splits)

lemma builder_validator_params: "builder_validator (pubdata_params_to_builder params version) = pubdata_validator params"
  by (auto simp: pubdata_params_to_builder_def split: pubdata_type.splits)

lemma build_logs_root_eq:
  "build_logs_root keccak ls (l2_to_l1_logs_tree_size v) = logs_merkle_root keccak v (map into_l2_to_l1_log ls)"
  unfolding build_logs_root_def logs_merkle_root_def Let_def logs_tree_leaves
  by (simp add: list_all_iff comp_def L2_TO_L1_LOG_SIZE_def flip: ml_packed_encoding_eq)

lemma for_bytecode_ok: "(\<exists>h. for_bytecode sha256 b = Inr h) \<longleftrightarrow> valid_bytecode b"
  by (simp add: for_bytecode_def for_generic_bytecode_eq)

lemma chain_bytecodes_ok: "(\<exists>h. chain_bytecodes keccak sha256 c bs = Inr h) \<longleftrightarrow> list_all valid_bytecode bs"
proof (induction bs arbitrary: c)
  case (Cons b bs)
  then show ?case using for_bytecode_ok [of sha256 b] by (cases "for_bytecode sha256 b") auto
qed simp

text \<open>
  The L1-messenger input of a builder chosen from the pubdata parameters: within the log tree's capacity it is
  produced exactly when the state diffs compress (where the full builder is used) and, from the gateway upgrade on,
  every published bytecode is valid. In particular the hashed builder's abort on an old protocol version never fires.
\<close>

theorem operator_input_succeeds_iff:
  assumes "length (pin_user_logs input) \<le> 2 ^ MAX_TREE_DEPTH"
  shows "(\<exists>out. l1_messenger_operator_input keccak sha256 A (pubdata_params_to_builder params version) input version = Inr out)
    \<longleftrightarrow> (is_pre_gateway version \<or> list_all valid_bytecode (pin_published_bytecodes input))
      \<and> ((\<not> is_pre_gateway version \<and> pubdata_params.pubdata_type params = NoDA)
         \<or> (\<exists>compressed. compress_state_diffs (pin_state_diffs input) = Inr compressed))"
proof -
  obtain root where root: "build_logs_root keccak (pin_user_logs input) (l2_to_l1_logs_tree_size version) = Inr root"
    using logs_merkle_root_correct [of "map into_l2_to_l1_log (pin_user_logs input)" keccak version] assms
    by (simp add: build_logs_root_eq)
  have call: "(\<exists>out. l2_da_call keccak sha256 A input version pubdata = Inr out) \<longleftrightarrow>
      list_all valid_bytecode (pin_published_bytecodes input)" for pubdata
    using chain_bytecodes_ok [of keccak sha256 0] by (auto simp: l2_da_call_def root build_chained_bytecode_hash_def)
  show ?thesis
  proof (cases "\<not> is_pre_gateway version \<and> pubdata_params.pubdata_type params = NoDA")
    case True
    then show ?thesis using call by (simp add: pubdata_params_to_builder_def)
  next
    case False
    then have "pubdata_params_to_builder params version = FullPubdataBuilder (pubdata_validator params)"
      by (auto simp: pubdata_params_to_builder_def split: pubdata_type.splits)
    with False show ?thesis
      using call by (cases "compress_state_diffs (pin_state_diffs input)")
        (auto simp: extend_from_pubdata_input_def Let_def)
  qed
qed

definition sample_messenger_log :: l1_messenger_log where
  "sample_messenger_log = \<lparr>ml_l2_shard_id = 0, ml_is_service = True, ml_tx_number_in_block = 3, ml_sender = 0x8008,
     ml_key = 1, ml_value = 2\<rparr>"

definition sample_pubdata_input :: pubdata_input where
  "sample_pubdata_input = \<lparr>pin_user_logs = [sample_messenger_log], pin_l2_to_l1_messages = [[1, 2]],
     pin_published_bytecodes = [replicate 32 7], pin_state_diffs = []\<rparr>"

theorem operator_input_succeeds_iff_witness:
  "\<exists>out. l1_messenger_operator_input sum_hash sum_hash spec_abi
     (pubdata_params_to_builder pubdata_params_genesis Version31) sample_pubdata_input Version31 = Inr out"
proof -
  have "valid_bytecode (replicate 32 (7 :: u8))" unfolding valid_bytecode_def by (intro exI [of _ 1]) simp
  moreover have "\<exists>c. compress_state_diffs [] = Inr c"
    by (simp add: compress_state_diffs_def sort_state_diffs_def prepend_header_def)
  ultimately show ?thesis
    by (subst operator_input_succeeds_iff) (simp_all add: sample_pubdata_input_def MAX_TREE_DEPTH_def)
qed

section \<open>Chained hashes\<close>

text \<open>The strings a chain of item hashes feeds to Keccak.\<close>

fun chain_preimages :: "hash_fn \<Rightarrow> h256 \<Rightarrow> h256 list \<Rightarrow> u8 list set" where
  "chain_preimages keccak c [] = {}"
| "chain_preimages keccak c (h # hs) =
     insert (as_bytes c @ as_bytes h) (chain_preimages keccak (keccak (as_bytes c @ as_bytes h)) hs)"

definition chain_hash :: "hash_fn \<Rightarrow> h256 \<Rightarrow> h256 list \<Rightarrow> h256" where
  "chain_hash keccak c hs = foldl (\<lambda>c h. keccak (as_bytes c @ as_bytes h)) c hs"

lemma chain_hash_inj:
  assumes "length xs = length ys" "chain_hash keccak c xs = chain_hash keccak d ys"
    and "inj_on keccak (chain_preimages keccak c xs \<union> chain_preimages keccak d ys)"
  shows "xs = ys \<and> c = d"
  using assms
proof (induction xs ys arbitrary: c d rule: list_induct2)
  case Nil
  then show ?case by (simp add: chain_hash_def)
next
  case (Cons x xs y ys)
  let ?c = "keccak (as_bytes c @ as_bytes x)" and ?d = "keccak (as_bytes d @ as_bytes y)"
  have "chain_hash keccak ?c xs = chain_hash keccak ?d ys" using Cons.prems(1) by (simp add: chain_hash_def)
  moreover have "inj_on keccak (chain_preimages keccak ?c xs \<union> chain_preimages keccak ?d ys)"
    using Cons.prems(2) by (rule inj_on_subset) auto
  ultimately have IH: "xs = ys" "?c = ?d" using Cons.IH by auto
  have "as_bytes c @ as_bytes x = as_bytes d @ as_bytes y"
    by (rule inj_onD [OF Cons.prems(2) IH(2)]) simp_all
  with IH(1) show ?case by simp
qed

lemma build_chained_log_hash_chain:
  "build_chained_log_hash keccak ls = chain_hash keccak 0 (map (\<lambda>l. keccak (ml_packed_encoding l)) ls)"
  by (simp add: build_chained_log_hash_def chain_hash_def foldl_map)

lemma build_chained_message_hash_chain:
  "build_chained_message_hash keccak ms = chain_hash keccak 0 (map keccak ms)"
  by (simp add: build_chained_message_hash_def chain_hash_def foldl_map)

text \<open>All strings hashed for a chained log hash.\<close>

definition log_chain_preimages :: "hash_fn \<Rightarrow> l1_messenger_log list \<Rightarrow> u8 list set" where
  "log_chain_preimages keccak ls = ml_packed_encoding ` set ls
     \<union> chain_preimages keccak 0 (map (\<lambda>l. keccak (ml_packed_encoding l)) ls)"

text \<open>
  The chained log hash binds the user logs and their order: two lists of the same length with the same chained
  hash are equal, for a Keccak without a collision on the strings hashed for them.
\<close>

theorem chained_log_hash_binds:
  assumes "length xs = length ys" and "build_chained_log_hash keccak xs = build_chained_log_hash keccak ys"
    and "inj_on keccak (log_chain_preimages keccak xs \<union> log_chain_preimages keccak ys)"
  shows "xs = ys"
proof -
  let ?h = "\<lambda>l. keccak (ml_packed_encoding l)"
  have "map ?h xs = map ?h ys"
  proof -
    have "inj_on keccak (chain_preimages keccak 0 (map ?h xs) \<union> chain_preimages keccak 0 (map ?h ys))"
      using assms(3) by (rule inj_on_subset) (auto simp: log_chain_preimages_def)
    from chain_hash_inj [OF _ _ this] assms(1,2) show ?thesis by (simp add: build_chained_log_hash_chain)
  qed
  moreover have "inj_on ?h (set xs \<union> set ys)"
  proof (rule inj_onI)
    fix a b assume "a \<in> set xs \<union> set ys" "b \<in> set xs \<union> set ys" "?h a = ?h b"
    then show "a = b"
      using inj_onD [OF assms(3), of "ml_packed_encoding a" "ml_packed_encoding b"]
      by (auto simp: log_chain_preimages_def intro: ml_packed_encoding_inj)
  qed
  ultimately show ?thesis by (simp add: map_inj_on)
qed

theorem chained_log_hash_binds_witness:
  "[sample_messenger_log] = [sample_messenger_log]
   \<and> inj_on length_keccak (log_chain_preimages length_keccak [sample_messenger_log])"
proof -
  have inj: "inj_on length_keccak (log_chain_preimages length_keccak [sample_messenger_log])"
    by (simp add: log_chain_preimages_def inj_on_def length_keccak_def)
  from chained_log_hash_binds [OF refl refl, of length_keccak "[sample_messenger_log]"] inj show ?thesis by simp
qed

end
