(* ===== verification/Verifier.thy ===== *)
theory Verifier
  imports Merkle_Witness_Correct Storage_View Verifier_Commitment Pubdata_Builder
begin

text \<open>
  The verifier itself: \<open>src/crates/airbender_verifier/src/lib.rs\<close> with the input types of \<open>types.rs\<close>.

  \<open>execute\<close> pins the operator-supplied fields, checks the bytecodes, builds the storage view, runs the VM over it and
  folds the Merkle witness; \<open>verify_commitment\<close> binds the previous commitment, checks the blobs and computes the
  commitment and the public input; \<open>verify\<close> is the two in sequence. The checks stand in the order of the source, each
  with its own error. The cycle-marker feature, which is off in every proved build, is left out.

  The VM (\<open>zksync_vm2\<close> behind the \<open>VmInterface\<close> trait) is the record parameter \<open>vm_ops\<close>; its operations return
  results because a panic inside it, such as a read of an unknown slot, aborts the verifier. Hash maps of the input are
  represented by the list of their entries.
\<close>

section \<open>The VM\<close>

datatype execution_result = Success "u8 list" | Revert "u8 list" | Halt string

record finished_l1_batch =
  block_tip_result :: execution_result
  fb_system_logs :: "l2_to_l1_log list"
  fb_deduplicated_storage_logs :: "storage_log list"
  fb_final_bootloader_memory :: "(nat \<times> u256) list option"
  fb_pubdata_input :: "u8 list option"
  fb_state_diffs :: "state_diff_record list option"

record ('tx, 'vm) vm_ops =
  vm_fast :: "l1_batch_env \<Rightarrow> system_env \<Rightarrow> storage_view_state \<Rightarrow> 'vm"
  make_snapshot :: "'vm \<Rightarrow> 'vm"
  rollback_to_the_latest_snapshot :: "'vm \<Rightarrow> 'vm"
  pop_snapshot_no_rollback :: "'vm \<Rightarrow> 'vm"
  execute_transaction_with_bytecode_compression :: "'tx \<Rightarrow> bool \<Rightarrow> 'vm \<Rightarrow> ((bool \<times> execution_result) \<times> 'vm) res"
  start_new_l2_block :: "l2_block_env \<Rightarrow> 'vm \<Rightarrow> 'vm res"
  finish_batch :: "pubdata_builder \<Rightarrow> 'vm \<Rightarrow> finished_l1_batch res"

definition ensure_not_halted :: "execution_result \<Rightarrow> unit res" where
  "ensure_not_halted r = (case r of Halt _ \<Rightarrow> Inl (Execution TransactionHalted) | _ \<Rightarrow> Inr ())"

definition execute_tx :: "('tx, 'vm) vm_ops \<Rightarrow> 'tx \<Rightarrow> 'vm \<Rightarrow> 'vm res" where
  "execute_tx V tx vm =
     and_then (execute_transaction_with_bytecode_compression V tx True (make_snapshot V vm)) (\<lambda>((compressed, result), vm1).
     if compressed
     then and_then (ensure_not_halted result) (\<lambda>_. Inr (pop_snapshot_no_rollback V vm1))
     else and_then (execute_transaction_with_bytecode_compression V tx False (rollback_to_the_latest_snapshot V vm1))
       (\<lambda>((compressed, result), vm2).
         ensure compressed (Execution CompressionFailedUncompressed)
           (and_then (ensure_not_halted result) (\<lambda>_. Inr vm2))))"

fun execute_txs :: "('tx, 'vm) vm_ops \<Rightarrow> 'tx list \<Rightarrow> 'vm \<Rightarrow> 'vm res" where
  "execute_txs V [] vm = Inr vm"
| "execute_txs V (tx # txs) vm = and_then (execute_tx V tx vm) (execute_txs V txs)"

text \<open>The loop over \<open>zip(blocks, blocks.skip(1))\<close>: a block's transactions, then the next block is opened.\<close>

fun execute_blocks ::
  "('tx, 'vm) vm_ops \<Rightarrow> ('tx l2_block_execution_data \<times> 'tx l2_block_execution_data) list \<Rightarrow> 'vm \<Rightarrow> 'vm res" where
  "execute_blocks V [] vm = Inr vm"
| "execute_blocks V ((block, next_block) # rest) vm =
     and_then (execute_txs V (ed_txs block) vm) (\<lambda>vm1.
     and_then (start_new_l2_block V (from_l2_block_data next_block) vm1) (execute_blocks V rest))"

definition execute_vm ::
  "('tx, 'vm) vm_ops \<Rightarrow> 'tx l2_block_execution_data list \<Rightarrow> 'vm \<Rightarrow> pubdata_params \<Rightarrow> protocol_version \<Rightarrow>
   finished_l1_batch res" where
  "execute_vm V blocks vm params version =
     ensure (blocks = [] \<or> ed_txs (last blocks) = []) (Execution LastBlockHasTxs)
     (and_then (execute_blocks V (zip blocks (drop 1 blocks)) vm) (\<lambda>vm1.
      and_then (finish_batch V (pubdata_params_to_builder params version) vm1) (\<lambda>finished.
      case block_tip_result finished of
        Success _ \<Rightarrow> Inr finished
      | _ \<Rightarrow> Inl (Execution FinalizationFailed))))"

section \<open>Verifier input\<close>

record witness_storage_state =
  read_storage_key :: "(storage_key \<times> h256) list"
  ws_is_write_initial :: "(storage_key \<times> bool) list"

record vm_run_witness_input_data =
  vr_l1_batch_number :: u32
  used_bytecodes :: "(u256 \<times> u8 list list) list"
  initial_heap_content :: "(nat \<times> u256) list"
  vr_protocol_version :: protocol_version
  bootloader_code :: "u8 list list"
  default_account_code_hash :: u256
  vr_evm_emulator_code_hash :: "u256 option"
  storage_refunds :: "u32 list"
  pubdata_costs :: "int list"
  witness_block_state :: witness_storage_state

record verifier_commitment_input =
  prev_batch_commitment :: h256
  prev_meta_hash :: h256
  prev_aux_hash :: h256
  vc_blob_hashes :: "blob_hash list"
  blob_versioned_hashes :: "h256 list"

definition commitment_input_default :: verifier_commitment_input where
  "commitment_input_default = \<lparr>prev_batch_commitment = 0, prev_meta_hash = 0, prev_aux_hash = 0,
     vc_blob_hashes = replicate TOTAL_BLOBS_IN_COMMITMENT \<lparr>blob_commitment = 0, linear_hash = 0\<rparr>,
     blob_versioned_hashes = replicate TOTAL_BLOBS_IN_COMMITMENT 0\<rparr>"

record 'tx airbender_verifier_input =
  vm_run_data :: vm_run_witness_input_data
  input_merkle_paths :: witness_input_merkle_paths
  l2_blocks_execution_data :: "'tx l2_block_execution_data list"
  input_l1_batch_env :: l1_batch_env
  input_system_env :: system_env
  input_pubdata_params :: pubdata_params
  input_commitment :: "verifier_commitment_input option"

record vm_execution_state =
  vs_batch_number :: u32
  vs_protocol_version :: protocol_version
  vs_old_root_hash :: h256
  vs_prev_enumeration_index :: u64
  vs_new_root_hash :: h256
  vs_new_enumeration_index :: u64
  vs_system_logs :: "l2_to_l1_log list"
  vs_state_diffs :: "state_diff_record list"
  vs_pubdata_input :: "u8 list option"
  vs_expanded_heap :: "u8 list"
  vs_zk_porter_available :: bool
  vs_bootloader_code_hash :: h256
  vs_default_aa_code_hash :: h256
  vs_evm_emulator_code_hash :: "h256 option"

definition pubdata_of :: "vm_execution_state \<Rightarrow> u8 list" where
  "pubdata_of state = (case vs_pubdata_input state of Some p \<Rightarrow> p | None \<Rightarrow> [])"

record verification_result =
  value_hash :: h256
  vr_batch_number :: u32
  proof_public_input :: "u32 list"
  batch_commitment :: h256
  new_enumeration_index :: u64
  pass_through_data_hash :: h256
  metadata_hash :: h256
  auxiliary_output_hash :: h256
  system_logs_hash :: h256
  state_diff_hash :: h256
  bootloader_heap_hash :: h256
  result_system_logs :: "l2_to_l1_log list"
  result_state_diffs :: "state_diff_record list"
  result_pubdata_input :: "u8 list option"

section \<open>Primitives\<close>

text \<open>The cryptography the verifier calls.\<close>

record ('st, 'f) crypto =
  keccak256 :: hash_fn
  blake2s :: hash_fn
  sha256 :: hash_fn
  fold_hasher :: "'st path_hasher"
  bls_field :: "'f scalar_field"

section \<open>execute\<close>

definition VALIDATION_COMPUTATIONAL_GAS_LIMIT :: u32 where "VALIDATION_COMPUTATIONAL_GAS_LIMIT = - 1"

text \<open>The pins on the environment, up to and including the first block's metadata.\<close>

definition first_block_matches :: "'tx l2_block_execution_data list \<Rightarrow> l2_block_env \<Rightarrow> bool" where
  "first_block_matches blocks canonical =
     (case blocks of
        [] \<Rightarrow> True
      | first # _ \<Rightarrow> ed_number first = be_number canonical \<and> ed_timestamp first = be_timestamp canonical
          \<and> ed_prev_block_hash first = be_prev_block_hash canonical
          \<and> ed_virtual_blocks first = be_max_virtual_blocks_to_create canonical
          \<and> ed_interop_roots first = be_interop_roots canonical)"

definition check_environment :: "'tx airbender_verifier_input \<Rightarrow> h256 res" where
  "check_environment input =
     (let senv = input_system_env input; benv = input_l1_batch_env input; run = vm_run_data input;
          version = system_version senv
      in ensure (version = latest) (Input UnsupportedProtocolVersion)
        (ensure (is_supported_by_fast_vm version) (Input UnsupportedFastVm)
        (and_then (ok_or (Input MissingPreviousBatchHash) (previous_batch_hash benv)) (\<lambda>old_root_hash.
         ensure (enforced_base_fee benv = None) (Input EnforcedBaseFee)
        (ensure (vr_l1_batch_number run = batch_env_number benv) (Input VmRunBatchNumber)
        (ensure (vr_protocol_version run = version) (Input VmRunProtocolVersion)
        (ensure (is_pre_medium_interop version =
            (case pubdata_validator (input_pubdata_params input) of ValidatorAddress _ \<Rightarrow> True | _ \<Rightarrow> False))
          (Input PubdataValidatorShape)
        (ensure (execution_mode senv = VerifyExecute) (Input ExecutionModeNotVerify)
        (ensure (default_validation_computational_gas_limit senv = VALIDATION_COMPUTATIONAL_GAS_LIMIT)
          (Input ValidationGasLimit)
        (ensure (first_block_matches (l2_blocks_execution_data input) (first_l2_block benv)) (Input FirstL2BlockMetadata)
          (Inr old_root_hash)))))))))))"

text \<open>The system contracts the VM loads, and the redundant copies of the run data.\<close>

definition check_system_contracts :: "hash_fn \<Rightarrow> base_system_contracts \<Rightarrow> vm_run_witness_input_data \<Rightarrow> unit res" where
  "check_system_contracts sha contracts run =
     and_then (verify_bytecode_hash sha (contract_hash (bsc_bootloader contracts)) (contract_code (bsc_bootloader contracts))) (\<lambda>_.
     and_then (verify_bytecode_hash sha (contract_hash (bsc_default_aa contracts)) (contract_code (bsc_default_aa contracts))) (\<lambda>_.
     and_then (case bsc_evm_emulator contracts of
         None \<Rightarrow> Inr ()
       | Some emu \<Rightarrow> verify_bytecode_hash sha (contract_hash emu) (contract_code emu)) (\<lambda>_.
     ensure (default_account_code_hash run = contract_hash (bsc_default_aa contracts)) (Input VmRunDefaultAa)
     (ensure (vr_evm_emulator_code_hash run = map_option contract_hash (bsc_evm_emulator contracts)) (Input VmRunEvmEmulator)
     (ensure (concat (bootloader_code run) = contract_code (bsc_bootloader contracts)) (Input VmRunBootloader) (Inr ()))))))"

text \<open>\<open>entry(key).or_insert(None)\<close> for every declared key.\<close>

definition declare_keys :: "hash_fn \<Rightarrow> storage_key list \<Rightarrow> storage_view \<Rightarrow> storage_view" where
  "declare_keys blake ks view =
     fold (\<lambda>k view. case view (hashed_key blake k) of None \<Rightarrow> view(hashed_key blake k \<mapsto> None) | Some _ \<Rightarrow> view) ks view"

definition declared_keys :: "witness_storage_state \<Rightarrow> storage_key list" where
  "declared_keys w = map fst (read_storage_key w) @ map fst (ws_is_write_initial w)"

text \<open>Collecting into a \<open>BTreeMap\<close> keeps the last entry of a key.\<close>

definition verify_factory_deps :: "hash_fn \<Rightarrow> (u256 \<times> u8 list list) list \<Rightarrow> (h256 \<rightharpoonup> u8 list) res" where
  "verify_factory_deps sha bytecodes =
     map_res (map_of \<circ> rev) (collect_res (map (\<lambda>(claimed, words).
       and_then (verify_bytecode_hash sha claimed (concat words)) (\<lambda>_. Inr (claimed, concat words))) bytecodes))"

definition execute :: "('st, 'f) crypto \<Rightarrow> ('tx, 'vm) vm_ops \<Rightarrow> 'tx airbender_verifier_input \<Rightarrow> vm_execution_state res" where
  "execute K V input =
     and_then (normalize_stored_paths (blake2s K) (input_merkle_paths input)) (\<lambda>(_, paths).
     let senv = input_system_env input; benv = input_l1_batch_env input; run = vm_run_data input;
         base_contracts = base_system_smart_contracts senv; version = system_version senv;
         index = next_enumeration_index paths in
     and_then (check_environment input) (\<lambda>old_root_hash.
     and_then (check_system_contracts (sha256 K) base_contracts run) (\<lambda>_.
     and_then (build_view_from_merkle_paths (witness_paths paths)) (\<lambda>view.
     let storage = declare_keys (blake2s K) (declared_keys (witness_block_state run)) view in
     and_then (verify_factory_deps (sha256 K) (used_bytecodes run)) (\<lambda>deps.
     let vm = vm_fast V benv senv (storage_view_new (snapshot_new storage deps)) in
     and_then (execute_vm V (l2_blocks_execution_data input) vm (input_pubdata_params input) version) (\<lambda>out.
     and_then (ok_or (Execution MissingStateDiffs) (fb_state_diffs out)) (\<lambda>diffs.
     and_then (ok_or (Execution MissingBootloaderMemory) (fb_final_bootloader_memory out)) (\<lambda>memory.
     and_then (verify_paths_and_new_root (blake2s K) (fold_hasher K) paths (fb_deduplicated_storage_logs out)
         old_root_hash index) (\<lambda>(new_root, new_index).
     and_then (get_used_bootloader_memory_bytes (vm_version_from version)) (\<lambda>memory_size.
     and_then (expand_bootloader_heap memory memory_size) (\<lambda>heap.
       Inr \<lparr>vs_batch_number = batch_env_number benv, vs_protocol_version = version, vs_old_root_hash = old_root_hash,
           vs_prev_enumeration_index = index, vs_new_root_hash = new_root, vs_new_enumeration_index = new_index,
           vs_system_logs = fb_system_logs out, vs_state_diffs = diffs, vs_pubdata_input = fb_pubdata_input out,
           vs_expanded_heap = heap, vs_zk_porter_available = zk_porter_available senv,
           vs_bootloader_code_hash = contract_hash (bsc_bootloader base_contracts),
           vs_default_aa_code_hash = contract_hash (bsc_default_aa base_contracts),
           vs_evm_emulator_code_hash = map_option contract_hash (bsc_evm_emulator base_contracts)\<rparr>)))))))))))"

section \<open>verify_commitment and verify\<close>

definition current_batch_commitment :: "hash_fn \<Rightarrow> hash_fn \<Rightarrow> vm_execution_state \<Rightarrow> blob_hash list \<Rightarrow> l1_batch_commitment" where
  "current_batch_commitment keccak blake state blobs =
     \<lparr>lc_pass_through = \<lparr>shared_states =
        [\<lparr>last_leaf_index = vs_new_enumeration_index state, rs_root_hash = vs_new_root_hash state\<rparr>,
         \<lparr>last_leaf_index = 0, rs_root_hash = 0\<rparr>]\<rparr>,
      lc_auxiliary_output = PostBoojum
        \<lparr>post_common = \<lparr>l2_l1_logs_merkle_root = 0, ao_protocol_version = vs_protocol_version state\<rparr>,
         system_logs_linear_hash = keccak (serialize_commitments l2_to_l1_log_bytes (vs_system_logs state)),
         state_diffs_compressed = [],
         state_diffs_hash = keccak (serialize_commitments sd_encode_padded (vs_state_diffs state)),
         post_aux_commitments = \<lparr>events_queue_commitment = 0,
           bootloader_initial_content_commitment = blake (vs_expanded_heap state)\<rparr>,
         post_blob_hashes = blobs, post_aggregation_root = 0, post_local_root = 0\<rparr>,
      lc_meta_parameters =
        \<lparr>zkporter_is_available = vs_zk_porter_available state, bootloader_code_hash = vs_bootloader_code_hash state,
         default_aa_code_hash = vs_default_aa_code_hash state,
         evm_emulator_code_hash = Some (case vs_evm_emulator_code_hash state of Some h \<Rightarrow> h | None \<Rightarrow> 0),
         mp_protocol_version = Some (vs_protocol_version state)\<rparr>\<rparr>"

definition verify_commitment ::
  "('st, 'f) crypto \<Rightarrow> vm_execution_state \<Rightarrow> verifier_commitment_input \<Rightarrow> verification_result res" where
  "verify_commitment K state ci =
     ensure (vs_zk_porter_available state = ZKPORTER_IS_AVAILABLE) (Commitment ZkPorterMismatch)
     (and_then (compute_pass_through_data_hash (keccak256 K) (vs_prev_enumeration_index state) (vs_old_root_hash state))
       (\<lambda>prev_passthrough.
      let expected = compute_commitment (keccak256 K) prev_passthrough (prev_meta_hash ci) (prev_aux_hash ci) in
      ensure (expected = prev_batch_commitment ci)
        (Commitment (PrevCommitmentBinding expected (prev_batch_commitment ci)))
      (and_then (ok_or (Commitment MissingPubdata) (vs_pubdata_input state)) (\<lambda>pubdata.
       and_then (verify_blob_hashes (keccak256 K) (bls_field K) pubdata (blob_versioned_hashes ci) (vc_blob_hashes ci)) (\<lambda>_.
       ensure (length (vc_blob_hashes ci) = TOTAL_BLOBS_IN_COMMITMENT)
         (Commitment (BlobHashesLength (length (vc_blob_hashes ci))))
       (let c = current_batch_commitment (keccak256 K) (hash_bytes (blake2s K)) state (vc_blob_hashes ci) in
        case l1_batch_commitment_hash (keccak256 K) c of
          Inl _ \<Rightarrow> Inl (Panic PassThroughSize)
        | Inr h \<Rightarrow> Inr
          \<lparr>value_hash = vs_new_root_hash state, vr_batch_number = vs_batch_number state,
           proof_public_input = compute_proof_public_input (keccak256 K) (prev_batch_commitment ci) (ch_commitment h),
           batch_commitment = ch_commitment h, new_enumeration_index = vs_new_enumeration_index state,
           pass_through_data_hash = ch_pass_through_data h, metadata_hash = ch_meta_parameters h,
           auxiliary_output_hash = ch_aux_output h,
           system_logs_hash = keccak256 K (serialize_commitments l2_to_l1_log_bytes (vs_system_logs state)),
           state_diff_hash = keccak256 K (serialize_commitments sd_encode_padded (vs_state_diffs state)),
           bootloader_heap_hash = hash_bytes (blake2s K) (vs_expanded_heap state),
           result_system_logs = vs_system_logs state, result_state_diffs = vs_state_diffs state,
           result_pubdata_input = vs_pubdata_input state\<rparr>))))))"

definition verify ::
  "('st, 'f) crypto \<Rightarrow> ('tx, 'vm) vm_ops \<Rightarrow> 'tx airbender_verifier_input \<Rightarrow> verification_result res" where
  "verify K V input =
     and_then (ok_or (Input MissingCommitmentInput) (input_commitment input)) (\<lambda>ci.
     and_then (execute K V (input\<lparr>input_commitment := None\<rparr>)) (\<lambda>state. verify_commitment K state ci))"

end
