(* ===== verification/Verifier_Correct.thy ===== *)
theory Verifier_Correct
  imports Verifier
begin

text \<open>
  Correctness of the verifier of \<open>lib.rs\<close> as a whole: what an accepted input pins, that the root and index of the
  result are those of the pre-batch state after the VM's storage logs, that the VM executed on that state, that the
  public inputs of two batches chain, and that an honest batch is accepted.
\<close>

section \<open>The stages of \<open>execute\<close>\<close>

text \<open>The storage the VM is given, and what it returns, as functions of the input.\<close>

definition vm_storage :: "('st, 'f) crypto \<Rightarrow> 'tx airbender_verifier_input \<Rightarrow> storage_snapshot res" where
  "vm_storage K input =
     and_then (normalize_stored_paths (blake2s K) (input_merkle_paths input)) (\<lambda>(_, paths).
     and_then (build_view_from_merkle_paths (witness_paths paths)) (\<lambda>view.
     and_then (verify_factory_deps (sha256 K) (used_bytecodes (vm_run_data input))) (\<lambda>deps.
       Inr (snapshot_new (declare_keys (blake2s K) (declared_keys (witness_block_state (vm_run_data input))) view) deps))))"

definition vm_output :: "('st, 'f) crypto \<Rightarrow> ('tx, 'vm) vm_ops \<Rightarrow> 'tx airbender_verifier_input \<Rightarrow> finished_l1_batch res" where
  "vm_output K V input =
     and_then (vm_storage K input) (\<lambda>snap.
       execute_vm V (l2_blocks_execution_data input)
         (vm_fast V (input_l1_batch_env input) (input_system_env input) (storage_view_new snap))
         (input_pubdata_params input) (system_version (input_system_env input)))"

text \<open>The tree operations of the batch, for the collision hypotheses; none when the input is rejected before them.\<close>

definition batch_run ::
  "('st, 'f) crypto \<Rightarrow> ('tx, 'vm) vm_ops \<Rightarrow> 'tx airbender_verifier_input \<Rightarrow>
   (tree_log_entry_with_proof \<times> tree_instruction) list" where
  "batch_run K V input =
     (case (normalize_stored_paths (blake2s K) (input_merkle_paths input), vm_output K V input) of
        (Inr (_, paths), Inr out) \<Rightarrow>
          witness_run (blake2s K) paths (fb_deduplicated_storage_logs out) (next_enumeration_index paths)
      | _ \<Rightarrow> [])"

lemma execute_eq_Inr:
  "execute K V input = Inr st \<longleftrightarrow>
     (\<exists>c paths old_root out diffs memory new_root new_index memory_size heap.
        normalize_stored_paths (blake2s K) (input_merkle_paths input) = Inr (c, paths) \<and>
        check_environment input = Inr old_root \<and>
        check_system_contracts (sha256 K) (base_system_smart_contracts (input_system_env input)) (vm_run_data input) = Inr () \<and>
        vm_output K V input = Inr out \<and>
        fb_state_diffs out = Some diffs \<and> fb_final_bootloader_memory out = Some memory \<and>
        verify_paths_and_new_root (blake2s K) (fold_hasher K) paths (fb_deduplicated_storage_logs out) old_root
          (next_enumeration_index paths) = Inr (new_root, new_index) \<and>
        get_used_bootloader_memory_bytes (vm_version_from (system_version (input_system_env input))) = Inr memory_size \<and>
        expand_bootloader_heap memory memory_size = Inr heap \<and>
        st = \<lparr>vs_batch_number = batch_env_number (input_l1_batch_env input),
           vs_protocol_version = system_version (input_system_env input), vs_old_root_hash = old_root,
           vs_prev_enumeration_index = next_enumeration_index paths, vs_new_root_hash = new_root,
           vs_new_enumeration_index = new_index,
           vs_system_logs = fb_system_logs out, vs_state_diffs = diffs, vs_pubdata_input = fb_pubdata_input out,
           vs_expanded_heap = heap, vs_zk_porter_available = zk_porter_available (input_system_env input),
           vs_bootloader_code_hash = contract_hash (bsc_bootloader (base_system_smart_contracts (input_system_env input))),
           vs_default_aa_code_hash = contract_hash (bsc_default_aa (base_system_smart_contracts (input_system_env input))),
           vs_evm_emulator_code_hash = map_option contract_hash
             (bsc_evm_emulator (base_system_smart_contracts (input_system_env input)))\<rparr>)"
proof (cases "normalize_stored_paths (blake2s K) (input_merkle_paths input)")
  case (Inr cp)
  obtain c paths where cp: "cp = (c, paths)" by (cases cp) blast
  show ?thesis
  proof (cases "vm_storage K input")
    case (Inl e)
    then show ?thesis using Inr cp by (auto simp: execute_def vm_output_def vm_storage_def Let_def)
  next
    case snap: (Inr snap)
    then show ?thesis
      using Inr cp by (auto simp: execute_def vm_output_def vm_storage_def Let_def)
  qed
qed (simp add: execute_def)

lemma normalize_keeps_index:
  "normalize_stored_paths blake w = Inr (c, w') \<Longrightarrow> next_enumeration_index w' = next_enumeration_index w"
  by (auto simp: normalize_stored_paths_def Let_def split: option.splits if_splits)

lemma execute_input_commitment [simp]: "execute K V (input\<lparr>input_commitment := c\<rparr>) = execute K V input"
  by (simp add: execute_def check_environment_def)

lemma verify_eq_Inr:
  "verify K V input = Inr r \<longleftrightarrow>
     (\<exists>ci st. input_commitment input = Some ci \<and> execute K V input = Inr st \<and> verify_commitment K st ci = Inr r)"
  by (auto simp: verify_def)

section \<open>\<open>verify_commitment\<close>\<close>

text \<open>The string whose hash is the pass-through data hash of a state root and an enumeration index.\<close>

definition state_preimage :: "u64 \<Rightarrow> h256 \<Rightarrow> u8 list" where
  "state_preimage index root = be_bytes 8 index @ as_bytes root @ replicate 40 0"

lemma state_preimage_inj [simp]: "state_preimage i r = state_preimage j s \<longleftrightarrow> i = j \<and> r = s"
  by (simp add: state_preimage_def)

definition commitment_result ::
  "('st, 'f) crypto \<Rightarrow> vm_execution_state \<Rightarrow> verifier_commitment_input \<Rightarrow> verification_result" where
  "commitment_result K st ci =
     (let c = current_batch_commitment (keccak256 K) (hash_bytes (blake2s K)) st (vc_blob_hashes ci);
          pass = keccak256 K (state_preimage (vs_new_enumeration_index st) (vs_new_root_hash st));
          meta = keccak256 K (meta_to_bytes (lc_meta_parameters c));
          aux = keccak256 K (aux_to_bytes (lc_auxiliary_output c));
          commitment = keccak256 K (commitment_preimage pass meta aux)
      in \<lparr>value_hash = vs_new_root_hash st, vr_batch_number = vs_batch_number st,
          proof_public_input = compute_proof_public_input (keccak256 K) (prev_batch_commitment ci) commitment,
          batch_commitment = commitment, new_enumeration_index = vs_new_enumeration_index st,
          pass_through_data_hash = pass, metadata_hash = meta, auxiliary_output_hash = aux,
          system_logs_hash = keccak256 K (serialize_commitments l2_to_l1_log_bytes (vs_system_logs st)),
          state_diff_hash = keccak256 K (serialize_commitments sd_encode_padded (vs_state_diffs st)),
          bootloader_heap_hash = hash_bytes (blake2s K) (vs_expanded_heap st),
          result_system_logs = vs_system_logs st, result_state_diffs = vs_state_diffs st,
          result_pubdata_input = vs_pubdata_input st\<rparr>)"

lemma current_commitment_pass_through:
  "pass_through_hash keccak (lc_pass_through (current_batch_commitment keccak blake st blobs)) =
     Inr (keccak (state_preimage (vs_new_enumeration_index st) (vs_new_root_hash st)))"
  by (simp add: current_batch_commitment_def pass_through_hash_def pass_through_to_bytes_def Let_def
      root_state_bytes_def state_preimage_def replicate_add [symmetric])

lemma verify_commitment_eq_Inr:
  "verify_commitment K st ci = Inr r \<longleftrightarrow>
     \<not> vs_zk_porter_available st \<and>
     prev_batch_commitment ci = keccak256 K (commitment_preimage
       (keccak256 K (state_preimage (vs_prev_enumeration_index st) (vs_old_root_hash st)))
       (prev_meta_hash ci) (prev_aux_hash ci)) \<and>
     (\<exists>pubdata. vs_pubdata_input st = Some pubdata \<and>
        verify_blob_hashes (keccak256 K) (bls_field K) pubdata (blob_versioned_hashes ci) (vc_blob_hashes ci) = Inr ()) \<and>
     length (vc_blob_hashes ci) = TOTAL_BLOBS_IN_COMMITMENT \<and>
     r = commitment_result K st ci"
  by (auto simp: verify_commitment_def compute_pass_through_total state_preimage_def [symmetric] compute_commitment_def
      Let_def ZKPORTER_IS_AVAILABLE_def l1_batch_commitment_hash_def current_commitment_pass_through
      commitment_result_def meta_hash_def aux_hash_def)

section \<open>State transition of an accepted batch\<close>

text \<open>The storage logs the VM produced, and their effect on a tree state.\<close>

definition batch_logs :: "('st, 'f) crypto \<Rightarrow> ('tx, 'vm) vm_ops \<Rightarrow> 'tx airbender_verifier_input \<Rightarrow> storage_log list" where
  "batch_logs K V input = (case vm_output K V input of Inr out \<Rightarrow> fb_deduplicated_storage_logs out | Inl _ \<Rightarrow> [])"

definition batch_effect ::
  "('st, 'f) crypto \<Rightarrow> ('tx, 'vm) vm_ops \<Rightarrow> 'tx airbender_verifier_input \<Rightarrow> tree_state \<times> u64 \<Rightarrow> tree_state \<times> u64" where
  "batch_effect K V input = fold (apply_vm_log (blake2s K)) (batch_logs K V input)"

abbreviation prev_index :: "'tx airbender_verifier_input \<Rightarrow> u64" where
  "prev_index input \<equiv> next_enumeration_index (input_merkle_paths input)"

abbreviation state_root :: "('st, 'f) crypto \<Rightarrow> tree_state \<Rightarrow> h256" where
  "state_root K \<equiv> tree_root (blake2_hash_tree (blake2s K))"

lemma check_environment_root: "check_environment input = Inr h \<Longrightarrow> previous_batch_hash (input_l1_batch_env input) = Some h"
  by (simp add: check_environment_def Let_def)

lemma execute_stages:
  assumes "execute K V input = Inr st"
  obtains c paths out where "normalize_stored_paths (blake2s K) (input_merkle_paths input) = Inr (c, paths)"
    and "\<not> is_legacy_delta_form paths" and "next_enumeration_index paths = prev_index input"
    and "vm_output K V input = Inr out" and "batch_logs K V input = fb_deduplicated_storage_logs out"
    and "batch_run K V input = witness_run (blake2s K) paths (batch_logs K V input) (prev_index input)"
    and "previous_batch_hash (input_l1_batch_env input) = Some (vs_old_root_hash st)"
    and "vs_prev_enumeration_index st = prev_index input"
    and "verify_paths_and_new_root (blake2s K) (fold_hasher K) paths (batch_logs K V input) (vs_old_root_hash st)
      (prev_index input) = Inr (vs_new_root_hash st, vs_new_enumeration_index st)"
proof -
  obtain c paths old_root out new_root new_index
    where n: "normalize_stored_paths (blake2s K) (input_merkle_paths input) = Inr (c, paths)"
      and env: "check_environment input = Inr old_root" and out: "vm_output K V input = Inr out"
      and pass: "verify_paths_and_new_root (blake2s K) (fold_hasher K) paths (fb_deduplicated_storage_logs out) old_root
        (next_enumeration_index paths) = Inr (new_root, new_index)"
      and st: "vs_old_root_hash st = old_root" "vs_prev_enumeration_index st = next_enumeration_index paths"
        "vs_new_root_hash st = new_root" "vs_new_enumeration_index st = new_index"
    using assms unfolding execute_eq_Inr by force
  note i = normalize_keeps_index [OF n]
  have logs: "batch_logs K V input = fb_deduplicated_storage_logs out" using out by (simp add: batch_logs_def)
  show ?thesis
    by (rule that [OF n normalize_result(1) [OF n] i out logs])
      (use n out pass st i logs check_environment_root [OF env] in \<open>simp_all add: batch_run_def\<close>)
qed

lemma verify_result_fields:
  assumes "verify_commitment K st ci = Inr r"
  shows "value_hash r = vs_new_root_hash st" "new_enumeration_index r = vs_new_enumeration_index st"
    "batch_commitment r = keccak256 K (commitment_preimage (pass_through_data_hash r) (metadata_hash r) (auxiliary_output_hash r))"
    "pass_through_data_hash r = keccak256 K (state_preimage (new_enumeration_index r) (value_hash r))"
    "proof_public_input r = compute_proof_public_input (keccak256 K) (prev_batch_commitment ci) (batch_commitment r)"
  using assms unfolding verify_commitment_eq_Inr by (simp_all add: commitment_result_def Let_def)

lemma verify_advances:
  assumes "blake2s_path_hasher (blake2s K) (fold_hasher K)" and "verify K V input = Inr r"
    and "previous_batch_hash (input_l1_batch_env input) = Some (state_root K m)"
    and "run_collision_free (blake2_hash_tree (blake2s K)) m (batch_run K V input)"
  shows "vm_reads_ok (blake2s K) (m, prev_index input) (batch_logs K V input) \<and>
    value_hash r = state_root K (fst (batch_effect K V input (m, prev_index input))) \<and>
    new_enumeration_index r = snd (batch_effect K V input (m, prev_index input))"
proof -
  obtain ci st where st: "execute K V input = Inr st" and r: "verify_commitment K st ci = Inr r"
    using assms(2) unfolding verify_eq_Inr by blast
  from st obtain paths where "\<not> is_legacy_delta_form paths"
    and run: "batch_run K V input = witness_run (blake2s K) paths (batch_logs K V input) (prev_index input)"
    and "previous_batch_hash (input_l1_batch_env input) = Some (vs_old_root_hash st)"
    and "verify_paths_and_new_root (blake2s K) (fold_hasher K) paths (batch_logs K V input) (vs_old_root_hash st)
      (prev_index input) = Inr (vs_new_root_hash st, vs_new_enumeration_index st)"
    by (rule execute_stages)
  with assms(3) streaming_pass_sound [OF assms(1) this(1) assms(4) [unfolded run]]
  show ?thesis by (simp add: verify_result_fields [OF r] batch_effect_def)
qed

text \<open>The strings whose hashes link the commitment of a batch to the input of the next one.\<close>

definition link_preimages :: "('st, 'f) crypto \<Rightarrow> verification_result \<Rightarrow> 'tx airbender_verifier_input \<Rightarrow> u8 list set" where
  "link_preimages K r input =
     {state_preimage (new_enumeration_index r) (value_hash r),
      commitment_preimage (pass_through_data_hash r) (metadata_hash r) (auxiliary_output_hash r)} \<union>
     (case (previous_batch_hash (input_l1_batch_env input), input_commitment input) of
        (Some root, Some ci) \<Rightarrow>
          {state_preimage (prev_index input) root,
           commitment_preimage (keccak256 K (state_preimage (prev_index input) root)) (prev_meta_hash ci) (prev_aux_hash ci)}
      | _ \<Rightarrow> {})"

lemma commitment_links:
  assumes "verify K V input = Inr r" and "verify K V input' = Inr r'"
    and "input_commitment input' = Some ci" and "prev_batch_commitment ci = batch_commitment r"
    and "inj_on (keccak256 K) (link_preimages K r input')"
  shows "previous_batch_hash (input_l1_batch_env input') = Some (value_hash r) \<and>
    prev_index input' = new_enumeration_index r \<and>
    prev_meta_hash ci = metadata_hash r \<and> prev_aux_hash ci = auxiliary_output_hash r"
proof -
  obtain st' where st': "execute K V input' = Inr st'" and r': "verify_commitment K st' ci = Inr r'"
    using assms(2,3) unfolding verify_eq_Inr by auto
  obtain ci0 st where r: "verify_commitment K st ci0 = Inr r" using assms(1) unfolding verify_eq_Inr by blast
  from st' have root: "previous_batch_hash (input_l1_batch_env input') = Some (vs_old_root_hash st')"
    and index: "vs_prev_enumeration_index st' = prev_index input'" by (rule execute_stages; simp)+
  let ?s = "state_preimage (prev_index input') (vs_old_root_hash st')"
  note inj = inj_onD [OF assms(5)] and link = link_preimages_def [of K r input'] root assms(3)
  have "keccak256 K (commitment_preimage (keccak256 K ?s) (prev_meta_hash ci) (prev_aux_hash ci)) =
      keccak256 K (commitment_preimage (pass_through_data_hash r) (metadata_hash r) (auxiliary_output_hash r))"
    using r' assms(4) verify_result_fields(3) [OF r] index unfolding verify_commitment_eq_Inr by simp
  then have c: "keccak256 K ?s = pass_through_data_hash r \<and> prev_meta_hash ci = metadata_hash r \<and>
      prev_aux_hash ci = auxiliary_output_hash r"
    by (rule inj [THEN commitment_preimage_inj [THEN iffD1]]) (simp_all add: link)
  then have "keccak256 K ?s = keccak256 K (state_preimage (new_enumeration_index r) (value_hash r))"
    using verify_result_fields(4) [OF r] by simp
  then have "?s = state_preimage (new_enumeration_index r) (value_hash r)"
    by (rule inj) (simp_all add: link)
  with c root show ?thesis by simp
qed

section \<open>Chains of batches\<close>

text \<open>Inputs with the results they were accepted with, each naming the commitment of the one before.\<close>

fun chain_accepted ::
  "('st, 'f) crypto \<Rightarrow> ('tx, 'vm) vm_ops \<Rightarrow> ('tx airbender_verifier_input \<times> verification_result) list \<Rightarrow> bool" where
  "chain_accepted K V [] = True"
| "chain_accepted K V [(input, r)] = (verify K V input = Inr r)"
| "chain_accepted K V ((input, r) # (input', r') # rest) =
     (verify K V input = Inr r \<and>
      map_option prev_batch_commitment (input_commitment input') = Some (batch_commitment r) \<and>
      chain_accepted K V ((input', r') # rest))"

text \<open>No collision among the hashes of the paths of each batch and among those of each link.\<close>

fun chain_collision_free ::
  "('st, 'f) crypto \<Rightarrow> ('tx, 'vm) vm_ops \<Rightarrow> ('tx airbender_verifier_input \<times> verification_result) list \<Rightarrow>
   tree_state \<times> u64 \<Rightarrow> bool" where
  "chain_collision_free K V [] st = True"
| "chain_collision_free K V ((input, r) # rest) st =
     (run_collision_free (blake2_hash_tree (blake2s K)) (fst st) (batch_run K V input) \<and>
      (case rest of [] \<Rightarrow> True | (input', _) # _ \<Rightarrow> inj_on (keccak256 K) (link_preimages K r input')) \<and>
      chain_collision_free K V rest (batch_effect K V input st))"

lemma chain_advances:
  assumes "blake2s_path_hasher (blake2s K) (fold_hasher K)" and "chain_accepted K V ((input, r) # rest)"
    and "previous_batch_hash (input_l1_batch_env input) = Some (state_root K m)"
    and "chain_collision_free K V ((input, r) # rest) (m, prev_index input)"
  shows "value_hash (snd (last ((input, r) # rest))) =
      state_root K (fst (fold (batch_effect K V \<circ> fst) ((input, r) # rest) (m, prev_index input))) \<and>
    new_enumeration_index (snd (last ((input, r) # rest))) =
      snd (fold (batch_effect K V \<circ> fst) ((input, r) # rest) (m, prev_index input))"
  using assms(2-)
proof (induction rest arbitrary: input r m)
  case Nil
  then show ?case using verify_advances [OF assms(1), of V input r m] by simp
next
  case (Cons second rest)
  obtain input' r' where second: "second = (input', r')" by force
  let ?st = "batch_effect K V input (m, prev_index input)"
  from Cons.prems second obtain ci where v: "verify K V input = Inr r"
    and ci: "input_commitment input' = Some ci" "prev_batch_commitment ci = batch_commitment r"
    and rest: "chain_accepted K V ((input', r') # rest)"
    and cf: "run_collision_free (blake2_hash_tree (blake2s K)) m (batch_run K V input)"
      "inj_on (keccak256 K) (link_preimages K r input')"
      "chain_collision_free K V ((input', r') # rest) ?st"
    by auto
  from rest have v': "verify K V input' = Inr r'" by (cases rest) auto
  note adv = verify_advances [OF assms(1) v Cons.prems(2) cf(1)]
  obtain m' where m': "?st = (m', prev_index input')"
    using commitment_links [OF v v' ci cf(2)] adv by (cases ?st) simp
  have "previous_batch_hash (input_l1_batch_env input') = Some (state_root K m')"
    using commitment_links [OF v v' ci cf(2)] adv m' by simp
  from Cons.IH [OF rest this] cf(3) m' second show ?case by simp
qed

section \<open>The checks\<close>

lemma latest_not_pre_medium_interop: "\<not> is_pre_medium_interop latest"
  by (simp add: is_pre_medium_interop_def latest_def version_order)

lemma check_environment_eq_Inr:
  "check_environment input = Inr h \<longleftrightarrow>
     (let senv = input_system_env input; benv = input_l1_batch_env input; run = vm_run_data input
      in previous_batch_hash benv = Some h \<and> system_version senv = latest \<and> enforced_base_fee benv = None \<and>
         vr_l1_batch_number run = batch_env_number benv \<and> vr_protocol_version run = latest \<and>
         (\<exists>scheme. pubdata_validator (input_pubdata_params input) = CommitmentScheme scheme) \<and>
         execution_mode senv = VerifyExecute \<and>
         default_validation_computational_gas_limit senv = VALIDATION_COMPUTATIONAL_GAS_LIMIT \<and>
         first_block_matches (l2_blocks_execution_data input) (first_l2_block benv))"
  by (cases "pubdata_validator (input_pubdata_params input)")
    (auto simp: check_environment_def Let_def latest_supported latest_not_pre_medium_interop)

lemma check_system_contracts_eq_Inr:
  "check_system_contracts sha contracts run = Inr u \<longleftrightarrow>
     (\<forall>contract \<in> {bsc_bootloader contracts, bsc_default_aa contracts} \<union> set_option (bsc_evm_emulator contracts).
        verify_bytecode_hash sha (contract_hash contract) (contract_code contract) = Inr ()) \<and>
     default_account_code_hash run = contract_hash (bsc_default_aa contracts) \<and>
     vr_evm_emulator_code_hash run = map_option contract_hash (bsc_evm_emulator contracts) \<and>
     concat (bootloader_code run) = contract_code (bsc_bootloader contracts)"
  by (cases "bsc_evm_emulator contracts") (auto simp: check_system_contracts_def)

lemma verify_factory_deps_eq_Inr:
  "verify_factory_deps sha bytecodes = Inr deps \<longleftrightarrow>
     (\<forall>(h, words) \<in> set bytecodes. verify_bytecode_hash sha h (concat words) = Inr ()) \<and>
     deps = map_of (rev (map (map_prod id concat) bytecodes))"
proof -
  have "collect_res (map (\<lambda>(claimed, words). and_then (verify_bytecode_hash sha claimed (concat words))
        (\<lambda>_. Inr (claimed, concat words))) bytecodes) = Inr xs \<longleftrightarrow>
      (\<forall>(h, words) \<in> set bytecodes. verify_bytecode_hash sha h (concat words) = Inr ()) \<and>
      xs = map (map_prod id concat) bytecodes" for xs
    by (induction bytecodes arbitrary: xs) auto
  then show ?thesis by (auto simp: verify_factory_deps_def)
qed

section \<open>What the public input determines\<close>

text \<open>
  The strings hashed for the commitment of an accepted batch, as byte layouts: the metadata with the code hashes of the
  system contracts, a missing EVM emulator as zero, and the auxiliary output with an events-queue commitment of zero.
\<close>

definition metadata_layout :: "base_system_contracts \<Rightarrow> u8 list" where
  "metadata_layout contracts =
     0 # as_bytes (contract_hash (bsc_bootloader contracts)) @ as_bytes (contract_hash (bsc_default_aa contracts)) @
     as_bytes (case bsc_evm_emulator contracts of Some e \<Rightarrow> contract_hash e | None \<Rightarrow> 0)"

definition auxiliary_layout :: "verification_result \<Rightarrow> blob_hash list \<Rightarrow> u8 list" where
  "auxiliary_layout r blobs =
     as_bytes (system_logs_hash r) @ as_bytes (state_diff_hash r) @ as_bytes (bootloader_heap_hash r) @ replicate 32 0 @
     concat (map (\<lambda>b. as_bytes (linear_hash b) @ as_bytes (blob_commitment b)) blobs)"

abbreviation input_contracts :: "'tx airbender_verifier_input \<Rightarrow> base_system_contracts" where
  "input_contracts input \<equiv> base_system_smart_contracts (input_system_env input)"

lemma latest_post_1_5_0: "is_post_1_5_0 latest"
  by (simp add: is_post_1_5_0_def latest_def version_order)

lemma as_bytes_zero: "as_bytes 0 = replicate 32 0"
  by (simp add: be_bytes_def le_bytes_def map_replicate_const)

text \<open>The hashes of an accepted batch, opened to the strings they are taken of.\<close>

definition commitment_opens ::
  "('st, 'f) crypto \<Rightarrow> 'tx airbender_verifier_input \<Rightarrow> verifier_commitment_input \<Rightarrow> h256 \<Rightarrow> verification_result \<Rightarrow> bool" where
  "commitment_opens K input ci root r \<longleftrightarrow>
     previous_batch_hash (input_l1_batch_env input) = Some root \<and>
     prev_batch_commitment ci = keccak256 K (commitment_preimage
       (keccak256 K (state_preimage (prev_index input) root)) (prev_meta_hash ci) (prev_aux_hash ci)) \<and>
     batch_commitment r = keccak256 K (commitment_preimage
       (keccak256 K (state_preimage (new_enumeration_index r) (value_hash r)))
       (keccak256 K (metadata_layout (input_contracts input))) (keccak256 K (auxiliary_layout r (vc_blob_hashes ci)))) \<and>
     system_logs_hash r = keccak256 K (serialize_commitments l2_to_l1_log_bytes (result_system_logs r)) \<and>
     state_diff_hash r = keccak256 K (serialize_commitments sd_encode_padded (result_state_diffs r)) \<and>
     proof_public_input r = compute_proof_public_input (keccak256 K) (prev_batch_commitment ci) (batch_commitment r)"

lemma verify_opens:
  assumes "verify K V input = Inr r" and "input_commitment input = Some ci"
  shows "\<exists>root. commitment_opens K input ci root r"
proof -
  obtain st where st: "execute K V input = Inr st" and c: "verify_commitment K st ci = Inr r"
    using assms unfolding verify_eq_Inr by auto
  from st have root: "previous_batch_hash (input_l1_batch_env input) = Some (vs_old_root_hash st)"
    and index: "vs_prev_enumeration_index st = prev_index input" by (rule execute_stages; simp)+
  from st have fields: "vs_protocol_version st = latest"
      "vs_bootloader_code_hash st = contract_hash (bsc_bootloader (input_contracts input))"
      "vs_default_aa_code_hash st = contract_hash (bsc_default_aa (input_contracts input))"
      "vs_evm_emulator_code_hash st = map_option contract_hash (bsc_evm_emulator (input_contracts input))"
    unfolding execute_eq_Inr check_environment_eq_Inr by (auto simp: Let_def)
  have zk: "\<not> vs_zk_porter_available st" and r: "r = commitment_result K st ci"
    and prev: "prev_batch_commitment ci = keccak256 K (commitment_preimage
      (keccak256 K (state_preimage (vs_prev_enumeration_index st) (vs_old_root_hash st))) (prev_meta_hash ci) (prev_aux_hash ci))"
    using c unfolding verify_commitment_eq_Inr by auto
  have meta: "meta_to_bytes (lc_meta_parameters (current_batch_commitment keccak blake st blobs)) =
      metadata_layout (input_contracts input)" for keccak blake blobs
    using zk fields by (simp add: current_batch_commitment_def meta_to_bytes_def metadata_layout_def bool_byte_def
        latest_post_1_5_0 split: option.splits)
  have aux: "aux_to_bytes (lc_auxiliary_output (current_batch_commitment (keccak256 K) (hash_bytes (blake2s K)) st blobs)) =
      auxiliary_layout r blobs" for blobs
    by (simp add: r current_batch_commitment_def auxiliary_layout_def commitment_result_def Let_def
        blob_hash_bytes_def [abs_def] as_bytes_zero)
  have "batch_commitment r = keccak256 K (commitment_preimage
      (keccak256 K (state_preimage (new_enumeration_index r) (value_hash r)))
      (keccak256 K (metadata_layout (input_contracts input))) (keccak256 K (auxiliary_layout r (vc_blob_hashes ci))))"
    unfolding aux [symmetric] by (simp add: r commitment_result_def Let_def meta)
  moreover have "system_logs_hash r = keccak256 K (serialize_commitments l2_to_l1_log_bytes (result_system_logs r))"
    "state_diff_hash r = keccak256 K (serialize_commitments sd_encode_padded (result_state_diffs r))"
    by (simp_all add: r commitment_result_def Let_def)
  ultimately show ?thesis
    using root prev [unfolded index] verify_result_fields(5) [OF c] unfolding commitment_opens_def by blast
qed

text \<open>All the strings hashed on the way to the public input of an accepted batch.\<close>

definition public_preimages :: "('st, 'f) crypto \<Rightarrow> 'tx airbender_verifier_input \<Rightarrow> verification_result \<Rightarrow> u8 list set" where
  "public_preimages K input r =
     (case (previous_batch_hash (input_l1_batch_env input), input_commitment input) of
        (Some root, Some ci) \<Rightarrow>
          {as_bytes (prev_batch_commitment ci) @ as_bytes (batch_commitment r),
           state_preimage (prev_index input) root,
           commitment_preimage (keccak256 K (state_preimage (prev_index input) root)) (prev_meta_hash ci) (prev_aux_hash ci),
           state_preimage (new_enumeration_index r) (value_hash r),
           metadata_layout (input_contracts input), auxiliary_layout r (vc_blob_hashes ci),
           commitment_preimage (keccak256 K (state_preimage (new_enumeration_index r) (value_hash r)))
             (keccak256 K (metadata_layout (input_contracts input))) (keccak256 K (auxiliary_layout r (vc_blob_hashes ci))),
           serialize_commitments l2_to_l1_log_bytes (result_system_logs r),
           serialize_commitments sd_encode_padded (result_state_diffs r)}
      | _ \<Rightarrow> {})"

lemma public_input_eq_iff:
  "compute_proof_public_input keccak p c = compute_proof_public_input keccak p' c' \<longleftrightarrow>
     keccak (as_bytes p @ as_bytes c) = keccak (as_bytes p' @ as_bytes c')"
proof -
  have "registers_value 8 (bytes32_to_u32x8 (as_bytes h)) = h" for h using registers_value_bytes [of 8 h] by simp
  then show ?thesis unfolding compute_proof_public_input_def by metis
qed

lemma metadata_layout_inj:
  "metadata_layout c = metadata_layout c' \<Longrightarrow>
     contract_hash (bsc_bootloader c) = contract_hash (bsc_bootloader c') \<and>
     contract_hash (bsc_default_aa c) = contract_hash (bsc_default_aa c') \<and>
     (case bsc_evm_emulator c of Some e \<Rightarrow> contract_hash e | None \<Rightarrow> 0) =
       (case bsc_evm_emulator c' of Some e \<Rightarrow> contract_hash e | None \<Rightarrow> 0)"
  by (simp add: metadata_layout_def as_bytes_append_inj)

lemma auxiliary_layout_inj:
  "auxiliary_layout r blobs = auxiliary_layout r' blobs' \<Longrightarrow>
     system_logs_hash r = system_logs_hash r' \<and> state_diff_hash r = state_diff_hash r' \<and>
     bootloader_heap_hash r = bootloader_heap_hash r' \<and> blobs = blobs'"
  by (simp add: auxiliary_layout_def as_bytes_append_inj flip: blob_hash_bytes_def)


section \<open>The storage of the VM\<close>

lemma build_view_loop_dom:
  "build_view_loop metas view = Inr view' \<Longrightarrow> dom view' = dom view \<union> view_key ` leaf_hashed_key ` set metas"
proof (induction metas arbitrary: view)
  case (Cons meta metas)
  then obtain leaf where leaf: "classify_witness_leaf meta = Inr leaf" by auto
  show ?case
  proof (cases "view (view_key (leaf_hashed_key meta))")
    case None
    with leaf Cons.prems have "build_view_loop metas (view(view_key (leaf_hashed_key meta) \<mapsto> prestate leaf)) = Inr view'"
      by simp
    from Cons.IH [OF this] show ?thesis unfolding dom_fun_upd by simp
  next
    case (Some p)
    with leaf Cons have "dom view' = dom view \<union> view_key ` leaf_hashed_key ` set metas" by simp
    moreover have "view_key (leaf_hashed_key meta) \<in> dom view" using Some by blast
    ultimately show ?thesis by auto
  qed
qed simp

lemma pass1_keys:
  "pass1 blake (zip metas vm_logs) idx = Inr r \<Longrightarrow> length metas = length vm_logs \<Longrightarrow>
   map leaf_hashed_key metas = map (hashed_key_u256 blake \<circ> log_key) vm_logs"
  by (induction metas vm_logs arbitrary: idx r rule: list_induct2') (auto simp: Let_def split: prod.splits)

lemma verify_paths_keys:
  "verify_paths_and_new_root blake ph w vm_logs root idx = Inr r \<Longrightarrow>
   map leaf_hashed_key (witness_paths w) = map (hashed_key_u256 blake \<circ> log_key) vm_logs"
  by (auto simp: verify_paths_and_new_root_def Let_def intro!: pass1_keys)

lemma declare_keys_apply:
  "declare_keys blake ks view h =
     (case view h of Some e \<Rightarrow> Some e | None \<Rightarrow> if h \<in> hashed_key blake ` set ks then Some None else None)"
  by (induction ks arbitrary: view) (auto simp: declare_keys_def split: option.splits)

text \<open>What the snapshot holds for a key: the leaf of the state if the batch touched it, else only what was declared.\<close>

definition expected_entry ::
  "hash_fn \<Rightarrow> tree_state \<Rightarrow> storage_log list \<Rightarrow> storage_key list \<Rightarrow> storage_key \<Rightarrow> (h256 \<times> u64) option res" where
  "expected_entry blake m vm_logs declared k =
     (if hashed_key blake k \<in> hashed_key blake ` log_key ` set vm_logs
      then Inr (state_entry m (hashed_key_u256 blake k))
      else if hashed_key blake k \<in> hashed_key blake ` set declared then Inr None
      else Inl (Panic UnknownStorageSlot))"

lemma hashed_key_u256_cong: "hashed_key blake k = hashed_key blake k' \<Longrightarrow> hashed_key_u256 blake k = hashed_key_u256 blake k'"
  by (metis view_key_hashed view_key_inj)

lemma vm_storage_entries:
  assumes "blake2s_path_hasher (blake2s K) (fold_hasher K)" and "execute K V input = Inr st"
    and "previous_batch_hash (input_l1_batch_env input) = Some (state_root K m)"
    and "run_collision_free (blake2_hash_tree (blake2s K)) m (batch_run K V input)"
    and "distinct (map (hashed_key_u256 (blake2s K) \<circ> log_key) (batch_logs K V input))"
  shows "\<exists>snap. vm_storage K input = Inr snap \<and>
    (\<forall>k. snapshot_entry (blake2s K) snap k = expected_entry (blake2s K) m (batch_logs K V input)
       (declared_keys (witness_block_state (vm_run_data input))) k)"
proof -
  let ?blake = "blake2s K" and ?logs = "batch_logs K V input"
  from assms(2) obtain c paths out where n: "normalize_stored_paths ?blake (input_merkle_paths input) = Inr (c, paths)"
    and nl: "\<not> is_legacy_delta_form paths" and out: "vm_output K V input = Inr out"
    and run: "batch_run K V input = witness_run ?blake paths ?logs (prev_index input)"
    and root: "previous_batch_hash (input_l1_batch_env input) = Some (vs_old_root_hash st)"
    and pass: "verify_paths_and_new_root ?blake (fold_hasher K) paths ?logs (vs_old_root_hash st)
      (prev_index input) = Inr (vs_new_root_hash st, vs_new_enumeration_index st)"
    by (rule execute_stages)
  from out obtain view deps where view: "build_view_from_merkle_paths (witness_paths paths) = Inr view"
    and snap: "vm_storage K input = Inr (snapshot_new (declare_keys ?blake
      (declared_keys (witness_block_state (vm_run_data input))) view) deps)"
    using n by (auto simp: vm_output_def vm_storage_def)
  note pre = view_pre_state [OF assms(1) nl assms(4) [unfolded run] view _ assms(5)]
  have touched: "view (hashed_key ?blake (log_key log)) = Some (state_entry m (hashed_key_u256 ?blake (log_key log)))"
    if "log \<in> set ?logs" for log
    using pre [OF _ that] pass root assms(3) by auto
  have "view_key ` leaf_hashed_key ` set (witness_paths paths) = view_key ` set (map (hashed_key_u256 ?blake \<circ> log_key) ?logs)"
    by (simp flip: verify_paths_keys [OF pass])
  then have dom: "dom view = hashed_key ?blake ` log_key ` set ?logs"
    using build_view_loop_dom [OF view [unfolded build_view_from_merkle_paths_def]]
    by (simp add: image_image view_key_hashed)
  have "snapshot_entry ?blake (snapshot_new (declare_keys ?blake
      (declared_keys (witness_block_state (vm_run_data input))) view) deps) k =
    expected_entry ?blake m ?logs (declared_keys (witness_block_state (vm_run_data input))) k" for k
  proof (cases "hashed_key ?blake k \<in> hashed_key ?blake ` log_key ` set ?logs")
    case True
    then obtain log where "log \<in> set ?logs" and k: "hashed_key ?blake k = hashed_key ?blake (log_key log)" by auto
    from touched [OF this(1)] hashed_key_u256_cong [OF k] True k show ?thesis
      by (simp add: snapshot_entry_def snapshot_new_def declare_keys_apply expected_entry_def)
  next
    case False
    then have "view (hashed_key ?blake k) = None" using dom by blast
    with False show ?thesis
      by (simp add: snapshot_entry_def snapshot_new_def declare_keys_apply expected_entry_def)
  qed
  with snap show ?thesis by blast
qed

section \<open>Honest batches\<close>

lemma build_view_loop_distinct:
  assumes "distinct (map leaf_hashed_key metas)" and "\<forall>meta \<in> set metas. \<exists>leaf. classify_witness_leaf meta = Inr leaf"
    and "\<forall>meta \<in> set metas. view (view_key (leaf_hashed_key meta)) = None"
  shows "\<exists>view'. build_view_loop metas view = Inr view'"
  using assms
proof (induction metas arbitrary: view)
  case (Cons meta metas)
  then obtain leaf where leaf: "classify_witness_leaf meta = Inr leaf" by auto
  let ?view = "view(view_key (leaf_hashed_key meta) \<mapsto> prestate leaf)"
  have d: "distinct (map leaf_hashed_key metas)" and fresh: "leaf_hashed_key meta \<notin> leaf_hashed_key ` set metas"
    using Cons.prems(1) by auto
  have "\<forall>x \<in> set metas. ?view (view_key (leaf_hashed_key x)) = None"
  proof
    fix x assume "x \<in> set metas"
    with fresh Cons.prems(3) show "?view (view_key (leaf_hashed_key x)) = None"
      by (subst fun_upd_other) (auto simp: image_iff)
  qed
  moreover have "\<forall>x \<in> set metas. \<exists>leaf. classify_witness_leaf x = Inr leaf" using Cons.prems(2) by simp
  ultimately have "\<exists>view'. build_view_loop metas ?view = Inr view'" by (intro Cons.IH [OF d])
  with leaf Cons.prems(3) show ?case by simp
qed simp

lemma honest_metas_keys: "map leaf_hashed_key (honest_metas blake st ls) = map (hashed_key_u256 blake \<circ> log_key) ls"
  by (induction ls arbitrary: st) (simp_all add: honest_meta_fields)

lemma honest_meta_trimmed: "empty_subtree_prefix_len blake (merkle_paths (honest_meta blake st log)) = 0"
  by (simp add: honest_meta_def Let_def split_beta trim_path_trimmed(2) del: fst_trim_path)

lemma honest_meta_classified: "\<exists>leaf. classify_witness_leaf (honest_meta blake st log) = Inr leaf"
  using honest_meta_base [of blake st log] by (auto simp: tree_log_entry_from_witness_def)

lemma honest_metas_wf:
  "\<forall>meta \<in> set (honest_metas blake st ls). length (merkle_paths meta) \<le> TREE_DEPTH \<and>
     empty_subtree_prefix_len blake (merkle_paths meta) = 0 \<and> (\<exists>leaf. classify_witness_leaf meta = Inr leaf)"
  by (induction ls arbitrary: st) (simp_all add: honest_meta_fields honest_meta_trimmed honest_meta_classified)

lemma honest_witness_normal:
  assumes "\<not> is_legacy_delta_form (honest_witness blake st ls)"
  shows "normalize_stored_paths blake (honest_witness blake st ls) = Inr ((0, 0), honest_witness blake st ls)"
  by (rule normalize_fixpoint [OF assms]) (use honest_metas_wf [of blake st ls] in \<open>simp add: honest_witness_def\<close>)

lemma state_entry_apply_other:
  "k \<noteq> hashed_key_u256 blake (log_key log) \<Longrightarrow> state_entry (fst (apply_vm_log blake log st)) k = state_entry (fst st) k"
  by (simp add: state_entry_def leaf_of_def apply_vm_log_def split_beta Let_def)

lemma honest_meta_prestate:
  "classify_witness_leaf (honest_meta blake st log) = Inr leaf \<Longrightarrow>
   prestate leaf = state_entry (fst st) (hashed_key_u256 blake (log_key log))"
  by (auto simp: honest_meta_def classify_witness_leaf_def state_entry_def Let_def split_beta split: if_splits)

lemma honest_metas_prestate:
  assumes "distinct (map (hashed_key_u256 blake \<circ> log_key) ls)" and "meta \<in> set (honest_metas blake st ls)"
    and "classify_witness_leaf meta = Inr leaf"
  shows "prestate leaf = state_entry (fst st) (leaf_hashed_key meta)"
  using assms
proof (induction ls arbitrary: st)
  case (Cons log ls)
  show ?case
  proof (cases "meta = honest_meta blake st log")
    case True
    then show ?thesis using Cons.prems(3) honest_meta_prestate by (simp add: honest_meta_fields)
  next
    case False
    then have m: "meta \<in> set (honest_metas blake (apply_vm_log blake log st) ls)" using Cons.prems(2) by simp
    then have "leaf_hashed_key meta \<in> set (map (hashed_key_u256 blake \<circ> log_key) ls)"
      using honest_metas_keys [of blake "apply_vm_log blake log st" ls] by (metis image_eqI list.set_map)
    then have "leaf_hashed_key meta \<noteq> hashed_key_u256 blake (log_key log)" using Cons.prems(1) by auto
    with Cons.IH [OF _ m Cons.prems(3)] Cons.prems(1) show ?thesis by (simp add: state_entry_apply_other)
  qed
qed simp

text \<open>
  The view of a state: the leaves of the slots in \<open>touched\<close>, absence for the others that are declared. A slot is given
  by its hashed key, whose bytes are those of the tree's key in the other order.
\<close>

definition pre_state_view :: "tree_state \<Rightarrow> h256 set \<Rightarrow> h256 set \<Rightarrow> storage_view" where
  "pre_state_view m touched declared h =
     (if h \<in> touched then Some (state_entry m (from_le_bytes (as_bytes h)))
      else if h \<in> declared then Some None else None)"

lemma honest_witness_view:
  assumes "distinct (map (hashed_key_u256 blake \<circ> log_key) ls)"
  shows "build_view_from_merkle_paths (witness_paths (honest_witness blake st ls)) =
    Inr (pre_state_view (fst st) (hashed_key blake ` log_key ` set ls) {})"
proof -
  let ?metas = "honest_metas blake st ls"
  obtain view where view: "build_view_loop ?metas Map.empty = Inr view"
    using build_view_loop_distinct [of ?metas Map.empty] assms honest_metas_keys [of blake st ls] honest_metas_wf [of blake st ls]
    by auto
  have keys: "leaf_hashed_key ` set ?metas = hashed_key_u256 blake ` log_key ` set ls"
    using arg_cong [OF honest_metas_keys [of blake st ls], of set] by (simp add: image_image)
  then have dom: "dom view = hashed_key blake ` log_key ` set ls"
    using build_view_loop_dom [OF view] by (simp add: image_image view_key_hashed)
  have "view h = pre_state_view (fst st) (hashed_key blake ` log_key ` set ls) {} h" for h
  proof (cases "h \<in> hashed_key blake ` log_key ` set ls")
    case True
    then obtain log where "log \<in> set ls" and h: "h = view_key (hashed_key_u256 blake (log_key log))"
      by (auto simp: view_key_hashed)
    then obtain meta where meta: "meta \<in> set ?metas" and k: "leaf_hashed_key meta = hashed_key_u256 blake (log_key log)"
      using keys by (metis image_eqI imageE)
    from build_view_loop_spec [OF view] meta obtain leaf where "classify_witness_leaf meta = Inr leaf"
      and v: "view (view_key (leaf_hashed_key meta)) = Some (prestate leaf)" by blast
    note honest_metas_prestate [OF assms meta this(1)]
    moreover have "from_le_bytes (as_bytes (view_key k)) = (k :: u256)" for k by (simp add: view_key_def)
    ultimately show ?thesis using True v h k by (simp add: pre_state_view_def)
  next
    case False
    then show ?thesis using dom by (auto simp: pre_state_view_def)
  qed
  with view show ?thesis by (simp add: build_view_from_merkle_paths_def honest_witness_def fun_eq_iff)
qed

text \<open>A well-formed batch: what an honest operator supplies and a VM that runs it returns.\<close>

definition honest_input ::
  "('st, 'f) crypto \<Rightarrow> tree_state \<Rightarrow> storage_log list \<Rightarrow> 'tx airbender_verifier_input \<Rightarrow> bool" where
  "honest_input K m ls input \<longleftrightarrow>
     check_environment input = Inr (state_root K m) \<and>
     check_system_contracts (sha256 K) (base_system_smart_contracts (input_system_env input)) (vm_run_data input) = Inr () \<and>
     (\<exists>deps. verify_factory_deps (sha256 K) (used_bytecodes (vm_run_data input)) = Inr deps) \<and>
     input_merkle_paths input = honest_witness (blake2s K) (m, prev_index input) ls \<and>
     \<not> is_legacy_delta_form (input_merkle_paths input) \<and> \<not> zk_porter_available (input_system_env input)"

text \<open>
  The snapshot of the pre-batch state: for the slots of the logs what the state holds, absence for the other declared
  slots, and the bytecodes of the run data.
\<close>

definition pre_state_snapshot ::
  "('st, 'f) crypto \<Rightarrow> tree_state \<Rightarrow> storage_log list \<Rightarrow> 'tx airbender_verifier_input \<Rightarrow> storage_snapshot" where
  "pre_state_snapshot K m ls input =
     snapshot_new (pre_state_view m (hashed_key (blake2s K) ` log_key ` set ls)
         (hashed_key (blake2s K) ` set (declared_keys (witness_block_state (vm_run_data input)))))
       (map_of (rev (map (map_prod id concat) (used_bytecodes (vm_run_data input)))))"

lemma honest_vm_storage:
  assumes "honest_input K m ls input" and "distinct (map (hashed_key_u256 (blake2s K) \<circ> log_key) ls)"
  shows "vm_storage K input = Inr (pre_state_snapshot K m ls input)"
proof -
  let ?w = "honest_witness (blake2s K) (m, prev_index input) ls"
  have w: "input_merkle_paths input = ?w" and nl: "\<not> is_legacy_delta_form ?w"
    and deps: "verify_factory_deps (sha256 K) (used_bytecodes (vm_run_data input)) =
      Inr (map_of (rev (map (map_prod id concat) (used_bytecodes (vm_run_data input)))))"
    using assms(1) by (auto simp: honest_input_def verify_factory_deps_eq_Inr simp del: is_legacy_delta_form.simps)
  have "declare_keys (blake2s K) ks (pre_state_view m T {}) = pre_state_view m T (hashed_key (blake2s K) ` set ks)" for ks T
    by (simp add: fun_eq_iff declare_keys_apply pre_state_view_def)
  with honest_witness_normal [OF nl] honest_witness_view [OF assms(2), of "(m, prev_index input)"] w deps show ?thesis
    by (simp add: vm_storage_def pre_state_snapshot_def)
qed

definition honest_output :: "finished_l1_batch \<Rightarrow> storage_log list \<Rightarrow> u8 list \<Rightarrow> bool" where
  "honest_output out ls pubdata \<longleftrightarrow>
     fb_deduplicated_storage_logs out = ls \<and> fb_state_diffs out \<noteq> None \<and> fb_pubdata_input out = Some pubdata \<and>
     (\<exists>memory. fb_final_bootloader_memory out = Some memory \<and>
        (\<forall>(offset, v) \<in> set memory. 32 * offset + 32 \<le> subversion_used_memory_bytes MediumInterop))"


lemma latest_memory_bytes:
  "get_used_bootloader_memory_bytes (vm_version_from latest) = Inr (subversion_used_memory_bytes MediumInterop)"
  by (simp add: get_used_bootloader_memory_bytes_def for_subversion_def latest_def multi_vm_subversion_try_from_def)

lemma honest_executes:
  assumes "blake2s_path_hasher (blake2s K) (fold_hasher K)" and "honest_input K m ls input"
    and "wf_tree_state m" and "vm_reads_ok (blake2s K) (m, prev_index input) ls"
    and "prev_index input \<noteq> 0" and "unat (prev_index input) + length ls < 2 ^ 64" and "ls \<noteq> []"
    and "vm_output K V input = Inr out" and "honest_output out ls pubdata"
  shows "\<exists>st. execute K V input = Inr st \<and> vs_pubdata_input st = Some pubdata \<and>
    vs_old_root_hash st = state_root K m \<and> vs_prev_enumeration_index st = prev_index input \<and>
    vs_new_root_hash st = state_root K (fst (fold (apply_vm_log (blake2s K)) ls (m, prev_index input))) \<and>
    vs_new_enumeration_index st = snd (fold (apply_vm_log (blake2s K)) ls (m, prev_index input)) \<and>
    vs_zk_porter_available st = zk_porter_available (input_system_env input)"
proof -
  let ?w = "honest_witness (blake2s K) (m, prev_index input) ls"
  have w: "input_merkle_paths input = ?w" and nl: "\<not> is_legacy_delta_form ?w"
    and env: "check_environment input = Inr (state_root K m)" "system_version (input_system_env input) = latest"
    and contracts: "check_system_contracts (sha256 K) (base_system_smart_contracts (input_system_env input)) (vm_run_data input) = Inr ()"
    using assms(2) by (auto simp: honest_input_def check_environment_eq_Inr Let_def simp del: is_legacy_delta_form.simps)
  obtain memory diffs where mem: "fb_final_bootloader_memory out = Some memory" "fb_state_diffs out = Some diffs"
    "\<forall>(offset, v) \<in> set memory. 32 * offset + 32 \<le> subversion_used_memory_bytes MediumInterop"
    using assms(9) by (auto simp: honest_output_def)
  obtain heap where heap: "expand_bootloader_heap memory (subversion_used_memory_bytes MediumInterop) = Inr heap"
    using expand_heap_loop_ok [OF length_replicate mem(3)] unfolding expand_bootloader_heap_def by blast
  have "next_enumeration_index ?w = prev_index input" by (simp add: honest_witness_def)
  with streaming_pass_complete [OF assms(1,3,4,5,6,7) nl] honest_witness_normal [OF nl] w env contracts mem heap assms(8,9)
  show ?thesis
    unfolding execute_eq_Inr by (simp add: honest_output_def latest_memory_bytes)
qed

text \<open>The commitment input of an honest batch: it opens the previous commitment and its blobs match the pubdata.\<close>

definition honest_commitment_input ::
  "('st, 'f) crypto \<Rightarrow> u64 \<Rightarrow> h256 \<Rightarrow> u8 list \<Rightarrow> verifier_commitment_input \<Rightarrow> bool" where
  "honest_commitment_input K index root pubdata ci \<longleftrightarrow>
     prev_batch_commitment ci = keccak256 K (commitment_preimage (keccak256 K (state_preimage index root))
       (prev_meta_hash ci) (prev_aux_hash ci)) \<and>
     verify_blob_hashes (keccak256 K) (bls_field K) pubdata (blob_versioned_hashes ci) (vc_blob_hashes ci) = Inr () \<and>
     length (vc_blob_hashes ci) = TOTAL_BLOBS_IN_COMMITMENT"

lemma honest_verifies:
  assumes "blake2s_path_hasher (blake2s K) (fold_hasher K)" and "honest_input K m ls input"
    and "wf_tree_state m" and "vm_reads_ok (blake2s K) (m, prev_index input) ls"
    and "prev_index input \<noteq> 0" and "unat (prev_index input) + length ls < 2 ^ 64" and "ls \<noteq> []"
    and "distinct (map (hashed_key_u256 (blake2s K) \<circ> log_key) ls)"
    and "execute_vm V (l2_blocks_execution_data input)
      (vm_fast V (input_l1_batch_env input) (input_system_env input) (storage_view_new (pre_state_snapshot K m ls input)))
      (input_pubdata_params input) (system_version (input_system_env input)) = Inr out"
    and "honest_output out ls pubdata" and "input_commitment input = Some ci"
    and "honest_commitment_input K (prev_index input) (state_root K m) pubdata ci"
  shows "vm_output K V input = Inr out \<and> (\<exists>r. verify K V input = Inr r \<and>
    value_hash r = state_root K (fst (fold (apply_vm_log (blake2s K)) ls (m, prev_index input))) \<and>
    new_enumeration_index r = snd (fold (apply_vm_log (blake2s K)) ls (m, prev_index input)))"
proof -
  let ?w = "honest_witness (blake2s K) (m, prev_index input) ls"
  have w: "input_merkle_paths input = ?w" and nl: "\<not> is_legacy_delta_form ?w"
    and zk: "\<not> zk_porter_available (input_system_env input)"
    using assms(2) by (auto simp: honest_input_def simp del: is_legacy_delta_form.simps)
  have out: "vm_output K V input = Inr out"
    using assms(9) honest_vm_storage [OF assms(2,8)] by (simp add: vm_output_def)
  from honest_executes [OF assms(1-7) out assms(10)] obtain st where st: "execute K V input = Inr st"
    "vs_pubdata_input st = Some pubdata" "vs_old_root_hash st = state_root K m"
    "vs_prev_enumeration_index st = prev_index input"
    "vs_new_root_hash st = state_root K (fst (fold (apply_vm_log (blake2s K)) ls (m, prev_index input)))"
    "vs_new_enumeration_index st = snd (fold (apply_vm_log (blake2s K)) ls (m, prev_index input))"
    "vs_zk_porter_available st = zk_porter_available (input_system_env input)" by blast
  then have "verify_commitment K st ci = Inr (commitment_result K st ci)"
    using assms(12) zk by (simp add: verify_commitment_eq_Inr honest_commitment_input_def)
  from verify_result_fields [OF this] st assms(11) this out show ?thesis
    unfolding verify_eq_Inr by auto
qed

section \<open>Properties\<close>

text \<open>
  C2. Soundness of the verifier: if an input is accepted, its previous root is the root of a state, and the hashes of
  the witness paths do not collide, then every storage log the VM reports as a read holds the value of the state it
  ran in, and the new root and enumeration index of the result are those of the state after the VM's storage logs.
\<close>

theorem verify_sound:
  assumes "blake2s_path_hasher (blake2s K) (fold_hasher K)" and "verify K V input = Inr r"
    and "previous_batch_hash (input_l1_batch_env input) = Some (state_root K m)"
    and "run_collision_free (blake2_hash_tree (blake2s K)) m (batch_run K V input)"
  shows "vm_reads_ok (blake2s K) (m, prev_index input) (batch_logs K V input) \<and>
    value_hash r = state_root K (fst (batch_effect K V input (m, prev_index input))) \<and>
    new_enumeration_index r = snd (batch_effect K V input (m, prev_index input))"
  by (rule verify_advances [OF assms])

text \<open>
  C1. Accepted batches chain: when each batch names the commitment of the one before as its previous commitment, and
  neither the witness paths nor the linked commitments hold a hash collision, the root and index of the last result
  are those of the first batch's state after the storage logs of all the batches in order. The operator cannot
  choose the state a later batch starts from.
\<close>

theorem verified_chain_sound:
  assumes "blake2s_path_hasher (blake2s K) (fold_hasher K)" and "chain_accepted K V chain" and "chain = (input, r) # rest"
    and "previous_batch_hash (input_l1_batch_env input) = Some (state_root K m)"
    and "chain_collision_free K V chain (m, prev_index input)"
  shows "value_hash (snd (last chain)) = state_root K (fst (fold (batch_effect K V \<circ> fst) chain (m, prev_index input))) \<and>
    new_enumeration_index (snd (last chain)) = snd (fold (batch_effect K V \<circ> fst) chain (m, prev_index input))"
  unfolding assms(3) by (rule chain_advances [OF assms(1) assms(2) [unfolded assms(3)] assms(4) assms(5) [unfolded assms(3)]])

text \<open>
  C3. The storage the VM executes on is the pre-batch state and nothing else: for an accepted input, a slot the batch
  touched has the value and index of the state behind the previous root, or absence; a slot that is only declared
  reads as absent, whatever value the operator supplied for it; every other slot aborts the verifier.
\<close>

theorem vm_storage_is_pre_state:
  assumes "blake2s_path_hasher (blake2s K) (fold_hasher K)" and "verify K V input = Inr r"
    and "previous_batch_hash (input_l1_batch_env input) = Some (state_root K m)"
    and "run_collision_free (blake2_hash_tree (blake2s K)) m (batch_run K V input)"
    and "distinct (map (hashed_key_u256 (blake2s K) \<circ> log_key) (batch_logs K V input))"
  shows "\<exists>snap. vm_storage K input = Inr snap \<and>
    (\<forall>k. snapshot_entry (blake2s K) snap k = expected_entry (blake2s K) m (batch_logs K V input)
       (declared_keys (witness_block_state (vm_run_data input))) k)"
  using assms(2) vm_storage_entries [OF assms(1) _ assms(3-5)] unfolding verify_eq_Inr by blast

text \<open>
  C5. What acceptance pins: the latest protocol version, the \<open>VerifyExecute\<close> mode, the canonical validation gas limit, no
  enforced base fee, zkPorter off, the redundant run data (batch number, version, default account and EVM emulator
  hashes, bootloader code) equal to the environment, the validator given as a
  commitment scheme, the first block equal to the environment's, every bytecode the VM can load checked against its
  hash, an empty last block and sixteen blob slots.
\<close>

theorem verify_pins:
  assumes "verify K V input = Inr r"
  shows "(let senv = input_system_env input; benv = input_l1_batch_env input; run = vm_run_data input;
        contracts = base_system_smart_contracts senv; blocks = l2_blocks_execution_data input
    in system_version senv = latest \<and> execution_mode senv = VerifyExecute \<and>
      default_validation_computational_gas_limit senv = - 1 \<and> \<not> zk_porter_available senv \<and>
      enforced_base_fee benv = None \<and>
      vr_l1_batch_number run = batch_env_number benv \<and> vr_protocol_version run = latest \<and>
      (\<exists>scheme. pubdata_validator (input_pubdata_params input) = CommitmentScheme scheme) \<and>
      first_block_matches blocks (first_l2_block benv) \<and> (blocks \<noteq> [] \<longrightarrow> ed_txs (last blocks) = []) \<and>
      (\<forall>contract \<in> {bsc_bootloader contracts, bsc_default_aa contracts} \<union> set_option (bsc_evm_emulator contracts).
         verify_bytecode_hash (sha256 K) (contract_hash contract) (contract_code contract) = Inr ()) \<and>
      (\<forall>(h, words) \<in> set (used_bytecodes run). verify_bytecode_hash (sha256 K) h (concat words) = Inr ()) \<and>
      default_account_code_hash run = contract_hash (bsc_default_aa contracts) \<and>
      vr_evm_emulator_code_hash run = map_option contract_hash (bsc_evm_emulator contracts) \<and>
      concat (bootloader_code run) = contract_code (bsc_bootloader contracts) \<and>
      (\<exists>ci. input_commitment input = Some ci \<and> length (vc_blob_hashes ci) = 16))"
proof -
  obtain ci st where ci: "input_commitment input = Some ci" "length (vc_blob_hashes ci) = 16"
    and zk: "\<not> vs_zk_porter_available st" and st: "execute K V input = Inr st"
    using assms by (auto simp: verify_eq_Inr verify_commitment_eq_Inr TOTAL_BLOBS_IN_COMMITMENT_def)
  from st obtain h out where env: "check_environment input = Inr h"
    and contracts: "check_system_contracts (sha256 K) (base_system_smart_contracts (input_system_env input)) (vm_run_data input) = Inr ()"
    and out: "vm_output K V input = Inr out" and "vs_zk_porter_available st = zk_porter_available (input_system_env input)"
    unfolding execute_eq_Inr by force
  moreover obtain snap where snap: "vm_storage K input = Inr snap"
    and "execute_vm V (l2_blocks_execution_data input)
      (vm_fast V (input_l1_batch_env input) (input_system_env input) (storage_view_new snap))
      (input_pubdata_params input) (system_version (input_system_env input)) = Inr out"
    using out by (auto simp: vm_output_def)
  moreover obtain deps where "verify_factory_deps (sha256 K) (used_bytecodes (vm_run_data input)) = Inr deps"
    using snap by (auto simp: vm_storage_def)
  ultimately show ?thesis
    using ci zk env [unfolded check_environment_eq_Inr] contracts [unfolded check_system_contracts_eq_Inr]
    by (auto simp: Let_def verify_factory_deps_eq_Inr execute_vm_def VALIDATION_COMPUTATIONAL_GAS_LIMIT_def)
qed

text \<open>
  C4. Completeness: a batch of an honest operator is accepted. When the checks of the environment and of the bytecodes
  hold, the VM run on the snapshot of a well-formed pre-batch state returns its output (the slots of the logs hold what
  the state holds, the other declared slots are absent, every other slot aborts), the witness is the honest one for the
  logs of that output, the logs have distinct keys and read what the state holds, and the commitment input opens the
  previous commitment and matches the pubdata, the verifier succeeds with the root and index of the state after the
  logs. No assumption is made on the hash functions.
\<close>

theorem verify_complete:
  assumes "blake2s_path_hasher (blake2s K) (fold_hasher K)" and "honest_input K m ls input"
    and "wf_tree_state m" and "vm_reads_ok (blake2s K) (m, prev_index input) ls"
    and "prev_index input \<noteq> 0" and "unat (prev_index input) + length ls < 2 ^ 64" and "ls \<noteq> []"
    and "distinct (map (hashed_key_u256 (blake2s K) \<circ> log_key) ls)"
    and "execute_vm V (l2_blocks_execution_data input)
      (vm_fast V (input_l1_batch_env input) (input_system_env input) (storage_view_new (pre_state_snapshot K m ls input)))
      (input_pubdata_params input) (system_version (input_system_env input)) = Inr out"
    and "honest_output out ls pubdata" and "input_commitment input = Some ci"
    and "honest_commitment_input K (prev_index input) (state_root K m) pubdata ci"
  shows "\<exists>r. verify K V input = Inr r \<and>
    value_hash r = state_root K (fst (fold (apply_vm_log (blake2s K)) ls (m, prev_index input))) \<and>
    new_enumeration_index r = snd (fold (apply_vm_log (blake2s K)) ls (m, prev_index input))"
  using honest_verifies [OF assms] by blast

text \<open>
  C6. The public input determines the batch: when two inputs are accepted with the same public input, and Keccak has no
  collision among the strings hashed for them, they have the same previous commitment with the same old root and
  enumeration index, the same metadata and auxiliary-output hashes behind it, the same new root and index, the same
  code hashes of the system contracts (a missing EVM emulator counts as zero), the same system logs and state diffs,
  the same bootloader heap hash and the same blobs.
\<close>

theorem public_input_binds:
  assumes "verify K V input = Inr r" and "verify K V input' = Inr r'"
    and "proof_public_input r = proof_public_input r'"
    and "inj_on (keccak256 K) (public_preimages K input r \<union> public_preimages K input' r')"
    and "input_commitment input = Some ci" and "input_commitment input' = Some ci'"
  shows "prev_batch_commitment ci = prev_batch_commitment ci' \<and>
    previous_batch_hash (input_l1_batch_env input) = previous_batch_hash (input_l1_batch_env input') \<and>
    prev_index input = prev_index input' \<and>
    prev_meta_hash ci = prev_meta_hash ci' \<and> prev_aux_hash ci = prev_aux_hash ci' \<and>
    value_hash r = value_hash r' \<and> new_enumeration_index r = new_enumeration_index r' \<and>
    contract_hash (bsc_bootloader (input_contracts input)) = contract_hash (bsc_bootloader (input_contracts input')) \<and>
    contract_hash (bsc_default_aa (input_contracts input)) = contract_hash (bsc_default_aa (input_contracts input')) \<and>
    (case bsc_evm_emulator (input_contracts input) of Some e \<Rightarrow> contract_hash e | None \<Rightarrow> 0) =
      (case bsc_evm_emulator (input_contracts input') of Some e \<Rightarrow> contract_hash e | None \<Rightarrow> 0) \<and>
    result_system_logs r = result_system_logs r' \<and> result_state_diffs r = result_state_diffs r' \<and>
    bootloader_heap_hash r = bootloader_heap_hash r' \<and> vc_blob_hashes ci = vc_blob_hashes ci'"
proof -
  obtain root root' where opens: "commitment_opens K input ci root r" "commitment_opens K input' ci' root' r'"
    using verify_opens [OF assms(1,5)] verify_opens [OF assms(2,6)] by blast
  note o = opens [unfolded commitment_opens_def]
  note iff = inj_on_eq_iff [OF assms(4)]
  have roots: "previous_batch_hash (input_l1_batch_env input) = Some root"
    "previous_batch_hash (input_l1_batch_env input') = Some root'" using o by blast+
  note mem = public_preimages_def roots assms(5,6)
  have c: "prev_batch_commitment ci = prev_batch_commitment ci' \<and> batch_commitment r = batch_commitment r'"
    using assms(3) o by (simp add: public_input_eq_iff iff mem)
  have p: "keccak256 K (state_preimage (prev_index input) root) = keccak256 K (state_preimage (prev_index input') root') \<and>
      prev_meta_hash ci = prev_meta_hash ci' \<and> prev_aux_hash ci = prev_aux_hash ci'"
    using c o by (simp add: iff mem)
  have n: "keccak256 K (state_preimage (new_enumeration_index r) (value_hash r)) =
        keccak256 K (state_preimage (new_enumeration_index r') (value_hash r')) \<and>
      keccak256 K (metadata_layout (input_contracts input)) = keccak256 K (metadata_layout (input_contracts input')) \<and>
      keccak256 K (auxiliary_layout r (vc_blob_hashes ci)) = keccak256 K (auxiliary_layout r' (vc_blob_hashes ci'))"
    using c o by (simp add: iff mem)
  have "root = root' \<and> prev_index input = prev_index input'"
    "value_hash r = value_hash r' \<and> new_enumeration_index r = new_enumeration_index r'"
    and m: "metadata_layout (input_contracts input) = metadata_layout (input_contracts input')"
    and a: "auxiliary_layout r (vc_blob_hashes ci) = auxiliary_layout r' (vc_blob_hashes ci')"
    using p n by (simp_all add: iff mem)
  moreover have "result_system_logs r = result_system_logs r'" "result_state_diffs r = result_state_diffs r'"
    using auxiliary_layout_inj [OF a] o
    by (simp_all add: iff mem l2_to_l1_logs.serialize_inj [OF inj_l2_to_l1_log_bytes]
        state_diffs.serialize_inj [OF inj_sd_encode_padded])
  ultimately show ?thesis
    using c p metadata_layout_inj [OF m] auxiliary_layout_inj [OF a] roots by simp
qed

end
