(* ===== verification/Verifier_Examples.thy ===== *)
theory Verifier_Examples
  imports Verifier_Correct
begin

text \<open>
  A concrete chain of two batches over a small VM that reads its storage: the first reads an absent slot of the empty
  tree, the second writes it. The batches satisfy the hypotheses of the theorems of \<open>Verifier_Correct\<close>.
\<close>

section \<open>One log on the empty tree\<close>

abbreviation demo_key :: storage_key where "demo_key \<equiv> \<lparr>account = 0x8001, slot = 3\<rparr>"

definition demo_state_witness :: "storage_log \<Rightarrow> witness_input_merkle_paths" where
  "demo_state_witness log = honest_witness counter_hash (Map.empty, 1) [log]"

lemma demo_paths: "witness_paths (demo_state_witness log) = [honest_meta counter_hash (Map.empty, 1) log]"
  by (simp add: demo_state_witness_def honest_witness_def)

lemma demo_not_legacy: "\<not> is_legacy_delta_form (demo_state_witness log)"
  by (simp add: demo_paths honest_meta_empty_path TREE_DEPTH_eq)

lemma demo_wf: "wf_tree_state Map.empty" "vm_reads_ok blake (Map.empty, idx) [log]"
  by (simp_all add: wf_tree_state_def leaf_of_def)

lemma demo_collision_free:
  "run_collision_free (blake2_hash_tree counter_hash) Map.empty (witness_run counter_hash (demo_state_witness log) [log] 1)"
proof (rule honest_witness_run [OF demo_wf, of 1 log counter_hash])
  fix bs inss
  assume n: "normal_run counter_hash (honest_witness counter_hash (Map.empty, 1) [log]) [log] 1 bs inss"
  note n = n [folded demo_state_witness_def]
  then have "bs = [honest_base counter_hash (Map.empty, 1) log]"
    by (auto simp: normal_run_def demo_paths honest_meta_base simp del: honest_base.simps)
  moreover obtain ins where "inss = [ins]"
    using normal_run_lengths [OF n] by (auto simp: demo_paths length_Suc_conv)
  moreover have "prev_entry (honest_base counter_hash (Map.empty, 1) log) k = tree_entry_empty k" for k
    by (simp add: leaf_of_def)
  ultimately show "run_collision_free (blake2_hash_tree counter_hash) Map.empty
      (witness_run counter_hash (demo_state_witness log) [log] 1)"
    using counter_hash_collision_free
    by (simp add: witness_run_eq [OF n] demo_paths honest_meta_empty_path collision_free_expand del: honest_base.simps)
qed simp_all

section \<open>The batches\<close>

definition demo_keccak :: hash_fn where "demo_keccak bs = word_of_nat (length bs)"

definition demo_crypto :: "(h256, nat) crypto" where
  "demo_crypto = \<lparr>keccak256 = demo_keccak, blake2s = counter_hash, sha256 = (\<lambda>_. 0),
     fold_hasher = running_hash_hasher counter_hash, bls_field = bls12_381_fr\<rparr>"

text \<open>The logs of batch 2 are the write of 7 to the slot, those of every other batch the read of it.\<close>

definition demo_log :: "u32 \<Rightarrow> storage_log" where
  "demo_log n = (if n = 2 then new_write_log demo_key 7 else new_read_log demo_key 0)"

definition demo_output :: "u32 \<Rightarrow> finished_l1_batch" where
  "demo_output n = \<lparr>block_tip_result = Success [], fb_system_logs = [], fb_deduplicated_storage_logs = [demo_log n],
     fb_final_bootloader_memory = Some [(0, 5)], fb_pubdata_input = Some [], fb_state_diffs = Some []\<rparr>"

text \<open>
  The VM keeps the batch number and the storage view. Each transaction and the end of the batch read the slot through
  the view, so the VM aborts on a storage that does not hold it, and the read is logged with the value found.
  Compression of the second transaction fails at the first attempt.
\<close>

definition demo_vm :: "(nat, u32 \<times> storage_view_state) vm_ops" where
  "demo_vm = \<lparr>vm_fast = \<lambda>benv senv view. (batch_env_number benv, view), make_snapshot = id,
     rollback_to_the_latest_snapshot = id, pop_snapshot_no_rollback = id,
     execute_transaction_with_bytecode_compression = (\<lambda>tx compress (n, view).
       and_then (view_read_value counter_hash view demo_key) (\<lambda>(v, view').
         Inr ((compress \<longrightarrow> tx \<noteq> 2, Success []), (n, view')))),
     start_new_l2_block = (\<lambda>benv vm. Inr vm),
     finish_batch = (\<lambda>builder (n, view). and_then (view_read_value counter_hash view demo_key) (\<lambda>(v, view').
       Inr ((demo_output n)\<lparr>fb_deduplicated_storage_logs :=
         [if n = 2 then new_write_log demo_key 7 else new_read_log demo_key v]\<rparr>)))\<rparr>"

definition demo_contract :: system_contract_code where
  "demo_contract = \<lparr>contract_code = replicate 32 7,
     contract_hash = 0x0100000100000000000000000000000000000000000000000000000000000000\<rparr>"

definition demo_block :: "u32 \<Rightarrow> nat list \<Rightarrow> nat l2_block_execution_data" where
  "demo_block n txs = \<lparr>ed_number = n, ed_timestamp = 100, ed_prev_block_hash = 0, ed_virtual_blocks = 1,
     ed_txs = txs, ed_interop_roots = []\<rparr>"

definition demo_system_env :: system_env where
  "demo_system_env = \<lparr>zk_porter_available = False, system_version = latest,
     base_system_smart_contracts = \<lparr>bsc_bootloader = demo_contract, bsc_default_aa = demo_contract, bsc_evm_emulator = None\<rparr>,
     bootloader_gas_limit = - 1, execution_mode = VerifyExecute,
     default_validation_computational_gas_limit = - 1, system_chain_id = 270\<rparr>"

definition demo_commitment_input :: "h256 \<Rightarrow> h256 \<Rightarrow> verifier_commitment_input" where
  "demo_commitment_input meta aux = commitment_input_default\<lparr>prev_batch_commitment :=
     demo_keccak (commitment_preimage (demo_keccak (state_preimage 1 (state_root demo_crypto Map.empty))) meta aux),
     prev_meta_hash := meta, prev_aux_hash := aux\<rparr>"

definition demo_input :: "u32 \<Rightarrow> h256 \<Rightarrow> h256 \<Rightarrow> nat airbender_verifier_input" where
  "demo_input n meta aux =
     \<lparr>vm_run_data = \<lparr>vr_l1_batch_number = n, used_bytecodes = [(contract_hash demo_contract, [contract_code demo_contract])],
        initial_heap_content = [], vr_protocol_version = latest, bootloader_code = [contract_code demo_contract],
        default_account_code_hash = contract_hash demo_contract, vr_evm_emulator_code_hash = None,
        storage_refunds = [], pubdata_costs = [],
        witness_block_state = \<lparr>read_storage_key = [(\<lparr>account = 0x8002, slot = 0\<rparr>, 9)], ws_is_write_initial = []\<rparr>\<rparr>,
      input_merkle_paths = demo_state_witness (demo_log n),
      l2_blocks_execution_data = [demo_block 1 [1, 2], demo_block 2 []],
      input_l1_batch_env = \<lparr>previous_batch_hash = Some (state_root demo_crypto Map.empty), batch_env_number = n,
        batch_env_timestamp = 100, fee_input = sensible_l1_pegged_default, interop_fee = 0, fee_account = 0,
        enforced_base_fee = None, first_l2_block = from_l2_block_data (demo_block 1 []),
        settlement_layer = SettlementL1 9\<rparr>,
      input_system_env = demo_system_env,
      input_pubdata_params = \<lparr>pubdata_validator = CommitmentScheme BlobsAndPubdataKeccak256, pubdata_type = Rollup\<rparr>,
      input_commitment = Some (demo_commitment_input meta aux)\<rparr>"

section \<open>Acceptance\<close>

lemma demo_crypto_simps [simp]:
  "keccak256 demo_crypto = demo_keccak" "blake2s demo_crypto = counter_hash"
  "fold_hasher demo_crypto = running_hash_hasher counter_hash" "sha256 demo_crypto = (\<lambda>_. 0)"
  by (simp_all add: demo_crypto_def)

lemma demo_hasher: "blake2s_path_hasher (blake2s demo_crypto) (fold_hasher demo_crypto)"
  by (simp add: running_hash.blake2s_path_hasher_axioms)

lemma demo_prev_index [simp]: "next_enumeration_index (demo_state_witness log) = 1"
  by (simp add: demo_state_witness_def honest_witness_def)

lemma demo_input_simps [simp]:
  "input_merkle_paths (demo_input n meta aux) = demo_state_witness (demo_log n)"
  "previous_batch_hash (input_l1_batch_env (demo_input n meta aux)) = Some (state_root demo_crypto Map.empty)"
  "batch_env_number (input_l1_batch_env (demo_input n meta aux)) = n"
  "input_commitment (demo_input n meta aux) = Some (demo_commitment_input meta aux)"
  by (simp_all add: demo_input_def demo_state_witness_def honest_witness_def)

lemma demo_contract_verified:
  "verify_bytecode_hash (\<lambda>_. 0) (contract_hash demo_contract) (contract_code demo_contract) = Inr ()"
proof (rule verify_bytecode_hash_accepts)
  show "as_bytes (contract_hash demo_contract) = hash_bytes_of EraVm 1 ((\<lambda>_. 0) (contract_code demo_contract))"
    unfolding demo_contract_def by code_simp
qed (simp_all add: valid_bytecode_def demo_contract_def exI [of _ 1])

lemma demo_honest_input: "honest_input demo_crypto Map.empty [demo_log n] (demo_input n meta aux)"
proof -
  have "check_environment (demo_input n meta aux) = Inr (state_root demo_crypto Map.empty)"
    by (simp add: check_environment_eq_Inr demo_input_def demo_system_env_def first_block_matches_def demo_block_def
        from_l2_block_data_def VALIDATION_COMPUTATIONAL_GAS_LIMIT_def)
  moreover have "check_system_contracts (\<lambda>_. 0) (base_system_smart_contracts (input_system_env (demo_input n meta aux)))
      (vm_run_data (demo_input n meta aux)) = Inr ()"
    using demo_contract_verified by (simp add: check_system_contracts_eq_Inr demo_input_def demo_system_env_def)
  moreover have "\<exists>deps. verify_factory_deps (\<lambda>_. 0) (used_bytecodes (vm_run_data (demo_input n meta aux))) = Inr deps"
    using demo_contract_verified by (simp add: verify_factory_deps_eq_Inr demo_input_def)
  moreover have "\<not> zk_porter_available (input_system_env (demo_input n meta aux))"
    by (simp add: demo_input_def demo_system_env_def)
  ultimately show ?thesis
    using demo_not_legacy [of "demo_log n"]
    by (simp add: honest_input_def demo_prev_index demo_state_witness_def [symmetric] del: is_legacy_delta_form.simps)
qed

abbreviation demo_snapshot :: "u32 \<Rightarrow> h256 \<Rightarrow> h256 \<Rightarrow> storage_snapshot" where
  "demo_snapshot n meta aux \<equiv> pre_state_snapshot demo_crypto Map.empty [demo_log n] (demo_input n meta aux)"

lemma demo_log_key [simp]: "log_key (demo_log n) = demo_key"
  by (simp add: demo_log_def new_write_log_def new_read_log_def)

lemma demo_reads:
  "\<exists>s. view_read_value counter_hash (storage_view_new (demo_snapshot n meta aux)) demo_key = Inr (0, s) \<and>
     view_read_value counter_hash s demo_key = Inr (0, s)"
  by (simp add: view_read_value_def get_value_no_log_def storage_view_new_def read_missed_def snapshot_read_value_def
      snapshot_entry_def pre_state_snapshot_def snapshot_new_def pre_state_view_def state_entry_def leaf_of_def)

lemma demo_runs:
  "execute_vm demo_vm (l2_blocks_execution_data (demo_input n meta aux))
     (vm_fast demo_vm (input_l1_batch_env (demo_input n meta aux)) (input_system_env (demo_input n meta aux))
       (storage_view_new (demo_snapshot n meta aux)))
     params version = Inr (demo_output n)"
proof -
  obtain s where "view_read_value counter_hash (storage_view_new (demo_snapshot n meta aux)) demo_key = Inr (0, s)"
    "view_read_value counter_hash s demo_key = Inr (0, s)"
    using demo_reads by blast
  moreover have "batch_env_number (input_l1_batch_env (demo_input n meta aux)) = n"
    "l2_blocks_execution_data (demo_input n meta aux) = [demo_block 1 [1, 2], demo_block 2 []]"
    by (simp_all add: demo_input_def)
  ultimately show ?thesis
    by (simp add: execute_vm_def demo_vm_def demo_block_def execute_tx_def ensure_not_halted_def demo_output_def demo_log_def)
qed

lemma demo_blobs:
  "verify_blobs_loop keccak F pubdata versioned i (replicate k \<lparr>blob_commitment = 0, linear_hash = 0\<rparr>) scratch = Inr ()"
  by (induction k arbitrary: i) simp_all

lemma demo_honest_commitment:
  "honest_commitment_input demo_crypto 1 (state_root demo_crypto Map.empty) [] (demo_commitment_input meta aux)"
  by (simp add: honest_commitment_input_def demo_commitment_input_def commitment_input_default_def verify_blob_hashes_def
      demo_blobs)

lemma demo_honest_output: "honest_output (demo_output n) [demo_log n] []"
  by (simp add: honest_output_def demo_output_def subversion_used_memory_bytes_def)

lemma demo_accepted:
  "vm_output demo_crypto demo_vm (demo_input n meta aux) = Inr (demo_output n) \<and>
   (\<exists>r. verify demo_crypto demo_vm (demo_input n meta aux) = Inr r \<and>
     value_hash r = state_root demo_crypto (fst (apply_vm_log counter_hash (demo_log n) (Map.empty, 1))) \<and>
     new_enumeration_index r = snd (apply_vm_log counter_hash (demo_log n) (Map.empty, 1)))"
proof -
  let ?i = "demo_input n meta aux"
  have "vm_output demo_crypto demo_vm ?i = Inr (demo_output n) \<and> (\<exists>r. verify demo_crypto demo_vm ?i = Inr r \<and>
    value_hash r = state_root demo_crypto (fst (fold (apply_vm_log (blake2s demo_crypto)) [demo_log n] (Map.empty, prev_index ?i))) \<and>
    new_enumeration_index r = snd (fold (apply_vm_log (blake2s demo_crypto)) [demo_log n] (Map.empty, prev_index ?i)))"
    by (rule honest_verifies [OF demo_hasher demo_honest_input demo_wf _ _ _ _ demo_runs demo_honest_output])
      (use demo_honest_commitment [of meta aux] in simp_all)
  then show ?thesis by simp
qed

lemma demo_logs: "batch_logs demo_crypto demo_vm (demo_input n meta aux) = [demo_log n]"
  by (simp add: batch_logs_def demo_accepted demo_output_def)

lemma demo_run_collision_free:
  "run_collision_free (blake2_hash_tree counter_hash) Map.empty (batch_run demo_crypto demo_vm (demo_input n meta aux))"
proof -
  have "normalize_stored_paths counter_hash (demo_state_witness (demo_log n)) = Inr ((0, 0), demo_state_witness (demo_log n))"
    using demo_not_legacy honest_witness_normal unfolding demo_state_witness_def by blast
  then show ?thesis
    using demo_collision_free by (simp add: batch_run_def demo_accepted demo_output_def)
qed

lemma demo_effect: "batch_effect demo_crypto demo_vm (demo_input n meta aux) = apply_vm_log counter_hash (demo_log n)"
  by (simp add: batch_effect_def demo_logs)

section \<open>Witnesses\<close>

abbreviation demo_verify :: "u32 \<Rightarrow> verification_result res" where
  "demo_verify n \<equiv> verify demo_crypto demo_vm (demo_input n 0 0)"

theorem verify_sound_witness:
  "\<exists>r. demo_verify 2 = Inr r \<and>
     value_hash r = state_root demo_crypto [hashed_key_u256 counter_hash demo_key \<mapsto> (7, 1)] \<and> new_enumeration_index r = 2"
proof -
  obtain r where r: "demo_verify 2 = Inr r" using demo_accepted by blast
  have "run_collision_free (blake2_hash_tree (blake2s demo_crypto)) Map.empty (batch_run demo_crypto demo_vm (demo_input 2 0 0))"
    using demo_run_collision_free by simp
  from verify_sound [OF demo_hasher r demo_input_simps(2) this] r show ?thesis
    by (simp add: demo_effect demo_log_def apply_vm_log_def new_write_log_def is_write_def Let_def leaf_of_def)
qed

theorem vm_storage_is_pre_state_witness:
  "\<exists>snap. vm_storage demo_crypto (demo_input 2 0 0) = Inr snap \<and>
     snapshot_entry counter_hash snap demo_key = Inr None"
proof -
  obtain r where r: "demo_verify 2 = Inr r" using demo_accepted by blast
  have "run_collision_free (blake2_hash_tree (blake2s demo_crypto)) Map.empty (batch_run demo_crypto demo_vm (demo_input 2 0 0))"
    using demo_run_collision_free by simp
  from vm_storage_is_pre_state [OF demo_hasher r demo_input_simps(2) this] show ?thesis
    by (auto simp: demo_logs expected_entry_def demo_log_def state_entry_def leaf_of_def)
qed

theorem verify_pins_witness: "\<exists>r. demo_verify 2 = Inr r \<and> system_version (input_system_env (demo_input 2 0 0)) = latest"
proof -
  obtain r where r: "demo_verify 2 = Inr r" using demo_accepted by blast
  from verify_pins [OF r] r show ?thesis by (simp add: Let_def)
qed

lemma demo_keccak_separates:
  "inj_on demo_keccak {state_preimage i root, commitment_preimage p m a}"
  by (auto simp: demo_keccak_def inj_on_def state_preimage_def commitment_preimage_def)

theorem verified_chain_sound_witness:
  "\<exists>r1 r2. chain_accepted demo_crypto demo_vm
       [(demo_input 1 0 0, r1), (demo_input 2 (metadata_hash r1) (auxiliary_output_hash r1), r2)] \<and>
     value_hash r2 = state_root demo_crypto [hashed_key_u256 counter_hash demo_key \<mapsto> (7, 1)] \<and> new_enumeration_index r2 = 2"
proof -
  obtain r1 where r1: "demo_verify 1 = Inr r1" "value_hash r1 = state_root demo_crypto Map.empty" "new_enumeration_index r1 = 1"
    using demo_accepted [of 1 0 0] by (auto simp: demo_log_def apply_vm_log_def new_read_log_def is_write_def)
  let ?i2 = "demo_input 2 (metadata_hash r1) (auxiliary_output_hash r1)"
  obtain r2 where r2: "verify demo_crypto demo_vm ?i2 = Inr r2" using demo_accepted by blast
  let ?chain = "[(demo_input 1 0 0, r1), (?i2, r2)]"
  obtain st ci where "verify_commitment demo_crypto st ci = Inr r1" using r1(1) unfolding verify_eq_Inr by blast
  note f = verify_result_fields [OF this]
  have acc: "chain_accepted demo_crypto demo_vm ?chain"
    using r1 r2 f(3,4) by (simp add: demo_commitment_input_def)
  have "inj_on (keccak256 demo_crypto) (link_preimages demo_crypto r1 ?i2)"
    using demo_keccak_separates f(4) r1 by (simp add: link_preimages_def demo_commitment_input_def insert_commute)
  then have "chain_collision_free demo_crypto demo_vm ?chain (Map.empty, prev_index (demo_input 1 0 0))"
    using demo_run_collision_free
    by (simp add: demo_effect demo_log_def apply_vm_log_def new_read_log_def is_write_def)
  from verified_chain_sound [OF demo_hasher acc refl demo_input_simps(2) this] acc show ?thesis
    by (auto simp: demo_effect demo_log_def apply_vm_log_def new_read_log_def new_write_log_def is_write_def leaf_of_def Let_def)
qed

text \<open>
  Batches 1 and 3 have the same public input. With the metadata and auxiliary-output hashes of the batch itself as the
  previous ones, every string hashed for them has a length of its own.
\<close>

lemma demo_results:
  assumes "verify demo_crypto demo_vm (demo_input n meta aux) = Inr r"
  shows "result_system_logs r = [] \<and> result_state_diffs r = [] \<and>
    map_res (hash_bytes counter_hash) (expand_bootloader_heap [(0, 5)] (subversion_used_memory_bytes MediumInterop)) =
      Inr (bootloader_heap_hash r)"
proof -
  obtain st ci where st: "execute demo_crypto demo_vm (demo_input n meta aux) = Inr st"
    and r: "verify_commitment demo_crypto st ci = Inr r"
    using assms unfolding verify_eq_Inr by blast
  have "vs_system_logs st = [] \<and> vs_state_diffs st = [] \<and>
      expand_bootloader_heap [(0, 5)] (subversion_used_memory_bytes MediumInterop) = Inr (vs_expanded_heap st)"
    using st demo_accepted [of n meta aux] unfolding execute_eq_Inr check_environment_eq_Inr
    by (auto simp: demo_output_def Let_def latest_memory_bytes)
  then show ?thesis using r unfolding verify_commitment_eq_Inr by (simp add: commitment_result_def Let_def)
qed

abbreviation demo_contracts :: base_system_contracts where
  "demo_contracts \<equiv> base_system_smart_contracts demo_system_env"

abbreviation demo_blob_hashes :: "blob_hash list" where
  "demo_blob_hashes \<equiv> replicate TOTAL_BLOBS_IN_COMMITMENT \<lparr>blob_commitment = 0, linear_hash = 0\<rparr>"

lemma demo_lengths:
  "length (metadata_layout c) = 97" "length (auxiliary_layout r demo_blob_hashes) = 1152"
  "length (state_preimage i root) = 80" "length (commitment_preimage x y z) = 96"
  by (simp_all add: metadata_layout_def auxiliary_layout_def state_preimage_def commitment_preimage_def
      TOTAL_BLOBS_IN_COMMITMENT_def length_concat sum_list_replicate)

lemma demo_public:
  assumes "verify demo_crypto demo_vm (demo_input n 97 1152) = Inr r" and "n \<noteq> 2"
  shows "proof_public_input r = compute_proof_public_input demo_keccak 96 96 \<and>
    system_logs_hash r = 0 \<and> state_diff_hash r = 0 \<and>
    public_preimages demo_crypto (demo_input n 97 1152) r =
      {as_bytes 96 @ as_bytes 96, state_preimage 1 (state_root demo_crypto Map.empty), commitment_preimage 80 97 1152,
       metadata_layout demo_contracts, auxiliary_layout r demo_blob_hashes, []}"
proof -
  have contracts: "input_contracts (demo_input n 97 1152) = demo_contracts" by (simp add: demo_input_def)
  have blobs: "vc_blob_hashes (demo_commitment_input 97 1152) = demo_blob_hashes"
    and metas: "prev_meta_hash (demo_commitment_input 97 1152) = 97" "prev_aux_hash (demo_commitment_input 97 1152) = 1152"
    by (simp_all add: demo_commitment_input_def commitment_input_default_def)
  have state: "value_hash r = state_root demo_crypto Map.empty" "new_enumeration_index r = 1"
    using demo_accepted [of n 97 1152] assms by (auto simp: demo_log_def apply_vm_log_def new_read_log_def is_write_def)
  note kec = demo_keccak_def demo_lengths
  obtain root where o: "commitment_opens demo_crypto (demo_input n 97 1152) (demo_commitment_input 97 1152) root r"
    using verify_opens [OF assms(1)] by auto
  then have "prev_batch_commitment (demo_commitment_input 97 1152) = 96" "batch_commitment r = 96"
    unfolding commitment_opens_def by (simp_all add: kec)
  with o state contracts blobs metas demo_results [OF assms(1)] show ?thesis
    unfolding commitment_opens_def public_preimages_def
    by (simp add: kec serialize_commitments_def) blast
qed

theorem public_input_binds_witness:
  "\<exists>r1 r3. verify demo_crypto demo_vm (demo_input 1 97 1152) = Inr r1 \<and>
     verify demo_crypto demo_vm (demo_input 3 97 1152) = Inr r3 \<and>
     proof_public_input r1 = proof_public_input r3 \<and> value_hash r1 = value_hash r3 \<and>
     bootloader_heap_hash r1 = bootloader_heap_hash r3"
proof -
  obtain r1 r3 where r: "verify demo_crypto demo_vm (demo_input 1 97 1152) = Inr r1"
    "verify demo_crypto demo_vm (demo_input 3 97 1152) = Inr r3" using demo_accepted by blast
  note p = demo_public [OF r(1)] demo_public [OF r(2)]
  have "auxiliary_layout r1 demo_blob_hashes = auxiliary_layout r3 demo_blob_hashes"
    using p demo_results [OF r(1)] demo_results [OF r(2)] by (auto simp: auxiliary_layout_def)
  then have "inj_on (keccak256 demo_crypto) (public_preimages demo_crypto (demo_input 1 97 1152) r1 \<union>
      public_preimages demo_crypto (demo_input 3 97 1152) r3)"
    using p by (simp add: inj_on_def demo_keccak_def demo_lengths)
  from public_input_binds [OF r _ this demo_input_simps(4) demo_input_simps(4)] p r show ?thesis by simp
qed

theorem verify_complete_witness:
  "\<exists>r. demo_verify 2 = Inr r \<and>
    value_hash r = state_root demo_crypto [hashed_key_u256 counter_hash demo_key \<mapsto> (7, 1)]"
proof -
  let ?i = "demo_input 2 0 0"
  have "\<exists>r. verify demo_crypto demo_vm ?i = Inr r \<and>
    value_hash r = state_root demo_crypto (fst (fold (apply_vm_log (blake2s demo_crypto)) [demo_log 2] (Map.empty, prev_index ?i))) \<and>
    new_enumeration_index r = snd (fold (apply_vm_log (blake2s demo_crypto)) [demo_log 2] (Map.empty, prev_index ?i))"
    by (rule verify_complete [OF demo_hasher demo_honest_input demo_wf _ _ _ _ demo_runs demo_honest_output])
      (use demo_honest_commitment [of 0 0] in simp_all)
  then show ?thesis
    by (auto simp: demo_log_def apply_vm_log_def new_write_log_def is_write_def leaf_of_def Let_def)
qed

end
