(* ===== verification/Vm_Trace.thy ===== *)
theory Vm_Trace
  imports Verifier
begin

text \<open>
  What \<open>execute_vm\<close> of \<open>lib.rs\<close> does to the VM, as a step relation. A transaction is accepted on its compressed
  attempt, or on the uncompressed one after a rollback, and never when it halts; a block boundary opens the next
  block. \<open>execute_vm\<close> accepts exactly the runs in which every transaction of every block is executed once, in order.
\<close>

section \<open>Steps\<close>

inductive tx_accepted :: "('tx, 'vm) vm_ops \<Rightarrow> 'tx \<Rightarrow> 'vm \<Rightarrow> 'vm \<Rightarrow> bool" for V tx vm where
  first_attempt: "execute_transaction_with_bytecode_compression V tx True (make_snapshot V vm) = Inr ((True, result), vm1)
    \<Longrightarrow> \<forall>reason. result \<noteq> Halt reason \<Longrightarrow> tx_accepted V tx vm (pop_snapshot_no_rollback V vm1)"
| second_attempt: "execute_transaction_with_bytecode_compression V tx True (make_snapshot V vm) = Inr ((False, result1), vm1)
    \<Longrightarrow> execute_transaction_with_bytecode_compression V tx False (rollback_to_the_latest_snapshot V vm1) = Inr ((True, result), vm2)
    \<Longrightarrow> \<forall>reason. result \<noteq> Halt reason \<Longrightarrow> tx_accepted V tx vm vm2"

inductive_cases tx_acceptedE: "tx_accepted V tx vm vm'"

datatype 'tx event = Tx 'tx | NewBlock l2_block_env

inductive vm_trace :: "('tx, 'vm) vm_ops \<Rightarrow> 'vm \<Rightarrow> 'tx event list \<Rightarrow> 'vm \<Rightarrow> bool" for V where
  stop: "vm_trace V vm [] vm"
| tx: "tx_accepted V tx vm vm1 \<Longrightarrow> vm_trace V vm1 es vm2 \<Longrightarrow> vm_trace V vm (Tx tx # es) vm2"
| new_block: "start_new_l2_block V block vm = Inr vm1 \<Longrightarrow> vm_trace V vm1 es vm2 \<Longrightarrow> vm_trace V vm (NewBlock block # es) vm2"

inductive_simps vm_trace_Nil [simp]: "vm_trace V vm [] vm'"
inductive_simps vm_trace_Tx [simp]: "vm_trace V vm (Tx tx # es) vm'"
inductive_simps vm_trace_NewBlock [simp]: "vm_trace V vm (NewBlock block # es) vm'"

text \<open>The events of a list of blocks: the transactions of each block but the last, each followed by the next block.\<close>

fun block_events :: "'tx l2_block_execution_data list \<Rightarrow> 'tx event list" where
  "block_events (block # next_block # rest) =
     map Tx (ed_txs block) @ NewBlock (from_l2_block_data next_block) # block_events (next_block # rest)"
| "block_events _ = []"

fun event_txs :: "'tx event list \<Rightarrow> 'tx list" where
  "event_txs [] = []"
| "event_txs (Tx tx # es) = tx # event_txs es"
| "event_txs (NewBlock _ # es) = event_txs es"

section \<open>Lemmas\<close>

lemma ensure_not_halted_eq_Inr [simp]: "ensure_not_halted r = Inr u \<longleftrightarrow> (\<forall>reason. r \<noteq> Halt reason)"
  by (cases r) (simp_all add: ensure_not_halted_def)

lemma execute_tx_iff: "execute_tx V tx vm = Inr vm' \<longleftrightarrow> tx_accepted V tx vm vm'"
proof
  assume "execute_tx V tx vm = Inr vm'"
  then show "tx_accepted V tx vm vm'"
    by (auto simp: execute_tx_def split: if_splits intro: tx_accepted.intros)
next
  assume "tx_accepted V tx vm vm'"
  then show "execute_tx V tx vm = Inr vm'"
    by (cases rule: tx_acceptedE)
      (auto simp: execute_tx_def ensure_not_halted_def simp del: and_then_eq_Inr split: execution_result.splits)
qed

lemma vm_trace_append: "vm_trace V vm (es @ fs) vm' \<longleftrightarrow> (\<exists>vm1. vm_trace V vm es vm1 \<and> vm_trace V vm1 fs vm')"
proof (induction es arbitrary: vm)
  case (Cons e es)
  then show ?case by (cases e) auto
qed simp

lemma execute_txs_iff: "execute_txs V txs vm = Inr vm' \<longleftrightarrow> vm_trace V vm (map Tx txs) vm'"
  by (induction txs arbitrary: vm) (auto simp: execute_tx_iff)

lemma execute_blocks_iff:
  "execute_blocks V (zip blocks (drop 1 blocks)) vm = Inr vm' \<longleftrightarrow> vm_trace V vm (block_events blocks) vm'"
proof (induction blocks arbitrary: vm rule: block_events.induct)
  case (1 block next_block rest)
  then show ?case by (simp add: execute_txs_iff vm_trace_append)
qed auto

lemma event_txs_append [simp]: "event_txs (es @ fs) = event_txs es @ event_txs fs"
  by (induction es rule: event_txs.induct) simp_all

lemma event_txs_map_Tx [simp]: "event_txs (map Tx txs) = txs"
  by (induction txs) simp_all

text \<open>All transactions are among the events exactly when the last block has none.\<close>

lemma event_txs_block_events:
  "event_txs (block_events blocks) = concat (map ed_txs blocks) \<longleftrightarrow> blocks = [] \<or> ed_txs (last blocks) = []"
  by (induction blocks rule: block_events.induct) auto

lemma finalized_iff:
  "(case block_tip_result finished of Success _ \<Rightarrow> Inr finished | _ \<Rightarrow> Inl e) = Inr out \<longleftrightarrow>
     finished = out \<and> (\<exists>output. block_tip_result out = Success output)"
  by (cases "block_tip_result finished") auto

section \<open>Properties\<close>

text \<open>
  C7. \<open>execute_vm\<close> succeeds exactly on the runs of the VM through the events of the blocks, followed by a successful
  finalisation; the transactions of such a run are all the transactions of all the blocks, each once and in order.
\<close>

theorem execute_vm_iff_trace:
  "execute_vm V blocks vm params version = Inr out \<longleftrightarrow>
     (\<exists>vm'. vm_trace V vm (block_events blocks) vm' \<and> event_txs (block_events blocks) = concat (map ed_txs blocks) \<and>
        finish_batch V (pubdata_params_to_builder params version) vm' = Inr out \<and>
        (\<exists>output. block_tip_result out = Success output))"
  unfolding execute_vm_def ensure_eq_Inr and_then_eq_Inr execute_blocks_iff event_txs_block_events finalized_iff
  by blast

end
