(* ===== verification/Bytecode_Compression.thy ===== *)
theory Bytecode_Compression
  imports Pubdata_Builder "HOL-Library.AList" "HOL-Library.Product_Lexorder"
begin

text \<open>
  Bytecode compression of \<open>src/crates/multivm/src/utils/bytecode.rs\<close>: the dictionary encoding, the decoder of its
  tests, the call data of the compressor contract and the conversions between bytes and words.

  Hash maps are association lists with one entry per key. The order in which the statistic is iterated does not
  matter: the entries are sorted by a key that is distinct for each of them.
\<close>

section \<open>Bytes and words\<close>

definition be_chunks_to_h256_words :: "u8 list list \<Rightarrow> h256 list" where
  "be_chunks_to_h256_words words = map from_be_bytes words"

definition be_words_to_bytes :: "u256 list \<Rightarrow> u8 list" where
  "be_words_to_bytes words = concat (map (be_bytes 32) words)"

definition bytes_to_be_words :: "u8 list \<Rightarrow> u256 list res" where
  "bytes_to_be_words bytes =
     ensure (length bytes mod 32 = 0) (Panic UnalignedBytes) (Inr (map from_be_bytes (chunks 32 bytes)))"

definition be_bytes_to_safe_address :: "u8 list \<Rightarrow> address option" where
  "be_bytes_to_safe_address bytes =
     (if length bytes < 20 then None
      else let zero_bytes = take (length bytes - 20) bytes; addr = drop (length bytes - 20) bytes
           in if list_ex (\<lambda>b. b \<noteq> 0) zero_bytes then None else Some (from_be_bytes addr))"

definition bytecode_len_in_words :: "h256 \<Rightarrow> u16" where
  "bytecode_len_in_words h = from_be_bytes [as_bytes h ! 2, as_bytes h ! 3]"

definition bytecode_len_in_bytes :: "h256 \<Rightarrow> u32" where
  "bytecode_len_in_bytes h = ucast (bytecode_len_in_words h) * 32"

section \<open>Compression\<close>

text \<open>\<open>statistic.entry(chunk).or_insert((0, position)).0 += 1\<close>.\<close>

definition count_chunk :: "nat \<times> u64 \<Rightarrow> (u64 \<times> nat \<times> nat) list \<Rightarrow> (u64 \<times> nat \<times> nat) list" where
  "count_chunk = (\<lambda>(position, chunk) statistic.
     (let (n, first) = (case map_of statistic chunk of Some e \<Rightarrow> e | None \<Rightarrow> (0, position))
      in AList.update chunk (n + 1, first) statistic))"

definition code_chunks :: "u8 list \<Rightarrow> u64 list" where
  "code_chunks code = map from_be_bytes (chunks 8 code)"

definition chunk_statistic :: "u64 list \<Rightarrow> (u64 \<times> nat \<times> nat) list" where
  "chunk_statistic cs = fold count_chunk (enumerate 0 cs) []"

text \<open>The most popular chunks get the smallest indices.\<close>

definition build_dictionary :: "(u64 \<times> nat \<times> nat) list \<Rightarrow> (u64 \<times> u16) list" where
  "build_dictionary stats =
     foldl (\<lambda>dictionary (chunk, _). AList.update chunk (word_of_nat (length dictionary)) dictionary) [] (rev stats)"

definition compress_to_bytes :: "u8 list \<Rightarrow> u8 list res" where
  "compress_to_bytes code =
     and_then (validate_bytecode code) (\<lambda>_.
     let statistic_sorted_by_value = sort_key snd (chunk_statistic (code_chunks code)) in
     ensure (length statistic_sorted_by_value \<le> 65535) (Bytecode DictionaryOverflow)
     (let dictionary = build_dictionary statistic_sorted_by_value in
      and_then (collect_res (map (\<lambda>chunk. ok_or (Panic IndexOutOfBounds) (map_of dictionary chunk)) (code_chunks code)))
        (\<lambda>indices.
         let entries = sort (map (\<lambda>(k, v). (v, k)) dictionary)
         in Inr (be_bytes 2 (word_of_nat (length dictionary) :: u16) @ concat (map (be_bytes 8 \<circ> snd) entries) @
                 concat (map (be_bytes 2) indices)))))"

record compressed_bytecode_info =
  cb_original :: "u8 list"
  cb_compressed :: "u8 list"

definition compress_bytecode :: "u8 list \<Rightarrow> compressed_bytecode_info res" where
  "compress_bytecode bytecode =
     and_then (compress_to_bytes bytecode) (\<lambda>compressed. Inr \<lparr>cb_original = bytecode, cb_compressed = compressed\<rparr>)"

definition encode_call :: "hash_fn \<Rightarrow> abi \<Rightarrow> compressed_bytecode_info \<Rightarrow> u8 list res" where
  "encode_call sha256 A bytecode =
     and_then (for_bytecode sha256 (cb_original bytecode)) (\<lambda>h.
       Inr (as_bytes h @ replicate 32 0 @
         abi_encode A [TokenBytes (cb_original bytecode), TokenBytes (cb_compressed bytecode)]))"

text \<open>The decoder of the tests. Every slice and index of it is checked.\<close>

definition decompress_bytecode :: "u8 list \<Rightarrow> u8 list res" where
  "decompress_bytecode raw =
     ensure (2 \<le> length raw) (Panic IndexOutOfBounds)
     (let n = unat (from_be_bytes (take 2 raw) :: u16) in
      ensure (2 + n * 8 \<le> length raw) (Panic IndexOutOfBounds)
      (let dictionary = map (\<lambda>i. from_be_bytes (slice (2 + i * 8) (10 + i * 8) raw) :: u64) [0..<n];
           encoded_data = drop (2 + n * 8) raw in
       map_res concat (collect_res (map (\<lambda>bytes.
         ensure (length bytes = 2) (Panic IndexOutOfBounds)
         (let index = unat (from_be_bytes bytes :: u16) in
          ensure (index < length dictionary) (Panic IndexOutOfBounds) (Inr (be_bytes 8 (dictionary ! index)))))
         (chunks 2 encoded_data)))))"

section \<open>Words\<close>

lemma bytes_to_be_words_roundtrip: "bytes_to_be_words (be_words_to_bytes ws) = Inr ws"
proof -
  have "length (be_words_to_bytes ws) = 32 * length ws"
    by (induction ws) (simp_all add: be_words_to_bytes_def)
  moreover have "chunks 32 (be_words_to_bytes ws) = map (be_bytes 32) ws"
    unfolding be_words_to_bytes_def by (rule chunks_concat) auto
  ultimately show ?thesis by (simp add: bytes_to_be_words_def comp_def)
qed

lemma be_words_of_bytes: "bytes_to_be_words bs = Inr ws \<Longrightarrow> be_words_to_bytes ws = bs"
proof -
  assume "bytes_to_be_words bs = Inr ws"
  then have m: "length bs mod 32 = 0" and ws: "ws = map from_be_bytes (chunks 32 bs)" by (auto simp: bytes_to_be_words_def)
  from m have "length bs = (length bs div 32) * 32" by presburger
  from chunks_length(1) [OF this] have "map (be_bytes 32 \<circ> (from_be_bytes :: _ \<Rightarrow> u256)) (chunks 32 bs) = chunks 32 bs"
    by (intro map_idI) simp
  then show ?thesis by (simp add: ws be_words_to_bytes_def)
qed

section \<open>The dictionary\<close>

lemma count_chunk_keys:
  "distinct (map fst st) \<Longrightarrow> distinct (map fst (count_chunk pc st)) \<and> fst ` set (count_chunk pc st) = insert (snd pc) (fst ` set st)"
  by (cases pc) (auto simp: count_chunk_def Let_def dom_update distinct_update split_beta)

lemma chunk_statistic_keys:
  "distinct (map fst (chunk_statistic cs)) \<and> fst ` set (chunk_statistic cs) = set cs"
proof -
  have "distinct (map fst (fold count_chunk ps st)) \<and> fst ` set (fold count_chunk ps st) = snd ` set ps \<union> fst ` set st"
    if "distinct (map fst st)" for ps st
    using that by (induction ps arbitrary: st) (auto simp: count_chunk_keys)
  from this [of "[]" "enumerate 0 cs"] show ?thesis
    by (simp add: chunk_statistic_def) (metis list.set_map map_snd_enumerate)
qed

lemma update_fresh: "k \<notin> fst ` set d \<Longrightarrow> AList.update k v d = d @ [(k, v)]"
  by (induction d) auto

lemma build_dictionary_eq:
  assumes "distinct (map fst stats)"
  shows "build_dictionary stats = zip (rev (map fst stats)) (map word_of_nat [0..<length stats])"
proof -
  have "foldl (\<lambda>dictionary (chunk, _). AList.update chunk (word_of_nat (length dictionary)) dictionary) d xs =
      d @ zip (map fst xs) (map word_of_nat [length d..<length d + length xs])"
    if "distinct (map fst xs)" "fst ` set d \<inter> fst ` set xs = {}" for d and xs :: "(u64 \<times> nat \<times> nat) list"
    using that
  proof (induction xs arbitrary: d)
    case (Cons x xs)
    have "fst ` set (d @ [(fst x, word_of_nat (length d))]) \<inter> fst ` set xs = {}"
      using Cons.prems by auto
    from Cons.IH [OF _ this] Cons.prems show ?case
      by (simp add: update_fresh split_beta upt_conv_Cons del: upt_Suc)
  qed simp
  from this [of "rev stats" "[]"] assms show ?thesis by (simp add: build_dictionary_def flip: rev_map)
qed

lemma index_words:
  assumes "n \<le> 65535" "i < n"
  shows "unat (word_of_nat i :: u16) = i"
  using assms by (simp add: unat_of_nat take_bit_nat_eq_self)

lemma sorted_entries:
  assumes "length ks \<le> 65535"
  shows "sort (zip (map word_of_nat [0..<length ks] :: u16 list) ks) = zip (map word_of_nat [0..<length ks]) ks"
proof (rule sorted_sort_id, unfold sorted_wrt_iff_nth_less, intro allI impI)
  fix i j assume "i < j" "j < length (zip (map word_of_nat [0..<length ks] :: u16 list) ks)"
  then have "(word_of_nat i :: u16) < word_of_nat j"
    using assms index_words [of "length ks"] by (simp add: word_less_nat_alt)
  with \<open>i < j\<close> \<open>j < _\<close> show "zip (map word_of_nat [0..<length ks] :: u16 list) ks ! i \<le> zip (map word_of_nat [0..<length ks]) ks ! j"
    by (simp add: less_eq_prod_def)
qed

lemma map_of_dictionary:
  assumes "distinct ks" "c \<in> set ks" "length ks \<le> 65535"
  obtains index where "map_of (zip ks (map word_of_nat [0..<length ks])) c = Some (index :: u16)"
    and "unat index < length ks" and "ks ! unat index = c"
proof -
  obtain i where i: "i < length ks" "ks ! i = c" using assms(2) by (auto simp: in_set_conv_nth)
  have "map_of (zip ks (map word_of_nat [0..<length ks])) c = Some (word_of_nat i :: u16)"
    using i assms(1) by (auto simp: set_zip)
  with that i index_words [OF assms(3) i(1)] show ?thesis by simp
qed

text \<open>The compressed form, in terms of the chunks in dictionary order.\<close>

definition dictionary_chunks :: "u8 list \<Rightarrow> u64 list" where
  "dictionary_chunks code = rev (map fst (sort_key snd (chunk_statistic (code_chunks code))))"

lemma dictionary_chunks:
  "distinct (dictionary_chunks code)" "set (dictionary_chunks code) = set (code_chunks code)"
  "length (dictionary_chunks code) = card (set (code_chunks code))"
proof -
  let ?st = "sort_key snd (chunk_statistic (code_chunks code))"
  have "distinct (map fst ?st)"
    using chunk_statistic_keys [of "code_chunks code"] by (simp add: distinct_map)
  then show d: "distinct (dictionary_chunks code)" by (simp add: dictionary_chunks_def)
  show s: "set (dictionary_chunks code) = set (code_chunks code)"
    using chunk_statistic_keys [of "code_chunks code"] by (simp add: dictionary_chunks_def)
  show "length (dictionary_chunks code) = card (set (code_chunks code))"
    using distinct_card [OF d] s by simp
qed

lemma compress_to_bytes_eq_Inr:
  "compress_to_bytes code = Inr c \<longleftrightarrow>
     valid_bytecode code \<and> card (set (code_chunks code)) \<le> 65535 \<and>
     (\<exists>indices :: u16 list. list_all2 (\<lambda>chunk index. unat index < length (dictionary_chunks code) \<and>
          dictionary_chunks code ! unat index = chunk) (code_chunks code) indices \<and>
        c = be_bytes 2 (word_of_nat (length (dictionary_chunks code)) :: u16) @
            concat (map (be_bytes 8) (dictionary_chunks code)) @ concat (map (be_bytes 2) indices))"
  (is "_ \<longleftrightarrow> _ \<and> _ \<and> ?indices")
proof (cases "length (dictionary_chunks code) \<le> 65535")
  case small: True
  let ?ks = "dictionary_chunks code" and ?st = "sort_key snd (chunk_statistic (code_chunks code))"
  have st: "length ?st = length ?ks" by (simp add: dictionary_chunks_def)
  have "distinct (map fst ?st)" using dictionary_chunks(1) [of code] by (simp add: dictionary_chunks_def)
  then have dict: "build_dictionary ?st = zip ?ks (map word_of_nat [0..<length ?ks])"
    using build_dictionary_eq [of ?st] by (simp add: dictionary_chunks_def)
  have "map snd (sort (map (\<lambda>(k, v). (v, k)) (build_dictionary ?st))) = ?ks"
    using sorted_entries [OF small] by (simp add: dict zip_commute [of ?ks] split_def comp_def map_snd_zip)
  then have entries: "map (be_bytes 8 \<circ> snd) (sort (map (\<lambda>(k, v). (v, k)) (build_dictionary ?st))) = map (be_bytes 8) ?ks"
    by (metis map_map)
  have dict_len: "length (build_dictionary ?st) = length ?ks" by (simp add: dict)
  have "map_of (build_dictionary ?st) chunk = Some index \<longleftrightarrow> unat index < length ?ks \<and> ?ks ! unat index = chunk"
    if c: "chunk \<in> set (code_chunks code)" for chunk index
  proof -
    have "chunk \<in> set ?ks" using c dictionary_chunks(2) by simp
    from map_of_dictionary [OF dictionary_chunks(1) this small] obtain i where i: "map_of (build_dictionary ?st) chunk = Some i" "unat i < length ?ks" "?ks ! unat i = chunk"
      unfolding dict by blast
    then show ?thesis
      using nth_eq_iff_index_eq [OF dictionary_chunks(1) [of code]] by (metis option.inject word_unat_eq_iff)
  qed
  then have "collect_res (map (\<lambda>chunk. ok_or (Panic IndexOutOfBounds) (map_of (build_dictionary ?st) chunk)) cs) = Inr indices \<longleftrightarrow>
      list_all2 (\<lambda>chunk index. unat index < length ?ks \<and> ?ks ! unat index = chunk) cs indices"
    if "set cs \<subseteq> set (code_chunks code)" for cs indices
    using that by (induction cs arbitrary: indices) (auto simp: list_all2_Cons1)
  from this [OF subset_refl] show ?thesis
    using small st by (auto simp: compress_to_bytes_def Let_def validate_bytecode_ok entries dict_len
        dictionary_chunks(3) [symmetric])
next
  case False
  then show ?thesis
    by (auto simp: compress_to_bytes_def Let_def dictionary_chunks(3) [symmetric] dictionary_chunks_def)
qed

lemma compress_overflow:
  "valid_bytecode code \<Longrightarrow> 65535 < card (set (code_chunks code)) \<Longrightarrow>
   compress_to_bytes code = Inl (Bytecode DictionaryOverflow)"
  using validate_bytecode_ok [of code] dictionary_chunks(3) [of code]
  by (simp add: compress_to_bytes_def Let_def dictionary_chunks_def)

lemma compress_succeeds:
  assumes "valid_bytecode code" "card (set (code_chunks code)) \<le> 65535"
  shows "\<exists>c. compress_to_bytes code = Inr c"
proof -
  let ?ks = "dictionary_chunks code"
  have "\<exists>index :: u16. unat index < length ?ks \<and> ?ks ! unat index = chunk" if "chunk \<in> set (code_chunks code)" for chunk
    using map_of_dictionary [OF dictionary_chunks(1), of chunk code] that assms(2) by (metis dictionary_chunks(2,3))
  then obtain f :: "u64 \<Rightarrow> u16" where
    "\<forall>chunk \<in> set (code_chunks code). unat (f chunk) < length ?ks \<and> ?ks ! unat (f chunk) = chunk" by metis
  then have "list_all2 (\<lambda>chunk index. unat index < length ?ks \<and> ?ks ! unat index = chunk) (code_chunks code)
      (map f (code_chunks code))"
    by (simp add: list_all2_conv_all_nth)
  with assms show ?thesis unfolding compress_to_bytes_eq_Inr by blast
qed

section \<open>Decompression\<close>

lemma slice_concat:
  assumes "\<forall>c \<in> set cs. length c = k" "i < length cs"
  shows "take k (drop (i * k) (concat cs @ rest)) = cs ! i"
  using assms
proof (induction cs arbitrary: i)
  case (Cons c cs)
  then show ?case by (cases i) auto
qed simp

lemma decompress_encoded:
  fixes ks :: "u64 list"
  assumes "length ks \<le> 65535"
    and "list_all2 (\<lambda>chunk index. unat index < length ks \<and> ks ! unat index = chunk) cs (indices :: u16 list)"
  shows "decompress_bytecode (be_bytes 2 (word_of_nat (length ks) :: u16) @ concat (map (be_bytes 8) ks) @
      concat (map (be_bytes 2) indices)) = Inr (concat (map (be_bytes 8) cs))"
    (is "decompress_bytecode ?raw = _")
proof -
  have n: "unat (from_be_bytes (take 2 ?raw) :: u16) = length ks"
    using assms(1) by (simp add: unat_of_nat take_bit_nat_eq_self)
  have len: "length (concat (map (be_bytes 8) ks)) = length ks * 8"
    by (induction ks) simp_all
  have "slice (2 + i * 8) (10 + i * 8) ?raw = be_bytes 8 (ks ! i)" if "i < length ks" for i
  proof -
    have "slice (2 + i * 8) (10 + i * 8) ?raw = take 8 (drop (i * 8) (drop 2 ?raw))"
      unfolding slice_def drop_take drop_drop by (simp add: add.commute del: take_append drop_append)
    also have "drop 2 ?raw = concat (map (be_bytes 8) ks) @ concat (map (be_bytes 2) indices)" by simp
    finally show ?thesis
      using slice_concat [of "map (be_bytes 8) ks" 8 i "concat (map (be_bytes 2) indices)"] that by simp
  qed
  then have dict: "map (\<lambda>i. from_be_bytes (slice (2 + i * 8) (10 + i * 8) ?raw) :: u64) [0..<length ks] = ks"
    by (intro nth_equalityI) simp_all
  have "chunks 2 (drop (2 + length ks * 8) ?raw) = map (be_bytes 2) indices"
    using len by (simp add: chunks_concat)
  moreover have "collect_res (map (\<lambda>bytes. ensure (length bytes = 2) (Panic IndexOutOfBounds)
         (let index = unat (from_be_bytes bytes :: u16) in
          ensure (index < length ks) (Panic IndexOutOfBounds) (Inr (be_bytes 8 (ks ! index)))))
        (map (be_bytes 2) indices)) = Inr (map (be_bytes 8) cs)"
    using assms(2) by (induction rule: list_all2_induct) (simp_all add: Let_def)
  ultimately show ?thesis
    using len unfolding decompress_bytecode_def n Let_def dict by simp
qed

lemma concat_code_chunks:
  assumes "valid_bytecode code"
  shows "concat (map (be_bytes 8) (code_chunks code)) = code"
proof -
  obtain n where "length code = (4 * n) * 8" using assms by (auto simp: valid_bytecode_def)
  from chunks_length(1) [OF this] have "map (be_bytes 8 \<circ> (from_be_bytes :: _ \<Rightarrow> u64)) (chunks 8 code) = chunks 8 code"
    by (intro map_idI) simp
  then show ?thesis by (simp add: code_chunks_def)
qed

section \<open>Properties\<close>

text \<open>
  C30. Bytecode compression succeeds exactly on valid bytecodes with at most \<open>2 ^ 16 - 1\<close> distinct 8-byte chunks, and the
  decoder gives the bytecode back. A dictionary that is too large and an invalid bytecode are reported as such.
\<close>

theorem compression_roundtrip:
  "(case compress_to_bytes code of
      Inr compressed \<Rightarrow> valid_bytecode code \<and> card (set (code_chunks code)) \<le> 65535 \<and>
        decompress_bytecode compressed = Inr code
    | Inl e \<Rightarrow> if valid_bytecode code then 65535 < card (set (code_chunks code)) \<and> e = Bytecode DictionaryOverflow
        else validate_bytecode code = Inl e)"
proof (cases "compress_to_bytes code")
  case (Inr c)
  then obtain indices :: "u16 list" where v: "valid_bytecode code" "card (set (code_chunks code)) \<le> 65535"
    and l: "list_all2 (\<lambda>chunk index. unat index < length (dictionary_chunks code) \<and>
      dictionary_chunks code ! unat index = chunk) (code_chunks code) indices"
    and c: "c = be_bytes 2 (word_of_nat (length (dictionary_chunks code)) :: u16) @
      concat (map (be_bytes 8) (dictionary_chunks code)) @ concat (map (be_bytes 2) indices)"
    unfolding compress_to_bytes_eq_Inr by blast
  have "decompress_bytecode c = Inr code"
    using decompress_encoded [OF _ l] v(2) concat_code_chunks [OF v(1)] by (simp add: c dictionary_chunks(3))
  with v Inr show ?thesis by simp
next
  case (Inl e)
  show ?thesis
  proof (cases "valid_bytecode code")
    case True
    then have "65535 < card (set (code_chunks code))"
      using compress_succeeds [of code] Inl by (metis not_le sum.distinct(1))
    with True Inl compress_overflow [of code] show ?thesis by simp
  next
    case False
    then obtain e' where "validate_bytecode code = Inl e'"
      using validate_bytecode_ok [of code] by (cases "validate_bytecode code") auto
    with False Inl show ?thesis by (simp add: compress_to_bytes_def)
  qed
qed

end
