(* ===== verification/Transactions.thy ===== *)
theory Transactions
  imports Bytecode_Compression
begin

text \<open>
  Transactions: the types of \<open>src/crates/types/src/\<close> (\<open>lib.rs\<close>, \<open>l1/mod.rs\<close>, \<open>l2/mod.rs\<close>, \<open>tx/execute.rs\<close>, \<open>fee.rs\<close>,
  \<open>protocol_upgrade.rs\<close>) and \<open>TransactionData\<close> of \<open>src/crates/multivm/src/versions/vm_latest/types/transaction_data.rs\<close>, the
  form in which the bootloader sees them. The hash of an L2 transaction goes through the RLP and EIP-712 encodings of
  \<open>transaction_request.rs\<close> and is a parameter here.
\<close>

section \<open>Types\<close>

definition EIP_712_TX_TYPE :: u8 where "EIP_712_TX_TYPE = 0x71"
definition EIP_1559_TX_TYPE :: u8 where "EIP_1559_TX_TYPE = 0x02"
definition EIP_2930_TX_TYPE :: u8 where "EIP_2930_TX_TYPE = 0x01"
definition LEGACY_TX_TYPE :: u8 where "LEGACY_TX_TYPE = 0"
definition PRIORITY_OPERATION_L2_TX_TYPE :: u8 where "PRIORITY_OPERATION_L2_TX_TYPE = 0xff"
definition PROTOCOL_UPGRADE_TX_TYPE :: u8 where "PROTOCOL_UPGRADE_TX_TYPE = 0xfe"

lemmas tx_type_defs = EIP_712_TX_TYPE_def EIP_1559_TX_TYPE_def EIP_2930_TX_TYPE_def LEGACY_TX_TYPE_def
  PRIORITY_OPERATION_L2_TX_TYPE_def PROTOCOL_UPGRADE_TX_TYPE_def

datatype transaction_type =
    LegacyTransaction | EIP2930Transaction | EIP1559Transaction | EIP712Transaction
  | PriorityOpTransaction | ProtocolUpgradeTransaction

fun transaction_type_tag :: "transaction_type \<Rightarrow> u32" where
  "transaction_type_tag LegacyTransaction = 0"
| "transaction_type_tag EIP2930Transaction = 1"
| "transaction_type_tag EIP1559Transaction = 2"
| "transaction_type_tag EIP712Transaction = ucast EIP_712_TX_TYPE"
| "transaction_type_tag PriorityOpTransaction = ucast PRIORITY_OPERATION_L2_TX_TYPE"
| "transaction_type_tag ProtocolUpgradeTransaction = ucast PROTOCOL_UPGRADE_TX_TYPE"

definition transaction_type_try_from :: "u32 \<Rightarrow> transaction_type option" where
  "transaction_type_try_from n =
     find (\<lambda>t. transaction_type_tag t = n)
       [LegacyTransaction, EIP2930Transaction, EIP1559Transaction, EIP712Transaction, PriorityOpTransaction,
        ProtocolUpgradeTransaction]"

definition is_ethereum_type :: "transaction_type \<Rightarrow> bool" where
  "is_ethereum_type t \<longleftrightarrow> t \<in> {LegacyTransaction, EIP2930Transaction, EIP1559Transaction}"

definition is_l1_tx_type :: "u8 \<Rightarrow> bool" where
  "is_l1_tx_type tx_type \<longleftrightarrow> tx_type = PRIORITY_OPERATION_L2_TX_TYPE \<or> tx_type = PROTOCOL_UPGRADE_TX_TYPE"

record fee =
  fee_gas_limit :: u256
  fee_max_fee_per_gas :: u256
  fee_max_priority_fee_per_gas :: u256
  fee_gas_per_pubdata_limit :: u256

definition get_effective_gas_price :: "fee \<Rightarrow> u256 \<Rightarrow> u256 res" where
  "get_effective_gas_price f base_fee =
     ensure (base_fee \<le> fee_max_fee_per_gas f) (Panic ArithmeticOverflow)
       (ensure (fee_max_priority_fee_per_gas f \<le> fee_max_fee_per_gas f) (Panic ArithmeticOverflow) (Inr base_fee))"

definition max_total_fee :: "fee \<Rightarrow> u256 res" where
  "max_total_fee f = u256_mul (fee_max_fee_per_gas f) (fee_gas_limit f)"

definition encoding_len :: "u64 \<Rightarrow> u64 \<Rightarrow> u64 \<Rightarrow> u64 \<Rightarrow> u64 \<Rightarrow> nat" where
  "encoding_len data_len signature_len factory_deps_len paymaster_input_len reserved_dynamic_len =
     (let BASE_LEN = 1 + 19 + 5;
          dynamic_len = u64_div_ceil data_len 32 + u64_div_ceil signature_len 32 + u64_div_ceil paymaster_input_len 32
            + u64_div_ceil reserved_dynamic_len 32 + factory_deps_len
      in BASE_LEN + unat dynamic_len)"

record execute_data =
  ex_contract_address :: "address option"
  ex_calldata :: "u8 list"
  ex_value :: u256
  ex_factory_deps :: "u8 list list"

record paymaster_params =
  pm_paymaster :: address
  pm_paymaster_input :: "u8 list"

record input_data =
  in_hash :: h256
  in_data :: "u8 list"

record l2_tx_common_data =
  l2_nonce :: u32
  l2_fee :: fee
  l2_initiator_address :: address
  l2_signature :: "u8 list"
  l2_transaction_type :: transaction_type
  l2_input :: "input_data option"
  l2_paymaster_params :: paymaster_params

datatype op_processing_type = OpCommon | OnlyRollup
datatype priority_queue_type = Deque | HeapBuffer | Heap

record l1_tx_common_data =
  l1_sender :: address
  l1_serial_id :: u64
  l1_layer_2_tip_fee :: u256
  l1_full_fee :: u256
  l1_max_fee_per_gas :: u256
  l1_gas_limit :: u256
  l1_gas_per_pubdata_limit :: u256
  l1_op_processing_type :: op_processing_type
  l1_priority_queue_type :: priority_queue_type
  l1_canonical_tx_hash :: h256
  l1_to_mint :: u256
  l1_refund_recipient :: address
  l1_eth_block :: u64

record protocol_upgrade_tx_common_data =
  pu_sender :: address
  pu_upgrade_id :: protocol_version
  pu_max_fee_per_gas :: u256
  pu_gas_limit :: u256
  pu_gas_per_pubdata_limit :: u256
  pu_eth_block :: u64
  pu_canonical_tx_hash :: h256
  pu_to_mint :: u256
  pu_refund_recipient :: address

datatype execute_transaction_common =
    L1Common l1_tx_common_data | L2Common l2_tx_common_data | ProtocolUpgradeCommon protocol_upgrade_tx_common_data

record transaction =
  tx_common_data :: execute_transaction_common
  tx_execute :: execute_data
  tx_received_timestamp_ms :: u64
  tx_raw_bytes :: "u8 list option"

section \<open>Accessors\<close>

definition l2_hash :: "l2_tx_common_data \<Rightarrow> h256 res" where
  "l2_hash d = ok_or (Panic TxHashError) (map_option in_hash (l2_input d))"

definition recipient_account :: "transaction \<Rightarrow> address option" where
  "recipient_account tx = ex_contract_address (tx_execute tx)"

definition tx_nonce :: "transaction \<Rightarrow> u32 option" where
  "tx_nonce tx = (case tx_common_data tx of L2Common d \<Rightarrow> Some (l2_nonce d) | _ \<Rightarrow> None)"

definition tx_is_l1 :: "transaction \<Rightarrow> bool" where
  "tx_is_l1 tx = (case tx_common_data tx of L1Common _ \<Rightarrow> True | _ \<Rightarrow> False)"

definition is_protocol_upgrade :: "transaction \<Rightarrow> bool" where
  "is_protocol_upgrade tx = (case tx_common_data tx of ProtocolUpgradeCommon _ \<Rightarrow> True | _ \<Rightarrow> False)"

definition tx_format :: "transaction \<Rightarrow> transaction_type" where
  "tx_format tx = (case tx_common_data tx of
      L1Common _ \<Rightarrow> PriorityOpTransaction | L2Common d \<Rightarrow> l2_transaction_type d
    | ProtocolUpgradeCommon _ \<Rightarrow> ProtocolUpgradeTransaction)"

definition tx_hash :: "transaction \<Rightarrow> h256 res" where
  "tx_hash tx = (case tx_common_data tx of
      L1Common d \<Rightarrow> Inr (l1_canonical_tx_hash d) | L2Common d \<Rightarrow> l2_hash d
    | ProtocolUpgradeCommon d \<Rightarrow> Inr (pu_canonical_tx_hash d))"

definition initiator_account :: "transaction \<Rightarrow> address" where
  "initiator_account tx = (case tx_common_data tx of
      L1Common d \<Rightarrow> l1_sender d | L2Common d \<Rightarrow> l2_initiator_address d | ProtocolUpgradeCommon d \<Rightarrow> pu_sender d)"

definition tx_payer :: "transaction \<Rightarrow> address" where
  "tx_payer tx = (case tx_common_data tx of
      L1Common d \<Rightarrow> l1_sender d
    | L2Common d \<Rightarrow> (let paymaster = pm_paymaster (l2_paymaster_params d)
        in if paymaster = 0 then l2_initiator_address d else paymaster)
    | ProtocolUpgradeCommon d \<Rightarrow> pu_sender d)"

definition tx_gas_limit :: "transaction \<Rightarrow> u256" where
  "tx_gas_limit tx = (case tx_common_data tx of
      L1Common d \<Rightarrow> l1_gas_limit d | L2Common d \<Rightarrow> fee_gas_limit (l2_fee d) | ProtocolUpgradeCommon d \<Rightarrow> pu_gas_limit d)"

definition tx_max_fee_per_gas :: "transaction \<Rightarrow> u256" where
  "tx_max_fee_per_gas tx = (case tx_common_data tx of
      L1Common d \<Rightarrow> l1_max_fee_per_gas d | L2Common d \<Rightarrow> fee_max_fee_per_gas (l2_fee d)
    | ProtocolUpgradeCommon d \<Rightarrow> pu_max_fee_per_gas d)"

definition tx_gas_per_pubdata_byte_limit :: "transaction \<Rightarrow> u256" where
  "tx_gas_per_pubdata_byte_limit tx = (case tx_common_data tx of
      L1Common d \<Rightarrow> l1_gas_per_pubdata_limit d | L2Common d \<Rightarrow> fee_gas_per_pubdata_limit (l2_fee d)
    | ProtocolUpgradeCommon d \<Rightarrow> pu_gas_per_pubdata_limit d)"

text \<open>Lengths are cast with \<open>as u64\<close>.\<close>

definition tx_encoding_len :: "transaction \<Rightarrow> nat" where
  "tx_encoding_len tx =
     (let (signature_len, paymaster_input_len) = (case tx_common_data tx of
        L2Common d \<Rightarrow> (length (l2_signature d), length (pm_paymaster_input (l2_paymaster_params d)))
      | _ \<Rightarrow> (0, 0))
      in encoding_len (word_of_nat (length (ex_calldata (tx_execute tx)))) (word_of_nat signature_len)
           (word_of_nat (length (ex_factory_deps (tx_execute tx)))) (word_of_nat paymaster_input_len) 0)"

section \<open>\<open>TransactionData\<close>\<close>

record transaction_data =
  td_tx_type :: u8
  td_from :: address
  td_to :: "address option"
  td_gas_limit :: u256
  td_pubdata_price_limit :: u256
  td_max_fee_per_gas :: u256
  td_max_priority_fee_per_gas :: u256
  td_paymaster :: address
  td_nonce :: u256
  td_value :: u256
  td_reserved :: "u256 list"
  td_data :: "u8 list"
  td_signature :: "u8 list"
  td_factory_deps :: "u8 list list"
  td_factory_deps_hashes :: "h256 list"
  td_paymaster_input :: "u8 list"
  td_reserved_dynamic :: "u8 list"
  td_raw_bytes :: "u8 list option"

definition address_to_u256 :: "address \<Rightarrow> u256" where
  "address_to_u256 a = from_be_bytes (replicate 12 0 @ address_bytes a)"

definition u256_to_address :: "u256 \<Rightarrow> address" where
  "u256_to_address v = from_be_bytes (drop 12 (be_bytes 32 v))"

text \<open>
  The conversion of each kind of transaction. \<open>extract_chain_id\<close> reads the chain id from the raw transaction.
\<close>

definition transaction_data_l2 ::
  "(u8 list \<Rightarrow> u64 option) \<Rightarrow> bool \<Rightarrow> transaction \<Rightarrow> l2_tx_common_data \<Rightarrow> transaction_data res" where
  "transaction_data_l2 extract_chain_id use_evm_emulator tx d =
     (let ex = tx_execute tx;
          chain_id = (case l2_input d of None \<Rightarrow> None | Some i \<Rightarrow> extract_chain_id (in_data i));
          should_check_chain_id = (if l2_transaction_type d = LegacyTransaction \<and> chain_id \<noteq> None then 1 else 0);
          gas_per_pubdata_limit = (if is_ethereum_type (l2_transaction_type d) then ucast MAX_GAS_PER_PUBDATA_BYTE
            else fee_gas_per_pubdata_limit (l2_fee d))
      in ensure (ex_contract_address ex \<noteq> None \<or> use_evm_emulator) (Panic EmulationDisabled)
        (Inr \<lparr>td_tx_type = ucast (transaction_type_tag (l2_transaction_type d)), td_from = l2_initiator_address d,
           td_to = ex_contract_address ex, td_gas_limit = fee_gas_limit (l2_fee d),
           td_pubdata_price_limit = gas_per_pubdata_limit, td_max_fee_per_gas = fee_max_fee_per_gas (l2_fee d),
           td_max_priority_fee_per_gas = fee_max_priority_fee_per_gas (l2_fee d),
           td_paymaster = pm_paymaster (l2_paymaster_params d),
           td_nonce = from_be_bytes (be_bytes 4 (l2_nonce d)), td_value = ex_value ex,
           td_reserved = [should_check_chain_id, if ex_contract_address ex = None then 1 else 0, 0, 0],
           td_data = ex_calldata ex, td_signature = l2_signature d, td_factory_deps = ex_factory_deps ex,
           td_factory_deps_hashes = [], td_paymaster_input = pm_paymaster_input (l2_paymaster_params d),
           td_reserved_dynamic = [], td_raw_bytes = tx_raw_bytes tx\<rparr>))"

definition transaction_data_l1 :: "transaction \<Rightarrow> l1_tx_common_data \<Rightarrow> transaction_data" where
  "transaction_data_l1 tx d =
     (let ex = tx_execute tx
      in \<lparr>td_tx_type = ucast (transaction_type_tag PriorityOpTransaction), td_from = l1_sender d,
          td_to = ex_contract_address ex, td_gas_limit = l1_gas_limit d,
          td_pubdata_price_limit = l1_gas_per_pubdata_limit d, td_max_fee_per_gas = l1_max_fee_per_gas d,
          td_max_priority_fee_per_gas = 0, td_paymaster = 0, td_nonce = ucast (l1_serial_id d), td_value = ex_value ex,
          td_reserved = [l1_to_mint d, address_to_u256 (l1_refund_recipient d), 0, 0],
          td_data = ex_calldata ex, td_signature = [], td_factory_deps = ex_factory_deps ex,
          td_factory_deps_hashes = [], td_paymaster_input = [], td_reserved_dynamic = [], td_raw_bytes = None\<rparr>)"

definition transaction_data_upgrade :: "transaction \<Rightarrow> protocol_upgrade_tx_common_data \<Rightarrow> transaction_data" where
  "transaction_data_upgrade tx d =
     (let ex = tx_execute tx
      in \<lparr>td_tx_type = ucast (transaction_type_tag ProtocolUpgradeTransaction), td_from = pu_sender d,
          td_to = ex_contract_address ex, td_gas_limit = pu_gas_limit d,
          td_pubdata_price_limit = pu_gas_per_pubdata_limit d, td_max_fee_per_gas = pu_max_fee_per_gas d,
          td_max_priority_fee_per_gas = 0, td_paymaster = 0,
          td_nonce = word_of_nat (as_u16 (pu_upgrade_id d)), td_value = ex_value ex,
          td_reserved = [pu_to_mint d, address_to_u256 (pu_refund_recipient d), 0, 0],
          td_data = ex_calldata ex, td_signature = [], td_factory_deps = ex_factory_deps ex,
          td_factory_deps_hashes = [], td_paymaster_input = [], td_reserved_dynamic = [], td_raw_bytes = None\<rparr>)"

definition transaction_data_new ::
  "hash_fn \<Rightarrow> (u8 list \<Rightarrow> u64 option) \<Rightarrow> transaction \<Rightarrow> bool \<Rightarrow> transaction_data res" where
  "transaction_data_new sha256 extract_chain_id tx use_evm_emulator =
     and_then (case tx_common_data tx of
         L2Common d \<Rightarrow> transaction_data_l2 extract_chain_id use_evm_emulator tx d
       | L1Common d \<Rightarrow> Inr (transaction_data_l1 tx d)
       | ProtocolUpgradeCommon d \<Rightarrow> Inr (transaction_data_upgrade tx d)) (\<lambda>td.
     and_then (collect_res (map (for_bytecode sha256) (td_factory_deps td))) (\<lambda>hashes.
       Inr (td\<lparr>td_factory_deps_hashes := hashes\<rparr>)))"

definition transaction_tokens :: "transaction_data \<Rightarrow> u256 list \<Rightarrow> abi_token" where
  "transaction_tokens td factory_deps_hashes = TokenTuple
     [TokenUint (ucast (td_tx_type td)), TokenAddress (td_from td),
      TokenAddress (case td_to td of Some a \<Rightarrow> a | None \<Rightarrow> 0),
      TokenUint (td_gas_limit td), TokenUint (td_pubdata_price_limit td), TokenUint (td_max_fee_per_gas td),
      TokenUint (td_max_priority_fee_per_gas td), TokenAddress (td_paymaster td), TokenUint (td_nonce td),
      TokenUint (td_value td), TokenFixedArray (map TokenUint (td_reserved td)), TokenBytes (td_data td),
      TokenBytes (td_signature td), TokenArray (map TokenUint factory_deps_hashes), TokenBytes (td_paymaster_input td),
      TokenBytes (td_reserved_dynamic td)]"

definition abi_encode_with_custom_factory_deps :: "abi \<Rightarrow> transaction_data \<Rightarrow> u256 list \<Rightarrow> u8 list" where
  "abi_encode_with_custom_factory_deps A td hashes = abi.abi_encode A [transaction_tokens td hashes]"

definition td_abi_encode :: "abi \<Rightarrow> transaction_data \<Rightarrow> u8 list" where
  "td_abi_encode A td = abi_encode_with_custom_factory_deps A td (td_factory_deps_hashes td)"

definition into_tokens :: "abi \<Rightarrow> transaction_data \<Rightarrow> u256 list res" where
  "into_tokens A td = bytes_to_be_words (td_abi_encode A td)"

definition td_encoding_len :: "transaction_data \<Rightarrow> nat" where
  "td_encoding_len td = encoding_len (word_of_nat (length (td_data td))) (word_of_nat (length (td_signature td)))
     (word_of_nat (length (td_factory_deps td))) (word_of_nat (length (td_paymaster_input td)))
     (word_of_nat (length (td_reserved_dynamic td)))"

definition overhead_gas :: "transaction_data \<Rightarrow> u32" where
  "overhead_gas td = vm_latest_derive_overhead (td_encoding_len td)"

definition TX_MAX_COMPUTE_GAS_LIMIT :: u64 where "TX_MAX_COMPUTE_GAS_LIMIT = 80000000"

definition trusted_ergs_limit :: "transaction_data \<Rightarrow> u256" where
  "trusted_ergs_limit td = min (ucast TX_MAX_COMPUTE_GAS_LIMIT) (td_gas_limit td)"

definition canonical_l1_tx_hash :: "hash_fn \<Rightarrow> abi \<Rightarrow> transaction_data \<Rightarrow> h256" where
  "canonical_l1_tx_hash keccak A td = keccak (td_abi_encode A td)"

text \<open>\<open>l2_tx_hashes\<close> is the signed hash and the transaction hash of the request an L2 transaction converts to.\<close>

definition signed_and_tx_hashes ::
  "hash_fn \<Rightarrow> abi \<Rightarrow> (transaction_data \<Rightarrow> u64 \<Rightarrow> (h256 \<times> h256) res) \<Rightarrow> transaction_data \<Rightarrow> u64 \<Rightarrow>
   (h256 option \<times> h256) res" where
  "signed_and_tx_hashes keccak A l2_tx_hashes td chain_id =
     (if is_l1_tx_type (td_tx_type td) then Inr (None, canonical_l1_tx_hash keccak A td)
      else map_res (\<lambda>(signed_hash, hash). (Some signed_hash, hash)) (l2_tx_hashes td chain_id))"

definition parse_signature :: "transaction_data \<Rightarrow> (bool \<times> u8 list) option" where
  "parse_signature td =
     (if length (td_signature td) \<noteq> 65 then None
      else let v = td_signature td ! 64
           in if v = 27 then Some (False, take 64 (td_signature td))
              else if v = 28 then Some (True, take 64 (td_signature td)) else None)"

text \<open>
  \<open>TryInto<L2Tx>\<close>: an L2 transaction is the \<open>transaction\<close> record with \<open>L2Common\<close> data. \<open>as_u32\<close> panics on a nonce
  that does not fit 32 bits, and the \<open>unwrap\<close> of the type tag on an unknown one.
\<close>

definition td_try_into_l2 :: "transaction_data \<Rightarrow> transaction res" where
  "td_try_into_l2 td =
     (if is_l1_tx_type (td_tx_type td) then Inl (Panic TxHashError)
      else and_then (ok_or (Panic UnknownTx) (transaction_type_try_from (ucast (td_tx_type td)))) (\<lambda>ty.
        ensure (unat (td_nonce td) < 2 ^ 32) (Panic ArithmeticOverflow)
          (Inr \<lparr>tx_common_data = L2Common
                \<lparr>l2_nonce = ucast (td_nonce td),
                 l2_fee = \<lparr>fee_gas_limit = td_gas_limit td, fee_max_fee_per_gas = td_max_fee_per_gas td,
                   fee_max_priority_fee_per_gas = td_max_priority_fee_per_gas td,
                   fee_gas_per_pubdata_limit = td_pubdata_price_limit td\<rparr>,
                 l2_initiator_address = td_from td, l2_signature = td_signature td, l2_transaction_type = ty,
                 l2_input = None,
                 l2_paymaster_params = \<lparr>pm_paymaster = td_paymaster td, pm_paymaster_input = td_paymaster_input td\<rparr>\<rparr>,
              tx_execute = \<lparr>ex_contract_address = td_to td, ex_calldata = td_data td, ex_value = td_value td,
                ex_factory_deps = td_factory_deps td\<rparr>,
              tx_received_timestamp_ms = 0, tx_raw_bytes = td_raw_bytes td\<rparr>)))"

section \<open>The length of the encoding\<close>

lemma div_ceil_32: "div_ceil n 32 = (n + 31) div 32"
proof -
  obtain q r where "n = 32 * q + r" "r < 32"
    by (metis div_mult_mod_eq mod_less_divisor mult.commute zero_less_numeral)
  then show ?thesis
    by (cases "r = 0") (simp_all add: div_ceil_def div_add1_eq [of "32 * q" "r + 31" 32] add.assoc)
qed

lemma unat_add_bounded:
  fixes x y :: u64
  assumes "unat x + unat y < 2 ^ 64"
  shows "unat (x + y) = unat x + unat y"
  using assms by (subst unat_plus_if') (simp)

lemma encoding_len_nat:
  assumes "d < 2 ^ 60" "s < 2 ^ 60" "f < 2 ^ 60" "p < 2 ^ 60" "r < 2 ^ 60"
  shows "encoding_len (word_of_nat d) (word_of_nat s) (word_of_nat f) (word_of_nat p) (word_of_nat r) =
    25 + (d + 31) div 32 + (s + 31) div 32 + (p + 31) div 32 + (r + 31) div 32 + f"
proof -
  have un: "unat (word_of_nat n :: u64) = n" if "n < 2 ^ 60" for n
    using that by (simp add: unat_of_nat)
  have dc: "unat (u64_div_ceil (word_of_nat n) 32) = (n + 31) div 32" if "n < 2 ^ 60" for n
    using un [OF that] unat_u64_div_ceil [of 32 "word_of_nat n"] by (simp add: div_ceil_32)
  have small: "(n + 31) div 32 < 2 ^ 60" if "n < 2 ^ 60" for n :: nat
    using that by simp
  show ?thesis
    using assms small [OF assms(1)] small [OF assms(2)] small [OF assms(4)] small [OF assms(5)]
    by (simp add: encoding_len_def Let_def unat_add_bounded dc un)
qed

lemma length_uint_array: "length (assemble (map ((\<lambda>t. (is_dynamic t, encode_token t)) \<circ> TokenUint) ws)) = 32 * length ws"
  by (induction ws) (simp_all add: length_assemble)

lemma length_transaction_tokens:
  assumes "length (td_reserved td) = 4"
  shows "length (abi_spec_encode [transaction_tokens td hashes]) = 32 * (25 + (length (td_data td) + 31) div 32
    + (length (td_signature td) + 31) div 32 + (length (td_paymaster_input td) + 31) div 32
    + (length (td_reserved_dynamic td) + 31) div 32 + length hashes)"
  using assms length_uint_array [of hashes] length_uint_array [of "td_reserved td"]
  by (simp add: abi_spec_encode_def transaction_tokens_def length_assemble [of "_ # _"] length_pad_right list_ex_iff)

definition signature_of :: "transaction \<Rightarrow> u8 list" where
  "signature_of tx = (case tx_common_data tx of L2Common d \<Rightarrow> l2_signature d | _ \<Rightarrow> [])"

definition paymaster_input_of :: "transaction \<Rightarrow> u8 list" where
  "paymaster_input_of tx = (case tx_common_data tx of L2Common d \<Rightarrow> pm_paymaster_input (l2_paymaster_params d) | _ \<Rightarrow> [])"

lemma transaction_data_new_shape:
  assumes "transaction_data_new sha256 extract_chain_id tx emu = Inr td"
  shows "length (td_reserved td) = 4" "td_data td = ex_calldata (tx_execute tx)"
    "td_factory_deps td = ex_factory_deps (tx_execute tx)" "td_signature td = signature_of tx"
    "td_paymaster_input td = paymaster_input_of tx" "td_reserved_dynamic td = []"
    "map Inr (td_factory_deps_hashes td) = map (for_bytecode sha256) (td_factory_deps td)"
  using assms
  by (auto simp: transaction_data_new_def transaction_data_l2_def transaction_data_l1_def transaction_data_upgrade_def
      signature_of_def paymaster_input_of_def and_then_eq_Inr ensure_eq_Inr collect_res_eq_Inr Let_def
      split: execute_transaction_common.splits)

lemma length_factory_deps_hashes:
  assumes "transaction_data_new sha256 extract_chain_id tx emu = Inr td"
  shows "length (td_factory_deps_hashes td) = length (ex_factory_deps (tx_execute tx))"
  using arg_cong [OF transaction_data_new_shape(7) [OF assms], of length] transaction_data_new_shape(3) [OF assms] by simp

lemma tx_encoding_len_eq:
  "tx_encoding_len tx = encoding_len (word_of_nat (length (ex_calldata (tx_execute tx)))) (word_of_nat (length (signature_of tx)))
     (word_of_nat (length (ex_factory_deps (tx_execute tx)))) (word_of_nat (length (paymaster_input_of tx))) 0"
  by (simp add: tx_encoding_len_def signature_of_def paymaster_input_of_def split: execute_transaction_common.split)

text \<open>
  The ABI encoding of a transaction is a whole number of words, so \<open>into_tokens\<close> never hits its alignment
  assertion, and the number of words is the one \<open>encoding_len\<close> computes without encoding, on which the overhead the
  transaction pays is charged.
\<close>

theorem into_tokens_encoding_len:
  assumes "abi.abi_encode A = abi_spec_encode" "transaction_data_new sha256 extract_chain_id tx emu = Inr td"
    and "length (ex_calldata (tx_execute tx)) < 2 ^ 60" "length (ex_factory_deps (tx_execute tx)) < 2 ^ 60"
    and "length (signature_of tx) < 2 ^ 60" "length (paymaster_input_of tx) < 2 ^ 60"
  shows "\<exists>ws. into_tokens A td = Inr ws \<and> length ws = tx_encoding_len tx \<and>
    overhead_gas td = vm_latest_derive_overhead (length ws)"
proof -
  note shape = transaction_data_new_shape [OF assms(2)]
  have len: "length (td_abi_encode A td) = tx_encoding_len tx * 32"
    using assms(1,3-6) shape length_transaction_tokens [OF shape(1), of "td_factory_deps_hashes td"]
      length_factory_deps_hashes [OF assms(2)] encoding_len_nat [OF assms(3,5,4,6), of 0]
    by (simp add: td_abi_encode_def abi_encode_with_custom_factory_deps_def tx_encoding_len_eq)
  then have "into_tokens A td = Inr (map from_be_bytes (chunks 32 (td_abi_encode A td)))"
    by (simp add: into_tokens_def bytes_to_be_words_def)
  moreover have "length (chunks 32 (td_abi_encode A td)) = tx_encoding_len tx"
    using chunks_length(2) [OF len] by simp
  ultimately show ?thesis
    using shape by (simp add: overhead_gas_def td_encoding_len_def tx_encoding_len_eq)
qed

text \<open>A sample deployment with one factory dependency.\<close>

definition sample_l2_tx :: transaction where
  "sample_l2_tx = \<lparr>tx_common_data = L2Common
      \<lparr>l2_nonce = 7, l2_fee = \<lparr>fee_gas_limit = 100000, fee_max_fee_per_gas = 10, fee_max_priority_fee_per_gas = 1,
         fee_gas_per_pubdata_limit = 800\<rparr>,
       l2_initiator_address = 0x8001, l2_signature = replicate 65 27, l2_transaction_type = EIP712Transaction,
       l2_input = None, l2_paymaster_params = \<lparr>pm_paymaster = 0, pm_paymaster_input = []\<rparr>\<rparr>,
     tx_execute = \<lparr>ex_contract_address = Some 0x8006, ex_calldata = replicate 36 1, ex_value = 5,
       ex_factory_deps = [replicate 32 9]\<rparr>,
     tx_received_timestamp_ms = 0, tx_raw_bytes = None\<rparr>"

lemma sample_l2_tx_new: "\<exists>td. transaction_data_new (\<lambda>_. 5) (\<lambda>_. None) sample_l2_tx False = Inr td"
  by (simp add: transaction_data_new_def transaction_data_l2_def sample_l2_tx_def Let_def for_bytecode_def
      for_generic_bytecode_def validate_bytecode_def MAX_BYTECODE_LENGTH_BYTES_def
      MAX_BYTECODE_LENGTH_IN_WORDS_def)

theorem into_tokens_encoding_len_witness:
  "\<exists>td ws. transaction_data_new (\<lambda>_. 5) (\<lambda>_. None) sample_l2_tx False = Inr td \<and> into_tokens spec_abi td = Inr ws \<and>
     length ws = 31"
proof -
  obtain td where td: "transaction_data_new (\<lambda>_. 5) (\<lambda>_. None) sample_l2_tx False = Inr td"
    using sample_l2_tx_new by blast
  have "tx_encoding_len sample_l2_tx = 31"
    by (simp add: tx_encoding_len_def sample_l2_tx_def encoding_len_def u64_div_ceil_def)
  with td show ?thesis
    using into_tokens_encoding_len [of spec_abi, OF _ td]
    by (auto simp: spec_abi_def sample_l2_tx_def signature_of_def paymaster_input_of_def)
qed

lemma from_be_bytes_be_bytes_wide:
  assumes "8 * n = LENGTH('b)"
  shows "from_be_bytes (be_bytes n (w :: 'b::len word)) = (ucast w :: 'a::len word)"
proof (rule bit_word_eqI)
  fix i assume "i < LENGTH('a)"
  moreover have "8 * (i div 8) + i mod 8 = i" by simp
  moreover have "i div 8 < n \<longleftrightarrow> i < LENGTH('b)" using assms by auto
  ultimately show "bit (from_be_bytes (be_bytes n w) :: 'a word) i = bit (ucast w :: 'a word) i"
    by (auto simp: from_be_bytes_def be_bytes_def bit_from_le_bytes nth_le_bytes bit_ucast_iff bit_drop_bit_eq
        dest: bit_imp_le_length)
qed

lemma transaction_type_roundtrip [simp]: "transaction_type_try_from (transaction_type_tag t) = Some t"
  by (cases t) (simp_all add: transaction_type_try_from_def tx_type_defs)

lemma transaction_type_tag_u8 [simp]: "ucast (ucast (transaction_type_tag t) :: u8) = transaction_type_tag t"
  by (cases t) (simp_all add: tx_type_defs)

lemma is_l1_tx_type_tag: "is_l1_tx_type (ucast (transaction_type_tag t)) \<longleftrightarrow> t = PriorityOpTransaction \<or> t = ProtocolUpgradeTransaction"
  by (cases t) (simp_all add: tx_type_defs is_l1_tx_type_def)

text \<open>
  Turning an L2 transaction into the form of the bootloader and back, as is done to recompute its hash, gives the
  transaction that was executed, less its cached input and its reception time; a transaction of an Ethereum type,
  which does not sign a pubdata price, comes back with the maximal one. A transaction that carries the type of an
  L1 transaction is refused.
\<close>

theorem transaction_data_l2_roundtrip:
  assumes "transaction_data_new sha256 extract_chain_id tx emu = Inr td" "tx_common_data tx = L2Common d"
  shows "td_try_into_l2 td =
    (if l2_transaction_type d \<in> {PriorityOpTransaction, ProtocolUpgradeTransaction} then Inl (Panic TxHashError)
     else Inr (tx\<lparr>tx_common_data := L2Common (d\<lparr>l2_input := None,
         l2_fee := (l2_fee d)\<lparr>fee_gas_per_pubdata_limit := if is_ethereum_type (l2_transaction_type d)
           then ucast MAX_GAS_PER_PUBDATA_BYTE else fee_gas_per_pubdata_limit (l2_fee d)\<rparr>\<rparr>),
       tx_received_timestamp_ms := 0\<rparr>))"
proof -
  obtain hashes td0 where td0: "transaction_data_l2 extract_chain_id emu tx d = Inr td0"
    and td: "td = td0\<lparr>td_factory_deps_hashes := hashes\<rparr>"
    using assms by (auto simp: transaction_data_new_def and_then_eq_Inr)
  have nonce: "td_nonce td = ucast (l2_nonce d)"
    using td0 by (auto simp: td transaction_data_l2_def ensure_eq_Inr Let_def from_be_bytes_be_bytes_wide)
  have narrow: "ucast (ucast (l2_nonce d) :: u256) = l2_nonce d" "unat (ucast (l2_nonce d) :: u256) < 2 ^ 32"
    using unsigned_less [of "l2_nonce d", where 'a = nat] by (simp_all add: unsigned_ucast_eq take_bit_nat_eq_self take_bit_word_eq_self)
  have "td_tx_type td = ucast (transaction_type_tag (l2_transaction_type d))"
    using td0 by (auto simp: td transaction_data_l2_def ensure_eq_Inr Let_def)
  with nonce narrow td0 show ?thesis
    by (auto simp: td td_try_into_l2_def is_l1_tx_type_tag transaction_data_l2_def ensure_eq_Inr Let_def assms
        intro!: transaction.equality l2_tx_common_data.equality fee.equality paymaster_params.equality
          execute_data.equality)
qed

theorem transaction_data_l2_roundtrip_witness:
  "\<exists>td. transaction_data_new (\<lambda>_. 5) (\<lambda>_. None) sample_l2_tx False = Inr td \<and> td_try_into_l2 td = Inr sample_l2_tx"
proof -
  obtain td where td: "transaction_data_new (\<lambda>_. 5) (\<lambda>_. None) sample_l2_tx False = Inr td"
    using sample_l2_tx_new by blast
  then show ?thesis
    using transaction_data_l2_roundtrip [OF td] by (simp add: sample_l2_tx_def is_ethereum_type_def)
qed

end
