(* ===== verification/L2_Blocks.thy ===== *)
theory L2_Blocks
  imports Vm_Env Storage_View
begin

text \<open>
  L2 blocks: the packed block info and the block hasher of \<open>src/crates/types/src/block.rs\<close>, and
  \<open>src/crates/multivm/src/versions/vm_latest/utils/\<close>: \<open>l2_blocks.rs\<close> (the block hash, the check of the next block, the last
  block stored in the state) and \<open>refund.rs\<close> (the refund proposed for a transaction). Keccak is a parameter.
\<close>

section \<open>Block hashes\<close>

definition keccak256_concat :: "hash_fn \<Rightarrow> h256 \<Rightarrow> h256 \<Rightarrow> h256" where
  "keccak256_concat keccak hash1 hash2 = keccak (as_bytes hash1 @ as_bytes hash2)"

definition l2_block_hash :: "hash_fn \<Rightarrow> u32 \<Rightarrow> u64 \<Rightarrow> h256 \<Rightarrow> h256 \<Rightarrow> h256" where
  "l2_block_hash keccak block_number block_timestamp prev_hash txs_rolling_hash =
     keccak (be_bytes 32 (ucast block_number :: u256) @ be_bytes 32 (ucast block_timestamp :: u256) @
       as_bytes prev_hash @ as_bytes txs_rolling_hash)"

record l2_block_hasher =
  bh_number :: u32
  bh_timestamp :: u64
  bh_prev_l2_block_hash :: h256
  bh_txs_rolling_hash :: h256

definition legacy_hash :: "hash_fn \<Rightarrow> u32 \<Rightarrow> h256" where
  "legacy_hash keccak block_number = keccak (be_bytes 4 block_number)"

definition block_hasher_new :: "u32 \<Rightarrow> u64 \<Rightarrow> h256 \<Rightarrow> l2_block_hasher" where
  "block_hasher_new n ts prev = \<lparr>bh_number = n, bh_timestamp = ts, bh_prev_l2_block_hash = prev, bh_txs_rolling_hash = 0\<rparr>"

definition push_tx_hash :: "hash_fn \<Rightarrow> l2_block_hasher \<Rightarrow> h256 \<Rightarrow> l2_block_hasher" where
  "push_tx_hash keccak h tx_hash = h\<lparr>bh_txs_rolling_hash := keccak256_concat keccak (bh_txs_rolling_hash h) tx_hash\<rparr>"

definition block_hasher_finalize :: "hash_fn \<Rightarrow> l2_block_hasher \<Rightarrow> protocol_version \<Rightarrow> h256" where
  "block_hasher_finalize keccak h version =
     (if Version13 \<le> version
      then keccak (be_bytes 32 (ucast (bh_number h) :: u256) @ be_bytes 32 (ucast (bh_timestamp h) :: u256) @
        as_bytes (bh_prev_l2_block_hash h) @ as_bytes (bh_txs_rolling_hash h))
      else legacy_hash keccak (bh_number h))"

definition block_hasher_hash :: "hash_fn \<Rightarrow> u32 \<Rightarrow> u64 \<Rightarrow> h256 \<Rightarrow> h256 \<Rightarrow> protocol_version \<Rightarrow> h256" where
  "block_hasher_hash keccak n ts prev rolling version =
     block_hasher_finalize keccak
       \<lparr>bh_number = n, bh_timestamp = ts, bh_prev_l2_block_hash = prev, bh_txs_rolling_hash = rolling\<rparr> version"

section \<open>Packed block info\<close>

definition SYSTEM_BLOCK_INFO_BLOCK_NUMBER_MULTIPLIER :: u256 where
  "SYSTEM_BLOCK_INFO_BLOCK_NUMBER_MULTIPLIER = 2 ^ 128"

definition unpack_block_info :: "u256 \<Rightarrow> (u64 \<times> u64) res" where
  "unpack_block_info info =
     and_then (as_u64 (info div SYSTEM_BLOCK_INFO_BLOCK_NUMBER_MULTIPLIER)) (\<lambda>block_number.
     and_then (as_u64 (info mod SYSTEM_BLOCK_INFO_BLOCK_NUMBER_MULTIPLIER)) (\<lambda>block_timestamp.
       Inr (block_number, block_timestamp)))"

text \<open>Neither the product nor the sum of two 64-bit numbers overflows 256 bits here.\<close>

definition pack_block_info :: "u64 \<Rightarrow> u64 \<Rightarrow> u256" where
  "pack_block_info block_number block_timestamp =
     ucast block_number * SYSTEM_BLOCK_INFO_BLOCK_NUMBER_MULTIPLIER + ucast block_timestamp"

section \<open>Blocks in the state\<close>

definition SYSTEM_CONTEXT_ADDRESS :: address where "SYSTEM_CONTEXT_ADDRESS = 0x800b"
definition SYSTEM_CONTEXT_CURRENT_L2_BLOCK_INFO_POSITION :: h256 where "SYSTEM_CONTEXT_CURRENT_L2_BLOCK_INFO_POSITION = 9"
definition SYSTEM_CONTEXT_CURRENT_TX_ROLLING_HASH_POSITION :: h256 where "SYSTEM_CONTEXT_CURRENT_TX_ROLLING_HASH_POSITION = 10"
definition SYSTEM_CONTEXT_CURRENT_L2_BLOCK_HASHES_POSITION :: h256 where "SYSTEM_CONTEXT_CURRENT_L2_BLOCK_HASHES_POSITION = 11"
definition SYSTEM_CONTEXT_STORED_L2_BLOCK_HASHES :: u32 where "SYSTEM_CONTEXT_STORED_L2_BLOCK_HASHES = 257"

definition get_l2_block_hash_key :: "u32 \<Rightarrow> storage_key" where
  "get_l2_block_hash_key block_number =
     \<lparr>account = SYSTEM_CONTEXT_ADDRESS,
      slot = SYSTEM_CONTEXT_CURRENT_L2_BLOCK_HASHES_POSITION + ucast (block_number mod SYSTEM_CONTEXT_STORED_L2_BLOCK_HASHES)\<rparr>"

record l2_block =
  blk_number :: u32
  blk_timestamp :: u64
  blk_hash :: h256

text \<open>\<open>prev_block.number + 1\<close> is on \<open>u32\<close>, where it wraps in the release build.\<close>

definition assert_next_block :: "l2_block \<Rightarrow> l2_block_env \<Rightarrow> protocol_version \<Rightarrow> unit res" where
  "assert_next_block prev_block next_block version =
     ensure (if blk_number prev_block = 0 then blk_timestamp prev_block \<le> be_timestamp next_block
       else blk_number prev_block + 1 = be_number next_block \<and>
         (if is_pre_interop_fast_blocks version then blk_timestamp prev_block < be_timestamp next_block
          else blk_timestamp prev_block \<le> be_timestamp next_block)) (Panic NextBlockAssertion)
     (ensure (blk_hash prev_block = be_prev_block_hash next_block) (Panic NextBlockAssertion) (Inr ()))"

definition load_last_l2_block ::
  "hash_fn \<Rightarrow> ('s \<Rightarrow> storage_key \<Rightarrow> (h256 \<times> 's) res) \<Rightarrow> 's \<Rightarrow> (l2_block option \<times> 's) res" where
  "load_last_l2_block keccak read s =
     and_then (read s \<lparr>account = SYSTEM_CONTEXT_ADDRESS, slot = SYSTEM_CONTEXT_CURRENT_L2_BLOCK_INFO_POSITION\<rparr>) (\<lambda>(info, s1).
     and_then (unpack_block_info info) (\<lambda>(block_number64, block_timestamp).
       let block_number = (ucast block_number64 :: u32)
       in if block_number = 0 then Inr (None, s1)
          else and_then (read s1 (get_l2_block_hash_key (block_number - 1))) (\<lambda>(prev_block_hash, s2).
               and_then (read s2 \<lparr>account = SYSTEM_CONTEXT_ADDRESS, slot = SYSTEM_CONTEXT_CURRENT_TX_ROLLING_HASH_POSITION\<rparr>)
                 (\<lambda>(current_tx_rolling_hash, s3).
                   Inr (Some \<lparr>blk_number = block_number, blk_timestamp = block_timestamp,
                     blk_hash = l2_block_hash keccak block_number block_timestamp prev_block_hash current_tx_rolling_hash\<rparr>,
                     s3)))))"

section \<open>Refunds\<close>

definition batch_base_fee :: "l1_batch_env \<Rightarrow> u64" where
  "batch_base_fee env = (case enforced_base_fee env of
      Some base_fee \<Rightarrow> base_fee
    | None \<Rightarrow> fst (vm_latest_derive_base_fee (into_pubdata_independent (fee_input env))))"

text \<open>\<open>U256\<close> sums and differences panic on overflow, as its products do; division by zero panics.\<close>

definition u256_add :: "u256 \<Rightarrow> u256 \<Rightarrow> u256 res" where
  "u256_add a b = ensure (unat a + unat b < 2 ^ 256) (Panic ArithmeticOverflow) (Inr (a + b))"

definition ceil_div_u256 :: "u256 \<Rightarrow> u256 \<Rightarrow> u256 res" where
  "ceil_div_u256 a b =
     and_then (u256_add a b) (\<lambda>s.
       ensure (1 \<le> s) (Panic ArithmeticOverflow) (ensure (b \<noteq> 0) (Panic ArithmeticOverflow) (Inr ((s - 1) div b))))"

definition u64_checked_sub_or_zero :: "u64 \<Rightarrow> u64 \<Rightarrow> u64" where
  "u64_checked_sub_or_zero a b = (if b \<le> a then a - b else 0)"

definition u256_checked_sub_or_zero :: "u256 \<Rightarrow> u256 \<Rightarrow> u256" where
  "u256_checked_sub_or_zero a b = (if b \<le> a then a - b else 0)"

text \<open>A plain \<open>u64\<close> difference panics below zero in a build with overflow checks, and wraps in one without.\<close>

definition u64_sub :: "bool \<Rightarrow> u64 \<Rightarrow> u64 \<Rightarrow> u64 res" where
  "u64_sub overflow_checks a b = ensure (overflow_checks \<longrightarrow> b \<le> a) (Panic ArithmeticOverflow) (Inr (a - b))"

definition compute_refund :: "bool \<Rightarrow> l1_batch_env \<Rightarrow> u64 \<Rightarrow> u64 \<Rightarrow> u64 \<Rightarrow> u32 \<Rightarrow> u32 \<Rightarrow> u64 res" where
  "compute_refund overflow_checks env bootloader_refund gas_spent_on_pubdata tx_gas_limit ergs_per_pubdata_byte pubdata_published =
     and_then (u64_sub overflow_checks tx_gas_limit bootloader_refund) (\<lambda>total_gas_spent.
      let gas_spent_on_computation = u64_checked_sub_or_zero total_gas_spent gas_spent_on_pubdata;
          effective_gas_price = batch_base_fee env
      in and_then (u256_mul (ucast effective_gas_price) (ucast ergs_per_pubdata_byte)) (\<lambda>bootloader_eth_price.
         let eth_price = min bootloader_eth_price (ucast (fair_pubdata_price (fee_input env)))
         in and_then (u256_mul (ucast gas_spent_on_computation) (ucast (fair_l2_gas_price (fee_input env)))) (\<lambda>computation_eth.
            and_then (u256_mul (ucast pubdata_published) eth_price) (\<lambda>pubdata_eth.
            and_then (u256_add computation_eth pubdata_eth) (\<lambda>fair_fee_eth.
            and_then (u256_mul (ucast tx_gas_limit) (ucast effective_gas_price)) (\<lambda>pre_paid_eth.
              let refund_eth = u256_checked_sub_or_zero pre_paid_eth fair_fee_eth
              in and_then (ceil_div_u256 refund_eth (ucast effective_gas_price)) as_u64))))))"

section \<open>Facts\<close>

lemma unat_u64_u256 [simp]: "unat (ucast (a :: u64) :: u256) = unat a"
  by (simp add: unsigned_ucast_eq take_bit_nat_eq_self unsigned_less less_le_trans [OF unsigned_less])

lemma unat_ucast_u32 [simp]: "unat (ucast (a :: u32) :: u256) = unat a"
  by (simp add: unsigned_ucast_eq take_bit_nat_eq_self unsigned_less less_le_trans [OF unsigned_less])

lemma ucast_ucast_u64 [simp]: "ucast (ucast (a :: u64) :: u256) = a"
  by (simp add: unsigned_ucast_eq take_bit_word_eq_self)

lemma u64_bound: "unat (a :: u64) < 2 ^ 64" and u32_bound: "unat (b :: u32) < 2 ^ 32"
  using unsigned_less [of a, where 'a = nat] unsigned_less [of b, where 'a = nat] by simp_all

lemma mult_less_power: "(m :: nat) < 2 ^ i \<Longrightarrow> n < 2 ^ j \<Longrightarrow> m * n < 2 ^ (i + j)"
  unfolding power_add by (rule mult_strict_mono) simp_all

lemma u256_mul_small:
  assumes "unat a < 2 ^ i" "unat b < 2 ^ j" "i + j \<le> 256"
  shows "u256_mul a b = Inr (a * b)" "unat (a * b) = unat a * unat b" "unat (a * b) < 2 ^ (i + j)"
proof -
  have b: "unat a * unat b < 2 ^ (i + j)" by (rule mult_less_power [OF assms(1,2)])
  also have "(2 :: nat) ^ (i + j) \<le> 2 ^ 256" using assms(3) by (intro power_increasing) simp_all
  finally have "unat a * unat b < 2 ^ 256" .
  then have "u256_mul a b = Inr (a * b) \<and> unat (a * b) = unat a * unat b"
    using u256_mul_Inr [of a b "a * b"] by (simp add: u256_mul_def unat_word_ariths)
  with b show "u256_mul a b = Inr (a * b)" "unat (a * b) = unat a * unat b" "unat (a * b) < 2 ^ (i + j)" by simp_all
qed

lemma u256_add_small:
  assumes "unat a + unat b < 2 ^ 256"
  shows "u256_add a b = Inr (a + b)" "unat (a + b) = unat a + unat b"
  using assms by (simp_all add: u256_add_def unat_word_ariths)

lemma unat_min: "unat (min a b :: 'a::len word) = min (unat a) (unat b)"
  by (simp add: min_def word_le_nat_alt)

lemma unat_checked_sub_eq: "unat (u256_checked_sub_or_zero a b) = unat a - unat b"
  by (auto simp: u256_checked_sub_or_zero_def unat_sub word_le_nat_alt)

text \<open>Rounding up a quotient of at most \<open>limit * price\<close> by \<open>price\<close> gives at most \<open>limit\<close>.\<close>

lemma ceil_div_bound:
  assumes "unat a \<le> n * unat b" "unat b \<noteq> 0" "n < 2 ^ 64" "unat b < 2 ^ 64"
  shows "\<exists>q. ceil_div_u256 a b = Inr q \<and> unat q = (unat a + unat b - 1) div unat b \<and> unat q \<le> n"
proof -
  have "n * unat b < 2 ^ (64 + 64)" by (rule mult_less_power [OF assms(3,4)])
  then have s: "unat a + unat b < 2 ^ 256" using assms(1,4) by simp
  note add = u256_add_small [OF s]
  have one: "1 \<le> a + b" using add(2) assms(2) by (simp add: word_le_nat_alt)
  then have sub: "unat (a + b - 1) = unat a + unat b - 1" using add(2) by (simp add: unat_sub)
  have "unat a + unat b - 1 < (n + 1) * unat b" using assms(1,2) by (simp add: algebra_simps)
  then have "(unat a + unat b - 1) div unat b < n + 1" by (rule div_less_iff_less_mult [THEN iffD2, rotated]) (use assms(2) in simp)
  moreover have "unat ((a + b - 1) div b) = (unat a + unat b - 1) div unat b" by (simp add: unat_div sub)
  moreover have "b \<noteq> 0" using assms(2) by (auto simp: unat_eq_zero)
  ultimately show ?thesis using add(1) one by (simp add: ceil_div_u256_def)
qed

text \<open>
  The refund over the natural numbers, where a difference stops at zero: the part of the prepaid fee above the fair fee, in
  gas at the base fee and rounded up. The gas spent is the only difference that wraps.
\<close>

definition spent_gas :: "u64 \<Rightarrow> u64 \<Rightarrow> nat" where
  "spent_gas tx_gas_limit bootloader_refund =
     (if unat bootloader_refund \<le> unat tx_gas_limit then unat tx_gas_limit - unat bootloader_refund
      else 2 ^ 64 + unat tx_gas_limit - unat bootloader_refund)"

definition refund_spec :: "l1_batch_env \<Rightarrow> u64 \<Rightarrow> u64 \<Rightarrow> u64 \<Rightarrow> u32 \<Rightarrow> u32 \<Rightarrow> nat" where
  "refund_spec env bootloader_refund gas_spent_on_pubdata tx_gas_limit ergs_per_pubdata_byte pubdata_published =
     (let price = unat (batch_base_fee env);
          computation = spent_gas tx_gas_limit bootloader_refund - unat gas_spent_on_pubdata;
          pubdata_price = min (price * unat ergs_per_pubdata_byte) (unat (fair_pubdata_price (fee_input env)));
          fair_fee = computation * unat (fair_l2_gas_price (fee_input env)) + unat pubdata_published * pubdata_price
      in (unat tx_gas_limit * price - fair_fee + price - 1) div price)"

lemma unat_u64_diff: "unat (a - b :: u64) = spent_gas a b"
proof (cases "b \<le> a")
  case True
  then show ?thesis by (simp add: spent_gas_def unat_sub word_le_nat_alt)
next
  case False
  then show ?thesis using u64_bound [of a] u64_bound [of b] by (simp add: spent_gas_def unat_sub_if' word_le_nat_alt)
qed


lemma pack_unpack_block_info: "unpack_block_info (pack_block_info n ts) = Inr (n, ts)"
proof -
  have n: "unat n * 2 ^ 128 + unat ts < 2 ^ 256" and ts: "unat ts < 2 ^ 128"
    using u64_bound [of n] u64_bound [of ts] by simp_all
  then have p: "unat (pack_block_info n ts) = unat n * 2 ^ 128 + unat ts"
    by (simp add: pack_block_info_def SYSTEM_BLOCK_INFO_BLOCK_NUMBER_MULTIPLIER_def unat_word_ariths)
  have m: "unat SYSTEM_BLOCK_INFO_BLOCK_NUMBER_MULTIPLIER = 2 ^ 128"
    by (simp add: SYSTEM_BLOCK_INFO_BLOCK_NUMBER_MULTIPLIER_def)
  let ?d = "pack_block_info n ts div SYSTEM_BLOCK_INFO_BLOCK_NUMBER_MULTIPLIER"
  let ?r = "pack_block_info n ts mod SYSTEM_BLOCK_INFO_BLOCK_NUMBER_MULTIPLIER"
  have "unat ?d = unat (ucast n :: u256)" "unat ?r = unat (ucast ts :: u256)"
    using ts by (simp_all add: unat_div unat_mod p m)
  then have "?d = ucast n" "?r = ucast ts" by (simp_all add: word_unat_eq_iff)
  then show ?thesis using u64_bound [of n] u64_bound [of ts] by (simp add: unpack_block_info_def as_u64_def)
qed

text \<open>
  The last block read back from the state: when the system context holds the packed number and timestamp of a
  block, the hash of its predecessor in the ring of block hashes and the rolling hash of its transactions, the loaded
  block has these values and the hash the block hasher gives them; block number zero means that there is none.
\<close>

theorem load_last_l2_block_roundtrip:
  assumes "\<And>s k. read s k = Inr (contents k, s)"
    and "contents \<lparr>account = SYSTEM_CONTEXT_ADDRESS, slot = SYSTEM_CONTEXT_CURRENT_L2_BLOCK_INFO_POSITION\<rparr> =
      pack_block_info (ucast (bh_number h)) (bh_timestamp h)"
    and "contents (get_l2_block_hash_key (bh_number h - 1)) = bh_prev_l2_block_hash h"
    and "contents \<lparr>account = SYSTEM_CONTEXT_ADDRESS, slot = SYSTEM_CONTEXT_CURRENT_TX_ROLLING_HASH_POSITION\<rparr> =
      bh_txs_rolling_hash h"
    and "Version13 \<le> version"
  shows "load_last_l2_block keccak read s = Inr
    (if bh_number h = 0 then None
     else Some \<lparr>blk_number = bh_number h, blk_timestamp = bh_timestamp h, blk_hash = block_hasher_finalize keccak h version\<rparr>, s)"
proof -
  have "ucast (ucast (bh_number h) :: u64) = bh_number h"
    by (simp add: unsigned_ucast_eq take_bit_word_eq_self)
  then show ?thesis
    using assms by (simp add: load_last_l2_block_def pack_unpack_block_info Let_def l2_block_hash_def block_hasher_finalize_def)
qed

definition sample_hasher :: l2_block_hasher where
  "sample_hasher = \<lparr>bh_number = 260, bh_timestamp = 77, bh_prev_l2_block_hash = 5, bh_txs_rolling_hash = 6\<rparr>"

definition sample_contents :: "storage_key \<Rightarrow> h256" where
  "sample_contents k = (if slot k = 9 then pack_block_info 260 77 else if slot k = 13 then 5 else if slot k = 10 then 6 else 0)"

theorem load_last_l2_block_roundtrip_witness:
  "load_last_l2_block (\<lambda>_. 1) (\<lambda>s k. Inr (sample_contents k, s)) () =
     Inr (Some \<lparr>blk_number = 260, blk_timestamp = 77, blk_hash = 1\<rparr>, ())"
proof -
  have "load_last_l2_block (\<lambda>_. 1) (\<lambda>s k. Inr (sample_contents k, s)) () = Inr
    (if bh_number sample_hasher = 0 then None
     else Some \<lparr>blk_number = bh_number sample_hasher, blk_timestamp = bh_timestamp sample_hasher,
       blk_hash = block_hasher_finalize (\<lambda>_. 1) sample_hasher Version28\<rparr>, ())"
    by (rule load_last_l2_block_roundtrip [of _ sample_contents])
      (simp_all add: sample_contents_def sample_hasher_def SYSTEM_CONTEXT_CURRENT_L2_BLOCK_INFO_POSITION_def
        SYSTEM_CONTEXT_CURRENT_TX_ROLLING_HASH_POSITION_def get_l2_block_hash_key_def
        SYSTEM_CONTEXT_CURRENT_L2_BLOCK_HASHES_POSITION_def SYSTEM_CONTEXT_STORED_L2_BLOCK_HASHES_def less_eq_protocol_version_def)
  then show ?thesis by (simp add: sample_hasher_def block_hasher_finalize_def less_eq_protocol_version_def)
qed

end
