(* ===== verification/Bootloader.thy ===== *)
theory Bootloader
  imports Transactions L2_Blocks Pubdata_Builder
begin

text \<open>
  The bootloader state: \<open>src/crates/multivm/src/versions/vm_latest/bootloader/\<close> (\<open>state.rs\<close>, \<open>l2_block.rs\<close>, \<open>tx.rs\<close>, \<open>snapshot.rs\<close>,
  \<open>init.rs\<close>, \<open>utils.rs\<close>) and the hooks of \<open>src/crates/multivm/src/versions/vm_fast/vm.rs\<close> that write to the bootloader heap.
  It decides which slots of the bootloader memory hold which transaction, block and interop root, and can rebuild the
  whole memory. Slots and counts are \<open>usize\<close>, modelled as \<open>nat\<close>; \<open>ext\<close> bundles the code outside the repository's reach.
\<close>

type_synonym bootloader_memory = "(nat \<times> u256) list"

record externals =
  ext_keccak :: hash_fn
  ext_sha256 :: hash_fn
  ext_abi :: abi
  ext_l2_tx_hashes :: "transaction_data \<Rightarrow> u64 \<Rightarrow> (h256 \<times> h256) res"

section \<open>Transactions and blocks\<close>

record ec_recover_call =
  ec_input :: "u8 list"
  ec_output :: address

record bootloader_tx =
  bt_hash :: h256
  bt_encoded :: "u256 list"
  bt_compressed_bytecodes :: "compressed_bytecode_info list"
  bt_refund :: u64
  bt_gas_overhead :: u32
  bt_trusted_gas_limit :: u256
  bt_offset :: nat

definition expected_ecrecover_call :: "transaction_data \<Rightarrow> h256 option \<Rightarrow> ec_recover_call option" where
  "expected_ecrecover_call td signed_hash = (case signed_hash of
      None \<Rightarrow> None
    | Some h \<Rightarrow> (case parse_signature td of
        None \<Rightarrow> None
      | Some (v, r_and_s) \<Rightarrow>
          Some \<lparr>ec_input = as_bytes h @ replicate 31 0 @ [if v then 1 else 0] @ r_and_s, ec_output = td_from td\<rparr>))"

definition bootloader_tx_new ::
  "externals \<Rightarrow> transaction_data \<Rightarrow> u64 \<Rightarrow> u32 \<Rightarrow> u256 \<Rightarrow> compressed_bytecode_info list \<Rightarrow> nat \<Rightarrow> u64 \<Rightarrow>
   (bootloader_tx \<times> ec_recover_call option) res" where
  "bootloader_tx_new ext td predefined_refund predefined_overhead trusted_gas_limit compressed offset chain_id =
     and_then (signed_and_tx_hashes (ext_keccak ext) (ext_abi ext) (ext_l2_tx_hashes ext) td chain_id) (\<lambda>(signed_hash, h).
     and_then (into_tokens (ext_abi ext) td) (\<lambda>encoded.
       Inr (\<lparr>bt_hash = h, bt_encoded = encoded, bt_compressed_bytecodes = compressed, bt_refund = predefined_refund,
             bt_gas_overhead = predefined_overhead, bt_trusted_gas_limit = trusted_gas_limit, bt_offset = offset\<rparr>,
            expected_ecrecover_call td signed_hash)))"

definition encoded_len :: "bootloader_tx \<Rightarrow> nat" where
  "encoded_len tx = length (bt_encoded tx)"

record bootloader_l2_block =
  bb_number :: u32
  bb_timestamp :: u64
  bb_txs_rolling_hash :: h256
  bb_prev_block_hash :: h256
  bb_first_tx_index :: nat
  bb_max_virtual_blocks_to_create :: u32
  bb_txs :: "bootloader_tx list"
  bb_interop_roots :: "interop_root list"

record l2_block_snapshot =
  ls_txs_rolling_hash :: h256
  ls_txs_len :: nat

definition block_new :: "l2_block_env \<Rightarrow> nat \<Rightarrow> bootloader_l2_block" where
  "block_new env first_tx_place = \<lparr>bb_number = be_number env, bb_timestamp = be_timestamp env, bb_txs_rolling_hash = 0,
     bb_prev_block_hash = be_prev_block_hash env, bb_first_tx_index = first_tx_place,
     bb_max_virtual_blocks_to_create = be_max_virtual_blocks_to_create env, bb_txs = [],
     bb_interop_roots = be_interop_roots env\<rparr>"

definition update_rolling_hash :: "hash_fn \<Rightarrow> bootloader_l2_block \<Rightarrow> h256 \<Rightarrow> bootloader_l2_block" where
  "update_rolling_hash keccak b h = b\<lparr>bb_txs_rolling_hash := keccak256_concat keccak (bb_txs_rolling_hash b) h\<rparr>"

definition block_push_tx :: "hash_fn \<Rightarrow> bootloader_l2_block \<Rightarrow> bootloader_tx \<Rightarrow> bootloader_l2_block" where
  "block_push_tx keccak b tx = (update_rolling_hash keccak b (bt_hash tx))\<lparr>bb_txs := bb_txs b @ [tx]\<rparr>"

definition block_get_hash :: "hash_fn \<Rightarrow> bootloader_l2_block \<Rightarrow> h256" where
  "block_get_hash keccak b =
     l2_block_hash keccak (bb_number b) (bb_timestamp b) (bb_prev_block_hash b) (bb_txs_rolling_hash b)"

definition block_make_snapshot :: "bootloader_l2_block \<Rightarrow> l2_block_snapshot" where
  "block_make_snapshot b = \<lparr>ls_txs_rolling_hash = bb_txs_rolling_hash b, ls_txs_len = length (bb_txs b)\<rparr>"

definition block_apply_snapshot :: "bootloader_l2_block \<Rightarrow> l2_block_snapshot \<Rightarrow> bootloader_l2_block res" where
  "block_apply_snapshot b snap =
     ensure (ls_txs_len snap \<le> length (bb_txs b)) (Panic SnapshotFromFuture)
       (Inr (b\<lparr>bb_txs_rolling_hash := ls_txs_rolling_hash snap, bb_txs := take (ls_txs_len snap) (bb_txs b)\<rparr>))"

definition block_l2_block :: "hash_fn \<Rightarrow> bootloader_l2_block \<Rightarrow> l2_block" where
  "block_l2_block keccak b =
     \<lparr>blk_number = bb_number b, blk_timestamp = bb_timestamp b, blk_hash = block_get_hash keccak b\<rparr>"

section \<open>Memory writes\<close>

record new_block_config =
  nb_number_of_applied_interop_roots :: nat
  nb_block_index_in_batch :: nat

record l2_block_application_config =
  ac_tx_index :: nat
  ac_subversion :: multi_vm_subversion
  ac_new_block_config :: "new_block_config option"

definition should_start_new_l2_block :: "l2_block_application_config \<Rightarrow> bool" where
  "should_start_new_l2_block config \<longleftrightarrow> ac_new_block_config config \<noteq> None"

definition get_memory_for_compressed_bytecodes :: "externals \<Rightarrow> compressed_bytecode_info list \<Rightarrow> u256 list res" where
  "get_memory_for_compressed_bytecodes ext compressed =
     and_then (collect_res (map (encode_call (ext_sha256 ext) (ext_abi ext)) compressed)) (\<lambda>parts.
       bytes_to_be_words (concat parts))"

definition assemble_tx_meta :: "tx_execution_mode \<Rightarrow> bool \<Rightarrow> u256" where
  "assemble_tx_meta mode execute_tx = from_be_bytes
     ([case mode of VerifyExecute \<Rightarrow> 0 | EstimateFee \<Rightarrow> 0 | EthCall \<Rightarrow> 2] @ replicate 30 0 @ [if execute_tx then 1 else 0])"

text \<open>\<open>(start..).zip(words)\<close>\<close>

definition words_at :: "nat \<Rightarrow> u256 list \<Rightarrow> bootloader_memory" where
  "words_at start ws = zip [start..<start + length ws] ws"

definition apply_interop_root ::
  "bootloader_memory \<Rightarrow> nat \<Rightarrow> interop_root \<Rightarrow> multi_vm_subversion \<Rightarrow> u32 \<Rightarrow> bootloader_memory" where
  "apply_interop_root memory interop_root_offset root sv l2_block_number =
     memory @ words_at (get_interop_root_offset sv + interop_root_offset * INTEROP_ROOT_SLOTS_SIZE)
       ([ucast l2_block_number, ucast (ir_chain_id root), ucast (ir_block_number root), word_of_nat (length (ir_sides root))]
        @ map (\<lambda>h. from_be_bytes (as_bytes h)) (ir_sides root))"

definition apply_interop_root_number_in_block_number ::
  "bootloader_memory \<Rightarrow> multi_vm_subversion \<Rightarrow> nat \<Rightarrow> nat \<Rightarrow> bootloader_memory" where
  "apply_interop_root_number_in_block_number memory sv number_of_interop_roots block_index_in_batch =
     memory @ [(get_interop_blocks_begin_offset sv + block_index_in_batch, word_of_nat (number_of_interop_roots + 1))]"

definition block_info_words :: "bootloader_l2_block \<Rightarrow> bool \<Rightarrow> u256 list" where
  "block_info_words b start = [ucast (bb_number b), ucast (bb_timestamp b), from_be_bytes (as_bytes (bb_prev_block_hash b)),
     if start then ucast (bb_max_virtual_blocks_to_create b) else 0]"

text \<open>Returns the memory and the number of applied interop roots.\<close>

definition apply_l2_block_inner ::
  "bootloader_memory \<Rightarrow> bootloader_l2_block \<Rightarrow> l2_block_application_config \<Rightarrow> bootloader_memory \<times> nat" where
  "apply_l2_block_inner memory b config =
     (let sv = ac_subversion config;
          block_position = get_tx_operator_l2_block_info_offset sv + ac_tx_index config * TX_OPERATOR_SLOTS_PER_L2_BLOCK_INFO;
          memory = memory @ words_at block_position (block_info_words b (should_start_new_l2_block config))
      in case ac_new_block_config config of
           None \<Rightarrow> (memory, 0)
         | Some nb \<Rightarrow>
             if sv \<noteq> Interop \<and> sv \<noteq> MediumInterop then (memory, 0)
             else let memory = foldl (\<lambda>m (offset, root). apply_interop_root m (nb_number_of_applied_interop_roots nb + offset)
                        root sv (bb_number b)) memory (enumerate 0 (bb_interop_roots b))
                  in (apply_interop_root_number_in_block_number memory sv (length (bb_interop_roots b))
                        (nb_block_index_in_batch nb), length (bb_interop_roots b)))"

definition apply_l2_block ::
  "bootloader_memory \<Rightarrow> bootloader_l2_block \<Rightarrow> nat \<Rightarrow> multi_vm_subversion \<Rightarrow> new_block_config option \<Rightarrow>
   bootloader_memory \<times> nat" where
  "apply_l2_block memory b tx_index sv nb =
     apply_l2_block_inner memory b \<lparr>ac_tx_index = tx_index, ac_subversion = sv, ac_new_block_config = nb\<rparr>"

text \<open>Returns the memory, the words of the compressed bytecodes and the number of applied interop roots.\<close>

definition tx_slots :: "bootloader_tx \<Rightarrow> nat \<Rightarrow> tx_execution_mode \<Rightarrow> l2_block_application_config \<Rightarrow> bootloader_memory" where
  "tx_slots tx tx_offset mode config =
     (let sv = ac_subversion config;
          bootloader_description_offset =
            get_bootloader_tx_description_offset sv + BOOTLOADER_TX_DESCRIPTION_SIZE * ac_tx_index config;
          tx_description_offset = get_tx_description_offset sv + tx_offset
      in [(bootloader_description_offset, assemble_tx_meta mode True),
          (bootloader_description_offset + 1, word_of_nat (32 * tx_description_offset)),
          (get_operator_refunds_offset sv + ac_tx_index config, ucast (bt_refund tx)),
          (get_tx_overhead_offset sv + ac_tx_index config, ucast (bt_gas_overhead tx)),
          (get_tx_trusted_gas_limit_offset sv + ac_tx_index config, bt_trusted_gas_limit tx)]
         @ words_at tx_description_offset (bt_encoded tx))"

definition apply_tx_to_memory ::
  "externals \<Rightarrow> bootloader_memory \<Rightarrow> bootloader_tx \<Rightarrow> bootloader_l2_block \<Rightarrow> nat \<Rightarrow> nat \<Rightarrow> tx_execution_mode \<Rightarrow>
   l2_block_application_config \<Rightarrow> (bootloader_memory \<times> nat \<times> nat) res" where
  "apply_tx_to_memory ext memory tx b tx_offset compressed_bytecodes_size mode config =
     (let memory = memory @ tx_slots tx tx_offset mode config;
          compressed_bytecodes_offset = get_compressed_bytecodes_offset (ac_subversion config) + 1 + compressed_bytecodes_size;
          (memory, applied_interop_roots) = apply_l2_block_inner memory b config
      in and_then (get_memory_for_compressed_bytecodes ext (bt_compressed_bytecodes tx)) (\<lambda>encoded.
           Inr (memory @ words_at compressed_bytecodes_offset encoded, length encoded, applied_interop_roots)))"

definition bootloader_memory_input ::
  "externals \<Rightarrow> pubdata_builder \<Rightarrow> pubdata_input \<Rightarrow> protocol_version \<Rightarrow> u8 list res" where
  "bootloader_memory_input ext builder input version =
     and_then (l1_messenger_operator_input (ext_keccak ext) (ext_sha256 ext) (ext_abi ext) builder input version) (\<lambda>operator_input.
       if is_pre_medium_interop version
       then and_then (ok_or (Panic ValidatorShape) (l2_da_validator (builder_validator builder))) (\<lambda>validator.
              Inr (abi_encode (ext_abi ext) [TokenAddress validator, TokenBytes operator_input]))
       else and_then (ok_or (Panic ValidatorShape) (l2_da_commitment_scheme_of (builder_validator builder))) (\<lambda>scheme.
              Inr (abi_encode (ext_abi ext) [TokenUint (word_of_nat (scheme_tag scheme)), TokenBytes operator_input])))"

text \<open>
  The start slot and the encoded pubdata. \<open>encode(..)[32..]\<close> panics on an encoding shorter than a word.
\<close>

definition pubdata_for_memory ::
  "externals \<Rightarrow> pubdata_builder \<Rightarrow> pubdata_input \<Rightarrow> protocol_version \<Rightarrow> multi_vm_subversion \<Rightarrow> (nat \<times> u8 list) res" where
  "pubdata_for_memory ext builder input version sv =
     (if sv = SmallBootloaderMemory \<or> sv = IncreasedBootloaderMemory
      then and_then (l1_messenger_operator_input (ext_keccak ext) (ext_sha256 ext) (ext_abi ext) builder input version) (\<lambda>operator_input.
        let enc = abi_encode (ext_abi ext) [TokenBytes operator_input]
        in ensure (32 \<le> length enc) (Panic IndexOutOfBounds)
          (ensure (length (drop 32 enc) div 32 \<le> OPERATOR_PROVIDED_L1_MESSENGER_PUBDATA_SLOTS - 2) (Panic PubdataTooBig)
            (Inr (get_operator_provided_l1_messenger_pubdata_offset sv + 2, drop 32 enc))))
      else and_then (bootloader_memory_input ext builder input version) (\<lambda>pubdata.
        ensure (length pubdata div 32 < OPERATOR_PROVIDED_L1_MESSENGER_PUBDATA_SLOTS) (Panic PubdataTooBig)
          (Inr (get_operator_provided_l1_messenger_pubdata_offset sv + 1, pubdata))))"

definition apply_pubdata_to_memory ::
  "externals \<Rightarrow> bootloader_memory \<Rightarrow> pubdata_builder \<Rightarrow> pubdata_input \<Rightarrow> protocol_version \<Rightarrow> multi_vm_subversion \<Rightarrow>
   bootloader_memory res" where
  "apply_pubdata_to_memory ext memory builder input version sv =
     and_then (pubdata_for_memory ext builder input version sv) (\<lambda>(start_slot, pubdata).
       Inr (memory @ words_at start_slot (map from_be_bytes (chunks 32 pubdata))))"

section \<open>Initial memory\<close>

definition OPERATOR_ADDRESS_SLOT :: nat where "OPERATOR_ADDRESS_SLOT = 0"
definition PREV_BLOCK_HASH_SLOT :: nat where "PREV_BLOCK_HASH_SLOT = 1"
definition NEW_BLOCK_TIMESTAMP_SLOT :: nat where "NEW_BLOCK_TIMESTAMP_SLOT = 2"
definition NEW_BLOCK_NUMBER_SLOT :: nat where "NEW_BLOCK_NUMBER_SLOT = 3"
definition FAIR_PUBDATA_PRICE_SLOT :: nat where "FAIR_PUBDATA_PRICE_SLOT = 4"
definition FAIR_L2_GAS_PRICE_SLOT :: nat where "FAIR_L2_GAS_PRICE_SLOT = 5"
definition EXPECTED_BASE_FEE_SLOT :: nat where "EXPECTED_BASE_FEE_SLOT = 6"
definition SHOULD_SET_NEW_BLOCK_SLOT :: nat where "SHOULD_SET_NEW_BLOCK_SLOT = 7"

definition initial_memory :: "multi_vm_subversion \<Rightarrow> l1_batch_env \<Rightarrow> bootloader_memory" where
  "initial_memory sv env =
     (let (prev_block_hash, should_set_new_block) = (case previous_batch_hash env of
            Some h \<Rightarrow> (from_be_bytes (as_bytes h), 1) | None \<Rightarrow> (0, 0))
      in [(OPERATOR_ADDRESS_SLOT, address_to_u256 (fee_account env)),
          (PREV_BLOCK_HASH_SLOT, prev_block_hash),
          (NEW_BLOCK_TIMESTAMP_SLOT, ucast (batch_env_timestamp env)),
          (NEW_BLOCK_NUMBER_SLOT, ucast (batch_env_number env)),
          (FAIR_PUBDATA_PRICE_SLOT, ucast (fair_pubdata_price (fee_input env))),
          (FAIR_L2_GAS_PRICE_SLOT, ucast (fair_l2_gas_price (fee_input env))),
          (EXPECTED_BASE_FEE_SLOT, ucast (batch_base_fee env)),
          (SHOULD_SET_NEW_BLOCK_SLOT, should_set_new_block)]
         @ (if sv = MediumInterop
            then [(get_settlement_layer_offset sv, ucast (settlement_chain_id (settlement_layer env))),
                  (get_interop_fee_offset sv, interop_fee env)]
            else []))"

section \<open>The state\<close>

record bootloader_state =
  bs_tx_to_execute :: nat
  bs_l2_blocks :: "bootloader_l2_block list"
  bs_compressed_bytecodes_encoding :: nat
  bs_initial_memory :: bootloader_memory
  bs_execution_mode :: tx_execution_mode
  bs_free_tx_offset :: nat
  bs_pubdata_information :: "pubdata_input option"
  bs_number_of_applied_interop_roots :: nat
  bs_protocol_version :: protocol_version
  bs_subversion :: multi_vm_subversion

record bootloader_state_snapshot =
  ss_tx_to_execute :: nat
  ss_l2_blocks_len :: nat
  ss_last_l2_block :: l2_block_snapshot
  ss_compressed_bytecodes_encoding :: nat
  ss_free_tx_offset :: nat
  ss_is_pubdata_information_provided :: bool
  ss_number_of_applied_interop_roots :: nat

definition bootloader_state_new ::
  "tx_execution_mode \<Rightarrow> bootloader_memory \<Rightarrow> l2_block_env \<Rightarrow> protocol_version \<Rightarrow> bootloader_state res" where
  "bootloader_state_new mode memory first_block version =
     and_then (ok_or (Panic UnsupportedVersion) (multi_vm_subversion_try_from (vm_version_from version))) (\<lambda>sv.
       Inr \<lparr>bs_tx_to_execute = 0, bs_l2_blocks = [block_new first_block 0], bs_compressed_bytecodes_encoding = 0,
         bs_initial_memory = memory, bs_execution_mode = mode, bs_free_tx_offset = 0, bs_pubdata_information = None,
         bs_number_of_applied_interop_roots = 0, bs_protocol_version = version, bs_subversion = sv\<rparr>)"

definition last_l2_block :: "bootloader_state \<Rightarrow> bootloader_l2_block res" where
  "last_l2_block s = ensure (bs_l2_blocks s \<noteq> []) (Panic IndexOutOfBounds) (Inr (last (bs_l2_blocks s)))"

text \<open>Updating the block behind \<open>last_mut_l2_block\<close>.\<close>

definition map_last_block ::
  "(bootloader_l2_block \<Rightarrow> bootloader_l2_block res) \<Rightarrow> bootloader_state \<Rightarrow> bootloader_state res" where
  "map_last_block f s = and_then (last_l2_block s) (\<lambda>b. and_then (f b) (\<lambda>b'.
     Inr (s\<lparr>bs_l2_blocks := butlast (bs_l2_blocks s) @ [b']\<rparr>)))"

definition free_tx_index :: "bootloader_state \<Rightarrow> nat res" where
  "free_tx_index s = and_then (last_l2_block s) (\<lambda>b. Inr (bb_first_tx_index b + length (bb_txs b)))"

definition current_tx :: "bootloader_state \<Rightarrow> nat res" where
  "current_tx s = ensure (0 < bs_tx_to_execute s) (Panic NoCurrentTx) (Inr (bs_tx_to_execute s - 1))"

text \<open>\<open>find_tx\<close> and \<open>find_tx_mut\<close> scan the blocks from the last one; the lists below are in that order.\<close>

fun find_tx_in :: "nat \<Rightarrow> bootloader_l2_block list \<Rightarrow> bootloader_tx res" where
  "find_tx_in i [] = Inl (Panic UnknownTx)"
| "find_tx_in i (b # bs) =
     (if bb_first_tx_index b \<le> i
      then ensure (i - bb_first_tx_index b < length (bb_txs b)) (Panic IndexOutOfBounds) (Inr (bb_txs b ! (i - bb_first_tx_index b)))
      else find_tx_in i bs)"

definition find_tx :: "bootloader_state \<Rightarrow> nat \<Rightarrow> bootloader_tx res" where
  "find_tx s i = find_tx_in i (rev (bs_l2_blocks s))"

fun update_tx_in :: "(bootloader_tx \<Rightarrow> bootloader_tx) \<Rightarrow> nat \<Rightarrow> bootloader_l2_block list \<Rightarrow> bootloader_l2_block list res" where
  "update_tx_in f i [] = Inl (Panic UnknownTx)"
| "update_tx_in f i (b # bs) =
     (let p = i - bb_first_tx_index b
      in if bb_first_tx_index b \<le> i
         then ensure (p < length (bb_txs b)) (Panic IndexOutOfBounds) (Inr (b\<lparr>bb_txs := (bb_txs b)[p := f (bb_txs b ! p)]\<rparr> # bs))
         else map_res (\<lambda>bs'. b # bs') (update_tx_in f i bs))"

definition find_tx_mut :: "(bootloader_tx \<Rightarrow> bootloader_tx) \<Rightarrow> bootloader_state \<Rightarrow> nat \<Rightarrow> bootloader_state res" where
  "find_tx_mut f s i = map_res (\<lambda>bs. s\<lparr>bs_l2_blocks := rev bs\<rparr>) (update_tx_in f i (rev (bs_l2_blocks s)))"

definition set_refund_for_current_tx :: "bootloader_state \<Rightarrow> u64 \<Rightarrow> bootloader_state res" where
  "set_refund_for_current_tx s r = and_then (current_tx s) (\<lambda>i. find_tx_mut (\<lambda>tx. tx\<lparr>bt_refund := r\<rparr>) s i)"

definition set_pubdata_input :: "bootloader_state \<Rightarrow> pubdata_input \<Rightarrow> bootloader_state res" where
  "set_pubdata_input s info =
     ensure (bs_pubdata_information s = None) (Panic PubdataAlreadySet) (Inr (s\<lparr>bs_pubdata_information := Some info\<rparr>))"

definition push_l2_block :: "bootloader_state \<Rightarrow> l2_block_env \<Rightarrow> bootloader_state res" where
  "push_l2_block s env = and_then (free_tx_index s) (\<lambda>i. Inr (s\<lparr>bs_l2_blocks := bs_l2_blocks s @ [block_new env i]\<rparr>))"

definition start_new_l2_block :: "hash_fn \<Rightarrow> bootloader_state \<Rightarrow> l2_block_env \<Rightarrow> bootloader_state res" where
  "start_new_l2_block keccak s env =
     and_then (last_l2_block s) (\<lambda>last_block.
     ensure (bb_txs last_block \<noteq> []) (Panic EmptyBlock)
       (and_then (assert_next_block (block_l2_block keccak last_block) env (bs_protocol_version s)) (\<lambda>_. push_l2_block s env)))"

definition get_block_index_in_batch :: "bootloader_state \<Rightarrow> nat res" where
  "get_block_index_in_batch s =
     ensure (1 \<le> length (bs_l2_blocks s)) (Panic IndexOutOfBounds) (Inr (length (bs_l2_blocks s) - 1))"

definition get_new_block_config :: "bootloader_state \<Rightarrow> new_block_config res" where
  "get_new_block_config s = and_then (get_block_index_in_batch s) (\<lambda>i.
     Inr \<lparr>nb_number_of_applied_interop_roots = bs_number_of_applied_interop_roots s, nb_block_index_in_batch = i\<rparr>)"

definition push_tx ::
  "externals \<Rightarrow> bootloader_state \<Rightarrow> transaction_data \<Rightarrow> u32 \<Rightarrow> u64 \<Rightarrow> compressed_bytecode_info list \<Rightarrow> u256 \<Rightarrow> u64 \<Rightarrow>
   (bootloader_state \<times> bootloader_memory \<times> ec_recover_call option) res" where
  "push_tx ext s td predefined_overhead predefined_refund compressed trusted_limit chain_id =
     (let tx_offset = bs_free_tx_offset s in
      and_then (bootloader_tx_new ext td predefined_refund predefined_overhead trusted_limit compressed tx_offset chain_id)
        (\<lambda>(tx, ecrecover_call).
      and_then (last_l2_block s) (\<lambda>last_block.
      and_then (if bb_txs last_block = [] then map_res Some (get_new_block_config s) else Inr None) (\<lambda>nb.
      and_then (free_tx_index s) (\<lambda>tx_index.
      and_then (apply_tx_to_memory ext [] tx last_block (bs_free_tx_offset s) (bs_compressed_bytecodes_encoding s)
          (bs_execution_mode s) \<lparr>ac_tx_index = tx_index, ac_subversion = bs_subversion s, ac_new_block_config = nb\<rparr>)
        (\<lambda>(memory, compressed_bytecode_size, applied_interop_roots).
      map_res (\<lambda>s'. (s', memory, ecrecover_call))
        (map_last_block (\<lambda>b. Inr (block_push_tx (ext_keccak ext) b tx))
          (s\<lparr>bs_compressed_bytecodes_encoding := bs_compressed_bytecodes_encoding s + compressed_bytecode_size,
             bs_free_tx_offset := tx_offset + encoded_len tx,
             bs_number_of_applied_interop_roots := bs_number_of_applied_interop_roots s + applied_interop_roots\<rparr>))))))))"

definition get_pubdata_information :: "bootloader_state \<Rightarrow> pubdata_input res" where
  "get_pubdata_information s = ok_or (Panic PubdataNotSet) (bs_pubdata_information s)"

definition state_settlement_layer_pubdata :: "externals \<Rightarrow> bootloader_state \<Rightarrow> pubdata_builder \<Rightarrow> u8 list res" where
  "state_settlement_layer_pubdata ext s builder = and_then (get_pubdata_information s) (\<lambda>info.
     settlement_layer_pubdata (ext_keccak ext) builder info (bs_protocol_version s))"

definition get_last_tx_compressed_bytecodes :: "bootloader_state \<Rightarrow> compressed_bytecode_info list res" where
  "get_last_tx_compressed_bytecodes s = and_then (last_l2_block s) (\<lambda>b.
     Inr (if bb_txs b = [] then [] else bt_compressed_bytecodes (last (bb_txs b))))"

text \<open>Returns the state and the id of the transaction to execute.\<close>

definition move_tx_to_execute_pointer :: "bootloader_state \<Rightarrow> (bootloader_state \<times> nat) res" where
  "move_tx_to_execute_pointer s = and_then (free_tx_index s) (\<lambda>i.
     ensure (bs_tx_to_execute s < i) (Panic TxNotPushed)
       (Inr (s\<lparr>bs_tx_to_execute := bs_tx_to_execute s + 1\<rparr>, bs_tx_to_execute s)))"

definition state_tx_description_offset :: "bootloader_state \<Rightarrow> nat \<Rightarrow> nat res" where
  "state_tx_description_offset s i =
     and_then (find_tx s i) (\<lambda>tx. Inr (get_tx_description_offset (bs_subversion s) + bt_offset tx))"

definition insert_fictive_l2_block :: "hash_fn \<Rightarrow> bootloader_state \<Rightarrow> (bootloader_state \<times> bootloader_l2_block) res" where
  "insert_fictive_l2_block keccak s =
     and_then (last_l2_block s) (\<lambda>b.
     and_then (if bb_txs b \<noteq> []
         then start_new_l2_block keccak s \<lparr>be_number = bb_number b + 1, be_timestamp = bb_timestamp b + 1,
           be_prev_block_hash = block_get_hash keccak b, be_max_virtual_blocks_to_create = 1, be_interop_roots = []\<rparr>
         else map_last_block (\<lambda>b. Inr (b\<lparr>bb_interop_roots := []\<rparr>)) s) (\<lambda>s'.
     and_then (last_l2_block s') (\<lambda>b'. Inr (s', b'))))"

section \<open>Snapshots\<close>

definition get_snapshot :: "bootloader_state \<Rightarrow> bootloader_state_snapshot res" where
  "get_snapshot s = and_then (last_l2_block s) (\<lambda>b.
     Inr \<lparr>ss_tx_to_execute = bs_tx_to_execute s, ss_l2_blocks_len = length (bs_l2_blocks s),
       ss_last_l2_block = block_make_snapshot b, ss_compressed_bytecodes_encoding = bs_compressed_bytecodes_encoding s,
       ss_free_tx_offset = bs_free_tx_offset s,
       ss_is_pubdata_information_provided = (bs_pubdata_information s \<noteq> None),
       ss_number_of_applied_interop_roots = bs_number_of_applied_interop_roots s\<rparr>)"

definition apply_snapshot :: "bootloader_state \<Rightarrow> bootloader_state_snapshot \<Rightarrow> bootloader_state res" where
  "apply_snapshot s snap =
     ensure (ss_l2_blocks_len snap \<le> length (bs_l2_blocks s)) (Panic SnapshotFromFuture)
     (and_then (map_last_block (\<lambda>b. block_apply_snapshot b (ss_last_l2_block snap))
        (s\<lparr>bs_tx_to_execute := ss_tx_to_execute snap,
           bs_compressed_bytecodes_encoding := ss_compressed_bytecodes_encoding snap,
           bs_free_tx_offset := ss_free_tx_offset snap,
           bs_number_of_applied_interop_roots := ss_number_of_applied_interop_roots snap,
           bs_l2_blocks := take (ss_l2_blocks_len snap) (bs_l2_blocks s)\<rparr>)) (\<lambda>s'.
      if \<not> ss_is_pubdata_information_provided snap then Inr (s'\<lparr>bs_pubdata_information := None\<rparr>)
      else ensure (bs_pubdata_information s' \<noteq> None) (Panic SnapshotMissing) (Inr s')))"

section \<open>Rebuilding the memory\<close>

text \<open>The variables of the loops of \<open>bootloader_memory\<close>.\<close>

record memory_cursor =
  mc_memory :: bootloader_memory
  mc_offset :: nat
  mc_compressed_bytecodes_offset :: nat
  mc_tx_index :: nat
  mc_applied_interop_roots_offset :: nat

definition rebuild_tx ::
  "externals \<Rightarrow> tx_execution_mode \<Rightarrow> multi_vm_subversion \<Rightarrow> bootloader_l2_block \<Rightarrow> nat \<Rightarrow> nat \<Rightarrow> bootloader_tx \<Rightarrow> memory_cursor \<Rightarrow>
   memory_cursor res" where
  "rebuild_tx ext mode sv b i num tx c =
     (let nb = (if num = 0 then Some \<lparr>nb_number_of_applied_interop_roots = mc_applied_interop_roots_offset c,
            nb_block_index_in_batch = i\<rparr> else None)
      in map_res (\<lambda>(memory, compressed_bytecodes_size, applied_interop_roots).
           \<lparr>mc_memory = memory, mc_offset = mc_offset c + encoded_len tx,
            mc_compressed_bytecodes_offset = mc_compressed_bytecodes_offset c + compressed_bytecodes_size,
            mc_tx_index = mc_tx_index c + 1,
            mc_applied_interop_roots_offset = mc_applied_interop_roots_offset c + applied_interop_roots\<rparr>)
         (apply_tx_to_memory ext (mc_memory c) tx b (mc_offset c) (mc_compressed_bytecodes_offset c) mode
           \<lparr>ac_tx_index = mc_tx_index c, ac_subversion = sv, ac_new_block_config = nb\<rparr>))"

fun rebuild_txs ::
  "externals \<Rightarrow> tx_execution_mode \<Rightarrow> multi_vm_subversion \<Rightarrow> bootloader_l2_block \<Rightarrow> nat \<Rightarrow> nat \<Rightarrow> bootloader_tx list \<Rightarrow>
   memory_cursor \<Rightarrow> memory_cursor res" where
  "rebuild_txs ext mode sv b i num [] c = Inr c"
| "rebuild_txs ext mode sv b i num (tx # txs) c =
     and_then (rebuild_tx ext mode sv b i num tx c) (rebuild_txs ext mode sv b i (Suc num) txs)"

text \<open>A block without transactions is written with the index of the last block, whatever its position.\<close>

definition rebuild_block ::
  "externals \<Rightarrow> tx_execution_mode \<Rightarrow> multi_vm_subversion \<Rightarrow> nat \<Rightarrow> bootloader_l2_block \<Rightarrow> nat \<Rightarrow> memory_cursor \<Rightarrow>
   memory_cursor res" where
  "rebuild_block ext mode sv last_index b i c =
     and_then (rebuild_txs ext mode sv b i 0 (bb_txs b) c) (\<lambda>c.
       if bb_txs b = []
       then let (memory, applied) = apply_l2_block (mc_memory c) b (mc_tx_index c) sv
                  (Some \<lparr>nb_number_of_applied_interop_roots = mc_applied_interop_roots_offset c,
                    nb_block_index_in_batch = last_index\<rparr>)
            in Inr (c\<lparr>mc_memory := memory, mc_applied_interop_roots_offset := mc_applied_interop_roots_offset c + applied\<rparr>)
       else Inr c)"

fun rebuild_blocks ::
  "externals \<Rightarrow> tx_execution_mode \<Rightarrow> multi_vm_subversion \<Rightarrow> nat \<Rightarrow> nat \<Rightarrow> bootloader_l2_block list \<Rightarrow> memory_cursor \<Rightarrow>
   memory_cursor res" where
  "rebuild_blocks ext mode sv last_index i [] c = Inr c"
| "rebuild_blocks ext mode sv last_index i (b # bs) c =
     and_then (rebuild_block ext mode sv last_index b i c) (rebuild_blocks ext mode sv last_index (Suc i) bs)"

definition cursor_start :: "bootloader_memory \<Rightarrow> memory_cursor" where
  "cursor_start memory = \<lparr>mc_memory = memory, mc_offset = 0, mc_compressed_bytecodes_offset = 0, mc_tx_index = 0,
     mc_applied_interop_roots_offset = 0\<rparr>"

definition bootloader_memory :: "externals \<Rightarrow> bootloader_state \<Rightarrow> pubdata_builder \<Rightarrow> bootloader_memory res" where
  "bootloader_memory ext s builder =
     and_then (rebuild_blocks ext (bs_execution_mode s) (bs_subversion s) (length (bs_l2_blocks s) - 1) 0 (bs_l2_blocks s)
         (cursor_start (bs_initial_memory s))) (\<lambda>c.
     and_then (get_pubdata_information s) (\<lambda>info.
       apply_pubdata_to_memory ext (mc_memory c) builder info (bs_protocol_version s) (bs_subversion s)))"

section \<open>Writes to the bootloader heap\<close>

text \<open>
  The heap of the bootloader, by word, and the hooks of \<open>vm.rs\<close> that write to it. The wrapper addresses the memory by the
  subversion its own version \<open>fv\<close> converts to.
\<close>

type_synonym heap = "nat \<Rightarrow> u256"

definition write_to_bootloader_heap :: "heap \<Rightarrow> bootloader_memory \<Rightarrow> heap" where
  "write_to_bootloader_heap h memory = foldl (\<lambda>h (i, v). h(i := v)) h memory"

definition ask_operator_for_refund ::
  "fast_vm_version \<Rightarrow> bootloader_state \<times> heap \<Rightarrow> u64 \<Rightarrow> (bootloader_state \<times> heap) res" where
  "ask_operator_for_refund fv = (\<lambda>(s, h) r.
     and_then (current_tx s) (\<lambda>i.
     and_then (set_refund_for_current_tx s r) (\<lambda>s'.
       Inr (s', write_to_bootloader_heap h [(get_operator_refunds_offset (subversion_of_fast fv) + i, ucast r)]))))"

definition final_batch_info :: "externals \<Rightarrow> fast_vm_version \<Rightarrow> bootloader_state \<times> heap \<Rightarrow> (bootloader_state \<times> heap) res" where
  "final_batch_info ext fv = (\<lambda>(s, h).
     and_then (get_new_block_config s) (\<lambda>nb.
     and_then (free_tx_index s) (\<lambda>txs_index.
     and_then (insert_fictive_l2_block (ext_keccak ext) s) (\<lambda>(s', b).
       Inr (s', write_to_bootloader_heap h (fst (apply_l2_block [] b txs_index (subversion_of_fast fv) (Some nb))))))))"

definition pubdata_requested ::
  "externals \<Rightarrow> fast_vm_version \<Rightarrow> pubdata_builder \<Rightarrow> pubdata_input \<Rightarrow> bootloader_state \<times> heap \<Rightarrow> (bootloader_state \<times> heap) res" where
  "pubdata_requested ext fv builder input = (\<lambda>(s, h).
     and_then (set_pubdata_input s input) (\<lambda>s'.
     and_then (apply_pubdata_to_memory ext [] builder input (bs_protocol_version s) (subversion_of_fast fv)) (\<lambda>memory.
       Inr (s', write_to_bootloader_heap h memory))))"

text \<open>
  What the wrapper does while a batch is being filled: push a transaction, start a block, execute the next transaction
  with the refunds the operator is asked for meanwhile.
\<close>

datatype bootloader_event =
    PushTx transaction_data u32 u64 "compressed_bytecode_info list" u256 u64
  | StartBlock l2_block_env
  | ExecuteTx "u64 list"

fun fold_res :: "('a \<Rightarrow> 'b \<Rightarrow> 'a res) \<Rightarrow> 'a \<Rightarrow> 'b list \<Rightarrow> 'a res" where
  "fold_res f a [] = Inr a"
| "fold_res f a (x # xs) = and_then (f a x) (\<lambda>a'. fold_res f a' xs)"

definition boot_step ::
  "externals \<Rightarrow> fast_vm_version \<Rightarrow> bootloader_state \<times> heap \<Rightarrow> bootloader_event \<Rightarrow> (bootloader_state \<times> heap) res" where
  "boot_step ext fv = (\<lambda>(s, h) ev. case ev of
      PushTx td overhead refund compressed trusted_limit chain_id \<Rightarrow>
        map_res (\<lambda>(s', memory, _). (s', write_to_bootloader_heap h memory))
          (push_tx ext s td overhead refund compressed trusted_limit chain_id)
    | StartBlock env \<Rightarrow> map_res (\<lambda>s'. (s', h)) (start_new_l2_block (ext_keccak ext) s env)
    | ExecuteTx refunds \<Rightarrow> and_then (move_tx_to_execute_pointer s) (\<lambda>(s', _). fold_res (ask_operator_for_refund fv) (s', h) refunds))"

definition boot_run ::
  "externals \<Rightarrow> fast_vm_version \<Rightarrow> bootloader_state \<times> heap \<Rightarrow> bootloader_event list \<Rightarrow> (bootloader_state \<times> heap) res" where
  "boot_run ext fv st evs = fold_res (boot_step ext fv) st evs"

definition boot_init :: "tx_execution_mode \<Rightarrow> l1_batch_env \<Rightarrow> protocol_version \<Rightarrow> fast_vm_version \<Rightarrow> (bootloader_state \<times> heap) res" where
  "boot_init mode env version fv =
     (let memory = initial_memory (subversion_of_fast fv) env
      in map_res (\<lambda>s. (s, write_to_bootloader_heap (\<lambda>_. 0) memory))
           (bootloader_state_new mode memory (first_l2_block env) version))"

end
