(* ===== verification/Bootloader_Memory.thy ===== *)
theory Bootloader_Memory
  imports Bootloader
begin

text \<open>
  The bootloader memory that is rebuilt from the state is the content the bootloader heap was given: the incremental
  writes of \<open>push_tx\<close>, of the refund hook and of the final hooks and the memory \<open>bootloader_memory\<close> builds from scratch put
  the same words into the same slots. The proof is a simulation between the state of the wrapper and the cursor of the
  rebuilding loops.
\<close>

section \<open>Writes\<close>

lemma write_heap_append [simp]:
  "write_to_bootloader_heap h (xs @ ys) = write_to_bootloader_heap (write_to_bootloader_heap h xs) ys"
  by (simp add: write_to_bootloader_heap_def)

lemma write_heap_Cons [simp]: "write_to_bootloader_heap h ((i, v) # ys) = write_to_bootloader_heap (h(i := v)) ys"
  by (simp add: write_to_bootloader_heap_def)

lemma write_heap_Nil [simp]: "write_to_bootloader_heap h [] = h"
  by (simp add: write_to_bootloader_heap_def)

lemma write_heap_upd:
  "a \<notin> fst ` set xs \<Longrightarrow> write_to_bootloader_heap (h(a := v)) xs = (write_to_bootloader_heap h xs)(a := v)"
proof (induction xs arbitrary: h)
  case (Cons x xs)
  obtain i w where x: "x = (i, w)" by (cases x)
  with Cons.prems have ne: "i \<noteq> a" and notin: "a \<notin> fst ` set xs" by auto
  show ?case
    unfolding x write_heap_Cons fun_upd_twist [OF ne, symmetric] by (rule Cons.IH [OF notin])
qed (simp only: write_heap_Nil)

lemma slots_words_at: "fst ` set (words_at start ws) = {start..<start + length ws}"
  unfolding words_at_def by (simp add: image_set)

text \<open>What is written does not depend on the memory it is appended to.\<close>

lemma apply_interop_root_prefix: "apply_interop_root m o' r sv n = m @ apply_interop_root [] o' r sv n"
  by (simp add: apply_interop_root_def)

lemma foldl_roots_prefix:
  "foldl (\<lambda>m (offset, root). apply_interop_root m (k + offset) root sv n) m rs =
   m @ foldl (\<lambda>m (offset, root). apply_interop_root m (k + offset) root sv n) [] rs"
proof (induction rs arbitrary: m)
  case (Cons r rs)
  obtain a b where r: "r = (a, b)" by (cases r)
  show ?case
    using Cons [of "apply_interop_root m (k + a) b sv n"] Cons [of "apply_interop_root [] (k + a) b sv n"]
    by (simp add: r apply_interop_root_prefix [of m])
qed simp

lemma apply_l2_block_inner_prefix:
  "apply_l2_block_inner m b config = (m @ fst (apply_l2_block_inner [] b config), snd (apply_l2_block_inner [] b config))"
  unfolding apply_l2_block_inner_def Let_def
  by (subst (1 2) foldl_roots_prefix)
    (simp add: apply_interop_root_number_in_block_number_def split: option.splits)

lemma apply_tx_to_memory_prefix:
  "apply_tx_to_memory ext m tx b off sz mode config =
   map_res (\<lambda>(d, r). (m @ d, r)) (apply_tx_to_memory ext [] tx b off sz mode config)"
proof -
  have "apply_l2_block_inner (m @ xs) b config =
    (m @ fst (apply_l2_block_inner xs b config), snd (apply_l2_block_inner xs b config))" for xs
    using apply_l2_block_inner_prefix [of "m @ xs"] apply_l2_block_inner_prefix [of xs] by simp
  then show ?thesis
    by (cases "get_memory_for_compressed_bytecodes ext (bt_compressed_bytecodes tx)")
      (simp_all add: apply_tx_to_memory_def Let_def split: prod.splits)
qed

text \<open>The block is used for its header only.\<close>

definition same_header :: "bootloader_l2_block \<Rightarrow> bootloader_l2_block \<Rightarrow> bool" where
  "same_header b b' \<longleftrightarrow> bb_number b = bb_number b' \<and> bb_timestamp b = bb_timestamp b' \<and>
     bb_prev_block_hash b = bb_prev_block_hash b' \<and> bb_interop_roots b = bb_interop_roots b' \<and>
     bb_max_virtual_blocks_to_create b = bb_max_virtual_blocks_to_create b'"

lemma apply_l2_block_inner_header: "same_header b b' \<Longrightarrow> apply_l2_block_inner m b config = apply_l2_block_inner m b' config"
  by (cases "ac_new_block_config config") (simp_all add: apply_l2_block_inner_def block_info_words_def same_header_def Let_def)

lemma apply_tx_to_memory_header:
  "same_header b b' \<Longrightarrow> apply_tx_to_memory ext m tx b off sz mode config = apply_tx_to_memory ext m tx b' off sz mode config"
  by (simp add: apply_tx_to_memory_def apply_l2_block_inner_header [of b b'])

lemma rebuild_txs_header:
  "same_header b b' \<Longrightarrow> rebuild_txs ext mode sv b i num txs c = rebuild_txs ext mode sv b' i num txs c"
proof (induction txs arbitrary: num c)
  case (Cons tx txs)
  then have "rebuild_txs ext mode sv b i (Suc num) txs = rebuild_txs ext mode sv b' i (Suc num) txs" by blast
  with Cons.prems show ?case by (simp add: rebuild_tx_def apply_tx_to_memory_header [of b b'])
qed simp

section \<open>Loops\<close>

lemma and_then_Inr [simp]: "and_then m Inr = m"
  by (cases m) simp_all

lemma rebuild_txs_snoc:
  "rebuild_txs ext mode sv b i num (txs @ [tx]) c =
   and_then (rebuild_txs ext mode sv b i num txs c) (rebuild_tx ext mode sv b i (num + length txs) tx)"
  by (induction txs arbitrary: num c) (simp_all add: and_then_def split: sum.split)

lemma rebuild_blocks_snoc:
  "rebuild_blocks ext mode sv l i (bs @ [b]) c =
   and_then (rebuild_blocks ext mode sv l i bs c) (rebuild_block ext mode sv l b (i + length bs))"
  by (induction bs arbitrary: i c) (simp_all add: and_then_def split: sum.split)

lemma rebuild_block_nonempty: "bb_txs b \<noteq> [] \<Longrightarrow> rebuild_block ext mode sv l b i = rebuild_txs ext mode sv b i 0 (bb_txs b)"
  by (simp add: rebuild_block_def fun_eq_iff)

text \<open>The cursor after all transactions pushed so far.\<close>

fun rebuild_rev ::
  "externals \<Rightarrow> tx_execution_mode \<Rightarrow> multi_vm_subversion \<Rightarrow> bootloader_l2_block list \<Rightarrow> memory_cursor \<Rightarrow> memory_cursor res" where
  "rebuild_rev ext mode sv [] c = Inr c"
| "rebuild_rev ext mode sv (b # bs) c =
     and_then (rebuild_rev ext mode sv bs c) (rebuild_txs ext mode sv b (length bs) 0 (bb_txs b))"

definition cursor_of :: "externals \<Rightarrow> bootloader_state \<Rightarrow> memory_cursor res" where
  "cursor_of ext s =
     rebuild_rev ext (bs_execution_mode s) (bs_subversion s) (rev (bs_l2_blocks s)) (cursor_start (bs_initial_memory s))"

lemma rebuild_blocks_eq_rev:
  "\<forall>b \<in> set bs. bb_txs b \<noteq> [] \<Longrightarrow> rebuild_blocks ext mode sv l 0 bs c = rebuild_rev ext mode sv (rev bs) c"
  by (induction bs rule: rev_induct) (simp_all add: rebuild_blocks_snoc rebuild_block_nonempty)

fun block_indices_ok :: "bootloader_l2_block list \<Rightarrow> bool" where
  "block_indices_ok [] \<longleftrightarrow> True"
| "block_indices_ok (b # bs) \<longleftrightarrow>
     bb_first_tx_index b = sum_list (map (length \<circ> bb_txs) bs) \<and> block_indices_ok bs"

text \<open>
  Well-formed states: there is a block, only the last one may be empty, the blocks partition the transactions, and the
  execution pointer is not ahead of them.
\<close>

definition total_txs :: "bootloader_state \<Rightarrow> nat" where
  "total_txs s = sum_list (map (length \<circ> bb_txs) (bs_l2_blocks s))"

definition bootloader_wf :: "bootloader_state \<Rightarrow> bool" where
  "bootloader_wf s \<longleftrightarrow> bs_l2_blocks s \<noteq> [] \<and> (\<forall>b \<in> set (butlast (bs_l2_blocks s)). bb_txs b \<noteq> []) \<and>
     block_indices_ok (rev (bs_l2_blocks s)) \<and> bs_tx_to_execute s \<le> total_txs s"

text \<open>The state tracks a cursor.\<close>

definition tracks :: "bootloader_state \<Rightarrow> memory_cursor \<Rightarrow> bool" where
  "tracks s c \<longleftrightarrow> mc_offset c = bs_free_tx_offset s \<and> mc_compressed_bytecodes_offset c = bs_compressed_bytecodes_encoding s \<and>
     mc_tx_index c = total_txs s \<and> mc_applied_interop_roots_offset c = bs_number_of_applied_interop_roots s"

lemma wf_last:
  assumes "bootloader_wf s"
  obtains bs b where "bs_l2_blocks s = bs @ [b]" "\<forall>x \<in> set bs. bb_txs x \<noteq> []" "block_indices_ok (rev bs)"
    "bb_first_tx_index b = sum_list (map (length \<circ> bb_txs) bs)" "bs_tx_to_execute s \<le> total_txs s"
    "last_l2_block s = Inr b" "free_tx_index s = Inr (total_txs s)" "get_block_index_in_batch s = Inr (length bs)"
proof -
  have ne: "bs_l2_blocks s \<noteq> []" using assms by (simp add: bootloader_wf_def)
  then obtain bs b where bs: "bs_l2_blocks s = bs @ [b]" by (metis append_butlast_last_id)
  have "sum_list (map (length \<circ> bb_txs) (rev bs)) = sum_list (map (length \<circ> bb_txs) bs)"
    by (metis rev_map sum_list_rev)
  then show thesis
    using assms bs by (intro that [OF bs])
      (auto simp: bootloader_wf_def total_txs_def last_l2_block_def free_tx_index_def get_block_index_in_batch_def)
qed

section \<open>Pushing transactions and blocks\<close>

lemma cursor_of_snoc:
  assumes "bs_l2_blocks s = bs @ [b]"
  shows "cursor_of ext s =
    and_then (rebuild_rev ext (bs_execution_mode s) (bs_subversion s) (rev bs) (cursor_start (bs_initial_memory s)))
      (rebuild_txs ext (bs_execution_mode s) (bs_subversion s) b (length bs) 0 (bb_txs b))"
  using assms by (simp add: cursor_of_def)

lemma same_header_push [simp]: "same_header (block_push_tx keccak b tx) b"
  by (simp add: same_header_def block_push_tx_def update_rolling_hash_def)

lemma push_tx_cases:
  assumes "bootloader_wf s" "push_tx ext s td overhead refund compressed limit chain_id = Inr (s', d, ec)"
  obtains bs b tx size_words roots where "bs_l2_blocks s = bs @ [b]"
    "apply_tx_to_memory ext [] tx b (bs_free_tx_offset s) (bs_compressed_bytecodes_encoding s) (bs_execution_mode s)
       \<lparr>ac_tx_index = total_txs s, ac_subversion = bs_subversion s, ac_new_block_config =
          if bb_txs b = [] then Some \<lparr>nb_number_of_applied_interop_roots = bs_number_of_applied_interop_roots s,
            nb_block_index_in_batch = length bs\<rparr> else None\<rparr> = Inr (d, size_words, roots)"
    "s' = s\<lparr>bs_compressed_bytecodes_encoding := bs_compressed_bytecodes_encoding s + size_words,
       bs_free_tx_offset := bs_free_tx_offset s + encoded_len tx,
       bs_number_of_applied_interop_roots := bs_number_of_applied_interop_roots s + roots,
       bs_l2_blocks := bs @ [block_push_tx (ext_keccak ext) b tx]\<rparr>"
    "bt_offset tx = bs_free_tx_offset s"
proof -
  obtain bs b where bs: "bs_l2_blocks s = bs @ [b]" and l: "last_l2_block s = Inr b"
    and f: "free_tx_index s = Inr (total_txs s)" and g: "get_block_index_in_batch s = Inr (length bs)"
    using wf_last [OF assms(1)] .
  have nb: "(if bb_txs b = [] then map_res Some (get_new_block_config s) else Inr None) =
    Inr (if bb_txs b = [] then Some \<lparr>nb_number_of_applied_interop_roots = bs_number_of_applied_interop_roots s,
            nb_block_index_in_batch = length bs\<rparr> else None)"
    by (simp add: get_new_block_config_def g)
  show thesis
    using assms(2) bs l f that [OF bs]
    by (auto simp: push_tx_def Let_def nb map_last_block_def last_l2_block_def bootloader_tx_new_def simp del: if_split)
qed

lemma block_push_tx_simps [simp]:
  "bb_txs (block_push_tx keccak b tx) = bb_txs b @ [tx]" "bb_first_tx_index (block_push_tx keccak b tx) = bb_first_tx_index b"
  by (simp_all add: block_push_tx_def update_rolling_hash_def)

lemma block_new_simps [simp]: "bb_txs (block_new env n) = []" "bb_first_tx_index (block_new env n) = n"
  by (simp_all add: block_new_def)

lemma push_tx_wf:
  assumes wf: "bootloader_wf s" and p: "push_tx ext s td overhead refund compressed limit chain_id = Inr (s', d, ec)"
  shows "bootloader_wf s'" "total_txs s' = total_txs s + 1" "bs_subversion s' = bs_subversion s"
proof -
  from push_tx_cases [OF wf p] obtain bs b tx n r where bs: "bs_l2_blocks s = bs @ [b]"
    and s': "s' = s\<lparr>bs_compressed_bytecodes_encoding := bs_compressed_bytecodes_encoding s + n,
       bs_free_tx_offset := bs_free_tx_offset s + encoded_len tx,
       bs_number_of_applied_interop_roots := bs_number_of_applied_interop_roots s + r,
       bs_l2_blocks := bs @ [block_push_tx (ext_keccak ext) b tx]\<rparr>" .
  show "bootloader_wf s'" using wf by (auto simp: bootloader_wf_def s' bs total_txs_def)
  show "total_txs s' = total_txs s + 1" "bs_subversion s' = bs_subversion s" by (simp_all add: s' bs total_txs_def)
qed

lemma push_tx_cursor:
  assumes wf: "bootloader_wf s" and c: "cursor_of ext s = Inr c" and t: "tracks s c"
    and p: "push_tx ext s td overhead refund compressed limit chain_id = Inr (s', d, ec)"
  shows "\<exists>c'. cursor_of ext s' = Inr c' \<and> tracks s' c' \<and> mc_memory c' = mc_memory c @ d"
proof -
  from push_tx_cases [OF wf p] obtain bs b tx n r where bs: "bs_l2_blocks s = bs @ [b]"
    and d: "apply_tx_to_memory ext [] tx b (bs_free_tx_offset s) (bs_compressed_bytecodes_encoding s) (bs_execution_mode s)
       \<lparr>ac_tx_index = total_txs s, ac_subversion = bs_subversion s, ac_new_block_config =
          if bb_txs b = [] then Some \<lparr>nb_number_of_applied_interop_roots = bs_number_of_applied_interop_roots s,
            nb_block_index_in_batch = length bs\<rparr> else None\<rparr> = Inr (d, n, r)"
    and s': "s' = s\<lparr>bs_compressed_bytecodes_encoding := bs_compressed_bytecodes_encoding s + n,
       bs_free_tx_offset := bs_free_tx_offset s + encoded_len tx,
       bs_number_of_applied_interop_roots := bs_number_of_applied_interop_roots s + r,
       bs_l2_blocks := bs @ [block_push_tx (ext_keccak ext) b tx]\<rparr>" .
  let ?b = "block_push_tx (ext_keccak ext) b tx"
  have "cursor_of ext s' = and_then (cursor_of ext s) (rebuild_tx ext (bs_execution_mode s) (bs_subversion s) b (length bs) (length (bb_txs b)) tx)"
    using cursor_of_snoc [OF bs] cursor_of_snoc [of s' bs ?b]
    by (simp add: s' rebuild_txs_snoc [abs_def] rebuild_txs_header [OF same_header_push, abs_def] and_then_assoc)
  also have "\<dots> = rebuild_tx ext (bs_execution_mode s) (bs_subversion s) b (length bs) (length (bb_txs b)) tx c"
    by (simp add: c)
  also have "\<dots> = Inr \<lparr>mc_memory = mc_memory c @ d, mc_offset = mc_offset c + encoded_len tx,
      mc_compressed_bytecodes_offset = mc_compressed_bytecodes_offset c + n, mc_tx_index = mc_tx_index c + 1,
      mc_applied_interop_roots_offset = mc_applied_interop_roots_offset c + r\<rparr>"
    using d t by (cases "bb_txs b = []") (simp_all add: rebuild_tx_def apply_tx_to_memory_prefix [of ext "mc_memory c"] tracks_def)
  finally show ?thesis
    using t by (simp add: tracks_def s' bs total_txs_def)
qed

lemma start_new_l2_block_cases:
  assumes wf: "bootloader_wf s" and p: "start_new_l2_block keccak s env = Inr s'"
  obtains bs b where "bs_l2_blocks s = bs @ [b]" "bb_txs b \<noteq> []" "s' = s\<lparr>bs_l2_blocks := bs @ [b, block_new env (total_txs s)]\<rparr>"
proof -
  obtain bs b where bs: "bs_l2_blocks s = bs @ [b]" and l: "last_l2_block s = Inr b" and f: "free_tx_index s = Inr (total_txs s)"
    using wf_last [OF wf] .
  then show thesis using p that by (auto simp: start_new_l2_block_def push_l2_block_def)
qed

lemma start_new_l2_block_wf:
  assumes wf: "bootloader_wf s" and p: "start_new_l2_block keccak s env = Inr s'"
  shows "bootloader_wf s'" "total_txs s' = total_txs s" "bs_subversion s' = bs_subversion s"
proof -
  from start_new_l2_block_cases [OF assms] obtain bs b where bs: "bs_l2_blocks s = bs @ [b]" and b: "bb_txs b \<noteq> []"
    and s': "s' = s\<lparr>bs_l2_blocks := bs @ [b, block_new env (total_txs s)]\<rparr>" .
  have "sum_list (map (length \<circ> bb_txs) (rev bs)) = sum_list (map (length \<circ> bb_txs) bs)" by (metis rev_map sum_list_rev)
  then show "bootloader_wf s'" using wf b by (auto simp: bootloader_wf_def s' bs total_txs_def butlast_append)
  show "total_txs s' = total_txs s" "bs_subversion s' = bs_subversion s" by (simp_all add: s' bs total_txs_def)
qed

lemma start_new_l2_block_cursor:
  assumes wf: "bootloader_wf s" and c: "cursor_of ext s = Inr c" and t: "tracks s c"
    and p: "start_new_l2_block keccak s env = Inr s'"
  shows "cursor_of ext s' = Inr c" and "tracks s' c"
proof -
  from start_new_l2_block_cases [OF wf p] obtain bs b where bs: "bs_l2_blocks s = bs @ [b]"
    and s': "s' = s\<lparr>bs_l2_blocks := bs @ [b, block_new env (total_txs s)]\<rparr>" .
  show "tracks s' c" using t by (simp add: tracks_def s' bs total_txs_def)
  show "cursor_of ext s' = Inr c" using c by (simp add: cursor_of_def s' bs)
qed

section \<open>Refunds\<close>

text \<open>Only the transaction itself writes into its slot of the refunds.\<close>

lemma offsets_above_refunds:
  "get_tx_overhead_offset sv \<le> get_tx_trusted_gas_limit_offset sv"
  "get_tx_overhead_offset sv \<le> get_tx_operator_l2_block_info_offset sv"
  "get_tx_overhead_offset sv \<le> get_interop_root_offset sv" "get_tx_overhead_offset sv \<le> get_interop_blocks_begin_offset sv"
  "get_tx_overhead_offset sv \<le> get_compressed_bytecodes_offset sv"
  "get_tx_overhead_offset sv \<le> get_bootloader_tx_description_offset sv" "get_tx_overhead_offset sv \<le> get_tx_description_offset sv"
  by (cases sv; simp add: layout_defs layout_consts)+

lemma slots_interop_root:
  "x \<in> fst ` set (apply_interop_root m o' r sv n) \<Longrightarrow> x \<in> fst ` set m \<or> get_tx_overhead_offset sv \<le> x"
  using offsets_above_refunds(3) [of sv] by (auto simp: apply_interop_root_def image_Un slots_words_at)

lemma slots_interop_roots:
  "x \<in> fst ` set (foldl (\<lambda>m (offset, root). apply_interop_root m (k + offset) root sv n) m rs) \<Longrightarrow>
   x \<in> fst ` set m \<or> get_tx_overhead_offset sv \<le> x"
proof (induction rs arbitrary: m)
  case (Cons r rs)
  obtain i root where "r = (i, root)" by (cases r)
  with Cons.prems have "x \<in> fst ` set (apply_interop_root m (k + i) root sv n) \<or> get_tx_overhead_offset sv \<le> x"
    by (intro Cons.IH) simp
  then show ?case using slots_interop_root by blast
qed simp

lemma slots_l2_block:
  "x \<in> fst ` set (fst (apply_l2_block_inner [] b config)) \<Longrightarrow> get_tx_overhead_offset (ac_subversion config) \<le> x"
proof -
  let ?sv = "ac_subversion config"
  have w: "x \<in> fst ` set (words_at (get_tx_operator_l2_block_info_offset ?sv + i) ws) \<Longrightarrow> get_tx_overhead_offset ?sv \<le> x" for i ws
    using offsets_above_refunds(2) [of ?sv] by (auto simp: slots_words_at)
  assume "x \<in> fst ` set (fst (apply_l2_block_inner [] b config))"
  then show ?thesis
    by (cases "ac_new_block_config config")
      (auto simp: apply_l2_block_inner_def Let_def apply_interop_root_number_in_block_number_def image_Un
        dest!: slots_interop_roots w intro: trans_le_add1 [OF offsets_above_refunds(4)] split: if_splits)
qed

lemma slots_tx:
  assumes "apply_tx_to_memory ext [] tx b off n mode config = Inr (d, m, r)" "x \<in> fst ` set d"
  shows "x = get_operator_refunds_offset (ac_subversion config) + ac_tx_index config \<or>
    get_tx_overhead_offset (ac_subversion config) \<le> x"
proof -
  let ?sv = "ac_subversion config"
  obtain ws where "d = tx_slots tx off mode config @ fst (apply_l2_block_inner [] b config)
      @ words_at (get_compressed_bytecodes_offset ?sv + 1 + n) ws"
    using assms(1) apply_l2_block_inner_prefix [of "tx_slots tx off mode config" b config]
    by (auto simp: apply_tx_to_memory_def Let_def split: prod.splits)
  with assms(2) consider "x \<in> fst ` set (tx_slots tx off mode config)" | "x \<in> fst ` set (fst (apply_l2_block_inner [] b config))"
    | "get_compressed_bytecodes_offset ?sv \<le> x" by (auto simp: image_Un slots_words_at)
  then show ?thesis
  proof cases
    case 1
    then show ?thesis
      using offsets_above_refunds [of ?sv] by (auto simp: tx_slots_def Let_def image_Un slots_words_at)
  next
    case 2
    then show ?thesis using slots_l2_block by blast
  next
    case 3
    then show ?thesis using offsets_above_refunds(5) [of ?sv] by simp
  qed
qed

text \<open>Changing the refund of a transaction changes the word of that slot only.\<close>

lemma write_heap_replace:
  assumes "a \<notin> fst ` set rest"
  shows "write_to_bootloader_heap h (pre @ (a, v) # rest) = (write_to_bootloader_heap h (pre @ (a, w) # rest))(a := v)"
  by (simp only: write_heap_append write_heap_Cons write_heap_upd [OF assms] fun_upd_upd)

lemma tx_slots_split:
  "\<exists>pre post. \<forall>v. tx_slots (tx\<lparr>bt_refund := v\<rparr>) off mode config =
     pre @ (get_operator_refunds_offset (ac_subversion config) + ac_tx_index config, ucast v) # post \<and>
     (\<forall>x \<in> fst ` set post. get_tx_overhead_offset (ac_subversion config) \<le> x)"
proof -
  let ?sv = "ac_subversion config"
  let ?t = "get_tx_description_offset ?sv + off"
  let ?d = "get_bootloader_tx_description_offset ?sv + BOOTLOADER_TX_DESCRIPTION_SIZE * ac_tx_index config"
  let ?pre = "[(?d, assemble_tx_meta mode True), (?d + 1, word_of_nat (32 * ?t))]"
  let ?post = "[(get_tx_overhead_offset ?sv + ac_tx_index config, ucast (bt_gas_overhead tx)),
      (get_tx_trusted_gas_limit_offset ?sv + ac_tx_index config, bt_trusted_gas_limit tx)] @ words_at ?t (bt_encoded tx)"
  have "\<forall>x \<in> fst ` set ?post. get_tx_overhead_offset ?sv \<le> x"
    using offsets_above_refunds [of ?sv] by (auto simp: image_Un slots_words_at)
  moreover have "tx_slots (tx\<lparr>bt_refund := v\<rparr>) off mode config =
     ?pre @ (get_operator_refunds_offset ?sv + ac_tx_index config, ucast v) # ?post" for v
    by (simp add: tx_slots_def Let_def)
  ultimately show ?thesis by blast
qed

lemma apply_tx_set_refund:
  assumes "apply_tx_to_memory ext m tx b off n mode config = Inr (m1, k, r)" "ac_tx_index config < MAX_TXS_IN_BATCH"
  shows "\<exists>m2. apply_tx_to_memory ext m (tx\<lparr>bt_refund := v\<rparr>) b off n mode config = Inr (m2, k, r) \<and>
    write_to_bootloader_heap h m2 =
      (write_to_bootloader_heap h m1)(get_operator_refunds_offset (ac_subversion config) + ac_tx_index config := ucast v)"
proof -
  let ?sv = "ac_subversion config"
  let ?a = "get_operator_refunds_offset ?sv + ac_tx_index config"
  let ?l = "apply_l2_block_inner [] b config"
  obtain pre post where slots: "\<And>v. tx_slots (tx\<lparr>bt_refund := v\<rparr>) off mode config = pre @ (?a, ucast v) # post"
    and post: "\<forall>x \<in> fst ` set post. get_tx_overhead_offset ?sv \<le> x"
    using tx_slots_split by metis
  obtain ws where enc: "get_memory_for_compressed_bytecodes ext (bt_compressed_bytecodes tx) = Inr ws"
    and kr: "k = length ws" "r = snd ?l"
    and m1: "m1 = m @ tx_slots tx off mode config @ fst ?l @ words_at (get_compressed_bytecodes_offset ?sv + 1 + n) ws"
    using assms(1) apply_l2_block_inner_prefix [of "m @ tx_slots tx off mode config" b config]
    by (auto simp: apply_tx_to_memory_def Let_def split: prod.splits)
  let ?rest = "post @ fst ?l @ words_at (get_compressed_bytecodes_offset ?sv + 1 + n) ws"
  have "get_tx_overhead_offset ?sv \<le> x" if "x \<in> fst ` set ?rest" for x
  proof -
    from that consider "x \<in> fst ` set post" | "x \<in> fst ` set (fst ?l)" | "get_compressed_bytecodes_offset ?sv \<le> x"
      by (auto simp only: set_append image_Un slots_words_at Un_iff atLeastLessThan_iff)
    then show ?thesis using post slots_l2_block offsets_above_refunds(5) [of ?sv] by cases auto
  qed
  moreover have "?a < get_tx_overhead_offset ?sv"
    using assms(2) by (simp add: get_tx_overhead_offset_def OPERATOR_REFUNDS_SLOTS_def)
  ultimately have notin: "?a \<notin> fst ` set ?rest" using not_le by blast
  have m1': "m1 = (m @ pre) @ (?a, ucast (bt_refund tx)) # ?rest" using slots [of "bt_refund tx"] by (simp add: m1)
  have "apply_tx_to_memory ext m (tx\<lparr>bt_refund := v\<rparr>) b off n mode config = Inr ((m @ pre) @ (?a, ucast v) # ?rest, k, r)"
    using apply_l2_block_inner_prefix [of "m @ tx_slots (tx\<lparr>bt_refund := v\<rparr>) off mode config" b config]
    by (simp add: apply_tx_to_memory_def Let_def enc kr slots)
  then show ?thesis unfolding m1' using write_heap_replace [OF notin] by blast
qed

text \<open>Cursors that differ in one word of the memory.\<close>

definition refund_shift :: "nat \<Rightarrow> u256 \<Rightarrow> memory_cursor \<Rightarrow> memory_cursor \<Rightarrow> bool" where
  "refund_shift a v c c' \<longleftrightarrow> mc_offset c' = mc_offset c \<and> mc_compressed_bytecodes_offset c' = mc_compressed_bytecodes_offset c \<and>
     mc_tx_index c' = mc_tx_index c \<and> mc_applied_interop_roots_offset c' = mc_applied_interop_roots_offset c \<and>
     write_to_bootloader_heap (\<lambda>_. 0) (mc_memory c') = (write_to_bootloader_heap (\<lambda>_. 0) (mc_memory c))(a := v)"

lemma rebuild_tx_index: "rebuild_tx ext mode sv b i num tx c = Inr c1 \<Longrightarrow> mc_tx_index c1 = Suc (mc_tx_index c)"
  by (auto simp: rebuild_tx_def Let_def split: prod.splits)

lemma rebuild_txs_index: "rebuild_txs ext mode sv b i num txs c = Inr c1 \<Longrightarrow> mc_tx_index c1 = mc_tx_index c + length txs"
  by (induction txs arbitrary: num c) (auto dest: rebuild_tx_index)

lemma rebuild_rev_index:
  "rebuild_rev ext mode sv r c = Inr c1 \<Longrightarrow> mc_tx_index c1 = mc_tx_index c + sum_list (map (length \<circ> bb_txs) r)"
  by (induction r arbitrary: c1) (auto dest!: rebuild_txs_index)

lemma rebuild_tx_shift:
  assumes "rebuild_tx ext mode sv b i num tx c = Inr c1" "refund_shift (get_operator_refunds_offset sv + k) v c c'"
    and "k < mc_tx_index c" "k < MAX_TXS_IN_BATCH"
  shows "\<exists>c1'. rebuild_tx ext mode sv b i num tx c' = Inr c1' \<and> refund_shift (get_operator_refunds_offset sv + k) v c1 c1'"
proof -
  let ?config = "\<lparr>ac_tx_index = mc_tx_index c, ac_subversion = sv, ac_new_block_config = if num = 0 then
    Some \<lparr>nb_number_of_applied_interop_roots = mc_applied_interop_roots_offset c, nb_block_index_in_batch = i\<rparr> else None\<rparr>"
  let ?apply = "\<lambda>m. apply_tx_to_memory ext m tx b (mc_offset c) (mc_compressed_bytecodes_offset c) mode ?config"
  obtain d n r where d: "?apply [] = Inr (d, n, r)"
    and c1: "c1 = \<lparr>mc_memory = mc_memory c @ d, mc_offset = mc_offset c + encoded_len tx,
      mc_compressed_bytecodes_offset = mc_compressed_bytecodes_offset c + n, mc_tx_index = mc_tx_index c + 1,
      mc_applied_interop_roots_offset = mc_applied_interop_roots_offset c + r\<rparr>"
    using assms(1) by (auto simp: rebuild_tx_def Let_def apply_tx_to_memory_prefix [of ext "mc_memory c"] simp del: if_split)
  have "get_operator_refunds_offset sv + k \<notin> fst ` set d"
    using slots_tx [OF d, of "get_operator_refunds_offset sv + k"] assms(3,4) by (auto simp: get_tx_overhead_offset_def OPERATOR_REFUNDS_SLOTS_def)
  note upd = write_heap_upd [OF this]
  have "?apply (mc_memory c') = Inr (mc_memory c' @ d, n, r)"
    using d by (simp add: apply_tx_to_memory_prefix [of ext "mc_memory c'"])
  then show ?thesis
    using assms(2) upd by (simp add: rebuild_tx_def Let_def refund_shift_def c1 cong: if_cong)
qed

lemma rebuild_tx_set_refund:
  assumes "rebuild_tx ext mode sv b i num tx c = Inr c1" "mc_tx_index c < MAX_TXS_IN_BATCH"
  shows "\<exists>c1'. rebuild_tx ext mode sv b i num (tx\<lparr>bt_refund := v\<rparr>) c = Inr c1' \<and>
    refund_shift (get_operator_refunds_offset sv + mc_tx_index c) (ucast v) c1 c1'"
proof -
  let ?config = "\<lparr>ac_tx_index = mc_tx_index c, ac_subversion = sv, ac_new_block_config = if num = 0 then
    Some \<lparr>nb_number_of_applied_interop_roots = mc_applied_interop_roots_offset c, nb_block_index_in_batch = i\<rparr> else None\<rparr>"
  obtain m1 n r where "apply_tx_to_memory ext (mc_memory c) tx b (mc_offset c) (mc_compressed_bytecodes_offset c) mode ?config = Inr (m1, n, r)"
    and c1: "c1 = \<lparr>mc_memory = m1, mc_offset = mc_offset c + encoded_len tx,
      mc_compressed_bytecodes_offset = mc_compressed_bytecodes_offset c + n, mc_tx_index = mc_tx_index c + 1,
      mc_applied_interop_roots_offset = mc_applied_interop_roots_offset c + r\<rparr>"
    using assms(1) by (auto simp: rebuild_tx_def Let_def simp del: if_split)
  from apply_tx_set_refund [OF this(1), of v "\<lambda>_. 0"] assms(2) obtain m2 where
    "apply_tx_to_memory ext (mc_memory c) (tx\<lparr>bt_refund := v\<rparr>) b (mc_offset c) (mc_compressed_bytecodes_offset c) mode ?config = Inr (m2, n, r)"
    "write_to_bootloader_heap (\<lambda>_. 0) m2 =
      (write_to_bootloader_heap (\<lambda>_. 0) m1)(get_operator_refunds_offset sv + mc_tx_index c := ucast v)"
    by auto
  then show ?thesis by (simp add: rebuild_tx_def Let_def refund_shift_def c1 encoded_len_def cong: if_cong)
qed

lemma rebuild_txs_shift:
  assumes "rebuild_txs ext mode sv b i num txs c = Inr c1" "refund_shift (get_operator_refunds_offset sv + k) v c c'"
    and "k < mc_tx_index c" "k < MAX_TXS_IN_BATCH"
  shows "\<exists>c1'. rebuild_txs ext mode sv b i num txs c' = Inr c1' \<and> refund_shift (get_operator_refunds_offset sv + k) v c1 c1'"
  using assms
proof (induction txs arbitrary: num c c')
  case (Cons tx txs)
  then obtain c2 where c2: "rebuild_tx ext mode sv b i num tx c = Inr c2" "rebuild_txs ext mode sv b i (Suc num) txs c2 = Inr c1"
    by auto
  from rebuild_tx_shift [OF c2(1) Cons.prems(2-4)] obtain c2' where
    c2': "rebuild_tx ext mode sv b i num tx c' = Inr c2'" "refund_shift (get_operator_refunds_offset sv + k) v c2 c2'" by blast
  have "k < mc_tx_index c2" using rebuild_tx_index [OF c2(1)] Cons.prems(3) by simp
  from Cons.IH [OF c2(2) c2'(2) this Cons.prems(4)] c2'(1) show ?case by simp
qed simp

lemma rebuild_txs_set_refund:
  assumes "rebuild_txs ext mode sv b i num txs c = Inr c1" "p < length txs" "mc_tx_index c + p < MAX_TXS_IN_BATCH"
  shows "\<exists>c1'. rebuild_txs ext mode sv b i num (txs[p := (txs ! p)\<lparr>bt_refund := v\<rparr>]) c = Inr c1' \<and>
    refund_shift (get_operator_refunds_offset sv + (mc_tx_index c + p)) (ucast v) c1 c1'"
  using assms
proof (induction txs arbitrary: num c p)
  case (Cons tx txs)
  then obtain c2 where c2: "rebuild_tx ext mode sv b i num tx c = Inr c2" "rebuild_txs ext mode sv b i (Suc num) txs c2 = Inr c1"
    by auto
  note idx = rebuild_tx_index [OF c2(1)]
  show ?case
  proof (cases p)
    case 0
    then obtain c2' where "rebuild_tx ext mode sv b i num (tx\<lparr>bt_refund := v\<rparr>) c = Inr c2'"
      "refund_shift (get_operator_refunds_offset sv + mc_tx_index c) (ucast v) c2 c2'"
      using rebuild_tx_set_refund [OF c2(1)] Cons.prems(3) by auto
    with rebuild_txs_shift [OF c2(2) this(2)] idx Cons.prems(3) 0 show ?thesis by auto
  next
    case (Suc q)
    with Cons.IH [OF c2(2), of q] Cons.prems c2(1) idx show ?thesis by auto
  qed
qed simp

lemma update_tx_in_shape:
  assumes "update_tx_in f i r = Inr r'"
  shows "map (length \<circ> bb_txs) r' = map (length \<circ> bb_txs) r" "map bb_first_tx_index r' = map bb_first_tx_index r"
proof -
  have "map (length \<circ> bb_txs) r' = map (length \<circ> bb_txs) r \<and> map bb_first_tx_index r' = map bb_first_tx_index r"
    using assms
  proof (induction r arbitrary: r')
    case (Cons b r)
    then show ?case by (cases "bb_first_tx_index b \<le> i") (auto simp: Let_def)
  qed simp
  then show "map (length \<circ> bb_txs) r' = map (length \<circ> bb_txs) r" "map bb_first_tx_index r' = map bb_first_tx_index r"
    by blast+
qed

lemma block_indices_ok_cong:
  "map (length \<circ> bb_txs) r' = map (length \<circ> bb_txs) r \<Longrightarrow> map bb_first_tx_index r' = map bb_first_tx_index r \<Longrightarrow>
   block_indices_ok r' = block_indices_ok r"
proof (induction r arbitrary: r')
  case (Cons b r)
  then obtain b' r2 where r': "r' = b' # r2" by (cases r') auto
  with Cons.prems have tails: "map (length \<circ> bb_txs) r2 = map (length \<circ> bb_txs) r" "map bb_first_tx_index r2 = map bb_first_tx_index r"
    and first: "bb_first_tx_index b' = bb_first_tx_index b" by (simp_all only: list.map list.inject)
  show ?case by (simp only: r' block_indices_ok.simps tails(1) first Cons.IH [OF tails])
qed simp

lemma update_tx_in_total:
  "block_indices_ok r \<Longrightarrow> i < sum_list (map (length \<circ> bb_txs) r) \<Longrightarrow> \<exists>r'. update_tx_in f i r = Inr r'"
  by (induction r) (auto simp: Let_def)

lemma rebuild_rev_set_refund:
  assumes "rebuild_rev ext mode sv r c = Inr c1" "mc_tx_index c = 0" "block_indices_ok r"
    and "update_tx_in (\<lambda>tx. tx\<lparr>bt_refund := v\<rparr>) i r = Inr r'" "i < MAX_TXS_IN_BATCH" "i < sum_list (map (length \<circ> bb_txs) r)"
  shows "\<exists>c1'. rebuild_rev ext mode sv r' c = Inr c1' \<and> refund_shift (get_operator_refunds_offset sv + i) (ucast v) c1 c1'"
  using assms
proof (induction r arbitrary: r' c1)
  case (Cons b r)
  then obtain c2 where c2: "rebuild_rev ext mode sv r c = Inr c2"
    "rebuild_txs ext mode sv b (length r) 0 (bb_txs b) c2 = Inr c1" by auto
  have idx: "mc_tx_index c2 = bb_first_tx_index b" using rebuild_rev_index [OF c2(1)] Cons.prems(2,3) by simp
  show ?case
  proof (cases "bb_first_tx_index b \<le> i")
    case True
    let ?p = "i - bb_first_tx_index b"
    let ?b = "b\<lparr>bb_txs := (bb_txs b)[?p := (bb_txs b ! ?p)\<lparr>bt_refund := v\<rparr>]\<rparr>"
    have r': "r' = ?b # r" and p: "?p < length (bb_txs b)" using Cons.prems(4) True by (auto simp: Let_def)
    have "same_header ?b b" by (simp add: same_header_def)
    note hdr = rebuild_txs_header [OF this, abs_def]
    show ?thesis
      using rebuild_txs_set_refund [OF c2(2) p, of v] True Cons.prems(5) by (simp add: r' c2(1) idx hdr)
  next
    case False
    then obtain r2 where r2: "update_tx_in (\<lambda>tx. tx\<lparr>bt_refund := v\<rparr>) i r = Inr r2" and r': "r' = b # r2"
      using Cons.prems(4) by (auto simp: Let_def)
    have i: "i < sum_list (map (length \<circ> bb_txs) r)" using False Cons.prems(3) by simp
    from Cons.IH [OF c2(1) Cons.prems(2) _ r2 Cons.prems(5) i] Cons.prems(3) obtain c2' where
      c2': "rebuild_rev ext mode sv r2 c = Inr c2'" "refund_shift (get_operator_refunds_offset sv + i) (ucast v) c2 c2'" by auto
    have "length r2 = length r" using arg_cong [OF update_tx_in_shape(1) [OF r2], of length] by simp
    then show ?thesis
      using rebuild_txs_shift [OF c2(2) c2'(2)] False idx Cons.prems(5) by (simp add: r' c2'(1))
  qed
qed simp

lemma find_tx_mut_blocks:
  assumes "find_tx_mut f s i = Inr s'"
  obtains r where "update_tx_in f i (rev (bs_l2_blocks s)) = Inr r" "s' = s\<lparr>bs_l2_blocks := rev r\<rparr>"
  using assms by (auto simp: find_tx_mut_def)

lemma nonempty_blocks_iff: "(\<forall>b \<in> set bs. bb_txs b \<noteq> []) \<longleftrightarrow> 0 \<notin> set (map (length \<circ> bb_txs) bs)"
  by auto

lemma update_tx_wf:
  assumes "bootloader_wf s" "update_tx_in f i (rev (bs_l2_blocks s)) = Inr r" "s' = s\<lparr>bs_l2_blocks := rev r\<rparr>"
  shows "bootloader_wf s'" "total_txs s' = total_txs s"
proof -
  note shape = update_tx_in_shape [OF assms(2)]
  have lens: "map (length \<circ> bb_txs) (rev r) = map (length \<circ> bb_txs) (bs_l2_blocks s)"
    using arg_cong [OF shape(1), of rev] by (simp add: rev_map)
  then show t: "total_txs s' = total_txs s" by (simp add: total_txs_def assms(3))
  have "map (length \<circ> bb_txs) (butlast (rev r)) = map (length \<circ> bb_txs) (butlast (bs_l2_blocks s))"
    using arg_cong [OF lens, of butlast] by (simp only: map_butlast)
  then have "(\<forall>b \<in> set (butlast (rev r)). bb_txs b \<noteq> []) = (\<forall>b \<in> set (butlast (bs_l2_blocks s)). bb_txs b \<noteq> [])"
    by (simp only: nonempty_blocks_iff)
  moreover have "rev r \<noteq> []" using assms(1) arg_cong [OF lens, of length] by (auto simp: bootloader_wf_def)
  ultimately show "bootloader_wf s'"
    using assms(1) t block_indices_ok_cong [OF shape] by (simp add: bootloader_wf_def assms(3))
qed

section \<open>The simulation\<close>

text \<open>Subversions with the same memory layout; the wrapper's own version does not tell some of them apart.\<close>

definition same_layout :: "multi_vm_subversion \<Rightarrow> multi_vm_subversion \<Rightarrow> bool" where
  "same_layout sv sv' \<longleftrightarrow> sv = sv' \<or> (sv \<in> {Gateway, EvmEmulator, EcPrecompiles} \<and> sv' \<in> {Gateway, EvmEmulator, EcPrecompiles})"

lemma fast_same_layout:
  "fast_vm_version_try_from v = Some fv \<Longrightarrow> multi_vm_subversion_try_from v = Some sv \<Longrightarrow> same_layout (subversion_of_fast fv) sv"
  by (cases v) (auto simp: fast_vm_version_try_from_def multi_vm_subversion_try_from_def same_layout_def)

lemma same_layout_offsets:
  assumes "same_layout sv sv'"
  shows "get_operator_refunds_offset sv = get_operator_refunds_offset sv'"
    "get_tx_operator_l2_block_info_offset sv = get_tx_operator_l2_block_info_offset sv'"
    "get_interop_root_offset sv = get_interop_root_offset sv'" "get_interop_blocks_begin_offset sv = get_interop_blocks_begin_offset sv'"
    "get_operator_provided_l1_messenger_pubdata_offset sv = get_operator_provided_l1_messenger_pubdata_offset sv'"
    "sv \<noteq> Interop \<and> sv \<noteq> MediumInterop \<longleftrightarrow> sv' \<noteq> Interop \<and> sv' \<noteq> MediumInterop"
    "sv = SmallBootloaderMemory \<or> sv = IncreasedBootloaderMemory \<longleftrightarrow> sv' = SmallBootloaderMemory \<or> sv' = IncreasedBootloaderMemory"
  using assms by (auto simp: same_layout_def layout_defs layout_consts)

definition in_sync :: "externals \<Rightarrow> fast_vm_version \<Rightarrow> bootloader_state \<Rightarrow> heap \<Rightarrow> bool" where
  "in_sync ext fv s h \<longleftrightarrow> bootloader_wf s \<and> same_layout (subversion_of_fast fv) (bs_subversion s) \<and>
     (\<exists>c. cursor_of ext s = Inr c \<and> tracks s c \<and> h = write_to_bootloader_heap (\<lambda>_. 0) (mc_memory c))"

lemma boot_init_sync:
  assumes "fast_vm_version_try_from (vm_version_from version) = Some fv" "boot_init mode env version fv = Inr (s, h)"
  shows "in_sync ext fv s h"
  using assms fast_same_layout
  by (auto simp: boot_init_def bootloader_state_new_def in_sync_def bootloader_wf_def cursor_of_def tracks_def total_txs_def
      cursor_start_def Let_def)

lemma current_tx_bound:
  "bootloader_wf s \<Longrightarrow> current_tx s = Inr i \<Longrightarrow> i < total_txs s"
  by (auto simp: current_tx_def bootloader_wf_def)

lemma ask_operator_wf:
  assumes "bootloader_wf s" "ask_operator_for_refund fv (s, h) r = Inr (s', h')"
  shows "bootloader_wf s'" "total_txs s' = total_txs s"
proof -
  obtain i where "find_tx_mut (\<lambda>tx. tx\<lparr>bt_refund := r\<rparr>) s i = Inr s'"
    using assms(2) by (auto simp: ask_operator_for_refund_def set_refund_for_current_tx_def)
  then show "bootloader_wf s'" "total_txs s' = total_txs s" using find_tx_mut_blocks update_tx_wf [OF assms(1)] by metis+
qed

lemma ask_operator_sync:
  assumes sync: "in_sync ext fv s h" and ask: "ask_operator_for_refund fv (s, h) r = Inr (s', h')"
    and n: "total_txs s \<le> MAX_TXS_IN_BATCH"
  shows "in_sync ext fv s' h'"
proof -
  from sync obtain c where wf: "bootloader_wf s" and lay: "same_layout (subversion_of_fast fv) (bs_subversion s)"
    and c: "cursor_of ext s = Inr c" "tracks s c" "h = write_to_bootloader_heap (\<lambda>_. 0) (mc_memory c)"
    by (auto simp: in_sync_def)
  from ask obtain i where i: "current_tx s = Inr i" "find_tx_mut (\<lambda>tx. tx\<lparr>bt_refund := r\<rparr>) s i = Inr s'"
    and h': "h' = h(get_operator_refunds_offset (subversion_of_fast fv) + i := ucast r)"
    by (auto simp: ask_operator_for_refund_def set_refund_for_current_tx_def)
  obtain bs where bs: "update_tx_in (\<lambda>tx. tx\<lparr>bt_refund := r\<rparr>) i (rev (bs_l2_blocks s)) = Inr bs"
    and s': "s' = s\<lparr>bs_l2_blocks := rev bs\<rparr>" using find_tx_mut_blocks [OF i(2)] .
  note wf' = update_tx_wf [OF wf bs s']
  have it: "i < sum_list (map (length \<circ> bb_txs) (rev (bs_l2_blocks s)))"
    using current_tx_bound [OF wf i(1)] unfolding total_txs_def rev_map [symmetric] sum_list_rev .
  have ok: "block_indices_ok (rev (bs_l2_blocks s))" using wf by (simp add: bootloader_wf_def)
  have "i < MAX_TXS_IN_BATCH" using current_tx_bound [OF wf i(1)] n by simp
  from rebuild_rev_set_refund [OF c(1) [unfolded cursor_of_def] _ ok bs this it] obtain c' where
    c': "cursor_of ext s' = Inr c'" "refund_shift (get_operator_refunds_offset (bs_subversion s) + i) (ucast r) c c'"
    by (auto simp: cursor_of_def s' cursor_start_def)
  then have "tracks s' c'" using c(2) wf'(2) by (auto simp: tracks_def refund_shift_def s')
  moreover have "h' = write_to_bootloader_heap (\<lambda>_. 0) (mc_memory c')"
    using c'(2) by (simp add: refund_shift_def h' c(3) same_layout_offsets(1) [OF lay])
  ultimately show ?thesis using wf'(1) lay c'(1) by (auto simp: in_sync_def s')
qed

lemma ask_operators_wf:
  "fold_res (ask_operator_for_refund fv) (s, h) rs = Inr (s', h') \<Longrightarrow> bootloader_wf s \<Longrightarrow> bootloader_wf s' \<and> total_txs s' = total_txs s"
proof (induction rs arbitrary: s h)
  case (Cons r rs)
  then obtain s1 h1 where "ask_operator_for_refund fv (s, h) r = Inr (s1, h1)"
    "fold_res (ask_operator_for_refund fv) (s1, h1) rs = Inr (s', h')" by auto
  with Cons.IH ask_operator_wf [OF Cons.prems(2)] show ?case by metis
qed simp

lemma ask_operators_sync:
  "fold_res (ask_operator_for_refund fv) (s, h) rs = Inr (s', h') \<Longrightarrow> in_sync ext fv s h \<Longrightarrow> total_txs s \<le> MAX_TXS_IN_BATCH \<Longrightarrow>
   in_sync ext fv s' h'"
proof (induction rs arbitrary: s h)
  case (Cons r rs)
  then obtain s1 h1 where ask: "ask_operator_for_refund fv (s, h) r = Inr (s1, h1)"
    "fold_res (ask_operator_for_refund fv) (s1, h1) rs = Inr (s', h')" by auto
  have "bootloader_wf s" using Cons.prems(2) by (simp add: in_sync_def)
  from ask_operator_wf(2) [OF this ask(1)] show ?case
    using Cons.IH [OF ask(2) ask_operator_sync [OF Cons.prems(2) ask(1)]] Cons.prems(3) by simp
qed simp

lemma move_tx_wf:
  assumes "bootloader_wf s" "move_tx_to_execute_pointer s = Inr (s', i)"
  shows "bootloader_wf s'" "total_txs s' = total_txs s"
    "in_sync ext fv s h \<Longrightarrow> in_sync ext fv s' h" "s' = s\<lparr>bs_tx_to_execute := Suc i\<rparr>" "i = bs_tx_to_execute s"
proof -
  obtain bs b where "free_tx_index s = Inr (total_txs s)" using wf_last [OF assms(1)] .
  then have s': "s' = s\<lparr>bs_tx_to_execute := Suc i\<rparr>" and i: "i = bs_tx_to_execute s" "i < total_txs s"
    using assms(2) by (auto simp: move_tx_to_execute_pointer_def)
  show "bootloader_wf s'" "total_txs s' = total_txs s"
    using assms(1) i(2) by (simp_all add: s' bootloader_wf_def total_txs_def)
  then show "in_sync ext fv s h \<Longrightarrow> in_sync ext fv s' h"
    by (auto simp: in_sync_def s' cursor_of_def tracks_def total_txs_def)
  show "s' = s\<lparr>bs_tx_to_execute := Suc i\<rparr>" "i = bs_tx_to_execute s" by fact+
qed

lemma boot_step_wf:
  assumes "bootloader_wf s" "boot_step ext fv (s, h) ev = Inr (s', h')"
  shows "bootloader_wf s' \<and> total_txs s \<le> total_txs s'"
proof (cases ev)
  case (PushTx td overhead refund compressed limit chain_id)
  then obtain d ec where "push_tx ext s td overhead refund compressed limit chain_id = Inr (s', d, ec)"
    using assms(2) by (auto simp: boot_step_def split: prod.splits)
  from push_tx_wf [OF assms(1) this] show ?thesis by simp
next
  case (StartBlock env)
  then have "start_new_l2_block (ext_keccak ext) s env = Inr s'" using assms(2) by (auto simp: boot_step_def)
  from start_new_l2_block_wf [OF assms(1) this] show ?thesis by simp
next
  case (ExecuteTx rs)
  then obtain s1 i where m: "move_tx_to_execute_pointer s = Inr (s1, i)"
    and f: "fold_res (ask_operator_for_refund fv) (s1, h) rs = Inr (s', h')" using assms(2) by (auto simp: boot_step_def)
  from ask_operators_wf [OF f move_tx_wf(1) [OF assms(1) m]] show ?thesis using move_tx_wf(2) [OF assms(1) m] by simp
qed

lemma boot_step_sync:
  assumes sync: "in_sync ext fv s h" and step: "boot_step ext fv (s, h) ev = Inr (s', h')" and n: "total_txs s' \<le> MAX_TXS_IN_BATCH"
  shows "in_sync ext fv s' h'"
proof -
  from sync obtain c where wf: "bootloader_wf s" and lay: "same_layout (subversion_of_fast fv) (bs_subversion s)"
    and c: "cursor_of ext s = Inr c" "tracks s c" "h = write_to_bootloader_heap (\<lambda>_. 0) (mc_memory c)"
    by (auto simp: in_sync_def)
  show ?thesis
  proof (cases ev)
    case (PushTx td overhead refund compressed limit chain_id)
    then obtain d ec where p: "push_tx ext s td overhead refund compressed limit chain_id = Inr (s', d, ec)"
      and h': "h' = write_to_bootloader_heap h d" using step by (auto simp: boot_step_def split: prod.splits)
    from push_tx_cursor [OF wf c(1,2) p] push_tx_wf [OF wf p] show ?thesis using lay by (auto simp: in_sync_def h' c(3))
  next
    case (StartBlock env)
    then have p: "start_new_l2_block (ext_keccak ext) s env = Inr s'" and h': "h' = h" using step by (auto simp: boot_step_def)
    from start_new_l2_block_cursor [OF wf c(1,2) p] start_new_l2_block_wf [OF wf p] show ?thesis
      using lay c(3) by (auto simp: in_sync_def h')
  next
    case (ExecuteTx rs)
    then obtain s1 i where m: "move_tx_to_execute_pointer s = Inr (s1, i)"
      and f: "fold_res (ask_operator_for_refund fv) (s1, h) rs = Inr (s', h')" using step by (auto simp: boot_step_def)
    note mv = move_tx_wf [OF wf m]
    show ?thesis
      using ask_operators_sync [OF f mv(3) [OF sync]] ask_operators_wf [OF f mv(1)] n by simp
  qed
qed

lemma boot_run_wf:
  "boot_run ext fv (s, h) evs = Inr (s', h') \<Longrightarrow> bootloader_wf s \<Longrightarrow> bootloader_wf s' \<and> total_txs s \<le> total_txs s'"
  unfolding boot_run_def
proof (induction evs arbitrary: s h)
  case (Cons ev evs)
  then obtain s1 h1 where st: "boot_step ext fv (s, h) ev = Inr (s1, h1)" "fold_res (boot_step ext fv) (s1, h1) evs = Inr (s', h')"
    by auto
  from boot_step_wf [OF Cons.prems(2) st(1)] Cons.IH [OF st(2)] show ?case by simp
qed simp

lemma boot_run_sync:
  "boot_run ext fv (s, h) evs = Inr (s', h') \<Longrightarrow> in_sync ext fv s h \<Longrightarrow> total_txs s' \<le> MAX_TXS_IN_BATCH \<Longrightarrow> in_sync ext fv s' h'"
  unfolding boot_run_def
proof (induction evs arbitrary: s h)
  case (Cons ev evs)
  then obtain s1 h1 where st: "boot_step ext fv (s, h) ev = Inr (s1, h1)" "fold_res (boot_step ext fv) (s1, h1) evs = Inr (s', h')"
    by auto
  have wf: "bootloader_wf s" using Cons.prems(2) by (simp add: in_sync_def)
  have "bootloader_wf s1" using boot_step_wf [OF wf st(1)] by simp
  then have "total_txs s1 \<le> total_txs s'" using boot_run_wf [unfolded boot_run_def, OF st(2)] by simp
  then show ?case using Cons.IH [OF st(2) boot_step_sync [OF Cons.prems(2) st(1)]] Cons.prems(3) by simp
qed simp

section \<open>Finishing the batch\<close>

lemma apply_interop_root_layout:
  "same_layout sv sv' \<Longrightarrow> apply_interop_root m o' r sv n = apply_interop_root m o' r sv' n"
  by (simp add: apply_interop_root_def same_layout_offsets)

lemma apply_l2_block_layout:
  assumes "same_layout sv sv'"
  shows "apply_l2_block m b i sv nb = apply_l2_block m b i sv' nb"
  by (cases nb) (simp_all only: apply_l2_block_def apply_l2_block_inner_def Let_def option.case l2_block_application_config.select_convs
      should_start_new_l2_block_def apply_interop_root_layout [OF assms] apply_interop_root_number_in_block_number_def
      same_layout_offsets [OF assms])

lemma apply_pubdata_layout:
  assumes "same_layout sv sv'"
  shows "apply_pubdata_to_memory ext m builder input version sv = apply_pubdata_to_memory ext m builder input version sv'"
  by (simp only: apply_pubdata_to_memory_def pubdata_for_memory_def same_layout_offsets [OF assms])

text \<open>
  The closing block: the last block without its interop roots if it is empty, else a new one. The hook writes it with the
  index the last block had before.
\<close>

lemma final_batch_info_cases:
  assumes wf: "bootloader_wf s" and fin: "final_batch_info ext fv (s, h) = Inr (s', h')"
  obtains bs b pre f where "bs_l2_blocks s = bs @ [b]" "pre = (if bb_txs b = [] then bs else bs @ [b])"
    "\<forall>x \<in> set pre. bb_txs x \<noteq> []" "bb_txs f = []" "bb_interop_roots f = []" "s' = s\<lparr>bs_l2_blocks := pre @ [f]\<rparr>"
    "h' = write_to_bootloader_heap h (fst (apply_l2_block [] f (total_txs s) (subversion_of_fast fv)
       (Some \<lparr>nb_number_of_applied_interop_roots = bs_number_of_applied_interop_roots s, nb_block_index_in_batch = length bs\<rparr>)))"
proof -
  obtain bs b where bs: "bs_l2_blocks s = bs @ [b]" "\<forall>x \<in> set bs. bb_txs x \<noteq> []" and l: "last_l2_block s = Inr b"
    and f: "free_tx_index s = Inr (total_txs s)" and g: "get_block_index_in_batch s = Inr (length bs)"
    using wf_last [OF wf] .
  show thesis
  proof (cases "bb_txs b = []")
    case True
    show thesis
      by (rule that [OF bs(1) refl, of "b\<lparr>bb_interop_roots := []\<rparr>"])
        (use fin bs l f g True in \<open>auto simp: final_batch_info_def get_new_block_config_def insert_fictive_l2_block_def
          map_last_block_def last_l2_block_def\<close>)
  next
    case False
    let ?env = "\<lparr>be_number = bb_number b + 1, be_timestamp = bb_timestamp b + 1,
      be_prev_block_hash = block_get_hash (ext_keccak ext) b, be_max_virtual_blocks_to_create = 1, be_interop_roots = []\<rparr>"
    from fin l f g False obtain s1 where s1: "start_new_l2_block (ext_keccak ext) s ?env = Inr s1"
      by (auto simp: final_batch_info_def get_new_block_config_def insert_fictive_l2_block_def)
    have s1': "s1 = s\<lparr>bs_l2_blocks := bs @ [b, block_new ?env (total_txs s)]\<rparr>"
      using start_new_l2_block_cases [OF wf s1] bs(1) by (metis append1_eq_conv append_assoc append_Cons append_Nil)
    show thesis
      by (rule that [OF bs(1) refl, of "block_new ?env (total_txs s)"])
        (use fin bs l f g False s1 in \<open>auto simp: final_batch_info_def get_new_block_config_def insert_fictive_l2_block_def
          last_l2_block_def s1' block_new_def\<close>)
  qed
qed

abbreviation has_interop_blocks :: "multi_vm_subversion \<Rightarrow> bool" where
  "has_interop_blocks sv \<equiv> sv = Interop \<or> sv = MediumInterop"

lemma apply_l2_block_no_roots:
  "bb_interop_roots f = [] \<Longrightarrow>
   fst (apply_l2_block m f i sv (Some nb)) =
     m @ words_at (get_tx_operator_l2_block_info_offset sv + i * TX_OPERATOR_SLOTS_PER_L2_BLOCK_INFO) (block_info_words f True) @
     (if has_interop_blocks sv then [(get_interop_blocks_begin_offset sv + nb_block_index_in_batch nb, 1)] else [])"
  by (simp add: apply_l2_block_def apply_l2_block_inner_def should_start_new_l2_block_def Let_def
      apply_interop_root_number_in_block_number_def)

lemma write_heap_agrees:
  "(\<And>i. i \<notin> S \<Longrightarrow> h i = h' i) \<Longrightarrow> i \<notin> S \<Longrightarrow> write_to_bootloader_heap h m i = write_to_bootloader_heap h' m i"
proof (induction m arbitrary: h h')
  case (Cons x m)
  obtain a v where x: "x = (a, v)" by (cases x)
  show ?case unfolding x write_heap_Cons by (rule Cons.IH) (use Cons.prems in auto)
qed simp

lemma bootloader_memory_of_sync:
  assumes sync: "in_sync ext fv s h" and b: "last_l2_block s = Inr b"
    and fin: "final_batch_info ext fv (s, h) = Inr st1" and pub: "pubdata_requested ext fv builder input st1 = Inr (s2, h2)"
  shows "\<exists>m. bootloader_memory ext s2 builder = Inr m \<and>
    (bb_txs b = [] \<or> \<not> has_interop_blocks (bs_subversion s) \<longrightarrow> write_to_bootloader_heap (\<lambda>_. 0) m = h2) \<and>
    (\<forall>i. (\<forall>k \<in> {length (bs_l2_blocks s) - 1, length (bs_l2_blocks s)}.
          i \<noteq> get_interop_blocks_begin_offset (bs_subversion s) + k) \<longrightarrow> write_to_bootloader_heap (\<lambda>_. 0) m i = h2 i)"
proof -
  from sync obtain c where wf: "bootloader_wf s" and lay: "same_layout (subversion_of_fast fv) (bs_subversion s)"
    and c: "cursor_of ext s = Inr c" "tracks s c" "h = write_to_bootloader_heap (\<lambda>_. 0) (mc_memory c)"
    by (auto simp: in_sync_def)
  obtain s1 h1 where st1: "st1 = (s1, h1)" by (cases st1)
  let ?sv = "bs_subversion s"
  let ?nb = "\<lambda>k. Some \<lparr>nb_number_of_applied_interop_roots = bs_number_of_applied_interop_roots s, nb_block_index_in_batch = k\<rparr>"
  from final_batch_info_cases [OF wf fin [unfolded st1]] obtain bs b' pre f where bs: "bs_l2_blocks s = bs @ [b']"
    and pre: "pre = (if bb_txs b' = [] then bs else bs @ [b'])" and ne: "\<forall>x \<in> set pre. bb_txs x \<noteq> []"
    and f: "bb_txs f = []" "bb_interop_roots f = []" and s1: "s1 = s\<lparr>bs_l2_blocks := pre @ [f]\<rparr>"
    and h1: "h1 = write_to_bootloader_heap h (fst (apply_l2_block [] f (total_txs s) ?sv (?nb (length bs))))"
    unfolding apply_l2_block_layout [OF lay] .
  have b': "b' = b" using b bs by (simp add: last_l2_block_def)
  from pub obtain d where s2: "s2 = s1\<lparr>bs_pubdata_information := Some input\<rparr>"
    and d: "apply_pubdata_to_memory ext [] builder input (bs_protocol_version s) ?sv = Inr d"
    and h2: "h2 = write_to_bootloader_heap h1 d"
    by (auto simp: pubdata_requested_def st1 s1 set_pubdata_input_def apply_pubdata_layout [OF lay])
  have rev: "rebuild_rev ext (bs_execution_mode s) ?sv (rev pre) (cursor_start (bs_initial_memory s)) = Inr c"
    using c(1) cursor_of_snoc [OF bs] by (auto simp: cursor_of_def bs pre)
  let ?l = "apply_l2_block [] f (total_txs s) ?sv (?nb (length pre))"
  have "apply_l2_block (mc_memory c) f (total_txs s) ?sv (?nb (length pre)) = (mc_memory c @ fst ?l, snd ?l)"
    unfolding apply_l2_block_def by (rule apply_l2_block_inner_prefix)
  then have "rebuild_blocks ext (bs_execution_mode s) ?sv (length pre) 0 (pre @ [f]) (cursor_start (bs_initial_memory s)) =
      Inr (c\<lparr>mc_memory := mc_memory c @ fst ?l, mc_applied_interop_roots_offset := mc_applied_interop_roots_offset c + snd ?l\<rparr>)"
    using rev c(2) by (simp add: rebuild_blocks_snoc rebuild_blocks_eq_rev [OF ne] rebuild_block_def f(1) tracks_def)
  moreover have "apply_pubdata_to_memory ext m builder input (bs_protocol_version s) ?sv = Inr (m @ d)" for m
    using d by (auto simp: apply_pubdata_to_memory_def)
  ultimately have m: "bootloader_memory ext s2 builder = Inr ((mc_memory c @ fst ?l) @ d)"
    by (simp add: bootloader_memory_def s2 s1 get_pubdata_information_def)
  let ?m = "(mc_memory c @ fst ?l) @ d"
  have "bb_txs b = [] \<or> \<not> has_interop_blocks ?sv \<Longrightarrow> write_to_bootloader_heap (\<lambda>_. 0) ?m = h2"
    by (auto simp: h2 h1 c(3) apply_l2_block_no_roots [OF f(2)] pre b')
  moreover have "write_to_bootloader_heap (\<lambda>_. 0) ?m i = h2 i"
    if "\<forall>k \<in> {length (bs_l2_blocks s) - 1, length (bs_l2_blocks s)}. i \<noteq> get_interop_blocks_begin_offset ?sv + k" for i
    unfolding h2 write_heap_append
    by (rule write_heap_agrees [where S = "{get_interop_blocks_begin_offset ?sv + length bs,
          get_interop_blocks_begin_offset ?sv + Suc (length bs)}"])
      (use that in \<open>auto simp: h1 c(3) apply_l2_block_no_roots [OF f(2)] pre bs\<close>)
  ultimately show ?thesis using m by blast
qed

text \<open>
  C12. The bootloader memory reported for a batch is the one the bootloader executed on: whatever transactions, blocks
  and refunds the wrapper processed, in whatever order, for at most \<open>MAX_TXS_IN_BATCH\<close> transactions, once the two closing
  hooks (\<open>FinalBatchInfo\<close> with the fictive block, \<open>PubdataRequested\<close>) have run, rebuilding the memory from the state
  succeeds and puts into the heap the words that were written to it step by step. This holds of every slot when the last
  block is empty, as in every batch the verifier accepts, and in the versions without interop roots. After a last block
  with transactions two slots are excepted: the hook writes the fictive block's number of interop roots to the slot of
  the block before it, the rebuilt memory to the next one.
\<close>

theorem bootloader_memory_is_heap:
  assumes "fast_vm_version_try_from (vm_version_from version) = Some fv"
    and "boot_init mode env version fv = Inr st0" "boot_run ext fv st0 evs = Inr (s, h)"
    and "free_tx_index s = Inr n" "n \<le> MAX_TXS_IN_BATCH" and "last_l2_block s = Inr b"
    and "final_batch_info ext fv (s, h) = Inr st1" "pubdata_requested ext fv builder input st1 = Inr (s2, h2)"
  shows "\<exists>m. bootloader_memory ext s2 builder = Inr m \<and>
    (bb_txs b = [] \<or> \<not> has_interop_blocks (bs_subversion s) \<longrightarrow> write_to_bootloader_heap (\<lambda>_. 0) m = h2) \<and>
    (\<forall>i. (\<forall>k \<in> {length (bs_l2_blocks s) - 1, length (bs_l2_blocks s)}.
          i \<noteq> get_interop_blocks_begin_offset (bs_subversion s) + k) \<longrightarrow> write_to_bootloader_heap (\<lambda>_. 0) m i = h2 i)"
proof -
  obtain s0 h0 where st0: "st0 = (s0, h0)" by (cases st0)
  have sync0: "in_sync ext fv s0 h0" using boot_init_sync [OF assms(1)] assms(2) by (simp add: st0)
  then have wf: "bootloader_wf s" using boot_run_wf assms(3) by (simp add: st0 in_sync_def)
  have "total_txs s \<le> MAX_TXS_IN_BATCH" using wf_last [OF wf] assms(4,5) by (metis sum.inject(2))
  with boot_run_sync [OF assms(3) [unfolded st0] sync0] have "in_sync ext fv s h" by simp
  from bootloader_memory_of_sync [OF this assms(6-8)] show ?thesis .
qed

end
