(* ===== verification/Bootloader_Rollback.thy ===== *)
theory Bootloader_Rollback
  imports Bootloader_Memory
begin

text \<open>
  Snapshots of the bootloader state. A snapshot keeps the lengths and the rolling hash of the last block only; what
  happens between the snapshot and the rollback appends to the transactions and blocks, touches what was appended, or
  sets the refund of a transaction that was pushed but not executed when the snapshot was taken. Rolling back restores
  the state up to those refunds.
\<close>

section \<open>States up to refunds\<close>

text \<open>The state without the refunds of the transactions from number \<open>n\<close> on.\<close>

definition forget_refunds :: "nat \<Rightarrow> bootloader_l2_block \<Rightarrow> bootloader_l2_block" where
  "forget_refunds n b = b\<lparr>bb_txs := map (\<lambda>(i, tx). if n \<le> i then tx\<lparr>bt_refund := 0\<rparr> else tx)
     (enumerate (bb_first_tx_index b) (bb_txs b))\<rparr>"

definition same_up_to_refunds :: "nat \<Rightarrow> bootloader_state \<Rightarrow> bootloader_state \<Rightarrow> bool" where
  "same_up_to_refunds n s s' \<longleftrightarrow>
     s'\<lparr>bs_l2_blocks := map (forget_refunds n) (bs_l2_blocks s')\<rparr> = s\<lparr>bs_l2_blocks := map (forget_refunds n) (bs_l2_blocks s)\<rparr>"

lemma forget_refunds_eqD:
  assumes "forget_refunds n b' = forget_refunds n b"
  shows "bb_first_tx_index b' = bb_first_tx_index b" "length (bb_txs b') = length (bb_txs b)"
    "bb_txs_rolling_hash b' = bb_txs_rolling_hash b"
  using arg_cong [OF assms, of bb_first_tx_index] arg_cong [OF assms, of "length \<circ> bb_txs"]
    arg_cong [OF assms, of bb_txs_rolling_hash]
  by (simp_all add: forget_refunds_def)

lemma forget_refunds_update:
  assumes "p < length (bb_txs b)" "n \<le> bb_first_tx_index b + p"
  shows "forget_refunds n (b\<lparr>bb_txs := (bb_txs b)[p := (bb_txs b ! p)\<lparr>bt_refund := r\<rparr>]\<rparr>) = forget_refunds n b"
proof -
  have "map (\<lambda>(i, tx). if n \<le> i then tx\<lparr>bt_refund := 0\<rparr> else tx)
      (enumerate (bb_first_tx_index b) ((bb_txs b)[p := (bb_txs b ! p)\<lparr>bt_refund := r\<rparr>])) =
    map (\<lambda>(i, tx). if n \<le> i then tx\<lparr>bt_refund := 0\<rparr> else tx) (enumerate (bb_first_tx_index b) (bb_txs b))"
    using assms by (intro nth_equalityI) (auto simp: nth_enumerate_eq nth_list_update)
  then show ?thesis by (simp add: forget_refunds_def)
qed

lemma forget_refunds_executed: "bb_first_tx_index b + length (bb_txs b) \<le> n \<Longrightarrow> forget_refunds n b = b"
proof -
  assume "bb_first_tx_index b + length (bb_txs b) \<le> n"
  then have "map (\<lambda>(i, tx). if n \<le> i then tx\<lparr>bt_refund := 0\<rparr> else tx) (enumerate (bb_first_tx_index b) (bb_txs b)) = bb_txs b"
    by (intro nth_equalityI) (auto simp: nth_enumerate_eq)
  then show ?thesis by (simp add: forget_refunds_def)
qed

lemma block_indices_bound:
  "block_indices_ok bs \<Longrightarrow> b \<in> set bs \<Longrightarrow> bb_first_tx_index b + length (bb_txs b) \<le> sum_list (map (length \<circ> bb_txs) bs)"
  by (induction bs) auto

text \<open>With every transaction executed there is no refund to forget.\<close>

lemma forget_refunds_all_executed:
  assumes same: "map (forget_refunds n) bs = map (forget_refunds n) (bs_l2_blocks s)"
    and "bootloader_wf s" "total_txs s \<le> n"
  shows "bs = bs_l2_blocks s"
proof -
  have "sum_list (map (length \<circ> bb_txs) (rev (bs_l2_blocks s))) = total_txs s"
    by (metis rev_map sum_list_rev total_txs_def)
  then have old: "bb_first_tx_index b + length (bb_txs b) \<le> n" if "b \<in> set (bs_l2_blocks s)" for b
    using block_indices_bound [of "rev (bs_l2_blocks s)" b] assms(2,3) that by (simp add: bootloader_wf_def)
  have "bb_first_tx_index b + length (bb_txs b) \<le> n" if "b \<in> set bs" for b
  proof -
    have "forget_refunds n b \<in> set (map (forget_refunds n) (bs_l2_blocks s))" using that by (simp flip: same)
    then obtain b0 where "b0 \<in> set (bs_l2_blocks s)" "forget_refunds n b = forget_refunds n b0" by auto
    then show ?thesis using old forget_refunds_eqD [of n b b0] by simp
  qed
  then have "map (forget_refunds n) bs = bs" "map (forget_refunds n) (bs_l2_blocks s) = bs_l2_blocks s"
    using old by (auto intro: map_idI forget_refunds_executed)
  then show ?thesis using same by metis
qed

lemma same_up_to_refunds_executed:
  assumes "same_up_to_refunds n s s'" "bootloader_wf s" "total_txs s \<le> n"
  shows "s' = s"
proof -
  note same = assms(1) [unfolded same_up_to_refunds_def]
  have "bs_l2_blocks s' = bs_l2_blocks s"
    using forget_refunds_all_executed [OF _ assms(2,3)] arg_cong [OF same, of bs_l2_blocks] by simp
  then have "s'\<lparr>bs_l2_blocks := bs_l2_blocks s'\<rparr> = s"
    using arg_cong [OF same, of "\<lambda>t. t\<lparr>bs_l2_blocks := bs_l2_blocks s\<rparr>"] by simp
  then show ?thesis by simp
qed

section \<open>What a run appends\<close>

definition grown_block :: "bootloader_l2_block \<Rightarrow> h256 \<Rightarrow> bootloader_tx list \<Rightarrow> bootloader_l2_block" where
  "grown_block b h xs = b\<lparr>bb_txs_rolling_hash := h, bb_txs := bb_txs b @ xs\<rparr>"

text \<open>\<open>s'\<close> extends a state that is \<open>s\<close> up to the refunds of the transactions that \<open>s\<close> has not executed.\<close>

definition blocks_extend :: "nat \<Rightarrow> bootloader_l2_block list \<Rightarrow> bootloader_l2_block list \<Rightarrow> bool" where
  "blocks_extend n old new \<longleftrightarrow>
     (\<exists>bs b h xs more. new = bs @ grown_block b h xs # more \<and> map (forget_refunds n) (bs @ [b]) = map (forget_refunds n) old)"

lemma blocks_extendI:
  "new = bs @ grown_block b h xs # newer \<Longrightarrow> map (forget_refunds n) (bs @ [b]) = map (forget_refunds n) old \<Longrightarrow>
   blocks_extend n old new"
  unfolding blocks_extend_def by blast

lemma blocks_extendE:
  assumes "blocks_extend n old new"
  obtains bs b h xs newer where "new = bs @ grown_block b h xs # newer" "map (forget_refunds n) (bs @ [b]) = map (forget_refunds n) old"
  using assms unfolding blocks_extend_def by blast

definition extends :: "bootloader_state \<Rightarrow> bootloader_state \<Rightarrow> bool" where
  "extends s s' \<longleftrightarrow> blocks_extend (bs_tx_to_execute s) (bs_l2_blocks s) (bs_l2_blocks s') \<and>
     bs_initial_memory s' = bs_initial_memory s \<and> bs_execution_mode s' = bs_execution_mode s \<and>
     bs_pubdata_information s' = bs_pubdata_information s \<and> bs_protocol_version s' = bs_protocol_version s \<and>
     bs_subversion s' = bs_subversion s \<and> bs_tx_to_execute s \<le> bs_tx_to_execute s'"

lemma extends_refl: "bootloader_wf s \<Longrightarrow> extends s s"
proof -
  assume "bootloader_wf s"
  then obtain bs b where bs: "bs_l2_blocks s = bs @ [b]" using wf_last by blast
  have "b = grown_block b (bb_txs_rolling_hash b) []" by (simp add: grown_block_def)
  with bs have "blocks_extend (bs_tx_to_execute s) (bs_l2_blocks s) (bs_l2_blocks s)"
    using blocks_extendI [of _ bs b _ "[]" "[]"] by metis
  then show ?thesis by (simp add: extends_def)
qed

lemma apply_snapshot_extends:
  assumes "extends s s'" "get_snapshot s = Inr snap" "bootloader_wf s"
  shows "\<exists>s''. apply_snapshot s' snap = Inr s'' \<and> same_up_to_refunds (bs_tx_to_execute s) s s''"
proof -
  let ?n = "bs_tx_to_execute s"
  obtain cs c where cs: "bs_l2_blocks s = cs @ [c]" using wf_last [OF assms(3)] by blast
  obtain bs b h xs more where bs: "bs_l2_blocks s' = bs @ grown_block b h xs # more"
    and same: "map (forget_refunds ?n) (bs @ [b]) = map (forget_refunds ?n) (cs @ [c])"
    using assms(1) blocks_extendE unfolding extends_def cs by metis
  then have b: "forget_refunds ?n b = forget_refunds ?n c" by simp
  have len: "length bs = length cs" using map_eq_imp_length_eq [OF same] by simp
  have "block_apply_snapshot (grown_block b h xs) (block_make_snapshot c) = Inr b"
    using forget_refunds_eqD [OF b] by (simp add: block_apply_snapshot_def block_make_snapshot_def grown_block_def)
  then have "apply_snapshot s' snap = Inr (s\<lparr>bs_l2_blocks := bs @ [b]\<rparr>)"
    using assms(1,2) bs len by (auto simp: apply_snapshot_def get_snapshot_def extends_def last_l2_block_def map_last_block_def cs
        intro!: bootloader_state.equality)
  with same show ?thesis by (simp add: same_up_to_refunds_def cs)
qed

lemma extends_executed:
  assumes "extends s s'" "bootloader_wf s" "bs_tx_to_execute s = total_txs s"
  obtains bs b h xs newer where "bs_l2_blocks s = bs @ [b]" "bs_l2_blocks s' = bs @ grown_block b h xs # newer"
proof -
  from assms(1) obtain bs b h xs newer where s': "bs_l2_blocks s' = bs @ grown_block b h xs # newer"
    and same: "map (forget_refunds (total_txs s)) (bs @ [b]) = map (forget_refunds (total_txs s)) (bs_l2_blocks s)"
    unfolding extends_def assms(3) by (blast elim: blocks_extendE)
  show thesis by (rule that [OF _ s']) (simp add: forget_refunds_all_executed [OF same assms(2)])
qed

lemma apply_snapshot_executed:
  assumes "extends s s'" "get_snapshot s = Inr snap" "bootloader_wf s" "bs_tx_to_execute s = total_txs s"
  shows "apply_snapshot s' snap = Inr s"
  using apply_snapshot_extends [OF assms(1-3)] same_up_to_refunds_executed [OF _ assms(3)] assms(4) by auto

lemma push_tx_extends:
  assumes "extends s0 s" "bootloader_wf s" "push_tx ext s td overhead refund compressed limit chain_id = Inr (s', d, ec)"
  shows "extends s0 s'"
proof -
  from push_tx_cases [OF assms(2,3)] obtain cs l tx n r where cs: "bs_l2_blocks s = cs @ [l]"
    and s': "s' = s\<lparr>bs_compressed_bytecodes_encoding := bs_compressed_bytecodes_encoding s + n,
       bs_free_tx_offset := bs_free_tx_offset s + encoded_len tx,
       bs_number_of_applied_interop_roots := bs_number_of_applied_interop_roots s + r,
       bs_l2_blocks := cs @ [block_push_tx (ext_keccak ext) l tx]\<rparr>" .
  let ?n = "bs_tx_to_execute s0"
  obtain bs b h xs more where bs: "map (forget_refunds ?n) (bs @ [b]) = map (forget_refunds ?n) (bs_l2_blocks s0)"
    "bs_l2_blocks s = bs @ grown_block b h xs # more"
    using assms(1) blocks_extendE unfolding extends_def by metis
  let ?l = "block_push_tx (ext_keccak ext) l tx"
  have "\<exists>h xs more. bs_l2_blocks s' = bs @ grown_block b h xs # more"
  proof (cases more rule: rev_cases)
    case Nil
    then have "cs = bs" "l = grown_block b h xs" using cs bs(2) by simp_all
    then have "?l = grown_block b (bb_txs_rolling_hash ?l) (xs @ [tx])"
      by (simp add: grown_block_def block_push_tx_def update_rolling_hash_def)
    then show ?thesis using \<open>cs = bs\<close> by (auto simp: s')
  next
    case (snoc ms m)
    then have "cs = bs @ grown_block b h xs # ms" using cs bs(2) by simp
    then show ?thesis by (auto simp: s')
  qed
  then have "blocks_extend ?n (bs_l2_blocks s0) (bs_l2_blocks s')" using blocks_extendI [OF _ bs(1)] by blast
  then show ?thesis using assms(1) by (simp add: extends_def s')
qed

lemma start_new_l2_block_extends:
  assumes "extends s0 s" "bootloader_wf s" "start_new_l2_block keccak s env = Inr s'"
  shows "extends s0 s'"
proof -
  from start_new_l2_block_cases [OF assms(2,3)] obtain cs l where "bs_l2_blocks s = cs @ [l]"
    and s': "s' = s\<lparr>bs_l2_blocks := cs @ [l, block_new env (total_txs s)]\<rparr>" .
  then have s2: "s' = s\<lparr>bs_l2_blocks := bs_l2_blocks s @ [block_new env (total_txs s)]\<rparr>" by simp
  let ?n = "bs_tx_to_execute s0"
  obtain bs b h xs more where bs: "bs_l2_blocks s = bs @ grown_block b h xs # more"
    "map (forget_refunds ?n) (bs @ [b]) = map (forget_refunds ?n) (bs_l2_blocks s0)"
    using assms(1) blocks_extendE unfolding extends_def by metis
  have "bs_l2_blocks s' = bs @ grown_block b h xs # (more @ [block_new env (total_txs s)])" by (simp add: s2 bs(1))
  from blocks_extendI [OF this bs(2)] show ?thesis using assms(1) by (simp add: extends_def s2)
qed

text \<open>A refund for a transaction that was not executed when the snapshot was taken.\<close>

abbreviation set_refund :: "u64 \<Rightarrow> bootloader_tx \<Rightarrow> bootloader_tx" where
  "set_refund r tx \<equiv> tx\<lparr>bt_refund := r\<rparr>"

lemma update_tx_in_forget:
  "update_tx_in (set_refund r) i bs = Inr bs' \<Longrightarrow> n \<le> i \<Longrightarrow> map (forget_refunds n) bs' = map (forget_refunds n) bs"
  by (induction bs arbitrary: bs') (auto simp: Let_def forget_refunds_update split: if_splits)

lemma update_tx_in_grown:
  assumes "update_tx_in (set_refund r) i (ms @ grown_block b h xs # bs) = Inr out" "n \<le> i"
  shows "\<exists>ms' b' xs' bs'. out = ms' @ grown_block b' h xs' # bs' \<and>
    map (forget_refunds n) (b' # bs') = map (forget_refunds n) (b # bs)"
  using assms
proof (induction ms arbitrary: out)
  case Nil
  let ?p = "i - bb_first_tx_index b" and ?g = "grown_block b h xs"
  have g: "bb_first_tx_index ?g = bb_first_tx_index b" "bb_txs ?g = bb_txs b @ xs" by (simp_all add: grown_block_def)
  show ?case
  proof (cases "bb_first_tx_index b \<le> i")
    case False
    with Nil g obtain bs' where "out = [] @ ?g # bs'" "update_tx_in (set_refund r) i bs = Inr bs'" by (auto simp: Let_def)
    then show ?thesis using update_tx_in_forget [OF _ Nil.prems(2)] by (metis list.simps(9))
  next
    case True
    then have out: "out = ?g\<lparr>bb_txs := (bb_txs b @ xs)[?p := set_refund r ((bb_txs b @ xs) ! ?p)]\<rparr> # bs"
      using Nil.prems(1) g by (auto simp: Let_def)
    show ?thesis
    proof (cases "?p < length (bb_txs b)")
      case True
      let ?b = "b\<lparr>bb_txs := (bb_txs b)[?p := set_refund r (bb_txs b ! ?p)]\<rparr>"
      have "out = [] @ grown_block ?b h xs # bs"
        using True by (simp add: out grown_block_def list_update_append nth_append)
      moreover have "forget_refunds n ?b = forget_refunds n b"
        using True \<open>bb_first_tx_index b \<le> i\<close> Nil.prems(2) by (intro forget_refunds_update) simp_all
      ultimately show ?thesis by (metis list.simps(9))
    next
      case False
      then have "out = [] @ grown_block b h (xs[?p - length (bb_txs b) := set_refund r ((bb_txs b @ xs) ! ?p)]) # bs"
        by (simp add: out grown_block_def list_update_append)
      then show ?thesis by blast
    qed
  qed
next
  case (Cons m ms)
  show ?case
  proof (cases "bb_first_tx_index m \<le> i")
    case True
    with Cons.prems(1) obtain m' where "out = (m' # ms) @ grown_block b h xs # bs" by (auto simp: Let_def)
    then show ?thesis by blast
  next
    case False
    with Cons.prems(1) obtain out2 where "update_tx_in (set_refund r) i (ms @ grown_block b h xs # bs) = Inr out2" "out = m # out2"
      by (auto simp: Let_def)
    with Cons.IH Cons.prems(2) show ?thesis by (metis append_Cons)
  qed
qed

lemma ask_operator_extends:
  assumes ext: "extends s0 s" and ask: "ask_operator_for_refund fv (s, h) r = Inr (s', h')"
    and new: "bs_tx_to_execute s0 < bs_tx_to_execute s"
  shows "extends s0 s'" "bs_tx_to_execute s' = bs_tx_to_execute s"
proof -
  let ?i = "bs_tx_to_execute s - 1" and ?n = "bs_tx_to_execute s0"
  from ask obtain out where upd: "update_tx_in (set_refund r) ?i (rev (bs_l2_blocks s)) = Inr out"
    and s': "s' = s\<lparr>bs_l2_blocks := rev out\<rparr>"
    by (auto simp: ask_operator_for_refund_def set_refund_for_current_tx_def current_tx_def find_tx_mut_def)
  obtain bs b k xs more where bs: "bs_l2_blocks s = bs @ grown_block b k xs # more"
    "map (forget_refunds ?n) (bs @ [b]) = map (forget_refunds ?n) (bs_l2_blocks s0)"
    using ext blocks_extendE unfolding extends_def by metis
  have "rev (bs_l2_blocks s) = rev more @ grown_block b k xs # rev bs" "?n \<le> ?i" using bs(1) new by simp_all
  then obtain ms' b' xs' bs' where out: "out = ms' @ grown_block b' k xs' # bs'"
    and same: "map (forget_refunds ?n) (b' # bs') = map (forget_refunds ?n) (b # rev bs)"
    using update_tx_in_grown upd by metis
  have "bs_l2_blocks s' = rev bs' @ grown_block b' k xs' # rev ms'" by (simp add: s' out)
  moreover have "map (forget_refunds ?n) (rev bs' @ [b']) = map (forget_refunds ?n) (bs_l2_blocks s0)"
    using same bs(2) by (simp add: rev_map [symmetric])
  ultimately have "blocks_extend ?n (bs_l2_blocks s0) (bs_l2_blocks s')" by (rule blocks_extendI)
  then show "extends s0 s'" using ext by (simp add: extends_def s')
  show "bs_tx_to_execute s' = bs_tx_to_execute s" by (simp add: s')
qed

lemma ask_operators_extends:
  "fold_res (ask_operator_for_refund fv) (s, h) rs = Inr (s', h') \<Longrightarrow> extends s0 s \<Longrightarrow>
   bs_tx_to_execute s0 < bs_tx_to_execute s \<Longrightarrow> extends s0 s'"
proof (induction rs arbitrary: s h)
  case (Cons r rs)
  then obtain s1 h1 where ask: "ask_operator_for_refund fv (s, h) r = Inr (s1, h1)"
    "fold_res (ask_operator_for_refund fv) (s1, h1) rs = Inr (s', h')" by auto
  from ask_operator_extends [OF Cons.prems(2) ask(1) Cons.prems(3)] show ?case
    using Cons.IH [OF ask(2)] Cons.prems(3) by simp
qed simp

lemma boot_step_extends:
  assumes ext: "extends s0 s" and wf: "bootloader_wf s" and step: "boot_step ext fv (s, h) ev = Inr (s', h')"
  shows "extends s0 s'"
proof (cases ev)
  case (PushTx td overhead refund compressed limit chain_id)
  with step push_tx_extends [OF ext wf] show ?thesis by (auto simp: boot_step_def split: prod.splits)
next
  case (StartBlock env)
  with step start_new_l2_block_extends [OF ext wf] show ?thesis by (auto simp: boot_step_def)
next
  case (ExecuteTx rs)
  with step obtain s1 i where m: "move_tx_to_execute_pointer s = Inr (s1, i)"
    and f: "fold_res (ask_operator_for_refund fv) (s1, h) rs = Inr (s', h')" by (auto simp: boot_step_def)
  note mv = move_tx_wf(4,5) [OF wf m]
  have "extends s0 s1" "bs_tx_to_execute s0 < bs_tx_to_execute s1" using ext by (auto simp: extends_def mv)
  then show ?thesis using ask_operators_extends [OF f] by blast
qed

lemma boot_run_extends:
  "boot_run ext fv (s, h) evs = Inr (s', h') \<Longrightarrow> extends s0 s \<Longrightarrow> bootloader_wf s \<Longrightarrow> extends s0 s'"
  unfolding boot_run_def
proof (induction evs arbitrary: s h)
  case (Cons ev evs)
  then obtain s1 h1 where st: "boot_step ext fv (s, h) ev = Inr (s1, h1)" "fold_res (boot_step ext fv) (s1, h1) evs = Inr (s', h')"
    by auto
  from boot_step_extends [OF Cons.prems(2,3) st(1)] boot_step_wf [OF Cons.prems(3) st(1)] Cons.IH [OF st(2)]
  show ?case by simp
qed simp

text \<open>
  C13. Rolling back to a snapshot: take a snapshot of any state the wrapper can be in, whether or not the pushed
  transactions are executed, then push, execute and refund any number of transactions and start any number of blocks;
  applying the snapshot succeeds and gives the state it was taken of, up to the refunds of the transactions that were
  pushed but not executed at the snapshot. If all were executed the state is restored exactly.
\<close>

theorem snapshot_rollback:
  assumes "boot_init mode env version fv = Inr st0" "boot_run ext fv st0 evs = Inr (s, h)"
    and "get_snapshot s = Inr snap" "boot_run ext fv (s, h1) evs' = Inr (s', h')"
  shows "\<exists>s''. apply_snapshot s' snap = Inr s'' \<and> same_up_to_refunds (bs_tx_to_execute s) s s'' \<and>
    (free_tx_index s = Inr (bs_tx_to_execute s) \<longrightarrow> s'' = s)"
proof -
  obtain s0 h0 where st0: "st0 = (s0, h0)" by (cases st0)
  have "bootloader_wf s0"
    using assms(1) by (auto simp: st0 boot_init_def bootloader_state_new_def bootloader_wf_def total_txs_def Let_def)
  then have wf: "bootloader_wf s" using boot_run_wf assms(2) by (simp add: st0)
  from apply_snapshot_extends [OF boot_run_extends [OF assms(4) extends_refl [OF wf] wf] assms(3) wf]
  obtain s'' where s'': "apply_snapshot s' snap = Inr s''" "same_up_to_refunds (bs_tx_to_execute s) s s''" by blast
  moreover have "total_txs s \<le> bs_tx_to_execute s" if "free_tx_index s = Inr (bs_tx_to_execute s)"
    using wf_last [OF wf] that by (metis order_refl sum.inject(2))
  ultimately show ?thesis using same_up_to_refunds_executed [OF s''(2) wf] by blast
qed

end
