(* ===== verification/Bootloader_Ledger.thy ===== *)
theory Bootloader_Ledger
  imports Bootloader_Memory
begin

text \<open>
  The transactions of the bootloader state as one ledger: their encodings lie back to back, each block carries the
  rolling hash of its transactions, and the index of a transaction finds it in its block.
\<close>

fun offsets_ok :: "nat \<Rightarrow> bootloader_tx list \<Rightarrow> bool" where
  "offsets_ok off [] \<longleftrightarrow> True"
| "offsets_ok off (t # ts) \<longleftrightarrow> bt_offset t = off \<and> offsets_ok (off + encoded_len t) ts"

definition flat_txs :: "bootloader_state \<Rightarrow> bootloader_tx list" where
  "flat_txs s = concat (map bb_txs (bs_l2_blocks s))"

definition ledger :: "hash_fn \<Rightarrow> bootloader_state \<Rightarrow> bool" where
  "ledger keccak s \<longleftrightarrow>
     (\<forall>b \<in> set (bs_l2_blocks s). bb_txs_rolling_hash b = foldl (keccak256_concat keccak) 0 (map bt_hash (bb_txs b))) \<and>
     offsets_ok 0 (flat_txs s) \<and> bs_free_tx_offset s = sum_list (map encoded_len (flat_txs s))"

lemma offsets_ok_append: "offsets_ok off (xs @ ys) \<longleftrightarrow> offsets_ok off xs \<and> offsets_ok (off + sum_list (map encoded_len xs)) ys"
  by (induction xs arbitrary: off) (auto simp: add.assoc)

lemma length_flat_txs: "length (flat_txs s) = total_txs s"
  by (simp add: flat_txs_def total_txs_def length_concat)

text \<open>What a refund leaves alone.\<close>

definition core :: "bootloader_tx \<Rightarrow> h256 \<times> u256 list \<times> nat" where
  "core t = (bt_hash t, bt_encoded t, bt_offset t)"

lemma core_refund [simp]: "core (t\<lparr>bt_refund := v\<rparr>) = core t"
  by (simp add: core_def)

lemma offsets_ok_core: "map core xs = map core ys \<Longrightarrow> offsets_ok off xs = offsets_ok off ys"
proof (induction xs arbitrary: ys off)
  case (Cons x xs)
  then obtain y ys' where ys: "ys = y # ys'" and c: "core x = core y" and m: "map core xs = map core ys'" by (cases ys) auto
  from c have "bt_offset x = bt_offset y" "encoded_len x = encoded_len y" by (simp_all add: core_def encoded_len_def)
  then show ?case by (simp only: ys offsets_ok.simps Cons.IH [OF m])
qed simp

lemma map_core_image: "map core xs = map core ys \<Longrightarrow> map bt_hash xs = map bt_hash ys \<and> map encoded_len xs = map encoded_len ys"
proof (induction xs arbitrary: ys)
  case (Cons x xs)
  then obtain y ys' where ys: "ys = y # ys'" and c: "core x = core y" and m: "map core xs = map core ys'" by (cases ys) auto
  from c have "bt_hash x = bt_hash y" "encoded_len x = encoded_len y" by (simp_all add: core_def encoded_len_def)
  then show ?case using Cons.IH [OF m] by (simp only: ys list.map simp_thms)
qed simp

lemma update_tx_in_core:
  assumes "update_tx_in f i r = Inr r'" "\<And>t. core (f t) = core t"
  shows "map (\<lambda>b. (map core (bb_txs b), bb_txs_rolling_hash b)) r' = map (\<lambda>b. (map core (bb_txs b), bb_txs_rolling_hash b)) r"
  using assms(1)
proof (induction r arbitrary: r')
  case (Cons b r)
  show ?case
  proof (cases "bb_first_tx_index b \<le> i")
    case True
    then show ?thesis using Cons.prems by (auto simp: Let_def map_update assms(2)) (metis list_update_id map_update)
  next
    case False
    then show ?thesis using Cons by (auto simp: Let_def)
  qed
qed simp

lemma ledger_cong:
  assumes "map (\<lambda>b. (map core (bb_txs b), bb_txs_rolling_hash b)) (bs_l2_blocks s') =
      map (\<lambda>b. (map core (bb_txs b), bb_txs_rolling_hash b)) (bs_l2_blocks s)" (is "map ?f _ = map ?f _")
    and "bs_free_tx_offset s' = bs_free_tx_offset s" "ledger keccak s"
  shows "ledger keccak s'"
proof -
  have flat: "map core (flat_txs s') = map core (flat_txs s)"
    using arg_cong [OF assms(1), of "\<lambda>xs. concat (map fst xs)"] by (simp add: flat_txs_def map_concat comp_def)
  have "bb_txs_rolling_hash b = foldl (keccak256_concat keccak) 0 (map bt_hash (bb_txs b))" if "b \<in> set (bs_l2_blocks s')" for b
  proof -
    have "?f b \<in> set (map ?f (bs_l2_blocks s))" using that unfolding assms(1) [symmetric] by simp
    then obtain b2 where "b2 \<in> set (bs_l2_blocks s)" "map core (bb_txs b) = map core (bb_txs b2)"
      "bb_txs_rolling_hash b = bb_txs_rolling_hash b2" by auto
    with assms(3) map_core_image show ?thesis unfolding ledger_def by metis
  qed
  then show ?thesis
    using assms(2,3) flat offsets_ok_core [OF flat] map_core_image [OF flat] by (simp add: ledger_def)
qed

section \<open>Every step keeps the ledger\<close>

lemma push_tx_ledger:
  assumes "bootloader_wf s" "ledger (ext_keccak ext) s" "push_tx ext s td overhead refund compressed limit chain_id = Inr (s', d, ec)"
  shows "ledger (ext_keccak ext) s'"
proof -
  from push_tx_cases [OF assms(1,3)] obtain bs b tx n r where bs: "bs_l2_blocks s = bs @ [b]"
    and s': "s' = s\<lparr>bs_compressed_bytecodes_encoding := bs_compressed_bytecodes_encoding s + n,
       bs_free_tx_offset := bs_free_tx_offset s + encoded_len tx,
       bs_number_of_applied_interop_roots := bs_number_of_applied_interop_roots s + r,
       bs_l2_blocks := bs @ [block_push_tx (ext_keccak ext) b tx]\<rparr>" and off: "bt_offset tx = bs_free_tx_offset s" .
  have "flat_txs s' = flat_txs s @ [tx]" by (simp add: flat_txs_def bs s')
  moreover have "bb_txs_rolling_hash (block_push_tx (ext_keccak ext) b tx) =
      keccak256_concat (ext_keccak ext) (bb_txs_rolling_hash b) (bt_hash tx)"
    by (simp add: block_push_tx_def update_rolling_hash_def)
  ultimately show ?thesis using assms(2) off by (auto simp: ledger_def s' bs offsets_ok_append)
qed

lemma start_new_l2_block_ledger:
  assumes "bootloader_wf s" "ledger keccak s" "start_new_l2_block keccak s env = Inr s'"
  shows "ledger keccak s'"
proof -
  from start_new_l2_block_cases [OF assms(1,3)] obtain bs b where bs: "bs_l2_blocks s = bs @ [b]"
    and s': "s' = s\<lparr>bs_l2_blocks := bs @ [b, block_new env (total_txs s)]\<rparr>" .
  have "flat_txs s' = flat_txs s" by (simp add: flat_txs_def bs s')
  moreover have "bb_txs_rolling_hash (block_new env (total_txs s)) = 0" by (simp add: block_new_def)
  ultimately show ?thesis using assms(2) by (auto simp: ledger_def s' bs)
qed

lemma ask_operators_ledger:
  "fold_res (ask_operator_for_refund fv) (s, h) rs = Inr (s', h') \<Longrightarrow> ledger keccak s \<Longrightarrow> ledger keccak s'"
proof (induction rs arbitrary: s h)
  case (Cons r rs)
  then obtain s1 h1 where ask: "ask_operator_for_refund fv (s, h) r = Inr (s1, h1)"
    "fold_res (ask_operator_for_refund fv) (s1, h1) rs = Inr (s', h')" by auto
  from ask(1) obtain i bs where upd: "update_tx_in (\<lambda>tx. tx\<lparr>bt_refund := r\<rparr>) i (rev (bs_l2_blocks s)) = Inr bs"
    and s1: "s1 = s\<lparr>bs_l2_blocks := rev bs\<rparr>"
    by (auto simp: ask_operator_for_refund_def set_refund_for_current_tx_def find_tx_mut_def)
  have "ledger keccak s1"
    using Cons.prems(2) arg_cong [OF update_tx_in_core [OF upd core_refund], of rev]
    by (intro ledger_cong [of s1 s]) (simp_all add: s1 rev_map)
  with Cons.IH ask(2) show ?case by blast
qed simp

lemma boot_step_ledger:
  assumes "bootloader_wf s" "ledger (ext_keccak ext) s" "boot_step ext fv (s, h) ev = Inr (s', h')"
  shows "ledger (ext_keccak ext) s'"
proof (cases ev)
  case (PushTx td overhead refund compressed limit chain_id)
  with assms(3) push_tx_ledger [OF assms(1,2)] show ?thesis by (auto simp: boot_step_def split: prod.splits)
next
  case (StartBlock env)
  with assms(3) start_new_l2_block_ledger [OF assms(1,2)] show ?thesis by (auto simp: boot_step_def)
next
  case (ExecuteTx rs)
  with assms(3) obtain s1 i where m: "move_tx_to_execute_pointer s = Inr (s1, i)"
    and f: "fold_res (ask_operator_for_refund fv) (s1, h) rs = Inr (s', h')" by (auto simp: boot_step_def)
  have "ledger (ext_keccak ext) s1"
    using assms(2) by (simp add: move_tx_wf(4) [OF assms(1) m] ledger_def flat_txs_def)
  from ask_operators_ledger [OF f this] show ?thesis .
qed

lemma boot_run_ledger:
  "boot_run ext fv (s, h) evs = Inr (s', h') \<Longrightarrow> bootloader_wf s \<Longrightarrow> ledger (ext_keccak ext) s \<Longrightarrow> ledger (ext_keccak ext) s'"
  unfolding boot_run_def
proof (induction evs arbitrary: s h)
  case (Cons ev evs)
  then obtain s1 h1 where st: "boot_step ext fv (s, h) ev = Inr (s1, h1)" "fold_res (boot_step ext fv) (s1, h1) evs = Inr (s', h')"
    by auto
  from boot_step_ledger [OF Cons.prems(2,3) st(1)] boot_step_wf [OF Cons.prems(2) st(1)] Cons.IH [OF st(2)] show ?case by simp
qed simp

section \<open>Finding transactions\<close>

lemma find_tx_in_flat:
  assumes "block_indices_ok r" "i < sum_list (map (length \<circ> bb_txs) r)"
  shows "find_tx_in i r = Inr (concat (map bb_txs (rev r)) ! i)"
  using assms
proof (induction r)
  case (Cons b r)
  have len: "length (concat (map bb_txs (rev r))) = bb_first_tx_index b"
    using Cons.prems(1) by (simp add: length_concat rev_map [symmetric] sum_list_rev comp_def)
  show ?case
  proof (cases "bb_first_tx_index b \<le> i")
    case True
    then have "i - bb_first_tx_index b < length (bb_txs b)" using Cons.prems by (auto simp: comp_def)
    then show ?thesis using True len by (simp add: nth_append)
  next
    case False
    then show ?thesis using Cons len by (simp add: nth_append comp_def)
  qed
qed simp

text \<open>
  C14. The ledger of the bootloader state, in every state the wrapper reaches: the blocks partition the pushed
  transactions and only the last one can be empty; the encodings lie back to back from the start of the region and the
  free offset is their total length; every block carries the rolling hash of its transactions in order; an index below
  the number of transactions finds the transaction with that index and any other index aborts.
\<close>

theorem bootloader_ledger_invariant:
  assumes "boot_init mode env version fv = Inr st0" "boot_run ext fv st0 evs = Inr (s, h)"
  shows "bootloader_wf s \<and> ledger (ext_keccak ext) s \<and> free_tx_index s = Inr (length (flat_txs s)) \<and>
    find_tx s i = (if i < length (flat_txs s) then Inr (flat_txs s ! i) else Inl (Panic IndexOutOfBounds))"
proof -
  obtain s0 h0 where st0: "st0 = (s0, h0)" by (cases st0)
  have "bootloader_wf s0" "ledger (ext_keccak ext) s0"
    using assms(1) by (auto simp: st0 boot_init_def bootloader_state_new_def bootloader_wf_def total_txs_def Let_def ledger_def
        flat_txs_def block_new_def)
  then have wf: "bootloader_wf s" and led: "ledger (ext_keccak ext) s"
    using boot_run_wf boot_run_ledger assms(2) by (simp_all add: st0)
  obtain bs b where bs: "bs_l2_blocks s = bs @ [b]" and first: "bb_first_tx_index b = sum_list (map (length \<circ> bb_txs) bs)"
    and f: "free_tx_index s = Inr (total_txs s)" using wf_last [OF wf] .
  have "find_tx s i = (if i < length (flat_txs s) then Inr (flat_txs s ! i) else Inl (Panic IndexOutOfBounds))"
  proof (cases "i < total_txs s")
    case True
    then have "i < sum_list (map (length \<circ> bb_txs) (rev (bs_l2_blocks s)))"
      unfolding total_txs_def rev_map [symmetric] sum_list_rev .
    moreover have "block_indices_ok (rev (bs_l2_blocks s))" using wf by (simp add: bootloader_wf_def)
    ultimately show ?thesis using find_tx_in_flat True by (simp add: find_tx_def flat_txs_def [symmetric] length_flat_txs)
  next
    case False
    then show ?thesis using first by (auto simp: find_tx_def bs total_txs_def length_flat_txs ensure_def)
  qed
  with wf led f show ?thesis by (simp add: length_flat_txs)
qed

text \<open>
  When the last block has transactions, the hook that closes the batch writes the number of interop roots of the
  inserted block into the slot of the block before it, because the configuration is taken before the block is
  inserted; rebuilding the memory uses the slot of the inserted block. The verifier only accepts batches whose last
  block is empty, where both agree.
\<close>

theorem fictive_block_index_stale:
  assumes "bootloader_wf s" "last_l2_block s = Inr b" "bb_txs b \<noteq> []" "insert_fictive_l2_block keccak s = Inr (s', b')"
  shows "map_res nb_block_index_in_batch (get_new_block_config s) = Inr (length (bs_l2_blocks s) - 1)"
    and "get_block_index_in_batch s' = Inr (length (bs_l2_blocks s))"
proof -
  obtain env where "start_new_l2_block keccak s env = Inr s'"
    using assms by (auto simp: insert_fictive_l2_block_def)
  from start_new_l2_block_cases [OF assms(1) this] obtain bs c where "bs_l2_blocks s = bs @ [c]"
    "s' = s\<lparr>bs_l2_blocks := bs @ [c, block_new env (total_txs s)]\<rparr>" .
  then show "get_block_index_in_batch s' = Inr (length (bs_l2_blocks s))" by (simp add: get_block_index_in_batch_def)
  have "1 \<le> length (bs_l2_blocks s)" using assms(1) by (simp add: bootloader_wf_def Suc_le_eq)
  then show "map_res nb_block_index_in_batch (get_new_block_config s) = Inr (length (bs_l2_blocks s) - 1)"
    by (simp add: get_new_block_config_def get_block_index_in_batch_def)
qed

end
