(* ===== verification/Bootloader_Examples.thy ===== *)
theory Bootloader_Examples
  imports Bootloader_Rollback Bootloader_Ledger
begin

text \<open>
  A small batch: one priority transaction, executed with a refund, and the closing empty block. It meets the hypotheses
  of the theorems on the bootloader state.
\<close>

definition demo_ext :: externals where
  "demo_ext = \<lparr>ext_keccak = (\<lambda>_. 0), ext_sha256 = (\<lambda>_. 0),
     ext_abi = \<lparr>abi_encode = (\<lambda>_. replicate 64 0), abi_decode = (\<lambda>_ _. None), abi_selector = (\<lambda>_ _. [])\<rparr>,
     ext_l2_tx_hashes = (\<lambda>_ _. Inr (0, 0))\<rparr>"

definition demo_td :: transaction_data where
  "demo_td = \<lparr>td_tx_type = PRIORITY_OPERATION_L2_TX_TYPE, td_from = 1, td_to = Some 2, td_gas_limit = 1000,
     td_pubdata_price_limit = 800, td_max_fee_per_gas = 3, td_max_priority_fee_per_gas = 0, td_paymaster = 0, td_nonce = 0,
     td_value = 0, td_reserved = [0, 0, 0, 0], td_data = [], td_signature = [], td_factory_deps = [],
     td_factory_deps_hashes = [], td_paymaster_input = [], td_reserved_dynamic = [], td_raw_bytes = None\<rparr>"

definition demo_first_block :: l2_block_env where
  "demo_first_block = \<lparr>be_number = 1, be_timestamp = 10, be_prev_block_hash = 0, be_max_virtual_blocks_to_create = 1, be_interop_roots = []\<rparr>"

definition demo_last_block :: l2_block_env where
  "demo_last_block = \<lparr>be_number = 2, be_timestamp = 11, be_prev_block_hash = 0, be_max_virtual_blocks_to_create = 1, be_interop_roots = []\<rparr>"

definition demo_batch :: l1_batch_env where
  "demo_batch = \<lparr>previous_batch_hash = None, batch_env_number = 1, batch_env_timestamp = 10,
     fee_input = PubdataIndependent \<lparr>pi_fair_l2_gas_price = 2, pi_fair_pubdata_price = 3, pi_l1_gas_price = 4\<rparr>,
     interop_fee = 0, fee_account = 9, enforced_base_fee = None, first_l2_block = demo_first_block,
     settlement_layer = SettlementL1 1\<rparr>"

definition demo_events :: "bootloader_event list" where
  "demo_events = [PushTx demo_td 7 0 [] 500 270, ExecuteTx [42], StartBlock demo_last_block]"

definition demo_input :: pubdata_input where
  "demo_input = \<lparr>pin_user_logs = [], pin_l2_to_l1_messages = [], pin_published_bytecodes = [], pin_state_diffs = []\<rparr>"

definition demo_builder :: pubdata_builder where
  "demo_builder = FullPubdataBuilder (ValidatorAddress 5)"

lemmas demo_defs = demo_ext_def demo_td_def demo_first_block_def demo_last_block_def demo_batch_def demo_events_def
  demo_input_def demo_builder_def

lemmas demo_steps = boot_step_def push_tx_def bootloader_tx_new_def signed_and_tx_hashes_def into_tokens_def td_abi_encode_def
  abi_encode_with_custom_factory_deps_def bytes_to_be_words_def is_l1_tx_type_def get_new_block_config_def
  get_block_index_in_batch_def apply_tx_to_memory_def get_memory_for_compressed_bytecodes_def map_last_block_def last_l2_block_def
  expected_ecrecover_call_def free_tx_index_def move_tx_to_execute_pointer_def ask_operator_for_refund_def
  set_refund_for_current_tx_def find_tx_mut_def current_tx_def start_new_l2_block_def push_l2_block_def assert_next_block_def
  block_l2_block_def block_get_hash_def l2_block_hash_def block_new_def block_push_tx_def update_rolling_hash_def
  apply_l2_block_inner_def

lemma demo_push:
  assumes "bootloader_wf s"
  shows "\<exists>s' d. push_tx demo_ext s demo_td 7 0 [] 500 270 = Inr (s', d, None)"
proof -
  obtain bs b where bs: "bs_l2_blocks s = bs @ [b]" "last_l2_block s = Inr b" "free_tx_index s = Inr (total_txs s)"
    "get_block_index_in_batch s = Inr (length bs)" using wf_last [OF assms] .
  show ?thesis
    by (simp add: push_tx_def Let_def bootloader_tx_new_def signed_and_tx_hashes_def into_tokens_def td_abi_encode_def
        abi_encode_with_custom_factory_deps_def bytes_to_be_words_def demo_ext_def demo_td_def is_l1_tx_type_def bs
        get_new_block_config_def apply_tx_to_memory_def get_memory_for_compressed_bytecodes_def map_last_block_def
        last_l2_block_def expected_ecrecover_call_def split: prod.splits)
qed

lemma demo_init:
  "\<exists>h0. boot_init VerifyExecute demo_batch Version25 FastIncreasedBootloaderMemory = Inr
    (\<lparr>bs_tx_to_execute = 0, bs_l2_blocks = [block_new demo_first_block 0], bs_compressed_bytecodes_encoding = 0,
      bs_initial_memory = initial_memory IncreasedBootloaderMemory demo_batch, bs_execution_mode = VerifyExecute,
      bs_free_tx_offset = 0, bs_pubdata_information = None, bs_number_of_applied_interop_roots = 0,
      bs_protocol_version = Version25, bs_subversion = IncreasedBootloaderMemory\<rparr>, h0)"
  by (simp add: boot_init_def bootloader_state_new_def multi_vm_subversion_try_from_def demo_batch_def Let_def)

lemma demo_run:
  "\<exists>st0 s h b. boot_init VerifyExecute demo_batch Version25 FastIncreasedBootloaderMemory = Inr st0 \<and>
     boot_run demo_ext FastIncreasedBootloaderMemory st0 demo_events = Inr (s, h) \<and> free_tx_index s = Inr 1 \<and>
     last_l2_block s = Inr b \<and> bb_txs b = [] \<and> bs_tx_to_execute s = 1 \<and> bs_pubdata_information s = None \<and>
     bs_protocol_version s = Version25"
proof -
  obtain h0 where init: "boot_init VerifyExecute demo_batch Version25 FastIncreasedBootloaderMemory = Inr
    (\<lparr>bs_tx_to_execute = 0, bs_l2_blocks = [block_new demo_first_block 0], bs_compressed_bytecodes_encoding = 0,
      bs_initial_memory = initial_memory IncreasedBootloaderMemory demo_batch, bs_execution_mode = VerifyExecute,
      bs_free_tx_offset = 0, bs_pubdata_information = None, bs_number_of_applied_interop_roots = 0,
      bs_protocol_version = Version25, bs_subversion = IncreasedBootloaderMemory\<rparr>, h0)"
    using demo_init by blast
  show ?thesis
    unfolding init
    by (simp add: boot_run_def demo_events_def demo_steps Let_def demo_ext_def demo_td_def demo_first_block_def
        demo_last_block_def is_pre_interop_fast_blocks_def)
qed

lemma demo_diffs: "\<exists>bytes. compress_state_diffs [] = Inr bytes"
  by (simp add: compress_state_diffs_def sort_state_diffs_def prepend_header_def Let_def)

lemma demo_final:
  assumes "bootloader_wf s" "last_l2_block s = Inr b" "bb_txs b = []" "bs_pubdata_information s = None"
    and "bs_protocol_version s = Version25"
  shows "\<exists>st1 s2 h2. final_batch_info demo_ext FastIncreasedBootloaderMemory (s, h) = Inr st1 \<and>
    pubdata_requested demo_ext FastIncreasedBootloaderMemory demo_builder demo_input st1 = Inr (s2, h2)"
proof -
  obtain bs b' where bs: "bs_l2_blocks s = bs @ [b']" and l: "last_l2_block s = Inr b'" "free_tx_index s = Inr (total_txs s)"
    "get_block_index_in_batch s = Inr (length bs)" using wf_last [OF assms(1)] .
  have b: "b' = b" using l(1) assms(2) by simp
  obtain h1 where fin: "final_batch_info demo_ext FastIncreasedBootloaderMemory (s, h) =
      Inr (s\<lparr>bs_l2_blocks := bs @ [b\<lparr>bb_interop_roots := []\<rparr>]\<rparr>, h1)"
    using bs l assms(3) by (simp add: b final_batch_info_def get_new_block_config_def insert_fictive_l2_block_def map_last_block_def last_l2_block_def)
  obtain p where p: "l1_messenger_operator_input (\<lambda>_. 0) (\<lambda>_. 0) (ext_abi demo_ext) demo_builder demo_input Version25 = Inr p"
    using demo_diffs
    by (auto simp: demo_builder_def demo_input_def extend_from_pubdata_input_def is_pre_gateway_def gateway_upgrade_def
        less_protocol_version_def Let_def)
  have "\<exists>d. apply_pubdata_to_memory demo_ext [] demo_builder demo_input Version25 IncreasedBootloaderMemory = Inr d"
    using p by (simp add: apply_pubdata_to_memory_def pubdata_for_memory_def demo_ext_def Let_def OPERATOR_PROVIDED_L1_MESSENGER_PUBDATA_SLOTS_def)
  then show ?thesis
    using assms(4,5) fin by (auto simp: pubdata_requested_def set_pubdata_input_def)
qed

lemma demo_run_wf:
  assumes "boot_init VerifyExecute demo_batch Version25 FastIncreasedBootloaderMemory = Inr st0"
    "boot_run demo_ext FastIncreasedBootloaderMemory st0 evs = Inr (s, h)"
  shows "bootloader_wf s"
proof -
  obtain s0 h0 where st0: "st0 = (s0, h0)" by (cases st0)
  have "fast_vm_version_try_from (vm_version_from Version25) = Some FastIncreasedBootloaderMemory"
    by (simp add: fast_vm_version_try_from_def)
  then show ?thesis using boot_init_sync boot_run_wf assms by (metis st0 in_sync_def)
qed

theorem bootloader_memory_is_heap_witness:
  "\<exists>st0 s h st1 s2 h2 m. boot_init VerifyExecute demo_batch Version25 FastIncreasedBootloaderMemory = Inr st0 \<and>
     boot_run demo_ext FastIncreasedBootloaderMemory st0 demo_events = Inr (s, h) \<and>
     final_batch_info demo_ext FastIncreasedBootloaderMemory (s, h) = Inr st1 \<and>
     pubdata_requested demo_ext FastIncreasedBootloaderMemory demo_builder demo_input st1 = Inr (s2, h2) \<and>
     bootloader_memory demo_ext s2 demo_builder = Inr m \<and> write_to_bootloader_heap (\<lambda>_. 0) m = h2"
proof -
  obtain st0 s h b where run: "boot_init VerifyExecute demo_batch Version25 FastIncreasedBootloaderMemory = Inr st0"
    "boot_run demo_ext FastIncreasedBootloaderMemory st0 demo_events = Inr (s, h)" "free_tx_index s = Inr 1"
    and b: "last_l2_block s = Inr b" "bb_txs b = []" "bs_pubdata_information s = None" "bs_protocol_version s = Version25"
    using demo_run by blast
  obtain st1 s2 h2 where fin: "final_batch_info demo_ext FastIncreasedBootloaderMemory (s, h) = Inr st1"
    "pubdata_requested demo_ext FastIncreasedBootloaderMemory demo_builder demo_input st1 = Inr (s2, h2)"
    using demo_final [OF demo_run_wf [OF run(1,2)] b] by blast
  have "fast_vm_version_try_from (vm_version_from Version25) = Some FastIncreasedBootloaderMemory" "1 \<le> MAX_TXS_IN_BATCH"
    by (simp_all add: fast_vm_version_try_from_def MAX_TXS_IN_BATCH_def)
  from bootloader_memory_is_heap [OF this(1) run this(2) b(1) fin] b(2)
  have "\<exists>m. bootloader_memory demo_ext s2 demo_builder = Inr m \<and> write_to_bootloader_heap (\<lambda>_. 0) m = h2" by blast
  with run(1,2) fin show ?thesis by blast
qed

theorem snapshot_rollback_witness:
  "\<exists>st0 s h snap s' h'. boot_init VerifyExecute demo_batch Version25 FastIncreasedBootloaderMemory = Inr st0 \<and>
     boot_run demo_ext FastIncreasedBootloaderMemory st0 demo_events = Inr (s, h) \<and> get_snapshot s = Inr snap \<and>
     boot_run demo_ext FastIncreasedBootloaderMemory (s, h) [PushTx demo_td 7 0 [] 500 270] = Inr (s', h') \<and>
     apply_snapshot s' snap = Inr s"
proof -
  obtain st0 s h b where run: "boot_init VerifyExecute demo_batch Version25 FastIncreasedBootloaderMemory = Inr st0"
    "boot_run demo_ext FastIncreasedBootloaderMemory st0 demo_events = Inr (s, h)" "free_tx_index s = Inr (bs_tx_to_execute s)"
    and b: "last_l2_block s = Inr b"
    using demo_run by auto
  obtain snap where snap: "get_snapshot s = Inr snap" using b by (simp add: get_snapshot_def)
  obtain s' h' where push: "boot_run demo_ext FastIncreasedBootloaderMemory (s, h) [PushTx demo_td 7 0 [] 500 270] = Inr (s', h')"
    using demo_push [OF demo_run_wf [OF run(1,2)]] by (auto simp: boot_run_def boot_step_def)
  from snapshot_rollback [OF run(1,2) snap push] run snap push show ?thesis by blast
qed

text \<open>
  A refund set between a snapshot and the rollback stays when the transaction was pushed before the snapshot: the batch is
  filled first, then executed.
\<close>

theorem refund_survives_rollback:
  "\<exists>st0 s h snap s' h' s'' tx. boot_init VerifyExecute demo_batch Version25 FastIncreasedBootloaderMemory = Inr st0 \<and>
     boot_run demo_ext FastIncreasedBootloaderMemory st0 [PushTx demo_td 7 0 [] 500 270] = Inr (s, h) \<and>
     get_snapshot s = Inr snap \<and> boot_run demo_ext FastIncreasedBootloaderMemory (s, h) [ExecuteTx [42]] = Inr (s', h') \<and>
     apply_snapshot s' snap = Inr s'' \<and> find_tx s 0 = Inr tx \<and> bt_refund tx = 0 \<and>
     find_tx s'' 0 = Inr (tx\<lparr>bt_refund := 42\<rparr>)"
proof -
  obtain h0 where init: "boot_init VerifyExecute demo_batch Version25 FastIncreasedBootloaderMemory = Inr
    (\<lparr>bs_tx_to_execute = 0, bs_l2_blocks = [block_new demo_first_block 0], bs_compressed_bytecodes_encoding = 0,
      bs_initial_memory = initial_memory IncreasedBootloaderMemory demo_batch, bs_execution_mode = VerifyExecute,
      bs_free_tx_offset = 0, bs_pubdata_information = None, bs_number_of_applied_interop_roots = 0,
      bs_protocol_version = Version25, bs_subversion = IncreasedBootloaderMemory\<rparr>, h0)"
    using demo_init by blast
  show ?thesis
    unfolding init
    by (simp add: boot_run_def demo_steps Let_def demo_ext_def demo_td_def demo_first_block_def get_snapshot_def
        apply_snapshot_def block_make_snapshot_def block_apply_snapshot_def find_tx_def)
qed

theorem bootloader_ledger_invariant_witness:
  "\<exists>st0 s h tx. boot_init VerifyExecute demo_batch Version25 FastIncreasedBootloaderMemory = Inr st0 \<and>
     boot_run demo_ext FastIncreasedBootloaderMemory st0 demo_events = Inr (s, h) \<and> ledger (ext_keccak demo_ext) s \<and>
     find_tx s 0 = Inr tx \<and> find_tx s 1 = Inl (Panic IndexOutOfBounds)"
proof -
  obtain st0 s h where run: "boot_init VerifyExecute demo_batch Version25 FastIncreasedBootloaderMemory = Inr st0"
    "boot_run demo_ext FastIncreasedBootloaderMemory st0 demo_events = Inr (s, h)" "free_tx_index s = Inr 1"
    using demo_run by blast
  note inv = bootloader_ledger_invariant [OF run(1,2)]
  have n: "length (flat_txs s) = 1" using inv run(3) by simp
  have "ledger (ext_keccak demo_ext) s" using inv by blast
  moreover have "find_tx s 0 = Inr (flat_txs s ! 0)" using inv [of 0] n by simp
  moreover have "find_tx s 1 = Inl (Panic IndexOutOfBounds)" using inv [of 1] n by simp
  ultimately show ?thesis using run(1,2) by blast
qed

end
