(* ===== verification/History_Recorder.thy ===== *)
theory History_Recorder
  imports Storage_View
begin

text \<open>
  The journalling state of the legacy VM, \<open>src/crates/multivm/src/versions/vm_latest/old_vm/history_recorder.rs\<close>:
  \<open>HistoryRecorder\<close> wraps a component and records, for every change, the event that undoes it; rolling back to a
  timestamp applies the undo events newest first.

  What a component must offer (the trait \<open>WithHistory\<close>) is the locale \<open>with_history\<close>; it is interpreted on vectors, hash
  maps, framed stacks and the storage wrappers here, and on the memory in \<open>Vm_Memory\<close>. The locale shows
  once that a rollback restores the component. \<open>TIME_DELTA_PER_CYCLE\<close> (of \<open>zk_evm\<close>) is the parameter \<open>delta\<close>.
\<close>

section \<open>Recorder\<close>

type_synonym timestamp = u32

definition normalize_timestamp :: "u32 \<Rightarrow> timestamp \<Rightarrow> timestamp" where
  "normalize_timestamp delta t = t - t mod delta"

datatype history_mode = HistoryEnabled | HistoryDisabled

type_synonym 'r event_list = "(timestamp \<times> 'r) list"

text \<open>\<open>apply_historic_record\<close> of the trait: the new state, the event that undoes the change, and the returned value.\<close>

type_synonym ('s, 'r, 'v) apply_fn = "'s \<Rightarrow> 'r \<Rightarrow> ('s \<times> 'r \<times> 'v) res"

record ('s, 'r) history_recorder =
  hr_mode :: history_mode
  hr_inner :: 's
  hr_history :: "'r event_list"

definition from_inner :: "history_mode \<Rightarrow> 's \<Rightarrow> ('s, 'r) history_recorder" where
  "from_inner mode s = \<lparr>hr_mode = mode, hr_inner = s, hr_history = []\<rparr>"

definition mutate_history ::
  "('s, 'r) history_recorder \<Rightarrow> ('s \<Rightarrow> 'r event_list \<Rightarrow> ('s \<times> 'r event_list) res) \<Rightarrow> ('s, 'r) history_recorder res" where
  "mutate_history rec f =
     (case hr_mode rec of
        HistoryEnabled \<Rightarrow> map_res (\<lambda>(s, h). rec\<lparr>hr_inner := s, hr_history := h\<rparr>) (f (hr_inner rec) (hr_history rec))
      | HistoryDisabled \<Rightarrow> Inr rec)"

definition borrow_history :: "('s, 'r) history_recorder \<Rightarrow> ('r event_list \<Rightarrow> 'b) \<Rightarrow> 'b \<Rightarrow> 'b" where
  "borrow_history rec f dflt = (case hr_mode rec of HistoryEnabled \<Rightarrow> f (hr_history rec) | HistoryDisabled \<Rightarrow> dflt)"

definition push_event :: "u32 \<Rightarrow> timestamp \<Rightarrow> 'r \<Rightarrow> 's \<Rightarrow> 'r event_list \<Rightarrow> ('s \<times> 'r event_list) res" where
  "push_event delta ts reversed_item s h =
     (let last_recorded_timestamp = (if h = [] then 0 else fst (last h));
          t = normalize_timestamp delta ts
      in ensure (last_recorded_timestamp \<le> t) (Panic (PanicMsg ''Timestamps are not monotonic''))
           (Inr (s, h @ [(t, reversed_item)])))"

definition apply_historic_record ::
  "u32 \<Rightarrow> ('s, 'r, 'v) apply_fn \<Rightarrow> ('s, 'r) history_recorder \<Rightarrow> 'r \<Rightarrow> timestamp \<Rightarrow> ('v \<times> ('s, 'r) history_recorder) res" where
  "apply_historic_record delta ap rec item ts =
     and_then (ap (hr_inner rec) item) (\<lambda>(s, reversed_item, return_value).
       map_res (Pair return_value) (mutate_history (rec\<lparr>hr_inner := s\<rparr>) (push_event delta ts reversed_item)))"

definition delete_history :: "('s, 'r) history_recorder \<Rightarrow> ('s, 'r) history_recorder" where
  "delete_history rec = (case hr_mode rec of HistoryEnabled \<Rightarrow> rec\<lparr>hr_history := []\<rparr> | HistoryDisabled \<Rightarrow> rec)"

text \<open>The loop of \<open>rollback_to_timestamp\<close>: it ends because every round pops an event.\<close>

function rollback_loop ::
  "('s, 'r, 'v) apply_fn \<Rightarrow> 's \<Rightarrow> 'r event_list \<Rightarrow> timestamp \<Rightarrow> ('s \<times> 'r event_list) res" where
  "rollback_loop ap s h t =
     (if h \<noteq> [] \<and> t \<le> fst (last h)
      then (case ap s (snd (last h)) of Inl e \<Rightarrow> Inl e | Inr (s', _, _) \<Rightarrow> rollback_loop ap s' (butlast h) t)
      else Inr (s, h))"
  by pat_completeness auto
termination by (relation "measure (\<lambda>(ap, s, h, t). length h)") auto

declare rollback_loop.simps [simp del]

definition rollback_to_timestamp ::
  "('s, 'r, 'v) apply_fn \<Rightarrow> ('s, 'r) history_recorder \<Rightarrow> timestamp \<Rightarrow> ('s, 'r) history_recorder res" where
  "rollback_to_timestamp ap rec t =
     map_res (\<lambda>(s, h). rec\<lparr>hr_inner := s, hr_history := h\<rparr>) (rollback_loop ap (hr_inner rec) (hr_history rec) t)"

lemma rollback_loop_snoc:
  "rollback_loop ap s (h @ [(t', u)]) t =
     (if t \<le> t' then (case ap s u of Inl e \<Rightarrow> Inl e | Inr (s', _, _) \<Rightarrow> rollback_loop ap s' h t)
      else Inr (s, h @ [(t', u)]))"
  by (subst rollback_loop.simps) (simp split: sum.splits)

lemma rollback_loop_stop: "h = [] \<or> fst (last h) < t \<Longrightarrow> rollback_loop ap s h t = Inr (s, h)"
  by (subst rollback_loop.simps) auto

lemma apply_historic_record_Inr:
  "apply_historic_record delta ap rec item ts = Inr (v, rec') \<longleftrightarrow>
     (\<exists>s u. ap (hr_inner rec) item = Inr (s, u, v) \<and>
        (case hr_mode rec of
           HistoryEnabled \<Rightarrow> (hr_history rec = [] \<or> fst (last (hr_history rec)) \<le> normalize_timestamp delta ts)
             \<and> rec' = rec\<lparr>hr_inner := s, hr_history := hr_history rec @ [(normalize_timestamp delta ts, u)]\<rparr>
         | HistoryDisabled \<Rightarrow> rec' = rec\<lparr>hr_inner := s\<rparr>))"
  by (cases "hr_mode rec")
    (auto simp: apply_historic_record_def mutate_history_def push_event_def Let_def split: prod.splits if_splits)

text \<open>Total correctness of a fallible operation: it returns, and the result satisfies \<open>P\<close>.\<close>

definition returns :: "'a res \<Rightarrow> ('a \<Rightarrow> bool) \<Rightarrow> bool" where
  "returns r P = (case r of Inl _ \<Rightarrow> False | Inr x \<Rightarrow> P x)"

lemma returns_simps [simp]:
  "returns (Inr x) P \<longleftrightarrow> P x" "returns (Inl e) P \<longleftrightarrow> False"
  "returns (map_res f m) P \<longleftrightarrow> returns m (\<lambda>x. P (f x))"
  "returns (and_then m g) P \<longleftrightarrow> returns m (\<lambda>x. returns (g x) P)"
  "returns (ensure c e r) P \<longleftrightarrow> c \<and> returns r P"
  by (cases m; simp add: returns_def ensure_def)+

lemma returns_mono: "returns m Q \<Longrightarrow> (\<And>x. Q x \<Longrightarrow> P x) \<Longrightarrow> returns m P"
  by (cases m) auto

lemma returns_iff: "returns m P \<longleftrightarrow> (\<exists>x. m = Inr x \<and> P x)"
  by (cases m) auto

text \<open>Partial correctness: if the operation returns, the result satisfies \<open>P\<close>.\<close>

definition keeps :: "'a res \<Rightarrow> ('a \<Rightarrow> bool) \<Rightarrow> bool" where
  "keeps r P = (case r of Inl _ \<Rightarrow> True | Inr x \<Rightarrow> P x)"

lemma keeps_simps [simp]:
  "keeps (Inr x) P \<longleftrightarrow> P x" "keeps (Inl e) P \<longleftrightarrow> True"
  "keeps (map_res f m) P \<longleftrightarrow> keeps m (\<lambda>x. P (f x))"
  "keeps (and_then m g) P \<longleftrightarrow> keeps m (\<lambda>x. keeps (g x) P)"
  "keeps (ensure c e r) P \<longleftrightarrow> (c \<longrightarrow> keeps r P)"
  by (cases m; simp add: keeps_def ensure_def)+

lemma keeps_mono: "keeps m Q \<Longrightarrow> (\<And>x. Q x \<Longrightarrow> P x) \<Longrightarrow> keeps m P"
  by (cases m) auto

lemma keepsD: "keeps m P \<Longrightarrow> m = Inr x \<Longrightarrow> P x"
  by simp

text \<open>An event at \<open>ts\<close> is not older than what the recorder holds.\<close>

definition in_time :: "u32 \<Rightarrow> timestamp \<Rightarrow> ('s, 'r) history_recorder \<Rightarrow> bool" where
  "in_time delta ts rec \<longleftrightarrow> hr_history rec = [] \<or> fst (last (hr_history rec)) \<le> normalize_timestamp delta ts"

lemma in_time_mono:
  "in_time delta ts rec \<Longrightarrow> normalize_timestamp delta ts \<le> normalize_timestamp delta ts' \<Longrightarrow> in_time delta ts' rec"
  by (auto simp: in_time_def)

lemma in_time_inner [simp]: "in_time delta ts (rec\<lparr>hr_inner := s\<rparr>) = in_time delta ts rec"
  by (simp add: in_time_def)

lemma in_time_from_inner [simp]: "in_time delta ts (from_inner mode s)"
  by (simp add: in_time_def from_inner_def)

lemma apply_returns:
  assumes "ap (hr_inner rec) item = Inr (s, u, v)" "in_time delta ts rec"
  shows "returns (apply_historic_record delta ap rec item ts)
    (\<lambda>(v', rec'). v' = v \<and> hr_inner rec' = s \<and> in_time delta ts rec')"
  using assms
  by (cases "hr_mode rec")
    (auto simp: apply_historic_record_def mutate_history_def push_event_def Let_def in_time_def)

section \<open>The contract of a journalled component\<close>

text \<open>
  Undoing a change gives back the state up to \<open>same\<close>, the equality the component's clients observe, on states that
  satisfy \<open>inv\<close>; applying an event does not distinguish states that are the \<open>same\<close>.
\<close>

locale with_history =
  fixes ap :: "('s, 'r, 'v) apply_fn"
    and same :: "'s \<Rightarrow> 's \<Rightarrow> bool"
    and inv :: "'s \<Rightarrow> bool"
  assumes same_refl: "inv s \<Longrightarrow> same s s"
    and same_sym: "same s1 s2 \<Longrightarrow> same s2 s1"
    and same_trans: "same s1 s2 \<Longrightarrow> same s2 s3 \<Longrightarrow> same s1 s3"
    and apply_inv: "inv s \<Longrightarrow> ap s r = Inr (s', u, v) \<Longrightarrow> inv s'"
    and apply_same: "inv s1 \<Longrightarrow> inv s2 \<Longrightarrow> same s1 s2 \<Longrightarrow> ap s1 r = Inr (s1', u, v) \<Longrightarrow>
      \<exists>s2'. ap s2 r = Inr (s2', u, v) \<and> same s1' s2'"
    and apply_undo: "inv s \<Longrightarrow> ap s r = Inr (s', u, v) \<Longrightarrow> \<exists>s'' r' w. ap s' u = Inr (s'', r', w) \<and> same s'' s"

text \<open>
  \<open>rec'\<close> has grown from \<open>rec\<close> by events recorded at \<open>t\<close> or later, and undoing them leads back to \<open>rec\<close>.
\<close>

definition grown_since ::
  "('s, 'r, 'v) apply_fn \<Rightarrow> ('s \<Rightarrow> 's \<Rightarrow> bool) \<Rightarrow> ('s \<Rightarrow> bool) \<Rightarrow> timestamp \<Rightarrow>
   ('s, 'r) history_recorder \<Rightarrow> ('s, 'r) history_recorder \<Rightarrow> bool" where
  "grown_since ap same valid t rec rec' \<longleftrightarrow> hr_mode rec = HistoryEnabled \<and> hr_mode rec' = HistoryEnabled \<and>
     valid (hr_inner rec) \<and> valid (hr_inner rec') \<and>
     (\<exists>h. hr_history rec' = hr_history rec @ h \<and> (\<forall>e \<in> set h. t \<le> fst e)
        \<and> (\<exists>s. rollback_loop ap (hr_inner rec') h t = Inr (s, []) \<and> same s (hr_inner rec)))"

text \<open>The events recorded so far are all older than \<open>t\<close>.\<close>

definition settled_before :: "timestamp \<Rightarrow> ('s, 'r) history_recorder \<Rightarrow> bool" where
  "settled_before t rec \<longleftrightarrow> hr_history rec = [] \<or> fst (last (hr_history rec)) < t"

lemma rollback_loop_append:
  assumes "\<forall>e \<in> set h. t \<le> fst e"
  shows "rollback_loop ap s (h0 @ h) t = and_then (rollback_loop ap s h t) (\<lambda>(s', _). rollback_loop ap s' h0 t)"
  using assms
proof (induction h arbitrary: s rule: rev_induct)
  case Nil
  then show ?case by (simp add: rollback_loop_stop)
next
  case (snoc e h)
  obtain t' u where e: "e = (t', u)" by (cases e)
  show ?case
    using snoc by (auto simp: e rollback_loop_snoc append_assoc [symmetric] simp del: append_assoc split: sum.splits prod.splits)
qed

lemma rollback_loop_all:
  assumes "\<forall>e \<in> set h. t \<le> fst e" and "rollback_loop ap s h t = Inr (s', h')"
  shows "h' = []"
  using assms
proof (induction h arbitrary: s rule: rev_induct)
  case Nil
  then show ?case by (simp add: rollback_loop_stop)
next
  case (snoc e h)
  obtain t' u where e: "e = (t', u)" by (cases e)
  show ?case using snoc by (auto simp: e rollback_loop_snoc split: sum.splits prod.splits)
qed

context with_history
begin

lemma rollback_loop_inv: "inv s \<Longrightarrow> rollback_loop ap s h t = Inr (s', h') \<Longrightarrow> inv s'"
proof (induction h arbitrary: s rule: rev_induct)
  case Nil
  then show ?case by (simp add: rollback_loop_stop)
next
  case (snoc e h)
  obtain t' u where e: "e = (t', u)" by (cases e)
  show ?case
    using snoc.prems snoc.IH [OF apply_inv [OF snoc.prems(1)]]
    by (auto simp: e rollback_loop_snoc split: sum.splits prod.splits if_splits)
qed

lemma rollback_loop_same:
  assumes "inv s1" "inv s2" "same s1 s2" "rollback_loop ap s1 h t = Inr (s1', h')"
  shows "\<exists>s2'. rollback_loop ap s2 h t = Inr (s2', h') \<and> same s1' s2'"
  using assms
proof (induction h arbitrary: s1 s2 rule: rev_induct)
  case Nil
  then show ?case by (simp add: rollback_loop_stop)
next
  case (snoc e h)
  obtain t' u where e: "e = (t', u)" by (cases e)
  show ?case
  proof (cases "t \<le> t'")
    case True
    then obtain x u' v where x: "ap s1 u = Inr (x, u', v)" "rollback_loop ap x h t = Inr (s1', h')"
      using snoc.prems(4) by (auto simp: e rollback_loop_snoc split: sum.splits)
    obtain y where y: "ap s2 u = Inr (y, u', v)" "same x y"
      using apply_same [OF snoc.prems(1-3) x(1)] by blast
    have "inv x" "inv y" using apply_inv x(1) y(1) snoc.prems by blast+
    from snoc.IH [OF this y(2) x(2)] show ?thesis
      using True y(1) by (simp add: e rollback_loop_snoc)
  qed (use snoc.prems in \<open>auto simp: e rollback_loop_snoc\<close>)
qed

lemma grown_refl:
  "hr_mode rec = HistoryEnabled \<Longrightarrow> inv (hr_inner rec) \<Longrightarrow> grown_since ap same inv t rec rec"
  by (simp add: grown_since_def rollback_loop_stop same_refl)

lemma grown_apply:
  assumes "hr_mode rec = HistoryEnabled" "inv (hr_inner rec)" "t \<le> normalize_timestamp delta ts"
    and "apply_historic_record delta ap rec item ts = Inr (v, rec')"
  shows "grown_since ap same inv t rec rec'"
proof -
  obtain s u where s: "ap (hr_inner rec) item = Inr (s, u, v)"
    "rec' = rec\<lparr>hr_inner := s, hr_history := hr_history rec @ [(normalize_timestamp delta ts, u)]\<rparr>"
    using assms(1,4) by (auto simp: apply_historic_record_Inr)
  obtain s'' r' w where undo: "ap s u = Inr (s'', r', w)" "same s'' (hr_inner rec)"
    using apply_undo [OF assms(2) s(1)] by blast
  have "rollback_loop ap s [(normalize_timestamp delta ts, u)] t = Inr (s'', [])"
    using assms(3) undo(1) rollback_loop_snoc [of ap s "[]"] by (simp add: rollback_loop_stop)
  with assms s undo(2) apply_inv show ?thesis
    unfolding grown_since_def by (auto intro!: exI [of _ "[(normalize_timestamp delta ts, u)]"])
qed

lemma grown_trans:
  assumes "grown_since ap same inv t r1 r2" "grown_since ap same inv t r2 r3"
  shows "grown_since ap same inv t r1 r3"
proof -
  from assms(1) obtain h s where h: "hr_history r2 = hr_history r1 @ h" "\<forall>e \<in> set h. t \<le> fst e"
    "rollback_loop ap (hr_inner r2) h t = Inr (s, [])" "same s (hr_inner r1)"
    and m: "hr_mode r1 = HistoryEnabled" "inv (hr_inner r1)" "inv (hr_inner r2)"
    by (auto simp: grown_since_def)
  from assms(2) obtain h' s' where h': "hr_history r3 = hr_history r2 @ h'" "\<forall>e \<in> set h'. t \<le> fst e"
    "rollback_loop ap (hr_inner r3) h' t = Inr (s', [])" "same s' (hr_inner r2)"
    and m': "hr_mode r3 = HistoryEnabled" "inv (hr_inner r3)"
    by (auto simp: grown_since_def)
  have s': "inv s'" using rollback_loop_inv [OF m'(2) h'(3)] .
  obtain x where x: "rollback_loop ap s' h t = Inr (x, [])" "same s x"
    using rollback_loop_same [OF m(3) s' same_sym [OF h'(4)] h(3)] by blast
  have "rollback_loop ap (hr_inner r3) (h @ h') t = Inr (x, [])"
    using h' x(1) by (simp add: rollback_loop_append)
  moreover have "same x (hr_inner r1)" by (rule same_trans [OF same_sym [OF x(2)] h(4)])
  ultimately show ?thesis
    using h h' m m' unfolding grown_since_def by (auto intro!: exI [of _ "h @ h'"])
qed

lemma grown_reflD: "grown_since ap same inv t r0 rec \<Longrightarrow> grown_since ap same inv t rec rec"
  by (rule grown_refl) (auto simp: grown_since_def)

lemma apply_keeps_grown:
  assumes "grown_since ap same inv t r0 rec" "t \<le> normalize_timestamp delta ts"
  shows "keeps (apply_historic_record delta ap rec item ts) (\<lambda>(_, rec'). grown_since ap same inv t r0 rec')"
proof (cases "apply_historic_record delta ap rec item ts")
  case (Inr x)
  have "hr_mode rec = HistoryEnabled" "inv (hr_inner rec)" using assms(1) by (auto simp: grown_since_def)
  with grown_apply [OF this assms(2)] grown_trans [OF assms(1)] Inr show ?thesis by (cases x) auto
qed simp

text \<open>A change the clients cannot observe needs no event.\<close>

lemma grown_touch:
  assumes "grown_since ap same inv t r0 rec" "inv s" "same s (hr_inner rec)"
  shows "grown_since ap same inv t r0 (rec\<lparr>hr_inner := s\<rparr>)"
proof (rule grown_trans [OF assms(1)])
  show "grown_since ap same inv t rec (rec\<lparr>hr_inner := s\<rparr>)"
    using assms by (simp add: grown_since_def rollback_loop_stop)
qed

text \<open>Rolling back to a time restores the component as it was then, history included.\<close>

lemma rollback_restores:
  assumes "settled_before t rec" "grown_since ap same inv t rec rec'"
  shows "\<exists>s. rollback_to_timestamp ap rec' t = Inr (rec'\<lparr>hr_inner := s, hr_history := hr_history rec\<rparr>) \<and> same s (hr_inner rec)"
proof -
  obtain h s where h: "hr_history rec' = hr_history rec @ h" "\<forall>e \<in> set h. t \<le> fst e"
    "rollback_loop ap (hr_inner rec') h t = Inr (s, [])" "same s (hr_inner rec)"
    using assms(2) by (auto simp: grown_since_def)
  have "rollback_loop ap s (hr_history rec) t = Inr (s, hr_history rec)"
    using assms(1) by (intro rollback_loop_stop) (auto simp: settled_before_def)
  with h show ?thesis by (auto simp: rollback_to_timestamp_def rollback_loop_append)
qed

end

section \<open>Vectors\<close>

datatype 'x vector_history_event = VecPush 'x | VecPop

definition vec_apply :: "('a list, 'a vector_history_event, 'a option) apply_fn" where
  "vec_apply xs item =
     (case item of
        VecPop \<Rightarrow> (if xs = [] then Inl (Panic (PanicMsg ''unwrap on None''))
                   else Inr (butlast xs, VecPush (last xs), Some (last xs)))
      | VecPush x \<Rightarrow> Inr (xs @ [x], VecPop, None))"

lemma snoc_last_butlast: "xs \<noteq> [] \<Longrightarrow> butlast xs = ys \<Longrightarrow> ys @ [last xs] = xs"
  by auto

lemmas snoc_last_Nil = snoc_last_butlast [where ys = "[]", simplified]

interpretation vec: with_history vec_apply "(=)" "\<lambda>_. True"
  by unfold_locales (auto simp: vec_apply_def snoc_last_Nil split: vector_history_event.splits if_splits)

type_synonym 'a vec_recorder = "('a list, 'a vector_history_event) history_recorder"

definition vec_push :: "u32 \<Rightarrow> 'a vec_recorder \<Rightarrow> 'a \<Rightarrow> timestamp \<Rightarrow> 'a vec_recorder res" where
  "vec_push delta rec elem ts = map_res snd (apply_historic_record delta vec_apply rec (VecPush elem) ts)"

definition vec_pop :: "u32 \<Rightarrow> 'a vec_recorder \<Rightarrow> timestamp \<Rightarrow> ('a \<times> 'a vec_recorder) res" where
  "vec_pop delta rec ts =
     and_then (apply_historic_record delta vec_apply rec VecPop ts) (\<lambda>(v, rec').
       map_res (\<lambda>x. (x, rec')) (ok_or (Panic (PanicMsg ''unwrap on None'')) v))"

definition vec_len :: "'a vec_recorder \<Rightarrow> nat" where
  "vec_len rec = length (hr_inner rec)"

definition vec_is_empty :: "'a vec_recorder \<Rightarrow> bool" where
  "vec_is_empty rec \<longleftrightarrow> vec_len rec = 0"

section \<open>Hash maps\<close>

record ('k, 'v) hash_map_history_event =
  hme_key :: 'k
  hme_value :: "'v option"

definition map_apply :: "('k \<rightharpoonup> 'v, ('k, 'v) hash_map_history_event, 'v option) apply_fn" where
  "map_apply m item =
     Inr (m(hme_key item := hme_value item), \<lparr>hme_key = hme_key item, hme_value = m (hme_key item)\<rparr>, m (hme_key item))"

interpretation hmap: with_history map_apply "(=)" "\<lambda>_. True"
  by unfold_locales (auto simp: map_apply_def)

type_synonym ('k, 'v) map_recorder = "('k \<rightharpoonup> 'v, ('k, 'v) hash_map_history_event) history_recorder"

definition map_insert :: "u32 \<Rightarrow> ('k, 'v) map_recorder \<Rightarrow> 'k \<Rightarrow> 'v \<Rightarrow> timestamp \<Rightarrow> ('v option \<times> ('k, 'v) map_recorder) res" where
  "map_insert delta rec k v ts = apply_historic_record delta map_apply rec \<lparr>hme_key = k, hme_value = Some v\<rparr> ts"

section \<open>Framed stacks\<close>

record 'a framed_stack =
  fs_data :: "'a list"
  frame_start_indices :: "nat list"

definition framed_stack_default :: "'a framed_stack" where
  "framed_stack_default = \<lparr>fs_data = [], frame_start_indices = [0]\<rparr>"

datatype 'a framed_stack_event = FsPush 'a | FsPop | PushFrame nat | MergeFrame

definition framed_apply :: "('a framed_stack, 'a framed_stack_event, unit) apply_fn" where
  "framed_apply fs item =
     (case item of
        FsPush x \<Rightarrow> Inr (fs\<lparr>fs_data := fs_data fs @ [x]\<rparr>, FsPop, ())
      | FsPop \<Rightarrow> (if fs_data fs = [] then Inl (Panic (PanicMsg ''unwrap on None''))
                  else Inr (fs\<lparr>fs_data := butlast (fs_data fs)\<rparr>, FsPush (last (fs_data fs)), ()))
      | PushFrame i \<Rightarrow> Inr (fs\<lparr>frame_start_indices := frame_start_indices fs @ [i]\<rparr>, MergeFrame, ())
      | MergeFrame \<Rightarrow> (if frame_start_indices fs = [] then Inl (Panic (PanicMsg ''unwrap on None''))
                  else Inr (fs\<lparr>frame_start_indices := butlast (frame_start_indices fs)\<rparr>,
                            PushFrame (last (frame_start_indices fs)), ())))"

interpretation framed: with_history framed_apply "(=)" "\<lambda>_. True"
  by unfold_locales (auto simp: framed_apply_def snoc_last_Nil split: framed_stack_event.splits if_splits)

definition fs_push_frame :: "'a framed_stack \<Rightarrow> 'a framed_stack_event" where
  "fs_push_frame fs = PushFrame (length (fs_data fs))"

text \<open>The slice from the start of the last frame; both the missing frame and a start past the end abort.\<close>

definition current_frame :: "'a framed_stack \<Rightarrow> 'a list res" where
  "current_frame fs =
     (if frame_start_indices fs = [] \<or> length (fs_data fs) < last (frame_start_indices fs)
      then Inl (Panic IndexOutOfBounds) else Inr (drop (last (frame_start_indices fs)) (fs_data fs)))"

definition fs_len :: "'a framed_stack \<Rightarrow> nat" where
  "fs_len fs = length (frame_start_indices fs)"

type_synonym 'a framed_recorder = "('a framed_stack, 'a framed_stack_event) history_recorder"

definition push_to_frame :: "u32 \<Rightarrow> 'a framed_recorder \<Rightarrow> 'a \<Rightarrow> timestamp \<Rightarrow> 'a framed_recorder res" where
  "push_to_frame delta rec x ts = map_res snd (apply_historic_record delta framed_apply rec (FsPush x) ts)"

lemma frame_pop_shrinks:
  assumes "apply_historic_record delta framed_apply rec FsPop ts = Inr (v, rec')"
  shows "length (fs_data (hr_inner rec')) < length (fs_data (hr_inner rec))"
  using assms
  by (cases "hr_mode rec") (auto simp: apply_historic_record_Inr framed_apply_def split: if_splits)

function clear_frame_loop :: "u32 \<Rightarrow> 'a framed_recorder \<Rightarrow> nat \<Rightarrow> timestamp \<Rightarrow> 'a framed_recorder res" where
  "clear_frame_loop delta rec start ts =
     (if start < length (fs_data (hr_inner rec))
      then (case apply_historic_record delta framed_apply rec FsPop ts of
              Inl e \<Rightarrow> Inl e | Inr (_, rec') \<Rightarrow> clear_frame_loop delta rec' start ts)
      else Inr rec)"
  by pat_completeness auto
termination
  by (relation "measure (\<lambda>(delta, rec, start, ts). length (fs_data (hr_inner rec)))")
    (auto dest: frame_pop_shrinks)

declare clear_frame_loop.simps [simp del]

definition clear_frame :: "u32 \<Rightarrow> 'a framed_recorder \<Rightarrow> timestamp \<Rightarrow> 'a framed_recorder res" where
  "clear_frame delta rec ts =
     (if frame_start_indices (hr_inner rec) = [] then Inl (Panic (PanicMsg ''unwrap on None''))
      else clear_frame_loop delta rec (last (frame_start_indices (hr_inner rec))) ts)"

fun extend_frame :: "u32 \<Rightarrow> 'a framed_recorder \<Rightarrow> 'a list \<Rightarrow> timestamp \<Rightarrow> 'a framed_recorder res" where
  "extend_frame delta rec [] ts = Inr rec"
| "extend_frame delta rec (x # xs) ts = and_then (push_to_frame delta rec x ts) (\<lambda>rec'. extend_frame delta rec' xs ts)"

definition push_frame :: "u32 \<Rightarrow> 'a framed_recorder \<Rightarrow> timestamp \<Rightarrow> 'a framed_recorder res" where
  "push_frame delta rec ts = map_res snd (apply_historic_record delta framed_apply rec (fs_push_frame (hr_inner rec)) ts)"

definition merge_frame :: "u32 \<Rightarrow> 'a framed_recorder \<Rightarrow> timestamp \<Rightarrow> 'a framed_recorder res" where
  "merge_frame delta rec ts = map_res snd (apply_historic_record delta framed_apply rec MergeFrame ts)"

text \<open>What the frame operations do to the stack, given a timestamp that is not older than the history.\<close>

lemma push_to_frame_returns:
  assumes "in_time delta ts rec"
  shows "returns (push_to_frame delta rec x ts)
    (\<lambda>r. hr_inner r = (hr_inner rec)\<lparr>fs_data := fs_data (hr_inner rec) @ [x]\<rparr> \<and> in_time delta ts r)"
  using apply_returns [OF _ assms, of framed_apply "FsPush x" _ FsPop "()"]
  by (force simp: push_to_frame_def framed_apply_def elim!: returns_mono)

lemma extend_frame_returns:
  "in_time delta ts rec \<Longrightarrow> returns (extend_frame delta rec xs ts)
    (\<lambda>r. hr_inner r = (hr_inner rec)\<lparr>fs_data := fs_data (hr_inner rec) @ xs\<rparr> \<and> in_time delta ts r)"
proof (induction xs arbitrary: rec)
  case (Cons x xs)
  show ?case
    unfolding extend_frame.simps returns_simps
    by (rule returns_mono [OF push_to_frame_returns [OF Cons.prems]], rule returns_mono [OF Cons.IH]) auto
qed simp

lemma push_frame_returns:
  assumes "in_time delta ts rec"
  shows "returns (push_frame delta rec ts)
    (\<lambda>r. hr_inner r = (hr_inner rec)\<lparr>frame_start_indices := frame_start_indices (hr_inner rec) @ [length (fs_data (hr_inner rec))]\<rparr>
       \<and> in_time delta ts r)"
  using apply_returns [OF _ assms, of framed_apply "fs_push_frame (hr_inner rec)" _ MergeFrame "()"]
  by (force simp: push_frame_def framed_apply_def fs_push_frame_def elim!: returns_mono)

lemma merge_frame_returns:
  assumes "in_time delta ts rec" "frame_start_indices (hr_inner rec) \<noteq> []"
  shows "returns (merge_frame delta rec ts)
    (\<lambda>r. hr_inner r = (hr_inner rec)\<lparr>frame_start_indices := butlast (frame_start_indices (hr_inner rec))\<rparr>
       \<and> in_time delta ts r)"
  using apply_returns [OF _ assms(1), of framed_apply MergeFrame _ _ "()"] assms(2)
  by (force simp: merge_frame_def framed_apply_def elim!: returns_mono)

lemma pop_returns:
  assumes "in_time delta ts rec" "fs_data (hr_inner rec) \<noteq> []"
  shows "returns (apply_historic_record delta framed_apply rec FsPop ts)
    (\<lambda>(_, r). hr_inner r = (hr_inner rec)\<lparr>fs_data := butlast (fs_data (hr_inner rec))\<rparr> \<and> in_time delta ts r)"
  using apply_returns [OF _ assms(1), of framed_apply FsPop _ _ "()"] assms(2)
  by (force simp: framed_apply_def elim!: returns_mono)

lemma clear_frame_loop_returns:
  "in_time delta ts rec \<Longrightarrow> returns (clear_frame_loop delta rec start ts)
    (\<lambda>r. hr_inner r = (hr_inner rec)\<lparr>fs_data := take start (fs_data (hr_inner rec))\<rparr> \<and> in_time delta ts r)"
proof (induction delta rec start ts rule: clear_frame_loop.induct)
  case (1 delta rec start ts)
  show ?case
  proof (cases "start < length (fs_data (hr_inner rec))")
    case True
    then have "fs_data (hr_inner rec) \<noteq> []" by auto
    from pop_returns [OF "1.prems" this] obtain v r where
      r: "apply_historic_record delta framed_apply rec FsPop ts = Inr (v, r)" "in_time delta ts r"
        "hr_inner r = (hr_inner rec)\<lparr>fs_data := butlast (fs_data (hr_inner rec))\<rparr>"
      by (auto simp: returns_iff)
    have "take start (butlast (fs_data (hr_inner rec))) = take start (fs_data (hr_inner rec))"
      using True by (simp add: take_butlast)
    then show ?thesis
      using returns_mono [OF "1.IH" [OF True r(1) refl r(2)]] True r by (subst clear_frame_loop.simps) simp
  qed (use "1.prems" in \<open>simp add: clear_frame_loop.simps\<close>)
qed

lemma clear_frame_returns:
  assumes "in_time delta ts rec" "frame_start_indices (hr_inner rec) \<noteq> []"
  shows "returns (clear_frame delta rec ts)
    (\<lambda>r. hr_inner r = (hr_inner rec)\<lparr>fs_data := take (last (frame_start_indices (hr_inner rec))) (fs_data (hr_inner rec))\<rparr>
       \<and> in_time delta ts r)"
  using assms clear_frame_loop_returns by (simp add: clear_frame_def)

text \<open>Whatever the frame operations do can be undone.\<close>

abbreviation framed_grown :: "timestamp \<Rightarrow> 'a framed_recorder \<Rightarrow> 'a framed_recorder \<Rightarrow> bool" where
  "framed_grown \<equiv> grown_since framed_apply (=) (\<lambda>_. True)"

lemma frame_event_keeps:
  assumes "framed_grown t r0 rec" "t \<le> normalize_timestamp delta ts"
  shows "keeps (map_res snd (apply_historic_record delta framed_apply rec item ts)) (framed_grown t r0)"
  using framed.apply_keeps_grown [OF assms, of item] by (auto elim!: keeps_mono)

lemma push_to_frame_keeps:
  "framed_grown t r0 rec \<Longrightarrow> t \<le> normalize_timestamp delta ts \<Longrightarrow> keeps (push_to_frame delta rec x ts) (framed_grown t r0)"
  "framed_grown t r0 rec \<Longrightarrow> t \<le> normalize_timestamp delta ts \<Longrightarrow> keeps (push_frame delta rec ts) (framed_grown t r0)"
  "framed_grown t r0 rec \<Longrightarrow> t \<le> normalize_timestamp delta ts \<Longrightarrow> keeps (merge_frame delta rec ts) (framed_grown t r0)"
  unfolding push_to_frame_def push_frame_def merge_frame_def by (rule frame_event_keeps; assumption)+

lemma extend_frame_keeps:
  "framed_grown t r0 rec \<Longrightarrow> t \<le> normalize_timestamp delta ts \<Longrightarrow> keeps (extend_frame delta rec xs ts) (framed_grown t r0)"
proof (induction xs arbitrary: rec)
  case (Cons x xs)
  show ?case
    unfolding extend_frame.simps keeps_simps
    by (rule keeps_mono [OF push_to_frame_keeps(1) [OF Cons.prems]]) (rule Cons.IH [OF _ Cons.prems(2)])
qed simp

lemma clear_frame_keeps:
  assumes "framed_grown t r0 rec" "t \<le> normalize_timestamp delta ts"
  shows "keeps (clear_frame delta rec ts) (framed_grown t r0)"
proof -
  have "keeps (clear_frame_loop delta rec start ts) (framed_grown t r0)" for start
    using assms
  proof (induction delta rec start ts rule: clear_frame_loop.induct)
    case (1 delta rec start ts)
    show ?case
      using 1 framed.apply_keeps_grown [OF "1.prems", of FsPop]
      by (subst clear_frame_loop.simps) (auto split: sum.splits)
  qed
  then show ?thesis by (simp add: clear_frame_def)
qed

section \<open>Forward and rollback queues\<close>

record 'a app_data_frame_manager =
  adf_forward :: "'a framed_recorder"
  adf_rollback :: "'a framed_recorder"

definition adf_default :: "history_mode \<Rightarrow> 'a app_data_frame_manager" where
  "adf_default mode = \<lparr>adf_forward = from_inner mode framed_stack_default, adf_rollback = from_inner mode framed_stack_default\<rparr>"

definition adf_delete_history :: "'a app_data_frame_manager \<Rightarrow> 'a app_data_frame_manager" where
  "adf_delete_history m = \<lparr>adf_forward = delete_history (adf_forward m), adf_rollback = delete_history (adf_rollback m)\<rparr>"

definition push_forward :: "u32 \<Rightarrow> 'a app_data_frame_manager \<Rightarrow> 'a \<Rightarrow> timestamp \<Rightarrow> 'a app_data_frame_manager res" where
  "push_forward delta m item ts = map_res (\<lambda>r. m\<lparr>adf_forward := r\<rparr>) (push_to_frame delta (adf_forward m) item ts)"

definition push_rollback :: "u32 \<Rightarrow> 'a app_data_frame_manager \<Rightarrow> 'a \<Rightarrow> timestamp \<Rightarrow> 'a app_data_frame_manager res" where
  "push_rollback delta m item ts = map_res (\<lambda>r. m\<lparr>adf_rollback := r\<rparr>) (push_to_frame delta (adf_rollback m) item ts)"

text \<open>Both queues in order; the first abort wins.\<close>

definition on_both ::
  "('a framed_recorder \<Rightarrow> 'a framed_recorder res) \<Rightarrow> 'a app_data_frame_manager \<Rightarrow> 'a app_data_frame_manager res" where
  "on_both f m = and_then (f (adf_forward m)) (\<lambda>fw. map_res (\<lambda>rb. \<lparr>adf_forward = fw, adf_rollback = rb\<rparr>) (f (adf_rollback m)))"

definition adf_push_frame :: "u32 \<Rightarrow> 'a app_data_frame_manager \<Rightarrow> timestamp \<Rightarrow> 'a app_data_frame_manager res" where
  "adf_push_frame delta m ts = on_both (\<lambda>r. push_frame delta r ts) m"

definition adf_merge_frame :: "u32 \<Rightarrow> 'a app_data_frame_manager \<Rightarrow> timestamp \<Rightarrow> 'a app_data_frame_manager res" where
  "adf_merge_frame delta m ts = on_both (\<lambda>r. merge_frame delta r ts) m"

definition adf_len :: "'a app_data_frame_manager \<Rightarrow> nat" where
  "adf_len m = fs_len (hr_inner (adf_forward m))"

definition move_rollback_to_forward ::
  "u32 \<Rightarrow> ('a \<Rightarrow> bool) \<Rightarrow> 'a app_data_frame_manager \<Rightarrow> timestamp \<Rightarrow> 'a app_data_frame_manager res" where
  "move_rollback_to_forward delta keep m ts =
     and_then (current_frame (hr_inner (adf_rollback m))) (\<lambda>frame.
     and_then (extend_frame delta (adf_forward m) (filter keep (rev frame)) ts) (\<lambda>fw.
     map_res (\<lambda>rb. \<lparr>adf_forward = fw, adf_rollback = rb\<rparr>) (clear_frame delta (adf_rollback m) ts)))"

definition adf_rollback_to_timestamp :: "'a app_data_frame_manager \<Rightarrow> timestamp \<Rightarrow> 'a app_data_frame_manager res" where
  "adf_rollback_to_timestamp m t = on_both (\<lambda>r. rollback_to_timestamp framed_apply r t) m"

text \<open>
  A pair of queues: \<open>fw\<close> is the forward queue, \<open>qs\<close> and \<open>ss\<close> are the rollback queue and its frame starts, innermost first.
\<close>

definition queues_hold :: "u32 \<Rightarrow> timestamp \<Rightarrow> ('q \<Rightarrow> bool) \<Rightarrow> 'q app_data_frame_manager \<Rightarrow> 'q list \<Rightarrow> 'q list \<Rightarrow> nat list \<Rightarrow> bool" where
  "queues_hold delta ts isw m fw qs ss \<longleftrightarrow>
     in_time delta ts (adf_forward m) \<and> in_time delta ts (adf_rollback m) \<and> fs_data (hr_inner (adf_forward m)) = fw \<and>
     length (frame_start_indices (hr_inner (adf_forward m))) = length ss \<and>
     (ss \<noteq> [] \<longrightarrow> hd (frame_start_indices (hr_inner (adf_forward m))) = 0) \<and>
     hr_inner (adf_rollback m) = \<lparr>fs_data = qs, frame_start_indices = rev ss\<rparr> \<and> list_all isw qs"

lemma push_forward_returns:
  assumes "queues_hold delta ts isw m fw qs ss"
  shows "returns (push_forward delta m q ts) (\<lambda>m'. queues_hold delta ts isw m' (fw @ [q]) qs ss)"
  using assms push_to_frame_returns [of delta ts "adf_forward m" q]
  by (auto simp: push_forward_def queues_hold_def elim!: returns_mono)

lemma push_rollback_returns:
  assumes "queues_hold delta ts isw m fw qs ss" "isw q"
  shows "returns (push_rollback delta m q ts) (\<lambda>m'. queues_hold delta ts isw m' fw (qs @ [q]) ss)"
  using assms push_to_frame_returns [of delta ts "adf_rollback m" q]
  by (auto simp: push_rollback_def queues_hold_def elim!: returns_mono)

lemma on_both_returns:
  assumes "returns (f (adf_forward m)) P" "returns (f (adf_rollback m)) Q"
    and "\<And>x y. P x \<Longrightarrow> Q y \<Longrightarrow> R \<lparr>adf_forward = x, adf_rollback = y\<rparr>"
  shows "returns (on_both f m) R"
  using assms by (auto simp: on_both_def returns_iff)

lemma adf_push_frame_returns:
  assumes "queues_hold delta ts isw m fw qs ss" "ss \<noteq> []"
  shows "returns (adf_push_frame delta m ts) (\<lambda>m'. queues_hold delta ts isw m' fw qs (length qs # ss))"
proof -
  have "frame_start_indices (hr_inner (adf_forward m)) \<noteq> []" using assms by (auto simp: queues_hold_def)
  then show ?thesis
    unfolding adf_push_frame_def
    by (intro on_both_returns [OF push_frame_returns push_frame_returns]) (use assms in \<open>auto simp: queues_hold_def\<close>)
qed

lemma hd_butlast: "Suc 0 < length xs \<Longrightarrow> hd (butlast xs) = hd xs"
  by (cases xs) auto

lemma adf_merge_frame_returns:
  assumes "queues_hold delta ts isw m fw qs (s # ss)"
  shows "returns (adf_merge_frame delta m ts) (\<lambda>m'. queues_hold delta ts isw m' fw qs ss)"
  unfolding adf_merge_frame_def
  by (rule on_both_returns [OF merge_frame_returns merge_frame_returns]) (use assms in \<open>auto simp: queues_hold_def hd_butlast\<close>)

lemma queues_current_frame:
  "queues_hold delta ts isw m fw qs (s # ss) \<Longrightarrow> s \<le> length qs \<Longrightarrow> current_frame (hr_inner (adf_rollback m)) = Inr (drop s qs)"
  by (simp add: queues_hold_def current_frame_def)

lemma move_rollback_returns:
  assumes "queues_hold delta ts isw m fw qs (s # ss)" "s \<le> length qs"
  shows "returns (move_rollback_to_forward delta keep m ts) (\<lambda>m'. queues_hold delta ts isw m' (fw @ filter keep (rev (drop s qs))) (take s qs) (s # ss))"
proof -
  have "returns (extend_frame delta (adf_forward m) xs ts) (\<lambda>r. in_time delta ts r \<and> fs_data (hr_inner r) = fw @ xs \<and>
      frame_start_indices (hr_inner r) = frame_start_indices (hr_inner (adf_forward m)))" for xs
    using assms(1) by (intro returns_mono [OF extend_frame_returns]) (auto simp: queues_hold_def)
  moreover have "returns (clear_frame delta (adf_rollback m) ts) (\<lambda>r. in_time delta ts r \<and>
      hr_inner r = \<lparr>fs_data = take s qs, frame_start_indices = rev (s # ss)\<rparr>)"
    using assms(1) by (intro returns_mono [OF clear_frame_returns]) (auto simp: queues_hold_def)
  moreover have "list_all isw (take s qs)"
    using assms(1) by (auto simp: queues_hold_def list_all_iff dest: in_set_takeD)
  moreover have "length (frame_start_indices (hr_inner (adf_forward m))) = Suc (length ss)"
    "hd (frame_start_indices (hr_inner (adf_forward m))) = 0"
    using assms(1) by (simp_all add: queues_hold_def)
  ultimately show ?thesis
    unfolding move_rollback_to_forward_def queues_current_frame [OF assms]
    by (fastforce simp: queues_hold_def elim!: returns_mono)
qed

section \<open>Storage wrappers\<close>

record storage_history_record =
  shr_key :: storage_key
  shr_value :: u256

text \<open>\<open>H256\<close> and \<open>U256\<close> share a representation, so \<open>u256_to_h256\<close> and its inverse are identities here.\<close>

definition storage_apply :: "hash_fn \<Rightarrow> (storage_view_state, storage_history_record, u256) apply_fn" where
  "storage_apply blake s item =
     map_res (\<lambda>(prev_value, s'). (s', \<lparr>shr_key = shr_key item, shr_value = prev_value\<rparr>, prev_value))
       (set_value blake s (shr_key item) (shr_value item))"

definition same_storage :: "hash_fn \<Rightarrow> storage_view_state \<Rightarrow> storage_view_state \<Rightarrow> bool" where
  "same_storage blake s1 s2 \<longleftrightarrow> storage_handle s1 = storage_handle s2 \<and>
     overlaid_value blake (storage_handle s1) (modified_storage_keys s1) =
     overlaid_value blake (storage_handle s2) (modified_storage_keys s2)"

lemma overlaid_value_upd [simp]:
  "overlaid_value blake snap (m(k \<mapsto> v)) = (overlaid_value blake snap m)(k := Inr v)"
  by (auto simp: overlaid_value_def fun_eq_iff)

lemma storage_apply_Inr:
  assumes "cache_coherent blake s"
  shows "storage_apply blake s item = Inr (s', u, v) \<longleftrightarrow>
     overlaid_value blake (storage_handle s) (modified_storage_keys s) (shr_key item) = Inr v
     \<and> u = \<lparr>shr_key = shr_key item, shr_value = v\<rparr> \<and> set_value blake s (shr_key item) (shr_value item) = Inr (v, s')"
  using set_value_cases(1) [OF assms, of "shr_key item" "shr_value item"]
  by (cases "set_value blake s (shr_key item) (shr_value item)") (auto simp: storage_apply_def)

lemma storage_apply_content:
  assumes "cache_coherent blake s" "storage_apply blake s item = Inr (s', u, v)"
  shows "cache_coherent blake s' \<and> storage_handle s' = storage_handle s \<and>
     modified_storage_keys s' = (modified_storage_keys s)(shr_key item \<mapsto> shr_value item)"
  using assms set_value_cases(2) [OF assms(1)] by (auto simp: storage_apply_Inr)

lemma storage_apply_total:
  assumes "cache_coherent blake s"
    and "overlaid_value blake (storage_handle s) (modified_storage_keys s) (shr_key item) = Inr v"
  shows "\<exists>s'. storage_apply blake s item = Inr (s', \<lparr>shr_key = shr_key item, shr_value = v\<rparr>, v)"
  using set_value_cases(1) [OF assms(1), of "shr_key item" "shr_value item"] assms(2)
  by (cases "set_value blake s (shr_key item) (shr_value item)") (auto simp: storage_apply_def)

interpretation storage: with_history "storage_apply blake" "same_storage blake" "cache_coherent blake" for blake
proof
  fix s r s' u v assume s: "cache_coherent blake s" and a: "storage_apply blake s r = Inr (s', u, v)"
  note c = storage_apply_content [OF s a] and i = a [unfolded storage_apply_Inr [OF s]]
  show "cache_coherent blake s'" using c by blast
  have "overlaid_value blake (storage_handle s') (modified_storage_keys s') (shr_key u) = Inr (shr_value r)"
    using c i by simp
  then obtain s'' where s'': "storage_apply blake s' u = Inr (s'', \<lparr>shr_key = shr_key u, shr_value = shr_value r\<rparr>, shr_value r)"
    using storage_apply_total c by blast
  moreover have "same_storage blake s'' s"
    using storage_apply_content [OF conjunct1 [OF c] s''] c i by (auto simp: same_storage_def fun_upd_idem_iff)
  ultimately show "\<exists>s'' r' w. storage_apply blake s' u = Inr (s'', r', w) \<and> same_storage blake s'' s" by blast
next
  fix s1 s2 r s1' u v
  assume s: "cache_coherent blake s1" "cache_coherent blake s2" "same_storage blake s1 s2"
    and a: "storage_apply blake s1 r = Inr (s1', u, v)"
  then have "overlaid_value blake (storage_handle s2) (modified_storage_keys s2) (shr_key r) = Inr v"
    "u = \<lparr>shr_key = shr_key r, shr_value = v\<rparr>"
    by (auto simp: storage_apply_Inr same_storage_def fun_eq_iff)
  then obtain s2' where s2': "storage_apply blake s2 r = Inr (s2', u, v)"
    using storage_apply_total [OF s(2)] by blast
  then show "\<exists>s2'. storage_apply blake s2 r = Inr (s2', u, v) \<and> same_storage blake s1' s2'"
    using storage_apply_content [OF s(1) a] storage_apply_content [OF s(2) s2'] s(3)
    by (auto simp: same_storage_def)
qed (auto simp: same_storage_def)

type_synonym storage_recorder = "(storage_view_state, storage_history_record) history_recorder"

text \<open>\<open>read_from_storage\<close> goes through the shared pointer: the cache of the view may fill, no event is recorded.\<close>

definition read_from_storage :: "hash_fn \<Rightarrow> storage_recorder \<Rightarrow> storage_key \<Rightarrow> (u256 \<times> storage_recorder) res" where
  "read_from_storage blake rec k = map_res (\<lambda>(v, s). (v, rec\<lparr>hr_inner := s\<rparr>)) (view_read_value blake (hr_inner rec) k)"

definition write_to_storage ::
  "u32 \<Rightarrow> hash_fn \<Rightarrow> storage_recorder \<Rightarrow> storage_key \<Rightarrow> u256 \<Rightarrow> timestamp \<Rightarrow> (u256 \<times> storage_recorder) res" where
  "write_to_storage delta blake rec k v ts = apply_historic_record delta (storage_apply blake) rec \<lparr>shr_key = k, shr_value = v\<rparr> ts"

definition get_modified_storage_keys :: "storage_recorder \<Rightarrow> storage_key \<rightharpoonup> h256" where
  "get_modified_storage_keys rec = modified_storage_keys (hr_inner rec)"

type_synonym transient_storage = "storage_key \<rightharpoonup> u256"
type_synonym transient_recorder = "(transient_storage, storage_history_record) history_recorder"

definition transient_value :: "transient_storage \<Rightarrow> storage_key \<Rightarrow> u256" where
  "transient_value m k = (case m k of Some v \<Rightarrow> v | None \<Rightarrow> 0)"

definition transient_apply :: "(transient_storage, storage_history_record, u256) apply_fn" where
  "transient_apply m item =
     (let prev_value = (case m (shr_key item) of Some v \<Rightarrow> v | None \<Rightarrow> 0)
      in Inr (m(shr_key item \<mapsto> shr_value item), \<lparr>shr_key = shr_key item, shr_value = prev_value\<rparr>, prev_value))"

lemma transient_value_upd [simp]: "transient_value (m(k \<mapsto> v)) = (transient_value m)(k := v)"
  by (auto simp: transient_value_def fun_eq_iff)

interpretation transient: with_history transient_apply "\<lambda>m1 m2. transient_value m1 = transient_value m2" "\<lambda>_. True"
  by unfold_locales (auto simp: transient_apply_def transient_value_def [symmetric] Let_def)

definition read_from_transient_storage :: "transient_recorder \<Rightarrow> storage_key \<Rightarrow> u256" where
  "read_from_transient_storage rec k = (case hr_inner rec k of Some v \<Rightarrow> v | None \<Rightarrow> 0)"

definition transient_write_to_storage ::
  "u32 \<Rightarrow> transient_recorder \<Rightarrow> storage_key \<Rightarrow> u256 \<Rightarrow> timestamp \<Rightarrow> (u256 \<times> transient_recorder) res" where
  "transient_write_to_storage delta rec k v ts = apply_historic_record delta transient_apply rec \<lparr>shr_key = k, shr_value = v\<rparr> ts"

text \<open>The entries in the iteration order of the hash map, which \<open>iter_order\<close> stands for.\<close>

definition clone_vec :: "(transient_storage \<Rightarrow> storage_key list) \<Rightarrow> transient_recorder \<Rightarrow> (storage_key \<times> u256) list" where
  "clone_vec iter_order rec = map (\<lambda>k. (k, read_from_transient_storage rec k)) (iter_order (hr_inner rec))"

end
