(* ===== verification/Storage_Oracle.thy ===== *)
theory Storage_Oracle
  imports History_Recorder State_Diffs L2_Blocks
begin

text \<open>
  The storage oracle of the legacy VM, \<open>src/crates/multivm/src/versions/vm_latest/oracles/storage.rs\<close>: reads, writes and
  pubdata prices of persistent and transient storage, call frames that commit or revert their writes, and rollback to
  an earlier timestamp. Every component of its state is a recorder of \<open>History_Recorder\<close>.

  The types and constants of \<open>zk_evm\<close> the oracle uses are the record \<open>zkevm\<close> (auxiliary bytes, access costs, the refund
  of an access) and the fields of \<open>LogQuery\<close>; keccak and blake are parameters, and so is the iteration order of a hash map.
\<close>

section \<open>Queries\<close>

record log_query =
  lq_timestamp :: timestamp
  lq_tx_number_in_block :: u16
  lq_aux_byte :: u8
  lq_shard_id :: u8
  lq_address :: address
  lq_key :: u256
  lq_read_value :: u256
  lq_written_value :: u256
  lq_rw_flag :: bool
  lq_rollback :: bool
  lq_is_service :: bool

record storage_log_query =
  slq_log_query :: log_query
  slq_log_type :: storage_log_kind

record reduced_tstore_log_query =
  rq_shard_id :: u8
  rq_address :: address
  rq_key :: u256
  rq_written_value :: u256
  rq_read_value :: u256
  rq_rw_flag :: bool
  rq_timestamp :: timestamp
  rq_rollback :: bool

definition reduced_of_query :: "log_query \<Rightarrow> reduced_tstore_log_query" where
  "reduced_of_query q = \<lparr>rq_shard_id = lq_shard_id q, rq_address = lq_address q, rq_key = lq_key q,
     rq_written_value = lq_written_value q, rq_read_value = lq_read_value q, rq_rw_flag = lq_rw_flag q,
     rq_timestamp = lq_timestamp q, rq_rollback = lq_rollback q\<rparr>"

datatype storage_access_refund = Cold | Warm u32

record zkevm =
  time_delta_per_cycle :: u32
  storage_aux_byte :: u8
  transient_storage_aux_byte :: u8
  storage_access_cold_read_cost :: u32
  storage_access_cold_write_cost :: u32
  storage_access_warm_read_cost :: u32
  storage_access_warm_write_cost :: u32
  access_refund :: "storage_access_refund \<Rightarrow> u32"
  zk_keccak :: hash_fn
  zk_blake :: hash_fn
  hash_map_order :: "transient_storage \<Rightarrow> storage_key list"

definition WARM_READ_REFUND :: "zkevm \<Rightarrow> u32" where
  "WARM_READ_REFUND zk = storage_access_cold_read_cost zk - storage_access_warm_read_cost zk"

definition WARM_WRITE_REFUND :: "zkevm \<Rightarrow> u32" where
  "WARM_WRITE_REFUND zk = storage_access_cold_write_cost zk - storage_access_warm_write_cost zk"

definition COLD_WRITE_AFTER_WARM_READ_REFUND :: "zkevm \<Rightarrow> u32" where
  "COLD_WRITE_AFTER_WARM_READ_REFUND zk = storage_access_cold_read_cost zk"

definition triplet_to_storage_key :: "u8 \<Rightarrow> address \<Rightarrow> u256 \<Rightarrow> storage_key" where
  "triplet_to_storage_key shard addr k = \<lparr>account = addr, slot = k\<rparr>"

definition storage_key_of_log :: "log_query \<Rightarrow> storage_key" where
  "storage_key_of_log q = triplet_to_storage_key (lq_shard_id q) (lq_address q) (lq_key q)"

section \<open>Balances and prices\<close>

definition BOOTLOADER_ADDRESS :: address where "BOOTLOADER_ADDRESS = 0x8001"

definition L2_BASE_TOKEN_ADDRESS :: address where "L2_BASE_TOKEN_ADDRESS = 0x800a"

definition key_for_eth_balance :: "hash_fn \<Rightarrow> address \<Rightarrow> h256" where
  "key_for_eth_balance keccak addr = keccak (as_bytes (ucast addr) @ replicate 32 0)"

definition key_for_erc20_balance :: "hash_fn \<Rightarrow> address \<Rightarrow> h256" where
  "key_for_erc20_balance keccak addr = keccak (as_bytes (ucast addr) @ as_bytes 51)"

definition storage_key_for_standard_token_balance :: "hash_fn \<Rightarrow> address \<Rightarrow> address \<Rightarrow> storage_key" where
  "storage_key_for_standard_token_balance keccak token_contract addr =
     \<lparr>account = token_contract,
      slot = (if token_contract = L2_BASE_TOKEN_ADDRESS then key_for_eth_balance keccak addr
              else key_for_erc20_balance keccak addr)\<rparr>"

definition storage_key_for_eth_balance :: "hash_fn \<Rightarrow> address \<Rightarrow> storage_key" where
  "storage_key_for_eth_balance keccak addr = storage_key_for_standard_token_balance keccak L2_BASE_TOKEN_ADDRESS addr"

definition BYTES_PER_DERIVED_KEY :: u8 where "BYTES_PER_DERIVED_KEY = 32"

definition get_pubdata_price_bytes :: "u256 \<Rightarrow> u256 \<Rightarrow> bool \<Rightarrow> u32" where
  "get_pubdata_price_bytes initial final is_initial =
     (let compressed_value_size = of_nat (length (compress_with_best_strategy initial final))
      in if is_initial then ucast BYTES_PER_DERIVED_KEY + compressed_value_size
         else ucast BYTES_PER_ENUMERATION_INDEX + compressed_value_size)"

section \<open>Oracle state\<close>

record storage_oracle =
  so_storage :: storage_recorder
  so_transient_storage :: transient_recorder
  so_storage_frames_stack :: "storage_log_query app_data_frame_manager"
  so_transient_storage_frames_stack :: "reduced_tstore_log_query app_data_frame_manager"
  so_paid_changes :: "(storage_key, u32) map_recorder"
  so_initial_values :: "(storage_key, u256) map_recorder"
  so_returned_io_refunds :: "u32 vec_recorder"
  so_returned_pubdata_costs :: "u32 vec_recorder"
  so_written_storage_keys :: "(storage_key, unit) map_recorder"
  so_read_storage_keys :: "(storage_key, unit) map_recorder"

text \<open>The pubdata costs are \<open>i32\<close>: a word of that width, read with \<open>sint\<close>.\<close>

definition storage_oracle_new :: "history_mode \<Rightarrow> storage_view_state \<Rightarrow> storage_oracle" where
  "storage_oracle_new mode s =
     \<lparr>so_storage = from_inner mode s,
      so_transient_storage = from_inner mode Map.empty,
      so_storage_frames_stack = adf_default mode,
      so_transient_storage_frames_stack = adf_default mode,
      so_paid_changes = from_inner mode Map.empty,
      so_initial_values = from_inner mode Map.empty,
      so_returned_io_refunds = from_inner mode [],
      so_returned_pubdata_costs = from_inner mode [],
      so_written_storage_keys = from_inner HistoryEnabled Map.empty,
      so_read_storage_keys = from_inner HistoryEnabled Map.empty\<rparr>"

definition oracle_rollback_to_timestamp :: "zkevm \<Rightarrow> storage_oracle \<Rightarrow> timestamp \<Rightarrow> storage_oracle res" where
  "oracle_rollback_to_timestamp zk so t =
     and_then (rollback_to_timestamp (storage_apply (zk_blake zk)) (so_storage so) t) (\<lambda>st.
     and_then (adf_rollback_to_timestamp (so_storage_frames_stack so) t) (\<lambda>fr.
     and_then (rollback_to_timestamp transient_apply (so_transient_storage so) t) (\<lambda>ts.
     and_then (adf_rollback_to_timestamp (so_transient_storage_frames_stack so) t) (\<lambda>tf.
     and_then (rollback_to_timestamp map_apply (so_paid_changes so) t) (\<lambda>pc.
     and_then (rollback_to_timestamp map_apply (so_initial_values so) t) (\<lambda>iv.
     and_then (rollback_to_timestamp vec_apply (so_returned_io_refunds so) t) (\<lambda>io.
     and_then (rollback_to_timestamp vec_apply (so_returned_pubdata_costs so) t) (\<lambda>pd.
     and_then (rollback_to_timestamp map_apply (so_written_storage_keys so) t) (\<lambda>wk.
     and_then (rollback_to_timestamp map_apply (so_read_storage_keys so) t) (\<lambda>rk.
       Inr \<lparr>so_storage = st, so_transient_storage = ts, so_storage_frames_stack = fr,
            so_transient_storage_frames_stack = tf, so_paid_changes = pc, so_initial_values = iv,
            so_returned_io_refunds = io, so_returned_pubdata_costs = pd, so_written_storage_keys = wk,
            so_read_storage_keys = rk\<rparr>))))))))))"

text \<open>The transient frames are not among the histories that are deleted.\<close>

definition oracle_delete_history :: "storage_oracle \<Rightarrow> storage_oracle" where
  "oracle_delete_history so = so
     \<lparr>so_storage := delete_history (so_storage so),
      so_transient_storage := delete_history (so_transient_storage so),
      so_storage_frames_stack := adf_delete_history (so_storage_frames_stack so),
      so_paid_changes := delete_history (so_paid_changes so),
      so_initial_values := delete_history (so_initial_values so),
      so_returned_io_refunds := delete_history (so_returned_io_refunds so),
      so_returned_pubdata_costs := delete_history (so_returned_pubdata_costs so),
      so_written_storage_keys := delete_history (so_written_storage_keys so),
      so_read_storage_keys := delete_history (so_read_storage_keys so)\<rparr>"

definition is_storage_key_free :: "zkevm \<Rightarrow> storage_key \<Rightarrow> bool" where
  "is_storage_key_free zk k \<longleftrightarrow> account k = SYSTEM_CONTEXT_ADDRESS \<or> k = storage_key_for_eth_balance (zk_keccak zk) BOOTLOADER_ADDRESS"

definition get_initial_value :: "storage_oracle \<Rightarrow> storage_key \<Rightarrow> u256 option" where
  "get_initial_value so k = hr_inner (so_initial_values so) k"

definition set_initial_value :: "zkevm \<Rightarrow> storage_oracle \<Rightarrow> storage_key \<Rightarrow> u256 \<Rightarrow> timestamp \<Rightarrow> storage_oracle res" where
  "set_initial_value zk so k v ts =
     (if k \<in> dom (hr_inner (so_initial_values so)) then Inr so
      else map_res (\<lambda>(_, r). so\<lparr>so_initial_values := r\<rparr>)
             (map_insert (time_delta_per_cycle zk) (so_initial_values so) k v ts))"

text \<open>Marking a key as read or written: only the first time is recorded.\<close>

definition mark_key :: "zkevm \<Rightarrow> (storage_key, unit) map_recorder \<Rightarrow> storage_key \<Rightarrow> timestamp \<Rightarrow> (storage_key, unit) map_recorder res" where
  "mark_key zk keys k ts =
     (if k \<in> dom (hr_inner keys) then Inr keys else map_res snd (map_insert (time_delta_per_cycle zk) keys k () ts))"

definition record_storage_read :: "zkevm \<Rightarrow> storage_oracle \<Rightarrow> log_query \<Rightarrow> storage_oracle res" where
  "record_storage_read zk so q =
     map_res (\<lambda>fr. so\<lparr>so_storage_frames_stack := fr\<rparr>)
       (push_forward (time_delta_per_cycle zk) (so_storage_frames_stack so)
          \<lparr>slq_log_query = q, slq_log_type = ReadKind\<rparr> (lq_timestamp q))"

definition oracle_is_write_initial :: "zkevm \<Rightarrow> storage_oracle \<Rightarrow> storage_key \<Rightarrow> (bool \<times> storage_oracle) res" where
  "oracle_is_write_initial zk so k =
     map_res (\<lambda>(b, s). (b, so\<lparr>so_storage := (so_storage so)\<lparr>hr_inner := s\<rparr>\<rparr>))
       (view_is_write_initial (zk_blake zk) (hr_inner (so_storage so)) k)"

definition write_storage_value :: "zkevm \<Rightarrow> storage_oracle \<Rightarrow> log_query \<Rightarrow> storage_oracle res" where
  "write_storage_value zk so q =
     (let k = triplet_to_storage_key (lq_shard_id q) (lq_address q) (lq_key q);
          delta = time_delta_per_cycle zk
      in and_then (mark_key zk (so_written_storage_keys so) k (lq_timestamp q)) (\<lambda>wk.
         and_then (write_to_storage delta (zk_blake zk) (so_storage so) k (lq_written_value q) (lq_timestamp q)) (\<lambda>(_, st).
         and_then (oracle_is_write_initial zk (so\<lparr>so_written_storage_keys := wk, so_storage := st\<rparr>) k) (\<lambda>(is_initial_write, so').
           let slq = \<lparr>slq_log_query = q, slq_log_type = (if is_initial_write then InitialWrite else RepeatedWrite)\<rparr>
           in and_then (push_forward delta (so_storage_frames_stack so') slq (lq_timestamp q)) (\<lambda>fr.
              map_res (\<lambda>fr'. so'\<lparr>so_storage_frames_stack := fr'\<rparr>)
                (push_rollback delta fr (slq\<lparr>slq_log_query := q\<lparr>lq_rollback := True\<rparr>\<rparr>) (lq_timestamp q)))))))"

definition record_transient_storage_read :: "zkevm \<Rightarrow> storage_oracle \<Rightarrow> reduced_tstore_log_query \<Rightarrow> storage_oracle res" where
  "record_transient_storage_read zk so q =
     map_res (\<lambda>fr. so\<lparr>so_transient_storage_frames_stack := fr\<rparr>)
       (push_forward (time_delta_per_cycle zk) (so_transient_storage_frames_stack so) q (rq_timestamp q))"

definition write_transient_storage_value :: "zkevm \<Rightarrow> storage_oracle \<Rightarrow> reduced_tstore_log_query \<Rightarrow> storage_oracle res" where
  "write_transient_storage_value zk so q =
     (let k = triplet_to_storage_key (rq_shard_id q) (rq_address q) (rq_key q); delta = time_delta_per_cycle zk
      in and_then (transient_write_to_storage delta (so_transient_storage so) k (rq_written_value q) (rq_timestamp q)) (\<lambda>(_, tst).
         and_then (push_forward delta (so_transient_storage_frames_stack so) q (rq_timestamp q)) (\<lambda>fr.
         map_res (\<lambda>fr'. so\<lparr>so_transient_storage := tst, so_transient_storage_frames_stack := fr'\<rparr>)
           (push_rollback delta fr (q\<lparr>rq_rollback := True\<rparr>) (rq_timestamp q)))))"

definition prepaid_for_write :: "storage_oracle \<Rightarrow> storage_key \<Rightarrow> u32" where
  "prepaid_for_write so k = (case hr_inner (so_paid_changes so) k of Some p \<Rightarrow> p | None \<Rightarrow> 0)"

definition base_price_for_write :: "zkevm \<Rightarrow> storage_oracle \<Rightarrow> storage_key \<Rightarrow> u256 \<Rightarrow> u256 \<Rightarrow> (u32 \<times> storage_oracle) res" where
  "base_price_for_write zk so k prev new =
     (if is_storage_key_free zk k \<or> prev = new then Inr (0, so)
      else map_res (\<lambda>(is_initial_write, so'). (get_pubdata_price_bytes prev new is_initial_write, so'))
             (oracle_is_write_initial zk so k))"

text \<open>The fallback of \<open>unwrap_or\<close> is evaluated whether or not there is an initial value.\<close>

definition base_price_for_key_write :: "zkevm \<Rightarrow> storage_oracle \<Rightarrow> storage_key \<Rightarrow> u256 \<Rightarrow> (u32 \<times> storage_oracle) res" where
  "base_price_for_key_write zk so k new =
     and_then (read_from_storage (zk_blake zk) (so_storage so) k) (\<lambda>(stored, st).
       base_price_for_write zk (so\<lparr>so_storage := st\<rparr>) k
         (case get_initial_value so k of Some v \<Rightarrow> v | None \<Rightarrow> stored) new)"

definition base_price_for_write_query :: "zkevm \<Rightarrow> storage_oracle \<Rightarrow> log_query \<Rightarrow> (u32 \<times> storage_oracle) res" where
  "base_price_for_write_query zk so q = base_price_for_key_write zk so (storage_key_of_log q) (lq_written_value q)"

definition get_storage_access_refund :: "zkevm \<Rightarrow> storage_oracle \<Rightarrow> log_query \<Rightarrow> storage_access_refund" where
  "get_storage_access_refund zk so q =
     (let k = storage_key_of_log q in
      if lq_rw_flag q then
        if k \<in> dom (hr_inner (so_written_storage_keys so)) \<or> is_storage_key_free zk k then Warm (WARM_WRITE_REFUND zk)
        else if k \<in> dom (hr_inner (so_read_storage_keys so)) then Warm (COLD_WRITE_AFTER_WARM_READ_REFUND zk)
        else Cold
      else if k \<in> dom (hr_inner (so_read_storage_keys so)) \<or> is_storage_key_free zk k then Warm (WARM_READ_REFUND zk)
      else Cold)"

text \<open>The last elements that all satisfy the bound: what \<open>rsplit\<close> on its negation yields first.\<close>

definition storage_log_queries_after_timestamp :: "storage_oracle \<Rightarrow> timestamp \<Rightarrow> storage_log_query list res" where
  "storage_log_queries_after_timestamp so from_timestamp =
     map_res (\<lambda>qs. rev (takeWhile (\<lambda>l. \<not> lq_timestamp (slq_log_query l) < from_timestamp) (rev qs)))
       (current_frame (hr_inner (adf_forward (so_storage_frames_stack so))))"

definition get_final_log_queries :: "storage_oracle \<Rightarrow> storage_log_query list res" where
  "get_final_log_queries so =
     ensure (adf_len (so_storage_frames_stack so) = 1) (Panic (PanicMsg ''VM finished execution in unexpected state''))
       (current_frame (hr_inner (adf_forward (so_storage_frames_stack so))))"

section \<open>The oracle's interface to the VM\<close>

definition read_query_value :: "zkevm \<Rightarrow> storage_oracle \<Rightarrow> log_query \<Rightarrow> (u256 \<times> storage_oracle) res" where
  "read_query_value zk so q =
     (let k = storage_key_of_log q in
      if lq_aux_byte q = transient_storage_aux_byte zk then
        Inr (read_from_transient_storage (so_transient_storage so) k, so)
      else if lq_aux_byte q = storage_aux_byte zk then
        and_then (mark_key zk (so_read_storage_keys so) k (lq_timestamp q)) (\<lambda>rk.
        and_then (read_from_storage (zk_blake zk) (so_storage so) k) (\<lambda>(v, st).
        map_res (Pair v) (set_initial_value zk (so\<lparr>so_read_storage_keys := rk, so_storage := st\<rparr>) k v (lq_timestamp q))))
      else Inl (Panic (PanicMsg ''unreachable'')))"

definition charge_pubdata :: "zkevm \<Rightarrow> storage_oracle \<Rightarrow> log_query \<Rightarrow> (u32 \<times> storage_oracle) res" where
  "charge_pubdata zk so q =
     (if lq_aux_byte q = storage_aux_byte zk \<and> lq_rw_flag q then
        and_then (base_price_for_write_query zk so q) (\<lambda>(current_price, so').
          let previous_price = prepaid_for_write so' (storage_key_of_log q)
          in map_res (\<lambda>(_, pc). (current_price - previous_price, so'\<lparr>so_paid_changes := pc\<rparr>))
               (apply_historic_record (time_delta_per_cycle zk) map_apply (so_paid_changes so')
                  \<lparr>hme_key = storage_key_of_log q, hme_value = Some current_price\<rparr> (lq_timestamp q)))
      else Inr (0, so))"

definition perform_query :: "zkevm \<Rightarrow> storage_oracle \<Rightarrow> log_query \<Rightarrow> storage_oracle res" where
  "perform_query zk so q =
     (if lq_aux_byte q = transient_storage_aux_byte zk then
        (if lq_rw_flag q then write_transient_storage_value zk so (reduced_of_query q)
         else record_transient_storage_read zk so (reduced_of_query q))
      else if lq_aux_byte q = storage_aux_byte zk then
        (if lq_rw_flag q then write_storage_value zk so q else record_storage_read zk so q)
      else Inl (Panic (PanicMsg ''unreachable'')))"

definition execute_partial_query :: "zkevm \<Rightarrow> storage_oracle \<Rightarrow> log_query \<Rightarrow> ((log_query \<times> u32) \<times> storage_oracle) res" where
  "execute_partial_query zk so q0 =
     ensure (\<not> lq_rollback q0) (Panic (PanicMsg ''assertion failed: !query.rollback''))
     (and_then (read_query_value zk so q0) (\<lambda>(v, so1).
      let q = q0\<lparr>lq_read_value := v\<rparr> in
      and_then (charge_pubdata zk so1 q) (\<lambda>(pubdata_cost, so2).
      and_then (perform_query zk so2 q) (\<lambda>so3.
      map_res (\<lambda>(_, pd). ((q, pubdata_cost), so3\<lparr>so_returned_pubdata_costs := pd\<rparr>))
        (apply_historic_record (time_delta_per_cycle zk) vec_apply (so_returned_pubdata_costs so3)
           (VecPush pubdata_cost) (lq_timestamp q))))))"

definition get_access_refund :: "zkevm \<Rightarrow> storage_oracle \<Rightarrow> log_query \<Rightarrow> (storage_access_refund \<times> storage_oracle) res" where
  "get_access_refund zk so q =
     and_then (if lq_aux_byte q = transient_storage_aux_byte zk then Inr (Warm 0)
               else if lq_aux_byte q = storage_aux_byte zk then Inr (get_storage_access_refund zk so q)
               else Inl (Panic (PanicMsg ''unreachable''))) (\<lambda>refund.
     map_res (\<lambda>(_, io). (refund, so\<lparr>so_returned_io_refunds := io\<rparr>))
       (apply_historic_record (time_delta_per_cycle zk) vec_apply (so_returned_io_refunds so)
          (VecPush (access_refund zk refund)) (lq_timestamp q)))"

definition start_frame :: "zkevm \<Rightarrow> storage_oracle \<Rightarrow> timestamp \<Rightarrow> storage_oracle res" where
  "start_frame zk so ts =
     and_then (adf_push_frame (time_delta_per_cycle zk) (so_storage_frames_stack so) ts) (\<lambda>fr.
     map_res (\<lambda>tf. so\<lparr>so_storage_frames_stack := fr, so_transient_storage_frames_stack := tf\<rparr>)
       (adf_push_frame (time_delta_per_cycle zk) (so_transient_storage_frames_stack so) ts))"

text \<open>The two loops of \<open>finish_frame\<close>; the queries come newest first.\<close>

fun rollback_storage_writes :: "zkevm \<Rightarrow> timestamp \<Rightarrow> storage_log_query list \<Rightarrow> storage_oracle \<Rightarrow> storage_oracle res" where
  "rollback_storage_writes zk ts [] so = Inr so"
| "rollback_storage_writes zk ts (q # qs) so =
     (if slq_log_type q = ReadKind then rollback_storage_writes zk ts qs so
      else
        let lq = slq_log_query q; k = storage_key_of_log lq; delta = time_delta_per_cycle zk in
        and_then (write_to_storage delta (zk_blake zk) (so_storage so) k (lq_read_value lq) ts) (\<lambda>(current_value, st).
        and_then (base_price_for_key_write zk (so\<lparr>so_storage := st\<rparr>) k (lq_read_value lq)) (\<lambda>(price, so').
        and_then (apply_historic_record delta map_apply (so_paid_changes so') \<lparr>hme_key = k, hme_value = Some price\<rparr> ts) (\<lambda>(_, pc).
        ensure (current_value = lq_written_value lq) (Panic (PanicMsg ''assertion failed: current_value''))
          (rollback_storage_writes zk ts qs (so'\<lparr>so_paid_changes := pc\<rparr>))))))"

fun rollback_transient_writes :: "zkevm \<Rightarrow> timestamp \<Rightarrow> reduced_tstore_log_query list \<Rightarrow> storage_oracle \<Rightarrow> storage_oracle res" where
  "rollback_transient_writes zk ts [] so = Inr so"
| "rollback_transient_writes zk ts (q # qs) so =
     (if \<not> rq_rw_flag q then rollback_transient_writes zk ts qs so
      else
        and_then (transient_write_to_storage (time_delta_per_cycle zk) (so_transient_storage so)
                    (triplet_to_storage_key (rq_shard_id q) (rq_address q) (rq_key q)) (rq_read_value q) ts) (\<lambda>(current_value, tst).
        ensure (current_value = rq_written_value q) (Panic (PanicMsg ''assertion failed: current_value''))
          (rollback_transient_writes zk ts qs (so\<lparr>so_transient_storage := tst\<rparr>))))"

definition revert_frame :: "zkevm \<Rightarrow> storage_oracle \<Rightarrow> timestamp \<Rightarrow> storage_oracle res" where
  "revert_frame zk so ts =
     (let delta = time_delta_per_cycle zk in
      and_then (current_frame (hr_inner (adf_rollback (so_storage_frames_stack so)))) (\<lambda>frame.
      and_then (rollback_storage_writes zk ts (rev frame) so) (\<lambda>so1.
      and_then (move_rollback_to_forward delta (\<lambda>_. True) (so_storage_frames_stack so1) ts) (\<lambda>fr.
      let so2 = so1\<lparr>so_storage_frames_stack := fr\<rparr> in
      and_then (current_frame (hr_inner (adf_rollback (so_transient_storage_frames_stack so2)))) (\<lambda>tframe.
      and_then (rollback_transient_writes zk ts (rev tframe) so2) (\<lambda>so3.
      map_res (\<lambda>tf. so3\<lparr>so_transient_storage_frames_stack := tf\<rparr>)
        (move_rollback_to_forward delta (\<lambda>_. True) (so_transient_storage_frames_stack so3) ts)))))))"

definition finish_frame :: "zkevm \<Rightarrow> storage_oracle \<Rightarrow> timestamp \<Rightarrow> bool \<Rightarrow> storage_oracle res" where
  "finish_frame zk so ts panicked =
     and_then (if panicked then revert_frame zk so ts else Inr so) (\<lambda>so1.
     and_then (adf_merge_frame (time_delta_per_cycle zk) (so_storage_frames_stack so1) ts) (\<lambda>fr.
     map_res (\<lambda>tf. so1\<lparr>so_storage_frames_stack := fr, so_transient_storage_frames_stack := tf\<rparr>)
       (adf_merge_frame (time_delta_per_cycle zk) (so_transient_storage_frames_stack so1) ts)))"

fun clear_transient :: "zkevm \<Rightarrow> timestamp \<Rightarrow> (storage_key \<times> u256) list \<Rightarrow> storage_oracle \<Rightarrow> storage_oracle res" where
  "clear_transient zk ts [] so = Inr so"
| "clear_transient zk ts ((k, current_value) # es) so =
     and_then (write_transient_storage_value zk so
       \<lparr>rq_shard_id = 0, rq_address = account k, rq_key = slot k, rq_written_value = 0, rq_read_value = current_value,
        rq_rw_flag = True, rq_timestamp = ts, rq_rollback = False\<rparr>) (clear_transient zk ts es)"

definition start_new_tx :: "zkevm \<Rightarrow> storage_oracle \<Rightarrow> timestamp \<Rightarrow> storage_oracle res" where
  "start_new_tx zk so ts = clear_transient zk ts (clone_vec (hash_map_order zk) (so_transient_storage so)) so"

end
