(* ===== verification/Storage_Oracle_Correct.thy ===== *)
theory Storage_Oracle_Correct
  imports Storage_Oracle
begin

text \<open>
  What the frames of the storage oracle mean: the oracle behaves as a store with nested transactions. A started frame
  remembers the contents, a frame that finishes normally keeps its writes, a panicked one brings back the contents it
  started from, in persistent and in transient storage. The abstract store is \<open>nested_store\<close>, the simulation
  \<open>oracle_matches\<close>.
\<close>

section \<open>Undo queues\<close>

text \<open>Undoing writes newest first: each finds the value it wrote and puts back the value it read.\<close>

fun undo_queue :: "('q \<Rightarrow> 'k) \<Rightarrow> ('q \<Rightarrow> 'v) \<Rightarrow> ('q \<Rightarrow> 'v) \<Rightarrow> 'q list \<Rightarrow> ('k \<Rightarrow> 'v) \<Rightarrow> ('k \<Rightarrow> 'v) option" where
  "undo_queue loc rd wr [] f = Some f"
| "undo_queue loc rd wr (q # qs) f = (if f (loc q) = wr q then undo_queue loc rd wr qs (f(loc q := rd q)) else None)"

lemma undo_queue_append:
  "undo_queue loc rd wr (xs @ ys) f = Option.bind (undo_queue loc rd wr xs f) (undo_queue loc rd wr ys)"
  by (induction xs arbitrary: f) auto

text \<open>
  A rollback queue with its frame starts, innermost first, against the saved contents: the entries of a frame undo the
  contents to those at its start.
\<close>

fun frames_match :: "('q \<Rightarrow> 'k) \<Rightarrow> ('q \<Rightarrow> 'v) \<Rightarrow> ('q \<Rightarrow> 'v) \<Rightarrow> 'q list \<Rightarrow> nat list \<Rightarrow> ('k \<Rightarrow> 'v) \<Rightarrow> ('k \<Rightarrow> 'v) list \<Rightarrow> bool" where
  "frames_match loc rd wr qs [s] f [] \<longleftrightarrow> s \<le> length qs"
| "frames_match loc rd wr qs (s # ss) f (g # gs) \<longleftrightarrow> s \<le> length qs \<and>
     undo_queue loc rd wr (rev (drop s qs)) f = Some g \<and> frames_match loc rd wr (take s qs) ss g gs"
| "frames_match loc rd wr qs _ f _ \<longleftrightarrow> False"

lemma frames_match_starts: "frames_match loc rd wr qs ss f gs \<Longrightarrow> ss \<noteq> [] \<and> length ss = Suc (length gs) \<and> hd ss \<le> length qs"
  by (induction loc rd wr qs ss f gs rule: frames_match.induct) auto

lemma frames_match_write:
  assumes "frames_match loc rd wr qs ss f gs" "rd q = f (loc q)"
  shows "frames_match loc rd wr (qs @ [q]) ss (f(loc q := wr q)) gs"
  using assms by (cases "(loc, rd, wr, qs, ss, f, gs)" rule: frames_match.cases) auto

lemma frames_match_start:
  "frames_match loc rd wr qs ss f gs \<Longrightarrow> frames_match loc rd wr qs (length qs # ss) f (f # gs)"
  by simp

lemma frames_match_commit:
  assumes "frames_match loc rd wr qs (s # ss) f (g # gs)"
  shows "frames_match loc rd wr qs ss f gs"
proof -
  from assms have s: "s \<le> length qs" "undo_queue loc rd wr (rev (drop s qs)) f = Some g"
    and inner: "frames_match loc rd wr (take s qs) ss g gs" by auto
  show ?thesis
  proof (cases gs)
    case Nil
    with inner s(1) show ?thesis by (cases ss rule: list.exhaust; cases "tl ss") auto
  next
    case (Cons g' gs')
    then obtain s' ss' where ss: "ss = s' # ss'" using frames_match_starts [OF inner] by (cases ss) auto
    with inner Cons s(1) have s': "s' \<le> s" "undo_queue loc rd wr (rev (drop s' (take s qs))) g = Some g'"
      and rest: "frames_match loc rd wr (take s' (take s qs)) ss' g' gs'" by auto
    have "drop s' qs = drop s' (take s qs) @ drop s qs"
      using s'(1) s(1) append_take_drop_id [of s qs] drop_append [of s' "take s qs" "drop s qs"] by simp
    with s s' rest show ?thesis by (simp add: ss Cons undo_queue_append min_absorb1)
  qed
qed

lemma frames_match_revert:
  "frames_match loc rd wr qs (s # ss) f (g # gs) \<Longrightarrow> frames_match loc rd wr (take s qs) ss g gs"
  by simp

section \<open>A store with nested transactions\<close>

record nested_store =
  ns_persistent :: "storage_key \<Rightarrow> u256 res"
  ns_transient :: "storage_key \<Rightarrow> u256"
  ns_saved :: "((storage_key \<Rightarrow> u256 res) \<times> (storage_key \<Rightarrow> u256)) list"

datatype oracle_op =
    OpQuery log_query
  | OpRefund log_query
  | OpStartFrame timestamp
  | OpFinishFrame timestamp bool
  | OpNewTx timestamp

fun op_time :: "oracle_op \<Rightarrow> timestamp" where
  "op_time (OpQuery q) = lq_timestamp q"
| "op_time (OpRefund q) = lq_timestamp q"
| "op_time (OpStartFrame ts) = ts"
| "op_time (OpFinishFrame ts _) = ts"
| "op_time (OpNewTx ts) = ts"

text \<open>One operation of the abstract store; queries answer the value read. It is undefined on a slot the storage does not hold.\<close>

fun spec_query :: "zkevm \<Rightarrow> log_query \<Rightarrow> nested_store \<Rightarrow> (u256 list \<times> nested_store) option" where
  "spec_query zk q ns =
     (let k = storage_key_of_log q; new = lq_written_value q in
      if lq_rollback q then None
      else if lq_aux_byte q = transient_storage_aux_byte zk then
        Some ([ns_transient ns k],
          if lq_rw_flag q then ns\<lparr>ns_transient := (ns_transient ns)(k := new)\<rparr> else ns)
      else if lq_aux_byte q = storage_aux_byte zk then
        (case ns_persistent ns k of
           Inl _ \<Rightarrow> None
         | Inr v \<Rightarrow> Some ([v], if lq_rw_flag q then ns\<lparr>ns_persistent := (ns_persistent ns)(k := Inr new)\<rparr> else ns))
      else None)"

fun spec_op :: "zkevm \<Rightarrow> oracle_op \<Rightarrow> nested_store \<Rightarrow> (u256 list \<times> nested_store) option" where
  "spec_op zk (OpQuery q) ns = spec_query zk q ns"
| "spec_op zk (OpRefund q) ns =
     (if lq_aux_byte q \<in> {storage_aux_byte zk, transient_storage_aux_byte zk} then Some ([], ns) else None)"
| "spec_op zk (OpStartFrame _) ns = Some ([], ns\<lparr>ns_saved := (ns_persistent ns, ns_transient ns) # ns_saved ns\<rparr>)"
| "spec_op zk (OpFinishFrame _ panicked) ns =
     (case ns_saved ns of
        [] \<Rightarrow> None
      | (p, t) # rest \<Rightarrow> Some ([],
          if panicked then ns\<lparr>ns_persistent := p, ns_transient := t, ns_saved := rest\<rparr> else ns\<lparr>ns_saved := rest\<rparr>))"
| "spec_op zk (OpNewTx _) ns = Some ([], ns\<lparr>ns_transient := \<lambda>_. 0\<rparr>)"

fun spec_run :: "zkevm \<Rightarrow> oracle_op list \<Rightarrow> nested_store \<Rightarrow> (u256 list \<times> nested_store) option" where
  "spec_run zk [] ns = Some ([], ns)"
| "spec_run zk (op # ops) ns =
     Option.bind (spec_op zk op ns) (\<lambda>(a, ns'). map_option (\<lambda>(b, ns''). (a @ b, ns'')) (spec_run zk ops ns'))"

text \<open>The oracle, driven by the same operations.\<close>

fun run_op :: "zkevm \<Rightarrow> oracle_op \<Rightarrow> storage_oracle \<Rightarrow> (u256 list \<times> storage_oracle) res" where
  "run_op zk (OpQuery q) so = map_res (\<lambda>((q', _), so'). ([lq_read_value q'], so')) (execute_partial_query zk so q)"
| "run_op zk (OpRefund q) so = map_res (\<lambda>(_, so'). ([], so')) (get_access_refund zk so q)"
| "run_op zk (OpStartFrame ts) so = map_res (Pair []) (start_frame zk so ts)"
| "run_op zk (OpFinishFrame ts panicked) so = map_res (Pair []) (finish_frame zk so ts panicked)"
| "run_op zk (OpNewTx ts) so = map_res (Pair []) (start_new_tx zk so ts)"

fun run_ops :: "zkevm \<Rightarrow> oracle_op list \<Rightarrow> storage_oracle \<Rightarrow> (u256 list \<times> storage_oracle) res" where
  "run_ops zk [] so = Inr ([], so)"
| "run_ops zk (op # ops) so =
     and_then (run_op zk op so) (\<lambda>(a, so'). map_res (\<lambda>(b, so''). (a @ b, so'')) (run_ops zk ops so'))"

fun times_from :: "u32 \<Rightarrow> timestamp \<Rightarrow> timestamp list \<Rightarrow> bool" where
  "times_from delta t [] \<longleftrightarrow> True"
| "times_from delta t (t' # ts) \<longleftrightarrow> normalize_timestamp delta t \<le> normalize_timestamp delta t' \<and> times_from delta t' ts"

section \<open>Simulation\<close>

abbreviation slq_loc :: "storage_log_query \<Rightarrow> storage_key" where "slq_loc q \<equiv> storage_key_of_log (slq_log_query q)"
abbreviation rq_loc :: "reduced_tstore_log_query \<Rightarrow> storage_key" where
  "rq_loc q \<equiv> triplet_to_storage_key (rq_shard_id q) (rq_address q) (rq_key q)"

text \<open>The persistent storage: a coherent cache, writes only to slots the snapshot holds, the given contents.\<close>

definition storage_holds :: "hash_fn \<Rightarrow> storage_view_state \<Rightarrow> (storage_key \<Rightarrow> u256 res) \<Rightarrow> bool" where
  "storage_holds blake s f \<longleftrightarrow> cache_coherent blake s \<and>
     overlaid_value blake (storage_handle s) (modified_storage_keys s) = f \<and>
     (\<forall>k \<in> dom (modified_storage_keys s). \<exists>e. snapshot_entry blake (storage_handle s) k = Inr e)"

definition transient_holds :: "transient_storage \<Rightarrow> (storage_key \<Rightarrow> u256) \<Rightarrow> bool" where
  "transient_holds m f \<longleftrightarrow> finite (dom m) \<and> transient_value m = f"

definition frames_hold ::
  "u32 \<Rightarrow> timestamp \<Rightarrow> ('q \<Rightarrow> bool) \<Rightarrow> ('q \<Rightarrow> 'k) \<Rightarrow> ('q \<Rightarrow> 'v) \<Rightarrow> ('q \<Rightarrow> 'v) \<Rightarrow>
   'q app_data_frame_manager \<Rightarrow> ('k \<Rightarrow> 'v) \<Rightarrow> ('k \<Rightarrow> 'v) list \<Rightarrow> bool" where
  "frames_hold delta ts isw loc rd wr m f gs \<longleftrightarrow>
     (\<exists>fw qs ss. queues_hold delta ts isw m fw qs ss \<and> frames_match loc rd wr qs ss f gs)"

abbreviation storage_frames where
  "storage_frames delta ts \<equiv> frames_hold delta ts (\<lambda>q. slq_log_type q \<noteq> ReadKind) slq_loc
     (\<lambda>q. Inr (lq_read_value (slq_log_query q)) :: u256 res) (\<lambda>q. Inr (lq_written_value (slq_log_query q)))"

abbreviation transient_frames where
  "transient_frames delta ts \<equiv> frames_hold delta ts rq_rw_flag rq_loc rq_read_value rq_written_value"

definition recorders_in_time :: "zkevm \<Rightarrow> timestamp \<Rightarrow> storage_oracle \<Rightarrow> bool" where
  "recorders_in_time zk ts so \<longleftrightarrow>
     (let delta = time_delta_per_cycle zk in
      in_time delta ts (so_storage so) \<and> in_time delta ts (so_transient_storage so) \<and>
      in_time delta ts (so_paid_changes so) \<and> in_time delta ts (so_initial_values so) \<and>
      in_time delta ts (so_returned_io_refunds so) \<and> in_time delta ts (so_returned_pubdata_costs so) \<and>
      in_time delta ts (so_written_storage_keys so) \<and> in_time delta ts (so_read_storage_keys so))"

definition oracle_matches :: "zkevm \<Rightarrow> timestamp \<Rightarrow> storage_oracle \<Rightarrow> nested_store \<Rightarrow> bool" where
  "oracle_matches zk ts so ns \<longleftrightarrow>
     storage_holds (zk_blake zk) (hr_inner (so_storage so)) (ns_persistent ns) \<and>
     transient_holds (hr_inner (so_transient_storage so)) (ns_transient ns) \<and> recorders_in_time zk ts so \<and>
     storage_frames (time_delta_per_cycle zk) ts (so_storage_frames_stack so) (ns_persistent ns) (map fst (ns_saved ns)) \<and>
     transient_frames (time_delta_per_cycle zk) ts (so_transient_storage_frames_stack so) (ns_transient ns) (map snd (ns_saved ns))"

section \<open>Storage operations keep the contents\<close>

lemma storage_holds_known:
  assumes "storage_holds blake s f" "f k = Inr v"
  shows "\<exists>e. snapshot_entry blake (storage_handle s) k = Inr e"
proof (cases "modified_storage_keys s k")
  case None
  then have "snapshot_read_value blake (storage_handle s) k = Inr v"
    using assms by (auto simp: storage_holds_def overlaid_value_def)
  then show ?thesis by (auto simp: snapshot_read_value_def)
qed (use assms in \<open>auto simp: storage_holds_def\<close>)

lemma storage_holds_same_content:
  "storage_holds blake s f \<Longrightarrow> same_content blake s s' \<Longrightarrow> storage_holds blake s' f"
  by (auto simp: storage_holds_def same_content_def)

lemma view_read_returns:
  assumes "storage_holds blake s f" "f k = Inr v"
  shows "returns (view_read_value blake s k) (\<lambda>(v', s'). v' = v \<and> storage_holds blake s' f)"
proof -
  have c: "cache_coherent blake s" using assms(1) by (simp add: storage_holds_def)
  have "map_res fst (get_value_no_log blake s k) = Inr v"
    using get_value_no_log_cases(1) [OF c] assms by (auto simp: storage_holds_def)
  then show ?thesis
    using get_value_no_log_cases(2) [OF c] storage_holds_same_content [OF assms(1)]
    by (fastforce simp: view_read_value_def)
qed

lemma view_initial_returns:
  assumes "storage_holds blake s f" "f k = Inr v"
  shows "returns (view_is_write_initial blake s k) (\<lambda>(_, s'). storage_holds blake s' f)"
proof -
  have c: "cache_coherent blake s" using assms(1) by (simp add: storage_holds_def)
  obtain b where "snapshot_is_write_initial blake (storage_handle s) k = Inr b"
    using storage_holds_known [OF assms] by (auto simp: snapshot_is_write_initial_def)
  then have "\<exists>s'. view_is_write_initial blake s k = Inr (b, s')"
    using view_is_write_initial_cases(1) [OF c, of k] by auto
  then show ?thesis
    using view_is_write_initial_cases(2) [OF c] storage_holds_same_content [OF assms(1)] by fastforce
qed

lemma read_from_storage_returns:
  assumes "storage_holds blake (hr_inner rec) f" "f k = Inr v"
  shows "returns (read_from_storage blake rec k) (\<lambda>(v', rec'). v' = v \<and> (\<exists>s. rec' = rec\<lparr>hr_inner := s\<rparr> \<and> storage_holds blake s f))"
  unfolding read_from_storage_def returns_simps
  by (rule returns_mono [OF view_read_returns [OF assms]]) auto

lemma write_to_storage_returns:
  assumes "storage_holds blake (hr_inner rec) f" "f k = Inr v" "in_time delta ts rec"
  shows "returns (write_to_storage delta blake rec k new ts)
    (\<lambda>(v', rec'). v' = v \<and> storage_holds blake (hr_inner rec') (f(k := Inr new)) \<and> in_time delta ts rec')"
proof -
  let ?item = "\<lparr>shr_key = k, shr_value = new\<rparr>"
  have c: "cache_coherent blake (hr_inner rec)" using assms(1) by (simp add: storage_holds_def)
  obtain s where s: "storage_apply blake (hr_inner rec) ?item = Inr (s, \<lparr>shr_key = k, shr_value = v\<rparr>, v)"
    using storage_apply_total [OF c, of ?item v] assms(1,2) by (auto simp: storage_holds_def)
  have "storage_holds blake s (f(k := Inr new))"
    using storage_apply_content [OF c s] storage_holds_known [OF assms(1,2)] assms(1)
    by (auto simp: storage_holds_def)
  then show ?thesis
    unfolding write_to_storage_def
    by (intro returns_mono [OF apply_returns [where ap = "storage_apply blake" and rec = rec, OF s assms(3)]]) auto
qed

lemma price_returns:
  assumes "storage_holds (zk_blake zk) (hr_inner (so_storage so)) f" "f k = Inr v"
  shows "returns (base_price_for_key_write zk so k new)
    (\<lambda>(_, so'). \<exists>s. so' = so\<lparr>so_storage := (so_storage so)\<lparr>hr_inner := s\<rparr>\<rparr> \<and> storage_holds (zk_blake zk) s f)"
proof -
  have initial: "returns (base_price_for_write zk so1 k a new)
      (\<lambda>(_, so'). \<exists>s. so' = so1\<lparr>so_storage := (so_storage so1)\<lparr>hr_inner := s\<rparr>\<rparr> \<and> storage_holds (zk_blake zk) s f)"
    if "storage_holds (zk_blake zk) (hr_inner (so_storage so1)) f" for so1 a
  proof (cases "is_storage_key_free zk k \<or> a = new")
    case False
    then show ?thesis
      unfolding base_price_for_write_def oracle_is_write_initial_def
      by simp (rule returns_mono [OF view_initial_returns [OF that assms(2)]], auto)
  qed (use that in \<open>auto simp: base_price_for_write_def intro!: exI [of _ "hr_inner (so_storage so1)"]\<close>)
  show ?thesis
    unfolding base_price_for_key_write_def returns_simps
    by (rule returns_mono [OF read_from_storage_returns [OF assms]], clarsimp, rule returns_mono [OF initial]) auto
qed

lemma mark_key_returns:
  assumes "in_time (time_delta_per_cycle zk) ts keys"
  shows "returns (mark_key zk keys k ts) (in_time (time_delta_per_cycle zk) ts)"
  using assms apply_returns [OF _ assms, of map_apply "\<lparr>hme_key = k, hme_value = Some ()\<rparr>"]
  by (force simp: mark_key_def map_insert_def map_apply_def split_beta elim!: returns_mono)

lemma paid_returns:
  assumes "in_time delta ts (rec :: ('k, 'v) map_recorder)"
  shows "returns (apply_historic_record delta map_apply rec item ts) (\<lambda>(_, rec'). in_time delta ts rec')"
  using apply_returns [OF _ assms, of map_apply item] by (force simp: map_apply_def split_beta elim!: returns_mono)

lemma vec_returns:
  assumes "in_time delta ts (rec :: 'v vec_recorder)"
  shows "returns (apply_historic_record delta vec_apply rec (VecPush x) ts) (\<lambda>(_, rec'). in_time delta ts rec')"
  using apply_returns [OF _ assms, of vec_apply "VecPush x"] by (force simp: vec_apply_def split_beta elim!: returns_mono)

lemma set_initial_returns:
  assumes "in_time (time_delta_per_cycle zk) ts (so_initial_values so)"
  shows "returns (set_initial_value zk so k v ts)
    (\<lambda>so'. \<exists>r. so' = so\<lparr>so_initial_values := r\<rparr> \<and> in_time (time_delta_per_cycle zk) ts r)"
proof (cases "k \<in> dom (hr_inner (so_initial_values so))")
  case True
  with assms show ?thesis by (auto simp: set_initial_value_def intro!: exI [of _ "so_initial_values so"])
next
  case False
  then show ?thesis
    unfolding set_initial_value_def map_insert_def
    by simp (rule returns_mono [OF paid_returns [OF assms]], auto)
qed

section \<open>Frames of queues\<close>

lemma frames_hold_start:
  assumes "frames_hold delta ts isw loc rd wr m f gs"
  shows "returns (adf_push_frame delta m ts) (\<lambda>m'. frames_hold delta ts isw loc rd wr m' f (f # gs))"
  using assms unfolding frames_hold_def
  by (elim exE conjE) (rule returns_mono [OF adf_push_frame_returns], assumption, simp add: frames_match_starts, metis frames_match_start)

lemma frames_hold_read:
  assumes "frames_hold delta ts isw loc rd wr m f gs"
  shows "returns (push_forward delta m q ts) (\<lambda>m'. frames_hold delta ts isw loc rd wr m' f gs)"
  using assms unfolding frames_hold_def
  by (elim exE conjE) (rule returns_mono [OF push_forward_returns], assumption, blast)

lemma frames_hold_write:
  assumes "frames_hold delta ts isw loc rd wr m f gs" "isw q" "rd q = f (loc q)"
  shows "returns (push_rollback delta m q ts) (\<lambda>m'. frames_hold delta ts isw loc rd wr m' (f(loc q := wr q)) gs)"
  using assms unfolding frames_hold_def
  by (elim exE conjE) (rule returns_mono [OF push_rollback_returns], assumption+, metis frames_match_write)

lemma frames_hold_cases:
  assumes "frames_hold delta ts isw loc rd wr m f (g # gs)"
  obtains fw qs s ss where "queues_hold delta ts isw m fw qs (s # ss)" "s \<le> length qs"
    "undo_queue loc rd wr (rev (drop s qs)) f = Some g" "frames_match loc rd wr (take s qs) ss g gs"
    "frames_match loc rd wr qs (s # ss) f (g # gs)"
proof -
  obtain fw qs ss where q: "queues_hold delta ts isw m fw qs ss" "frames_match loc rd wr qs ss f (g # gs)"
    using assms by (auto simp: frames_hold_def)
  then obtain s ss' where "ss = s # ss'" by (cases ss) auto
  with q that show ?thesis by auto
qed

lemma frames_hold_commit:
  assumes "frames_hold delta ts isw loc rd wr m f (g # gs)"
  shows "returns (adf_merge_frame delta m ts) (\<lambda>m'. frames_hold delta ts isw loc rd wr m' f gs)"
  using assms
proof (cases rule: frames_hold_cases)
  case (1 fw qs s ss)
  show ?thesis
    using frames_match_commit [OF 1(5)]
    by (intro returns_mono [OF adf_merge_frame_returns [OF 1(1)]]) (auto simp: frames_hold_def)
qed

text \<open>After the queue of the frame has been moved the frame is empty and starts from the saved contents.\<close>

lemma frames_hold_revert:
  assumes "frames_hold delta ts isw loc rd wr m f (g # gs)"
  shows "returns (move_rollback_to_forward delta keep m ts) (\<lambda>m'. frames_hold delta ts isw loc rd wr m' g (g # gs))"
  using assms
proof (cases rule: frames_hold_cases)
  case (1 fw qs s ss)
  then have "frames_match loc rd wr (take s qs) (s # ss) g (g # gs)" by simp
  then show ?thesis
    unfolding frames_hold_def by (intro returns_mono [OF move_rollback_returns [OF 1(1,2)]]) blast
qed

lemma frames_hold_frame:
  assumes "frames_hold delta ts isw loc rd wr m f (g # gs)"
  obtains frame where "current_frame (hr_inner (adf_rollback m)) = Inr frame"
    "undo_queue loc rd wr (rev frame) f = Some g" "list_all isw (rev frame)"
  using assms
proof (cases rule: frames_hold_cases)
  case (1 fw qs s ss)
  then have "list_all isw (rev (drop s qs))" by (auto simp: queues_hold_def list_all_iff dest: in_set_dropD)
  with 1 that queues_current_frame [OF 1(1,2)] show ?thesis by blast
qed

section \<open>Every operation simulates the abstract one\<close>

lemma frames_hold_mono:
  "frames_hold delta ts isw loc rd wr m f gs \<Longrightarrow> normalize_timestamp delta ts \<le> normalize_timestamp delta ts' \<Longrightarrow>
   frames_hold delta ts' isw loc rd wr m f gs"
  unfolding frames_hold_def queues_hold_def using in_time_mono by blast

lemma oracle_matches_mono:
  assumes "oracle_matches zk ts so ns"
    and "normalize_timestamp (time_delta_per_cycle zk) ts \<le> normalize_timestamp (time_delta_per_cycle zk) ts'"
  shows "oracle_matches zk ts' so ns"
  using assms by (auto simp: oracle_matches_def recorders_in_time_def Let_def intro: in_time_mono frames_hold_mono)

lemma oracle_matchesD:
  assumes "oracle_matches zk ts so ns"
  shows "storage_holds (zk_blake zk) (hr_inner (so_storage so)) (ns_persistent ns)"
    and "transient_holds (hr_inner (so_transient_storage so)) (ns_transient ns)"
    and "storage_frames (time_delta_per_cycle zk) ts (so_storage_frames_stack so) (ns_persistent ns) (map fst (ns_saved ns))"
    and "transient_frames (time_delta_per_cycle zk) ts (so_transient_storage_frames_stack so) (ns_transient ns) (map snd (ns_saved ns))"
    and "recorders_in_time zk ts so"
  using assms by (simp_all add: oracle_matches_def)

lemma recorders_in_timeD:
  assumes "recorders_in_time zk ts so"
  shows "in_time (time_delta_per_cycle zk) ts (so_storage so)"
    and "in_time (time_delta_per_cycle zk) ts (so_transient_storage so)"
    and "in_time (time_delta_per_cycle zk) ts (so_paid_changes so)"
    and "in_time (time_delta_per_cycle zk) ts (so_initial_values so)"
    and "in_time (time_delta_per_cycle zk) ts (so_returned_io_refunds so)"
    and "in_time (time_delta_per_cycle zk) ts (so_returned_pubdata_costs so)"
    and "in_time (time_delta_per_cycle zk) ts (so_written_storage_keys so)"
    and "in_time (time_delta_per_cycle zk) ts (so_read_storage_keys so)"
  using assms by (simp_all add: recorders_in_time_def Let_def)

lemmas oracle_timeD = recorders_in_timeD [OF oracle_matchesD(5)]

lemmas oracle_matches_simps = oracle_matches_def recorders_in_time_def Let_def

lemma start_frame_sim:
  assumes "oracle_matches zk ts so ns"
  shows "returns (start_frame zk so ts)
    (\<lambda>so'. oracle_matches zk ts so' (ns\<lparr>ns_saved := (ns_persistent ns, ns_transient ns) # ns_saved ns\<rparr>))"
  unfolding start_frame_def returns_simps
  by (rule returns_mono [OF frames_hold_start [OF oracle_matchesD(3) [OF assms]]],
      rule returns_mono [OF frames_hold_start [OF oracle_matchesD(4) [OF assms]]])
    (use assms in \<open>simp add: oracle_matches_simps\<close>)

lemma rollback_storage_writes_returns:
  assumes "storage_holds (zk_blake zk) (hr_inner (so_storage so)) f"
    and "in_time (time_delta_per_cycle zk) ts (so_storage so)" "in_time (time_delta_per_cycle zk) ts (so_paid_changes so)"
    and "undo_queue slq_loc (\<lambda>q. Inr (lq_read_value (slq_log_query q))) (\<lambda>q. Inr (lq_written_value (slq_log_query q))) qs f = Some g"
    and "list_all (\<lambda>q. slq_log_type q \<noteq> ReadKind) qs"
  shows "returns (rollback_storage_writes zk ts qs so) (\<lambda>so'. \<exists>r pc. so' = so\<lparr>so_storage := r, so_paid_changes := pc\<rparr> \<and>
     storage_holds (zk_blake zk) (hr_inner r) g \<and> in_time (time_delta_per_cycle zk) ts r \<and> in_time (time_delta_per_cycle zk) ts pc)"
  using assms
proof (induction qs arbitrary: so f)
  case Nil
  then show ?case by (auto intro!: exI [of _ "so_storage so"] exI [of _ "so_paid_changes so"])
next
  case (Cons q qs)
  let ?k = "slq_loc q" and ?d = "time_delta_per_cycle zk" and ?v = "lq_read_value (slq_log_query q)"
  have k: "f ?k = Inr (lq_written_value (slq_log_query q))"
    and rest: "undo_queue slq_loc (\<lambda>q. Inr (lq_read_value (slq_log_query q))) (\<lambda>q. Inr (lq_written_value (slq_log_query q))) qs
      (f(?k := Inr ?v)) = Some g"
    using Cons.prems(4) by (auto split: if_splits)
  have w: "slq_log_type q \<noteq> ReadKind" "list_all (\<lambda>q. slq_log_type q \<noteq> ReadKind) qs" using Cons.prems(5) by auto
  obtain st where st: "write_to_storage ?d (zk_blake zk) (so_storage so) ?k ?v ts = Inr (lq_written_value (slq_log_query q), st)"
    "storage_holds (zk_blake zk) (hr_inner st) (f(?k := Inr ?v))" "in_time ?d ts st"
    using write_to_storage_returns [OF Cons.prems(1) k Cons.prems(2)] by (auto simp: returns_iff)
  obtain p s where p: "base_price_for_key_write zk (so\<lparr>so_storage := st\<rparr>) ?k ?v = Inr (p, so\<lparr>so_storage := st\<lparr>hr_inner := s\<rparr>\<rparr>)"
    "storage_holds (zk_blake zk) s (f(?k := Inr ?v))"
    using price_returns [of zk "so\<lparr>so_storage := st\<rparr>" "f(?k := Inr ?v)" ?k ?v ?v] st(2) by (auto simp: returns_iff)
  obtain x pc where pc: "apply_historic_record ?d map_apply (so_paid_changes so) \<lparr>hme_key = ?k, hme_value = Some p\<rparr> ts = Inr (x, pc)"
    "in_time ?d ts pc"
    using paid_returns [OF Cons.prems(3), of "\<lparr>hme_key = ?k, hme_value = Some p\<rparr>"] by (auto simp: returns_iff)
  have holds: "storage_holds (zk_blake zk) (hr_inner (so_storage (so\<lparr>so_storage := st\<lparr>hr_inner := s\<rparr>, so_paid_changes := pc\<rparr>)))
      (f(?k := Inr ?v))"
    using p(2) by simp
  have "returns (rollback_storage_writes zk ts qs (so\<lparr>so_storage := st\<lparr>hr_inner := s\<rparr>, so_paid_changes := pc\<rparr>))
      (\<lambda>so'. \<exists>r pc. so' = so\<lparr>so_storage := r, so_paid_changes := pc\<rparr> \<and>
        storage_holds (zk_blake zk) (hr_inner r) g \<and> in_time ?d ts r \<and> in_time ?d ts pc)"
    by (rule returns_mono [OF Cons.IH [OF holds _ _ rest w(2)]]) (use st(3) pc(2) in auto)
  then show ?case using w(1) st(1) p(1) pc(1) by (simp add: Let_def)
qed

lemma transient_write_returns:
  assumes "transient_holds (hr_inner rec) f" "in_time delta ts rec"
  shows "returns (transient_write_to_storage delta rec k new ts)
    (\<lambda>(v, rec'). v = f k \<and> transient_holds (hr_inner rec') (f(k := new)) \<and> in_time delta ts rec')"
  unfolding transient_write_to_storage_def
  by (rule returns_mono [OF apply_returns [where ap = transient_apply and rec = rec]])
    (use assms in \<open>auto simp: transient_apply_def Let_def transient_value_def [symmetric] transient_holds_def\<close>)

lemma rollback_transient_writes_returns:
  assumes "transient_holds (hr_inner (so_transient_storage so)) f"
    and "in_time (time_delta_per_cycle zk) ts (so_transient_storage so)"
    and "undo_queue rq_loc rq_read_value rq_written_value qs f = Some g" "list_all rq_rw_flag qs"
  shows "returns (rollback_transient_writes zk ts qs so) (\<lambda>so'. \<exists>r. so' = so\<lparr>so_transient_storage := r\<rparr> \<and>
     transient_holds (hr_inner r) g \<and> in_time (time_delta_per_cycle zk) ts r)"
  using assms
proof (induction qs arbitrary: so f)
  case Nil
  then show ?case by (auto intro!: exI [of _ "so_transient_storage so"])
next
  case (Cons q qs)
  let ?d = "time_delta_per_cycle zk"
  obtain r where r: "transient_write_to_storage ?d (so_transient_storage so) (rq_loc q) (rq_read_value q) ts = Inr (f (rq_loc q), r)"
    "transient_holds (hr_inner r) (f(rq_loc q := rq_read_value q))" "in_time ?d ts r"
    using transient_write_returns [OF Cons.prems(1,2)] by (auto simp: returns_iff)
  have f: "f (rq_loc q) = rq_written_value q" and w: "rq_rw_flag q" "list_all rq_rw_flag qs"
    and rest: "undo_queue rq_loc rq_read_value rq_written_value qs (f(rq_loc q := rq_read_value q)) = Some g"
    using Cons.prems(3,4) by (auto split: if_splits)
  have holds: "transient_holds (hr_inner (so_transient_storage (so\<lparr>so_transient_storage := r\<rparr>))) (f(rq_loc q := rq_read_value q))"
    using r(2) by simp
  have "returns (rollback_transient_writes zk ts qs (so\<lparr>so_transient_storage := r\<rparr>))
      (\<lambda>so'. \<exists>r. so' = so\<lparr>so_transient_storage := r\<rparr> \<and> transient_holds (hr_inner r) g \<and> in_time ?d ts r)"
    by (rule returns_mono [OF Cons.IH [OF holds _ rest w(2)]]) (use r(3) in auto)
  then show ?case using w(1) f r(1) by simp
qed

lemma revert_frame_sim:
  assumes "oracle_matches zk ts so ns" "ns_saved ns = (p, t) # rest"
  shows "returns (revert_frame zk so ts) (\<lambda>so'. oracle_matches zk ts so' (ns\<lparr>ns_persistent := p, ns_transient := t\<rparr>))"
proof -
  let ?d = "time_delta_per_cycle zk"
  note m = oracle_matchesD [OF assms(1), unfolded assms(2), simplified] and time = oracle_timeD [OF assms(1)]
  from m(3) obtain qs where q: "current_frame (hr_inner (adf_rollback (so_storage_frames_stack so))) = Inr qs"
    "undo_queue slq_loc (\<lambda>q. Inr (lq_read_value (slq_log_query q))) (\<lambda>q. Inr (lq_written_value (slq_log_query q)))
       (rev qs) (ns_persistent ns) = Some p" "list_all (\<lambda>q. slq_log_type q \<noteq> ReadKind) (rev qs)"
    by (rule frames_hold_frame)
  from m(4) obtain tqs where t: "current_frame (hr_inner (adf_rollback (so_transient_storage_frames_stack so))) = Inr tqs"
    "undo_queue rq_loc rq_read_value rq_written_value (rev tqs) (ns_transient ns) = Some t" "list_all rq_rw_flag (rev tqs)"
    by (rule frames_hold_frame)
  obtain r pc where so1: "rollback_storage_writes zk ts (rev qs) so = Inr (so\<lparr>so_storage := r, so_paid_changes := pc\<rparr>)"
    "storage_holds (zk_blake zk) (hr_inner r) p" "in_time ?d ts r" "in_time ?d ts pc"
    using rollback_storage_writes_returns [OF m(1) time(1,3) q(2,3)] by (auto simp: returns_iff)
  obtain fr where fr: "move_rollback_to_forward ?d (\<lambda>_. True) (so_storage_frames_stack so) ts = Inr fr"
    "storage_frames ?d ts fr p (p # map fst rest)"
    using frames_hold_revert [OF m(3)] by (auto simp: returns_iff)
  let ?so2 = "so\<lparr>so_storage := r, so_paid_changes := pc, so_storage_frames_stack := fr\<rparr>"
  obtain tr where so3: "rollback_transient_writes zk ts (rev tqs) ?so2 = Inr (?so2\<lparr>so_transient_storage := tr\<rparr>)"
    "transient_holds (hr_inner tr) t" "in_time ?d ts tr"
    using rollback_transient_writes_returns [of ?so2 "ns_transient ns" zk ts "rev tqs" t] m(2) time(2) t(2,3)
    by (auto simp: returns_iff)
  obtain tf where tf: "move_rollback_to_forward ?d (\<lambda>_. True) (so_transient_storage_frames_stack so) ts = Inr tf"
    "transient_frames ?d ts tf t (t # map snd rest)"
    using frames_hold_revert [OF m(4)] by (auto simp: returns_iff)
  show ?thesis
    using q(1) so1 fr t(1) so3 tf time assms(2) by (simp add: revert_frame_def oracle_matches_simps)
qed

lemma finish_frame_sim:
  assumes "oracle_matches zk ts so ns" "ns_saved ns = (p, t) # rest"
  shows "returns (finish_frame zk so ts panicked) (\<lambda>so'. oracle_matches zk ts so'
    (if panicked then ns\<lparr>ns_persistent := p, ns_transient := t, ns_saved := rest\<rparr> else ns\<lparr>ns_saved := rest\<rparr>))"
proof -
  let ?d = "time_delta_per_cycle zk"
  have merge: "returns (and_then (adf_merge_frame ?d (so_storage_frames_stack so1) ts) (\<lambda>fr.
      map_res (\<lambda>tf. so1\<lparr>so_storage_frames_stack := fr, so_transient_storage_frames_stack := tf\<rparr>)
        (adf_merge_frame ?d (so_transient_storage_frames_stack so1) ts)))
      (\<lambda>so'. oracle_matches zk ts so' (ns1\<lparr>ns_saved := rest\<rparr>))"
    if "oracle_matches zk ts so1 ns1" "ns_saved ns1 = (p, t) # rest" for so1 ns1
    unfolding returns_simps
    by (rule returns_mono [OF frames_hold_commit [OF oracle_matchesD(3) [OF that(1), unfolded that(2), simplified]]],
        rule returns_mono [OF frames_hold_commit [OF oracle_matchesD(4) [OF that(1), unfolded that(2), simplified]]])
      (use that in \<open>simp add: oracle_matches_simps\<close>)
  show ?thesis
  proof (cases panicked)
    case True
    then show ?thesis
      unfolding finish_frame_def returns_simps(4)
      by simp (rule returns_mono [OF revert_frame_sim [OF assms]],
        drule merge, use assms(2) in simp, simp)
  qed (use merge [OF assms] in \<open>simp add: finish_frame_def\<close>)
qed

lemma write_transient_sim:
  assumes "oracle_matches zk (rq_timestamp q) so ns" "rq_rw_flag q" "rq_read_value q = ns_transient ns (rq_loc q)"
  shows "returns (write_transient_storage_value zk so q)
    (\<lambda>so'. oracle_matches zk (rq_timestamp q) so' (ns\<lparr>ns_transient := (ns_transient ns)(rq_loc q := rq_written_value q)\<rparr>))"
proof -
  let ?d = "time_delta_per_cycle zk" and ?q = "q\<lparr>rq_rollback := True\<rparr>" and ?ts = "rq_timestamp q"
  note m = oracle_matchesD [OF assms(1)] and time = oracle_timeD [OF assms(1)]
  obtain tst where tst: "transient_write_to_storage ?d (so_transient_storage so) (rq_loc q) (rq_written_value q) ?ts =
      Inr (ns_transient ns (rq_loc q), tst)"
    "transient_holds (hr_inner tst) ((ns_transient ns)(rq_loc q := rq_written_value q))" "in_time ?d ?ts tst"
    using transient_write_returns [OF m(2) time(2)] by (auto simp: returns_iff)
  obtain fr where fr: "push_forward ?d (so_transient_storage_frames_stack so) q ?ts = Inr fr"
    "transient_frames ?d ?ts fr (ns_transient ns) (map snd (ns_saved ns))"
    using frames_hold_read [OF m(4)] by (auto simp: returns_iff)
  obtain fr' where fr': "push_rollback ?d fr ?q ?ts = Inr fr'"
    "transient_frames ?d ?ts fr' ((ns_transient ns)(rq_loc q := rq_written_value q)) (map snd (ns_saved ns))"
    using frames_hold_write [OF fr(2), of ?q] assms(2,3) by (auto simp: returns_iff)
  show ?thesis
    unfolding write_transient_storage_value_def using tst fr(1) fr' assms(1) by (simp add: oracle_matches_simps)
qed

lemma write_storage_sim:
  assumes "oracle_matches zk (lq_timestamp q) so ns" "ns_persistent ns (storage_key_of_log q) = Inr (lq_read_value q)"
  shows "returns (write_storage_value zk so q) (\<lambda>so'. oracle_matches zk (lq_timestamp q) so'
    (ns\<lparr>ns_persistent := (ns_persistent ns)(storage_key_of_log q := Inr (lq_written_value q))\<rparr>))"
proof -
  let ?d = "time_delta_per_cycle zk" and ?ts = "lq_timestamp q" and ?k = "storage_key_of_log q"
  let ?f = "(ns_persistent ns)(?k := Inr (lq_written_value q))"
  note m = oracle_matchesD [OF assms(1)] and time = oracle_timeD [OF assms(1)]
  obtain wk where wk: "mark_key zk (so_written_storage_keys so) ?k ?ts = Inr wk" "in_time ?d ?ts wk"
    using mark_key_returns [OF time(7)] by (auto simp: returns_iff)
  obtain v st where st: "write_to_storage ?d (zk_blake zk) (so_storage so) ?k (lq_written_value q) ?ts = Inr (v, st)"
    "storage_holds (zk_blake zk) (hr_inner st) ?f" "in_time ?d ?ts st"
    using write_to_storage_returns [OF m(1) assms(2) time(1), of "lq_written_value q"] by (auto simp: returns_iff)
  obtain b s where b: "view_is_write_initial (zk_blake zk) (hr_inner st) ?k = Inr (b, s)" "storage_holds (zk_blake zk) s ?f"
    using view_initial_returns [OF st(2), of ?k] by (auto simp: returns_iff)
  let ?slq = "\<lparr>slq_log_query = q, slq_log_type = (if b then InitialWrite else RepeatedWrite)\<rparr>"
  let ?rlq = "?slq\<lparr>slq_log_query := q\<lparr>lq_rollback := True\<rparr>\<rparr>"
  obtain fr where fr: "push_forward ?d (so_storage_frames_stack so) ?slq ?ts = Inr fr"
    "storage_frames ?d ?ts fr (ns_persistent ns) (map fst (ns_saved ns))"
    using frames_hold_read [OF m(3)] by (auto simp: returns_iff)
  have "storage_key_of_log (slq_log_query ?rlq) = ?k" by (simp add: storage_key_of_log_def)
  with frames_hold_write [OF fr(2), of ?rlq] assms(2)
  obtain fr' where fr': "push_rollback ?d fr ?rlq ?ts = Inr fr'" "storage_frames ?d ?ts fr' ?f (map fst (ns_saved ns))"
    by (cases b) (auto simp: returns_iff)
  show ?thesis
    unfolding write_storage_value_def storage_key_of_log_def [symmetric]
    using wk st b fr(1) fr' assms(1) by (simp add: oracle_is_write_initial_def oracle_matches_simps)
qed

lemma read_value_sim:
  assumes "oracle_matches zk (lq_timestamp q) so ns" "spec_query zk q ns = Some (a, ns')"
  shows "returns (read_query_value zk so q) (\<lambda>(v, so'). a = [v] \<and> oracle_matches zk (lq_timestamp q) so' ns)"
proof (cases "lq_aux_byte q = transient_storage_aux_byte zk")
  case True
  with assms show ?thesis
    by (auto simp: read_query_value_def read_from_transient_storage_def oracle_matches_def transient_holds_def
        transient_value_def [symmetric] Let_def split: if_splits)
next
  case False
  let ?d = "time_delta_per_cycle zk" and ?ts = "lq_timestamp q" and ?k = "storage_key_of_log q"
  note m = oracle_matchesD [OF assms(1)] and time = oracle_timeD [OF assms(1)]
  from False assms(2) obtain v where aux: "lq_aux_byte q = storage_aux_byte zk" and v: "ns_persistent ns ?k = Inr v" "a = [v]"
    by (auto simp: Let_def split: if_splits sum.splits)
  obtain rk where rk: "mark_key zk (so_read_storage_keys so) ?k ?ts = Inr rk" "in_time ?d ?ts rk"
    using mark_key_returns [OF time(8)] by (auto simp: returns_iff)
  obtain s where s: "read_from_storage (zk_blake zk) (so_storage so) ?k = Inr (v, (so_storage so)\<lparr>hr_inner := s\<rparr>)"
    "storage_holds (zk_blake zk) s (ns_persistent ns)"
    using read_from_storage_returns [OF m(1) v(1)] by (auto simp: returns_iff)
  let ?so = "so\<lparr>so_read_storage_keys := rk, so_storage := (so_storage so)\<lparr>hr_inner := s\<rparr>\<rparr>"
  obtain r where "set_initial_value zk ?so ?k v ?ts = Inr (?so\<lparr>so_initial_values := r\<rparr>)" "in_time ?d ?ts r"
    using set_initial_returns [of zk ?ts ?so ?k v] time(4) by (auto simp: returns_iff)
  then show ?thesis
    using False aux rk s v assms(1) by (simp add: read_query_value_def Let_def oracle_matches_simps)
qed

lemma charge_sim:
  assumes "oracle_matches zk (lq_timestamp q) so ns"
    and "lq_aux_byte q = storage_aux_byte zk \<Longrightarrow> lq_rw_flag q \<Longrightarrow> \<exists>v. ns_persistent ns (storage_key_of_log q) = Inr v"
  shows "returns (charge_pubdata zk so q) (\<lambda>(_, so'). oracle_matches zk (lq_timestamp q) so' ns)"
proof (cases "lq_aux_byte q = storage_aux_byte zk \<and> lq_rw_flag q")
  case True
  let ?d = "time_delta_per_cycle zk" and ?ts = "lq_timestamp q" and ?k = "storage_key_of_log q"
  note m = oracle_matchesD [OF assms(1)] and time = oracle_timeD [OF assms(1)]
  obtain v where v: "ns_persistent ns ?k = Inr v" using assms(2) True by blast
  obtain p s where p: "base_price_for_write_query zk so q = Inr (p, so\<lparr>so_storage := (so_storage so)\<lparr>hr_inner := s\<rparr>\<rparr>)"
    "storage_holds (zk_blake zk) s (ns_persistent ns)"
    using price_returns [OF m(1) v, of "lq_written_value q"] by (auto simp: returns_iff base_price_for_write_query_def)
  obtain x pc where "apply_historic_record ?d map_apply (so_paid_changes so) \<lparr>hme_key = ?k, hme_value = Some p\<rparr> ?ts = Inr (x, pc)"
    "in_time ?d ?ts pc"
    using paid_returns [OF time(3)] by (fastforce simp: returns_iff)
  then show ?thesis
    using True p assms(1) by (simp add: charge_pubdata_def oracle_matches_simps)
qed (use assms(1) in \<open>auto simp: charge_pubdata_def\<close>)

text \<open>What is relied on: the two auxiliary bytes differ, and iterating over a hash map gives every key once.\<close>

definition lawful_zkevm :: "zkevm \<Rightarrow> bool" where
  "lawful_zkevm zk \<longleftrightarrow> storage_aux_byte zk \<noteq> transient_storage_aux_byte zk \<and>
     (\<forall>m. finite (dom m) \<longrightarrow> distinct (hash_map_order zk m) \<and> set (hash_map_order zk m) = dom m)"

lemma perform_sim:
  assumes m: "oracle_matches zk (lq_timestamp q) so ns" and spec: "spec_query zk q ns = Some ([lq_read_value q], ns')"
  shows "returns (perform_query zk so q) (\<lambda>so'. oracle_matches zk (lq_timestamp q) so' ns')"
proof (cases "lq_aux_byte q = transient_storage_aux_byte zk")
  case True
  have loc: "rq_loc (reduced_of_query q) = storage_key_of_log q" "rq_timestamp (reduced_of_query q) = lq_timestamp q"
    "rq_written_value (reduced_of_query q) = lq_written_value q" "rq_read_value (reduced_of_query q) = lq_read_value q"
    "rq_rw_flag (reduced_of_query q) = lq_rw_flag q"
    by (simp_all add: reduced_of_query_def storage_key_of_log_def)
  have read: "returns (record_transient_storage_read zk so (reduced_of_query q)) (\<lambda>so'. oracle_matches zk (lq_timestamp q) so' ns)"
    unfolding record_transient_storage_read_def loc returns_simps
    by (rule returns_mono [OF frames_hold_read [OF oracle_matchesD(4) [OF m]]]) (use m in \<open>simp add: oracle_matches_simps\<close>)
  show ?thesis
    using True spec read write_transient_sim [of zk "reduced_of_query q" so ns, unfolded loc] m
    by (auto simp: perform_query_def Let_def split: if_splits)
next
  case False
  have read: "returns (record_storage_read zk so q) (\<lambda>so'. oracle_matches zk (lq_timestamp q) so' ns)"
    unfolding record_storage_read_def returns_simps
    by (rule returns_mono [OF frames_hold_read [OF oracle_matchesD(3) [OF m]]]) (use m in \<open>simp add: oracle_matches_simps\<close>)
  show ?thesis
    using False spec read write_storage_sim [OF m]
    by (auto simp: perform_query_def Let_def split: if_splits sum.splits)
qed

lemma execute_query_sim:
  assumes m: "oracle_matches zk (lq_timestamp q) so ns" and spec: "spec_query zk q ns = Some (a, ns')"
    and zk: "lawful_zkevm zk"
  shows "returns (execute_partial_query zk so q) (\<lambda>((q', _), so'). a = [lq_read_value q'] \<and> oracle_matches zk (lq_timestamp q) so' ns')"
proof -
  let ?ts = "lq_timestamp q"
  obtain v so1 where v: "read_query_value zk so q = Inr (v, so1)" "a = [v]" "oracle_matches zk ?ts so1 ns"
    using read_value_sim [OF m spec] by (auto simp: returns_iff)
  let ?q = "q\<lparr>lq_read_value := v\<rparr>"
  have loc: "storage_key_of_log ?q = storage_key_of_log q" by (simp add: storage_key_of_log_def)
  have spec': "spec_query zk ?q ns = Some ([lq_read_value ?q], ns')"
    using spec v(2) loc by (auto simp: Let_def split: if_splits sum.splits)
  have "returns (charge_pubdata zk so1 ?q) (\<lambda>(_, so'). oracle_matches zk (lq_timestamp ?q) so' ns)"
    by (rule charge_sim) (use v(3) spec' zk in \<open>auto simp: Let_def lawful_zkevm_def split: if_splits sum.splits\<close>)
  then obtain c so2 where c: "charge_pubdata zk so1 ?q = Inr (c, so2)" "oracle_matches zk ?ts so2 ns"
    by (auto simp: returns_iff)
  obtain so3 where so3: "perform_query zk so2 ?q = Inr so3" "oracle_matches zk ?ts so3 ns'"
    using perform_sim [of zk ?q so2 ns ns'] c(2) spec' by (auto simp: returns_iff)
  obtain x pd where "apply_historic_record (time_delta_per_cycle zk) vec_apply (so_returned_pubdata_costs so3) (VecPush c) ?ts = Inr (x, pd)"
    "in_time (time_delta_per_cycle zk) ?ts pd"
    using vec_returns [OF oracle_timeD(6) [OF so3(2)], of c] by (auto simp: returns_iff)
  moreover have "\<not> lq_rollback q" using spec by (auto simp: Let_def split: if_splits)
  ultimately show ?thesis
    using v c so3 by (simp add: execute_partial_query_def Let_def oracle_matches_simps)
qed

lemma access_refund_sim:
  assumes "oracle_matches zk (lq_timestamp q) so ns" "lq_aux_byte q \<in> {storage_aux_byte zk, transient_storage_aux_byte zk}"
  shows "returns (get_access_refund zk so q) (\<lambda>(_, so'). oracle_matches zk (lq_timestamp q) so' ns)"
  unfolding get_access_refund_def
  using assms(2) by (auto intro!: returns_mono [OF vec_returns [OF oracle_timeD(5) [OF assms(1)]]])
    (use assms(1) in \<open>simp_all add: oracle_matches_simps\<close>)

lemma clear_transient_sim:
  assumes "oracle_matches zk ts so ns" "distinct (map fst es)" "\<forall>(k, v) \<in> set es. ns_transient ns k = v"
  shows "returns (clear_transient zk ts es so)
    (\<lambda>so'. oracle_matches zk ts so' (ns\<lparr>ns_transient := (\<lambda>k. if k \<in> fst ` set es then 0 else ns_transient ns k)\<rparr>))"
  using assms
proof (induction es arbitrary: so ns)
  case Nil
  then show ?case by simp
next
  case (Cons e es)
  obtain k v where e: "e = (k, v)" by (cases e)
  let ?q = "\<lparr>rq_shard_id = 0, rq_address = account k, rq_key = slot k, rq_written_value = 0, rq_read_value = v,
        rq_rw_flag = True, rq_timestamp = ts, rq_rollback = False\<rparr>"
  let ?ns = "ns\<lparr>ns_transient := (ns_transient ns)(k := 0)\<rparr>"
  have loc: "rq_loc ?q = k" by (simp add: triplet_to_storage_key_def)
  obtain so1 where so1: "write_transient_storage_value zk so ?q = Inr so1" "oracle_matches zk ts so1 ?ns"
    using write_transient_sim [of zk ?q so ns, unfolded loc] Cons.prems by (auto simp: e returns_iff)
  have es: "\<forall>(k', v') \<in> set es. ns_transient ?ns k' = v'" "distinct (map fst es)"
    using Cons.prems(2,3) by (force simp: e)+
  have "(\<lambda>k'. if k' \<in> fst ` set es then 0 else ns_transient ?ns k') =
      (\<lambda>k'. if k' \<in> fst ` set (e # es) then 0 else ns_transient ns k')"
    by (auto simp: e fun_eq_iff)
  then show ?case
    using returns_mono [OF Cons.IH [OF so1(2) es(2,1)]] so1(1) by (simp add: e)
qed

lemma start_new_tx_sim:
  assumes "oracle_matches zk ts so ns" "lawful_zkevm zk"
  shows "returns (start_new_tx zk so ts) (\<lambda>so'. oracle_matches zk ts so' (ns\<lparr>ns_transient := \<lambda>_. 0\<rparr>))"
proof -
  let ?m = "hr_inner (so_transient_storage so)" and ?es = "clone_vec (hash_map_order zk) (so_transient_storage so)"
  have m: "finite (dom ?m)" "transient_value ?m = ns_transient ns"
    using oracle_matchesD(2) [OF assms(1)] by (simp_all add: transient_holds_def)
  have order: "distinct (hash_map_order zk ?m)" "set (hash_map_order zk ?m) = dom ?m"
    using assms(2) m(1) by (simp_all add: lawful_zkevm_def)
  have "map fst ?es = hash_map_order zk ?m" by (simp add: clone_vec_def comp_def)
  then have es: "distinct (map fst ?es)" "fst ` set ?es = dom ?m" using order by (metis, metis set_map)
  have "\<forall>(k, v) \<in> set ?es. ns_transient ns k = v"
    using m(2) by (auto simp: clone_vec_def read_from_transient_storage_def transient_value_def [symmetric])
  moreover have "(\<lambda>k. if k \<in> fst ` set ?es then 0 else ns_transient ns k) = (\<lambda>_. 0)"
    unfolding es(2) m(2) [symmetric] by (auto simp: transient_value_def fun_eq_iff split: option.splits)
  ultimately show ?thesis
    using clear_transient_sim [OF assms(1) es(1)] by (simp add: start_new_tx_def)
qed

lemma run_op_sim:
  assumes "oracle_matches zk (op_time op) so ns" "spec_op zk op ns = Some (a, ns')" "lawful_zkevm zk"
  shows "returns (run_op zk op so) (\<lambda>(b, so'). b = a \<and> oracle_matches zk (op_time op) so' ns')"
proof (cases op)
  case (OpQuery q)
  with assms show ?thesis using execute_query_sim [of zk q so ns a ns'] by (auto elim!: returns_mono)
next
  case (OpRefund q)
  with assms show ?thesis using access_refund_sim [of zk q so ns] by (auto elim!: returns_mono split: if_splits)
next
  case (OpStartFrame ts)
  with assms show ?thesis using start_frame_sim [of zk ts so ns] by auto
next
  case (OpFinishFrame ts panicked)
  with assms show ?thesis
    using finish_frame_sim [of zk ts so ns _ _ _ panicked] by (auto split: list.splits)
next
  case (OpNewTx ts)
  with assms show ?thesis using start_new_tx_sim [of zk ts so ns] by auto
qed

lemma run_ops_sim:
  assumes "oracle_matches zk ts so ns" "spec_run zk ops ns = Some (a, ns')" "lawful_zkevm zk"
    and "times_from (time_delta_per_cycle zk) ts (map op_time ops)"
  shows "\<exists>ts'. returns (run_ops zk ops so) (\<lambda>(b, so'). b = a \<and> oracle_matches zk ts' so' ns')"
  using assms
proof (induction ops arbitrary: ts so ns a)
  case Nil
  then show ?case by auto
next
  case (Cons op ops)
  obtain a1 ns1 a2 where spec: "spec_op zk op ns = Some (a1, ns1)" "spec_run zk ops ns1 = Some (a2, ns')" "a = a1 @ a2"
    using Cons.prems(2) by (auto split: bind_splits)
  have "oracle_matches zk (op_time op) so ns" by (rule oracle_matches_mono [OF Cons.prems(1)]) (use Cons.prems(4) in simp)
  from run_op_sim [OF this spec(1) assms(3)] obtain so1 where
    so1: "run_op zk op so = Inr (a1, so1)" "oracle_matches zk (op_time op) so1 ns1" by (auto simp: returns_iff)
  obtain ts' where "returns (run_ops zk ops so1) (\<lambda>(b, so'). b = a2 \<and> oracle_matches zk ts' so' ns')"
    using Cons.IH [OF so1(2) spec(2) assms(3)] Cons.prems(4) by auto
  then show ?case using so1(1) spec(3) by (intro exI [of _ ts']) (auto simp: returns_iff)
qed

lemma oracle_matches_new:
  assumes "storage_holds (zk_blake zk) s f"
  shows "oracle_matches zk 0 (storage_oracle_new mode s) \<lparr>ns_persistent = f, ns_transient = \<lambda>_. 0, ns_saved = []\<rparr>"
  using assms
  by (auto simp: oracle_matches_simps storage_oracle_new_def frames_hold_def queues_hold_def adf_default_def
      framed_stack_default_def transient_holds_def transient_value_def fun_eq_iff from_inner_def in_time_def
      intro!: exI [of _ "[]"] exI [of _ "[0]"])

text \<open>
  C15. The storage oracle of the legacy VM is a store with nested transactions. Started on any coherent storage view, it
  answers every sequence of queries, refund requests, frame starts, frame ends and transaction starts
  with the values of the abstract store, and ends with the contents the abstract store ends with: a panicked frame
  brings back the persistent and the transient contents it started from, a normal end keeps the writes, a new transaction
  clears the transient storage. It never aborts on a sequence that is defined (known slots, matching frames) with
  timestamps that do not go back, whether or not history is recorded.
\<close>

theorem storage_oracle_refines:
  assumes "storage_holds (zk_blake zk) s contents" "lawful_zkevm zk"
    and "times_from (time_delta_per_cycle zk) 0 (map op_time ops)"
    and "spec_run zk ops \<lparr>ns_persistent = contents, ns_transient = \<lambda>_. 0, ns_saved = []\<rparr> = Some (answers, ns')"
  shows "\<exists>so'. run_ops zk ops (storage_oracle_new mode s) = Inr (answers, so') \<and>
    storage_holds (zk_blake zk) (hr_inner (so_storage so')) (ns_persistent ns') \<and>
    transient_holds (hr_inner (so_transient_storage so')) (ns_transient ns')"
proof -
  obtain ts' where "returns (run_ops zk ops (storage_oracle_new mode s)) (\<lambda>(b, so'). b = answers \<and> oracle_matches zk ts' so' ns')"
    using run_ops_sim [OF oracle_matches_new [OF assms(1)] assms(4,2,3)] by blast
  then show ?thesis by (auto simp: returns_iff oracle_matches_def)
qed

end
