(* ===== verification/Oracle_Rollback.thy ===== *)
theory Oracle_Rollback
  imports Storage_Oracle_Correct
begin

text \<open>
  \<open>rollback_to_timestamp\<close> of the storage oracle undoes everything that was done since the given time: queries, refunds,
  frame starts and ends (reverts included) and the clearing of transient storage. Each operation is shown to let every
  recorder grow by undoable events; the contract of \<open>History_Recorder\<close> does the rest.
\<close>

definition adf_grown :: "timestamp \<Rightarrow> 'a app_data_frame_manager \<Rightarrow> 'a app_data_frame_manager \<Rightarrow> bool" where
  "adf_grown t m0 m \<longleftrightarrow> framed_grown t (adf_forward m0) (adf_forward m) \<and> framed_grown t (adf_rollback m0) (adf_rollback m)"

section \<open>Frame operations\<close>

lemma adf_keeps:
  assumes "adf_grown t m0 m" "t \<le> normalize_timestamp delta ts"
  shows "keeps (push_forward delta m x ts) (adf_grown t m0)" "keeps (push_rollback delta m x ts) (adf_grown t m0)"
    and "keeps (adf_push_frame delta m ts) (adf_grown t m0)" "keeps (adf_merge_frame delta m ts) (adf_grown t m0)"
proof -
  have f: "framed_grown t (adf_forward m0) (adf_forward m)" and r: "framed_grown t (adf_rollback m0) (adf_rollback m)"
    using assms(1) by (simp_all add: adf_grown_def)
  show "keeps (push_forward delta m x ts) (adf_grown t m0)"
    unfolding push_forward_def keeps_simps
    by (rule keeps_mono [OF push_to_frame_keeps(1) [OF f assms(2)]]) (use r in \<open>simp add: adf_grown_def\<close>)
  show "keeps (push_rollback delta m x ts) (adf_grown t m0)"
    unfolding push_rollback_def keeps_simps
    by (rule keeps_mono [OF push_to_frame_keeps(1) [OF r assms(2)]]) (use f in \<open>simp add: adf_grown_def\<close>)
  show "keeps (adf_push_frame delta m ts) (adf_grown t m0)"
    unfolding adf_push_frame_def on_both_def keeps_simps
    by (rule keeps_mono [OF push_to_frame_keeps(2) [OF f assms(2)]], rule keeps_mono [OF push_to_frame_keeps(2) [OF r assms(2)]])
      (simp add: adf_grown_def)
  show "keeps (adf_merge_frame delta m ts) (adf_grown t m0)"
    unfolding adf_merge_frame_def on_both_def keeps_simps
    by (rule keeps_mono [OF push_to_frame_keeps(3) [OF f assms(2)]], rule keeps_mono [OF push_to_frame_keeps(3) [OF r assms(2)]])
      (simp add: adf_grown_def)
qed

lemma move_rollback_keeps:
  assumes "adf_grown t m0 m" "t \<le> normalize_timestamp delta ts"
  shows "keeps (move_rollback_to_forward delta keep m ts) (adf_grown t m0)"
proof -
  have f: "framed_grown t (adf_forward m0) (adf_forward m)" and r: "framed_grown t (adf_rollback m0) (adf_rollback m)"
    using assms(1) by (simp_all add: adf_grown_def)
  show ?thesis
    unfolding move_rollback_to_forward_def keeps_simps
    by (cases "current_frame (hr_inner (adf_rollback m))") (simp_all,
      rule keeps_mono [OF extend_frame_keeps [OF f assms(2)]], rule keeps_mono [OF clear_frame_keeps [OF r assms(2)]],
      simp add: adf_grown_def)
qed

section \<open>The oracle\<close>

abbreviation storage_grown :: "hash_fn \<Rightarrow> timestamp \<Rightarrow> storage_recorder \<Rightarrow> storage_recorder \<Rightarrow> bool" where
  "storage_grown blake \<equiv> grown_since (storage_apply blake) (same_storage blake) (cache_coherent blake)"

abbreviation transient_grown :: "timestamp \<Rightarrow> transient_recorder \<Rightarrow> transient_recorder \<Rightarrow> bool" where
  "transient_grown \<equiv> grown_since transient_apply (\<lambda>m1 m2. transient_value m1 = transient_value m2) (\<lambda>_. True)"

abbreviation map_grown :: "timestamp \<Rightarrow> ('k, 'v) map_recorder \<Rightarrow> ('k, 'v) map_recorder \<Rightarrow> bool" where
  "map_grown \<equiv> grown_since map_apply (=) (\<lambda>_. True)"

abbreviation vec_grown :: "timestamp \<Rightarrow> 'v vec_recorder \<Rightarrow> 'v vec_recorder \<Rightarrow> bool" where
  "vec_grown \<equiv> grown_since vec_apply (=) (\<lambda>_. True)"

definition oracle_grown :: "zkevm \<Rightarrow> timestamp \<Rightarrow> storage_oracle \<Rightarrow> storage_oracle \<Rightarrow> bool" where
  "oracle_grown zk t so0 so \<longleftrightarrow>
     storage_grown (zk_blake zk) t (so_storage so0) (so_storage so) \<and>
     transient_grown t (so_transient_storage so0) (so_transient_storage so) \<and>
     adf_grown t (so_storage_frames_stack so0) (so_storage_frames_stack so) \<and>
     adf_grown t (so_transient_storage_frames_stack so0) (so_transient_storage_frames_stack so) \<and>
     map_grown t (so_paid_changes so0) (so_paid_changes so) \<and>
     map_grown t (so_initial_values so0) (so_initial_values so) \<and>
     vec_grown t (so_returned_io_refunds so0) (so_returned_io_refunds so) \<and>
     vec_grown t (so_returned_pubdata_costs so0) (so_returned_pubdata_costs so) \<and>
     map_grown t (so_written_storage_keys so0) (so_written_storage_keys so) \<and>
     map_grown t (so_read_storage_keys so0) (so_read_storage_keys so)"

lemma oracle_grownD:
  assumes "oracle_grown zk t so0 so"
  shows "storage_grown (zk_blake zk) t (so_storage so0) (so_storage so)"
    and "transient_grown t (so_transient_storage so0) (so_transient_storage so)"
    and "adf_grown t (so_storage_frames_stack so0) (so_storage_frames_stack so)"
    and "adf_grown t (so_transient_storage_frames_stack so0) (so_transient_storage_frames_stack so)"
    and "map_grown t (so_paid_changes so0) (so_paid_changes so)"
    and "map_grown t (so_initial_values so0) (so_initial_values so)"
    and "vec_grown t (so_returned_io_refunds so0) (so_returned_io_refunds so)"
    and "vec_grown t (so_returned_pubdata_costs so0) (so_returned_pubdata_costs so)"
    and "map_grown t (so_written_storage_keys so0) (so_written_storage_keys so)"
    and "map_grown t (so_read_storage_keys so0) (so_read_storage_keys so)"
  using assms by (simp_all add: oracle_grown_def)

lemma storage_touch_keeps:
  assumes "storage_grown blake t r0 rec" "same_content blake (hr_inner rec) s"
  shows "storage_grown blake t r0 (rec\<lparr>hr_inner := s\<rparr>)"
  by (rule storage.grown_touch [OF assms(1)]) (use assms(2) in \<open>auto simp: same_content_def same_storage_def\<close>)

lemma grown_coherent: "storage_grown blake t r0 rec \<Longrightarrow> cache_coherent blake (hr_inner rec)"
  by (simp add: grown_since_def)

lemma read_from_storage_keeps:
  assumes "storage_grown blake t r0 rec"
  shows "keeps (read_from_storage blake rec k) (\<lambda>(_, rec'). storage_grown blake t r0 rec')"
  using get_value_no_log_cases(2) [OF grown_coherent [OF assms], of k] storage_touch_keeps [OF assms]
  by (cases "get_value_no_log blake (hr_inner rec) k") (auto simp: read_from_storage_def view_read_value_def)

lemma write_to_storage_keeps:
  assumes "storage_grown blake t r0 rec" "t \<le> normalize_timestamp delta ts"
  shows "keeps (write_to_storage delta blake rec k v ts) (\<lambda>(_, rec'). storage_grown blake t r0 rec')"
  unfolding write_to_storage_def by (rule storage.apply_keeps_grown [OF assms])

lemma is_write_initial_keeps:
  assumes "oracle_grown zk t so0 so"
  shows "keeps (oracle_is_write_initial zk so k) (\<lambda>(_, so'). oracle_grown zk t so0 so')"
  using view_is_write_initial_cases(2) [OF grown_coherent [OF oracle_grownD(1) [OF assms]], of k]
    storage_touch_keeps [OF oracle_grownD(1) [OF assms]] assms
  by (cases "view_is_write_initial (zk_blake zk) (hr_inner (so_storage so)) k")
    (auto simp: oracle_is_write_initial_def oracle_grown_def)

lemma price_keeps:
  assumes "oracle_grown zk t so0 so"
  shows "keeps (base_price_for_key_write zk so k new) (\<lambda>(_, so'). oracle_grown zk t so0 so')"
proof -
  have p: "keeps (base_price_for_write zk so1 k a new) (\<lambda>(_, so'). oracle_grown zk t so0 so')"
    if "oracle_grown zk t so0 so1" for so1 a
    using that is_write_initial_keeps [OF that, of k]
    by (auto simp: base_price_for_write_def elim!: keeps_mono)
  show ?thesis
    unfolding base_price_for_key_write_def keeps_simps
    by (rule keeps_mono [OF read_from_storage_keeps [OF oracle_grownD(1) [OF assms]]], clarsimp, rule p)
      (use assms in \<open>simp add: oracle_grown_def\<close>)
qed

lemma mark_key_keeps:
  assumes "map_grown t r0 keys" "t \<le> normalize_timestamp (time_delta_per_cycle zk) ts"
  shows "keeps (mark_key zk keys k ts) (map_grown t r0)"
proof (cases "k \<in> dom (hr_inner keys)")
  case False
  then show ?thesis
    unfolding mark_key_def map_insert_def by simp (rule keeps_mono [OF hmap.apply_keeps_grown [OF assms]], auto)
qed (simp add: mark_key_def assms(1))

lemma set_initial_keeps:
  assumes "oracle_grown zk t so0 so" "t \<le> normalize_timestamp (time_delta_per_cycle zk) ts"
  shows "keeps (set_initial_value zk so k v ts) (oracle_grown zk t so0)"
proof (cases "k \<in> dom (hr_inner (so_initial_values so))")
  case False
  then show ?thesis
    unfolding set_initial_value_def map_insert_def
    by simp (rule keeps_mono [OF hmap.apply_keeps_grown [OF oracle_grownD(6) [OF assms(1)] assms(2)]],
      use assms(1) in \<open>auto simp: oracle_grown_def\<close>)
qed (simp add: set_initial_value_def assms(1))

lemma write_transient_keeps:
  assumes "oracle_grown zk t so0 so" "t \<le> normalize_timestamp (time_delta_per_cycle zk) (rq_timestamp q)"
  shows "keeps (write_transient_storage_value zk so q) (oracle_grown zk t so0)"
  unfolding write_transient_storage_value_def transient_write_to_storage_def Let_def keeps_simps
  by (rule keeps_mono [OF transient.apply_keeps_grown [OF oracle_grownD(2) [OF assms(1)] assms(2)]], clarsimp,
      rule keeps_mono [OF adf_keeps(1) [OF oracle_grownD(4) [OF assms(1)] assms(2)]],
      rule keeps_mono [OF adf_keeps(2) [OF _ assms(2)]], assumption)
    (use assms(1) in \<open>simp add: oracle_grown_def\<close>)

lemma write_storage_keeps:
  assumes "oracle_grown zk t so0 so" "t \<le> normalize_timestamp (time_delta_per_cycle zk) (lq_timestamp q)"
  shows "keeps (write_storage_value zk so q) (oracle_grown zk t so0)"
proof -
  let ?d = "time_delta_per_cycle zk" and ?k = "triplet_to_storage_key (lq_shard_id q) (lq_address q) (lq_key q)" and ?ts = "lq_timestamp q"
  {
    fix so' assume "write_storage_value zk so q = Inr so'"
    then obtain wk v st b so1 x fr y fr' where steps: "mark_key zk (so_written_storage_keys so) ?k ?ts = Inr wk"
      "write_to_storage ?d (zk_blake zk) (so_storage so) ?k (lq_written_value q) ?ts = Inr (v, st)"
      "oracle_is_write_initial zk (so\<lparr>so_written_storage_keys := wk, so_storage := st\<rparr>) ?k = Inr (b, so1)"
      "push_forward ?d (so_storage_frames_stack so1) x ?ts = Inr fr" "push_rollback ?d fr y ?ts = Inr fr'"
      "so' = so1\<lparr>so_storage_frames_stack := fr'\<rparr>"
      by (auto simp: write_storage_value_def Let_def)
    have "map_grown t (so_written_storage_keys so0) wk"
      by (rule keepsD [OF mark_key_keeps [OF oracle_grownD(9) [OF assms(1)] assms(2)] steps(1)])
    moreover have "storage_grown (zk_blake zk) t (so_storage so0) st"
      using keepsD [OF write_to_storage_keeps [OF oracle_grownD(1) [OF assms(1)] assms(2)] steps(2)] by simp
    ultimately have "oracle_grown zk t so0 (so\<lparr>so_written_storage_keys := wk, so_storage := st\<rparr>)"
      using assms(1) by (simp add: oracle_grown_def)
    then have so1: "oracle_grown zk t so0 so1" using keepsD [OF is_write_initial_keeps steps(3)] by simp
    then have "adf_grown t (so_storage_frames_stack so0) fr'"
      using keepsD [OF adf_keeps(2) [OF keepsD [OF adf_keeps(1) [OF oracle_grownD(3) [OF so1] assms(2)] steps(4)] assms(2)] steps(5)]
      by simp
    with so1 steps(6) have "oracle_grown zk t so0 so'" by (simp add: oracle_grown_def)
  }
  then show ?thesis by (cases "write_storage_value zk so q") auto
qed

lemma read_value_keeps:
  assumes "oracle_grown zk t so0 so" "t \<le> normalize_timestamp (time_delta_per_cycle zk) (lq_timestamp q)"
  shows "keeps (read_query_value zk so q) (\<lambda>(_, so'). oracle_grown zk t so0 so')"
proof -
  have "keeps (and_then (mark_key zk (so_read_storage_keys so) k (lq_timestamp q)) (\<lambda>rk.
        and_then (read_from_storage (zk_blake zk) (so_storage so) k) (\<lambda>(v, st).
        map_res (Pair v) (set_initial_value zk (so\<lparr>so_read_storage_keys := rk, so_storage := st\<rparr>) k v (lq_timestamp q)))))
      (\<lambda>(_, so'). oracle_grown zk t so0 so')" for k
    unfolding keeps_simps(4)
    by (rule keeps_mono [OF mark_key_keeps [OF oracle_grownD(10) [OF assms(1)] assms(2)]],
        rule keeps_mono [OF read_from_storage_keeps [OF oracle_grownD(1) [OF assms(1)]]], clarsimp,
        rule set_initial_keeps [OF _ assms(2)])
      (use assms(1) in \<open>simp add: oracle_grown_def\<close>)
  then show ?thesis using assms(1) by (simp add: read_query_value_def Let_def)
qed

lemma charge_keeps:
  assumes "oracle_grown zk t so0 so" "t \<le> normalize_timestamp (time_delta_per_cycle zk) (lq_timestamp q)"
  shows "keeps (charge_pubdata zk so q) (\<lambda>(_, so'). oracle_grown zk t so0 so')"
proof (cases "lq_aux_byte q = storage_aux_byte zk \<and> lq_rw_flag q")
  case True
  have pay: "keeps (apply_historic_record (time_delta_per_cycle zk) map_apply (so_paid_changes so1) item (lq_timestamp q))
      (\<lambda>(_, pc). oracle_grown zk t so0 (so1\<lparr>so_paid_changes := pc\<rparr>))" if "oracle_grown zk t so0 so1" for so1 item
    by (rule keeps_mono [OF hmap.apply_keeps_grown [OF oracle_grownD(5) [OF that] assms(2)]])
      (use that in \<open>auto simp: oracle_grown_def\<close>)
  show ?thesis
    using True unfolding charge_pubdata_def base_price_for_write_query_def Let_def
    by simp (rule keeps_mono [OF price_keeps [OF assms(1)]], clarsimp, rule keeps_mono [OF pay], auto)
qed (use assms(1) in \<open>auto simp: charge_pubdata_def\<close>)

lemma perform_keeps:
  assumes "oracle_grown zk t so0 so" "t \<le> normalize_timestamp (time_delta_per_cycle zk) (lq_timestamp q)"
  shows "keeps (perform_query zk so q) (oracle_grown zk t so0)"
proof -
  have ts: "rq_timestamp (reduced_of_query q) = lq_timestamp q" by (simp add: reduced_of_query_def)
  have "keeps (record_storage_read zk so q) (oracle_grown zk t so0)"
    unfolding record_storage_read_def keeps_simps
    by (rule keeps_mono [OF adf_keeps(1) [OF oracle_grownD(3) [OF assms(1)] assms(2)]]) (use assms(1) in \<open>simp add: oracle_grown_def\<close>)
  moreover have "keeps (record_transient_storage_read zk so (reduced_of_query q)) (oracle_grown zk t so0)"
    unfolding record_transient_storage_read_def keeps_simps ts
    by (rule keeps_mono [OF adf_keeps(1) [OF oracle_grownD(4) [OF assms(1)] assms(2)]]) (use assms(1) in \<open>simp add: oracle_grown_def\<close>)
  ultimately show ?thesis
    using write_storage_keeps [OF assms] write_transient_keeps [of zk t so0 so "reduced_of_query q"] assms
    by (simp add: perform_query_def ts)
qed

lemma execute_keeps:
  assumes "oracle_grown zk t so0 so" "t \<le> normalize_timestamp (time_delta_per_cycle zk) (lq_timestamp q)"
  shows "keeps (execute_partial_query zk so q) (\<lambda>(_, so'). oracle_grown zk t so0 so')"
proof -
  have ts: "t \<le> normalize_timestamp (time_delta_per_cycle zk) (lq_timestamp (q\<lparr>lq_read_value := v\<rparr>))" for v
    using assms(2) by simp
  have push: "keeps (apply_historic_record (time_delta_per_cycle zk) vec_apply (so_returned_pubdata_costs so1) item (lq_timestamp q))
      (\<lambda>(_, pd). oracle_grown zk t so0 (so1\<lparr>so_returned_pubdata_costs := pd\<rparr>))" if "oracle_grown zk t so0 so1" for so1 item
    by (rule keeps_mono [OF vec.apply_keeps_grown [OF oracle_grownD(8) [OF that] assms(2)]])
      (use that in \<open>auto simp: oracle_grown_def\<close>)
  show ?thesis
    unfolding execute_partial_query_def keeps_simps(4,5) Let_def
    by (rule impI, rule keeps_mono [OF read_value_keeps [OF assms]], clarsimp,
        rule keeps_mono [OF charge_keeps [OF _ ts]], assumption, clarsimp,
        rule keeps_mono [OF perform_keeps [OF _ ts]], assumption, rule keeps_mono [OF push], assumption, auto)
qed

lemma access_refund_keeps:
  assumes "oracle_grown zk t so0 so" "t \<le> normalize_timestamp (time_delta_per_cycle zk) (lq_timestamp q)"
  shows "keeps (get_access_refund zk so q) (\<lambda>(_, so'). oracle_grown zk t so0 so')"
proof -
  have push: "keeps (apply_historic_record (time_delta_per_cycle zk) vec_apply (so_returned_io_refunds so) item (lq_timestamp q))
      (\<lambda>(_, io). oracle_grown zk t so0 (so\<lparr>so_returned_io_refunds := io\<rparr>))" for item
    by (rule keeps_mono [OF vec.apply_keeps_grown [OF oracle_grownD(7) [OF assms(1)] assms(2)]])
      (use assms(1) in \<open>auto simp: oracle_grown_def\<close>)
  show ?thesis
    unfolding get_access_refund_def by (auto intro!: keeps_mono [OF push])
qed

lemma frames_keeps:
  assumes "oracle_grown zk t so0 so" "t \<le> normalize_timestamp (time_delta_per_cycle zk) ts"
  shows "keeps (start_frame zk so ts) (oracle_grown zk t so0)"
    and "keeps (finish_frame zk so ts False) (oracle_grown zk t so0)"
  unfolding start_frame_def finish_frame_def if_False and_then_simps keeps_simps
  by (rule keeps_mono [OF adf_keeps(3) [OF oracle_grownD(3) [OF assms(1)] assms(2)]],
      rule keeps_mono [OF adf_keeps(3) [OF oracle_grownD(4) [OF assms(1)] assms(2)]],
      use assms(1) in \<open>simp add: oracle_grown_def\<close>,
      rule keeps_mono [OF adf_keeps(4) [OF oracle_grownD(3) [OF assms(1)] assms(2)]],
      rule keeps_mono [OF adf_keeps(4) [OF oracle_grownD(4) [OF assms(1)] assms(2)]],
      use assms(1) in \<open>simp add: oracle_grown_def\<close>)

lemma rollback_storage_writes_keeps:
  assumes "oracle_grown zk t so0 so" "t \<le> normalize_timestamp (time_delta_per_cycle zk) ts"
  shows "keeps (rollback_storage_writes zk ts qs so) (oracle_grown zk t so0)"
  using assms(1)
proof (induction qs arbitrary: so)
  case Nil
  then show ?case by simp
next
  case (Cons q qs)
  let ?d = "time_delta_per_cycle zk" and ?v = "lq_read_value (slq_log_query q)"
  {
    fix so' assume run: "rollback_storage_writes zk ts (q # qs) so = Inr so'" and w: "slq_log_type q \<noteq> ReadKind"
    from run w obtain v st p so1 x pc where steps:
      "write_to_storage ?d (zk_blake zk) (so_storage so) (slq_loc q) ?v ts = Inr (v, st)"
      "base_price_for_key_write zk (so\<lparr>so_storage := st\<rparr>) (slq_loc q) ?v = Inr (p, so1)"
      "apply_historic_record ?d map_apply (so_paid_changes so1) \<lparr>hme_key = slq_loc q, hme_value = Some p\<rparr> ts = Inr (x, pc)"
      "rollback_storage_writes zk ts qs (so1\<lparr>so_paid_changes := pc\<rparr>) = Inr so'"
      by (auto simp: Let_def)
    have "storage_grown (zk_blake zk) t (so_storage so0) st"
      using keepsD [OF write_to_storage_keeps [OF oracle_grownD(1) [OF Cons.prems] assms(2)] steps(1)] by simp
    with Cons.prems have "oracle_grown zk t so0 (so\<lparr>so_storage := st\<rparr>)" by (simp add: oracle_grown_def)
    then have so1: "oracle_grown zk t so0 so1" using keepsD [OF price_keeps steps(2)] by simp
    have "map_grown t (so_paid_changes so0) pc"
      using keepsD [OF hmap.apply_keeps_grown [OF oracle_grownD(5) [OF so1] assms(2)] steps(3)] by simp
    with so1 have "oracle_grown zk t so0 (so1\<lparr>so_paid_changes := pc\<rparr>)" by (simp add: oracle_grown_def)
    from keepsD [OF Cons.IH [OF this] steps(4)] have "oracle_grown zk t so0 so'" .
  }
  then show ?case
    using Cons.IH [OF Cons.prems]
    by (cases "slq_log_type q = ReadKind"; cases "rollback_storage_writes zk ts (q # qs) so") auto
qed

lemma rollback_transient_writes_keeps:
  assumes "oracle_grown zk t so0 so" "t \<le> normalize_timestamp (time_delta_per_cycle zk) ts"
  shows "keeps (rollback_transient_writes zk ts qs so) (oracle_grown zk t so0)"
  using assms(1)
proof (induction qs arbitrary: so)
  case (Cons q qs)
  have w: "keeps (transient_write_to_storage (time_delta_per_cycle zk) (so_transient_storage so) k v ts)
      (\<lambda>(_, r). oracle_grown zk t so0 (so\<lparr>so_transient_storage := r\<rparr>))" for k v
    unfolding transient_write_to_storage_def
    by (rule keeps_mono [OF transient.apply_keeps_grown [OF oracle_grownD(2) [OF Cons.prems] assms(2)]])
      (use Cons.prems in \<open>auto simp: oracle_grown_def\<close>)
  show ?case
  proof (cases "rq_rw_flag q")
    case True
    then show ?thesis by simp (rule keeps_mono [OF w], clarsimp, rule Cons.IH)
  qed (simp add: Cons)
qed simp

lemma revert_frame_keeps:
  assumes "oracle_grown zk t so0 so" "t \<le> normalize_timestamp (time_delta_per_cycle zk) ts"
  shows "keeps (revert_frame zk so ts) (oracle_grown zk t so0)"
proof -
  let ?d = "time_delta_per_cycle zk"
  {
    fix so' assume "revert_frame zk so ts = Inr so'"
    then obtain qs so1 fr tqs so3 tf where steps: "rollback_storage_writes zk ts (rev qs) so = Inr so1"
      "move_rollback_to_forward ?d (\<lambda>_. True) (so_storage_frames_stack so1) ts = Inr fr"
      "rollback_transient_writes zk ts (rev tqs) (so1\<lparr>so_storage_frames_stack := fr\<rparr>) = Inr so3"
      "move_rollback_to_forward ?d (\<lambda>_. True) (so_transient_storage_frames_stack so3) ts = Inr tf"
      "so' = so3\<lparr>so_transient_storage_frames_stack := tf\<rparr>"
      by (auto simp: revert_frame_def Let_def)
    have so1: "oracle_grown zk t so0 so1" by (rule keepsD [OF rollback_storage_writes_keeps [OF assms] steps(1)])
    with keepsD [OF move_rollback_keeps [OF oracle_grownD(3) [OF so1] assms(2)] steps(2)]
    have "oracle_grown zk t so0 (so1\<lparr>so_storage_frames_stack := fr\<rparr>)" by (simp add: oracle_grown_def)
    from keepsD [OF rollback_transient_writes_keeps [OF this assms(2)] steps(3)] have so3: "oracle_grown zk t so0 so3" .
    with keepsD [OF move_rollback_keeps [OF oracle_grownD(4) [OF so3] assms(2)] steps(4)] steps(5)
    have "oracle_grown zk t so0 so'" by (simp add: oracle_grown_def)
  }
  then show ?thesis by (cases "revert_frame zk so ts") auto
qed

lemma finish_frame_keeps:
  assumes "oracle_grown zk t so0 so" "t \<le> normalize_timestamp (time_delta_per_cycle zk) ts"
  shows "keeps (finish_frame zk so ts panicked) (oracle_grown zk t so0)"
proof -
  have "finish_frame zk so ts panicked =
      and_then (if panicked then revert_frame zk so ts else Inr so) (\<lambda>so1. finish_frame zk so1 ts False)"
    by (simp add: finish_frame_def)
  then show ?thesis
    using keeps_mono [OF revert_frame_keeps [OF assms] frames_keeps(2) [OF _ assms(2)]] frames_keeps(2) [OF assms] by auto
qed

lemma clear_transient_keeps:
  assumes "oracle_grown zk t so0 so" "t \<le> normalize_timestamp (time_delta_per_cycle zk) ts"
  shows "keeps (clear_transient zk ts es so) (oracle_grown zk t so0)"
  using assms(1)
proof (induction es arbitrary: so)
  case (Cons e es)
  obtain k v where e: "e = (k, v)" by (cases e)
  show ?case
    unfolding e clear_transient.simps keeps_simps
    by (rule keeps_mono [OF write_transient_keeps [OF Cons.prems]]) (use assms(2) Cons.IH in auto)
qed simp

lemma run_op_keeps:
  assumes "oracle_grown zk t so0 so" "t \<le> normalize_timestamp (time_delta_per_cycle zk) (op_time op)"
  shows "keeps (run_op zk op so) (\<lambda>(_, so'). oracle_grown zk t so0 so')"
  using assms
proof (cases op)
  case (OpQuery q)
  with assms show ?thesis using execute_keeps [of zk t so0 so q] by (auto elim!: keeps_mono)
next
  case (OpRefund q)
  with assms show ?thesis using access_refund_keeps [of zk t so0 so q] by (auto elim!: keeps_mono)
qed (simp_all add: frames_keeps finish_frame_keeps start_new_tx_def clear_transient_keeps)

lemma run_ops_keeps:
  assumes "oracle_grown zk t so0 so" "\<forall>op \<in> set ops. t \<le> normalize_timestamp (time_delta_per_cycle zk) (op_time op)"
  shows "keeps (run_ops zk ops so) (\<lambda>(_, so'). oracle_grown zk t so0 so')"
  using assms
proof (induction ops arbitrary: so)
  case (Cons op ops)
  show ?case
    unfolding run_ops.simps keeps_simps(4)
    by (rule keeps_mono [OF run_op_keeps [OF Cons.prems(1)]])
      (use Cons in \<open>auto intro!: keeps_mono [OF Cons.IH]\<close>)
qed simp

section \<open>Rollback\<close>

text \<open>The state of the oracle as its clients see it, histories included; of the storage, the contents.\<close>

definition same_recorder :: "('s \<Rightarrow> 's \<Rightarrow> bool) \<Rightarrow> ('s, 'r) history_recorder \<Rightarrow> ('s, 'r) history_recorder \<Rightarrow> bool" where
  "same_recorder same r1 r2 \<longleftrightarrow> hr_mode r1 = hr_mode r2 \<and> same (hr_inner r1) (hr_inner r2) \<and> hr_history r1 = hr_history r2"

definition same_oracle :: "zkevm \<Rightarrow> storage_oracle \<Rightarrow> storage_oracle \<Rightarrow> bool" where
  "same_oracle zk so1 so2 \<longleftrightarrow>
     same_recorder (same_storage (zk_blake zk)) (so_storage so1) (so_storage so2) \<and>
     same_recorder (\<lambda>m1 m2. transient_value m1 = transient_value m2) (so_transient_storage so1) (so_transient_storage so2) \<and>
     so_storage_frames_stack so1 = so_storage_frames_stack so2 \<and>
     so_transient_storage_frames_stack so1 = so_transient_storage_frames_stack so2 \<and>
     so_paid_changes so1 = so_paid_changes so2 \<and> so_initial_values so1 = so_initial_values so2 \<and>
     so_returned_io_refunds so1 = so_returned_io_refunds so2 \<and>
     so_returned_pubdata_costs so1 = so_returned_pubdata_costs so2 \<and>
     so_written_storage_keys so1 = so_written_storage_keys so2 \<and> so_read_storage_keys so1 = so_read_storage_keys so2"

definition oracle_settled :: "timestamp \<Rightarrow> storage_oracle \<Rightarrow> bool" where
  "oracle_settled t so \<longleftrightarrow> settled_before t (so_storage so) \<and> settled_before t (so_transient_storage so) \<and>
     settled_before t (adf_forward (so_storage_frames_stack so)) \<and> settled_before t (adf_rollback (so_storage_frames_stack so)) \<and>
     settled_before t (adf_forward (so_transient_storage_frames_stack so)) \<and>
     settled_before t (adf_rollback (so_transient_storage_frames_stack so)) \<and>
     settled_before t (so_paid_changes so) \<and> settled_before t (so_initial_values so) \<and>
     settled_before t (so_returned_io_refunds so) \<and> settled_before t (so_returned_pubdata_costs so) \<and>
     settled_before t (so_written_storage_keys so) \<and> settled_before t (so_read_storage_keys so)"

definition journalled :: "zkevm \<Rightarrow> storage_oracle \<Rightarrow> bool" where
  "journalled zk so \<longleftrightarrow> cache_coherent (zk_blake zk) (hr_inner (so_storage so)) \<and>
     hr_mode (so_storage so) = HistoryEnabled \<and> hr_mode (so_transient_storage so) = HistoryEnabled \<and>
     hr_mode (adf_forward (so_storage_frames_stack so)) = HistoryEnabled \<and>
     hr_mode (adf_rollback (so_storage_frames_stack so)) = HistoryEnabled \<and>
     hr_mode (adf_forward (so_transient_storage_frames_stack so)) = HistoryEnabled \<and>
     hr_mode (adf_rollback (so_transient_storage_frames_stack so)) = HistoryEnabled \<and>
     hr_mode (so_paid_changes so) = HistoryEnabled \<and> hr_mode (so_initial_values so) = HistoryEnabled \<and>
     hr_mode (so_returned_io_refunds so) = HistoryEnabled \<and> hr_mode (so_returned_pubdata_costs so) = HistoryEnabled \<and>
     hr_mode (so_written_storage_keys so) = HistoryEnabled \<and> hr_mode (so_read_storage_keys so) = HistoryEnabled"

lemma journalled_grown: "journalled zk so \<Longrightarrow> oracle_grown zk t so so"
  by (simp add: journalled_def oracle_grown_def adf_grown_def storage.grown_refl transient.grown_refl framed.grown_refl
      hmap.grown_refl vec.grown_refl)

text \<open>Where the observed equality is equality, a rollback gives back the very recorder.\<close>

lemma rollback_exact:
  assumes "\<exists>s. rollback_to_timestamp ap rec' t = Inr (rec'\<lparr>hr_inner := s, hr_history := hr_history rec\<rparr>) \<and> s = hr_inner rec"
    and "hr_mode rec' = hr_mode rec"
  shows "rollback_to_timestamp ap rec' t = Inr rec"
  using assms by (cases rec; cases rec') auto

lemma grown_mode: "grown_since ap same valid t rec rec' \<Longrightarrow> hr_mode rec' = hr_mode rec"
  by (simp add: grown_since_def)

lemma exact_rollbacks:
  "settled_before t r1 \<Longrightarrow> framed_grown t r1 r1' \<Longrightarrow> rollback_to_timestamp framed_apply r1' t = Inr r1"
  "settled_before t r2 \<Longrightarrow> map_grown t r2 r2' \<Longrightarrow> rollback_to_timestamp map_apply r2' t = Inr r2"
  "settled_before t r3 \<Longrightarrow> vec_grown t r3 r3' \<Longrightarrow> rollback_to_timestamp vec_apply r3' t = Inr r3"
  by (rule rollback_exact [OF framed.rollback_restores grown_mode], assumption, assumption, assumption,
      rule rollback_exact [OF hmap.rollback_restores grown_mode], assumption, assumption, assumption,
      rule rollback_exact [OF vec.rollback_restores grown_mode], assumption, assumption, assumption)

lemma adf_rollback_exact:
  "settled_before t (adf_forward m) \<Longrightarrow> settled_before t (adf_rollback m) \<Longrightarrow> adf_grown t m m' \<Longrightarrow>
   adf_rollback_to_timestamp m' t = Inr m"
  by (simp add: adf_rollback_to_timestamp_def on_both_def adf_grown_def exact_rollbacks)

text \<open>
  Rolling the storage oracle back to a timestamp undoes everything since: after any sequence of queries, frame starts
  and ends, reverts and transaction starts whose cycle times are not before \<open>t\<close>, on an oracle that keeps history and
  whose recorded events are all older than \<open>t\<close>, \<open>rollback_to_timestamp\<close> succeeds and gives back the storage
  contents, the frames, the prices paid, the access lists and the histories as they were before the sequence.
\<close>

theorem oracle_rollback_restores:
  assumes "journalled zk so" "oracle_settled t so"
    and "\<forall>op \<in> set ops. t \<le> normalize_timestamp (time_delta_per_cycle zk) (op_time op)"
    and "run_ops zk ops so = Inr (answers, so')"
  shows "\<exists>so''. oracle_rollback_to_timestamp zk so' t = Inr so'' \<and> same_oracle zk so'' so"
proof -
  have g: "oracle_grown zk t so so'"
    using keepsD [OF run_ops_keeps [OF journalled_grown [OF assms(1)] assms(3)] assms(4)] by simp
  note d = oracle_grownD [OF g] and s = assms(2) [unfolded oracle_settled_def]
  obtain st where st: "rollback_to_timestamp (storage_apply (zk_blake zk)) (so_storage so') t = Inr st"
    "same_recorder (same_storage (zk_blake zk)) st (so_storage so)"
    using storage.rollback_restores [OF _ d(1)] s grown_mode [OF d(1)] by (auto simp: same_recorder_def)
  obtain tst where tst: "rollback_to_timestamp transient_apply (so_transient_storage so') t = Inr tst"
    "same_recorder (\<lambda>m1 m2. transient_value m1 = transient_value m2) tst (so_transient_storage so)"
    using transient.rollback_restores [OF _ d(2)] s grown_mode [OF d(2)] by (auto simp: same_recorder_def)
  note frames = adf_rollback_exact [OF _ _ d(3)] adf_rollback_exact [OF _ _ d(4)]
    and maps = exact_rollbacks(2) [OF _ d(5)] exact_rollbacks(2) [OF _ d(6)] exact_rollbacks(2) [OF _ d(9)] exact_rollbacks(2) [OF _ d(10)]
    and vecs = exact_rollbacks(3) [OF _ d(7)] exact_rollbacks(3) [OF _ d(8)]
  show ?thesis
    using st tst s by (simp add: oracle_rollback_to_timestamp_def same_oracle_def frames maps vecs)
qed

end
