(* ===== verification/Vm_Memory.thy ===== *)
theory Vm_Memory
  imports History_Recorder
begin

text \<open>
  The memory of the legacy VM: \<open>MemoryPage\<close> and \<open>MemoryWrapper\<close> of \<open>old_vm/history_recorder.rs\<close> (pages stored as lazily
  allocated leaves of 64 slots), \<open>SimpleMemory\<close> of \<open>old_vm/memory.rs\<close> (queries, call frames with their observable pages,
  unaligned reads) and the dump helpers of \<open>old_vm/utils.rs\<close>.

  \<open>PrimitiveValue::empty()\<close> of \<open>zk_evm\<close> is the parameter \<open>e\<close>; two memories are compared by the \<open>PartialEq\<close> of the code.
\<close>

section \<open>Pages\<close>

record primitive_value =
  pv_value :: u256
  pv_is_pointer :: bool

definition PAGE_SUBDIVISION_LEN :: nat where "PAGE_SUBDIVISION_LEN = 64"

type_synonym memory_page = "primitive_value list option list"

definition page_leaf :: "memory_page \<Rightarrow> nat \<Rightarrow> primitive_value list option" where
  "page_leaf root i = (if i < length root then root ! i else None)"

definition page_get :: "primitive_value \<Rightarrow> memory_page \<Rightarrow> nat \<Rightarrow> primitive_value" where
  "page_get e root sl =
     (case page_leaf root (sl div PAGE_SUBDIVISION_LEN) of
        Some leaf \<Rightarrow> leaf ! (sl mod PAGE_SUBDIVISION_LEN) | None \<Rightarrow> e)"

definition page_set :: "primitive_value \<Rightarrow> memory_page \<Rightarrow> nat \<Rightarrow> primitive_value \<Rightarrow> memory_page \<times> primitive_value" where
  "page_set e root sl v =
     (let root_index = sl div PAGE_SUBDIVISION_LEN; leaf_ix = sl mod PAGE_SUBDIVISION_LEN;
          root' = (if length root \<le> root_index then root @ replicate (root_index + 1 - length root) None else root)
      in case root' ! root_index of
           Some leaf \<Rightarrow> (root'[root_index := Some (leaf[leaf_ix := v])], leaf ! leaf_ix)
         | None \<Rightarrow> (root'[root_index := Some ((replicate PAGE_SUBDIVISION_LEN e)[leaf_ix := v])], e))"

definition page_eq :: "primitive_value \<Rightarrow> memory_page \<Rightarrow> memory_page \<Rightarrow> bool" where
  "page_eq e p1 p2 \<longleftrightarrow>
     list_all (\<lambda>sl. page_get e p1 sl = page_get e p2 sl) [0..<max (length p1) (length p2) * PAGE_SUBDIVISION_LEN]"

section \<open>Memory\<close>

type_synonym memory_wrapper = "memory_page list"

record memory_history_record =
  mhr_page :: nat
  mhr_slot :: nat
  mhr_set_value :: primitive_value

definition page_or_empty :: "memory_wrapper \<Rightarrow> nat \<Rightarrow> memory_page" where
  "page_or_empty m i = (if i < length m then m ! i else [])"

definition memory_eq :: "primitive_value \<Rightarrow> memory_wrapper \<Rightarrow> memory_wrapper \<Rightarrow> bool" where
  "memory_eq e m1 m2 \<longleftrightarrow>
     list_all (\<lambda>i. page_eq e (page_or_empty m1 i) (page_or_empty m2 i)) [0..<max (length m1) (length m2)]"

definition ensure_page_exists :: "memory_wrapper \<Rightarrow> nat \<Rightarrow> memory_wrapper" where
  "ensure_page_exists m page = (if length m \<le> page then m @ replicate (page + 1 - length m) [] else m)"

definition read_slot :: "primitive_value \<Rightarrow> memory_wrapper \<Rightarrow> nat \<Rightarrow> nat \<Rightarrow> primitive_value" where
  "read_slot e m page sl = (if page < length m then page_get e (m ! page) sl else e)"

definition wrapper_dump_page_content :: "primitive_value \<Rightarrow> memory_wrapper \<Rightarrow> u32 \<Rightarrow> nat list \<Rightarrow> primitive_value list" where
  "wrapper_dump_page_content e m page_number rng =
     (if unat page_number < length m then map (page_get e (m ! unat page_number)) rng else map (\<lambda>_. e) rng)"

definition memory_apply :: "primitive_value \<Rightarrow> (memory_wrapper, memory_history_record, primitive_value) apply_fn" where
  "memory_apply e m item =
     (let m' = ensure_page_exists m (mhr_page item);
          (page', prev_value) = page_set e (m' ! mhr_page item) (mhr_slot item) (mhr_set_value item)
      in Inr (m'[mhr_page item := page'],
              \<lparr>mhr_page = mhr_page item, mhr_slot = mhr_slot item, mhr_set_value = prev_value\<rparr>, prev_value))"

type_synonym memory_recorder = "(memory_wrapper, memory_history_record) history_recorder"

definition write_to_memory ::
  "u32 \<Rightarrow> primitive_value \<Rightarrow> memory_recorder \<Rightarrow> nat \<Rightarrow> nat \<Rightarrow> primitive_value \<Rightarrow> timestamp \<Rightarrow> (primitive_value \<times> memory_recorder) res" where
  "write_to_memory delta e rec page sl v ts =
     apply_historic_record delta (memory_apply e) rec \<lparr>mhr_page = page, mhr_slot = sl, mhr_set_value = v\<rparr> ts"

text \<open>The events of a cleared page: one per slot that is not empty, at the raw timestamp.\<close>

definition clear_page_events :: "primitive_value \<Rightarrow> memory_page \<Rightarrow> nat \<Rightarrow> timestamp \<Rightarrow> (timestamp \<times> memory_history_record) list" where
  "clear_page_events e root page ts =
     concat (map (\<lambda>(i, x). case x of None \<Rightarrow> [] | Some slots \<Rightarrow>
       concat (map (\<lambda>(j, v). if v \<noteq> e
           then [(ts, \<lparr>mhr_page = page, mhr_slot = PAGE_SUBDIVISION_LEN * i + j, mhr_set_value = v\<rparr>)] else [])
         (enumerate 0 slots))) (enumerate 0 root))"

definition clear_page :: "primitive_value \<Rightarrow> memory_recorder \<Rightarrow> nat \<Rightarrow> timestamp \<Rightarrow> memory_recorder res" where
  "clear_page e rec page ts =
     mutate_history rec (\<lambda>inner history.
       if page < length inner then Inr (inner[page := []], history @ clear_page_events e (inner ! page) page ts)
       else Inr (inner, history))"

section \<open>Reads after writes\<close>

definition wf_page :: "memory_page \<Rightarrow> bool" where
  "wf_page root \<longleftrightarrow> (\<forall>leaf. Some leaf \<in> set root \<longrightarrow> length leaf = PAGE_SUBDIVISION_LEN)"

definition wf_memory :: "memory_wrapper \<Rightarrow> bool" where
  "wf_memory m \<longleftrightarrow> (\<forall>p \<in> set m. wf_page p)"

lemma wf_page_Nil [simp]: "wf_page []"
  by (simp add: wf_page_def)

lemma page_get_Nil [simp]: "page_get e [] sl = e"
  by (simp add: page_get_def page_leaf_def)

lemma wf_memory_nth: "wf_memory m \<Longrightarrow> i < length m \<Longrightarrow> wf_page (m ! i)"
  by (simp add: wf_memory_def)

lemma page_eq_iff: "page_eq e p1 p2 \<longleftrightarrow> page_get e p1 = page_get e p2"
proof
  assume eq: "page_eq e p1 p2"
  show "page_get e p1 = page_get e p2"
  proof
    fix sl
    show "page_get e p1 sl = page_get e p2 sl"
    proof (cases "sl < max (length p1) (length p2) * PAGE_SUBDIVISION_LEN")
      case True
      then show ?thesis using eq by (simp add: page_eq_def list_all_iff)
    next
      case False
      then have "max (length p1) (length p2) \<le> sl div PAGE_SUBDIVISION_LEN"
        by (simp add: PAGE_SUBDIVISION_LEN_def less_eq_div_iff_mult_less_eq max_def split: if_splits)
      then show ?thesis by (simp add: page_get_def page_leaf_def)
    qed
  qed
qed (simp add: page_eq_def list_all_iff)

lemma read_slot_page: "read_slot e m p = page_get e (page_or_empty m p)"
  by (auto simp: read_slot_def page_or_empty_def fun_eq_iff)

lemma memory_eq_iff: "memory_eq e m1 m2 \<longleftrightarrow> read_slot e m1 = read_slot e m2"
proof
  assume eq: "memory_eq e m1 m2"
  show "read_slot e m1 = read_slot e m2"
  proof
    fix p
    show "read_slot e m1 p = read_slot e m2 p"
    proof (cases "p < max (length m1) (length m2)")
      case True
      then show ?thesis using eq by (simp add: memory_eq_def list_all_iff page_eq_iff read_slot_page)
    qed (auto simp: read_slot_page page_or_empty_def)
  qed
qed (simp add: memory_eq_def list_all_iff page_eq_iff read_slot_page [symmetric])

lemma page_set_correct:
  assumes "wf_page root" "page_set e root sl v = (root', prev)"
  shows "page_get e root' = (page_get e root)(sl := v)" "prev = page_get e root sl" "wf_page root'"
proof -
  let ?i = "sl div PAGE_SUBDIVISION_LEN" and ?j = "sl mod PAGE_SUBDIVISION_LEN"
  define r where "r = (if length root \<le> ?i then root @ replicate (?i + 1 - length root) None else root)"
  have len: "?i < length r" by (simp add: r_def)
  have leaf: "page_leaf r k = page_leaf root k" for k by (auto simp: page_leaf_def r_def nth_append)
  have ri: "r ! ?i = page_leaf root ?i" using leaf [of ?i] len by (simp add: page_leaf_def)
  have wf: "wf_page r" using assms(1) by (auto simp: wf_page_def r_def)
  have j: "?j < PAGE_SUBDIVISION_LEN" by (simp add: PAGE_SUBDIVISION_LEN_def)
  have split: "sl' = sl \<longleftrightarrow> sl' div PAGE_SUBDIVISION_LEN = ?i \<and> sl' mod PAGE_SUBDIVISION_LEN = ?j" for sl'
    by (metis div_mult_mod_eq)
  define old where "old = (case page_leaf root ?i of Some l \<Rightarrow> l | None \<Rightarrow> replicate PAGE_SUBDIVISION_LEN e)"
  have old: "length old = PAGE_SUBDIVISION_LEN"
    using wf len ri by (cases "page_leaf root ?i") (auto simp: old_def wf_page_def dest: nth_mem)
  have res: "root' = r[?i := Some (old[?j := v])]" "prev = old ! ?j"
    using assms(2) ri j by (auto simp: page_set_def Let_def r_def [symmetric] old_def split: option.splits)
  have get: "page_get e root sl' = (if sl' div PAGE_SUBDIVISION_LEN = ?i then old ! (sl' mod PAGE_SUBDIVISION_LEN)
      else page_get e root sl')" for sl'
    by (auto simp: page_get_def old_def PAGE_SUBDIVISION_LEN_def split: option.splits)
  show "prev = page_get e root sl" using get [of sl] res(2) by simp
  have leaf': "page_leaf root' k = (if k = ?i then Some (old[?j := v]) else page_leaf root k)" for k
    using leaf [of k] len by (auto simp: res(1) page_leaf_def nth_list_update)
  show "page_get e root' = (page_get e root)(sl := v)"
  proof
    fix sl'
    show "page_get e root' sl' = ((page_get e root)(sl := v)) sl'"
    proof (cases "sl' div PAGE_SUBDIVISION_LEN = ?i")
      case True
      have "sl' mod PAGE_SUBDIVISION_LEN < length old" by (simp add: old PAGE_SUBDIVISION_LEN_def)
      with True have "page_get e root' sl' = (if sl' mod PAGE_SUBDIVISION_LEN = ?j then v else old ! (sl' mod PAGE_SUBDIVISION_LEN))"
        by (simp add: page_get_def leaf' nth_list_update)
      then show ?thesis using get [of sl'] split [of sl'] True by simp
    next
      case False
      then have "page_get e root' sl' = page_get e root sl'" by (simp add: page_get_def leaf')
      with False show ?thesis by auto
    qed
  qed
  show "wf_page root'"
    using wf old by (auto simp: res(1) wf_page_def dest!: subsetD [OF set_update_subset_insert])
qed

lemma memory_apply_correct:
  assumes "wf_memory m" "memory_apply e m item = Inr (m', u, v)"
  shows "read_slot e m' = (read_slot e m)(mhr_page item := (read_slot e m (mhr_page item))(mhr_slot item := mhr_set_value item))"
    and "v = read_slot e m (mhr_page item) (mhr_slot item)"
    and "u = \<lparr>mhr_page = mhr_page item, mhr_slot = mhr_slot item, mhr_set_value = v\<rparr>" "wf_memory m'"
proof -
  define m1 where "m1 = ensure_page_exists m (mhr_page item)"
  have len: "mhr_page item < length m1" by (simp add: m1_def ensure_page_exists_def)
  have wf: "wf_memory m1" using assms(1) by (auto simp: m1_def ensure_page_exists_def wf_memory_def)
  have rd: "read_slot e m1 = read_slot e m"
    by (auto simp: m1_def ensure_page_exists_def read_slot_def nth_append fun_eq_iff)
  obtain page' where ps: "page_set e (m1 ! mhr_page item) (mhr_slot item) (mhr_set_value item) = (page', v)"
    and res: "m' = m1[mhr_page item := page']" "u = \<lparr>mhr_page = mhr_page item, mhr_slot = mhr_slot item, mhr_set_value = v\<rparr>"
    using assms(2) by (auto simp: memory_apply_def Let_def m1_def [symmetric] split: prod.splits)
  note c = page_set_correct [OF wf_memory_nth [OF wf len] ps]
  have page: "read_slot e m (mhr_page item) = page_get e (m1 ! mhr_page item)"
    using len by (simp add: rd [symmetric] read_slot_def fun_eq_iff)
  show "v = read_slot e m (mhr_page item) (mhr_slot item)" using c(2) by (simp add: page)
  show "u = \<lparr>mhr_page = mhr_page item, mhr_slot = mhr_slot item, mhr_set_value = v\<rparr>" by (rule res(2))
  show "wf_memory m'"
    using wf c(3) by (auto simp: res(1) wf_memory_def dest!: subsetD [OF set_update_subset_insert])
  show "read_slot e m' = (read_slot e m)(mhr_page item := (read_slot e m (mhr_page item))(mhr_slot item := mhr_set_value item))"
  proof
    fix p
    have "read_slot e m' p = (if p = mhr_page item then page_get e page' else read_slot e m1 p)"
      using len by (auto simp: res(1) read_slot_def fun_eq_iff)
    then show "read_slot e m' p = ((read_slot e m)(mhr_page item := (read_slot e m (mhr_page item))(mhr_slot item := mhr_set_value item))) p"
      unfolding rd c(1) page by simp
  qed
qed

lemma memory_apply_total: "\<exists>m' u v. memory_apply e m item = Inr (m', u, v)"
  by (simp add: memory_apply_def Let_def split: prod.splits)

interpretation memory: with_history "memory_apply e" "memory_eq e" wf_memory for e
proof
  fix s r s' u v assume s: "wf_memory s" and a: "memory_apply e s r = Inr (s', u, v)"
  note c = memory_apply_correct [OF s a]
  show "wf_memory s'" by (rule c(4))
  obtain s'' r' w where b: "memory_apply e s' u = Inr (s'', r', w)" using memory_apply_total by blast
  have "memory_eq e s'' s"
    unfolding memory_eq_iff memory_apply_correct(1) [OF c(4) b] c(1,3) by (simp add: c(2))
  with b show "\<exists>s'' r' w. memory_apply e s' u = Inr (s'', r', w) \<and> memory_eq e s'' s" by blast
next
  fix s1 s2 r s1' u v
  assume s: "wf_memory s1" "wf_memory s2" "memory_eq e s1 s2" and a: "memory_apply e s1 r = Inr (s1', u, v)"
  obtain s2' u2 v2 where b: "memory_apply e s2 r = Inr (s2', u2, v2)" using memory_apply_total by blast
  note c = memory_apply_correct [OF s(1) a] and d = memory_apply_correct [OF s(2) b]
  show "\<exists>s2'. memory_apply e s2 r = Inr (s2', u, v) \<and> memory_eq e s1' s2'"
    using b c d s(3) by (simp add: memory_eq_iff)
qed (auto simp: memory_eq_iff)

section \<open>Clearing a page can be undone\<close>

lemma clear_page_events_sound:
  assumes "wf_page root" "(t', r) \<in> set (clear_page_events e root page ts)"
  shows "t' = ts \<and> mhr_page r = page \<and> mhr_set_value r = page_get e root (mhr_slot r)"
proof -
  from assms(2) obtain i slots j v where ev: "(i, Some slots) \<in> set (enumerate 0 root)" "(j, v) \<in> set (enumerate 0 slots)"
    "t' = ts" "r = \<lparr>mhr_page = page, mhr_slot = PAGE_SUBDIVISION_LEN * i + j, mhr_set_value = v\<rparr>"
    by (auto simp: clear_page_events_def split: option.splits if_splits)
  then have "i < length root" "root ! i = Some slots" "j < length slots" "slots ! j = v"
    by (auto simp: in_set_enumerate_eq)
  moreover from this have "length slots = PAGE_SUBDIVISION_LEN" using assms(1) by (metis nth_mem wf_page_def)
  ultimately have "page_get e root (PAGE_SUBDIVISION_LEN * i + j) = v"
    by (simp add: page_get_def page_leaf_def PAGE_SUBDIVISION_LEN_def)
  with ev show ?thesis by simp
qed

lemma clear_page_eventsI:
  assumes "(i, Some slots) \<in> set (enumerate 0 root)" "(j, v) \<in> set (enumerate 0 slots)" "v \<noteq> e"
  shows "(ts, \<lparr>mhr_page = page, mhr_slot = PAGE_SUBDIVISION_LEN * i + j, mhr_set_value = v\<rparr>) \<in> set (clear_page_events e root page ts)"
  unfolding clear_page_events_def set_concat set_map image_image
  by (rule UN_I [OF assms(1)], simp only: prod.case option.case set_concat set_map image_image,
      rule UN_I [OF assms(2)], simp add: assms(3))

lemma clear_page_events_complete:
  assumes "wf_page root" "page_get e root sl \<noteq> e"
  shows "\<exists>r. (ts, r) \<in> set (clear_page_events e root page ts) \<and> mhr_slot r = sl"
proof -
  let ?i = "sl div PAGE_SUBDIVISION_LEN" and ?j = "sl mod PAGE_SUBDIVISION_LEN"
  obtain slots where leaf: "?i < length root" "root ! ?i = Some slots"
    using assms(2) by (auto simp: page_get_def page_leaf_def split: option.splits if_splits)
  then have "length slots = PAGE_SUBDIVISION_LEN" using assms(1) by (metis nth_mem wf_page_def)
  then have j: "?j < length slots" by (simp add: PAGE_SUBDIVISION_LEN_def)
  have v: "slots ! ?j = page_get e root sl" using leaf by (simp add: page_get_def page_leaf_def)
  let ?r = "\<lparr>mhr_page = page, mhr_slot = sl, mhr_set_value = slots ! ?j\<rparr>"
  have "(?i, Some slots) \<in> set (enumerate 0 root)" "(?j, slots ! ?j) \<in> set (enumerate 0 slots)"
    using leaf j by (auto simp: in_set_enumerate_eq)
  moreover have "PAGE_SUBDIVISION_LEN * ?i + ?j = sl" by simp
  ultimately have "(ts, ?r) \<in> set (clear_page_events e root page ts)"
    using clear_page_eventsI [of ?i slots root ?j "slots ! ?j" e ts page] assms(2) v by simp
  then show ?thesis by (intro exI [of _ ?r]) simp
qed

lemma undo_page_writes:
  assumes "wf_memory m" "\<forall>(t', r) \<in> set h. t \<le> t' \<and> mhr_page r = page \<and> mhr_set_value r = f (mhr_slot r)"
  shows "\<exists>m'. rollback_loop (memory_apply e) m h t = Inr (m', []) \<and>
    read_slot e m' = (read_slot e m)(page := (\<lambda>sl. if sl \<in> (mhr_slot \<circ> snd) ` set h then f sl else read_slot e m page sl))"
  using assms
proof (induction h arbitrary: m rule: rev_induct)
  case Nil
  then show ?case by (simp add: rollback_loop_stop)
next
  case (snoc x h)
  obtain t' r where x: "x = (t', r)" by (cases x)
  have r: "t \<le> t'" "mhr_page r = page" "mhr_set_value r = f (mhr_slot r)" using snoc.prems(2) by (auto simp: x)
  obtain m1 u v where m1: "memory_apply e m r = Inr (m1, u, v)" using memory_apply_total by blast
  note c = memory_apply_correct [OF snoc.prems(1) m1]
  have "\<forall>(t', r) \<in> set h. t \<le> t' \<and> mhr_page r = page \<and> mhr_set_value r = f (mhr_slot r)"
    using snoc.prems(2) by auto
  from snoc.IH [OF c(4) this]
  obtain m' where m': "rollback_loop (memory_apply e) m1 h t = Inr (m', [])"
    "read_slot e m' = (read_slot e m1)(page := (\<lambda>sl. if sl \<in> (mhr_slot \<circ> snd) ` set h then f sl else read_slot e m1 page sl))"
    by blast
  have rd: "read_slot e m' = (read_slot e m)(page := (\<lambda>sl. if sl \<in> (mhr_slot \<circ> snd) ` set (h @ [x]) then f sl else read_slot e m page sl))"
    unfolding m'(2) c(1) using r by (auto simp: x fun_eq_iff)
  have "rollback_loop (memory_apply e) m (h @ [x]) t = Inr (m', [])"
    using r(1) m1 m'(1) by (simp add: x rollback_loop_snoc)
  with rd show ?case by blast
qed

abbreviation memory_grown :: "primitive_value \<Rightarrow> timestamp \<Rightarrow> memory_recorder \<Rightarrow> memory_recorder \<Rightarrow> bool" where
  "memory_grown e \<equiv> grown_since (memory_apply e) (memory_eq e) wf_memory"

lemma clear_page_keeps:
  assumes "memory_grown e t r0 rec" "t \<le> ts"
  shows "keeps (clear_page e rec page ts) (memory_grown e t r0)"
proof -
  let ?m = "hr_inner rec" and ?ev = "clear_page_events e (hr_inner rec ! page) page ts"
  have rec: "hr_mode rec = HistoryEnabled" "wf_memory ?m" using assms(1) by (auto simp: grown_since_def)
  show ?thesis
  proof (cases "page < length ?m")
    case True
    let ?m' = "?m[page := []]"
    have wf: "wf_page (?m ! page)" "wf_memory ?m'"
      using rec(2) True by (auto simp: wf_memory_nth wf_memory_def dest!: subsetD [OF set_update_subset_insert])
    have ev: "\<forall>(t', r) \<in> set ?ev. t \<le> t' \<and> mhr_page r = page \<and> mhr_set_value r = page_get e (?m ! page) (mhr_slot r)"
      using clear_page_events_sound [OF wf(1)] assms(2) by fastforce
    obtain m'' where m'': "rollback_loop (memory_apply e) ?m' ?ev t = Inr (m'', [])"
      "read_slot e m'' = (read_slot e ?m')(page := (\<lambda>sl. if sl \<in> (mhr_slot \<circ> snd) ` set ?ev then page_get e (?m ! page) sl
         else read_slot e ?m' page sl))"
      using undo_page_writes [OF wf(2) ev] by blast
    have empty: "page_get e (?m ! page) sl = e" if "sl \<notin> (mhr_slot \<circ> snd) ` set ?ev" for sl
      using clear_page_events_complete [OF wf(1), of e sl ts page] that by force
    have "memory_eq e m'' ?m"
      unfolding memory_eq_iff m''(2) using True empty by (auto simp: read_slot_def fun_eq_iff nth_list_update)
    then have "memory_grown e t rec (rec\<lparr>hr_inner := ?m', hr_history := hr_history rec @ ?ev\<rparr>)"
      unfolding grown_since_def using rec wf(2) m''(1) ev by (auto intro!: exI [of _ ?ev])
    then show ?thesis
      using True rec(1) memory.grown_trans [OF assms(1)] by (simp add: clear_page_def mutate_history_def)
  qed (use rec assms(1) in \<open>simp add: clear_page_def mutate_history_def\<close>)
qed

section \<open>The memory of the VM\<close>

datatype memory_type = Stack | Heap | AuxHeap | FatPointerMemory | Code | StaticMemory

record memory_query =
  mq_timestamp :: timestamp
  mq_memory_type :: memory_type
  mq_page :: u32
  mq_index :: u32
  mq_value :: u256
  mq_value_is_pointer :: bool
  mq_rw_flag :: bool

record simple_memory =
  sm_memory :: memory_recorder
  sm_observable_pages :: "u32 framed_recorder"

definition simple_memory_default :: "history_mode \<Rightarrow> simple_memory" where
  "simple_memory_default mode = \<lparr>sm_memory = from_inner mode [], sm_observable_pages = from_inner mode framed_stack_default\<rparr>"

definition memory_rollback_to_timestamp :: "primitive_value \<Rightarrow> simple_memory \<Rightarrow> timestamp \<Rightarrow> simple_memory res" where
  "memory_rollback_to_timestamp e sm t =
     and_then (rollback_to_timestamp (memory_apply e) (sm_memory sm) t) (\<lambda>m.
     map_res (\<lambda>p. \<lparr>sm_memory = m, sm_observable_pages = p\<rparr>)
       (rollback_to_timestamp framed_apply (sm_observable_pages sm) t))"

definition memory_write :: "u32 \<Rightarrow> primitive_value \<Rightarrow> simple_memory \<Rightarrow> nat \<Rightarrow> nat \<Rightarrow> primitive_value \<Rightarrow> timestamp \<Rightarrow> simple_memory res" where
  "memory_write delta e sm page sl v ts =
     map_res (\<lambda>(_, m). sm\<lparr>sm_memory := m\<rparr>) (write_to_memory delta e (sm_memory sm) page sl v ts)"

fun populate_page :: "u32 \<Rightarrow> primitive_value \<Rightarrow> simple_memory \<Rightarrow> nat \<Rightarrow> (nat \<times> u256) list \<Rightarrow> timestamp \<Rightarrow> simple_memory res" where
  "populate_page delta e sm page [] ts = Inr sm"
| "populate_page delta e sm page ((offset, v) # es) ts =
     and_then (memory_write delta e sm page offset \<lparr>pv_value = v, pv_is_pointer = False\<rparr> ts) (\<lambda>sm'.
       populate_page delta e sm' page es ts)"

fun populate :: "u32 \<Rightarrow> primitive_value \<Rightarrow> simple_memory \<Rightarrow> (u32 \<times> u256 list) list \<Rightarrow> timestamp \<Rightarrow> simple_memory res" where
  "populate delta e sm [] ts = Inr sm"
| "populate delta e sm ((page, vs) # es) ts =
     and_then (populate_page delta e sm (unat page) (enumerate 0 vs) ts) (\<lambda>sm'. populate delta e sm' es ts)"

definition dump_page_content_as_u256_words :: "primitive_value \<Rightarrow> simple_memory \<Rightarrow> u32 \<Rightarrow> nat list \<Rightarrow> u256 list" where
  "dump_page_content_as_u256_words e sm page rng = map pv_value (wrapper_dump_page_content e (hr_inner (sm_memory sm)) page rng)"

definition sm_read_slot :: "primitive_value \<Rightarrow> simple_memory \<Rightarrow> nat \<Rightarrow> nat \<Rightarrow> primitive_value" where
  "sm_read_slot e sm page sl = read_slot e (hr_inner (sm_memory sm)) page sl"

text \<open>
  Reading bytes at any offset. Offsets and lengths are \<open>usize\<close> values of a 64-bit host, whose sums and products wrap in a release
  build; the loop over the words is partial, as it need not end.
\<close>

definition extract_needed_bytes_from_word :: "u8 list \<Rightarrow> u64 \<Rightarrow> u64 \<Rightarrow> u64 \<Rightarrow> u8 list" where
  "extract_needed_bytes_from_word word_value word_number start last_byte =
     (let word_start = word_number * 32; word_end = word_start + 31;
          intersection_left = max word_start start; intersection_right = min word_end last_byte
      in if intersection_right < intersection_left then []
         else let start_bytes = intersection_left - word_start; to_take = intersection_right - intersection_left + 1
              in take (unat to_take) (drop (unat start_bytes) word_value))"

partial_function (option) read_words ::
  "primitive_value \<Rightarrow> simple_memory \<Rightarrow> nat \<Rightarrow> u64 \<Rightarrow> u64 \<Rightarrow> u64 \<Rightarrow> u8 list \<Rightarrow> u8 list option" where
  "read_words e sm page start last_byte current_word result =
     (if current_word * 32 \<le> last_byte
      then read_words e sm page start last_byte (current_word + 1)
             (result @ extract_needed_bytes_from_word (be_bytes 32 (pv_value (sm_read_slot e sm page (unat current_word))))
                current_word start last_byte)
      else Some result)"

definition read_unaligned_bytes :: "primitive_value \<Rightarrow> simple_memory \<Rightarrow> nat \<Rightarrow> u64 \<Rightarrow> u64 \<Rightarrow> u8 list res option" where
  "read_unaligned_bytes e sm page start len =
     (if len = 0 then Some (Inr [])
      else map_option (\<lambda>result. ensure (length result = unat len)
             (Panic (PanicMsg ''assertion failed: result.len() == length'')) (Inr result))
        (read_words e sm page start (start + len - 1) (start div 32) []))"

definition memory_delete_history :: "simple_memory \<Rightarrow> simple_memory" where
  "memory_delete_history sm =
     \<lparr>sm_memory = delete_history (sm_memory sm), sm_observable_pages = delete_history (sm_observable_pages sm)\<rparr>"

text \<open>The body shared by the queries: a write goes to memory, a read fills the query.\<close>

definition access_memory :: "u32 \<Rightarrow> primitive_value \<Rightarrow> simple_memory \<Rightarrow> memory_query \<Rightarrow> (memory_query \<times> simple_memory) res" where
  "access_memory delta e sm q =
     (let page = unat (mq_page q); sl = unat (mq_index q) in
      if mq_rw_flag q then
        map_res (Pair q) (memory_write delta e sm page sl \<lparr>pv_value = mq_value q, pv_is_pointer = mq_value_is_pointer q\<rparr> (mq_timestamp q))
      else
        let current_value = sm_read_slot e sm page sl
        in Inr (q\<lparr>mq_value := pv_value current_value, mq_value_is_pointer := pv_is_pointer current_value\<rparr>, sm))"

definition memory_partial_query :: "u32 \<Rightarrow> primitive_value \<Rightarrow> simple_memory \<Rightarrow> memory_query \<Rightarrow> (memory_query \<times> simple_memory) res" where
  "memory_partial_query delta e sm q =
     (case mq_memory_type q of
        Stack \<Rightarrow> access_memory delta e sm q
      | Heap \<Rightarrow> ensure (\<not> mq_value_is_pointer q) (Panic (PanicMsg ''Pointers can only be stored on stack'')) (access_memory delta e sm q)
      | AuxHeap \<Rightarrow> ensure (\<not> mq_value_is_pointer q) (Panic (PanicMsg ''Pointers can only be stored on stack'')) (access_memory delta e sm q)
      | FatPointerMemory \<Rightarrow> ensure (\<not> mq_rw_flag q) (Panic (PanicMsg ''assertion failed: !query.rw_flag''))
          (ensure (\<not> mq_value_is_pointer q) (Panic (PanicMsg ''Pointers can only be stored on stack'')) (access_memory delta e sm q))
      | Code \<Rightarrow> Inl (Panic (PanicMsg ''code should be through specialized query''))
      | StaticMemory \<Rightarrow> Inl (Panic (PanicMsg ''unreachable'')))"

definition specialized_code_query :: "u32 \<Rightarrow> primitive_value \<Rightarrow> simple_memory \<Rightarrow> memory_query \<Rightarrow> (memory_query \<times> simple_memory) res" where
  "specialized_code_query delta e sm q =
     ensure (mq_memory_type q = Code) (Panic (PanicMsg ''assertion failed: memory_type == Code''))
     (ensure (\<not> mq_value_is_pointer q) (Panic (PanicMsg ''Pointers are not used for decommmits'')) (access_memory delta e sm q))"

definition read_code_query :: "primitive_value \<Rightarrow> simple_memory \<Rightarrow> memory_query \<Rightarrow> memory_query res" where
  "read_code_query e sm q =
     ensure (mq_memory_type q = Code) (Panic (PanicMsg ''assertion failed: memory_type == Code''))
     (ensure (\<not> mq_value_is_pointer q) (Panic (PanicMsg ''Pointers are not used for decommmits''))
     (ensure (\<not> mq_rw_flag q) (Panic (PanicMsg ''Only read queries can be processed''))
     (let current_value = sm_read_slot e sm (unat (mq_page q)) (unat (mq_index q))
      in Inr (q\<lparr>mq_value := pv_value current_value, mq_value_is_pointer := pv_is_pointer current_value\<rparr>))))"

definition stack_page_from_base :: "u32 \<Rightarrow> u32" where "stack_page_from_base base_page = base_page + 1"
definition heap_page_from_base :: "u32 \<Rightarrow> u32" where "heap_page_from_base base_page = base_page + 2"
definition aux_heap_page_from_base :: "u32 \<Rightarrow> u32" where "aux_heap_page_from_base base_page = base_page + 3"

definition CODE_ORACLE_ADDRESS :: address where "CODE_ORACLE_ADDRESS = 0x8012"

definition start_global_frame :: "u32 \<Rightarrow> simple_memory \<Rightarrow> u32 \<Rightarrow> u32 \<Rightarrow> timestamp \<Rightarrow> simple_memory res" where
  "start_global_frame delta sm new_base_page calldata_page ts =
     and_then (push_frame delta (sm_observable_pages sm) ts) (\<lambda>p.
     map_res (\<lambda>p'. sm\<lparr>sm_observable_pages := p'\<rparr>)
       (extend_frame delta p [calldata_page, stack_page_from_base new_base_page, heap_page_from_base new_base_page,
          aux_heap_page_from_base new_base_page] ts))"

fun clear_pages :: "primitive_value \<Rightarrow> memory_recorder \<Rightarrow> u32 list \<Rightarrow> timestamp \<Rightarrow> memory_recorder res" where
  "clear_pages e rec [] ts = Inr rec"
| "clear_pages e rec (p # ps) ts = and_then (clear_page e rec (unat p) ts) (\<lambda>rec'. clear_pages e rec' ps ts)"

definition finish_global_frame :: "u32 \<Rightarrow> primitive_value \<Rightarrow> simple_memory \<Rightarrow> u32 \<Rightarrow> address \<Rightarrow> u32 \<Rightarrow> timestamp \<Rightarrow> simple_memory res" where
  "finish_global_frame delta e sm base_page last_callstack_this returndata_page ts =
     and_then (if last_callstack_this \<noteq> CODE_ORACLE_ADDRESS
       then and_then (current_frame (hr_inner (sm_observable_pages sm))) (\<lambda>frame.
              clear_pages e (sm_memory sm) (filter (\<lambda>page. base_page \<le> page \<and> page \<noteq> returndata_page) frame) ts)
       else Inr (sm_memory sm)) (\<lambda>m.
     and_then (clear_frame delta (sm_observable_pages sm) ts) (\<lambda>p1.
     and_then (merge_frame delta p1 ts) (\<lambda>p2.
     and_then (if last_callstack_this \<noteq> CODE_ORACLE_ADDRESS then push_to_frame delta p2 returndata_page ts else Inr p2) (\<lambda>p3.
       Inr \<lparr>sm_memory = m, sm_observable_pages = p3\<rparr>))))"

section \<open>Dumping bytes\<close>

definition push_remaining :: "u8 list \<Rightarrow> u8 list \<times> nat \<Rightarrow> u8 list \<times> nat" where
  "push_remaining bs acc = fold (\<lambda>b (dump, remaining). if 0 < remaining then (dump @ [b], remaining - 1) else (dump, remaining)) bs acc"

fun dump_words :: "nat \<Rightarrow> bool \<Rightarrow> u256 list \<Rightarrow> u8 list \<times> nat \<Rightarrow> u8 list \<times> nat" where
  "dump_words unalignment is_first [] acc = acc"
| "dump_words unalignment is_first (w # ws) acc =
     dump_words unalignment False ws
       (push_remaining (if is_first then drop unalignment (be_bytes 32 w) else be_bytes 32 w) acc)"

definition dump_memory_page_by_offset_and_length :: "primitive_value \<Rightarrow> simple_memory \<Rightarrow> u32 \<Rightarrow> nat \<Rightarrow> nat \<Rightarrow> u8 list res" where
  "dump_memory_page_by_offset_and_length e sm page offset len =
     ensure (offset < 2 ^ 24) (Panic (PanicMsg ''assertion failed: offset < (1u32 << 24)''))
     (ensure (len < 2 ^ 24) (Panic (PanicMsg ''assertion failed: length < (1u32 << 24)''))
     (if len = 0 then Inr []
      else
        let first_word = offset div 32; end_byte = offset + len;
            last_word = (if end_byte mod 32 \<noteq> 0 then end_byte div 32 + 1 else end_byte div 32);
            page_part = dump_page_content_as_u256_words e sm page [first_word..<last_word];
            dump = fst (dump_words (offset mod 32) True page_part ([], len))
        in ensure (length dump = len) (Panic (PanicMsg ''tried to dump'')) (Inr dump)))"

text \<open>A fat pointer of \<open>zk_evm\<close>: the fields the dump uses; their sum and difference wrap as \<open>u32\<close>.\<close>

record fat_pointer =
  fp_memory_page :: u32
  fp_offset :: u32
  fp_start :: u32
  fp_length :: u32

definition dump_memory_page_using_fat_pointer :: "primitive_value \<Rightarrow> simple_memory \<Rightarrow> fat_pointer \<Rightarrow> u8 list res" where
  "dump_memory_page_using_fat_pointer e sm ptr =
     dump_memory_page_by_offset_and_length e sm (fp_memory_page ptr) (unat (fp_start ptr + fp_offset ptr))
       (unat (fp_length ptr - fp_offset ptr))"

definition dump_memory_page_using_primitive_value ::
  "(u256 \<Rightarrow> fat_pointer) \<Rightarrow> primitive_value \<Rightarrow> simple_memory \<Rightarrow> primitive_value \<Rightarrow> u8 list res" where
  "dump_memory_page_using_primitive_value from_u256 e sm ptr =
     (if \<not> pv_is_pointer ptr then Inr [] else dump_memory_page_using_fat_pointer e sm (from_u256 (pv_value ptr)))"

text \<open>Byte-addressed reading: what both routines stand for.\<close>

definition memory_byte :: "primitive_value \<Rightarrow> simple_memory \<Rightarrow> nat \<Rightarrow> nat \<Rightarrow> u8" where
  "memory_byte e sm page i = be_bytes 32 (pv_value (sm_read_slot e sm page (i div 32))) ! (i mod 32)"

lemma word_bytes: "be_bytes 32 (pv_value (sm_read_slot e sm page w)) = map (memory_byte e sm page) [32 * w..<32 * w + 32]"
  by (rule nth_equalityI) (simp_all add: memory_byte_def)

lemma concat_word_bytes:
  "a \<le> b \<Longrightarrow> concat (map (\<lambda>w. be_bytes 32 (pv_value (sm_read_slot e sm page w))) [a..<b]) = map (memory_byte e sm page) [32 * a..<32 * b]"
proof (induction b)
  case (Suc b)
  show ?case
  proof (cases "a \<le> b")
    case True
    then have "[32 * a..<32 * Suc b] = [32 * a..<32 * b] @ [32 * b..<32 * b + 32]"
      using upt_add_eq_append [of "32 * a" "32 * b" 32] by (simp add: add.commute)
    with True Suc.IH show ?thesis by (simp add: word_bytes)
  qed (use Suc.prems in simp)
qed simp

lemma extract_needed_bytes:
  assumes "unat w < 2 ^ 59"
  shows "extract_needed_bytes_from_word (be_bytes 32 (pv_value (sm_read_slot e sm page (unat w)))) w start last_byte =
    map (memory_byte e sm page) [max (32 * unat w) (unat start)..<min (32 * unat w + 31) (unat last_byte) + 1]"
proof -
  have ws: "unat (w * 32) = 32 * unat w" using assms by (simp add: unat_mult_lem [THEN iffD1] mult.commute)
  have we: "unat (w * 32 + 31) = 32 * unat w + 31" using assms ws by (simp add: unat_add_lem [THEN iffD1])
  let ?left = "max (w * 32) start" and ?right = "min (w * 32 + 31) last_byte"
  have left: "unat ?left = max (32 * unat w) (unat start)" by (simp add: max_def word_le_nat_alt ws)
  have right: "unat ?right = min (32 * unat w + 31) (unat last_byte)" by (simp add: min_def word_le_nat_alt we)
  show ?thesis
  proof (cases "?right < ?left")
    case True
    then have "min (32 * unat w + 31) (unat last_byte) < max (32 * unat w) (unat start)" using left right by (simp add: word_less_nat_alt)
    then have "[max (32 * unat w) (unat start)..<min (32 * unat w + 31) (unat last_byte) + 1] = []" by (intro upt_conv_Nil) linarith
    then show ?thesis using True by (simp only: extract_needed_bytes_from_word_def Let_def if_True list.map)
  next
    case False
    then have le: "?left \<le> ?right" by (simp only: not_less)
    have d: "unat (?right - ?left) = unat ?right - unat ?left" "unat (?left - w * 32) = unat ?left - 32 * unat w"
      using le ws by (simp_all add: unat_sub)
    have "unat (?right - ?left) \<le> 31" using d(1) left right by linarith
    then have diff: "unat (?right - ?left + 1) = unat ?right - unat ?left + 1" "unat (?left - w * 32) = unat ?left - 32 * unat w"
      using d unat_add_lem [of "?right - ?left" 1] by simp_all
    define a b where "a = max (32 * unat w) (unat start)" and "b = min (32 * unat w + 31) (unat last_byte)"
    have ab: "32 * unat w \<le> a" "a \<le> b" "b < 32 * unat w + 32"
      using le left right by (auto simp: a_def b_def word_le_nat_alt)
    have "take (Suc (b - a)) [a..<32 * unat w + 32] = [a..<b + 1]" using ab by (subst take_upt) simp_all
    moreover have "unat (?right - ?left + 1) = Suc (b - a)" "unat (?left - w * 32) = a - 32 * unat w"
      using diff left right by (simp_all add: a_def b_def)
    ultimately have "extract_needed_bytes_from_word (be_bytes 32 (pv_value (sm_read_slot e sm page (unat w)))) w start last_byte =
        map (memory_byte e sm page) [a..<b + 1]"
      using False ab(1) by (simp add: extract_needed_bytes_from_word_def Let_def word_bytes drop_map take_map del: upt_Suc)
    then show ?thesis by (simp add: a_def b_def)
  qed
qed

text \<open>The loop below the last 32 bytes of the address space: it ends with the bytes of the range.\<close>

lemma read_words_bytes:
  assumes "unat last_byte < 2 ^ 64 - 32" "unat start < 32 * unat w + 32" "32 * unat w \<le> unat last_byte + 32"
  shows "read_words e sm page start last_byte w result =
    Some (result @ map (memory_byte e sm page) [max (32 * unat w) (unat start)..<unat last_byte + 1])"
  using assms(2,3)
proof (induction "unat last_byte + 1 - 32 * unat w" arbitrary: w result rule: less_induct)
  case less
  have small: "unat w < 2 ^ 59" using less.prems(2) assms(1) by simp
  have ws: "unat (w * 32) = 32 * unat w" using small by (simp add: unat_mult_lem [THEN iffD1] mult.commute)
  show ?case
  proof (cases "w * 32 \<le> last_byte")
    case True
    then have le: "32 * unat w \<le> unat last_byte" using ws by (simp add: word_le_nat_alt)
    have suc: "unat (w + 1) = unat w + 1" using small by (simp add: unat_add_lem [THEN iffD1])
    let ?bytes = "map (memory_byte e sm page) [max (32 * unat w) (unat start)..<min (32 * unat w + 31) (unat last_byte) + 1]"
    have "read_words e sm page start last_byte (w + 1) (result @ ?bytes) =
        Some ((result @ ?bytes) @ map (memory_byte e sm page) [32 * unat w + 32..<unat last_byte + 1])"
      using less.hyps [of "w + 1" "result @ ?bytes"] less.prems le suc by (simp add: max_def add.commute)
    moreover have "[max (32 * unat w) (unat start)..<min (32 * unat w + 31) (unat last_byte) + 1] @ [32 * unat w + 32..<unat last_byte + 1] =
        [max (32 * unat w) (unat start)..<unat last_byte + 1]"
    proof (cases "32 * unat w + 32 \<le> unat last_byte + 1")
      case True
      with less.prems(1) show ?thesis
        using upt_add_eq_append [of "max (32 * unat w) (unat start)" "32 * unat w + 32" "unat last_byte + 1 - (32 * unat w + 32)"]
        by (simp add: add.commute)
    qed simp
    ultimately show ?thesis using True
      by (subst read_words.simps) (simp add: extract_needed_bytes [OF small] flip: map_append)
  next
    case False
    then have "unat last_byte < 32 * unat w" using ws by (simp add: word_le_nat_alt)
    then show ?thesis using False by (subst read_words.simps) simp
  qed
qed

text \<open>A range that reaches into those bytes: the product wraps at the last word, and the condition of the loop always holds.\<close>

lemma read_words_diverges:
  assumes "2 ^ 64 - 32 \<le> unat last_byte"
  shows "read_words e sm page start last_byte w result = None"
proof -
  have always: "w * 32 \<le> last_byte" for w :: u64
  proof -
    have "unat (w * 32) = (unat w * 32) mod 2 ^ 64" by (simp add: unat_word_ariths)
    also have "\<dots> \<le> 2 ^ 64 - 32"
    proof -
      have "(unat w * 32) mod (2 ^ 59 * 32) = (unat w mod 2 ^ 59) * 32" by (rule mod_mult_mult2)
      moreover have "unat w mod 2 ^ 59 < 2 ^ 59" by simp
      ultimately show ?thesis by simp
    qed
    finally show ?thesis using assms by (simp add: word_le_nat_alt)
  qed
  have "\<not> (\<forall>w :: u64. w * 32 \<le> last_byte)" if ends: "read_words e sm page start last_byte w result = Some y" for y
    by (rule read_words.raw_induct [OF _ ends, where P = "\<lambda>e sm page start last_byte w result y. \<not> (\<forall>w :: u64. w * 32 \<le> last_byte)"])
      (auto split: if_splits)
  then show ?thesis using always by (cases "read_words e sm page start last_byte w result") auto
qed

lemma read_unaligned_bytes_map:
  assumes "unat start + unat len \<le> 2 ^ 64 - 32"
  shows "read_unaligned_bytes e sm page start len = Some (Inr (map (memory_byte e sm page) [unat start..<unat start + unat len]))"
proof (cases "len = 0")
  case False
  then have pos: "0 < unat len" by (simp add: unat_gt_0)
  have stop: "unat (start + len) = unat start + unat len" using assms by (simp add: unat_add_lem [THEN iffD1])
  then have "start + len \<noteq> 0" using pos by (metis add_is_0 not_less_zero unat_0)
  then have last: "unat (start + len - 1) = unat start + unat len - 1" using stop by (simp add: unat_minus_one)
  have d: "unat (start div 32) = unat start div 32" by (simp add: unat_div)
  have "read_words e sm page start (start + len - 1) (start div 32) [] =
      Some (map (memory_byte e sm page) [unat start..<unat start + unat len])"
    using assms pos by (subst read_words_bytes) (auto simp: last d max_def)
  with False show ?thesis by (simp add: read_unaligned_bytes_def)
qed (simp add: read_unaligned_bytes_def)

text \<open>
  C33. \<open>read_unaligned_bytes\<close> on every page, start and length, in a build whose integers wrap: a range that ends before the last
  32 bytes of the address space is read, whatever its alignment; a range whose last byte is one of those makes the loop run
  forever; a range that goes past the end of the address space fails the length assertion, unless its last byte wraps to one of
  them.
\<close>

theorem read_unaligned_bytes_cases:
  "read_unaligned_bytes e sm page start len =
     (if unat start + unat len \<le> 2 ^ 64 - 32
      then Some (Inr (map (memory_byte e sm page) [unat start..<unat start + unat len]))
      else if len = 0 then Some (Inr [])
      else if 2 ^ 64 - 32 \<le> (unat start + unat len - 1) mod 2 ^ 64 then None
      else Some (Inl (Panic (PanicMsg ''assertion failed: result.len() == length''))))"
proof -
  consider "unat start + unat len \<le> 2 ^ 64 - 32" | "\<not> unat start + unat len \<le> 2 ^ 64 - 32" "len = 0"
    | "\<not> unat start + unat len \<le> 2 ^ 64 - 32" "len \<noteq> 0" by blast
  then show ?thesis
  proof cases
    case 1
    then show ?thesis by (simp add: read_unaligned_bytes_map)
  next
    case 2
    then show ?thesis by (simp add: read_unaligned_bytes_def)
  next
    case 3
    then have pos: "0 < unat len" by (simp add: unat_gt_0)
    let ?last = "start + len - 1"
    have "?last = word_of_nat (unat start + unat len - 1)" using pos by (simp add: of_nat_diff)
    then have last: "unat ?last = (unat start + unat len - 1) mod 2 ^ 64" by (simp add: unat_of_nat)
    show ?thesis
    proof (cases "2 ^ 64 - 32 \<le> unat ?last")
      case True
      then show ?thesis using 3 last by (simp add: read_unaligned_bytes_def read_words_diverges)
    next
      case False
      then have over: "2 ^ 64 \<le> unat start + unat len - 1" using 3(1) last by (cases "unat start + unat len - 1 < 2 ^ 64") auto
      have less: "unat start < 2 ^ 64" "unat len < 2 ^ 64" using unsigned_less [of start] unsigned_less [of len] by simp_all
      then have "(unat start + unat len - 1) mod 2 ^ 64 = unat start + unat len - 1 - 2 ^ 64"
        unfolding le_mod_geq [OF over] by (intro mod_less) simp
      then have behind: "unat ?last < unat start" using last less over by linarith
      have d: "unat (start div 32) = unat start div 32" by (simp add: unat_div)
      have "read_words e sm page start ?last (start div 32) [] = Some []"
      proof (cases "start div 32 * 32 \<le> ?last")
        case True
        have "unat (start div 32 * 32) = 32 * (unat start div 32)"
          using d less(1) by (subst unat_mult_lem [THEN iffD1]) (auto simp: less_mult_imp_div_less)
        then have "32 * (unat start div 32) \<le> unat ?last" using True by (simp add: word_le_nat_alt)
        then show ?thesis using False behind by (subst read_words_bytes) (auto simp: d)
      next
        case False
        then show ?thesis by (subst read_words.simps) simp
      qed
      then show ?thesis using 3 False last pos by (simp add: read_unaligned_bytes_def)
    qed
  qed
qed

lemma push_remaining_take: "push_remaining bs (dump, n) = (dump @ take n bs, n - length bs)"
proof (induction bs arbitrary: dump n)
  case (Cons b bs)
  then show ?case by (cases n) (simp_all add: push_remaining_def)
qed (simp add: push_remaining_def)

lemma dump_words_take:
  "fst (dump_words u is_first ws (dump, n)) =
     dump @ take n (case ws of [] \<Rightarrow> [] | w # ws' \<Rightarrow> (if is_first then drop u (be_bytes 32 w) else be_bytes 32 w) @ concat (map (be_bytes 32) ws'))"
proof (induction u is_first ws "(dump, n)" arbitrary: dump n rule: dump_words.induct)
  case (2 u is_first w ws)
  show ?case
    using 2 [OF surjective_pairing]
    by (cases ws) (auto simp: push_remaining_take)
qed simp

lemma dump_page_words:
  "dump_page_content_as_u256_words e sm page rng = map (\<lambda>w. pv_value (sm_read_slot e sm (unat page) w)) rng"
  by (auto simp: dump_page_content_as_u256_words_def wrapper_dump_page_content_def sm_read_slot_def read_slot_def)

lemma dump_memory_bytes:
  assumes "offset < 2 ^ 24" "len < 2 ^ 24"
  shows "dump_memory_page_by_offset_and_length e sm page offset len = Inr (map (memory_byte e sm (unat page)) [offset..<offset + len])"
proof (cases "len = 0")
  case False
  let ?f = "offset div 32" and ?stop = "offset + len"
  define l where "l = (if ?stop mod 32 \<noteq> 0 then ?stop div 32 + 1 else ?stop div 32)"
  have l: "?stop \<le> 32 * l" "?f < l" using False by (auto simp: l_def)
  let ?w = "\<lambda>w. be_bytes 32 (pv_value (sm_read_slot e sm (unat page) w))"
  have words: "[?f..<l] = ?f # [Suc ?f..<l]" using l(2) by (simp add: upt_conv_Cons)
  have "drop (offset mod 32) (?w ?f) @ concat (map ?w [Suc ?f..<l]) = drop (offset mod 32) (concat (map ?w [?f..<l]))"
    unfolding words by simp
  also have "\<dots> = map (memory_byte e sm (unat page)) [offset..<32 * l]"
    using l(2) by (simp add: concat_word_bytes drop_map)
  finally have "fst (dump_words (offset mod 32) True (dump_page_content_as_u256_words e sm page [?f..<l]) ([], len)) =
      take len (map (memory_byte e sm (unat page)) [offset..<32 * l])"
    unfolding dump_words_take dump_page_words words by (simp add: comp_def)
  also have "\<dots> = map (memory_byte e sm (unat page)) [offset..<offset + len]"
    using l(1) by (simp add: take_map)
  finally show ?thesis
    using assms False unfolding dump_memory_page_by_offset_and_length_def Let_def l_def [symmetric] by simp
qed (use assms in \<open>simp add: dump_memory_page_by_offset_and_length_def\<close>)

text \<open>
  The two byte readers of the legacy VM agree: for offsets and lengths below 2 to the 24, dumping a page through
  whole words equals \<open>read_unaligned_bytes\<close>; beyond that bound the dump aborts.
\<close>

theorem dump_equals_read:
  "Some (dump_memory_page_by_offset_and_length e sm page offset len) =
     (if offset < 2 ^ 24 \<and> len < 2 ^ 24 then read_unaligned_bytes e sm (unat page) (word_of_nat offset) (word_of_nat len)
      else Some (Inl (Panic (PanicMsg (if offset < 2 ^ 24 then ''assertion failed: length < (1u32 << 24)''
                                 else ''assertion failed: offset < (1u32 << 24)'')))))"
  using dump_memory_bytes [of offset len e sm page] read_unaligned_bytes_map [of "word_of_nat offset" "word_of_nat len" e sm "unat page"]
  by (simp add: dump_memory_page_by_offset_and_length_def unat_of_nat)

section \<open>Frames of the memory\<close>

lemma normalize_le: "normalize_timestamp delta ts \<le> ts"
proof -
  have "ts mod delta \<le> ts" by (simp add: word_le_nat_alt unat_mod)
  then show ?thesis unfolding normalize_timestamp_def by (rule word_sub_le)
qed

lemma clear_page_enabled:
  assumes "hr_mode rec = HistoryEnabled"
  shows "returns (clear_page e rec page ts) (\<lambda>rec'. hr_mode rec' = HistoryEnabled \<and>
    read_slot e (hr_inner rec') = (read_slot e (hr_inner rec))(page := (\<lambda>_. e)))"
  using assms by (auto simp: clear_page_def mutate_history_def read_slot_def fun_eq_iff nth_list_update)

lemma clear_pages_enabled:
  "hr_mode rec = HistoryEnabled \<Longrightarrow> returns (clear_pages e rec ps ts) (\<lambda>rec'. hr_mode rec' = HistoryEnabled \<and>
    read_slot e (hr_inner rec') = (\<lambda>p. if p \<in> unat ` set ps then (\<lambda>_. e) else read_slot e (hr_inner rec) p))"
proof (induction ps arbitrary: rec)
  case (Cons p ps)
  obtain rec1 where rec1: "clear_page e rec (unat p) ts = Inr rec1" "hr_mode rec1 = HistoryEnabled"
    "read_slot e (hr_inner rec1) = (read_slot e (hr_inner rec))(unat p := (\<lambda>_. e))"
    using clear_page_enabled [OF Cons.prems, of e "unat p" ts] unfolding returns_iff by blast
  show ?case
    unfolding clear_pages.simps rec1(1) and_then_simps
    by (rule returns_mono [OF Cons.IH [OF rec1(2)]]) (auto simp: rec1(3) fun_eq_iff)
qed simp

text \<open>
  Returning from a far call, with history kept: the pages the frame could observe and that its own calls created
  (numbered from \<open>base_page\<close> on) read as empty, except the returned page; every other page is untouched;
  the parent frame observes its own pages and the returned page. For the code oracle no page is cleared and none is added.
\<close>

theorem finish_global_frame_correct:
  assumes "hr_mode (sm_memory sm) = HistoryEnabled" "in_time delta ts (sm_observable_pages sm)"
    and "hr_inner (sm_observable_pages sm) = \<lparr>fs_data = parent @ frame, frame_start_indices = starts @ [length parent]\<rparr>"
  shows "\<exists>sm'. finish_global_frame delta e sm base_page this returndata_page ts = Inr sm' \<and>
    hr_inner (sm_observable_pages sm') =
      \<lparr>fs_data = parent @ (if this = CODE_ORACLE_ADDRESS then [] else [returndata_page]), frame_start_indices = starts\<rparr> \<and>
    (\<forall>page sl. sm_read_slot e sm' page sl =
       (if this \<noteq> CODE_ORACLE_ADDRESS \<and> page \<in> unat ` {p \<in> set frame. base_page \<le> p \<and> p \<noteq> returndata_page}
        then e else sm_read_slot e sm page sl))"
proof -
  let ?P = "\<lambda>page. base_page \<le> page \<and> page \<noteq> returndata_page"
  have frame: "current_frame (hr_inner (sm_observable_pages sm)) = Inr frame" by (simp add: assms(3) current_frame_def)
  obtain m where m: "clear_pages e (sm_memory sm) (filter ?P frame) ts = Inr m"
    "read_slot e (hr_inner m) = (\<lambda>p. if p \<in> unat ` set (filter ?P frame) then (\<lambda>_. e) else read_slot e (hr_inner (sm_memory sm)) p)"
    using clear_pages_enabled [OF assms(1), of e "filter ?P frame" ts] unfolding returns_iff by blast
  obtain p1 where p1: "clear_frame delta (sm_observable_pages sm) ts = Inr p1" "in_time delta ts p1"
    "hr_inner p1 = \<lparr>fs_data = parent, frame_start_indices = starts @ [length parent]\<rparr>"
    using clear_frame_returns [OF assms(2)] by (auto simp: returns_iff assms(3))
  obtain p2 where p2: "merge_frame delta p1 ts = Inr p2" "in_time delta ts p2"
    "hr_inner p2 = \<lparr>fs_data = parent, frame_start_indices = starts\<rparr>"
    using merge_frame_returns [OF p1(2)] by (auto simp: returns_iff p1(3))
  obtain p3 where p3: "push_to_frame delta p2 returndata_page ts = Inr p3"
    "hr_inner p3 = \<lparr>fs_data = parent @ [returndata_page], frame_start_indices = starts\<rparr>"
    using push_to_frame_returns [OF p2(2)] by (auto simp: returns_iff p2(3))
  show ?thesis
    using frame m p1(1) p2 p3 by (auto simp: finish_global_frame_def sm_read_slot_def)
qed

text \<open>Without history clearing a page does nothing: the closure that clears it is only run on a recorder with history.\<close>

lemma clear_page_disabled: "hr_mode rec = HistoryDisabled \<Longrightarrow> clear_page e rec page ts = Inr rec"
  by (simp add: clear_page_def mutate_history_def)

section \<open>Rollback of the memory\<close>

datatype memory_op =
    MemQuery memory_query
  | MemCodeQuery memory_query
  | MemStart u32 u32 timestamp
  | MemFinish u32 address u32 timestamp

fun memory_op_time :: "memory_op \<Rightarrow> timestamp" where
  "memory_op_time (MemQuery q) = mq_timestamp q"
| "memory_op_time (MemCodeQuery q) = mq_timestamp q"
| "memory_op_time (MemStart _ _ ts) = ts"
| "memory_op_time (MemFinish _ _ _ ts) = ts"

fun run_memory_op :: "u32 \<Rightarrow> primitive_value \<Rightarrow> simple_memory \<Rightarrow> memory_op \<Rightarrow> simple_memory res" where
  "run_memory_op delta e sm (MemQuery q) = map_res snd (memory_partial_query delta e sm q)"
| "run_memory_op delta e sm (MemCodeQuery q) = map_res snd (specialized_code_query delta e sm q)"
| "run_memory_op delta e sm (MemStart bp calldata ts) = start_global_frame delta sm bp calldata ts"
| "run_memory_op delta e sm (MemFinish bp this ret ts) = finish_global_frame delta e sm bp this ret ts"

fun run_memory :: "u32 \<Rightarrow> primitive_value \<Rightarrow> simple_memory \<Rightarrow> memory_op list \<Rightarrow> simple_memory res" where
  "run_memory delta e sm [] = Inr sm"
| "run_memory delta e sm (op # ops) = and_then (run_memory_op delta e sm op) (\<lambda>sm'. run_memory delta e sm' ops)"

definition simple_memory_grown :: "primitive_value \<Rightarrow> timestamp \<Rightarrow> simple_memory \<Rightarrow> simple_memory \<Rightarrow> bool" where
  "simple_memory_grown e t sm0 sm \<longleftrightarrow>
     memory_grown e t (sm_memory sm0) (sm_memory sm) \<and> framed_grown t (sm_observable_pages sm0) (sm_observable_pages sm)"

lemma access_memory_keeps:
  assumes "simple_memory_grown e t sm0 sm" "t \<le> normalize_timestamp delta (mq_timestamp q)"
  shows "keeps (access_memory delta e sm q) (\<lambda>(_, sm'). simple_memory_grown e t sm0 sm')"
proof (cases "mq_rw_flag q")
  case True
  have "memory_grown e t (sm_memory sm0) (sm_memory sm)" using assms(1) by (simp add: simple_memory_grown_def)
  then show ?thesis
    using True assms(1) unfolding access_memory_def memory_write_def write_to_memory_def Let_def
    by simp (rule keeps_mono [OF memory.apply_keeps_grown [OF _ assms(2)]], assumption, auto simp: simple_memory_grown_def)
qed (use assms(1) in \<open>simp add: access_memory_def Let_def\<close>)

lemma clear_pages_keeps:
  "memory_grown e t r0 rec \<Longrightarrow> t \<le> ts \<Longrightarrow> keeps (clear_pages e rec ps ts) (memory_grown e t r0)"
proof (induction ps arbitrary: rec)
  case (Cons p ps)
  show ?case
    unfolding clear_pages.simps keeps_simps
    by (rule keeps_mono [OF clear_page_keeps [OF Cons.prems]]) (rule Cons.IH [OF _ Cons.prems(2)])
qed simp

lemma finish_global_frame_keeps:
  assumes "simple_memory_grown e t sm0 sm" "t \<le> normalize_timestamp delta ts"
  shows "keeps (finish_global_frame delta e sm bp this ret ts) (simple_memory_grown e t sm0)"
proof -
  have g: "memory_grown e t (sm_memory sm0) (sm_memory sm)" "framed_grown t (sm_observable_pages sm0) (sm_observable_pages sm)"
    using assms(1) by (simp_all add: simple_memory_grown_def)
  have ts: "t \<le> ts" using assms(2) normalize_le [of delta ts] by simp
  {
    fix sm' assume "finish_global_frame delta e sm bp this ret ts = Inr sm'"
    then obtain ps p1 p2 where steps: "clear_pages e (sm_memory sm) ps ts = Inr (sm_memory sm') \<or> sm_memory sm' = sm_memory sm"
      "clear_frame delta (sm_observable_pages sm) ts = Inr p1" "merge_frame delta p1 ts = Inr p2"
      "push_to_frame delta p2 ret ts = Inr (sm_observable_pages sm') \<or> sm_observable_pages sm' = p2"
      by (fastforce simp: finish_global_frame_def split: if_splits)
    have "memory_grown e t (sm_memory sm0) (sm_memory sm')"
      using steps(1) keepsD [OF clear_pages_keeps [OF g(1) ts]] g(1) by auto
    moreover have p2: "framed_grown t (sm_observable_pages sm0) p2"
      by (rule keepsD [OF push_to_frame_keeps(3) [OF keepsD [OF clear_frame_keeps [OF g(2) assms(2)] steps(2)] assms(2)] steps(3)])
    then have "framed_grown t (sm_observable_pages sm0) (sm_observable_pages sm')"
      using steps(4) keepsD [OF push_to_frame_keeps(1) [OF p2 assms(2)]] by auto
    ultimately have "simple_memory_grown e t sm0 sm'" by (simp add: simple_memory_grown_def)
  }
  then show ?thesis by (cases "finish_global_frame delta e sm bp this ret ts") auto
qed

lemma run_memory_op_keeps:
  assumes "simple_memory_grown e t sm0 sm" "t \<le> normalize_timestamp delta (memory_op_time op)"
  shows "keeps (run_memory_op delta e sm op) (simple_memory_grown e t sm0)"
proof (cases op)
  case (MemQuery q)
  with assms access_memory_keeps [of e t sm0 sm delta q] show ?thesis
    by (cases "mq_memory_type q") (auto simp: memory_partial_query_def elim!: keeps_mono)
next
  case (MemCodeQuery q)
  with assms access_memory_keeps [of e t sm0 sm delta q] show ?thesis
    by (auto simp: specialized_code_query_def elim!: keeps_mono)
next
  case (MemStart bp calldata ts)
  have g: "framed_grown t (sm_observable_pages sm0) (sm_observable_pages sm)" and ts: "t \<le> normalize_timestamp delta ts"
    using assms MemStart by (simp_all add: simple_memory_grown_def)
  show ?thesis
    unfolding MemStart run_memory_op.simps start_global_frame_def keeps_simps
    by (rule keeps_mono [OF push_to_frame_keeps(2) [OF g ts]], rule keeps_mono [OF extend_frame_keeps [OF _ ts]], assumption)
      (use assms(1) in \<open>simp add: simple_memory_grown_def\<close>)
next
  case (MemFinish bp this ret ts)
  with assms finish_global_frame_keeps show ?thesis by simp
qed

lemma run_memory_keeps:
  assumes "simple_memory_grown e t sm0 sm" "\<forall>op \<in> set ops. t \<le> normalize_timestamp delta (memory_op_time op)"
  shows "keeps (run_memory delta e sm ops) (simple_memory_grown e t sm0)"
  using assms
proof (induction ops arbitrary: sm)
  case (Cons op ops)
  show ?case
    unfolding run_memory.simps keeps_simps
    by (rule keeps_mono [OF run_memory_op_keeps [OF Cons.prems(1)]]) (use Cons in auto)
qed simp

text \<open>
  Rolling the memory back to a timestamp undoes everything since: after any sequence of queries, code writes and
  far-call starts and returns whose cycle times are not before \<open>t\<close>, the memory compares equal to what it was (under the
  memory's own equality), also where returning from a call cleared whole pages, and the observable pages
  and both histories are the very same.
\<close>

theorem memory_rollback_restores:
  assumes "hr_mode (sm_memory sm) = HistoryEnabled" "hr_mode (sm_observable_pages sm) = HistoryEnabled" "wf_memory (hr_inner (sm_memory sm))"
    and "settled_before t (sm_memory sm)" "settled_before t (sm_observable_pages sm)"
    and "\<forall>op \<in> set ops. t \<le> normalize_timestamp delta (memory_op_time op)"
    and "run_memory delta e sm ops = Inr sm'"
  shows "\<exists>m. memory_rollback_to_timestamp e sm' t = Inr (sm\<lparr>sm_memory := (sm_memory sm)\<lparr>hr_inner := m\<rparr>\<rparr>) \<and>
    memory_eq e m (hr_inner (sm_memory sm))"
proof -
  have "simple_memory_grown e t sm sm"
    using assms(1-3) by (simp add: simple_memory_grown_def memory.grown_refl framed.grown_refl)
  from keepsD [OF run_memory_keeps [OF this assms(6)] assms(7)]
  have g: "memory_grown e t (sm_memory sm) (sm_memory sm')" "framed_grown t (sm_observable_pages sm) (sm_observable_pages sm')"
    by (simp_all add: simple_memory_grown_def)
  have modes: "hr_mode (sm_memory sm') = HistoryEnabled" "hr_mode (sm_observable_pages sm') = HistoryEnabled"
    using g by (simp_all add: grown_since_def)
  obtain m where m: "rollback_to_timestamp (memory_apply e) (sm_memory sm') t =
      Inr ((sm_memory sm')\<lparr>hr_inner := m, hr_history := hr_history (sm_memory sm)\<rparr>)" "memory_eq e m (hr_inner (sm_memory sm))"
    using memory.rollback_restores [OF assms(4) g(1)] by blast
  have "rollback_to_timestamp framed_apply (sm_observable_pages sm') t =
      Inr ((sm_observable_pages sm')\<lparr>hr_inner := hr_inner (sm_observable_pages sm), hr_history := hr_history (sm_observable_pages sm)\<rparr>)"
    using framed.rollback_restores [OF assms(5) g(2)] by blast
  with m modes assms(1,2) show ?thesis
    by (cases sm; cases "sm_memory sm"; cases "sm_observable_pages sm"; cases "sm_memory sm'"; cases "sm_observable_pages sm'")
      (auto simp: memory_rollback_to_timestamp_def)
qed

end
