(* ===== verification/Event_Sink.thy ===== *)
theory Event_Sink
  imports Storage_Oracle_Correct
begin

text \<open>
  Events and L1 messages of the legacy VM, \<open>src/crates/multivm/src/versions/vm_latest/old_vm/event_sink.rs\<close>: messages are
  queued per call frame, a panicked frame appends the rollbacks of its messages, and at the end the messages that were
  not rolled back are collected in the order of their timestamps.

  The lemmas show that this is what a list with revertible frames does (\<open>event_log\<close>); events of the bootloader
  itself survive a revert. The auxiliary bytes and the bootloader's formal address are parameters.
\<close>

record event_message =
  em_shard_id :: u8
  em_is_first :: bool
  em_tx_number_in_block :: u16
  em_address :: address
  em_key :: u256
  em_value :: u256

record event_consts =
  event_aux_byte :: u8
  l1_message_aux_byte :: u8
  bootloader_formal_address :: address
  ec_time_delta :: u32

type_synonym event_sink = "log_query app_data_frame_manager"

section \<open>Collecting messages\<close>

text \<open>The hash map keyed by timestamp, as the list of its entries; a second entry for a timestamp cancels the first.\<close>

fun collect_queries :: "log_query list \<Rightarrow> (u32 \<times> log_query) list \<Rightarrow> (u32 \<times> log_query) list res" where
  "collect_queries [] tmp = Inr tmp"
| "collect_queries (el # els) tmp =
     (if lq_timestamp el \<in> fst ` set tmp then
        ensure (lq_rollback el) (Panic (PanicMsg ''assertion failed: el.rollback''))
          (collect_queries els (filter (\<lambda>(k, _). k \<noteq> lq_timestamp el) tmp))
      else
        ensure (\<not> lq_rollback el) (Panic (PanicMsg ''assertion failed: !el.rollback''))
          (collect_queries els (tmp @ [(lq_timestamp el, el)])))"

definition message_of_query :: "log_query \<Rightarrow> event_message" where
  "message_of_query q = \<lparr>em_shard_id = lq_shard_id q, em_is_first = lq_is_service q, em_tx_number_in_block = lq_tx_number_in_block q,
     em_address = lq_address q, em_key = lq_key q, em_value = lq_written_value q\<rparr>"

definition events_and_l1_messages_from_history ::
  "event_consts \<Rightarrow> log_query list \<Rightarrow> (event_message list \<times> event_message list) res" where
  "events_and_l1_messages_from_history ec history =
     map_res (\<lambda>tmp.
       let keys = sort (map fst tmp); els = map (\<lambda>k. the (map_of tmp k)) keys
       in (map message_of_query (filter (\<lambda>el. lq_aux_byte el = event_aux_byte ec) els),
           map message_of_query (filter (\<lambda>el. lq_aux_byte el \<noteq> event_aux_byte ec) els)))
     (collect_queries history [])"

definition flatten :: "event_consts \<Rightarrow> event_sink \<Rightarrow> (event_message list \<times> event_message list) res" where
  "flatten ec m =
     ensure (adf_len m = 1) (Panic (PanicMsg ''there must exist an initial keeper frame''))
       (and_then (current_frame (hr_inner (adf_forward m))) (events_and_l1_messages_from_history ec))"

definition log_queries_after_timestamp :: "event_sink \<Rightarrow> timestamp \<Rightarrow> log_query list res" where
  "log_queries_after_timestamp m from_timestamp =
     map_res (\<lambda>qs. rev (takeWhile (\<lambda>l. \<not> lq_timestamp l < from_timestamp) (rev qs))) (current_frame (hr_inner (adf_forward m)))"

definition get_events_and_l2_l1_logs_after_timestamp ::
  "event_consts \<Rightarrow> event_sink \<Rightarrow> timestamp \<Rightarrow> (event_message list \<times> event_message list) res" where
  "get_events_and_l2_l1_logs_after_timestamp ec m from_timestamp =
     and_then (log_queries_after_timestamp m from_timestamp) (events_and_l1_messages_from_history ec)"

definition add_partial_query :: "event_consts \<Rightarrow> event_sink \<Rightarrow> log_query \<Rightarrow> event_sink res" where
  "add_partial_query ec m q =
     ensure (lq_rw_flag q) (Panic (PanicMsg ''assertion failed: query.rw_flag''))
     (ensure (lq_aux_byte q = event_aux_byte ec \<or> lq_aux_byte q = l1_message_aux_byte ec) (Panic (PanicMsg ''assertion failed: aux_byte''))
     (ensure (\<not> lq_rollback q) (Panic (PanicMsg ''assertion failed: !query.rollback''))
     (and_then (push_forward (ec_time_delta ec) m q (lq_timestamp q)) (\<lambda>m'.
        push_rollback (ec_time_delta ec) m' (q\<lparr>lq_rollback := True\<rparr>) (lq_timestamp q)))))"

definition sink_start_frame :: "event_consts \<Rightarrow> event_sink \<Rightarrow> timestamp \<Rightarrow> event_sink res" where
  "sink_start_frame ec m ts = adf_push_frame (ec_time_delta ec) m ts"

definition revertible :: "event_consts \<Rightarrow> log_query \<Rightarrow> bool" where
  "revertible ec q \<longleftrightarrow> lq_address q \<noteq> bootloader_formal_address ec \<or> lq_aux_byte q \<noteq> event_aux_byte ec"

definition sink_finish_frame :: "event_consts \<Rightarrow> event_sink \<Rightarrow> bool \<Rightarrow> timestamp \<Rightarrow> event_sink res" where
  "sink_finish_frame ec m panicked ts =
     and_then (if panicked then move_rollback_to_forward (ec_time_delta ec) (revertible ec) m ts else Inr m) (\<lambda>m'.
       adf_merge_frame (ec_time_delta ec) m' ts)"

section \<open>A log with revertible frames\<close>

text \<open>
  \<open>el_events\<close> are the messages that stand, oldest first; \<open>el_frames\<close> the messages each open frame can still revert,
  innermost frame first. Nothing outside a frame is ever reverted, so the outermost list only collects.
\<close>

record event_log =
  el_events :: "log_query list"
  el_frames :: "log_query list list"

datatype sink_op = SinkAdd log_query | SinkStart timestamp | SinkFinish bool timestamp

fun sink_op_time :: "sink_op \<Rightarrow> timestamp" where
  "sink_op_time (SinkAdd q) = lq_timestamp q"
| "sink_op_time (SinkStart ts) = ts"
| "sink_op_time (SinkFinish _ ts) = ts"

fun log_op :: "event_consts \<Rightarrow> sink_op \<Rightarrow> event_log \<Rightarrow> event_log option" where
  "log_op ec (SinkAdd q) l =
     (case el_frames l of
        [] \<Rightarrow> None
      | f # fs \<Rightarrow> if lq_rw_flag q \<and> lq_aux_byte q \<in> {event_aux_byte ec, l1_message_aux_byte ec} \<and> \<not> lq_rollback q \<and>
            (\<forall>e \<in> set (el_events l). lq_timestamp e < lq_timestamp q)
          then Some \<lparr>el_events = el_events l @ [q], el_frames = (f @ [q]) # fs\<rparr> else None)"
| "log_op ec (SinkStart _) l = Some (l\<lparr>el_frames := [] # el_frames l\<rparr>)"
| "log_op ec (SinkFinish panicked _) l =
     (case el_frames l of
        f # g # fs \<Rightarrow> Some (if panicked
          then \<lparr>el_events = filter (\<lambda>e. \<not> (e \<in> set f \<and> revertible ec e)) (el_events l), el_frames = g # fs\<rparr>
          else \<lparr>el_events = el_events l, el_frames = (g @ f) # fs\<rparr>)
      | _ \<Rightarrow> None)"

fun log_run :: "event_consts \<Rightarrow> sink_op list \<Rightarrow> event_log \<Rightarrow> event_log option" where
  "log_run ec [] l = Some l"
| "log_run ec (op # ops) l = Option.bind (log_op ec op l) (log_run ec ops)"

fun run_sink_op :: "event_consts \<Rightarrow> sink_op \<Rightarrow> event_sink \<Rightarrow> event_sink res" where
  "run_sink_op ec (SinkAdd q) m = add_partial_query ec m q"
| "run_sink_op ec (SinkStart ts) m = sink_start_frame ec m ts"
| "run_sink_op ec (SinkFinish panicked ts) m = sink_finish_frame ec m panicked ts"

fun sink_run :: "event_consts \<Rightarrow> sink_op list \<Rightarrow> event_sink \<Rightarrow> event_sink res" where
  "sink_run ec [] m = Inr m"
| "sink_run ec (op # ops) m = and_then (run_sink_op ec op m) (sink_run ec ops)"

section \<open>Simulation\<close>

abbreviation mark_rollback :: "log_query \<Rightarrow> log_query" where "mark_rollback q \<equiv> q\<lparr>lq_rollback := True\<rparr>"

fun frame_starts :: "'a list list \<Rightarrow> nat list" where
  "frame_starts [] = []"
| "frame_starts (f # fs) = length (concat (rev fs)) # frame_starts fs"

abbreviation entries :: "log_query list \<Rightarrow> (u32 \<times> log_query) list" where
  "entries qs \<equiv> map (\<lambda>q. (lq_timestamp q, q)) qs"

text \<open>The log is well formed: timestamps grow, open frames hold distinct standing messages.\<close>

definition log_ok :: "event_log \<Rightarrow> bool" where
  "log_ok l \<longleftrightarrow> sorted_wrt (<) (map lq_timestamp (el_events l)) \<and> distinct (concat (rev (el_frames l))) \<and>
     set (concat (el_frames l)) \<subseteq> set (el_events l)"

definition sink_matches :: "event_consts \<Rightarrow> timestamp \<Rightarrow> event_sink \<Rightarrow> event_log \<Rightarrow> bool" where
  "sink_matches ec ts m l \<longleftrightarrow> log_ok l \<and>
     (\<exists>fw. queues_hold (ec_time_delta ec) ts (\<lambda>_. True) m fw (map mark_rollback (concat (rev (el_frames l)))) (frame_starts (el_frames l)) \<and>
       collect_queries fw [] = Inr (entries (el_events l)))"

lemma collect_queries_append:
  "collect_queries (xs @ ys) tmp = and_then (collect_queries xs tmp) (collect_queries ys)"
  by (induction xs tmp rule: collect_queries.induct) (auto simp: ensure_def)

lemma lq_timestamp_inj:
  "sorted_wrt (<) (map lq_timestamp es) \<Longrightarrow> inj_on lq_timestamp (set es)"
  by (metis distinct_map strict_sorted_iff)

lemma collect_reverted:
  assumes "sorted_wrt (<) (map lq_timestamp es)" "distinct rs" "set rs \<subseteq> set es"
  shows "collect_queries (map mark_rollback rs) (entries es) = Inr (entries (filter (\<lambda>e. e \<notin> set rs) es))"
  using assms
proof (induction rs arbitrary: es)
  case (Cons r rs)
  let ?es = "filter (\<lambda>e. e \<noteq> r) es"
  have inj: "inj_on lq_timestamp (set es)" by (rule lq_timestamp_inj [OF Cons.prems(1)])
  have r: "r \<in> set es" "r \<notin> set rs" using Cons.prems(2,3) by auto
  have "filter (\<lambda>(k, _). k \<noteq> lq_timestamp r) (entries es) = entries ?es"
    unfolding filter_map comp_def using inj r(1) by (auto simp: inj_on_def intro!: filter_cong arg_cong [where f = entries])
  moreover have "sorted_wrt (<) (map lq_timestamp ?es)" using Cons.prems(1) by (simp add: sorted_wrt_map sorted_wrt_filter)
  moreover have "set rs \<subseteq> set ?es" using Cons.prems(3) r(2) by auto
  moreover have "filter (\<lambda>e. e \<notin> set rs) ?es = filter (\<lambda>e. e \<notin> set (r # rs)) es" by (auto intro!: filter_cong)
  moreover have "lq_timestamp r \<in> fst ` set (entries es)" using r(1) by force
  ultimately show ?case using Cons.IH [of ?es] Cons.prems(2) by simp
qed simp

lemma sink_matches_mono:
  "sink_matches ec ts m l \<Longrightarrow> normalize_timestamp (ec_time_delta ec) ts \<le> normalize_timestamp (ec_time_delta ec) ts' \<Longrightarrow>
   sink_matches ec ts' m l"
  unfolding sink_matches_def queues_hold_def using in_time_mono by blast

lemma sink_add_sim:
  assumes m: "sink_matches ec (lq_timestamp q) m l" and op: "log_op ec (SinkAdd q) l = Some l'"
  shows "returns (add_partial_query ec m q) (\<lambda>m'. sink_matches ec (lq_timestamp q) m' l')"
proof -
  let ?d = "ec_time_delta ec" and ?ts = "lq_timestamp q"
  obtain f fs where fs: "el_frames l = f # fs" and q: "lq_rw_flag q" "lq_aux_byte q = event_aux_byte ec \<or> lq_aux_byte q = l1_message_aux_byte ec"
    "\<not> lq_rollback q" and fresh: "\<forall>e \<in> set (el_events l). lq_timestamp e < lq_timestamp q"
    and l': "l' = \<lparr>el_events = el_events l @ [q], el_frames = (f @ [q]) # fs\<rparr>"
    using op by (auto split: list.splits if_splits)
  obtain fw where fw: "queues_hold ?d ?ts (\<lambda>_. True) m fw (map mark_rollback (concat (rev fs) @ f)) (length (concat (rev fs)) # frame_starts fs)"
    "collect_queries fw [] = Inr (entries (el_events l))" and ok: "log_ok l"
    using m by (auto simp: sink_matches_def fs)
  have "lq_timestamp q \<notin> fst ` set (entries (el_events l))" using fresh by force
  then have "collect_queries (fw @ [q]) [] = Inr (entries (el_events l @ [q]))"
    using fw(2) q(3) by (simp add: collect_queries_append)
  moreover have "log_ok l'"
    using ok fresh by (auto simp: log_ok_def fs l' sorted_wrt_append)
  ultimately have step: "sink_matches ec ?ts m' l'"
    if "queues_hold ?d ?ts (\<lambda>_. True) m' (fw @ [q]) (map mark_rollback (concat (rev fs) @ f) @ [mark_rollback q]) (length (concat (rev fs)) # frame_starts fs)" for m'
    using that by (auto simp: sink_matches_def l')
  show ?thesis
    unfolding add_partial_query_def using q
    by simp (rule returns_mono [OF push_forward_returns [OF fw(1)]], rule returns_mono [OF push_rollback_returns], assumption, simp, rule step)
qed

lemma sink_start_sim:
  assumes "sink_matches ec ts m l" "el_frames l \<noteq> []"
  shows "returns (sink_start_frame ec m ts) (\<lambda>m'. sink_matches ec ts m' (l\<lparr>el_frames := [] # el_frames l\<rparr>))"
proof -
  obtain fw where fw: "queues_hold (ec_time_delta ec) ts (\<lambda>_. True) m fw (map mark_rollback (concat (rev (el_frames l)))) (frame_starts (el_frames l))"
    "collect_queries fw [] = Inr (entries (el_events l))" and ok: "log_ok l"
    using assms(1) by (auto simp: sink_matches_def)
  have ss: "frame_starts (el_frames l) \<noteq> []" using assms(2) by (cases "el_frames l") auto
  show ?thesis
    unfolding sink_start_frame_def
    by (rule returns_mono [OF adf_push_frame_returns [OF fw(1) ss]])
      (use fw(2) ok in \<open>auto simp: sink_matches_def log_ok_def\<close>)
qed

lemma sink_finish_sim:
  assumes m: "sink_matches ec ts m l" and op: "log_op ec (SinkFinish panicked ts) l = Some l'"
  shows "returns (sink_finish_frame ec m panicked ts) (\<lambda>m'. sink_matches ec ts m' l')"
proof -
  let ?d = "ec_time_delta ec"
  obtain f g fs where fs: "el_frames l = f # g # fs" using op by (auto split: list.splits)
  let ?rest = "concat (rev fs) @ g" and ?s = "length (concat (rev fs) @ g)"
  obtain fw where fw: "queues_hold ?d ts (\<lambda>_. True) m fw (map mark_rollback (?rest @ f)) (?s # frame_starts (g # fs))"
    "collect_queries fw [] = Inr (entries (el_events l))" and ok: "log_ok l"
    using m by (auto simp: sink_matches_def fs)
  show ?thesis
  proof (cases panicked)
    case False
    then have "l' = \<lparr>el_events = el_events l, el_frames = (g @ f) # fs\<rparr>" using op by (simp add: fs)
    moreover from this have "log_ok l'" using ok by (auto simp: log_ok_def fs)
    ultimately show ?thesis
      using False fw(2) returns_mono [OF adf_merge_frame_returns [OF fw(1)], of "\<lambda>m'. sink_matches ec ts m' l'"]
      by (auto simp: sink_finish_frame_def sink_matches_def)
  next
    case True
    let ?rs = "filter (revertible ec) (rev f)"
    have l': "l' = \<lparr>el_events = filter (\<lambda>e. \<not> (e \<in> set f \<and> revertible ec e)) (el_events l), el_frames = g # fs\<rparr>"
      using op True by (simp add: fs)
    have sub: "set ?rs \<subseteq> set (el_events l)" "distinct ?rs" "sorted_wrt (<) (map lq_timestamp (el_events l))"
      using ok by (auto simp: log_ok_def fs)
    have rev: "filter (revertible ec) (rev (drop ?s (map mark_rollback (?rest @ f)))) = map mark_rollback ?rs"
      by (simp add: drop_map rev_map filter_map comp_def) (simp add: revertible_def [abs_def])
    have "collect_queries (fw @ map mark_rollback ?rs) [] = Inr (entries (el_events l'))"
      using collect_reverted [OF sub(3,2,1)] fw(2) by (simp add: collect_queries_append l')
    moreover have "log_ok l'"
      using ok by (auto simp: log_ok_def fs l' sorted_wrt_map sorted_wrt_filter)
    ultimately have step: "sink_matches ec ts m' l'"
      if "queues_hold ?d ts (\<lambda>_. True) m' (fw @ map mark_rollback ?rs) (map mark_rollback ?rest) (frame_starts (g # fs))" for m'
      using that by (auto simp: sink_matches_def l')
    have take: "take ?s (map mark_rollback (?rest @ f)) = map mark_rollback ?rest" by (simp add: take_map)
    have len: "?s \<le> length (map mark_rollback (?rest @ f))" by simp
    show ?thesis
      unfolding sink_finish_frame_def using True
      by simp (rule returns_mono [OF move_rollback_returns [OF fw(1) len, of "revertible ec"]], unfold rev take,
        rule returns_mono [OF adf_merge_frame_returns], assumption, rule step)
  qed
qed

lemma log_op_frames: "log_op ec op l = Some l' \<Longrightarrow> el_frames l \<noteq> [] \<Longrightarrow> el_frames l' \<noteq> []"
  by (cases op) (auto split: list.splits if_splits)

lemma sink_run_sim:
  assumes "sink_matches ec ts m l" "el_frames l \<noteq> []" "log_run ec ops l = Some l'"
    and "times_from (ec_time_delta ec) ts (map sink_op_time ops)"
  shows "\<exists>ts'. returns (sink_run ec ops m) (\<lambda>m'. sink_matches ec ts' m' l')"
  using assms
proof (induction ops arbitrary: ts m l)
  case Nil
  then show ?case by auto
next
  case (Cons op ops)
  obtain l1 where l1: "log_op ec op l = Some l1" "log_run ec ops l1 = Some l'" using Cons.prems(3) by (auto split: bind_splits)
  have m: "sink_matches ec (sink_op_time op) m l"
    by (rule sink_matches_mono [OF Cons.prems(1)]) (use Cons.prems(4) in simp)
  have "returns (run_sink_op ec op m) (\<lambda>m'. sink_matches ec (sink_op_time op) m' l1)"
    using m l1(1) sink_add_sim sink_start_sim [OF _ Cons.prems(2)] sink_finish_sim by (cases op) auto
  then obtain m1 where m1: "run_sink_op ec op m = Inr m1" "sink_matches ec (sink_op_time op) m1 l1" by (auto simp: returns_iff)
  from Cons.IH [OF m1(2) log_op_frames [OF l1(1) Cons.prems(2)] l1(2)] Cons.prems(4) m1(1) show ?case by auto
qed

lemma sorted_log_entries:
  assumes "sorted_wrt (<) (map lq_timestamp es)"
  shows "map (\<lambda>k. the (map_of (entries es) k)) (sort (map fst (entries es))) = es"
proof -
  have d: "distinct (map lq_timestamp es)" "sorted (map lq_timestamp es)" using assms by (auto simp: strict_sorted_iff)
  have "map_of (entries es) (lq_timestamp q) = Some q" if "q \<in> set es" for q
    using d(1) that by (intro map_of_is_SomeI) (simp_all add: comp_def)
  then show ?thesis using d(2) by (simp add: comp_def sorted_sort_id map_idI)
qed

lemma flatten_matches:
  assumes "sink_matches ec ts m l" "el_frames l = [f]"
  shows "flatten ec m = Inr (map message_of_query (filter (\<lambda>e. lq_aux_byte e = event_aux_byte ec) (el_events l)),
     map message_of_query (filter (\<lambda>e. lq_aux_byte e \<noteq> event_aux_byte ec) (el_events l)))"
proof -
  obtain fw where fw: "queues_hold (ec_time_delta ec) ts (\<lambda>_. True) m fw (map mark_rollback f) [0]"
    "collect_queries fw [] = Inr (entries (el_events l))" "log_ok l"
    using assms by (auto simp: sink_matches_def)
  have "frame_start_indices (hr_inner (adf_forward m)) = [0]"
    using fw(1) by (cases "frame_start_indices (hr_inner (adf_forward m))") (auto simp: queues_hold_def)
  then have "adf_len m = 1" "current_frame (hr_inner (adf_forward m)) = Inr fw"
    using fw(1) by (auto simp: adf_len_def fs_len_def current_frame_def queues_hold_def)
  with fw(2,3) sorted_log_entries [of "el_events l"] show ?thesis
    by (simp add: flatten_def events_and_l1_messages_from_history_def Let_def log_ok_def)
qed

lemma sink_matches_default: "sink_matches ec 0 (adf_default mode) \<lparr>el_events = [], el_frames = [[]]\<rparr>"
  by (auto simp: sink_matches_def log_ok_def queues_hold_def adf_default_def from_inner_def framed_stack_default_def in_time_def)

text \<open>
  C16. The event sink reports exactly the messages that stand: after any sequence of messages, frame starts and frame
  ends with growing timestamps that leaves only the outermost frame open, \<open>flatten\<close> returns the events and the L1
  messages of the log with revertible frames, in the order they were sent, and aborts nowhere. A message of a
  panicked frame (or of a frame committed into it) is gone, except for events of the bootloader.
\<close>

theorem event_sink_correct:
  assumes "log_run ec ops \<lparr>el_events = [], el_frames = [[]]\<rparr> = Some \<lparr>el_events = es, el_frames = [f]\<rparr>"
    and "times_from (ec_time_delta ec) 0 (map sink_op_time ops)"
  shows "and_then (sink_run ec ops (adf_default mode)) (flatten ec) =
    Inr (map message_of_query (filter (\<lambda>e. lq_aux_byte e = event_aux_byte ec) es),
         map message_of_query (filter (\<lambda>e. lq_aux_byte e \<noteq> event_aux_byte ec) es))"
proof -
  obtain ts m where "sink_run ec ops (adf_default mode) = Inr m" "sink_matches ec ts m \<lparr>el_events = es, el_frames = [f]\<rparr>"
    using sink_run_sim [OF sink_matches_default [of ec mode] _ assms(1,2)] by (auto simp: returns_iff)
  then show ?thesis using flatten_matches [of ec ts m] by simp
qed

end
