(* ===== verification/Vm_Events.thy ===== *)
theory Vm_Events
  imports Event_Sink Pubdata_Builder
begin

text \<open>
  From raw VM messages to events: \<open>merge_events\<close> of the fast VM (\<open>vm_fast/events.rs\<close>) and of the legacy VM
  (\<open>vm_latest/old_vm/events.rs\<close>), and the extraction of logs, messages and bytecode hashes from events
  (\<open>vm_interface/src/types/outputs/execution_result.rs\<close>, \<open>multivm/src/utils/events.rs\<close>).

  A 32-byte topic is an \<open>h256\<close>. \<open>usz\<close> is the number of \<open>usize\<close> values, at which a subtraction wraps in a release build.
  \<open>ethabi\<close> is the record \<open>abi\<close>; its \<open>long_signature\<close> is a parameter of its own.
\<close>

section \<open>Events\<close>

record vm_event =
  ve_location :: "u32 \<times> u32"
  ve_address :: address
  ve_indexed_topics :: "h256 list"
  ve_value :: "u8 list"

text \<open>The message of \<open>zksync_vm2\<close>.\<close>

record vm2_event =
  v2_shard_id :: u8
  v2_is_first :: bool
  v2_tx_number :: u16
  v2_key :: u256
  v2_value :: u256

record event_accumulator =
  acc_shard_id :: u8
  acc_tx_number_in_block :: u16
  acc_topics :: "h256 list"
  acc_data :: "u8 list"

definition h256_to_address :: "h256 \<Rightarrow> address" where
  "h256_to_address h = ucast h"

definition acc_into_vm_event :: "u32 \<Rightarrow> event_accumulator \<Rightarrow> vm_event res" where
  "acc_into_vm_event block_number acc =
     (case acc_topics acc of
        [] \<Rightarrow> Inl (Panic IndexOutOfBounds)
      | t # ts \<Rightarrow> Inr \<lparr>ve_location = (block_number, ucast (acc_tx_number_in_block acc)), ve_address = h256_to_address t,
          ve_indexed_topics = ts, ve_value = acc_data acc\<rparr>)"

section \<open>Merging\<close>

text \<open>One 32-byte element: a topic while topics are missing, then data.\<close>

definition feed_element :: "h256 \<Rightarrow> nat \<times> nat \<times> h256 list \<times> u8 list \<Rightarrow> nat \<times> nat \<times> h256 list \<times> u8 list" where
  "feed_element el st =
     (case st of (remaining_data_length, remaining_topics, topics, data) \<Rightarrow>
        if remaining_topics \<noteq> 0 then (remaining_data_length, remaining_topics - 1, topics @ [el], data)
        else if remaining_data_length \<noteq> 0 then
          (if 32 \<le> remaining_data_length then (remaining_data_length - 32, remaining_topics, topics, data @ as_bytes el)
           else (0, remaining_topics, topics, data @ take remaining_data_length (as_bytes el)))
        else st)"

text \<open>The first message: the key holds the number of topics and, above it, the length of the data.\<close>

definition start_event :: "nat \<Rightarrow> u256 \<Rightarrow> u256 \<Rightarrow> nat \<times> nat \<times> h256 list \<times> u8 list" where
  "start_event usz k v =
     (let low = ucast k :: u64; num_topics = unat (ucast low :: u32); data_length = unat (drop_bit 32 low)
      in if num_topics = 0 \<and> data_length = 0 then (data_length, num_topics, [], [])
         else if num_topics = 0 then (if 32 \<le> data_length then data_length - 32 else data_length + usz - 32, num_topics, [], as_bytes v)
         else (data_length, num_topics - 1, [v], []))"

type_synonym pending_event = "nat \<times> nat \<times> event_accumulator"

definition feed_pair :: "u256 \<Rightarrow> u256 \<Rightarrow> pending_event \<Rightarrow> pending_event" where
  "feed_pair k v p =
     (case p of (rd, rt, acc) \<Rightarrow>
        case feed_element v (feed_element k (rd, rt, acc_topics acc, acc_data acc)) of (rd', rt', topics, data) \<Rightarrow>
          (rd', rt', acc\<lparr>acc_topics := topics, acc_data := data\<rparr>))"

definition close_pending :: "u32 \<Rightarrow> pending_event option \<Rightarrow> vm_event list res" where
  "close_pending block_number current =
     (case current of
        Some (rd, rt, acc) \<Rightarrow> if rd = 0 \<and> rt = 0 then map_res (\<lambda>e. [e]) (acc_into_vm_event block_number acc) else Inr []
      | None \<Rightarrow> Inr [])"

fun fast_merge :: "nat \<Rightarrow> u32 \<Rightarrow> vm2_event list \<Rightarrow> pending_event option \<Rightarrow> vm_event list res" where
  "fast_merge usz bn [] current = close_pending bn current"
| "fast_merge usz bn (e # es) current =
     (if \<not> v2_is_first e then
        (case current of
           None \<Rightarrow> fast_merge usz bn es None
         | Some (rd, rt, acc) \<Rightarrow>
             if acc_shard_id acc \<noteq> v2_shard_id e \<or> acc_tx_number_in_block acc \<noteq> v2_tx_number e then fast_merge usz bn es None
             else (case feed_pair (v2_key e) (v2_value e) (rd, rt, acc) of (rd', rt', acc') \<Rightarrow>
               if rd' \<noteq> 0 \<or> rt' \<noteq> 0 then fast_merge usz bn es (Some (rd', rt', acc'))
               else and_then (acc_into_vm_event bn acc') (\<lambda>v. map_res (Cons v) (fast_merge usz bn es None))))
      else
        (case start_event usz (v2_key e) (v2_value e) of (rd, rt, topics, data) \<Rightarrow>
           and_then (close_pending bn current) (\<lambda>vs.
             map_res (append vs) (fast_merge usz bn es
               (Some (rd, rt, \<lparr>acc_shard_id = v2_shard_id e, acc_tx_number_in_block = v2_tx_number e, acc_topics = topics, acc_data = data\<rparr>))))))"

definition fast_merge_events :: "nat \<Rightarrow> vm2_event list \<Rightarrow> u32 \<Rightarrow> vm_event list res" where
  "fast_merge_events usz es bn = fast_merge usz bn es None"

text \<open>The legacy VM also matches the address, and keeps every event of every address until the end.\<close>

record solidity_like_event =
  sle_shard_id :: u8
  sle_tx_number_in_block :: u16
  sle_address :: address
  sle_topics :: "h256 list"
  sle_data :: "u8 list"

definition sle_into_vm_event :: "u32 \<Rightarrow> solidity_like_event \<Rightarrow> vm_event" where
  "sle_into_vm_event block_number e = \<lparr>ve_location = (block_number, ucast (sle_tx_number_in_block e)), ve_address = sle_address e,
     ve_indexed_topics = sle_topics e, ve_value = sle_data e\<rparr>"

definition sle_close :: "(nat \<times> nat \<times> solidity_like_event) option \<Rightarrow> solidity_like_event list" where
  "sle_close current = (case current of Some (rd, rt, e) \<Rightarrow> if rd = 0 \<and> rt = 0 then [e] else [] | None \<Rightarrow> [])"

fun merge_events_inner :: "nat \<Rightarrow> event_message list \<Rightarrow> (nat \<times> nat \<times> solidity_like_event) option \<Rightarrow> solidity_like_event list" where
  "merge_events_inner usz [] current = sle_close current"
| "merge_events_inner usz (m # ms) current =
     (if \<not> em_is_first m then
        (case current of
           None \<Rightarrow> merge_events_inner usz ms None
         | Some (rd, rt, ev) \<Rightarrow>
             if sle_address ev \<noteq> em_address m \<or> sle_shard_id ev \<noteq> em_shard_id m \<or> sle_tx_number_in_block ev \<noteq> em_tx_number_in_block m
             then merge_events_inner usz ms None
             else (case feed_element (em_value m) (feed_element (em_key m) (rd, rt, sle_topics ev, sle_data ev)) of (rd', rt', topics, data) \<Rightarrow>
               if rd' \<noteq> 0 \<or> rt' \<noteq> 0 then merge_events_inner usz ms (Some (rd', rt', ev\<lparr>sle_topics := topics, sle_data := data\<rparr>))
               else ev\<lparr>sle_topics := topics, sle_data := data\<rparr> # merge_events_inner usz ms None))
      else
        (case start_event usz (em_key m) (em_value m) of (rd, rt, topics, data) \<Rightarrow>
           sle_close current @ merge_events_inner usz ms
             (Some (rd, rt, \<lparr>sle_shard_id = em_shard_id m, sle_tx_number_in_block = em_tx_number_in_block m,
                sle_address = em_address m, sle_topics = topics, sle_data = data\<rparr>))))"

definition EVENT_WRITER_ADDRESS :: address where "EVENT_WRITER_ADDRESS = 0x800d"

definition legacy_merge_events :: "nat \<Rightarrow> event_message list \<Rightarrow> solidity_like_event list res" where
  "legacy_merge_events usz ms =
     collect_res (map (\<lambda>e. case sle_topics e of
         [] \<Rightarrow> Inl (Panic IndexOutOfBounds)
       | t # ts \<Rightarrow> Inr (e\<lparr>sle_topics := ts, sle_address := h256_to_address t\<rparr>))
       (filter (\<lambda>e. sle_address e = EVENT_WRITER_ADDRESS) (merge_events_inner usz ms None)))"

section \<open>The fast and the legacy merge agree\<close>

definition vm2_of_message :: "event_message \<Rightarrow> vm2_event" where
  "vm2_of_message m = \<lparr>v2_shard_id = em_shard_id m, v2_is_first = em_is_first m, v2_tx_number = em_tx_number_in_block m,
     v2_key = em_key m, v2_value = em_value m\<rparr>"

definition acc_of_sle :: "solidity_like_event \<Rightarrow> event_accumulator" where
  "acc_of_sle e = \<lparr>acc_shard_id = sle_shard_id e, acc_tx_number_in_block = sle_tx_number_in_block e,
     acc_topics = sle_topics e, acc_data = sle_data e\<rparr>"

lemma vm2_of_message_fields [simp]:
  "v2_shard_id (vm2_of_message m) = em_shard_id m" "v2_is_first (vm2_of_message m) = em_is_first m"
  "v2_tx_number (vm2_of_message m) = em_tx_number_in_block m" "v2_key (vm2_of_message m) = em_key m"
  "v2_value (vm2_of_message m) = em_value m"
  by (simp_all add: vm2_of_message_def)

lemma acc_of_sle_fields [simp]:
  "acc_shard_id (acc_of_sle e) = sle_shard_id e" "acc_tx_number_in_block (acc_of_sle e) = sle_tx_number_in_block e"
  "acc_topics (acc_of_sle e) = sle_topics e" "acc_data (acc_of_sle e) = sle_data e"
  by (simp_all add: acc_of_sle_def)

lemma collect_res_append:
  "collect_res (xs @ ys) = and_then (collect_res xs) (\<lambda>vs. map_res (append vs) (collect_res ys))"
proof (induction xs)
  case (Cons x xs)
  then show ?case by (cases x; cases "collect_res xs"; cases "collect_res ys") auto
qed (cases "collect_res ys", auto)

abbreviation pending_of :: "(nat \<times> nat \<times> solidity_like_event) option \<Rightarrow> pending_event option" where
  "pending_of \<equiv> map_option (\<lambda>(rd, rt, e). (rd, rt, acc_of_sle e))"

lemma close_pending_sle:
  "close_pending bn (pending_of cur) = collect_res (map (\<lambda>e. acc_into_vm_event bn (acc_of_sle e)) (sle_close cur))"
proof (cases cur)
  case (Some c)
  obtain rd rt e where "c = (rd, rt, e)" by (cases c)
  with Some show ?thesis
    by (cases "acc_into_vm_event bn (acc_of_sle e)") (auto simp: close_pending_def sle_close_def)
qed (simp add: close_pending_def sle_close_def)

text \<open>On messages of one address the fast loop collects what the legacy loop collects.\<close>

lemma fast_merge_inner:
  assumes "\<forall>m \<in> set ms. em_address m = a" "\<forall>rd rt e. cur = Some (rd, rt, e) \<longrightarrow> sle_address e = a"
  shows "fast_merge usz bn (map vm2_of_message ms) (pending_of cur) =
     collect_res (map (\<lambda>e. acc_into_vm_event bn (acc_of_sle e)) (merge_events_inner usz ms cur))"
  using assms
proof (induction ms arbitrary: cur)
  case Nil
  then show ?case by (simp add: close_pending_sle)
next
  case (Cons m ms)
  have IH: "fast_merge usz bn (map vm2_of_message ms) (pending_of c) =
      collect_res (map (\<lambda>e. acc_into_vm_event bn (acc_of_sle e)) (merge_events_inner usz ms c))"
    if "\<forall>rd rt e. c = Some (rd, rt, e) \<longrightarrow> sle_address e = a" for c
    using Cons.IH [OF _ that] Cons.prems(1) by simp
  have None: "fast_merge usz bn (map vm2_of_message ms) None =
      collect_res (map (\<lambda>e. acc_into_vm_event bn (acc_of_sle e)) (merge_events_inner usz ms None))"
    using IH [of None] by simp
  show ?case
  proof (cases "em_is_first m")
    case True
    obtain rd rt topics data where st: "start_event usz (em_key m) (em_value m) = (rd, rt, topics, data)" by (metis prod_cases4)
    let ?e = "\<lparr>sle_shard_id = em_shard_id m, sle_tx_number_in_block = em_tx_number_in_block m, sle_address = em_address m,
      sle_topics = topics, sle_data = data\<rparr>"
    have "fast_merge usz bn (map vm2_of_message ms) (pending_of (Some (rd, rt, ?e))) =
        collect_res (map (\<lambda>e. acc_into_vm_event bn (acc_of_sle e)) (merge_events_inner usz ms (Some (rd, rt, ?e))))"
      using Cons.prems(1) by (intro IH) auto
    moreover have "acc_of_sle ?e = \<lparr>acc_shard_id = em_shard_id m, acc_tx_number_in_block = em_tx_number_in_block m,
        acc_topics = topics, acc_data = data\<rparr>"
      by (simp add: acc_of_sle_def)
    ultimately show ?thesis
      using True by (simp add: st close_pending_sle collect_res_append)
  next
    case False
    show ?thesis
    proof (cases cur)
      case None
      with False \<open>fast_merge usz bn (map vm2_of_message ms) None = _\<close> show ?thesis by simp
    next
      case (Some c)
      obtain rd rt e where c: "c = (rd, rt, e)" by (cases c)
      obtain rd' rt' topics data where fd: "feed_element (em_value m) (feed_element (em_key m) (rd, rt, sle_topics e, sle_data e)) =
          (rd', rt', topics, data)" by (metis prod_cases4)
      let ?e = "e\<lparr>sle_topics := topics, sle_data := data\<rparr>"
      have acc: "acc_of_sle e\<lparr>acc_topics := topics, acc_data := data\<rparr> = acc_of_sle ?e" by (simp add: acc_of_sle_def)
      have addr: "sle_address e = em_address m" using Cons.prems Some c by simp
      have IHs: "fast_merge usz bn (map vm2_of_message ms) (Some (rd', rt', acc_of_sle ?e)) =
          collect_res (map (\<lambda>e. acc_into_vm_event bn (acc_of_sle e)) (merge_events_inner usz ms (Some (rd', rt', ?e))))"
        using IH [of "Some (rd', rt', ?e)"] addr Cons.prems(1) by simp
      show ?thesis
        using False Some c addr None IHs
        by (simp add: feed_pair_def fd acc)
          (cases "acc_into_vm_event bn (acc_of_sle ?e)";
           cases "collect_res (map (\<lambda>e. acc_into_vm_event bn (acc_of_sle e)) (merge_events_inner usz ms None))"; simp)
    qed
  qed
qed

lemma merge_events_inner_address:
  assumes "\<forall>m \<in> set ms. em_address m = a" "\<forall>rd rt e. cur = Some (rd, rt, e) \<longrightarrow> sle_address e = a"
  shows "\<forall>e \<in> set (merge_events_inner usz ms cur). sle_address e = a"
  using assms
proof (induction ms arbitrary: cur)
  case (Cons m ms)
  have IH: "\<forall>e \<in> set (merge_events_inner usz ms c). sle_address e = a"
    if "\<forall>rd rt e. c = Some (rd, rt, e) \<longrightarrow> sle_address e = a" for c
    using Cons.IH [OF _ that] Cons.prems(1) by simp
  have close: "\<forall>e \<in> set (sle_close cur). sle_address e = a"
    using Cons.prems(2) by (auto simp: sle_close_def split: option.splits)
  show ?case
  proof (cases "em_is_first m")
    case True
    obtain rd rt topics data where st: "start_event usz (em_key m) (em_value m) = (rd, rt, topics, data)" by (metis prod_cases4)
    have "\<forall>e \<in> set (merge_events_inner usz ms (Some (rd, rt, \<lparr>sle_shard_id = em_shard_id m,
        sle_tx_number_in_block = em_tx_number_in_block m, sle_address = em_address m, sle_topics = topics, sle_data = data\<rparr>))). sle_address e = a"
      by (rule IH) (use Cons.prems(1) in simp)
    with close True show ?thesis by (simp add: st ball_Un)
  next
    case False
    show ?thesis
    proof (cases cur)
      case (Some c)
      obtain rd rt e where c: "c = (rd, rt, e)" by (cases c)
      obtain rd' rt' topics data where fd: "feed_element (em_value m) (feed_element (em_key m) (rd, rt, sle_topics e, sle_data e)) =
          (rd', rt', topics, data)" by (metis prod_cases4)
      have e: "sle_address e = a" using Cons.prems(2) Some c by simp
      have "\<forall>x \<in> set (merge_events_inner usz ms (Some (rd', rt', e\<lparr>sle_topics := topics, sle_data := data\<rparr>))). sle_address x = a"
        by (rule IH) (use e in simp)
      with IH [of None] e False show ?thesis by (simp add: Some c fd)
    qed (use IH [of None] False in simp)
  qed
qed (auto simp: sle_close_def split: option.splits)

text \<open>
  C17. The fast VM and the legacy VM merge messages into the same events. For messages sent through the event writer, the
  only ones the fast VM records, \<open>merge_events\<close> of the fast VM gives what the legacy \<open>merge_events\<close> and the conversion to
  \<open>VmEvent\<close> give, and it aborts exactly when the legacy one does.
\<close>

theorem merge_events_equivalent:
  assumes "\<forall>m \<in> set ms. em_address m = EVENT_WRITER_ADDRESS"
  shows "fast_merge_events usz (map vm2_of_message ms) bn = map_res (map (sle_into_vm_event bn)) (legacy_merge_events usz ms)"
proof -
  let ?es = "merge_events_inner usz ms None"
  have addr: "filter (\<lambda>e. sle_address e = EVENT_WRITER_ADDRESS) ?es = ?es"
    using merge_events_inner_address [OF assms, of None usz] by (simp add: filter_id_conv)
  have conv: "collect_res (map (\<lambda>e. acc_into_vm_event bn (acc_of_sle e)) es) =
      map_res (map (sle_into_vm_event bn)) (collect_res (map (\<lambda>e. case sle_topics e of [] \<Rightarrow> Inl (Panic IndexOutOfBounds)
        | t # ts \<Rightarrow> Inr (e\<lparr>sle_topics := ts, sle_address := h256_to_address t\<rparr>)) es))" for es
  proof (induction es)
    case (Cons e es)
    have head: "acc_into_vm_event bn (acc_of_sle e) = map_res (sle_into_vm_event bn) (case sle_topics e of [] \<Rightarrow> Inl (Panic IndexOutOfBounds)
        | t # ts \<Rightarrow> Inr (e\<lparr>sle_topics := ts, sle_address := h256_to_address t\<rparr>))"
      by (auto simp: acc_into_vm_event_def acc_of_sle_def sle_into_vm_event_def split: list.splits)
    show ?case
      unfolding list.map collect_res.simps Cons.IH head
      by (cases "sle_topics e"; cases "collect_res (map (\<lambda>e. case sle_topics e of [] \<Rightarrow> Inl (Panic IndexOutOfBounds)
        | t # ts \<Rightarrow> Inr (e\<lparr>sle_topics := ts, sle_address := h256_to_address t\<rparr>)) es)") auto
  qed simp
  show ?thesis
    unfolding fast_merge_events_def legacy_merge_events_def addr conv [symmetric]
    using fast_merge_inner [OF assms, of None usz bn] by simp
qed

section \<open>Events survive the split into messages\<close>

text \<open>
  How the event writer sends an event: the first message carries the counts and the first topic (the address), the
  remaining topics and the data in 32-byte words follow in pairs, the last one padded.
\<close>

record sent_event =
  se_shard_id :: u8
  se_tx_number :: u16
  se_address_topic :: h256
  se_topics :: "h256 list"
  se_data :: "u8 list"

fun pair_words :: "h256 list \<Rightarrow> (h256 \<times> h256) list" where
  "pair_words [] = []"
| "pair_words [w] = [(w, 0)]"
| "pair_words (v # w # ws) = (v, w) # pair_words ws"

definition data_words :: "u8 list \<Rightarrow> h256 list" where
  "data_words bs = map (\<lambda>c. from_be_bytes (c @ replicate (32 - length c) 0)) (chunks 32 bs)"

definition event_messages :: "sent_event \<Rightarrow> vm2_event list" where
  "event_messages se =
     \<lparr>v2_shard_id = se_shard_id se, v2_is_first = True, v2_tx_number = se_tx_number se,
      v2_key = word_of_nat (length (se_topics se) + 1 + length (se_data se) * 2 ^ 32), v2_value = se_address_topic se\<rparr> #
     map (\<lambda>(k, v). \<lparr>v2_shard_id = se_shard_id se, v2_is_first = False, v2_tx_number = se_tx_number se, v2_key = k, v2_value = v\<rparr>)
       (pair_words (se_topics se @ data_words (se_data se)))"

definition vm_event_of :: "u32 \<Rightarrow> sent_event \<Rightarrow> vm_event" where
  "vm_event_of bn se = \<lparr>ve_location = (bn, ucast (se_tx_number se)), ve_address = h256_to_address (se_address_topic se),
     ve_indexed_topics = se_topics se, ve_value = se_data se\<rparr>"

lemma ucast_word_of_nat: "(ucast (word_of_nat n :: u256) :: u64) = word_of_nat n"
  by (rule bit_word_eqI) (simp add: bit_simps)

lemma start_event_counts:
  assumes "t < 2 ^ 32" "d < 2 ^ 32" "0 < t"
  shows "start_event usz (word_of_nat (t + d * 2 ^ 32)) v = (d, t - 1, [v], [])"
proof -
  define n where "n = t + d * 2 ^ 32"
  have n: "n < 2 ^ 64" "n mod 2 ^ 32 = t" "n div 2 ^ 32 = d" using assms(1,2) by (simp_all add: n_def)
  have low: "(ucast (word_of_nat n :: u256) :: u64) = word_of_nat n" by (rule ucast_word_of_nat)
  have t: "unat (ucast (word_of_nat n :: u64) :: u32) = t"
    using n(1,2) by (simp add: unsigned_ucast_eq unat_of_nat take_bit_eq_mod)
  have d: "unat (drop_bit 32 (word_of_nat n :: u64)) = d"
    unfolding unat_drop_bit_eq using n(1,3) by (simp add: unat_of_nat take_bit_eq_mod drop_bit_eq_div)
  show ?thesis unfolding n_def [symmetric] using assms(3) by (simp add: start_event_def low t d Let_def)
qed

text \<open>The words of an event, fed one by one: first the topics, then the data.\<close>

lemma feed_topic: "feed_element w (d, Suc t, topics, data) = (d, t, topics @ [w], data)"
  by (simp add: feed_element_def)

definition feed_all :: "h256 list \<Rightarrow> nat \<times> nat \<times> h256 list \<times> u8 list \<Rightarrow> nat \<times> nat \<times> h256 list \<times> u8 list" where
  "feed_all ws st = fold feed_element ws st"

lemma feed_topics: "feed_all ts (d, length ts, topics, data) = (d, 0, topics @ ts, data)"
  by (induction ts arbitrary: topics) (simp_all add: feed_all_def feed_topic)

lemma feed_data:
  "length bs \<noteq> 0 \<Longrightarrow> feed_all (data_words bs) (length bs, 0, topics, data) = (0, 0, topics, data @ bs)"
proof (induction "length bs" arbitrary: bs data rule: less_induct)
  case less
  show ?case
  proof (cases "length bs \<le> 32")
    case True
    then have "chunks 32 bs = [bs]" using less.prems by (subst chunks.simps) (simp add: chunks.simps)
    moreover have "take (length bs) (as_bytes (from_be_bytes (bs @ replicate (32 - length bs) 0))) = bs"
      using True by simp
    ultimately show ?thesis using True less.prems
      by (auto simp: data_words_def feed_all_def feed_element_def)
  next
    case False
    then have ch: "chunks 32 bs = take 32 bs # chunks 32 (drop 32 bs)" by (subst chunks.simps) auto
    have bytes: "as_bytes (from_be_bytes (take 32 bs) :: h256) = take 32 bs" using False by simp
    have "feed_all (data_words (drop 32 bs)) (length (drop 32 bs), 0, topics, data @ take 32 bs) = (0, 0, topics, (data @ take 32 bs) @ drop 32 bs)"
      using False by (intro less) auto
    with False show ?thesis
      by (auto simp: data_words_def ch feed_all_def feed_element_def bytes)
  qed
qed

lemma feed_event:
  "feed_all (ts @ data_words bs) (length bs, length ts, topics, data) = (0, 0, topics @ ts, data @ bs)"
  using feed_topics [of ts "length bs" topics data] feed_data [of bs "topics @ ts" data]
  by (cases "bs = []") (simp_all add: feed_all_def data_words_def chunks.simps)

text \<open>A complete event ignores padding.\<close>

lemma feed_complete: "feed_element w (0, 0, topics, data) = (0, 0, topics, data)"
  by (simp add: feed_element_def)

definition words_needed :: "nat \<Rightarrow> nat \<Rightarrow> nat" where
  "words_needed rd rt = rt + (rd + 31) div 32"

lemma words_needed_0 [simp]: "words_needed rd rt = 0 \<longleftrightarrow> rd = 0 \<and> rt = 0"
  by (auto simp: words_needed_def)

lemma ceil32: "0 < n \<Longrightarrow> (n + 31) div 32 = Suc ((n - 32 + 31) div 32)"
  by (cases "32 \<le> n") (simp_all add: le_div_geq)

lemma feed_element_needed:
  assumes "feed_element w (rd, rt, topics, data) = (rd', rt', topics', data')"
  shows "words_needed rd' rt' = words_needed rd rt - 1"
proof -
  have small: "(rd + 31) div 32 = 1" if "0 < rd" "rd < 32" using ceil32 [OF that(1)] that(2) by simp
  have large: "(rd + 31) div 32 = Suc ((rd - 32 + 31) div 32)" if "32 \<le> rd" using ceil32 that by simp
  show ?thesis
    using assms small large by (cases "rd = 0"; cases "32 \<le> rd") (auto simp: feed_element_def words_needed_def split: if_splits)
qed

lemma length_data_words: "length (data_words bs) = (length bs + 31) div 32"
proof (induction "length bs" arbitrary: bs rule: less_induct)
  case less
  show ?case
  proof (cases "bs = []")
    case False
    then have ch: "chunks 32 bs = take 32 bs # chunks 32 (drop 32 bs)" by (subst chunks.simps) simp
    have "length (data_words (drop 32 bs)) = (length (drop 32 bs) + 31) div 32" using False by (intro less) simp
    then show ?thesis using False ceil32 [of "length bs"] by (simp add: data_words_def ch)
  qed (simp add: data_words_def chunks.simps)
qed

abbreviation continuation :: "u8 \<Rightarrow> u16 \<Rightarrow> h256 \<times> h256 \<Rightarrow> vm2_event" where
  "continuation shard tx p \<equiv> (case p of (k, v) \<Rightarrow> \<lparr>v2_shard_id = shard, v2_is_first = False, v2_tx_number = tx, v2_key = k, v2_value = v\<rparr>)"

text \<open>The continuation messages complete a pending event exactly with their last word.\<close>

lemma fast_merge_continuation:
  assumes "words_needed rd rt = length ws" "ws \<noteq> []"
    and "feed_all ws (rd, rt, acc_topics acc, acc_data acc) = (rd', rt', topics, data)"
  shows "fast_merge usz bn (map (continuation (acc_shard_id acc) (acc_tx_number_in_block acc)) (pair_words ws) @ rest) (Some (rd, rt, acc)) =
    and_then (acc_into_vm_event bn (acc\<lparr>acc_topics := topics, acc_data := data\<rparr>)) (\<lambda>v. map_res (Cons v) (fast_merge usz bn rest None))"
  using assms
proof (induction ws arbitrary: rd rt acc rule: pair_words.induct)
  case 1
  then show ?case by simp
next
  case (2 w)
  then have fd: "feed_element w (rd, rt, acc_topics acc, acc_data acc) = (rd', rt', topics, data)" by (simp add: feed_all_def)
  from feed_element_needed [OF fd] 2(1) have "words_needed rd' rt' = 0" by simp
  then have "rd' = 0" "rt' = 0" by simp_all
  with fd show ?case by (simp add: feed_pair_def feed_complete)
next
  case (3 v w ws)
  obtain rd1 rt1 t1 d1 where f1: "feed_element v (rd, rt, acc_topics acc, acc_data acc) = (rd1, rt1, t1, d1)" by (metis prod_cases4)
  obtain rd2 rt2 t2 d2 where f2: "feed_element w (rd1, rt1, t1, d1) = (rd2, rt2, t2, d2)" by (metis prod_cases4)
  have need: "words_needed rd2 rt2 = length ws"
    using feed_element_needed [OF f1] feed_element_needed [OF f2] 3(2) by simp
  let ?acc = "acc\<lparr>acc_topics := t2, acc_data := d2\<rparr>"
  have rest: "feed_all ws (rd2, rt2, t2, d2) = (rd', rt', topics, data)" using 3(4) f1 f2 by (simp add: feed_all_def)
  show ?case
  proof (cases "ws = []")
    case True
    with need rest have "rd2 = 0" "rt2 = 0" "t2 = topics" "d2 = data" by (auto simp: feed_all_def)
    with True f1 f2 show ?thesis by (simp add: feed_pair_def)
  next
    case False
    with need have "rd2 \<noteq> 0 \<or> rt2 \<noteq> 0" by (metis length_0_conv words_needed_0)
    then have "fast_merge usz bn (map (continuation (acc_shard_id acc) (acc_tx_number_in_block acc)) (pair_words (v # w # ws)) @ rest) (Some (rd, rt, acc)) =
        fast_merge usz bn (map (continuation (acc_shard_id ?acc) (acc_tx_number_in_block ?acc)) (pair_words ws) @ rest) (Some (rd2, rt2, ?acc))"
      using f1 f2 by (simp add: feed_pair_def)
    then show ?thesis using 3(1) [OF need False, of ?acc] rest by simp
  qed
qed

definition sendable :: "sent_event \<Rightarrow> bool" where
  "sendable se \<longleftrightarrow> length (se_topics se) + 1 < 2 ^ 32 \<and> length (se_data se) < 2 ^ 32"

lemma fast_merge_event:
  assumes "sendable se" "\<And>cur. fast_merge usz bn rest cur = and_then (close_pending bn cur) (\<lambda>vs. Inr (vs @ es))"
  shows "fast_merge usz bn (event_messages se @ rest) cur = and_then (close_pending bn cur) (\<lambda>vs. Inr (vs @ vm_event_of bn se # es))"
proof -
  let ?t = "length (se_topics se)" and ?d = "length (se_data se)" and ?ws = "se_topics se @ data_words (se_data se)"
  let ?acc = "\<lparr>acc_shard_id = se_shard_id se, acc_tx_number_in_block = se_tx_number se, acc_topics = [se_address_topic se], acc_data = []\<rparr>"
  let ?cont = "map (continuation (se_shard_id se) (se_tx_number se)) (pair_words ?ws)"
  have start: "start_event usz (word_of_nat (?t + 1 + ?d * 2 ^ 32)) (se_address_topic se) = (?d, ?t, [se_address_topic se], [])"
    using start_event_counts [of "?t + 1" ?d usz "se_address_topic se"] assms(1) by (simp add: sendable_def)
  have fin: "acc_into_vm_event bn (?acc\<lparr>acc_topics := se_address_topic se # se_topics se, acc_data := se_data se\<rparr>) = Inr (vm_event_of bn se)"
    by (simp add: acc_into_vm_event_def vm_event_of_def)
  have "fast_merge usz bn (?cont @ rest) (Some (?d, ?t, ?acc)) = Inr (vm_event_of bn se # es)"
  proof (cases "?ws = []")
    case True
    then have "se_topics se = []" "se_data se = []" using length_data_words [of "se_data se"] ceil32 [of ?d] by auto
    with fin assms(2) [of "Some (?d, ?t, ?acc)"] show ?thesis by (simp add: data_words_def chunks.simps close_pending_def)
  next
    case False
    have "words_needed ?d ?t = length ?ws" by (simp add: words_needed_def length_data_words)
    from fast_merge_continuation [OF this False, of ?acc 0 0 "se_address_topic se # se_topics se" "se_data se"]
    show ?thesis using feed_event [of "se_topics se" "se_data se" "[se_address_topic se]" "[]"] fin assms(2) [of None]
      by (simp add: close_pending_def)
  qed
  then show ?thesis using start by (simp add: event_messages_def)
qed

text \<open>
  Events survive being sent as messages: for every list of events with fewer than 2 to the 32 topics and data bytes each,
  merging the messages the event writer sends for them gives the events back, in order, whatever the parity
  and the padding of their words.
\<close>

theorem merge_events_roundtrip:
  assumes "list_all sendable ses"
  shows "fast_merge_events usz (concat (map event_messages ses)) bn = Inr (map (vm_event_of bn) ses)"
proof -
  have "fast_merge usz bn (concat (map event_messages ses)) cur = and_then (close_pending bn cur) (\<lambda>vs. Inr (vs @ map (vm_event_of bn) ses))" for cur
    using assms
  proof (induction ses arbitrary: cur)
    case Nil
    then show ?case by (cases "close_pending bn cur") auto
  next
    case (Cons se ses)
    then show ?case using fast_merge_event [of se usz bn "concat (map event_messages ses)" "map (vm_event_of bn) ses"] by simp
  qed
  then show ?thesis by (simp add: fast_merge_events_def close_pending_def)
qed

section \<open>Reading events\<close>

definition L1_MESSENGER_ADDRESS :: address where "L1_MESSENGER_ADDRESS = 0x8008"

definition DEPLOY_EVENT_SIGNATURE :: h256 where
  "DEPLOY_EVENT_SIGNATURE = 0x290afdae231a3fc0bbae8b1af63698b0a1d79b21ad17df0342dfb952fe74f8e5"
definition L1_MESSENGER_BYTECODE_PUBLICATION_EVENT_SIGNATURE :: h256 where
  "L1_MESSENGER_BYTECODE_PUBLICATION_EVENT_SIGNATURE = 0x480d3c9f727b5e5c1203d4c61fb185d37f08e6b2dc5e9bbf98591b1a7addf57c"
definition PUBLISHED_BYTECODE_SIGNATURE :: h256 where
  "PUBLISHED_BYTECODE_SIGNATURE = 0xc94722ff13eacf53547c4741dab5228353a05938ffcdd5d4a2d533ae0e618287"
definition L1_MESSAGE_EVENT_SIGNATURE :: h256 where
  "L1_MESSAGE_EVENT_SIGNATURE = 0x3a36e47291f4201faf137fab081d92295bce2d53be2c6ca68ba82c7faa9ce241"

definition extract_long_l2_to_l1_messages :: "abi \<Rightarrow> vm_event list \<Rightarrow> u8 list list res" where
  "extract_long_l2_to_l1_messages A events =
     collect_res (map (\<lambda>event.
         and_then (ok_or (Panic (PanicMsg ''Failed to decode L1MessageSent message'')) (abi_decode A [ParamBytes] (ve_value event)))
           (\<lambda>tokens. case tokens of
              [] \<Rightarrow> Inl (Panic (PanicMsg ''unwrap on None''))
            | t # _ \<Rightarrow> ok_or (Panic (PanicMsg ''unwrap on None'')) (into_bytes t)))
       (filter (\<lambda>event. ve_address event = L1_MESSENGER_ADDRESS \<and> length (ve_indexed_topics event) = 3
          \<and> ve_indexed_topics event ! 0 = L1_MESSAGE_EVENT_SIGNATURE) events))"

definition is_marked_as_known :: "vm_event \<Rightarrow> bool" where
  "is_marked_as_known event \<longleftrightarrow> ve_address event = KNOWN_CODES_STORAGE_ADDRESS \<and> length (ve_indexed_topics event) = 3
     \<and> ve_indexed_topics event ! 0 = PUBLISHED_BYTECODE_SIGNATURE"

definition extract_published_bytecodes :: "vm_event list \<Rightarrow> h256 list" where
  "extract_published_bytecodes events =
     map (\<lambda>event. ve_indexed_topics event ! 1)
       (filter (\<lambda>event. is_marked_as_known event \<and> ve_indexed_topics event ! 2 \<noteq> 0) events)"

definition extract_bytecodes_marked_as_known :: "vm_event list \<Rightarrow> h256 list" where
  "extract_bytecodes_marked_as_known events =
     map (\<lambda>event. ve_indexed_topics event ! 1) (filter is_marked_as_known events)"

definition l2_to_l1_log_params :: "param_type list" where
  "l2_to_l1_log_params = [ParamTuple [ParamUint 8, ParamBool, ParamUint 16, ParamAddress, ParamFixedBytes 32, ParamFixedBytes 32]]"

definition log_of_tokens :: "abi_token list \<Rightarrow> l1_messenger_log res" where
  "log_of_tokens tokens =
     (case tokens of
        [TokenUint shard, TokenBool service, TokenUint tx, TokenAddress sndr, TokenFixedBytes kb, TokenFixedBytes vb] \<Rightarrow>
          Inr \<lparr>ml_l2_shard_id = ucast (ucast shard :: u64), ml_is_service = service, ml_tx_number_in_block = ucast (ucast tx :: u64),
               ml_sender = sndr, ml_key = from_be_bytes kb, ml_value = from_be_bytes vb\<rparr>
      | _ \<Rightarrow> Inl (Panic (PanicMsg ''Invalid tuple types'')))"

definition extract_l2tol1logs_from_l1_messenger ::
  "abi \<Rightarrow> (string \<Rightarrow> param_type list \<Rightarrow> h256) \<Rightarrow> vm_event list \<Rightarrow> l1_messenger_log list res" where
  "extract_l2tol1logs_from_l1_messenger A long_signature events =
     (let signature = long_signature ''L2ToL1LogSent'' l2_to_l1_log_params in
      collect_res (map (\<lambda>event.
          and_then (ok_or (Panic (PanicMsg ''Failed to decode L2ToL1LogSent message'')) (abi_decode A l2_to_l1_log_params (ve_value event)))
            (\<lambda>tokens. case tokens of
               [] \<Rightarrow> Inl (Panic (PanicMsg ''unwrap on None''))
             | TokenTuple ts # _ \<Rightarrow> log_of_tokens ts
             | _ \<Rightarrow> Inl (Panic (PanicMsg ''Tuple was expected''))))
        (filter (\<lambda>event. ve_address event = L1_MESSENGER_ADDRESS \<and> ve_indexed_topics event \<noteq> []
           \<and> ve_indexed_topics event ! 0 = signature) events)))"

definition extract_bytecode_publication_requests_from_l1_messenger :: "abi \<Rightarrow> vm_event list \<Rightarrow> h256 list res" where
  "extract_bytecode_publication_requests_from_l1_messenger A events =
     collect_res (map (\<lambda>event.
         and_then (ok_or (Panic (PanicMsg ''Failed to decode BytecodeL1PublicationRequested message''))
             (abi_decode A [ParamFixedBytes 32] (ve_value event)))
           (\<lambda>tokens. case tokens of
              [] \<Rightarrow> Inl (Panic (PanicMsg ''removal index (is 0) should be < len (is 0)''))
            | t # _ \<Rightarrow> and_then (ok_or (Panic (PanicMsg ''unwrap on None'')) (into_fixed_bytes t)) (\<lambda>bs.
                ensure (length bs = 32) (Panic (PanicMsg ''H256::from_slice'')) (Inr (from_be_bytes bs)))))
       (filter (\<lambda>event. ve_address event = L1_MESSENGER_ADDRESS \<and> ve_indexed_topics event \<noteq> []
          \<and> ve_indexed_topics event ! 0 = L1_MESSENGER_BYTECODE_PUBLICATION_EVENT_SIGNATURE) events))"

text \<open>Reading the log of a tuple that was built from it gives the log back.\<close>

definition tokens_of_log :: "l1_messenger_log \<Rightarrow> abi_token list" where
  "tokens_of_log l = [TokenUint (ucast (ml_l2_shard_id l)), TokenBool (ml_is_service l), TokenUint (ucast (ml_tx_number_in_block l)),
     TokenAddress (ml_sender l), TokenFixedBytes (be_bytes 32 (ml_key l)), TokenFixedBytes (be_bytes 32 (ml_value l))]"

lemma log_of_tokens_of_log: "log_of_tokens (tokens_of_log l) = Inr l"
proof -
  have "ucast (ucast (ucast (a :: u8) :: u256) :: u64) = a" for a by (rule bit_word_eqI) (simp add: bit_simps)
  moreover have "ucast (ucast (ucast (a :: u16) :: u256) :: u64) = a" for a by (rule bit_word_eqI) (simp add: bit_simps)
  ultimately show ?thesis by (cases l) (simp add: log_of_tokens_def tokens_of_log_def)
qed

end
