(* ===== verification/Oracle_Examples.thy ===== *)
theory Oracle_Examples
  imports Oracle_Rollback Vm_Memory Vm_Events "HOL-Library.Product_Lexorder"
begin

text \<open>
  Concrete runs of the storage oracle, the memory, the event sink and the event merging. They meet the hypotheses of
  the theorems on those components.
\<close>

section \<open>Storage\<close>

text \<open>One iteration order of a hash map: by address and slot.\<close>

definition key_order :: "transient_storage \<Rightarrow> storage_key list" where
  "key_order m = map (\<lambda>(a, s). \<lparr>account = a, slot = s\<rparr>) (sorted_list_of_set ((\<lambda>k. (account k, slot k)) ` dom m))"

definition demo_zk :: zkevm where
  "demo_zk = \<lparr>time_delta_per_cycle = 4, storage_aux_byte = 0, transient_storage_aux_byte = 4, storage_access_cold_read_cost = 2000,
     storage_access_cold_write_cost = 4000, storage_access_warm_read_cost = 10, storage_access_warm_write_cost = 20,
     access_refund = (\<lambda>r. case r of Cold \<Rightarrow> 0 | Warm n \<Rightarrow> n), zk_keccak = (\<lambda>_. 0), zk_blake = (\<lambda>_. 7), hash_map_order = key_order\<rparr>"

definition demo_view :: storage_view_state where
  "demo_view = storage_view_new \<lparr>snap_storage = (\<lambda>_. Some (Some (5, 1))), snap_factory_deps = Map.empty\<rparr>"

definition demo_query :: "u8 \<Rightarrow> timestamp \<Rightarrow> bool \<Rightarrow> u256 \<Rightarrow> log_query" where
  "demo_query aux ts rw v = \<lparr>lq_timestamp = ts, lq_tx_number_in_block = 0, lq_aux_byte = aux, lq_shard_id = 0, lq_address = 1, lq_key = 2,
     lq_read_value = 0, lq_written_value = v, lq_rw_flag = rw, lq_rollback = False, lq_is_service = False\<rparr>"

definition demo_ops :: "oracle_op list" where
  "demo_ops = [OpStartFrame 4, OpQuery (demo_query 0 8 True 9), OpQuery (demo_query 4 8 True 6), OpFinishFrame 12 True,
     OpQuery (demo_query 0 16 False 0), OpQuery (demo_query 4 16 False 0)]"

lemma key_order_lawful:
  assumes "finite (dom m)"
  shows "distinct (key_order m)" "set (key_order m) = dom m"
proof -
  have inj: "inj_on (\<lambda>(a, s). \<lparr>account = a, slot = s\<rparr>) A" for A by (auto simp: inj_on_def)
  have eta: "\<lparr>account = account k, slot = slot k\<rparr> = k" for k :: storage_key by (cases k) simp
  have "(\<lambda>(a, s). \<lparr>account = a, slot = s\<rparr>) ` (\<lambda>k. (account k, slot k)) ` dom m = dom m"
    unfolding image_image prod.case eta by (rule image_ident)
  then show "distinct (key_order m)" "set (key_order m) = dom m"
    using assms inj by (simp_all add: key_order_def distinct_map)
qed

lemma demo_lawful: "lawful_zkevm demo_zk"
  by (simp add: lawful_zkevm_def demo_zk_def key_order_lawful)

lemma demo_storage: "storage_holds (zk_blake demo_zk) demo_view (\<lambda>_. Inr 5)"
  by (simp add: storage_holds_def demo_view_def overlaid_value_def storage_view_new_def snapshot_read_value_def snapshot_entry_def
      fun_eq_iff cache_coherent_def)

lemmas demo_oracle_defs = demo_zk_def demo_query_def demo_ops_def storage_key_of_log_def triplet_to_storage_key_def

lemma demo_spec:
  "spec_run demo_zk demo_ops \<lparr>ns_persistent = (\<lambda>_. Inr 5), ns_transient = \<lambda>_. 0, ns_saved = []\<rparr> =
     Some ([5, 0, 5, 0], \<lparr>ns_persistent = (\<lambda>_. Inr 5), ns_transient = \<lambda>_. 0, ns_saved = []\<rparr>)"
  by (simp add: demo_oracle_defs Let_def)

lemma demo_times: "times_from (time_delta_per_cycle demo_zk) 0 (map op_time demo_ops)"
  by (simp add: demo_oracle_defs normalize_timestamp_def)

theorem storage_oracle_refines_witness:
  "\<exists>so'. run_ops demo_zk demo_ops (storage_oracle_new HistoryEnabled demo_view) = Inr ([5, 0, 5, 0], so') \<and>
     storage_holds (zk_blake demo_zk) (hr_inner (so_storage so')) (\<lambda>_. Inr 5) \<and>
     transient_holds (hr_inner (so_transient_storage so')) (\<lambda>_. 0)"
  using storage_oracle_refines [OF demo_storage demo_lawful demo_times demo_spec] by simp

lemma demo_oracle_run:
  obtains so' where "run_ops demo_zk demo_ops (storage_oracle_new HistoryEnabled demo_view) = Inr ([5, 0, 5, 0], so')"
  using run_ops_sim [OF oracle_matches_new [where mode = HistoryEnabled, OF demo_storage] demo_spec demo_lawful demo_times]
  by (auto simp: returns_iff)

lemma demo_oracle_journalled:
  "journalled demo_zk (storage_oracle_new HistoryEnabled demo_view)" "oracle_settled 4 (storage_oracle_new HistoryEnabled demo_view)"
  "\<forall>op \<in> set demo_ops. 4 \<le> normalize_timestamp (time_delta_per_cycle demo_zk) (op_time op)"
  by (simp_all add: journalled_def oracle_settled_def storage_oracle_new_def from_inner_def adf_default_def settled_before_def
      demo_view_def demo_ops_def demo_query_def demo_zk_def normalize_timestamp_def)

theorem oracle_rollback_restores_witness:
  "\<exists>so' so''. run_ops demo_zk demo_ops (storage_oracle_new HistoryEnabled demo_view) = Inr ([5, 0, 5, 0], so') \<and>
     oracle_rollback_to_timestamp demo_zk so' 4 = Inr so'' \<and> same_oracle demo_zk so'' (storage_oracle_new HistoryEnabled demo_view)"
proof -
  obtain so' where run: "run_ops demo_zk demo_ops (storage_oracle_new HistoryEnabled demo_view) = Inr ([5, 0, 5, 0], so')"
    by (rule demo_oracle_run)
  show ?thesis using oracle_rollback_restores [OF demo_oracle_journalled run] run by blast
qed

section \<open>Memory\<close>

definition demo_word :: primitive_value where
  "demo_word = \<lparr>pv_value = 0, pv_is_pointer = False\<rparr>"

definition demo_memory :: simple_memory where
  "demo_memory = simple_memory_default HistoryEnabled"

definition demo_write :: memory_query where
  "demo_write = \<lparr>mq_timestamp = 8, mq_memory_type = Heap, mq_page = 10, mq_index = 0, mq_value = 77, mq_value_is_pointer = False, mq_rw_flag = True\<rparr>"

definition demo_memory_ops :: "memory_op list" where
  "demo_memory_ops = [MemStart 8 3 4, MemQuery demo_write]"

lemma demo_memory_run: "\<exists>sm'. run_memory 4 demo_word demo_memory demo_memory_ops = Inr sm'"
proof -
  have start: "in_time 4 4 (sm_observable_pages demo_memory)"
    by (simp add: demo_memory_def simple_memory_default_def from_inner_def in_time_def)
  obtain p where p: "push_frame 4 (sm_observable_pages demo_memory) 4 = Inr p" "in_time 4 4 p"
    using push_frame_returns [OF start] by (auto simp: returns_iff)
  obtain q where "extend_frame 4 p [3, stack_page_from_base 8, heap_page_from_base 8, aux_heap_page_from_base 8] 4 = Inr q"
    using extend_frame_returns [OF p(2)] unfolding returns_iff by blast
  then show ?thesis
    using p(1) by (simp add: demo_memory_ops_def start_global_frame_def demo_write_def memory_partial_query_def access_memory_def
        memory_write_def write_to_memory_def demo_memory_def simple_memory_default_def from_inner_def apply_historic_record_def
        memory_apply_def mutate_history_def push_event_def Let_def normalize_timestamp_def del: extend_frame.simps split: prod.splits)
qed

theorem memory_rollback_restores_witness:
  "\<exists>sm' m. run_memory 4 demo_word demo_memory demo_memory_ops = Inr sm' \<and>
     memory_rollback_to_timestamp demo_word sm' 4 = Inr (demo_memory\<lparr>sm_memory := (sm_memory demo_memory)\<lparr>hr_inner := m\<rparr>\<rparr>) \<and>
     memory_eq demo_word m (hr_inner (sm_memory demo_memory))"
proof -
  obtain sm' where run: "run_memory 4 demo_word demo_memory demo_memory_ops = Inr sm'" using demo_memory_run by blast
  have "\<exists>m. memory_rollback_to_timestamp demo_word sm' 4 = Inr (demo_memory\<lparr>sm_memory := (sm_memory demo_memory)\<lparr>hr_inner := m\<rparr>\<rparr>) \<and>
     memory_eq demo_word m (hr_inner (sm_memory demo_memory))"
    by (rule memory_rollback_restores [OF _ _ _ _ _ _ run])
      (simp_all add: demo_memory_def simple_memory_default_def from_inner_def wf_memory_def settled_before_def
        demo_memory_ops_def demo_write_def normalize_timestamp_def)
  with run show ?thesis by blast
qed

definition demo_frame_memory :: simple_memory where
  "demo_frame_memory = \<lparr>sm_memory = from_inner HistoryEnabled (replicate 20 []),
     sm_observable_pages = from_inner HistoryEnabled \<lparr>fs_data = [3] @ [3, 9, 10, 11], frame_start_indices = [0] @ [length [3 :: u32]]\<rparr>\<rparr>"

theorem finish_global_frame_correct_witness:
  "\<exists>sm'. finish_global_frame 4 demo_word demo_frame_memory 8 1 10 4 = Inr sm' \<and>
     hr_inner (sm_observable_pages sm') = \<lparr>fs_data = [3, 10], frame_start_indices = [0]\<rparr>"
  using finish_global_frame_correct [of demo_frame_memory 4 4 "[3]" "[3, 9, 10, 11]" "[0]" demo_word 8 1 10]
  by (auto simp: demo_frame_memory_def from_inner_def in_time_def CODE_ORACLE_ADDRESS_def)

section \<open>Events\<close>

definition demo_ec :: event_consts where
  "demo_ec = \<lparr>event_aux_byte = 2, l1_message_aux_byte = 1, bootloader_formal_address = 0x8001, ec_time_delta = 4\<rparr>"

definition demo_sink_ops :: "sink_op list" where
  "demo_sink_ops = [SinkAdd (demo_query 2 4 True 1), SinkStart 8, SinkAdd (demo_query 2 12 True 2), SinkFinish True 16,
     SinkAdd (demo_query 1 20 True 3)]"

lemma demo_log_run:
  "log_run demo_ec demo_sink_ops \<lparr>el_events = [], el_frames = [[]]\<rparr> =
     Some \<lparr>el_events = [demo_query 2 4 True 1, demo_query 1 20 True 3], el_frames = [[demo_query 2 4 True 1, demo_query 1 20 True 3]]\<rparr>"
  by (simp add: demo_sink_ops_def demo_ec_def demo_query_def revertible_def)

theorem event_sink_correct_witness:
  "and_then (sink_run demo_ec demo_sink_ops (adf_default HistoryDisabled)) (flatten demo_ec) =
     Inr ([message_of_query (demo_query 2 4 True 1)], [message_of_query (demo_query 1 20 True 3)])"
  using event_sink_correct [OF demo_log_run, of HistoryDisabled]
  by (simp add: demo_sink_ops_def demo_ec_def demo_query_def normalize_timestamp_def)

definition demo_sent :: "sent_event list" where
  "demo_sent = [\<lparr>se_shard_id = 0, se_tx_number = 1, se_address_topic = 0x800a, se_topics = [1, 2], se_data = [9, 8, 7]\<rparr>]"

theorem merge_events_roundtrip_witness:
  "fast_merge_events (2 ^ 32) (concat (map event_messages demo_sent)) 3 = Inr (map (vm_event_of 3) demo_sent)"
  by (rule merge_events_roundtrip) (simp add: demo_sent_def sendable_def)

definition demo_messages :: "event_message list" where
  "demo_messages = [\<lparr>em_shard_id = 0, em_is_first = True, em_tx_number_in_block = 1, em_address = EVENT_WRITER_ADDRESS, em_key = 1, em_value = 5\<rparr>]"

theorem merge_events_equivalent_witness:
  "fast_merge_events (2 ^ 32) (map vm2_of_message demo_messages) 3 = map_res (map (sle_into_vm_event 3)) (legacy_merge_events (2 ^ 32) demo_messages)"
  by (rule merge_events_equivalent) (simp add: demo_messages_def)

end
