(* ===== verification/Fast_World.thy ===== *)
theory Fast_World
  imports Storage_Oracle Bootloader
begin

text \<open>
  The world of the fast VM, \<open>src/crates/multivm/src/versions/vm_fast/world.rs\<close>: what the interpreter of \<open>zksync_vm2\<close> asks
  for while it runs: bytecodes, storage slots, the price of a write, precompiles. Its storage is the immutable view of
  \<open>Storage_View\<close>.

  \<open>Program\<close> is a type of \<open>zksync_vm2\<close>: a type variable, with \<open>Program::new\<close> and \<open>code_page\<close> in the record \<open>program_ops\<close>. The
  precompiles of \<open>zksync_vm2\<close> and the memory they read are parameters.
\<close>

section \<open>State\<close>

record 'p program_ops =
  program_new :: "u8 list \<Rightarrow> bool \<Rightarrow> 'p"
  code_page :: "'p \<Rightarrow> u256 list"

record 'p world =
  w_storage :: storage_view_state
  w_dynamic_bytecodes :: "u256 \<rightharpoonup> u8 list"
  w_program_cache :: "u256 \<rightharpoonup> 'p"
  w_bytecode_cache :: "u256 \<rightharpoonup> u8 list"
  w_expected_ecrecover_call :: "ec_recover_call option"

definition world_new :: "storage_view_state \<Rightarrow> (u256 \<rightharpoonup> 'p) \<Rightarrow> 'p world" where
  "world_new s programs = \<lparr>w_storage = s, w_dynamic_bytecodes = Map.empty, w_program_cache = programs,
     w_bytecode_cache = Map.empty, w_expected_ecrecover_call = None\<rparr>"

definition convert_system_contract_code :: "'p program_ops \<Rightarrow> u8 list \<times> h256 \<Rightarrow> bool \<Rightarrow> u256 \<times> 'p" where
  "convert_system_contract_code P code is_bootloader = (snd code, program_new P (fst code) is_bootloader)"

definition dynamic_insert :: "'p world \<Rightarrow> u256 \<Rightarrow> u8 list \<Rightarrow> 'p world" where
  "dynamic_insert w h code = w\<lparr>w_dynamic_bytecodes := (w_dynamic_bytecodes w)(h \<mapsto> code)\<rparr>"

text \<open>The entries of the resulting hash map, a later one replacing an earlier one with the same hash.\<close>

definition decommit_dynamic_bytecodes :: "'p world \<Rightarrow> h256 list \<Rightarrow> (h256 \<rightharpoonup> u8 list)" where
  "decommit_dynamic_bytecodes w hashes =
     map_of (rev (List.map_filter (\<lambda>h. map_option (Pair h) (w_dynamic_bytecodes w h)) hashes))"

section \<open>Storage\<close>

definition ACCOUNT_CODE_STORAGE_ADDRESS :: address where "ACCOUNT_CODE_STORAGE_ADDRESS = 0x8002"

definition get_code_key :: "address \<Rightarrow> storage_key" where
  "get_code_key addr = \<lparr>account = ACCOUNT_CODE_STORAGE_ADDRESS, slot = ucast addr\<rparr>"

definition has_default_aa :: "hash_fn \<Rightarrow> 'p world \<Rightarrow> address \<Rightarrow> (bool \<times> 'p world) res" where
  "has_default_aa blake w addr =
     map_res (\<lambda>(v, s). (v = 0, w\<lparr>w_storage := s\<rparr>)) (immutable_read_value blake (w_storage w) (get_code_key addr))"

record storage_slot =
  sl_value :: u256
  sl_is_write_initial :: bool

definition world_read_storage :: "hash_fn \<Rightarrow> 'p world \<Rightarrow> address \<Rightarrow> u256 \<Rightarrow> (storage_slot \<times> 'p world) res" where
  "world_read_storage blake w contract k =
     and_then (immutable_read_value blake (w_storage w) \<lparr>account = contract, slot = k\<rparr>) (\<lambda>(v, s).
     map_res (\<lambda>(initial, s'). (\<lparr>sl_value = v, sl_is_write_initial = initial\<rparr>, w\<lparr>w_storage := s'\<rparr>))
       (view_is_write_initial blake s \<lparr>account = contract, slot = k\<rparr>))"

definition read_storage_value :: "hash_fn \<Rightarrow> 'p world \<Rightarrow> address \<Rightarrow> u256 \<Rightarrow> (u256 \<times> 'p world) res" where
  "read_storage_value blake w contract k =
     map_res (\<lambda>(v, s). (v, w\<lparr>w_storage := s\<rparr>)) (immutable_read_value blake (w_storage w) \<lparr>account = contract, slot = k\<rparr>)"

definition cost_of_writing_storage :: "storage_slot \<Rightarrow> u256 \<Rightarrow> u32" where
  "cost_of_writing_storage sl new =
     (if sl_value sl = new then 0
      else let compressed_value_size = of_nat (length (compress_with_best_strategy (sl_value sl) new))
           in if sl_is_write_initial sl then ucast BYTES_PER_DERIVED_KEY + compressed_value_size
              else ucast BYTES_PER_ENUMERATION_INDEX + compressed_value_size)"

definition is_free_storage_slot :: "hash_fn \<Rightarrow> address \<Rightarrow> u256 \<Rightarrow> bool" where
  "is_free_storage_slot keccak contract k \<longleftrightarrow>
     contract = SYSTEM_CONTEXT_ADDRESS \<or> (contract = L2_BASE_TOKEN_ADDRESS \<and> k = key_for_eth_balance keccak BOOTLOADER_ADDRESS)"

section \<open>Bytecodes\<close>

definition raw_bytecode :: "'p world \<Rightarrow> u256 \<Rightarrow> u8 list res" where
  "raw_bytecode w h =
     (case w_bytecode_cache w h of
        Some code \<Rightarrow> Inr code
      | None \<Rightarrow> (case w_dynamic_bytecodes w h of
          Some code \<Rightarrow> Inr code
        | None \<Rightarrow> ok_or (Panic (PanicMsg ''VM tried to decommit nonexistent bytecode'')) (view_load_factory_dep (w_storage w) h)))"

definition code_page_bytes :: "'p program_ops \<Rightarrow> 'p \<Rightarrow> u8 list" where
  "code_page_bytes P p = concat (map (be_bytes 32) (code_page P p))"

definition decommit :: "'p program_ops \<Rightarrow> 'p world \<Rightarrow> u256 \<Rightarrow> ('p \<times> 'p world) res" where
  "decommit P w h =
     (case w_program_cache w h of
        Some p \<Rightarrow> Inr (p, w)
      | None \<Rightarrow> map_res (\<lambda>code. let p = program_new P code False in (p, w\<lparr>w_program_cache := (w_program_cache w)(h \<mapsto> p)\<rparr>))
                 (raw_bytecode w h))"

definition decommit_code :: "'p program_ops \<Rightarrow> 'p world \<Rightarrow> u256 \<Rightarrow> u8 list res" where
  "decommit_code P w h =
     (case w_program_cache w h of
        Some p \<Rightarrow> Inr (code_page_bytes P p)
      | None \<Rightarrow> map_res (\<lambda>code. take (length code - length code mod 32) code) (raw_bytecode w h))"

section \<open>Precompiles\<close>

record 'o precompile_ops =
  ECRECOVER_INNER_FUNCTION_PRECOMPILE_ADDRESS :: u16
  precompile_output :: "u256 list \<Rightarrow> 'o"
  legacy_call_precompile :: "u16 \<Rightarrow> u8 list \<Rightarrow> u64 \<Rightarrow> 'o"

text \<open>\<open>memory\<close> is the input of the call, read from the offset the call names; \<open>precompile_output\<close> counts one ecrecover cycle.\<close>

definition call_precompile :: "'o precompile_ops \<Rightarrow> 'p world \<Rightarrow> u16 \<Rightarrow> u8 list \<Rightarrow> u64 \<Rightarrow> 'o" where
  "call_precompile Q w address_low memory aux_input =
     (case w_expected_ecrecover_call w of
        Some call \<Rightarrow>
          if address_low = ECRECOVER_INNER_FUNCTION_PRECOMPILE_ADDRESS Q \<and> ec_input call = memory
          then precompile_output Q [1, address_to_u256 (ec_output call)]
          else legacy_call_precompile Q address_low memory aux_input
      | None \<Rightarrow> legacy_call_precompile Q address_low memory aux_input)"

section \<open>Prices agree with the legacy VM\<close>

text \<open>
  Both VMs charge the same pubdata: a slot is free in the fast VM exactly when it is free in the legacy VM, and the price
  the legacy oracle asks for a write is zero on a free slot and the fast VM's cost of the write otherwise.
\<close>

theorem fast_price_is_legacy_price:
  "is_free_storage_slot (zk_keccak zk) addr k = is_storage_key_free zk \<lparr>account = addr, slot = k\<rparr> \<and>
   map_res fst (base_price_for_write zk so \<lparr>account = addr, slot = k\<rparr> prev new) =
     (if is_free_storage_slot (zk_keccak zk) addr k \<or> prev = new then Inr 0
      else map_res (\<lambda>(initial, _). cost_of_writing_storage \<lparr>sl_value = prev, sl_is_write_initial = initial\<rparr> new)
             (oracle_is_write_initial zk so \<lparr>account = addr, slot = k\<rparr>))"
proof -
  have free: "is_free_storage_slot (zk_keccak zk) addr k = is_storage_key_free zk \<lparr>account = addr, slot = k\<rparr>"
    by (simp add: is_free_storage_slot_def is_storage_key_free_def storage_key_for_eth_balance_def
        storage_key_for_standard_token_balance_def)
  have cost: "cost_of_writing_storage \<lparr>sl_value = prev, sl_is_write_initial = initial\<rparr> new = get_pubdata_price_bytes prev new initial"
    if "prev \<noteq> new" for initial
    using that by (simp add: cost_of_writing_storage_def get_pubdata_price_bytes_def Let_def)
  show ?thesis
    using cost
    by (cases "oracle_is_write_initial zk so \<lparr>account = addr, slot = k\<rparr>") (auto simp: free base_price_for_write_def)
qed

section \<open>Decommitments\<close>

text \<open>What is relied on of \<open>Program::new\<close>: the code page holds the whole 32-byte words of the bytecode.\<close>

definition lawful_programs :: "'p program_ops \<Rightarrow> bool" where
  "lawful_programs P \<longleftrightarrow>
     (\<forall>code b. code_page P (program_new P code b) = map from_be_bytes (filter (\<lambda>c. length c = 32) (chunks 32 code)))"

text \<open>The interpreter's requests, and the bytes each of them exposes to the running program.\<close>

datatype code_request = FarCall u256 | CodeOracle u256

fun request_hash :: "code_request \<Rightarrow> u256" where
  "request_hash (FarCall h) = h"
| "request_hash (CodeOracle h) = h"

fun serve_request :: "'p program_ops \<Rightarrow> code_request \<Rightarrow> 'p world \<Rightarrow> (u8 list \<times> 'p world) res" where
  "serve_request P (FarCall h) w = map_res (\<lambda>(p, w'). (code_page_bytes P p, w')) (decommit P w h)"
| "serve_request P (CodeOracle h) w = map_res (\<lambda>code. (code, w)) (decommit_code P w h)"

fun serve_requests :: "'p program_ops \<Rightarrow> code_request list \<Rightarrow> 'p world \<Rightarrow> (u8 list list \<times> 'p world) res" where
  "serve_requests P [] w = Inr ([], w)"
| "serve_requests P (r # rs) w =
     and_then (serve_request P r w) (\<lambda>(a, w'). map_res (\<lambda>(as, w''). (a # as, w'')) (serve_requests P rs w'))"

lemma whole_words:
  "concat (map (\<lambda>c. be_bytes 32 (from_be_bytes c :: u256)) (filter (\<lambda>c. length c = 32) (chunks 32 code))) =
     take (length code - length code mod 32) code"
proof (induction code rule: length_induct)
  case (1 code)
  show ?case
  proof (cases "length code < 32")
    case True
    then show ?thesis by (cases "code = []") (simp_all add: chunks.simps [of 32 code] chunks.simps [of 32 "[]"])
  next
    case False
    let ?rest = "drop 32 code"
    have "chunks 32 code = take 32 code # chunks 32 ?rest" using False by (subst chunks.simps) auto
    then have "concat (map (\<lambda>c. be_bytes 32 (from_be_bytes c :: u256)) (filter (\<lambda>c. length c = 32) (chunks 32 code))) =
        take 32 code @ take (length ?rest - length ?rest mod 32) ?rest"
      using 1 False by simp
    also have "\<dots> = take (32 + (length ?rest - length ?rest mod 32)) code" by (rule take_add [symmetric])
    also have "32 + (length ?rest - length ?rest mod 32) = length code - length code mod 32"
    proof -
      have "length code mod 32 = length ?rest mod 32" using False by (simp add: mod_if [of "length code"])
      then show ?thesis using False by simp
    qed
    finally show ?thesis .
  qed
qed

lemma code_page_whole_words:
  "lawful_programs P \<Longrightarrow> code_page_bytes P (program_new P code b) = take (length code - length code mod 32) code"
  using whole_words [of code] by (simp add: lawful_programs_def code_page_bytes_def comp_def)

lemma decommit_exposes:
  assumes "lawful_programs P"
  shows "map_res (\<lambda>(p, _). code_page_bytes P p) (decommit P w h) = decommit_code P w h"
  by (cases "raw_bytecode w h")
    (simp_all add: decommit_def decommit_code_def Let_def code_page_whole_words [OF assms] split: option.splits)

lemma decommit_keeps:
  assumes "lawful_programs P" "decommit P w h = Inr (p, w')"
  shows "decommit_code P w' h' = decommit_code P w h'"
proof (cases "w_program_cache w h")
  case None
  then obtain code where code: "raw_bytecode w h = Inr code"
    and w': "w' = w\<lparr>w_program_cache := (w_program_cache w)(h \<mapsto> program_new P code False)\<rparr>"
    using assms(2) by (auto simp: decommit_def Let_def)
  have raw: "raw_bytecode w' h' = raw_bytecode w h'" by (simp add: w' raw_bytecode_def split: option.split)
  show ?thesis
  proof (cases "h' = h")
    case True
    then show ?thesis
      unfolding decommit_code_def raw using None code by (simp add: w' code_page_whole_words [OF assms(1)])
  next
    case False
    then show ?thesis unfolding decommit_code_def raw by (simp add: w')
  qed
qed (use assms(2) in \<open>simp add: decommit_def\<close>)

lemma serve_request_answer:
  assumes "lawful_programs P"
  shows "map_res fst (serve_request P r w) = decommit_code P w (request_hash r)"
    and "serve_request P r w = Inr (a, w') \<Longrightarrow> decommit_code P w' h' = decommit_code P w h'"
proof -
  show "map_res fst (serve_request P r w) = decommit_code P w (request_hash r)"
    using decommit_exposes [OF assms, of w "request_hash r"]
    by (cases r; cases "decommit P w (request_hash r)"; cases "decommit_code P w (request_hash r)") auto
  show "serve_request P r w = Inr (a, w') \<Longrightarrow> decommit_code P w' h' = decommit_code P w h'"
    by (cases r) (auto dest: decommit_keeps [OF assms])
qed

text \<open>
  C34. The program cache is invisible to programs: in any sequence of far calls and code-oracle queries every request exposes
  the whole words of the bytecode its hash resolves to at the start, in whatever order decoding happens, and the sequence
  aborts exactly at the first hash that no source knows.
\<close>

theorem code_requests_answered:
  assumes "lawful_programs P"
  shows "map_res fst (serve_requests P rs w) = collect_res (map (\<lambda>r. decommit_code P w (request_hash r)) rs)"
proof (induction rs arbitrary: w)
  case (Cons r rs)
  note answer = serve_request_answer [OF assms, where r = r and w = w]
  show ?case
  proof (cases "serve_request P r w")
    case (Inl e)
    then show ?thesis using answer(1) by (cases "decommit_code P w (request_hash r)") auto
  next
    case (Inr aw)
    obtain a w' where aw: "aw = (a, w')" by force
    have a: "decommit_code P w (request_hash r) = Inr a" using answer(1) Inr aw by simp
    have "collect_res (map (\<lambda>r. decommit_code P w (request_hash r)) rs) = map_res fst (serve_requests P rs w')"
      using Cons.IH [of w'] answer(2) [of a w'] Inr aw by simp
    then show ?thesis using Inr aw a by (cases "serve_requests P rs w'") (auto split: prod.splits)
  qed
qed simp

end
