(* ===== verification/Fast_Bytecode.thy ===== *)
theory Fast_Bytecode
  imports Fast_World "HOL-Library.List_Lexorder"
begin

text \<open>
  Choosing the bytecodes to compress, \<open>src/crates/multivm/src/versions/vm_fast/bytecode.rs\<close>: the factory dependencies are
  sorted and deduplicated by content, those already known are left out, and the rest is compressed in its original order.
  The lemmas show that this is: every bytecode once, at its first place, if it is unknown and compresses.
\<close>

section \<open>Definitions\<close>

text \<open>\<open>dedup_by\<close> of \<open>itertools\<close>: of neighbours with the same key the first is kept.\<close>

fun dedup_by :: "('a \<Rightarrow> 'k) \<Rightarrow> 'a list \<Rightarrow> 'a list" where
  "dedup_by f [] = []"
| "dedup_by f [x] = [x]"
| "dedup_by f (x # y # xs) = (if f x = f y then dedup_by f (x # xs) else x # dedup_by f (y # xs))"

type_synonym dep_entry = "nat \<times> u8 list \<times> h256"

abbreviation entry_dep :: "dep_entry \<Rightarrow> u8 list" where "entry_dep e \<equiv> fst (snd e)"
abbreviation entry_hash :: "dep_entry \<Rightarrow> h256" where "entry_hash e \<equiv> snd (snd e)"

text \<open>The filter asks the storage, whose cache may change.\<close>

fun filter_unknown :: "('s \<Rightarrow> h256 \<Rightarrow> (bool \<times> 's) res) \<Rightarrow> dep_entry list \<Rightarrow> 's \<Rightarrow> (dep_entry list \<times> 's) res" where
  "filter_unknown is_known [] s = Inr ([], s)"
| "filter_unknown is_known (e # es) s =
     and_then (is_known s (entry_hash e)) (\<lambda>(known, s').
       map_res (\<lambda>(kept, s''). (if known then kept else e # kept, s'')) (filter_unknown is_known es s'))"

definition compress_bytecodes_with_hashes ::
  "('s \<Rightarrow> h256 \<Rightarrow> (bool \<times> 's) res) \<Rightarrow> u8 list list \<Rightarrow> h256 list \<Rightarrow> 's \<Rightarrow> (compressed_bytecode_info list \<times> 's) res" where
  "compress_bytecodes_with_hashes is_known bytecodes hashes s =
     ensure (length bytecodes = length hashes) (Panic (PanicMsg ''bytecode hashes must match bytecodes''))
     (let entries = dedup_by entry_dep (sort_key entry_dep (enumerate 0 (zip bytecodes hashes)))
      in map_res (\<lambda>(kept, s'). (List.map_filter (\<lambda>e. ok (compress_bytecode (entry_dep e))) (sort_key fst kept), s'))
           (filter_unknown is_known entries s))"

definition compress_bytecodes ::
  "hash_fn \<Rightarrow> ('s \<Rightarrow> h256 \<Rightarrow> (bool \<times> 's) res) \<Rightarrow> u8 list list \<Rightarrow> 's \<Rightarrow> (compressed_bytecode_info list \<times> 's) res" where
  "compress_bytecodes sha256 is_known bytecodes s =
     and_then (collect_res (map (for_bytecode sha256) bytecodes)) (\<lambda>hashes.
       compress_bytecodes_with_hashes is_known bytecodes hashes s)"

section \<open>Sorting and deduplication\<close>

lemma dedup_by_head:
  "sorted (map f (x # xs)) \<Longrightarrow> e \<in> set (dedup_by f (x # xs)) \<longleftrightarrow>
     e \<in> set (x # xs) \<and> e = hd (filter (\<lambda>y. f y = f e) (x # xs))"
proof (induction f "x # xs" arbitrary: x xs rule: dedup_by.induct)
  case (2 f x)
  then show ?case by auto
next
  case (3 f x y xs)
  show ?case
  proof (cases "f x = f y")
    case True
    have s: "sorted (map f (x # xs))" using 3 (3) by auto
    show ?thesis using True 3 (1) [OF True s] by auto
  next
    case False
    have s: "sorted (map f (y # xs))" using 3 (3) by auto
    have "f x < f z" if "z \<in> set (y # xs)" for z using 3 (3) False that by (auto simp: less_le)
    then have "f z \<noteq> f x" if "z \<in> set (y # xs)" for z using that by force
    then show ?thesis using False 3 (2) [OF False s] by (auto; metis)
  qed
qed

lemma dedup_by_set:
  assumes "sorted (map f xs)"
  shows "set (dedup_by f xs) = {e \<in> set xs. e = hd (filter (\<lambda>y. f y = f e) xs)}"
  using assms by (cases xs) (auto simp: dedup_by_head)

lemma dedup_by_subset: "set (dedup_by f xs) \<subseteq> set xs"
  by (induction f xs rule: dedup_by.induct) auto

lemma dedup_by_distinct: "distinct xs \<Longrightarrow> distinct (dedup_by f xs)"
proof (induction f xs rule: dedup_by.induct)
  case (3 f x y xs)
  then show ?case using dedup_by_subset [of f "y # xs"] by auto
qed auto

text \<open>Two lists sorted by a key that is injective on them are equal when they hold the same elements.\<close>

lemma sorted_key_unique:
  assumes "sorted (map f xs)" "sorted (map f ys)" "distinct xs" "distinct ys" "set xs = set ys" "inj_on f (set xs)"
  shows "xs = ys"
proof -
  have "map f xs = map f ys"
    using assms by (intro sorted_distinct_set_unique) (auto simp: distinct_map)
  then show ?thesis using assms(5,6) map_inj_on [of f xs ys] by simp
qed

lemma hd_filter_upt:
  assumes "i < n" "Q i"
  shows "hd (filter Q [0..<n]) = i \<longleftrightarrow> (\<forall>j < i. \<not> Q j)"
proof -
  have split: "[0..<n] = [0..<i] @ i # [Suc i..<n]"
    using assms(1) upt_add_eq_append [of 0 i "n - i"] upt_conv_Cons [of i n] by simp
  show ?thesis
  proof (cases "filter Q [0..<i] = []")
    case True
    then show ?thesis using assms(2) by (auto simp: split filter_empty_conv)
  next
    case False
    then have "hd (filter Q [0..<i]) \<in> set (filter Q [0..<i])" by (rule hd_in_set)
    moreover have "hd (filter Q [0..<n]) = hd (filter Q [0..<i])" using False by (simp add: split)
    ultimately show ?thesis by fastforce
  qed
qed

lemma enumerate_zip:
  "length bs = length hs \<Longrightarrow> enumerate 0 (zip bs hs) = map (\<lambda>i. (i, bs ! i, hs ! i)) [0..<length bs]"
  by (rule nth_equalityI) (simp_all add: nth_enumerate_eq)

lemma dedup_entries:
  assumes "length bs = length hs"
  shows "set (dedup_by entry_dep (sort_key entry_dep (enumerate 0 (zip bs hs)))) =
    (\<lambda>i. (i, bs ! i, hs ! i)) ` {i. i < length bs \<and> bs ! i \<notin> set (take i bs)}"
proof -
  let ?g = "\<lambda>i. (i, bs ! i, hs ! i)" and ?E = "enumerate 0 (zip bs hs)" and ?n = "length bs"
  have E: "?E = map ?g [0..<?n]" by (rule enumerate_zip [OF assms])
  have first: "?g i = hd (filter (\<lambda>y. entry_dep y = bs ! i) ?E) \<longleftrightarrow> bs ! i \<notin> set (take i bs)" if "i < ?n" for i
  proof -
    let ?f = "filter (\<lambda>j. bs ! j = bs ! i) [0..<?n]"
    have ne: "?f \<noteq> []" using that by (auto simp: filter_empty_conv)
    have "hd (filter (\<lambda>y. entry_dep y = bs ! i) ?E) = ?g (hd ?f)"
      unfolding E filter_map comp_def using ne by (simp add: hd_map)
    moreover have "hd ?f \<in> set ?f" using ne by (rule hd_in_set)
    moreover have "hd ?f = i \<longleftrightarrow> (\<forall>j < i. bs ! j \<noteq> bs ! i)" by (rule hd_filter_upt) (use that in simp_all)
    moreover have "bs ! i \<notin> set (take i bs) \<longleftrightarrow> (\<forall>j < i. bs ! j \<noteq> bs ! i)"
      using that by (auto simp: in_set_conv_nth)
    ultimately show ?thesis by auto
  qed
  have "set (dedup_by entry_dep (sort_key entry_dep ?E)) = {e \<in> set ?E. e = hd (filter (\<lambda>y. entry_dep y = entry_dep e) ?E)}"
    by (subst dedup_by_set) (simp_all add: sort_key_stable)
  also have "\<dots> = ?g ` {i. i < ?n \<and> bs ! i \<notin> set (take i bs)}"
    using first by (auto simp: E)
  finally show ?thesis .
qed

lemma filter_unknown_keeps:
  assumes "\<forall>s h. ok_store s \<longrightarrow> (\<exists>s'. is_known s h = Inr (known h, s') \<and> ok_store s')" "ok_store s"
  shows "\<exists>s'. filter_unknown is_known es s = Inr (filter (\<lambda>e. \<not> known (entry_hash e)) es, s')"
  using assms(2)
proof (induction es arbitrary: s)
  case (Cons e es)
  obtain s' where "is_known s (entry_hash e) = Inr (known (entry_hash e), s')" "ok_store s'" using assms(1) Cons.prems by blast
  then show ?case using Cons.IH [of s'] by auto
qed simp

text \<open>
  The bytecodes to compress are chosen by content and keep their order: whatever the sort does in between, the result
  lists the compressed form of every dependency at its first occurrence that the storage does not know and that compresses.
\<close>

theorem compress_bytecodes_first_unknown:
  assumes "length bytecodes = length hashes" "ok_store s"
    and "\<forall>s h. ok_store s \<longrightarrow> (\<exists>s'. is_known s h = Inr (known h, s') \<and> ok_store s')"
  shows "map_res fst (compress_bytecodes_with_hashes is_known bytecodes hashes s) =
    Inr (List.map_filter (\<lambda>i. ok (compress_bytecode (bytecodes ! i)))
      (filter (\<lambda>i. bytecodes ! i \<notin> set (take i bytecodes) \<and> \<not> known (hashes ! i)) [0..<length bytecodes]))"
proof -
  let ?g = "\<lambda>i. (i, bytecodes ! i, hashes ! i)" and ?E = "enumerate 0 (zip bytecodes hashes)"
  let ?D = "dedup_by entry_dep (sort_key entry_dep ?E)" and ?P = "\<lambda>e. \<not> known (entry_hash e)"
  let ?I = "filter (\<lambda>i. bytecodes ! i \<notin> set (take i bytecodes) \<and> \<not> known (hashes ! i)) [0..<length bytecodes]"
  have "sort_key fst (filter ?P ?D) = map ?g ?I"
  proof (rule sorted_key_unique [where f = fst])
    show "set (sort_key fst (filter ?P ?D)) = set (map ?g ?I)" using dedup_entries [OF assms(1)] by auto
    have "distinct ?E" by (simp add: distinct_enumerate)
    then show "distinct (sort_key fst (filter ?P ?D))" by (simp add: dedup_by_distinct distinct_sort)
    show "distinct (map ?g ?I)" by (simp add: distinct_map inj_on_def)
    show "inj_on fst (set (sort_key fst (filter ?P ?D)))" using dedup_entries [OF assms(1)] by (auto simp: inj_on_def)
  qed (simp_all add: comp_def sorted_filter [where f = id, simplified])
  moreover obtain s' where "filter_unknown is_known ?D s = Inr (filter ?P ?D, s')"
    using filter_unknown_keeps [OF assms(3,2)] by blast
  ultimately show ?thesis
    using assms(1) by (simp add: compress_bytecodes_with_hashes_def List.map_filter_def filter_map comp_def)
qed

end
