(* ===== verification/Revert_Reason.thy ===== *)
theory Revert_Reason
  imports Prelude
begin

text \<open>
  Errors of the VM, \<open>src/crates/vm_interface/src/types/errors/\<close>: the bytes a reverted bootloader returns are parsed into
  a revert reason or a halt. The bytes come from contracts, so the parser has to be total: the lemmas show what it answers
  on every input and on every width of \<open>usize\<close>.

  A Rust \<open>String\<close> is the list of its UTF-8 bytes, as characters. \<open>usz\<close> is the number of \<open>usize\<close> values, 2 to the 32 in the
  guest. \<open>hex::encode\<close> is the parameter \<open>hex\<close>.
\<close>

section \<open>Lossy UTF-8 decoding\<close>

text \<open>\<open>String::from_utf8_lossy\<close>: whether a scalar value starts the bytes, and how many bytes it or the faulty prefix has.\<close>

definition is_continuation :: "u8 option \<Rightarrow> bool" where
  "is_continuation b = (case b of Some x \<Rightarrow> x AND 0xC0 = 0x80 | None \<Rightarrow> False)"

definition in_range :: "u8 option \<Rightarrow> u8 \<Rightarrow> u8 \<Rightarrow> bool" where
  "in_range b lo hi = (case b of Some x \<Rightarrow> lo \<le> x \<and> x \<le> hi | None \<Rightarrow> False)"

definition byte_at :: "u8 list \<Rightarrow> nat \<Rightarrow> u8 option" where
  "byte_at bs i = (if i < length bs then Some (bs ! i) else None)"

definition second_ok :: "u8 \<Rightarrow> u8 option \<Rightarrow> bool" where
  "second_ok b c =
     (if b = 0xE0 then in_range c 0xA0 0xBF
      else if b = 0xED then in_range c 0x80 0x9F
      else if b = 0xF0 then in_range c 0x90 0xBF
      else if b = 0xF4 then in_range c 0x80 0x8F
      else in_range c 0x80 0xBF)"

definition utf8_step :: "u8 list \<Rightarrow> bool \<times> nat" where
  "utf8_step bs =
     (case bs of
        [] \<Rightarrow> (True, 0)
      | b # rest \<Rightarrow>
          if b < 0x80 then (True, 1)
          else if 0xC2 \<le> b \<and> b \<le> 0xDF then
            (if is_continuation (byte_at rest 0) then (True, 2) else (False, 1))
          else if 0xE0 \<le> b \<and> b \<le> 0xEF then
            (if \<not> second_ok b (byte_at rest 0) then (False, 1)
             else if \<not> is_continuation (byte_at rest 1) then (False, 2) else (True, 3))
          else if 0xF0 \<le> b \<and> b \<le> 0xF4 then
            (if \<not> second_ok b (byte_at rest 0) then (False, 1)
             else if \<not> is_continuation (byte_at rest 1) then (False, 2)
             else if \<not> is_continuation (byte_at rest 2) then (False, 3) else (True, 4))
          else (False, 1))"

lemma utf8_step_pos: "bs \<noteq> [] \<Longrightarrow> 0 < snd (utf8_step bs)"
  by (cases bs) (auto simp: utf8_step_def)

lemma byte_at_append: "i < length bs \<Longrightarrow> byte_at (bs @ cs) i = byte_at bs i"
  by (simp add: byte_at_def nth_append)

lemma is_continuation_at:
  assumes "is_continuation (byte_at bs i)"
  shows "i < length bs" "is_continuation (byte_at (bs @ cs) i)"
proof -
  show "i < length bs" using assms by (auto simp: is_continuation_def byte_at_def split: if_splits)
  then show "is_continuation (byte_at (bs @ cs) i)" using assms byte_at_append by metis
qed

lemma second_ok_at:
  assumes "second_ok b (byte_at bs i)"
  shows "i < length bs" "second_ok b (byte_at (bs @ cs) i)"
proof -
  show "i < length bs"
    using assms by (simp add: second_ok_def in_range_def byte_at_def split: if_splits)
  then show "second_ok b (byte_at (bs @ cs) i)" using assms byte_at_append by metis
qed

definition REPLACEMENT :: "u8 list" where "REPLACEMENT = [0xEF, 0xBF, 0xBD]"

function from_utf8_lossy_bytes :: "u8 list \<Rightarrow> u8 list" where
  "from_utf8_lossy_bytes bs =
     (if bs = [] then []
      else (if fst (utf8_step bs) then take (snd (utf8_step bs)) bs else REPLACEMENT)
           @ from_utf8_lossy_bytes (drop (snd (utf8_step bs)) bs))"
  by pat_completeness auto
termination by (relation "measure length") (auto simp: utf8_step_pos)

declare from_utf8_lossy_bytes.simps [simp del]

definition string_of_bytes :: "u8 list \<Rightarrow> string" where
  "string_of_bytes bs = map (\<lambda>b. char_of (unat b)) bs"

definition from_utf8_lossy :: "u8 list \<Rightarrow> string" where
  "from_utf8_lossy bs = string_of_bytes (from_utf8_lossy_bytes bs)"

function valid_utf8 :: "u8 list \<Rightarrow> bool" where
  "valid_utf8 bs \<longleftrightarrow> (if bs = [] then True else fst (utf8_step bs) \<and> valid_utf8 (drop (snd (utf8_step bs)) bs))"
  by pat_completeness auto
termination by (relation "measure length") (auto simp: utf8_step_pos)

declare valid_utf8.simps [simp del]

lemma from_utf8_lossy_valid: "valid_utf8 bs \<Longrightarrow> from_utf8_lossy_bytes bs = bs"
proof (induction bs rule: length_induct)
  case (1 bs)
  show ?case
  proof (cases "bs = []")
    case True
    then show ?thesis by (simp add: from_utf8_lossy_bytes.simps)
  next
    case False
    have v: "fst (utf8_step bs)" "valid_utf8 (drop (snd (utf8_step bs)) bs)"
      using 1 (2) False valid_utf8.simps [of bs] by simp_all
    have "length (drop (snd (utf8_step bs)) bs) < length bs" using False utf8_step_pos [of bs] by simp
    then have "from_utf8_lossy_bytes (drop (snd (utf8_step bs)) bs) = drop (snd (utf8_step bs)) bs" using 1 (1) v(2) by blast
    then show ?thesis using False v(1) from_utf8_lossy_bytes.simps [of bs] by simp
  qed
qed

text \<open>A scalar value is recognised whatever follows it.\<close>

lemma utf8_step_append:
  assumes "fst (utf8_step bs)" "bs \<noteq> []"
  shows "utf8_step (bs @ cs) = utf8_step bs"
proof (cases bs)
  case (Cons b rest)
  show ?thesis
    using assms(1) is_continuation_at(2) [of rest 0 cs] is_continuation_at(2) [of rest 1 cs] is_continuation_at(2) [of rest 2 cs]
      second_ok_at(2) [of b rest 0 cs]
    by (auto simp: utf8_step_def Cons split: if_splits)
qed (use assms in simp)

section \<open>Revert reasons\<close>

datatype revert_reason_parsing_error =
    IncorrectDataOffset "u8 list"
  | InputIsTooShort "u8 list"
  | IncorrectStringLength "u8 list"

datatype vm_revert_reason =
    General string "u8 list"
  | InnerTxError
  | VmError
  | UnknownReason "u8 list" "u8 list"

text \<open>
  Slicing panics out of range. \<open>U256::as_usize\<close> panics on a value above \<open>usize::MAX\<close>; an unchecked sum wraps at \<open>usz\<close>.
\<close>

definition slice_range :: "u8 list \<Rightarrow> nat \<Rightarrow> nat \<Rightarrow> u8 list res" where
  "slice_range bs lo hi =
     (if lo \<le> hi \<and> hi \<le> length bs then Inr (take (hi - lo) (drop lo bs)) else Inl (Panic IndexOutOfBounds))"

definition slice_from :: "u8 list \<Rightarrow> nat \<Rightarrow> u8 list res" where
  "slice_from bs lo = slice_range bs lo (length bs)"

definition u256_as_usize :: "nat \<Rightarrow> u256 \<Rightarrow> nat res" where
  "u256_as_usize usz v = (if unat v < usz then Inr (unat v) else Inl (Panic (PanicMsg ''Integer overflow when casting to usize'')))"

definition word_to_usize :: "nat \<Rightarrow> u8 list \<Rightarrow> nat option res" where
  "word_to_usize usz word =
     (let v = (from_be_bytes word :: u256) in if unat v > usz - 1 then Inr None else map_res Some (u256_as_usize usz v))"

definition checked_add_usize :: "nat \<Rightarrow> nat \<Rightarrow> nat \<Rightarrow> nat option" where
  "checked_add_usize usz a b = (if a + b < usz then Some (a + b) else None)"

definition GENERAL_ERROR_SELECTOR :: "u8 list" where
  "GENERAL_ERROR_SELECTOR = [0x08, 0xc3, 0x79, 0xa0]"

text \<open>The outer result is a panic, the inner one the \<open>Result\<close> the function returns.\<close>

definition parse_general_error :: "nat \<Rightarrow> u8 list \<Rightarrow> (revert_reason_parsing_error + vm_revert_reason) res" where
  "parse_general_error usz raw_bytes =
     and_then (slice_from raw_bytes 4) (\<lambda>bytes.
     if length bytes < 32 then Inr (Inl (InputIsTooShort bytes))
     else and_then (slice_range bytes 0 32) (\<lambda>offset_word.
     and_then (word_to_usize usz offset_word) (\<lambda>offset.
     case offset of
       None \<Rightarrow> Inr (Inl (IncorrectDataOffset bytes))
     | Some data_offset \<Rightarrow>
         if data_offset > length bytes \<or> data_offset < 32 then Inr (Inl (IncorrectDataOffset bytes))
         else and_then (slice_from bytes data_offset) (\<lambda>data.
         if length data < 32 then Inr (Inl (InputIsTooShort bytes))
         else and_then (slice_range data 0 32) (\<lambda>length_word.
         and_then (word_to_usize usz length_word) (\<lambda>len.
         case len of
           None \<Rightarrow> Inr (Inl (IncorrectStringLength bytes))
         | Some string_length \<Rightarrow>
             if (case checked_add_usize usz string_length 32 of None \<Rightarrow> True | Some e \<Rightarrow> e > length data)
             then Inr (Inl (IncorrectStringLength bytes))
             else and_then (slice_range data 32 ((32 + string_length) mod usz)) (\<lambda>raw_data.
               Inr (Inr (General (from_utf8_lossy raw_data) raw_bytes)))))))))"

definition try_from_bytes :: "nat \<Rightarrow> u8 list \<Rightarrow> (revert_reason_parsing_error + vm_revert_reason) res" where
  "try_from_bytes usz bytes =
     (if length bytes < 4
      then if bytes \<noteq> [] then Inr (Inl (IncorrectStringLength bytes)) else Inr (Inr (UnknownReason [] bytes))
      else and_then (slice_range bytes 0 4) (\<lambda>function_selector.
        if function_selector = GENERAL_ERROR_SELECTOR then parse_general_error usz bytes
        else Inr (Inr (UnknownReason function_selector bytes))))"

definition vm_revert_reason_from :: "nat \<Rightarrow> u8 list \<Rightarrow> vm_revert_reason res" where
  "vm_revert_reason_from usz error_msg =
     and_then (try_from_bytes usz error_msg) (\<lambda>parsed.
     case parsed of
       Inr reason \<Rightarrow> Inr reason
     | Inl _ \<Rightarrow>
         and_then (if length error_msg \<ge> 4 then slice_range error_msg 0 4 else Inr error_msg) (\<lambda>function_selector.
         and_then (if length error_msg > 4 then slice_from error_msg 4 else Inr []) (\<lambda>data.
           Inr (UnknownReason function_selector data))))"

definition display_reason :: "(u8 list \<Rightarrow> string) \<Rightarrow> vm_revert_reason \<Rightarrow> string" where
  "display_reason hex r = (case r of
      General msg _ \<Rightarrow> msg
    | VmError \<Rightarrow> ''VM Error''
    | InnerTxError \<Rightarrow> ''Bootloader-based tx failed''
    | UnknownReason function_selector data \<Rightarrow>
        ''Error function_selector = 0x'' @ hex function_selector @ '', data = 0x'' @ hex data)"

definition to_user_friendly_string :: "(u8 list \<Rightarrow> string) \<Rightarrow> vm_revert_reason \<Rightarrow> string" where
  "to_user_friendly_string hex r = (case r of UnknownReason _ _ \<Rightarrow> [] | _ \<Rightarrow> display_reason hex r)"

definition encoded_data :: "vm_revert_reason \<Rightarrow> u8 list" where
  "encoded_data r = (case r of UnknownReason _ data \<Rightarrow> data | General _ data \<Rightarrow> data | _ \<Rightarrow> [])"

section \<open>Halts and bootloader errors\<close>

datatype halt =
    ValidationFailed vm_revert_reason
  | PaymasterValidationFailed vm_revert_reason
  | PrePaymasterPreparationFailed vm_revert_reason
  | PayForTxFailed vm_revert_reason
  | FailedToMarkFactoryDependencies vm_revert_reason
  | FailedToChargeFee vm_revert_reason
  | FromIsNotAnAccount
  | HaltInnerTxError
  | HaltUnknown vm_revert_reason
  | UnexpectedVMBehavior string
  | BootloaderOutOfGas
  | ValidationOutOfGas
  | TooBigGasLimit
  | NotEnoughGasProvided
  | MissingInvocationLimitReached
  | FailedToSetL2Block string
  | FailedToAppendTransactionToL2Block string
  | VMPanic
  | TracerCustom string
  | FailedToPublishCompressedBytecodes
  | FailedBlockTimestampAssertion

datatype bootloader_error_code =
    CodeEthCall | CodeAccountTxValidationFailed | CodeFailedToChargeFee | CodeFromIsNotAnAccount | CodeFailedToCheckAccount
  | CodeUnacceptableGasPrice | CodeFailedToSetPrevBlockHash | CodePayForTxFailed | CodePrePaymasterPreparationFailed
  | CodePaymasterValidationFailed | CodeFailedToSendFeesToTheOperator | CodeUnacceptablePubdataPrice | CodeTxValidationError
  | CodeMaxPriorityFeeGreaterThanMaxFee | CodeBaseFeeGreaterThanMaxFeePerGas | CodePaymasterReturnedInvalidContext
  | CodePaymasterContextIsTooLong | CodeAssertionError | CodeFailedToMarkFactoryDeps | CodeTxValidationOutOfGas
  | CodeNotEnoughGasProvided | CodeAccountReturnedInvalidMagic | CodePaymasterReturnedInvalidMagic | CodeMintEtherFailed
  | CodeFailedToAppendTransactionToL2Block | CodeFailedToSetL2Block | CodeFailedToPublishTimestampDataToL1
  | CodeL1MessengerPublishingFailed | CodeL1MessengerLogSendingFailed | CodeFailedToCallSystemContext | CodeUnknown

definition bootloader_error_codes :: "bootloader_error_code list" where
  "bootloader_error_codes =
     [CodeEthCall, CodeAccountTxValidationFailed, CodeFailedToChargeFee, CodeFromIsNotAnAccount, CodeFailedToCheckAccount,
      CodeUnacceptableGasPrice, CodeFailedToSetPrevBlockHash, CodePayForTxFailed, CodePrePaymasterPreparationFailed,
      CodePaymasterValidationFailed, CodeFailedToSendFeesToTheOperator, CodeUnacceptablePubdataPrice, CodeTxValidationError,
      CodeMaxPriorityFeeGreaterThanMaxFee, CodeBaseFeeGreaterThanMaxFeePerGas, CodePaymasterReturnedInvalidContext,
      CodePaymasterContextIsTooLong, CodeAssertionError, CodeFailedToMarkFactoryDeps, CodeTxValidationOutOfGas,
      CodeNotEnoughGasProvided, CodeAccountReturnedInvalidMagic, CodePaymasterReturnedInvalidMagic, CodeMintEtherFailed,
      CodeFailedToAppendTransactionToL2Block, CodeFailedToSetL2Block, CodeFailedToPublishTimestampDataToL1,
      CodeL1MessengerPublishingFailed, CodeL1MessengerLogSendingFailed, CodeFailedToCallSystemContext]"

definition bootloader_error_code_from :: "u8 \<Rightarrow> bootloader_error_code" where
  "bootloader_error_code_from code =
     (if unat code < length bootloader_error_codes then bootloader_error_codes ! unat code else CodeUnknown)"

datatype tx_revert_reason = TxReverted vm_revert_reason | TxHalt halt

fun decimal :: "nat \<Rightarrow> string" where
  "decimal n = (if n < 10 then [char_of (48 + n)] else decimal (n div 10) @ [char_of (48 + n mod 10)])"

definition general_msg :: "string \<Rightarrow> vm_revert_reason" where
  "general_msg msg = General msg []"

definition tx_revert_reason_of ::
  "(u8 list \<Rightarrow> string) \<Rightarrow> u8 \<Rightarrow> bootloader_error_code \<Rightarrow> vm_revert_reason \<Rightarrow> tx_revert_reason res" where
  "tx_revert_reason_of hex error_code code reason =
     (let shown = display_reason hex reason; unexpected = (\<lambda>msg. Inr (TxHalt (UnexpectedVMBehavior msg))) in
      case code of
        CodeEthCall \<Rightarrow> Inr (TxReverted reason)
      | CodeAccountTxValidationFailed \<Rightarrow> Inr (TxHalt (ValidationFailed reason))
      | CodeFailedToChargeFee \<Rightarrow> Inr (TxHalt (FailedToChargeFee reason))
      | CodeFromIsNotAnAccount \<Rightarrow> Inr (TxHalt FromIsNotAnAccount)
      | CodeFailedToCheckAccount \<Rightarrow> Inr (TxHalt (ValidationFailed (general_msg
          ''Failed to check if `from` is an account. Most likely not enough gas provided'')))
      | CodeUnacceptableGasPrice \<Rightarrow> unexpected ''The operator included transaction with an unacceptable gas price''
      | CodePrePaymasterPreparationFailed \<Rightarrow> Inr (TxHalt (PrePaymasterPreparationFailed reason))
      | CodePaymasterValidationFailed \<Rightarrow> Inr (TxHalt (PaymasterValidationFailed reason))
      | CodeFailedToSendFeesToTheOperator \<Rightarrow> unexpected ''FailedToSendFeesToTheOperator''
      | CodeFailedToSetPrevBlockHash \<Rightarrow>
          Inl (Panic (PanicMsg (''The bootloader failed to set previous block hash. Reason: '' @ shown)))
      | CodeUnacceptablePubdataPrice \<Rightarrow> unexpected ''UnacceptablePubdataPrice''
      | CodeTxValidationError \<Rightarrow> Inr (TxHalt (ValidationFailed reason))
      | CodeMaxPriorityFeeGreaterThanMaxFee \<Rightarrow> unexpected ''Max priority fee greater than max fee''
      | CodePaymasterReturnedInvalidContext \<Rightarrow>
          Inr (TxHalt (PaymasterValidationFailed (general_msg ''Paymaster returned invalid context'')))
      | CodePaymasterContextIsTooLong \<Rightarrow>
          Inr (TxHalt (PaymasterValidationFailed (general_msg ''Paymaster returned context that is too long'')))
      | CodeAssertionError \<Rightarrow> unexpected (''Assertion error: '' @ shown)
      | CodeBaseFeeGreaterThanMaxFeePerGas \<Rightarrow> unexpected ''Block.basefee is greater than max fee per gas''
      | CodePayForTxFailed \<Rightarrow> Inr (TxHalt (PayForTxFailed reason))
      | CodeFailedToMarkFactoryDeps \<Rightarrow> Inr (TxHalt (FailedToMarkFactoryDependencies
          (case reason of General msg data \<Rightarrow> General msg data | _ \<Rightarrow> general_msg ''Most likely not enough gas provided'')))
      | CodeTxValidationOutOfGas \<Rightarrow> Inr (TxHalt (ValidationFailed (general_msg ''Not enough gas for transaction validation'')))
      | CodeNotEnoughGasProvided \<Rightarrow> Inr (TxHalt NotEnoughGasProvided)
      | CodeAccountReturnedInvalidMagic \<Rightarrow> Inr (TxHalt (ValidationFailed (general_msg
          ''Account validation returned invalid magic value. Most often this means that the signature is incorrect'')))
      | CodePaymasterReturnedInvalidMagic \<Rightarrow> Inr (TxHalt (ValidationFailed (general_msg
          ''Paymaster validation returned invalid magic value. Please refer to the documentation of the paymaster for more details'')))
      | CodeL1MessengerLogSendingFailed \<Rightarrow> unexpected (''Failed to send log via L1Messenger for: '' @ shown)
      | CodeL1MessengerPublishingFailed \<Rightarrow> unexpected (''Failed to publish pubdata via L1Messenger for: '' @ shown)
      | CodeFailedToCallSystemContext \<Rightarrow> unexpected (''Failed to call system context contract: '' @ shown)
      | CodeUnknown \<Rightarrow> unexpected (''Unsupported error code: '' @ decimal (unat error_code) @ ''. Revert reason: '' @ shown)
      | CodeMintEtherFailed \<Rightarrow> unexpected (''Failed to mint ether: '' @ shown)
      | CodeFailedToAppendTransactionToL2Block \<Rightarrow>
          Inr (TxHalt (FailedToAppendTransactionToL2Block (''Failed to append transaction to L2 block: '' @ shown)))
      | CodeFailedToSetL2Block \<Rightarrow> Inr (TxHalt (FailedToSetL2Block shown))
      | CodeFailedToPublishTimestampDataToL1 \<Rightarrow> unexpected (''Failed to publish timestamp data to L1: '' @ shown))"

definition parse_error :: "nat \<Rightarrow> (u8 list \<Rightarrow> string) \<Rightarrow> u8 list \<Rightarrow> tx_revert_reason res" where
  "parse_error usz hex bytes =
     (case bytes of
        [] \<Rightarrow> Inr (TxHalt (UnexpectedVMBehavior ''Bootloader returned an empty error''))
      | error_code # error_msg \<Rightarrow>
          and_then (vm_revert_reason_from usz error_msg)
            (tx_revert_reason_of hex error_code (bootloader_error_code_from error_code)))"

definition display_halt :: "(u8 list \<Rightarrow> string) \<Rightarrow> halt \<Rightarrow> string" where
  "display_halt hex h = (case h of
      ValidationFailed reason \<Rightarrow> ''Account validation error: '' @ display_reason hex reason
    | FailedToChargeFee reason \<Rightarrow> ''Failed to charge fee: '' @ display_reason hex reason
    | FromIsNotAnAccount \<Rightarrow> ''Sender is not an account''
    | HaltInnerTxError \<Rightarrow> ''Bootloader-based tx failed''
    | PaymasterValidationFailed reason \<Rightarrow> ''Paymaster validation error: '' @ display_reason hex reason
    | PrePaymasterPreparationFailed reason \<Rightarrow> ''Pre-paymaster preparation error: '' @ display_reason hex reason
    | HaltUnknown reason \<Rightarrow> ''Unknown reason: '' @ display_reason hex reason
    | UnexpectedVMBehavior problem \<Rightarrow>
        ''virtual machine entered unexpected state. Please contact developers and provide transaction details '' @
        ''that caused this error. Error description: '' @ problem
    | BootloaderOutOfGas \<Rightarrow> ''Bootloader out of gas''
    | NotEnoughGasProvided \<Rightarrow> ''Bootloader did not have enough gas to start the transaction''
    | FailedToMarkFactoryDependencies reason \<Rightarrow> ''Failed to mark factory dependencies: '' @ display_reason hex reason
    | PayForTxFailed reason \<Rightarrow> ''Failed to pay for the transaction: '' @ display_reason hex reason
    | TooBigGasLimit \<Rightarrow> ''Transaction has a too big ergs limit and will not be executed by the server''
    | MissingInvocationLimitReached \<Rightarrow> ''Tx produced too much cold storage accesses''
    | VMPanic \<Rightarrow> ''VM panicked''
    | FailedToSetL2Block reason \<Rightarrow> ''Failed to set information about the L2 block: '' @ reason
    | FailedToAppendTransactionToL2Block reason \<Rightarrow> ''Failed to append the transaction to the current L2 block: '' @ reason
    | TracerCustom reason \<Rightarrow> ''Tracer aborted execution: '' @ reason
    | ValidationOutOfGas \<Rightarrow> ''Validation run out of gas''
    | FailedToPublishCompressedBytecodes \<Rightarrow> ''Failed to publish compressed bytecodes''
    | FailedBlockTimestampAssertion \<Rightarrow> ''Transaction failed block.timestamp assertion'')"

definition display_tx_revert_reason :: "(u8 list \<Rightarrow> string) \<Rightarrow> tx_revert_reason \<Rightarrow> string" where
  "display_tx_revert_reason hex r = (case r of TxReverted reason \<Rightarrow> display_reason hex reason | TxHalt h \<Rightarrow> display_halt hex h)"

section \<open>What the parser answers\<close>

text \<open>
  The parse without slicing and without a bound on numbers: offset and length are the values of the words, and data that is
  no general error keeps its selector.
\<close>

definition general_error_spec :: "u8 list \<Rightarrow> revert_reason_parsing_error + vm_revert_reason" where
  "general_error_spec raw =
     (let bytes = drop 4 raw;
          offset = unat (from_be_bytes (take 32 bytes) :: u256);
          data = drop offset bytes;
          string_length = unat (from_be_bytes (take 32 data) :: u256)
      in if length bytes < 32 then Inl (InputIsTooShort bytes)
         else if offset < 32 \<or> length bytes < offset then Inl (IncorrectDataOffset bytes)
         else if length data < 32 then Inl (InputIsTooShort bytes)
         else if length data < string_length + 32 then Inl (IncorrectStringLength bytes)
         else Inr (General (from_utf8_lossy (take string_length (drop 32 data))) raw))"

definition reason_spec :: "u8 list \<Rightarrow> vm_revert_reason" where
  "reason_spec bytes =
     (if bytes = [] then UnknownReason [] []
      else if length bytes < 4 then UnknownReason bytes []
      else if take 4 bytes \<noteq> GENERAL_ERROR_SELECTOR then UnknownReason (take 4 bytes) bytes
      else case general_error_spec bytes of Inr reason \<Rightarrow> reason | Inl _ \<Rightarrow> UnknownReason (take 4 bytes) (drop 4 bytes))"

lemma slice_simps [simp]:
  "hi \<le> length bs \<Longrightarrow> slice_range bs 0 hi = Inr (take hi bs)"
  "lo \<le> length bs \<Longrightarrow> slice_from bs lo = Inr (drop lo bs)"
  by (simp_all add: slice_range_def slice_from_def)

lemma word_to_usize_eq:
  "0 < usz \<Longrightarrow> word_to_usize usz w =
     Inr (if unat (from_be_bytes w :: u256) < usz then Some (unat (from_be_bytes w :: u256)) else None)"
  by (auto simp: word_to_usize_def u256_as_usize_def Let_def)

lemma parse_general_error_spec:
  assumes "4 \<le> length raw" "length raw < usz"
  shows "parse_general_error usz raw = Inr (general_error_spec raw)"
proof -
  have usz: "0 < usz" using assms by simp
  let ?bytes = "drop 4 raw"
  let ?offset = "unat (from_be_bytes (take 32 ?bytes) :: u256)"
  let ?data = "drop ?offset ?bytes"
  let ?len = "unat (from_be_bytes (take 32 ?data) :: u256)"
  consider "length ?bytes < 32" | "\<not> length ?bytes < 32" "?offset < 32 \<or> length ?bytes < ?offset"
    | "\<not> length ?bytes < 32" "\<not> (?offset < 32 \<or> length ?bytes < ?offset)" "length ?data < 32"
    | "\<not> length ?bytes < 32" "\<not> (?offset < 32 \<or> length ?bytes < ?offset)" "\<not> length ?data < 32" "length ?data < ?len + 32"
    | "\<not> length ?bytes < 32" "\<not> (?offset < 32 \<or> length ?bytes < ?offset)" "\<not> length ?data < 32" "\<not> length ?data < ?len + 32"
    by blast
  then show ?thesis
  proof cases
    case 5
    have "?offset < usz" "?len + 32 < usz" using 5 assms by simp_all
    then show ?thesis using 5 assms usz
      by (simp add: parse_general_error_def general_error_spec_def Let_def word_to_usize_eq checked_add_usize_def
          slice_range_def add.commute [of 32] del: drop_drop)
  qed (use assms usz in \<open>auto simp: parse_general_error_def general_error_spec_def Let_def word_to_usize_eq checked_add_usize_def
      simp del: drop_drop\<close>)
qed

lemma reason_total:
  assumes "length bytes < usz"
  shows "vm_revert_reason_from usz bytes = Inr (reason_spec bytes)"
proof (cases "length bytes < 4")
  case True
  then show ?thesis by (auto simp: vm_revert_reason_from_def try_from_bytes_def reason_spec_def)
next
  case False
  then have "bytes \<noteq> []" by auto
  then show ?thesis using False parse_general_error_spec [OF _ assms]
    by (auto simp: vm_revert_reason_from_def try_from_bytes_def reason_spec_def split: sum.splits)
qed

text \<open>
  Parsing revert data does not depend on the width of \<open>usize\<close>: the 32-bit guest and a 64-bit sequencer derive the same
  reason from every byte string that either can hold, oversized offsets and lengths included.
\<close>

theorem revert_reason_width_independent:
  assumes "length bytes < usz" "length bytes < usz'"
  shows "vm_revert_reason_from usz bytes = vm_revert_reason_from usz' bytes"
  unfolding reason_total [OF assms(1)] reason_total [OF assms(2)] by (rule refl)

theorem revert_reason_width_independent_witness:
  "vm_revert_reason_from (2 ^ 32) [8, 0xc3, 0x79, 0xa0, 1] = vm_revert_reason_from (2 ^ 64) [8, 0xc3, 0x79, 0xa0, 1]"
  by (rule revert_reason_width_independent) simp_all

text \<open>The error a Solidity \<open>revert(msg)\<close> returns: selector, offset, length, the string and its padding.\<close>

definition encode_general_error :: "u8 list \<Rightarrow> u8 list \<Rightarrow> u8 list" where
  "encode_general_error msg padding =
     GENERAL_ERROR_SELECTOR @ be_bytes 32 (32 :: u256) @ be_bytes 32 (word_of_nat (length msg) :: u256) @ msg @ padding"

text \<open>
  The message of a revert survives: the reason parsed from an ABI-encoded \<open>Error(string)\<close> with valid UTF-8 is that
  string, and the reason keeps the raw bytes.
\<close>

theorem general_error_roundtrip:
  assumes "valid_utf8 msg" "length (encode_general_error msg padding) < usz" "length msg < 2 ^ 256"
  shows "vm_revert_reason_from usz (encode_general_error msg padding) =
    Inr (General (string_of_bytes msg) (encode_general_error msg padding))"
proof -
  let ?raw = "encode_general_error msg padding"
  have sel: "length GENERAL_ERROR_SELECTOR = 4" by (simp add: GENERAL_ERROR_SELECTOR_def)
  have bytes: "drop 4 ?raw = be_bytes 32 (32 :: u256) @ be_bytes 32 (word_of_nat (length msg) :: u256) @ msg @ padding"
    "take 4 ?raw = GENERAL_ERROR_SELECTOR" by (simp_all add: encode_general_error_def sel)
  have offset: "unat (from_be_bytes (take 32 (drop 4 ?raw)) :: u256) = 32" by (simp add: bytes)
  have data: "drop 32 (drop 4 ?raw) = be_bytes 32 (word_of_nat (length msg) :: u256) @ msg @ padding" by (simp add: bytes(1))
  have len: "unat (from_be_bytes (take 32 (drop 32 (drop 4 ?raw))) :: u256) = length msg"
    unfolding data using assms(3) by (simp add: unat_of_nat)
  have "general_error_spec ?raw = Inr (General (string_of_bytes msg) ?raw)"
    unfolding general_error_spec_def Let_def offset len unfolding data
    by (simp add: bytes(1) from_utf8_lossy_def from_utf8_lossy_valid [OF assms(1)])
  moreover have "4 \<le> length ?raw" by (simp add: encode_general_error_def sel)
  moreover from this have "?raw \<noteq> []" by auto
  ultimately show ?thesis by (simp add: reason_total [OF assms(2)] reason_spec_def bytes(2))
qed

theorem general_error_roundtrip_witness:
  "vm_revert_reason_from (2 ^ 32) (encode_general_error [104, 105] []) =
    Inr (General ''hi'' (encode_general_error [104, 105] []))"
proof -
  have "string_of_bytes [104, 105] = ''hi''" by code_simp
  moreover have "valid_utf8 [104, 105]" by (simp add: valid_utf8.simps utf8_step_def)
  moreover have "length (encode_general_error [104, 105] []) < 2 ^ 32" by (simp add: encode_general_error_def GENERAL_ERROR_SELECTOR_def)
  ultimately show ?thesis using general_error_roundtrip [of "[104, 105]" "[]" "2 ^ 32"] by simp
qed

text \<open>The two codes that are not answered with a halt.\<close>

lemma error_code_cases:
  "bootloader_error_code_from c = CodeEthCall \<longleftrightarrow> c = 0" "bootloader_error_code_from c = CodeFailedToSetPrevBlockHash \<longleftrightarrow> c = 6"
proof -
  have codes: "distinct bootloader_error_codes" "length bootloader_error_codes = 30"
    "bootloader_error_codes ! 0 = CodeEthCall" "bootloader_error_codes ! 6 = CodeFailedToSetPrevBlockHash"
    "CodeUnknown \<notin> set bootloader_error_codes"
    by (simp_all add: bootloader_error_codes_def)
  have at: "bootloader_error_code_from c = bootloader_error_codes ! k \<longleftrightarrow> c = word_of_nat k" if "k < 30" for k
  proof -
    have "unat (word_of_nat k :: u8) = k" using that by (simp add: unat_of_nat)
    moreover have "CodeUnknown \<noteq> bootloader_error_codes ! k" using that codes(2,5) nth_mem by metis
    then have "bootloader_error_code_from c = bootloader_error_codes ! k \<longleftrightarrow> unat c = k"
      using that codes(2) nth_eq_iff_index_eq [OF codes(1), of "unat c" k]
      by (cases "unat c < 30") (auto simp: bootloader_error_code_from_def)
    ultimately show ?thesis by (metis unsigned_word_eqI)
  qed
  show "bootloader_error_code_from c = CodeEthCall \<longleftrightarrow> c = 0" "bootloader_error_code_from c = CodeFailedToSetPrevBlockHash \<longleftrightarrow> c = 6"
    using at [of 0] at [of 6] codes(3,4) by simp_all
qed

text \<open>
  C35. \<open>parse_error\<close> never aborts in the parser, on no width of \<open>usize\<close> that can hold the data: slices stay in range and
  oversized words are rejected. It aborts exactly on error code 6 (previous block hash), and answers a revert exactly on code 0,
  with the reason the data encodes: an \<open>Error(string)\<close> in range with its message, everything else with selector and data.
\<close>

theorem parse_error_total:
  assumes "length bytes < usz"
  shows "((\<exists>e. parse_error usz hex bytes = Inl e) \<longleftrightarrow> bytes \<noteq> [] \<and> hd bytes = 6) \<and>
    (parse_error usz hex bytes = Inr (TxReverted reason) \<longleftrightarrow> bytes \<noteq> [] \<and> hd bytes = 0 \<and> reason = reason_spec (tl bytes))"
proof (cases bytes)
  case (Cons c msg)
  have "length msg < usz" using assms Cons by simp
  then have "parse_error usz hex bytes = tx_revert_reason_of hex c (bootloader_error_code_from c) (reason_spec msg)"
    by (simp add: parse_error_def Cons reason_total)
  then show ?thesis using error_code_cases [of c] Cons
    by (cases "bootloader_error_code_from c") (auto simp: tx_revert_reason_of_def Let_def)
qed (simp add: parse_error_def)

text \<open>An offset beyond \<open>usize\<close>: the reason is the raw selector and data.\<close>

theorem parse_error_total_witness:
  "parse_error (2 ^ 32) (\<lambda>_. []) (0 # GENERAL_ERROR_SELECTOR @ be_bytes 32 (2 ^ 255 :: u256)) =
     Inr (TxReverted (UnknownReason GENERAL_ERROR_SELECTOR (be_bytes 32 (2 ^ 255 :: u256))))"
proof -
  let ?word = "be_bytes 32 (2 ^ 255 :: u256)"
  have sel: "length GENERAL_ERROR_SELECTOR = 4" by (simp add: GENERAL_ERROR_SELECTOR_def)
  have "reason_spec (GENERAL_ERROR_SELECTOR @ ?word) = UnknownReason GENERAL_ERROR_SELECTOR ?word"
    by (simp add: reason_spec_def general_error_spec_def sel Let_def)
  then show ?thesis
    using parse_error_total [of "0 # GENERAL_ERROR_SELECTOR @ ?word" "2 ^ 32" "\<lambda>_. []" "UnknownReason GENERAL_ERROR_SELECTOR ?word"]
    by (simp add: sel)
qed

end
