(* ===== verification/Fast_Vm.thy ===== *)
theory Fast_Vm
  imports Fast_Bytecode Revert_Reason Vm_Events Verifier
begin

text \<open>
  The fast VM, \<open>src/crates/multivm/src/versions/vm_fast/vm.rs\<close>: the wrapper around the \<open>zksync_vm2\<close> interpreter that the
  verifier drives. It pushes transactions into the bootloader heap, runs the interpreter from hook to hook, answers the
  hooks (refunds, results, gas of account validation, the closing block, pubdata), collects the logs and keeps snapshots.

  The interpreter is the record parameter \<open>vm2\<close> over its state \<open>'m\<close>; a run returns a result because a panic inside it, such
  as a read of an unknown slot, aborts. The rest of the code outside \<open>src/\<close> is the record \<open>fast_ext\<close>. The tracer is
  \<open>FastValidationTracer\<close>; circuit statistics are left out. Nothing bounds how often the interpreter stops on a hook, so
  the loop of \<open>run\<close> is a partial function: \<open>None\<close> means that it never ends.
\<close>

section \<open>The interpreter and other parameters\<close>

datatype execution_end =
    SuspendedOnHook u32
  | ProgramFinished "u8 list"
  | Reverted "u8 list"
  | Panicked
  | StoppedByTracer

record fast_validation_tracer =
  track_out_of_gas :: bool
  is_out_of_gas :: bool

record vm2_settings =
  set_default_aa_code_hash :: u256
  set_evm_interpreter_code_hash :: u256
  set_hook_address :: u32

record vm2_pointer =
  vp_memory_page :: u32
  vp_offset :: u32
  vp_start :: u32
  vp_length :: u32

record storage_change =
  sc_before :: u256
  sc_after :: u256
  sc_is_initial :: bool

record vm2_log =
  v2l_key :: u256
  v2l_value :: u256
  v2l_is_service :: bool
  v2l_address :: address
  v2l_shard_id :: u8
  v2l_tx_number :: u16

record ('m, 'p, 'd) vm2 =
  vm2_new :: "address \<Rightarrow> 'p \<Rightarrow> address \<Rightarrow> u8 list \<Rightarrow> u32 \<Rightarrow> vm2_settings \<Rightarrow> 'm"
  vm2_setup_frame :: "'m \<Rightarrow> u16 \<Rightarrow> u32 \<Rightarrow> u32 \<Rightarrow> u16 \<Rightarrow> 'm"
  vm2_run :: "'m \<Rightarrow> 'p world \<Rightarrow> fast_validation_tracer \<Rightarrow> (execution_end \<times> 'm \<times> 'p world \<times> fast_validation_tracer) res"
  vm2_gas :: "'m \<Rightarrow> u32"
  vm2_set_gas :: "'m \<Rightarrow> u32 \<Rightarrow> 'm"
  vm2_pubdata :: "'m \<Rightarrow> u32"
  vm2_read_heap_u256 :: "'m \<Rightarrow> u32 \<Rightarrow> u256"
  vm2_write_heap_u256 :: "'m \<Rightarrow> u32 \<Rightarrow> u256 \<Rightarrow> 'm"
  vm2_read_heap_byte :: "'m \<Rightarrow> u32 \<Rightarrow> u32 \<Rightarrow> u8"
  vm2_near_calls :: "'m \<Rightarrow> bool list"
  vm2_storage_state :: "'m \<Rightarrow> address \<times> u256 \<Rightarrow> u256 option"
  vm2_storage_changes :: "'m \<Rightarrow> ((address \<times> u256) \<times> storage_change) list"
  vm2_storage_changes_after :: "'m \<Rightarrow> 'd \<Rightarrow> ((address \<times> u256) \<times> storage_change) list"
  vm2_events :: "'m \<Rightarrow> vm2_event list"
  vm2_events_after :: "'m \<Rightarrow> 'd \<Rightarrow> vm2_event list"
  vm2_l2_to_l1_logs :: "'m \<Rightarrow> vm2_log list"
  vm2_l2_to_l1_logs_after :: "'m \<Rightarrow> 'd \<Rightarrow> vm2_log list"
  vm2_storage_log_queries :: "'m \<Rightarrow> log_query list"
  vm2_decommitted_hashes :: "'m \<Rightarrow> u256 list"
  vm2_world_diff_snapshot :: "'m \<Rightarrow> 'd"
  vm2_make_snapshot :: "'m \<Rightarrow> 'm"
  vm2_rollback :: "'m \<Rightarrow> 'm"
  vm2_pop_snapshot :: "'m \<Rightarrow> 'm"

text \<open>
  \<open>vm2_near_calls\<close> lists \<open>is_near_call\<close> of the frames below the current one; \<open>vm2_setup_frame\<close> sets the stack pointer, the two
  heap bounds and the exception handler.
\<close>

record 'p fast_ext =
  fe_externals :: externals
  fe_blake :: hash_fn
  fe_programs :: "'p program_ops"
  fe_usize :: nat
  fe_overflow_checks :: bool
  fe_hex :: "u8 list \<Rightarrow> string"
  fe_extract_chain_id :: "u8 list \<Rightarrow> u64 option"
  fe_long_signature :: "string \<Rightarrow> param_type list \<Rightarrow> h256"
  fe_pointer_from :: "u256 \<Rightarrow> vm2_pointer"
  fe_initial_frame_formal_eh_location :: u16
  fe_derive_final_address :: "address \<Rightarrow> u256 \<Rightarrow> h256"
  fe_sort_storage_access_queries :: "log_query list \<Rightarrow> log_query list"

section \<open>State\<close>

datatype vm_execution_result = VmSuccess "u8 list" | VmRevert vm_revert_reason | VmHalt halt

definition is_failed :: "vm_execution_result \<Rightarrow> bool" where
  "is_failed r = (case r of VmSuccess _ \<Rightarrow> False | _ \<Rightarrow> True)"

record refunds =
  gas_refunded :: u64
  operator_suggested_refund :: u64

record vm_run_result =
  rr_execution_result :: vm_execution_result
  rr_execution_ended :: bool
  rr_refunds :: refunds
  rr_pubdata_published :: u32

definition should_ignore_vm_logs :: "vm_run_result \<Rightarrow> bool" where
  "should_ignore_vm_logs r = (case rr_execution_result r of
      VmSuccess _ \<Rightarrow> False | VmHalt _ \<Rightarrow> True | VmRevert _ \<Rightarrow> rr_execution_ended r)"

record ('m, 'p) fast_vm =
  fv_world :: "'p world"
  fv_inner :: 'm
  fv_bootloader_state :: bootloader_state
  fv_batch_env :: l1_batch_env
  fv_system_env :: system_env
  fv_snapshot :: "bootloader_state_snapshot option"
  fv_vm_version :: fast_vm_version
  fv_skip_signature_verification :: bool

abbreviation fv_subversion :: "('m, 'p) fast_vm \<Rightarrow> multi_vm_subversion" where
  "fv_subversion vm \<equiv> subversion_of_fast (fv_vm_version vm)"

datatype vm_execution_mode = OneTx | Batch | BootloaderMode

section \<open>The heap of the bootloader\<close>

definition read_word_from_bootloader_heap :: "('m, 'p, 'd) vm2 \<Rightarrow> ('m, 'p) fast_vm \<Rightarrow> nat \<Rightarrow> u256" where
  "read_word_from_bootloader_heap V vm w = vm2_read_heap_u256 V (fv_inner vm) (word_of_nat w * 32)"

definition has_previous_far_calls :: "('m, 'p, 'd) vm2 \<Rightarrow> ('m, 'p) fast_vm \<Rightarrow> bool" where
  "has_previous_far_calls V vm \<longleftrightarrow> \<not> list_all id (vm2_near_calls V (fv_inner vm))"

definition vm_write_to_bootloader_heap :: "('m, 'p, 'd) vm2 \<Rightarrow> ('m, 'p) fast_vm \<Rightarrow> bootloader_memory \<Rightarrow> ('m, 'p) fast_vm res" where
  "vm_write_to_bootloader_heap V vm memory =
     ensure (\<not> has_previous_far_calls V vm) (Panic (PanicMsg ''Cannot write to bootloader heap when not in root call frame''))
       (Inr (vm\<lparr>fv_inner := foldl (\<lambda>m (slot, v). vm2_write_heap_u256 V m (word_of_nat slot * 32) v) (fv_inner vm) memory\<rparr>))"

definition get_hook_params :: "('m, 'p, 'd) vm2 \<Rightarrow> ('m, 'p) fast_vm \<Rightarrow> u256 list" where
  "get_hook_params V vm =
     (let start = get_vm_hook_params_start_position (fv_subversion vm)
      in map (read_word_from_bootloader_heap V vm) [start..<start + VM_HOOK_PARAMS_COUNT])"

definition get_tx_result :: "('m, 'p, 'd) vm2 \<Rightarrow> ('m, 'p) fast_vm \<Rightarrow> u256 res" where
  "get_tx_result V vm =
     map_res (\<lambda>tx_idx. read_word_from_bootloader_heap V vm (get_result_success_first_slot (fv_subversion vm) + tx_idx))
       (current_tx (fv_bootloader_state vm))"

definition read_bytes_from_heap :: "('m, 'p, 'd) vm2 \<Rightarrow> ('m, 'p) fast_vm \<Rightarrow> vm2_pointer \<Rightarrow> u8 list res" where
  "read_bytes_from_heap V vm ptr =
     ensure (vp_offset ptr = 0) (Panic (PanicMsg ''assertion failed: ptr.offset == 0''))
       (Inr (map (\<lambda>addr. vm2_read_heap_byte V (fv_inner vm) (vp_memory_page ptr) (word_of_nat addr))
          [unat (vp_start ptr)..<unat (vp_start ptr + vp_length ptr)]))"

section \<open>Construction\<close>

definition fast_vm_custom ::
  "('m, 'p, 'd) vm2 \<Rightarrow> 'p fast_ext \<Rightarrow> l1_batch_env \<Rightarrow> system_env \<Rightarrow> storage_view_state \<Rightarrow> ('m, 'p) fast_vm res" where
  "fast_vm_custom V X batch_env senv storage =
     and_then (ok_or (Panic UnsupportedVersion) (fast_vm_version_try_from (vm_version_from (system_version senv)))) (\<lambda>version.
     let contracts = base_system_smart_contracts senv; P = fe_programs X;
         default_aa_code_hash = contract_hash (bsc_default_aa contracts);
         evm_emulator_hash = (case bsc_evm_emulator contracts of Some evm \<Rightarrow> contract_hash evm | None \<Rightarrow> default_aa_code_hash);
         convert = (\<lambda>code. convert_system_contract_code P (contract_code code, contract_hash code));
         (aa_hash, aa_program) = convert (bsc_default_aa contracts) False;
         programs = [aa_hash \<mapsto> aa_program];
         programs = (case bsc_evm_emulator contracts of
            Some evm \<Rightarrow> (let (h, program) = convert evm False in programs(h \<mapsto> program)) | None \<Rightarrow> programs);
         bootloader = snd (convert (bsc_bootloader contracts) True);
         memory = initial_memory (subversion_of_fast version) batch_env;
         inner = vm2_new V BOOTLOADER_ADDRESS bootloader 0 [] (bootloader_gas_limit senv)
            \<lparr>set_default_aa_code_hash = default_aa_code_hash, set_evm_interpreter_code_hash = evm_emulator_hash,
             set_hook_address = word_of_nat (get_vm_hook_position (subversion_of_fast version)) * 32\<rparr>;
         inner = vm2_setup_frame V inner 0 (- 1) (- 1) (fe_initial_frame_formal_eh_location X)
     in and_then (bootloader_state_new (execution_mode senv) memory (first_l2_block batch_env) (system_version senv)) (\<lambda>state.
        vm_write_to_bootloader_heap V
          \<lparr>fv_world = world_new storage programs, fv_inner = inner, fv_bootloader_state = state, fv_batch_env = batch_env,
           fv_system_env = senv, fv_snapshot = None, fv_vm_version = version, fv_skip_signature_verification = False\<rparr> memory))"

definition skip_signature_verification :: "('m, 'p) fast_vm \<Rightarrow> ('m, 'p) fast_vm" where
  "skip_signature_verification vm = vm\<lparr>fv_skip_signature_verification := True\<rparr>"

section \<open>Pushing transactions\<close>

fun insert_bytecodes_with_hashes :: "'p world \<Rightarrow> (h256 \<times> u8 list) list \<Rightarrow> 'p world" where
  "insert_bytecodes_with_hashes w [] = w"
| "insert_bytecodes_with_hashes w ((h, code) # rest) =
     insert_bytecodes_with_hashes (w\<lparr>w_bytecode_cache := (w_bytecode_cache w)(h \<mapsto> code)\<rparr>) rest"

definition insert_bytecodes :: "hash_fn \<Rightarrow> 'p world \<Rightarrow> u8 list list \<Rightarrow> 'p world res" where
  "insert_bytecodes sha w codes =
     map_res (\<lambda>hashes. insert_bytecodes_with_hashes w (zip hashes codes)) (collect_res (map (for_bytecode sha) codes))"

text \<open>Whether a bytecode is known: by the slots the run has written, else by the storage.\<close>

definition known_to_vm :: "('m, 'p, 'd) vm2 \<Rightarrow> hash_fn \<Rightarrow> 'm \<Rightarrow> storage_view_state \<Rightarrow> h256 \<Rightarrow> (bool \<times> storage_view_state) res" where
  "known_to_vm V blake m s h =
     (case vm2_storage_state V m (KNOWN_CODES_STORAGE_ADDRESS, h) of
        Some v \<Rightarrow> Inr (v \<noteq> 0, s)
      | None \<Rightarrow> is_bytecode_known (immutable_read_value blake) s h)"

definition compressed_for_tx ::
  "('m, 'p, 'd) vm2 \<Rightarrow> 'p fast_ext \<Rightarrow> ('m, 'p) fast_vm \<Rightarrow> transaction_data \<Rightarrow> bool \<Rightarrow>
   (compressed_bytecode_info list \<times> ('m, 'p) fast_vm) res" where
  "compressed_for_tx V X vm td with_compression =
     (if is_l1_tx_type (td_tx_type td) \<or> \<not> with_compression then Inr ([], vm)
      else map_res (\<lambda>(infos, s). (infos, vm\<lparr>fv_world := (fv_world vm)\<lparr>w_storage := s\<rparr>\<rparr>))
             (compress_bytecodes_with_hashes (known_to_vm V (fe_blake X) (fv_inner vm)) (td_factory_deps td)
                (td_factory_deps_hashes td) (w_storage (fv_world vm))))"

definition arm_ecrecover ::
  "'p fast_ext \<Rightarrow> ('m, 'p) fast_vm \<Rightarrow> address \<Rightarrow> ec_recover_call option \<Rightarrow> ('m, 'p) fast_vm res" where
  "arm_ecrecover X vm tx_origin call =
     (if fv_skip_signature_verification vm \<and> call \<noteq> None
      then map_res (\<lambda>(default_aa, w). vm\<lparr>fv_world := w\<lparr>w_expected_ecrecover_call := (if default_aa then call else None)\<rparr>\<rparr>)
             (has_default_aa (fe_blake X) (fv_world vm) tx_origin)
      else Inr (vm\<lparr>fv_world := (fv_world vm)\<lparr>w_expected_ecrecover_call := None\<rparr>\<rparr>))"

definition push_transaction_inner ::
  "('m, 'p, 'd) vm2 \<Rightarrow> 'p fast_ext \<Rightarrow> ('m, 'p) fast_vm \<Rightarrow> transaction \<Rightarrow> u64 \<Rightarrow> bool \<Rightarrow> ('m, 'p) fast_vm res" where
  "push_transaction_inner V X vm tx refund with_compression =
     and_then (transaction_data_new (ext_sha256 (fe_externals X)) (fe_extract_chain_id X) tx
         (bsc_evm_emulator (base_system_smart_contracts (fv_system_env vm)) \<noteq> None)) (\<lambda>td.
     let overhead = overhead_gas td;
         vm = vm\<lparr>fv_world := insert_bytecodes_with_hashes (fv_world vm) (zip (td_factory_deps_hashes td) (td_factory_deps td))\<rparr>
     in and_then (compressed_for_tx V X vm td with_compression) (\<lambda>(compressed, vm).
        and_then (push_tx (fe_externals X) (fv_bootloader_state vm) td overhead refund compressed (trusted_ergs_limit td)
            (system_chain_id (fv_system_env vm))) (\<lambda>(state, memory, ecrecover_call).
        and_then (vm_write_to_bootloader_heap V (vm\<lparr>fv_bootloader_state := state\<rparr>) memory) (\<lambda>vm.
          arm_ecrecover X vm (td_from td) ecrecover_call))))"

section \<open>Hooks\<close>

datatype vm_hook =
    AccountValidationEntered | PaymasterValidationEntered | ValidationExited | ValidationStepEnded | TxHasEnded | DebugLog
  | DebugReturnData | NearCallCatch | AskOperatorForRefund | NotifyAboutRefund | PostResult | FinalBatchInfo | PubdataRequested

definition vm_hooks :: "vm_hook list" where
  "vm_hooks = [AccountValidationEntered, PaymasterValidationEntered, ValidationExited, ValidationStepEnded, TxHasEnded, DebugLog,
     DebugReturnData, NearCallCatch, AskOperatorForRefund, NotifyAboutRefund, PostResult, FinalBatchInfo, PubdataRequested]"

definition vm_hook_new :: "u32 \<Rightarrow> vm_hook res" where
  "vm_hook_new raw = ensure (unat raw < length vm_hooks) (Panic (PanicMsg ''Unknown hook'')) (Inr (vm_hooks ! unat raw))"

definition TX_GAS_LIMIT_OFFSET :: nat where "TX_GAS_LIMIT_OFFSET = 4"

definition STOP_AFTER_VALIDATION :: bool where "STOP_AFTER_VALIDATION = False"

definition account_validation_entered :: "fast_validation_tracer \<Rightarrow> u32 \<Rightarrow> u32 \<Rightarrow> fast_validation_tracer" where
  "account_validation_entered t validation_gas_limit gas_hidden = t\<lparr>track_out_of_gas := 0 < gas_hidden\<rparr>"

definition validation_exited :: "fast_validation_tracer \<Rightarrow> halt option \<times> fast_validation_tracer" where
  "validation_exited t = (if is_out_of_gas t then Some ValidationOutOfGas else None, t\<lparr>track_out_of_gas := False\<rparr>)"

text \<open>The local variables of \<open>run\<close>.\<close>

record ('m, 'p) run_state =
  rs_vm :: "('m, 'p) fast_vm"
  rs_tracer :: fast_validation_tracer
  rs_gas_left_for_account_validation :: u32
  rs_account_validation_gas_split :: "(u32 \<times> u32) option"
  rs_refunds :: refunds
  rs_last_tx_result :: "vm_execution_result option"
  rs_pubdata_before :: u32
  rs_pubdata_published :: u32

datatype ('m, 'p) flow = Continue "('m, 'p) run_state" | Break vm_execution_result bool "('m, 'p) run_state"

definition enter_account_validation :: "('m, 'p, 'd) vm2 \<Rightarrow> ('m, 'p) run_state \<Rightarrow> ('m, 'p) run_state res" where
  "enter_account_validation V rs =
     ensure (rs_account_validation_gas_split rs = None) (Panic (PanicMsg ''Account validation can't be nested''))
     (let gas = vm2_gas V (fv_inner (rs_vm rs));
          gas_given = min gas (rs_gas_left_for_account_validation rs);
          gas_hidden = gas - gas_given
      in Inr (rs\<lparr>rs_tracer := account_validation_entered (rs_tracer rs) gas_given gas_hidden,
                 rs_account_validation_gas_split := Some (gas_given, gas_hidden),
                 rs_vm := (rs_vm rs)\<lparr>fv_inner := vm2_set_gas V (fv_inner (rs_vm rs)) gas_given\<rparr>\<rparr>))"

definition exit_validation :: "('m, 'p, 'd) vm2 \<Rightarrow> ('m, 'p) run_state \<Rightarrow> ('m, 'p) flow" where
  "exit_validation V rs =
     (let rs = (case rs_account_validation_gas_split rs of
            None \<Rightarrow> rs
          | Some (gas_given, gas_hidden) \<Rightarrow>
              (let gas_left = vm2_gas V (fv_inner (rs_vm rs))
               in rs\<lparr>rs_account_validation_gas_split := None,
                     rs_gas_left_for_account_validation := rs_gas_left_for_account_validation rs - (gas_given - gas_left),
                     rs_vm := (rs_vm rs)\<lparr>fv_inner := vm2_set_gas V (fv_inner (rs_vm rs)) (gas_left + gas_hidden)\<rparr>\<rparr>));
          (stopped, tracer) = validation_exited (rs_tracer rs);
          rs = rs\<lparr>rs_tracer := tracer\<rparr>
      in case stopped of Some reason \<Rightarrow> Break (VmHalt reason) True rs | None \<Rightarrow> Continue rs)"

definition tx_has_ended :: "('m, 'p, 'd) vm2 \<Rightarrow> ('m, 'p) run_state \<Rightarrow> ('m, 'p) flow res" where
  "tx_has_ended V rs =
     and_then (case rs_last_tx_result rs of
        Some r \<Rightarrow> Inr r
      | None \<Rightarrow> map_res (\<lambda>r. if r = 0
            then VmRevert (General ''Transaction reverted with empty reason. Possibly out of gas'' []) else VmSuccess [])
          (get_tx_result V (rs_vm rs))) (\<lambda>tx_result.
       Inr (Break tx_result False (rs\<lparr>rs_last_tx_result := None\<rparr>)))"

definition u32_saturating_sub :: "u32 \<Rightarrow> u32 \<Rightarrow> u32" where
  "u32_saturating_sub a b = (if a < b then 0 else a - b)"

definition operator_refund :: "('m, 'p, 'd) vm2 \<Rightarrow> 'p fast_ext \<Rightarrow> ('m, 'p) run_state \<Rightarrow> ('m, 'p) run_state res" where
  "operator_refund V X rs =
     (let vm = rs_vm rs; ps = get_hook_params V vm; state = fv_bootloader_state vm in
      and_then (current_tx state) (\<lambda>current_tx_index.
      and_then (state_tx_description_offset state current_tx_index) (\<lambda>tx_description_offset.
      and_then (as_u64 (read_word_from_bootloader_heap V vm (tx_description_offset + TX_GAS_LIMIT_OFFSET))) (\<lambda>tx_gas_limit.
      let pubdata_after = vm2_pubdata V (fv_inner vm);
          pubdata_published = u32_saturating_sub pubdata_after (rs_pubdata_before rs)
      in and_then (as_u64 (ps ! 0)) (\<lambda>bootloader_refund.
         and_then (as_u64 (ps ! 1)) (\<lambda>gas_spent_on_pubdata.
         and_then (last_l2_block state) (\<lambda>block.
         ensure (bb_txs block \<noteq> []) (Panic (PanicMsg ''unwrap on None''))
         (and_then (compute_refund (fe_overflow_checks X) (fv_batch_env vm) bootloader_refund gas_spent_on_pubdata tx_gas_limit (ucast (ps ! 2)) pubdata_published)
           (\<lambda>refund.
         and_then (vm_write_to_bootloader_heap V vm [(get_operator_refunds_offset (fv_subversion vm) + current_tx_index, ucast refund)]) (\<lambda>vm.
         and_then (set_refund_for_current_tx (fv_bootloader_state vm) refund) (\<lambda>state.
           Inr (rs\<lparr>rs_vm := vm\<lparr>fv_bootloader_state := state\<rparr>,
                   rs_refunds := (rs_refunds rs)\<lparr>operator_suggested_refund := refund\<rparr>,
                   rs_pubdata_before := pubdata_after, rs_pubdata_published := pubdata_published\<rparr>))))))))))))"

definition post_result :: "('m, 'p, 'd) vm2 \<Rightarrow> 'p fast_ext \<Rightarrow> ('m, 'p) run_state \<Rightarrow> ('m, 'p) run_state res" where
  "post_result V X rs =
     (let vm = rs_vm rs; result = get_hook_params V vm ! 0; v = get_hook_params V vm ! 1 in
      and_then (read_bytes_from_heap V vm (fe_pointer_from X v)) (\<lambda>return_data.
      map_res (\<lambda>tx_result. rs\<lparr>rs_last_tx_result := Some tx_result\<rparr>)
        (if result = 0 then map_res VmRevert (vm_revert_reason_from (fe_usize X) return_data) else Inr (VmSuccess return_data))))"

definition vm_final_batch_info :: "('m, 'p, 'd) vm2 \<Rightarrow> 'p fast_ext \<Rightarrow> ('m, 'p) fast_vm \<Rightarrow> ('m, 'p) fast_vm res" where
  "vm_final_batch_info V X vm =
     and_then (get_new_block_config (fv_bootloader_state vm)) (\<lambda>new_block_config.
     and_then (free_tx_index (fv_bootloader_state vm)) (\<lambda>txs_index.
     and_then (insert_fictive_l2_block (ext_keccak (fe_externals X)) (fv_bootloader_state vm)) (\<lambda>(state, l2_block).
       vm_write_to_bootloader_heap V (vm\<lparr>fv_bootloader_state := state\<rparr>)
         (fst (apply_l2_block [] l2_block txs_index (fv_subversion vm) (Some new_block_config))))))"

definition vm_published_bytecodes :: "('m, 'p) fast_vm \<Rightarrow> vm_event list \<Rightarrow> u8 list list res" where
  "vm_published_bytecodes vm events =
     collect_res (map (\<lambda>event.
         ensure (32 \<le> length (ve_value event)) (Panic IndexOutOfBounds)
           (ok_or (Panic (PanicMsg ''published unknown bytecode''))
             (w_bytecode_cache (fv_world vm) (from_be_bytes (take 32 (ve_value event))))))
       (filter (\<lambda>event. ve_address event = L1_MESSENGER_ADDRESS \<and> ve_indexed_topics event \<noteq> []
          \<and> hd (ve_indexed_topics event) = L1_MESSENGER_BYTECODE_PUBLICATION_EVENT_SIGNATURE) events))"

definition compute_state_diffs :: "('m, 'p, 'd) vm2 \<Rightarrow> 'p fast_ext \<Rightarrow> ('m, 'p) fast_vm \<Rightarrow> state_diff_record list res" where
  "compute_state_diffs V X vm =
     map_res (filter (\<lambda>diff. sd_address diff \<noteq> L1_MESSENGER_ADDRESS))
       (collect_res (map (\<lambda>((addr, k), change).
          map_res (\<lambda>idx. \<lparr>sd_address = addr, sd_key = k, derived_key = fe_derive_final_address X addr k,
              enumeration_index = (case idx of Some i \<Rightarrow> i | None \<Rightarrow> 0), initial_value = sc_before change, final_value = sc_after change\<rparr>)
            (view_get_enumeration_index (fe_blake X) (w_storage (fv_world vm)) \<lparr>account = addr, slot = k\<rparr>))
        (vm2_storage_changes V (fv_inner vm))))"

definition vm_pubdata_requested ::
  "('m, 'p, 'd) vm2 \<Rightarrow> 'p fast_ext \<Rightarrow> vm_execution_mode \<Rightarrow> pubdata_builder option \<Rightarrow> ('m, 'p) fast_vm \<Rightarrow> ('m, 'p) fast_vm res" where
  "vm_pubdata_requested V X mode builder vm =
     ensure (mode = Batch) (Panic (PanicMsg ''We do not provide the pubdata when executing the block tip or a single transaction''))
     (and_then (fast_merge_events (fe_usize X) (vm2_events V (fv_inner vm)) (batch_env_number (fv_batch_env vm))) (\<lambda>events.
      and_then (vm_published_bytecodes vm events) (\<lambda>published.
      and_then (extract_l2tol1logs_from_l1_messenger (ext_abi (fe_externals X)) (fe_long_signature X) events) (\<lambda>logs.
      and_then (extract_long_l2_to_l1_messages (ext_abi (fe_externals X)) events) (\<lambda>messages.
      and_then (compute_state_diffs V X vm) (\<lambda>diffs.
      let input = \<lparr>pin_user_logs = logs, pin_l2_to_l1_messages = messages, pin_published_bytecodes = published, pin_state_diffs = diffs\<rparr>
      in and_then (set_pubdata_input (fv_bootloader_state vm) input) (\<lambda>state.
         and_then (ok_or (Panic (PanicMsg ''`pubdata_builder` is required to finish batch'')) builder) (\<lambda>builder.
         and_then (apply_pubdata_to_memory (fe_externals X) [] builder input (system_version (fv_system_env vm)) (fv_subversion vm)) (\<lambda>memory.
           vm_write_to_bootloader_heap V (vm\<lparr>fv_bootloader_state := state\<rparr>) memory)))))))))"

text \<open>One hook.\<close>

abbreviation on_vm :: "('m, 'p) run_state \<Rightarrow> ('m, 'p) fast_vm res \<Rightarrow> ('m, 'p) flow res" where
  "on_vm rs r \<equiv> map_res (\<lambda>vm. Continue (rs\<lparr>rs_vm := vm\<rparr>)) r"

definition handle_hook ::
  "('m, 'p, 'd) vm2 \<Rightarrow> 'p fast_ext \<Rightarrow> vm_execution_mode \<Rightarrow> bool \<Rightarrow> pubdata_builder option \<Rightarrow> vm_hook \<Rightarrow> ('m, 'p) run_state \<Rightarrow>
   ('m, 'p) flow res" where
  "handle_hook V X mode track_refunds builder hook rs = (case hook of
      AccountValidationEntered \<Rightarrow> map_res Continue (enter_account_validation V rs)
    | ValidationExited \<Rightarrow> Inr (exit_validation V rs)
    | ValidationStepEnded \<Rightarrow> Inr (if STOP_AFTER_VALIDATION then Break (VmSuccess []) True rs else Continue rs)
    | TxHasEnded \<Rightarrow> if mode = OneTx then tx_has_ended V rs else Inr (Continue rs)
    | AskOperatorForRefund \<Rightarrow> if track_refunds then map_res Continue (operator_refund V X rs) else Inr (Continue rs)
    | NotifyAboutRefund \<Rightarrow> Inr (Continue (if track_refunds
          then rs\<lparr>rs_refunds := (rs_refunds rs)\<lparr>gas_refunded := ucast (get_hook_params V (rs_vm rs) ! 0)\<rparr>\<rparr> else rs))
    | PostResult \<Rightarrow> map_res Continue (post_result V X rs)
    | FinalBatchInfo \<Rightarrow> on_vm rs (vm_final_batch_info V X (rs_vm rs))
    | PubdataRequested \<Rightarrow> on_vm rs (vm_pubdata_requested V X mode builder (rs_vm rs))
    | PaymasterValidationEntered \<Rightarrow> Inr (Continue rs)
    | DebugLog \<Rightarrow> Inr (Continue rs)
    | DebugReturnData \<Rightarrow> Inr (Continue rs)
    | NearCallCatch \<Rightarrow> Inr (Continue rs))"

text \<open>One round of the loop.\<close>

definition run_round ::
  "('m, 'p, 'd) vm2 \<Rightarrow> 'p fast_ext \<Rightarrow> vm_execution_mode \<Rightarrow> bool \<Rightarrow> pubdata_builder option \<Rightarrow> ('m, 'p) run_state \<Rightarrow>
   ('m, 'p) flow res" where
  "run_round V X mode track_refunds builder rs =
     and_then (vm2_run V (fv_inner (rs_vm rs)) (fv_world (rs_vm rs)) (rs_tracer rs)) (\<lambda>(ending, inner, w, tracer).
     let rs = rs\<lparr>rs_vm := (rs_vm rs)\<lparr>fv_inner := inner, fv_world := w\<rparr>, rs_tracer := tracer\<rparr>
     in case ending of
          SuspendedOnHook raw \<Rightarrow> and_then (vm_hook_new raw) (\<lambda>hook. handle_hook V X mode track_refunds builder hook rs)
        | ProgramFinished output \<Rightarrow> Inr (Break (VmSuccess output) True rs)
        | Reverted output \<Rightarrow> map_res (\<lambda>reason. case reason of
              TxReverted r \<Rightarrow> Break (VmRevert r) True rs | TxHalt h \<Rightarrow> Break (VmHalt h) True rs)
            (parse_error (fe_usize X) (fe_hex X) output)
        | Panicked \<Rightarrow> Inr (Break (VmHalt (if vm2_gas V inner = 0 then BootloaderOutOfGas else VMPanic)) True rs)
        | StoppedByTracer \<Rightarrow> Inr (Break (VmHalt (TracerCustom ''Unexpectedly stopped by tracer'')) False rs))"

partial_function (option) run_loop ::
  "('m, 'p, 'd) vm2 \<Rightarrow> 'p fast_ext \<Rightarrow> vm_execution_mode \<Rightarrow> bool \<Rightarrow> pubdata_builder option \<Rightarrow> ('m, 'p) run_state \<Rightarrow>
   (vm_execution_result \<times> bool \<times> ('m, 'p) run_state) res option" where
  "run_loop V X mode track_refunds builder rs =
     (case run_round V X mode track_refunds builder rs of
        Inl e \<Rightarrow> Some (Inl e)
      | Inr (Break result ended rs') \<Rightarrow> Some (Inr (result, ended, rs'))
      | Inr (Continue rs') \<Rightarrow> run_loop V X mode track_refunds builder rs')"

definition run_start :: "('m, 'p, 'd) vm2 \<Rightarrow> ('m, 'p) fast_vm \<Rightarrow> fast_validation_tracer \<Rightarrow> ('m, 'p) run_state" where
  "run_start V vm tracer =
     \<lparr>rs_vm = vm, rs_tracer = tracer,
      rs_gas_left_for_account_validation = default_validation_computational_gas_limit (fv_system_env vm),
      rs_account_validation_gas_split = None, rs_refunds = \<lparr>gas_refunded = 0, operator_suggested_refund = 0\<rparr>,
      rs_last_tx_result = None, rs_pubdata_before = vm2_pubdata V (fv_inner vm), rs_pubdata_published = 0\<rparr>"

definition fast_run ::
  "('m, 'p, 'd) vm2 \<Rightarrow> 'p fast_ext \<Rightarrow> vm_execution_mode \<Rightarrow> bool \<Rightarrow> pubdata_builder option \<Rightarrow> ('m, 'p) fast_vm \<Rightarrow>
   fast_validation_tracer \<Rightarrow> (vm_run_result \<times> ('m, 'p) fast_vm \<times> fast_validation_tracer) res option" where
  "fast_run V X mode track_refunds builder vm tracer =
     map_option (map_res (\<lambda>(result, ended, rs).
       (\<lparr>rr_execution_result = result, rr_execution_ended = ended, rr_refunds = rs_refunds rs,
         rr_pubdata_published = rs_pubdata_published rs\<rparr>, rs_vm rs, rs_tracer rs)))
     (run_loop V X mode track_refunds builder (run_start V vm tracer))"

section \<open>Execution\<close>

record storage_log_with_previous_value =
  slp_log :: storage_log
  slp_previous_value :: h256

record vm_execution_logs =
  el_storage_logs :: "storage_log_with_previous_value list"
  el_vm_events :: "vm_event list"
  el_user_l2_to_l1_logs :: "l2_to_l1_log list"
  el_system_l2_to_l1_logs :: "l2_to_l1_log list"

definition vm_execution_logs_default :: vm_execution_logs where
  "vm_execution_logs_default =
     \<lparr>el_storage_logs = [], el_vm_events = [], el_user_l2_to_l1_logs = [], el_system_l2_to_l1_logs = []\<rparr>"

record vm_execution_result_and_logs =
  er_result :: vm_execution_result
  er_logs :: vm_execution_logs
  er_gas_used :: u32
  er_gas_remaining :: u32
  er_pubdata_published :: u32
  er_refunds :: refunds
  er_dynamic_factory_deps :: "h256 \<rightharpoonup> u8 list"

definition log_glue_from :: "vm2_log \<Rightarrow> l2_to_l1_log" where
  "log_glue_from l = \<lparr>shard_id = v2l_shard_id l, is_service = v2l_is_service l, tx_number_in_block = v2l_tx_number l,
     sender = v2l_address l, l1_key = v2l_key l, l1_value = v2l_value l\<rparr>"

definition storage_log_of_change :: "(address \<times> u256) \<times> storage_change \<Rightarrow> storage_log_with_previous_value" where
  "storage_log_of_change = (\<lambda>((addr, k), change).
     \<lparr>slp_log = \<lparr>kind = (if sc_is_initial change then InitialWrite else RepeatedWrite),
        log_key = \<lparr>account = addr, slot = k\<rparr>, log_value = sc_after change\<rparr>, slp_previous_value = sc_before change\<rparr>)"

definition user_logs_of_events :: "'p fast_ext \<Rightarrow> vm_event list \<Rightarrow> l2_to_l1_log list res" where
  "user_logs_of_events X events =
     map_res (map into_l2_to_l1_log) (extract_l2tol1logs_from_l1_messenger (ext_abi (fe_externals X)) (fe_long_signature X) events)"

definition logs_since :: "('m, 'p, 'd) vm2 \<Rightarrow> 'p fast_ext \<Rightarrow> ('m, 'p) fast_vm \<Rightarrow> 'd \<Rightarrow> vm_execution_logs res" where
  "logs_since V X vm start =
     and_then (fast_merge_events (fe_usize X) (vm2_events_after V (fv_inner vm) start) (batch_env_number (fv_batch_env vm))) (\<lambda>events.
     map_res (\<lambda>user_logs.
       \<lparr>el_storage_logs = map storage_log_of_change (vm2_storage_changes_after V (fv_inner vm) start), el_vm_events = events,
        el_user_l2_to_l1_logs = user_logs,
        el_system_l2_to_l1_logs = map log_glue_from (vm2_l2_to_l1_logs_after V (fv_inner vm) start)\<rparr>)
     (user_logs_of_events X events))"

text \<open>The answer: a result that may be missing (the run does not end), an abort, or the result, the new VM and tracer.\<close>

definition inspect_inner ::
  "('m, 'p, 'd) vm2 \<Rightarrow> 'p fast_ext \<Rightarrow> ('m, 'p) fast_vm \<Rightarrow> fast_validation_tracer \<Rightarrow> vm_execution_mode \<Rightarrow> pubdata_builder option \<Rightarrow>
   (vm_execution_result_and_logs \<times> ('m, 'p) fast_vm \<times> fast_validation_tracer) res option" where
  "inspect_inner V X vm tracer mode builder =
     (case (if mode = OneTx then map_res (\<lambda>(s, _). vm\<lparr>fv_bootloader_state := s\<rparr>) (move_tx_to_execute_pointer (fv_bootloader_state vm))
            else Inr vm) of
        Inl e \<Rightarrow> Some (Inl e)
      | Inr vm0 \<Rightarrow>
          (let start = vm2_world_diff_snapshot V (fv_inner vm0); gas_before = vm2_gas V (fv_inner vm0)
           in map_option (\<lambda>r. and_then r (\<lambda>(result, vm1, tracer1).
                map_res (\<lambda>logs.
                  (\<lparr>er_result = rr_execution_result result, er_logs = logs,
                    er_gas_used = gas_before - vm2_gas V (fv_inner vm1), er_gas_remaining = vm2_gas V (fv_inner vm1),
                    er_pubdata_published = rr_pubdata_published result, er_refunds = rr_refunds result,
                    er_dynamic_factory_deps =
                      decommit_dynamic_bytecodes (fv_world vm1) (extract_bytecodes_marked_as_known (el_vm_events logs))\<rparr>,
                   vm1, tracer1))
                (if mode = OneTx \<and> should_ignore_vm_logs result then Inr vm_execution_logs_default else logs_since V X vm1 start)))
              (fast_run V X mode (mode = OneTx) builder vm0 tracer)))"

definition tracer_default :: fast_validation_tracer where
  "tracer_default = \<lparr>track_out_of_gas = False, is_out_of_gas = False\<rparr>"

definition unpublished :: "'p fast_ext \<Rightarrow> ('m, 'p) fast_vm \<Rightarrow> compressed_bytecode_info \<Rightarrow> (bool \<times> ('m, 'p) fast_vm) res" where
  "unpublished X vm info =
     and_then (for_bytecode (ext_sha256 (fe_externals X)) (cb_original info)) (\<lambda>h.
     map_res (\<lambda>(known, s). (\<not> (known \<or> w_bytecode_cache (fv_world vm) h \<noteq> None), vm\<lparr>fv_world := (fv_world vm)\<lparr>w_storage := s\<rparr>\<rparr>))
       (is_bytecode_known (immutable_read_value (fe_blake X)) (w_storage (fv_world vm)) h))"

fun any_unpublished :: "'p fast_ext \<Rightarrow> ('m, 'p) fast_vm \<Rightarrow> compressed_bytecode_info list \<Rightarrow> (bool \<times> ('m, 'p) fast_vm) res" where
  "any_unpublished X vm [] = Inr (False, vm)"
| "any_unpublished X vm (i # is) =
     and_then (unpublished X vm i) (\<lambda>(b, vm'). if b then Inr (True, vm') else any_unpublished X vm' is)"

definition has_unpublished_bytecodes :: "'p fast_ext \<Rightarrow> ('m, 'p) fast_vm \<Rightarrow> (bool \<times> ('m, 'p) fast_vm) res" where
  "has_unpublished_bytecodes X vm =
     and_then (get_last_tx_compressed_bytecodes (fv_bootloader_state vm)) (any_unpublished X vm)"

definition push_transaction ::
  "('m, 'p, 'd) vm2 \<Rightarrow> 'p fast_ext \<Rightarrow> ('m, 'p) fast_vm \<Rightarrow> transaction \<Rightarrow> (compressed_bytecode_info list \<times> ('m, 'p) fast_vm) res" where
  "push_transaction V X vm tx =
     and_then (push_transaction_inner V X vm tx 0 True) (\<lambda>vm'.
       map_res (\<lambda>infos. (infos, vm')) (get_last_tx_compressed_bytecodes (fv_bootloader_state vm')))"

definition inspect_transaction_with_bytecode_compression ::
  "('m, 'p, 'd) vm2 \<Rightarrow> 'p fast_ext \<Rightarrow> ('m, 'p) fast_vm \<Rightarrow> transaction \<Rightarrow> bool \<Rightarrow>
   ((bool \<times> vm_execution_result_and_logs) \<times> ('m, 'p) fast_vm) res option" where
  "inspect_transaction_with_bytecode_compression V X vm tx with_compression =
     (case push_transaction_inner V X vm tx 0 with_compression of
        Inl e \<Rightarrow> Some (Inl e)
      | Inr vm1 \<Rightarrow> map_option (\<lambda>r. and_then r (\<lambda>(result, vm2, _).
          map_res (\<lambda>(b, vm3). ((\<not> b, result), vm3)) (has_unpublished_bytecodes X vm2)))
        (inspect_inner V X vm1 tracer_default OneTx None))"

definition vm_start_new_l2_block :: "'p fast_ext \<Rightarrow> ('m, 'p) fast_vm \<Rightarrow> l2_block_env \<Rightarrow> ('m, 'p) fast_vm res" where
  "vm_start_new_l2_block X vm env =
     map_res (\<lambda>s. vm\<lparr>fv_bootloader_state := s\<rparr>) (Bootloader.start_new_l2_block (ext_keccak (fe_externals X)) (fv_bootloader_state vm) env)"

definition storage_log_from_query :: "log_query \<Rightarrow> storage_log" where
  "storage_log_from_query q =
     (let k = \<lparr>account = lq_address q, slot = lq_key q\<rparr>
      in if lq_rw_flag q
         then if lq_rollback q then \<lparr>kind = RepeatedWrite, log_key = k, log_value = lq_read_value q\<rparr>
              else \<lparr>kind = RepeatedWrite, log_key = k, log_value = lq_written_value q\<rparr>
         else new_read_log k (lq_read_value q))"

text \<open>The parts of \<open>CurrentExecutionState\<close> the verifier uses: the deduplicated storage logs and the system logs.\<close>

definition get_current_execution_state ::
  "('m, 'p, 'd) vm2 \<Rightarrow> 'p fast_ext \<Rightarrow> ('m, 'p) fast_vm \<Rightarrow> (vm_event list \<times> storage_log list \<times> u256 list \<times> l2_to_l1_log list \<times> l2_to_l1_log list) res" where
  "get_current_execution_state V X vm =
     and_then (fast_merge_events (fe_usize X) (vm2_events V (fv_inner vm)) (batch_env_number (fv_batch_env vm))) (\<lambda>events.
     map_res (\<lambda>user_logs.
       (events,
        map storage_log_from_query (fe_sort_storage_access_queries X (vm2_storage_log_queries V (fv_inner vm))),
        vm2_decommitted_hashes V (fv_inner vm), map log_glue_from (vm2_l2_to_l1_logs V (fv_inner vm)), user_logs))
     (user_logs_of_events X events))"

definition verifier_result :: "'p fast_ext \<Rightarrow> vm_execution_result \<Rightarrow> execution_result" where
  "verifier_result X r = (case r of
      VmSuccess output \<Rightarrow> Success output | VmRevert reason \<Rightarrow> Revert (encoded_data reason) | VmHalt h \<Rightarrow> Halt (display_halt (fe_hex X) h))"

definition vm_finish_batch ::
  "('m, 'p, 'd) vm2 \<Rightarrow> 'p fast_ext \<Rightarrow> ('m, 'p) fast_vm \<Rightarrow> pubdata_builder \<Rightarrow> (finished_l1_batch \<times> ('m, 'p) fast_vm) res option" where
  "vm_finish_batch V X vm builder =
     map_option (\<lambda>r. and_then r (\<lambda>(result, vm1, _).
       and_then (get_current_execution_state V X vm1) (\<lambda>(_, storage_logs, _, system_logs, _).
       and_then (bootloader_memory (fe_externals X) (fv_bootloader_state vm1) builder) (\<lambda>memory.
       and_then (state_settlement_layer_pubdata (fe_externals X) (fv_bootloader_state vm1) builder) (\<lambda>pubdata.
       map_res (\<lambda>info.
         (\<lparr>block_tip_result = verifier_result X (er_result result), fb_system_logs = system_logs,
           fb_deduplicated_storage_logs = storage_logs, fb_final_bootloader_memory = Some memory,
           fb_pubdata_input = Some pubdata, fb_state_diffs = Some (pin_state_diffs info)\<rparr>, vm1))
       (get_pubdata_information (fv_bootloader_state vm1)))))))
     (inspect_inner V X vm tracer_default Batch (Some builder))"

section \<open>Snapshots\<close>

definition vm_make_snapshot :: "('m, 'p, 'd) vm2 \<Rightarrow> ('m, 'p) fast_vm \<Rightarrow> ('m, 'p) fast_vm res" where
  "vm_make_snapshot V vm =
     ensure (fv_snapshot vm = None)
       (Panic (PanicMsg ''cannot create a VM snapshot until a previous snapshot is rolled back to or popped''))
     (map_res (\<lambda>snap. vm\<lparr>fv_inner := vm2_make_snapshot V (fv_inner vm), fv_snapshot := Some snap\<rparr>)
       (get_snapshot (fv_bootloader_state vm)))"

definition vm_rollback_to_the_latest_snapshot :: "('m, 'p, 'd) vm2 \<Rightarrow> ('m, 'p) fast_vm \<Rightarrow> ('m, 'p) fast_vm res" where
  "vm_rollback_to_the_latest_snapshot V vm =
     and_then (ok_or (Panic (PanicMsg ''no snapshots to rollback to'')) (fv_snapshot vm)) (\<lambda>snap.
     map_res (\<lambda>s. vm\<lparr>fv_snapshot := None, fv_inner := vm2_rollback V (fv_inner vm), fv_bootloader_state := s\<rparr>)
       (apply_snapshot (fv_bootloader_state vm) snap))"

definition vm_pop_snapshot_no_rollback :: "('m, 'p, 'd) vm2 \<Rightarrow> ('m, 'p) fast_vm \<Rightarrow> ('m, 'p) fast_vm" where
  "vm_pop_snapshot_no_rollback V vm = vm\<lparr>fv_inner := vm2_pop_snapshot V (fv_inner vm), fv_snapshot := None\<rparr>"

definition used_contract_hashes :: "('m, 'p, 'd) vm2 \<Rightarrow> ('m, 'p) fast_vm \<Rightarrow> h256 list" where
  "used_contract_hashes V vm = vm2_decommitted_hashes V (fv_inner vm)"

section \<open>The verifier's VM\<close>

text \<open>
  The operations the verifier calls, on the fast VM. Its state is a result, so that an abort of an operation that the
  verifier's interface has as a plain function aborts the next operation; a run that does not end is an abort of its own.
\<close>

definition ended :: "'a res option \<Rightarrow> 'a res" where
  "ended r = (case r of Some x \<Rightarrow> x | None \<Rightarrow> Inl (Panic (PanicMsg ''execution does not end'')))"

definition fast_vm_ops :: "('m, 'p, 'd) vm2 \<Rightarrow> 'p fast_ext \<Rightarrow> (transaction, ('m, 'p) fast_vm res) vm_ops" where
  "fast_vm_ops V X =
     \<lparr>vm_fast = fast_vm_custom V X,
      make_snapshot = (\<lambda>r. and_then r (vm_make_snapshot V)),
      rollback_to_the_latest_snapshot = (\<lambda>r. and_then r (vm_rollback_to_the_latest_snapshot V)),
      pop_snapshot_no_rollback = map_res (vm_pop_snapshot_no_rollback V),
      execute_transaction_with_bytecode_compression = (\<lambda>tx with_compression r. and_then r (\<lambda>vm.
        map_res (\<lambda>((compressed, result), vm'). ((compressed, verifier_result X (er_result result)), Inr vm'))
          (ended (inspect_transaction_with_bytecode_compression V X vm tx with_compression)))),
      start_new_l2_block = (\<lambda>env r. and_then r (\<lambda>vm. map_res Inr (vm_start_new_l2_block X vm env))),
      finish_batch = (\<lambda>builder r. and_then r (\<lambda>vm. map_res fst (ended (vm_finish_batch V X vm builder))))\<rparr>"

end
