(* ===== verification/Fast_Vm_Correct.thy ===== *)
theory Fast_Vm_Correct
  imports Fast_Vm Bootloader_Rollback
begin

text \<open>
  Theorems on the fast VM. An invariant of the wrapper that the interpreter and each hook keep is kept by a whole run
  (locale \<open>run_invariant\<close>); it is interpreted for the transactions of the bootloader and for the ecrecover shortcut. The
  former gives that the verifier's driver hands every transaction to the bootloader exactly once, although it may execute
  it twice.
\<close>

section \<open>Invariants of a run\<close>

definition round_keeps ::
  "('m, 'p, 'd) vm2 \<Rightarrow> 'p fast_ext \<Rightarrow> vm_execution_mode \<Rightarrow> bool \<Rightarrow> pubdata_builder option \<Rightarrow> (('m, 'p) run_state \<Rightarrow> bool) \<Rightarrow> bool" where
  "round_keeps V X mode track builder J \<longleftrightarrow> (\<forall>rs f. J rs \<longrightarrow> run_round V X mode track builder rs = Inr f \<longrightarrow>
     (case f of Continue rs' \<Rightarrow> J rs' | Break _ _ rs' \<Rightarrow> J rs'))"

lemma run_loop_keeps:
  assumes "run_loop V X mode track builder rs = Some (Inr (r, e, rs'))" "round_keeps V X mode track builder J" "J rs"
  shows "J rs'"
proof -
  have "y = Inr (r, e, rs') \<longrightarrow> round_keeps V X mode track builder J \<longrightarrow> J rs \<longrightarrow> J rs'"
    if "run_loop V X mode track builder rs = Some y" for y
    using that
  proof (induction V X mode track builder rs y rule: run_loop.raw_induct)
    case (1 approx V X mode track builder rs y)
    show ?case
    proof (intro impI)
      assume y: "y = Inr (r, e, rs')" and keeps: "round_keeps V X mode track builder J" and J: "J rs"
      from 1 (2) y obtain f where f: "run_round V X mode track builder rs = Inr f" by (cases "run_round V X mode track builder rs") auto
      show "J rs'"
      proof (cases f)
        case (Continue rs1)
        then have "J rs1" using keeps J f by (fastforce simp: round_keeps_def)
        moreover have "approx V X mode track builder rs1 = Some y" "run_loop V X mode track builder rs1 = Some y"
          using 1 (2) 1 (3) f Continue run_loop.simps [of V X mode track builder rs] by simp_all
        ultimately show ?thesis using 1 (1) y keeps by blast
      next
        case (Break r1 e1 rs1)
        then show ?thesis using 1 (2) f y keeps J by (fastforce simp: round_keeps_def)
      qed
    qed
  qed (rule that)
  then show ?thesis using assms by blast
qed

locale run_invariant =
  fixes V :: "('m, 'p, 'd) vm2" and X :: "'p fast_ext" and mode :: vm_execution_mode
    and I :: "('m, 'p) fast_vm \<Rightarrow> bool"
  assumes inner: "I vm \<Longrightarrow> I (vm\<lparr>fv_inner := m\<rparr>)"
    and interpreter: "I vm \<Longrightarrow> vm2_run V m (fv_world vm) t = Inr (e, m', w', t') \<Longrightarrow> I (vm\<lparr>fv_inner := m', fv_world := w'\<rparr>)"
    and refund: "I vm \<Longrightarrow> set_refund_for_current_tx (fv_bootloader_state vm) r = Inr s \<Longrightarrow> I (vm\<lparr>fv_bootloader_state := s\<rparr>)"
    and fictive: "I vm \<Longrightarrow> insert_fictive_l2_block k (fv_bootloader_state vm) = Inr (s, b) \<Longrightarrow> I (vm\<lparr>fv_bootloader_state := s\<rparr>)"
    and pubdata: "mode = Batch \<Longrightarrow> I vm \<Longrightarrow> set_pubdata_input (fv_bootloader_state vm) i = Inr s \<Longrightarrow> I (vm\<lparr>fv_bootloader_state := s\<rparr>)"
begin

lemma heap_write: "I vm \<Longrightarrow> vm_write_to_bootloader_heap V vm memory = Inr vm' \<Longrightarrow> I vm'"
  by (auto simp: vm_write_to_bootloader_heap_def inner)

lemma final_batch: "I vm \<Longrightarrow> vm_final_batch_info V X vm = Inr vm' \<Longrightarrow> I vm'"
  by (auto simp: vm_final_batch_info_def intro: heap_write fictive)

lemma pubdata_requested: "I vm \<Longrightarrow> vm_pubdata_requested V X mode builder vm = Inr vm' \<Longrightarrow> I vm'"
  by (auto simp: vm_pubdata_requested_def Let_def intro: heap_write pubdata)

lemma vm_operator_refund:
  assumes "I (rs_vm rs)" "operator_refund V X rs = Inr rs'"
  shows "I (rs_vm rs')"
proof -
  obtain memory r vm s where "vm_write_to_bootloader_heap V (rs_vm rs) memory = Inr vm"
    "set_refund_for_current_tx (fv_bootloader_state vm) r = Inr s" "rs_vm rs' = vm\<lparr>fv_bootloader_state := s\<rparr>"
    using assms(2) by (auto simp: operator_refund_def Let_def)
  then show ?thesis using refund [OF heap_write [OF assms(1)]] by metis
qed

lemma hook:
  assumes "I (rs_vm rs)" "handle_hook V X mode track builder h rs = Inr f"
  shows "case f of Continue rs' \<Rightarrow> I (rs_vm rs') | Break _ _ rs' \<Rightarrow> I (rs_vm rs')"
proof (cases h)
  case AccountValidationEntered
  then show ?thesis using assms by (auto simp: handle_hook_def enter_account_validation_def Let_def inner)
next
  case ValidationExited
  then show ?thesis
    using assms by (auto simp: handle_hook_def exit_validation_def validation_exited_def Let_def inner split: option.splits)
next
  case TxHasEnded
  then show ?thesis using assms by (auto simp: handle_hook_def tx_has_ended_def split: if_splits)
next
  case AskOperatorForRefund
  then show ?thesis using assms vm_operator_refund by (auto simp: handle_hook_def split: if_splits)
next
  case PostResult
  then show ?thesis using assms by (auto simp: handle_hook_def post_result_def Let_def)
next
  case FinalBatchInfo
  then show ?thesis using assms final_batch by (auto simp: handle_hook_def)
next
  case PubdataRequested
  then show ?thesis using assms pubdata_requested by (auto simp: handle_hook_def)
qed (use assms in \<open>auto simp: handle_hook_def split: if_splits\<close>)

lemma run_step:
  assumes "I (rs_vm rs)" "run_round V X mode track builder rs = Inr f"
  shows "case f of Continue rs' \<Rightarrow> I (rs_vm rs') | Break _ _ rs' \<Rightarrow> I (rs_vm rs')"
proof -
  obtain e m w t where run: "vm2_run V (fv_inner (rs_vm rs)) (fv_world (rs_vm rs)) (rs_tracer rs) = Inr (e, m, w, t)"
    using assms(2) by (auto simp: run_round_def)
  let ?rs = "rs\<lparr>rs_vm := (rs_vm rs)\<lparr>fv_inner := m, fv_world := w\<rparr>, rs_tracer := t\<rparr>"
  have I: "I (rs_vm ?rs)" using interpreter [OF assms(1) run] by simp
  show ?thesis
  proof (cases e)
    case (Reverted bytes)
    then obtain reason where "parse_error (fe_usize X) (fe_hex X) bytes = Inr reason"
      using assms(2) by (auto simp: run_round_def run Let_def)
    then show ?thesis using assms(2) I Reverted by (cases reason) (auto simp: run_round_def run Let_def)
  qed (use assms(2) I hook [OF I] in \<open>auto simp: run_round_def run Let_def\<close>)
qed

lemma run:
  assumes "I vm" "fast_run V X mode track builder vm t = Some (Inr (r, vm', t'))"
  shows "I vm'"
proof -
  obtain e rs where loop: "run_loop V X mode track builder (run_start V vm t) = Some (Inr (rr_execution_result r, e, rs))" "vm' = rs_vm rs"
    using assms(2) by (auto simp: fast_run_def)
  have "round_keeps V X mode track builder (\<lambda>rs. I (rs_vm rs))" using run_step by (auto simp: round_keeps_def)
  then show ?thesis
    using run_loop_keeps [OF loop(1), where J = "\<lambda>rs. I (rs_vm rs)"] assms(1) by (simp add: run_start_def loop(2))
qed

lemma inspect:
  assumes "\<And>s i. mode = OneTx \<Longrightarrow> move_tx_to_execute_pointer (fv_bootloader_state vm) = Inr (s, i) \<Longrightarrow> I (vm\<lparr>fv_bootloader_state := s\<rparr>)"
    and "mode \<noteq> OneTx \<Longrightarrow> I vm" "inspect_inner V X vm t mode builder = Some (Inr (r, vm', t'))"
  shows "I vm'"
proof -
  obtain vm0 where vm0: "I vm0" "\<exists>r. fast_run V X mode (mode = OneTx) builder vm0 t = Some (Inr (r, vm', t'))"
    using assms by (auto simp: inspect_inner_def Let_def split: if_splits sum.splits)
  then show ?thesis using run by blast
qed

end

section \<open>The transactions given to the bootloader\<close>

definition encodings :: "bootloader_state \<Rightarrow> u256 list list" where
  "encodings s = concat (map (map bt_encoded \<circ> bb_txs) (bs_l2_blocks s))"

lemma total_txs_encodings: "total_txs s = length (encodings s)"
  by (simp add: total_txs_def encodings_def length_concat comp_def)

lemma push_tx_encodings:
  assumes "push_tx ext s td overhead refund compressed limit chain_id = Inr (s', d, ec)"
  shows "\<exists>enc. into_tokens (ext_abi ext) td = Inr enc \<and> encodings s' = encodings s @ [enc]"
proof -
  obtain tx c b where new: "bootloader_tx_new ext td refund overhead limit compressed (bs_free_tx_offset s) chain_id = Inr (tx, c)"
    and b: "last_l2_block s = Inr b" and s': "bs_l2_blocks s' = butlast (bs_l2_blocks s) @ [block_push_tx (ext_keccak ext) b tx]"
    using assms by (auto simp: push_tx_def Let_def map_last_block_def last_l2_block_def split: prod.splits)
  have tx: "into_tokens (ext_abi ext) td = Inr (bt_encoded tx)" using new by (auto simp: bootloader_tx_new_def)
  have "bs_l2_blocks s = butlast (bs_l2_blocks s) @ [b]" using b by (auto simp: last_l2_block_def)
  then have "encodings s = concat (map (map bt_encoded \<circ> bb_txs) (butlast (bs_l2_blocks s) @ [b]))" by (simp add: encodings_def)
  then show ?thesis using tx by (auto simp: encodings_def s')
qed

lemma push_tx_pointer:
  "push_tx ext s td overhead refund compressed limit chain_id = Inr (s', d, ec) \<Longrightarrow> bs_tx_to_execute s' = bs_tx_to_execute s"
  by (auto simp: push_tx_def Let_def map_last_block_def split: prod.splits)

lemma update_tx_in_encodings:
  assumes "\<And>tx. bt_encoded (f tx) = bt_encoded tx"
  shows "update_tx_in f i r = Inr r' \<Longrightarrow> map (map bt_encoded \<circ> bb_txs) r' = map (map bt_encoded \<circ> bb_txs) r"
proof (induction r arbitrary: r')
  case (Cons b r)
  have "map bt_encoded (xs[p := f (xs ! p)]) = map bt_encoded xs" if "p < length xs" for xs p
    using that assms by (metis list_update_id map_update nth_map)
  then show ?case using Cons by (cases "bb_first_tx_index b \<le> i") (auto simp: Let_def)
qed simp

lemma set_refund_encodings:
  assumes "set_refund_for_current_tx s r = Inr s'"
  shows "encodings s' = encodings s" "bs_tx_to_execute s' = bs_tx_to_execute s"
proof -
  obtain i bs where upd: "update_tx_in (\<lambda>tx. tx\<lparr>bt_refund := r\<rparr>) i (rev (bs_l2_blocks s)) = Inr bs" and s': "s' = s\<lparr>bs_l2_blocks := rev bs\<rparr>"
    using assms by (auto simp: set_refund_for_current_tx_def find_tx_mut_def)
  have "map (map bt_encoded \<circ> bb_txs) bs = map (map bt_encoded \<circ> bb_txs) (rev (bs_l2_blocks s))"
    by (rule update_tx_in_encodings [OF _ upd]) simp
  from arg_cong [OF this, of rev] show "encodings s' = encodings s" by (simp add: encodings_def s' rev_map)
  show "bs_tx_to_execute s' = bs_tx_to_execute s" by (simp add: s')
qed

text \<open>The state while the one transaction pushed since \<open>s0\<close> is executed.\<close>

definition executing :: "bootloader_state \<Rightarrow> u256 list \<Rightarrow> bootloader_state \<Rightarrow> bool" where
  "executing s0 enc s \<longleftrightarrow> extends s0 s \<and> bootloader_wf s0 \<and> bootloader_wf s \<and> bs_tx_to_execute s0 = total_txs s0 \<and>
     bs_tx_to_execute s = total_txs s0 + 1 \<and> encodings s = encodings s0 @ [enc]"

lemma executing_refund:
  assumes "executing s0 enc s" "set_refund_for_current_tx s r = Inr s'"
  shows "executing s0 enc s'"
proof -
  obtain h' where ask: "ask_operator_for_refund FastGateway (s, \<lambda>_. 0) r = Inr (s', h')"
    using assms(2) by (auto simp: ask_operator_for_refund_def set_refund_for_current_tx_def)
  show ?thesis
    using assms(1) ask_operator_wf [OF _ ask] ask_operator_extends [OF _ ask, of s0] set_refund_encodings [OF assms(2)]
    by (auto simp: executing_def)
qed

lemma executing_fictive:
  assumes "executing s0 enc s" "insert_fictive_l2_block keccak s = Inr (s', l)"
  shows "executing s0 enc s'"
proof -
  have wf: "bootloader_wf s" and ext: "extends s0 s" using assms(1) by (simp_all add: executing_def)
  obtain cs b where cs: "bs_l2_blocks s = cs @ [b]" "last_l2_block s = Inr b" using wf_last [OF wf] .
  show ?thesis
  proof (cases "bb_txs b = []")
    case False
    then obtain env where st: "Bootloader.start_new_l2_block keccak s env = Inr s'"
      using assms(2) cs(2) by (auto simp: insert_fictive_l2_block_def)
    from start_new_l2_block_cases [OF wf st] obtain cs l where
      "bs_l2_blocks s = cs @ [l]" "s' = s\<lparr>bs_l2_blocks := cs @ [l, block_new env (total_txs s)]\<rparr>" .
    then have "encodings s' = encodings s" "bs_tx_to_execute s' = bs_tx_to_execute s" by (simp_all add: encodings_def)
    then show ?thesis
      using assms(1) start_new_l2_block_wf(1) [OF wf st] start_new_l2_block_extends [OF ext wf st] by (simp add: executing_def)
  next
    case True
    let ?b = "b\<lparr>bb_interop_roots := []\<rparr>"
    have s': "s' = s\<lparr>bs_l2_blocks := cs @ [?b]\<rparr>"
      using assms(2) cs True by (auto simp: insert_fictive_l2_block_def map_last_block_def)
    obtain bs b0 h xs more where bs: "bs_l2_blocks s0 = bs @ [b0]" "bs_l2_blocks s = bs @ grown_block b0 h xs # more"
      using extends_executed [OF ext] assms(1) unfolding executing_def by metis
    have "more \<noteq> []"
    proof
      assume "more = []"
      then have "xs = []" "bb_txs b0 = []" "bs = cs" using bs(2) cs(1) True by (auto simp: grown_block_def)
      then have "encodings s = encodings s0" using bs cs(1) True by (simp add: encodings_def)
      then show False using assms(1) by (simp add: executing_def)
    qed
    then obtain ms where "cs = bs @ grown_block b0 h xs # ms" using cs(1) bs(2) by (cases more rule: rev_cases) auto
    then have "blocks_extend (bs_tx_to_execute s0) (bs_l2_blocks s0) (bs_l2_blocks s')"
      using blocks_extendI [of _ bs b0 h xs "ms @ [?b]"] bs(1) by (simp add: s')
    then have "extends s0 s'" using ext by (simp add: extends_def s')
    moreover have "encodings s' = encodings s" "bs_tx_to_execute s' = bs_tx_to_execute s" "total_txs s' = total_txs s"
      by (simp_all add: encodings_def s' cs(1) total_txs_def)
    moreover have "bootloader_wf s'" using wf cs(1) by (simp add: bootloader_wf_def s' total_txs_def)
    ultimately show ?thesis using assms(1) by (simp add: executing_def)
  qed
qed

text \<open>What a run of one transaction keeps of the VM.\<close>

definition runs_tx ::
  "bootloader_state \<Rightarrow> u256 list \<Rightarrow> bootloader_state_snapshot option \<Rightarrow> system_env \<Rightarrow> ('m, 'p) fast_vm \<Rightarrow> bool" where
  "runs_tx s0 enc snap senv vm \<longleftrightarrow> executing s0 enc (fv_bootloader_state vm) \<and> fv_snapshot vm = snap \<and> fv_system_env vm = senv"

interpretation one_tx: run_invariant V X OneTx "runs_tx s0 enc snap senv" for V X s0 enc snap senv
  by unfold_locales (auto simp: runs_tx_def dest: executing_refund executing_fictive)

section \<open>Executing a transaction\<close>

definition tx_encoding :: "'p fast_ext \<Rightarrow> system_env \<Rightarrow> transaction \<Rightarrow> u256 list res" where
  "tx_encoding X senv tx =
     and_then (transaction_data_new (ext_sha256 (fe_externals X)) (fe_extract_chain_id X) tx
         (bsc_evm_emulator (base_system_smart_contracts senv) \<noteq> None)) (into_tokens (ext_abi (fe_externals X)))"

text \<open>Every pushed transaction is executed.\<close>

definition settled :: "('m, 'p) fast_vm \<Rightarrow> bool" where
  "settled vm \<longleftrightarrow> bootloader_wf (fv_bootloader_state vm) \<and>
     bs_tx_to_execute (fv_bootloader_state vm) = total_txs (fv_bootloader_state vm)"

lemma runs_tx_settled:
  "runs_tx s0 enc snap senv vm \<Longrightarrow> settled vm"
  by (simp add: runs_tx_def executing_def settled_def total_txs_encodings)

lemma compressed_for_tx_keeps:
  "compressed_for_tx V X vm td wc = Inr (infos, vm') \<Longrightarrow> \<exists>s. vm' = vm\<lparr>fv_world := (fv_world vm)\<lparr>w_storage := s\<rparr>\<rparr>"
  by (auto simp: compressed_for_tx_def split: if_splits intro: exI [of _ "w_storage (fv_world vm)"])

lemma push_transaction_inner_cases:
  assumes "push_transaction_inner V X vm tx refund wc = Inr vm'"
  obtains td compressed d ec where "transaction_data_new (ext_sha256 (fe_externals X)) (fe_extract_chain_id X) tx
      (bsc_evm_emulator (base_system_smart_contracts (fv_system_env vm)) \<noteq> None) = Inr td"
    "push_tx (fe_externals X) (fv_bootloader_state vm) td (overhead_gas td) refund compressed (trusted_ergs_limit td)
      (system_chain_id (fv_system_env vm)) = Inr (fv_bootloader_state vm', d, ec)"
    "fv_snapshot vm' = fv_snapshot vm" "fv_system_env vm' = fv_system_env vm"
    "fv_skip_signature_verification vm' = fv_skip_signature_verification vm"
  using assms
  by (auto simp: push_transaction_inner_def Let_def arm_ecrecover_def vm_write_to_bootloader_heap_def split: if_splits
      dest!: compressed_for_tx_keeps)

lemma push_transaction_inner_facts:
  assumes "settled vm" "push_transaction_inner V X vm tx refund wc = Inr vm'"
  obtains enc where "tx_encoding X (fv_system_env vm) tx = Inr enc"
    "\<And>s i. move_tx_to_execute_pointer (fv_bootloader_state vm') = Inr (s, i) \<Longrightarrow>
       runs_tx (fv_bootloader_state vm) enc (fv_snapshot vm) (fv_system_env vm) (vm'\<lparr>fv_bootloader_state := s\<rparr>)"
proof -
  obtain td compressed d ec where td: "transaction_data_new (ext_sha256 (fe_externals X)) (fe_extract_chain_id X) tx
      (bsc_evm_emulator (base_system_smart_contracts (fv_system_env vm)) \<noteq> None) = Inr td"
    and push: "push_tx (fe_externals X) (fv_bootloader_state vm) td (overhead_gas td) refund compressed (trusted_ergs_limit td)
      (system_chain_id (fv_system_env vm)) = Inr (fv_bootloader_state vm', d, ec)"
    and keep: "fv_snapshot vm' = fv_snapshot vm" "fv_system_env vm' = fv_system_env vm"
    using push_transaction_inner_cases [OF assms(2)] .
  have wf: "bootloader_wf (fv_bootloader_state vm)" "bs_tx_to_execute (fv_bootloader_state vm) = total_txs (fv_bootloader_state vm)"
    using assms(1) by (simp_all add: settled_def)
  note pushed = push_tx_wf [OF wf(1) push] push_tx_extends [OF extends_refl [OF wf(1)] wf(1) push]
  obtain enc where enc: "into_tokens (ext_abi (fe_externals X)) td = Inr enc"
    "encodings (fv_bootloader_state vm') = encodings (fv_bootloader_state vm) @ [enc]" using push_tx_encodings [OF push] by blast
  have same: "bs_tx_to_execute (fv_bootloader_state vm') = bs_tx_to_execute (fv_bootloader_state vm)"
    by (rule push_tx_pointer [OF push])
  show thesis
  proof (rule that)
    show "tx_encoding X (fv_system_env vm) tx = Inr enc" unfolding tx_encoding_def td by (simp add: enc(1))
    fix s i assume mv: "move_tx_to_execute_pointer (fv_bootloader_state vm') = Inr (s, i)"
    note moved = move_tx_wf(1,4,5) [OF pushed(1) mv]
    have "encodings s = encodings (fv_bootloader_state vm')" by (simp add: moved(2) encodings_def)
    moreover have "extends (fv_bootloader_state vm) s" using pushed(4) same by (auto simp: extends_def moved(2,3))
    ultimately show "runs_tx (fv_bootloader_state vm) enc (fv_snapshot vm) (fv_system_env vm) (vm'\<lparr>fv_bootloader_state := s\<rparr>)"
      using moved same wf enc(2) keep by (simp add: runs_tx_def executing_def)
  qed
qed

lemma any_unpublished_keeps:
  "any_unpublished X vm infos = Inr (b, vm') \<Longrightarrow> runs_tx s0 enc snap senv vm \<Longrightarrow> runs_tx s0 enc snap senv vm'"
proof (induction infos arbitrary: vm)
  case (Cons i infos)
  obtain b1 vm1 where vm1: "unpublished X vm i = Inr (b1, vm1)" "(if b1 then Inr (True, vm1) else any_unpublished X vm1 infos) = Inr (b, vm')"
    using Cons.prems(1) by auto
  have "runs_tx s0 enc snap senv vm1" using vm1(1) Cons.prems(2) by (auto simp: unpublished_def runs_tx_def)
  then show ?case using vm1(2) Cons.IH by (cases b1) auto
qed simp

lemma inspect_transaction_runs:
  assumes "settled vm" "inspect_transaction_with_bytecode_compression V X vm tx wc = Some (Inr (res, vm'))"
  shows "\<exists>enc. tx_encoding X (fv_system_env vm) tx = Inr enc \<and>
    runs_tx (fv_bootloader_state vm) enc (fv_snapshot vm) (fv_system_env vm) vm'"
proof -
  obtain vm1 r vm2 t b where push: "push_transaction_inner V X vm tx 0 wc = Inr vm1"
    and inspect: "inspect_inner V X vm1 tracer_default OneTx None = Some (Inr (r, vm2, t))"
    and unpub: "has_unpublished_bytecodes X vm2 = Inr (b, vm')"
    using assms(2) by (auto simp: inspect_transaction_with_bytecode_compression_def split: sum.splits)
  obtain enc where enc: "tx_encoding X (fv_system_env vm) tx = Inr enc"
    and start: "\<And>s i. move_tx_to_execute_pointer (fv_bootloader_state vm1) = Inr (s, i) \<Longrightarrow>
       runs_tx (fv_bootloader_state vm) enc (fv_snapshot vm) (fv_system_env vm) (vm1\<lparr>fv_bootloader_state := s\<rparr>)"
    using push_transaction_inner_facts [OF assms(1) push] by blast
  have "runs_tx (fv_bootloader_state vm) enc (fv_snapshot vm) (fv_system_env vm) vm2"
    by (rule one_tx.inspect [OF start _ inspect]) simp_all
  then show ?thesis using unpub any_unpublished_keeps enc by (fastforce simp: has_unpublished_bytecodes_def)
qed

section \<open>The verifier's driver on the fast VM\<close>

text \<open>Between transactions: nothing pending, no snapshot; the bootloader holds the given encodings.\<close>

definition between_txs :: "system_env \<Rightarrow> u256 list list \<Rightarrow> ('m, 'p) fast_vm \<Rightarrow> bool" where
  "between_txs senv encs vm \<longleftrightarrow> settled vm \<and> fv_snapshot vm = None \<and> fv_system_env vm = senv \<and>
     encodings (fv_bootloader_state vm) = encs"

lemma fast_execute:
  assumes "execute_transaction_with_bytecode_compression (fast_vm_ops V X) tx wc r = Inr ((flag, res), r')"
  obtains vm vm' er where "r = Inr vm" "r' = Inr vm'"
    "inspect_transaction_with_bytecode_compression V X vm tx wc = Some (Inr ((flag, er), vm'))"
proof -
  obtain vm where vm: "r = Inr vm" using assms by (cases r) (auto simp: fast_vm_ops_def)
  then obtain er vm' where "ended (inspect_transaction_with_bytecode_compression V X vm tx wc) = Inr ((flag, er), vm')" "r' = Inr vm'"
    using assms by (auto simp: fast_vm_ops_def)
  then show thesis using that vm by (auto simp: ended_def split: option.splits)
qed

lemma execute_uncompressed:
  assumes "settled vm" "fv_snapshot vm = None" "runs_tx (fv_bootloader_state vm) enc None senv vm'"
  shows "between_txs senv (encodings (fv_bootloader_state vm) @ [enc]) vm'"
  using assms runs_tx_settled by (auto simp: between_txs_def runs_tx_def executing_def)

lemma execute_tx_once:
  assumes "between_txs senv encs vm" "execute_tx (fast_vm_ops V X) tx (Inr vm) = Inr r"
  shows "\<exists>vm' enc. r = Inr vm' \<and> tx_encoding X senv tx = Inr enc \<and> between_txs senv (encs @ [enc]) vm'"
proof -
  let ?O = "fast_vm_ops V X" and ?s = "fv_bootloader_state vm"
  have vm: "settled vm" "fv_snapshot vm = None" "fv_system_env vm = senv" "encodings ?s = encs"
    using assms(1) by (simp_all add: between_txs_def)
  obtain flag res r1 where first: "execute_transaction_with_bytecode_compression ?O tx True (make_snapshot ?O (Inr vm)) = Inr ((flag, res), r1)"
    using assms(2) by (auto simp: execute_tx_def)
  obtain vm0 vm1 er where made: "make_snapshot ?O (Inr vm) = Inr vm0" and r1: "r1 = Inr vm1"
    and run1: "inspect_transaction_with_bytecode_compression V X vm0 tx True = Some (Inr ((flag, er), vm1))"
    by (rule fast_execute [OF first])
  have vm0: "vm_make_snapshot V vm = Inr vm0" using made by (simp add: fast_vm_ops_def)
  obtain snap where snap: "get_snapshot ?s = Inr snap" "fv_bootloader_state vm0 = ?s" "fv_snapshot vm0 = Some snap" "fv_system_env vm0 = senv"
    using vm0 vm(3) by (auto simp: vm_make_snapshot_def)
  have "settled vm0" using vm(1) snap(2) by (simp add: settled_def)
  then obtain enc where enc: "tx_encoding X senv tx = Inr enc" and runs: "runs_tx ?s enc (Some snap) senv vm1"
    using inspect_transaction_runs [OF _ run1] snap by auto
  show ?thesis
  proof (cases flag)
    case True
    then have r: "r = Inr (vm_pop_snapshot_no_rollback V vm1)"
      using assms(2) first r1 by (auto simp: execute_tx_def fast_vm_ops_def)
    have "between_txs senv (encs @ [enc]) (vm_pop_snapshot_no_rollback V vm1)"
      using runs runs_tx_settled [OF runs] vm(4)
      by (auto simp: between_txs_def vm_pop_snapshot_no_rollback_def runs_tx_def executing_def settled_def)
    then show ?thesis using r enc by blast
  next
    case False
    let ?vm = "vm1\<lparr>fv_snapshot := None, fv_inner := vm2_rollback V (fv_inner vm1), fv_bootloader_state := ?s\<rparr>"
    have "apply_snapshot (fv_bootloader_state vm1) snap = Inr ?s"
      using runs apply_snapshot_executed [OF _ snap(1)] by (simp add: runs_tx_def executing_def)
    then have undone: "rollback_to_the_latest_snapshot ?O r1 = Inr ?vm"
      using runs r1 by (simp add: fast_vm_ops_def vm_rollback_to_the_latest_snapshot_def runs_tx_def)
    obtain again res' where second: "execute_transaction_with_bytecode_compression ?O tx False (Inr ?vm) = Inr ((again, res'), r)"
      using assms(2) first False undone by (auto simp: execute_tx_def)
    obtain vm2 er' where vm2: "r = Inr vm2"
      "inspect_transaction_with_bytecode_compression V X ?vm tx False = Some (Inr ((again, er'), vm2))"
      using fast_execute [OF second] by (metis sum.inject(2))
    have "settled ?vm" using vm(1) by (simp add: settled_def)
    from inspect_transaction_runs [OF this vm2(2)] runs enc
    have "runs_tx (fv_bootloader_state ?vm) enc None senv vm2" by (auto simp: runs_tx_def)
    from execute_uncompressed [OF \<open>settled ?vm\<close> _ this] show ?thesis using vm2(1) enc vm(4) by auto
  qed
qed

lemma execute_txs_once:
  "between_txs senv encs vm \<Longrightarrow> execute_txs (fast_vm_ops V X) txs (Inr vm) = Inr r \<Longrightarrow>
   \<exists>vm' encs'. r = Inr vm' \<and> collect_res (map (tx_encoding X senv) txs) = Inr encs' \<and> between_txs senv (encs @ encs') vm'"
proof (induction txs arbitrary: vm encs)
  case (Cons tx txs)
  obtain r1 where r1: "execute_tx (fast_vm_ops V X) tx (Inr vm) = Inr r1" "execute_txs (fast_vm_ops V X) txs r1 = Inr r"
    using Cons.prems(2) by auto
  obtain vm1 enc where vm1: "r1 = Inr vm1" "tx_encoding X senv tx = Inr enc" "between_txs senv (encs @ [enc]) vm1"
    using execute_tx_once [OF Cons.prems(1) r1(1)] by blast
  from Cons.IH [OF vm1(3)] r1(2) vm1(1,2) show ?case by auto
qed auto

lemma start_block_between:
  assumes "between_txs senv encs vm" "vm_ops.start_new_l2_block (fast_vm_ops V X) env (Inr vm) = Inr r"
  shows "\<exists>vm'. r = Inr vm' \<and> between_txs senv encs vm'"
proof -
  obtain s where st: "Bootloader.start_new_l2_block (ext_keccak (fe_externals X)) (fv_bootloader_state vm) env = Inr s"
    and r: "r = Inr (vm\<lparr>fv_bootloader_state := s\<rparr>)"
    using assms(2) by (auto simp: fast_vm_ops_def vm_start_new_l2_block_def)
  have wf: "bootloader_wf (fv_bootloader_state vm)" using assms(1) by (simp add: between_txs_def settled_def)
  from start_new_l2_block_cases [OF wf st] obtain cs l where cs: "bs_l2_blocks (fv_bootloader_state vm) = cs @ [l]"
    "s = (fv_bootloader_state vm)\<lparr>bs_l2_blocks := cs @ [l, block_new env (total_txs (fv_bootloader_state vm))]\<rparr>" .
  then have "encodings s = encodings (fv_bootloader_state vm)" by (simp add: encodings_def)
  then show ?thesis
    using assms(1) start_new_l2_block_wf(1) [OF wf st] r cs(2) by (simp add: between_txs_def settled_def total_txs_encodings)
qed

lemma execute_blocks_once:
  "between_txs senv encs vm \<Longrightarrow> execute_blocks (fast_vm_ops V X) pairs (Inr vm) = Inr r \<Longrightarrow>
   \<exists>vm' encs'. r = Inr vm' \<and> collect_res (map (tx_encoding X senv) (concat (map (ed_txs \<circ> fst) pairs))) = Inr encs' \<and>
     between_txs senv (encs @ encs') vm'"
proof (induction pairs arbitrary: vm encs)
  case (Cons p pairs)
  obtain block next_block where p: "p = (block, next_block)" by force
  obtain r1 r2 where r1: "execute_txs (fast_vm_ops V X) (ed_txs block) (Inr vm) = Inr r1"
    "vm_ops.start_new_l2_block (fast_vm_ops V X) (from_l2_block_data next_block) r1 = Inr r2"
    "execute_blocks (fast_vm_ops V X) pairs r2 = Inr r" using Cons.prems(2) by (auto simp: p)
  obtain vm1 encs1 where vm1: "r1 = Inr vm1" "collect_res (map (tx_encoding X senv) (ed_txs block)) = Inr encs1"
    "between_txs senv (encs @ encs1) vm1" using execute_txs_once [OF Cons.prems(1) r1(1)] by blast
  obtain vm2 where vm2: "r2 = Inr vm2" "between_txs senv (encs @ encs1) vm2"
    using start_block_between [OF vm1(3)] r1(2) vm1(1) by blast
  obtain vm' encs' where "r = Inr vm'" "collect_res (map (tx_encoding X senv) (concat (map (ed_txs \<circ> fst) pairs))) = Inr encs'"
    "between_txs senv ((encs @ encs1) @ encs') vm'" using Cons.IH [OF vm2(2)] r1(3) vm2(1) by blast
  then show ?case using vm1(2) by (intro exI [of _ vm'] exI [of _ "encs1 @ encs'"]) (simp add: p collect_res_eq_Inr comp_def)
qed auto

lemma custom_between:
  assumes "fast_vm_custom V X env senv storage = Inr vm"
  shows "between_txs senv [] vm" "\<not> fv_skip_signature_verification vm" "w_expected_ecrecover_call (fv_world vm) = None"
proof -
  have "between_txs senv [] vm \<and> \<not> fv_skip_signature_verification vm \<and> w_expected_ecrecover_call (fv_world vm) = None"
    using assms
    by (auto simp: fast_vm_custom_def Let_def vm_write_to_bootloader_heap_def bootloader_state_new_def between_txs_def settled_def
        bootloader_wf_def total_txs_def encodings_def world_new_def case_prod_beta)
  then show "between_txs senv [] vm" "\<not> fv_skip_signature_verification vm" "w_expected_ecrecover_call (fv_world vm) = None" by blast+
qed

text \<open>
  C8. Every transaction of a batch reaches the bootloader exactly once and in order. When the verifier's driver has executed
  the blocks on a fresh fast VM, the encodings the bootloader holds are those of the transactions of the blocks, all of them
  are executed, and no snapshot is left; a transaction that was executed twice because its bytecodes could not be published
  compressed is there once.
\<close>

theorem driver_pushes_each_tx_once:
  assumes "fast_vm_custom V X env senv storage = Inr vm"
    and "execute_blocks (fast_vm_ops V X) (zip blocks (drop 1 blocks)) (Inr vm) = Inr r"
  shows "\<exists>vm' encs. r = Inr vm' \<and> collect_res (map (tx_encoding X senv) (concat (map ed_txs (butlast blocks)))) = Inr encs \<and>
    concat (map (map bt_encoded \<circ> bb_txs) (bs_l2_blocks (fv_bootloader_state vm'))) = encs \<and>
    bs_tx_to_execute (fv_bootloader_state vm') = length encs \<and> fv_snapshot vm' = None"
proof -
  have "map fst (zip blocks (drop 1 blocks)) = butlast blocks"
    by (simp add: map_fst_zip_take butlast_conv_take)
  then have txs: "map (ed_txs \<circ> fst) (zip blocks (drop 1 blocks)) = map ed_txs (butlast blocks)" by (metis map_map)
  show ?thesis
    using execute_blocks_once [OF custom_between(1) [OF assms(1)] assms(2)] unfolding txs
    by (auto simp: between_txs_def settled_def total_txs_encodings encodings_def)
qed

end
