(* ===== verification/Fast_Vm_Reach.thy ===== *)
theory Fast_Vm_Reach
  imports Fast_Vm_Correct
begin

text \<open>
  The fast VM as a state machine. A state is reachable when it is the fresh VM or follows from a reachable one by one
  operation of the wrapper or by one round of its loop, so that every world the interpreter is given in the verifier is the
  world of a reachable state. In all of them the ecrecover shortcut is off, because the verifier never asks for it. The last
  section is about the gas that account validation is given.
\<close>

section \<open>Reachable states\<close>

fun flow_state :: "('m, 'p) flow \<Rightarrow> ('m, 'p) run_state" where
  "flow_state (Continue rs) = rs"
| "flow_state (Break _ _ rs) = rs"

inductive vm_reachable :: "('m, 'p, 'd) vm2 \<Rightarrow> 'p fast_ext \<Rightarrow> ('m, 'p) fast_vm \<Rightarrow> bool" for V X where
  created: "fast_vm_custom V X env senv storage = Inr vm \<Longrightarrow> vm_reachable V X vm"
| pushed: "vm_reachable V X vm \<Longrightarrow> push_transaction_inner V X vm tx refund wc = Inr vm' \<Longrightarrow> vm_reachable V X vm'"
| pointed: "vm_reachable V X vm \<Longrightarrow> move_tx_to_execute_pointer (fv_bootloader_state vm) = Inr (s, i) \<Longrightarrow>
    vm_reachable V X (vm\<lparr>fv_bootloader_state := s\<rparr>)"
| round: "vm_reachable V X (rs_vm rs) \<Longrightarrow> run_round V X mode track builder rs = Inr f \<Longrightarrow> vm_reachable V X (rs_vm (flow_state f))"
| published: "vm_reachable V X vm \<Longrightarrow> unpublished X vm info = Inr (b, vm') \<Longrightarrow> vm_reachable V X vm'"
| block: "vm_reachable V X vm \<Longrightarrow> vm_start_new_l2_block X vm l2 = Inr vm' \<Longrightarrow> vm_reachable V X vm'"
| snapshot: "vm_reachable V X vm \<Longrightarrow> vm_make_snapshot V vm = Inr vm' \<Longrightarrow> vm_reachable V X vm'"
| rollback: "vm_reachable V X vm \<Longrightarrow> vm_rollback_to_the_latest_snapshot V vm = Inr vm' \<Longrightarrow> vm_reachable V X vm'"
| popped: "vm_reachable V X vm \<Longrightarrow> vm_reachable V X (vm_pop_snapshot_no_rollback V vm)"

lemma inspect_reachable:
  assumes "vm_reachable V X vm" "inspect_inner V X vm t mode builder = Some (Inr (r, vm', t'))"
  shows "vm_reachable V X vm'"
proof -
  obtain vm0 res where vm0: "vm_reachable V X vm0" "fast_run V X mode (mode = OneTx) builder vm0 t = Some (Inr (res, vm', t'))"
    using assms by (auto simp: inspect_inner_def Let_def intro: pointed split: if_splits sum.splits)
  then obtain e x rs where loop: "run_loop V X mode (mode = OneTx) builder (run_start V vm0 t) = Some (Inr (x, e, rs))" "vm' = rs_vm rs"
    by (auto simp: fast_run_def)
  have "round_keeps V X mode (mode = OneTx) builder (\<lambda>rs. vm_reachable V X (rs_vm rs))"
    by (auto simp: round_keeps_def dest: round split: flow.split)
  from run_loop_keeps [OF loop(1) this] vm0(1) show ?thesis by (simp add: run_start_def loop(2))
qed

lemma any_unpublished_reachable:
  "vm_reachable V X vm \<Longrightarrow> any_unpublished X vm infos = Inr (b, vm') \<Longrightarrow> vm_reachable V X vm'"
proof (induction infos arbitrary: vm)
  case (Cons i infos)
  then obtain b1 vm1 where vm1: "unpublished X vm i = Inr (b1, vm1)"
    "(if b1 then Inr (True, vm1) else any_unpublished X vm1 infos) = Inr (b, vm')" by auto
  then show ?case using Cons.IH published [OF Cons.prems(1) vm1(1)] by (cases b1) auto
qed simp

text \<open>The verifier's VM is an abort or a reachable state; the operations keep it so.\<close>

definition reachable_res :: "('m, 'p, 'd) vm2 \<Rightarrow> 'p fast_ext \<Rightarrow> ('m, 'p) fast_vm res \<Rightarrow> bool" where
  "reachable_res V X r \<longleftrightarrow> (\<forall>vm. r = Inr vm \<longrightarrow> vm_reachable V X vm)"

lemma execute_op_reachable:
  assumes "reachable_res V X r" "execute_transaction_with_bytecode_compression (fast_vm_ops V X) tx wc r = Inr ((flag, res), r')"
  shows "reachable_res V X r'"
proof -
  obtain vm vm' er where vm: "r = Inr vm" "r' = Inr vm'"
    and "inspect_transaction_with_bytecode_compression V X vm tx wc = Some (Inr ((flag, er), vm'))" by (rule fast_execute [OF assms(2)])
  then obtain vm1 vm2 t b where steps: "push_transaction_inner V X vm tx 0 wc = Inr vm1"
    "inspect_inner V X vm1 tracer_default OneTx None = Some (Inr (er, vm2, t))" "has_unpublished_bytecodes X vm2 = Inr (b, vm')"
    by (auto simp: inspect_transaction_with_bytecode_compression_def split: sum.splits)
  have "vm_reachable V X vm" using assms(1) vm(1) by (simp add: reachable_res_def)
  from inspect_reachable [OF pushed [OF this steps(1)] steps(2)] steps(3) have "vm_reachable V X vm'"
    by (auto simp: has_unpublished_bytecodes_def intro: any_unpublished_reachable)
  then show ?thesis by (simp add: reachable_res_def vm(2))
qed

lemma snapshot_ops_reachable:
  assumes "reachable_res V X r"
  shows "reachable_res V X (make_snapshot (fast_vm_ops V X) r)"
    and "reachable_res V X (rollback_to_the_latest_snapshot (fast_vm_ops V X) r)"
    and "reachable_res V X (pop_snapshot_no_rollback (fast_vm_ops V X) r)"
  using assms by (auto simp: reachable_res_def fast_vm_ops_def intro: snapshot rollback popped)

lemma start_block_op_reachable:
  "reachable_res V X r \<Longrightarrow> vm_ops.start_new_l2_block (fast_vm_ops V X) env r = Inr r' \<Longrightarrow> reachable_res V X r'"
  by (auto simp: reachable_res_def fast_vm_ops_def intro: block)

lemma execute_tx_reachable:
  assumes "reachable_res V X r" "execute_tx (fast_vm_ops V X) tx r = Inr r'"
  shows "reachable_res V X r'"
proof -
  let ?ops = "fast_vm_ops V X"
  obtain flag res r1 where first: "execute_transaction_with_bytecode_compression ?ops tx True (make_snapshot ?ops r) = Inr ((flag, res), r1)"
    and r': "flag \<Longrightarrow> r' = pop_snapshot_no_rollback ?ops r1"
      "\<not> flag \<Longrightarrow> \<exists>again res'. execute_transaction_with_bytecode_compression ?ops tx False (rollback_to_the_latest_snapshot ?ops r1)
         = Inr ((again, res'), r')"
    using assms(2) by (fastforce simp: execute_tx_def split: if_splits)
  have r1: "reachable_res V X r1" by (rule execute_op_reachable [OF snapshot_ops_reachable(1) [OF assms(1)] first])
  show ?thesis
  proof (cases flag)
    case True
    then show ?thesis using r'(1) snapshot_ops_reachable(3) [OF r1] by simp
  next
    case False
    then show ?thesis using r'(2) execute_op_reachable [OF snapshot_ops_reachable(2) [OF r1]] by blast
  qed
qed

lemma execute_txs_reachable:
  "reachable_res V X r \<Longrightarrow> execute_txs (fast_vm_ops V X) txs r = Inr r' \<Longrightarrow> reachable_res V X r'"
  by (induction txs arbitrary: r) (auto dest: execute_tx_reachable)

lemma execute_blocks_reachable:
  "reachable_res V X r \<Longrightarrow> execute_blocks (fast_vm_ops V X) pairs r = Inr r' \<Longrightarrow> reachable_res V X r'"
  by (induction pairs arbitrary: r) (fastforce dest: execute_txs_reachable start_block_op_reachable)+

section \<open>Signatures are checked\<close>

text \<open>
  What is used of the interpreter: it has the world only through the operations of the world, and none of them changes the
  expected ecrecover call.
\<close>

definition keeps_expected_call :: "('m, 'p, 'd) vm2 \<Rightarrow> bool" where
  "keeps_expected_call V \<longleftrightarrow> (\<forall>m w t e m' w' t'. vm2_run V m w t = Inr (e, m', w', t') \<longrightarrow>
     w_expected_ecrecover_call w' = w_expected_ecrecover_call w)"

definition checks_signatures :: "('m, 'p, 'd) vm2 \<Rightarrow> ('m, 'p) fast_vm \<Rightarrow> bool" where
  "checks_signatures V vm \<longleftrightarrow> (keeps_expected_call V \<longrightarrow>
     \<not> fv_skip_signature_verification vm \<and> w_expected_ecrecover_call (fv_world vm) = None)"

interpretation signatures: run_invariant V X mode "checks_signatures V" for V X mode
proof unfold_locales
  fix vm :: "('a, 'b) fast_vm" and m t e m' w' t'
  assume "checks_signatures V vm" "vm2_run V m (fv_world vm) t = Inr (e, m', w', t')"
  then show "checks_signatures V (vm\<lparr>fv_inner := m', fv_world := w'\<rparr>)"
    by (fastforce simp: checks_signatures_def keeps_expected_call_def)
qed (simp_all add: checks_signatures_def)

lemma reachable_checks_signatures: "vm_reachable V X vm \<Longrightarrow> checks_signatures V vm"
proof (induction rule: vm_reachable.induct)
  case (created env senv storage vm)
  then show ?case using custom_between(2,3) [OF created] by (simp add: checks_signatures_def)
next
  case (pushed vm tx refund wc vm')
  then show ?case
    by (auto simp: checks_signatures_def push_transaction_inner_def Let_def arm_ecrecover_def vm_write_to_bootloader_heap_def
        dest!: compressed_for_tx_keeps)
next
  case (round rs mode track builder f)
  from signatures.run_step [OF round.IH round.hyps(2)] show ?case by (cases f) simp_all
qed (auto simp: checks_signatures_def unpublished_def vm_start_new_l2_block_def vm_make_snapshot_def
    vm_rollback_to_the_latest_snapshot_def vm_pop_snapshot_no_rollback_def)

text \<open>
  C9. The verifier checks every signature. In every state that the fast VM passes through while the verifier executes a batch
  (those between two rounds of the interpreter included) a precompile call is the real precompile: the shortcut that answers
  an expected ecrecover call from the transaction's own sender is never armed. All states the driver leaves are such states.
\<close>

theorem precompiles_are_real:
  assumes "keeps_expected_call V" "vm_reachable V X vm"
  shows "call_precompile Q (fv_world vm) address_low memory aux = legacy_call_precompile Q address_low memory aux \<and>
    (execute_blocks (fast_vm_ops V X) pairs (Inr vm) = Inr (Inr vm') \<longrightarrow> vm_reachable V X vm')"
  using reachable_checks_signatures [OF assms(2)] assms execute_blocks_reachable [of V X "Inr vm" pairs "Inr vm'"]
  by (auto simp: checks_signatures_def call_precompile_def reachable_res_def)

section \<open>Gas of account validation\<close>

definition lawful_gas :: "('m, 'p, 'd) vm2 \<Rightarrow> bool" where
  "lawful_gas V \<longleftrightarrow> (\<forall>m g. vm2_gas V (vm2_set_gas V m g) = g)"

lemma exit_validation_split:
  assumes "rs_account_validation_gas_split rs = Some (given, hidden)"
  shows "rs_account_validation_gas_split (flow_state (exit_validation V rs)) = None"
    and "rs_gas_left_for_account_validation (flow_state (exit_validation V rs)) =
      rs_gas_left_for_account_validation rs - (given - vm2_gas V (fv_inner (rs_vm rs)))"
    and "fv_inner (rs_vm (flow_state (exit_validation V rs))) =
      vm2_set_gas V (fv_inner (rs_vm rs)) (vm2_gas V (fv_inner (rs_vm rs)) + hidden)"
  using assms by (auto simp: exit_validation_def Let_def case_prod_beta split: option.split)

text \<open>
  C32. The gas of account validation is neither created nor lost. Between the entry and the exit hooks the interpreter runs on
  the gas allowed for validation only and spends some of it. After the exit it has the gas it had at the entry less what was
  spent, what is left for the validation steps to come is less by the same amount, and that amount is within the allowance; no
  subtraction or addition on the way wraps around.
\<close>

theorem validation_gas_conserved:
  assumes "lawful_gas V" and enter: "enter_account_validation V rs = Inr rs1"
    and left: "vm2_gas V m \<le> vm2_gas V (fv_inner (rs_vm rs1))"
  shows "\<exists>rs2 spent. flow_state (exit_validation V (rs1\<lparr>rs_vm := (rs_vm rs1)\<lparr>fv_inner := m\<rparr>\<rparr>)) = rs2 \<and>
    spent = unat (vm2_gas V (fv_inner (rs_vm rs1))) - unat (vm2_gas V m) \<and>
    spent \<le> unat (rs_gas_left_for_account_validation rs) \<and>
    unat (rs_gas_left_for_account_validation rs2) = unat (rs_gas_left_for_account_validation rs) - spent \<and>
    unat (vm2_gas V (fv_inner (rs_vm rs2))) = unat (vm2_gas V (fv_inner (rs_vm rs))) - spent \<and>
    rs_account_validation_gas_split rs2 = None"
proof -
  define gas allowance where "gas = vm2_gas V (fv_inner (rs_vm rs))" and "allowance = rs_gas_left_for_account_validation rs"
  define given where "given = min gas allowance"
  let ?rs = "rs1\<lparr>rs_vm := (rs_vm rs1)\<lparr>fv_inner := m\<rparr>\<rparr>"
  have rs1: "rs_account_validation_gas_split ?rs = Some (given, gas - given)" "vm2_gas V (fv_inner (rs_vm rs1)) = given"
    "rs_gas_left_for_account_validation ?rs = allowance" "fv_inner (rs_vm ?rs) = m"
    using enter assms(1)
    by (auto simp: enter_account_validation_def Let_def lawful_gas_def gas_def allowance_def given_def)
  have le: "given \<le> gas" "given \<le> allowance" "vm2_gas V m \<le> given" using left rs1(2) by (simp_all add: given_def)
  note sub = unat_sub [OF le(1)] unat_sub [OF le(3)] le [unfolded word_le_nat_alt]
  have spent: "given - vm2_gas V m \<le> allowance" using sub by (simp add: word_le_nat_alt)
  have "unat gas < 2 ^ LENGTH(32)" by (rule unsigned_less)
  with sub have "unat (vm2_gas V m) + unat (gas - given) < 2 ^ LENGTH(32)" by simp
  then have "unat (vm2_gas V m + (gas - given)) = unat (vm2_gas V m) + unat (gas - given)"
    by (rule unat_add_lem [THEN iffD1])
  moreover have "unat (allowance - (given - vm2_gas V m)) = unat allowance - (unat given - unat (vm2_gas V m))"
    using unat_sub [OF spent] sub(2) by simp
  ultimately show ?thesis
    using exit_validation_split [OF rs1(1), of V] assms(1) rs1 sub
    by (auto simp: lawful_gas_def gas_def [symmetric] allowance_def [symmetric])
qed

end
