(* ===== verification/Fast_Vm_Published.thy ===== *)
theory Fast_Vm_Published
  imports Fast_Vm_Reach
begin

text \<open>
  The check after a transaction that all its compressed bytecodes were published
  (\<open>has_unpublished_bytecodes\<close>, \<open>src/crates/multivm/src/versions/vm_fast/bytecode.rs\<close>). It counts a bytecode as known when
  the world has it cached, and pushing the transaction caches every factory dependency, so the check never fails.
\<close>

section \<open>The compressed bytecodes of a state\<close>

definition compressed_infos :: "bootloader_state \<Rightarrow> compressed_bytecode_info set" where
  "compressed_infos s = (\<Union>b \<in> set (bs_l2_blocks s). \<Union>tx \<in> set (bb_txs b). set (bt_compressed_bytecodes tx))"

lemma compressed_infos_last:
  "get_last_tx_compressed_bytecodes s = Inr infos \<Longrightarrow> set infos \<subseteq> compressed_infos s"
  by (fastforce simp: get_last_tx_compressed_bytecodes_def last_l2_block_def compressed_infos_def split: if_splits dest: last_in_set)

lemma update_tx_in_infos:
  assumes "\<And>tx. bt_compressed_bytecodes (f tx) = bt_compressed_bytecodes tx" "update_tx_in f i r = Inr r'" "b' \<in> set r'" "tx' \<in> set (bb_txs b')"
  shows "\<exists>b \<in> set r. \<exists>tx \<in> set (bb_txs b). bt_compressed_bytecodes tx' = bt_compressed_bytecodes tx"
  using assms(2,3)
proof (induction r arbitrary: r')
  case (Cons b r)
  show ?case
  proof (cases "bb_first_tx_index b \<le> i")
    case True
    let ?p = "i - bb_first_tx_index b"
    have p: "?p < length (bb_txs b)" "r' = b\<lparr>bb_txs := (bb_txs b)[?p := f (bb_txs b ! ?p)]\<rparr> # r"
      using Cons.prems True by (auto simp: Let_def)
    show ?thesis
    proof (cases "b' \<in> set r")
      case False
      then have "tx' \<in> set ((bb_txs b)[?p := f (bb_txs b ! ?p)])" using Cons.prems(2) assms(4) p(2) by simp
      then have "tx' \<in> set (bb_txs b) \<or> tx' = f (bb_txs b ! ?p)" using set_update_subset_insert by fastforce
      then show ?thesis using nth_mem [OF p(1)] assms(1) by auto
    qed (use assms(4) in auto)
  next
    case False
    then show ?thesis using Cons assms(4) by auto
  qed
qed simp

lemma refund_infos:
  assumes "set_refund_for_current_tx s r = Inr s'"
  shows "compressed_infos s' \<subseteq> compressed_infos s"
proof -
  obtain i bs where upd: "update_tx_in (\<lambda>tx. tx\<lparr>bt_refund := r\<rparr>) i (rev (bs_l2_blocks s)) = Inr bs" and s': "s' = s\<lparr>bs_l2_blocks := rev bs\<rparr>"
    using assms by (auto simp: set_refund_for_current_tx_def find_tx_mut_def)
  show ?thesis using update_tx_in_infos [OF _ upd] by (fastforce simp: compressed_infos_def s')
qed

lemma map_last_block_infos:
  assumes "map_last_block f s = Inr s'" "\<And>b b'. f b = Inr b' \<Longrightarrow> set (bb_txs b') \<subseteq> set (bb_txs b)"
  shows "compressed_infos s' \<subseteq> compressed_infos s"
proof -
  obtain b b' where b: "last_l2_block s = Inr b" "f b = Inr b'" "s' = s\<lparr>bs_l2_blocks := butlast (bs_l2_blocks s) @ [b']\<rparr>"
    using assms(1) by (auto simp: map_last_block_def)
  have "bs_l2_blocks s = butlast (bs_l2_blocks s) @ [b]" using b(1) by (auto simp: last_l2_block_def)
  then have "set (bs_l2_blocks s) = insert b (set (butlast (bs_l2_blocks s)))" by (metis Un_insert_right list.set(1,2) set_append sup_bot_right)
  then show ?thesis using assms(2) [OF b(2)] by (auto simp: compressed_infos_def b(3))
qed

lemma start_block_infos:
  "Bootloader.start_new_l2_block k s env = Inr s' \<Longrightarrow> compressed_infos s' \<subseteq> compressed_infos s"
  by (auto simp: Bootloader.start_new_l2_block_def push_l2_block_def compressed_infos_def block_new_def) blast

lemma fictive_infos:
  "insert_fictive_l2_block k s = Inr (s', b) \<Longrightarrow> compressed_infos s' \<subseteq> compressed_infos s"
  by (auto simp: insert_fictive_l2_block_def split: if_splits dest!: start_block_infos dest: map_last_block_infos)

lemma pubdata_infos: "set_pubdata_input s i = Inr s' \<Longrightarrow> compressed_infos s' = compressed_infos s"
  by (auto simp: set_pubdata_input_def compressed_infos_def)

lemma snapshot_infos:
  assumes "apply_snapshot s snap = Inr s'"
  shows "compressed_infos s' \<subseteq> compressed_infos s"
proof -
  let ?s = "s\<lparr>bs_tx_to_execute := ss_tx_to_execute snap, bs_compressed_bytecodes_encoding := ss_compressed_bytecodes_encoding snap,
    bs_free_tx_offset := ss_free_tx_offset snap, bs_number_of_applied_interop_roots := ss_number_of_applied_interop_roots snap,
    bs_l2_blocks := take (ss_l2_blocks_len snap) (bs_l2_blocks s)\<rparr>"
  obtain s1 where s1: "map_last_block (\<lambda>b. block_apply_snapshot b (ss_last_l2_block snap)) ?s = Inr s1" "bs_l2_blocks s' = bs_l2_blocks s1"
    using assms by (auto simp: apply_snapshot_def split: if_splits)
  have "compressed_infos s1 \<subseteq> compressed_infos ?s"
    by (rule map_last_block_infos [OF s1(1)]) (auto simp: block_apply_snapshot_def dest: in_set_takeD)
  also have "compressed_infos ?s \<subseteq> compressed_infos s" using set_take_subset by (fastforce simp: compressed_infos_def)
  finally show ?thesis by (simp add: compressed_infos_def s1(2))
qed

lemma push_tx_infos:
  assumes "push_tx ext s td overhead refund compressed limit chain_id = Inr (s', d, ec)"
  shows "compressed_infos s' \<subseteq> compressed_infos s \<union> set compressed"
proof -
  obtain tx c b where new: "bootloader_tx_new ext td refund overhead limit compressed (bs_free_tx_offset s) chain_id = Inr (tx, c)"
    and b: "last_l2_block s = Inr b" and s': "bs_l2_blocks s' = butlast (bs_l2_blocks s) @ [block_push_tx (ext_keccak ext) b tx]"
    using assms by (auto simp: push_tx_def Let_def map_last_block_def last_l2_block_def split: prod.splits)
  have "bt_compressed_bytecodes tx = compressed" using new by (auto simp: bootloader_tx_new_def)
  moreover have "b \<in> set (bs_l2_blocks s)" using b by (auto simp: last_l2_block_def)
  ultimately show ?thesis by (fastforce simp: compressed_infos_def s' block_push_tx_def update_rolling_hash_def dest: in_set_butlastD)
qed

section \<open>They are cached\<close>

text \<open>
  What is used of the interpreter: it has the world only through the operations of the world, and none of them removes a
  bytecode from the cache.
\<close>

definition keeps_bytecodes :: "('m, 'p, 'd) vm2 \<Rightarrow> bool" where
  "keeps_bytecodes V \<longleftrightarrow> (\<forall>m w t e m' w' t'. vm2_run V m w t = Inr (e, m', w', t') \<longrightarrow> dom (w_bytecode_cache w) \<subseteq> dom (w_bytecode_cache w'))"

definition cached :: "'p fast_ext \<Rightarrow> 'p world \<Rightarrow> compressed_bytecode_info \<Rightarrow> bool" where
  "cached X w info \<longleftrightarrow> (\<exists>h \<in> dom (w_bytecode_cache w). for_bytecode (ext_sha256 (fe_externals X)) (cb_original info) = Inr h)"

definition caches_bytecodes :: "('m, 'p, 'd) vm2 \<Rightarrow> 'p fast_ext \<Rightarrow> ('m, 'p) fast_vm \<Rightarrow> bool" where
  "caches_bytecodes V X vm \<longleftrightarrow> (keeps_bytecodes V \<longrightarrow> (\<forall>info \<in> compressed_infos (fv_bootloader_state vm). cached X (fv_world vm) info))"

lemma caches_bytecodes_mono:
  assumes "caches_bytecodes V X vm" "compressed_infos (fv_bootloader_state vm') \<subseteq> compressed_infos (fv_bootloader_state vm)"
    and "keeps_bytecodes V \<Longrightarrow> dom (w_bytecode_cache (fv_world vm)) \<subseteq> dom (w_bytecode_cache (fv_world vm'))"
  shows "caches_bytecodes V X vm'"
  using assms unfolding caches_bytecodes_def cached_def by blast

interpretation caching: run_invariant V X mode "caches_bytecodes V X" for V X mode
proof unfold_locales
  fix vm :: "('a, 'b) fast_vm" and m t e m' w' t'
  assume "caches_bytecodes V X vm" "vm2_run V m (fv_world vm) t = Inr (e, m', w', t')"
  then show "caches_bytecodes V X (vm\<lparr>fv_inner := m', fv_world := w'\<rparr>)"
    by (elim caches_bytecodes_mono) (simp, simp add: keeps_bytecodes_def, blast)
qed (erule caches_bytecodes_mono; force dest: refund_infos fictive_infos pubdata_infos)+

lemma insert_bytecodes_with_hashes_dom:
  "dom (w_bytecode_cache (insert_bytecodes_with_hashes w hcs)) = dom (w_bytecode_cache w) \<union> fst ` set hcs"
  by (induction w hcs rule: insert_bytecodes_with_hashes.induct) auto

lemma compress_bytecodes_original:
  assumes "compress_bytecodes_with_hashes known bytecodes hashes s = Inr (infos, s')" "info \<in> set infos"
  shows "cb_original info \<in> set bytecodes"
proof -
  let ?D = "dedup_by entry_dep (sort_key entry_dep (enumerate 0 (zip bytecodes hashes)))"
  have keep: "filter_unknown known es s = Inr (kept, s1) \<Longrightarrow> set kept \<subseteq> set es" for es kept s s1
    by (induction es arbitrary: s kept) (fastforce split: if_splits)+
  obtain kept e where kept: "filter_unknown known ?D s = Inr (kept, s')" and e: "e \<in> set kept" "compress_bytecode (entry_dep e) = Inr info"
    using assms by (auto simp: compress_bytecodes_with_hashes_def List.map_filter_def Let_def ok_eq_Some)
  have "e \<in> set (zip [0..<length (zip bytecodes hashes)] (zip bytecodes hashes))"
    using keep [OF kept] e(1) dedup_by_subset [of entry_dep "sort_key entry_dep (enumerate 0 (zip bytecodes hashes))"]
    by (auto simp: enumerate_eq_zip)
  then have "entry_dep e \<in> set bytecodes" by (metis in_set_zipE prod.collapse)
  moreover have "cb_original info = entry_dep e" using e(2) by (auto simp: compress_bytecode_def)
  ultimately show ?thesis by simp
qed

lemma push_caches:
  assumes "caches_bytecodes V X vm" "push_transaction_inner V X vm tx refund wc = Inr vm'"
  shows "caches_bytecodes V X vm'"
proof -
  let ?sha = "ext_sha256 (fe_externals X)"
  obtain td where td: "transaction_data_new ?sha (fe_extract_chain_id X) tx
      (bsc_evm_emulator (base_system_smart_contracts (fv_system_env vm)) \<noteq> None) = Inr td"
    using assms(2) by (auto simp: push_transaction_inner_def)
  define vm1 where "vm1 = vm\<lparr>fv_world := insert_bytecodes_with_hashes (fv_world vm) (zip (td_factory_deps_hashes td) (td_factory_deps td))\<rparr>"
  obtain compressed vm2 where comp: "compressed_for_tx V X vm1 td wc = Inr (compressed, vm2)"
    using assms(2) unfolding push_transaction_inner_def td by (auto simp: Let_def vm1_def)
  obtain d ec where push: "push_tx (fe_externals X) (fv_bootloader_state vm2) td (overhead_gas td) refund compressed (trusted_ergs_limit td)
      (system_chain_id (fv_system_env vm2)) = Inr (fv_bootloader_state vm', d, ec)"
    and same: "w_bytecode_cache (fv_world vm') = w_bytecode_cache (fv_world vm2)"
    using assms(2) comp unfolding push_transaction_inner_def td vm1_def
    by (auto simp: Let_def arm_ecrecover_def vm_write_to_bootloader_heap_def has_default_aa_def split: if_splits)
  have hashes: "map (for_bytecode ?sha) (td_factory_deps td) = map Inr (td_factory_deps_hashes td)"
    using td by (auto simp: transaction_data_new_def collect_res_eq_Inr)
  then have len: "length (td_factory_deps td) = length (td_factory_deps_hashes td)" by (metis length_map)
  have zipped: "fst ` set (zip (td_factory_deps_hashes td) (td_factory_deps td)) = set (td_factory_deps_hashes td)"
    by (metis len list.set_map map_fst_zip)
  have vm2: "fv_bootloader_state vm2 = fv_bootloader_state vm"
    "dom (w_bytecode_cache (fv_world vm')) = dom (w_bytecode_cache (fv_world vm)) \<union> set (td_factory_deps_hashes td)"
  proof -
    obtain s where "vm2 = vm1\<lparr>fv_world := (fv_world vm1)\<lparr>w_storage := s\<rparr>\<rparr>" using compressed_for_tx_keeps [OF comp] by blast
    then show "fv_bootloader_state vm2 = fv_bootloader_state vm"
      "dom (w_bytecode_cache (fv_world vm')) = dom (w_bytecode_cache (fv_world vm)) \<union> set (td_factory_deps_hashes td)"
      by (simp_all add: same vm1_def insert_bytecodes_with_hashes_dom zipped)
  qed
  have new: "cached X (fv_world vm') info" if "info \<in> set compressed" for info
  proof -
    have "cb_original info \<in> set (td_factory_deps td)"
      using that comp compress_bytecodes_original by (fastforce simp: compressed_for_tx_def split: if_splits)
    then obtain h where "h \<in> set (td_factory_deps_hashes td)" "for_bytecode ?sha (cb_original info) = Inr h"
      using hashes by (metis (no_types, lifting) image_iff list.set_map)
    then show ?thesis using vm2(2) by (auto simp: cached_def)
  qed
  have old: "cached X (fv_world vm') info" if "cached X (fv_world vm) info" for info
    using that vm2(2) by (auto simp: cached_def)
  show ?thesis using assms(1) push_tx_infos [OF push] new old vm2(1) by (auto simp: caches_bytecodes_def)
qed

lemma reachable_caches: "vm_reachable V X vm \<Longrightarrow> caches_bytecodes V X vm"
proof (induction rule: vm_reachable.induct)
  case (created env senv storage vm)
  have "compressed_infos (fv_bootloader_state vm) = {}"
    using created by (auto simp: fast_vm_custom_def Let_def vm_write_to_bootloader_heap_def bootloader_state_new_def block_new_def
        compressed_infos_def case_prod_beta)
  then show ?case by (simp add: caches_bytecodes_def)
next
  case (pushed vm tx refund wc vm')
  show ?case by (rule push_caches [OF pushed.IH pushed.hyps(2)])
next
  case (pointed vm s i)
  then show ?case by (elim caches_bytecodes_mono) (auto simp: move_tx_to_execute_pointer_def compressed_infos_def)
next
  case (round rs mode track builder f)
  from caching.run_step [OF round.IH round.hyps(2)] show ?case by (cases f) simp_all
next
  case (published vm info b vm')
  then show ?case by (elim caches_bytecodes_mono) (auto simp: unpublished_def)
next
  case (block vm l2 vm')
  then show ?case by (elim caches_bytecodes_mono) (auto simp: vm_start_new_l2_block_def dest: start_block_infos [THEN subsetD])
next
  case (snapshot vm vm')
  then show ?case by (elim caches_bytecodes_mono) (auto simp: vm_make_snapshot_def)
next
  case (rollback vm vm')
  then show ?case by (elim caches_bytecodes_mono) (auto simp: vm_rollback_to_the_latest_snapshot_def dest: snapshot_infos [THEN subsetD])
next
  case (popped vm)
  then show ?case by (elim caches_bytecodes_mono) (auto simp: vm_pop_snapshot_no_rollback_def)
qed

section \<open>The check never fails\<close>

lemma any_unpublished_cached:
  assumes "any_unpublished X vm infos = Inr (b, vm')" "\<forall>info \<in> set infos. cached X (fv_world vm) info"
  shows "\<not> b"
  using assms
proof (induction infos arbitrary: vm)
  case (Cons i infos)
  obtain b1 vm1 where vm1: "unpublished X vm i = Inr (b1, vm1)" "(if b1 then Inr (True, vm1) else any_unpublished X vm1 infos) = Inr (b, vm')"
    using Cons.prems(1) by auto
  have "\<not> b1" "w_bytecode_cache (fv_world vm1) = w_bytecode_cache (fv_world vm)"
    using vm1(1) Cons.prems(2) by (auto simp: unpublished_def cached_def)
  then show ?case using Cons.IH [of vm1] vm1(2) Cons.prems(2) by (simp add: cached_def)
qed simp

text \<open>
  C31. The fast VM never reports a failed compression. Whatever the bootloader and the contracts did, a transaction that was
  executed with compressed bytecodes is answered as one whose bytecodes are published, because the bytecodes count as known
  from the moment the transaction is pushed; so the driver never executes a transaction a second time without compression.
\<close>

theorem compression_never_reported_failed:
  assumes "keeps_bytecodes V" "vm_reachable V X vm"
    and "inspect_transaction_with_bytecode_compression V X vm tx wc = Some (Inr ((published, result), vm'))"
  shows "published"
proof -
  obtain vm1 vm2 t b where steps: "push_transaction_inner V X vm tx 0 wc = Inr vm1"
    "inspect_inner V X vm1 tracer_default OneTx None = Some (Inr (result, vm2, t))" "has_unpublished_bytecodes X vm2 = Inr (b, vm')"
    and b: "published = (\<not> b)"
    using assms(3) by (auto simp: inspect_transaction_with_bytecode_compression_def split: sum.splits)
  have "caches_bytecodes V X vm2"
    by (rule reachable_caches [OF inspect_reachable [OF vm_reachable.pushed [OF assms(2) steps(1)] steps(2)]])
  moreover obtain infos where infos: "get_last_tx_compressed_bytecodes (fv_bootloader_state vm2) = Inr infos" "any_unpublished X vm2 infos = Inr (b, vm')"
    using steps(3) by (auto simp: has_unpublished_bytecodes_def)
  ultimately have "\<forall>info \<in> set infos. cached X (fv_world vm2) info"
    using compressed_infos_last [OF infos(1)] assms(1) by (auto simp: caches_bytecodes_def)
  then show ?thesis using any_unpublished_cached [OF infos(2)] b by blast
qed

end
