(* ===== verification/Fast_Vm_Examples.thy ===== *)
theory Fast_Vm_Examples
  imports Fast_Vm_Published Verifier_Examples Bootloader_Examples Oracle_Examples
begin

text \<open>
  The fast VM on a small interpreter: its state is the gas, and a run stops at once with the hook that ends the transaction.
  It meets the hypotheses of the theorems on the fast VM.
\<close>

section \<open>The interpreter\<close>

definition stub_vm2 :: "(u32, u256 list, unit) vm2" where
  "stub_vm2 = \<lparr>vm2_new = (\<lambda>_ _ _ _ gas _. gas), vm2_setup_frame = (\<lambda>m _ _ _ _. m),
     vm2_run = (\<lambda>m w t. Inr (SuspendedOnHook 4, m, w, t)), vm2_gas = id, vm2_set_gas = (\<lambda>_ g. g), vm2_pubdata = (\<lambda>_. 0),
     vm2_read_heap_u256 = (\<lambda>_ _. 1), vm2_write_heap_u256 = (\<lambda>m _ _. m), vm2_read_heap_byte = (\<lambda>_ _ _. 0), vm2_near_calls = (\<lambda>_. []),
     vm2_storage_state = (\<lambda>_ _. None), vm2_storage_changes = (\<lambda>_. []), vm2_storage_changes_after = (\<lambda>_ _. []), vm2_events = (\<lambda>_. []),
     vm2_events_after = (\<lambda>_ _. []), vm2_l2_to_l1_logs = (\<lambda>_. []), vm2_l2_to_l1_logs_after = (\<lambda>_ _. []),
     vm2_storage_log_queries = (\<lambda>_. []), vm2_decommitted_hashes = (\<lambda>_. []), vm2_world_diff_snapshot = (\<lambda>_. ()),
     vm2_make_snapshot = id, vm2_rollback = id, vm2_pop_snapshot = id\<rparr>"

definition word_programs :: "u256 list program_ops" where
  "word_programs = \<lparr>program_new = (\<lambda>code _. map from_be_bytes (filter (\<lambda>c. length c = 32) (chunks 32 code))), code_page = id\<rparr>"

definition stub_ext :: "u256 list fast_ext" where
  "stub_ext = \<lparr>fe_externals = demo_ext, fe_blake = (\<lambda>_. 0), fe_programs = word_programs, fe_usize = 2 ^ 32, fe_overflow_checks = False, fe_hex = (\<lambda>_. []),
     fe_extract_chain_id = (\<lambda>_. None), fe_long_signature = (\<lambda>_ _. 0),
     fe_pointer_from = (\<lambda>_. \<lparr>vp_memory_page = 0, vp_offset = 0, vp_start = 0, vp_length = 0\<rparr>),
     fe_initial_frame_formal_eh_location = 0, fe_derive_final_address = (\<lambda>_ _. 0), fe_sort_storage_access_queries = id\<rparr>"

definition stub_tx :: transaction where
  "stub_tx = \<lparr>tx_common_data = L1Common
      \<lparr>l1_sender = 1, l1_serial_id = 3, l1_layer_2_tip_fee = 0, l1_full_fee = 0, l1_max_fee_per_gas = 3, l1_gas_limit = 1000,
       l1_gas_per_pubdata_limit = 800, l1_op_processing_type = OpCommon, l1_priority_queue_type = Deque, l1_canonical_tx_hash = 0,
       l1_to_mint = 0, l1_refund_recipient = 1, l1_eth_block = 0\<rparr>,
     tx_execute = \<lparr>ex_contract_address = Some 2, ex_calldata = [], ex_value = 0, ex_factory_deps = []\<rparr>,
     tx_received_timestamp_ms = 0, tx_raw_bytes = None\<rparr>"

definition stub_senv :: system_env where
  "stub_senv = demo_system_env\<lparr>system_version := Version25\<rparr>"

definition stub_blocks :: "transaction l2_block_execution_data list" where
  "stub_blocks = [\<lparr>ed_number = 1, ed_timestamp = 10, ed_prev_block_hash = 0, ed_virtual_blocks = 1, ed_txs = [stub_tx], ed_interop_roots = []\<rparr>,
     \<lparr>ed_number = 2, ed_timestamp = 11, ed_prev_block_hash = 0, ed_virtual_blocks = 1, ed_txs = [], ed_interop_roots = []\<rparr>]"

lemma stub_vm2_simps [simp]:
  "vm2_run stub_vm2 m w t = Inr (SuspendedOnHook 4, m, w, t)" "vm2_near_calls stub_vm2 m = []" "vm2_write_heap_u256 stub_vm2 m a v = m"
  "vm2_events_after stub_vm2 m d = []" "vm2_gas stub_vm2 m = m" "vm2_set_gas stub_vm2 m g = g" "vm2_storage_changes_after stub_vm2 m d = []"
  "vm2_l2_to_l1_logs_after stub_vm2 m d = []" "vm2_make_snapshot stub_vm2 m = m" "vm2_pop_snapshot stub_vm2 m = m"
  "vm2_read_heap_u256 stub_vm2 m a = 1" "vm2_pubdata stub_vm2 m = 0"
  by (simp_all add: stub_vm2_def)

lemma stub_keeps: "foldl (\<lambda>m (slot, v). m) x (memory :: bootloader_memory) = x"
  by (induction memory) auto

lemma stub_created:
  "\<exists>vm. fast_vm_custom stub_vm2 stub_ext demo_batch stub_senv demo_view = Inr vm \<and> fv_bootloader_state vm =
    \<lparr>bs_tx_to_execute = 0, bs_l2_blocks = [block_new demo_first_block 0], bs_compressed_bytecodes_encoding = 0,
      bs_initial_memory = initial_memory IncreasedBootloaderMemory demo_batch, bs_execution_mode = VerifyExecute,
      bs_free_tx_offset = 0, bs_pubdata_information = None, bs_number_of_applied_interop_roots = 0,
      bs_protocol_version = Version25, bs_subversion = IncreasedBootloaderMemory\<rparr> \<and> fv_vm_version vm = FastIncreasedBootloaderMemory \<and>
    fv_batch_env vm = demo_batch \<and> fv_system_env vm = stub_senv \<and> fv_snapshot vm = None"
  by (simp add: fast_vm_custom_def stub_senv_def demo_system_env_def fast_vm_version_try_from_def bootloader_state_new_def
      multi_vm_subversion_try_from_def vm_write_to_bootloader_heap_def has_previous_far_calls_def demo_batch_def Let_def case_prod_beta)

abbreviation stub_state :: bootloader_state where
  "stub_state \<equiv> \<lparr>bs_tx_to_execute = 0, bs_l2_blocks = [block_new demo_first_block 0], bs_compressed_bytecodes_encoding = 0,
      bs_initial_memory = initial_memory IncreasedBootloaderMemory demo_batch, bs_execution_mode = VerifyExecute,
      bs_free_tx_offset = 0, bs_pubdata_information = None, bs_number_of_applied_interop_roots = 0,
      bs_protocol_version = Version25, bs_subversion = IncreasedBootloaderMemory\<rparr>"

definition stub_td :: transaction_data where
  "stub_td = transaction_data_l1 stub_tx (case tx_common_data stub_tx of L1Common d \<Rightarrow> d | _ \<Rightarrow> undefined)"

lemma stub_td_new: "transaction_data_new sha ex stub_tx b = Inr stub_td"
  by (simp add: transaction_data_new_def stub_td_def stub_tx_def transaction_data_l1_def Let_def)

lemma stub_encoding: "map from_be_bytes (chunks 32 (replicate 64 0)) = [0, 0 :: u256]" "chunks 32 ([] :: u8 list) = []"
  by code_simp+

lemma stub_push:
  "\<exists>tx d. push_tx demo_ext stub_state stub_td n 0 [] l c = Inr (stub_state\<lparr>bs_l2_blocks := [block_push_tx (\<lambda>_. 0) (block_new demo_first_block 0) tx],
     bs_free_tx_offset := 2\<rparr>, d, None) \<and> bt_compressed_bytecodes tx = [] \<and> bt_encoded tx = [0, 0]"
  by (simp add: demo_steps Let_def demo_ext_def stub_td_def stub_tx_def transaction_data_l1_def demo_first_block_def
      tx_type_defs encoded_len_def stub_encoding)

lemma stub_run:
  assumes "current_tx (fv_bootloader_state vm) = Inr k"
  shows "\<exists>r. fast_run stub_vm2 stub_ext OneTx track builder vm t = Some (Inr (r, vm, t)) \<and> rr_execution_result r = VmSuccess [] \<and>
    \<not> should_ignore_vm_logs r"
  using assms
  by (simp add: fast_run_def run_loop.simps run_round_def run_start_def vm_hook_new_def vm_hooks_def handle_hook_def
      tx_has_ended_def get_tx_result_def read_word_from_bootloader_heap_def should_ignore_vm_logs_def)

lemma stub_logs: "\<exists>logs. logs_since stub_vm2 stub_ext vm d = Inr logs"
  by (simp add: logs_since_def user_logs_of_events_def fast_merge_events_def close_pending_def extract_l2tol1logs_from_l1_messenger_def)

lemma stub_execute:
  assumes "fv_bootloader_state vm = stub_state" "fv_system_env vm = stub_senv"
  shows "\<exists>vm' result tx. inspect_transaction_with_bytecode_compression stub_vm2 stub_ext vm stub_tx True = Some (Inr ((True, result), vm')) \<and>
    er_result result = VmSuccess [] \<and> bt_encoded tx = [0, 0] \<and> fv_bootloader_state vm' = stub_state\<lparr>bs_tx_to_execute := 1,
      bs_l2_blocks := [block_push_tx (\<lambda>_. 0) (block_new demo_first_block 0) tx], bs_free_tx_offset := 2\<rparr>"
proof -
  let ?s = "\<lambda>tx. stub_state\<lparr>bs_l2_blocks := [block_push_tx (\<lambda>_. 0) (block_new demo_first_block 0) tx], bs_free_tx_offset := 2\<rparr>"
  obtain tx d where push: "push_tx demo_ext stub_state stub_td (overhead_gas stub_td) 0 [] (trusted_ergs_limit stub_td) (system_chain_id stub_senv) = Inr (?s tx, d, None)"
    and tx: "bt_compressed_bytecodes tx = []" "bt_encoded tx = [0, 0]" using stub_push by blast
  have l1: "is_l1_tx_type (td_tx_type stub_td)" "td_factory_deps_hashes stub_td = []"
    by (simp_all add: stub_td_def stub_tx_def transaction_data_l1_def is_l1_tx_type_def tx_type_defs)
  obtain vm1 where vm1: "push_transaction_inner stub_vm2 stub_ext vm stub_tx 0 True = Inr vm1" "fv_bootloader_state vm1 = ?s tx"
    using push assms l1
    by (simp add: push_transaction_inner_def stub_td_new compressed_for_tx_def Let_def vm_write_to_bootloader_heap_def
        has_previous_far_calls_def arm_ecrecover_def stub_ext_def)
  have "\<exists>result t vm2. inspect_inner stub_vm2 stub_ext vm1 tracer_default OneTx None = Some (Inr (result, vm2, t)) \<and> er_result result = VmSuccess [] \<and>
    fv_bootloader_state vm2 = (?s tx)\<lparr>bs_tx_to_execute := 1\<rparr>"
  proof -
    let ?vm = "vm1\<lparr>fv_bootloader_state := (?s tx)\<lparr>bs_tx_to_execute := 1\<rparr>\<rparr>"
    have "current_tx (fv_bootloader_state ?vm) = Inr 0" by (simp add: current_tx_def)
    from stub_run [OF this] stub_logs show ?thesis
      using vm1(2) by (fastforce simp: inspect_inner_def Let_def move_tx_to_execute_pointer_def free_tx_index_def last_l2_block_def)
  qed
  then obtain result t vm2 where vm2: "inspect_inner stub_vm2 stub_ext vm1 tracer_default OneTx None = Some (Inr (result, vm2, t))"
    "er_result result = VmSuccess []" "fv_bootloader_state vm2 = (?s tx)\<lparr>bs_tx_to_execute := 1\<rparr>" by blast
  then have "has_unpublished_bytecodes stub_ext vm2 = Inr (False, vm2)"
    by (simp add: has_unpublished_bytecodes_def get_last_tx_compressed_bytecodes_def last_l2_block_def block_push_tx_def update_rolling_hash_def tx(1))
  then show ?thesis
    using vm1(1) vm2 tx(2)
    by (intro exI [of _ vm2] exI [of _ result] exI [of _ tx]) (simp add: inspect_transaction_with_bytecode_compression_def)
qed

section \<open>The driver\<close>

theorem driver_pushes_each_tx_once_witness:
  "\<exists>vm r vm'. fast_vm_custom stub_vm2 stub_ext demo_batch stub_senv demo_view = Inr vm \<and>
    execute_blocks (fast_vm_ops stub_vm2 stub_ext) (zip stub_blocks (drop 1 stub_blocks)) (Inr vm) = Inr r \<and> r = Inr vm' \<and>
    concat (map (map bt_encoded \<circ> bb_txs) (bs_l2_blocks (fv_bootloader_state vm'))) = [[0, 0]] \<and>
    bs_tx_to_execute (fv_bootloader_state vm') = 1 \<and> fv_snapshot vm' = None"
proof -
  let ?ops = "fast_vm_ops stub_vm2 stub_ext"
  obtain vm where vm: "fast_vm_custom stub_vm2 stub_ext demo_batch stub_senv demo_view = Inr vm" "fv_bootloader_state vm = stub_state"
    "fv_system_env vm = stub_senv" "fv_snapshot vm = None" using stub_created by auto
  obtain vm1 where vm1: "make_snapshot ?ops (Inr vm) = Inr vm1" "fv_bootloader_state vm1 = stub_state" "fv_system_env vm1 = stub_senv"
    using vm by (simp add: fast_vm_ops_def vm_make_snapshot_def get_snapshot_def last_l2_block_def)
  obtain vm2 result tx where vm2: "inspect_transaction_with_bytecode_compression stub_vm2 stub_ext vm1 stub_tx True = Some (Inr ((True, result), vm2))"
    "er_result result = VmSuccess []" and s2: "fv_bootloader_state vm2 = stub_state\<lparr>bs_tx_to_execute := 1,
      bs_l2_blocks := [block_push_tx (\<lambda>_. 0) (block_new demo_first_block 0) tx], bs_free_tx_offset := 2\<rparr>"
    using stub_execute [OF vm1(2,3)] by blast
  have "execute_tx ?ops stub_tx (Inr vm) = Inr (Inr (vm_pop_snapshot_no_rollback stub_vm2 vm2))"
    using vm1(1) vm2
    by (simp add: execute_tx_def fast_vm_ops_def ended_def verifier_result_def ensure_not_halted_def)
  moreover have "\<exists>vm3. vm_start_new_l2_block stub_ext (vm_pop_snapshot_no_rollback stub_vm2 vm2) (from_l2_block_data (stub_blocks ! 1)) = Inr vm3"
    using s2 by (simp add: vm_start_new_l2_block_def vm_pop_snapshot_no_rollback_def stub_blocks_def from_l2_block_data_def demo_steps
        stub_ext_def demo_ext_def demo_first_block_def is_pre_interop_fast_blocks_def)
  ultimately obtain r where run: "execute_blocks ?ops (zip stub_blocks (drop 1 stub_blocks)) (Inr vm) = Inr r"
    by (auto simp: stub_blocks_def fast_vm_ops_def)
  have enc: "collect_res (map (tx_encoding stub_ext stub_senv) (concat (map ed_txs (butlast stub_blocks)))) = Inr [[0, 0]]"
    by (simp add: stub_blocks_def tx_encoding_def stub_td_new into_tokens_def td_abi_encode_def abi_encode_with_custom_factory_deps_def
        stub_ext_def demo_ext_def bytes_to_be_words_def stub_encoding)
  from driver_pushes_each_tx_once [OF vm(1) run] vm(1) run show ?thesis unfolding enc by fastforce
qed

section \<open>Signatures, gas and bytecodes\<close>

definition stub_precompiles :: "nat precompile_ops" where
  "stub_precompiles = \<lparr>ECRECOVER_INNER_FUNCTION_PRECOMPILE_ADDRESS = 1, precompile_output = length,
     legacy_call_precompile = (\<lambda>a memory aux. length memory + 40)\<rparr>"

lemma stub_laws: "keeps_expected_call stub_vm2" "keeps_bytecodes stub_vm2" "lawful_gas stub_vm2" "lawful_programs word_programs"
  by (simp_all add: keeps_expected_call_def keeps_bytecodes_def lawful_gas_def lawful_programs_def word_programs_def)

theorem precompiles_are_real_witness:
  "\<exists>vm. fast_vm_custom stub_vm2 stub_ext demo_batch stub_senv demo_view = Inr vm \<and> vm_reachable stub_vm2 stub_ext vm \<and>
    call_precompile stub_precompiles (fv_world vm) 1 [1, 2] 0 = 42"
proof -
  obtain vm where vm: "fast_vm_custom stub_vm2 stub_ext demo_batch stub_senv demo_view = Inr vm" using stub_created by blast
  have reach: "vm_reachable stub_vm2 stub_ext vm" by (rule created [OF vm])
  from precompiles_are_real [OF stub_laws(1) reach, of stub_precompiles 1 "[1, 2]" 0] vm reach show ?thesis
    by (auto simp: stub_precompiles_def)
qed

theorem compression_never_reported_failed_witness:
  "\<exists>vm published result vm'. fast_vm_custom stub_vm2 stub_ext demo_batch stub_senv demo_view = Inr vm \<and>
    inspect_transaction_with_bytecode_compression stub_vm2 stub_ext vm stub_tx True = Some (Inr ((published, result), vm')) \<and> published"
proof -
  obtain vm where vm: "fast_vm_custom stub_vm2 stub_ext demo_batch stub_senv demo_view = Inr vm" "fv_bootloader_state vm = stub_state"
    "fv_system_env vm = stub_senv" using stub_created by auto
  obtain published result vm' where run:
    "inspect_transaction_with_bytecode_compression stub_vm2 stub_ext vm stub_tx True = Some (Inr ((published, result), vm'))"
    using stub_execute [OF vm(2,3)] by blast
  from compression_never_reported_failed [OF stub_laws(2) created [OF vm(1)] run] vm(1) run show ?thesis by blast
qed

definition gas_state :: "(u32, u256 list) fast_vm \<Rightarrow> (u32, u256 list) run_state" where
  "gas_state vm = (run_start stub_vm2 (vm\<lparr>fv_inner := 100\<rparr>) tracer_default)\<lparr>rs_gas_left_for_account_validation := 60\<rparr>"

theorem validation_gas_conserved_witness:
  "\<forall>vm. \<exists>rs1 rs2. enter_account_validation stub_vm2 (gas_state vm) = Inr rs1 \<and>
    flow_state (exit_validation stub_vm2 (rs1\<lparr>rs_vm := (rs_vm rs1)\<lparr>fv_inner := 25\<rparr>\<rparr>)) = rs2 \<and>
    unat (rs_gas_left_for_account_validation rs2) = 25 \<and> unat (vm2_gas stub_vm2 (fv_inner (rs_vm rs2))) = 65"
proof
  fix vm
  obtain rs1 where rs1: "enter_account_validation stub_vm2 (gas_state vm) = Inr rs1" "fv_inner (rs_vm rs1) = 60"
    by (simp add: enter_account_validation_def gas_state_def run_start_def Let_def)
  have "vm2_gas stub_vm2 25 \<le> vm2_gas stub_vm2 (fv_inner (rs_vm rs1))" by (simp add: rs1(2))
  from validation_gas_conserved [OF stub_laws(3) rs1(1) this] rs1
  show "\<exists>rs1 rs2. enter_account_validation stub_vm2 (gas_state vm) = Inr rs1 \<and>
    flow_state (exit_validation stub_vm2 (rs1\<lparr>rs_vm := (rs_vm rs1)\<lparr>fv_inner := 25\<rparr>\<rparr>)) = rs2 \<and>
    unat (rs_gas_left_for_account_validation rs2) = 25 \<and> unat (vm2_gas stub_vm2 (fv_inner (rs_vm rs2))) = 65"
    by (auto simp: gas_state_def run_start_def)
qed

definition code_world :: "u256 list world" where
  "code_world = (world_new demo_view Map.empty)\<lparr>w_bytecode_cache := [7 \<mapsto> replicate 33 9]\<rparr>"

theorem code_requests_answered_witness:
  "map_res fst (serve_requests word_programs [CodeOracle 7, FarCall 7, CodeOracle 7] code_world) =
     Inr [replicate 32 9, replicate 32 9, replicate 32 9]"
proof -
  have "decommit_code word_programs code_world 7 = Inr (replicate 32 9)"
    by (simp add: decommit_code_def code_world_def world_new_def raw_bytecode_def)
  then show ?thesis using code_requests_answered [OF stub_laws(4), of "[CodeOracle 7, FarCall 7, CodeOracle 7]" code_world] by simp
qed

theorem compress_bytecodes_first_unknown_witness:
  "map_res fst (compress_bytecodes_with_hashes (\<lambda>s h. Inr (h = 3, s)) [[8], [2], [8], [5]] [1, 2, 1, 3] ()) =
     Inr (List.map_filter (\<lambda>i. ok (compress_bytecode ([[8], [2], [8], [5]] ! i))) [0, 1])"
proof -
  have idx: "filter (\<lambda>i. [[8], [2], [8], [5 :: u8]] ! i \<notin> set (take i [[8], [2], [8], [5]]) \<and> \<not> [1, 2, 1, 3 :: h256] ! i = 3) [0..<4] = [0, 1]"
    by code_simp
  show ?thesis
    using compress_bytecodes_first_unknown [of "[[8], [2], [8], [5]]" "[1, 2, 1, 3]" "\<lambda>_. True" "()" "\<lambda>s h. Inr (h = 3, s)" "\<lambda>h. h = 3"] idx
    by simp
qed

end
