(* ===== verification/Deduplicator.thy ===== *)
theory Deduplicator
  imports Fast_Vm
begin

text \<open>
  Deduplication of storage writes in flight, \<open>src/crates/multivm/src/utils/deduplicator.rs\<close>: the slots whose value differs
  from the one they had first, with running counters of their number and size, and snapshots that undo by the recorded
  updates. The counters are \<open>usize\<close>: words of any width, whose arithmetic wraps.
\<close>

section \<open>State\<close>

record 'u modified_slot =
  ms_value :: h256
  ms_size :: 'u

datatype 'u update_type = RemoveSlot "'u modified_slot" | UpdateSlot "'u modified_slot" | InsertSlot

record 'u update_item =
  ui_key :: storage_key
  ui_update_type :: "'u update_type"
  ui_is_write_initial :: bool

record 'u deduplicated_writes_metrics =
  initial_storage_writes :: 'u
  repeated_storage_writes :: 'u
  total_updated_values_size :: 'u

record 'u storage_writes_deduplicator =
  dd_initial_values :: "storage_key \<rightharpoonup> h256"
  dd_modified_key_values :: "storage_key \<rightharpoonup> 'u modified_slot"
  dd_metrics :: "'u deduplicated_writes_metrics"
  dd_snapshots :: "'u update_item list list"

definition deduplicator_new :: "'n::len word storage_writes_deduplicator" where
  "deduplicator_new = \<lparr>dd_initial_values = Map.empty, dd_modified_key_values = Map.empty,
     dd_metrics = \<lparr>initial_storage_writes = 0, repeated_storage_writes = 0, total_updated_values_size = 0\<rparr>, dd_snapshots = []\<rparr>"

definition metrics_size :: "protocol_version \<Rightarrow> 'n::len word deduplicated_writes_metrics \<Rightarrow> 'n word" where
  "metrics_size v m = (if is_pre_boojum v
     then initial_storage_writes m * 64 + repeated_storage_writes m * 40
     else total_updated_values_size m + ucast BYTES_PER_DERIVED_KEY * initial_storage_writes m
       + ucast BYTES_PER_ENUMERATION_INDEX * repeated_storage_writes m)"

section \<open>Applying logs\<close>

text \<open>\<open>field_to_change\<close>: the counter of the kind of write, changed by a step that may be negative.\<close>

definition change_field :: "bool \<Rightarrow> 'n::len word \<Rightarrow> 'n word deduplicated_writes_metrics \<Rightarrow> 'n word deduplicated_writes_metrics" where
  "change_field init_write step m =
     (if init_write then m\<lparr>initial_storage_writes := initial_storage_writes m + step\<rparr>
      else m\<lparr>repeated_storage_writes := repeated_storage_writes m + step\<rparr>)"

definition change_total :: "'n::len word \<Rightarrow> 'n word deduplicated_writes_metrics \<Rightarrow> 'n word deduplicated_writes_metrics" where
  "change_total step m = m\<lparr>total_updated_values_size := total_updated_values_size m + step\<rparr>"

definition slot_of :: "h256 \<Rightarrow> h256 \<Rightarrow> 'n::len word modified_slot" where
  "slot_of first_value v = \<lparr>ms_value = v, ms_size = of_nat (length (compress_with_best_strategy first_value v))\<rparr>"

text \<open>One log of the loop: the new state and the update it records, if any.\<close>

definition process_log ::
  "storage_log_with_previous_value \<Rightarrow> 'n::len word storage_writes_deduplicator \<Rightarrow>
   'n word storage_writes_deduplicator \<times> 'n word update_item list" where
  "process_log log d =
     (let k = log_key (slp_log log); v = log_value (slp_log log);
          first_value = (case dd_initial_values d k of Some w \<Rightarrow> w | None \<Rightarrow> slp_previous_value log);
          init_write = (kind (slp_log log) = InitialWrite);
          item = (\<lambda>u. \<lparr>ui_key = k, ui_update_type = u, ui_is_write_initial = init_write\<rparr>);
          d = d\<lparr>dd_initial_values := (dd_initial_values d)(k \<mapsto> first_value)\<rparr>
      in case (dd_modified_key_values d k, first_value \<noteq> v) of
           (Some old, False) \<Rightarrow>
             (d\<lparr>dd_modified_key_values := (dd_modified_key_values d)(k := None),
                dd_metrics := change_total (- ms_size old) (change_field init_write (- 1) (dd_metrics d))\<rparr>, [item (RemoveSlot old)])
         | (Some old, True) \<Rightarrow>
             (d\<lparr>dd_modified_key_values := (dd_modified_key_values d)(k \<mapsto> slot_of first_value v),
                dd_metrics := change_total (ms_size (slot_of first_value v)) (change_total (- ms_size old) (dd_metrics d))\<rparr>,
              [item (UpdateSlot old)])
         | (None, True) \<Rightarrow>
             (d\<lparr>dd_modified_key_values := (dd_modified_key_values d)(k \<mapsto> slot_of first_value v),
                dd_metrics := change_total (ms_size (slot_of first_value v)) (change_field init_write 1 (dd_metrics d))\<rparr>,
              [item InsertSlot])
         | (None, False) \<Rightarrow> (d, []))"

fun process_storage_logs ::
  "storage_log_with_previous_value list \<Rightarrow> 'n::len word storage_writes_deduplicator \<Rightarrow>
   'n word storage_writes_deduplicator \<times> 'n word update_item list" where
  "process_storage_logs [] d = (d, [])"
| "process_storage_logs (log # ls) d =
     (if is_write (slp_log log)
      then (let (d1, u) = process_log log d; (d2, us) = process_storage_logs ls d1 in (d2, u @ us))
      else process_storage_logs ls d)"

definition dedup_apply ::
  "storage_log_with_previous_value list \<Rightarrow> 'n::len word storage_writes_deduplicator \<Rightarrow> 'n word storage_writes_deduplicator" where
  "dedup_apply ls d =
     (let (d', updates) = process_storage_logs ls d
      in if dd_snapshots d' = [] then d'
         else d'\<lparr>dd_snapshots := butlast (dd_snapshots d') @ [last (dd_snapshots d') @ updates]\<rparr>)"

section \<open>Rolling back\<close>

definition rollback_item ::
  "'n::len word update_item \<Rightarrow> 'n word storage_writes_deduplicator \<Rightarrow> 'n word storage_writes_deduplicator res" where
  "rollback_item item d =
     (let k = ui_key item; modified = dd_modified_key_values d
      in case ui_update_type item of
           InsertSlot \<Rightarrow> and_then (ok_or (Panic (PanicMsg ''tried removing key before insertion'')) (modified k)) (\<lambda>v.
             Inr (d\<lparr>dd_modified_key_values := modified(k := None),
                    dd_metrics := change_total (- ms_size v) (change_field (ui_is_write_initial item) (- 1) (dd_metrics d))\<rparr>))
         | UpdateSlot v \<Rightarrow> and_then (ok_or (Panic (PanicMsg ''tried removing key before insertion'')) (modified k)) (\<lambda>old.
             Inr (d\<lparr>dd_modified_key_values := modified(k \<mapsto> v),
                    dd_metrics := change_total (- ms_size old) (change_total (ms_size v) (dd_metrics d))\<rparr>))
         | RemoveSlot v \<Rightarrow>
             Inr (d\<lparr>dd_modified_key_values := modified(k \<mapsto> v),
                    dd_metrics := change_total (ms_size v) (change_field (ui_is_write_initial item) 1 (dd_metrics d))\<rparr>))"

fun rollback_items ::
  "'n::len word update_item list \<Rightarrow> 'n word storage_writes_deduplicator \<Rightarrow> 'n word storage_writes_deduplicator res" where
  "rollback_items [] d = Inr d"
| "rollback_items (item # items) d = and_then (rollback_item item d) (rollback_items items)"

definition dedup_rollback ::
  "'n::len word update_item list \<Rightarrow> 'n word storage_writes_deduplicator \<Rightarrow> 'n word storage_writes_deduplicator res" where
  "dedup_rollback updates d = rollback_items (rev updates) d"

definition apply_and_rollback ::
  "storage_log_with_previous_value list \<Rightarrow> 'n::len word storage_writes_deduplicator \<Rightarrow>
   ('n word deduplicated_writes_metrics \<times> 'n word storage_writes_deduplicator) res" where
  "apply_and_rollback ls d =
     (let (d', updates) = process_storage_logs ls d in map_res (Pair (dd_metrics d')) (dedup_rollback updates d'))"

definition apply_on_empty_state :: "storage_log_with_previous_value list \<Rightarrow> 'n::len word deduplicated_writes_metrics" where
  "apply_on_empty_state ls = dd_metrics (dedup_apply ls deduplicator_new)"

text \<open>The iteration order of the hash map is the parameter \<open>order\<close>.\<close>

definition deduplicate_logs ::
  "((storage_key \<rightharpoonup> 'n::len word modified_slot) \<Rightarrow> storage_key list) \<Rightarrow> storage_log_with_previous_value list \<Rightarrow> storage_log list" where
  "deduplicate_logs order ls =
     (let m = dd_modified_key_values (dedup_apply ls (deduplicator_new :: 'n word storage_writes_deduplicator))
      in map (\<lambda>k. new_write_log k (ms_value (the (m k)))) (order m))"

definition dedup_make_snapshot :: "'n::len word storage_writes_deduplicator \<Rightarrow> 'n word storage_writes_deduplicator" where
  "dedup_make_snapshot d = d\<lparr>dd_snapshots := dd_snapshots d @ [[]]\<rparr>"

definition rollback_to_latest_snapshot_popping ::
  "'n::len word storage_writes_deduplicator \<Rightarrow> 'n word storage_writes_deduplicator res" where
  "rollback_to_latest_snapshot_popping d =
     ensure (dd_snapshots d \<noteq> []) (Panic (PanicMsg ''unwrap on None''))
       (dedup_rollback (last (dd_snapshots d)) (d\<lparr>dd_snapshots := butlast (dd_snapshots d)\<rparr>))"

definition pop_front_snapshot_no_rollback :: "'n::len word storage_writes_deduplicator \<Rightarrow> 'n word storage_writes_deduplicator" where
  "pop_front_snapshot_no_rollback d = d\<lparr>dd_snapshots := drop 1 (dd_snapshots d)\<rparr>"

section \<open>Specification\<close>

text \<open>
  The first value of every slot, the current values that differ from it, and the saved values of the snapshots, the latest
  first. A snapshot does not save the first values: they stay valid when writes are undone.
\<close>

record net_state =
  nt_first :: "storage_key \<rightharpoonup> h256"
  nt_changed :: "storage_key \<rightharpoonup> h256"
  nt_saved :: "(storage_key \<rightharpoonup> h256) list"

definition net_write :: "storage_log_with_previous_value \<Rightarrow> net_state \<Rightarrow> net_state" where
  "net_write log s =
     (let k = log_key (slp_log log); v = log_value (slp_log log);
          w = (case nt_first s k of Some w \<Rightarrow> w | None \<Rightarrow> slp_previous_value log)
      in s\<lparr>nt_first := (nt_first s)(k \<mapsto> w), nt_changed := (nt_changed s)(k := if v = w then None else Some v)\<rparr>)"

fun net_writes :: "storage_log_with_previous_value list \<Rightarrow> net_state \<Rightarrow> net_state" where
  "net_writes [] s = s"
| "net_writes (log # ls) s = net_writes ls (if is_write (slp_log log) then net_write log s else s)"

datatype dedup_op = DedupApply "storage_log_with_previous_value list" | DedupTry "storage_log_with_previous_value list"
  | DedupSnapshot | DedupRollback | DedupPopFront

fun dedup_step :: "dedup_op \<Rightarrow> 'n::len word storage_writes_deduplicator \<Rightarrow> 'n word storage_writes_deduplicator res" where
  "dedup_step (DedupApply ls) d = Inr (dedup_apply ls d)"
| "dedup_step (DedupTry ls) d = map_res snd (apply_and_rollback ls d)"
| "dedup_step DedupSnapshot d = Inr (dedup_make_snapshot d)"
| "dedup_step DedupRollback d = rollback_to_latest_snapshot_popping d"
| "dedup_step DedupPopFront d = Inr (pop_front_snapshot_no_rollback d)"

fun net_step :: "dedup_op \<Rightarrow> net_state \<Rightarrow> net_state option" where
  "net_step (DedupApply ls) s = Some (net_writes ls s)"
| "net_step (DedupTry ls) s = Some (s\<lparr>nt_first := nt_first (net_writes ls s)\<rparr>)"
| "net_step DedupSnapshot s = Some (s\<lparr>nt_saved := nt_changed s # nt_saved s\<rparr>)"
| "net_step DedupRollback s = (case nt_saved s of [] \<Rightarrow> None | m # ms \<Rightarrow> Some (s\<lparr>nt_changed := m, nt_saved := ms\<rparr>))"
| "net_step DedupPopFront s = Some (s\<lparr>nt_saved := butlast (nt_saved s)\<rparr>)"

fun op_logs :: "dedup_op \<Rightarrow> storage_log_with_previous_value list" where
  "op_logs (DedupApply ls) = ls"
| "op_logs (DedupTry ls) = ls"
| "op_logs _ = []"

fun dedup_run :: "dedup_op list \<Rightarrow> 'n::len word storage_writes_deduplicator \<Rightarrow> 'n word storage_writes_deduplicator res" where
  "dedup_run [] d = Inr d"
| "dedup_run (op # ops) d = and_then (dedup_step op d) (dedup_run ops)"

fun net_run :: "dedup_op list \<Rightarrow> net_state \<Rightarrow> net_state option" where
  "net_run [] s = Some s"
| "net_run (op # ops) s = Option.bind (net_step op s) (net_run ops)"

section \<open>Slots and counters of a set of changes\<close>

definition slots :: "(storage_key \<rightharpoonup> h256) \<Rightarrow> (storage_key \<rightharpoonup> h256) \<Rightarrow> storage_key \<rightharpoonup> 'n::len word modified_slot" where
  "slots first m = (\<lambda>k. map_option (slot_of (the (first k))) (m k))"

definition counters :: "(storage_key \<Rightarrow> bool) \<Rightarrow> (storage_key \<rightharpoonup> 'n::len word modified_slot) \<Rightarrow> 'n word deduplicated_writes_metrics" where
  "counters initial m =
     \<lparr>initial_storage_writes = of_nat (card {k \<in> dom m. initial k}), repeated_storage_writes = of_nat (card {k \<in> dom m. \<not> initial k}),
      total_updated_values_size = (\<Sum>k \<in> dom m. ms_size (the (m k)))\<rparr>"

lemma slots_upd [simp]: "slots f (m(k := None)) = (slots f m)(k := None)" "slots f (m(k \<mapsto> v)) = (slots f m)(k \<mapsto> slot_of (the (f k)) v)"
  by (auto simp: slots_def fun_eq_iff)

lemma dom_slots [simp]: "dom (slots f m) = dom m"
  by (auto simp: slots_def dom_def)

lemma slots_first_upd [simp]: "k \<notin> dom m \<Longrightarrow> slots (f(k \<mapsto> v)) m = slots f m"
  by (auto simp: slots_def fun_eq_iff domIff)

lemma counters_insert:
  assumes "finite (dom m)" "m k = None"
  shows "counters initial (m(k \<mapsto> v)) = change_total (ms_size v) (change_field (initial k) 1 (counters initial m))"
proof -
  have cards: "card {j \<in> dom (m(k \<mapsto> v)). Q j} = card {j \<in> dom m. Q j} + (if Q k then 1 else 0)" for Q
  proof -
    have "{j \<in> dom (m(k \<mapsto> v)). Q j} = (if Q k then insert k {j \<in> dom m. Q j} else {j \<in> dom m. Q j})" by auto
    moreover have "k \<notin> {j \<in> dom m. Q j}" using assms(2) by auto
    moreover have "finite {j \<in> dom m. Q j}" using assms(1) by simp
    ultimately show ?thesis by (simp del: dom_fun_upd mem_Collect_eq)
  qed
  have "(\<Sum>j \<in> dom (m(k \<mapsto> v)). ms_size (the ((m(k \<mapsto> v)) j))) = ms_size v + (\<Sum>j \<in> dom m. ms_size (the (m j)))"
  proof -
    have "(\<Sum>j \<in> dom m. ms_size (the ((m(k \<mapsto> v)) j))) = (\<Sum>j \<in> dom m. ms_size (the (m j)))"
      by (rule sum.cong) (use assms(2) in auto)
    moreover have "k \<notin> dom m" using assms(2) by auto
    ultimately show ?thesis using assms(1) by simp
  qed
  then show ?thesis unfolding counters_def cards by (simp add: change_total_def change_field_def)
qed

lemma counters_remove:
  assumes "finite (dom m)" "m k = Some v"
  shows "counters initial (m(k := None)) = change_total (- ms_size v) (change_field (initial k) (- 1) (counters initial m))"
proof -
  have "counters initial m = change_total (ms_size v) (change_field (initial k) 1 (counters initial (m(k := None))))"
    using counters_insert [of "m(k := None)" k initial v] assms by (simp add: fun_upd_idem)
  then show ?thesis by (simp add: change_total_def change_field_def)
qed

lemma counters_update:
  assumes "finite (dom m)" "m k = Some old"
  shows "counters initial (m(k \<mapsto> v)) = change_total (ms_size v) (change_total (- ms_size old) (counters initial m))"
proof -
  have "counters initial (m(k \<mapsto> v)) = change_total (ms_size v) (change_field (initial k) 1 (counters initial (m(k := None))))"
    using counters_insert [of "m(k := None)" k initial v] assms by simp
  then show ?thesis using counters_remove [OF assms] by (simp add: change_total_def change_field_def)
qed

section \<open>Undoing\<close>

text \<open>The recorded updates undo: from the slots and counters of \<open>m\<close> they lead back to those of \<open>m'\<close>.\<close>

definition undoes ::
  "(storage_key \<Rightarrow> bool) \<Rightarrow> (storage_key \<rightharpoonup> h256) \<Rightarrow> 'n::len word update_item list \<Rightarrow> (storage_key \<rightharpoonup> h256) \<Rightarrow> (storage_key \<rightharpoonup> h256) \<Rightarrow> bool" where
  "undoes initial first us m m' \<longleftrightarrow> (\<forall>d :: 'n word storage_writes_deduplicator.
     dd_modified_key_values d = slots first m \<longrightarrow> dd_metrics d = counters initial (slots first m) \<longrightarrow>
     dedup_rollback us d = Inr (d\<lparr>dd_modified_key_values := slots first m', dd_metrics := counters initial (slots first m')\<rparr>))"

lemma undoes_Nil: "undoes initial first [] m m"
  by (simp add: undoes_def dedup_rollback_def)

lemma rollback_items_append: "rollback_items (us @ vs) d = and_then (rollback_items us d) (rollback_items vs)"
proof (induction us arbitrary: d)
  case (Cons u us)
  then show ?case by (cases "rollback_item u d") simp_all
qed simp

lemma undoes_append:
  assumes "undoes initial first us m1 m0" "undoes initial first vs m2 m1"
  shows "undoes initial first (us @ vs) m2 m0"
  using assms by (auto simp: undoes_def dedup_rollback_def rollback_items_append)

lemma slots_cong: "\<forall>k \<in> dom m. first' k = first k \<Longrightarrow> slots first' m = slots first m"
proof
  fix k
  assume "\<forall>k \<in> dom m. first' k = first k"
  then show "slots first' m k = slots first m k" by (cases "m k") (simp_all add: slots_def domI)
qed

lemma undoes_first:
  assumes "undoes initial first us m m'" "\<forall>k \<in> dom m \<union> dom m'. first' k = first k"
  shows "undoes initial first' us m m'"
proof -
  have "\<forall>k \<in> dom m. first' k = first k" "\<forall>k \<in> dom m'. first' k = first k" using assms(2) by auto
  note eq = this [THEN slots_cong]
  show ?thesis using assms(1) unfolding undoes_def eq .
qed

text \<open>The states agree on everything but the snapshots.\<close>

definition holds :: "(storage_key \<Rightarrow> bool) \<Rightarrow> 'n::len word storage_writes_deduplicator \<Rightarrow> net_state \<Rightarrow> bool" where
  "holds initial d s \<longleftrightarrow> dd_initial_values d = nt_first s \<and> dd_modified_key_values d = slots (nt_first s) (nt_changed s) \<and>
     dd_metrics d = counters initial (slots (nt_first s) (nt_changed s)) \<and> finite (dom (nt_changed s)) \<and> dom (nt_changed s) \<subseteq> dom (nt_first s)"

text \<open>One write sets one slot, keeps the counters those of the slots, and its update restores the slot.\<close>

definition new_slot :: "h256 \<Rightarrow> h256 \<Rightarrow> 'n::len word modified_slot option" where
  "new_slot w v = (if v = w then None else Some (slot_of w v))"

lemma process_log_slot:
  fixes d :: "'n::len word storage_writes_deduplicator"
  assumes "finite (dom (dd_modified_key_values d))" "dd_metrics d = counters initial (dd_modified_key_values d)"
    and "kind (slp_log log) = InitialWrite \<longleftrightarrow> initial (log_key (slp_log log))" "process_log log d = (d', us)"
    and "k = log_key (slp_log log)" "w = (case dd_initial_values d k of Some w \<Rightarrow> w | None \<Rightarrow> slp_previous_value log)"
  defines "M \<equiv> dd_modified_key_values d" and "M' \<equiv> (dd_modified_key_values d)(k := new_slot w (log_value (slp_log log)))"
  shows "d' = d\<lparr>dd_initial_values := (dd_initial_values d)(k \<mapsto> w), dd_modified_key_values := M', dd_metrics := counters initial M'\<rparr>"
    and "dd_modified_key_values e = M' \<Longrightarrow> dd_metrics e = counters initial M' \<Longrightarrow>
      dedup_rollback us e = Inr (e\<lparr>dd_modified_key_values := M, dd_metrics := counters initial M\<rparr>)"
proof -
  let ?v = "log_value (slp_log log)"
  note count = counters_insert [OF assms(1)] counters_remove [OF assms(1)] counters_update [OF assms(1)]
  have fin': "finite (dom M')" using assms(1) by (simp add: M'_def new_slot_def)
  have d': "d' = d\<lparr>dd_initial_values := (dd_initial_values d)(k \<mapsto> w), dd_modified_key_values := M', dd_metrics := counters initial M'\<rparr> \<and>
    us = (case M k of None \<Rightarrow> if ?v = w then [] else [\<lparr>ui_key = k, ui_update_type = InsertSlot, ui_is_write_initial = initial k\<rparr>]
      | Some old \<Rightarrow> if ?v = w then [\<lparr>ui_key = k, ui_update_type = RemoveSlot old, ui_is_write_initial = initial k\<rparr>]
          else [\<lparr>ui_key = k, ui_update_type = UpdateSlot old, ui_is_write_initial = initial k\<rparr>])"
    using assms(2-4) count
    by (cases "M k"; cases "?v = w") (auto simp: process_log_def Let_def assms(5,6) M_def M'_def new_slot_def fun_upd_idem)
  then show "d' = d\<lparr>dd_initial_values := (dd_initial_values d)(k \<mapsto> w), dd_modified_key_values := M', dd_metrics := counters initial M'\<rparr>" by blast
  assume e: "dd_modified_key_values e = M'" "dd_metrics e = counters initial M'"
  show "dedup_rollback us e = Inr (e\<lparr>dd_modified_key_values := M, dd_metrics := counters initial M\<rparr>)"
  proof (cases "M' k")
    case None
    then have "M'(k := Some x) = M" "M k = Some x \<Longrightarrow> ?v = w" if "M k = Some x" for x
      using that by (auto simp: M'_def M_def new_slot_def split: if_splits)
    moreover have "M' = M" "?v = w" if "M k = None" using that None by (auto simp: M'_def M_def new_slot_def fun_upd_idem split: if_splits)
    ultimately show ?thesis
      using d' e counters_insert [OF fin', OF None, of initial]
      by (cases "M k") (auto simp: dedup_rollback_def rollback_item_def)
  next
    case (Some y)
    have "M'(k := M k) = M" by (simp add: M'_def M_def)
    moreover have "?v \<noteq> w" using Some by (auto simp: M'_def new_slot_def)
    ultimately show ?thesis
      using d' e Some counters_remove [OF fin', OF Some, of initial] counters_update [OF fin', OF Some, of initial]
      by (cases "M k") (auto simp: dedup_rollback_def rollback_item_def change_total_def ac_simps)
  qed
qed

lemma process_log_holds:
  fixes d :: "'n::len word storage_writes_deduplicator"
  assumes "holds initial d s" "kind (slp_log log) = InitialWrite \<longleftrightarrow> initial (log_key (slp_log log))" "process_log log d = (d', us)"
  shows "holds initial d' (net_write log s)" "dd_snapshots d' = dd_snapshots d"
    and "undoes initial (nt_first (net_write log s)) us (nt_changed (net_write log s)) (nt_changed s)"
proof -
  define k v where "k = log_key (slp_log log)" and "v = log_value (slp_log log)"
  define w where "w = (case dd_initial_values d k of Some w \<Rightarrow> w | None \<Rightarrow> slp_previous_value log)"
  have d: "dd_initial_values d = nt_first s" "dd_modified_key_values d = slots (nt_first s) (nt_changed s)"
    "dd_metrics d = counters initial (dd_modified_key_values d)" "finite (dom (nt_changed s))" "dom (nt_changed s) \<subseteq> dom (nt_first s)"
    using assms(1) by (simp_all add: holds_def)
  have fin: "finite (dom (dd_modified_key_values d))" by (simp add: d(2,4))
  have s': "net_write log s = s\<lparr>nt_first := (nt_first s)(k \<mapsto> w), nt_changed := (nt_changed s)(k := if v = w then None else Some v)\<rparr>"
    by (simp add: net_write_def k_def v_def w_def d(1) Let_def)
  have "\<forall>j \<in> dom (nt_changed s). ((nt_first s)(k \<mapsto> w)) j = nt_first s j" using d(5) by (auto simp: w_def d(1))
  note same = slots_cong [OF this]
  have slots': "(dd_modified_key_values d)(k := new_slot w v) = slots ((nt_first s)(k \<mapsto> w)) ((nt_changed s)(k := if v = w then None else Some v))"
    by (simp add: d(2) new_slot_def same)
  note slot = process_log_slot [OF fin d(3) assms(2,3) k_def w_def, folded v_def, unfolded slots']
  show "holds initial d' (net_write log s)" using d slot(1) by (auto simp: holds_def s')
  show "dd_snapshots d' = dd_snapshots d" using slot(1) by simp
  show "undoes initial (nt_first (net_write log s)) us (nt_changed (net_write log s)) (nt_changed s)"
    using slot(2) by (simp add: undoes_def s' d(2) same)
qed

text \<open>The logs agree with \<open>initial\<close> on which slots are written for the first time.\<close>

definition kinds_agree :: "(storage_key \<Rightarrow> bool) \<Rightarrow> storage_log_with_previous_value list \<Rightarrow> bool" where
  "kinds_agree initial ls \<longleftrightarrow>
     (\<forall>log \<in> set ls. is_write (slp_log log) \<longrightarrow> (kind (slp_log log) = InitialWrite \<longleftrightarrow> initial (log_key (slp_log log))))"

lemma net_write_first:
  "nt_saved (net_write log s) = nt_saved s" "nt_first s k = Some x \<Longrightarrow> nt_first (net_write log s) k = Some x"
  by (auto simp: net_write_def Let_def)

lemma net_writes_first:
  "nt_saved (net_writes ls s) = nt_saved s" "nt_first s k = Some x \<Longrightarrow> nt_first (net_writes ls s) k = Some x"
  by (induction ls arbitrary: s) (simp_all add: net_write_first)

lemma process_storage_logs_holds:
  assumes "holds initial d s" "kinds_agree initial ls" "process_storage_logs ls d = (d', us)"
  shows "holds initial d' (net_writes ls s) \<and> dd_snapshots d' = dd_snapshots d \<and>
    undoes initial (nt_first (net_writes ls s)) us (nt_changed (net_writes ls s)) (nt_changed s)"
  using assms
proof (induction ls arbitrary: d s us)
  case (Cons log ls)
  show ?case
  proof (cases "is_write (slp_log log)")
    case True
    obtain d1 u us1 where d1: "process_log log d = (d1, u)" "process_storage_logs ls d1 = (d', us1)" "us = u @ us1"
      using Cons.prems(3) True by (auto split: prod.splits)
    have kinds: "kind (slp_log log) = InitialWrite \<longleftrightarrow> initial (log_key (slp_log log))" "kinds_agree initial ls"
      using Cons.prems(2) True by (auto simp: kinds_agree_def)
    let ?s = "net_write log s" and ?t = "net_writes ls (net_write log s)"
    note one = process_log_holds [OF Cons.prems(1) kinds(1) d1(1)]
    have rest: "holds initial d' ?t" "dd_snapshots d' = dd_snapshots d1" "undoes initial (nt_first ?t) us1 (nt_changed ?t) (nt_changed ?s)"
      using Cons.IH [OF one(1) kinds(2) d1(2)] by auto
    have "dom (nt_changed s) \<subseteq> dom (nt_first ?s)" "dom (nt_changed ?s) \<subseteq> dom (nt_first ?s)"
      using Cons.prems(1) one(1) by (auto simp: holds_def net_write_def Let_def)
    then have "undoes initial (nt_first ?t) u (nt_changed ?s) (nt_changed s)"
      by (intro undoes_first [OF one(3)]) (use net_writes_first(2) in fastforce)
    from undoes_append [OF this rest(3)] rest(1,2) one(2) True show ?thesis by (simp add: d1(3))
  next
    case False
    then show ?thesis using Cons by (simp add: kinds_agree_def)
  qed
qed (simp add: undoes_Nil)

lemma net_writes_agree: "\<forall>k \<in> dom (nt_first s). nt_first (net_writes ls s) k = nt_first s k"
  by (auto dest: net_writes_first(2))

section \<open>Snapshots\<close>

text \<open>The updates of the snapshots, the latest first, lead back through the saved changes.\<close>

fun chain ::
  "(storage_key \<Rightarrow> bool) \<Rightarrow> (storage_key \<rightharpoonup> h256) \<Rightarrow> (storage_key \<rightharpoonup> h256) \<Rightarrow> 'n::len word update_item list list \<Rightarrow> (storage_key \<rightharpoonup> h256) list \<Rightarrow> bool" where
  "chain initial first m [] [] = True"
| "chain initial first m (us # uss) (v # vs) =
     (undoes initial first us m v \<and> finite (dom v) \<and> dom v \<subseteq> dom first \<and> chain initial first v uss vs)"
| "chain initial first m _ _ = False"

definition dedup_rel :: "(storage_key \<Rightarrow> bool) \<Rightarrow> 'n::len word storage_writes_deduplicator \<Rightarrow> net_state \<Rightarrow> bool" where
  "dedup_rel initial d s \<longleftrightarrow> holds initial d s \<and> chain initial (nt_first s) (nt_changed s) (rev (dd_snapshots d)) (nt_saved s)"

lemma chain_first:
  assumes "chain initial first m uss vs" "\<forall>k \<in> dom first. first' k = first k" "dom m \<subseteq> dom first"
  shows "chain initial first' m uss vs"
  using assms
proof (induction initial first m uss vs rule: chain.induct)
  case (2 initial first m us uss v vs)
  have "\<forall>k \<in> dom m \<union> dom v. first' k = first k" using 2(2,3,4) unfolding chain.simps by blast
  moreover have "dom first \<subseteq> dom first'" using 2(3) by (metis domIff subsetI)
  moreover have "undoes initial first us m v" "finite (dom v)" "dom v \<subseteq> dom first" "chain initial first v uss vs" using 2(2) by simp_all
  ultimately show ?case using 2(1,3) undoes_first by (simp add: subset_trans [of "dom v" "dom first"])
qed simp_all

lemma chain_butlast: "chain initial first m uss vs \<Longrightarrow> chain initial first m (butlast uss) (butlast vs)"
  by (induction initial first m uss vs rule: chain.induct) (auto elim: chain.elims)

lemma dedup_apply_rel:
  assumes "dedup_rel initial d s" "kinds_agree initial ls"
  shows "dedup_rel initial (dedup_apply ls d) (net_writes ls s)"
proof -
  obtain d' us where d': "process_storage_logs ls d = (d', us)" by force
  have hold: "holds initial d s" and ch: "chain initial (nt_first s) (nt_changed s) (rev (dd_snapshots d)) (nt_saved s)"
    using assms(1) by (simp_all add: dedup_rel_def)
  let ?t = "net_writes ls s"
  have step: "holds initial d' ?t" "dd_snapshots d' = dd_snapshots d" "undoes initial (nt_first ?t) us (nt_changed ?t) (nt_changed s)"
    using process_storage_logs_holds [OF hold assms(2) d'] by auto
  have ch': "chain initial (nt_first ?t) (nt_changed s) (rev (dd_snapshots d)) (nt_saved ?t)"
    unfolding net_writes_first(1) by (rule chain_first [OF ch net_writes_agree]) (use hold in \<open>simp add: holds_def\<close>)
  show ?thesis
  proof (cases "dd_snapshots d" rule: rev_cases)
    case Nil
    then show ?thesis using step ch' by (cases "nt_saved s") (simp_all add: dedup_rel_def dedup_apply_def d' net_writes_first)
  next
    case (snoc xs u)
    then obtain v vs where saved: "nt_saved ?t = v # vs" using ch' by (cases "nt_saved ?t") auto
    then have "undoes initial (nt_first ?t) (u @ us) (nt_changed ?t) v"
      using ch' snoc undoes_append [OF _ step(3)] by simp
    then show ?thesis using step ch' snoc saved by (simp add: dedup_rel_def dedup_apply_def d' holds_def)
  qed
qed

lemma dedup_try_rel:
  assumes "dedup_rel initial d s" "kinds_agree initial ls"
  shows "\<exists>d'. apply_and_rollback ls d = Inr (counters initial (slots (nt_first (net_writes ls s)) (nt_changed (net_writes ls s))), d') \<and>
    dedup_rel initial d' (s\<lparr>nt_first := nt_first (net_writes ls s)\<rparr>)"
proof -
  obtain d1 us where d1: "process_storage_logs ls d = (d1, us)" by force
  have hold: "holds initial d s" and ch: "chain initial (nt_first s) (nt_changed s) (rev (dd_snapshots d)) (nt_saved s)"
    using assms(1) by (simp_all add: dedup_rel_def)
  let ?t = "net_writes ls s"
  have step: "holds initial d1 ?t" "dd_snapshots d1 = dd_snapshots d" "undoes initial (nt_first ?t) us (nt_changed ?t) (nt_changed s)"
    using process_storage_logs_holds [OF hold assms(2) d1] by auto
  have "dom (nt_first s) \<subseteq> dom (nt_first ?t)" using net_writes_first(2) by blast
  moreover have "chain initial (nt_first ?t) (nt_changed s) (rev (dd_snapshots d)) (nt_saved s)"
    by (rule chain_first [OF ch net_writes_agree]) (use hold in \<open>simp add: holds_def\<close>)
  ultimately show ?thesis
    using step hold by (simp add: apply_and_rollback_def d1 undoes_def holds_def dedup_rel_def subset_trans [of _ "dom (nt_first s)"])
qed

lemma dedup_rollback_rel:
  assumes "dedup_rel initial d s"
  shows "case net_step DedupRollback s of None \<Rightarrow> \<exists>e. dedup_step DedupRollback d = Inl e
    | Some s' \<Rightarrow> \<exists>d'. dedup_step DedupRollback d = Inr d' \<and> dedup_rel initial d' s'"
proof (cases "dd_snapshots d" rule: rev_cases)
  case Nil
  then show ?thesis
    using assms by (cases "nt_saved s") (simp_all add: dedup_rel_def rollback_to_latest_snapshot_popping_def)
next
  case (snoc xs u)
  then obtain v vs where saved: "nt_saved s = v # vs" using assms by (cases "nt_saved s") (auto simp: dedup_rel_def)
  then show ?thesis
    using assms snoc by (auto simp: dedup_rel_def rollback_to_latest_snapshot_popping_def undoes_def holds_def)
qed

lemma dedup_step_rel:
  assumes "dedup_rel initial d s" "kinds_agree initial (op_logs op)"
  shows "case net_step op s of None \<Rightarrow> \<exists>e. dedup_step op d = Inl e | Some s' \<Rightarrow> \<exists>d'. dedup_step op d = Inr d' \<and> dedup_rel initial d' s'"
proof (cases op)
  case (DedupApply ls)
  then show ?thesis using dedup_apply_rel [OF assms(1)] assms(2) by simp
next
  case (DedupTry ls)
  then show ?thesis using dedup_try_rel [OF assms(1)] assms(2) by fastforce
next
  case DedupSnapshot
  then show ?thesis using assms(1) by (simp add: dedup_rel_def dedup_make_snapshot_def holds_def undoes_Nil)
next
  case DedupRollback
  show ?thesis unfolding DedupRollback by (rule dedup_rollback_rel [OF assms(1)])
next
  case DedupPopFront
  then show ?thesis
    using assms(1) chain_butlast [of initial "nt_first s" "nt_changed s" "rev (dd_snapshots d)" "nt_saved s"]
    by (simp add: dedup_rel_def pop_front_snapshot_no_rollback_def holds_def butlast_rev drop_Suc)
qed

text \<open>
  C22. The deduplicator keeps exactly the net changes. After any sequence of applied logs, tried logs, snapshots, rollbacks and
  dropped snapshots, in which a slot is always logged with the same kind of write, it aborts exactly on a rollback without a
  snapshot; otherwise it holds the slots whose last standing write differs from the value they had first, with that value and
  the size of its compression, and its counters are the number of such slots of either kind and the sum of their sizes,
  although they are only ever incremented and decremented.
\<close>

theorem deduplicator_refines:
  assumes "kinds_agree initial (concat (map op_logs ops))"
  shows "case net_run ops \<lparr>nt_first = Map.empty, nt_changed = Map.empty, nt_saved = []\<rparr> of
      None \<Rightarrow> \<exists>e. dedup_run ops (deduplicator_new :: 'n::len word storage_writes_deduplicator) = Inl e
    | Some s \<Rightarrow> \<exists>d :: 'n word storage_writes_deduplicator. dedup_run ops deduplicator_new = Inr d \<and>
        dd_modified_key_values d = slots (nt_first s) (nt_changed s) \<and>
        dd_metrics d = counters initial (slots (nt_first s) (nt_changed s))"
proof -
  have run: "case net_run ops s of None \<Rightarrow> \<exists>e. dedup_run ops d = Inl e | Some s' \<Rightarrow> \<exists>d'. dedup_run ops d = Inr d' \<and> dedup_rel initial d' s'"
    if "dedup_rel initial d s" for s and d :: "'n word storage_writes_deduplicator"
    using that assms
  proof (induction ops arbitrary: d s)
    case (Cons op ops)
    have "kinds_agree initial (op_logs op)" "kinds_agree initial (concat (map op_logs ops))"
      using Cons.prems(2) by (auto simp: kinds_agree_def)
    note kinds = this
    show ?case
    proof (cases "net_step op s")
      case None
      then show ?thesis using dedup_step_rel [OF Cons.prems(1) kinds(1)] by auto
    next
      case (Some s1)
      then obtain d1 where d1: "dedup_step op d = Inr d1" "dedup_rel initial d1 s1" using dedup_step_rel [OF Cons.prems(1) kinds(1)] by auto
      from Cons.IH [OF d1(2) kinds(2)] d1(1) Some show ?thesis by (cases "net_run ops s1") auto
    qed
  qed simp
  have "dedup_rel initial (deduplicator_new :: 'n word storage_writes_deduplicator) \<lparr>nt_first = Map.empty, nt_changed = Map.empty, nt_saved = []\<rparr>"
    by (simp add: dedup_rel_def holds_def deduplicator_new_def slots_def counters_def)
  from run [OF this] show ?thesis by (auto simp: dedup_rel_def holds_def split: option.splits)
qed

section \<open>Deduplicating logs in isolation\<close>

abbreviation writes_to :: "storage_key \<Rightarrow> storage_log_with_previous_value list \<Rightarrow> storage_log_with_previous_value list" where
  "writes_to k ls \<equiv> filter (\<lambda>log. is_write (slp_log log) \<and> log_key (slp_log log) = k) ls"

lemma net_writes_to:
  "nt_first (net_writes ls s) k = (case nt_first s k of Some w \<Rightarrow> Some w
     | None \<Rightarrow> if writes_to k ls = [] then None else Some (slp_previous_value (hd (writes_to k ls)))) \<and>
   nt_changed (net_writes ls s) k = (if writes_to k ls = [] then nt_changed s k
     else let v = log_value (slp_log (last (writes_to k ls))) in if Some v = nt_first (net_writes ls s) k then None else Some v)"
proof (induction ls arbitrary: s)
  case (Cons log ls)
  show ?case
  proof (cases "is_write (slp_log log) \<and> log_key (slp_log log) = k")
    case True
    then show ?thesis using Cons.IH [of "net_write log s"] by (auto simp: net_write_def Let_def split: option.splits)
  next
    case False
    then show ?thesis
      using Cons.IH [of "net_write log s"] Cons.IH [of s] by (auto simp: net_write_def Let_def split: option.splits)
  qed
qed (simp split: option.split)

text \<open>
  The logs that \<open>deduplicate_logs\<close> returns: one write for each slot whose last written value differs from the previous value of
  its first write, whatever the order of the hash map.
\<close>

theorem deduplicate_logs_net:
  fixes order :: "(storage_key \<rightharpoonup> 'n::len word modified_slot) \<Rightarrow> storage_key list"
  assumes "\<And>m. finite (dom m) \<Longrightarrow> distinct (order m) \<and> set (order m) = dom m" "kinds_agree initial ls"
  shows "distinct (map log_key (deduplicate_logs order ls)) \<and>
    set (deduplicate_logs order ls) = {new_write_log k v | k v. writes_to k ls \<noteq> [] \<and>
      v = log_value (slp_log (last (writes_to k ls))) \<and> v \<noteq> slp_previous_value (hd (writes_to k ls))}"
proof -
  let ?empty = "\<lparr>nt_first = Map.empty, nt_changed = Map.empty, nt_saved = []\<rparr>" and ?fresh = "deduplicator_new :: 'n word storage_writes_deduplicator"
  let ?s = "net_writes ls ?empty" and ?d = "dedup_apply ls ?fresh"
  have "dedup_rel initial ?fresh ?empty" by (simp add: dedup_rel_def holds_def deduplicator_new_def slots_def counters_def)
  from dedup_apply_rel [OF this assms(2)]
  have mod: "dd_modified_key_values ?d = slots (nt_first ?s) (nt_changed ?s)" "finite (dom (nt_changed ?s))"
    by (simp_all add: dedup_rel_def holds_def)
  let ?m = "dd_modified_key_values ?d"
  have order: "distinct (order ?m)" "set (order ?m) = dom (nt_changed ?s)" using assms(1) [of ?m] mod by simp_all
  have held: "ms_value (the (?m k)) = the (nt_changed ?s k)" if "k \<in> dom (nt_changed ?s)" for k
    using that by (auto simp: mod(1) slots_def slot_of_def)
  have changed: "nt_changed ?s k = Some v \<longleftrightarrow> writes_to k ls \<noteq> [] \<and> v = log_value (slp_log (last (writes_to k ls))) \<and>
      v \<noteq> slp_previous_value (hd (writes_to k ls))" for k v
    using net_writes_to [of ls ?empty k] by (auto simp: Let_def split: if_splits)
  have "deduplicate_logs order ls = map (\<lambda>k. new_write_log k (the (nt_changed ?s k))) (order ?m)"
    using held order(2) by (simp add: deduplicate_logs_def Let_def)
  moreover have "(\<lambda>k. new_write_log k (the (nt_changed ?s k))) ` dom (nt_changed ?s) = {new_write_log k v | k v. nt_changed ?s k = Some v}"
    by force
  ultimately show ?thesis using order by (simp add: changed comp_def new_write_log_def)
qed

section \<open>An example\<close>

definition dedup_key :: "u256 \<Rightarrow> storage_key" where "dedup_key n = \<lparr>account = 1, slot = n\<rparr>"

definition dedup_log :: "u256 \<Rightarrow> h256 \<Rightarrow> h256 \<Rightarrow> storage_log_with_previous_value" where
  "dedup_log n old new = \<lparr>slp_log = \<lparr>kind = InitialWrite, log_key = dedup_key n, log_value = new\<rparr>, slp_previous_value = old\<rparr>"

definition dedup_ops :: "dedup_op list" where
  "dedup_ops = [DedupApply [dedup_log 1 0 5, dedup_log 2 3 4], DedupSnapshot, DedupApply [dedup_log 1 5 0, dedup_log 3 0 9], DedupRollback,
     DedupApply [dedup_log 2 4 3]]"

theorem deduplicator_refines_witness:
  "\<exists>d :: 32 word storage_writes_deduplicator. dedup_run dedup_ops deduplicator_new = Inr d \<and>
    dd_modified_key_values d = [dedup_key 1 \<mapsto> slot_of 0 5] \<and> initial_storage_writes (dd_metrics d) = 1"
proof -
  have kinds: "kinds_agree (\<lambda>_. True) (concat (map op_logs dedup_ops))" by (simp add: kinds_agree_def dedup_ops_def dedup_log_def)
  obtain s where s: "net_run dedup_ops \<lparr>nt_first = Map.empty, nt_changed = Map.empty, nt_saved = []\<rparr> = Some s"
    "nt_changed s = [dedup_key 1 \<mapsto> 5]" "nt_first s (dedup_key 1) = Some 0"
    by (simp add: dedup_ops_def dedup_log_def dedup_key_def net_write_def is_write_def Let_def fun_upd_twist)
  have "counters (\<lambda>_. True) [dedup_key 1 \<mapsto> x] = \<lparr>initial_storage_writes = 1, repeated_storage_writes = 0, total_updated_values_size = ms_size x\<rparr>"
    for x :: "32 word modified_slot" by (simp add: counters_def)
  moreover have "slots (nt_first s) (nt_changed s) = [dedup_key 1 \<mapsto> slot_of 0 5]" using s(2,3) by (auto simp: slots_def fun_eq_iff)
  ultimately show ?thesis using deduplicator_refines [OF kinds, where 'n = 32] s(1) by auto
qed

end
