(* ===== verification/L1_Transactions.thy ===== *)
theory L1_Transactions
  imports Transactions
begin

text \<open>
  Transactions that come from L1: \<open>L2CanonicalTransaction\<close>, \<open>NewPriorityRequest\<close> and \<open>Transaction\<close> of
  \<open>src/crates/types/src/abi.rs\<close>, the conversions of \<open>src/crates/types/src/l1/mod.rs\<close> and \<open>lib.rs\<close>. The lemmas show that a
  priority transaction survives the way through the L1 event, and that the hash the VM computes for it is the hash that L1
  committed to.

  \<open>ethabi\<close> is the record \<open>abi\<close>. The clock (\<open>unix_timestamp_ms\<close>) and the parsing of raw L2 transactions
  (\<open>from_bytes_unverified\<close> and \<open>from_request_unverified\<close>) are arguments.
\<close>

section \<open>Canonical transactions\<close>

record l2_canonical_transaction =
  ct_tx_type :: u256
  ct_from :: u256
  ct_to :: u256
  ct_gas_limit :: u256
  ct_gas_per_pubdata_byte_limit :: u256
  ct_max_fee_per_gas :: u256
  ct_max_priority_fee_per_gas :: u256
  ct_paymaster :: u256
  ct_nonce :: u256
  ct_value :: u256
  ct_reserved :: "u256 list"
  ct_data :: "u8 list"
  ct_signature :: "u8 list"
  ct_factory_deps :: "u256 list"
  ct_paymaster_input :: "u8 list"
  ct_reserved_dynamic :: "u8 list"

definition canonical_schema :: param_type where
  "canonical_schema = ParamTuple (replicate 10 (ParamUint 256) @
     [ParamFixedArray (ParamUint 256) 4, ParamBytes, ParamBytes, ParamArray (ParamUint 256), ParamBytes, ParamBytes])"

abbreviation uint_at :: "abi_token list \<Rightarrow> nat \<Rightarrow> string \<Rightarrow> u256 res" where
  "uint_at ts i what \<equiv> ok_or (Failure what) (into_uint (ts ! i))"

abbreviation bytes_at :: "abi_token list \<Rightarrow> nat \<Rightarrow> string \<Rightarrow> u8 list res" where
  "bytes_at ts i what \<equiv> ok_or (Failure what) (into_bytes (ts ! i))"

definition uints :: "string \<Rightarrow> abi_token list \<Rightarrow> u256 list res" where
  "uints what ts = collect_res (map (\<lambda>t. ok_or (Failure what) (into_uint t)) ts)"

definition canonical_decode :: "abi_token \<Rightarrow> l2_canonical_transaction res" where
  "canonical_decode token =
     and_then (ok_or (Failure ''not a tuple'') (into_tuple token)) (\<lambda>ts.
     ensure (length ts = 16) (Failure ''Condition failed'')
     (and_then (uint_at ts 0 ''tx_type'') (\<lambda>tx_type.
      and_then (uint_at ts 1 ''from'') (\<lambda>sender.
      and_then (uint_at ts 2 ''to'') (\<lambda>recipient.
      and_then (uint_at ts 3 ''gas_limit'') (\<lambda>gas_limit.
      and_then (uint_at ts 4 ''gas_per_pubdata_byte_limit'') (\<lambda>gas_per_pubdata.
      and_then (uint_at ts 5 ''max_fee_per_gas'') (\<lambda>max_fee.
      and_then (uint_at ts 6 ''max_priority_fee_per_gas'') (\<lambda>max_priority_fee.
      and_then (uint_at ts 7 ''paymaster'') (\<lambda>paymaster.
      and_then (uint_at ts 8 ''nonce'') (\<lambda>nonce.
      and_then (uint_at ts 9 ''value'') (\<lambda>val.
      and_then (ok_or (Failure ''reserved'') (into_fixed_array (ts ! 10))) (\<lambda>rs.
      and_then (uints ''reserved'' rs) (\<lambda>reserved.
      ensure (length reserved = 4) (Failure ''reserved'')
      (and_then (bytes_at ts 11 ''data'') (\<lambda>data.
       and_then (bytes_at ts 12 ''signature'') (\<lambda>signature.
       and_then (ok_or (Failure ''factory_deps'') (into_array (ts ! 13))) (\<lambda>ds.
       and_then (uints ''factory_deps'' ds) (\<lambda>deps.
       and_then (bytes_at ts 14 ''paymaster_input'') (\<lambda>paymaster_input.
       and_then (bytes_at ts 15 ''reserved_dynamic'') (\<lambda>reserved_dynamic.
         Inr \<lparr>ct_tx_type = tx_type, ct_from = sender, ct_to = recipient, ct_gas_limit = gas_limit,
           ct_gas_per_pubdata_byte_limit = gas_per_pubdata, ct_max_fee_per_gas = max_fee,
           ct_max_priority_fee_per_gas = max_priority_fee, ct_paymaster = paymaster, ct_nonce = nonce, ct_value = val,
           ct_reserved = reserved, ct_data = data, ct_signature = signature, ct_factory_deps = deps,
           ct_paymaster_input = paymaster_input, ct_reserved_dynamic = reserved_dynamic\<rparr>)))))))))))))))))))))"

definition canonical_encode :: "l2_canonical_transaction \<Rightarrow> abi_token" where
  "canonical_encode c = TokenTuple
     [TokenUint (ct_tx_type c), TokenUint (ct_from c), TokenUint (ct_to c), TokenUint (ct_gas_limit c),
      TokenUint (ct_gas_per_pubdata_byte_limit c), TokenUint (ct_max_fee_per_gas c), TokenUint (ct_max_priority_fee_per_gas c),
      TokenUint (ct_paymaster c), TokenUint (ct_nonce c), TokenUint (ct_value c), TokenFixedArray (map TokenUint (ct_reserved c)),
      TokenBytes (ct_data c), TokenBytes (ct_signature c), TokenArray (map TokenUint (ct_factory_deps c)),
      TokenBytes (ct_paymaster_input c), TokenBytes (ct_reserved_dynamic c)]"

definition canonical_hash :: "hash_fn \<Rightarrow> abi \<Rightarrow> l2_canonical_transaction \<Rightarrow> h256" where
  "canonical_hash keccak A c = keccak (abi_encode A [canonical_encode c])"

lemma uints_map [simp]: "uints what (map TokenUint vs) = Inr vs"
  by (induction vs) (simp_all add: uints_def)

lemma canonical_roundtrip: "length (ct_reserved c) = 4 \<Longrightarrow> canonical_decode (canonical_encode c) = Inr c"
  by (simp add: canonical_decode_def canonical_encode_def)

section \<open>Priority requests\<close>

text \<open>The hash is 32 bytes, of which \<open>H256\<close> is the number.\<close>

record new_priority_request =
  pr_tx_id :: u256
  pr_tx_hash :: h256
  pr_expiration_timestamp :: u64
  pr_transaction :: l2_canonical_transaction
  pr_factory_deps :: "u8 list list"

definition priority_request_encode :: "new_priority_request \<Rightarrow> abi_token list" where
  "priority_request_encode r =
     [TokenUint (pr_tx_id r), TokenFixedBytes (as_bytes (pr_tx_hash r)), TokenUint (ucast (pr_expiration_timestamp r)),
      canonical_encode (pr_transaction r), TokenArray (map TokenBytes (pr_factory_deps r))]"

definition priority_request_types :: "param_type list" where
  "priority_request_types = [ParamUint 256, ParamFixedBytes 32, ParamUint 64, canonical_schema, ParamArray ParamBytes]"

abbreviation unwrap :: "'a option \<Rightarrow> 'a res" where
  "unwrap \<equiv> ok_or (Panic (PanicMsg ''unwrap on None''))"

definition hash_of_bytes :: "u8 list \<Rightarrow> h256 option" where
  "hash_of_bytes bs = (if length bs = 32 then Some (from_be_bytes bs) else None)"

text \<open>\<open>t.next().unwrap()\<close> is the panic of a missing token.\<close>

definition next_token :: "abi_token list \<Rightarrow> nat \<Rightarrow> abi_token res" where
  "next_token ts i = ensure (i < length ts) (Panic (PanicMsg ''unwrap on None'')) (Inr (ts ! i))"

definition priority_request_decode :: "abi \<Rightarrow> u8 list \<Rightarrow> new_priority_request res" where
  "priority_request_decode A data =
     and_then (ok_or (Failure ''ethabi::Error'') (abi_decode A priority_request_types data)) (\<lambda>ts.
     and_then (next_token ts 0) (\<lambda>t0. and_then (unwrap (into_uint t0)) (\<lambda>tx_id.
     and_then (next_token ts 1) (\<lambda>t1. and_then (unwrap (Option.bind (into_fixed_bytes t1) hash_of_bytes)) (\<lambda>h.
     and_then (next_token ts 2) (\<lambda>t2. and_then (unwrap (into_uint t2)) (\<lambda>e.
     ensure (unat e < 2 ^ 64) (Panic (PanicMsg ''unwrap on Err''))
     (and_then (next_token ts 3) (\<lambda>t3.
      and_then (case canonical_decode t3 of Inl _ \<Rightarrow> Inl (Panic (PanicMsg ''unwrap on Err'')) | Inr c \<Rightarrow> Inr c) (\<lambda>c.
      and_then (next_token ts 4) (\<lambda>t4. and_then (unwrap (into_array t4)) (\<lambda>ds.
      and_then (collect_res (map (\<lambda>t. unwrap (into_bytes t)) ds)) (\<lambda>deps.
        Inr \<lparr>pr_tx_id = tx_id, pr_tx_hash = h, pr_expiration_timestamp = ucast e, pr_transaction = c, pr_factory_deps = deps\<rparr>)))))))))))))"

section \<open>Conversions\<close>

text \<open>An \<open>L1Tx\<close> is its execution, common data and timestamp. \<open>deps\<close> are the hashes of the factory dependencies.\<close>

record l1_tx =
  l1tx_execute :: execute_data
  l1tx_common_data :: l1_tx_common_data
  l1tx_received_timestamp_ms :: u64

definition l1_canonical :: "execute_data \<Rightarrow> l1_tx_common_data \<Rightarrow> address \<Rightarrow> u256 list \<Rightarrow> l2_canonical_transaction" where
  "l1_canonical ex d recipient deps =
     \<lparr>ct_tx_type = ucast PRIORITY_OPERATION_L2_TX_TYPE, ct_from = address_to_u256 (l1_sender d), ct_to = address_to_u256 recipient,
      ct_gas_limit = l1_gas_limit d, ct_gas_per_pubdata_byte_limit = l1_gas_per_pubdata_limit d,
      ct_max_fee_per_gas = l1_max_fee_per_gas d, ct_max_priority_fee_per_gas = 0, ct_paymaster = 0, ct_nonce = ucast (l1_serial_id d),
      ct_value = ex_value ex, ct_reserved = [l1_to_mint d, address_to_u256 (l1_refund_recipient d), 0, 0], ct_data = ex_calldata ex,
      ct_signature = [], ct_factory_deps = deps, ct_paymaster_input = [], ct_reserved_dynamic = []\<rparr>"

definition upgrade_canonical ::
  "execute_data \<Rightarrow> protocol_upgrade_tx_common_data \<Rightarrow> address \<Rightarrow> u256 list \<Rightarrow> l2_canonical_transaction" where
  "upgrade_canonical ex d recipient deps =
     \<lparr>ct_tx_type = ucast PROTOCOL_UPGRADE_TX_TYPE, ct_from = address_to_u256 (pu_sender d), ct_to = address_to_u256 recipient,
      ct_gas_limit = pu_gas_limit d, ct_gas_per_pubdata_byte_limit = pu_gas_per_pubdata_limit d,
      ct_max_fee_per_gas = pu_max_fee_per_gas d, ct_max_priority_fee_per_gas = 0, ct_paymaster = 0,
      ct_nonce = word_of_nat (as_u16 (pu_upgrade_id d)),
      ct_value = ex_value ex, ct_reserved = [pu_to_mint d, address_to_u256 (pu_refund_recipient d), 0, 0], ct_data = ex_calldata ex,
      ct_signature = [], ct_factory_deps = deps, ct_paymaster_input = [], ct_reserved_dynamic = []\<rparr>"

abbreviation deps_hashes :: "hash_fn \<Rightarrow> u8 list list \<Rightarrow> u256 list res" where
  "deps_hashes sha deps \<equiv> collect_res (map (for_bytecode sha) deps)"

definition priority_request_from :: "hash_fn \<Rightarrow> l1_tx \<Rightarrow> new_priority_request res" where
  "priority_request_from sha t =
     (let ex = l1tx_execute t; d = l1tx_common_data t in
      and_then (unwrap (ex_contract_address ex)) (\<lambda>recipient.
      and_then (deps_hashes sha (ex_factory_deps ex)) (\<lambda>deps.
        Inr \<lparr>pr_tx_id = ucast (l1_serial_id d), pr_tx_hash = l1_canonical_tx_hash d, pr_expiration_timestamp = 0,
             pr_transaction = l1_canonical ex d recipient deps, pr_factory_deps = ex_factory_deps ex\<rparr>)))"

definition l1_common_of :: "l2_canonical_transaction \<Rightarrow> h256 \<Rightarrow> u64 \<Rightarrow> u64 \<Rightarrow> l1_tx_common_data" where
  "l1_common_of c h serial_id eth_block =
     \<lparr>l1_sender = u256_to_address (ct_from c), l1_serial_id = serial_id, l1_layer_2_tip_fee = 0, l1_full_fee = 0,
      l1_max_fee_per_gas = ct_max_fee_per_gas c, l1_gas_limit = ct_gas_limit c,
      l1_gas_per_pubdata_limit = ct_gas_per_pubdata_byte_limit c, l1_op_processing_type = OpCommon, l1_priority_queue_type = Deque,
      l1_canonical_tx_hash = h, l1_to_mint = ct_reserved c ! 0, l1_refund_recipient = u256_to_address (ct_reserved c ! 1),
      l1_eth_block = eth_block\<rparr>"

definition execute_of :: "l2_canonical_transaction \<Rightarrow> u8 list list \<Rightarrow> execute_data" where
  "execute_of c deps = \<lparr>ex_contract_address = Some (u256_to_address (ct_to c)), ex_calldata = ct_data c, ex_value = ct_value c,
     ex_factory_deps = deps\<rparr>"

abbreviation check :: "bool \<Rightarrow> 'a res \<Rightarrow> 'a res" where
  "check b r \<equiv> ensure b (Failure ''Condition failed'') r"

definition l1_tx_try_from :: "hash_fn \<Rightarrow> hash_fn \<Rightarrow> abi \<Rightarrow> new_priority_request \<Rightarrow> l1_tx res" where
  "l1_tx_try_from sha keccak A r =
     (let c = pr_transaction r in
      check (ct_tx_type c = ucast PRIORITY_OPERATION_L2_TX_TYPE)
      (check (ct_nonce c = pr_tx_id r)
      (check (ct_max_priority_fee_per_gas c = 0)
      (check (ct_paymaster c = 0)
      (check (canonical_hash keccak A c = pr_tx_hash r)
      (and_then (deps_hashes sha (pr_factory_deps r)) (\<lambda>deps.
       check (ct_factory_deps c = deps)
      (check (list_all (\<lambda>x. x = 0) (drop 2 (ct_reserved c)))
      (check (ct_signature c = [])
      (check (ct_paymaster_input c = [])
      (check (ct_reserved_dynamic c = [])
      (ensure (unat (ct_nonce c) < 2 ^ 64) (Panic (PanicMsg ''unwrap on Err''))
        (Inr \<lparr>l1tx_execute = execute_of c (pr_factory_deps r),
              l1tx_common_data = l1_common_of c (pr_tx_hash r) (ucast (ct_nonce c)) 0, l1tx_received_timestamp_ms = 0\<rparr>)))))))))))))"

text \<open>An event: its data and the number of its L1 block.\<close>

definition l1_tx_from_log :: "hash_fn \<Rightarrow> hash_fn \<Rightarrow> abi \<Rightarrow> u64 \<Rightarrow> u8 list \<Rightarrow> u64 option \<Rightarrow> l1_tx res" where
  "l1_tx_from_log sha keccak A now data block_number =
     and_then (priority_request_decode A data) (\<lambda>r.
     and_then (l1_tx_try_from sha keccak A r) (\<lambda>t.
     and_then (ok_or (Panic (PanicMsg ''Event block number is missing'')) block_number) (\<lambda>n.
       Inr (t\<lparr>l1tx_common_data := (l1tx_common_data t)\<lparr>l1_eth_block := n\<rparr>, l1tx_received_timestamp_ms := now\<rparr>))))"

definition transaction_from_l1_tx :: "l1_tx \<Rightarrow> transaction" where
  "transaction_from_l1_tx t = \<lparr>tx_common_data = L1Common (l1tx_common_data t), tx_execute = l1tx_execute t,
     tx_received_timestamp_ms = l1tx_received_timestamp_ms t, tx_raw_bytes = None\<rparr>"

definition l1_tx_from_transaction :: "transaction \<Rightarrow> l1_tx res" where
  "l1_tx_from_transaction tx = (case tx_common_data tx of
      L1Common d \<Rightarrow> Inr \<lparr>l1tx_execute = tx_execute tx, l1tx_common_data = d, l1tx_received_timestamp_ms = tx_received_timestamp_ms tx\<rparr>
    | L2Common _ \<Rightarrow> Inl (Failure ''Cannot convert L2Tx to L1Tx'')
    | ProtocolUpgradeCommon _ \<Rightarrow> Inl (Failure ''Cannot convert ProtocolUpgradeTx to L1Tx''))"

datatype abi_transaction =
    AbiL1 l2_canonical_transaction "u8 list list" u64
  | AbiL2 "u8 list"

definition abi_transaction_hash :: "hash_fn \<Rightarrow> hash_fn \<Rightarrow> abi \<Rightarrow> (u8 list \<Rightarrow> h256 res) \<Rightarrow> abi_transaction \<Rightarrow> h256 res" where
  "abi_transaction_hash sha keccak A raw_hash t = (case t of
      AbiL1 c deps _ \<Rightarrow> and_then (deps_hashes sha deps) (\<lambda>hs. check (ct_factory_deps c = hs) (Inr (canonical_hash keccak A c)))
    | AbiL2 raw \<Rightarrow> raw_hash raw)"

definition to_abi :: "hash_fn \<Rightarrow> transaction \<Rightarrow> abi_transaction res" where
  "to_abi sha tx =
     (let ex = tx_execute tx; recipient = (case ex_contract_address ex of Some a \<Rightarrow> a | None \<Rightarrow> 0) in
      case tx_common_data tx of
        L2Common d \<Rightarrow> map_res (\<lambda>i. AbiL2 (in_data i)) (ok_or (Failure ''input is required for L2 transactions'') (l2_input d))
      | L1Common d \<Rightarrow> map_res (\<lambda>deps. AbiL1 (l1_canonical ex d recipient deps) (ex_factory_deps ex) (l1_eth_block d))
          (deps_hashes sha (ex_factory_deps ex))
      | ProtocolUpgradeCommon d \<Rightarrow> map_res (\<lambda>deps. AbiL1 (upgrade_canonical ex d recipient deps) (ex_factory_deps ex) (pu_eth_block d))
          (deps_hashes sha (ex_factory_deps ex)))"

abbreviation asserted :: "bool \<Rightarrow> 'a res \<Rightarrow> 'a res" where
  "asserted b r \<equiv> ensure b (Panic (PanicMsg ''assertion failed'')) r"

definition upgrade_common_of :: "l2_canonical_transaction \<Rightarrow> h256 \<Rightarrow> protocol_version \<Rightarrow> u64 \<Rightarrow> protocol_upgrade_tx_common_data" where
  "upgrade_common_of c h v eth_block =
     \<lparr>pu_sender = u256_to_address (ct_from c), pu_upgrade_id = v, pu_max_fee_per_gas = ct_max_fee_per_gas c,
      pu_gas_limit = ct_gas_limit c, pu_gas_per_pubdata_limit = ct_gas_per_pubdata_byte_limit c, pu_eth_block = eth_block,
      pu_canonical_tx_hash = h, pu_to_mint = ct_reserved c ! 0, pu_refund_recipient = u256_to_address (ct_reserved c ! 1)\<rparr>"

definition from_abi ::
  "hash_fn \<Rightarrow> hash_fn \<Rightarrow> abi \<Rightarrow> u64 \<Rightarrow> (u8 list \<Rightarrow> bool \<Rightarrow> transaction res) \<Rightarrow> abi_transaction \<Rightarrow> bool \<Rightarrow> transaction res" where
  "from_abi sha keccak A now l2_from_raw t allow_no_target = (case t of
      AbiL1 c factory_deps eth_block \<Rightarrow>
        and_then (deps_hashes sha factory_deps) (\<lambda>hs.
        check (ct_factory_deps c = hs)
        (check (list_all (\<lambda>x. x = 0) (drop 2 (ct_reserved c)))
        (asserted (ct_max_priority_fee_per_gas c = 0)
        (asserted (ct_paymaster c = 0)
        (asserted (ct_signature c = [])
        (asserted (ct_paymaster_input c = [])
        (asserted (ct_reserved_dynamic c = [])
        (let h = canonical_hash keccak A c in
         and_then (if ct_tx_type c = ucast PRIORITY_OPERATION_L2_TX_TYPE
             then ensure (unat (ct_nonce c) < 2 ^ 64) (Failure ''integer overflow'')
               (Inr (L1Common (l1_common_of c h (ucast (ct_nonce c)) eth_block)))
             else if ct_tx_type c = ucast PROTOCOL_UPGRADE_TX_TYPE
             then map_res (\<lambda>v. ProtocolUpgradeCommon (upgrade_common_of c h v eth_block)) (unwrap (version_try_from_u256 (ct_nonce c)))
             else Inl (Failure ''unknown tx type'')) (\<lambda>common.
           Inr \<lparr>tx_common_data = common, tx_execute = execute_of c factory_deps, tx_received_timestamp_ms = now, tx_raw_bytes = None\<rparr>)))))))))
    | AbiL2 raw \<Rightarrow> l2_from_raw raw allow_no_target)"

section \<open>Addresses as words\<close>

lemma address_to_u256_bytes: "be_bytes 32 (address_to_u256 a) = replicate 12 0 @ address_bytes a"
  by (simp add: address_to_u256_def)

lemma u256_to_address_inverse [simp]: "u256_to_address (address_to_u256 a) = a"
  by (simp add: u256_to_address_def address_to_u256_bytes)

lemma u256_to_address_ucast: "u256_to_address v = ucast v"
proof -
  have "drop 12 (be_bytes 32 v) = rev (le_bytes 20 v)" by (simp add: be_bytes_def drop_rev le_bytes_def take_map)
  moreover have "(from_le_bytes (le_bytes 20 v) :: address) = ucast v"
  proof (rule bit_word_eqI)
    fix i assume "i < LENGTH(160)"
    moreover have "8 * (i div 8) + i mod 8 = i" by simp
    moreover have "i div 8 < 20 \<longleftrightarrow> i < 160" by auto
    ultimately show "bit (from_le_bytes (le_bytes 20 v) :: address) i = bit (ucast v :: address) i"
      by (auto simp: bit_from_le_bytes nth_le_bytes bit_ucast_iff bit_drop_bit_eq dest: bit_imp_le_length)
  qed
  ultimately show ?thesis by (simp add: u256_to_address_def from_be_bytes_def)
qed

lemma address_to_u256_ucast: "address_to_u256 a = ucast a"
proof -
  have "from_le_bytes (replicate n 0) = (0 :: u256)" for n by (induction n) simp_all
  then have zeros: "from_le_bytes (bs @ replicate n 0) = (from_le_bytes bs :: u256)" for bs n by (induction bs) simp_all
  show ?thesis
    using from_be_bytes_be_bytes_wide [of 20 a, where 'a = 256] zeros [of "rev (be_bytes 20 a)" 12]
    by (simp add: address_to_u256_def from_be_bytes_def)
qed

lemma address_to_u256_inverse:
  assumes "unat v < 2 ^ 160"
  shows "address_to_u256 (u256_to_address v) = v"
proof -
  have "unat (ucast (ucast v :: address) :: u256) = unat v"
    using assms by (simp add: unsigned_ucast_eq unsigned_take_bit_eq take_bit_nat_eq_self)
  then show ?thesis unfolding u256_to_address_ucast address_to_u256_ucast by (rule unsigned_word_eqI)
qed

lemma version_from_nonce [simp]: "version_try_from_u256 (word_of_nat (as_u16 v)) = Some v"
proof -
  have "as_u16 v < 2 ^ 16" using as_u16_less [of v] by simp
  then have "unat (word_of_nat (as_u16 v) :: u256) = as_u16 v" by (simp add: unsigned_of_nat take_bit_nat_eq_self)
  then show ?thesis using as_u16_less [of v] by (simp add: version_try_from_u256_def)
qed

section \<open>Round trips\<close>

text \<open>An \<open>L1Tx\<close> in the form the conversions produce.\<close>

definition plain_l1 :: "l1_tx_common_data \<Rightarrow> bool" where
  "plain_l1 d \<longleftrightarrow> l1_layer_2_tip_fee d = 0 \<and> l1_full_fee d = 0 \<and> l1_op_processing_type d = OpCommon \<and> l1_priority_queue_type d = Deque"

lemma l1_common_of_canonical:
  "plain_l1 d \<Longrightarrow> l1_common_of (l1_canonical ex d recipient deps) (l1_canonical_tx_hash d) (l1_serial_id d) (l1_eth_block d) = d"
  by (simp add: l1_common_of_def l1_canonical_def plain_l1_def)

lemma serial_id_fits: "unat (ucast (n :: u64) :: u256) < 2 ^ 64" "ucast (ucast (n :: u64) :: u256) = n"
proof -
  have "unat n < 2 ^ LENGTH(64)" by (rule unsigned_less)
  then show "unat (ucast n :: u256) < 2 ^ 64" by (simp add: unsigned_ucast_eq)
  show "ucast (ucast n :: u256) = n" by (rule bit_word_eqI) (simp add: bit_ucast_iff)
qed

lemma priority_request_roundtrip:
  assumes "abi_decode A priority_request_types (abi_encode A (priority_request_encode r)) = Some (priority_request_encode r)"
    and "length (ct_reserved (pr_transaction r)) = 4"
  shows "priority_request_decode A (abi_encode A (priority_request_encode r)) = Inr r"
proof -
  have "collect_res (map (unwrap \<circ> (into_bytes \<circ> TokenBytes)) deps) = Inr deps" for deps by (induction deps) simp_all
  then show ?thesis
    using assms canonical_roundtrip [OF assms(2)]
    by (simp add: priority_request_decode_def priority_request_encode_def next_token_def hash_of_bytes_def comp_def
        serial_id_fits [simplified])
qed

lemma l1_canonical_simps [simp]:
  "ct_tx_type (l1_canonical ex d a deps) = ucast PRIORITY_OPERATION_L2_TX_TYPE" "ct_nonce (l1_canonical ex d a deps) = ucast (l1_serial_id d)"
  "ct_max_priority_fee_per_gas (l1_canonical ex d a deps) = 0" "ct_paymaster (l1_canonical ex d a deps) = 0"
  "ct_reserved (l1_canonical ex d a deps) = [l1_to_mint d, address_to_u256 (l1_refund_recipient d), 0, 0]"
  "ct_signature (l1_canonical ex d a deps) = []" "ct_factory_deps (l1_canonical ex d a deps) = deps"
  "ct_paymaster_input (l1_canonical ex d a deps) = []" "ct_reserved_dynamic (l1_canonical ex d a deps) = []"
  by (simp_all add: l1_canonical_def)

text \<open>
  A priority transaction survives the way through L1: the event written for it, ABI-encoded and decoded by an \<open>ethabi\<close> that
  decodes what it encoded, gives back the transaction with its block number and time of arrival.
\<close>

theorem priority_tx_roundtrip:
  assumes "priority_request_from sha t = Inr r" "plain_l1 (l1tx_common_data t)"
    and "canonical_hash keccak A (pr_transaction r) = l1_canonical_tx_hash (l1tx_common_data t)"
    and "abi_decode A priority_request_types (abi_encode A (priority_request_encode r)) = Some (priority_request_encode r)"
  shows "l1_tx_from_log sha keccak A (l1tx_received_timestamp_ms t) (abi_encode A (priority_request_encode r))
    (Some (l1_eth_block (l1tx_common_data t))) = Inr t"
proof -
  let ?d = "l1tx_common_data t" and ?ex = "l1tx_execute t"
  obtain recipient deps where to: "ex_contract_address ?ex = Some recipient" and deps: "deps_hashes sha (ex_factory_deps ?ex) = Inr deps"
    and r: "r = \<lparr>pr_tx_id = ucast (l1_serial_id ?d), pr_tx_hash = l1_canonical_tx_hash ?d, pr_expiration_timestamp = 0,
      pr_transaction = l1_canonical ?ex ?d recipient deps, pr_factory_deps = ex_factory_deps ?ex\<rparr>"
    using assms(1) by (auto simp: priority_request_from_def Let_def)
  have decode: "priority_request_decode A (abi_encode A (priority_request_encode r)) = Inr r"
    by (rule priority_request_roundtrip [OF assms(4)]) (simp add: r)
  have "execute_of (l1_canonical ?ex ?d recipient deps) (ex_factory_deps ?ex) = ?ex"
    using to by (simp add: execute_of_def l1_canonical_def)
  moreover have "(l1_common_of (l1_canonical ?ex ?d recipient deps) (l1_canonical_tx_hash ?d) (l1_serial_id ?d) 0)\<lparr>l1_eth_block := l1_eth_block ?d\<rparr> = ?d"
    using l1_common_of_canonical [OF assms(2)] by (simp add: l1_common_of_def)
  moreover have "l1_tx_try_from sha keccak A r = Inr \<lparr>l1tx_execute = execute_of (pr_transaction r) (pr_factory_deps r),
      l1tx_common_data = l1_common_of (pr_transaction r) (pr_tx_hash r) (ucast (ct_nonce (pr_transaction r))) 0, l1tx_received_timestamp_ms = 0\<rparr>"
    using deps assms(3) by (simp add: l1_tx_try_from_def r serial_id_fits [simplified] Let_def)
  ultimately show ?thesis unfolding l1_tx_from_log_def decode and_then_simps by (simp add: r serial_id_fits(2))
qed

section \<open>The hash the VM computes\<close>

lemma l1_tx_try_from_accepts:
  assumes "l1_tx_try_from sha keccak A r = Inr t"
  shows "ct_tx_type (pr_transaction r) = ucast PRIORITY_OPERATION_L2_TX_TYPE" "ct_max_priority_fee_per_gas (pr_transaction r) = 0"
    "ct_paymaster (pr_transaction r) = 0" "canonical_hash keccak A (pr_transaction r) = pr_tx_hash r"
    "deps_hashes sha (pr_factory_deps r) = Inr (ct_factory_deps (pr_transaction r))" "list_all (\<lambda>x. x = 0) (drop 2 (ct_reserved (pr_transaction r)))"
    "ct_signature (pr_transaction r) = []" "ct_paymaster_input (pr_transaction r) = []" "ct_reserved_dynamic (pr_transaction r) = []"
    "unat (ct_nonce (pr_transaction r)) < 2 ^ 64"
    "t = \<lparr>l1tx_execute = execute_of (pr_transaction r) (pr_factory_deps r), l1tx_common_data = l1_common_of (pr_transaction r) (pr_tx_hash r)
       (ucast (ct_nonce (pr_transaction r))) 0, l1tx_received_timestamp_ms = 0\<rparr>"
  using assms by (auto simp: l1_tx_try_from_def Let_def)

lemma encode_token_address: "encode_token (TokenAddress (u256_to_address v)) = encode_token (TokenUint v)" if "unat v < 2 ^ 160"
  using address_to_u256_bytes [of "u256_to_address v"] address_to_u256_inverse [OF that] by simp

text \<open>
  C36. The VM hashes what L1 committed to. For a priority request that the node accepts and whose addresses fit their type, the
  bootloader form of the transaction exists and its canonical hash, over a different ABI tuple with address fields, is the hash
  in the L1 event.
\<close>

theorem vm_hash_is_l1_hash:
  assumes "l1_tx_try_from sha keccak A r = Inr t" "\<forall>ts. abi_encode A ts = abi_spec_encode ts" "length (ct_reserved (pr_transaction r)) = 4"
    and "unat (ct_from (pr_transaction r)) < 2 ^ 160" "unat (ct_to (pr_transaction r)) < 2 ^ 160" "unat (ct_reserved (pr_transaction r) ! 1) < 2 ^ 160"
  shows "\<exists>td. transaction_data_new sha extract_chain_id (transaction_from_l1_tx t) use_evm_emulator = Inr td \<and>
    is_l1_tx_type (td_tx_type td) \<and> canonical_l1_tx_hash keccak A td = pr_tx_hash r"
proof -
  let ?c = "pr_transaction r"
  note acc = l1_tx_try_from_accepts [OF assms(1)]
  obtain m x where reserved: "ct_reserved ?c = [m, x, 0, 0]"
    using assms(3) acc(6) by (auto simp: numeral_eq_Suc length_Suc_conv)
  have "unat (ucast (ucast (ct_nonce ?c) :: u64) :: u256) = unat (ct_nonce ?c)"
    using acc(10) by (simp add: unsigned_ucast_eq unsigned_take_bit_eq take_bit_nat_eq_self)
  then have nonce: "ucast (ucast (ct_nonce ?c) :: u64) = ct_nonce ?c" by (rule unsigned_word_eqI)
  let ?td = "(transaction_data_l1 (transaction_from_l1_tx t) (l1tx_common_data t))\<lparr>td_factory_deps_hashes := ct_factory_deps ?c\<rparr>"
  have td: "transaction_data_new sha extract_chain_id (transaction_from_l1_tx t) use_evm_emulator = Inr ?td"
    using acc(5) by (simp add: transaction_data_new_def transaction_from_l1_tx_def transaction_data_l1_def Let_def acc(11) execute_of_def)
  have "map (\<lambda>t. (is_dynamic t, encode_token t)) [transaction_tokens ?td (ct_factory_deps ?c)] =
      map (\<lambda>t. (is_dynamic t, encode_token t)) [canonical_encode ?c]"
    using encode_token_address [OF assms(4)] encode_token_address [OF assms(5)] address_to_u256_inverse [OF assms(6)] acc(1-3,7-9) reserved nonce
    by (simp add: transaction_tokens_def canonical_encode_def transaction_data_l1_def transaction_from_l1_tx_def Let_def acc(11) execute_of_def
        l1_common_of_def tx_type_defs replicate_add [symmetric])
  then have "td_abi_encode A ?td = abi_encode A [canonical_encode ?c]"
    by (simp add: td_abi_encode_def abi_encode_with_custom_factory_deps_def assms(2) abi_spec_encode_def)
  then show ?thesis using td acc(4) by (simp add: canonical_l1_tx_hash_def canonical_hash_def is_l1_tx_type_def transaction_data_l1_def Let_def tx_type_defs)
qed

text \<open>
  A transaction from L1 survives the ABI form and back; a protocol upgrade keeps its version, which is its nonce. The target
  must be present: without one the ABI form has the zero address.
\<close>

lemma upgrade_canonical_simps [simp]:
  "ct_tx_type (upgrade_canonical ex d a deps) = ucast PROTOCOL_UPGRADE_TX_TYPE"
  "ct_nonce (upgrade_canonical ex d a deps) = word_of_nat (as_u16 (pu_upgrade_id d))"
  "ct_max_priority_fee_per_gas (upgrade_canonical ex d a deps) = 0" "ct_paymaster (upgrade_canonical ex d a deps) = 0"
  "ct_reserved (upgrade_canonical ex d a deps) = [pu_to_mint d, address_to_u256 (pu_refund_recipient d), 0, 0]"
  "ct_signature (upgrade_canonical ex d a deps) = []" "ct_factory_deps (upgrade_canonical ex d a deps) = deps"
  "ct_paymaster_input (upgrade_canonical ex d a deps) = []" "ct_reserved_dynamic (upgrade_canonical ex d a deps) = []"
  by (simp_all add: upgrade_canonical_def)

lemma tx_types_differ: "(ucast PROTOCOL_UPGRADE_TX_TYPE :: u256) \<noteq> ucast PRIORITY_OPERATION_L2_TX_TYPE"
  by (simp add: tx_type_defs)

definition canonical_l1 :: "hash_fn \<Rightarrow> abi \<Rightarrow> transaction \<Rightarrow> l2_canonical_transaction \<Rightarrow> bool" where
  "canonical_l1 keccak A tx c \<longleftrightarrow> (case tx_common_data tx of
      L1Common d \<Rightarrow> plain_l1 d \<and> l1_canonical_tx_hash d = canonical_hash keccak A c
    | ProtocolUpgradeCommon d \<Rightarrow> pu_canonical_tx_hash d = canonical_hash keccak A c
    | L2Common _ \<Rightarrow> False)"

theorem abi_transaction_roundtrip:
  assumes "to_abi sha tx = Inr (AbiL1 c deps eth_block)" "canonical_l1 keccak A tx c" "ex_contract_address (tx_execute tx) = Some recipient"
  shows "from_abi sha keccak A (tx_received_timestamp_ms tx) l2_from_raw (AbiL1 c deps eth_block) allow_no_target = Inr (tx\<lparr>tx_raw_bytes := None\<rparr>)"
proof (cases "tx_common_data tx")
  case (L1Common d)
  obtain hs where hs: "deps_hashes sha (ex_factory_deps (tx_execute tx)) = Inr hs" and c: "c = l1_canonical (tx_execute tx) d recipient hs"
    "deps = ex_factory_deps (tx_execute tx)" "eth_block = l1_eth_block d"
    using assms(1,3) L1Common by (auto simp: to_abi_def Let_def)
  have h: "plain_l1 d" "canonical_hash keccak A c = l1_canonical_tx_hash d" using assms(2) L1Common by (simp_all add: canonical_l1_def)
  have "execute_of c (ex_factory_deps (tx_execute tx)) = tx_execute tx" using assms(3) by (simp add: execute_of_def c(1) l1_canonical_def)
  then show ?thesis
    using hs h(2) L1Common l1_common_of_canonical [OF h(1), of "tx_execute tx" recipient hs]
    by (simp add: from_abi_def c Let_def serial_id_fits [simplified])
next
  case (ProtocolUpgradeCommon d)
  obtain hs where hs: "deps_hashes sha (ex_factory_deps (tx_execute tx)) = Inr hs" and c: "c = upgrade_canonical (tx_execute tx) d recipient hs"
    "deps = ex_factory_deps (tx_execute tx)" "eth_block = pu_eth_block d"
    using assms(1,3) ProtocolUpgradeCommon by (auto simp: to_abi_def Let_def)
  have h: "canonical_hash keccak A c = pu_canonical_tx_hash d" using assms(2) ProtocolUpgradeCommon by (simp add: canonical_l1_def)
  have "execute_of c (ex_factory_deps (tx_execute tx)) = tx_execute tx" "upgrade_common_of c (pu_canonical_tx_hash d) (pu_upgrade_id d) (pu_eth_block d) = d"
    using assms(3) by (simp_all add: execute_of_def upgrade_common_of_def c(1) upgrade_canonical_def)
  then show ?thesis using hs h ProtocolUpgradeCommon by (simp add: from_abi_def c Let_def tx_types_differ)
qed (use assms(2) in \<open>simp add: canonical_l1_def\<close>)

section \<open>An example\<close>

definition sample_l1_tx :: l1_tx where
  "sample_l1_tx = \<lparr>l1tx_execute = \<lparr>ex_contract_address = Some 0x8006, ex_calldata = [1, 2, 3], ex_value = 5, ex_factory_deps = [replicate 32 9]\<rparr>,
     l1tx_common_data = \<lparr>l1_sender = 0x8001, l1_serial_id = 7, l1_layer_2_tip_fee = 0, l1_full_fee = 0, l1_max_fee_per_gas = 3,
       l1_gas_limit = 100000, l1_gas_per_pubdata_limit = 800, l1_op_processing_type = OpCommon, l1_priority_queue_type = Deque,
       l1_canonical_tx_hash = 11, l1_to_mint = 6, l1_refund_recipient = 0x8002, l1_eth_block = 21\<rparr>,
     l1tx_received_timestamp_ms = 22\<rparr>"

text \<open>An ABI that follows the specification on what it encodes and decodes one request.\<close>

definition request_abi :: "new_priority_request \<Rightarrow> abi" where
  "request_abi r = spec_abi\<lparr>abi_decode := \<lambda>_ _. Some (priority_request_encode r)\<rparr>"

lemma sample_request: "\<exists>r. priority_request_from (\<lambda>_. 5) sample_l1_tx = Inr r"
  by (simp add: priority_request_from_def sample_l1_tx_def Let_def for_bytecode_def for_generic_bytecode_def validate_bytecode_def
      MAX_BYTECODE_LENGTH_BYTES_def MAX_BYTECODE_LENGTH_IN_WORDS_def)

theorem priority_tx_roundtrip_witness:
  "\<exists>r. priority_request_from (\<lambda>_. 5) sample_l1_tx = Inr r \<and>
     l1_tx_from_log (\<lambda>_. 5) (\<lambda>_. 11) (request_abi r) 22 (abi_encode (request_abi r) (priority_request_encode r)) (Some 21) = Inr sample_l1_tx"
proof -
  obtain r where r: "priority_request_from (\<lambda>_. 5) sample_l1_tx = Inr r" using sample_request by blast
  have d: "plain_l1 (l1tx_common_data sample_l1_tx)" "l1_canonical_tx_hash (l1tx_common_data sample_l1_tx) = 11"
    "l1_eth_block (l1tx_common_data sample_l1_tx) = 21" "l1tx_received_timestamp_ms sample_l1_tx = 22"
    by (simp_all add: plain_l1_def sample_l1_tx_def)
  have "l1_tx_from_log (\<lambda>_. 5) (\<lambda>_. 11) (request_abi r) (l1tx_received_timestamp_ms sample_l1_tx) (abi_encode (request_abi r) (priority_request_encode r))
      (Some (l1_eth_block (l1tx_common_data sample_l1_tx))) = Inr sample_l1_tx"
    by (rule priority_tx_roundtrip [OF r d(1)]) (simp_all add: canonical_hash_def d(2) request_abi_def)
  then show ?thesis using r unfolding d(3,4) by blast
qed

theorem vm_hash_is_l1_hash_witness:
  "\<exists>r t td. priority_request_from (\<lambda>_. 5) sample_l1_tx = Inr r \<and> l1_tx_try_from (\<lambda>_. 5) (\<lambda>_. 11) spec_abi r = Inr t \<and>
     transaction_data_new (\<lambda>_. 5) (\<lambda>_. None) (transaction_from_l1_tx t) False = Inr td \<and> canonical_l1_tx_hash (\<lambda>_. 11) spec_abi td = pr_tx_hash r"
proof -
  obtain deps where r: "priority_request_from (\<lambda>_. 5) sample_l1_tx = Inr \<lparr>pr_tx_id = 7, pr_tx_hash = 11, pr_expiration_timestamp = 0,
      pr_transaction = l1_canonical (l1tx_execute sample_l1_tx) (l1tx_common_data sample_l1_tx) 0x8006 deps, pr_factory_deps = [replicate 32 9]\<rparr>"
    and deps: "deps_hashes (\<lambda>_. 5) [replicate 32 9] = Inr deps"
    using sample_request by (auto simp: priority_request_from_def sample_l1_tx_def Let_def)
  let ?r = "\<lparr>pr_tx_id = 7, pr_tx_hash = 11, pr_expiration_timestamp = 0,
      pr_transaction = l1_canonical (l1tx_execute sample_l1_tx) (l1tx_common_data sample_l1_tx) 0x8006 deps, pr_factory_deps = [replicate 32 9]\<rparr>"
  obtain t where t: "l1_tx_try_from (\<lambda>_. 5) (\<lambda>_. 11) spec_abi ?r = Inr t"
    using deps by (simp add: l1_tx_try_from_def canonical_hash_def sample_l1_tx_def Let_def)
  have "unat (address_to_u256 a) < 2 ^ 160" for a :: address
    using unsigned_less [of a, where 'a = nat]
    by (simp add: address_to_u256_ucast unsigned_ucast_eq le_less_trans [OF take_bit_nat_less_eq_self])
  then have "\<exists>td. transaction_data_new (\<lambda>_. 5) (\<lambda>_. None) (transaction_from_l1_tx t) False = Inr td \<and> is_l1_tx_type (td_tx_type td) \<and>
      canonical_l1_tx_hash (\<lambda>_. 11) spec_abi td = pr_tx_hash ?r"
    by (intro vm_hash_is_l1_hash [OF t]) (simp_all add: spec_abi_def l1_canonical_def)
  then show ?thesis using r t by blast
qed

end
