(* ===== verification/Protocol_Upgrade.thy ===== *)
theory Protocol_Upgrade
  imports L1_Transactions Commitment_Types
begin

text \<open>
  Protocol upgrades: \<open>VerifierParams\<close>, \<open>ProposedUpgrade\<close>, \<open>ForceDeployment\<close>, \<open>GatewayUpgradeEncodedInput\<close> and
  \<open>ZkChainSpecificUpgradeData\<close> of \<open>src/crates/types/src/abi.rs\<close>, and \<open>src/crates/types/src/protocol_upgrade.rs\<close>. The lemmas
  say which encoded upgrades decode, that decoding never chooses between two readings, and that an accepted upgrade
  transaction is the proposed one whatever the preimage oracle answers.

  A \<open>[u8; 32]\<close> is the number that it spells, like \<open>H256\<close>. The environment has the hash functions, \<open>ethabi\<close>, the clock, the
  parsing of raw L2 transactions, the preimage oracle and the width of \<open>usize\<close>.
\<close>

section \<open>ABI structures\<close>

abbreviation hash_at :: "abi_token list \<Rightarrow> nat \<Rightarrow> string \<Rightarrow> h256 res" where
  "hash_at ts i what \<equiv> ok_or (Failure what) (Option.bind (into_fixed_bytes (ts ! i)) hash_of_bytes)"

abbreviation address_at :: "abi_token list \<Rightarrow> nat \<Rightarrow> string \<Rightarrow> address res" where
  "address_at ts i what \<equiv> ok_or (Failure what) (into_address (ts ! i))"

abbreviation token_hash :: "h256 \<Rightarrow> abi_token" where
  "token_hash h \<equiv> TokenFixedBytes (as_bytes h)"

record abi_verifier_params =
  avp_recursion_node_level_vk_hash :: h256
  avp_recursion_leaf_level_vk_hash :: h256
  avp_recursion_circuits_set_vks_hash :: h256

definition verifier_params_schema :: param_type where
  "verifier_params_schema = ParamTuple [ParamFixedBytes 32, ParamFixedBytes 32, ParamFixedBytes 32]"

definition verifier_params_encode :: "abi_verifier_params \<Rightarrow> abi_token" where
  "verifier_params_encode p = TokenTuple [token_hash (avp_recursion_node_level_vk_hash p),
     token_hash (avp_recursion_leaf_level_vk_hash p), token_hash (avp_recursion_circuits_set_vks_hash p)]"

definition verifier_params_decode :: "abi_token \<Rightarrow> abi_verifier_params res" where
  "verifier_params_decode token =
     and_then (ok_or (Failure ''not a tuple'') (into_tuple token)) (\<lambda>ts.
     check (length ts = 3)
     (and_then (hash_at ts 0 ''recursion_node_level_vk_hash'') (\<lambda>node.
      and_then (hash_at ts 1 ''recursion_leaf_level_vk_hash'') (\<lambda>leaf.
      and_then (hash_at ts 2 ''recursion_circuits_set_vks_hash'') (\<lambda>circuits.
        Inr \<lparr>avp_recursion_node_level_vk_hash = node, avp_recursion_leaf_level_vk_hash = leaf,
             avp_recursion_circuits_set_vks_hash = circuits\<rparr>)))))"

record proposed_upgrade =
  up_l2_protocol_upgrade_tx :: l2_canonical_transaction
  up_factory_deps :: "u8 list list option"
  up_bootloader_hash :: h256
  up_default_account_hash :: h256
  up_evm_emulator_hash :: h256
  up_verifier :: address
  up_verifier_params :: abi_verifier_params
  up_l1_contracts_upgrade_calldata :: "u8 list"
  up_post_upgrade_calldata :: "u8 list"
  up_upgrade_timestamp :: u256
  up_new_protocol_version :: u256

datatype proposed_upgrade_schema = PreGateway | PostGateway | PostEvmEmulator

fun schema_tuple_type :: "proposed_upgrade_schema \<Rightarrow> param_type" where
  "schema_tuple_type PreGateway = ParamTuple [canonical_schema, ParamArray ParamBytes, ParamFixedBytes 32, ParamFixedBytes 32, ParamAddress,
     verifier_params_schema, ParamBytes, ParamBytes, ParamUint 256, ParamUint 256]"
| "schema_tuple_type PostGateway = ParamTuple [canonical_schema, ParamFixedBytes 32, ParamFixedBytes 32, ParamAddress,
     verifier_params_schema, ParamBytes, ParamBytes, ParamUint 256, ParamUint 256]"
| "schema_tuple_type PostEvmEmulator = ParamTuple [canonical_schema, ParamFixedBytes 32, ParamFixedBytes 32, ParamFixedBytes 32, ParamAddress,
     verifier_params_schema, ParamBytes, ParamBytes, ParamUint 256, ParamUint 256]"

fun expected_tuple_len :: "proposed_upgrade_schema \<Rightarrow> nat" where
  "expected_tuple_len PreGateway = 10"
| "expected_tuple_len PostEvmEmulator = 10"
| "expected_tuple_len PostGateway = 9"

fun matches_protocol_version :: "proposed_upgrade_schema \<Rightarrow> protocol_version \<Rightarrow> bool" where
  "matches_protocol_version PreGateway v \<longleftrightarrow> is_pre_gateway v"
| "matches_protocol_version PostGateway v \<longleftrightarrow> is_post_gateway v \<and> is_pre_fflonk v"
| "matches_protocol_version PostEvmEmulator v \<longleftrightarrow> is_post_fflonk v"

abbreviation all_schemas :: "proposed_upgrade_schema list" where
  "all_schemas \<equiv> [PreGateway, PostGateway, PostEvmEmulator]"

fun decode_to_token :: "abi \<Rightarrow> u8 list \<Rightarrow> proposed_upgrade_schema list \<Rightarrow> (proposed_upgrade_schema \<times> abi_token) list res" where
  "decode_to_token A data [] = Inr []"
| "decode_to_token A data (s # ss) = (case abi_decode A [schema_tuple_type s] data of
      Some ts \<Rightarrow> and_then (next_token ts 0) (\<lambda>t. and_then (decode_to_token A data ss) (\<lambda>rest. Inr ((s, t) # rest)))
    | None \<Rightarrow> decode_to_token A data ss)"

definition proposed_upgrade_encode :: "proposed_upgrade \<Rightarrow> abi_token res" where
  "proposed_upgrade_encode u =
     and_then (ok_or (Panic (PanicMsg ''Version is not supported'')) (try_from_packed (up_new_protocol_version u))) (\<lambda>v.
     and_then (if is_pre_gateway (minor v)
         then map_res (\<lambda>deps. [TokenArray (map TokenBytes deps)])
           (ok_or (Panic (PanicMsg ''Factory deps should be present in pre-gateway upgrade data'')) (up_factory_deps u))
         else Inr []) (\<lambda>deps.
       Inr (TokenTuple ([canonical_encode (up_l2_protocol_upgrade_tx u)] @ deps @
         [token_hash (up_bootloader_hash u), token_hash (up_default_account_hash u), token_hash (up_evm_emulator_hash u),
          TokenAddress (up_verifier u), verifier_params_encode (up_verifier_params u), TokenBytes (up_l1_contracts_upgrade_calldata u),
          TokenBytes (up_post_upgrade_calldata u), TokenUint (up_upgrade_timestamp u), TokenUint (up_new_protocol_version u)]))))"

text \<open>The part of \<open>decode_from_token\<close> after the bootloader hash: \<open>ts\<close> are the tokens left.\<close>

definition decode_rest ::
  "proposed_upgrade_schema \<Rightarrow> l2_canonical_transaction \<Rightarrow> u8 list list option \<Rightarrow> h256 \<Rightarrow> abi_token list \<Rightarrow> proposed_upgrade res" where
  "decode_rest s tx deps bootloader ts =
     and_then (hash_at ts 0 ''default_account_hash'') (\<lambda>default_account.
     and_then (if s = PostEvmEmulator then hash_at ts 1 ''evm_emulator_hash'' else Inr 0) (\<lambda>evm_emulator.
     let k = (if s = PostEvmEmulator then 2 else 1) in
     and_then (address_at ts k ''verifier'') (\<lambda>verifier.
     and_then (verifier_params_decode (ts ! (k + 1))) (\<lambda>params.
     and_then (bytes_at ts (k + 2) ''l1_contracts_upgrade_calldata'') (\<lambda>l1_data.
     and_then (bytes_at ts (k + 3) ''post_upgrade_calldata'') (\<lambda>post_data.
     and_then (uint_at ts (k + 4) ''upgrade_timestamp'') (\<lambda>timestamp.
     and_then (uint_at ts (k + 5) ''new_protocol_version'') (\<lambda>version.
     and_then (ok_or (Failure ''Version is not supported'') (try_from_packed version)) (\<lambda>v.
     ensure (matches_protocol_version s (minor v)) (Failure ''Unexpected protocol version'')
       (Inr \<lparr>up_l2_protocol_upgrade_tx = tx, up_factory_deps = deps, up_bootloader_hash = bootloader,
         up_default_account_hash = default_account, up_evm_emulator_hash = evm_emulator, up_verifier = verifier,
         up_verifier_params = params, up_l1_contracts_upgrade_calldata = l1_data, up_post_upgrade_calldata = post_data,
         up_upgrade_timestamp = timestamp, up_new_protocol_version = version\<rparr>))))))))))"

definition decode_from_token :: "proposed_upgrade_schema \<Rightarrow> abi_token \<Rightarrow> proposed_upgrade res" where
  "decode_from_token s token =
     and_then (ok_or (Failure ''not a tuple'') (into_tuple token)) (\<lambda>ts.
     check (length ts = expected_tuple_len s)
     (and_then (canonical_decode (ts ! 0)) (\<lambda>tx.
      if s = PreGateway
      then and_then (ok_or (Failure ''expected factory deps array'') (into_array (ts ! 1))) (\<lambda>ds.
           and_then (collect_res (map (\<lambda>t. ok_or (Failure ''factory_deps'') (into_bytes t)) ds)) (\<lambda>deps.
           and_then (hash_at ts 2 ''bootloader_hash'') (\<lambda>bootloader.
             decode_rest s tx (Some deps) bootloader (drop 3 ts))))
      else and_then (hash_at ts 1 ''bootloader_hash'') (\<lambda>bootloader.
             decode_rest s tx None bootloader (drop 2 ts)))))"

fun decode_loop :: "(proposed_upgrade_schema \<times> abi_token) list \<Rightarrow> proposed_upgrade option \<Rightarrow> proposed_upgrade option res" where
  "decode_loop [] found = Inr found"
| "decode_loop ((s, t) # rest) found = (case decode_from_token s t of
      Inr decoded \<Rightarrow> ensure (found = None) (Failure ''Ambiguous upgrade'') (decode_loop rest (Some decoded))
    | Inl (Panic m) \<Rightarrow> Inl (Panic m)
    | Inl _ \<Rightarrow> decode_loop rest found)"

definition proposed_upgrade_decode :: "abi \<Rightarrow> u8 list \<Rightarrow> proposed_upgrade res" where
  "proposed_upgrade_decode A data =
     and_then (decode_to_token A data all_schemas) (\<lambda>candidates.
     and_then (decode_loop candidates None) (\<lambda>found.
       ok_or (Failure ''upgrade cannot be decoded'') found))"

record force_deployment =
  fd_bytecode_hash :: h256
  fd_new_address :: address
  fd_call_constructor :: bool
  fd_value :: u256
  fd_input :: "u8 list"

definition force_deployment_schema :: param_type where
  "force_deployment_schema = ParamTuple [ParamFixedBytes 32, ParamAddress, ParamBool, ParamUint 256, ParamBytes]"

definition force_deployment_encode :: "force_deployment \<Rightarrow> abi_token" where
  "force_deployment_encode d = TokenTuple [token_hash (fd_bytecode_hash d), TokenAddress (fd_new_address d), TokenBool (fd_call_constructor d),
     TokenUint (fd_value d), TokenBytes (fd_input d)]"

definition force_deployment_decode :: "abi_token \<Rightarrow> force_deployment res" where
  "force_deployment_decode token =
     and_then (ok_or (Failure ''not a tuple'') (into_tuple token)) (\<lambda>ts.
     check (length ts = 5)
     (and_then (hash_at ts 0 ''bytecode_hash'') (\<lambda>h.
      and_then (address_at ts 1 ''new_address'') (\<lambda>a.
      and_then (ok_or (Failure ''call_constructor'') (into_bool (ts ! 2))) (\<lambda>b.
      and_then (uint_at ts 3 ''value'') (\<lambda>v.
      and_then (bytes_at ts 4 ''input'') (\<lambda>i.
        Inr \<lparr>fd_bytecode_hash = h, fd_new_address = a, fd_call_constructor = b, fd_value = v, fd_input = i\<rparr>)))))))"

record gateway_upgrade_encoded_input =
  gu_force_deployments :: "force_deployment list"
  gu_l2_gateway_upgrade_position :: nat
  gu_fixed_force_deployments_data :: "u8 list"
  gu_ctm_deployer :: address
  gu_old_validator_timelock :: address
  gu_new_validator_timelock :: address
  gu_wrapped_base_token_store :: address

definition gateway_input_schema :: param_type where
  "gateway_input_schema = ParamTuple [ParamArray force_deployment_schema, ParamUint 256, ParamBytes, ParamAddress, ParamAddress,
     ParamAddress, ParamAddress]"

text \<open>\<open>U256::as_usize\<close> aborts on a number that does not fit.\<close>

definition as_usize :: "nat \<Rightarrow> u256 \<Rightarrow> nat res" where
  "as_usize usize_bits w = ensure (unat w < 2 ^ usize_bits) (Panic (PanicMsg ''Integer overflow when casting to usize'')) (Inr (unat w))"

definition gateway_input_decode :: "nat \<Rightarrow> abi_token \<Rightarrow> gateway_upgrade_encoded_input res" where
  "gateway_input_decode usize_bits token =
     and_then (ok_or (Failure ''not a tuple'') (into_tuple token)) (\<lambda>ts.
     check (length ts = 7)
     (and_then (ok_or (Failure ''force_deployments_array'') (into_array (ts ! 0))) (\<lambda>ds.
      and_then (collect_res (map force_deployment_decode ds)) (\<lambda>deployments.
      and_then (uint_at ts 1 ''l2_gateway_upgrade_position'') (\<lambda>w.
      and_then (as_usize usize_bits w) (\<lambda>position.
      and_then (bytes_at ts 2 ''fixed_force_deployments_data'') (\<lambda>fixed.
      and_then (address_at ts 3 ''ctm_deployer'') (\<lambda>ctm.
      and_then (address_at ts 4 ''old_validator_timelock'') (\<lambda>old.
      and_then (address_at ts 5 ''new_validator_timelock'') (\<lambda>new.
      and_then (address_at ts 6 ''wrapped_base_token_store'') (\<lambda>store.
        Inr \<lparr>gu_force_deployments = deployments, gu_l2_gateway_upgrade_position = position, gu_fixed_force_deployments_data = fixed,
          gu_ctm_deployer = ctm, gu_old_validator_timelock = old, gu_new_validator_timelock = new,
          gu_wrapped_base_token_store = store\<rparr>)))))))))))"

record chain_specific_upgrade_data =
  cs_base_token_asset_id :: h256
  cs_l2_legacy_shared_bridge :: address
  cs_l2_predeployed_wrapped_base_token :: address
  cs_base_token_l1_address :: address
  cs_base_token_name :: string
  cs_base_token_symbol :: string

definition from_partial_components ::
  "h256 option \<Rightarrow> address option \<Rightarrow> address option \<Rightarrow> address option \<Rightarrow> string option \<Rightarrow> string option \<Rightarrow>
    chain_specific_upgrade_data option" where
  "from_partial_components asset_id bridge weth l1_address token_name token_symbol =
     Option.bind asset_id (\<lambda>i. Option.bind bridge (\<lambda>b. Option.bind l1_address (\<lambda>a. Option.bind token_name (\<lambda>n.
     Option.bind token_symbol (\<lambda>s.
       Some \<lparr>cs_base_token_asset_id = i, cs_l2_legacy_shared_bridge = b,
         cs_l2_predeployed_wrapped_base_token = (case weth of Some w \<Rightarrow> w | None \<Rightarrow> 0), cs_base_token_l1_address = a,
         cs_base_token_name = n, cs_base_token_symbol = s\<rparr>)))))"

definition chain_specific_schema :: param_type where
  "chain_specific_schema = ParamTuple [ParamFixedBytes 32, ParamAddress, ParamAddress]"

definition chain_specific_encode :: "chain_specific_upgrade_data \<Rightarrow> abi_token" where
  "chain_specific_encode c = TokenTuple [token_hash (cs_base_token_asset_id c), TokenAddress (cs_l2_legacy_shared_bridge c),
     TokenAddress (cs_l2_predeployed_wrapped_base_token c), TokenAddress (cs_base_token_l1_address c), TokenString (cs_base_token_name c),
     TokenString (cs_base_token_symbol c)]"

definition chain_specific_encode_bytes :: "abi \<Rightarrow> chain_specific_upgrade_data \<Rightarrow> u8 list" where
  "chain_specific_encode_bytes A c = abi_encode A [chain_specific_encode c]"

section \<open>Upgrades\<close>

record upgrade_call =
  call_target :: address
  call_value :: u256
  call_data :: "u8 list"

record governance_operation =
  gov_calls :: "upgrade_call list"
  gov_predecessor :: h256
  gov_salt :: h256

record verifier_params =
  vp_recursion_node_level_vk_hash :: h256
  vp_recursion_leaf_level_vk_hash :: h256
  vp_recursion_circuits_set_vks_hash :: h256

record protocol_upgrade_tx =
  putx_execute :: execute_data
  putx_common_data :: protocol_upgrade_tx_common_data
  putx_received_timestamp_ms :: u64

record protocol_upgrade =
  pup_version :: protocol_semantic_version
  pup_bootloader_code_hash :: "h256 option"
  pup_default_account_code_hash :: "h256 option"
  pup_evm_emulator_code_hash :: "h256 option"
  pup_verifier_params :: "verifier_params option"
  pup_verifier_address :: "address option"
  pup_timestamp :: u64
  pup_tx :: "protocol_upgrade_tx option"

definition verifier_params_to_abi :: "verifier_params \<Rightarrow> abi_verifier_params" where
  "verifier_params_to_abi x = \<lparr>avp_recursion_node_level_vk_hash = vp_recursion_node_level_vk_hash x,
     avp_recursion_leaf_level_vk_hash = vp_recursion_node_level_vk_hash x,
     avp_recursion_circuits_set_vks_hash = vp_recursion_circuits_set_vks_hash x\<rparr>"

definition verifier_params_from_abi :: "abi_verifier_params \<Rightarrow> verifier_params" where
  "verifier_params_from_abi x = \<lparr>vp_recursion_node_level_vk_hash = avp_recursion_node_level_vk_hash x,
     vp_recursion_leaf_level_vk_hash = avp_recursion_node_level_vk_hash x,
     vp_recursion_circuits_set_vks_hash = avp_recursion_circuits_set_vks_hash x\<rparr>"

definition default_verifier_params :: abi_verifier_params where
  "default_verifier_params = \<lparr>avp_recursion_node_level_vk_hash = 0, avp_recursion_leaf_level_vk_hash = 0, avp_recursion_circuits_set_vks_hash = 0\<rparr>"

definition diamond_cut_schema :: param_type where
  "diamond_cut_schema = ParamTuple
     [ParamArray (ParamTuple [ParamAddress, ParamUint 8, ParamBool, ParamArray (ParamFixedBytes 4)]), ParamAddress, ParamBytes]"

definition force_deploy_on_addresses :: "abi \<Rightarrow> force_deployment list \<Rightarrow> u8 list" where
  "force_deploy_on_addresses A ds =
     abi_selector A ''forceDeployOnAddresses'' [ParamArray force_deployment_schema] @
     abi_encode A [TokenArray (map force_deployment_encode ds)]"

text \<open>The surroundings of an upgrade: everything that is not computed from the proposal.\<close>

record upgrade_env =
  env_sha256 :: hash_fn
  env_keccak :: hash_fn
  env_abi :: abi
  env_usize_bits :: nat
  env_now :: u64
  env_l2_from_raw :: "u8 list \<Rightarrow> bool \<Rightarrow> transaction res"
  env_preimages :: "h256 list \<Rightarrow> u8 list list res"

definition prepare_upgrade_call :: "upgrade_env \<Rightarrow> proposed_upgrade \<Rightarrow> chain_specific_upgrade_data option \<Rightarrow> u8 list res" where
  "prepare_upgrade_call E u chain_specific =
     (let tx = up_l2_protocol_upgrade_tx u; A = env_abi E in
      if ct_tx_type tx = 0 then Inr []
      else
        ensure (unat (ct_nonce tx) < 2 ^ 32) (Panic (PanicMsg ''Integer overflow when casting to u32''))
        (and_then (unwrap (version_try_from_u16 (unat (ct_nonce tx) mod 2 ^ 16))) (\<lambda>v.
         if v \<noteq> gateway_upgrade then Inr (ct_data tx)
         else
           and_then (ok_or (Failure ''ethabi::Error'') (abi_decode A [gateway_input_schema] (up_post_upgrade_calldata u))) (\<lambda>ts.
           and_then (next_token ts 0) (\<lambda>t.
           and_then (gateway_input_decode (env_usize_bits E) t) (\<lambda>g.
           and_then (ok_or (Failure ''chain_specific'') chain_specific) (\<lambda>c.
           let calldata = abi_encode A [TokenAddress (gu_ctm_deployer g), TokenBytes (gu_fixed_force_deployments_data g),
                 TokenBytes (chain_specific_encode_bytes A c)];
               i = gu_l2_gateway_upgrade_position g; ds = gu_force_deployments g in
           ensure (i < length ds) (Panic (PanicMsg ''index out of bounds''))
             (Inr (force_deploy_on_addresses A (ds[i := (ds ! i)\<lparr>fd_input := calldata\<rparr>]))))))))))"

definition upgrade_tx_from_transaction :: "transaction \<Rightarrow> protocol_upgrade_tx res" where
  "upgrade_tx_from_transaction tx = (case tx_common_data tx of
      L1Common _ \<Rightarrow> Inl (Failure ''Cannot convert L1Tx to ProtocolUpgradeTx'')
    | L2Common _ \<Rightarrow> Inl (Failure ''Cannot convert L2Tx to ProtocolUpgradeTx'')
    | ProtocolUpgradeCommon d \<Rightarrow> Inr \<lparr>putx_execute = tx_execute tx, putx_common_data = d,
        putx_received_timestamp_ms = tx_received_timestamp_ms tx\<rparr>)"

definition transaction_from_upgrade_tx :: "protocol_upgrade_tx \<Rightarrow> transaction" where
  "transaction_from_upgrade_tx t = \<lparr>tx_common_data = ProtocolUpgradeCommon (putx_common_data t), tx_execute = putx_execute t,
     tx_received_timestamp_ms = putx_received_timestamp_ms t, tx_raw_bytes = None\<rparr>"

definition upgrade_tx_of ::
  "upgrade_env \<Rightarrow> proposed_upgrade \<Rightarrow> chain_specific_upgrade_data option \<Rightarrow> protocol_version \<Rightarrow> protocol_upgrade_tx option res" where
  "upgrade_tx_of E u chain_specific v =
     (let tx = up_l2_protocol_upgrade_tx u in
      if ct_tx_type tx \<noteq> 0
      then
        and_then (if is_pre_gateway v then unwrap (up_factory_deps u) else env_preimages E (ct_factory_deps tx)) (\<lambda>deps.
        and_then (prepare_upgrade_call E u chain_specific) (\<lambda>data.
        and_then (from_abi (env_sha256 E) (env_keccak E) (env_abi E) (env_now E) (env_l2_from_raw E)
            (AbiL1 (tx\<lparr>ct_data := data\<rparr>) deps 0) False) (\<lambda>t.
          map_res Some (upgrade_tx_from_transaction t))))
      else Inr None)"

definition then_some :: "bool \<Rightarrow> 'a \<Rightarrow> 'a option" where
  "then_some b x = (if b then Some x else None)"

definition try_from_init_calldata :: "upgrade_env \<Rightarrow> u8 list \<Rightarrow> chain_specific_upgrade_data option \<Rightarrow> protocol_upgrade res" where
  "try_from_init_calldata E init_calldata chain_specific =
     ensure (4 \<le> length init_calldata) (Failure ''need >= 4 bytes'')
     (and_then (proposed_upgrade_decode (env_abi E) (drop 4 init_calldata)) (\<lambda>u.
      and_then (ok_or (Failure ''Version is not supported'') (try_from_packed (up_new_protocol_version u))) (\<lambda>version.
      and_then (upgrade_tx_of E u chain_specific (minor version)) (\<lambda>tx.
      ensure (unat (up_upgrade_timestamp u) < 2 ^ 64) (Panic (PanicMsg ''unwrap on Err''))
        (Inr \<lparr>pup_version = version,
           pup_bootloader_code_hash = then_some (up_bootloader_hash u \<noteq> 0) (up_bootloader_hash u),
           pup_default_account_code_hash = then_some (up_default_account_hash u \<noteq> 0) (up_default_account_hash u),
           pup_evm_emulator_code_hash = then_some (up_evm_emulator_hash u \<noteq> 0) (up_evm_emulator_hash u),
           pup_verifier_params = then_some (up_verifier_params u \<noteq> default_verifier_params) (verifier_params_from_abi (up_verifier_params u)),
           pup_verifier_address = then_some (up_verifier u \<noteq> 0) (up_verifier u),
           pup_timestamp = ucast (up_upgrade_timestamp u), pup_tx = tx\<rparr>)))))"

text \<open>\<open>Function::decode_input\<close> decodes the arguments without the selector.\<close>

definition try_from_diamond_cut :: "upgrade_env \<Rightarrow> u8 list \<Rightarrow> chain_specific_upgrade_data option \<Rightarrow> protocol_upgrade res" where
  "try_from_diamond_cut E data chain_specific =
     and_then (ok_or (Failure ''ethabi::Error'') (abi_decode (env_abi E) [diamond_cut_schema] data)) (\<lambda>ts.
     and_then (next_token ts 0) (\<lambda>t.
     and_then (unwrap (into_tuple t)) (\<lambda>cut.
     and_then (next_token cut 2) (\<lambda>c.
     and_then (unwrap (into_bytes c)) (\<lambda>init_calldata.
       try_from_init_calldata E init_calldata chain_specific)))))"

definition unwrap_res :: "'a res \<Rightarrow> 'a res" where
  "unwrap_res r = (case r of Inr x \<Rightarrow> Inr x | Inl _ \<Rightarrow> Inl (Panic (PanicMsg ''unwrap on Err'')))"

text \<open>An event: its topics, its data and the number of its block.\<close>

definition decode_genesis_upgrade_event ::
  "upgrade_env \<Rightarrow> h256 list \<Rightarrow> u8 list \<Rightarrow> u64 option \<Rightarrow> (protocol_version \<times> protocol_upgrade_tx) res" where
  "decode_genesis_upgrade_event E topics data block_number =
     and_then (ok_or (Failure ''ethabi::Error'') (abi_decode (env_abi E) [canonical_schema, ParamArray ParamBytes] data)) (\<lambda>ts.
     and_then (next_token ts 0) (\<lambda>t0.
     and_then (unwrap_res (canonical_decode t0)) (\<lambda>tx.
     and_then (next_token ts 1) (\<lambda>t1.
     and_then (ok_or (Failure ''InvalidData'') (into_array t1)) (\<lambda>ds.
     and_then (collect_res (map (\<lambda>t. ok_or (Failure ''InvalidData'') (into_bytes t)) ds)) (\<lambda>deps.
     ensure (2 < length topics) (Panic (PanicMsg ''index out of bounds''))
     (and_then (ok_or (Panic (PanicMsg ''Version is not supported'')) (try_from_packed_semver (topics ! 2))) (\<lambda>v.
      and_then (ok_or (Panic (PanicMsg ''Event block number is missing'')) block_number) (\<lambda>n.
      and_then (unwrap_res (from_abi (env_sha256 E) (env_keccak E) (env_abi E) (env_now E) (env_l2_from_raw E) (AbiL1 tx deps n) True)) (\<lambda>t.
      and_then (unwrap_res (upgrade_tx_from_transaction t)) (\<lambda>ptx. Inr (v, ptx))))))))))))"

section \<open>Governance operations\<close>

definition governance_types :: "param_type list" where
  "governance_types = [ParamUint 256, ParamTuple [ParamArray (ParamTuple [ParamAddress, ParamUint 256, ParamBytes]), ParamFixedBytes 32, ParamFixedBytes 32]]"

text \<open>\<open>H256::from_slice\<close> aborts on a slice of another length than 32.\<close>

abbreviation from_slice_token :: "abi_token \<Rightarrow> h256 res" where
  "from_slice_token t \<equiv> unwrap (Option.bind (into_fixed_bytes t) hash_of_bytes)"

definition call_of_token :: "abi_token \<Rightarrow> upgrade_call res" where
  "call_of_token call =
     and_then (unwrap (into_tuple call)) (\<lambda>ts.
     and_then (next_token ts 0) (\<lambda>t0. and_then (unwrap (into_address t0)) (\<lambda>a.
     and_then (next_token ts 1) (\<lambda>t1. and_then (unwrap (into_uint t1)) (\<lambda>v.
     and_then (next_token ts 2) (\<lambda>t2. and_then (unwrap (into_bytes t2)) (\<lambda>d.
       Inr \<lparr>call_target = a, call_value = v, call_data = d\<rparr>)))))))"

definition governance_operation_try_from :: "abi \<Rightarrow> u8 list \<Rightarrow> governance_operation res" where
  "governance_operation_try_from A data =
     and_then (ok_or (Failure ''ethabi::Error'') (abi_decode A governance_types data)) (\<lambda>decoded.
     and_then (next_token decoded 1) (\<lambda>op.
     and_then (unwrap (into_tuple op)) (\<lambda>ts.
     and_then (next_token ts 0) (\<lambda>t0. and_then (unwrap (into_array t0)) (\<lambda>calls.
     and_then (next_token ts 1) (\<lambda>t1. and_then (from_slice_token t1) (\<lambda>predecessor.
     and_then (next_token ts 2) (\<lambda>t2. and_then (from_slice_token t2) (\<lambda>salt.
     and_then (collect_res (map call_of_token calls)) (\<lambda>cs.
       Inr \<lparr>gov_calls = cs, gov_predecessor = predecessor, gov_salt = salt\<rparr>))))))))))"

section \<open>Protocol versions\<close>

record l1_verifier_config =
  vc_snark_wrapper_vk_hash :: h256
  vc_fflonk_snark_wrapper_vk_hash :: "h256 option"

record protocol_version_info =
  pv_version :: protocol_semantic_version
  pv_timestamp :: u64
  pv_l1_verifier_config :: l1_verifier_config
  pv_base_system_contracts_hashes :: base_system_contracts_hashes
  pv_tx :: "protocol_upgrade_tx option"

definition unwrap_or :: "'a option \<Rightarrow> 'a \<Rightarrow> 'a" where
  "unwrap_or x d = (case x of Some y \<Rightarrow> y | None \<Rightarrow> d)"

definition or_option :: "'a option \<Rightarrow> 'a option \<Rightarrow> 'a option" where
  "or_option x y = (case x of Some _ \<Rightarrow> x | None \<Rightarrow> y)"

definition apply_upgrade :: "protocol_version_info \<Rightarrow> protocol_upgrade \<Rightarrow> h256 option \<Rightarrow> h256 option \<Rightarrow> protocol_version_info" where
  "apply_upgrade p u new_snark new_fflonk =
     \<lparr>pv_version = pup_version u, pv_timestamp = pup_timestamp u,
      pv_l1_verifier_config = \<lparr>vc_snark_wrapper_vk_hash = unwrap_or new_snark (vc_snark_wrapper_vk_hash (pv_l1_verifier_config p)),
        vc_fflonk_snark_wrapper_vk_hash = or_option new_fflonk (vc_fflonk_snark_wrapper_vk_hash (pv_l1_verifier_config p))\<rparr>,
      pv_base_system_contracts_hashes =
        \<lparr>base_system_contracts_hashes.bsc_bootloader = unwrap_or (pup_bootloader_code_hash u) (base_system_contracts_hashes.bsc_bootloader (pv_base_system_contracts_hashes p)),
         base_system_contracts_hashes.bsc_default_aa = unwrap_or (pup_default_account_code_hash u) (base_system_contracts_hashes.bsc_default_aa (pv_base_system_contracts_hashes p)),
         base_system_contracts_hashes.bsc_evm_emulator = or_option (pup_evm_emulator_code_hash u) (base_system_contracts_hashes.bsc_evm_emulator (pv_base_system_contracts_hashes p))\<rparr>,
      pv_tx = pup_tx u\<rparr>"

section \<open>Encoding and decoding\<close>

lemma hash_of_as_bytes [simp]: "hash_of_bytes (as_bytes h) = Some h"
  by (simp add: hash_of_bytes_def)

lemma verifier_params_roundtrip [simp]: "verifier_params_decode (verifier_params_encode p) = Inr p"
  by (simp add: verifier_params_decode_def verifier_params_encode_def)

lemma force_deployment_roundtrip [simp]: "force_deployment_decode (force_deployment_encode d) = Inr d"
  by (simp add: force_deployment_decode_def force_deployment_encode_def)

lemma gateway_input_roundtrip:
  assumes "unat w < 2 ^ usize_bits"
  shows "gateway_input_decode usize_bits (TokenTuple [TokenArray (map force_deployment_encode ds), TokenUint w, TokenBytes fixed,
      TokenAddress ctm, TokenAddress old, TokenAddress new, TokenAddress store]) =
    Inr \<lparr>gu_force_deployments = ds, gu_l2_gateway_upgrade_position = unat w, gu_fixed_force_deployments_data = fixed,
      gu_ctm_deployer = ctm, gu_old_validator_timelock = old, gu_new_validator_timelock = new, gu_wrapped_base_token_store = store\<rparr>"
proof -
  have "collect_res (map (force_deployment_decode \<circ> force_deployment_encode) ds) = Inr ds" by (induction ds) simp_all
  then show ?thesis using assms by (simp add: gateway_input_decode_def as_usize_def)
qed

lemma decode_encoded_iff:
  assumes "proposed_upgrade_encode u = Inr t" "try_from_packed (up_new_protocol_version u) = Some v"
    and "length (ct_reserved (up_l2_protocol_upgrade_tx u)) = 4" "\<not> is_pre_gateway (minor v)"
  shows "decode_from_token s t = Inr u' \<longleftrightarrow> s = PostEvmEmulator \<and> is_post_fflonk (minor v) \<and> u' = u\<lparr>up_factory_deps := None\<rparr>"
proof -
  have t: "t = TokenTuple [canonical_encode (up_l2_protocol_upgrade_tx u), token_hash (up_bootloader_hash u),
      token_hash (up_default_account_hash u), token_hash (up_evm_emulator_hash u), TokenAddress (up_verifier u),
      verifier_params_encode (up_verifier_params u), TokenBytes (up_l1_contracts_upgrade_calldata u),
      TokenBytes (up_post_upgrade_calldata u), TokenUint (up_upgrade_timestamp u), TokenUint (up_new_protocol_version u)]"
    using assms(1,2,4) by (simp add: proposed_upgrade_encode_def)
  note c = canonical_roundtrip [OF assms(3)]
  show ?thesis
    by (cases s) (auto simp: t c decode_from_token_def decode_rest_def assms(2))
qed

text \<open>
  C38. Which encoded upgrades decode. The tokens of an encoded upgrade are accepted by no schema but the last, and by that one
  exactly when the upgrade is to a version after FFLONK; then they give the upgrade back, less the factory dependencies. Upgrades
  to earlier versions are encoded with the hash of the EVM emulator too, and are not read back.
\<close>

theorem encoded_upgrade_decodes_iff:
  assumes "proposed_upgrade_encode u = Inr t" "try_from_packed (up_new_protocol_version u) = Some v"
    and "length (ct_reserved (up_l2_protocol_upgrade_tx u)) = 4"
  shows "decode_from_token s t = Inr u' \<longleftrightarrow> s = PostEvmEmulator \<and> is_post_fflonk (minor v) \<and> u' = u\<lparr>up_factory_deps := None\<rparr>"
proof (cases "is_pre_gateway (minor v)")
  case True
  then have "\<not> is_post_fflonk (minor v)"
    by (simp add: is_pre_gateway_def is_post_fflonk_def gateway_upgrade_def version_order)
  moreover have "\<exists>ts. t = TokenTuple ts \<and> length ts = 11"
    using assms(1,2) True by (auto simp: proposed_upgrade_encode_def map_res_def split: sum.splits)
  then have "decode_from_token s t \<noteq> Inr u'" by (cases s) (auto simp: decode_from_token_def)
  ultimately show ?thesis by simp
next
  case False
  then show ?thesis by (rule decode_encoded_iff [OF assms])
qed

section \<open>The schemas\<close>

text \<open>What a schema reads in the data: the only place where \<open>ethabi\<close> is asked.\<close>

definition decodes_as :: "abi \<Rightarrow> u8 list \<Rightarrow> proposed_upgrade_schema \<Rightarrow> proposed_upgrade \<Rightarrow> bool" where
  "decodes_as A data s u \<longleftrightarrow> (case abi_decode A [schema_tuple_type s] data of Some (t # _) \<Rightarrow> decode_from_token s t = Inr u | _ \<Rightarrow> False)"

definition no_panic :: "'a res \<Rightarrow> bool" where
  "no_panic r \<longleftrightarrow> (\<forall>m. r \<noteq> Inl (Panic m))"

lemma no_panic_intros:
  "no_panic (Inr x)" "no_panic (ok_or (Failure w) y)"
  "no_panic k \<Longrightarrow> no_panic (ensure c (Failure w) k)"
  "no_panic m \<Longrightarrow> (\<And>x. no_panic (f x)) \<Longrightarrow> no_panic (and_then m f)"
  "no_panic m \<Longrightarrow> no_panic m' \<Longrightarrow> no_panic (if c then m else m')"
  by (auto simp: no_panic_def ok_or_def ensure_def and_then_def split: option.splits sum.splits)

lemma no_panic_collect: "(\<And>x. no_panic (f x)) \<Longrightarrow> no_panic (collect_res (map f xs))"
  by (induction xs) (auto intro!: no_panic_intros)

lemma decoders_no_panic:
  "no_panic (uints w ts)" "no_panic (canonical_decode t)" "no_panic (verifier_params_decode t)"
  unfolding uints_def canonical_decode_def verifier_params_decode_def
  by (intro no_panic_intros no_panic_collect)+

lemma token_no_panic: "decode_from_token s t \<noteq> Inl (Panic m)"
proof -
  have "no_panic (decode_rest s tx deps b ts)" for tx deps b ts
    unfolding decode_rest_def Let_def by (intro no_panic_intros decoders_no_panic)
  then have "no_panic (decode_from_token s t)"
    unfolding decode_from_token_def by (intro no_panic_intros decoders_no_panic no_panic_collect)
  then show ?thesis by (simp add: no_panic_def)
qed

definition reading :: "abi \<Rightarrow> u8 list \<Rightarrow> proposed_upgrade_schema \<Rightarrow> proposed_upgrade option" where
  "reading A data s = (case abi_decode A [schema_tuple_type s] data of
      Some (t # _) \<Rightarrow> (case decode_from_token s t of Inr u \<Rightarrow> Some u | Inl _ \<Rightarrow> None)
    | _ \<Rightarrow> None)"

lemma decodes_as_reading: "decodes_as A data s u \<longleftrightarrow> reading A data s = Some u"
  by (simp add: decodes_as_def reading_def split: option.splits list.splits sum.splits)

fun scan :: "proposed_upgrade option list \<Rightarrow> proposed_upgrade option \<Rightarrow> proposed_upgrade option res" where
  "scan [] found = Inr found"
| "scan (None # rs) found = scan rs found"
| "scan (Some u # rs) found = ensure (found = None) (Failure ''Ambiguous upgrade'') (scan rs (Some u))"

lemma candidates_scanned:
  assumes "\<forall>type bs. abi_decode A [type] bs \<noteq> Some []"
  shows "and_then (decode_to_token A data ss) (\<lambda>cs. decode_loop cs found) = scan (map (reading A data) ss) found"
proof -
  have "\<exists>cs. decode_to_token A data ss = Inr cs \<and> (\<forall>found. decode_loop cs found = scan (map (reading A data) ss) found)"
  proof (induction ss)
    case (Cons s ss)
    then obtain cs where cs: "decode_to_token A data ss = Inr cs" "\<forall>found. decode_loop cs found = scan (map (reading A data) ss) found" by blast
    show ?case
    proof (cases "abi_decode A [schema_tuple_type s] data")
      case None
      then have "reading A data s = None" by (simp add: reading_def)
      then show ?thesis using None cs by simp
    next
      case (Some ts)
      moreover obtain t rest where "ts = t # rest" using Some assms by (cases ts) auto
      moreover have "reading A data s = (case decode_from_token s t of Inr u \<Rightarrow> Some u | Inl _ \<Rightarrow> None)"
        using calculation by (simp add: reading_def)
      then have "decode_loop ((s, t) # cs) f = scan (map (reading A data) (s # ss)) f" for f
        using cs(2) token_no_panic [of s t] by (simp split: sum.splits error.splits)
      ultimately show ?thesis using cs(1) by (simp add: next_token_def)
    qed
  qed simp
  then show ?thesis by auto
qed

lemma decoded_version:
  assumes "decode_from_token s t = Inr u"
  shows "\<exists>v. try_from_packed (up_new_protocol_version u) = Some v \<and> matches_protocol_version s (minor v)"
proof -
  obtain tx deps b ts where "decode_rest s tx deps b ts = Inr u"
    using assms by (auto simp: decode_from_token_def split: if_splits)
  then show ?thesis by (auto simp: decode_rest_def Let_def split: if_splits)
qed

lemma decodes_as_version:
  "decodes_as A data s u \<Longrightarrow> \<exists>v. try_from_packed (up_new_protocol_version u) = Some v \<and> matches_protocol_version s (minor v)"
  unfolding decodes_as_def using decoded_version by (auto split: option.splits list.splits)

text \<open>
  Decoding an upgrade never chooses: it answers with an upgrade exactly when one schema, and only one, reads the data as an
  upgrade, that upgrade is the answer, and its version belongs to the schema.
\<close>

theorem proposed_upgrade_decode_unique:
  assumes "\<forall>type bs. abi_decode A [type] bs \<noteq> Some []"
  shows "proposed_upgrade_decode A data = Inr u \<longleftrightarrow>
    (\<exists>s v. decodes_as A data s u \<and> try_from_packed (up_new_protocol_version u) = Some v \<and> matches_protocol_version s (minor v) \<and>
       (\<forall>s' u'. decodes_as A data s' u' \<longrightarrow> s' = s))"
proof -
  have all: "(\<forall>s. P s) \<longleftrightarrow> P PreGateway \<and> P PostGateway \<and> P PostEvmEmulator" for P
    by (metis proposed_upgrade_schema.exhaust)
  have ex: "(\<exists>s. P s) \<longleftrightarrow> P PreGateway \<or> P PostGateway \<or> P PostEvmEmulator" for P
    by (metis proposed_upgrade_schema.exhaust)
  have "proposed_upgrade_decode A data = Inr u \<longleftrightarrow> scan (map (reading A data) all_schemas) None = Inr (Some u)"
    unfolding proposed_upgrade_decode_def candidates_scanned [OF assms, symmetric]
    by (auto simp: and_then_def ok_or_def split: sum.splits option.splits)
  also have "\<dots> \<longleftrightarrow> (\<exists>s. decodes_as A data s u \<and> (\<forall>s' u'. decodes_as A data s' u' \<longrightarrow> s' = s))"
    unfolding decodes_as_reading all ex
    by (cases "reading A data PreGateway"; cases "reading A data PostGateway"; cases "reading A data PostEvmEmulator") auto
  also have "\<dots> \<longleftrightarrow> (\<exists>s v. decodes_as A data s u \<and> try_from_packed (up_new_protocol_version u) = Some v \<and> matches_protocol_version s (minor v) \<and>
       (\<forall>s' u'. decodes_as A data s' u' \<longrightarrow> s' = s))"
    using decodes_as_version by blast
  finally show ?thesis .
qed

section \<open>Accepted upgrades\<close>

lemma from_abi_upgrade:
  assumes "from_abi sha keccak A now raw (AbiL1 c deps n) b = Inr t" "upgrade_tx_from_transaction t = Inr p"
  shows "ct_tx_type c = ucast PROTOCOL_UPGRADE_TX_TYPE \<and> deps_hashes sha deps = Inr (ct_factory_deps c) \<and>
    putx_execute p = execute_of c deps \<and>
    (\<exists>v. version_try_from_u256 (ct_nonce c) = Some v \<and> putx_common_data p = upgrade_common_of c (canonical_hash keccak A c) v n)"
  using assms by (auto simp: from_abi_def upgrade_tx_from_transaction_def Let_def map_res_def ok_or_def
      split: if_splits option.splits sum.splits)

text \<open>
  C37. An accepted upgrade transaction is the proposed one, whatever the preimage oracle answers: it runs the prepared call at the
  target of the proposal, its factory dependencies are preimages of the hashes in the proposal, and its canonical hash is the
  hash of the proposed transaction with the prepared call.
\<close>

theorem upgrade_tx_is_proposed:
  assumes "try_from_init_calldata E data chain_specific = Inr p" "pup_tx p = Some t"
  shows "\<exists>u calldata. proposed_upgrade_decode (env_abi E) (drop 4 data) = Inr u \<and> prepare_upgrade_call E u chain_specific = Inr calldata \<and>
    (let c = (up_l2_protocol_upgrade_tx u)\<lparr>ct_data := calldata\<rparr> in
      ct_tx_type c = ucast PROTOCOL_UPGRADE_TX_TYPE \<and>
      ex_contract_address (putx_execute t) = Some (u256_to_address (ct_to c)) \<and> ex_calldata (putx_execute t) = calldata \<and>
      ex_value (putx_execute t) = ct_value c \<and>
      deps_hashes (env_sha256 E) (ex_factory_deps (putx_execute t)) = Inr (ct_factory_deps c) \<and>
      pu_canonical_tx_hash (putx_common_data t) = canonical_hash (env_keccak E) (env_abi E) c \<and>
      version_try_from_u256 (ct_nonce c) = Some (pu_upgrade_id (putx_common_data t)))"
proof -
  obtain u v where u: "proposed_upgrade_decode (env_abi E) (drop 4 data) = Inr u"
    and "upgrade_tx_of E u chain_specific v = Inr (Some t)"
    using assms by (auto simp: try_from_init_calldata_def)
  then obtain deps calldata tr where c: "prepare_upgrade_call E u chain_specific = Inr calldata"
    and tr: "from_abi (env_sha256 E) (env_keccak E) (env_abi E) (env_now E) (env_l2_from_raw E)
      (AbiL1 ((up_l2_protocol_upgrade_tx u)\<lparr>ct_data := calldata\<rparr>) deps 0) False = Inr tr" "upgrade_tx_from_transaction tr = Inr t"
    by (auto simp: upgrade_tx_of_def Let_def  split: if_splits)
  show ?thesis
    using u c from_abi_upgrade [OF tr] by (auto simp: Let_def execute_of_def upgrade_common_of_def)
qed

text \<open>
  The conversions of the verifier parameters write the node-level hash into the leaf-level one: they are inverse to each other
  exactly on parameters where the two agree.
\<close>

lemma verifier_params_conversion:
  "verifier_params_from_abi (verifier_params_to_abi x) = x \<longleftrightarrow>
     vp_recursion_leaf_level_vk_hash x = vp_recursion_node_level_vk_hash x"
  by (cases x) (auto simp: verifier_params_from_abi_def verifier_params_to_abi_def)

text \<open>Applying an upgrade changes the hashes that the proposal names and no others.\<close>

lemma apply_upgrade_frame:
  assumes "try_from_init_calldata E data chain_specific = Inr up"
  shows "\<exists>u. proposed_upgrade_decode (env_abi E) (drop 4 data) = Inr u \<and>
    (let h = pv_base_system_contracts_hashes p; h' = pv_base_system_contracts_hashes (apply_upgrade p up s f) in
      base_system_contracts_hashes.bsc_bootloader h' =
        (if up_bootloader_hash u = 0 then base_system_contracts_hashes.bsc_bootloader h else up_bootloader_hash u) \<and>
      base_system_contracts_hashes.bsc_default_aa h' =
        (if up_default_account_hash u = 0 then base_system_contracts_hashes.bsc_default_aa h else up_default_account_hash u) \<and>
      base_system_contracts_hashes.bsc_evm_emulator h' =
        (if up_evm_emulator_hash u = 0 then base_system_contracts_hashes.bsc_evm_emulator h else Some (up_evm_emulator_hash u)))"
  using assms by (auto simp: try_from_init_calldata_def apply_upgrade_def unwrap_or_def or_option_def then_some_def Let_def)

section \<open>Examples\<close>

definition sample_upgrade :: proposed_upgrade where
  "sample_upgrade = \<lparr>up_l2_protocol_upgrade_tx = \<lparr>ct_tx_type = ucast PROTOCOL_UPGRADE_TX_TYPE, ct_from = 0x8007, ct_to = 0x8006,
       ct_gas_limit = 72000000, ct_gas_per_pubdata_byte_limit = 800, ct_max_fee_per_gas = 0, ct_max_priority_fee_per_gas = 0,
       ct_paymaster = 0, ct_nonce = 29, ct_value = 0, ct_reserved = [0, 0, 0, 0], ct_data = [1, 2, 3], ct_signature = [],
       ct_factory_deps = [], ct_paymaster_input = [], ct_reserved_dynamic = []\<rparr>,
     up_factory_deps = None, up_bootloader_hash = 5, up_default_account_hash = 0, up_evm_emulator_hash = 6, up_verifier = 0,
     up_verifier_params = default_verifier_params, up_l1_contracts_upgrade_calldata = [], up_post_upgrade_calldata = [],
     up_upgrade_timestamp = 100, up_new_protocol_version = pack \<lparr>minor = Version29, patch = 1\<rparr>\<rparr>"

definition sample_upgrade_token :: abi_token where
  "sample_upgrade_token = (case proposed_upgrade_encode sample_upgrade of Inr t \<Rightarrow> t | Inl _ \<Rightarrow> TokenTuple [])"

definition sample_upgrade_abi :: abi where
  "sample_upgrade_abi = \<lparr>abi_encode = abi_spec_encode,
     abi_decode = (\<lambda>types _. if types = [schema_tuple_type PostEvmEmulator] then Some [sample_upgrade_token] else None),
     abi_selector = (\<lambda>_ _. [0, 0, 0, 1])\<rparr>"

definition sample_upgrade_env :: upgrade_env where
  "sample_upgrade_env = \<lparr>env_sha256 = (\<lambda>_. 5), env_keccak = (\<lambda>_. 11), env_abi = sample_upgrade_abi, env_usize_bits = 32, env_now = 3,
     env_l2_from_raw = (\<lambda>_ _. Inl (Failure ''not an L2 transaction'')), env_preimages = (\<lambda>_. Inr [])\<rparr>"

lemma sample_version: "try_from_packed (up_new_protocol_version sample_upgrade) = Some \<lparr>minor = Version29, patch = 1\<rparr>"
  using semver_pack_roundtrip by (simp add: sample_upgrade_def)

lemma sample_encoded: "proposed_upgrade_encode sample_upgrade = Inr sample_upgrade_token"
  using sample_version
  by (simp add: sample_upgrade_token_def proposed_upgrade_encode_def is_pre_gateway_def gateway_upgrade_def version_order)

lemma sample_reserved: "length (ct_reserved (up_l2_protocol_upgrade_tx sample_upgrade)) = 4"
  by (simp add: sample_upgrade_def)

lemma sample_token_decodes: "decode_from_token PostEvmEmulator sample_upgrade_token = Inr sample_upgrade"
proof -
  have "sample_upgrade = sample_upgrade\<lparr>up_factory_deps := None\<rparr>" by (simp add: sample_upgrade_def)
  then show ?thesis
    using decode_encoded_iff [OF sample_encoded sample_version sample_reserved]
    by (simp add: is_post_fflonk_def is_pre_gateway_def gateway_upgrade_def version_order)
qed

theorem encoded_upgrade_decodes_iff_witness:
  "decode_from_token PostEvmEmulator sample_upgrade_token = Inr (sample_upgrade\<lparr>up_factory_deps := None\<rparr>) \<and>
   decode_from_token PreGateway sample_upgrade_token \<noteq> Inr sample_upgrade"
  using encoded_upgrade_decodes_iff [OF sample_encoded sample_version sample_reserved]
  by (simp add: is_post_fflonk_def version_order)

lemma sample_abi_law: "\<forall>type bs. abi_decode sample_upgrade_abi [type] bs \<noteq> Some []"
  by (simp add: sample_upgrade_abi_def)

lemma sample_decodes_as: "decodes_as sample_upgrade_abi data s u \<longleftrightarrow> s = PostEvmEmulator \<and> u = sample_upgrade"
  using sample_token_decodes by (cases s) (auto simp: decodes_as_def sample_upgrade_abi_def)

theorem proposed_upgrade_decode_unique_witness: "proposed_upgrade_decode sample_upgrade_abi [1, 2] = Inr sample_upgrade"
  unfolding proposed_upgrade_decode_unique [OF sample_abi_law]
  using sample_version by (simp add: sample_decodes_as is_post_fflonk_def version_order)

definition sample_upgrade_tx :: protocol_upgrade_tx where
  "sample_upgrade_tx = \<lparr>putx_execute = execute_of (up_l2_protocol_upgrade_tx sample_upgrade) [],
     putx_common_data = upgrade_common_of (up_l2_protocol_upgrade_tx sample_upgrade) 11 Version29 0, putx_received_timestamp_ms = 3\<rparr>"

lemma sample_upgrade_accepted:
  assumes "4 \<le> length data"
  shows "\<exists>p. try_from_init_calldata sample_upgrade_env data None = Inr p \<and> pup_tx p = Some sample_upgrade_tx"
proof -
  let ?c = "up_l2_protocol_upgrade_tx sample_upgrade"
  have d: "proposed_upgrade_decode sample_upgrade_abi bs = Inr sample_upgrade" for bs
    using sample_token_decodes by (simp add: proposed_upgrade_decode_def sample_upgrade_abi_def next_token_def canonical_schema_def)
  have v: "version_try_from_u16 29 = Some Version29" "version_try_from_u256 29 = Some Version29"
    using version_from_nonce [of Version29] by (simp_all add: version_try_from_u256_def)
  have c: "prepare_upgrade_call sample_upgrade_env sample_upgrade None = Inr (ct_data ?c)"
    using v(1) by (simp add: prepare_upgrade_call_def sample_upgrade_def Let_def tx_type_defs gateway_upgrade_def)
  have "upgrade_tx_of sample_upgrade_env sample_upgrade None Version29 = Inr (Some sample_upgrade_tx)"
    using v(2) c
    by (simp add: upgrade_tx_of_def sample_upgrade_env_def is_pre_gateway_def gateway_upgrade_def version_order from_abi_def sample_upgrade_def
        Let_def tx_type_defs canonical_hash_def upgrade_tx_from_transaction_def sample_upgrade_tx_def)
  then show ?thesis
    using assms d sample_version by (simp add: try_from_init_calldata_def sample_upgrade_env_def sample_upgrade_def)
qed

theorem upgrade_tx_is_proposed_witness:
  "\<exists>p u. try_from_init_calldata sample_upgrade_env [0, 0, 0, 1] None = Inr p \<and> pup_tx p = Some sample_upgrade_tx \<and>
     proposed_upgrade_decode sample_upgrade_abi [] = Inr u \<and>
     deps_hashes (\<lambda>_. 5) (ex_factory_deps (putx_execute sample_upgrade_tx)) = Inr (ct_factory_deps (up_l2_protocol_upgrade_tx u))"
proof -
  obtain p where p: "try_from_init_calldata sample_upgrade_env [0, 0, 0, 1] None = Inr p" "pup_tx p = Some sample_upgrade_tx"
    using sample_upgrade_accepted [of "[0, 0, 0, 1]"] by auto
  show ?thesis
    using p upgrade_tx_is_proposed [OF p] by (auto simp: Let_def sample_upgrade_env_def)
qed

end
