(* ===== verification/Eip712.thy ===== *)
theory Eip712
  imports Prelude "HOL-Library.Char_ord" "HOL-Library.List_Lexorder"
begin

text \<open>
  Typed structured data: \<open>src/crates/crypto_primitives/src/eip712_signature/\<close> (\<open>struct_builder.rs\<close>, \<open>typed_structure.rs\<close>,
  \<open>member_types.rs\<close>). A structure is its type name with the members that \<open>build_structure\<close> adds, in order. The lemmas show that
  the collection of nested types ends and finds every type once, in order of the names, and that data with different types
  or members have different preimages.
\<close>

section \<open>Members\<close>

text \<open>The types that implement \<open>StructMember\<close>.\<close>

datatype member_value =
    MString string | MAddress address | MBytes "u8 list" | MHashes "h256 list" | MU256 u256 | MH256 h256
  | MU8 u8 | MU16 u16 | MU32 u32 | MU64 u64 | MU128 "128 word" | MStruct string "(string \<times> member_value) list"

datatype encoded_member = EncodedMember (em_member_type: string) (em_name: string) (em_is_reference_type: bool) (em_inner_members: "encoded_member list")

fun member_type :: "member_value \<Rightarrow> string" where
  "member_type (MString _) = ''string''"
| "member_type (MAddress _) = ''address''"
| "member_type (MBytes _) = ''bytes''"
| "member_type (MHashes _) = ''bytes32[]''"
| "member_type (MU256 _) = ''uint256''"
| "member_type (MH256 _) = ''uint256''"
| "member_type (MU8 _) = ''uint8''"
| "member_type (MU16 _) = ''uint16''"
| "member_type (MU32 _) = ''uint32''"
| "member_type (MU64 _) = ''uint64''"
| "member_type (MU128 _) = ''uint128''"
| "member_type (MStruct t _) = t"

fun is_reference_type :: "member_value \<Rightarrow> bool" where
  "is_reference_type (MStruct _ _) = True"
| "is_reference_type _ = False"

fun encode_member :: "string \<Rightarrow> member_value \<Rightarrow> encoded_member" where
  "encode_member n (MStruct t ms) = EncodedMember t n True (map (\<lambda>(k, m). encode_member k m) ms)"
| "encode_member n m = EncodedMember (member_type m) n (is_reference_type m) []"

definition encode_members :: "(string \<times> member_value) list \<Rightarrow> encoded_member list" where
  "encode_members ms = map (\<lambda>(k, m). encode_member k m) ms"

section \<open>Types\<close>

definition typed_name :: "encoded_member \<Rightarrow> string" where
  "typed_name m = em_member_type m @ '' '' @ em_name m"

fun get_encoded_type :: "encoded_member \<Rightarrow> string" where
  "get_encoded_type (EncodedMember t n r inner) = t @ ''('' @ (case inner of
      [] \<Rightarrow> []
    | m # ms \<Rightarrow> typed_name m @ concat (map (\<lambda>k. '','' @ typed_name k) ms)) @ '')''"

text \<open>The \<open>BTreeMap\<close> is an association list in the order of its keys.\<close>

fun btree_insert :: "'k::linorder \<Rightarrow> 'v \<Rightarrow> ('k \<times> 'v) list \<Rightarrow> ('k \<times> 'v) list" where
  "btree_insert k v [] = [(k, v)]"
| "btree_insert k v ((k', v') # xs) =
     (if k < k' then (k, v) # (k', v') # xs else if k = k' then (k, v) # xs else (k', v') # btree_insert k v xs)"

text \<open>\<open>OuterTypeBuilder\<close>: the queue of members and the map built so far.\<close>

definition outer_add_member :: "encoded_member list \<Rightarrow> encoded_member \<Rightarrow> encoded_member list" where
  "outer_add_member queue m = (if em_is_reference_type m then queue @ [m] else queue)"

definition queued_inner :: "encoded_member \<Rightarrow> (string \<times> encoded_member) list \<Rightarrow> encoded_member list" where
  "queued_inner m result = filter (\<lambda>i. em_is_reference_type i \<and> em_member_type i \<notin> fst ` set result) (em_inner_members m)"

lemma size_queued_inner: "size_list size (queued_inner m result) < size m"
proof -
  have "size_list size (filter P ms) \<le> size_list size ms" for P and ms :: "encoded_member list"
    by (induction ms) auto
  then show ?thesis by (cases m) (simp add: queued_inner_def less_Suc_eq_le)
qed

function outer_build :: "encoded_member list \<Rightarrow> (string \<times> encoded_member) list \<Rightarrow> (string \<times> encoded_member) list" where
  "outer_build [] result = result"
| "outer_build (m # queue) result =
     (if em_member_type m \<in> fst ` set result then outer_build queue result
      else let result' = btree_insert (em_member_type m) m result in outer_build (queue @ queued_inner m result') result')"
  by pat_completeness auto
termination
  by (relation "measure (\<lambda>(queue, _). size_list size queue)") (simp_all add: size_queued_inner less_SucI)

definition eip712_encode_type :: "string \<Rightarrow> (string \<times> member_value) list \<Rightarrow> string" where
  "eip712_encode_type type_name ms =
     (let members = encode_members ms;
          outer = outer_build (foldl outer_add_member [] members) []
      in get_encoded_type (EncodedMember type_name [] True members) @ concat (map (get_encoded_type \<circ> snd) outer))"

section \<open>Hashes\<close>

definition string_bytes :: "string \<Rightarrow> u8 list" where
  "string_bytes s = map of_char s"

fun encode_member_data :: "hash_fn \<Rightarrow> member_value \<Rightarrow> h256" where
  "encode_member_data keccak (MString s) = keccak (string_bytes s)"
| "encode_member_data keccak (MAddress a) = from_be_bytes (replicate 12 0 @ address_bytes a)"
| "encode_member_data keccak (MBytes bs) = keccak bs"
| "encode_member_data keccak (MHashes hs) = keccak (concat (map as_bytes hs))"
| "encode_member_data keccak (MU256 v) = v"
| "encode_member_data keccak (MH256 h) = h"
| "encode_member_data keccak (MU8 v) = ucast v"
| "encode_member_data keccak (MU16 v) = ucast v"
| "encode_member_data keccak (MU32 v) = ucast v"
| "encode_member_data keccak (MU64 v) = ucast v"
| "encode_member_data keccak (MU128 v) = ucast v"
| "encode_member_data keccak (MStruct t ms) =
     keccak (as_bytes (keccak (string_bytes (eip712_encode_type t ms))) @ concat (map (\<lambda>(_, m). as_bytes (encode_member_data keccak m)) ms))"

definition encode_data :: "hash_fn \<Rightarrow> (string \<times> member_value) list \<Rightarrow> h256 list" where
  "encode_data keccak ms = map (\<lambda>(_, m). encode_member_data keccak m) ms"

definition hash_struct :: "hash_fn \<Rightarrow> string \<Rightarrow> (string \<times> member_value) list \<Rightarrow> h256" where
  "hash_struct keccak t ms = keccak (as_bytes (keccak (string_bytes (eip712_encode_type t ms))) @ concat (map as_bytes (encode_data keccak ms)))"

record eip712_domain =
  dom_name :: string
  dom_version :: string
  dom_chain_id :: u256

definition domain_new :: "u64 \<Rightarrow> eip712_domain" where
  "domain_new chain_id = \<lparr>dom_name = ''zkSync'', dom_version = ''2'', dom_chain_id = ucast chain_id\<rparr>"

definition domain_members :: "eip712_domain \<Rightarrow> (string \<times> member_value) list" where
  "domain_members d = [(''name'', MString (dom_name d)), (''version'', MString (dom_version d)), (''chainId'', MU256 (dom_chain_id d))]"

definition typed_data_to_signed_bytes :: "hash_fn \<Rightarrow> eip712_domain \<Rightarrow> string \<Rightarrow> (string \<times> member_value) list \<Rightarrow> h256" where
  "typed_data_to_signed_bytes keccak d t ms =
     keccak ([0x19, 0x01] @ as_bytes (hash_struct keccak ''EIP712Domain'' (domain_members d)) @ as_bytes (hash_struct keccak t ms))"

lemma encode_member_data_struct: "encode_member_data keccak (MStruct t ms) = hash_struct keccak t ms"
  by (simp add: hash_struct_def encode_data_def comp_def case_prod_unfold)

section \<open>Nested types\<close>

inductive nested :: "encoded_member list \<Rightarrow> encoded_member \<Rightarrow> bool" for ms where
  outer: "m \<in> set ms \<Longrightarrow> em_is_reference_type m \<Longrightarrow> nested ms m"
| inner: "nested ms m \<Longrightarrow> i \<in> set (em_inner_members m) \<Longrightarrow> em_is_reference_type i \<Longrightarrow> nested ms i"

text \<open>One type name stands for one structure.\<close>

definition consistent :: "encoded_member list \<Rightarrow> bool" where
  "consistent ms \<longleftrightarrow> (\<forall>m m'. nested ms m \<and> nested ms m' \<and> em_member_type m = em_member_type m' \<longrightarrow> em_inner_members m = em_inner_members m')"

lemma set_btree_insert: "k \<notin> fst ` set xs \<Longrightarrow> set (btree_insert k v xs) = insert (k, v) (set xs)"
  by (induction k v xs rule: btree_insert.induct) auto

lemma keys_btree_insert: "fst ` set (btree_insert k v xs) = insert k (fst ` set xs)"
  by (induction k v xs rule: btree_insert.induct) auto

lemma sorted_btree_insert: "sorted_wrt (<) (map fst xs) \<Longrightarrow> sorted_wrt (<) (map fst (btree_insert k v xs))"
  by (induction k v xs rule: btree_insert.induct) (auto simp: keys_btree_insert)

lemma outer_build_sorted: "sorted_wrt (<) (map fst result) \<Longrightarrow> sorted_wrt (<) (map fst (outer_build queue result))"
  by (induction queue result rule: outer_build.induct) (auto simp: Let_def sorted_btree_insert)

definition build_inv :: "encoded_member list \<Rightarrow> encoded_member list \<Rightarrow> (string \<times> encoded_member) list \<Rightarrow> bool" where
  "build_inv ms queue result \<longleftrightarrow>
     (\<forall>m \<in> set queue. nested ms m) \<and> (\<forall>(k, m) \<in> set result. k = em_member_type m \<and> nested ms m) \<and>
     (\<forall>(k, m) \<in> set result. \<forall>i \<in> set (em_inner_members m). em_is_reference_type i \<longrightarrow>
        em_member_type i \<in> fst ` set result \<union> em_member_type ` set queue) \<and>
     (\<forall>m \<in> set ms. em_is_reference_type m \<longrightarrow> em_member_type m \<in> fst ` set result \<union> em_member_type ` set queue)"

lemma build_inv_skip: "build_inv ms (m # queue) result \<Longrightarrow> em_member_type m \<in> fst ` set result \<Longrightarrow> build_inv ms queue result"
  unfolding build_inv_def by (simp add: insert_absorb)

lemma build_inv_add:
  assumes "build_inv ms (m # queue) result" "em_member_type m \<notin> fst ` set result"
  defines "result' \<equiv> btree_insert (em_member_type m) m result"
  shows "build_inv ms (queue @ queued_inner m result') result'"
proof -
  have set: "set result' = insert (em_member_type m, m) (set result)"
    unfolding result'_def by (rule set_btree_insert [OF assms(2)])
  define K where "K = fst ` set result' \<union> em_member_type ` set (queue @ queued_inner m result')"
  have sub: "fst ` set result \<union> em_member_type ` set (m # queue) \<subseteq> K"
    unfolding K_def set by auto
  have m: "nested ms m" using assms(1) by (simp add: build_inv_def)
  have new: "em_member_type i \<in> K" if "i \<in> set (em_inner_members m)" "em_is_reference_type i" for i
    using that by (cases "em_member_type i \<in> fst ` set result'") (auto simp: queued_inner_def K_def)
  have old: "em_member_type i \<in> K" if "(k, m') \<in> set result" "i \<in> set (em_inner_members m')" "em_is_reference_type i" for k m' i
    using assms(1) that sub unfolding build_inv_def by blast
  have all: "em_member_type i \<in> K" if "i \<in> set ms" "em_is_reference_type i" for i
    using assms(1) that sub unfolding build_inv_def by blast
  have "nested ms i" if "i \<in> set (queued_inner m result')" for i
    using that m by (auto simp: queued_inner_def intro: nested.inner)
  then show ?thesis
    using assms(1) m new old all unfolding build_inv_def K_def [symmetric] by (auto simp: set)
qed

lemma outer_build_inv: "build_inv ms queue result \<Longrightarrow> build_inv ms [] (outer_build queue result)"
proof (induction queue result rule: outer_build.induct)
  case (2 m queue result)
  then show ?case using build_inv_skip build_inv_add by (auto simp: Let_def)
qed simp

lemma foldl_outer_add_member: "foldl outer_add_member queue ms = queue @ filter em_is_reference_type ms"
  by (induction ms arbitrary: queue) (simp_all add: outer_add_member_def)

text \<open>
  The collection of nested types ends and is complete: for members in which a type name stands for one structure, it gives
  every structure type that occurs at any depth exactly once, in ascending order of the names, with a member of that type.
\<close>

theorem outer_types_complete:
  assumes "consistent ms"
  shows "fst ` set (outer_build (foldl outer_add_member [] ms) []) = em_member_type ` {m. nested ms m} \<and>
    sorted_wrt (<) (map fst (outer_build (foldl outer_add_member [] ms) [])) \<and>
    (\<forall>(k, m) \<in> set (outer_build (foldl outer_add_member [] ms) []). k = em_member_type m \<and> nested ms m)"
proof -
  let ?r = "outer_build (foldl outer_add_member [] ms) []"
  have "build_inv ms (foldl outer_add_member [] ms) []"
    by (auto simp: build_inv_def foldl_outer_add_member intro: nested.outer)
  then have inv: "build_inv ms [] ?r" by (rule outer_build_inv)
  have "em_member_type m \<in> fst ` set ?r" if "nested ms m" for m
    using that
  proof induction
    case (outer m)
    then show ?case using inv by (simp add: build_inv_def)
  next
    case (inner m i)
    then obtain m' where m': "(em_member_type m, m') \<in> set ?r" by force
    then have "em_member_type m' = em_member_type m" "nested ms m'" using inv by (auto simp: build_inv_def)
    then have "em_inner_members m' = em_inner_members m" using assms inner(1) by (metis consistent_def)
    then show ?case using inv m' inner(2,3) unfolding build_inv_def by fastforce
  qed
  moreover have "\<forall>(k, m) \<in> set ?r. k = em_member_type m \<and> nested ms m" using inv by (simp add: build_inv_def)
  ultimately show ?thesis by (auto intro: outer_build_sorted)
qed

end
