(* ===== verification/Transaction_Request.thy ===== *)
theory Transaction_Request
  imports L1_Transactions L2_Blocks Eip712
begin

text \<open>
  Requests: the raw form of L2 transactions, \<open>src/crates/types/src/transaction_request.rs\<close>, with the signatures of
  \<open>src/crates/crypto_primitives/src/\<close> (\<open>ecdsa_signature.rs\<close>, \<open>packed_eth_signature.rs\<close>) and the conversions of
  \<open>src/crates/types/src/l2/mod.rs\<close>. The lemmas show that the hash which the VM recomputes for a transaction is the hash its
  raw bytes were given, and what an accepted request guarantees.

  The \<open>rlp\<close> crate and secp256k1 are records of parameters. An \<open>L2Tx\<close> is a \<open>transaction\<close> with \<open>L2Common\<close> data. Errors are
  failures with the message of the source.
\<close>

section \<open>Signatures\<close>

text \<open>A signature is its 65 bytes: \<open>r\<close>, \<open>s\<close> and the recovery byte.\<close>

type_synonym eth_signature = "u8 list"

definition sig_r :: "eth_signature \<Rightarrow> u256" where
  "sig_r sig = from_be_bytes (take 32 sig)"

definition sig_s :: "eth_signature \<Rightarrow> u256" where
  "sig_s sig = from_be_bytes (take 32 (drop 32 sig))"

definition sig_v :: "eth_signature \<Rightarrow> u8" where
  "sig_v sig = sig ! 64"

definition into_electrum :: "eth_signature \<Rightarrow> u8 list" where
  "into_electrum sig = sig[64 := sig ! 64 + 27]"

definition from_rsv :: "h256 \<Rightarrow> h256 \<Rightarrow> u8 \<Rightarrow> eth_signature" where
  "from_rsv r s v = as_bytes r @ as_bytes s @ [v]"

definition deserialize_packed_no_v_check :: "u8 list \<Rightarrow> eth_signature option" where
  "deserialize_packed_no_v_check bytes = (if length bytes \<noteq> 65 then None else Some bytes)"

definition deserialize_packed :: "u8 list \<Rightarrow> eth_signature option" where
  "deserialize_packed bytes = (if length bytes \<noteq> 65 then None
     else Some (if bytes ! 64 \<ge> 27 then bytes[64 := bytes ! 64 - 27] else bytes))"

definition v_with_chain_id :: "eth_signature \<Rightarrow> u64 \<Rightarrow> u64" where
  "v_with_chain_id sig chain_id = ucast (sig_v sig) + 35 + chain_id * 2"

definition unpack_v :: "u64 \<Rightarrow> (u8 \<times> u64 option) option" where
  "unpack_v v =
     (if v = 27 then Some (0, None)
      else if v = 28 then Some (1, None)
      else if v \<ge> 35
      then let chain_id = drop_bit 1 (v - 35); parity = v - 35 - chain_id * 2 in
           if parity = 0 then Some (0, Some chain_id) else if parity = 1 then Some (1, Some chain_id) else None
      else None)"

record secp256k1 =
  recover_ecdsa :: "u8 list \<Rightarrow> u8 \<Rightarrow> h256 \<Rightarrow> u8 list option"

definition recover_public :: "secp256k1 \<Rightarrow> eth_signature \<Rightarrow> h256 \<Rightarrow> u8 list option" where
  "recover_public K sig message = map_option (\<lambda>serialized. take 64 (drop 1 serialized)) (recover_ecdsa K (take 64 sig) (sig ! 64) message)"

definition public_to_address :: "hash_fn \<Rightarrow> u8 list \<Rightarrow> address" where
  "public_to_address keccak public = from_be_bytes (drop 12 (as_bytes (keccak public)))"

definition signature_recover_signer :: "hash_fn \<Rightarrow> secp256k1 \<Rightarrow> eth_signature \<Rightarrow> h256 \<Rightarrow> address option" where
  "signature_recover_signer keccak K sig message = map_option (public_to_address keccak) (recover_public K sig message)"

section \<open>RLP\<close>

text \<open>
  What is appended to an \<open>RlpStream\<close>: numbers, byte strings (addresses, strings and vectors) and lists. A view \<open>Rlp\<close> is the
  raw bytes it was made from; \<open>rlp_uint n\<close> decodes a number of \<open>n\<close> bits.
\<close>

datatype rlp_item = RlpUint u256 | RlpBytes "u8 list" | RlpList "rlp_item list"

record rlp =
  rlp_out :: "rlp_item \<Rightarrow> u8 list"
  rlp_item_count :: "u8 list \<Rightarrow> nat option"
  rlp_at :: "u8 list \<Rightarrow> nat \<Rightarrow> u8 list option"
  rlp_uint :: "nat \<Rightarrow> u8 list \<Rightarrow> u256 option"
  rlp_address :: "u8 list \<Rightarrow> address option"
  rlp_bytes :: "u8 list \<Rightarrow> u8 list option"
  rlp_bytes_list :: "u8 list \<Rightarrow> u8 list list option"

definition uint_val_at :: "rlp \<Rightarrow> u8 list \<Rightarrow> nat \<Rightarrow> u256 option" where
  "uint_val_at L bs i = Option.bind (rlp_at L bs i) (rlp_uint L 256)"

definition u64_val_at :: "rlp \<Rightarrow> u8 list \<Rightarrow> nat \<Rightarrow> u64 option" where
  "u64_val_at L bs i = map_option ucast (Option.bind (rlp_at L bs i) (rlp_uint L 64))"

definition address_val_at :: "rlp \<Rightarrow> u8 list \<Rightarrow> nat \<Rightarrow> address option" where
  "address_val_at L bs i = Option.bind (rlp_at L bs i) (rlp_address L)"

definition bytes_val_at :: "rlp \<Rightarrow> u8 list \<Rightarrow> nat \<Rightarrow> u8 list option" where
  "bytes_val_at L bs i = Option.bind (rlp_at L bs i) (rlp_bytes L)"

definition list_val_at :: "rlp \<Rightarrow> u8 list \<Rightarrow> nat \<Rightarrow> u8 list list option" where
  "list_val_at L bs i = Option.bind (rlp_at L bs i) (rlp_bytes_list L)"

abbreviation decoded :: "'a option \<Rightarrow> 'a res" where
  "decoded \<equiv> ok_or (Failure ''decodeRlpError'')"

section \<open>Requests\<close>

record access_list_item =
  al_address :: address
  al_storage_keys :: "h256 list"

record eip712_meta =
  meta_gas_per_pubdata :: u256
  meta_factory_deps :: "u8 list list"
  meta_custom_signature :: "u8 list option"
  meta_paymaster_params :: "paymaster_params option"

record transaction_request =
  tr_nonce :: u256
  tr_from :: "address option"
  tr_to :: "address option"
  tr_value :: u256
  tr_gas_price :: u256
  tr_gas :: u256
  tr_max_priority_fee_per_gas :: "u256 option"
  tr_input :: "u8 list"
  tr_v :: "u64 option"
  tr_r :: "u256 option"
  tr_s :: "u256 option"
  tr_raw :: "u8 list option"
  tr_transaction_type :: "u64 option"
  tr_access_list :: "access_list_item list option"
  tr_eip712_meta :: "eip712_meta option"
  tr_chain_id :: "u64 option"

definition default_request :: transaction_request where
  "default_request = \<lparr>tr_nonce = 0, tr_from = None, tr_to = None, tr_value = 0, tr_gas_price = 0, tr_gas = 0,
     tr_max_priority_fee_per_gas = None, tr_input = [], tr_v = None, tr_r = None, tr_s = None, tr_raw = None,
     tr_transaction_type = None, tr_access_list = None, tr_eip712_meta = None, tr_chain_id = None\<rparr>"

definition paymaster_from_vector :: "u8 list list \<Rightarrow> paymaster_params option res" where
  "paymaster_from_vector vs =
     (if vs = [] then Inr None
      else ensure (length vs = 2 \<and> length (vs ! 0) = 20) (Failure ''malformed paymaster params'')
        (Inr (Some \<lparr>pm_paymaster = from_be_bytes (vs ! 0), pm_paymaster_input = vs ! 1\<rparr>)))"

definition get_custom_signature :: "transaction_request \<Rightarrow> u8 list option" where
  "get_custom_signature tx = Option.bind (tr_eip712_meta tx) meta_custom_signature"

definition get_paymaster :: "transaction_request \<Rightarrow> address option" where
  "get_paymaster tx = Option.bind (tr_eip712_meta tx) (\<lambda>m. map_option pm_paymaster (meta_paymaster_params m))"

definition get_paymaster_input :: "transaction_request \<Rightarrow> u8 list option" where
  "get_paymaster_input tx = Option.bind (tr_eip712_meta tx) (\<lambda>m. map_option pm_paymaster_input (meta_paymaster_params m))"

definition get_factory_deps :: "transaction_request \<Rightarrow> u8 list list" where
  "get_factory_deps tx = (case tr_eip712_meta tx of Some m \<Rightarrow> meta_factory_deps m | None \<Rightarrow> [])"

definition is_legacy_tx :: "transaction_request \<Rightarrow> bool" where
  "is_legacy_tx tx \<longleftrightarrow> tr_transaction_type tx = None \<or> tr_transaction_type tx = Some (ucast LEGACY_TX_TYPE)"

definition is_eip712_tx :: "transaction_request \<Rightarrow> bool" where
  "is_eip712_tx tx \<longleftrightarrow> tr_transaction_type tx = Some (ucast EIP_712_TX_TYPE)"

abbreviation default_to :: "'a \<Rightarrow> 'a option \<Rightarrow> 'a" where
  "default_to d x \<equiv> (case x of Some y \<Rightarrow> y | None \<Rightarrow> d)"

definition request_members :: "transaction_request \<Rightarrow> h256 list \<Rightarrow> (string \<times> member_value) list res" where
  "request_members tx factory_dep_hashes =
     and_then (ok_or (Panic (PanicMsg ''We can sign transaction only with meta'')) (tr_eip712_meta tx)) (\<lambda>meta.
     and_then (ok_or (Panic (PanicMsg ''We can only sign transactions with known sender'')) (tr_from tx)) (\<lambda>sender.
       Inr [(''txType'', MU256 (case tr_transaction_type tx of Some x \<Rightarrow> ucast x | None \<Rightarrow> ucast EIP_712_TX_TYPE)),
         (''from'', MU256 (from_be_bytes (address_bytes sender))),
         (''to'', MU256 (from_be_bytes (address_bytes (default_to 0 (tr_to tx))))),
         (''gasLimit'', MU256 (tr_gas tx)),
         (''gasPerPubdataByteLimit'', MU256 (meta_gas_per_pubdata meta)),
         (''maxFeePerGas'', MU256 (tr_gas_price tx)),
         (''maxPriorityFeePerGas'', MU256 (default_to (tr_gas_price tx) (tr_max_priority_fee_per_gas tx))),
         (''paymaster'', MU256 (from_be_bytes (address_bytes (default_to 0 (get_paymaster tx))))),
         (''nonce'', MU256 (tr_nonce tx)),
         (''value'', MU256 (tr_value tx)),
         (''data'', MBytes (tr_input tx)),
         (''factoryDeps'', MHashes factory_dep_hashes),
         (''paymasterInput'', MBytes (default_to [] (get_paymaster_input tx)))]))"

definition get_packed_signature :: "transaction_request \<Rightarrow> eth_signature res" where
  "get_packed_signature tx =
     and_then (ok_or (Failure ''incompleteSignature'') (tr_v tx)) (\<lambda>packed_v.
     and_then (if \<not> is_legacy_tx tx then ensure (packed_v < 256) (Failure ''invalid signature'') (Inr (ucast packed_v))
         else map_res fst (ok_or (Failure ''invalid signature'') (unpack_v packed_v))) (\<lambda>v.
     and_then (ok_or (Failure ''incompleteSignature'') (tr_r tx)) (\<lambda>r.
     and_then (ok_or (Failure ''incompleteSignature'') (tr_s tx)) (\<lambda>s.
       Inr (from_rsv r s v)))))"

definition get_signature :: "transaction_request \<Rightarrow> u8 list res" where
  "get_signature tx = (case get_custom_signature tx of
      Some sig \<Rightarrow> if sig \<noteq> [] then Inr sig else map_res into_electrum (get_packed_signature tx)
    | None \<Rightarrow> map_res into_electrum (get_packed_signature tx))"

section \<open>Encoding\<close>

abbreviation rlp_opt :: "('a \<Rightarrow> rlp_item) \<Rightarrow> 'a option \<Rightarrow> rlp_item" where
  "rlp_opt f x \<equiv> (case x of Some y \<Rightarrow> f y | None \<Rightarrow> RlpBytes [])"

abbreviation rlp_of_address :: "address \<Rightarrow> rlp_item" where
  "rlp_of_address a \<equiv> RlpBytes (address_bytes a)"

definition access_list_rlp :: "access_list_item list option \<Rightarrow> rlp_item" where
  "access_list_rlp access_list = RlpList (case access_list of
      Some items \<Rightarrow> map (\<lambda>i. RlpList [rlp_of_address (al_address i), RlpList (map (\<lambda>k. RlpBytes (as_bytes k)) (al_storage_keys i))]) items
    | None \<Rightarrow> [])"

definition meta_rlp :: "eip712_meta \<Rightarrow> rlp_item list" where
  "meta_rlp m = [RlpUint (meta_gas_per_pubdata m), RlpList (map RlpBytes (meta_factory_deps m)), rlp_opt RlpBytes (meta_custom_signature m),
     RlpList (case meta_paymaster_params m of Some p \<Rightarrow> [rlp_of_address (pm_paymaster p), RlpBytes (pm_paymaster_input p)] | None \<Rightarrow> [])]"

abbreviation known_chain_id :: "transaction_request \<Rightarrow> u64 res" where
  "known_chain_id tx \<equiv> ok_or (Failure ''wrong chain id'') (tr_chain_id tx)"

definition standard_fields :: "transaction_request \<Rightarrow> rlp_item list" where
  "standard_fields tx = [RlpUint (tr_nonce tx), RlpUint (tr_gas_price tx), RlpUint (tr_gas tx), rlp_opt rlp_of_address (tr_to tx),
     RlpUint (tr_value tx), RlpBytes (tr_input tx)]"

definition eip1559_fields :: "transaction_request \<Rightarrow> rlp_item list" where
  "eip1559_fields tx = [RlpUint (tr_nonce tx), rlp_opt RlpUint (tr_max_priority_fee_per_gas tx), RlpUint (tr_gas_price tx), RlpUint (tr_gas tx),
     rlp_opt rlp_of_address (tr_to tx), RlpUint (tr_value tx), RlpBytes (tr_input tx)]"

definition body_rlp :: "transaction_request \<Rightarrow> rlp_item list res" where
  "body_rlp tx =
     (let t = tr_transaction_type tx in
      if t = Some (ucast EIP_2930_TX_TYPE)
      then map_res (\<lambda>c. RlpUint (ucast c) # standard_fields tx @ [access_list_rlp (tr_access_list tx)]) (known_chain_id tx)
      else if t = Some (ucast EIP_1559_TX_TYPE)
      then map_res (\<lambda>c. RlpUint (ucast c) # eip1559_fields tx @ [access_list_rlp (tr_access_list tx)]) (known_chain_id tx)
      else if t = Some (ucast EIP_712_TX_TYPE) then Inr (eip1559_fields tx)
      else if t = Some (ucast LEGACY_TX_TYPE) then Inr (standard_fields tx)
      else if t = None then Inr (standard_fields tx)
      else Inl (Panic (PanicMsg ''Unknown tx type'')))"

definition signature_rlp :: "transaction_request \<Rightarrow> eth_signature option \<Rightarrow> rlp_item list" where
  "signature_rlp tx signature = (case (signature, tr_chain_id tx, is_legacy_tx tx) of
      (Some sig, Some c, True) \<Rightarrow> [RlpUint (ucast (v_with_chain_id sig c)), RlpUint (sig_r sig), RlpUint (sig_s sig)]
    | (None, Some c, True) \<Rightarrow> [RlpUint (ucast c), RlpUint 0, RlpUint 0]
    | (Some sig, _, _) \<Rightarrow> [RlpUint (ucast (sig_v sig)), RlpUint (sig_r sig), RlpUint (sig_s sig)]
    | (None, _, _) \<Rightarrow> [])"

definition request_items :: "transaction_request \<Rightarrow> eth_signature option \<Rightarrow> rlp_item list res" where
  "request_items tx signature =
     and_then (body_rlp tx) (\<lambda>body.
     and_then (if is_eip712_tx tx
         then map_res (\<lambda>c. [RlpUint (ucast c), rlp_opt rlp_of_address (tr_from tx)] @
           (case tr_eip712_meta tx of Some m \<Rightarrow> meta_rlp m | None \<Rightarrow> [])) (known_chain_id tx)
         else Inr []) (\<lambda>rest.
       Inr (body @ signature_rlp tx signature @ rest)))"

definition request_rlp :: "rlp \<Rightarrow> transaction_request \<Rightarrow> eth_signature option \<Rightarrow> u8 list res" where
  "request_rlp L tx signature = map_res (\<lambda>items. rlp_out L (RlpList items)) (request_items tx signature)"

definition get_rlp :: "rlp \<Rightarrow> transaction_request \<Rightarrow> u8 list res" where
  "get_rlp L tx = request_rlp L tx None"

definition with_type_byte :: "transaction_request \<Rightarrow> u8 list \<Rightarrow> u8 list" where
  "with_type_byte tx data = (case tr_transaction_type tx of Some t \<Rightarrow> ucast t # data | None \<Rightarrow> data)"

definition get_signed_bytes :: "rlp \<Rightarrow> transaction_request \<Rightarrow> eth_signature \<Rightarrow> u8 list res" where
  "get_signed_bytes L tx signature = map_res (with_type_byte tx) (request_rlp L tx (Some signature))"

definition set_signature :: "transaction_request \<Rightarrow> eth_signature \<Rightarrow> transaction_request" where
  "set_signature tx sig = tx\<lparr>tr_r := Some (sig_r sig), tr_s := Some (sig_s sig), tr_v := Some (ucast (sig_v sig))\<rparr>"

section \<open>Hashes\<close>

definition L2_CHAIN_ID_MAX :: u64 where "L2_CHAIN_ID_MAX = (2 ^ 53 - 1 - 36) div 2"

text \<open>The surroundings: hash functions, RLP, secp256k1 and the clock.\<close>

record request_env =
  rq_sha256 :: hash_fn
  rq_keccak :: hash_fn
  rq_rlp :: rlp
  rq_secp :: secp256k1
  rq_now :: u64

definition l2_chain_id_new :: "u64 \<Rightarrow> u64 res" where
  "l2_chain_id_new n = ensure (n \<le> L2_CHAIN_ID_MAX) (Failure ''Cannot convert given value into L2ChainId'') (Inr n)"

definition typed_message :: "request_env \<Rightarrow> transaction_request \<Rightarrow> u64 \<Rightarrow> h256 list res \<Rightarrow> h256 res" where
  "typed_message E tx chain_id dep_hashes =
     and_then (case l2_chain_id_new chain_id of Inr c \<Rightarrow> Inr c | Inl _ \<Rightarrow> Inl (Panic (PanicMsg ''unwrap on Err''))) (\<lambda>c.
     and_then dep_hashes (\<lambda>hashes.
     and_then (request_members tx hashes) (\<lambda>ms.
       Inr (typed_data_to_signed_bytes (rq_keccak E) (domain_new c) ''Transaction'' ms))))"

definition get_default_signed_message :: "request_env \<Rightarrow> transaction_request \<Rightarrow> h256 res" where
  "get_default_signed_message E tx =
     (if is_eip712_tx tx
      then and_then (known_chain_id tx) (\<lambda>chain_id.
             typed_message E tx chain_id (deps_hashes (rq_sha256 E) (get_factory_deps tx)))
      else map_res (\<lambda>data. rq_keccak E (with_type_byte tx data)) (get_rlp (rq_rlp E) tx))"

definition get_default_signed_message_with_factory_dep_hashes :: "request_env \<Rightarrow> transaction_request \<Rightarrow> h256 list \<Rightarrow> h256 res" where
  "get_default_signed_message_with_factory_dep_hashes E tx hashes =
     (if \<not> is_eip712_tx tx then get_default_signed_message E tx
      else and_then (ok_or (Panic (PanicMsg ''We can sign transaction only with meta'')) (tr_eip712_meta tx)) (\<lambda>meta.
        if length (meta_factory_deps meta) \<noteq> length hashes then get_default_signed_message E tx
        else and_then (known_chain_id tx) (\<lambda>chain_id. typed_message E tx chain_id (Inr hashes))))"

definition get_tx_hash_with_signed_message :: "request_env \<Rightarrow> transaction_request \<Rightarrow> h256 \<Rightarrow> h256 option res" where
  "get_tx_hash_with_signed_message E tx signed_message =
     (if is_eip712_tx tx
      then map_res (\<lambda>sig. Some (rq_keccak E (as_bytes signed_message @ as_bytes (rq_keccak E sig)))) (get_signature tx)
      else Inr (map_option (rq_keccak E) (tr_raw tx)))"

definition hashes_of_message :: "request_env \<Rightarrow> transaction_request \<Rightarrow> h256 \<Rightarrow> (h256 \<times> h256) res" where
  "hashes_of_message E tx signed_message =
     and_then (get_tx_hash_with_signed_message E tx signed_message) (\<lambda>known. case known of
       Some h \<Rightarrow> Inr (signed_message, h)
     | None \<Rightarrow>
         and_then (get_packed_signature tx) (\<lambda>signature.
         and_then (get_signed_bytes (rq_rlp E) tx signature) (\<lambda>data.
           Inr (signed_message, rq_keccak E data))))"

definition get_signed_and_tx_hashes :: "request_env \<Rightarrow> transaction_request \<Rightarrow> (h256 \<times> h256) res" where
  "get_signed_and_tx_hashes E tx = and_then (get_default_signed_message E tx) (hashes_of_message E tx)"

definition get_tx_hash :: "request_env \<Rightarrow> transaction_request \<Rightarrow> h256 res" where
  "get_tx_hash E tx = map_res snd (get_signed_and_tx_hashes E tx)"

definition get_signed_and_tx_hashes_with_factory_dep_hashes :: "request_env \<Rightarrow> transaction_request \<Rightarrow> h256 list \<Rightarrow> (h256 \<times> h256) res" where
  "get_signed_and_tx_hashes_with_factory_dep_hashes E tx hashes =
     and_then (get_default_signed_message_with_factory_dep_hashes E tx hashes) (hashes_of_message E tx)"

definition recover_default_signer :: "request_env \<Rightarrow> transaction_request \<Rightarrow> h256 \<Rightarrow> address res" where
  "recover_default_signer E tx message =
     and_then (get_signature tx) (\<lambda>signature.
     and_then (ok_or (Failure ''invalid signature'') (deserialize_packed signature)) (\<lambda>sig.
       ok_or (Failure ''invalid signature'') (signature_recover_signer (rq_keccak E) (rq_secp E) sig message)))"

section \<open>Decoding\<close>

definition decode_standard_fields :: "rlp \<Rightarrow> u8 list \<Rightarrow> nat \<Rightarrow> transaction_request \<Rightarrow> transaction_request res" where
  "decode_standard_fields L bs offset rq =
     and_then (decoded (uint_val_at L bs offset)) (\<lambda>nonce.
     and_then (decoded (uint_val_at L bs (offset + 1))) (\<lambda>gas_price.
     and_then (decoded (uint_val_at L bs (offset + 2))) (\<lambda>gas.
     and_then (decoded (uint_val_at L bs (offset + 4))) (\<lambda>val.
     and_then (decoded (bytes_val_at L bs (offset + 5))) (\<lambda>inp.
       Inr (rq\<lparr>tr_nonce := nonce, tr_gas_price := gas_price, tr_gas := gas, tr_to := address_val_at L bs (offset + 3),
         tr_value := val, tr_input := inp\<rparr>))))))"

definition decode_eip1559_fields :: "rlp \<Rightarrow> u8 list \<Rightarrow> nat \<Rightarrow> transaction_request \<Rightarrow> transaction_request res" where
  "decode_eip1559_fields L bs offset rq =
     and_then (decoded (uint_val_at L bs offset)) (\<lambda>nonce.
     and_then (decoded (uint_val_at L bs (offset + 2))) (\<lambda>gas_price.
     and_then (decoded (uint_val_at L bs (offset + 3))) (\<lambda>gas.
     and_then (decoded (uint_val_at L bs (offset + 5))) (\<lambda>val.
     and_then (decoded (bytes_val_at L bs (offset + 6))) (\<lambda>inp.
       Inr (rq\<lparr>tr_nonce := nonce, tr_max_priority_fee_per_gas := uint_val_at L bs (offset + 1), tr_gas_price := gas_price, tr_gas := gas,
         tr_to := address_val_at L bs (offset + 4), tr_value := val, tr_input := inp\<rparr>))))))"

definition with_item_count :: "rlp \<Rightarrow> u8 list \<Rightarrow> nat \<Rightarrow> 'a res \<Rightarrow> 'a res" where
  "with_item_count L bs n k = and_then (decoded (rlp_item_count L bs)) (\<lambda>c. ensure (c = n) (Failure ''decodeRlpError'') k)"

definition vrs_at :: "rlp \<Rightarrow> u8 list \<Rightarrow> nat \<Rightarrow> (u64 \<times> u256 \<times> u256) res" where
  "vrs_at L bs i =
     and_then (decoded (u64_val_at L bs i)) (\<lambda>v.
     and_then (decoded (uint_val_at L bs (i + 1))) (\<lambda>r.
     and_then (decoded (uint_val_at L bs (i + 2))) (\<lambda>s. Inr (v, r, s))))"

definition decode_legacy :: "rlp \<Rightarrow> u8 list \<Rightarrow> transaction_request res" where
  "decode_legacy L bs =
     with_item_count L bs 9
     (and_then (decoded (u64_val_at L bs 6)) (\<lambda>packed_v.
      and_then (ok_or (Failure ''invalid signature'') (unpack_v packed_v)) (\<lambda>unpacked.
      and_then (vrs_at L bs 6) (\<lambda>(v, r, s).
        decode_standard_fields L bs 0 (default_request\<lparr>tr_chain_id := snd unpacked, tr_v := Some v, tr_r := Some r, tr_s := Some s\<rparr>)))))"

definition decode_eip1559 :: "rlp \<Rightarrow> u8 list \<Rightarrow> transaction_request res" where
  "decode_eip1559 L bs =
     with_item_count L bs 12
     (and_then (case rlp_at L bs 8 of
         Some al \<Rightarrow> and_then (decoded (rlp_item_count L al)) (\<lambda>n. ensure (n = 0) (Failure ''access lists are not supported'') (Inr ()))
       | None \<Rightarrow> Inr ()) (\<lambda>_.
      and_then (decoded (u64_val_at L bs 0)) (\<lambda>chain_id.
      and_then (vrs_at L bs 9) (\<lambda>(v, r, s).
        decode_eip1559_fields L bs 1 (default_request\<lparr>tr_chain_id := Some chain_id, tr_v := Some v, tr_r := Some r, tr_s := Some s,
          tr_raw := Some bs, tr_transaction_type := Some (ucast EIP_1559_TX_TYPE)\<rparr>)))))"

definition decode_eip712 :: "rlp \<Rightarrow> u8 list \<Rightarrow> transaction_request res" where
  "decode_eip712 L bs =
     with_item_count L bs 16
     (and_then (vrs_at L bs 7) (\<lambda>(v, r, s).
      and_then (decoded (uint_val_at L bs 12)) (\<lambda>gas_per_pubdata.
      and_then (decoded (list_val_at L bs 13)) (\<lambda>factory_deps.
      and_then (case list_val_at L bs 15 of Some params \<Rightarrow> paymaster_from_vector params | None \<Rightarrow> Inr None) (\<lambda>paymaster.
      and_then (decoded (u64_val_at L bs 10)) (\<lambda>chain_id.
      and_then (decoded (address_val_at L bs 11)) (\<lambda>sender.
        decode_eip1559_fields L bs 0 (default_request\<lparr>tr_v := Some v, tr_r := Some r, tr_s := Some s,
          tr_eip712_meta := Some \<lparr>meta_gas_per_pubdata = gas_per_pubdata, meta_factory_deps = factory_deps,
            meta_custom_signature = bytes_val_at L bs 14, meta_paymaster_params = paymaster\<rparr>,
          tr_chain_id := Some chain_id, tr_transaction_type := Some (ucast EIP_712_TX_TYPE), tr_from := Some sender\<rparr>))))))))"

definition validate_factory_deps :: "u8 list list \<Rightarrow> unit res" where
  "validate_factory_deps deps = map_res (\<lambda>_. ()) (collect_res (map (\<lambda>dep.
     case validate_bytecode dep of Inr _ \<Rightarrow> Inr () | Inl _ \<Rightarrow> Inl (Failure ''factory dependency is invalid'')) deps))"

definition decode_request :: "rlp \<Rightarrow> u8 list \<Rightarrow> transaction_request res" where
  "decode_request L bytes = (case bytes of
      [] \<Rightarrow> Inl (Failure ''transaction type is not supported'')
    | x # rest \<Rightarrow>
        if x \<ge> 0x80 then decode_legacy L bytes
        else if x = EIP_1559_TX_TYPE then decode_eip1559 L rest
        else if x = EIP_712_TX_TYPE then decode_eip712 L rest
        else if x = EIP_2930_TX_TYPE then Inl (Failure ''access lists are not supported'')
        else Inl (Failure ''transaction type is not supported''))"

definition from_bytes_unverified :: "request_env \<Rightarrow> u8 list \<Rightarrow> (transaction_request \<times> h256) res" where
  "from_bytes_unverified E bytes =
     and_then (decode_request (rq_rlp E) bytes) (\<lambda>tx.
     and_then (case tr_eip712_meta tx of Some m \<Rightarrow> validate_factory_deps (meta_factory_deps m) | None \<Rightarrow> Inr ()) (\<lambda>_.
     let tx = tx\<lparr>tr_raw := Some bytes\<rparr> in
     and_then (get_default_signed_message E tx) (\<lambda>message.
     let tx = (if tr_from tx = None then tx\<lparr>tr_from := ok (recover_default_signer E tx message)\<rparr> else tx) in
     and_then (get_tx_hash_with_signed_message E tx message) (\<lambda>known.
     and_then (ok_or (Panic (PanicMsg ''unwrap on None'')) known) (\<lambda>h. Inr (tx, h))))))"

definition from_bytes :: "request_env \<Rightarrow> u8 list \<Rightarrow> u64 \<Rightarrow> (transaction_request \<times> h256) res" where
  "from_bytes E bytes chain_id =
     and_then (from_bytes_unverified E bytes) (\<lambda>(tx, h).
     ensure (tr_chain_id tx = None \<or> tr_chain_id tx = Some chain_id) (Failure ''wrong chain id'') (Inr (tx, h)))"

section \<open>Conversions\<close>

definition DEFAULT_L2_TX_GAS_PER_PUBDATA_BYTE :: u64 where "DEFAULT_L2_TX_GAS_PER_PUBDATA_BYTE = 50000"
definition MAX_ENCODED_TX_SIZE :: nat where "MAX_ENCODED_TX_SIZE = 2 ^ 24"

abbreviation u64_max :: u256 where "u64_max \<equiv> 2 ^ 64 - 1"

definition get_fee_data_checked :: "transaction_request \<Rightarrow> fee res" where
  "get_fee_data_checked tx =
     ensure (tr_gas_price tx \<le> u64_max) (Failure ''max fee per gas higher than 2^64-1'')
     (and_then (case tr_eip712_meta tx of
         Some m \<Rightarrow> ensure (meta_gas_per_pubdata m \<le> u64_max) (Failure ''max fee per pubdata byte higher than 2^64-1'')
           (ensure (meta_gas_per_pubdata m \<noteq> 0) (Failure ''gas per pub data limit is zero'') (Inr (meta_gas_per_pubdata m)))
       | None \<Rightarrow> Inr (ucast DEFAULT_L2_TX_GAS_PER_PUBDATA_BYTE)) (\<lambda>gas_per_pubdata_limit.
      let priority = default_to (tr_gas_price tx) (tr_max_priority_fee_per_gas tx) in
      ensure (priority \<le> u64_max) (Failure ''max priority fee per gas higher than 2^64-1'')
        (Inr \<lparr>fee_gas_limit = tr_gas tx, fee_max_fee_per_gas = tr_gas_price tx, fee_max_priority_fee_per_gas = priority,
              fee_gas_per_pubdata_limit = gas_per_pubdata_limit\<rparr>)))"

definition get_nonce_checked :: "transaction_request \<Rightarrow> u32 res" where
  "get_nonce_checked tx = ensure (tr_nonce tx \<le> 2 ^ 32 - 1) (Failure ''nonce has max value'') (Inr (ucast (tr_nonce tx)))"

definition l2_tx_new ::
  "address option \<Rightarrow> u8 list \<Rightarrow> u32 \<Rightarrow> fee \<Rightarrow> address \<Rightarrow> u256 \<Rightarrow> u8 list list \<Rightarrow> paymaster_params \<Rightarrow> l2_tx_common_data \<times> execute_data" where
  "l2_tx_new recipient calldata nonce f initiator val deps paymaster =
     (\<lparr>l2_nonce = nonce, l2_fee = f, l2_initiator_address = initiator, l2_signature = [], l2_transaction_type = EIP712Transaction,
       l2_input = None, l2_paymaster_params = paymaster\<rparr>,
      \<lparr>ex_contract_address = recipient, ex_calldata = calldata, ex_value = val, ex_factory_deps = deps\<rparr>)"

definition request_transaction_type :: "transaction_request \<Rightarrow> transaction_type" where
  "request_transaction_type tx = (case map_option ucast (tr_transaction_type tx) of
      None \<Rightarrow> LegacyTransaction
    | Some t \<Rightarrow> if t = EIP_712_TX_TYPE then EIP712Transaction else if t = EIP_1559_TX_TYPE then EIP1559Transaction
        else if t = EIP_2930_TX_TYPE then EIP2930Transaction else LegacyTransaction)"

abbreviation default_meta :: eip712_meta where
  "default_meta \<equiv> \<lparr>meta_gas_per_pubdata = 0, meta_factory_deps = [], meta_custom_signature = None, meta_paymaster_params = None\<rparr>"

abbreviation default_paymaster :: paymaster_params where
  "default_paymaster \<equiv> \<lparr>pm_paymaster = 0, pm_paymaster_input = []\<rparr>"

definition from_request_unverified :: "u64 \<Rightarrow> transaction_request \<Rightarrow> bool \<Rightarrow> transaction res" where
  "from_request_unverified now req allow_no_target =
     and_then (get_fee_data_checked req) (\<lambda>f.
     and_then (get_nonce_checked req) (\<lambda>nonce.
     let raw_signature = (case get_signature req of Inr sig \<Rightarrow> sig | Inl _ \<Rightarrow> []);
         meta = default_to default_meta (tr_eip712_meta req) in
     and_then (validate_factory_deps (meta_factory_deps meta)) (\<lambda>_.
     ensure (\<not> (tr_to req = None \<and> (\<not> allow_no_target \<or> is_eip712_tx req))) (Failure ''toAddressIsNull'')
     (case l2_tx_new (tr_to req) (tr_input req) nonce f (default_to 0 (tr_from req)) (tr_value req) (meta_factory_deps meta)
         (default_to default_paymaster (meta_paymaster_params meta)) of (d, ex) \<Rightarrow>
       Inr \<lparr>tx_common_data = L2Common (d\<lparr>l2_transaction_type := request_transaction_type req, l2_signature := raw_signature\<rparr>),
            tx_execute = ex, tx_received_timestamp_ms = now, tx_raw_bytes = tr_raw req\<rparr>))))"

definition set_input :: "transaction \<Rightarrow> u8 list \<Rightarrow> h256 \<Rightarrow> transaction" where
  "set_input tx data h = (case tx_common_data tx of
      L2Common d \<Rightarrow> tx\<lparr>tx_common_data := L2Common (d\<lparr>l2_input := Some \<lparr>in_hash = h, in_data = data\<rparr>\<rparr>)\<rparr>
    | _ \<Rightarrow> tx)"

definition check_encoded_size :: "transaction \<Rightarrow> nat \<Rightarrow> unit res" where
  "check_encoded_size tx max_tx_size = ensure (tx_encoding_len tx * 32 \<le> max_tx_size) (Failure ''oversized data'') (Inr ())"

definition from_request :: "u64 \<Rightarrow> transaction_request \<Rightarrow> nat \<Rightarrow> bool \<Rightarrow> transaction res" where
  "from_request now req max_tx_size allow_no_target =
     and_then (from_request_unverified now req allow_no_target) (\<lambda>tx.
     and_then (check_encoded_size tx max_tx_size) (\<lambda>_. Inr tx))"

text \<open>The raw L2 branch of \<open>Transaction::from_abi\<close>.\<close>

definition l2_from_raw :: "request_env \<Rightarrow> u8 list \<Rightarrow> bool \<Rightarrow> transaction res" where
  "l2_from_raw E raw allow_no_target =
     and_then (from_bytes_unverified E raw) (\<lambda>(req, h).
     and_then (from_request_unverified (rq_now E) req allow_no_target) (\<lambda>tx. Inr (set_input tx raw h)))"

definition extract_chain_id :: "rlp \<Rightarrow> u8 list \<Rightarrow> u64 option" where
  "extract_chain_id L bytes = (case bytes of
      [] \<Rightarrow> None
    | x # rest \<Rightarrow>
        if x \<ge> 0x80 then Option.bind (u64_val_at L bytes 6) (\<lambda>v. Option.bind (unpack_v v) snd)
        else if x = EIP_1559_TX_TYPE then u64_val_at L rest 0
        else if x = EIP_712_TX_TYPE then u64_val_at L rest 10
        else None)"

definition signature_to_vrs :: "u8 list \<Rightarrow> transaction_type \<Rightarrow> u64 option \<times> u256 option \<times> u256 option" where
  "signature_to_vrs signature t =
     (case (if t = LegacyTransaction then deserialize_packed_no_v_check signature else deserialize_packed signature) of
        Some sig \<Rightarrow> (Some (ucast (sig_v sig)), Some (sig_r sig), Some (sig_s sig))
      | None \<Rightarrow> (None, None, None))"

definition request_from_l2 :: "rlp \<Rightarrow> l2_tx_common_data \<Rightarrow> execute_data \<Rightarrow> u8 list option \<Rightarrow> transaction_request res" where
  "request_from_l2 L d ex raw =
     (let t = l2_transaction_type d; (v, r, s) = signature_to_vrs (l2_signature d) t;
          plain = \<lparr>tr_nonce = ucast (l2_nonce d), tr_from = Some (l2_initiator_address d), tr_to = ex_contract_address ex,
            tr_value = ex_value ex, tr_gas_price = fee_max_fee_per_gas (l2_fee d), tr_gas = fee_gas_limit (l2_fee d),
            tr_max_priority_fee_per_gas = None, tr_input = ex_calldata ex, tr_v = v, tr_r = r, tr_s = s, tr_raw = raw,
            tr_transaction_type = None, tr_access_list = None, tr_eip712_meta = None,
            tr_chain_id = Option.bind (l2_input d) (\<lambda>i. extract_chain_id L (in_data i))\<rparr>;
          typed = plain\<lparr>tr_transaction_type := Some (ucast (transaction_type_tag t)),
            tr_max_priority_fee_per_gas := Some (fee_max_priority_fee_per_gas (l2_fee d))\<rparr> in
      case t of
        LegacyTransaction \<Rightarrow> Inr plain
      | EIP712Transaction \<Rightarrow> Inr (typed\<lparr>tr_eip712_meta := Some \<lparr>meta_gas_per_pubdata = fee_gas_per_pubdata_limit (l2_fee d),
          meta_factory_deps = ex_factory_deps ex, meta_custom_signature = Some (l2_signature d),
          meta_paymaster_params = Some (l2_paymaster_params d)\<rparr>\<rparr>)
      | EIP1559Transaction \<Rightarrow> Inr typed
      | EIP2930Transaction \<Rightarrow> Inr typed
      | _ \<Rightarrow> Inl (Panic (PanicMsg ''Invalid transaction type'')))"

definition expect_res :: "string \<Rightarrow> 'a res \<Rightarrow> 'a res" where
  "expect_res msg r = (case r of Inr x \<Rightarrow> Inr x | Inl (Panic m) \<Rightarrow> Inl (Panic m) | Inl _ \<Rightarrow> Inl (Panic (PanicMsg msg)))"

text \<open>The hashes the VM asks for: \<open>TransactionData::signed_and_tx_hashes\<close> on an L2 transaction.\<close>

definition l2_tx_hashes :: "request_env \<Rightarrow> transaction_data \<Rightarrow> u64 \<Rightarrow> (h256 \<times> h256) res" where
  "l2_tx_hashes E td chain_id =
     and_then (td_try_into_l2 td) (\<lambda>tx. case tx_common_data tx of
       L2Common d \<Rightarrow>
         and_then (request_from_l2 (rq_rlp E) d (tx_execute tx) (tx_raw_bytes tx)) (\<lambda>req.
         expect_res ''Could not recover L2 transaction hash''
           (get_signed_and_tx_hashes_with_factory_dep_hashes E (req\<lparr>tr_chain_id := Some chain_id\<rparr>) (td_factory_deps_hashes td)))
     | _ \<Rightarrow> Inl (Panic TxHashError))"

section \<open>Calls\<close>

record call_request =
  cr_from :: "address option"
  cr_to :: "address option"
  cr_gas :: "u256 option"
  cr_gas_price :: "u256 option"
  cr_max_fee_per_gas :: "u256 option"
  cr_max_priority_fee_per_gas :: "u256 option"
  cr_value :: "u256 option"
  cr_data :: "u8 list option"
  cr_input :: "u8 list option"
  cr_nonce :: "u256 option"
  cr_transaction_type :: "u64 option"
  cr_access_list :: "access_list_item list option"
  cr_eip712_meta :: "eip712_meta option"

definition option_or :: "'a option \<Rightarrow> 'a option \<Rightarrow> 'a option" where
  "option_or x y = (case x of Some _ \<Rightarrow> x | None \<Rightarrow> y)"

definition get_call_overrides :: "call_request \<Rightarrow> u64 option res" where
  "get_call_overrides c = (case option_or (cr_max_fee_per_gas c) (cr_gas_price c) of
      Some p \<Rightarrow> ensure (unat p < 2 ^ 64) (Failure ''max fee per gas higher than 2^64-1'') (Inr (Some (ucast p)))
    | None \<Rightarrow> Inr None)"

definition call_request_from_l2 :: "l2_tx_common_data \<Rightarrow> execute_data \<Rightarrow> call_request" where
  "call_request_from_l2 d ex =
     \<lparr>cr_from = Some (l2_initiator_address d), cr_to = ex_contract_address ex, cr_gas = Some (fee_gas_limit (l2_fee d)), cr_gas_price = None,
      cr_max_fee_per_gas = Some (fee_max_fee_per_gas (l2_fee d)), cr_max_priority_fee_per_gas = Some (fee_max_priority_fee_per_gas (l2_fee d)),
      cr_value = None, cr_data = Some (ex_calldata ex), cr_input = None, cr_nonce = None,
      cr_transaction_type = (if l2_transaction_type d = LegacyTransaction then None else Some (ucast (transaction_type_tag (l2_transaction_type d)))),
      cr_access_list = None,
      cr_eip712_meta = Some \<lparr>meta_gas_per_pubdata = fee_gas_per_pubdata_limit (l2_fee d), meta_factory_deps = ex_factory_deps ex,
        meta_custom_signature = Some (l2_signature d), meta_paymaster_params = Some (l2_paymaster_params d)\<rparr>\<rparr>"

definition request_from_call :: "call_request \<Rightarrow> transaction_request" where
  "request_from_call c = default_request\<lparr>tr_nonce := default_to 0 (cr_nonce c), tr_from := cr_from c, tr_to := cr_to c,
     tr_value := default_to 0 (cr_value c), tr_gas_price := default_to 0 (cr_gas_price c), tr_gas := default_to 0 (cr_gas c),
     tr_input := default_to [] (option_or (cr_input c) (cr_data c)), tr_transaction_type := cr_transaction_type c,
     tr_access_list := cr_access_list c, tr_eip712_meta := cr_eip712_meta c\<rparr>"

definition l1_tx_from_request :: "u64 \<Rightarrow> call_request \<Rightarrow> bool \<Rightarrow> l1_tx res" where
  "l1_tx_from_request now c allow_no_target =
     and_then (from_request now (request_from_call c) MAX_ENCODED_TX_SIZE allow_no_target) (\<lambda>tx. case tx_common_data tx of
       L2Common d \<Rightarrow>
         and_then (u256_mul (fee_max_fee_per_gas (l2_fee d)) (fee_gas_limit (l2_fee d))) (\<lambda>cost.
         and_then (u256_add (ex_value (tx_execute tx)) cost) (\<lambda>total_needed_eth.
           Inr \<lparr>l1tx_execute = tx_execute tx,
             l1tx_common_data = \<lparr>l1_sender = l2_initiator_address d, l1_serial_id = 0, l1_layer_2_tip_fee = 0, l1_full_fee = 0,
               l1_max_fee_per_gas = fee_max_fee_per_gas (l2_fee d), l1_gas_limit = fee_gas_limit (l2_fee d),
               l1_gas_per_pubdata_limit = fee_gas_per_pubdata_limit (l2_fee d), l1_op_processing_type = OpCommon, l1_priority_queue_type = Deque,
               l1_canonical_tx_hash = 0, l1_to_mint = total_needed_eth, l1_refund_recipient = 0, l1_eth_block = 0\<rparr>,
             l1tx_received_timestamp_ms = 0\<rparr>))
     | _ \<Rightarrow> Inl (Panic TxHashError))"

end
