(* ===== verification/Request_Hashes.thy ===== *)
theory Request_Hashes
  imports Transaction_Request
begin

text \<open>
  The hash of an L2 transaction: what the raw bytes are given when they are parsed is what the VM recomputes from the form in
  which the bootloader sees the transaction.
\<close>

section \<open>Parsed requests\<close>

definition plain_request :: "transaction_request \<Rightarrow> bool" where
  "plain_request rq \<longleftrightarrow> (tr_transaction_type rq = None \<or> tr_transaction_type rq = Some (ucast EIP_1559_TX_TYPE)) \<and> tr_eip712_meta rq = None"

definition typed_request :: "transaction_request \<Rightarrow> bool" where
  "typed_request rq \<longleftrightarrow> is_eip712_tx rq \<and> tr_eip712_meta rq \<noteq> None \<and> tr_from rq \<noteq> None \<and> tr_chain_id rq \<noteq> None"

definition same_kind :: "transaction_request \<Rightarrow> transaction_request \<Rightarrow> bool" where
  "same_kind rq rq' \<longleftrightarrow> tr_transaction_type rq' = tr_transaction_type rq \<and> tr_eip712_meta rq' = tr_eip712_meta rq \<and>
     tr_from rq' = tr_from rq \<and> tr_chain_id rq' = tr_chain_id rq"

lemma fields_keep:
  "decode_standard_fields L bs n rq = Inr rq' \<Longrightarrow> same_kind rq rq'"
  "decode_eip1559_fields L bs n rq = Inr rq' \<Longrightarrow> same_kind rq rq'"
  unfolding decode_standard_fields_def decode_eip1559_fields_def same_kind_def by auto

lemma decode_legacy_plain: "decode_legacy L bs = Inr rq \<Longrightarrow> plain_request rq"
  by (auto simp: decode_legacy_def with_item_count_def default_request_def plain_request_def same_kind_def dest!: fields_keep)

lemma decode_eip1559_plain: "decode_eip1559 L bs = Inr rq \<Longrightarrow> plain_request rq"
  by (auto simp: decode_eip1559_def with_item_count_def default_request_def plain_request_def same_kind_def dest!: fields_keep split: option.splits)

lemma decode_eip712_typed: "decode_eip712 L bs = Inr rq \<Longrightarrow> typed_request rq \<and> tr_chain_id rq = u64_val_at L bs 10"
  by (auto simp: decode_eip712_def with_item_count_def default_request_def typed_request_def is_eip712_tx_def same_kind_def dest!: fields_keep split: option.splits)

lemma decode_request_cases:
  assumes "decode_request L raw = Inr rq"
  shows "plain_request rq \<or> typed_request rq \<and> tr_chain_id rq = extract_chain_id L raw"
  using assms decode_legacy_plain decode_eip1559_plain decode_eip712_typed
  by (cases raw) (auto simp: decode_request_def extract_chain_id_def tx_type_defs split: if_splits)

lemma plain_not_712: "plain_request rq \<Longrightarrow> \<not> is_eip712_tx rq"
  by (auto simp: plain_request_def is_eip712_tx_def tx_type_defs)

text \<open>What parsing establishes.\<close>

lemma from_bytes_plain:
  assumes "from_bytes_unverified E raw = Inr (req, h)" "\<not> is_eip712_tx req"
  shows "plain_request req" "tr_raw req = Some raw" "h = rq_keccak E raw"
proof -
  obtain rq where rq: "decode_request (rq_rlp E) raw = Inr rq"
    and req: "tr_transaction_type req = tr_transaction_type rq" "tr_eip712_meta req = tr_eip712_meta rq" "tr_raw req = Some raw"
    and h: "get_tx_hash_with_signed_message E req m = Inr (Some h)" for m
    using assms by (auto simp: from_bytes_unverified_def Let_def get_tx_hash_with_signed_message_def is_eip712_tx_def split: if_splits)
  have "\<not> typed_request rq" using assms(2) req(1) by (simp add: typed_request_def is_eip712_tx_def)
  then show "plain_request req" using decode_request_cases [OF rq] req by (simp add: plain_request_def)
  show "tr_raw req = Some raw" by (rule req(3))
  show "h = rq_keccak E raw" using h assms(2) req(3) by (simp add: get_tx_hash_with_signed_message_def)
qed

lemma from_bytes_typed:
  assumes "from_bytes_unverified E raw = Inr (req, h)" "is_eip712_tx req"
  shows "typed_request req" "tr_chain_id req = extract_chain_id (rq_rlp E) raw" "tr_raw req = Some raw"
    "\<exists>message. get_default_signed_message E req = Inr message \<and> get_tx_hash_with_signed_message E req message = Inr (Some h)"
proof -
  obtain rq message where rq: "decode_request (rq_rlp E) raw = Inr rq" and m: "get_default_signed_message E (rq\<lparr>tr_raw := Some raw\<rparr>) = Inr message"
    and req: "req = (if tr_from rq = None then rq\<lparr>tr_raw := Some raw, tr_from := ok (recover_default_signer E (rq\<lparr>tr_raw := Some raw\<rparr>) message)\<rparr>
      else rq\<lparr>tr_raw := Some raw\<rparr>)"
    and h: "get_tx_hash_with_signed_message E req message = Inr (Some h)"
    using assms(1) by (auto simp: from_bytes_unverified_def Let_def split: if_splits)
  have "is_eip712_tx rq" using assms(2) req by (auto simp: is_eip712_tx_def split: if_splits)
  then have typed: "typed_request rq" "tr_chain_id rq = extract_chain_id (rq_rlp E) raw"
    using decode_request_cases [OF rq] plain_not_712 by auto
  then have "req = rq\<lparr>tr_raw := Some raw\<rparr>" using req by (auto simp: typed_request_def)
  then show "typed_request req" "tr_chain_id req = extract_chain_id (rq_rlp E) raw" "tr_raw req = Some raw"
    "\<exists>message. get_default_signed_message E req = Inr message \<and> get_tx_hash_with_signed_message E req message = Inr (Some h)"
    using typed m h by (auto simp: typed_request_def is_eip712_tx_def)
qed

section \<open>From the request to the VM\<close>

lemma unat_bound_u256: "x \<le> 2 ^ 32 - 1 \<Longrightarrow> unat (x :: u256) < 2 ^ 32"
  by (simp add: word_le_nat_alt)

lemma nonce_kept:
  assumes "get_nonce_checked req = Inr n"
  shows "ucast n = tr_nonce req"
proof -
  have "n = ucast (tr_nonce req)" "unat (tr_nonce req) < 2 ^ 32"
    using assms unat_bound_u256 by (auto simp: get_nonce_checked_def)
  then have "unat (ucast n :: u256) = unat (tr_nonce req)"
    by (simp add: unsigned_ucast_eq unsigned_take_bit_eq take_bit_nat_eq_self)
  then show ?thesis by (rule unsigned_word_eqI)
qed

text \<open>The transaction a request becomes.\<close>

lemma from_request_fields:
  assumes "from_request_unverified now req allow = Inr tx"
  obtains f n where "get_fee_data_checked req = Inr f" "get_nonce_checked req = Inr n"
    "tx = \<lparr>tx_common_data = L2Common \<lparr>l2_nonce = n, l2_fee = f, l2_initiator_address = default_to 0 (tr_from req),
        l2_signature = (case get_signature req of Inr sig \<Rightarrow> sig | Inl _ \<Rightarrow> []), l2_transaction_type = request_transaction_type req,
        l2_input = None, l2_paymaster_params = default_to default_paymaster (meta_paymaster_params (default_to default_meta (tr_eip712_meta req)))\<rparr>,
      tx_execute = \<lparr>ex_contract_address = tr_to req, ex_calldata = tr_input req, ex_value = tr_value req,
        ex_factory_deps = meta_factory_deps (default_to default_meta (tr_eip712_meta req))\<rparr>,
      tx_received_timestamp_ms = now, tx_raw_bytes = tr_raw req\<rparr>"
    "is_eip712_tx req \<Longrightarrow> tr_to req \<noteq> None"
  using assms that unfolding from_request_unverified_def l2_tx_new_def by (auto simp: Let_def)

lemma deps_hashes_length: "deps_hashes sha deps = Inr hs \<Longrightarrow> length hs = length deps"
  by (induction deps arbitrary: hs) auto

lemma get_signature_nonempty: "get_signature rq = Inr sig \<Longrightarrow> sig \<noteq> []"
  by (auto simp: get_signature_def get_packed_signature_def into_electrum_def from_rsv_def split: option.splits if_splits)

lemma vm_hashes_of_l2:
  assumes "transaction_data_new sha xc tx emu = Inr td" "tx_common_data tx = L2Common d"
    and "l2_transaction_type d \<notin> {PriorityOpTransaction, ProtocolUpgradeTransaction}"
  defines "limit \<equiv> (if is_ethereum_type (l2_transaction_type d) then ucast MAX_GAS_PER_PUBDATA_BYTE else fee_gas_per_pubdata_limit (l2_fee d))"
  shows "signed_and_tx_hashes keccak A (l2_tx_hashes E) td chain =
      map_res (\<lambda>(signed, h). (Some signed, h)) (and_then (request_from_l2 (rq_rlp E) (d\<lparr>l2_input := None, l2_fee := (l2_fee d)\<lparr>fee_gas_per_pubdata_limit := limit\<rparr>\<rparr>)
        (tx_execute tx) (tx_raw_bytes tx)) (\<lambda>rq. expect_res ''Could not recover L2 transaction hash''
          (get_signed_and_tx_hashes_with_factory_dep_hashes E (rq\<lparr>tr_chain_id := Some chain\<rparr>) (td_factory_deps_hashes td))))"
    "deps_hashes sha (ex_factory_deps (tx_execute tx)) = Inr (td_factory_deps_hashes td)"
proof -
  obtain td0 hs where td0: "transaction_data_l2 xc emu tx d = Inr td0" "deps_hashes sha (td_factory_deps td0) = Inr hs"
    and td: "td = td0\<lparr>td_factory_deps_hashes := hs\<rparr>"
    using assms(1,2) by (auto simp: transaction_data_new_def)
  have f: "td_factory_deps td0 = ex_factory_deps (tx_execute tx)" "td_tx_type td0 = ucast (transaction_type_tag (l2_transaction_type d))"
    using td0(1) by (auto simp: transaction_data_l2_def Let_def)
  then have "\<not> is_l1_tx_type (td_tx_type td)" using assms(3) by (simp add: td is_l1_tx_type_tag)
  then show "signed_and_tx_hashes keccak A (l2_tx_hashes E) td chain =
      map_res (\<lambda>(signed, h). (Some signed, h)) (and_then (request_from_l2 (rq_rlp E) (d\<lparr>l2_input := None, l2_fee := (l2_fee d)\<lparr>fee_gas_per_pubdata_limit := limit\<rparr>\<rparr>)
        (tx_execute tx) (tx_raw_bytes tx)) (\<lambda>rq. expect_res ''Could not recover L2 transaction hash''
          (get_signed_and_tx_hashes_with_factory_dep_hashes E (rq\<lparr>tr_chain_id := Some chain\<rparr>) (td_factory_deps_hashes td))))"
    using assms(3) transaction_data_l2_roundtrip [OF assms(1,2)] by (simp add: signed_and_tx_hashes_def l2_tx_hashes_def limit_def)
  show "deps_hashes sha (ex_factory_deps (tx_execute tx)) = Inr (td_factory_deps_hashes td)"
    using td0(2) f by (simp add: td)
qed

lemma plain_hashes:
  assumes "\<not> is_eip712_tx rq" "tr_transaction_type rq \<in> {None, Some (ucast EIP_1559_TX_TYPE)}" "tr_raw rq = Some raw" "tr_chain_id rq = Some chain"
  shows "\<exists>signed. get_signed_and_tx_hashes_with_factory_dep_hashes E rq hs = Inr (signed, rq_keccak E raw)"
  using assms
  by (auto simp: get_signed_and_tx_hashes_with_factory_dep_hashes_def get_default_signed_message_with_factory_dep_hashes_def
      get_default_signed_message_def get_rlp_def request_rlp_def request_items_def body_rlp_def Let_def hashes_of_message_def get_tx_hash_with_signed_message_def)

lemma typed_hashes:
  assumes "is_eip712_tx rq" "tr_eip712_meta rq = Some m" "deps_hashes (rq_sha256 E) (meta_factory_deps m) = Inr hs"
  shows "get_signed_and_tx_hashes_with_factory_dep_hashes E rq hs = get_signed_and_tx_hashes E rq"
  using assms deps_hashes_length [OF assms(3)]
  by (simp add: get_signed_and_tx_hashes_with_factory_dep_hashes_def get_default_signed_message_with_factory_dep_hashes_def
      get_signed_and_tx_hashes_def get_default_signed_message_def get_factory_deps_def)

lemma typed_message_same:
  assumes "is_eip712_tx rq" "is_eip712_tx rq'" "tr_chain_id rq' = tr_chain_id rq" "get_factory_deps rq' = get_factory_deps rq"
    and "\<And>hs. request_members rq' hs = request_members rq hs"
  shows "get_default_signed_message E rq' = get_default_signed_message E rq"
  using assms by (simp add: get_default_signed_message_def typed_message_def)

text \<open>The request that the VM rebuilds from a typed request signs the same message.\<close>

lemma rebuilt_request:
  assumes "typed_request req" "from_request_unverified now req allow = Inr tx" "get_signature req = Inr sig" "tr_chain_id req = Some chain"
    and "tx_common_data tx = L2Common d"
  shows "\<exists>rq m. request_from_l2 L (d\<lparr>l2_input := None\<rparr>) (tx_execute tx) raw = Inr rq \<and> is_eip712_tx rq \<and> tr_eip712_meta rq = Some m \<and>
    meta_factory_deps m = ex_factory_deps (tx_execute tx) \<and> meta_factory_deps m = get_factory_deps req \<and>
    get_signature (rq\<lparr>tr_chain_id := Some chain\<rparr>) = Inr sig \<and>
    get_default_signed_message E (rq\<lparr>tr_chain_id := Some chain\<rparr>) = get_default_signed_message E req"
proof -
  obtain meta a where meta: "tr_eip712_meta req = Some meta" "tr_from req = Some a" and ty: "is_eip712_tx req"
    using assms(1) by (auto simp: typed_request_def)
  then have rt: "request_transaction_type req = EIP712Transaction"
    by (simp add: is_eip712_tx_def request_transaction_type_def tx_type_defs)
  obtain f n where f: "get_fee_data_checked req = Inr f" and n: "get_nonce_checked req = Inr n"
    and tx0: "tx = \<lparr>tx_common_data = L2Common \<lparr>l2_nonce = n, l2_fee = f, l2_initiator_address = default_to 0 (tr_from req),
        l2_signature = (case get_signature req of Inr sig \<Rightarrow> sig | Inl _ \<Rightarrow> []), l2_transaction_type = request_transaction_type req,
        l2_input = None, l2_paymaster_params = default_to default_paymaster (meta_paymaster_params (default_to default_meta (tr_eip712_meta req)))\<rparr>,
      tx_execute = \<lparr>ex_contract_address = tr_to req, ex_calldata = tr_input req, ex_value = tr_value req,
        ex_factory_deps = meta_factory_deps (default_to default_meta (tr_eip712_meta req))\<rparr>,
      tx_received_timestamp_ms = now, tx_raw_bytes = tr_raw req\<rparr>"
    by (rule from_request_fields [OF assms(2)])
  have tx: "tx = \<lparr>tx_common_data = L2Common \<lparr>l2_nonce = n, l2_fee = f, l2_initiator_address = a, l2_signature = sig,
        l2_transaction_type = EIP712Transaction, l2_input = None, l2_paymaster_params = default_to default_paymaster (meta_paymaster_params meta)\<rparr>,
      tx_execute = \<lparr>ex_contract_address = tr_to req, ex_calldata = tr_input req, ex_value = tr_value req, ex_factory_deps = meta_factory_deps meta\<rparr>,
      tx_received_timestamp_ms = now, tx_raw_bytes = tr_raw req\<rparr>"
    using tx0 meta assms(3) rt by simp
  have fee: "fee_max_fee_per_gas f = tr_gas_price req" "fee_gas_limit f = tr_gas req" "fee_gas_per_pubdata_limit f = meta_gas_per_pubdata meta"
    "fee_max_priority_fee_per_gas f = default_to (tr_gas_price req) (tr_max_priority_fee_per_gas req)"
    using f meta by (auto simp: get_fee_data_checked_def Let_def)
  obtain v r s where vrs: "signature_to_vrs sig EIP712Transaction = (v, r, s)" by (metis prod_cases3)
  let ?rq = "\<lparr>tr_nonce = tr_nonce req, tr_from = Some a, tr_to = tr_to req, tr_value = tr_value req, tr_gas_price = tr_gas_price req,
    tr_gas = tr_gas req, tr_max_priority_fee_per_gas = Some (default_to (tr_gas_price req) (tr_max_priority_fee_per_gas req)),
    tr_input = tr_input req, tr_v = v, tr_r = r, tr_s = s, tr_raw = raw, tr_transaction_type = Some (ucast EIP_712_TX_TYPE), tr_access_list = None,
    tr_eip712_meta = Some \<lparr>meta_gas_per_pubdata = meta_gas_per_pubdata meta, meta_factory_deps = meta_factory_deps meta,
      meta_custom_signature = Some sig, meta_paymaster_params = Some (default_to default_paymaster (meta_paymaster_params meta))\<rparr>,
    tr_chain_id = None\<rparr>"
  have d: "d = \<lparr>l2_nonce = n, l2_fee = f, l2_initiator_address = a, l2_signature = sig, l2_transaction_type = EIP712Transaction, l2_input = None,
      l2_paymaster_params = default_to default_paymaster (meta_paymaster_params meta)\<rparr>"
    using assms(5) tx by simp
  have rq: "request_from_l2 L (d\<lparr>l2_input := None\<rparr>) (tx_execute tx) raw = Inr ?rq"
    using vrs fee nonce_kept [OF n] by (simp add: request_from_l2_def tx d tx_type_defs)
  have ty': "is_eip712_tx ?rq" by (simp add: is_eip712_tx_def)
  have "get_signature (?rq\<lparr>tr_chain_id := Some chain\<rparr>) = Inr sig"
    using get_signature_nonempty [OF assms(3)] by (simp add: get_signature_def get_custom_signature_def)
  moreover have "get_default_signed_message E (?rq\<lparr>tr_chain_id := Some chain\<rparr>) = get_default_signed_message E req"
  proof (rule typed_message_same)
    show "request_members (?rq\<lparr>tr_chain_id := Some chain\<rparr>) hs = request_members req hs" for hs
      using meta ty
      by (cases "meta_paymaster_params meta") (simp_all add: request_members_def is_eip712_tx_def get_paymaster_def get_paymaster_input_def)
  qed (use ty ty' meta assms(4) in \<open>simp_all add: is_eip712_tx_def get_factory_deps_def\<close>)
  ultimately show ?thesis
    using rq ty' meta by (simp add: tx get_factory_deps_def)
qed

text \<open>
  C10. The VM computes the hash that the raw bytes were given. For an L2 transaction parsed from raw bytes, whatever its format, the
  hash recomputed from the form in which the bootloader sees it is the hash stored with the transaction; a typed transaction
  for this chain is also checked against the message that was signed.
\<close>

theorem vm_hash_is_request_hash:
  assumes "from_bytes_unverified E raw = Inr (req, h)" "from_request_unverified now req allow = Inr tx"
    and "transaction_data_new (rq_sha256 E) (extract_chain_id (rq_rlp E)) (set_input tx raw h) emu = Inr td"
    and "is_eip712_tx req \<longrightarrow> extract_chain_id (rq_rlp E) raw = Some chain"
  shows "\<exists>signed. signed_and_tx_hashes (rq_keccak E) A (l2_tx_hashes E) td chain = Inr (Some signed, h) \<and>
    tx_hash (set_input tx raw h) = Inr h \<and> (is_eip712_tx req \<longrightarrow> get_default_signed_message E req = Inr signed)"
proof -
  obtain f n where tx: "tx = \<lparr>tx_common_data = L2Common \<lparr>l2_nonce = n, l2_fee = f, l2_initiator_address = default_to 0 (tr_from req),
        l2_signature = (case get_signature req of Inr sig \<Rightarrow> sig | Inl _ \<Rightarrow> []), l2_transaction_type = request_transaction_type req,
        l2_input = None, l2_paymaster_params = default_to default_paymaster (meta_paymaster_params (default_to default_meta (tr_eip712_meta req)))\<rparr>,
      tx_execute = \<lparr>ex_contract_address = tr_to req, ex_calldata = tr_input req, ex_value = tr_value req,
        ex_factory_deps = meta_factory_deps (default_to default_meta (tr_eip712_meta req))\<rparr>,
      tx_received_timestamp_ms = now, tx_raw_bytes = tr_raw req\<rparr>"
    by (rule from_request_fields [OF assms(2)])
  obtain d where d: "tx_common_data tx = L2Common d" "l2_transaction_type d = request_transaction_type req" using tx by simp
  let ?d = "d\<lparr>l2_input := Some \<lparr>in_hash = h, in_data = raw\<rparr>\<rparr>"
  have in': "tx_common_data (set_input tx raw h) = L2Common ?d" "tx_execute (set_input tx raw h) = tx_execute tx"
    "tx_raw_bytes (set_input tx raw h) = tr_raw req"
    using d(1) tx by (simp_all add: set_input_def)
  have stored: "tx_hash (set_input tx raw h) = Inr h" by (simp add: tx_hash_def in' l2_hash_def)
  have kind: "l2_transaction_type ?d \<notin> {PriorityOpTransaction, ProtocolUpgradeTransaction}"
    using d(2) by (auto simp: request_transaction_type_def split: option.splits if_splits)
  note vm = vm_hashes_of_l2 [OF assms(3) in'(1) kind, unfolded in']
  show ?thesis
  proof (cases "is_eip712_tx req")
    case True
    note p = from_bytes_typed [OF assms(1) True]
    obtain message where m: "get_default_signed_message E req = Inr message" "get_tx_hash_with_signed_message E req message = Inr (Some h)"
      using p(4) by blast
    then obtain sig where sig: "get_signature req = Inr sig" "h = rq_keccak E (as_bytes message @ as_bytes (rq_keccak E sig))"
      using True by (auto simp: get_tx_hash_with_signed_message_def)
    have chain: "tr_chain_id req = Some chain" using assms(4) True p(2) by simp
    obtain rq meta where rq: "request_from_l2 (rq_rlp E) (d\<lparr>l2_input := None\<rparr>) (tx_execute tx) (tr_raw req) = Inr rq" "is_eip712_tx rq"
      "tr_eip712_meta rq = Some meta" "meta_factory_deps meta = ex_factory_deps (tx_execute tx)"
      "get_signature (rq\<lparr>tr_chain_id := Some chain\<rparr>) = Inr sig"
      "get_default_signed_message E (rq\<lparr>tr_chain_id := Some chain\<rparr>) = Inr message"
      using rebuilt_request [OF p(1) assms(2) sig(1) chain d(1)] m(1) by metis
    have "get_signed_and_tx_hashes_with_factory_dep_hashes E (rq\<lparr>tr_chain_id := Some chain\<rparr>) (td_factory_deps_hashes td) = Inr (message, h)"
    proof (subst typed_hashes)
      show "deps_hashes (rq_sha256 E) (meta_factory_deps meta) = Inr (td_factory_deps_hashes td)" using vm(2) rq(4) by simp
    qed (use rq sig(2) in \<open>simp_all add: is_eip712_tx_def get_signed_and_tx_hashes_def hashes_of_message_def get_tx_hash_with_signed_message_def\<close>)
    moreover have "request_transaction_type req = EIP712Transaction"
      using True by (simp add: is_eip712_tx_def request_transaction_type_def tx_type_defs)
    ultimately show ?thesis
      using vm(1) rq(1) d(2) stored m(1) by (simp add: is_ethereum_type_def expect_res_def)
  next
    case False
    note p = from_bytes_plain [OF assms(1) False]
    have ty: "tr_transaction_type req = None \<and> request_transaction_type req = LegacyTransaction \<or>
        tr_transaction_type req = Some (ucast EIP_1559_TX_TYPE) \<and> request_transaction_type req = EIP1559Transaction"
      using p(1) by (auto simp: plain_request_def request_transaction_type_def tx_type_defs)
    have hashes: "\<exists>signed. expect_res w (get_signed_and_tx_hashes_with_factory_dep_hashes E (rq\<lparr>tr_chain_id := Some chain\<rparr>) hs) = Inr (signed, h)"
      if "tr_transaction_type rq \<in> {None, Some (ucast EIP_1559_TX_TYPE)}" "tr_raw rq = Some raw" for rq w hs
      using that plain_hashes [of "rq\<lparr>tr_chain_id := Some chain\<rparr>" raw chain E hs] p(3)
      by (auto simp: is_eip712_tx_def tx_type_defs expect_res_def)
    let ?g = "(l2_fee d)\<lparr>fee_gas_per_pubdata_limit := ucast MAX_GAS_PER_PUBDATA_BYTE\<rparr>"
    have eth: "is_ethereum_type (l2_transaction_type d)" using ty d(2) by (auto simp: is_ethereum_type_def)
    obtain v r s where "signature_to_vrs (l2_signature d) (l2_transaction_type d) = (v, r, s)" by (metis prod_cases3)
    then have "\<exists>rq. request_from_l2 (rq_rlp E) (d\<lparr>l2_input := None, l2_fee := ?g\<rparr>) (tx_execute tx) (tr_raw req) = Inr rq \<and>
        tr_transaction_type rq \<in> {None, Some (ucast EIP_1559_TX_TYPE)} \<and> tr_raw rq = Some raw"
      using ty d(2) p(2) by (elim disjE) (simp_all add: request_from_l2_def tx_type_defs)
    then obtain rq where rq: "request_from_l2 (rq_rlp E) (d\<lparr>l2_input := None, l2_fee := ?g\<rparr>) (tx_execute tx) (tr_raw req) = Inr rq"
      "tr_transaction_type rq \<in> {None, Some (ucast EIP_1559_TX_TYPE)}" "tr_raw rq = Some raw" by blast
    then obtain signed where "expect_res ''Could not recover L2 transaction hash''
        (get_signed_and_tx_hashes_with_factory_dep_hashes E (rq\<lparr>tr_chain_id := Some chain\<rparr>) (td_factory_deps_hashes td)) = Inr (signed, h)"
      using hashes by blast
    then show ?thesis using vm(1) rq(1) stored False eth by auto
  qed
qed

section \<open>An example\<close>

text \<open>A view that reads the same value everywhere, with a list of 16 items: a typed transaction for chain 27.\<close>

definition sample_rlp :: rlp where
  "sample_rlp = \<lparr>rlp_out = (\<lambda>_. [0xc0]), rlp_item_count = (\<lambda>_. Some 16), rlp_at = (\<lambda>_ _. Some []), rlp_uint = (\<lambda>_ _. Some 27),
     rlp_address = (\<lambda>_. Some 5), rlp_bytes = (\<lambda>_. Some [1]), rlp_bytes_list = (\<lambda>_. Some [])\<rparr>"

definition sample_request_env :: request_env where
  "sample_request_env = \<lparr>rq_sha256 = (\<lambda>_. 5), rq_keccak = (\<lambda>bs. word_of_nat (length bs)), rq_rlp = sample_rlp,
     rq_secp = \<lparr>recover_ecdsa = (\<lambda>_ _ _. None)\<rparr>, rq_now = 3\<rparr>"

definition sample_typed_request :: transaction_request where
  "sample_typed_request = \<lparr>tr_nonce = 27, tr_from = Some 5, tr_to = Some 5, tr_value = 27, tr_gas_price = 27, tr_gas = 27,
     tr_max_priority_fee_per_gas = Some 27, tr_input = [1], tr_v = Some 27, tr_r = Some 27, tr_s = Some 27, tr_raw = Some [0x71],
     tr_transaction_type = Some 0x71, tr_access_list = None,
     tr_eip712_meta = Some \<lparr>meta_gas_per_pubdata = 27, meta_factory_deps = [], meta_custom_signature = Some [1], meta_paymaster_params = None\<rparr>,
     tr_chain_id = Some 27\<rparr>"

lemmas sample_reads = uint_val_at_def u64_val_at_def address_val_at_def bytes_val_at_def list_val_at_def sample_rlp_def

lemma sample_decoded: "decode_request sample_rlp [0x71] = Inr (sample_typed_request\<lparr>tr_raw := None\<rparr>)"
  by (simp add: decode_request_def decode_eip712_def with_item_count_def vrs_at_def decode_eip1559_fields_def sample_reads
      paymaster_from_vector_def default_request_def sample_typed_request_def tx_type_defs)

lemma sample_parsed: "\<exists>h. from_bytes_unverified sample_request_env [0x71] = Inr (sample_typed_request, h)"
proof -
  have "is_eip712_tx sample_typed_request" by (simp add: is_eip712_tx_def sample_typed_request_def tx_type_defs)
  moreover have "rq_rlp sample_request_env = sample_rlp" by (simp add: sample_request_env_def)
  moreover have "(27 :: u64) \<le> L2_CHAIN_ID_MAX" by (simp add: L2_CHAIN_ID_MAX_def)
  moreover have "sample_typed_request\<lparr>tr_raw := Some [0x71]\<rparr> = sample_typed_request" by (simp add: sample_typed_request_def)
  ultimately show ?thesis
    using sample_decoded
    by (simp add: from_bytes_unverified_def Let_def validate_factory_deps_def get_default_signed_message_def typed_message_def l2_chain_id_new_def
        request_members_def get_factory_deps_def get_tx_hash_with_signed_message_def get_signature_def get_custom_signature_def sample_typed_request_def
        is_eip712_tx_def tx_type_defs)
qed

lemma sample_converted:
  "\<exists>tx d. from_request_unverified 3 sample_typed_request False = Inr tx \<and> tx_common_data tx = L2Common d \<and>
     ex_contract_address (tx_execute tx) = Some 5 \<and> ex_factory_deps (tx_execute tx) = []"
  by (simp add: from_request_unverified_def get_fee_data_checked_def get_nonce_checked_def Let_def sample_typed_request_def
      validate_factory_deps_def get_signature_def get_custom_signature_def l2_tx_new_def)

theorem vm_hash_is_request_hash_witness:
  "\<exists>tx td h signed. from_bytes_unverified sample_request_env [0x71] = Inr (sample_typed_request, h) \<and>
     from_request_unverified 3 sample_typed_request False = Inr tx \<and>
     transaction_data_new (\<lambda>_. 5) (extract_chain_id sample_rlp) (set_input tx [0x71] h) False = Inr td \<and>
     signed_and_tx_hashes (rq_keccak sample_request_env) spec_abi (l2_tx_hashes sample_request_env) td 27 = Inr (Some signed, h)"
proof -
  obtain h where h: "from_bytes_unverified sample_request_env [0x71] = Inr (sample_typed_request, h)" using sample_parsed by blast
  obtain tx d where tx: "from_request_unverified 3 sample_typed_request False = Inr tx" and d: "tx_common_data tx = L2Common d"
    "ex_contract_address (tx_execute tx) = Some 5" "ex_factory_deps (tx_execute tx) = []" using sample_converted by blast
  have env: "rq_rlp sample_request_env = sample_rlp" "rq_sha256 sample_request_env = (\<lambda>_. 5)" by (simp_all add: sample_request_env_def)
  obtain td where td: "transaction_data_new (\<lambda>_. 5) (extract_chain_id sample_rlp) (set_input tx [0x71] h) False = Inr td"
    using d by (simp add: transaction_data_new_def transaction_data_l2_def set_input_def Let_def)
  have chain: "is_eip712_tx sample_typed_request \<longrightarrow> extract_chain_id (rq_rlp sample_request_env) [0x71] = Some 27"
    by (simp add: extract_chain_id_def tx_type_defs sample_reads env)
  show ?thesis
    using vm_hash_is_request_hash [OF h tx _ chain, of False td spec_abi] td h tx by (auto simp: env)
qed

end
