(* ===== verification/Request_Codec.thy ===== *)
theory Request_Codec
  imports Request_Hashes
begin

text \<open>
  What a signature over a typed transaction binds, what an accepted request guarantees, and the round trip of a signed request
  through its bytes. Of the \<open>rlp\<close> crate the round trip needs that a view reads the items that were written.
\<close>

section \<open>What a typed signature binds\<close>

definition transaction_type_string :: string where
  "transaction_type_string = ''Transaction(uint256 txType,uint256 from,uint256 to,uint256 gasLimit,uint256 gasPerPubdataByteLimit,uint256 maxFeePerGas,uint256 maxPriorityFeePerGas,uint256 paymaster,uint256 nonce,uint256 value,bytes data,bytes32[] factoryDeps,bytes paymasterInput)''"

lemma request_type_string: "request_members rq hs = Inr ms \<Longrightarrow> eip712_encode_type ''Transaction'' ms = transaction_type_string"
  by (auto simp: request_members_def eip712_encode_type_def encode_members_def Let_def typed_name_def transaction_type_string_def
      outer_add_member_def)

lemma domain_type_string:
  "eip712_encode_type ''EIP712Domain'' (domain_members d) = ''EIP712Domain(string name,string version,uint256 chainId)''"
  by (simp add: domain_members_def eip712_encode_type_def encode_members_def typed_name_def outer_add_member_def)

text \<open>The strings that are hashed for a message.\<close>

definition struct_preimage :: "hash_fn \<Rightarrow> string \<Rightarrow> (string \<times> member_value) list \<Rightarrow> u8 list" where
  "struct_preimage keccak t ms = as_bytes (keccak (string_bytes (eip712_encode_type t ms))) @ concat (map as_bytes (encode_data keccak ms))"

definition message_preimages :: "hash_fn \<Rightarrow> u64 \<Rightarrow> transaction_request \<Rightarrow> h256 list \<Rightarrow> (string \<times> member_value) list \<Rightarrow> u8 list set" where
  "message_preimages keccak chain rq hs ms =
     {[0x19, 0x01] @ as_bytes (hash_struct keccak ''EIP712Domain'' (domain_members (domain_new chain))) @ as_bytes (hash_struct keccak ''Transaction'' ms),
      struct_preimage keccak ''EIP712Domain'' (domain_members (domain_new chain)), struct_preimage keccak ''Transaction'' ms,
      tr_input rq, concat (map as_bytes hs), default_to [] (get_paymaster_input rq)}"

lemma as_bytes_concat_inj: "concat (map as_bytes xs) = concat (map as_bytes ys) \<Longrightarrow> xs = ys" for xs ys :: "h256 list"
proof (induction xs arbitrary: ys)
  case Nil
  have "as_bytes y \<noteq> []" for y :: h256 by (metis length_be_bytes length_0_conv zero_neq_numeral)
  then show ?case using Nil by (cases ys) auto
next
  case (Cons x xs)
  have "length (as_bytes z) = 32" for z :: h256 by simp
  moreover obtain y ys' where "ys = y # ys'"
    using Cons.prems by (cases ys) (auto dest: arg_cong [where f = length])
  ultimately show ?case using Cons by (simp add: append_eq_append_conv)
qed

lemma address_value_inj: "from_be_bytes (address_bytes a) = (from_be_bytes (address_bytes b) :: u256) \<Longrightarrow> a = b"
proof -
  have "from_be_bytes (address_bytes x) = address_to_u256 x" for x
    by (simp add: address_to_u256_ucast from_be_bytes_be_bytes_wide)
  then show "from_be_bytes (address_bytes a) = (from_be_bytes (address_bytes b) :: u256) \<Longrightarrow> a = b"
    by (metis u256_to_address_inverse)
qed

lemma typed_message_struct:
  assumes "typed_message E rq chain (Inr hs) = Inr message"
  obtains ms where "request_members rq hs = Inr ms" "message = typed_data_to_signed_bytes (rq_keccak E) (domain_new chain) ''Transaction'' ms"
  using assms by (auto simp: typed_message_def l2_chain_id_new_def ensure_def split: if_splits)

lemma hash_struct_preimage: "hash_struct keccak t ms = keccak (struct_preimage keccak t ms)"
  by (simp add: hash_struct_def struct_preimage_def)

lemma struct_preimage_inj:
  assumes "struct_preimage keccak t ms = struct_preimage keccak t' ms'"
  shows "encode_data keccak ms = encode_data keccak ms'"
  using assms unfolding struct_preimage_def as_bytes_append_inj by (blast intro: as_bytes_concat_inj)

text \<open>
  C11. A typed signature binds the transaction: if the messages signed for two requests are equal, and Keccak has no collision
  on the strings that were hashed, then the chains agree and so do the hashes of the factory dependencies and every signed
  field, with an absent target or paymaster counted as zero and an absent priority fee as the gas price.
\<close>

theorem typed_message_binds:
  assumes "typed_message E rq chain (Inr hs) = Inr message" "typed_message E rq' chain' (Inr hs') = Inr message"
    and "request_members rq hs = Inr ms" "request_members rq' hs' = Inr ms'"
    and "inj_on (rq_keccak E) (message_preimages (rq_keccak E) chain rq hs ms \<union> message_preimages (rq_keccak E) chain' rq' hs' ms')"
  shows "chain = chain' \<and> hs = hs' \<and> tr_from rq = tr_from rq' \<and> default_to 0 (tr_to rq) = default_to 0 (tr_to rq') \<and>
    tr_gas rq = tr_gas rq' \<and> tr_gas_price rq = tr_gas_price rq' \<and> tr_nonce rq = tr_nonce rq' \<and> tr_value rq = tr_value rq' \<and>
    tr_input rq = tr_input rq' \<and> map_option meta_gas_per_pubdata (tr_eip712_meta rq) = map_option meta_gas_per_pubdata (tr_eip712_meta rq') \<and>
    default_to (tr_gas_price rq) (tr_max_priority_fee_per_gas rq) = default_to (tr_gas_price rq') (tr_max_priority_fee_per_gas rq') \<and>
    default_to 0 (get_paymaster rq) = default_to 0 (get_paymaster rq') \<and>
    default_to [] (get_paymaster_input rq) = default_to [] (get_paymaster_input rq')"
proof -
  let ?K = "rq_keccak E"
  let ?d = "domain_members (domain_new chain)" and ?d' = "domain_members (domain_new chain')"
  have inj: "?K x = ?K y \<Longrightarrow> x = y" if "x \<in> message_preimages ?K chain rq hs ms" "y \<in> message_preimages ?K chain' rq' hs' ms'" for x y
    using inj_onD [OF assms(5)] that by blast
  obtain m m' where "m = ms" "m' = ms'" "message = typed_data_to_signed_bytes ?K (domain_new chain) ''Transaction'' m"
    "message = typed_data_to_signed_bytes ?K (domain_new chain') ''Transaction'' m'"
    using typed_message_struct [OF assms(1)] typed_message_struct [OF assms(2)] assms(3,4) by (metis Inr_inject)
  then have "[0x19, 0x01] @ as_bytes (hash_struct ?K ''EIP712Domain'' ?d) @ as_bytes (hash_struct ?K ''Transaction'' ms) =
      [0x19, 0x01] @ as_bytes (hash_struct ?K ''EIP712Domain'' ?d') @ as_bytes (hash_struct ?K ''Transaction'' ms')"
    by (intro inj) (simp_all add: message_preimages_def typed_data_to_signed_bytes_def)
  then have "hash_struct ?K ''EIP712Domain'' ?d = hash_struct ?K ''EIP712Domain'' ?d'" "hash_struct ?K ''Transaction'' ms = hash_struct ?K ''Transaction'' ms'"
    by simp_all
  then have "struct_preimage ?K ''EIP712Domain'' ?d = struct_preimage ?K ''EIP712Domain'' ?d'"
    "struct_preimage ?K ''Transaction'' ms = struct_preimage ?K ''Transaction'' ms'"
    unfolding hash_struct_preimage by (auto intro!: inj simp: message_preimages_def)
  then have data: "encode_data ?K ?d = encode_data ?K ?d'" "encode_data ?K ms = encode_data ?K ms'"
    by (auto intro: struct_preimage_inj)
  have "chain = chain'"
    using data(1) by (simp add: encode_data_def domain_members_def domain_new_def) (metis ucast_ucast_u64)
  obtain meta meta' a a' where meta: "tr_eip712_meta rq = Some meta" "tr_eip712_meta rq' = Some meta'" and froms: "tr_from rq = Some a" "tr_from rq' = Some a'"
    using assms(3,4) by (auto simp: request_members_def)
  have "?K (tr_input rq) = ?K (tr_input rq')" "?K (concat (map as_bytes hs)) = ?K (concat (map as_bytes hs'))"
    "?K (default_to [] (get_paymaster_input rq)) = ?K (default_to [] (get_paymaster_input rq'))"
    using data(2) assms(3,4) meta froms by (auto simp: encode_data_def request_members_def)
  then have "tr_input rq = tr_input rq'" "concat (map as_bytes hs) = concat (map as_bytes hs')"
    "default_to [] (get_paymaster_input rq) = default_to [] (get_paymaster_input rq')"
    by (auto intro!: inj simp: message_preimages_def)
  then show ?thesis
    using data(2) assms(3,4) meta froms \<open>chain = chain'\<close>
    by (auto simp: encode_data_def request_members_def dest!: as_bytes_concat_inj address_value_inj)
qed

section \<open>Accepted requests\<close>

lemma validated_deps: "validate_factory_deps deps = Inr u \<Longrightarrow> dep \<in> set deps \<Longrightarrow> validate_bytecode dep = Inr ()"
proof (induction deps arbitrary: u)
  case (Cons d deps)
  then have "validate_bytecode d = Inr ()" "\<exists>u. validate_factory_deps deps = Inr u"
    by (auto simp: validate_factory_deps_def split: sum.splits)
  then show ?case using Cons by auto
qed simp

lemma u64_max_bound: "x \<le> u64_max \<Longrightarrow> unat (x :: u256) < 2 ^ 64"
  by (simp add: word_le_nat_alt)

text \<open>
  An accepted request is within the bounds of the VM: its prices fit 64 bits, its pubdata price is not zero, its nonce fits 32 bits
  and is not changed, its factory dependencies are valid bytecodes, and only an untyped request may lack a target, when allowed.
\<close>

theorem accepted_request_bounds:
  assumes "from_request_unverified now req allow = Inr tx"
  shows "\<exists>d. tx_common_data tx = L2Common d \<and> unat (fee_max_fee_per_gas (l2_fee d)) < 2 ^ 64 \<and>
    unat (fee_max_priority_fee_per_gas (l2_fee d)) < 2 ^ 64 \<and> 0 < unat (fee_gas_per_pubdata_limit (l2_fee d)) \<and>
    unat (fee_gas_per_pubdata_limit (l2_fee d)) < 2 ^ 64 \<and> unat (l2_nonce d) = unat (tr_nonce req) \<and>
    list_all (\<lambda>dep. validate_bytecode dep = Inr ()) (ex_factory_deps (tx_execute tx)) \<and>
    (ex_contract_address (tx_execute tx) = None \<longrightarrow> allow \<and> \<not> is_eip712_tx req)"
proof -
  obtain f n u where f: "get_fee_data_checked req = Inr f" and n: "get_nonce_checked req = Inr n"
    and deps: "validate_factory_deps (meta_factory_deps (default_to default_meta (tr_eip712_meta req))) = Inr u"
    and target: "tr_to req = None \<longrightarrow> allow \<and> \<not> is_eip712_tx req"
    and tx: "\<exists>d. tx_common_data tx = L2Common d \<and> l2_fee d = f \<and> l2_nonce d = n"
      "ex_factory_deps (tx_execute tx) = meta_factory_deps (default_to default_meta (tr_eip712_meta req))"
      "ex_contract_address (tx_execute tx) = tr_to req"
    using assms by (auto simp: from_request_unverified_def l2_tx_new_def Let_def)
  have "unat (fee_max_fee_per_gas f) < 2 ^ 64" "unat (fee_max_priority_fee_per_gas f) < 2 ^ 64"
    using f u64_max_bound by (auto simp: get_fee_data_checked_def Let_def)
  moreover have "0 < unat (fee_gas_per_pubdata_limit f)" "unat (fee_gas_per_pubdata_limit f) < 2 ^ 64"
    using f u64_max_bound
    by (auto simp: get_fee_data_checked_def Let_def DEFAULT_L2_TX_GAS_PER_PUBDATA_BYTE_def unat_gt_0 split: option.splits)
  moreover have "unat n = unat (tr_nonce req)"
  proof -
    have "unat (ucast n :: u256) = unat n"
      using unsigned_less [of n, where 'a = nat] by (simp add: unsigned_ucast_eq take_bit_nat_eq_self)
    then show ?thesis using nonce_kept [OF n] by simp
  qed
  moreover have "list_all (\<lambda>dep. validate_bytecode dep = Inr ()) (ex_factory_deps (tx_execute tx))"
    using validated_deps [OF deps] tx(2) by (simp add: list_all_iff)
  ultimately show ?thesis using tx target by auto
qed

text \<open>A typed transaction for a chain id beyond the maximum of \<open>L2ChainId\<close> aborts the parser instead of being refused.\<close>

lemma chain_id_panics:
  assumes "is_eip712_tx rq" "tr_chain_id rq = Some c" "L2_CHAIN_ID_MAX < c"
  shows "get_default_signed_message E rq = Inl (Panic (PanicMsg ''unwrap on Err''))"
  using assms by (simp add: get_default_signed_message_def typed_message_def l2_chain_id_new_def ensure_def not_le [symmetric])

section \<open>Round trip\<close>

lemma unpack_v_roundtrip:
  assumes "sig_v sig \<le> 1" "c \<le> L2_CHAIN_ID_MAX"
  shows "unpack_v (v_with_chain_id sig c) = Some (sig_v sig, Some c)"
proof -
  obtain b :: nat where b: "b < 2" "sig_v sig = word_of_nat b"
  proof (rule that [of "unat (sig_v sig)"])
    show "unat (sig_v sig) < 2" using assms(1) by (simp add: word_le_nat_alt)
  qed simp
  have c: "unat c < 2 ^ 52" using assms(2) by (simp add: L2_CHAIN_ID_MAX_def word_le_nat_alt)
  let ?v = "v_with_chain_id sig c"
  have v: "?v = word_of_nat (b + 35 + unat c * 2)"
    using b by (auto simp: v_with_chain_id_def less_2_cases_iff)
  have small: "unat (word_of_nat k :: u64) = k" if "k < 2 ^ 64" for k using that by (simp add: unat_of_nat)
  have uv: "unat ?v = b + 35 + unat c * 2" unfolding v by (rule small) (use b c in simp)
  have "?v - 35 = word_of_nat (b + unat c * 2)" by (simp add: v)
  moreover have "drop_bit 1 (word_of_nat (b + unat c * 2) :: u64) = c"
  proof -
    have "unat (word_of_nat (b + unat c * 2) :: u64) = b + unat c * 2" by (rule small) (use b c in simp)
    then have "unat (drop_bit 1 (word_of_nat (b + unat c * 2) :: u64)) = unat c"
      unfolding unat_drop_bit_eq using b by (simp add: drop_bit_eq_div)
    then show ?thesis by (rule unsigned_word_eqI)
  qed
  moreover have "35 \<le> ?v" "?v \<noteq> 27" "?v \<noteq> 28"
    using uv by (auto simp: word_le_nat_alt)
  ultimately show ?thesis using b by (auto simp: unpack_v_def Let_def less_2_cases_iff)
qed

text \<open>
  What the round trip asks of \<open>rlp\<close>: the view of a list that was written has its items, and an item reads as it was written. Only
  a string of 20 bytes is an address, and the empty string is the number zero.
\<close>

fun reads_item :: "rlp \<Rightarrow> u8 list \<Rightarrow> rlp_item \<Rightarrow> bool" where
  "reads_item L b (RlpUint v) \<longleftrightarrow> (\<forall>n. rlp_uint L n b = (if unat v < 2 ^ n then Some v else None))"
| "reads_item L b (RlpBytes x) \<longleftrightarrow> rlp_bytes L b = Some x \<and> rlp_address L b = (if length x = 20 then Some (from_be_bytes x) else None) \<and>
     (x = [] \<longrightarrow> (\<forall>n. rlp_uint L n b = Some 0))"
| "reads_item L b (RlpList is) \<longleftrightarrow> rlp_item_count L b = Some (length is) \<and> (\<forall>xs. is = map RlpBytes xs \<longrightarrow> rlp_bytes_list L b = Some xs)"

definition reads_list :: "rlp \<Rightarrow> u8 list \<Rightarrow> rlp_item list \<Rightarrow> bool" where
  "reads_list L b items \<longleftrightarrow> rlp_item_count L b = Some (length items) \<and>
     (\<forall>i < length items. \<exists>c. rlp_at L b i = Some c \<and> reads_item L c (items ! i))"

lemma reads_at:
  assumes "reads_list L b items" "i < length items"
  shows "items ! i = RlpUint v \<Longrightarrow> uint_val_at L b i = Some v"
    and "items ! i = RlpUint (ucast w) \<Longrightarrow> u64_val_at L b i = Some w"
    and "items ! i = rlp_opt rlp_of_address a \<Longrightarrow> address_val_at L b i = a"
    and "items ! i = RlpBytes x \<Longrightarrow> bytes_val_at L b i = Some x"
    and "items ! i = RlpList (map RlpBytes xs) \<Longrightarrow> list_val_at L b i = Some xs"
    and "items ! i = rlp_opt RlpUint y \<Longrightarrow> uint_val_at L b i = Some (default_to 0 y)"
    and "items ! i = rlp_opt RlpBytes z \<Longrightarrow> bytes_val_at L b i = Some (default_to [] z)"
proof -
  obtain c where c: "rlp_at L b i = Some c" "reads_item L c (items ! i)" using assms by (auto simp: reads_list_def)
  show "items ! i = RlpUint v \<Longrightarrow> uint_val_at L b i = Some v"
    using c unsigned_less [of v, where 'a = nat] by (simp add: uint_val_at_def)
  show "items ! i = RlpUint (ucast w) \<Longrightarrow> u64_val_at L b i = Some w"
    using c serial_id_fits [of w] by (simp add: u64_val_at_def)
  show "items ! i = rlp_opt rlp_of_address a \<Longrightarrow> address_val_at L b i = a"
    using c by (cases a) (simp_all add: address_val_at_def)
  show "items ! i = RlpBytes x \<Longrightarrow> bytes_val_at L b i = Some x"
    using c by (simp add: bytes_val_at_def)
  show "items ! i = RlpList (map RlpBytes xs) \<Longrightarrow> list_val_at L b i = Some xs"
    using c by (simp add: list_val_at_def)
  show "items ! i = rlp_opt RlpUint y \<Longrightarrow> uint_val_at L b i = Some (default_to 0 y)"
  proof (cases y)
    case (Some v)
    then show "items ! i = rlp_opt RlpUint y \<Longrightarrow> uint_val_at L b i = Some (default_to 0 y)"
      using c unsigned_less [of v, where 'a = nat] by (simp add: uint_val_at_def)
  qed (use c in \<open>simp add: uint_val_at_def\<close>)
  show "items ! i = rlp_opt RlpBytes z \<Longrightarrow> bytes_val_at L b i = Some (default_to [] z)"
    using c by (cases z) (simp_all add: bytes_val_at_def)
qed

lemma reads_count: "reads_list L b items \<Longrightarrow> length items = n \<Longrightarrow> with_item_count L b n k = k"
  by (simp add: with_item_count_def reads_list_def)

lemma small_v: "ucast (w :: u8) = (ucast (ucast w :: u64) :: u256)"
  by (rule bit_word_eqI) (auto simp: bit_ucast_iff dest: bit_imp_le_length)

text \<open>
  What is left of a signed request after its bytes are read, or how reading fails. Every format keeps the target, the
  prices, the value, the input and the chain id; a typed format keeps the priority fee, an absent one as zero, and the
  zkSync format the sender and the meta data, an absent custom signature as the empty one. Nothing else is written.
  Refused are an untyped request without a chain id, whose recovery byte 0 or 1 is not one \<open>unpack_v\<close> knows, a request
  with an access list, a zkSync request without meta data or sender, and one whose type is given as legacy.
\<close>

definition kept_fields :: "transaction_request \<Rightarrow> eth_signature \<Rightarrow> transaction_request" where
  "kept_fields rq sig = default_request\<lparr>tr_nonce := tr_nonce rq, tr_gas_price := tr_gas_price rq, tr_gas := tr_gas rq, tr_to := tr_to rq,
     tr_value := tr_value rq, tr_input := tr_input rq, tr_chain_id := tr_chain_id rq, tr_transaction_type := tr_transaction_type rq,
     tr_v := Some (ucast (sig_v sig)), tr_r := Some (sig_r sig), tr_s := Some (sig_s sig)\<rparr>"

definition kept_typed_fields :: "transaction_request \<Rightarrow> eth_signature \<Rightarrow> transaction_request" where
  "kept_typed_fields rq sig =
     (kept_fields rq sig)\<lparr>tr_max_priority_fee_per_gas := Some (default_to 0 (tr_max_priority_fee_per_gas rq))\<rparr>"

definition received :: "transaction_request \<Rightarrow> eth_signature \<Rightarrow> u8 list \<Rightarrow> transaction_request res" where
  "received rq sig payload =
     (if tr_transaction_type rq = None
      then (case tr_chain_id rq of
          None \<Rightarrow> Inl (Failure ''invalid signature'')
        | Some c \<Rightarrow> Inr ((kept_fields rq sig)\<lparr>tr_v := Some (v_with_chain_id sig c)\<rparr>))
      else if tr_transaction_type rq = Some (ucast EIP_1559_TX_TYPE)
      then if default_to [] (tr_access_list rq) = [] then Inr ((kept_typed_fields rq sig)\<lparr>tr_raw := Some payload\<rparr>)
        else Inl (Failure ''access lists are not supported'')
      else if is_eip712_tx rq
      then (case (tr_eip712_meta rq, tr_from rq) of
          (Some m, Some a) \<Rightarrow> Inr ((kept_typed_fields rq sig)\<lparr>tr_from := Some a,
            tr_eip712_meta := Some (m\<lparr>meta_custom_signature := Some (default_to [] (meta_custom_signature m))\<rparr>)\<rparr>)
        | _ \<Rightarrow> Inl (Failure ''decodeRlpError''))
      else if tr_transaction_type rq = Some (ucast EIP_2930_TX_TYPE) then Inl (Failure ''access lists are not supported'')
      else Inl (Failure ''transaction type is not supported''))"

lemmas received_simps = received_def kept_typed_fields_def kept_fields_def default_request_def

lemma unpack_v_small: "v \<le> 1 \<Longrightarrow> unpack_v (ucast (v :: u8)) = None"
proof -
  assume "v \<le> 1"
  then have "unat v = unat (0 :: u8) \<or> unat v = unat (1 :: u8)" by (auto simp: word_le_nat_alt)
  then have "v = 0 \<or> v = 1" unfolding word_unat_eq_iff [symmetric] .
  then show ?thesis by (auto simp: unpack_v_def word_le_nat_alt)
qed

lemma decode_legacy_roundtrip:
  assumes "reads_list L b (standard_fields rq @ signature_rlp rq (Some sig))" "tr_transaction_type rq = None" "sig_v sig \<le> 1"
    and "\<And>c. tr_chain_id rq = Some c \<Longrightarrow> c \<le> L2_CHAIN_ID_MAX"
  shows "decode_legacy L b = received rq sig payload"
proof -
  define w where "w = (case tr_chain_id rq of Some c \<Rightarrow> v_with_chain_id sig c | None \<Rightarrow> ucast (sig_v sig))"
  have items: "standard_fields rq @ signature_rlp rq (Some sig) = [RlpUint (tr_nonce rq), RlpUint (tr_gas_price rq), RlpUint (tr_gas rq),
      rlp_opt rlp_of_address (tr_to rq), RlpUint (tr_value rq), RlpBytes (tr_input rq), RlpUint (ucast w), RlpUint (sig_r sig), RlpUint (sig_s sig)]"
    using assms(2) small_v [of "sig_v sig"]
    by (simp add: standard_fields_def signature_rlp_def is_legacy_tx_def w_def split: option.splits)
  note r = reads_at [OF assms(1)[unfolded items]] and n = reads_count [OF assms(1)[unfolded items]]
  have "unpack_v w = map_option (\<lambda>c. (sig_v sig, Some c)) (tr_chain_id rq)"
    using unpack_v_roundtrip [OF assms(3)] unpack_v_small [OF assms(3)] assms(4) by (simp add: w_def split: option.splits)
  then show ?thesis
    using assms(2)
    by (simp add: decode_legacy_def n vrs_at_def decode_standard_fields_def r(1) r(2) r(3) r(4) received_simps w_def split: option.splits)
qed

lemma decode_eip1559_roundtrip:
  assumes "reads_list L b (RlpUint (ucast c) # eip1559_fields rq @ [access_list_rlp (tr_access_list rq)] @ signature_rlp rq (Some sig))"
    and "tr_chain_id rq = Some c" "tr_transaction_type rq = Some (ucast EIP_1559_TX_TYPE)"
  shows "decode_eip1559 L b = received rq sig b"
proof -
  have items: "RlpUint (ucast c) # eip1559_fields rq @ [access_list_rlp (tr_access_list rq)] @ signature_rlp rq (Some sig) =
      [RlpUint (ucast c), RlpUint (tr_nonce rq), rlp_opt RlpUint (tr_max_priority_fee_per_gas rq), RlpUint (tr_gas_price rq), RlpUint (tr_gas rq),
       rlp_opt rlp_of_address (tr_to rq), RlpUint (tr_value rq), RlpBytes (tr_input rq), access_list_rlp (tr_access_list rq),
       RlpUint (ucast (ucast (sig_v sig) :: u64)), RlpUint (sig_r sig), RlpUint (sig_s sig)]"
    using assms(2-) by (simp add: eip1559_fields_def signature_rlp_def is_legacy_tx_def tx_type_defs small_v [symmetric])
  note r = reads_at [OF assms(1)[unfolded items]] and n = reads_count [OF assms(1)[unfolded items]]
  obtain al where "rlp_at L b 8 = Some al" "rlp_item_count L al = Some (length (default_to [] (tr_access_list rq)))"
    using assms(1) [unfolded items] unfolding reads_list_def
    by (cases "tr_access_list rq") (auto dest!: spec [of _ 8] simp: access_list_rlp_def)
  then show ?thesis
    using assms(2-)
    by (simp add: decode_eip1559_def n vrs_at_def decode_eip1559_fields_def r(1) r(2) r(3) r(4) r(6) received_simps)
qed

lemma paymaster_roundtrip:
  "paymaster_from_vector (case pm of Some p \<Rightarrow> [address_bytes (pm_paymaster p), pm_paymaster_input p] | None \<Rightarrow> []) = Inr pm"
  by (cases pm) (simp_all add: paymaster_from_vector_def)

lemma decode_eip712_roundtrip:
  assumes "reads_list L b (eip1559_fields rq @ signature_rlp rq (Some sig) @ [RlpUint (ucast c), rlp_opt rlp_of_address (tr_from rq)] @ meta_rlp m)"
    and "tr_chain_id rq = Some c" "is_eip712_tx rq" "tr_eip712_meta rq = Some m"
  shows "decode_eip712 L b = received rq sig payload"
proof -
  let ?pm = "case meta_paymaster_params m of Some p \<Rightarrow> [address_bytes (pm_paymaster p), pm_paymaster_input p] | None \<Rightarrow> []"
  have t: "tr_transaction_type rq = Some (ucast EIP_712_TX_TYPE)" using assms(3) by (simp add: is_eip712_tx_def)
  have pm: "RlpList (case meta_paymaster_params m of Some p \<Rightarrow> [rlp_of_address (pm_paymaster p), RlpBytes (pm_paymaster_input p)] | None \<Rightarrow> []) =
      RlpList (map RlpBytes ?pm)"
    by (simp split: option.splits)
  have items: "eip1559_fields rq @ signature_rlp rq (Some sig) @ [RlpUint (ucast c), rlp_opt rlp_of_address (tr_from rq)] @ meta_rlp m =
      [RlpUint (tr_nonce rq), rlp_opt RlpUint (tr_max_priority_fee_per_gas rq), RlpUint (tr_gas_price rq), RlpUint (tr_gas rq),
       rlp_opt rlp_of_address (tr_to rq), RlpUint (tr_value rq), RlpBytes (tr_input rq), RlpUint (ucast (ucast (sig_v sig) :: u64)),
       RlpUint (sig_r sig), RlpUint (sig_s sig), RlpUint (ucast c), rlp_opt rlp_of_address (tr_from rq), RlpUint (meta_gas_per_pubdata m),
       RlpList (map RlpBytes (meta_factory_deps m)), rlp_opt RlpBytes (meta_custom_signature m), RlpList (map RlpBytes ?pm)]"
    using assms(2-) t pm by (simp add: eip1559_fields_def signature_rlp_def is_legacy_tx_def tx_type_defs small_v [symmetric] meta_rlp_def)
  note r = reads_at [OF assms(1)[unfolded items]] and n = reads_count [OF assms(1)[unfolded items]]
  have dep: "list_val_at L b 13 = Some (meta_factory_deps m)" and pm': "list_val_at L b 15 = Some ?pm"
    using r(5) [of 13 "meta_factory_deps m"] r(5) [of 15 ?pm] by simp_all
  have sender: "address_val_at L b 11 = tr_from rq" using r(3) [of 11 "tr_from rq"] by simp
  show ?thesis
    using assms(2-) t paymaster_roundtrip [of "meta_paymaster_params m"]
    by (cases m; cases "tr_from rq")
      (simp_all add: decode_eip712_def n vrs_at_def decode_eip1559_fields_def dep pm' sender r(1) r(2) r(3) r(4) r(6) r(7) received_simps tx_type_defs)
qed

lemma decode_eip712_no_meta:
  assumes "reads_list L b (eip1559_fields rq @ signature_rlp rq (Some sig) @ [RlpUint (ucast c), rlp_opt rlp_of_address (tr_from rq)])"
    and "is_eip712_tx rq" "tr_eip712_meta rq = None"
  shows "decode_eip712 L b = received rq sig payload"
proof -
  have "length (signature_rlp rq (Some sig)) = 3" by (simp add: signature_rlp_def split: option.splits bool.splits)
  then have "rlp_item_count L b = Some 12" using assms(1) by (simp add: reads_list_def eip1559_fields_def)
  then show ?thesis
    using assms(2,3) by (simp add: decode_eip712_def with_item_count_def received_simps is_eip712_tx_def tx_type_defs)
qed

text \<open>
  C39. What becomes of a signed request on the wire: for every request that can be written and every signature with
  recovery byte 0 or 1, on a chain id \<open>L2ChainId\<close> admits, the bytes decode to exactly what \<open>received\<close> says: in each of
  the three formats the request with its signature, the members the format does not write dropped, an absent priority
  fee read as zero and an absent custom signature as the empty one, an untyped request with the recovery byte that
  carries its chain id; and the requests that cannot be read back are refused, among them every untyped one without a
  chain id. Of the \<open>rlp\<close> library it is assumed that it reads the items of the list it wrote, and that a list starts with
  a byte of at least 0x80.
\<close>

theorem signed_request_roundtrip:
  assumes "request_items rq (Some sig) = Inr items" "get_signed_bytes L rq sig = Inr bytes"
    and "sig_v sig \<le> 1" "\<And>c. tr_chain_id rq = Some c \<Longrightarrow> c \<le> L2_CHAIN_ID_MAX"
    and "reads_list L (rlp_out L (RlpList items)) items" "rlp_out L (RlpList items) = x # rest" "0x80 \<le> x"
  shows "decode_request L bytes = received rq sig (x # rest)"
proof -
  have bytes: "bytes = with_type_byte rq (x # rest)"
    using assms(1,2,6) by (auto simp: get_signed_bytes_def request_rlp_def)
  note reads = assms(5) [unfolded assms(6)]
  consider "tr_transaction_type rq = None" | "tr_transaction_type rq = Some (ucast EIP_1559_TX_TYPE)" | "is_eip712_tx rq"
    | "tr_transaction_type rq = Some (ucast EIP_2930_TX_TYPE)" | "tr_transaction_type rq = Some (ucast LEGACY_TX_TYPE)"
    using assms(1) by (auto simp: request_items_def body_rlp_def is_eip712_tx_def Let_def split: if_splits)
  then show ?thesis
  proof cases
    case 1
    then have "items = standard_fields rq @ signature_rlp rq (Some sig)"
      using assms(1) by (auto simp: request_items_def body_rlp_def is_eip712_tx_def)
    with decode_legacy_roundtrip [OF _ 1 assms(3,4)] reads show ?thesis
      using assms(7) 1 by (simp add: bytes with_type_byte_def decode_request_def)
  next
    case 2
    then obtain c where "tr_chain_id rq = Some c"
      "items = RlpUint (ucast c) # eip1559_fields rq @ [access_list_rlp (tr_access_list rq)] @ signature_rlp rq (Some sig)"
      using assms(1) by (auto simp: request_items_def body_rlp_def is_eip712_tx_def tx_type_defs)
    with decode_eip1559_roundtrip [OF _ _ 2] reads show ?thesis
      using 2 by (simp add: bytes with_type_byte_def decode_request_def tx_type_defs)
  next
    case 3
    then obtain c where c: "tr_chain_id rq = Some c" and items: "items = eip1559_fields rq @ signature_rlp rq (Some sig) @
        [RlpUint (ucast c), rlp_opt rlp_of_address (tr_from rq)] @ (case tr_eip712_meta rq of Some m \<Rightarrow> meta_rlp m | None \<Rightarrow> [])"
      using assms(1) by (auto simp: request_items_def body_rlp_def is_eip712_tx_def tx_type_defs)
    have "decode_eip712 L (x # rest) = received rq sig (x # rest)"
      using decode_eip712_roundtrip [OF _ c 3] decode_eip712_no_meta [OF _ 3] reads items by (cases "tr_eip712_meta rq") simp_all
    then show ?thesis using 3 by (simp add: bytes with_type_byte_def decode_request_def is_eip712_tx_def tx_type_defs)
  qed (simp_all add: bytes with_type_byte_def decode_request_def received_def is_eip712_tx_def tx_type_defs word_le_nat_alt)
qed

section \<open>Examples\<close>

theorem accepted_request_bounds_witness:
  "\<exists>tx d. from_request_unverified 3 sample_typed_request False = Inr tx \<and> tx_common_data tx = L2Common d \<and> unat (l2_nonce d) = 27"
proof -
  obtain tx where tx: "from_request_unverified 3 sample_typed_request False = Inr tx" using sample_converted by blast
  then show ?thesis using accepted_request_bounds [OF tx] by (auto simp: sample_typed_request_def)
qed

text \<open>A library that writes one byte for any item and reads the items of one list.\<close>

definition table_rlp :: "rlp_item list \<Rightarrow> rlp" where
  "table_rlp I = \<lparr>rlp_out = (\<lambda>_. [0xc0]),
     rlp_item_count = (\<lambda>b. case b of [z, i] \<Rightarrow> (case I ! unat i of RlpList is \<Rightarrow> Some (length is) | _ \<Rightarrow> None) | _ \<Rightarrow> Some (length I)),
     rlp_at = (\<lambda>b i. if i < length I then Some [0, word_of_nat i] else None),
     rlp_uint = (\<lambda>n b. case b of [z, i] \<Rightarrow> (case I ! unat i of RlpUint v \<Rightarrow> if unat v < 2 ^ n then Some v else None | RlpBytes [] \<Rightarrow> Some 0 | _ \<Rightarrow> None) | _ \<Rightarrow> None),
     rlp_address = (\<lambda>b. case b of [z, i] \<Rightarrow> (case I ! unat i of RlpBytes x \<Rightarrow> if length x = 20 then Some (from_be_bytes x) else None | _ \<Rightarrow> None) | _ \<Rightarrow> None),
     rlp_bytes = (\<lambda>b. case b of [z, i] \<Rightarrow> (case I ! unat i of RlpBytes x \<Rightarrow> Some x | _ \<Rightarrow> None) | _ \<Rightarrow> None),
     rlp_bytes_list = (\<lambda>b. case b of [z, i] \<Rightarrow> (case I ! unat i of RlpList is \<Rightarrow> Some (map (\<lambda>k. case k of RlpBytes x \<Rightarrow> x | _ \<Rightarrow> []) is) | _ \<Rightarrow> None) | _ \<Rightarrow> None)\<rparr>"

lemma table_reads:
  assumes "length I < 256"
  shows "reads_list (table_rlp I) [0xc0] I"
proof -
  have "unat (word_of_nat i :: u8) = i" if "i < length I" for i using assms that by (simp add: unat_of_nat)
  then have "reads_item (table_rlp I) [0, word_of_nat i] (I ! i)" if "i < length I" for i
    using that by (cases "I ! i") (auto simp: table_rlp_def comp_def)
  then show ?thesis by (simp add: reads_list_def) (simp add: table_rlp_def)
qed

definition sample_sent :: transaction_request where
  "sample_sent = sample_typed_request\<lparr>tr_raw := None\<rparr>"

text \<open>The same as an untyped request without a chain id.\<close>

definition sample_untyped :: transaction_request where
  "sample_untyped = sample_sent\<lparr>tr_transaction_type := None, tr_chain_id := None\<rparr>"

definition sample_signature :: eth_signature where
  "sample_signature = replicate 64 7 @ [1]"

lemma sample_items:
  "\<exists>items. request_items sample_sent (Some sample_signature) = Inr items \<and> length items = 16"
  "\<exists>items. request_items sample_untyped (Some sample_signature) = Inr items \<and> length items = 9"
  by (simp_all add: request_items_def body_rlp_def sample_untyped_def sample_sent_def sample_typed_request_def is_eip712_tx_def tx_type_defs
      eip1559_fields_def standard_fields_def signature_rlp_def is_legacy_tx_def meta_rlp_def)

lemma sample_sent_chain: "tr_chain_id sample_sent = Some c \<Longrightarrow> c \<le> L2_CHAIN_ID_MAX" "tr_chain_id sample_untyped = Some c \<Longrightarrow> c \<le> L2_CHAIN_ID_MAX"
  by (auto simp: sample_sent_def sample_untyped_def sample_typed_request_def L2_CHAIN_ID_MAX_def)

theorem signed_request_roundtrip_witness:
  "(\<exists>items bytes rq. request_items sample_sent (Some sample_signature) = Inr items \<and>
     get_signed_bytes (table_rlp items) sample_sent sample_signature = Inr bytes \<and>
     decode_request (table_rlp items) bytes = Inr rq \<and> tr_nonce rq = 27 \<and> tr_from rq = tr_from sample_sent) \<and>
   (\<exists>items bytes. request_items sample_untyped (Some sample_signature) = Inr items \<and>
     get_signed_bytes (table_rlp items) sample_untyped sample_signature = Inr bytes \<and>
     decode_request (table_rlp items) bytes = Inl (Failure ''invalid signature''))"
proof -
  have sig: "sig_v sample_signature \<le> 1" by (simp add: sig_v_def sample_signature_def nth_append)
  have out: "rlp_out (table_rlp items) (RlpList items) = [0xc0]" for items by (simp add: table_rlp_def)
  have reads: "reads_list (table_rlp items) (rlp_out (table_rlp items) (RlpList items)) items" if "length items < 256" for items
    unfolding out by (rule table_reads [OF that])
  obtain items where i: "request_items sample_sent (Some sample_signature) = Inr items" "length items = 16" using sample_items(1) by blast
  obtain bytes where b: "get_signed_bytes (table_rlp items) sample_sent sample_signature = Inr bytes"
    using i(1) by (simp add: get_signed_bytes_def request_rlp_def)
  have "decode_request (table_rlp items) bytes = received sample_sent sample_signature [0xc0]"
    by (rule signed_request_roundtrip [OF i(1) b sig sample_sent_chain(1) reads out]) (simp_all add: i)
  moreover have "\<exists>rq. received sample_sent sample_signature [0xc0] = Inr rq \<and> tr_nonce rq = 27 \<and> tr_from rq = tr_from sample_sent"
    by (simp add: received_simps sample_sent_def sample_typed_request_def is_eip712_tx_def tx_type_defs)
  moreover obtain items' where i': "request_items sample_untyped (Some sample_signature) = Inr items'" "length items' = 9"
    using sample_items(2) by blast
  moreover obtain bytes' where b': "get_signed_bytes (table_rlp items') sample_untyped sample_signature = Inr bytes'"
    using i'(1) by (simp add: get_signed_bytes_def request_rlp_def)
  moreover have "decode_request (table_rlp items') bytes' = received sample_untyped sample_signature [0xc0]"
    by (rule signed_request_roundtrip [OF i'(1) b' sig sample_sent_chain(2) reads out]) (simp_all add: i')
  moreover have "received sample_untyped sample_signature [0xc0] = Inl (Failure ''invalid signature'')"
    by (simp add: received_def sample_untyped_def)
  ultimately show ?thesis using i(1) b by auto
qed

lemma length_struct_preimage: "length (struct_preimage keccak t ms) = 32 + 32 * length ms"
proof -
  have "length (concat (map as_bytes xs)) = 32 * length xs" for xs :: "h256 list" by (induction xs) simp_all
  from this [of "encode_data keccak ms"] show ?thesis unfolding struct_preimage_def by (simp only: length_append length_be_bytes) (simp add: encode_data_def)
qed

lemma sample_preimages_inj:
  assumes "length ms = 13" "length ms' = 13" "get_paymaster_input rq = None" "get_paymaster_input rq' = None" "tr_input rq = [1]" "tr_input rq' = [1]"
    and "hash_struct keccak ''Transaction'' ms = hash_struct keccak ''Transaction'' ms'"
    and "struct_preimage keccak ''Transaction'' ms = struct_preimage keccak ''Transaction'' ms'"
    and "keccak = (\<lambda>bs. word_of_nat (length bs))"
  shows "inj_on keccak (message_preimages keccak 27 rq [8] ms \<union> message_preimages keccak 27 rq' [8] ms')"
proof (rule inj_onI)
  fix x y
  assume xy: "x \<in> message_preimages keccak 27 rq [8] ms \<union> message_preimages keccak 27 rq' [8] ms'"
    "y \<in> message_preimages keccak 27 rq [8] ms \<union> message_preimages keccak 27 rq' [8] ms'" "keccak x = keccak y"
  have small: "length z < 2 ^ 256" if "z \<in> message_preimages keccak 27 rq [8] ms \<union> message_preimages keccak 27 rq' [8] ms'" for z
    using that assms(1-6) by (auto simp: message_preimages_def length_struct_preimage domain_members_def)
  have "unat (keccak z) = length z" if "length z < 2 ^ 256" for z using that by (simp add: assms(9) unat_of_nat)
  then have "length x = length y" using xy(3) small [OF xy(1)] small [OF xy(2)] by metis
  then show "x = y"
    using xy(1,2) assms(1-8) by (auto simp: message_preimages_def length_struct_preimage domain_members_def)
qed

theorem typed_message_binds_witness:
  "\<exists>message. typed_message sample_request_env (sample_typed_request\<lparr>tr_to := Some 0\<rparr>) 27 (Inr [8]) = Inr message \<and>
     typed_message sample_request_env (sample_typed_request\<lparr>tr_to := None\<rparr>) 27 (Inr [8]) = Inr message \<and>
     tr_nonce (sample_typed_request\<lparr>tr_to := Some 0\<rparr>) = tr_nonce (sample_typed_request\<lparr>tr_to := None\<rparr>)"
proof -
  let ?rq = "sample_typed_request\<lparr>tr_to := Some 0\<rparr>" and ?rq' = "sample_typed_request\<lparr>tr_to := None\<rparr>"
  let ?K = "rq_keccak sample_request_env"
  have chain: "(27 :: u64) \<le> L2_CHAIN_ID_MAX" by (simp add: L2_CHAIN_ID_MAX_def)
  have members: "request_members ?rq' [8] = request_members ?rq [8]" "\<exists>ms. request_members ?rq [8] = Inr ms \<and> length ms = 13"
    by (simp_all add: request_members_def sample_typed_request_def get_paymaster_def get_paymaster_input_def)
  then obtain ms where ms: "request_members ?rq [8] = Inr ms" "request_members ?rq' [8] = Inr ms" "length ms = 13" by metis
  then obtain message where m: "typed_message sample_request_env ?rq 27 (Inr [8]) = Inr message" "typed_message sample_request_env ?rq' 27 (Inr [8]) = Inr message"
    using chain by (simp add: typed_message_def l2_chain_id_new_def)
  have "inj_on ?K (message_preimages ?K 27 ?rq [8] ms \<union> message_preimages ?K 27 ?rq' [8] ms)"
    by (rule sample_preimages_inj) (simp_all add: ms sample_typed_request_def get_paymaster_input_def sample_request_env_def)
  from typed_message_binds [OF m ms(1,2) this] show ?thesis using m by blast
qed

end
