(* ===== verification/Spec2Isabelle.thy ===== *)
theory Spec2Isabelle
  imports Verifier_Examples Vm_Trace Bytecode_Compression Bootloader_Examples Oracle_Examples Fast_Vm_Examples Deduplicator Protocol_Upgrade Request_Codec
begin

text \<open>
  \<^bold>\<open>The EraVM batch verifier.\<close> The program under \<open>src/\<close> re-executes one L1 batch of a ZKsync chain inside a proving
  guest. It is given the batch environment, the transactions grouped into L2 blocks, the bytecodes, the Merkle paths
  of every touched storage slot and the commitment input; it checks all of it, runs the VM on a storage view built
  from the Merkle paths, recomputes the state root from the VM's storage logs, and returns the batch commitment and
  the public input of the proof. This library models that pipeline and the parts of the VM wrapper, the data types
  and the encodings it rests on.

  \<^bold>\<open>Theories and sources\<close> (paths below \<open>src/crates/\<close>).
  \<^item> \<open>Prelude\<close>: bytes and words, the error type with one constructor per failing check, the result combinators
    (\<open>ensure\<close>, \<open>and_then\<close>, \<open>collect_res\<close>) and the lemma collections \<open>res_simps\<close> and \<open>bytes_simps\<close>.
  \<^item> \<open>Tree_Types\<close>, \<open>Hasher\<close>, \<open>Tree_Proofs\<close>: \<open>merkle_tree/src/types\<close>, \<open>merkle_tree/src/hasher\<close>; \<open>Sparse_Tree\<close> is the
    abstract tree they are verified against: a state is a finite map from keys to leaves, its root is defined by
    recursion on the depth, and honest paths are its siblings.
  \<^item> \<open>Witness_Paths\<close>: \<open>merkle_tree/src/witness.rs\<close>, the stored form of the Merkle paths and its normalisation.
  \<^item> \<open>Merkle_Witness\<close>, \<open>Merkle_Witness_Facts\<close>, \<open>Merkle_Witness_Correct\<close>: \<open>airbender_verifier/src/merkle_witness.rs\<close> and
    \<open>map_log_tree\<close> of \<open>lib.rs\<close>: the storage view and the streaming pass that yields the new root.
  \<^item> \<open>Bytecode\<close>, \<open>Bytecode_Compression\<close>: \<open>basic_types/src/bytecode.rs\<close>, \<open>multivm/src/utils/bytecode.rs\<close>.
  \<^item> \<open>State_Diffs\<close>, \<open>Mini_Merkle\<close>, \<open>Commitment_Types\<close>, \<open>Protocol_Version\<close>: \<open>types/src/writes.rs\<close> and \<open>compression.rs\<close>,
    \<open>mini_merkle_tree\<close>, \<open>types/src/commitment\<close>, \<open>basic_types/src/protocol_version.rs\<close>.
  \<^item> \<open>Verifier_Commitment\<close>: \<open>airbender_verifier/src/commitment.rs\<close>, the blob openings, the heap hash and the public input.
  \<^item> \<open>Vm_Params\<close>, \<open>Vm_Env\<close>, \<open>Storage_View\<close>: the bootloader memory layout and the fee model, the batch environment,
    the storage snapshot and the caching view (\<open>vm_interface\<close>, \<open>multivm\<close>, \<open>types/src/fee_model.rs\<close>).
  \<^item> \<open>Abi\<close>, \<open>Transactions\<close>, \<open>Pubdata_Builder\<close>, \<open>L2_Blocks\<close>: ABI tokens, the transaction types and \<open>TransactionData\<close>, the
    pubdata builders, block hashes and refunds.
  \<^item> \<open>L1_Transactions\<close>, \<open>Protocol_Upgrade\<close>: \<open>types/src/abi.rs\<close>, \<open>l1/mod.rs\<close> and \<open>protocol_upgrade.rs\<close>: priority requests, proposed
    upgrades, and their conversions from events to transactions.
  \<^item> \<open>Eip712\<close>, \<open>Transaction_Request\<close>, \<open>Request_Hashes\<close>, \<open>Request_Codec\<close>: \<open>crypto_primitives\<close> and \<open>types/src/transaction_request.rs\<close>: typed
    data, signatures, and the raw form of L2 transactions with its hashes.
  \<^item> \<open>Bootloader\<close>: the bootloader state of \<open>multivm/src/versions/vm_latest/bootloader\<close> and the hooks of
    \<open>vm_fast/vm.rs\<close> that write to the bootloader heap; \<open>Bootloader_Memory\<close>, \<open>Bootloader_Rollback\<close> and
    \<open>Bootloader_Ledger\<close> hold its theorems, \<open>Bootloader_Examples\<close> a concrete run.
  \<^item> \<open>Fast_World\<close>, \<open>Fast_Bytecode\<close>, \<open>Revert_Reason\<close>, \<open>Fast_Vm\<close>: the fast VM of \<open>multivm/src/versions/vm_fast\<close> and the errors of
    \<open>vm_interface/src/types/errors\<close>; the operations of \<open>Fast_Vm\<close> are an instance of the VM the verifier drives.
    \<open>Fast_Vm_Correct\<close>, \<open>Fast_Vm_Reach\<close>, \<open>Fast_Vm_Published\<close> hold its theorems, \<open>Fast_Vm_Examples\<close> a concrete run.
  \<^item> \<open>Deduplicator\<close>: \<open>multivm/src/utils/deduplicator.rs\<close>, the net storage writes of a batch in flight, with snapshots.
  \<^item> \<open>History_Recorder\<close>, \<open>Storage_Oracle\<close>, \<open>Storage_Oracle_Correct\<close>, \<open>Oracle_Rollback\<close>, \<open>Vm_Memory\<close>, \<open>Event_Sink\<close>, \<open>Vm_Events\<close>:
    the legacy VM's recorders, oracles, memory and event sink (\<open>multivm/src/versions/vm_latest/old_vm\<close>, \<open>oracles\<close>) and the
    events of both VMs; \<open>Oracle_Examples\<close> holds concrete runs.
  \<^item> \<open>Verifier\<close>, \<open>Vm_Trace\<close>, \<open>Verifier_Correct\<close>, \<open>Verifier_Examples\<close>: \<open>airbender_verifier/src/lib.rs\<close> and \<open>types.rs\<close>, the
    pipeline itself, the VM driver as a trace, the end-to-end theorems, and a demo batch that meets their hypotheses.

  \<^bold>\<open>State and effects.\<close> Structs are records, enums datatypes; \<open>u8\<close> to \<open>u64\<close>, \<open>U256\<close>, \<open>H256\<close> and addresses are words of
  that width, whose arithmetic wraps as in the release build; \<open>U256\<close> operations that panic on overflow are results.
  \<open>usize\<close> is \<open>nat\<close> where all values are bounded by the lengths of the inputs; where they are not, it is a 64-bit word that wraps
  (\<open>read_unaligned_bytes\<close>) or its width is a parameter (revert data, ABI offsets). Methods that change \<open>self\<close> return the new record.
  Every \<open>ensure!\<close>, \<open>bail!\<close>, \<open>expect\<close> and failing index is an \<open>Inl\<close>. Hash maps are partial maps, or entry lists where
  the code iterates over them. All recursions are structural or have a termination proof; no fuel is used. Two loops
  may run forever and are partial functions with \<open>None\<close> for not returning: \<open>run_loop\<close> of the fast VM, which the interpreter
  leaves when the program ends, and \<open>read_words\<close> of the legacy memory, shown to run forever exactly at the end of the address space.

  \<^bold>\<open>Parameters.\<close> Code outside \<open>src/\<close> is an argument: Keccak, Blake2s and SHA-256 (\<open>hash_fn\<close>), the fused path hasher, the
  BLS12-381 scalar field, \<open>ethabi\<close> (record \<open>abi\<close>), the zksync_vm2 interpreter (record \<open>vm2\<close>; the pipeline is verified for any VM with the
  operations of \<open>VmInterface\<close>, record \<open>vm_ops\<close>), zkevm_opcode_defs (record \<open>zkevm\<close>), the \<open>rlp\<close> crate (record \<open>rlp\<close>) and secp256k1. The bootloader model takes the hash of an L2 transaction as a parameter, for which \<open>l2_tx_hashes\<close> is the model. Where a theorem needs a property of them it is a hypothesis; hash functions
  are never assumed injective, only free of collisions on the finitely many strings of the run.

  \<^bold>\<open>What is proved.\<close> An accepted batch advances the committed state exactly by the VM's storage logs, and chains of
  accepted batches compose; the VM runs on the pre-batch state; honest batches are accepted; acceptance pins the
  environment; equal public inputs mean equal old and new states, code hashes, logs and diffs (\<open>Verifier_Correct\<close>). Below that: the streaming Merkle pass refines the
  abstract tree and equals the three-step oracle; normalisation decodes the legacy witness form; the storage view
  refines the snapshot with writes on top; blob openings are polynomial values; a commitment determines its parts and is determined by them; pubdata,
  state diffs, bytecodes, transactions and blocks survive their encodings; the bootloader layout has no overlap, the
  memory rebuilt at the end of a batch is the heap the bootloader ran on, snapshots restore the state up to refunds of
  transactions that were waiting; fees and refunds stay in their bounds. On the fast VM the verifier's driver gives every transaction to the bootloader exactly once, every
  signature is checked by the real precompile, validation gas is conserved, and the check for unpublished bytecodes is
  shown never to fail. Fast and legacy VM agree on pubdata prices and on events; the legacy storage oracle refines a store
  with nested transactions, its event sink reports the messages that stand, and rollbacks of oracle and memory undo
  everything since. Revert data is parsed alike on 32 and 64 bits and never aborts the parser.
  What becomes of a signed request when its bytes are read back is characterised for every format. The hash the VM computes for a priority transaction is the
  one L1 committed to, and for an L2 transaction the one its raw bytes were given; a typed signature binds every signed field; an accepted upgrade transaction is the proposed one, and decoding an upgrade never chooses between
  two readings.

  \<^bold>\<open>Interfaces\<close> are locales, each interpreted on the model's own definitions: \<open>tree_hasher\<close> and \<open>blake2s_path_hasher\<close>
  (\<open>Hasher\<close>) for node and path hashing, \<open>read_storage\<close> (\<open>Storage_View\<close>) for the storage the VM reads, interpreted for the
  snapshot, the view and the immutable view, \<open>serialize_commitment\<close> (\<open>Commitment_Types\<close>) for fixed-size serialisation,
  \<open>leaf_accumulator\<close> (\<open>Mini_Merkle\<close>) for the incremental Merkle tree, \<open>prime_scalar_field\<close> (\<open>Verifier_Commitment\<close>) for the
  field of the blob openings, \<open>with_history\<close> (\<open>History_Recorder\<close>) for values that record their changes, interpreted for
  vectors, maps, framed stacks and the memory, \<open>run_invariant\<close> (\<open>Fast_Vm_Correct\<close>) for what the interpreter and every hook
  keep, interpreted for the pushed transactions, the ecrecover shortcut and the cached bytecodes.

  \<^bold>\<open>Not modelled\<close>, and why: the vm2 interpreter (a separate package); the legacy VM of \<open>vm_latest\<close> beyond its bootloader state,
  recorders, oracles, memory and event sink; the tracers of both VMs but \<open>FastValidationTracer\<close>; the RocksDB-backed Merkle tree storage, pruning, recovery and consistency checks, which the
  guest does not use; API, web3 and serde glue; the command-line and benchmarking crates; tracing and metrics.
\<close>

end
